(* ===== verification/Prelude.thy ===== *)
theory Prelude
  imports Main "HOL-Library.AList"
begin

text \<open>
  Shared vocabulary of the development.

  A JavaScript string is a list of UTF-16 code units, so \<open>length\<close> counts what
  \<^verbatim>\<open>String.prototype.length\<close> counts and list order is code-unit order. ASCII literals of the
  source are written \<open>js ''...''\<close>. A \<^verbatim>\<open>Result<T, E>\<close> of the source is \<open>'e + 'a\<close> with
  \<open>Inl\<close> for \<^verbatim>\<open>err\<close> and \<open>Inr\<close> for \<^verbatim>\<open>ok\<close>.

  The theory also holds the string primitives the sources use of the language (decimal printing,
  \<^verbatim>\<open>split\<close>, \<^verbatim>\<open>indexOf\<close>, \<^verbatim>\<open>trim\<close>, the character classes of the regular expressions) with the
  generic lemmas on them that more than one component needs.
\<close>

named_theorems catalog_defs "closed catalogs and numeric limits of the sources"
named_theorems eval_defs "definitions unfolded when a closed instance is evaluated"

type_synonym jstr = "nat list"

definition js :: "string \<Rightarrow> jstr" where
  [eval_defs]: "js s = map of_char s"

lemma js_eq_iff [simp]: "js s = js t \<longleftrightarrow> s = t"
  by (simp add: js_def inj_map_eq_map inj_def)

lemma js_Nil [simp]: "js [] = []"
  by (simp add: js_def)

lemma length_js [simp]: "length (js s) = length s"
  by (simp add: js_def)

subsection \<open>Results\<close>

definition is_ok :: "'e + 'a \<Rightarrow> bool" where
  "is_ok r = (case r of Inl _ \<Rightarrow> False | Inr _ \<Rightarrow> True)"

lemma is_ok_simps [simp]: "is_ok (Inr x)" "\<not> is_ok (Inl e)"
  by (simp_all add: is_ok_def)

lemma is_ok_iff: "is_ok r \<longleftrightarrow> (\<exists>x. r = Inr x)"
  by (cases r) auto

subsection \<open>Decimal printing and reading\<close>

text \<open>\<^verbatim>\<open>String(n)\<close> for a non-negative integer, and the integer a digit string denotes.\<close>

fun dec :: "nat \<Rightarrow> jstr" where
  "dec n = (if n < 10 then [48 + n] else dec (n div 10) @ [48 + n mod 10])"

declare dec.simps [simp del]

definition decval :: "jstr \<Rightarrow> nat" where
  "decval s = foldl (\<lambda>a c. 10 * a + (c - 48)) 0 s"

lemma decval_Nil [simp]: "decval [] = 0"
  by (simp add: decval_def)

lemma decval_snoc [simp]: "decval (s @ [c]) = 10 * decval s + (c - 48)"
  by (simp add: decval_def)

lemma decval_dec [simp]: "decval (dec n) = n"
proof (induction n rule: dec.induct)
  case (1 n)
  show ?case
  proof (cases "n < 10")
    case True
    then show ?thesis by (subst dec.simps) (simp add: decval_def)
  next
    case False
    with 1 have "decval (dec (n div 10)) = n div 10" by simp
    with False show ?thesis by (subst dec.simps) simp
  qed
qed

lemma dec_inject [simp]: "dec m = dec n \<longleftrightarrow> m = n"
  by (metis decval_dec)

lemma dec_not_Nil [simp]: "dec n \<noteq> []"
  by (subst dec.simps) simp

definition is_digit :: "nat \<Rightarrow> bool" where
  [eval_defs]: "is_digit c \<longleftrightarrow> 48 \<le> c \<and> c \<le> 57"

lemma dec_digits: "c \<in> set (dec n) \<Longrightarrow> is_digit c"
proof (induction n rule: dec.induct)
  case (1 n)
  then show ?case
    by (cases "n < 10") (auto simp: dec.simps [of n] is_digit_def)
qed

text \<open>A decimal number ended by a non-digit can be read back: the basis of length-prefixed encodings.\<close>

lemma separator_inject:
  "xs @ c # us = ys @ c # vs \<Longrightarrow> c \<notin> set xs \<Longrightarrow> c \<notin> set ys \<Longrightarrow> xs = ys \<and> us = vs"
  by (induction xs arbitrary: ys) (auto simp: Cons_eq_append_conv append_eq_Cons_conv)

lemma dec_separator_inject:
  "dec m @ c # us = dec n @ c # vs \<Longrightarrow> \<not> is_digit c \<Longrightarrow> m = n \<and> us = vs"
  using separator_inject [of "dec m" c us "dec n" vs] dec_digits by auto

subsection \<open>Character classes\<close>

definition is_upper :: "nat \<Rightarrow> bool" where
  [eval_defs]: "is_upper c \<longleftrightarrow> 65 \<le> c \<and> c \<le> 90"

definition is_lower :: "nat \<Rightarrow> bool" where
  [eval_defs]: "is_lower c \<longleftrightarrow> 97 \<le> c \<and> c \<le> 122"

text \<open>White space and line terminators of ECMAScript, the set \<^verbatim>\<open>trim\<close> strips and \<^verbatim>\<open>\s\<close> matches.\<close>

definition js_space :: "nat \<Rightarrow> bool" where
  [eval_defs]: "js_space c \<longleftrightarrow> (9 \<le> c \<and> c \<le> 13) \<or> c = 32 \<or> c = 160 \<or> c = 5760 \<or>
     (8192 \<le> c \<and> c \<le> 8202) \<or> c = 8232 \<or> c = 8233 \<or> c = 8239 \<or> c = 8287 \<or>
     c = 12288 \<or> c = 65279"

definition js_trim :: "jstr \<Rightarrow> jstr" where
  [eval_defs]: "js_trim s = rev (dropWhile js_space (rev (dropWhile js_space s)))"

lemma js_trim_id_iff:
  "js_trim s = s \<longleftrightarrow> s = [] \<or> (\<not> js_space (hd s) \<and> \<not> js_space (last s))"
proof (cases s)
  case Nil
  then show ?thesis by (simp add: js_trim_def)
next
  case (Cons c t)
  let ?d = "dropWhile js_space s"
  have le: "length (js_trim s) \<le> length ?d"
    unfolding js_trim_def by (metis length_dropWhile_le length_rev)
  show ?thesis
  proof (cases "js_space c")
    case True
    then have "length ?d < length s"
      using Cons by (simp add: length_dropWhile_le le_imp_less_Suc)
    with le have "js_trim s \<noteq> s" by auto
    with True Cons show ?thesis by simp
  next
    case False
    then have d: "?d = s" using Cons by simp
    obtain u z where s: "rev s = z # u" using Cons by (cases "rev s") auto
    then have z: "last s = z" by (metis hd_rev list.sel(1))
    show ?thesis
    proof (cases "js_space z")
      case True
      then have "length (dropWhile js_space (rev s)) < length (rev s)"
        using s by (simp add: length_dropWhile_le le_imp_less_Suc)
      then have "js_trim s \<noteq> s"
        unfolding js_trim_def d by (metis length_rev less_irrefl)
      with True z Cons show ?thesis by simp
    next
      case nz: False
      then have "dropWhile js_space (rev s) = rev s" using s by simp
      then have "js_trim s = s" unfolding js_trim_def d by simp
      with False nz z Cons show ?thesis by simp
    qed
  qed
qed

subsection \<open>Searching and splitting\<close>

text \<open>\<^verbatim>\<open>s.indexOf(c)\<close> for one code unit (\<open>None\<close> for -1), and \<^verbatim>\<open>s.split(c)\<close>.\<close>

fun index_of :: "'a \<Rightarrow> 'a list \<Rightarrow> nat option" where
  "index_of c [] = None"
| "index_of c (x # xs) = (if x = c then Some 0 else map_option Suc (index_of c xs))"

lemma index_of_None_iff: "index_of c xs = None \<longleftrightarrow> c \<notin> set xs"
  by (induction xs) auto

lemma index_of_SomeD:
  "index_of c xs = Some i \<Longrightarrow> i < length xs \<and> xs ! i = c \<and> c \<notin> set (take i xs)"
proof (induction xs arbitrary: i)
  case Nil
  then show ?case by simp
next
  case (Cons x xs)
  then show ?case by (cases "x = c") (auto split: option.splits)
qed

lemma index_of_append: "c \<notin> set xs \<Longrightarrow> index_of c (xs @ c # ys) = Some (length xs)"
  by (induction xs) auto

fun js_split :: "'a \<Rightarrow> 'a list \<Rightarrow> 'a list list" where
  "js_split c [] = [[]]"
| "js_split c (x # xs) =
     (if x = c then [] # js_split c xs
      else (case js_split c xs of [] \<Rightarrow> [[x]] | y # ys \<Rightarrow> (x # y) # ys))"

lemma js_split_not_Nil [simp]: "js_split c xs \<noteq> []"
  by (induction xs) (auto split: list.splits)

fun join_with :: "'a \<Rightarrow> 'a list list \<Rightarrow> 'a list" where
  "join_with c [] = []"
| "join_with c [x] = x"
| "join_with c (x # y # ys) = x @ c # join_with c (y # ys)"

lemma join_js_split: "join_with c (js_split c xs) = xs"
proof (induction xs)
  case Nil
  then show ?case by simp
next
  case (Cons x xs)
  obtain y ys where "js_split c xs = y # ys" by (cases "js_split c xs") auto
  with Cons show ?case by (cases ys) auto
qed

lemma js_split_inject: "js_split c xs = js_split c ys \<longleftrightarrow> xs = ys"
  by (metis join_js_split)

lemma js_split_parts_avoid: "p \<in> set (js_split c xs) \<Longrightarrow> c \<notin> set p"
  by (induction xs arbitrary: p) (auto split: if_splits list.splits)

lemma js_split_single: "c \<notin> set xs \<Longrightarrow> js_split c xs = [xs]"
  by (induction xs) auto

lemma js_split_append: "c \<notin> set xs \<Longrightarrow> js_split c (xs @ c # ys) = xs # js_split c ys"
  by (induction xs) auto

lemma js_split_join:
  "xs \<noteq> [] \<Longrightarrow> list_all (\<lambda>x. c \<notin> set x) xs \<Longrightarrow> js_split c (join_with c xs) = xs"
  by (induction c xs rule: join_with.induct) (auto simp: js_split_single js_split_append)

end
