(* ===== verification/Comparators.thy ===== *)
theory Comparators
  imports Prelude "HOL-Library.Multiset"
begin

text \<open>
  The contract of the three-way comparators of the sources (\<^verbatim>\<open>-1 | 0 | 1\<close>), as locales: a
  \<open>preorder_cmp\<close> is reflexive, antisymmetric in sign and transitive; a \<open>total_cmp\<close> in addition
  returns 0 on equal arguments only. The lemmas that need no more than the contract are proved here
  once (chained keys, lexicographic comparison, the result of \<^verbatim>\<open>Array.prototype.sort\<close>); each
  component interprets the locales on its own comparator.
\<close>

definition sorted_cmp :: "('a \<Rightarrow> 'a \<Rightarrow> int) \<Rightarrow> 'a list \<Rightarrow> bool" where
  "sorted_cmp cmp = sorted_wrt (\<lambda>x y. cmp x y \<le> 0)"

text \<open>
  \<^verbatim>\<open>Array.prototype.sort(cmp)\<close>: a stable sort. Insertion keeps earlier equals first; under a
  consistent comparator every stable sort returns this list.
\<close>

fun cmp_insert :: "('a \<Rightarrow> 'a \<Rightarrow> int) \<Rightarrow> 'a \<Rightarrow> 'a list \<Rightarrow> 'a list" where
  "cmp_insert cmp x [] = [x]"
| "cmp_insert cmp x (y # ys) = (if cmp x y \<le> 0 then x # y # ys else y # cmp_insert cmp x ys)"

definition cmp_sort :: "('a \<Rightarrow> 'a \<Rightarrow> int) \<Rightarrow> 'a list \<Rightarrow> 'a list" where
  "cmp_sort cmp xs = foldr (cmp_insert cmp) xs []"

lemma cmp_sort_simps [simp]:
  "cmp_sort cmp [] = []"
  "cmp_sort cmp (x # xs) = cmp_insert cmp x (cmp_sort cmp xs)"
  by (simp_all add: cmp_sort_def)

lemma mset_cmp_insert [simp]: "mset (cmp_insert cmp x xs) = add_mset x (mset xs)"
  by (induction xs) auto

lemma mset_cmp_sort [simp]: "mset (cmp_sort cmp xs) = mset xs"
  by (induction xs) auto

lemma set_cmp_insert [simp]: "set (cmp_insert cmp x xs) = insert x (set xs)"
  by (induction xs) auto

lemma set_cmp_sort [simp]: "set (cmp_sort cmp xs) = set xs"
  by (induction xs) auto

lemma length_cmp_sort [simp]: "length (cmp_sort cmp xs) = length xs"
  by (metis mset_cmp_sort size_mset)

text \<open>The first non-zero key decides, as \<^verbatim>\<open>keys.find((c) => c !== 0) ?? 0\<close> does.\<close>

fun first_nonzero :: "int list \<Rightarrow> int" where
  "first_nonzero [] = 0"
| "first_nonzero (k # ks) = (if k \<noteq> 0 then k else first_nonzero ks)"

locale preorder_cmp =
  fixes cmp :: "'a \<Rightarrow> 'a \<Rightarrow> int"
  assumes cmp_refl: "cmp x x = 0"
    and cmp_flip: "cmp y x = - cmp x y"
    and cmp_trans: "cmp x y \<le> 0 \<Longrightarrow> cmp y z \<le> 0 \<Longrightarrow> cmp x z \<le> 0"
begin

lemma le_total: "cmp x y \<le> 0 \<or> cmp y x \<le> 0"
  using cmp_flip [of x y] by linarith

lemma equiv_trans: "cmp x y = 0 \<Longrightarrow> cmp y z = 0 \<Longrightarrow> cmp x z = 0"
  using cmp_trans [of x y z] cmp_trans [of z y x] cmp_flip [of x y] cmp_flip [of y z] cmp_flip [of x z]
  by linarith

lemma less_le_trans: "cmp x y < 0 \<Longrightarrow> cmp y z \<le> 0 \<Longrightarrow> cmp x z < 0"
  using cmp_trans [of x y z] cmp_trans [of y z x] cmp_flip [of x y] cmp_flip [of x z]
  by linarith

lemma le_less_trans: "cmp x y \<le> 0 \<Longrightarrow> cmp y z < 0 \<Longrightarrow> cmp x z < 0"
  using cmp_trans [of x y z] cmp_trans [of z x y] cmp_flip [of y z] cmp_flip [of x z]
  by linarith

lemma equiv_congL: "cmp x y = 0 \<Longrightarrow> (cmp x z \<le> 0 \<longleftrightarrow> cmp y z \<le> 0)"
  using cmp_trans [of x y z] cmp_trans [of y x z] cmp_flip [of x y] by auto

lemma sorted_cmp_insert: "sorted_cmp cmp xs \<Longrightarrow> sorted_cmp cmp (cmp_insert cmp x xs)"
proof (induction xs)
  case Nil
  then show ?case by (simp add: sorted_cmp_def)
next
  case (Cons y ys)
  have "cmp x z \<le> 0" if "cmp x y \<le> 0" "z \<in> set ys" for z
    using Cons.prems that cmp_trans [of x y z] by (simp add: sorted_cmp_def)
  moreover have "cmp y x \<le> 0" if "\<not> cmp x y \<le> 0"
    using that le_total by blast
  ultimately show ?case
    using Cons by (auto simp: sorted_cmp_def)
qed

lemma sorted_cmp_sort: "sorted_cmp cmp (cmp_sort cmp xs)"
  by (induction xs) (simp_all add: sorted_cmp_insert, simp add: sorted_cmp_def)

lemma cmp_sort_sorted: "sorted_cmp cmp xs \<Longrightarrow> cmp_sort cmp xs = xs"
proof (induction xs)
  case Nil
  then show ?case by simp
next
  case (Cons x xs)
  then have "cmp_sort cmp xs = xs" by (simp add: sorted_cmp_def)
  with Cons.prems show ?case by (cases xs) (auto simp: sorted_cmp_def)
qed

lemma sorted_unique_on:
  assumes "sorted_cmp cmp xs" "sorted_cmp cmp ys" "mset xs = mset ys"
    and "\<And>x y. x \<in> set xs \<Longrightarrow> y \<in> set xs \<Longrightarrow> cmp x y = 0 \<Longrightarrow> x = y"
  shows "xs = ys"
  using assms
proof (induction xs arbitrary: ys)
  case Nil
  then show ?case by simp
next
  case (Cons x xs)
  then obtain y zs where ys: "ys = y # zs" by (cases ys) auto
  have "x = y"
  proof (rule ccontr)
    assume "x \<noteq> y"
    then have "x \<in> set zs" "y \<in> set xs"
      using Cons.prems(3) ys by (metis list.set_intros(1) mset_eq_setD set_ConsD)+
    then have "cmp y x \<le> 0" "cmp x y \<le> 0"
      using Cons.prems ys by (auto simp: sorted_cmp_def)
    then have "cmp x y = 0" using cmp_flip [of x y] by linarith
    with \<open>x \<noteq> y\<close> \<open>y \<in> set xs\<close> show False using Cons.prems(4) [of x y] by simp
  qed
  moreover have "xs = zs"
    by (rule Cons.IH) (use Cons.prems ys \<open>x = y\<close> in \<open>auto simp: sorted_cmp_def\<close>)
  ultimately show ?case using ys by simp
qed

end

locale total_cmp = preorder_cmp +
  assumes cmp_zero: "cmp x y = 0 \<Longrightarrow> x = y"
begin

lemma cmp_zero_iff: "cmp x y = 0 \<longleftrightarrow> x = y"
  using cmp_zero cmp_refl by auto

lemma sorted_unique: "sorted_cmp cmp xs \<Longrightarrow> sorted_cmp cmp ys \<Longrightarrow> mset xs = mset ys \<Longrightarrow> xs = ys"
  by (rule sorted_unique_on) (auto intro: cmp_zero)

text \<open>The sort does not depend on the order in which the elements arrive.\<close>

lemma cmp_sort_perm: "mset xs = mset ys \<Longrightarrow> cmp_sort cmp xs = cmp_sort cmp ys"
  by (rule sorted_unique) (simp_all add: sorted_cmp_sort)

end

subsection \<open>Building comparators\<close>

text \<open>Comparing by a key, by two keys in turn, and lexicographically on lists.\<close>

definition then_cmp :: "('a \<Rightarrow> 'a \<Rightarrow> int) \<Rightarrow> ('a \<Rightarrow> 'a \<Rightarrow> int) \<Rightarrow> 'a \<Rightarrow> 'a \<Rightarrow> int" where
  "then_cmp f g x y = (if f x y \<noteq> 0 then f x y else g x y)"

fun lex_cmp :: "('a \<Rightarrow> 'a \<Rightarrow> int) \<Rightarrow> 'a list \<Rightarrow> 'a list \<Rightarrow> int" where
  "lex_cmp f [] [] = 0"
| "lex_cmp f [] (y # ys) = -1"
| "lex_cmp f (x # xs) [] = 1"
| "lex_cmp f (x # xs) (y # ys) = (if f x y \<noteq> 0 then f x y else lex_cmp f xs ys)"

definition linord_cmp :: "'a::linorder \<Rightarrow> 'a \<Rightarrow> int" where
  "linord_cmp x y = (if x = y then 0 else if x < y then -1 else 1)"

lemma preorder_by_key: "preorder_cmp f \<Longrightarrow> preorder_cmp (\<lambda>x y. f (k x) (k y))"
  unfolding preorder_cmp_def by blast

lemma preorder_then:
  assumes f: "preorder_cmp f" and g: "preorder_cmp g"
  shows "preorder_cmp (then_cmp f g)"
proof
  fix x y z
  show "then_cmp f g x x = 0"
    using f g by (simp add: then_cmp_def preorder_cmp.cmp_refl)
  show "then_cmp f g y x = - then_cmp f g x y"
    using preorder_cmp.cmp_flip [OF f, of x y] preorder_cmp.cmp_flip [OF g, of x y]
    by (simp add: then_cmp_def)
  assume xy: "then_cmp f g x y \<le> 0" and yz: "then_cmp f g y z \<le> 0"
  then have "f x y \<le> 0" "f y z \<le> 0" by (auto simp: then_cmp_def split: if_splits)
  then have le: "f x z \<le> 0" using preorder_cmp.cmp_trans [OF f] by blast
  show "then_cmp f g x z \<le> 0"
  proof (cases "f x z = 0")
    case True
    with \<open>f x y \<le> 0\<close> \<open>f y z \<le> 0\<close> have "f x y = 0" "f y z = 0"
      using preorder_cmp.less_le_trans [OF f, of x y z] preorder_cmp.le_less_trans [OF f, of x y z]
      by linarith+
    with xy yz True show ?thesis
      using preorder_cmp.cmp_trans [OF g, of x y z] by (simp add: then_cmp_def)
  next
    case False
    with le show ?thesis by (simp add: then_cmp_def)
  qed
qed

lemma lex_flip:
  assumes f: "preorder_cmp f"
  shows "lex_cmp f ys xs = - lex_cmp f xs ys"
proof (induction xs arbitrary: ys)
  case Nil
  then show ?case by (cases ys) simp_all
next
  case (Cons x xs)
  then show ?case
    by (cases ys) (simp_all add: preorder_cmp.cmp_flip [OF f, of x])
qed

lemma lex_trans:
  assumes f: "preorder_cmp f"
  shows "lex_cmp f xs ys \<le> 0 \<Longrightarrow> lex_cmp f ys zs \<le> 0 \<Longrightarrow> lex_cmp f xs zs \<le> 0"
proof (induction xs arbitrary: ys zs)
  case Nil
  then show ?case by (cases zs) simp_all
next
  case (Cons x xs)
  then obtain y ys' where ys: "ys = y # ys'" by (cases ys) auto
  with Cons.prems obtain z zs' where zs: "zs = z # zs'" by (cases zs) auto
  have le: "f x y \<le> 0" "f y z \<le> 0"
    using Cons.prems ys zs by (auto split: if_splits)
  then have xz: "f x z \<le> 0" using preorder_cmp.cmp_trans [OF f] by blast
  show ?case
  proof (cases "f x z = 0")
    case True
    with le have "f x y = 0" "f y z = 0"
      using preorder_cmp.less_le_trans [OF f, of x y z] preorder_cmp.le_less_trans [OF f, of x y z]
      by linarith+
    with Cons True ys zs show ?thesis by auto
  next
    case False
    with xz ys zs show ?thesis by simp
  qed
qed

lemma preorder_lex: "preorder_cmp f \<Longrightarrow> preorder_cmp (lex_cmp f)"
proof (unfold_locales, goal_cases)
  case (1 xs)
  then show ?case by (induction xs) (simp_all add: preorder_cmp.cmp_refl)
next
  case (2 ys xs)
  then show ?case by (rule lex_flip)
next
  case (3 xs ys zs)
  then show ?case by (rule lex_trans)
qed

lemma total_cmpI: "preorder_cmp f \<Longrightarrow> (\<And>x y. f x y = 0 \<Longrightarrow> x = y) \<Longrightarrow> total_cmp f"
  by (simp add: total_cmp_def total_cmp_axioms_def)

lemma lex_zero: "(\<And>x y. f x y = 0 \<Longrightarrow> x = y) \<Longrightarrow> lex_cmp f xs ys = 0 \<Longrightarrow> xs = ys"
  by (induction f xs ys rule: lex_cmp.induct) (auto split: if_splits)

lemma total_lex:
  assumes "total_cmp f"
  shows "total_cmp (lex_cmp f)"
proof (rule total_cmpI)
  show "preorder_cmp (lex_cmp f)"
    using assms by (simp add: preorder_lex total_cmp.axioms(1))
  show "xs = ys" if "lex_cmp f xs ys = 0" for xs ys
    using that by (rule lex_zero [rotated]) (rule total_cmp.cmp_zero [OF assms])
qed

lemma total_then:
  assumes "total_cmp f" "preorder_cmp g"
  shows "total_cmp (then_cmp f g)"
  using assms
  by (intro total_cmpI preorder_then)
    (auto simp: total_cmp.axioms(1) then_cmp_def split: if_splits intro: total_cmp.cmp_zero)

text \<open>The chained comparison \<^verbatim>\<open>keys.find((c) => c !== 0) ?? 0\<close> over a list of comparators.\<close>

definition chain_cmp :: "('a \<Rightarrow> 'a \<Rightarrow> int) list \<Rightarrow> 'a \<Rightarrow> 'a \<Rightarrow> int" where
  "chain_cmp ks x y = first_nonzero (map (\<lambda>k. k x y) ks)"

lemma chain_cmp_Cons: "chain_cmp (k # ks) = then_cmp k (chain_cmp ks)"
  by (intro ext) (simp add: chain_cmp_def then_cmp_def)

lemma preorder_chain: "list_all preorder_cmp ks \<Longrightarrow> preorder_cmp (chain_cmp ks)"
proof (induction ks)
  case Nil
  then show ?case by unfold_locales (simp_all add: chain_cmp_def)
next
  case (Cons k ks)
  then show ?case by (simp add: chain_cmp_Cons preorder_then)
qed

lemma chain_cmp_zero: "chain_cmp ks x y = 0 \<Longrightarrow> k \<in> set ks \<Longrightarrow> k x y = 0"
  by (induction ks) (auto simp: chain_cmp_def split: if_splits)

interpretation linord: total_cmp linord_cmp
  by unfold_locales (auto simp: linord_cmp_def split: if_splits)

lemma linord_cmp_signs [simp]:
  "linord_cmp x y = 0 \<longleftrightarrow> x = y"
  "linord_cmp x y < 0 \<longleftrightarrow> x < y"
  "linord_cmp x y \<le> 0 \<longleftrightarrow> x \<le> y"
  "linord_cmp x y = -1 \<longleftrightarrow> x < y"
  "linord_cmp x y = 1 \<longleftrightarrow> y < x"
  by (auto simp: linord_cmp_def)

text \<open>String order of the language (\<^verbatim>\<open>left < right\<close>): lexicographic on code units.\<close>

definition js_less :: "jstr \<Rightarrow> jstr \<Rightarrow> bool" where
  "js_less s t \<longleftrightarrow> lex_cmp linord_cmp s t < 0"

interpretation jstr_order: total_cmp "lex_cmp linord_cmp :: jstr \<Rightarrow> jstr \<Rightarrow> int"
  by (rule total_lex) (rule linord.total_cmp_axioms)

lemma lex_signs: "(\<And>x y. f x y \<in> {-1, 0, 1}) \<Longrightarrow> lex_cmp f xs ys \<in> {-1, 0, 1}"
  by (induction f xs ys rule: lex_cmp.induct) auto

lemma js_less_flip: "s \<noteq> t \<Longrightarrow> js_less t s \<longleftrightarrow> \<not> js_less s t"
  unfolding js_less_def
  using jstr_order.cmp_flip [of s t] jstr_order.cmp_zero_iff [of s t] by linarith

lemma js_less_trans: "js_less s t \<Longrightarrow> js_less t u \<Longrightarrow> js_less s u"
  unfolding js_less_def using jstr_order.less_le_trans [of s t u] by linarith

end
