(* ===== verification/NpmVersion.thy ===== *)
theory NpmVersion
  imports Comparators
begin

text \<open>
  \<^verbatim>\<open>packages/vulnerability-intelligence/src/matching/first-ecosystem\<close>: the classification of an
  observed npm version string (\<^verbatim>\<open>version.ts\<close>, \<^verbatim>\<open>text.ts\<close>) and the SemVer 2.0.0 precedence on the
  classified versions (\<^verbatim>\<open>compare.ts\<close>). The literal-typed constant fields of a classification are not
  carried; the fault hook of \<^verbatim>\<open>compare.ts\<close> is test-only and null here, so no comparison throws.
\<close>

subsection \<open>text.ts\<close>

definition is_high_surrogate :: "nat \<Rightarrow> bool" where
  [eval_defs]: "is_high_surrogate c \<longleftrightarrow> 55296 \<le> c \<and> c \<le> 56319"

definition is_low_surrogate :: "nat \<Rightarrow> bool" where
  [eval_defs]: "is_low_surrogate c \<longleftrightarrow> 56320 \<le> c \<and> c \<le> 57343"

text \<open>A surrogate pair takes four bytes; a lone surrogate is encoded as U+FFFD in three.\<close>

fun utf8ByteLength :: "jstr \<Rightarrow> nat" where
  "utf8ByteLength [] = 0"
| "utf8ByteLength [c] = (if c < 128 then 1 else if c < 2048 then 2 else 3)"
| "utf8ByteLength (c # d # cs) =
     (if c < 128 then 1 + utf8ByteLength (d # cs)
      else if c < 2048 then 2 + utf8ByteLength (d # cs)
      else if is_high_surrogate c \<and> is_low_surrogate d then 4 + utf8ByteLength cs
      else 3 + utf8ByteLength (d # cs))"

definition isAscii :: "jstr \<Rightarrow> bool" where
  [eval_defs]: "isAscii value = list_all (\<lambda>code. \<not> code > 127) value"

definition is_hex :: "nat \<Rightarrow> bool" where
  [eval_defs]: "is_hex c \<longleftrightarrow> is_digit c \<or> (65 \<le> c \<and> c \<le> 70) \<or> (97 \<le> c \<and> c \<le> 102)"

definition hex_val :: "nat \<Rightarrow> nat" where
  [eval_defs]: "hex_val c = (if is_digit c then c - 48 else if c \<le> 70 then c - 55 else c - 87)"

fun percentDecodeOnce :: "jstr \<Rightarrow> jstr option" where
  "percentDecodeOnce [] = Some []"
| "percentDecodeOnce (c # rest) =
     (if c = 37 then
        (case rest of
           h # l # rest' \<Rightarrow>
             if \<not> (is_hex h \<and> is_hex l) then None
             else let code = 16 * hex_val h + hex_val l
                  in if code = 0 \<or> code = 47 \<or> code = 92 \<or> code > 127 then None
                     else map_option ((#) code) (percentDecodeOnce rest')
         | _ \<Rightarrow> None)
      else if c > 127 then None
      else map_option ((#) c) (percentDecodeOnce rest))"

subsection \<open>version.ts\<close>

definition NPM_RAW_VERSION_MAX_UTF8_BYTES :: nat where
  [catalog_defs]: "NPM_RAW_VERSION_MAX_UTF8_BYTES = 256"

definition NPM_VERSION_NUMERIC_IDENTIFIER_MAX_DIGITS :: nat where
  [catalog_defs]: "NPM_VERSION_NUMERIC_IDENTIFIER_MAX_DIGITS = 20"

datatype versionClass = Absent | Malformed | Unsupported | CapacityExceeded

record strictSemver =
  sv_raw :: jstr
  sv_major :: jstr
  sv_minor :: jstr
  sv_patch :: jstr
  sv_prerelease :: "jstr option"
  sv_build :: "jstr option"

datatype observedVersion =
    ValidStrictSemver strictSemver
  | NotStrictSemver versionClass jstr

datatype numericIdentifierClass = NumValid | NumMalformed | NumUnsupportedOverflow

text \<open>\<^verbatim>\<open>/^(0|[1-9][0-9]*)$/\<close>, \<^verbatim>\<open>/^[0-9]+$/\<close> and \<^verbatim>\<open>/^[0-9A-Za-z-]+$/\<close>.\<close>

fun re_canonical_number :: "jstr \<Rightarrow> bool" where
  "re_canonical_number [] = False"
| "re_canonical_number (c # cs) =
     ((c = 48 \<and> cs = []) \<or> (49 \<le> c \<and> c \<le> 57 \<and> list_all is_digit cs))"

definition re_digits :: "jstr \<Rightarrow> bool" where
  [eval_defs]: "re_digits s \<longleftrightarrow> s \<noteq> [] \<and> list_all is_digit s"

definition identifier_char :: "nat \<Rightarrow> bool" where
  [eval_defs]: "identifier_char c \<longleftrightarrow> is_digit c \<or> is_upper c \<or> is_lower c \<or> c = 45"

definition re_identifier :: "jstr \<Rightarrow> bool" where
  [eval_defs]: "re_identifier s \<longleftrightarrow> s \<noteq> [] \<and> list_all identifier_char s"

definition classifyNumericIdentifier :: "jstr \<Rightarrow> numericIdentifierClass" where
  "classifyNumericIdentifier value =
     (if \<not> re_canonical_number value then NumMalformed
      else if length value > NPM_VERSION_NUMERIC_IDENTIFIER_MAX_DIGITS then NumUnsupportedOverflow
      else NumValid)"

datatype prereleaseClass = PreValid | PreMalformed | PreUnsupported

text \<open>The loop over the dot-separated parts carries the \<^verbatim>\<open>overflow\<close> flag.\<close>

fun classifyPrereleaseParts :: "jstr list \<Rightarrow> bool \<Rightarrow> prereleaseClass" where
  "classifyPrereleaseParts [] overflow = (if overflow then PreUnsupported else PreValid)"
| "classifyPrereleaseParts (part # parts) overflow =
     (if length part = 0 then PreMalformed
      else if re_digits part then
        (case classifyNumericIdentifier part of
           NumMalformed \<Rightarrow> PreMalformed
         | NumUnsupportedOverflow \<Rightarrow> classifyPrereleaseParts parts True
         | NumValid \<Rightarrow> classifyPrereleaseParts parts overflow)
      else if \<not> re_identifier part \<or>
              \<not> list_ex (\<lambda>c. is_upper c \<or> is_lower c \<or> c = 45) part then PreMalformed
      else classifyPrereleaseParts parts overflow)"

definition classifyPrerelease :: "jstr \<Rightarrow> prereleaseClass" where
  "classifyPrerelease value =
     (if length value = 0 then PreMalformed
      else classifyPrereleaseParts (js_split 46 value) False)"

definition isBuildIdentifier :: "jstr \<Rightarrow> bool" where
  [eval_defs]: "isBuildIdentifier value \<longleftrightarrow> length value > 0 \<and> re_identifier value"

text \<open>The characters \<^verbatim>\<open>* ^ ~ > < , ! /\<close> and the space, each rejected as a range operator.\<close>

definition range_operator_chars :: "nat list" where
  [eval_defs]: "range_operator_chars = [42, 94, 126, 62, 60, 32, 44, 33, 47]"

definition classifyCore ::
  "jstr \<Rightarrow> jstr \<Rightarrow> jstr option \<Rightarrow> jstr option \<Rightarrow> observedVersion" where
  "classifyCore raw core prerelease buildText =
     (case js_split 46 core of
        [major, minor, patch] \<Rightarrow>
          (let numericParts = map classifyNumericIdentifier [major, minor, patch]
           in if list_ex (\<lambda>part. part = NumMalformed) numericParts
                then NotStrictSemver Malformed raw
              else if list_ex (\<lambda>part. part = NumUnsupportedOverflow) numericParts
                then NotStrictSemver Unsupported raw
              else
                (let valid = ValidStrictSemver
                     \<lparr>sv_raw = raw, sv_major = major, sv_minor = minor, sv_patch = patch,
                      sv_prerelease = prerelease, sv_build = buildText\<rparr>
                 in case prerelease of
                      None \<Rightarrow> valid
                    | Some p \<Rightarrow>
                        (case classifyPrerelease p of
                           PreUnsupported \<Rightarrow> NotStrictSemver Unsupported raw
                         | PreMalformed \<Rightarrow> NotStrictSemver Malformed raw
                         | PreValid \<Rightarrow> valid)))
      | _ \<Rightarrow> NotStrictSemver Unsupported raw)"

definition classifyObservedNpmVersion :: "jstr option \<Rightarrow> observedVersion" where
  "classifyObservedNpmVersion raw0 =
     (case raw0 of
        None \<Rightarrow> NotStrictSemver Absent []
      | Some raw \<Rightarrow>
          if length raw = 0 then NotStrictSemver Absent raw
          else if utf8ByteLength raw > NPM_RAW_VERSION_MAX_UTF8_BYTES
            then NotStrictSemver CapacityExceeded raw
          else if \<not> isAscii raw \<or> raw \<noteq> js_trim raw \<or> list_ex js_space raw
            then NotStrictSemver Malformed raw
          else if hd raw = 118 \<or> hd raw = 86 then NotStrictSemver Unsupported raw
          else if list_ex (\<lambda>c. c \<in> set range_operator_chars) raw
            then NotStrictSemver Unsupported raw
          else
            (let plus = index_of 43 raw;
                 buildText = map_option (\<lambda>i. drop (i + 1) raw) plus;
                 withoutBuild = (case plus of None \<Rightarrow> raw | Some i \<Rightarrow> take i raw)
             in if (case buildText of
                      None \<Rightarrow> False
                    | Some b \<Rightarrow> length b = 0 \<or> list_ex (\<lambda>part. \<not> isBuildIdentifier part) (js_split 46 b))
                then NotStrictSemver Malformed raw
                else
                  (let hyphen = index_of 45 withoutBuild;
                       core = (case hyphen of None \<Rightarrow> withoutBuild | Some i \<Rightarrow> take i withoutBuild);
                       prerelease = map_option (\<lambda>i. drop (i + 1) withoutBuild) hyphen
                   in classifyCore raw core prerelease buildText)))"

text \<open>One parse per raw string: the cache is read first and filled on a miss.\<close>

type_synonym versionCache = "jstr \<rightharpoonup> observedVersion"

definition rememberObservedNpmVersion ::
  "jstr \<Rightarrow> versionCache \<Rightarrow> observedVersion \<times> versionCache" where
  "rememberObservedNpmVersion raw cache =
     (case cache raw of
        Some existing \<Rightarrow> (existing, cache)
      | None \<Rightarrow>
          (let classified = classifyObservedNpmVersion (Some raw)
           in (classified, cache(raw \<mapsto> classified))))"

subsection \<open>The strict syntax and its rendering\<close>

text \<open>
  The specification of the classifier: a strict version is rendered
  \<^verbatim>\<open>major.minor.patch[-prerelease][+build]\<close>, with canonical numbers of at most 20 digits.
\<close>

definition strictNumber :: "jstr \<Rightarrow> bool" where
  "strictNumber s \<longleftrightarrow>
     re_canonical_number s \<and> length s \<le> NPM_VERSION_NUMERIC_IDENTIFIER_MAX_DIGITS"

definition strictPrereleasePart :: "jstr \<Rightarrow> bool" where
  "strictPrereleasePart s \<longleftrightarrow> (if re_digits s then strictNumber s else re_identifier s)"

definition strictSyntax :: "strictSemver \<Rightarrow> bool" where
  "strictSyntax v \<longleftrightarrow>
     strictNumber (sv_major v) \<and> strictNumber (sv_minor v) \<and> strictNumber (sv_patch v) \<and>
     pred_option (\<lambda>p. list_all strictPrereleasePart (js_split 46 p)) (sv_prerelease v) \<and>
     pred_option (\<lambda>b. list_all re_identifier (js_split 46 b)) (sv_build v)"

definition renderVersion :: "strictSemver \<Rightarrow> jstr" where
  "renderVersion v = sv_major v @ 46 # sv_minor v @ 46 # sv_patch v @
     (case sv_prerelease v of None \<Rightarrow> [] | Some p \<Rightarrow> 45 # p) @
     (case sv_build v of None \<Rightarrow> [] | Some b \<Rightarrow> 43 # b)"

lemma classifyNumericIdentifier_valid_iff:
  "classifyNumericIdentifier s = NumValid \<longleftrightarrow> strictNumber s"
  by (auto simp: classifyNumericIdentifier_def strictNumber_def)

lemma nondigit_identifier_has_letter:
  "re_identifier s \<Longrightarrow> \<not> re_digits s \<Longrightarrow> list_ex (\<lambda>c. is_upper c \<or> is_lower c \<or> c = 45) s"
  by (auto simp: re_identifier_def re_digits_def identifier_char_def list_all_iff list_ex_iff)

lemma classifyPrereleaseParts_valid_iff:
  "classifyPrereleaseParts parts overflow = PreValid \<longleftrightarrow>
     \<not> overflow \<and> list_all strictPrereleasePart parts"
proof (induction parts arbitrary: overflow)
  case Nil
  then show ?case by simp
next
  case (Cons s parts)
  show ?case
  proof (cases "re_digits s")
    case True
    then have "s \<noteq> []" by (simp add: re_digits_def)
    with True show ?thesis
      using Cons [of True] Cons [of overflow] classifyNumericIdentifier_valid_iff [of s]
      by (cases "classifyNumericIdentifier s") (simp_all add: strictPrereleasePart_def)
  next
    case False
    then show ?thesis
      using Cons [of overflow] nondigit_identifier_has_letter [of s]
      by (auto simp: strictPrereleasePart_def re_identifier_def)
  qed
qed

lemma classifyPrerelease_valid_iff:
  "classifyPrerelease p = PreValid \<longleftrightarrow> list_all strictPrereleasePart (js_split 46 p)"
  by (cases p)
    (simp_all add: classifyPrerelease_def classifyPrereleaseParts_valid_iff strictPrereleasePart_def
      re_digits_def re_identifier_def)

lemma build_valid_iff:
  "\<not> (length b = 0 \<or> list_ex (\<lambda>part. \<not> isBuildIdentifier part) (js_split 46 b)) \<longleftrightarrow>
     list_all re_identifier (js_split 46 b)"
  by (cases b) (auto simp: isBuildIdentifier_def re_identifier_def list_all_iff list_ex_iff)

subsection \<open>Characters of a strict version\<close>

definition version_char :: "nat \<Rightarrow> bool" where
  "version_char c \<longleftrightarrow> identifier_char c \<or> c = 46"

lemma split_parts_cover: "x \<in> set xs \<Longrightarrow> x = c \<or> (\<exists>p \<in> set (js_split c xs). x \<in> set p)"
proof (induction xs)
  case Nil
  then show ?case by simp
next
  case (Cons y xs)
  obtain p ps where "js_split c xs = p # ps" by (cases "js_split c xs") auto
  with Cons show ?case by auto
qed

lemma split_chars:
  assumes "list_all Q (js_split 46 p)" and "\<And>s c. Q s \<Longrightarrow> c \<in> set s \<Longrightarrow> identifier_char c"
  shows "list_all version_char p"
  using assms split_parts_cover [where c = 46]
  by (fastforce simp: list_all_iff version_char_def)

lemma strictNumber_chars: "strictNumber s \<Longrightarrow> c \<in> set s \<Longrightarrow> is_digit c"
  by (cases s) (auto simp: strictNumber_def is_digit_def list_all_iff)

lemma strictNumber_nonempty: "strictNumber s \<Longrightarrow> s \<noteq> []"
  by (auto simp: strictNumber_def)

lemma strictPrereleasePart_chars: "strictPrereleasePart s \<Longrightarrow> c \<in> set s \<Longrightarrow> identifier_char c"
  by (auto simp: strictPrereleasePart_def identifier_char_def re_identifier_def list_all_iff
      dest: strictNumber_chars split: if_splits)

lemma re_identifier_chars: "re_identifier s \<Longrightarrow> c \<in> set s \<Longrightarrow> identifier_char c"
  by (auto simp: re_identifier_def list_all_iff)

lemma version_char_simple:
  "version_char c \<Longrightarrow>
     c \<le> 127 \<and> \<not> js_space c \<and> c \<notin> set range_operator_chars \<and> c \<noteq> 43"
  by (auto simp: version_char_def identifier_char_def is_digit_def is_upper_def is_lower_def
      js_space_def range_operator_chars_def)

lemma utf8ByteLength_ascii: "list_all (\<lambda>c. c \<le> 127) s \<Longrightarrow> utf8ByteLength s = length s"
  by (induction s rule: utf8ByteLength.induct) auto

lemma utf8ByteLength_ge: "length s \<le> utf8ByteLength s"
  by (induction s rule: utf8ByteLength.induct) auto

lemma render_chars:
  assumes "strictSyntax v" "c \<in> set (renderVersion v)"
  shows "c \<le> 127 \<and> \<not> js_space c \<and> c \<notin> set range_operator_chars"
proof (cases "c = 43")
  case True
  then show ?thesis by (simp add: js_space_def range_operator_chars_def)
next
  case False
  have "list_all version_char p" if "sv_prerelease v = Some p" for p
    using assms(1) that by (auto simp: strictSyntax_def intro: split_chars strictPrereleasePart_chars)
  moreover have "list_all version_char b" if "sv_build v = Some b" for b
    using assms(1) that by (auto simp: strictSyntax_def intro: split_chars re_identifier_chars)
  moreover have "version_char x" if "x \<in> set (sv_major v) \<union> set (sv_minor v) \<union> set (sv_patch v)" for x
    using assms(1) that strictNumber_chars
    by (fastforce simp: strictSyntax_def version_char_def identifier_char_def)
  ultimately have "version_char c"
    using assms(2) False
    by (cases "sv_prerelease v"; cases "sv_build v")
      (auto simp: renderVersion_def version_char_def [of 46] version_char_def [of 45]
        identifier_char_def [of 45] list_all_iff)
  then show ?thesis using version_char_simple by blast
qed

subsection \<open>The classifier accepts exactly the strict syntax\<close>

lemma classifyCore_valid_iff:
  "classifyCore raw core pre b = ValidStrictSemver v \<longleftrightarrow>
     (\<exists>ma mi pa. js_split 46 core = [ma, mi, pa] \<and> strictNumber ma \<and> strictNumber mi \<and>
        strictNumber pa \<and> pred_option (\<lambda>p. list_all strictPrereleasePart (js_split 46 p)) pre \<and>
        v = \<lparr>sv_raw = raw, sv_major = ma, sv_minor = mi, sv_patch = pa,
             sv_prerelease = pre, sv_build = b\<rparr>)"
  (is "?L \<longleftrightarrow> ?R")
proof -
  have cls: "classifyNumericIdentifier s \<noteq> NumMalformed \<and>
      classifyNumericIdentifier s \<noteq> NumUnsupportedOverflow \<longleftrightarrow> strictNumber s" for s
    using classifyNumericIdentifier_valid_iff [of s] by (cases "classifyNumericIdentifier s") auto
  have pre: "(\<forall>p. pre = Some p \<longrightarrow> classifyPrerelease p = PreValid) \<longleftrightarrow>
      pred_option (\<lambda>p. list_all strictPrereleasePart (js_split 46 p)) pre"
    by (cases pre) (simp_all add: classifyPrerelease_valid_iff)
  show ?thesis
    using cls pre
    by (auto simp: classifyCore_def Let_def split: list.splits if_splits option.splits
        prereleaseClass.splits)
qed

lemma split_three:
  "js_split c xs = [u, v, w] \<longleftrightarrow>
     xs = u @ c # v @ c # w \<and> c \<notin> set u \<and> c \<notin> set v \<and> c \<notin> set w"
proof
  assume eq: "js_split c xs = [u, v, w]"
  then have "xs = u @ c # v @ c # w" using join_js_split [of c xs] by simp
  moreover have "c \<notin> set u \<and> c \<notin> set v \<and> c \<notin> set w"
    using js_split_parts_avoid [of _ c xs] eq by simp
  ultimately show "xs = u @ c # v @ c # w \<and> c \<notin> set u \<and> c \<notin> set v \<and> c \<notin> set w" by simp
next
  assume "xs = u @ c # v @ c # w \<and> c \<notin> set u \<and> c \<notin> set v \<and> c \<notin> set w"
  then show "js_split c xs = [u, v, w]" by (simp add: js_split_append js_split_single)
qed

lemma cut_at:
  "index_of c xs = Some i \<Longrightarrow> xs = take i xs @ c # drop (i + 1) xs"
  using index_of_SomeD [of c xs i] by (metis Suc_eq_plus1 id_take_nth_drop)

lemma index_of_optional_tail:
  "c \<notin> set xs \<Longrightarrow>
     index_of c (xs @ (case t of None \<Rightarrow> [] | Some ys \<Rightarrow> c # ys)) = map_option (\<lambda>_. length xs) t"
  by (cases t) (simp_all add: index_of_None_iff index_of_append)

lemma optional_tail_cut:
  assumes "c \<notin> set xs" and r: "r = xs @ (case t of None \<Rightarrow> [] | Some ys \<Rightarrow> c # ys)"
  shows "t = map_option (\<lambda>i. drop (i + 1) r) (index_of c r)"
    and "xs = (case index_of c r of None \<Rightarrow> r | Some i \<Rightarrow> take i r)"
  using index_of_optional_tail [OF assms(1), of t] r by (cases t; simp)+

definition badBuild :: "jstr option \<Rightarrow> bool" where
  "badBuild t = (case t of None \<Rightarrow> False
     | Some b \<Rightarrow> length b = 0 \<or> list_ex (\<lambda>part. \<not> isBuildIdentifier part) (js_split 46 b))"

lemma badBuild_iff: "\<not> badBuild t \<longleftrightarrow> pred_option (\<lambda>b. list_all re_identifier (js_split 46 b)) t"
  using build_valid_iff by (cases t) (simp_all add: badBuild_def)

text \<open>The classifier with its two cuts named.\<close>

lemma classifyObserved_cuts:
  assumes "ps = index_of 43 raw"
    and "b = map_option (\<lambda>i. drop (i + 1) raw) ps"
    and "wb = (case ps of None \<Rightarrow> raw | Some i \<Rightarrow> take i raw)"
    and "hy = index_of 45 wb"
    and "core = (case hy of None \<Rightarrow> wb | Some i \<Rightarrow> take i wb)"
    and "pre = map_option (\<lambda>i. drop (i + 1) wb) hy"
  shows "classifyObservedNpmVersion (Some raw) =
    (if length raw = 0 then NotStrictSemver Absent raw
     else if utf8ByteLength raw > NPM_RAW_VERSION_MAX_UTF8_BYTES
       then NotStrictSemver CapacityExceeded raw
     else if \<not> isAscii raw \<or> raw \<noteq> js_trim raw \<or> list_ex js_space raw
       then NotStrictSemver Malformed raw
     else if hd raw = 118 \<or> hd raw = 86 then NotStrictSemver Unsupported raw
     else if list_ex (\<lambda>c. c \<in> set range_operator_chars) raw then NotStrictSemver Unsupported raw
     else if badBuild b then NotStrictSemver Malformed raw
     else classifyCore raw core pre b)"
  unfolding assms classifyObservedNpmVersion_def Let_def option.case badBuild_def ..

lemma classify_sound:
  assumes "classifyObservedNpmVersion (Some raw) = ValidStrictSemver v"
  shows "strictSyntax v \<and> raw = renderVersion v \<and> sv_raw v = raw \<and>
    length raw \<le> NPM_RAW_VERSION_MAX_UTF8_BYTES"
proof -
  define ps where "ps = index_of 43 raw"
  define b where "b = map_option (\<lambda>i. drop (i + 1) raw) ps"
  define wb where "wb = (case ps of None \<Rightarrow> raw | Some i \<Rightarrow> take i raw)"
  define hy where "hy = index_of 45 wb"
  define core where "core = (case hy of None \<Rightarrow> wb | Some i \<Rightarrow> take i wb)"
  define pre where "pre = map_option (\<lambda>i. drop (i + 1) wb) hy"
  note cuts = classifyObserved_cuts [OF ps_def b_def wb_def hy_def core_def pre_def]
  have len: "utf8ByteLength raw \<le> NPM_RAW_VERSION_MAX_UTF8_BYTES"
    and "\<not> badBuild b" and cc: "classifyCore raw core pre b = ValidStrictSemver v"
    using assms unfolding cuts by (simp_all split: if_splits)
  then have build: "pred_option (\<lambda>b. list_all re_identifier (js_split 46 b)) b"
    by (simp add: badBuild_iff)
  have raw: "raw = wb @ (case b of None \<Rightarrow> [] | Some b \<Rightarrow> 43 # b)"
    by (cases ps) (auto simp: wb_def b_def ps_def dest: cut_at)
  have wb: "wb = core @ (case pre of None \<Rightarrow> [] | Some p \<Rightarrow> 45 # p)"
    by (cases hy) (auto simp: core_def pre_def hy_def dest: cut_at)
  from cc obtain ma mi pa where core: "core = ma @ 46 # mi @ 46 # pa"
    and nums: "strictNumber ma" "strictNumber mi" "strictNumber pa"
    and pre: "pred_option (\<lambda>p. list_all strictPrereleasePart (js_split 46 p)) pre"
    and v: "v = \<lparr>sv_raw = raw, sv_major = ma, sv_minor = mi, sv_patch = pa,
        sv_prerelease = pre, sv_build = b\<rparr>"
    by (auto simp: classifyCore_valid_iff split_three)
  have "raw = renderVersion v"
    unfolding v renderVersion_def using raw wb core by simp
  then show ?thesis
    using nums pre build len utf8ByteLength_ge [of raw] by (simp add: strictSyntax_def v)
qed

lemma number_avoids: "strictNumber s \<Longrightarrow> \<not> is_digit c \<Longrightarrow> c \<notin> set s"
  using strictNumber_chars by blast

lemma prerelease_no_plus: "strictSyntax v \<Longrightarrow> sv_prerelease v = Some p \<Longrightarrow> 43 \<notin> set p"
proof -
  assume "strictSyntax v" "sv_prerelease v = Some p"
  then have "list_all version_char p"
    by (auto simp: strictSyntax_def intro: split_chars strictPrereleasePart_chars)
  then show ?thesis using version_char_simple [of 43] by (auto simp: list_all_iff)
qed

lemma render_guards:
  assumes "strictSyntax v"
  shows "length (renderVersion v) \<noteq> 0" "isAscii (renderVersion v)"
    "js_trim (renderVersion v) = renderVersion v" "\<not> list_ex js_space (renderVersion v)"
    "is_digit (hd (renderVersion v))"
    "\<not> list_ex (\<lambda>c. c \<in> set range_operator_chars) (renderVersion v)"
    "utf8ByteLength (renderVersion v) = length (renderVersion v)"
proof -
  note chars = render_chars [OF assms]
  have num: "strictNumber (sv_major v)" using assms by (simp add: strictSyntax_def)
  show ne: "length (renderVersion v) \<noteq> 0" by (simp add: renderVersion_def)
  show "isAscii (renderVersion v)" "\<not> list_ex js_space (renderVersion v)"
    "\<not> list_ex (\<lambda>c. c \<in> set range_operator_chars) (renderVersion v)"
    using chars by (auto simp: isAscii_def list_all_iff list_ex_iff not_less)
  show "js_trim (renderVersion v) = renderVersion v"
    using chars ne by (simp add: js_trim_id_iff)
  show "is_digit (hd (renderVersion v))"
    using num strictNumber_nonempty [OF num] strictNumber_chars [OF num]
    by (simp add: renderVersion_def hd_append)
  show "utf8ByteLength (renderVersion v) = length (renderVersion v)"
    using chars by (intro utf8ByteLength_ascii) (simp add: list_all_iff)
qed

lemma classify_complete:
  assumes syn: "strictSyntax v" and raw: "sv_raw v = renderVersion v"
    and len: "length (renderVersion v) \<le> NPM_RAW_VERSION_MAX_UTF8_BYTES"
  shows "classifyObservedNpmVersion (Some (renderVersion v)) = ValidStrictSemver v"
proof -
  let ?r = "renderVersion v"
  let ?core = "sv_major v @ 46 # sv_minor v @ 46 # sv_patch v"
  define wb where "wb = ?core @ (case sv_prerelease v of None \<Rightarrow> [] | Some p \<Rightarrow> 45 # p)"
  have nums: "strictNumber (sv_major v)" "strictNumber (sv_minor v)" "strictNumber (sv_patch v)"
    using syn by (simp_all add: strictSyntax_def)
  have avoid: "43 \<notin> set ?core" "45 \<notin> set ?core" "46 \<notin> set (sv_major v)"
      "46 \<notin> set (sv_minor v)" "46 \<notin> set (sv_patch v)"
    using nums by (simp_all add: number_avoids is_digit_def)
  have r: "?r = wb @ (case sv_build v of None \<Rightarrow> [] | Some b \<Rightarrow> 43 # b)"
    by (simp add: renderVersion_def wb_def)
  have "43 \<notin> set wb"
    using avoid(1) prerelease_no_plus [OF syn]
    by (cases "sv_prerelease v") (simp_all add: wb_def)
  note cut1 = optional_tail_cut [OF this r]
  note cut2 = optional_tail_cut [OF avoid(2) wb_def]
  have "classifyCore ?r ?core (sv_prerelease v) (sv_build v) = ValidStrictSemver v"
    unfolding classifyCore_valid_iff using syn avoid raw
    by (intro exI [of _ "sv_major v"] exI [of _ "sv_minor v"] exI [of _ "sv_patch v"])
      (simp add: strictSyntax_def js_split_append js_split_single)
  moreover have "\<not> badBuild (sv_build v)"
    using syn by (simp add: badBuild_iff strictSyntax_def)
  ultimately show ?thesis
    using render_guards [OF syn] len
    unfolding classifyObserved_cuts [OF refl cut1 refl cut2(2,1)]
    by (auto simp: is_digit_def)
qed

text \<open>
  C21. The classifier accepts a string as strict SemVer, with the given components, exactly when the
  string is the rendering of these components, the components obey the strict syntax and the string
  is at most 256 long: parsing and rendering are inverse to each other, and nothing else is accepted.
\<close>

theorem classify_roundtrip:
  "classifyObservedNpmVersion (Some raw) = ValidStrictSemver v \<longleftrightarrow>
     strictSyntax v \<and> raw = renderVersion v \<and> sv_raw v = raw \<and>
     length raw \<le> NPM_RAW_VERSION_MAX_UTF8_BYTES"
  using classify_sound classify_complete by auto

end
