(* ===== verification/NpmCompare.thy ===== *)
theory NpmCompare
  imports NpmVersion
begin

text \<open>
  \<^verbatim>\<open>first-ecosystem/compare.ts\<close>: SemVer 2.0.0 item 11 precedence on strict cores, where numeric
  identifiers are compared as decimal strings. The comparators are shown to be total orders (they
  interpret \<open>total_cmp\<close>) and to refine a specification on natural numbers.
\<close>

datatype npmCompareResult = LessThan | EqualTo | GreaterThan | CompareUnknown

record strictSemverCore =
  major :: jstr
  minor :: jstr
  patch :: jstr
  prerelease :: "jstr list option"

fun compareCodeUnits :: "jstr \<Rightarrow> jstr \<Rightarrow> int" where
  "compareCodeUnits (leftCode # left) (rightCode # right) =
     (if leftCode < rightCode then -1
      else if leftCode > rightCode then 1
      else compareCodeUnits left right)"
| "compareCodeUnits left right =
     (if length left = length right then 0 else if length left < length right then -1 else 1)"

definition compareDecimalIdentifiers :: "jstr \<Rightarrow> jstr \<Rightarrow> int" where
  "compareDecimalIdentifiers left right =
     (if length left \<noteq> length right then (if length left < length right then -1 else 1)
      else compareCodeUnits left right)"

definition comparePrereleaseIdentifier :: "jstr \<Rightarrow> jstr \<Rightarrow> int" where
  "comparePrereleaseIdentifier left right =
     (let leftNumeric = re_digits left; rightNumeric = re_digits right
      in if leftNumeric \<and> rightNumeric then compareDecimalIdentifiers left right
         else if leftNumeric \<and> \<not> rightNumeric then -1
         else if \<not> leftNumeric \<and> rightNumeric then 1
         else compareCodeUnits left right)"

fun comparePrereleaseParts :: "jstr list \<Rightarrow> jstr list \<Rightarrow> int" where
  "comparePrereleaseParts (leftPart # left) (rightPart # right) =
     (let compared = comparePrereleaseIdentifier leftPart rightPart
      in if compared \<noteq> 0 then compared else comparePrereleaseParts left right)"
| "comparePrereleaseParts left right =
     (if length left = length right then 0 else if length left < length right then -1 else 1)"

fun comparePrerelease :: "jstr list option \<Rightarrow> jstr list option \<Rightarrow> int" where
  "comparePrerelease None None = 0"
| "comparePrerelease None (Some right) = 1"
| "comparePrerelease (Some left) None = -1"
| "comparePrerelease (Some left) (Some right) = comparePrereleaseParts left right"

definition coreOf :: "strictSemver \<Rightarrow> strictSemverCore" where
  "coreOf v = \<lparr>major = sv_major v, minor = sv_minor v, patch = sv_patch v,
               prerelease = map_option (js_split 46) (sv_prerelease v)\<rparr>"

definition strictSemverCore :: "observedVersion \<Rightarrow> strictSemverCore option" where
  "strictSemverCore version =
     (case version of ValidStrictSemver v \<Rightarrow> Some (coreOf v) | NotStrictSemver _ _ \<Rightarrow> None)"

definition compareStrictSemverCores ::
  "strictSemverCore \<Rightarrow> strictSemverCore \<Rightarrow> npmCompareResult" where
  "compareStrictSemverCores left right =
     (let majorOrder = compareDecimalIdentifiers (major left) (major right)
      in if majorOrder \<noteq> 0 then (if majorOrder < 0 then LessThan else GreaterThan)
         else let minorOrder = compareDecimalIdentifiers (minor left) (minor right)
         in if minorOrder \<noteq> 0 then (if minorOrder < 0 then LessThan else GreaterThan)
         else let patchOrder = compareDecimalIdentifiers (patch left) (patch right)
         in if patchOrder \<noteq> 0 then (if patchOrder < 0 then LessThan else GreaterThan)
         else let prereleaseOrder = comparePrerelease (prerelease left) (prerelease right)
         in if prereleaseOrder = 0 then EqualTo
         else (if prereleaseOrder < 0 then LessThan else GreaterThan))"

subsection \<open>The comparators are total orders\<close>

lemma compareCodeUnits_lex: "compareCodeUnits = lex_cmp linord_cmp"
proof (intro ext)
  fix l r
  show "compareCodeUnits l r = lex_cmp linord_cmp l r"
  proof (induction l arbitrary: r)
    case Nil
    then show ?case by (cases r) simp_all
  next
    case (Cons c l)
    then show ?case by (cases r) (auto simp: linord_cmp_def)
  qed
qed

interpretation codeUnits: total_cmp compareCodeUnits
  unfolding compareCodeUnits_lex by (rule jstr_order.total_cmp_axioms)

lemma compareDecimalIdentifiers_then:
  "compareDecimalIdentifiers = then_cmp (\<lambda>l r. linord_cmp (length l) (length r)) compareCodeUnits"
  by (intro ext) (auto simp: compareDecimalIdentifiers_def then_cmp_def linord_cmp_def)

interpretation decimalIds: total_cmp compareDecimalIdentifiers
proof (rule total_cmpI)
  show "preorder_cmp compareDecimalIdentifiers"
    unfolding compareDecimalIdentifiers_then
    by (rule preorder_then [OF preorder_by_key [OF linord.preorder_cmp_axioms]
          codeUnits.preorder_cmp_axioms])
  show "x = y" if "compareDecimalIdentifiers x y = 0" for x y
    using that by (auto simp: compareDecimalIdentifiers_def codeUnits.cmp_zero_iff split: if_splits)
qed

interpretation prereleaseIds: total_cmp comparePrereleaseIdentifier
proof (rule total_cmpI)
  show "preorder_cmp comparePrereleaseIdentifier"
  proof
    fix x y z
    show "comparePrereleaseIdentifier x x = 0"
      by (simp add: comparePrereleaseIdentifier_def Let_def decimalIds.cmp_refl codeUnits.cmp_refl)
    show "comparePrereleaseIdentifier y x = - comparePrereleaseIdentifier x y"
      by (simp add: comparePrereleaseIdentifier_def Let_def decimalIds.cmp_flip [of x y]
          codeUnits.cmp_flip [of x y])
    show "comparePrereleaseIdentifier x y \<le> 0 \<Longrightarrow> comparePrereleaseIdentifier y z \<le> 0 \<Longrightarrow>
        comparePrereleaseIdentifier x z \<le> 0"
      by (auto simp: comparePrereleaseIdentifier_def Let_def split: if_splits
          intro: decimalIds.cmp_trans codeUnits.cmp_trans)
  qed
  show "x = y" if "comparePrereleaseIdentifier x y = 0" for x y
    using that by (auto simp: comparePrereleaseIdentifier_def Let_def decimalIds.cmp_zero_iff
        codeUnits.cmp_zero_iff split: if_splits)
qed

lemma comparePrereleaseParts_lex: "comparePrereleaseParts = lex_cmp comparePrereleaseIdentifier"
proof (intro ext)
  fix l r
  show "comparePrereleaseParts l r = lex_cmp comparePrereleaseIdentifier l r"
  proof (induction l arbitrary: r)
    case Nil
    then show ?case by (cases r) simp_all
  next
    case (Cons c l)
    then show ?case by (cases r) (simp_all add: Let_def)
  qed
qed

interpretation prereleaseParts: total_cmp comparePrereleaseParts
  unfolding comparePrereleaseParts_lex by (rule total_lex) (rule prereleaseIds.total_cmp_axioms)

interpretation prereleases: total_cmp comparePrerelease
proof (rule total_cmpI)
  show "preorder_cmp comparePrerelease"
  proof
    fix x y z
    show "comparePrerelease x x = 0" by (cases x) (simp_all add: prereleaseParts.cmp_refl)
    show "comparePrerelease y x = - comparePrerelease x y"
      by (cases x; cases y) (auto intro: prereleaseParts.cmp_flip)
    show "comparePrerelease x y \<le> 0 \<Longrightarrow> comparePrerelease y z \<le> 0 \<Longrightarrow> comparePrerelease x z \<le> 0"
      by (cases x; cases y; cases z) (auto dest: prereleaseParts.cmp_trans)
  qed
  show "x = y" if "comparePrerelease x y = 0" for x y
    using that by (cases x; cases y) (simp_all add: prereleaseParts.cmp_zero)
qed

text \<open>The sign of a comparison result, which turns the core comparison into a comparator.\<close>

definition resultSign :: "npmCompareResult \<Rightarrow> int" where
  "resultSign r = (case r of LessThan \<Rightarrow> -1 | EqualTo \<Rightarrow> 0 | GreaterThan \<Rightarrow> 1 | CompareUnknown \<Rightarrow> 0)"

definition coreOrder :: "strictSemverCore \<Rightarrow> strictSemverCore \<Rightarrow> int" where
  "coreOrder l r = resultSign (compareStrictSemverCores l r)"

lemma coreOrder_chain:
  "coreOrder l r = sgn (then_cmp (\<lambda>l r. compareDecimalIdentifiers (major l) (major r))
     (then_cmp (\<lambda>l r. compareDecimalIdentifiers (minor l) (minor r))
       (then_cmp (\<lambda>l r. compareDecimalIdentifiers (patch l) (patch r))
         (\<lambda>l r. comparePrerelease (prerelease l) (prerelease r)))) l r)"
  by (simp add: coreOrder_def resultSign_def compareStrictSemverCores_def then_cmp_def Let_def
      sgn_if)

lemma preorder_sgn:
  assumes f: "preorder_cmp f"
  shows "preorder_cmp (\<lambda>x y. sgn (f x y :: int))"
proof
  fix x y z
  show "sgn (f x x) = 0" by (simp add: preorder_cmp.cmp_refl [OF f])
  show "sgn (f y x) = - sgn (f x y)" by (simp add: preorder_cmp.cmp_flip [OF f, of y x])
  show "sgn (f x y) \<le> 0 \<Longrightarrow> sgn (f y z) \<le> 0 \<Longrightarrow> sgn (f x z) \<le> 0"
    using preorder_cmp.cmp_trans [OF f, of x y z] by (simp add: sgn_if split: if_splits)
qed

lemma compare_coreOrder:
  "compareStrictSemverCores l r =
     (if coreOrder l r = 0 then EqualTo else if coreOrder l r < 0 then LessThan else GreaterThan)"
  by (auto simp: coreOrder_def resultSign_def compareStrictSemverCores_def Let_def)

interpretation cores: total_cmp coreOrder
proof (rule total_cmpI)
  note dec = preorder_by_key [OF decimalIds.preorder_cmp_axioms]
  show "preorder_cmp coreOrder"
    unfolding coreOrder_chain [abs_def]
    by (rule preorder_sgn [OF preorder_then [OF dec preorder_then [OF dec preorder_then [OF dec
          preorder_by_key [OF prereleases.preorder_cmp_axioms]]]]])
  show "x = y" if "coreOrder x y = 0" for x y
    using that
    by (auto simp: coreOrder_chain then_cmp_def sgn_0_0 decimalIds.cmp_zero_iff
        prereleases.cmp_zero_iff split: if_splits)
qed

lemma compare_never_unknown [simp]: "compareStrictSemverCores l r \<noteq> CompareUnknown"
  by (simp add: compare_coreOrder)

lemma compare_result_iff:
  "compareStrictSemverCores l r = LessThan \<longleftrightarrow> coreOrder l r < 0"
  "compareStrictSemverCores l r = EqualTo \<longleftrightarrow> l = r"
  "compareStrictSemverCores l r = GreaterThan \<longleftrightarrow> coreOrder l r > 0"
  using cores.cmp_zero_iff [of l r] by (auto simp: compare_coreOrder)

subsection \<open>Decimal strings denote their numeric order\<close>

lemma decval_Cons: "decval (c # s) = (c - 48) * 10 ^ length s + decval s"
proof (induction s rule: rev_induct)
  case Nil
  then show ?case by (simp add: decval_def)
next
  case (snoc d s)
  have "decval (c # s @ [d]) = 10 * decval (c # s) + (d - 48)"
    by (metis append_Cons decval_snoc)
  with snoc show ?case by (simp add: algebra_simps)
qed

lemma decval_bound: "list_all is_digit s \<Longrightarrow> decval s < 10 ^ length s"
proof (induction s)
  case Nil
  then show ?case by simp
next
  case (Cons c s)
  then have "decval s < 10 ^ length s" by simp
  moreover have "(c - 48) * 10 ^ length s \<le> 9 * 10 ^ length s"
    using Cons.prems by (intro mult_right_mono) (auto simp: is_digit_def)
  ultimately have "(c - 48) * 10 ^ length s + decval s < 9 * 10 ^ length s + 10 ^ length s"
    by linarith
  then show ?case by (simp add: decval_Cons)
qed

lemma compareCodeUnits_decval:
  "length s = length t \<Longrightarrow> list_all is_digit s \<Longrightarrow> list_all is_digit t \<Longrightarrow>
     compareCodeUnits s t = linord_cmp (decval s) (decval t)"
proof (induction s t rule: list_induct2)
  case Nil
  then show ?case by (simp add: linord_cmp_def)
next
  case (Cons c s d t)
  have bounds: "decval s < 10 ^ length s" "decval t < 10 ^ length s"
    using Cons decval_bound [of s] decval_bound [of t] by auto
  consider "c < d" | "c = d" | "d < c" by linarith
  then show ?case
  proof cases
    case 1
    then have "(c - 48 + 1) * 10 ^ length s \<le> (d - 48) * 10 ^ length s"
      using Cons.prems by (intro mult_right_mono) (auto simp: is_digit_def)
    with 1 bounds Cons.hyps show ?thesis by (simp add: decval_Cons linord_cmp_def)
  next
    case 2
    with Cons show ?thesis by (auto simp: decval_Cons linord_cmp_def)
  next
    case 3
    then have "(d - 48 + 1) * 10 ^ length s \<le> (c - 48) * 10 ^ length s"
      using Cons.prems by (intro mult_right_mono) (auto simp: is_digit_def)
    with 3 bounds Cons.hyps show ?thesis by (simp add: decval_Cons linord_cmp_def)
  qed
qed

lemma canonical_digits: "re_canonical_number s \<Longrightarrow> list_all is_digit s \<and> s \<noteq> []"
  by (cases s) (auto simp: is_digit_def)

lemma canonical_lower_bound:
  "re_canonical_number s \<Longrightarrow> 1 < length s \<Longrightarrow> 10 ^ (length s - 1) \<le> decval s"
  by (cases s) (auto simp: decval_Cons intro: trans_le_add1)

lemma canonical_shorter_less:
  assumes "re_canonical_number s" "re_canonical_number t" "length s < length t"
  shows "decval s < decval t"
proof -
  have "decval s < 10 ^ length s" using assms canonical_digits decval_bound by blast
  also have "(10::nat) ^ length s \<le> 10 ^ (length t - 1)"
    using assms by (intro power_increasing) auto
  also have "\<dots> \<le> decval t"
    using assms canonical_digits [of s] by (intro canonical_lower_bound) (cases s; auto)+
  finally show ?thesis .
qed

lemma compareDecimal_numeric:
  assumes "re_canonical_number s" "re_canonical_number t"
  shows "compareDecimalIdentifiers s t = linord_cmp (decval s) (decval t)"
proof -
  consider "length s < length t" | "length s = length t" | "length t < length s" by linarith
  then show ?thesis
  proof cases
    case 1
    then show ?thesis
      using canonical_shorter_less [OF assms] by (simp add: compareDecimalIdentifiers_def linord_cmp_def)
  next
    case 2
    then show ?thesis
      using compareCodeUnits_decval [of s t] canonical_digits assms
      by (simp add: compareDecimalIdentifiers_def)
  next
    case 3
    then show ?thesis
      using canonical_shorter_less [OF assms(2,1)]
      by (simp add: compareDecimalIdentifiers_def linord_cmp_def)
  qed
qed

subsection \<open>The specification: precedence on numbers\<close>

text \<open>SemVer 2.0.0 item 11, stated on natural numbers and identifier lists.\<close>

datatype preIdentifier = Numeric nat | Alphanumeric jstr

record semver =
  spec_major :: nat
  spec_minor :: nat
  spec_patch :: nat
  spec_prerelease :: "preIdentifier list option"

fun preIdentifierOrder :: "preIdentifier \<Rightarrow> preIdentifier \<Rightarrow> int" where
  "preIdentifierOrder (Numeric m) (Numeric n) = linord_cmp m n"
| "preIdentifierOrder (Numeric m) (Alphanumeric t) = -1"
| "preIdentifierOrder (Alphanumeric s) (Numeric n) = 1"
| "preIdentifierOrder (Alphanumeric s) (Alphanumeric t) = lex_cmp linord_cmp s t"

fun prereleaseOrder :: "preIdentifier list option \<Rightarrow> preIdentifier list option \<Rightarrow> int" where
  "prereleaseOrder None None = 0"
| "prereleaseOrder None (Some q) = 1"
| "prereleaseOrder (Some p) None = -1"
| "prereleaseOrder (Some p) (Some q) = lex_cmp preIdentifierOrder p q"

definition precedence :: "semver \<Rightarrow> semver \<Rightarrow> int" where
  "precedence v w = first_nonzero
     [linord_cmp (spec_major v) (spec_major w),
      linord_cmp (spec_minor v) (spec_minor w),
      linord_cmp (spec_patch v) (spec_patch w),
      prereleaseOrder (spec_prerelease v) (spec_prerelease w)]"

definition absIdentifier :: "jstr \<Rightarrow> preIdentifier" where
  "absIdentifier s = (if re_digits s then Numeric (decval s) else Alphanumeric s)"

definition absCore :: "strictSemverCore \<Rightarrow> semver" where
  "absCore c = \<lparr>spec_major = decval (major c), spec_minor = decval (minor c),
                spec_patch = decval (patch c),
                spec_prerelease = map_option (map absIdentifier) (prerelease c)\<rparr>"

definition wfIdentifier :: "jstr \<Rightarrow> bool" where
  "wfIdentifier s \<longleftrightarrow> (re_digits s \<longrightarrow> re_canonical_number s)"

definition wfCore :: "strictSemverCore \<Rightarrow> bool" where
  "wfCore c \<longleftrightarrow> re_canonical_number (major c) \<and> re_canonical_number (minor c) \<and>
     re_canonical_number (patch c) \<and> pred_option (list_all wfIdentifier) (prerelease c)"

lemma comparePrereleaseIdentifier_abs:
  "wfIdentifier s \<Longrightarrow> wfIdentifier t \<Longrightarrow>
     comparePrereleaseIdentifier s t = preIdentifierOrder (absIdentifier s) (absIdentifier t)"
  by (simp add: comparePrereleaseIdentifier_def absIdentifier_def wfIdentifier_def Let_def
      compareDecimal_numeric compareCodeUnits_lex)

lemma comparePrereleaseParts_abs:
  "list_all wfIdentifier p \<Longrightarrow> list_all wfIdentifier q \<Longrightarrow>
     comparePrereleaseParts p q = lex_cmp preIdentifierOrder (map absIdentifier p) (map absIdentifier q)"
proof (induction p arbitrary: q)
  case Nil
  then show ?case by (cases q) simp_all
next
  case (Cons s p)
  then show ?case
    by (cases q) (simp_all add: Let_def comparePrereleaseIdentifier_abs)
qed

lemma comparePrerelease_abs:
  "pred_option (list_all wfIdentifier) p \<Longrightarrow> pred_option (list_all wfIdentifier) q \<Longrightarrow>
     comparePrerelease p q =
       prereleaseOrder (map_option (map absIdentifier) p) (map_option (map absIdentifier) q)"
  by (cases p; cases q) (simp_all add: comparePrereleaseParts_abs)

lemma linord_cmp_range: "linord_cmp x y \<in> {-1, 0, 1}"
  by (simp add: linord_cmp_def)

lemma preIdentifierOrder_range: "preIdentifierOrder x y \<in> {-1, 0, 1}"
  using linord_cmp_range lex_signs [OF linord_cmp_range]
  by (cases x; cases y) (simp_all only: preIdentifierOrder.simps insert_iff simp_thms)

lemma prereleaseOrder_range: "prereleaseOrder p q \<in> {-1, 0, 1}"
  using lex_signs [OF preIdentifierOrder_range]
  by (cases p; cases q) (simp_all only: prereleaseOrder.simps insert_iff simp_thms)

lemma first_nonzero_range: "set ks \<subseteq> {-1, 0, 1} \<Longrightarrow> sgn (first_nonzero ks) = first_nonzero ks"
  by (induction ks) auto

lemma coreOrder_precedence:
  assumes "wfCore l" "wfCore r"
  shows "coreOrder l r = precedence (absCore l) (absCore r)"
proof -
  have "coreOrder l r = sgn (precedence (absCore l) (absCore r))"
    using assms
    by (simp add: coreOrder_chain then_cmp_def precedence_def absCore_def wfCore_def
        compareDecimal_numeric comparePrerelease_abs)
  also have "\<dots> = precedence (absCore l) (absCore r)"
    unfolding precedence_def
    by (intro first_nonzero_range)
      (simp only: list.set insert_subset empty_subsetI simp_thms linord_cmp_range
        prereleaseOrder_range)
  finally show ?thesis .
qed

lemma classified_wfCore:
  "classifyObservedNpmVersion (Some raw) = ValidStrictSemver v \<Longrightarrow> wfCore (coreOf v)"
  by (drule classify_sound)
    (auto simp: strictSyntax_def wfCore_def coreOf_def strictNumber_def wfIdentifier_def
      strictPrereleasePart_def option.pred_map list_all_iff pred_option_def split: if_splits)

text \<open>
  C14. On classified versions the string-based comparator computes SemVer 2.0.0 precedence on the
  numbers the identifiers denote: it never coerces, and it agrees with the specification at every
  length up to the 20-digit limit.
\<close>

theorem compare_refines_precedence:
  assumes "classifyObservedNpmVersion (Some raw1) = ValidStrictSemver v1"
    and "classifyObservedNpmVersion (Some raw2) = ValidStrictSemver v2"
  shows "compareStrictSemverCores (coreOf v1) (coreOf v2) =
    (let p = precedence (absCore (coreOf v1)) (absCore (coreOf v2))
     in if p < 0 then LessThan else if p = 0 then EqualTo else GreaterThan)"
  using coreOrder_precedence [OF assms [THEN classified_wfCore]]
  by (auto simp: compare_coreOrder Let_def)

definition example_rc :: strictSemver where
  [eval_defs]: "example_rc = \<lparr>sv_raw = js ''1.10.0-rc.2+b7'', sv_major = js ''1'',
     sv_minor = js ''10'', sv_patch = js ''0'', sv_prerelease = Some (js ''rc.2''),
     sv_build = Some (js ''b7'')\<rparr>"

definition example_release :: strictSemver where
  [eval_defs]: "example_release = \<lparr>sv_raw = js ''1.9.0'', sv_major = js ''1'', sv_minor = js ''9'',
     sv_patch = js ''0'', sv_prerelease = None, sv_build = None\<rparr>"

lemmas semver_eval = eval_defs catalog_defs strictSyntax_def strictNumber_def
  strictPrereleasePart_def renderVersion_def

lemma example_rc_classified:
  "classifyObservedNpmVersion (Some (js ''1.10.0-rc.2+b7'')) = ValidStrictSemver example_rc"
proof -
  have "strictSyntax example_rc" "renderVersion example_rc = js ''1.10.0-rc.2+b7''"
    by (simp_all add: semver_eval)
  then show ?thesis
    using classify_complete [of example_rc] by (simp add: catalog_defs example_rc_def)
qed

lemma example_release_classified:
  "classifyObservedNpmVersion (Some (js ''1.9.0'')) = ValidStrictSemver example_release"
proof -
  have "strictSyntax example_release" "renderVersion example_release = js ''1.9.0''"
    by (simp_all add: semver_eval)
  then show ?thesis
    using classify_complete [of example_release] by (simp add: catalog_defs example_release_def)
qed

theorem compare_refines_precedence_witness:
  "compareStrictSemverCores (coreOf example_release) (coreOf example_rc) = LessThan \<and>
   precedence (absCore (coreOf example_release)) (absCore (coreOf example_rc)) = -1"
proof -
  have p: "precedence (absCore (coreOf example_release)) (absCore (coreOf example_rc)) = -1"
    by code_simp
  then show ?thesis
    using compare_refines_precedence [OF example_release_classified example_rc_classified]
    by simp
qed

text \<open>
  The comparison of strict cores is a total order: it never returns \<^verbatim>\<open>unknown\<close>, \<^verbatim>\<open>equal\<close> means the
  same core, exchanging the arguments exchanges \<^verbatim>\<open>less_than\<close> and \<^verbatim>\<open>greater_than\<close>, and it is
  transitive.
\<close>

theorem compare_total_order:
  "compareStrictSemverCores l r \<noteq> CompareUnknown \<and>
   (compareStrictSemverCores l r = EqualTo \<longleftrightarrow> l = r) \<and>
   (compareStrictSemverCores l r = LessThan \<longleftrightarrow> compareStrictSemverCores r l = GreaterThan) \<and>
   (compareStrictSemverCores l m = LessThan \<and> compareStrictSemverCores m r = LessThan \<longrightarrow>
     compareStrictSemverCores l r = LessThan)"
  using cores.cmp_flip [of l r] cores.less_le_trans [of l m r]
  by (auto simp: compare_result_iff)

theorem compare_total_order_witness:
  "compareStrictSemverCores (coreOf example_release) (coreOf example_rc) = LessThan \<and>
   compareStrictSemverCores (coreOf example_rc) (coreOf example_rc\<lparr>prerelease := None\<rparr>) = LessThan \<and>
   compareStrictSemverCores (coreOf example_release) (coreOf example_rc\<lparr>prerelease := None\<rparr>) = LessThan"
proof -
  have a: "compareStrictSemverCores (coreOf example_release) (coreOf example_rc) = LessThan"
    by code_simp
  have b: "compareStrictSemverCores (coreOf example_rc) (coreOf example_rc\<lparr>prerelease := None\<rparr>) = LessThan"
    by code_simp
  show ?thesis using a b compare_total_order by blast
qed

end
