(* ===== verification/NpmRanges.thy ===== *)
theory NpmRanges
  imports NpmCompare
begin

text \<open>
  \<^verbatim>\<open>first-ecosystem/ranges.ts\<close>: the structural classification of the affected ranges of an advisory.
  An event is the association list of its own string properties; the version cache is threaded
  through every call that reads or fills it.
\<close>

subsection \<open>Definitions\<close>

definition FIRST_ECOSYSTEM_MAX_AFFECTED_RANGES :: nat where
  [catalog_defs]: "FIRST_ECOSYSTEM_MAX_AFFECTED_RANGES = 32"

definition FIRST_ECOSYSTEM_MAX_EVENTS_PER_RANGE :: nat where
  [catalog_defs]: "FIRST_ECOSYSTEM_MAX_EVENTS_PER_RANGE = 16"

definition FIRST_ECOSYSTEM_MAX_TOTAL_EVENTS :: nat where
  [catalog_defs]: "FIRST_ECOSYSTEM_MAX_TOTAL_EVENTS = 64"

definition FIRST_ECOSYSTEM_MAX_EXPLICIT_VERSIONS :: nat where
  [catalog_defs]: "FIRST_ECOSYSTEM_MAX_EXPLICIT_VERSIONS = 64"

definition NPM_ACCEPTED_RANGE_TYPE :: jstr where
  [catalog_defs]: "NPM_ACCEPTED_RANGE_TYPE = js ''SEMVER''"

definition NPM_ACCEPTED_EVENTS :: "jstr list" where
  [catalog_defs]: "NPM_ACCEPTED_EVENTS =
     [js ''introduced'', js ''fixed'', js ''last_affected'', js ''limit'']"

type_synonym rangeEvent = "(jstr \<times> jstr) list"

record advisoryRange =
  rangeType :: jstr
  rangeEvents :: "rangeEvent list"

datatype rangeStructure =
    WellFormed | EmptyEvidence | MalformedRange | UnsupportedRangeType | UnsupportedEvent
  | Contradictory | RangeCapacityExceeded

definition classifyRangeVersion ::
  "jstr \<Rightarrow> versionCache option \<Rightarrow> observedVersion \<times> versionCache option" where
  "classifyRangeVersion value cache =
     (case cache of
        None \<Rightarrow> (classifyObservedNpmVersion (Some value), None)
      | Some c \<Rightarrow> (case rememberObservedNpmVersion value c of (v, c') \<Rightarrow> (v, Some c')))"

datatype eventVersion = EvSentinel | EvSemver | EvBad | EvCapacity | EvPrerelease

definition eventVersionClass ::
  "jstr \<Rightarrow> jstr \<Rightarrow> versionCache option \<Rightarrow> eventVersion \<times> versionCache option" where
  "eventVersionClass name value cache =
     (if value = js ''0'' then ((if name = js ''introduced'' then EvSentinel else EvBad), cache)
      else case classifyRangeVersion value cache of (version, cache') \<Rightarrow>
        ((case version of
            NotStrictSemver CapacityExceeded _ \<Rightarrow> EvCapacity
          | NotStrictSemver _ _ \<Rightarrow> EvBad
          | ValidStrictSemver v \<Rightarrow>
              (if sv_prerelease v = None then EvSemver else EvPrerelease)), cache'))"

datatype phase = NeedIntroduced | PhaseOpen | ClosedByFixed | ClosedByLastAffected

text \<open>One event of the timeline: the next phase and whether \<^verbatim>\<open>limit\<close> was seen, or a contradiction.\<close>

definition timelineStep :: "rangeEvent \<Rightarrow> phase \<times> bool \<Rightarrow> (phase \<times> bool) option" where
  "timelineStep event st =
     (case (st, event) of
        ((_, _), []) \<Rightarrow> None
      | ((phase, limitSeen), (key, _) # _) \<Rightarrow>
          if limitSeen then None
          else case phase of
            NeedIntroduced \<Rightarrow> (if key \<noteq> js ''introduced'' then None else Some (PhaseOpen, False))
          | PhaseOpen \<Rightarrow>
              (if key = js ''fixed'' then Some (ClosedByFixed, False)
               else if key = js ''last_affected'' then Some (ClosedByLastAffected, False)
               else if key = js ''limit'' then Some (PhaseOpen, True)
               else None)
          | ClosedByFixed \<Rightarrow>
              (if key = js ''introduced'' then Some (PhaseOpen, False)
               else if key = js ''limit'' then Some (ClosedByFixed, True)
               else None)
          | ClosedByLastAffected \<Rightarrow>
              (if key = js ''limit'' then Some (ClosedByLastAffected, True) else None))"

fun timelineRun :: "rangeEvent list \<Rightarrow> phase \<times> bool \<Rightarrow> (phase \<times> bool) option" where
  "timelineRun [] st = Some st"
| "timelineRun (event # events) st =
     (case timelineStep event st of None \<Rightarrow> None | Some st' \<Rightarrow> timelineRun events st')"

text \<open>\<^verbatim>\<open>eventTimeline(events) === 'ok'\<close>.\<close>

definition eventTimeline :: "rangeEvent list \<Rightarrow> bool" where
  "eventTimeline events =
     (case timelineRun events (NeedIntroduced, False) of
        None \<Rightarrow> False
      | Some (phase, _) \<Rightarrow> phase \<noteq> NeedIntroduced)"

record eventCounts =
  introducedCount :: nat
  fixedCount :: nat
  lastAffectedCount :: nat
  limitCount :: nat

definition countEvent :: "jstr \<Rightarrow> eventCounts \<Rightarrow> eventCounts" where
  "countEvent key c =
     (if key = js ''introduced'' then c\<lparr>introducedCount := introducedCount c + 1\<rparr>
      else if key = js ''fixed'' then c\<lparr>fixedCount := fixedCount c + 1\<rparr>
      else if key = js ''last_affected'' then c\<lparr>lastAffectedCount := lastAffectedCount c + 1\<rparr>
      else c\<lparr>limitCount := limitCount c + 1\<rparr>)"

text \<open>
  The loop over the events of one range: \<open>Inl\<close> is the early return. The set of signatures holds
  \<^verbatim>\<open>`${key}=${value}`\<close>.
\<close>

fun classifyEvents ::
  "rangeEvent list \<Rightarrow> eventCounts \<Rightarrow> jstr list \<Rightarrow> versionCache option \<Rightarrow>
     (rangeStructure + eventCounts) \<times> versionCache option" where
  "classifyEvents [] counts seen cache = (Inr counts, cache)"
| "classifyEvents (event # events) counts seen cache =
     (case event of
        [(key, value)] \<Rightarrow>
          if key \<notin> set NPM_ACCEPTED_EVENTS then (Inl UnsupportedEvent, cache)
          else
            (let signature = key @ js ''='' @ value
             in if signature \<in> set seen then (Inl Contradictory, cache)
                else case eventVersionClass key value cache of
                  (EvCapacity, cache') \<Rightarrow> (Inl RangeCapacityExceeded, cache')
                | (EvBad, cache') \<Rightarrow> (Inl MalformedRange, cache')
                | (_, cache') \<Rightarrow>
                    classifyEvents events (countEvent key counts) (signature # seen) cache')
      | _ \<Rightarrow> (Inl MalformedRange, cache))"

definition zeroCounts :: eventCounts where
  "zeroCounts = \<lparr>introducedCount = 0, fixedCount = 0, lastAffectedCount = 0, limitCount = 0\<rparr>"

text \<open>\<open>None\<close>: every range passed; \<open>Some\<close>: the early return.\<close>

fun classifyRanges ::
  "advisoryRange list \<Rightarrow> nat \<Rightarrow> versionCache option \<Rightarrow> rangeStructure option \<times> versionCache option" where
  "classifyRanges [] totalEvents cache = (None, cache)"
| "classifyRanges (rng # ranges) totalEvents cache =
     (if rangeType rng \<noteq> NPM_ACCEPTED_RANGE_TYPE then
        ((if rangeType rng = js ''GIT'' \<or> rangeType rng = js ''ECOSYSTEM''
          then Some UnsupportedRangeType else Some MalformedRange), cache)
      else if length (rangeEvents rng) = 0 then (Some MalformedRange, cache)
      else if length (rangeEvents rng) > FIRST_ECOSYSTEM_MAX_EVENTS_PER_RANGE
        then (Some RangeCapacityExceeded, cache)
      else let total = totalEvents + length (rangeEvents rng)
        in if total > FIRST_ECOSYSTEM_MAX_TOTAL_EVENTS then (Some RangeCapacityExceeded, cache)
        else case classifyEvents (rangeEvents rng) zeroCounts [] cache of
          (Inl e, cache') \<Rightarrow> (Some e, cache')
        | (Inr counts, cache') \<Rightarrow>
            if introducedCount counts = 0 then (Some MalformedRange, cache')
            else if fixedCount counts > 0 \<and> lastAffectedCount counts > 0
              then (Some Contradictory, cache')
            else if lastAffectedCount counts > 1 \<or> limitCount counts > 1
              then (Some Contradictory, cache')
            else if \<not> eventTimeline (rangeEvents rng) then (Some Contradictory, cache')
            else classifyRanges ranges total cache')"

fun classifyExplicitVersions ::
  "jstr list \<Rightarrow> jstr list \<Rightarrow> versionCache option \<Rightarrow> rangeStructure \<times> versionCache option" where
  "classifyExplicitVersions [] seen cache = (WellFormed, cache)"
| "classifyExplicitVersions (version # versions) seen cache =
     (if version \<in> set seen then (Contradictory, cache)
      else case classifyRangeVersion version cache of
        (ValidStrictSemver _, cache') \<Rightarrow> classifyExplicitVersions versions (version # seen) cache'
      | (NotStrictSemver CapacityExceeded _, cache') \<Rightarrow> (RangeCapacityExceeded, cache')
      | (NotStrictSemver _ _, cache') \<Rightarrow> (MalformedRange, cache'))"

definition classifyAffectedRangeStructure ::
  "jstr \<Rightarrow> advisoryRange list \<Rightarrow> jstr list \<Rightarrow> versionCache option \<Rightarrow>
     rangeStructure \<times> versionCache option" where
  "classifyAffectedRangeStructure inputRangeType ranges explicitVersions cache =
     (if length ranges = 0 \<and> length explicitVersions = 0 then (EmptyEvidence, cache)
      else if length ranges > FIRST_ECOSYSTEM_MAX_AFFECTED_RANGES \<or>
              length explicitVersions > FIRST_ECOSYSTEM_MAX_EXPLICIT_VERSIONS
        then (RangeCapacityExceeded, cache)
      else if inputRangeType \<noteq> NPM_ACCEPTED_RANGE_TYPE then (UnsupportedRangeType, cache)
      else case classifyRanges ranges 0 cache of
        (Some e, cache') \<Rightarrow> (e, cache')
      | (None, cache') \<Rightarrow> classifyExplicitVersions explicitVersions [] cache')"

text \<open>\<^verbatim>\<open>rangeEvidenceHasPrerelease\<close>: some event or explicit version is a strict prerelease.\<close>

definition isPrereleaseVersion :: "jstr \<Rightarrow> bool" where
  "isPrereleaseVersion value =
     (case classifyObservedNpmVersion (Some value) of
        ValidStrictSemver v \<Rightarrow> sv_prerelease v \<noteq> None
      | NotStrictSemver _ _ \<Rightarrow> False)"

definition rangeEvidenceHasPrerelease :: "advisoryRange list \<Rightarrow> jstr list \<Rightarrow> bool" where
  "rangeEvidenceHasPrerelease ranges explicitVersions \<longleftrightarrow>
     list_ex (\<lambda>rng. list_ex (\<lambda>event.
        case event of [] \<Rightarrow> False
        | (_, value) # _ \<Rightarrow> value \<noteq> js ''0'' \<and> isPrereleaseVersion value) (rangeEvents rng)) ranges \<or>
     list_ex isPrereleaseVersion explicitVersions"

end
