(* ===== verification/NpmBoundaries.thy ===== *)
theory NpmBoundaries
  imports NpmRanges
begin

text \<open>
  \<^verbatim>\<open>first-ecosystem/boundaries.ts\<close> and \<^verbatim>\<open>outcomes.ts\<close>: the affectedness decision for one observed
  version. Ranges are compiled to intervals in the supplied event order; a decision is affected,
  unaffected or unknown with its explanation codes.
\<close>

subsection \<open>outcomes.ts\<close>

datatype explanationCode =
    affected_within_introduced_fixed_range | affected_at_introduced_boundary
  | affected_within_last_affected_range | affected_explicit_version_equal
  | unaffected_before_introduced | unaffected_at_or_after_fixed_boundary
  | unaffected_after_last_affected | unaffected_outside_all_ranges
  | unknown_unsupported_ecosystem | unknown_invalid_package_identity
  | unknown_invalid_observed_version | unknown_unsupported_version_syntax
  | unknown_invalid_range | unknown_unsupported_range_type | unknown_unsupported_event
  | unknown_contradictory_events | unknown_incomplete_evidence
  | unknown_untrusted_advisory_evidence | unknown_kev_not_affectedness_authority
  | unknown_capacity_exceeded | unknown_policy_mismatch | unknown_evaluator_unavailable
  | unknown_comparator_not_implemented | unknown_range_order_not_verified
  | unknown_prerelease_membership_not_proven | unknown_withdrawn_advisory
  | unknown_internal_failure

datatype affectedOutcome = Affected | Unaffected | UnknownOutcome

definition AFFECTED_EXPLANATIONS :: "explanationCode list" where
  "AFFECTED_EXPLANATIONS = [affected_within_introduced_fixed_range, affected_at_introduced_boundary,
     affected_within_last_affected_range, affected_explicit_version_equal]"

definition UNAFFECTED_EXPLANATIONS :: "explanationCode list" where
  "UNAFFECTED_EXPLANATIONS = [unaffected_before_introduced, unaffected_at_or_after_fixed_boundary,
     unaffected_after_last_affected, unaffected_outside_all_ranges]"

definition explanationOutcome :: "explanationCode \<Rightarrow> affectedOutcome" where
  "explanationOutcome code =
     (if code \<in> set AFFECTED_EXPLANATIONS then Affected
      else if code \<in> set UNAFFECTED_EXPLANATIONS then Unaffected
      else UnknownOutcome)"

subsection \<open>boundaries.ts\<close>

datatype versionBound = Sentinel | VersionBound strictSemverCore

datatype interval =
    UnboundedInterval (introducedBound: versionBound)
  | FixedInterval (introducedBound: versionBound) versionBound
  | LastAffectedInterval (introducedBound: versionBound) versionBound

datatype rangeEffect =
    EffIncluded "explanationCode list"
  | EffExcluded "explanationCode list"
  | EffInapplicable
  | EffContradictory
  | EffInternal

record affectedDecision =
  outcome :: affectedOutcome
  codes :: "explanationCode list"

definition orderOf :: "npmCompareResult \<Rightarrow> int option" where
  "orderOf result =
     (case result of LessThan \<Rightarrow> Some (-1) | EqualTo \<Rightarrow> Some 0 | GreaterThan \<Rightarrow> Some 1
      | CompareUnknown \<Rightarrow> None)"

fun compareBounds :: "versionBound \<Rightarrow> versionBound \<Rightarrow> int option" where
  "compareBounds Sentinel Sentinel = Some 0"
| "compareBounds Sentinel (VersionBound r) = Some (-1)"
| "compareBounds (VersionBound l) Sentinel = Some 1"
| "compareBounds (VersionBound l) (VersionBound r) = orderOf (compareStrictSemverCores l r)"

fun compareObservedToBound :: "strictSemverCore \<Rightarrow> versionBound \<Rightarrow> int option" where
  "compareObservedToBound observed Sentinel = Some 1"
| "compareObservedToBound observed (VersionBound core) =
     orderOf (compareStrictSemverCores observed core)"

text \<open>\<open>None\<close> is \<^verbatim>\<open>'bad'\<close>.\<close>

definition eventBound ::
  "jstr \<Rightarrow> jstr \<Rightarrow> versionCache \<Rightarrow> versionBound option \<times> versionCache" where
  "eventBound name value cache =
     (if value = js ''0'' then ((if name = js ''introduced'' then Some Sentinel else None), cache)
      else case rememberObservedNpmVersion value cache of (classified, cache') \<Rightarrow>
        (map_option VersionBound (strictSemverCore classified), cache'))"

definition included :: "strictSemverCore \<Rightarrow> interval \<Rightarrow> bool option" where
  "included observed i =
     (case compareObservedToBound observed (introducedBound i) of
        None \<Rightarrow> None
      | Some afterIntroduced \<Rightarrow>
          if afterIntroduced < 0 then Some False
          else case i of
            UnboundedInterval _ \<Rightarrow> Some True
          | FixedInterval _ fixed \<Rightarrow>
              map_option (\<lambda>beforeFixed. beforeFixed < 0) (compareObservedToBound observed fixed)
          | LastAffectedInterval _ lastAffected \<Rightarrow>
              map_option (\<lambda>atOrBeforeLast. atOrBeforeLast \<le> 0)
                (compareObservedToBound observed lastAffected))"

fun inclusionCodes :: "strictSemverCore \<Rightarrow> interval list \<Rightarrow> explanationCode list option" where
  "inclusionCodes observed [] = Some []"
| "inclusionCodes observed (i # is) =
     (case included observed i of
        None \<Rightarrow> None
      | Some False \<Rightarrow> inclusionCodes observed is
      | Some True \<Rightarrow>
          (case compareObservedToBound observed (introducedBound i) of
             None \<Rightarrow> None
           | Some atIntroduced \<Rightarrow>
               map_option (\<lambda>rest.
                 (if atIntroduced = 0 then [affected_at_introduced_boundary] else []) @
                 (case i of LastAffectedInterval _ _ \<Rightarrow> [affected_within_last_affected_range]
                  | _ \<Rightarrow> [affected_within_introduced_fixed_range]) @ rest)
                 (inclusionCodes observed is)))"

record exclusionFlags =
  beforeEveryIntroduced :: bool
  atOrAfterFixed :: bool
  afterLastAffected :: bool

fun exclusionLoop ::
  "strictSemverCore \<Rightarrow> interval list \<Rightarrow> exclusionFlags \<Rightarrow> exclusionFlags option" where
  "exclusionLoop observed [] flags = Some flags"
| "exclusionLoop observed (i # is) flags =
     (case compareObservedToBound observed (introducedBound i) of
        None \<Rightarrow> None
      | Some againstIntroduced \<Rightarrow>
          (let flags1 = (if againstIntroduced \<ge> 0 then flags\<lparr>beforeEveryIntroduced := False\<rparr> else flags)
           in case i of
             UnboundedInterval _ \<Rightarrow> exclusionLoop observed is flags1
           | FixedInterval _ fixed \<Rightarrow>
               (case compareObservedToBound observed fixed of
                  None \<Rightarrow> None
                | Some againstFixed \<Rightarrow>
                    exclusionLoop observed is
                      (if againstFixed \<ge> 0 then flags1\<lparr>atOrAfterFixed := True\<rparr> else flags1))
           | LastAffectedInterval _ lastAffected \<Rightarrow>
               (case compareObservedToBound observed lastAffected of
                  None \<Rightarrow> None
                | Some againstLast \<Rightarrow>
                    exclusionLoop observed is
                      (if againstLast > 0 then flags1\<lparr>afterLastAffected := True\<rparr> else flags1))))"

definition exclusionCodes :: "strictSemverCore \<Rightarrow> interval list \<Rightarrow> explanationCode list option" where
  "exclusionCodes observed is =
     (case exclusionLoop observed is
             \<lparr>beforeEveryIntroduced = True, atOrAfterFixed = False, afterLastAffected = False\<rparr> of
        None \<Rightarrow> None
      | Some flags \<Rightarrow>
          (let cs = (if beforeEveryIntroduced flags then [unaffected_before_introduced] else []) @
                    (if atOrAfterFixed flags then [unaffected_at_or_after_fixed_boundary] else []) @
                    (if afterLastAffected flags then [unaffected_after_last_affected] else [])
           in if length cs = 0 then None else Some cs))"

definition limitContradicts :: "versionBound \<Rightarrow> versionBound \<Rightarrow> jstr \<Rightarrow> bool" where
  "limitContradicts limit previous previousName =
     (case compareBounds limit previous of
        None \<Rightarrow> True
      | Some compared \<Rightarrow>
          if compared = 0 \<and> (previousName = js ''introduced'' \<or> previousName = js ''last_affected'')
            then True
          else if compared < 0 \<and> previousName \<noteq> js ''fixed'' \<and> previousName \<noteq> js ''last_affected''
            then True
          else False)"

text \<open>
  \<^verbatim>\<open>compileRange\<close>: the loop state, the comparison with the previous event, the effect of one event, and
  the loop. \<open>Inl\<close> is the early return.
\<close>

datatype compileError = CompileContradictory | CompileInternal

record compileState =
  cIntervals :: "interval list"
  cOpen :: "versionBound option"
  cLimit :: "versionBound option"
  cPrevious :: "versionBound option"
  cPreviousName :: jstr
  cFloor :: "versionBound option"

definition initialCompileState :: compileState where
  "initialCompileState = \<lparr>cIntervals = [], cOpen = None, cLimit = None, cPrevious = None,
     cPreviousName = [], cFloor = None\<rparr>"

definition againstPrevious :: "jstr \<Rightarrow> versionBound \<Rightarrow> compileState \<Rightarrow> compileError option" where
  "againstPrevious name bound st =
     (case cPrevious st of
        None \<Rightarrow> None
      | Some previous \<Rightarrow>
          (case compareBounds bound previous of
             None \<Rightarrow> Some CompileInternal
           | Some compared \<Rightarrow>
               if name = js ''limit'' then
                 (if limitContradicts bound previous (cPreviousName st)
                  then Some CompileContradictory else None)
               else if compared < 0 then Some CompileContradictory
               else None))"

text \<open>A closing event: \<open>mk\<close> builds the interval from the open bound and the closing bound.\<close>

definition closeInterval ::
  "(versionBound \<Rightarrow> versionBound \<Rightarrow> interval) \<Rightarrow> versionBound \<Rightarrow> compileState \<Rightarrow>
     compileError + compileState" where
  "closeInterval mk bound st =
     (case cOpen st of
        None \<Rightarrow> Inl CompileContradictory
      | Some open \<Rightarrow>
          (case compareBounds bound open of
             None \<Rightarrow> Inl CompileContradictory
           | Some againstIntroduced \<Rightarrow>
               if againstIntroduced < 0 then Inl CompileContradictory
               else Inr (st\<lparr>cIntervals := cIntervals st @ [mk open bound], cOpen := None\<rparr>)))"

definition applyEvent :: "jstr \<Rightarrow> versionBound \<Rightarrow> compileState \<Rightarrow> compileError + compileState" where
  "applyEvent name bound st =
     (if name = js ''introduced'' then
        (case cOpen st of
           Some _ \<Rightarrow> Inl CompileContradictory
         | None \<Rightarrow> Inr (st\<lparr>cOpen := Some bound,
             cFloor := (case cFloor st of None \<Rightarrow> Some bound | Some f \<Rightarrow> Some f)\<rparr>))
      else if name = js ''fixed'' then closeInterval FixedInterval bound st
      else if name = js ''last_affected'' then closeInterval LastAffectedInterval bound st
      else if name = js ''limit'' then
        (case (case cOpen st of Some b \<Rightarrow> Some b | None \<Rightarrow> cFloor st) of
           None \<Rightarrow> Inr (st\<lparr>cLimit := Some bound\<rparr>)
         | Some floor \<Rightarrow>
             (case compareBounds bound floor of
                None \<Rightarrow> Inl CompileContradictory
              | Some againstFloor \<Rightarrow>
                  if againstFloor \<le> 0 then Inl CompileContradictory
                  else Inr (st\<lparr>cLimit := Some bound\<rparr>)))
      else Inl CompileInternal)"

definition compileBound :: "jstr \<Rightarrow> versionBound \<Rightarrow> compileState \<Rightarrow> compileError + compileState" where
  "compileBound name bound st =
     (case againstPrevious name bound st of
        Some e \<Rightarrow> Inl e
      | None \<Rightarrow>
          (case applyEvent name bound st of
             Inl e \<Rightarrow> Inl e
           | Inr st' \<Rightarrow> Inr (st'\<lparr>cPrevious := Some bound, cPreviousName := name\<rparr>)))"

fun compileEvents ::
  "rangeEvent list \<Rightarrow> compileState \<Rightarrow> versionCache \<Rightarrow> (compileError + compileState) \<times> versionCache" where
  "compileEvents [] st cache = (Inr st, cache)"
| "compileEvents (event # events) st cache =
     (case event of
        [] \<Rightarrow> (Inl CompileInternal, cache)
      | (name, value) # _ \<Rightarrow>
          (case eventBound name value cache of
             (None, cache') \<Rightarrow> (Inl CompileInternal, cache')
           | (Some bound, cache') \<Rightarrow>
               (case compileBound name bound st of
                  Inl e \<Rightarrow> (Inl e, cache')
                | Inr st' \<Rightarrow> compileEvents events st' cache')))"

definition finishCompile :: "compileState \<Rightarrow> compileError + (interval list \<times> versionBound option)" where
  "finishCompile st =
     (let is = cIntervals st @
        (case cOpen st of None \<Rightarrow> [] | Some open \<Rightarrow> [UnboundedInterval open])
      in if length is = 0 then Inl CompileContradictory else Inr (is, cLimit st))"

definition compileRange ::
  "rangeEvent list \<Rightarrow> versionCache \<Rightarrow>
     (compileError + (interval list \<times> versionBound option)) \<times> versionCache" where
  "compileRange events cache =
     (case compileEvents events initialCompileState cache of
        (Inl e, cache') \<Rightarrow> (Inl e, cache')
      | (Inr st, cache') \<Rightarrow> (finishCompile st, cache'))"

fun wouldInclude :: "strictSemverCore \<Rightarrow> interval list \<Rightarrow> bool \<Rightarrow> bool option" where
  "wouldInclude observed [] acc = Some acc"
| "wouldInclude observed (i # is) acc =
     (case included observed i of
        None \<Rightarrow> None
      | Some inside \<Rightarrow> wouldInclude observed is (if inside then True else acc))"

definition effectOfCompiled ::
  "strictSemverCore \<Rightarrow> interval list \<Rightarrow> versionBound option \<Rightarrow> rangeEffect" where
  "effectOfCompiled observed is limit =
     (case wouldInclude observed is False of
        None \<Rightarrow> EffInternal
      | Some inside \<Rightarrow>
          (case (case limit of None \<Rightarrow> Some (-1) | Some l \<Rightarrow> compareObservedToBound observed l) of
             None \<Rightarrow> EffInternal
           | Some againstLimit \<Rightarrow>
               if againstLimit \<ge> 0 \<and> inside then EffInapplicable
               else if inside then
                 (case inclusionCodes observed is of
                    None \<Rightarrow> EffInternal
                  | Some cs \<Rightarrow> if length cs = 0 then EffInternal else EffIncluded cs)
               else
                 (case exclusionCodes observed is of
                    None \<Rightarrow> EffInternal
                  | Some cs \<Rightarrow> EffExcluded cs)))"

definition effectOfRange ::
  "strictSemverCore \<Rightarrow> advisoryRange \<Rightarrow> versionCache \<Rightarrow> rangeEffect \<times> versionCache" where
  "effectOfRange observed rng cache =
     (case compileRange (rangeEvents rng) cache of
        (Inl CompileContradictory, cache') \<Rightarrow> (EffContradictory, cache')
      | (Inl CompileInternal, cache') \<Rightarrow> (EffInternal, cache')
      | (Inr (is, limit), cache') \<Rightarrow> (effectOfCompiled observed is limit, cache'))"

fun explicitMatch ::
  "strictSemverCore \<Rightarrow> jstr list \<Rightarrow> versionCache \<Rightarrow> bool option \<times> versionCache" where
  "explicitMatch observed [] cache = (Some False, cache)"
| "explicitMatch observed (versionText # versions) cache =
     (case rememberObservedNpmVersion versionText cache of (classified, cache') \<Rightarrow>
        (case strictSemverCore classified of
           None \<Rightarrow> (None, cache')
         | Some core \<Rightarrow>
             (case compareStrictSemverCores observed core of
                CompareUnknown \<Rightarrow> (None, cache')
              | EqualTo \<Rightarrow> (Some True, cache')
              | _ \<Rightarrow> explicitMatch observed versions cache')))"

record decisionState =
  includedCodes :: "explanationCode list"
  excludedCodes :: "explanationCode list"
  applicableRanges :: nat
  sawUnproven :: bool

fun decideRanges ::
  "strictSemverCore \<Rightarrow> advisoryRange list \<Rightarrow> decisionState \<Rightarrow> versionCache \<Rightarrow>
     (explanationCode + decisionState) \<times> versionCache" where
  "decideRanges observed [] st cache = (Inr st, cache)"
| "decideRanges observed (rng # ranges) st cache =
     (case effectOfRange observed rng cache of
        (EffContradictory, cache') \<Rightarrow> (Inl unknown_contradictory_events, cache')
      | (EffInternal, cache') \<Rightarrow> (Inl unknown_internal_failure, cache')
      | (EffInapplicable, cache') \<Rightarrow> decideRanges observed ranges (st\<lparr>sawUnproven := True\<rparr>) cache'
      | (EffIncluded cs, cache') \<Rightarrow>
          decideRanges observed ranges (st\<lparr>applicableRanges := applicableRanges st + 1,
            includedCodes := includedCodes st @ cs\<rparr>) cache'
      | (EffExcluded cs, cache') \<Rightarrow>
          decideRanges observed ranges (st\<lparr>applicableRanges := applicableRanges st + 1,
            excludedCodes := excludedCodes st @ cs\<rparr>) cache')"

definition initialDecision :: decisionState where
  "initialDecision = \<lparr>includedCodes = [], excludedCodes = [], applicableRanges = 0,
     sawUnproven = False\<rparr>"

definition concludeDecision :: "decisionState \<Rightarrow> bool \<Rightarrow> affectedDecision" where
  "concludeDecision st matchedExplicit =
     (if matchedExplicit \<or> length (includedCodes st) > 0 then
        \<lparr>outcome = Affected,
         codes = includedCodes st @ (if matchedExplicit then [affected_explicit_version_equal] else [])\<rparr>
      else if sawUnproven st \<or> applicableRanges st = 0 then
        \<lparr>outcome = UnknownOutcome, codes = [unknown_incomplete_evidence]\<rparr>
      else \<lparr>outcome = Unaffected, codes = excludedCodes st @ [unaffected_outside_all_ranges]\<rparr>)"

definition decideNpmAffectedness ::
  "observedVersion \<Rightarrow> advisoryRange list \<Rightarrow> jstr list \<Rightarrow> versionCache \<Rightarrow>
     affectedDecision \<times> versionCache" where
  "decideNpmAffectedness inputObserved ranges explicitVersions cache =
     (case strictSemverCore inputObserved of
        None \<Rightarrow> (\<lparr>outcome = UnknownOutcome, codes = [unknown_internal_failure]\<rparr>, cache)
      | Some observed \<Rightarrow>
          (case decideRanges observed ranges initialDecision cache of
             (Inl code, cache') \<Rightarrow> (\<lparr>outcome = UnknownOutcome, codes = [code]\<rparr>, cache')
           | (Inr st, cache') \<Rightarrow>
               (case explicitMatch observed explicitVersions cache' of
                  (None, cache'') \<Rightarrow>
                    (\<lparr>outcome = UnknownOutcome, codes = [unknown_internal_failure]\<rparr>, cache'')
                | (Some matchedExplicit, cache'') \<Rightarrow>
                    (concludeDecision st matchedExplicit, cache''))))"

end
