(* ===== verification/NpmTimeline.thy ===== *)
theory NpmTimeline
  imports NpmRanges
begin

text \<open>
  What the events of an advisory range mean, stated on the events themselves and on SemVer precedence
  (ADR 0030): \<open>introduced\<close> opens a half-open part that the next \<open>fixed\<close> ends before its version and the
  next \<open>last_affected\<close> after its version, and \<open>limit\<close> bounds where the range applies. Nothing here refers
  to the intervals or the comparisons of the decision in \<^verbatim>\<open>boundaries.ts\<close>; it is the specification
  that decision is proved against.
\<close>

subsection \<open>Reading events\<close>

definition textCore :: "jstr \<Rightarrow> strictSemverCore option" where
  "textCore s = strictSemverCore (classifyObservedNpmVersion (Some s))"

text \<open>\<open>Introduced None\<close> is the sentinel \<open>0\<close>, below every version.\<close>

datatype boundary =
    Introduced "strictSemverCore option"
  | Fixed strictSemverCore
  | LastAffected strictSemverCore
  | Limit strictSemverCore

fun eventBoundary :: "rangeEvent \<Rightarrow> boundary option" where
  "eventBoundary [] = None"
| "eventBoundary ((name, raw) # _) =
     (if name = js ''introduced'' then
        (if raw = js ''0'' then Some (Introduced None)
         else map_option (\<lambda>core. Introduced (Some core)) (textCore raw))
      else if name = js ''fixed'' then map_option Fixed (textCore raw)
      else if name = js ''last_affected'' then map_option LastAffected (textCore raw)
      else if name = js ''limit'' then map_option Limit (textCore raw)
      else None)"

definition rangeBoundaries :: "advisoryRange \<Rightarrow> boundary list option" where
  "rangeBoundaries rng = those (map eventBoundary (rangeEvents rng))"

text \<open>Every event names a version, or the sentinel where it may.\<close>

definition readable :: "advisoryRange \<Rightarrow> bool" where
  "readable rng \<longleftrightarrow> rangeBoundaries rng \<noteq> None"

fun boundOf :: "boundary \<Rightarrow> strictSemverCore option" where
  "boundOf (Introduced a) = a"
| "boundOf (Fixed b) = Some b"
| "boundOf (LastAffected b) = Some b"
| "boundOf (Limit b) = Some b"

text \<open>SemVer precedence on bounds, the sentinel first.\<close>

fun atMost_bound :: "strictSemverCore option \<Rightarrow> strictSemverCore option \<Rightarrow> bool" where
  "atMost_bound None _ = True"
| "atMost_bound (Some a) None = False"
| "atMost_bound (Some a) (Some b) = (precedence (absCore a) (absCore b) \<le> 0)"

definition below_bound :: "strictSemverCore option \<Rightarrow> strictSemverCore option \<Rightarrow> bool" where
  "below_bound a b \<longleftrightarrow> \<not> atMost_bound b a"

subsection \<open>The affected part\<close>

text \<open>The part that is open reaches up to the next event that is not a \<open>limit\<close>, or has no end.\<close>

fun beforeEnd :: "strictSemverCore \<Rightarrow> boundary list \<Rightarrow> bool" where
  "beforeEnd v [] = True"
| "beforeEnd v (Introduced _ # _) = True"
| "beforeEnd v (Fixed b # _) = below_bound (Some v) (Some b)"
| "beforeEnd v (LastAffected b # _) = atMost_bound (Some v) (Some b)"
| "beforeEnd v (Limit _ # bs) = beforeEnd v bs"

text \<open>Some \<open>introduced\<close> is at or below the version, and the version lies before the end of its part.\<close>

fun inPart :: "strictSemverCore \<Rightarrow> boundary list \<Rightarrow> bool" where
  "inPart v [] = False"
| "inPart v (b # bs) \<longleftrightarrow>
     (case b of Introduced a \<Rightarrow> atMost_bound a (Some v) \<and> beforeEnd v bs | _ \<Rightarrow> False) \<or> inPart v bs"

fun limits :: "boundary list \<Rightarrow> strictSemverCore list" where
  "limits [] = []"
| "limits (b # bs) = (case b of Limit l \<Rightarrow> l # limits bs | _ \<Rightarrow> limits bs)"

definition underLimit :: "strictSemverCore \<Rightarrow> boundary list \<Rightarrow> bool" where
  "underLimit v bs \<longleftrightarrow> limits bs = [] \<or> below_bound (Some v) (Some (last (limits bs)))"

subsection \<open>Events that agree with each other\<close>

text \<open>What precedes an event, newest first: the part still open, and the first \<open>introduced\<close>.\<close>

fun openedAt :: "boundary list \<Rightarrow> strictSemverCore option option" where
  "openedAt [] = None"
| "openedAt (Introduced a # _) = Some a"
| "openedAt (Limit _ # past) = openedAt past"
| "openedAt (_ # _) = None"

fun firstStart :: "boundary list \<Rightarrow> strictSemverCore option option" where
  "firstStart [] = None"
| "firstStart (b # past) =
     (case firstStart past of
        Some a \<Rightarrow> Some a
      | None \<Rightarrow> (case b of Introduced a \<Rightarrow> Some a | _ \<Rightarrow> None))"

definition inOrder :: "boundary list \<Rightarrow> strictSemverCore option \<Rightarrow> bool" where
  "inOrder past b \<longleftrightarrow> (case past of [] \<Rightarrow> True | p # _ \<Rightarrow> atMost_bound (boundOf p) b)"

definition closesPart :: "boundary list \<Rightarrow> strictSemverCore \<Rightarrow> bool" where
  "closesPart past b \<longleftrightarrow> (case openedAt past of None \<Rightarrow> False | Some a \<Rightarrow> atMost_bound a (Some b))"

text \<open>
  A \<open>limit\<close> lies above the start of the open part, or of the first one when none is open; it differs from a
  \<open>last_affected\<close> just before it, and it may lie below a \<open>fixed\<close> just before it.
\<close>

definition limitFits :: "boundary list \<Rightarrow> strictSemverCore \<Rightarrow> bool" where
  "limitFits past l \<longleftrightarrow>
     (case past of
        [] \<Rightarrow> True
      | Introduced a # _ \<Rightarrow> below_bound a (Some l)
      | Fixed _ # _ \<Rightarrow> True
      | LastAffected b # _ \<Rightarrow> below_bound (Some b) (Some l) \<or> below_bound (Some l) (Some b)
      | Limit m # _ \<Rightarrow> atMost_bound (Some m) (Some l)) \<and>
     (case (openedAt past, firstStart past) of
        (Some a, _) \<Rightarrow> below_bound a (Some l)
      | (None, Some a) \<Rightarrow> below_bound a (Some l)
      | (None, None) \<Rightarrow> True)"

fun fits :: "boundary list \<Rightarrow> boundary \<Rightarrow> bool" where
  "fits past (Introduced a) \<longleftrightarrow> inOrder past a \<and> openedAt past = None"
| "fits past (Fixed b) \<longleftrightarrow> inOrder past (Some b) \<and> closesPart past b"
| "fits past (LastAffected b) \<longleftrightarrow> inOrder past (Some b) \<and> closesPart past b"
| "fits past (Limit l) \<longleftrightarrow> limitFits past l"

fun fitsAfter :: "boundary list \<Rightarrow> boundary list \<Rightarrow> bool" where
  "fitsAfter past [] = True"
| "fitsAfter past (b # bs) \<longleftrightarrow> fits past b \<and> fitsAfter (b # past) bs"

fun isIntroduced :: "boundary \<Rightarrow> bool" where
  "isIntroduced (Introduced _) = True"
| "isIntroduced _ = False"

text \<open>Every event fits what precedes it, and some part is opened.\<close>

definition agreeing :: "boundary list \<Rightarrow> bool" where
  "agreeing bs \<longleftrightarrow> fitsAfter [] bs \<and> list_ex isIntroduced bs"

subsection \<open>The verdict of an advisory\<close>

definition rangeAgrees :: "advisoryRange \<Rightarrow> bool" where
  "rangeAgrees rng \<longleftrightarrow> (case rangeBoundaries rng of None \<Rightarrow> False | Some bs \<Rightarrow> agreeing bs)"

definition rangeContains :: "strictSemverCore \<Rightarrow> advisoryRange \<Rightarrow> bool" where
  "rangeContains v rng \<longleftrightarrow> (case rangeBoundaries rng of None \<Rightarrow> False | Some bs \<Rightarrow> inPart v bs)"

definition rangeApplies :: "strictSemverCore \<Rightarrow> advisoryRange \<Rightarrow> bool" where
  "rangeApplies v rng \<longleftrightarrow> (case rangeBoundaries rng of None \<Rightarrow> False | Some bs \<Rightarrow> underLimit v bs)"

end
