(* ===== verification/NpmIntervals.thy ===== *)
theory NpmIntervals
  imports NpmBoundaries NpmTimeline
begin

text \<open>
  The intervals \<^verbatim>\<open>boundaries.ts\<close> compiles from a range are the parts its events open and close: the
  version cache is transparent, and for every range whose events name versions, compilation succeeds
  exactly when the events agree (theory \<open>NpmTimeline\<close>), with the membership and the limit they state.
\<close>

subsection \<open>The version cache\<close>

definition coherent :: "versionCache \<Rightarrow> bool" where
  "coherent c \<longleftrightarrow> (\<forall>k v. c k = Some v \<longrightarrow> v = classifyObservedNpmVersion (Some k))"

lemma coherent_empty [simp]: "coherent Map.empty"
  by (simp add: coherent_def)

lemma remember_coherent:
  assumes "coherent c" "rememberObservedNpmVersion raw c = (v, c')"
  shows "v = classifyObservedNpmVersion (Some raw)" "coherent c'"
  using assms by (auto simp: rememberObservedNpmVersion_def coherent_def Let_def
      split: option.splits if_splits)

lemma eventBound_coherent:
  assumes "coherent c" "coherent d"
  shows "fst (eventBound n v c) = fst (eventBound n v d)" "coherent (snd (eventBound n v c))"
  using assms remember_coherent [of c v] remember_coherent [of d v]
  by (auto simp: eventBound_def split: prod.splits)

lemma compileEvents_coherent:
  assumes "coherent c" "coherent d"
  shows "fst (compileEvents es st c) = fst (compileEvents es st d)"
    and "coherent (snd (compileEvents es st c))"
proof -
  have "fst (compileEvents es st c) = fst (compileEvents es st d) \<and>
    coherent (snd (compileEvents es st c))"
    using assms
  proof (induction es arbitrary: st c d)
    case Nil
    then show ?case by simp
  next
    case (Cons e es)
    show ?case
    proof (cases e)
      case Nil
      with Cons.prems show ?thesis by simp
    next
      case (Cons nv rest)
      obtain n v where nv: "nv = (n, v)" by (cases nv)
      obtain b c' where bc: "eventBound n v c = (b, c')" by (cases "eventBound n v c")
      obtain b' d' where bd: "eventBound n v d = (b', d')" by (cases "eventBound n v d")
      have bs: "b' = b" and "coherent c'" "coherent d'"
        using eventBound_coherent [OF \<open>coherent c\<close> \<open>coherent d\<close>, of n v]
          eventBound_coherent [OF \<open>coherent d\<close> \<open>coherent c\<close>, of n v] bc bd by simp_all
      then show ?thesis
        using Cons nv bc bd [unfolded bs] Cons.IH [of c' d']
        by (cases b; cases "compileBound n (the b) st") simp_all
    qed
  qed
  then show "fst (compileEvents es st c) = fst (compileEvents es st d)"
    "coherent (snd (compileEvents es st c))" by auto
qed

lemma compileRange_coherent:
  assumes "coherent c" "coherent d"
  shows "fst (compileRange es c) = fst (compileRange es d)" "coherent (snd (compileRange es c))"
  using compileEvents_coherent [OF assms, of es initialCompileState]
  by (auto simp: compileRange_def split: prod.splits sum.splits)

text \<open>What a range compiles to: no cache involved.\<close>

definition compiledRange :: "advisoryRange \<Rightarrow> compileError + (interval list \<times> versionBound option)" where
  "compiledRange rng = fst (compileRange (rangeEvents rng) Map.empty)"

subsection \<open>Membership\<close>

definition boundOrder :: "strictSemverCore \<Rightarrow> versionBound \<Rightarrow> int" where
  "boundOrder v b = (case b of Sentinel \<Rightarrow> 1 | VersionBound c \<Rightarrow> coreOrder v c)"

lemma coreOrder_sgn: "sgn (coreOrder l r) = coreOrder l r"
  by (simp add: coreOrder_chain)

lemma orderOf_compare [simp]: "orderOf (compareStrictSemverCores l r) = Some (coreOrder l r)"
  using coreOrder_sgn [of l r] by (auto simp: compare_coreOrder orderOf_def sgn_if split: if_splits)

lemma compareObservedToBound_eq [simp]:
  "compareObservedToBound v b = Some (boundOrder v b)"
  by (cases b) (simp_all add: boundOrder_def)

fun inInterval :: "strictSemverCore \<Rightarrow> interval \<Rightarrow> bool" where
  "inInterval v (UnboundedInterval a) \<longleftrightarrow> 0 \<le> boundOrder v a"
| "inInterval v (FixedInterval a b) \<longleftrightarrow> 0 \<le> boundOrder v a \<and> boundOrder v b < 0"
| "inInterval v (LastAffectedInterval a b) \<longleftrightarrow> 0 \<le> boundOrder v a \<and> boundOrder v b \<le> 0"

definition belowLimit :: "strictSemverCore \<Rightarrow> versionBound option \<Rightarrow> bool" where
  "belowLimit v limit = (case limit of None \<Rightarrow> True | Some l \<Rightarrow> boundOrder v l < 0)"

lemma included_eq [simp]: "included v i = Some (inInterval v i)"
  by (cases i) (auto simp: included_def)

lemma wouldInclude_eq [simp]:
  "wouldInclude v is acc = Some (acc \<or> (\<exists>i \<in> set is. inInterval v i))"
  by (induction "is" arbitrary: acc) auto

lemma inclusionCodes_eq:
  "\<exists>cs. inclusionCodes v is = Some cs \<and> set cs \<subseteq> set AFFECTED_EXPLANATIONS \<and>
     (cs = [] \<longleftrightarrow> (\<forall>i \<in> set is. \<not> inInterval v i))"
proof (induction "is")
  case Nil
  then show ?case by simp
next
  case (Cons i "is")
  then show ?case
    by (cases "inInterval v i") (auto simp: AFFECTED_EXPLANATIONS_def split: interval.splits)
qed

lemma exclusionLoop_eq:
  "\<exists>f. exclusionLoop v is flags = Some f \<and>
     (beforeEveryIntroduced f \<longleftrightarrow>
        beforeEveryIntroduced flags \<and> (\<forall>i \<in> set is. boundOrder v (introducedBound i) < 0)) \<and>
     (atOrAfterFixed f \<longleftrightarrow>
        atOrAfterFixed flags \<or> (\<exists>a b. FixedInterval a b \<in> set is \<and> 0 \<le> boundOrder v b)) \<and>
     (afterLastAffected f \<longleftrightarrow>
        afterLastAffected flags \<or> (\<exists>a b. LastAffectedInterval a b \<in> set is \<and> 0 < boundOrder v b))"
proof (induction "is" arbitrary: flags)
  case Nil
  then show ?case by simp
next
  case (Cons i "is")
  show ?case
  proof (cases i)
    case (UnboundedInterval a)
    show ?thesis
      using Cons [of "if 0 \<le> boundOrder v a then flags\<lparr>beforeEveryIntroduced := False\<rparr> else flags"]
        UnboundedInterval by (auto simp: Let_def split: if_splits)
  next
    case (FixedInterval a b)
    let ?f = "if 0 \<le> boundOrder v a then flags\<lparr>beforeEveryIntroduced := False\<rparr> else flags"
    show ?thesis
      using Cons [of "if 0 \<le> boundOrder v b then ?f\<lparr>atOrAfterFixed := True\<rparr> else ?f"] FixedInterval
      by (auto simp: Let_def split: if_splits)
  next
    case (LastAffectedInterval a b)
    let ?f = "if 0 \<le> boundOrder v a then flags\<lparr>beforeEveryIntroduced := False\<rparr> else flags"
    show ?thesis
      using Cons [of "if 0 < boundOrder v b then ?f\<lparr>afterLastAffected := True\<rparr> else ?f"]
        LastAffectedInterval
      by (auto simp: Let_def split: if_splits)
  qed
qed

text \<open>A version outside every interval always gets an exclusion code, so the null branch is dead.\<close>

lemma exclusionCodes_eq:
  assumes "\<forall>i \<in> set is. \<not> inInterval v i"
  shows "\<exists>cs. exclusionCodes v is = Some cs \<and> cs \<noteq> [] \<and> set cs \<subseteq> set UNAFFECTED_EXPLANATIONS"
proof -
  obtain f where f: "exclusionLoop v is
      \<lparr>beforeEveryIntroduced = True, atOrAfterFixed = False, afterLastAffected = False\<rparr> = Some f"
    and before: "beforeEveryIntroduced f \<longleftrightarrow> (\<forall>i \<in> set is. boundOrder v (introducedBound i) < 0)"
    and fixed: "atOrAfterFixed f \<longleftrightarrow> (\<exists>a b. FixedInterval a b \<in> set is \<and> 0 \<le> boundOrder v b)"
    and last: "afterLastAffected f \<longleftrightarrow>
      (\<exists>a b. LastAffectedInterval a b \<in> set is \<and> 0 < boundOrder v b)"
    using exclusionLoop_eq [of v "is" "\<lparr>beforeEveryIntroduced = True, atOrAfterFixed = False,
        afterLastAffected = False\<rparr>"] by auto
  have "beforeEveryIntroduced f \<or> atOrAfterFixed f \<or> afterLastAffected f"
  proof (rule ccontr)
    assume no: "\<not> ?thesis"
    then obtain i where i: "i \<in> set is" "0 \<le> boundOrder v (introducedBound i)"
      using before by (auto simp: not_less)
    with assms have "\<not> inInterval v i" by blast
    with i no fixed last show False by (cases rule: interval.exhaust [of i]) (auto simp: not_less not_le)
  qed
  with f show ?thesis
    by (auto simp: exclusionCodes_def Let_def UNAFFECTED_EXPLANATIONS_def)
qed

lemma effectOfCompiled_eq:
  "effectOfCompiled v is limit =
     (if \<exists>i \<in> set is. inInterval v i
      then if belowLimit v limit then EffIncluded (the (inclusionCodes v is)) else EffInapplicable
      else EffExcluded (the (exclusionCodes v is)))"
proof (cases "\<exists>i \<in> set is. inInterval v i")
  case True
  moreover obtain cs where "inclusionCodes v is = Some cs" "cs \<noteq> []"
    using inclusionCodes_eq [of v "is"] True by auto
  ultimately show ?thesis
    by (cases limit) (auto simp: effectOfCompiled_def belowLimit_def)
next
  case False
  moreover obtain cs where "exclusionCodes v is = Some cs"
    using exclusionCodes_eq [of "is" v] False by auto
  ultimately show ?thesis
    by (cases limit) (auto simp: effectOfCompiled_def)
qed

definition boundsOrder :: "versionBound \<Rightarrow> versionBound \<Rightarrow> int" where
  "boundsOrder a b =
     (case a of
        Sentinel \<Rightarrow> (case b of Sentinel \<Rightarrow> 0 | VersionBound _ \<Rightarrow> -1)
      | VersionBound l \<Rightarrow> boundOrder l b)"

lemma compareBounds_eq [simp]: "compareBounds a b = Some (boundsOrder a b)"
  by (cases a; cases b) (simp_all add: boundsOrder_def boundOrder_def)

lemma eventBound_plain:
  "coherent c \<Longrightarrow> fst (eventBound n s c) =
     (if s = js ''0'' then (if n = js ''introduced'' then Some Sentinel else None)
      else map_option VersionBound (textCore s))"
  using remember_coherent [of c s] by (auto simp: eventBound_def textCore_def split: prod.splits)

lemma renderVersion_length: "2 \<le> length (renderVersion v)"
  by (simp add: renderVersion_def)

lemma not_sentinel_text: "textCore s = Some k \<Longrightarrow> s \<noteq> js ''0''"
proof -
  assume "textCore s = Some k"
  then obtain v where "classifyObservedNpmVersion (Some s) = ValidStrictSemver v"
    by (auto simp: textCore_def strictSemverCore_def split: observedVersion.splits)
  then have "2 \<le> length s" using classify_sound renderVersion_length by metis
  then show ?thesis by auto
qed

text \<open>The verdict of one range, read off its intervals.\<close>

definition compiledContains :: "strictSemverCore \<Rightarrow> advisoryRange \<Rightarrow> bool" where
  "compiledContains v rng =
     (case compiledRange rng of Inl _ \<Rightarrow> False | Inr (is, _) \<Rightarrow> \<exists>i \<in> set is. inInterval v i)"

definition compiledApplies :: "strictSemverCore \<Rightarrow> advisoryRange \<Rightarrow> bool" where
  "compiledApplies v rng =
     (case compiledRange rng of Inl _ \<Rightarrow> False | Inr (_, limit) \<Rightarrow> belowLimit v limit)"

definition compiles :: "advisoryRange \<Rightarrow> bool" where
  "compiles rng \<longleftrightarrow> is_ok (compiledRange rng)"

subsection \<open>Bounds\<close>

definition toBound :: "strictSemverCore option \<Rightarrow> versionBound" where
  "toBound a = (case a of None \<Rightarrow> Sentinel | Some core \<Rightarrow> VersionBound core)"

lemma toBound_simps [simp]:
  "toBound None = Sentinel" "toBound (Some core) = VersionBound core"
  by (simp_all add: toBound_def)

definition wfBound :: "strictSemverCore option \<Rightarrow> bool" where
  "wfBound a \<longleftrightarrow> pred_option wfCore a"

lemma wfBound_simps [simp]: "wfBound None" "wfBound (Some core) \<longleftrightarrow> wfCore core"
  by (simp_all add: wfBound_def)

lemma textCore_wf: "textCore s = Some core \<Longrightarrow> wfCore core"
  using classified_wfCore [of s]
  by (auto simp: textCore_def strictSemverCore_def split: observedVersion.splits)

lemma coreOrder_atMost:
  assumes "wfCore l" "wfCore r"
  shows "coreOrder l r \<le> 0 \<longleftrightarrow> atMost_bound (Some l) (Some r)"
    and "0 \<le> coreOrder l r \<longleftrightarrow> atMost_bound (Some r) (Some l)"
  using coreOrder_precedence [OF assms] coreOrder_precedence [OF assms(2,1)] cores.cmp_flip [of l r]
  by (auto simp: sgn_if split: if_splits)

text \<open>The order of the code on bounds is the specified one.\<close>

lemma boundsOrder_atMost:
  assumes "wfBound a" "wfBound b"
  shows "boundsOrder (toBound a) (toBound b) \<le> 0 \<longleftrightarrow> atMost_bound a b"
    and "0 \<le> boundsOrder (toBound a) (toBound b) \<longleftrightarrow> atMost_bound b a"
  using assms coreOrder_atMost
  by (cases a; cases b; auto simp: boundsOrder_def boundOrder_def)+

lemma boundsOrder_below:
  assumes "wfBound a" "wfBound b"
  shows "boundsOrder (toBound a) (toBound b) < 0 \<longleftrightarrow> below_bound a b"
    and "0 < boundsOrder (toBound a) (toBound b) \<longleftrightarrow> below_bound b a"
    and "boundsOrder (toBound a) (toBound b) = 0 \<longleftrightarrow> \<not> below_bound a b \<and> \<not> below_bound b a"
  using boundsOrder_atMost [OF assms] by (auto simp: below_bound_def not_le [symmetric])

lemma below_imp_atMost: "below_bound a b \<Longrightarrow> wfBound a \<Longrightarrow> wfBound b \<Longrightarrow> atMost_bound a b"
  using boundsOrder_atMost [of a b] boundsOrder_below [of a b] by linarith

lemma boundOrder_toBound: "boundOrder v b = boundsOrder (toBound (Some v)) b"
  by (simp add: boundsOrder_def)

lemma inInterval_bounds:
  assumes "wfCore v" "wfBound a" "wfBound b"
  shows "inInterval v (UnboundedInterval (toBound a)) \<longleftrightarrow> atMost_bound a (Some v)"
    and "inInterval v (FixedInterval (toBound a) (toBound b)) \<longleftrightarrow>
      atMost_bound a (Some v) \<and> below_bound (Some v) b"
    and "inInterval v (LastAffectedInterval (toBound a) (toBound b)) \<longleftrightarrow>
      atMost_bound a (Some v) \<and> atMost_bound (Some v) b"
  using assms boundsOrder_atMost [of "Some v"] boundsOrder_below [of "Some v"]
  by (simp_all only: inInterval.simps boundOrder_toBound wfBound_simps simp_thms)

lemma inInterval_cores:
  assumes "wfCore v" "wfBound a" "wfCore k"
  shows "inInterval v (FixedInterval (toBound a) (VersionBound k)) \<longleftrightarrow>
      atMost_bound a (Some v) \<and> below_bound (Some v) (Some k)"
    and "inInterval v (LastAffectedInterval (toBound a) (VersionBound k)) \<longleftrightarrow>
      atMost_bound a (Some v) \<and> atMost_bound (Some v) (Some k)"
  using inInterval_bounds(2,3) [OF assms(1,2), of "Some k"] assms(3) by simp_all

subsection \<open>One event\<close>

fun nameOf :: "boundary \<Rightarrow> jstr" where
  "nameOf (Introduced _) = js ''introduced''"
| "nameOf (Fixed _) = js ''fixed''"
| "nameOf (LastAffected _) = js ''last_affected''"
| "nameOf (Limit _) = js ''limit''"

definition wfBoundary :: "boundary \<Rightarrow> bool" where
  "wfBoundary b \<longleftrightarrow> wfBound (boundOf b)"

lemma event_names:
  "js ''introduced'' \<noteq> js ''fixed''" "js ''introduced'' \<noteq> js ''last_affected''"
  "js ''introduced'' \<noteq> js ''limit''" "js ''fixed'' \<noteq> js ''last_affected''"
  "js ''fixed'' \<noteq> js ''limit''" "js ''last_affected'' \<noteq> js ''limit''"
  by (simp_all add: js_def)

lemma eventBoundary_read:
  assumes "eventBoundary e = Some b"
  obtains name raw rest where "e = (name, raw) # rest" "name = nameOf b" "wfBoundary b"
    "\<And>c. coherent c \<Longrightarrow> fst (eventBound name raw c) = Some (toBound (boundOf b))"
proof -
  obtain name raw rest where e: "e = (name, raw) # rest"
    using assms by (cases e) auto
  have "name = nameOf b \<and> wfBoundary b \<and>
      (\<forall>c. coherent c \<longrightarrow> fst (eventBound name raw c) = Some (toBound (boundOf b)))"
    using assms event_names textCore_wf [of raw] not_sentinel_text [of raw]
    by (auto simp: e eventBound_plain wfBoundary_def split: if_splits)
  with e that show ?thesis by blast
qed

text \<open>What the compiler knows after the events \<open>past\<close>, newest first.\<close>

definition tracks :: "compileState \<Rightarrow> boundary list \<Rightarrow> bool" where
  "tracks st past \<longleftrightarrow>
     cOpen st = map_option toBound (openedAt past) \<and>
     cFloor st = map_option toBound (firstStart past) \<and>
     (case past of
        [] \<Rightarrow> cPrevious st = None
      | p # _ \<Rightarrow> cPrevious st = Some (toBound (boundOf p)) \<and> cPreviousName st = nameOf p)"

definition stepped :: "boundary \<Rightarrow> compileState \<Rightarrow> compileState" where
  "stepped b st =
     (case b of
        Introduced a \<Rightarrow> st\<lparr>cOpen := Some (toBound a),
          cFloor := (case cFloor st of None \<Rightarrow> Some (toBound a) | Some f \<Rightarrow> Some f)\<rparr>
      | Fixed k \<Rightarrow> st\<lparr>cIntervals := cIntervals st @ [FixedInterval (the (cOpen st)) (VersionBound k)],
          cOpen := None\<rparr>
      | LastAffected k \<Rightarrow>
          st\<lparr>cIntervals := cIntervals st @ [LastAffectedInterval (the (cOpen st)) (VersionBound k)],
            cOpen := None\<rparr>
      | Limit k \<Rightarrow> st\<lparr>cLimit := Some (VersionBound k)\<rparr>)
     \<lparr>cPrevious := Some (toBound (boundOf b)), cPreviousName := nameOf b\<rparr>"

lemma openedAt_wf: "list_all wfBoundary past \<Longrightarrow> openedAt past = Some a \<Longrightarrow> wfBound a"
  by (induction past rule: openedAt.induct) (auto simp: wfBoundary_def)

lemma firstStart_wf: "list_all wfBoundary past \<Longrightarrow> firstStart past = Some a \<Longrightarrow> wfBound a"
  by (induction past) (auto simp: wfBoundary_def split: option.splits boundary.splits)

lemma stepped_tracks:
  "tracks st past \<Longrightarrow> tracks (stepped b st) (b # past)"
  by (cases b) (auto simp: tracks_def stepped_def split: option.splits)

lemma againstPrevious_fits:
  assumes "tracks st past" "list_all wfBoundary past" "wfBoundary b"
  shows "againstPrevious (nameOf b) (toBound (boundOf b)) st =
    (case past of
       [] \<Rightarrow> None
     | p # _ \<Rightarrow>
         if (case b of
               Limit l \<Rightarrow>
                 (case p of
                    Introduced a \<Rightarrow> below_bound a (Some l)
                  | Fixed _ \<Rightarrow> True
                  | LastAffected k \<Rightarrow> below_bound (Some k) (Some l) \<or> below_bound (Some l) (Some k)
                  | Limit m \<Rightarrow> atMost_bound (Some m) (Some l))
             | _ \<Rightarrow> atMost_bound (boundOf p) (boundOf b))
         then None else Some CompileContradictory)"
proof (cases past)
  case Nil
  with assms show ?thesis by (simp add: againstPrevious_def tracks_def)
next
  case (Cons p ps)
  then have prev: "cPrevious st = Some (toBound (boundOf p))" "cPreviousName st = nameOf p"
    and wf: "wfBound (boundOf p)" "wfBound (boundOf b)"
    using assms by (simp_all add: tracks_def wfBoundary_def)
  note names = event_names event_names [symmetric]
  note order = boundsOrder_atMost [OF wf(2,1)] boundsOrder_below [OF wf(2,1)]
  show ?thesis
  proof (cases b)
    case (Limit l)
    then show ?thesis
      using Cons prev names order
      by (cases p) (auto simp: againstPrevious_def limitContradicts_def below_bound_def)
  qed (use Cons prev names order in
      \<open>auto simp: againstPrevious_def below_bound_def\<close>)
qed

lemma applyEvent_fits:
  assumes "tracks st past" "list_all wfBoundary past" "wfBoundary b"
  shows "applyEvent (nameOf b) (toBound (boundOf b)) st =
    (if (case b of
           Introduced _ \<Rightarrow> openedAt past = None
         | Fixed k \<Rightarrow> closesPart past k
         | LastAffected k \<Rightarrow> closesPart past k
         | Limit l \<Rightarrow>
             (case (openedAt past, firstStart past) of
                (Some a, _) \<Rightarrow> below_bound a (Some l)
              | (None, Some a) \<Rightarrow> below_bound a (Some l)
              | (None, None) \<Rightarrow> True))
     then Inr ((stepped b st)\<lparr>cPrevious := cPrevious st, cPreviousName := cPreviousName st\<rparr>)
     else Inl CompileContradictory)"
proof -
  note names = event_names event_names [symmetric]
  have st: "cOpen st = map_option toBound (openedAt past)" "cFloor st = map_option toBound (firstStart past)"
    using assms(1) by (simp_all add: tracks_def)
  have wf: "wfBound (boundOf b)" using assms(3) by (simp add: wfBoundary_def)
  note order = boundsOrder_atMost [OF wf] boundsOrder_below [OF wf]
    openedAt_wf [OF assms(2)] firstStart_wf [OF assms(2)]
  show ?thesis
    using names st order
    by (cases b; cases "openedAt past"; cases "firstStart past")
      (auto simp: applyEvent_def closeInterval_def stepped_def closesPart_def below_bound_def)
qed

text \<open>One round of the loop: the event fits what precedes it, or the range is contradictory.\<close>

lemma compileBound_fits:
  assumes "tracks st past" "list_all wfBoundary past" "wfBoundary b"
  shows "compileBound (nameOf b) (toBound (boundOf b)) st =
    (if fits past b then Inr (stepped b st) else Inl CompileContradictory)"
proof -
  have last: "(stepped b st)\<lparr>cPrevious := cPrevious st, cPreviousName := cPreviousName st,
      cPrevious := Some (toBound (boundOf b)), cPreviousName := nameOf b\<rparr> = stepped b st"
    by (cases b) (simp_all add: stepped_def)
  show ?thesis
    using againstPrevious_fits [OF assms] applyEvent_fits [OF assms] last
    by (cases b; cases past)
      (auto simp: compileBound_def inOrder_def limitFits_def split: boundary.splits)
qed

subsection \<open>The loop\<close>

lemma compileEvents_fits:
  assumes "those (map eventBoundary es) = Some bs" "tracks st past" "list_all wfBoundary past"
    and "coherent c"
  shows "fst (compileEvents es st c) =
    (if fitsAfter past bs then Inr (fold stepped bs st) else Inl CompileContradictory)"
  using assms
proof (induction es arbitrary: bs st past c)
  case Nil
  then show ?case by simp
next
  case (Cons e es)
  obtain b bs' where bs: "bs = b # bs'" "eventBoundary e = Some b"
    "those (map eventBoundary es) = Some bs'"
    using Cons.prems(1) by (auto split: option.splits)
  obtain name raw rest where e: "e = (name, raw) # rest" "name = nameOf b" "wfBoundary b"
    and bound: "fst (eventBound name raw c) = Some (toBound (boundOf b))"
    using eventBoundary_read [OF bs(2)] Cons.prems(4) by metis
  obtain c' where ev: "eventBound name raw c = (Some (toBound (boundOf b)), c')" "coherent c'"
    using bound eventBound_coherent(2) [OF Cons.prems(4,4), of name raw]
    by (cases "eventBound name raw c") auto
  note step = compileBound_fits [OF Cons.prems(2,3) e(3)]
  show ?case
  proof (cases "fits past b")
    case True
    then show ?thesis
      using Cons.IH [OF bs(3) stepped_tracks [OF Cons.prems(2)] _ ev(2), of b] Cons.prems(3)
        bs(1) e ev step by simp
  next
    case False
    then show ?thesis using bs(1) e ev step by simp
  qed
qed

text \<open>The intervals of a state, the open one included.\<close>

definition intervalsOf :: "compileState \<Rightarrow> interval list" where
  "intervalsOf st =
     cIntervals st @ (case cOpen st of None \<Rightarrow> [] | Some open \<Rightarrow> [UnboundedInterval open])"

definition reaches :: "strictSemverCore \<Rightarrow> boundary list \<Rightarrow> boundary list \<Rightarrow> bool" where
  "reaches v past bs \<longleftrightarrow>
     (case openedAt past of None \<Rightarrow> False | Some a \<Rightarrow> atMost_bound a (Some v) \<and> beforeEnd v bs)"

lemma fold_intervals:
  assumes "wfCore v" "tracks st past" "list_all wfBoundary past" "list_all wfBoundary bs"
    and "fitsAfter past bs"
  shows "(\<exists>i \<in> set (intervalsOf (fold stepped bs st)). inInterval v i) \<longleftrightarrow>
    (\<exists>i \<in> set (cIntervals st). inInterval v i) \<or> reaches v past bs \<or> inPart v bs"
  using assms(2-)
proof (induction bs arbitrary: st past)
  case Nil
  have "openedAt past = Some a \<Longrightarrow> wfBound a" for a
    using openedAt_wf [OF Nil(2)] .
  then show ?case
    using Nil(1) inInterval_bounds(1) [OF assms(1) _ wfBound_simps(1)]
    by (auto simp: intervalsOf_def tracks_def reaches_def split: option.splits)
next
  case (Cons b bs)
  have step: "(\<exists>i \<in> set (intervalsOf (fold stepped (b # bs) st)). inInterval v i) \<longleftrightarrow>
      (\<exists>i \<in> set (cIntervals (stepped b st)). inInterval v i) \<or> reaches v (b # past) bs \<or> inPart v bs"
    using Cons.IH [OF stepped_tracks [OF Cons.prems(1)], of b] Cons.prems by simp
  have opened: "openedAt past = Some a \<Longrightarrow> cOpen st = Some (toBound a) \<and> wfBound a" for a
    using Cons.prems(1) openedAt_wf [OF Cons.prems(2)] by (simp add: tracks_def)
  have wf: "wfBoundary b" using Cons.prems(3) by simp
  show ?case
    unfolding step using Cons.prems(4) opened wf inInterval_cores [OF assms(1)]
    by (cases b; cases "openedAt past")
      (auto simp: stepped_def reaches_def closesPart_def wfBoundary_def
        simp del: inInterval.simps atMost_bound.simps)
qed

lemma fold_limit:
  "cLimit (fold stepped bs st) =
     (if limits bs = [] then cLimit st else Some (VersionBound (last (limits bs))))"
  by (induction bs arbitrary: st) (auto simp: stepped_def split: boundary.splits)

lemma fold_some:
  assumes "tracks st past" "fitsAfter past bs"
  shows "intervalsOf (fold stepped bs st) = [] \<longleftrightarrow>
    cIntervals st = [] \<and> openedAt past = None \<and> \<not> list_ex isIntroduced bs"
  using assms
proof (induction bs arbitrary: st past)
  case Nil
  then show ?case by (auto simp: intervalsOf_def tracks_def split: option.splits)
next
  case (Cons b bs)
  have step: "intervalsOf (fold stepped (b # bs) st) = [] \<longleftrightarrow>
      cIntervals (stepped b st) = [] \<and> openedAt (b # past) = None \<and> \<not> list_ex isIntroduced bs"
    using Cons.IH [OF stepped_tracks [OF Cons.prems(1)], of b] Cons.prems by simp
  show ?case
    unfolding step using Cons.prems(2)
    by (cases b) (auto simp: stepped_def closesPart_def split: option.splits)
qed

subsection \<open>The range\<close>

lemma rangeBoundaries_wf:
  assumes "rangeBoundaries rng = Some bs"
  shows "list_all wfBoundary bs"
proof -
  have "those (map eventBoundary es) = Some bs \<Longrightarrow> list_all wfBoundary bs" for es
  proof (induction es arbitrary: bs)
    case (Cons e es)
    then show ?case using eventBoundary_read [of e] by (auto split: option.splits) metis
  qed simp
  with assms show ?thesis by (simp add: rangeBoundaries_def)
qed

lemma initial_tracks: "tracks initialCompileState []"
  by (simp add: tracks_def initialCompileState_def)

lemma compiledRange_boundaries:
  assumes "rangeBoundaries rng = Some bs"
  shows "compiledRange rng =
    (if agreeing bs
     then Inr (intervalsOf (fold stepped bs initialCompileState),
            cLimit (fold stepped bs initialCompileState))
     else Inl CompileContradictory)"
proof -
  let ?st = "fold stepped bs initialCompileState"
  have run: "fst (compileEvents (rangeEvents rng) initialCompileState Map.empty) =
      (if fitsAfter [] bs then Inr ?st else Inl CompileContradictory)"
    using compileEvents_fits [OF assms [unfolded rangeBoundaries_def] initial_tracks] by simp
  have "fitsAfter [] bs \<Longrightarrow> intervalsOf ?st = [] \<longleftrightarrow> \<not> list_ex isIntroduced bs"
    using fold_some [OF initial_tracks] by (simp add: initialCompileState_def)
  then have "fitsAfter [] bs \<Longrightarrow> finishCompile ?st =
      (if list_ex isIntroduced bs then Inr (intervalsOf ?st, cLimit ?st) else Inl CompileContradictory)"
    by (auto simp: finishCompile_def intervalsOf_def Let_def)
  with run show ?thesis
    by (cases "compileEvents (rangeEvents rng) initialCompileState Map.empty"; cases "fitsAfter [] bs")
      (auto simp: compiledRange_def compileRange_def agreeing_def)
qed

lemma eventBound_readable:
  assumes "coherent c" "eventBound name raw c = (Some bound, c')" "name \<in> set NPM_ACCEPTED_EVENTS"
  shows "eventBoundary ((name, raw) # rest) \<noteq> None"
  using assms(2,3) eventBound_plain [OF assms(1), of name raw]
  by (cases "textCore raw") (auto simp: NPM_ACCEPTED_EVENTS_def split: if_splits)

lemma compileBound_accepted:
  "compileBound name bound st = Inr st' \<Longrightarrow> name \<in> set NPM_ACCEPTED_EVENTS"
  by (auto simp: compileBound_def applyEvent_def NPM_ACCEPTED_EVENTS_def
      split: option.splits if_splits sum.splits)

lemma compileEvents_readable:
  "coherent c \<Longrightarrow> fst (compileEvents es st c) = Inr st' \<Longrightarrow> those (map eventBoundary es) \<noteq> None"
proof (induction es arbitrary: st c)
  case Nil
  then show ?case by simp
next
  case (Cons e es)
  obtain name raw rest where e: "e = (name, raw) # rest" using Cons.prems(2) by (cases e) auto
  obtain bound c' where b: "eventBound name raw c = (Some bound, c')"
    using Cons.prems(2) e by (auto split: prod.splits option.splits)
  obtain st1 where st1: "compileBound name bound st = Inr st1"
    using Cons.prems(2) e b by (auto split: sum.splits)
  have "coherent c'" using eventBound_coherent(2) [OF Cons.prems(1,1), of name raw] b by simp
  then have "those (map eventBoundary es) \<noteq> None" using Cons e b st1 by simp
  moreover have "eventBoundary e \<noteq> None"
    unfolding e by (rule eventBound_readable [OF Cons.prems(1) b compileBound_accepted [OF st1]])
  ultimately show ?case by auto
qed

text \<open>
  A range compiles exactly when its events agree, a range whose events name versions is contradictory
  otherwise, and the compiled intervals and limit say of a version what the events say.
\<close>

lemma compiles_iff_agrees: "compiles rng \<longleftrightarrow> rangeAgrees rng"
proof (cases "rangeBoundaries rng")
  case None
  then have "\<not> is_ok (compiledRange rng)"
    using compileEvents_readable [OF coherent_empty, of "rangeEvents rng" initialCompileState]
    by (auto simp: is_ok_iff rangeBoundaries_def compiledRange_def compileRange_def
        split: prod.splits sum.splits)
  with None show ?thesis by (simp add: compiles_def rangeAgrees_def)
next
  case (Some bs)
  then show ?thesis by (simp add: compiles_def compiledRange_boundaries rangeAgrees_def is_ok_def)
qed

lemma disagreeing_contradictory:
  "readable rng \<Longrightarrow> \<not> rangeAgrees rng \<Longrightarrow> compiledRange rng = Inl CompileContradictory"
  by (auto simp: readable_def rangeAgrees_def compiledRange_boundaries)

lemma compiled_meaning:
  assumes "wfCore v" "rangeAgrees rng"
  shows "compiledContains v rng \<longleftrightarrow> rangeContains v rng"
    and "compiledApplies v rng \<longleftrightarrow> rangeApplies v rng"
proof -
  obtain bs where bs: "rangeBoundaries rng = Some bs" "agreeing bs"
    using assms(2) by (auto simp: rangeAgrees_def split: option.splits)
  note wf = rangeBoundaries_wf [OF bs(1)]
  have "(\<exists>i \<in> set (intervalsOf (fold stepped bs initialCompileState)). inInterval v i) \<longleftrightarrow> inPart v bs"
    using fold_intervals [OF assms(1) initial_tracks _ wf] bs(2)
    by (simp add: agreeing_def initialCompileState_def reaches_def)
  then show "compiledContains v rng \<longleftrightarrow> rangeContains v rng"
    using bs by (simp add: compiledContains_def rangeContains_def compiledRange_boundaries)
  have "limits bs \<noteq> [] \<Longrightarrow> wfCore (last (limits bs))"
    using wf by (induction bs) (auto simp: wfBoundary_def split: boundary.splits)
  then show "compiledApplies v rng \<longleftrightarrow> rangeApplies v rng"
    using bs boundsOrder_below(1) [of "Some v" "Some (last (limits bs))"] assms(1)
    by (auto simp: compiledApplies_def rangeApplies_def compiledRange_boundaries fold_limit
        underLimit_def belowLimit_def boundsOrder_def initialCompileState_def)
qed

end
