(* ===== verification/NpmDecision.thy ===== *)
theory NpmDecision
  imports NpmIntervals
begin

text \<open>
  Correctness of the affectedness decision of \<^verbatim>\<open>boundaries.ts\<close>: it is the verdict the events of the
  advisory state (theories \<open>NpmTimeline\<close> and \<open>NpmIntervals\<close>), a structurally well-formed advisory never
  fails internally, and the explanation codes agree with the outcome.
\<close>

subsection \<open>The decision\<close>

lemma effectOfRange_eq:
  assumes "coherent c"
  shows "coherent (snd (effectOfRange v rng c))"
    and "fst (effectOfRange v rng c) =
      (case compiledRange rng of
         Inl CompileContradictory \<Rightarrow> EffContradictory
       | Inl CompileInternal \<Rightarrow> EffInternal
       | Inr (is, limit) \<Rightarrow> effectOfCompiled v is limit)"
  using compileRange_coherent [OF assms coherent_empty, of "rangeEvents rng"]
  by (auto simp: effectOfRange_def compiledRange_def
      split: prod.splits sum.splits compileError.splits)

lemma effect_of_compiling:
  assumes "coherent c" "compiles rng"
  obtains cs c' where "effectOfRange v rng c = (EffIncluded cs, c')" "coherent c'"
      "compiledContains v rng" "compiledApplies v rng" "cs \<noteq> []" "set cs \<subseteq> set AFFECTED_EXPLANATIONS"
  | c' where "effectOfRange v rng c = (EffInapplicable, c')" "coherent c'"
      "compiledContains v rng" "\<not> compiledApplies v rng"
  | cs c' where "effectOfRange v rng c = (EffExcluded cs, c')" "coherent c'"
      "\<not> compiledContains v rng" "set cs \<subseteq> set UNAFFECTED_EXPLANATIONS"
proof -
  obtain "is" limit where comp: "compiledRange rng = Inr (is, limit)"
    using assms(2) by (auto simp: compiles_def is_ok_iff)
  obtain e c' where ec: "effectOfRange v rng c = (e, c')" by (cases "effectOfRange v rng c")
  have coh: "coherent c'" and e: "e = effectOfCompiled v is limit"
    using effectOfRange_eq [OF assms(1), of v rng] comp ec by auto
  show ?thesis
  proof (cases "\<exists>i \<in> set is. inInterval v i")
    case True
    then have con: "compiledContains v rng" using comp by (simp add: compiledContains_def)
    show ?thesis
    proof (cases "belowLimit v limit")
      case below: True
      obtain cs where "inclusionCodes v is = Some cs" "cs \<noteq> []" "set cs \<subseteq> set AFFECTED_EXPLANATIONS"
        using inclusionCodes_eq [of v "is"] True by auto
      with that(1) coh ec e True below con comp show ?thesis
        by (simp add: effectOfCompiled_eq compiledApplies_def)
    next
      case False
      with that(2) coh ec e True con comp show ?thesis
        by (simp add: effectOfCompiled_eq compiledApplies_def)
    qed
  next
    case False
    then obtain cs where "exclusionCodes v is = Some cs" "set cs \<subseteq> set UNAFFECTED_EXPLANATIONS"
      using exclusionCodes_eq [of "is" v] by auto
    with that(3) coh ec e False comp show ?thesis
      by (simp add: effectOfCompiled_eq compiledContains_def)
  qed
qed

text \<open>The loop over the ranges, as a relation between the start and the final counters.\<close>

lemma decideRanges_ok:
  assumes "coherent c" "\<forall>rng \<in> set ranges. compiles rng"
  shows "\<exists>st' c'. decideRanges v ranges st c = (Inr st', c') \<and> coherent c' \<and>
    (includedCodes st' = [] \<longleftrightarrow>
       includedCodes st = [] \<and> (\<forall>rng \<in> set ranges. \<not> (compiledContains v rng \<and> compiledApplies v rng))) \<and>
    (sawUnproven st' \<longleftrightarrow>
       sawUnproven st \<or> (\<exists>rng \<in> set ranges. compiledContains v rng \<and> \<not> compiledApplies v rng)) \<and>
    (applicableRanges st' = 0 \<longleftrightarrow>
       applicableRanges st = 0 \<and> (\<forall>rng \<in> set ranges. compiledContains v rng \<and> \<not> compiledApplies v rng)) \<and>
    (set (includedCodes st') \<subseteq> set (includedCodes st) \<union> set AFFECTED_EXPLANATIONS) \<and>
    (set (excludedCodes st') \<subseteq> set (excludedCodes st) \<union> set UNAFFECTED_EXPLANATIONS)"
  using assms
proof (induction ranges arbitrary: st c)
  case Nil
  then show ?case by simp
next
  case (Cons rng ranges)
  then have ranges: "\<forall>rng \<in> set ranges. compiles rng" and comp: "compiles rng" by auto
  from Cons.prems(1) comp show ?case
  proof (cases rule: effect_of_compiling [of c rng v])
    case (1 cs c')
    show ?thesis
      using Cons.IH [OF 1(2) ranges, of "st\<lparr>applicableRanges := applicableRanges st + 1,
            includedCodes := includedCodes st @ cs\<rparr>"] 1
      by auto blast+
  next
    case (2 c')
    show ?thesis
      using Cons.IH [OF 2(2) ranges, of "st\<lparr>sawUnproven := True\<rparr>"] 2 by auto
  next
    case (3 cs c')
    show ?thesis
      using Cons.IH [OF 3(2) ranges, of "st\<lparr>applicableRanges := applicableRanges st + 1,
            excludedCodes := excludedCodes st @ cs\<rparr>"] 3
      by auto blast+
  qed
qed

lemma explicitMatch_ok:
  assumes "coherent c" "\<forall>t \<in> set texts. textCore t \<noteq> None"
  shows "fst (explicitMatch v texts c) = Some (\<exists>t \<in> set texts. textCore t = Some v)"
  using assms
proof (induction texts arbitrary: c)
  case Nil
  then show ?case by simp
next
  case (Cons t texts)
  obtain cl c' where r: "rememberObservedNpmVersion t c = (cl, c')"
    by (cases "rememberObservedNpmVersion t c")
  have cl: "strictSemverCore cl = textCore t" and coh: "coherent c'"
    using remember_coherent [OF Cons.prems(1) r] by (simp_all add: textCore_def)
  obtain k where k: "textCore t = Some k" using Cons.prems(2) by auto
  show ?case
    using Cons.IH [OF coh] Cons.prems(2) r cl k compare_result_iff(2) [of v k]
    by (cases "compareStrictSemverCores v k") auto
qed

text \<open>
  The verdict of an advisory on its events. Events that do not agree leave the verdict open, even where
  another range or an explicit version names the version.
\<close>

definition specOutcome :: "strictSemverCore \<Rightarrow> advisoryRange list \<Rightarrow> jstr list \<Rightarrow> affectedOutcome" where
  "specOutcome v ranges texts =
     (if \<exists>rng \<in> set ranges. \<not> rangeAgrees rng then UnknownOutcome
      else if (\<exists>rng \<in> set ranges. rangeContains v rng \<and> rangeApplies v rng) \<or>
         (\<exists>t \<in> set texts. textCore t = Some v) then Affected
      else if ranges \<noteq> [] \<and> (\<forall>rng \<in> set ranges. \<not> rangeContains v rng) then Unaffected
      else UnknownOutcome)"

text \<open>The verdict read off the intervals.\<close>

definition compiledOutcome :: "strictSemverCore \<Rightarrow> advisoryRange list \<Rightarrow> jstr list \<Rightarrow> affectedOutcome" where
  "compiledOutcome v ranges texts =
     (if (\<exists>rng \<in> set ranges. compiledContains v rng \<and> compiledApplies v rng) \<or>
         (\<exists>t \<in> set texts. textCore t = Some v) then Affected
      else if ranges \<noteq> [] \<and> (\<forall>rng \<in> set ranges. \<not> compiledContains v rng) then Unaffected
      else UnknownOutcome)"

lemma effect_codes:
  assumes "effectOfRange v rng c = (e, c')"
  shows "e = EffIncluded cs \<Longrightarrow> set cs \<subseteq> set AFFECTED_EXPLANATIONS"
    and "e = EffExcluded cs \<Longrightarrow> set cs \<subseteq> set UNAFFECTED_EXPLANATIONS"
proof -
  have *: "set (the (inclusionCodes v is)) \<subseteq> set AFFECTED_EXPLANATIONS" for "is"
    using inclusionCodes_eq [of v "is"] by auto
  have **: "\<forall>i \<in> set is. \<not> inInterval v i \<Longrightarrow>
      set (the (exclusionCodes v is)) \<subseteq> set UNAFFECTED_EXPLANATIONS" for "is"
    using exclusionCodes_eq [of "is" v] by auto
  show "e = EffIncluded cs \<Longrightarrow> set cs \<subseteq> set AFFECTED_EXPLANATIONS"
    using assms * by (auto simp: effectOfRange_def effectOfCompiled_eq
        split: prod.splits sum.splits compileError.splits if_splits)
  show "e = EffExcluded cs \<Longrightarrow> set cs \<subseteq> set UNAFFECTED_EXPLANATIONS"
    using assms ** by (auto simp: effectOfRange_def effectOfCompiled_eq
        split: prod.splits sum.splits compileError.splits if_splits)
qed

definition goodCodes :: "decisionState \<Rightarrow> bool" where
  "goodCodes st \<longleftrightarrow> set (includedCodes st) \<subseteq> set AFFECTED_EXPLANATIONS \<and>
     set (excludedCodes st) \<subseteq> set UNAFFECTED_EXPLANATIONS"

lemma decideRanges_codes:
  "goodCodes st \<Longrightarrow>
     (case fst (decideRanges v ranges st c) of
        Inl code \<Rightarrow> explanationOutcome code = UnknownOutcome
      | Inr st' \<Rightarrow> goodCodes st')"
proof (induction ranges arbitrary: st c)
  case Nil
  then show ?case by simp
next
  case (Cons rng ranges)
  obtain e c' where e: "effectOfRange v rng c = (e, c')" by (cases "effectOfRange v rng c")
  show ?case
    using Cons effect_codes [OF e] e
    by (cases e) (auto simp: goodCodes_def explanationOutcome_def AFFECTED_EXPLANATIONS_def
        UNAFFECTED_EXPLANATIONS_def)
qed

lemma concludeDecision_codes:
  "goodCodes st \<Longrightarrow> codes (concludeDecision st m) \<noteq> [] \<and>
     list_all (\<lambda>code. explanationOutcome code = outcome (concludeDecision st m))
       (codes (concludeDecision st m))"
  by (auto simp: goodCodes_def concludeDecision_def explanationOutcome_def list_all_iff
      UNAFFECTED_EXPLANATIONS_def AFFECTED_EXPLANATIONS_def)

lemma unknown_codes:
  "explanationOutcome unknown_internal_failure = UnknownOutcome"
  by (simp add: explanationOutcome_def AFFECTED_EXPLANATIONS_def UNAFFECTED_EXPLANATIONS_def)

lemma decide_spec:
  assumes "strictSemverCore obs = Some v" "coherent c" "\<forall>rng \<in> set ranges. compiles rng"
    and "\<forall>t \<in> set texts. textCore t \<noteq> None"
  shows "outcome (fst (decideNpmAffectedness obs ranges texts c)) = compiledOutcome v ranges texts"
proof -
  have init: "includedCodes initialDecision = []" "\<not> sawUnproven initialDecision"
    "applicableRanges initialDecision = 0" by (simp_all add: initialDecision_def)
  obtain st c' where run: "decideRanges v ranges initialDecision c = (Inr st, c')" "coherent c'"
    and inc: "includedCodes st = [] \<longleftrightarrow>
      (\<forall>rng \<in> set ranges. \<not> (compiledContains v rng \<and> compiledApplies v rng))"
    and unp: "sawUnproven st \<longleftrightarrow> (\<exists>rng \<in> set ranges. compiledContains v rng \<and> \<not> compiledApplies v rng)"
    and app: "applicableRanges st = 0 \<longleftrightarrow>
      (\<forall>rng \<in> set ranges. compiledContains v rng \<and> \<not> compiledApplies v rng)"
    using decideRanges_ok [OF assms(2,3), of v initialDecision] init
    by (elim exE conjE) (simp only: simp_thms)
  define m where "m \<longleftrightarrow> (\<exists>t \<in> set texts. textCore t = Some v)"
  obtain c'' where ex: "explicitMatch v texts c' = (Some m, c'')"
    using explicitMatch_ok [OF run(2) assms(4), of v]
    by (cases "explicitMatch v texts c'") (simp add: m_def)
  have dec: "fst (decideNpmAffectedness obs ranges texts c) = concludeDecision st m"
    using assms(1) run ex by (simp add: decideNpmAffectedness_def)
  have spec: "compiledOutcome v ranges texts = outcome (concludeDecision st m)"
    using inc unp app by (cases ranges) (auto simp: compiledOutcome_def concludeDecision_def m_def)
  show ?thesis by (simp add: dec spec)
qed

lemma compiled_spec:
  assumes "wfCore v" "\<forall>rng \<in> set ranges. rangeAgrees rng"
  shows "compiledOutcome v ranges texts = specOutcome v ranges texts"
  using assms compiled_meaning [OF assms(1)] by (simp add: compiledOutcome_def specOutcome_def)

lemma decide_agreeing:
  assumes "strictSemverCore (classifyObservedNpmVersion (Some raw)) = Some v" "coherent c"
    and "\<forall>rng \<in> set ranges. rangeAgrees rng" "\<forall>t \<in> set texts. textCore t \<noteq> None"
  shows "outcome (fst (decideNpmAffectedness (classifyObservedNpmVersion (Some raw)) ranges texts c)) =
    specOutcome v ranges texts"
  using decide_spec [OF assms(1,2) _ assms(4)] compiled_spec [OF textCore_wf assms(3)] assms(1,3)
  by (simp add: compiles_iff_agrees textCore_def)

lemma decideRanges_contradictory:
  assumes "coherent c" "\<forall>rng \<in> set ranges. readable rng" "\<exists>rng \<in> set ranges. \<not> rangeAgrees rng"
  shows "fst (decideRanges v ranges st c) = Inl unknown_contradictory_events"
  using assms
proof (induction ranges arbitrary: st c)
  case Nil
  then show ?case by simp
next
  case (Cons rng ranges)
  show ?case
  proof (cases "rangeAgrees rng")
    case True
    then have "compiles rng" by (simp add: compiles_iff_agrees)
    from Cons.prems(1) this show ?thesis
      by (cases rule: effect_of_compiling [of c rng v]) (use Cons True in auto)
  next
    case False
    obtain e c' where "effectOfRange v rng c = (e, c')" by (cases "effectOfRange v rng c")
    with False Cons.prems(2) effectOfRange_eq(2) [OF Cons.prems(1), of v rng]
      disagreeing_contradictory [of rng] show ?thesis by simp
  qed
qed

lemma decide_contradictory_code:
  assumes "strictSemverCore obs = Some v" "coherent c" "\<forall>rng \<in> set ranges. readable rng"
  shows "codes (fst (decideNpmAffectedness obs ranges texts c)) = [unknown_contradictory_events] \<longleftrightarrow>
    (\<exists>rng \<in> set ranges. \<not> rangeAgrees rng)"
proof (cases "\<exists>rng \<in> set ranges. \<not> rangeAgrees rng")
  case True
  then show ?thesis
    using decideRanges_contradictory [OF assms(2,3) True, of v initialDecision] assms(1)
    by (auto simp: decideNpmAffectedness_def split: prod.splits)
next
  case False
  then obtain st c' where run: "decideRanges v ranges initialDecision c = (Inr st, c')"
    using decideRanges_ok [OF assms(2), of ranges v initialDecision]
    by (auto simp: compiles_iff_agrees)
  have "goodCodes st"
    using decideRanges_codes [of initialDecision v ranges c] run
    by (simp add: goodCodes_def initialDecision_def)
  then have "unknown_contradictory_events \<notin> set (codes (concludeDecision st m))" for m
    by (auto simp: goodCodes_def concludeDecision_def AFFECTED_EXPLANATIONS_def
        UNAFFECTED_EXPLANATIONS_def)
  then have "codes (concludeDecision st m) \<noteq> [unknown_contradictory_events]" for m
    by (metis list.set_intros(1))
  with False run assms(1) show ?thesis
    by (auto simp: decideNpmAffectedness_def split: prod.splits option.splits)
qed

text \<open>
  C3. The decision says what the advisory's events say, read with SemVer precedence (theory
  \<open>NpmTimeline\<close>). Let the observed text and the explicit versions be strict versions and every event name
  a version. Then, whatever coherent cache it starts from, the decision is affected exactly when some
  \<open>introduced\<close> of a range is at or below the version and the next event of that range that is not a
  \<open>limit\<close> lies above it (\<open>fixed\<close>, exclusive) or at or above it (\<open>last_affected\<close>, inclusive) or is
  missing, the version being below the range's last \<open>limit\<close>; or when an explicit version is equal to it.
  It is unaffected exactly when no range contains the version and there is a range. A limit that cuts an
  inclusion leaves the verdict unknown, and so do events that do not agree: out of order, closing
  nothing, opening twice, opening nothing, or with a limit at or below the part it bounds. The code
  \<open>unknown_contradictory_events\<close> is given for those alone.
\<close>

theorem decide_correct:
  assumes "textCore raw = Some v" "coherent c" "\<forall>rng \<in> set ranges. readable rng"
    and "\<forall>t \<in> set texts. textCore t \<noteq> None"
  shows "outcome (fst (decideNpmAffectedness (classifyObservedNpmVersion (Some raw)) ranges texts c)) =
      specOutcome v ranges texts \<and>
    (codes (fst (decideNpmAffectedness (classifyObservedNpmVersion (Some raw)) ranges texts c)) =
      [unknown_contradictory_events] \<longleftrightarrow> (\<exists>rng \<in> set ranges. \<not> rangeAgrees rng))"
proof -
  have obs: "strictSemverCore (classifyObservedNpmVersion (Some raw)) = Some v"
    using assms(1) by (simp add: textCore_def)
  have "outcome (fst (decideNpmAffectedness (classifyObservedNpmVersion (Some raw)) ranges texts c)) =
      specOutcome v ranges texts"
  proof (cases "\<exists>rng \<in> set ranges. \<not> rangeAgrees rng")
    case True
    with decideRanges_contradictory [OF assms(2,3) True, of v initialDecision] obs show ?thesis
      by (auto simp: decideNpmAffectedness_def specOutcome_def split: prod.splits)
  next
    case False
    then show ?thesis using decide_agreeing [OF obs assms(2) _ assms(4)] by simp
  qed
  with decide_contradictory_code [OF obs assms(2,3), of texts] show ?thesis by simp
qed

text \<open>
  The explanation codes of a decision are never empty and all map to the outcome it reports,
  also on the failing branches: a code never claims more than the outcome.
\<close>

lemma decide_codes_agree:
  "codes (fst (decideNpmAffectedness obs ranges texts c)) \<noteq> [] \<and>
   list_all (\<lambda>code. explanationOutcome code = outcome (fst (decideNpmAffectedness obs ranges texts c)))
     (codes (fst (decideNpmAffectedness obs ranges texts c)))"
proof (cases "strictSemverCore obs")
  case None
  then show ?thesis by (simp add: decideNpmAffectedness_def unknown_codes)
next
  case (Some v)
  obtain r c' where r: "decideRanges v ranges initialDecision c = (r, c')"
    by (cases "decideRanges v ranges initialDecision c")
  then have good: "case r of Inl code \<Rightarrow> explanationOutcome code = UnknownOutcome
      | Inr st \<Rightarrow> goodCodes st"
    using decideRanges_codes [of initialDecision v ranges c]
    by (simp add: goodCodes_def initialDecision_def)
  obtain m c'' where m: "explicitMatch v texts c' = (m, c'')" by (cases "explicitMatch v texts c'")
  show ?thesis
    using Some r m good concludeDecision_codes
    by (cases r; cases m) (simp_all add: decideNpmAffectedness_def unknown_codes)
qed

text \<open>A known outcome comes from ranges that all compile; an unknown one has a single code.\<close>

lemma decideRanges_compiles:
  assumes "coherent c" "decideRanges v ranges st c = (Inr st', c')"
  shows "\<forall>rng \<in> set ranges. compiles rng"
  using assms
proof (induction ranges arbitrary: st c)
  case Nil
  then show ?case by simp
next
  case (Cons rng ranges)
  obtain e d where e: "effectOfRange v rng c = (e, d)" by (cases "effectOfRange v rng c")
  have d: "coherent d" and eff: "e = (case compiledRange rng of
         Inl CompileContradictory \<Rightarrow> EffContradictory
       | Inl CompileInternal \<Rightarrow> EffInternal
       | Inr (is, limit) \<Rightarrow> effectOfCompiled v is limit)"
    using effectOfRange_eq [OF Cons.prems(1), of v rng] e by simp_all
  have "compiles rng"
    using Cons.prems(2) e eff
    by (auto simp: compiles_def is_ok_def split: sum.splits compileError.splits)
  moreover have "\<forall>rng \<in> set ranges. compiles rng"
    using Cons.IH [OF d] Cons.prems(2) e by (cases e) auto
  ultimately show ?case by simp
qed

lemma decide_known_compiles:
  assumes "strictSemverCore obs = Some v" "coherent c"
    and "outcome (fst (decideNpmAffectedness obs ranges texts c)) \<noteq> UnknownOutcome"
  shows "\<forall>rng \<in> set ranges. compiles rng"
  using assms decideRanges_compiles [OF assms(2), of v ranges initialDecision]
  by (auto simp: decideNpmAffectedness_def split: prod.splits sum.splits option.splits)

lemma decide_unknown_single:
  "outcome (fst (decideNpmAffectedness obs ranges texts c)) = UnknownOutcome \<Longrightarrow>
   \<exists>code. codes (fst (decideNpmAffectedness obs ranges texts c)) = [code]"
  by (auto simp: decideNpmAffectedness_def concludeDecision_def
      split: prod.splits sum.splits option.splits if_splits)

lemma decide_codes_few: "card (set (codes (fst (decideNpmAffectedness obs ranges texts c)))) \<le> 4"
proof -
  let ?d = "fst (decideNpmAffectedness obs ranges texts c)"
  have agree: "list_all (\<lambda>code. explanationOutcome code = outcome ?d) (codes ?d)"
    using decide_codes_agree by blast
  show ?thesis
  proof (cases "outcome ?d")
    case Affected
    then have "set (codes ?d) \<subseteq> set AFFECTED_EXPLANATIONS"
      using agree by (auto simp: list_all_iff explanationOutcome_def split: if_splits)
    from card_mono [OF _ this] show ?thesis by (simp add: AFFECTED_EXPLANATIONS_def)
  next
    case Unaffected
    then have "set (codes ?d) \<subseteq> set UNAFFECTED_EXPLANATIONS"
      using agree by (auto simp: list_all_iff explanationOutcome_def split: if_splits)
    from card_mono [OF _ this] show ?thesis by (simp add: UNAFFECTED_EXPLANATIONS_def)
  next
    case UnknownOutcome
    from decide_unknown_single [OF this] show ?thesis by auto
  qed
qed

subsection \<open>Structurally well-formed advisories\<close>

definition coherentOpt :: "versionCache option \<Rightarrow> bool" where
  "coherentOpt c = pred_option coherent c"

lemma classifyRangeVersion_coherent:
  assumes "coherentOpt c" "classifyRangeVersion s c = (v, c')"
  shows "v = classifyObservedNpmVersion (Some s)" "coherentOpt c'"
  using assms remember_coherent
  by (auto simp: classifyRangeVersion_def coherentOpt_def split: option.splits prod.splits)

definition boundable :: "rangeEvent \<Rightarrow> bool" where
  "boundable e \<longleftrightarrow> (\<exists>n s. e = [(n, s)] \<and> n \<in> set NPM_ACCEPTED_EVENTS \<and>
     fst (eventBound n s Map.empty) \<noteq> None)"

lemma eventVersionClass_boundable:
  assumes "coherentOpt c" "eventVersionClass n s c = (cls, c')"
  shows "coherentOpt c'" "cls \<notin> {EvBad, EvCapacity} \<Longrightarrow> fst (eventBound n s Map.empty) \<noteq> None"
proof -
  obtain v d where v: "classifyRangeVersion s c = (v, d)" by (cases "classifyRangeVersion s c")
  note co = classifyRangeVersion_coherent [OF assms(1) v]
  show "coherentOpt c'"
    using assms v co by (auto simp: eventVersionClass_def split: if_splits)
  assume "cls \<notin> {EvBad, EvCapacity}"
  then show "fst (eventBound n s Map.empty) \<noteq> None"
    using assms(2) v co(1) [symmetric]
    by (cases v; cases "s = js ''0''")
      (auto simp: eventVersionClass_def eventBound_plain textCore_def strictSemverCore_def
        split: if_splits versionClass.splits)
qed

lemma classifyEvents_boundable:
  "coherentOpt c \<Longrightarrow> classifyEvents es counts seen c = (r, c') \<Longrightarrow>
     coherentOpt c' \<and> (is_ok r \<longrightarrow> list_all boundable es)"
proof (induction es arbitrary: counts seen c)
  case Nil
  then show ?case by auto
next
  case (Cons e es)
  show ?case
  proof (cases "\<exists>k s. e = [(k, s)] \<and> k \<in> set NPM_ACCEPTED_EVENTS \<and> k @ js ''='' @ s \<notin> set seen")
    case True
    then obtain k s where e: "e = [(k, s)]" "k \<in> set NPM_ACCEPTED_EVENTS"
      "k @ js ''='' @ s \<notin> set seen" by auto
    obtain cls d where cls: "eventVersionClass k s c = (cls, d)"
      by (cases "eventVersionClass k s c")
    note ev = eventVersionClass_boundable [OF Cons.prems(1) cls]
    show ?thesis
      using Cons.prems(2) Cons.IH [OF ev(1)] e cls ev
      by (cases cls) (auto simp: Let_def boundable_def)
  next
    case False
    then show ?thesis
      using Cons.prems by (auto simp: Let_def split: list.splits if_splits)
  qed
qed

lemma classifyRanges_boundable:
  "coherentOpt c \<Longrightarrow> classifyRanges ranges n c = (None, c') \<Longrightarrow>
     coherentOpt c' \<and> (\<forall>rng \<in> set ranges. list_all boundable (rangeEvents rng) \<and>
       eventTimeline (rangeEvents rng))"
proof (induction ranges arbitrary: n c)
  case Nil
  then show ?case by simp
next
  case (Cons rng ranges)
  obtain r d where r: "classifyEvents (rangeEvents rng) zeroCounts [] c = (r, d)"
    by (cases "classifyEvents (rangeEvents rng) zeroCounts [] c")
  note ev = classifyEvents_boundable [OF Cons.prems(1) r]
  show ?case
    using Cons.prems(2) Cons.IH [of d] ev r
    by (auto simp: Let_def split: if_splits sum.splits)
qed

lemma classifyExplicit_cores:
  "coherentOpt c \<Longrightarrow> fst (classifyExplicitVersions texts seen c) = WellFormed \<Longrightarrow>
     \<forall>t \<in> set texts. textCore t \<noteq> None"
proof (induction texts arbitrary: seen c)
  case Nil
  then show ?case by simp
next
  case (Cons t texts)
  obtain v d where v: "classifyRangeVersion t c = (v, d)" by (cases "classifyRangeVersion t c")
  note co = classifyRangeVersion_coherent [OF Cons.prems(1) v]
  show ?case
    using Cons.prems(2) Cons.IH [OF co(2)] v co(1) [symmetric]
    by (cases v) (auto simp: textCore_def strictSemverCore_def split: if_splits versionClass.splits)
qed

lemma compileBound_not_internal:
  "n \<in> set NPM_ACCEPTED_EVENTS \<Longrightarrow> compileBound n b st \<noteq> Inl CompileInternal"
  by (auto simp: compileBound_def againstPrevious_def applyEvent_def closeInterval_def
      NPM_ACCEPTED_EVENTS_def split: option.splits if_splits sum.splits)

lemma compileEvents_not_internal:
  "list_all boundable es \<Longrightarrow> coherent c \<Longrightarrow> fst (compileEvents es st c) \<noteq> Inl CompileInternal"
proof (induction es arbitrary: st c)
  case Nil
  then show ?case by simp
next
  case (Cons e es)
  then obtain n s where e: "e = [(n, s)]" "n \<in> set NPM_ACCEPTED_EVENTS"
    and nb: "fst (eventBound n s Map.empty) \<noteq> None" by (auto simp: boundable_def)
  obtain b c' where b: "eventBound n s c = (Some b, c')" and "coherent c'"
    using nb eventBound_coherent [OF Cons.prems(2) coherent_empty, of n s]
    by (cases "eventBound n s c") auto
  then show ?case
    using Cons e compileBound_not_internal [OF e(2), of b st]
    by (cases "compileBound n b st") auto
qed

lemma compiled_not_internal:
  "list_all boundable (rangeEvents rng) \<Longrightarrow> compiledRange rng \<noteq> Inl CompileInternal"
  using compileEvents_not_internal [of "rangeEvents rng" Map.empty initialCompileState]
  by (auto simp: compiledRange_def compileRange_def finishCompile_def Let_def
      split: prod.splits sum.splits if_splits)

lemma classifyEvents_not_wellFormed: "fst (classifyEvents es counts seen c) \<noteq> Inl WellFormed"
proof (induction es arbitrary: counts seen c)
  case (Cons e es)
  show ?case
  proof (cases "\<exists>k s. e = [(k, s)]")
    case True
    then obtain k s where e: "e = [(k, s)]" by auto
    obtain cls d where "eventVersionClass k s c = (cls, d)" by (cases "eventVersionClass k s c")
    with e Cons show ?thesis by (cases cls) (simp_all add: Let_def)
  next
    case False
    then show ?thesis by (auto split: list.splits)
  qed
qed simp

lemma classifyRanges_not_wellFormed: "fst (classifyRanges ranges n c) \<noteq> Some WellFormed"
proof (induction ranges arbitrary: n c)
  case (Cons rng ranges)
  obtain r d where "classifyEvents (rangeEvents rng) zeroCounts [] c = (r, d)"
    by (cases "classifyEvents (rangeEvents rng) zeroCounts [] c")
  with Cons classifyEvents_not_wellFormed [of "rangeEvents rng" zeroCounts "[]" c] show ?case
    by (cases r) (simp_all add: Let_def)
qed simp

lemma wellFormed_facts:
  assumes "coherentOpt c" "fst (classifyAffectedRangeStructure t ranges texts c) = WellFormed"
  shows "\<forall>rng \<in> set ranges. compiledRange rng \<noteq> Inl CompileInternal"
    and "\<forall>t \<in> set texts. textCore t \<noteq> None"
proof -
  obtain r d where r: "classifyRanges ranges 0 c = (r, d)" by (cases "classifyRanges ranges 0 c")
  then have "r = None" "fst (classifyExplicitVersions texts [] d) = WellFormed"
    using assms(2) classifyRanges_not_wellFormed [of ranges 0 c]
    by (auto simp: classifyAffectedRangeStructure_def split: if_splits option.splits)
  with r show "\<forall>rng \<in> set ranges. compiledRange rng \<noteq> Inl CompileInternal"
    "\<forall>t \<in> set texts. textCore t \<noteq> None"
    using classifyRanges_boundable [OF assms(1), of ranges 0] compiled_not_internal
      classifyExplicit_cores by auto
qed

lemma decideRanges_not_internal:
  assumes "coherent c" "\<forall>rng \<in> set ranges. compiledRange rng \<noteq> Inl CompileInternal"
  shows "fst (decideRanges v ranges st c) \<noteq> Inl unknown_internal_failure \<and>
    coherent (snd (decideRanges v ranges st c))"
  using assms
proof (induction ranges arbitrary: st c)
  case Nil
  then show ?case by simp
next
  case (Cons rng ranges)
  obtain e c' where e: "effectOfRange v rng c = (e, c')" by (cases "effectOfRange v rng c")
  have coh: "coherent c'" and "e \<noteq> EffInternal"
    using effectOfRange_eq [OF Cons.prems(1), of v rng] e Cons.prems(2)
    by (auto simp: effectOfCompiled_eq split: sum.splits compileError.splits if_splits)
  then show ?case
    using Cons.IH [OF coh] Cons.prems(2) e by (cases e) simp_all
qed

text \<open>The two-event range, the common case of an advisory.\<close>

definition introducedFixed :: "jstr \<Rightarrow> jstr \<Rightarrow> advisoryRange" where
  [eval_defs]: "introducedFixed a b = \<lparr>rangeType = js ''SEMVER'',
     rangeEvents = [[(js ''introduced'', a)], [(js ''fixed'', b)]]\<rparr>"

lemma compiled_introducedFixed:
  assumes "textCore a = Some ka" "textCore b = Some kb" "0 \<le> coreOrder kb ka"
  shows "compiledRange (introducedFixed a b) =
    Inr ([FixedInterval (VersionBound ka) (VersionBound kb)], None)"
proof -
  obtain c where a: "eventBound (js ''introduced'') a Map.empty = (Some (VersionBound ka), c)"
    and c: "coherent c"
    using eventBound_plain [of Map.empty "js ''introduced''" a] not_sentinel_text [OF assms(1)]
      eventBound_coherent(2) [OF coherent_empty coherent_empty, of "js ''introduced''" a] assms(1)
    by (cases "eventBound (js ''introduced'') a Map.empty") auto
  obtain d where b: "eventBound (js ''fixed'') b c = (Some (VersionBound kb), d)"
    using eventBound_plain [OF c, of "js ''fixed''" b] not_sentinel_text [OF assms(2)] assms(2)
    by (cases "eventBound (js ''fixed'') b c") auto
  show ?thesis
    using a b assms(3)
    by (simp add: compiledRange_def introducedFixed_def compileRange_def initialCompileState_def
        compileBound_def againstPrevious_def applyEvent_def closeInterval_def finishCompile_def
        boundsOrder_def boundOrder_def)
qed

text \<open>
  When the structural classifier calls the ranges and explicit versions well formed, the decision
  on a strict observed version never reports an internal failure: every null and \<^verbatim>\<open>'bad'\<close> branch of
  the decision code is unreachable behind the classifier.
\<close>

theorem wellFormed_never_internal:
  assumes "coherent c" "strictSemverCore obs = Some v"
    and "fst (classifyAffectedRangeStructure t ranges texts (Some c)) = WellFormed"
  shows "unknown_internal_failure \<notin> set (codes (fst (decideNpmAffectedness obs ranges texts c)))"
proof -
  note wf = wellFormed_facts [OF _ assms(3)]
  obtain r c' where r: "decideRanges v ranges initialDecision c = (r, c')"
    by (cases "decideRanges v ranges initialDecision c")
  have ok: "r \<noteq> Inl unknown_internal_failure" "coherent c'"
    using decideRanges_not_internal [OF assms(1) wf(1), of v initialDecision] r assms(1)
    by (auto simp: coherentOpt_def)
  have good: "r = Inr st \<Longrightarrow> goodCodes st" for st
    using decideRanges_codes [of initialDecision v ranges c] r
    by (auto simp: goodCodes_def initialDecision_def)
  obtain m c'' where m: "explicitMatch v texts c' = (Some m, c'')"
    using explicitMatch_ok [OF ok(2) wf(2), of v] assms(1)
    by (cases "explicitMatch v texts c'") (auto simp: coherentOpt_def)
  have conc: "goodCodes st \<Longrightarrow> unknown_internal_failure \<notin> set (codes (concludeDecision st m))" for st
    by (auto simp: goodCodes_def concludeDecision_def AFFECTED_EXPLANATIONS_def
        UNAFFECTED_EXPLANATIONS_def)
  show ?thesis
    using assms(2) r m ok(1) good conc
    by (cases r) (auto simp: decideNpmAffectedness_def)
qed

text \<open>
  The half-open reading of an introduced/fixed pair: for strict versions \<open>a \<le> b\<close> an observed
  strict version is affected when \<open>a \<le> v < b\<close> in SemVer precedence and unaffected otherwise, so a
  prerelease of the fixed version is still affected and the fixed version is not.
\<close>

theorem introduced_fixed_half_open:
  assumes "textCore a = Some ka" "textCore b = Some kb" "0 \<le> coreOrder kb ka"
    and "strictSemverCore obs = Some v" "coherent c"
  shows "outcome (fst (decideNpmAffectedness obs [introducedFixed a b] [] c)) =
    (if 0 \<le> coreOrder v ka \<and> coreOrder v kb < 0 then Affected else Unaffected)"
proof -
  note comp = compiled_introducedFixed [OF assms(1-3)]
  have "compiles (introducedFixed a b)" by (simp add: compiles_def comp)
  then obtain st c' where st: "decideRanges v [introducedFixed a b] initialDecision c = (Inr st, c')"
    "includedCodes st = [] \<longleftrightarrow> \<not> compiledContains v (introducedFixed a b)"
    "\<not> sawUnproven st" "applicableRanges st \<noteq> 0"
    using decideRanges_ok [OF assms(5), of "[introducedFixed a b]" v initialDecision] comp
    by (auto simp: compiledApplies_def belowLimit_def initialDecision_def)
  then show ?thesis
    using assms(4) comp
    by (auto simp: decideNpmAffectedness_def concludeDecision_def compiledContains_def boundOrder_def)
qed

subsection \<open>Witnesses\<close>

lemma example_cores:
  "textCore (js ''1.9.0'') = Some (coreOf example_release)"
  "textCore (js ''1.10.0-rc.2+b7'') = Some (coreOf example_rc)"
  by (simp_all add: textCore_def strictSemverCore_def example_release_classified example_rc_classified)

lemma example_order:
  "coreOrder (coreOf example_rc) (coreOf example_release) = 1"
  "coreOrder (coreOf example_release) (coreOf example_rc) = -1"
  by code_simp+

lemma example_distinct: "coreOf example_release \<noteq> coreOf example_rc"
  using example_order by (metis cores.cmp_refl zero_neq_one)

definition exampleRange :: advisoryRange where
  "exampleRange = introducedFixed (js ''1.9.0'') (js ''1.10.0-rc.2+b7'')"

lemma exampleRange_compiled:
  "compiledRange exampleRange = Inr ([FixedInterval (VersionBound (coreOf example_release))
     (VersionBound (coreOf example_rc))], None)"
  unfolding exampleRange_def
  by (rule compiled_introducedFixed) (simp_all add: example_cores example_order)

lemma exampleRange_wellFormed:
  "fst (classifyAffectedRangeStructure (js ''SEMVER'') [exampleRange] [js ''1.9.0'']
     (Some Map.empty)) = WellFormed"
proof -
  have ne: "js ''introduced'' @ js ''='' @ js ''1.9.0'' \<noteq> js ''fixed'' @ js ''='' @ js ''1.10.0-rc.2+b7''"
    by (simp add: js_def)
  show ?thesis
    using ne ne [symmetric]
    by (simp add: Let_def classifyAffectedRangeStructure_def exampleRange_def introducedFixed_def
        catalog_defs eventVersionClass_def classifyRangeVersion_def rememberObservedNpmVersion_def
        example_release_classified example_rc_classified countEvent_def zeroCounts_def
        eventTimeline_def timelineStep_def example_release_def example_rc_def)
qed

lemma example_bounds:
  "atMost_bound (Some (coreOf example_release)) (Some (coreOf example_rc))"
  "\<not> atMost_bound (Some (coreOf example_rc)) (Some (coreOf example_release))"
  "atMost_bound (Some (coreOf example_rc)) (Some (coreOf example_rc))"
  using coreOrder_atMost(1) [OF example_cores(1,2) [THEN textCore_wf]]
    coreOrder_atMost(1) [OF example_cores(2,1) [THEN textCore_wf]]
    coreOrder_atMost(1) [OF example_cores(2,2) [THEN textCore_wf]]
  by (simp_all add: example_order cores.cmp_refl del: atMost_bound.simps)

lemma exampleRange_boundaries:
  "rangeBoundaries exampleRange =
     Some [Introduced (Some (coreOf example_release)), Fixed (coreOf example_rc)]"
  using not_sentinel_text [OF example_cores(1)]
  by (simp add: rangeBoundaries_def exampleRange_def introducedFixed_def event_names [symmetric]
      example_cores)

text \<open>Every version below the release candidate, as a \<open>limit\<close>.\<close>

definition exampleLimit :: advisoryRange where
  "exampleLimit = \<lparr>rangeType = js ''SEMVER'',
     rangeEvents = [[(js ''introduced'', js ''0'')], [(js ''limit'', js ''1.10.0-rc.2+b7'')]]\<rparr>"

lemma exampleLimit_boundaries:
  "rangeBoundaries exampleLimit = Some [Introduced None, Limit (coreOf example_rc)]"
  by (simp add: rangeBoundaries_def exampleLimit_def event_names [symmetric] example_cores)

lemma examples_agree: "rangeAgrees exampleRange" "rangeAgrees exampleLimit"
  by (simp_all add: rangeAgrees_def exampleRange_boundaries exampleLimit_boundaries agreeing_def
      inOrder_def closesPart_def limitFits_def below_bound_def example_bounds del: atMost_bound.simps(3))

lemma examples_readable: "readable exampleRange" "readable exampleLimit"
  by (simp_all add: readable_def exampleRange_boundaries exampleLimit_boundaries)

text \<open>
  The fixed version itself is unaffected; a \<open>limit\<close> at the version leaves it unknown, without a
  contradiction.
\<close>

theorem decide_correct_witness:
  "outcome (fst (decideNpmAffectedness (classifyObservedNpmVersion (Some (js ''1.10.0-rc.2+b7'')))
     [exampleRange] [js ''1.9.0''] Map.empty)) = Unaffected \<and>
   outcome (fst (decideNpmAffectedness (classifyObservedNpmVersion (Some (js ''1.10.0-rc.2+b7'')))
     [exampleRange, exampleLimit] [] Map.empty)) = UnknownOutcome \<and>
   codes (fst (decideNpmAffectedness (classifyObservedNpmVersion (Some (js ''1.10.0-rc.2+b7'')))
     [exampleRange, exampleLimit] [] Map.empty)) \<noteq> [unknown_contradictory_events]"
proof -
  have outside: "\<not> rangeContains (coreOf example_rc) exampleRange"
    by (simp add: rangeContains_def exampleRange_boundaries below_bound_def example_bounds
        del: atMost_bound.simps)
  have "rangeContains (coreOf example_rc) exampleLimit" "\<not> rangeApplies (coreOf example_rc) exampleLimit"
    by (simp_all add: rangeContains_def rangeApplies_def exampleLimit_boundaries underLimit_def
        below_bound_def example_bounds del: atMost_bound.simps(3))
  with outside have "specOutcome (coreOf example_rc) [exampleRange] [js ''1.9.0''] = Unaffected"
    "specOutcome (coreOf example_rc) [exampleRange, exampleLimit] [] = UnknownOutcome"
    using example_distinct by (simp_all add: specOutcome_def examples_agree example_cores)
  then show ?thesis
    using decide_correct [OF example_cores(2) coherent_empty, of "[exampleRange]" "[js ''1.9.0'']"]
      decide_correct [OF example_cores(2) coherent_empty, of "[exampleRange, exampleLimit]" "[]"]
    by (simp add: examples_readable examples_agree example_cores)
qed

theorem wellFormed_never_internal_witness:
  "unknown_internal_failure \<notin> set (codes (fst (decideNpmAffectedness (ValidStrictSemver example_rc)
     [exampleRange] [js ''1.9.0''] Map.empty)))"
  using wellFormed_never_internal [OF coherent_empty _ exampleRange_wellFormed,
      of "ValidStrictSemver example_rc" "coreOf example_rc"]
  by (simp add: strictSemverCore_def)

theorem introduced_fixed_half_open_witness:
  "outcome (fst (decideNpmAffectedness (ValidStrictSemver example_release)
     [introducedFixed (js ''1.9.0'') (js ''1.10.0-rc.2+b7'')] [] Map.empty)) = Affected"
  using introduced_fixed_half_open [OF example_cores(1,2), of "ValidStrictSemver example_release"
      "coreOf example_release" Map.empty]
  by (simp add: example_order strictSemverCore_def cores.cmp_refl)

end
