(* ===== verification/NpmIdentity.thy ===== *)
theory NpmIdentity
  imports NpmDecision
begin

text \<open>
  \<^verbatim>\<open>first-ecosystem/identity.ts\<close>: the identity of an npm package, from its observed parts or from a
  package URL. The literal-typed constant fields of a valid classification
  (\<^verbatim>\<open>versionParticipates\<close>, \<^verbatim>\<open>qualifierPolicyId\<close>, \<^verbatim>\<open>unicodeNormalized\<close>, \<^verbatim>\<open>caseFolded\<close>) are not carried; its
  \<^verbatim>\<open>ecosystem\<close> is always the selected one. The identity key separates the parts, a package URL names the
  same identity as its parts, and neither version, qualifiers nor subpath take part in it.
\<close>

subsection \<open>Definitions\<close>

definition SELECTED_FIRST_ECOSYSTEM :: jstr where
  [catalog_defs]: "SELECTED_FIRST_ECOSYSTEM = js ''npm''"

definition SELECTED_FIRST_ECOSYSTEM_PURL_TYPE :: jstr where
  [catalog_defs]: "SELECTED_FIRST_ECOSYSTEM_PURL_TYPE = js ''npm''"

definition NPM_PACKAGE_NAME_MAX_UTF8_BYTES :: nat where
  [catalog_defs]: "NPM_PACKAGE_NAME_MAX_UTF8_BYTES = 214"

definition FIRST_ECOSYSTEM_CANONICALIZATION_WORKSPACE_UTF8_BYTES :: nat where
  [catalog_defs]: "FIRST_ECOSYSTEM_CANONICALIZATION_WORKSPACE_UTF8_BYTES = 1024"

definition NPM_IDENTITY_SEPARATOR :: nat where
  [eval_defs]: "NPM_IDENTITY_SEPARATOR = 31"

definition name_start :: "nat \<Rightarrow> bool" where
  [eval_defs]: "name_start c \<longleftrightarrow> is_lower c \<or> is_digit c"

definition name_char :: "nat \<Rightarrow> bool" where
  [eval_defs]: "name_char c \<longleftrightarrow> is_lower c \<or> is_digit c \<or> c = 46 \<or> c = 95 \<or> c = 45"

text \<open>\<^verbatim>\<open>/^[a-z0-9][a-z0-9._-]*$/\<close>.\<close>

fun NPM_NAME_PATTERN :: "jstr \<Rightarrow> bool" where
  "NPM_NAME_PATTERN [] = False"
| "NPM_NAME_PATTERN (c # cs) = (name_start c \<and> list_all name_char cs)"

definition NPM_NAME_BLACKLIST :: "jstr list" where
  [catalog_defs]: "NPM_NAME_BLACKLIST = [js ''node_modules'', js ''favicon.ico'']"

datatype nonIdentityPart = PartAbsent | NonIdentityExcluded

record npmIdentity =
  id_namespace :: "jstr option"
  id_name :: jstr
  id_canonicalName :: jstr
  id_observedIdentity :: jstr
  id_identityKey :: jstr
  id_qualifiers :: nonIdentityPart
  id_subpath :: nonIdentityPart

datatype identityFailure = IdInvalid | IdUnsupportedEcosystem | IdCapacityExceeded

text \<open>A failure carries the ecosystem and the observed identity.\<close>

datatype npmIdentityClassification =
    ValidIdentity npmIdentity
  | NotIdentity identityFailure jstr jstr

record npmIdentityParts =
  ecosystem :: jstr
  observedNamespace :: "jstr option"
  observedName :: jstr
  observedIdentity :: jstr

definition canonicalName :: "jstr option \<Rightarrow> jstr \<Rightarrow> jstr" where
  [eval_defs]: "canonicalName namespace name =
     (case namespace of None \<Rightarrow> name | Some ns \<Rightarrow> ns @ js ''/'' @ name)"

definition validNpmName :: "jstr \<Rightarrow> bool" where
  [eval_defs]: "validNpmName value \<longleftrightarrow> NPM_NAME_PATTERN value \<and> value \<notin> set NPM_NAME_BLACKLIST"

fun validNamespace :: "jstr \<Rightarrow> bool" where
  "validNamespace [] = False"
| "validNamespace (c # rest) = (c = 64 \<and> validNpmName rest)"

definition identityKeyOf :: "jstr option \<Rightarrow> jstr \<Rightarrow> jstr" where
  [eval_defs]: "identityKeyOf namespace name =
     SELECTED_FIRST_ECOSYSTEM @ [NPM_IDENTITY_SEPARATOR] @
     (case namespace of None \<Rightarrow> [] | Some ns \<Rightarrow> ns) @ [NPM_IDENTITY_SEPARATOR] @ name"

definition classifyNpmPackageIdentityFromParts :: "npmIdentityParts \<Rightarrow> npmIdentityClassification" where
  "classifyNpmPackageIdentityFromParts input =
     (let failed = (\<lambda>f. NotIdentity f (ecosystem input) (observedIdentity input));
          namespace = observedNamespace input;
          name = observedName input
      in if ecosystem input \<noteq> SELECTED_FIRST_ECOSYSTEM then failed IdUnsupportedEcosystem
      else if namespace \<noteq> None \<and> \<not> validNamespace (the namespace) then failed IdInvalid
      else if \<not> validNpmName name then failed IdInvalid
      else
        (let canonical = canonicalName namespace name
         in if utf8ByteLength name > NPM_PACKAGE_NAME_MAX_UTF8_BYTES \<or>
               (namespace \<noteq> None \<and> utf8ByteLength (the namespace) > NPM_PACKAGE_NAME_MAX_UTF8_BYTES) \<or>
               utf8ByteLength canonical > NPM_PACKAGE_NAME_MAX_UTF8_BYTES
            then failed IdCapacityExceeded
            else
              (let identityKey = identityKeyOf namespace name
               in if utf8ByteLength identityKey >
                       FIRST_ECOSYSTEM_CANONICALIZATION_WORKSPACE_UTF8_BYTES
                  then failed IdCapacityExceeded
                  else if observedIdentity input \<noteq> canonical then failed IdInvalid
                  else ValidIdentity
                    \<lparr>id_namespace = namespace, id_name = name, id_canonicalName = canonical,
                     id_observedIdentity = observedIdentity input, id_identityKey = identityKey,
                     id_qualifiers = PartAbsent, id_subpath = PartAbsent\<rparr>)))"

subsection \<open>Package URLs\<close>

record parsedPurl =
  pp_type :: jstr
  pp_namespace :: "jstr option"
  pp_name :: jstr
  pp_version :: "jstr option"
  pp_qualifierCount :: nat
  pp_subpathPresent :: bool

datatype purlError = PurlInvalid | PurlWrongType

text \<open>
  The stages of \<^verbatim>\<open>parseNpmPurl\<close> in the order of the code, each cutting its part off the remainder;
  \<open>None\<close> is \<^verbatim>\<open>'invalid'\<close>.
\<close>

definition cutSubpath :: "jstr \<Rightarrow> (jstr \<times> bool) option" where
  "cutSubpath remainder =
     (case index_of 35 remainder of
        None \<Rightarrow> Some (remainder, False)
      | Some hash \<Rightarrow>
          (let subpath = drop (hash + 1) remainder
           in if length subpath = 0 \<or> percentDecodeOnce subpath = None then None
              else Some (take hash remainder, True)))"

text \<open>\<^verbatim>\<open>/^[a-z0-9._-]+$/\<close>.\<close>

definition qualifier_key :: "jstr \<Rightarrow> bool" where
  [eval_defs]: "qualifier_key key \<longleftrightarrow> key \<noteq> [] \<and> list_all name_char key"

text \<open>The loop over the pairs; the result is \<^verbatim>\<open>seen.size\<close>.\<close>

fun countQualifiers :: "jstr list \<Rightarrow> jstr list \<Rightarrow> nat option" where
  "countQualifiers [] seen = Some (length seen)"
| "countQualifiers (pair # pairs) seen =
     (case index_of 61 pair of
        None \<Rightarrow> None
      | Some separator \<Rightarrow>
          if separator = 0 then None
          else (let key = take separator pair
                in if \<not> qualifier_key key \<or> key \<in> set seen then None
                   else countQualifiers pairs (key # seen)))"

definition cutQualifiers :: "jstr \<Rightarrow> (jstr \<times> nat) option" where
  "cutQualifiers remainder =
     (case index_of 63 remainder of
        None \<Rightarrow> Some (remainder, 0)
      | Some query \<Rightarrow>
          (let queryText = drop (query + 1) remainder
           in if length queryText = 0 then None
              else map_option (\<lambda>n. (take query remainder, n))
                     (countQualifiers (js_split 38 queryText) [])))"

definition cutVersion :: "jstr \<Rightarrow> (jstr \<times> jstr option) option" where
  "cutVersion remainder =
     (case index_of 64 remainder of
        None \<Rightarrow> Some (remainder, None)
      | Some at \<Rightarrow>
          (let rawVersion = drop (at + 1) remainder
           in case percentDecodeOnce rawVersion of
                None \<Rightarrow> None
              | Some decodedVersion \<Rightarrow>
                  if length decodedVersion = 0 \<or> 47 \<in> set rawVersion then None
                  else Some (take at remainder, Some decodedVersion)))"

definition splitNamePath :: "jstr \<Rightarrow> (jstr option \<times> jstr) option" where
  "splitNamePath remainder =
     (if length remainder = 0 \<or> hd remainder = 47 \<or> last remainder = 47 then None
      else let segments = js_split 47 remainder
        in if length segments > 2 \<or> list_ex (\<lambda>segment. length segment = 0) segments then None
        else
          (let nameSegment = (if length segments = 2 then segments ! 1 else segments ! 0);
               namespaceSegment = (if length segments = 2 then Some (segments ! 0) else None)
           in case percentDecodeOnce nameSegment of
                None \<Rightarrow> None
              | Some name \<Rightarrow>
                  (case namespaceSegment of
                     None \<Rightarrow> Some (None, name)
                   | Some ns \<Rightarrow> map_option (\<lambda>d. (Some d, name)) (percentDecodeOnce ns))))"

definition parseNpmPurl :: "jstr \<Rightarrow> purlError + parsedPurl" where
  "parseNpmPurl value =
     (if take 4 value \<noteq> js ''pkg:'' then Inl PurlInvalid
      else let afterScheme = drop 4 value
        in case index_of 47 afterScheme of
             None \<Rightarrow> Inl PurlInvalid
           | Some slash \<Rightarrow>
               if slash = 0 then Inl PurlInvalid
               else let type = take slash afterScheme
                 in if type \<noteq> SELECTED_FIRST_ECOSYSTEM_PURL_TYPE then Inl PurlWrongType
                 else case cutSubpath (drop (slash + 1) afterScheme) of
                        None \<Rightarrow> Inl PurlInvalid
                      | Some (remainder1, subpathPresent) \<Rightarrow>
                   (case cutQualifiers remainder1 of
                      None \<Rightarrow> Inl PurlInvalid
                    | Some (remainder2, qualifierCount) \<Rightarrow>
                   (case cutVersion remainder2 of
                      None \<Rightarrow> Inl PurlInvalid
                    | Some (remainder3, version) \<Rightarrow>
                   (case splitNamePath remainder3 of
                      None \<Rightarrow> Inl PurlInvalid
                    | Some (namespace, name) \<Rightarrow>
                        Inr \<lparr>pp_type = type, pp_namespace = namespace, pp_name = name,
                             pp_version = version, pp_qualifierCount = qualifierCount,
                             pp_subpathPresent = subpathPresent\<rparr>))))"

text \<open>The classification and the \<^verbatim>\<open>purlVersion\<close> beside it.\<close>

definition classifyNpmPackageIdentityFromPurl ::
  "jstr \<Rightarrow> npmIdentityClassification \<times> jstr option" where
  "classifyNpmPackageIdentityFromPurl purl =
     (case parseNpmPurl purl of
        Inl PurlWrongType \<Rightarrow>
          (NotIdentity IdUnsupportedEcosystem
             (if take 4 purl = js ''pkg:'' then hd (js_split 47 (drop 4 purl)) else []) purl, None)
      | Inl PurlInvalid \<Rightarrow> (NotIdentity IdInvalid SELECTED_FIRST_ECOSYSTEM purl, None)
      | Inr parsed \<Rightarrow>
          (case classifyNpmPackageIdentityFromParts
                  \<lparr>ecosystem = SELECTED_FIRST_ECOSYSTEM, observedNamespace = pp_namespace parsed,
                   observedName = pp_name parsed,
                   observedIdentity = canonicalName (pp_namespace parsed) (pp_name parsed)\<rparr> of
             NotIdentity failure eco _ \<Rightarrow> (NotIdentity failure eco purl, pp_version parsed)
           | ValidIdentity classified \<Rightarrow>
               (ValidIdentity (classified\<lparr>id_observedIdentity := purl,
                  id_qualifiers := (if pp_qualifierCount parsed = 0 then PartAbsent
                                    else NonIdentityExcluded),
                  id_subpath := (if pp_subpathPresent parsed then NonIdentityExcluded
                                 else PartAbsent)\<rparr>), pp_version parsed)))"

fun matchingIdentitiesCollide ::
  "npmIdentityClassification \<Rightarrow> npmIdentityClassification \<Rightarrow> bool" where
  "matchingIdentitiesCollide (ValidIdentity left) (ValidIdentity right) =
     (id_identityKey left = id_identityKey right)"
| "matchingIdentitiesCollide _ _ = False"

subsection \<open>What a valid identity is\<close>

lemma name_char_range:
  "name_char c \<Longrightarrow> c \<le> 127 \<and> c \<noteq> 31 \<and> c \<noteq> 35 \<and> c \<noteq> 37 \<and> c \<noteq> 38 \<and> c \<noteq> 47 \<and> c \<noteq> 61 \<and> c \<noteq> 63 \<and> c \<noteq> 64"
  by (auto simp: name_char_def is_lower_def is_digit_def)

lemma validNpmName_chars: "validNpmName s \<Longrightarrow> s \<noteq> [] \<and> list_all name_char s"
  by (cases s) (auto simp: validNpmName_def name_start_def name_char_def)

lemma validNamespace_chars:
  assumes "validNamespace s"
  obtains t where "s = 64 # t" "t \<noteq> []" "list_all name_char t"
  using assms validNpmName_chars by (cases s) auto

lemma name_ascii: "list_all name_char s \<Longrightarrow> list_all (\<lambda>c. c \<le> 127) s"
  using name_char_range by (auto simp: list_all_iff)

definition identityName :: "jstr option \<Rightarrow> jstr \<Rightarrow> bool" where
  "identityName namespace name \<longleftrightarrow> pred_option validNamespace namespace \<and> validNpmName name \<and>
     length (canonicalName namespace name) \<le> NPM_PACKAGE_NAME_MAX_UTF8_BYTES"

definition identityOf :: "jstr option \<Rightarrow> jstr \<Rightarrow> npmIdentity" where
  "identityOf namespace name =
     \<lparr>id_namespace = namespace, id_name = name, id_canonicalName = canonicalName namespace name,
      id_observedIdentity = canonicalName namespace name, id_identityKey = identityKeyOf namespace name,
      id_qualifiers = PartAbsent, id_subpath = PartAbsent\<rparr>"

lemma part_byte_lengths:
  assumes "pred_option validNamespace namespace" "validNpmName name"
  shows "utf8ByteLength name = length name"
    and "namespace = Some ns \<Longrightarrow> utf8ByteLength ns = length ns"
    and "utf8ByteLength (canonicalName namespace name) = length (canonicalName namespace name)"
    and "utf8ByteLength (identityKeyOf namespace name) = length (identityKeyOf namespace name)"
proof -
  have n: "list_all (\<lambda>c. c \<le> 127) name"
    using assms(2) validNpmName_chars name_ascii by blast
  have ns: "list_all (\<lambda>c. c \<le> 127) s" if "namespace = Some s" for s
    using assms(1) that by (auto elim!: validNamespace_chars dest!: name_ascii)
  show "utf8ByteLength name = length name" "namespace = Some ns \<Longrightarrow> utf8ByteLength ns = length ns"
    using n ns utf8ByteLength_ascii by blast+
  have ascii: "list_all (\<lambda>c. c \<le> 127) (canonicalName namespace name)"
    "list_all (\<lambda>c. c \<le> 127) (identityKeyOf namespace name)"
    using n ns by (cases namespace; simp add: catalog_defs eval_defs)+
  show "utf8ByteLength (canonicalName namespace name) = length (canonicalName namespace name)"
    "utf8ByteLength (identityKeyOf namespace name) = length (identityKeyOf namespace name)"
    using utf8ByteLength_ascii [OF ascii(1)] utf8ByteLength_ascii [OF ascii(2)] by simp_all
qed

lemma key_within_workspace:
  "length (canonicalName namespace name) \<le> NPM_PACKAGE_NAME_MAX_UTF8_BYTES \<Longrightarrow>
   length (identityKeyOf namespace name) \<le> FIRST_ECOSYSTEM_CANONICALIZATION_WORKSPACE_UTF8_BYTES"
  by (auto simp: canonicalName_def identityKeyOf_def catalog_defs split: option.splits)

lemma canonical_bounds_parts:
  "length (canonicalName namespace name) \<le> n \<Longrightarrow> length name \<le> n"
  "length (canonicalName (Some ns) name) \<le> n \<Longrightarrow> length ns \<le> n"
  by (auto simp: canonicalName_def split: option.splits)

lemma fromParts_valid_iff:
  "classifyNpmPackageIdentityFromParts p = ValidIdentity i \<longleftrightarrow>
     ecosystem p = SELECTED_FIRST_ECOSYSTEM \<and>
     identityName (observedNamespace p) (observedName p) \<and>
     observedIdentity p = canonicalName (observedNamespace p) (observedName p) \<and>
     i = identityOf (observedNamespace p) (observedName p)"
proof (cases "pred_option validNamespace (observedNamespace p) \<and> validNpmName (observedName p)")
  case True
  note len = part_byte_lengths [OF conjunct1 [OF True] conjunct2 [OF True]]
  show ?thesis
    using True len key_within_workspace [of "observedNamespace p" "observedName p"]
      canonical_bounds_parts(1) [of "observedNamespace p" "observedName p" NPM_PACKAGE_NAME_MAX_UTF8_BYTES]
      canonical_bounds_parts(2) [of "the (observedNamespace p)" "observedName p"
        NPM_PACKAGE_NAME_MAX_UTF8_BYTES]
    by (cases "observedNamespace p")
      (auto simp: not_less classifyNpmPackageIdentityFromParts_def identityName_def identityOf_def Let_def)
next
  case False
  then show ?thesis
    by (cases "observedNamespace p")
      (auto simp: classifyNpmPackageIdentityFromParts_def identityName_def Let_def)
qed

subsection \<open>Printing package URLs\<close>

text \<open>
  The package URL of an identity: the at sign of the scope escaped, then the optional version,
  qualifiers and subpath. The parts are plain when they survive the cuts of the parser.
\<close>

definition purlPath :: "jstr option \<Rightarrow> jstr \<Rightarrow> jstr" where
  [eval_defs]: "purlPath namespace name =
     (case namespace of None \<Rightarrow> name | Some ns \<Rightarrow> js ''%40'' @ tl ns @ js ''/'' @ name)"

definition purlQualifiers :: "(jstr \<times> jstr) list \<Rightarrow> jstr" where
  [eval_defs]: "purlQualifiers qualifiers = join_with 38 (map (\<lambda>(k, v). k @ 61 # v) qualifiers)"

definition npmPurl ::
  "jstr option \<Rightarrow> jstr \<Rightarrow> jstr option \<Rightarrow> (jstr \<times> jstr) list \<Rightarrow> jstr option \<Rightarrow> jstr" where
  [eval_defs]: "npmPurl namespace name version qualifiers subpath =
     js ''pkg:npm/'' @ purlPath namespace name @
     (case version of None \<Rightarrow> [] | Some v \<Rightarrow> 64 # v) @
     (if qualifiers = [] then [] else 63 # purlQualifiers qualifiers) @
     (case subpath of None \<Rightarrow> [] | Some s \<Rightarrow> 35 # s)"

definition plainVersion :: "jstr \<Rightarrow> bool" where
  [eval_defs]: "plainVersion v \<longleftrightarrow> v \<noteq> [] \<and>
     list_all (\<lambda>c. c \<le> 127 \<and> c \<noteq> 35 \<and> c \<noteq> 37 \<and> c \<noteq> 47 \<and> c \<noteq> 63) v"

definition plainQualifiers :: "(jstr \<times> jstr) list \<Rightarrow> bool" where
  [eval_defs]: "plainQualifiers qualifiers \<longleftrightarrow> distinct (map fst qualifiers) \<and>
     list_all (\<lambda>(k, v). qualifier_key k \<and> 35 \<notin> set v \<and> 38 \<notin> set v) qualifiers"

lemma decode_plain: "list_all (\<lambda>c. c \<le> 127 \<and> c \<noteq> 37) s \<Longrightarrow> percentDecodeOnce s = Some s"
  by (induction s) auto

lemma name_plain: "list_all name_char s \<Longrightarrow> list_all (\<lambda>c. c \<le> 127 \<and> c \<noteq> 37) s"
  using name_char_range by (auto simp: list_all_iff)

lemma name_avoids:
  "list_all name_char s \<Longrightarrow> 31 \<notin> set s \<and> 35 \<notin> set s \<and> 38 \<notin> set s \<and> 47 \<notin> set s \<and> 61 \<notin> set s \<and>
     63 \<notin> set s \<and> 64 \<notin> set s"
  using name_char_range by (fastforce simp: list_all_iff)

lemma cutSubpath_printed:
  assumes "35 \<notin> set r" "pred_option (\<lambda>s. s \<noteq> [] \<and> percentDecodeOnce s \<noteq> None) subpath"
  shows "cutSubpath (r @ (case subpath of None \<Rightarrow> [] | Some s \<Rightarrow> 35 # s)) = Some (r, subpath \<noteq> None)"
  using assms index_of_None_iff [of 35 r] by (cases subpath) (auto simp: cutSubpath_def index_of_append)

lemma countQualifiers_printed:
  assumes "plainQualifiers qualifiers" "set (map fst qualifiers) \<inter> set seen = {}"
  shows "countQualifiers (map (\<lambda>(k, v). k @ 61 # v) qualifiers) seen =
    Some (length qualifiers + length seen)"
  using assms
proof (induction qualifiers arbitrary: seen)
  case Nil
  then show ?case by simp
next
  case (Cons q qs)
  obtain k v where q: "q = (k, v)" by (cases q)
  have k: "qualifier_key k" "k \<notin> set seen" "k \<noteq> []" using Cons.prems q
    by (auto simp: plainQualifiers_def qualifier_key_def)
  then have "index_of 61 (k @ 61 # v) = Some (length k)"
    using name_avoids [of k] index_of_append [of 61 k v] by (simp add: qualifier_key_def)
  moreover have "countQualifiers (map (\<lambda>(k, v). k @ 61 # v) qs) (k # seen) =
      Some (length qs + length (k # seen))"
    using Cons.prems q by (intro Cons.IH) (auto simp: plainQualifiers_def)
  ultimately show ?case using q k by simp
qed

lemma qualifier_pairs_avoid:
  "plainQualifiers qualifiers \<Longrightarrow> list_all (\<lambda>p. 38 \<notin> set p) (map (\<lambda>(k, v). k @ 61 # v) qualifiers)"
  using name_avoids by (fastforce simp: plainQualifiers_def qualifier_key_def list_all_iff)

lemma join_with_avoids: "list_all (\<lambda>x. d \<notin> set x) xs \<Longrightarrow> d \<noteq> c \<Longrightarrow> d \<notin> set (join_with c xs)"
  by (induction c xs rule: join_with.induct) auto

lemma purlQualifiers_avoid_hash: "plainQualifiers qualifiers \<Longrightarrow> 35 \<notin> set (purlQualifiers qualifiers)"
  unfolding purlQualifiers_def
  by (rule join_with_avoids) (use name_avoids in
      \<open>fastforce simp: plainQualifiers_def qualifier_key_def list_all_iff\<close>)+

lemma cutQualifiers_printed:
  assumes "63 \<notin> set r" "plainQualifiers qualifiers"
  shows "cutQualifiers (r @ (if qualifiers = [] then [] else 63 # purlQualifiers qualifiers)) =
    Some (r, length qualifiers)"
proof (cases "qualifiers = []")
  case True
  then show ?thesis using assms index_of_None_iff [of 63 r] by (simp add: cutQualifiers_def)
next
  case False
  have split: "js_split 38 (purlQualifiers qualifiers) = map (\<lambda>(k, v). k @ 61 # v) qualifiers"
    unfolding purlQualifiers_def
    by (rule js_split_join) (use False qualifier_pairs_avoid [OF assms(2)] in simp_all)
  then have "purlQualifiers qualifiers \<noteq> []"
    using False assms(2) by (cases qualifiers) (auto simp: plainQualifiers_def qualifier_key_def)
  then show ?thesis
    using False split countQualifiers_printed [OF assms(2), of "[]"] index_of_append [OF assms(1)]
    by (simp add: cutQualifiers_def)
qed

lemma cutVersion_printed:
  assumes "64 \<notin> set r" "pred_option plainVersion version"
  shows "cutVersion (r @ (case version of None \<Rightarrow> [] | Some v \<Rightarrow> 64 # v)) = Some (r, version)"
proof (cases version)
  case None
  then show ?thesis using assms index_of_None_iff [of 64 r] by (simp add: cutVersion_def)
next
  case (Some v)
  then have v: "v \<noteq> []" "47 \<notin> set v" "list_all (\<lambda>c. c \<le> 127 \<and> c \<noteq> 37) v"
    using assms(2) by (auto simp: plainVersion_def list_all_iff)
  with Some show ?thesis
    using index_of_append [OF assms(1)] decode_plain [OF v(3)] by (simp add: cutVersion_def)
qed

lemma splitNamePath_printed:
  assumes "identityName namespace name"
  shows "splitNamePath (purlPath namespace name) = Some (namespace, name)"
proof -
  have n: "name \<noteq> []" "list_all name_char name"
    using assms validNpmName_chars by (auto simp: identityName_def)
  then have n47: "hd name \<noteq> 47" "last name \<noteq> 47" "47 \<notin> set name"
    using name_avoids [OF n(2)] by (metis hd_in_set, metis last_in_set, simp)
  note dec = decode_plain [OF name_plain [OF n(2)]]
  show ?thesis
  proof (cases namespace)
    case None
    then show ?thesis
      using n n47 dec js_split_single [OF n47(3)] by (simp add: splitNamePath_def purlPath_def)
  next
    case (Some ns)
    then obtain t where t: "ns = 64 # t" "t \<noteq> []" "list_all name_char t"
      using assms by (auto simp: identityName_def elim: validNamespace_chars)
    have path: "purlPath namespace name = (37 # 52 # 48 # t) @ 47 # name"
      using Some t by (simp add: purlPath_def js_def)
    have "47 \<notin> set (37 # 52 # 48 # t)" using name_avoids [OF t(3)] by simp
    from js_split_append [OF this, of name]
    have "js_split 47 (purlPath namespace name) = [37 # 52 # 48 # t, name]"
      unfolding path by (simp only: js_split_single [OF n47(3)])
    then show ?thesis
      using path t n n47 dec decode_plain [OF name_plain [OF t(3)]] Some
      by (simp add: splitNamePath_def is_hex_def hex_val_def is_digit_def)
  qed
qed

lemma purlPath_avoids:
  assumes "identityName namespace name"
  shows "35 \<notin> set (purlPath namespace name)" "63 \<notin> set (purlPath namespace name)"
    "64 \<notin> set (purlPath namespace name)"
proof -
  have n: "list_all name_char name" using assms validNpmName_chars by (auto simp: identityName_def)
  have ns: "namespace = Some ns \<Longrightarrow> list_all name_char (tl ns)" for ns
    using assms by (auto simp: identityName_def elim: validNamespace_chars)
  show "35 \<notin> set (purlPath namespace name)" "63 \<notin> set (purlPath namespace name)"
    "64 \<notin> set (purlPath namespace name)"
    using name_avoids [OF n] name_avoids [OF ns]
    by (auto simp: purlPath_def js_def split: option.splits)
qed

lemma parseNpmPurl_printed:
  assumes "identityName namespace name" "pred_option plainVersion version"
    and "plainQualifiers qualifiers"
    and "pred_option (\<lambda>s. s \<noteq> [] \<and> percentDecodeOnce s \<noteq> None) subpath"
  shows "parseNpmPurl (npmPurl namespace name version qualifiers subpath) =
    Inr \<lparr>pp_type = js ''npm'', pp_namespace = namespace, pp_name = name, pp_version = version,
         pp_qualifierCount = length qualifiers, pp_subpathPresent = subpath \<noteq> None\<rparr>"
proof -
  note avoid = purlPath_avoids [OF assms(1)]
  let ?v = "case version of None \<Rightarrow> [] | Some v \<Rightarrow> 64 # v"
  let ?q = "if qualifiers = [] then [] else 63 # purlQualifiers qualifiers"
  let ?s = "case subpath of None \<Rightarrow> [] | Some s \<Rightarrow> 35 # s"
  have v: "35 \<notin> set ?v" "63 \<notin> set ?v"
    using assms(2) by (auto simp: plainVersion_def list_all_iff split: option.splits)
  have "cutSubpath ((purlPath namespace name @ ?v @ ?q) @ ?s) =
      Some (purlPath namespace name @ ?v @ ?q, subpath \<noteq> None)"
    by (rule cutSubpath_printed) (use avoid v purlQualifiers_avoid_hash [OF assms(3)] assms(4) in auto)
  moreover have "cutQualifiers ((purlPath namespace name @ ?v) @ ?q) =
      Some (purlPath namespace name @ ?v, length qualifiers)"
    by (rule cutQualifiers_printed) (use avoid v assms(3) in auto)
  ultimately show ?thesis
    using cutVersion_printed [OF avoid(3) assms(2)] splitNamePath_printed [OF assms(1)]
    by (simp add: parseNpmPurl_def npmPurl_def js_def catalog_defs)
qed

subsection \<open>Identity\<close>

text \<open>The classifications the two entry points produce.\<close>

inductive classified :: "npmIdentityClassification \<Rightarrow> bool" where
  from_parts: "classified (classifyNpmPackageIdentityFromParts p)"
| from_purl: "classified (fst (classifyNpmPackageIdentityFromPurl purl))"

lemma classified_valid:
  assumes "classified (ValidIdentity i)"
  shows "identityName (id_namespace i) (id_name i) \<and>
    id_canonicalName i = canonicalName (id_namespace i) (id_name i) \<and>
    id_identityKey i = identityKeyOf (id_namespace i) (id_name i)"
proof -
  have parts: "identityName (id_namespace j) (id_name j) \<and>
      id_canonicalName j = canonicalName (id_namespace j) (id_name j) \<and>
      id_identityKey j = identityKeyOf (id_namespace j) (id_name j)"
    if "classifyNpmPackageIdentityFromParts p = ValidIdentity j" for p j
    using that by (auto simp: fromParts_valid_iff identityOf_def)
  from assms show ?thesis
    by cases (auto dest: parts parts [OF sym] simp: classifyNpmPackageIdentityFromPurl_def
        split: sum.splits purlError.splits npmIdentityClassification.splits)
qed

lemma canonicalName_inject:
  assumes "identityName ns name" "identityName ns' name'"
    and "canonicalName ns name = canonicalName ns' name'"
  shows "ns = ns' \<and> name = name'"
proof -
  have nm: "list_all name_char name" "list_all name_char name'" "name \<noteq> []" "name' \<noteq> []"
    using assms(1,2) validNpmName_chars by (auto simp: identityName_def)
  have sp: "47 \<notin> set s" if "ns = Some s \<or> ns' = Some s" for s
    using assms(1,2) that name_avoids
    by (auto simp: identityName_def elim!: validNamespace_chars)
  show ?thesis
    using assms(3) sp name_avoids [OF nm(1)] name_avoids [OF nm(2)]
    by (auto simp: canonicalName_def js_def split: option.splits dest!: separator_inject)
qed

lemma identityKeyOf_inject:
  assumes "identityName ns name" "identityName ns' name'"
    and "identityKeyOf ns name = identityKeyOf ns' name'"
  shows "ns = ns' \<and> name = name'"
proof -
  have avoid: "31 \<notin> set (case m of None \<Rightarrow> [] | Some s \<Rightarrow> s)" "m \<noteq> Some []"
    if "identityName m k" for m k
    using that name_avoids
    by (auto simp: identityName_def elim!: validNamespace_chars split: option.splits)
  have "(case ns of None \<Rightarrow> [] | Some s \<Rightarrow> s) = (case ns' of None \<Rightarrow> [] | Some s \<Rightarrow> s) \<and> name = name'"
    using assms(3) separator_inject [OF _ avoid(1) [OF assms(1)] avoid(1) [OF assms(2)]]
    by (simp add: identityKeyOf_def NPM_IDENTITY_SEPARATOR_def)
  then show ?thesis using avoid(2) assms(1,2) by (auto split: option.splits)
qed

text \<open>
  Two classifications collide exactly when both are valid and name the same package: the key built
  from the separator-joined parts identifies namespace and name, and the canonical name does too.
\<close>

theorem identities_collide_exact:
  assumes "classified a" "classified b"
  shows "(matchingIdentitiesCollide a b \<longleftrightarrow>
      (\<exists>i j. a = ValidIdentity i \<and> b = ValidIdentity j \<and>
         id_namespace i = id_namespace j \<and> id_name i = id_name j)) \<and>
    (matchingIdentitiesCollide a b \<longleftrightarrow>
      (\<exists>i j. a = ValidIdentity i \<and> b = ValidIdentity j \<and> id_canonicalName i = id_canonicalName j))"
proof (cases "(a, b)" rule: matchingIdentitiesCollide.cases)
  case (1 i j)
  then show ?thesis
    using assms classified_valid [of i] classified_valid [of j]
      identityKeyOf_inject [of "id_namespace i" "id_name i" "id_namespace j" "id_name j"]
      canonicalName_inject [of "id_namespace i" "id_name i" "id_namespace j" "id_name j"] by auto
qed auto

text \<open>
  The package URL printed for a valid identity, with any plain version, qualifiers and subpath,
  classifies as that identity with the printed version beside it: the same name and key, so version,
  qualifiers and subpath take no part in matching.
\<close>

theorem purl_identity_roundtrip:
  assumes "classifyNpmPackageIdentityFromParts \<lparr>ecosystem = SELECTED_FIRST_ECOSYSTEM,
      observedNamespace = ns, observedName = name, observedIdentity = canonicalName ns name\<rparr> =
      ValidIdentity i"
    and "pred_option plainVersion version" "plainQualifiers qualifiers"
    and "pred_option (\<lambda>s. s \<noteq> [] \<and> percentDecodeOnce s \<noteq> None) subpath"
  shows "classifyNpmPackageIdentityFromPurl (npmPurl ns name version qualifiers subpath) =
    (ValidIdentity (i\<lparr>id_observedIdentity := npmPurl ns name version qualifiers subpath,
       id_qualifiers := (if qualifiers = [] then PartAbsent else NonIdentityExcluded),
       id_subpath := (if subpath = None then PartAbsent else NonIdentityExcluded)\<rparr>), version)"
proof -
  have "identityName ns name" using assms(1) by (simp add: fromParts_valid_iff)
  from parseNpmPurl_printed [OF this assms(2-4)] show ?thesis
    using assms(1) by (simp add: classifyNpmPackageIdentityFromPurl_def)
qed

text \<open>\<^verbatim>\<open>pkg:npm/%40scope/left-pad@1.9.0?arch=x#lib\<close>.\<close>

theorem purl_identity_roundtrip_witness:
  "classifyNpmPackageIdentityFromPurl (js ''pkg:npm/%40scope/left-pad@1.9.0?arch=x#lib'') =
     (ValidIdentity \<lparr>id_namespace = Some (js ''@scope''), id_name = js ''left-pad'',
        id_canonicalName = js ''@scope/left-pad'',
        id_observedIdentity = js ''pkg:npm/%40scope/left-pad@1.9.0?arch=x#lib'',
        id_identityKey = js ''npm'' @ [31] @ js ''@scope'' @ [31] @ js ''left-pad'',
        id_qualifiers = NonIdentityExcluded, id_subpath = NonIdentityExcluded\<rparr>,
      Some (js ''1.9.0''))"
proof -
  let ?i = "identityOf (Some (js ''@scope'')) (js ''left-pad'')"
  have "identityName (Some (js ''@scope'')) (js ''left-pad'')"
    by (simp add: identityName_def catalog_defs eval_defs)
  then have valid: "classifyNpmPackageIdentityFromParts \<lparr>ecosystem = SELECTED_FIRST_ECOSYSTEM,
      observedNamespace = Some (js ''@scope''), observedName = js ''left-pad'',
      observedIdentity = canonicalName (Some (js ''@scope'')) (js ''left-pad'')\<rparr> = ValidIdentity ?i"
    by (simp add: fromParts_valid_iff)
  show ?thesis
    using purl_identity_roundtrip [OF valid, of "Some (js ''1.9.0'')" "[(js ''arch'', js ''x'')]"
        "Some (js ''lib'')"]
    by (simp add: identityOf_def catalog_defs eval_defs)
qed

theorem identities_collide_exact_witness:
  "matchingIdentitiesCollide
     (fst (classifyNpmPackageIdentityFromPurl (js ''pkg:npm/left-pad@1.9.0'')))
     (classifyNpmPackageIdentityFromParts \<lparr>ecosystem = js ''npm'', observedNamespace = None,
        observedName = js ''left-pad'', observedIdentity = js ''left-pad''\<rparr>)"
  unfolding conjunct2 [OF identities_collide_exact [OF from_purl from_parts]]
  by (simp add: Let_def classifyNpmPackageIdentityFromPurl_def parseNpmPurl_def cutSubpath_def
      cutQualifiers_def cutVersion_def splitNamePath_def classifyNpmPackageIdentityFromParts_def
      catalog_defs eval_defs)

end
