(* ===== verification/NpmEvidence.thy ===== *)
theory NpmEvidence
  imports NpmIdentity
begin

text \<open>
  The evidence record of one evaluation: the second half of \<^verbatim>\<open>first-ecosystem/assess.ts\<close> (digests,
  canonical encodings, the constructor \<^verbatim>\<open>evidence\<close>) with the life-cycle graph of \<^verbatim>\<open>graphs.ts\<close>.
  \<^verbatim>\<open>createHash('sha256')\<close> is the argument \<open>sha256\<close>, a function from the hashed text to its hex digest;
  nothing is assumed of it. Constant fields of the record are not carried. The canonical encodings are
  injective, so a digest stands for exactly the evidence it covers.
\<close>

subsection \<open>graphs.ts\<close>

definition EVALUATION_LIFECYCLE_EDGES :: "(jstr \<times> jstr) list" where
  [catalog_defs]: "EVALUATION_LIFECYCLE_EDGES =
     [(js ''received'', js ''identity_validated''),
      (js ''received'', js ''unknown''),
      (js ''identity_validated'', js ''version_validated''),
      (js ''identity_validated'', js ''unknown''),
      (js ''version_validated'', js ''advisory_evidence_validated''),
      (js ''version_validated'', js ''unknown''),
      (js ''advisory_evidence_validated'', js ''range_validated''),
      (js ''advisory_evidence_validated'', js ''unknown''),
      (js ''range_validated'', js ''evaluation_ready''),
      (js ''range_validated'', js ''unknown''),
      (js ''evaluation_ready'', js ''affected''),
      (js ''evaluation_ready'', js ''unaffected''),
      (js ''evaluation_ready'', js ''unknown''),
      (js ''affected'', js ''evidence_constructed''),
      (js ''unaffected'', js ''evidence_constructed''),
      (js ''unknown'', js ''evidence_constructed'')]"

definition EDGE_SET :: "jstr list" where
  [eval_defs]: "EDGE_SET = map (\<lambda>(a, b). a @ js ''->'' @ b) EVALUATION_LIFECYCLE_EDGES"

definition evaluationTransitionAllowed :: "jstr \<Rightarrow> jstr \<Rightarrow> bool" where
  [eval_defs]: "evaluationTransitionAllowed source target \<longleftrightarrow> source @ js ''->'' @ target \<in> set EDGE_SET"

definition FORBIDDEN_EVALUATION_EDGES :: "jstr list" where
  [catalog_defs]: "FORBIDDEN_EVALUATION_EDGES =
     [js ''unknown->affected'', js ''unknown->unaffected'', js ''retry'', js ''provider_contact'',
      js ''catalog_activation'', js ''finding'', js ''score'', js ''assignment'', js ''remediation'']"

definition evaluationGraphOmitsForbiddenEdges :: bool where
  "evaluationGraphOmitsForbiddenEdges =
     list_all (\<lambda>edge. edge \<notin> set EDGE_SET) FORBIDDEN_EVALUATION_EDGES"

definition FORBIDDEN_AFFECTEDNESS_EDGES :: "jstr list" where
  [catalog_defs]: "FORBIDDEN_AFFECTEDNESS_EDGES =
     [js ''kev_membership->affected'', js ''protected_listing_observation->affected'',
      js ''provider_identity->finding'', js ''advisory_presence->affected'', js ''unknown->unaffected'',
      js ''evaluator_result->active_catalog_mutation'']"

definition forbiddenAffectednessEdgesAbsent :: bool where
  "forbiddenAffectednessEdgesAbsent \<longleftrightarrow>
     length FORBIDDEN_AFFECTEDNESS_EDGES = 6 \<and>
     list_all (\<lambda>edge. edge \<notin> set EDGE_SET) FORBIDDEN_AFFECTEDNESS_EDGES \<and>
     js ''unknown->unaffected'' \<notin> set EDGE_SET \<and> js ''unknown->affected'' \<notin> set EDGE_SET"

lemma graph_guards_hold: "evaluationGraphOmitsForbiddenEdges" "forbiddenAffectednessEdgesAbsent"
  by (simp_all add: evaluationGraphOmitsForbiddenEdges_def forbiddenAffectednessEdgesAbsent_def
      catalog_defs EDGE_SET_def js_def)

subsection \<open>Explanation codes\<close>

definition FIRST_ECOSYSTEM_EXPLANATION_CODES :: "explanationCode list" where
  [catalog_defs]: "FIRST_ECOSYSTEM_EXPLANATION_CODES =
     [affected_within_introduced_fixed_range, affected_at_introduced_boundary,
      affected_within_last_affected_range, affected_explicit_version_equal,
      unaffected_before_introduced, unaffected_at_or_after_fixed_boundary,
      unaffected_after_last_affected, unaffected_outside_all_ranges,
      unknown_unsupported_ecosystem, unknown_invalid_package_identity,
      unknown_invalid_observed_version, unknown_unsupported_version_syntax,
      unknown_invalid_range, unknown_unsupported_range_type, unknown_unsupported_event,
      unknown_contradictory_events, unknown_incomplete_evidence,
      unknown_untrusted_advisory_evidence, unknown_kev_not_affectedness_authority,
      unknown_capacity_exceeded, unknown_policy_mismatch, unknown_evaluator_unavailable,
      unknown_comparator_not_implemented, unknown_range_order_not_verified,
      unknown_prerelease_membership_not_proven, unknown_withdrawn_advisory,
      unknown_internal_failure]"

text \<open>The string of a code and of an outcome.\<close>

fun explanationText :: "explanationCode \<Rightarrow> jstr" where
  "explanationText affected_within_introduced_fixed_range = js ''affected_within_introduced_fixed_range''"
| "explanationText affected_at_introduced_boundary = js ''affected_at_introduced_boundary''"
| "explanationText affected_within_last_affected_range = js ''affected_within_last_affected_range''"
| "explanationText affected_explicit_version_equal = js ''affected_explicit_version_equal''"
| "explanationText unaffected_before_introduced = js ''unaffected_before_introduced''"
| "explanationText unaffected_at_or_after_fixed_boundary = js ''unaffected_at_or_after_fixed_boundary''"
| "explanationText unaffected_after_last_affected = js ''unaffected_after_last_affected''"
| "explanationText unaffected_outside_all_ranges = js ''unaffected_outside_all_ranges''"
| "explanationText unknown_unsupported_ecosystem = js ''unknown_unsupported_ecosystem''"
| "explanationText unknown_invalid_package_identity = js ''unknown_invalid_package_identity''"
| "explanationText unknown_invalid_observed_version = js ''unknown_invalid_observed_version''"
| "explanationText unknown_unsupported_version_syntax = js ''unknown_unsupported_version_syntax''"
| "explanationText unknown_invalid_range = js ''unknown_invalid_range''"
| "explanationText unknown_unsupported_range_type = js ''unknown_unsupported_range_type''"
| "explanationText unknown_unsupported_event = js ''unknown_unsupported_event''"
| "explanationText unknown_contradictory_events = js ''unknown_contradictory_events''"
| "explanationText unknown_incomplete_evidence = js ''unknown_incomplete_evidence''"
| "explanationText unknown_untrusted_advisory_evidence = js ''unknown_untrusted_advisory_evidence''"
| "explanationText unknown_kev_not_affectedness_authority = js ''unknown_kev_not_affectedness_authority''"
| "explanationText unknown_capacity_exceeded = js ''unknown_capacity_exceeded''"
| "explanationText unknown_policy_mismatch = js ''unknown_policy_mismatch''"
| "explanationText unknown_evaluator_unavailable = js ''unknown_evaluator_unavailable''"
| "explanationText unknown_comparator_not_implemented = js ''unknown_comparator_not_implemented''"
| "explanationText unknown_range_order_not_verified = js ''unknown_range_order_not_verified''"
| "explanationText unknown_prerelease_membership_not_proven = js ''unknown_prerelease_membership_not_proven''"
| "explanationText unknown_withdrawn_advisory = js ''unknown_withdrawn_advisory''"
| "explanationText unknown_internal_failure = js ''unknown_internal_failure''"

fun outcomeText :: "affectedOutcome \<Rightarrow> jstr" where
  "outcomeText Affected = js ''affected''"
| "outcomeText Unaffected = js ''unaffected''"
| "outcomeText UnknownOutcome = js ''unknown''"

fun admitEvaluationOutcome :: "affectedOutcome \<Rightarrow> bool" where
  "admitEvaluationOutcome Affected = True"
| "admitEvaluationOutcome Unaffected = True"
| "admitEvaluationOutcome UnknownOutcome = True"

definition FIRST_ECOSYSTEM_MAX_EXPLANATION_CODES :: nat where
  [catalog_defs]: "FIRST_ECOSYSTEM_MAX_EXPLANATION_CODES = 8"

definition EXPLANATION_RANK :: "explanationCode \<Rightarrow> nat" where
  [eval_defs]: "EXPLANATION_RANK code =
     (case index_of code FIRST_ECOSYSTEM_EXPLANATION_CODES of Some index \<Rightarrow> index | None \<Rightarrow> 0)"

text \<open>The first loop keeps the first occurrence of each code.\<close>

fun uniqueCodes :: "explanationCode list \<Rightarrow> explanationCode list \<Rightarrow> explanationCode list" where
  "uniqueCodes [] seen = []"
| "uniqueCodes (code # rest) seen =
     (if code \<in> set seen then uniqueCodes rest seen else code # uniqueCodes rest (code # seen))"

definition rankCompare :: "explanationCode \<Rightarrow> explanationCode \<Rightarrow> int" where
  [eval_defs]: "rankCompare left right = int (EXPLANATION_RANK left) - int (EXPLANATION_RANK right)"

definition orderExplanationCodes :: "explanationCode list \<Rightarrow> explanationCode list" where
  "orderExplanationCodes given = cmp_sort rankCompare (uniqueCodes given [])"

definition codesAgree :: "affectedOutcome \<Rightarrow> explanationCode list \<Rightarrow> bool" where
  "codesAgree out given \<longleftrightarrow>
     length given > 0 \<and> list_all (\<lambda>code. explanationOutcome code = out) given"

subsection \<open>Digests and canonical text\<close>

fun compareCodeUnits_assess :: "jstr \<Rightarrow> jstr \<Rightarrow> int" where
  "compareCodeUnits_assess (a # left) (b # right) =
     (let difference = int a - int b
      in if difference \<noteq> 0 then difference else compareCodeUnits_assess left right)"
| "compareCodeUnits_assess left right = int (length left) - int (length right)"

datatype advisorySource = SyntheticFixture | CisaKev | UnrecognizedSource

definition closedAdvisorySource :: "jstr \<Rightarrow> advisorySource" where
  "closedAdvisorySource value =
     (if value = js ''synthetic_fixture'' then SyntheticFixture
      else if value = js ''cisa_kev'' then CisaKev
      else UnrecognizedSource)"

fun advisorySourceText :: "advisorySource \<Rightarrow> jstr" where
  "advisorySourceText SyntheticFixture = js ''synthetic_fixture''"
| "advisorySourceText CisaKev = js ''cisa_kev''"
| "advisorySourceText UnrecognizedSource = js ''unrecognized''"

definition FIRST_ECOSYSTEM_EVALUATION_INPUT_MAX_UTF8_BYTES :: nat where
  [catalog_defs]: "FIRST_ECOSYSTEM_EVALUATION_INPUT_MAX_UTF8_BYTES = 32768"

definition FIRST_ECOSYSTEM_ADVISORY_IDENTITY_MAX_UTF8_BYTES :: nat where
  [catalog_defs]: "FIRST_ECOSYSTEM_ADVISORY_IDENTITY_MAX_UTF8_BYTES = 512"

definition exceedsInputBudget :: "jstr \<Rightarrow> bool" where
  [eval_defs]: "exceedsInputBudget value \<longleftrightarrow>
     length value > FIRST_ECOSYSTEM_EVALUATION_INPUT_MAX_UTF8_BYTES"

definition digestBounded :: "(jstr \<Rightarrow> jstr) \<Rightarrow> jstr \<Rightarrow> jstr" where
  "digestBounded sha256 value =
     (if length value > FIRST_ECOSYSTEM_EVALUATION_INPUT_MAX_UTF8_BYTES
      then sha256 (js ''over:'' @ dec (length value) @ js '':'' @ take 256 value)
      else sha256 value)"

definition canonicalField :: "jstr \<Rightarrow> jstr \<Rightarrow> jstr" where
  "canonicalField name value =
     dec (length name) @ js '':'' @ name @ dec (length value) @ js '':'' @ value"

definition capacityToken :: "(jstr \<Rightarrow> jstr) \<Rightarrow> jstr \<Rightarrow> jstr \<Rightarrow> jstr" where
  "capacityToken sha256 label value =
     label @ js '':'' @ dec (length value) @ js '':'' @ digestBounded sha256 value"

definition canonicalToken :: "jstr \<Rightarrow> jstr" where
  "canonicalToken value = dec (length value) @ js '':'' @ value"

definition eventCanonical :: "rangeEvent \<Rightarrow> jstr" where
  "eventCanonical event =
     (case event of
        [] \<Rightarrow> canonicalToken [] @ canonicalToken []
      | (key, value) # _ \<Rightarrow> canonicalToken key @ canonicalToken value)"

definition oneRangeCanonical :: "advisoryRange \<Rightarrow> jstr" where
  "oneRangeCanonical rng =
     canonicalToken (rangeType rng) @
     canonicalToken (concat (map eventCanonical (rangeEvents rng)))"

definition rangeCanonical :: "advisoryRange list \<Rightarrow> jstr list \<Rightarrow> jstr" where
  "rangeCanonical ranges explicitVersions =
     (let rangeText = concat (cmp_sort compareCodeUnits_assess (map oneRangeCanonical ranges));
          explicit = concat (cmp_sort compareCodeUnits_assess (map canonicalToken explicitVersions))
      in canonicalToken rangeText @ canonicalToken explicit)"

datatype versionRetention = Retained | OmittedOverCapacity

record versionRecord =
  vb_rawObservedVersion :: "jstr option"
  vb_rawObservedVersionSha256 :: jstr
  vb_retention :: versionRetention
  vb_versionFingerprint :: jstr
  vb_overInput :: bool

definition versionBinding :: "(jstr \<Rightarrow> jstr) \<Rightarrow> jstr \<Rightarrow> versionRecord" where
  "versionBinding sha256 raw =
     (let overInput = exceedsInputBudget raw;
          digest = digestBounded sha256 raw
      in if overInput \<or> utf8ByteLength raw > NPM_RAW_VERSION_MAX_UTF8_BYTES then
           \<lparr>vb_rawObservedVersion = None, vb_rawObservedVersionSha256 = digest,
            vb_retention = OmittedOverCapacity, vb_versionFingerprint = js ''sha256:'' @ digest,
            vb_overInput = overInput\<rparr>
         else
           \<lparr>vb_rawObservedVersion = Some raw, vb_rawObservedVersionSha256 = digest,
            vb_retention = Retained, vb_versionFingerprint = raw, vb_overInput = False\<rparr>)"

record advisoryRecord =
  ab_advisoryIdentity :: jstr
  ab_advisoryFingerprint :: jstr
  ab_overInput :: bool

definition advisoryBinding :: "(jstr \<Rightarrow> jstr) \<Rightarrow> jstr \<Rightarrow> advisoryRecord" where
  "advisoryBinding sha256 identity =
     (if exceedsInputBudget identity then
        \<lparr>ab_advisoryIdentity = [],
         ab_advisoryFingerprint = js ''sha256:'' @ digestBounded sha256 identity, ab_overInput = True\<rparr>
      else if utf8ByteLength identity > FIRST_ECOSYSTEM_ADVISORY_IDENTITY_MAX_UTF8_BYTES then
        \<lparr>ab_advisoryIdentity = [],
         ab_advisoryFingerprint = js ''sha256:'' @ sha256 identity, ab_overInput = False\<rparr>
      else \<lparr>ab_advisoryIdentity = identity, ab_advisoryFingerprint = identity, ab_overInput = False\<rparr>)"

subsection \<open>The evidence record\<close>

definition FIRST_ECOSYSTEM_MATCHING_POLICY_ID :: jstr where
  [catalog_defs]: "FIRST_ECOSYSTEM_MATCHING_POLICY_ID =
     js ''osv_first_ecosystem_matching_architecture_v1''"

definition FIRST_ECOSYSTEM_EVALUATOR_VERSION :: jstr where
  [catalog_defs]: "FIRST_ECOSYSTEM_EVALUATOR_VERSION = js ''session_14_batch_2_in_memory''"

datatype evidenceOrigin = SyntheticOrigin | UntrustedNotRecorded

fun evidenceOriginText :: "evidenceOrigin \<Rightarrow> jstr" where
  "evidenceOriginText SyntheticOrigin = js ''synthetic''"
| "evidenceOriginText UntrustedNotRecorded = js ''untrusted_not_recorded''"

record evidenceInput =
  ei_evaluationId :: jstr
  ei_ecosystem :: jstr
  ei_nameFingerprint :: jstr
  ei_namespaceFingerprint :: jstr
  ei_observedIdentityFingerprint :: jstr
  ei_sbomProvenanceFingerprint :: jstr
  ei_componentProvenanceFingerprint :: jstr
  ei_observedVersionProvenanceFingerprint :: jstr
  ei_rangeProvenanceFingerprint :: jstr
  ei_advisoryOriginFingerprint :: jstr
  ei_packageIdentityKey :: "jstr option"
  ei_rawObservedVersion :: "jstr option"
  ei_rawObservedVersionSha256 :: jstr
  ei_retention :: versionRetention
  ei_versionFingerprint :: jstr
  ei_parsedVersionClassification :: jstr
  ei_advisoryIdentity :: jstr
  ei_advisoryFingerprint :: jstr
  ei_advisorySourceClassification :: advisorySource
  ei_advisoryEvidenceFingerprint :: jstr
  ei_advisoryEvidenceOrigin :: evidenceOrigin
  ei_rangeCanonical :: jstr
  ei_rangeFingerprintMaterial :: jstr
  ei_outcome :: "affectedOutcome option"
  ei_explanationCodes :: "explanationCode list"
  ei_lifecyclePath :: "jstr list"

record matchEvaluationEvidence =
  me_evaluationId :: jstr
  me_ecosystem :: jstr
  me_packageIdentityKey :: "jstr option"
  me_rawObservedVersion :: "jstr option"
  me_rawObservedVersionSha256 :: jstr
  me_retention :: versionRetention
  me_parsedVersionClassification :: jstr
  me_advisoryIdentity :: jstr
  me_advisorySourceClassification :: advisorySource
  me_advisoryEvidenceFingerprint :: jstr
  me_advisoryEvidenceOrigin :: evidenceOrigin
  me_rangeFingerprint :: jstr
  me_outcome :: affectedOutcome
  me_explanationCodes :: "explanationCode list"
  me_replayFingerprint :: jstr
  me_lifecyclePath :: "jstr list"

text \<open>The names and values of the replay material, and the joined text.\<close>

definition replayFields ::
  "evidenceInput \<Rightarrow> affectedOutcome \<Rightarrow> explanationCode list \<Rightarrow> (jstr \<times> jstr) list" where
  "replayFields input out publishedCodes =
     [(js ''policy'', FIRST_ECOSYSTEM_MATCHING_POLICY_ID),
      (js ''evaluator'', FIRST_ECOSYSTEM_EVALUATOR_VERSION),
      (js ''ecosystem'', ei_ecosystem input),
      (js ''name'', ei_nameFingerprint input),
      (js ''namespace'', ei_namespaceFingerprint input),
      (js ''observedIdentity'', ei_observedIdentityFingerprint input),
      (js ''sbomProvenance'', ei_sbomProvenanceFingerprint input),
      (js ''componentProvenance'', ei_componentProvenanceFingerprint input),
      (js ''versionProvenance'', ei_observedVersionProvenanceFingerprint input),
      (js ''rangeProvenance'', ei_rangeProvenanceFingerprint input),
      (js ''requestOrigin'', ei_advisoryOriginFingerprint input),
      (js ''identity'', (case ei_packageIdentityKey input of None \<Rightarrow> [] | Some key \<Rightarrow> key)),
      (js ''version'', ei_versionFingerprint input),
      (js ''versionClass'', ei_parsedVersionClassification input),
      (js ''advisory'', ei_advisoryFingerprint input),
      (js ''source'', advisorySourceText (ei_advisorySourceClassification input)),
      (js ''origin'', evidenceOriginText (ei_advisoryEvidenceOrigin input)),
      (js ''advisoryFingerprint'', ei_advisoryEvidenceFingerprint input),
      (js ''ranges'', ei_rangeFingerprintMaterial input),
      (js ''outcome'', outcomeText out),
      (js ''explanations'', join_with 44 (map explanationText publishedCodes))]"

definition replayMaterial ::
  "evidenceInput \<Rightarrow> affectedOutcome \<Rightarrow> explanationCode list \<Rightarrow> jstr" where
  "replayMaterial input out publishedCodes =
     join_with 124 (map (\<lambda>(n, v). canonicalField n v) (replayFields input out publishedCodes))"

text \<open>
  What is published: whether the codes were refused (\<^verbatim>\<open>blocked\<close>), the outcome, the codes and the path.
\<close>

record publication =
  pub_blocked :: bool
  pub_outcome :: affectedOutcome
  pub_codes :: "explanationCode list"
  pub_path :: "jstr list"

definition publish :: "evidenceInput \<Rightarrow> publication" where
  "publish input =
     (let suppliedOutcome = (case ei_outcome input of None \<Rightarrow> UnknownOutcome | Some out \<Rightarrow> out);
          deduped = orderExplanationCodes (ei_explanationCodes input);
          bounded = (length deduped > FIRST_ECOSYSTEM_MAX_EXPLANATION_CODES);
          requestedOutcome = (if bounded then UnknownOutcome else suppliedOutcome);
          ordered = (if bounded then orderExplanationCodes [unknown_capacity_exceeded] else deduped);
          blocked = (\<not> admitEvaluationOutcome requestedOutcome \<or>
                     \<not> codesAgree requestedOutcome ordered)
      in \<lparr>pub_blocked = blocked,
          pub_outcome = (if blocked then UnknownOutcome else requestedOutcome),
          pub_codes = (if blocked then [unknown_internal_failure] else ordered),
          pub_path = (if blocked
                      then [js ''received'', js ''unknown'', js ''evidence_constructed'']
                      else ei_lifecyclePath input)\<rparr>)"

text \<open>The text whose digest is the replay fingerprint.\<close>

definition replayText :: "evidenceInput \<Rightarrow> jstr" where
  "replayText input =
     (let p = publish input;
          material = replayMaterial input (pub_outcome p) (pub_codes p)
      in if pub_blocked p then js ''internal|'' @ material else material)"

definition evidence :: "(jstr \<Rightarrow> jstr) \<Rightarrow> evidenceInput \<Rightarrow> matchEvaluationEvidence" where
  "evidence sha256 input =
     (let p = publish input
      in \<lparr>me_evaluationId = ei_evaluationId input,
          me_ecosystem = ei_ecosystem input,
          me_packageIdentityKey = ei_packageIdentityKey input,
          me_rawObservedVersion = ei_rawObservedVersion input,
          me_rawObservedVersionSha256 = ei_rawObservedVersionSha256 input,
          me_retention = ei_retention input,
          me_parsedVersionClassification = ei_parsedVersionClassification input,
          me_advisoryIdentity = ei_advisoryIdentity input,
          me_advisorySourceClassification = ei_advisorySourceClassification input,
          me_advisoryEvidenceFingerprint = ei_advisoryEvidenceFingerprint input,
          me_advisoryEvidenceOrigin = ei_advisoryEvidenceOrigin input,
          me_rangeFingerprint = sha256 (ei_rangeCanonical input),
          me_outcome = pub_outcome p,
          me_explanationCodes = pub_codes p,
          me_replayFingerprint = sha256 (replayText input),
          me_lifecyclePath = pub_path p\<rparr>)"

subsection \<open>Prefix codes\<close>

text \<open>
  The contract of a self-delimiting encoding: whatever follows an encoded value, the value and the
  rest can be read back. Sequences of encodings, concatenated or joined, are then injective, and a
  sorted concatenation identifies the multiset of encoded values.
\<close>

locale prefix_code =
  fixes enc :: "'a \<Rightarrow> 'b list"
  assumes enc_cancel: "enc x @ us = enc y @ vs \<Longrightarrow> x = y \<and> us = vs"
    and enc_not_Nil: "enc x \<noteq> []"
begin

lemma enc_inject: "enc x = enc y \<longleftrightarrow> x = y"
  using enc_cancel [of x "[]" y "[]"] by auto

lemma concat_inject: "concat (map enc xs) = concat (map enc ys) \<longleftrightarrow> xs = ys"
proof (induction xs arbitrary: ys)
  case Nil
  then show ?case by (cases ys) (auto simp: enc_not_Nil)
next
  case (Cons x xs)
  then show ?case by (cases ys) (auto simp: enc_not_Nil dest: enc_cancel)
qed

lemma join_inject: "join_with c (map enc xs) = join_with c (map enc ys) \<longleftrightarrow> xs = ys"
proof (induction xs arbitrary: ys)
  case Nil
  then show ?case by (cases ys; cases "tl ys") (auto simp: enc_not_Nil enc_not_Nil [symmetric])
next
  case (Cons x xs)
  let ?rest = "\<lambda>zs. if zs = [] then [] else c # join_with c (map enc zs)"
  have join: "join_with c (map enc (z # zs)) = enc z @ ?rest zs" for z zs
    by (cases zs) auto
  show ?case
  proof (cases ys)
    case Nil
    then show ?thesis unfolding Nil join by (simp add: enc_not_Nil)
  next
    case ys: (Cons y ys')
    have "?rest xs = ?rest ys' \<longleftrightarrow> xs = ys'" using Cons.IH [of ys'] by auto
    then show ?thesis
      unfolding ys join using enc_cancel [of x "?rest xs" y "?rest ys'"] by blast
  qed
qed

lemma sorted_concat_inject:
  assumes "total_cmp cmp"
  shows "concat (cmp_sort cmp (map enc xs)) = concat (cmp_sort cmp (map enc ys)) \<longleftrightarrow>
    mset xs = mset ys"
proof
  have dec: "\<exists>zs'. cmp_sort cmp (map enc zs) = map enc zs' \<and> mset zs' = mset zs" for zs
  proof -
    have "\<forall>s \<in> set (cmp_sort cmp (map enc zs)). s \<in> range enc" by auto
    then obtain zs' where zs': "cmp_sort cmp (map enc zs) = map enc zs'"
      by (metis ex_map_conv rangeE)
    then have "image_mset enc (mset zs') = image_mset enc (mset zs)"
      by (metis mset_cmp_sort mset_map)
    then have "mset zs' = mset zs"
      by (rule multiset.inj_map_strong [rotated]) (simp add: enc_inject)
    with zs' show ?thesis by blast
  qed
  assume "concat (cmp_sort cmp (map enc xs)) = concat (cmp_sort cmp (map enc ys))"
  then show "mset xs = mset ys" using dec [of xs] dec [of ys] concat_inject by metis
next
  assume "mset xs = mset ys"
  then have "mset (map enc xs) = mset (map enc ys)" by simp
  then show "concat (cmp_sort cmp (map enc xs)) = concat (cmp_sort cmp (map enc ys))"
    using total_cmp.cmp_sort_perm [OF assms] by metis
qed

end

lemma prefix_code_pair:
  assumes "prefix_code f" "prefix_code g"
  shows "prefix_code (\<lambda>(x, y). f x @ g y)"
proof
  fix p q us vs
  assume "(case p of (x, y) \<Rightarrow> f x @ g y) @ us = (case q of (x, y) \<Rightarrow> f x @ g y) @ vs"
  then have "f (fst p) @ g (snd p) @ us = f (fst q) @ g (snd q) @ vs"
    by (simp add: case_prod_beta)
  from prefix_code.enc_cancel [OF assms(1) this]
  have "fst p = fst q" "g (snd p) @ us = g (snd q) @ vs" by auto
  with prefix_code.enc_cancel [OF assms(2) this(2)] show "p = q \<and> us = vs"
    by (simp add: prod_eq_iff)
next
  show "(case p of (x, y) \<Rightarrow> f x @ g y) \<noteq> []" for p
    using prefix_code.enc_not_Nil [OF assms(1), of "fst p"] by (simp add: case_prod_beta)
qed

lemma prefix_code_comp:
  assumes "prefix_code f" "inj h"
  shows "prefix_code (\<lambda>x. f (h x))"
proof
  show "f (h x) @ us = f (h y) @ vs \<Longrightarrow> x = y \<and> us = vs" for x y us vs
    using prefix_code.enc_cancel [OF assms(1), of "h x" us "h y" vs] injD [OF assms(2), of x y]
    by blast
  show "f (h x) \<noteq> []" for x by (rule prefix_code.enc_not_Nil [OF assms(1)])
qed

lemma canonicalToken_cancel:
  "canonicalToken x @ us = canonicalToken y @ vs \<Longrightarrow> x = y \<and> us = vs"
  by (auto simp: canonicalToken_def js_def is_digit_def dest!: dec_separator_inject)

interpretation token: prefix_code canonicalToken
  by unfold_locales (fact canonicalToken_cancel, simp add: canonicalToken_def)

interpretation field: prefix_code "\<lambda>(name, value). canonicalField name value"
proof -
  have "(\<lambda>(name, value). canonicalField name value) =
      (\<lambda>(name, value). canonicalToken name @ canonicalToken value)"
    by (auto simp: canonicalField_def canonicalToken_def)
  then show "prefix_code (\<lambda>(name, value). canonicalField name value)"
    using prefix_code_pair [OF token.prefix_code_axioms token.prefix_code_axioms] by simp
qed

interpretation code_units: total_cmp compareCodeUnits_assess
proof (rule total_cmpI)
  have flip: "compareCodeUnits_assess y x = - compareCodeUnits_assess x y" for x y
    by (induction x y rule: compareCodeUnits_assess.induct) (auto simp: Let_def)
  have trans: "compareCodeUnits_assess x y \<le> 0 \<Longrightarrow> compareCodeUnits_assess y z \<le> 0 \<Longrightarrow> compareCodeUnits_assess x z \<le> 0"
    for x y z
  proof (induction x arbitrary: y z)
    case Nil
    then show ?case by simp
  next
    case (Cons a x)
    then show ?case by (cases y; cases z) (auto simp: Let_def split: if_splits)
  qed
  show "preorder_cmp compareCodeUnits_assess"
  proof
    show "compareCodeUnits_assess x x = 0" for x using flip [of x x] by simp
  qed (fact flip, fact trans)
  show "compareCodeUnits_assess x y = 0 \<Longrightarrow> x = y" for x y
    by (induction x y rule: compareCodeUnits_assess.induct) (auto simp: Let_def split: if_splits)
qed

subsection \<open>The range fingerprint\<close>

text \<open>What the request reader delivers: every event has exactly one property.\<close>

definition singleEvents :: "advisoryRange \<Rightarrow> bool" where
  [eval_defs]: "singleEvents rng \<longleftrightarrow> list_all (\<lambda>event. length event = 1) (rangeEvents rng)"

definition pairCanonical :: "jstr \<times> jstr \<Rightarrow> jstr" where
  "pairCanonical = (\<lambda>(key, value). canonicalToken key @ canonicalToken value)"

definition rangePairs :: "advisoryRange \<Rightarrow> jstr \<times> (jstr \<times> jstr) list" where
  "rangePairs rng = (rangeType rng, map hd (rangeEvents rng))"

definition pairsCanonical :: "jstr \<times> (jstr \<times> jstr) list \<Rightarrow> jstr" where
  "pairsCanonical = (\<lambda>(type, events).
     canonicalToken type @ canonicalToken (concat (map pairCanonical events)))"

interpretation event_pair: prefix_code pairCanonical
  unfolding pairCanonical_def
  by (rule prefix_code_pair) (rule token.prefix_code_axioms)+

interpretation range_pairs: prefix_code pairsCanonical
  unfolding pairsCanonical_def
  by (rule prefix_code_pair [OF token.prefix_code_axioms
        prefix_code_comp [OF token.prefix_code_axioms]])
    (simp add: inj_def event_pair.concat_inject)

lemma oneRangeCanonical_pairs:
  assumes "singleEvents rng"
  shows "oneRangeCanonical rng = pairsCanonical (rangePairs rng)"
proof -
  have "eventCanonical event = pairCanonical (hd event)" if "event \<in> set (rangeEvents rng)" for event
    using assms that by (cases event)
      (auto simp: singleEvents_def list_all_iff eventCanonical_def pairCanonical_def split: prod.splits)
  then have "map eventCanonical (rangeEvents rng) = map pairCanonical (map hd (rangeEvents rng))"
    by simp
  then show ?thesis by (simp only: oneRangeCanonical_def pairsCanonical_def rangePairs_def prod.case)
qed

lemma rangePairs_inject:
  assumes "singleEvents rng" "singleEvents rng'" "rangePairs rng = rangePairs rng'"
  shows "rng = rng'"
proof -
  have single: "map (\<lambda>p. [p]) (map hd es) = es" if "list_all (\<lambda>event. length event = 1) es"
    for es :: "rangeEvent list"
    using that by (induction es) (auto simp: length_Suc_conv)
  have "rangeEvents rng = rangeEvents rng'"
    using assms single unfolding singleEvents_def rangePairs_def by (metis prod.inject)
  with assms(3) show ?thesis by (simp add: rangePairs_def)
qed

text \<open>
  The canonical text of the range evidence identifies it up to order: two requests have the same
  text exactly when they list the same ranges and the same explicit versions, each as often, in any
  order. The order of the events inside a range counts.
\<close>

theorem range_canonical_exact:
  assumes "list_all singleEvents ranges" "list_all singleEvents ranges'"
  shows "rangeCanonical ranges versions = rangeCanonical ranges' versions' \<longleftrightarrow>
    mset ranges = mset ranges' \<and> mset versions = mset versions'"
proof -
  have pairs: "map oneRangeCanonical rs = map pairsCanonical (map rangePairs rs)"
    if "list_all singleEvents rs" for rs
    using that oneRangeCanonical_pairs by (simp add: list_all_iff)
  have "image_mset rangePairs (mset ranges) = image_mset rangePairs (mset ranges') \<longleftrightarrow>
      mset ranges = mset ranges'"
  proof
    assume "image_mset rangePairs (mset ranges) = image_mset rangePairs (mset ranges')"
    then show "mset ranges = mset ranges'"
      by (rule multiset.inj_map_strong [rotated])
        (use assms rangePairs_inject in \<open>auto simp: list_all_iff\<close>)
  qed simp
  then have ranges: "concat (cmp_sort compareCodeUnits_assess (map oneRangeCanonical ranges)) =
        concat (cmp_sort compareCodeUnits_assess (map oneRangeCanonical ranges')) \<longleftrightarrow> mset ranges = mset ranges'"
    unfolding pairs [OF assms(1)] pairs [OF assms(2)]
      range_pairs.sorted_concat_inject [OF code_units.total_cmp_axioms] by simp
  have two: "canonicalToken r @ canonicalToken e = canonicalToken r' @ canonicalToken e' \<longleftrightarrow>
      r = r' \<and> e = e'" for r e r' e'
    using token.enc_cancel [of r "canonicalToken e" r' "canonicalToken e'"] token.enc_inject by blast
  show ?thesis
    unfolding rangeCanonical_def Let_def two ranges
      token.sorted_concat_inject [OF code_units.total_cmp_axioms] ..
qed

theorem range_canonical_exact_witness:
  "rangeCanonical [introducedFixed (js ''1.0.0'') (js ''2.0.0''), introducedFixed (js ''3.0.0'') (js ''4.0.0'')]
     [js ''5.0.0''] =
   rangeCanonical [introducedFixed (js ''3.0.0'') (js ''4.0.0''), introducedFixed (js ''1.0.0'') (js ''2.0.0'')]
     [js ''5.0.0'']"
  by (subst range_canonical_exact) (simp_all add: singleEvents_def introducedFixed_def add_mset_commute)

subsection \<open>The replay fingerprint\<close>

lemma explanationText_chars: "explanationText code \<noteq> [] \<and> 44 \<notin> set (explanationText code)"
  by (cases code) (simp_all add: js_def)

lemma explanationText_inject: "explanationText a = explanationText b \<longleftrightarrow> a = b"
  by (cases a; cases b) simp_all

lemma joined_codes_inject:
  assumes "join_with 44 (map explanationText xs) = join_with 44 (map explanationText ys)"
  shows "xs = ys"
proof -
  have split: "js_split 44 (join_with 44 (map explanationText zs)) = map explanationText zs"
    if "zs \<noteq> []" for zs
    using that explanationText_chars by (intro js_split_join) (auto simp: list_all_iff)
  have none: "zs = []" if "join_with 44 (map explanationText zs) = []" for zs
    using that split [of zs] explanationText_chars by (cases zs) (auto, metis)
  have "map explanationText xs = map explanationText ys"
    using assms split none by (metis list.simps(8) join_with.simps(1))
  then show ?thesis using explanationText_inject by (simp add: inj_map_eq_map inj_def)
qed

lemma joined_codes_iff:
  "join_with 44 (map explanationText xs) = join_with 44 (map explanationText ys) \<longleftrightarrow> xs = ys"
  using joined_codes_inject by blast

lemma outcomeText_inject: "outcomeText a = outcomeText b \<longleftrightarrow> a = b"
  by (cases a; cases b) simp_all

lemma advisorySourceText_inject: "advisorySourceText a = advisorySourceText b \<longleftrightarrow> a = b"
  by (cases a; cases b) simp_all

lemma evidenceOriginText_inject: "evidenceOriginText a = evidenceOriginText b \<longleftrightarrow> a = b"
  by (cases a; cases b) simp_all

lemmas texts_inject = outcomeText_inject advisorySourceText_inject evidenceOriginText_inject
  joined_codes_iff

lemma evidence_published [simp]:
  "me_outcome (evidence sha256 input) = pub_outcome (publish input)"
  "me_explanationCodes (evidence sha256 input) = pub_codes (publish input)"
  "me_lifecyclePath (evidence sha256 input) = pub_path (publish input)"
  "me_replayFingerprint (evidence sha256 input) = sha256 (replayText input)"
  by (simp_all add: evidence_def Let_def)

lemma evidence_copied [simp]:
  "me_ecosystem (evidence sha256 input) = ei_ecosystem input"
  "me_packageIdentityKey (evidence sha256 input) = ei_packageIdentityKey input"
  "me_parsedVersionClassification (evidence sha256 input) = ei_parsedVersionClassification input"
  "me_advisorySourceClassification (evidence sha256 input) = ei_advisorySourceClassification input"
  "me_advisoryEvidenceOrigin (evidence sha256 input) = ei_advisoryEvidenceOrigin input"
  "me_advisoryEvidenceFingerprint (evidence sha256 input) = ei_advisoryEvidenceFingerprint input"
  by (simp_all add: evidence_def Let_def)

lemma replayFields_eqD:
  assumes "replayFields a out cs = replayFields b out' cs'"
  shows "out = out'" "cs = cs'" "ei_ecosystem a = ei_ecosystem b"
    "ei_parsedVersionClassification a = ei_parsedVersionClassification b"
    "ei_advisorySourceClassification a = ei_advisorySourceClassification b"
    "ei_advisoryEvidenceOrigin a = ei_advisoryEvidenceOrigin b"
    "ei_advisoryEvidenceFingerprint a = ei_advisoryEvidenceFingerprint b"
    "ei_nameFingerprint a = ei_nameFingerprint b"
    "ei_namespaceFingerprint a = ei_namespaceFingerprint b"
    "ei_versionFingerprint a = ei_versionFingerprint b"
    "ei_advisoryFingerprint a = ei_advisoryFingerprint b"
    "ei_rangeFingerprintMaterial a = ei_rangeFingerprintMaterial b"
  using assms unfolding replayFields_def list.inject prod.inject texts_inject by blast+

lemma replayMaterial_fields:
  "replayMaterial a out cs = replayMaterial b out' cs' \<longleftrightarrow>
     replayFields a out cs = replayFields b out' cs'"
  unfolding replayMaterial_def by (rule field.join_inject)

lemma replayMaterial_start: "hd (replayMaterial a out cs) = 54"
  by (simp add: replayMaterial_def replayFields_def canonicalField_def dec.simps)

lemma replayText_inject:
  assumes "replayText a = replayText b"
  shows "pub_blocked (publish a) = pub_blocked (publish b) \<and>
    replayFields a (pub_outcome (publish a)) (pub_codes (publish a)) =
    replayFields b (pub_outcome (publish b)) (pub_codes (publish b))"
proof -
  have "js ''internal|'' @ m \<noteq> replayMaterial c out cs" for m c out cs
    using replayMaterial_start [of c out cs] by (auto simp: js_def dest!: arg_cong [of _ _ hd])
  with assms show ?thesis
    unfolding replayText_def Let_def replayMaterial_fields [symmetric]
    by (metis append_same_eq same_append_eq)
qed

text \<open>
  As long as the digest does not confuse the two texts, records with the same replay fingerprint
  agree on everything the fingerprint covers: outcome, codes, ecosystem, version class, advisory
  source, origin and fingerprint, and the digests or texts of the package, version, advisory and range
  evidence they were computed from.
\<close>

theorem replay_fingerprint_binds:
  assumes "inj_on sha256 {replayText a, replayText b}"
    and "me_replayFingerprint (evidence sha256 a) = me_replayFingerprint (evidence sha256 b)"
  shows "me_outcome (evidence sha256 a) = me_outcome (evidence sha256 b) \<and>
    me_explanationCodes (evidence sha256 a) = me_explanationCodes (evidence sha256 b) \<and>
    me_ecosystem (evidence sha256 a) = me_ecosystem (evidence sha256 b) \<and>
    me_parsedVersionClassification (evidence sha256 a) =
      me_parsedVersionClassification (evidence sha256 b) \<and>
    me_advisorySourceClassification (evidence sha256 a) =
      me_advisorySourceClassification (evidence sha256 b) \<and>
    me_advisoryEvidenceOrigin (evidence sha256 a) = me_advisoryEvidenceOrigin (evidence sha256 b) \<and>
    me_advisoryEvidenceFingerprint (evidence sha256 a) =
      me_advisoryEvidenceFingerprint (evidence sha256 b) \<and>
    ei_nameFingerprint a = ei_nameFingerprint b \<and>
    ei_namespaceFingerprint a = ei_namespaceFingerprint b \<and>
    ei_versionFingerprint a = ei_versionFingerprint b \<and>
    ei_advisoryFingerprint a = ei_advisoryFingerprint b \<and>
    ei_rangeFingerprintMaterial a = ei_rangeFingerprintMaterial b"
proof -
  have "replayText a = replayText b"
    using inj_onD [OF assms(1)] assms(2) unfolding evidence_published by blast
  from replayFields_eqD [OF conjunct2 [OF replayText_inject [OF this]]] show ?thesis
    by (simp only: evidence_published evidence_copied simp_thms)
qed

text \<open>A request evaluated again under another evaluation id.\<close>

definition exampleInput :: evidenceInput where
  "exampleInput = \<lparr>ei_evaluationId = js ''a'', ei_ecosystem = js ''npm'', ei_nameFingerprint = [],
     ei_namespaceFingerprint = [], ei_observedIdentityFingerprint = [],
     ei_sbomProvenanceFingerprint = [], ei_componentProvenanceFingerprint = [],
     ei_observedVersionProvenanceFingerprint = [], ei_rangeProvenanceFingerprint = [],
     ei_advisoryOriginFingerprint = [], ei_packageIdentityKey = None, ei_rawObservedVersion = None,
     ei_rawObservedVersionSha256 = [], ei_retention = Retained, ei_versionFingerprint = [],
     ei_parsedVersionClassification = js ''not_classified'', ei_advisoryIdentity = [],
     ei_advisoryFingerprint = [], ei_advisorySourceClassification = CisaKev,
     ei_advisoryEvidenceFingerprint = [], ei_advisoryEvidenceOrigin = UntrustedNotRecorded,
     ei_rangeCanonical = [], ei_rangeFingerprintMaterial = [], ei_outcome = None,
     ei_explanationCodes = [unknown_kev_not_affectedness_authority],
     ei_lifecyclePath = [js ''received'', js ''unknown'', js ''evidence_constructed'']\<rparr>"

lemma evaluationId_not_replayed: "replayText (input\<lparr>ei_evaluationId := x\<rparr>) = replayText input"
proof -
  have "publish (input\<lparr>ei_evaluationId := x\<rparr>) = publish input" by (simp add: publish_def Let_def)
  moreover have "replayFields (input\<lparr>ei_evaluationId := x\<rparr>) out cs = replayFields input out cs" for out cs
    by (simp add: replayFields_def)
  ultimately show ?thesis by (simp add: replayText_def replayMaterial_def)
qed

theorem replay_fingerprint_binds_witness:
  "me_outcome (evidence (\<lambda>text. text) (exampleInput\<lparr>ei_evaluationId := js ''b''\<rparr>)) =
   me_outcome (evidence (\<lambda>text. text) exampleInput)"
  by (rule conjunct1 [OF replay_fingerprint_binds]) (simp_all add: evaluationId_not_replayed)

subsection \<open>Published codes\<close>

lemma uniqueCodes_props:
  "set (uniqueCodes cs seen) = set cs - set seen \<and> distinct (uniqueCodes cs seen)"
  by (induction cs arbitrary: seen) auto

lemma rank_inject: "EXPLANATION_RANK a = EXPLANATION_RANK b \<Longrightarrow> a = b"
proof -
  assume eq: "EXPLANATION_RANK a = EXPLANATION_RANK b"
  have rank: "FIRST_ECOSYSTEM_EXPLANATION_CODES ! EXPLANATION_RANK c = c" for c
  proof -
    have "c \<in> set FIRST_ECOSYSTEM_EXPLANATION_CODES"
      by (cases c) (simp_all add: FIRST_ECOSYSTEM_EXPLANATION_CODES_def)
    then obtain i where i: "index_of c FIRST_ECOSYSTEM_EXPLANATION_CODES = Some i"
      using index_of_None_iff by fastforce
    with index_of_SomeD [OF i] show ?thesis by (simp add: EXPLANATION_RANK_def)
  qed
  from rank [of a] rank [of b] eq show "a = b" by metis
qed

interpretation ranks: total_cmp rankCompare
  by unfold_locales (auto simp: rankCompare_def intro: rank_inject)

lemma orderExplanationCodes_props:
  "set (orderExplanationCodes cs) = set cs" "distinct (orderExplanationCodes cs)"
  "sorted_cmp rankCompare (orderExplanationCodes cs)"
  "length (orderExplanationCodes cs) = card (set cs)"
proof -
  show set: "set (orderExplanationCodes cs) = set cs"
    by (simp add: orderExplanationCodes_def uniqueCodes_props)
  have "mset (orderExplanationCodes cs) = mset (uniqueCodes cs [])"
    by (simp add: orderExplanationCodes_def)
  then show dist: "distinct (orderExplanationCodes cs)"
    using uniqueCodes_props [of cs "[]"] by (metis mset_eq_imp_distinct_iff)
  show "sorted_cmp rankCompare (orderExplanationCodes cs)"
    by (simp add: orderExplanationCodes_def ranks.sorted_cmp_sort)
  show "length (orderExplanationCodes cs) = card (set cs)"
    using set dist by (metis distinct_card)
qed

definition publishedWell :: "affectedOutcome \<Rightarrow> explanationCode list \<Rightarrow> bool" where
  "publishedWell out cs \<longleftrightarrow> codesAgree out cs \<and> distinct cs \<and> sorted_cmp rankCompare cs \<and>
     length cs \<le> FIRST_ECOSYSTEM_MAX_EXPLANATION_CODES"

lemma publish_well: "publishedWell (pub_outcome (publish input)) (pub_codes (publish input))"
proof -
  have single: "publishedWell UnknownOutcome [c]" if "explanationOutcome c = UnknownOutcome" for c
    using that by (simp add: publishedWell_def codesAgree_def sorted_cmp_def catalog_defs)
  have "orderExplanationCodes [c] = [c]" "sorted_cmp rankCompare [c]" for c
    by (simp_all add: orderExplanationCodes_def sorted_cmp_def)
  then show ?thesis
    using single [OF unknown_codes] orderExplanationCodes_props [of "ei_explanationCodes input"]
      single [of unknown_capacity_exceeded]
    by (auto simp: publish_def Let_def publishedWell_def split: option.splits)
qed

text \<open>Codes that agree with the outcome and are few enough are published as supplied.\<close>

lemma publish_supplied:
  assumes "ei_outcome input = Some out \<or> (ei_outcome input = None \<and> out = UnknownOutcome)"
    and "codesAgree out (ei_explanationCodes input)"
    and "card (set (ei_explanationCodes input)) \<le> FIRST_ECOSYSTEM_MAX_EXPLANATION_CODES"
  shows "pub_outcome (publish input) = out \<and> pub_path (publish input) = ei_lifecyclePath input \<and>
    pub_codes (publish input) = orderExplanationCodes (ei_explanationCodes input)"
proof -
  have "admitEvaluationOutcome out" by (cases out) simp_all
  moreover have "codesAgree out (orderExplanationCodes (ei_explanationCodes input))"
    using assms(2) orderExplanationCodes_props(1) [of "ei_explanationCodes input"]
    by (auto simp: codesAgree_def list_all_iff)
  ultimately show ?thesis
    using assms(1,3) orderExplanationCodes_props(4) [of "ei_explanationCodes input"]
    by (auto simp: publish_def Let_def)
qed

end
