(* ===== verification/TextPatterns.thy ===== *)
theory TextPatterns
  imports NpmVersion
begin

text \<open>
  The identifier patterns of \<^verbatim>\<open>packages/domain/src/sbom/constants.ts\<close> that several components test, and
  \<^verbatim>\<open>String.prototype.includes\<close>. A pattern whose classes exclude its separator is a test on the parts
  \<^term>\<open>js_split\<close> gives.
\<close>

definition lower_hex :: "nat \<Rightarrow> bool" where
  [eval_defs]: "lower_hex c \<longleftrightarrow> is_digit c \<or> (97 \<le> c \<and> c \<le> 102)"

text \<open>\<^verbatim>\<open>/^[a-f0-9]{64}$/\<close>.\<close>

definition SHA256_HEX_PATTERN :: "jstr \<Rightarrow> bool" where
  [eval_defs]: "SHA256_HEX_PATTERN s \<longleftrightarrow> length s = 64 \<and> list_all lower_hex s"

text \<open>
  The groups of a UUID for a class of hexadecimal digits: \<^term>\<open>is_hex\<close> under the \<^verbatim>\<open>i\<close> flag,
  \<^term>\<open>lower_hex\<close> without it.
\<close>

definition uuid_groups :: "(nat \<Rightarrow> bool) \<Rightarrow> jstr \<Rightarrow> bool" where
  [eval_defs]: "uuid_groups hex s \<longleftrightarrow>
     (case js_split 45 s of
        [a, b, c, d, e] \<Rightarrow>
          length a = 8 \<and> list_all hex a \<and>
          length b = 4 \<and> list_all hex b \<and>
          length c = 4 \<and> list_all hex c \<and> 49 \<le> hd c \<and> hd c \<le> 56 \<and>
          length d = 4 \<and> list_all hex d \<and> hd d \<in> {56, 57, 97, 98, 65, 66} \<and>
          length e = 12 \<and> list_all hex e
      | _ \<Rightarrow> False)"

definition UUID_PATTERN :: "jstr \<Rightarrow> bool" where
  [eval_defs]: "UUID_PATTERN s \<longleftrightarrow> uuid_groups is_hex s"

definition LOWER_UUID :: "jstr \<Rightarrow> bool" where
  [eval_defs]: "LOWER_UUID s \<longleftrightarrow> uuid_groups lower_hex s"

lemma uuid_groups_chars:
  assumes "uuid_groups hex s" "x \<in> set s"
  shows "hex x \<or> x = 45"
proof -
  obtain a b c d e where parts: "js_split 45 s = [a, b, c, d, e]"
    and hex: "list_all hex a" "list_all hex b" "list_all hex c" "list_all hex d" "list_all hex e"
    using assms(1) by (auto simp: uuid_groups_def split: list.splits)
  have "s = join_with 45 [a, b, c, d, e]" using join_js_split [of 45 s] parts by simp
  with hex assms(2) show ?thesis by (auto simp: list_all_iff)
qed

lemma lower_hex_not_slash [simp]: "\<not> lower_hex 47"
  by (simp add: lower_hex_def is_digit_def)

lemma LOWER_UUID_no_slash: "LOWER_UUID s \<Longrightarrow> 47 \<notin> set s"
  using uuid_groups_chars [of lower_hex s 47] by (auto simp: LOWER_UUID_def)

lemma SHA256_no_slash: "SHA256_HEX_PATTERN s \<Longrightarrow> 47 \<notin> set s"
  by (auto simp: SHA256_HEX_PATTERN_def list_all_iff)

text \<open>\<^verbatim>\<open>s.startsWith(t)\<close> and \<^verbatim>\<open>s.includes(t)\<close>.\<close>

fun starts_with :: "'a list \<Rightarrow> 'a list \<Rightarrow> bool" where
  "starts_with _ [] = True"
| "starts_with [] (_ # _) = False"
| "starts_with (c # cs) (d # ds) = (c = d \<and> starts_with cs ds)"

fun includes_text :: "'a list \<Rightarrow> 'a list \<Rightarrow> bool" where
  "includes_text [] t = (t = [])"
| "includes_text (c # cs) t = (starts_with (c # cs) t \<or> includes_text cs t)"

lemma starts_with_iff: "starts_with s t \<longleftrightarrow> (\<exists>u. s = t @ u)"
  by (induction s t rule: starts_with.induct) auto

lemma includes_text_iff: "includes_text s t \<longleftrightarrow> (\<exists>u v. s = u @ t @ v)"
proof (induction s)
  case (Cons c cs)
  have "(\<exists>u v. c # cs = u @ t @ v) \<longleftrightarrow> (\<exists>v. c # cs = t @ v) \<or> (\<exists>u v. cs = u @ t @ v)"
    by (metis append_Cons append_Nil list.exhaust list.inject)
  with Cons show ?case by (simp add: starts_with_iff)
qed auto

lemma includes_chars: "includes_text s t \<Longrightarrow> set t \<subseteq> set s"
  by (auto simp: includes_text_iff)

end
