(* ===== verification/JsValues.thy ===== *)
theory JsValues
  imports Prelude
begin

text \<open>
  Untrusted JavaScript values, as \<^verbatim>\<open>packages/policy-engine/src/plain-data.ts\<close> observes them: the
  result of \<^verbatim>\<open>typeof\<close>, the prototype, and the own property descriptors. A number is NaN, an infinity,
  an integer or a finite non-integer (\<open>m * 2 ^ e\<close>). An object carries its identity, its prototype, its
  length when it is an array exotic object (the non-enumerable \<^verbatim>\<open>length\<close> is not repeated among the
  properties) and its own properties in \<^verbatim>\<open>Reflect.ownKeys\<close> order; own keys are distinct.
\<close>

datatype jsnum = NaN | PosInfinity | NegInfinity | Integral int | Fractional int int

datatype jskey = KStr jstr | KSymbol nat

datatype jsproto = ObjectPrototype | ArrayPrototype | NullPrototype | OtherPrototype

datatype jsval =
    Undefined
  | Null
  | Boolean bool
  | Number jsnum
  | Str jstr
  | Symbol nat
  | BigInt int
  | Function nat
  | Object nat jsproto "nat option" "(jskey \<times> jsdesc) list"
and jsdesc = DataProp jsval bool | AccessorProp bool

type_synonym plainRecord = "(jstr \<times> jsval) list"

text \<open>The entries of a record all of whose own properties are enumerable string-keyed data.\<close>

fun plainEntries :: "(jskey \<times> jsdesc) list \<Rightarrow> plainRecord option" where
  "plainEntries [] = Some []"
| "plainEntries ((key, descriptor) # props) =
     (case (key, descriptor) of
        (KStr k, DataProp v True) \<Rightarrow> map_option ((#) (k, v)) (plainEntries props)
      | _ \<Rightarrow> None)"

fun readPlainRecord :: "jsval \<Rightarrow> plainRecord option" where
  "readPlainRecord (Object _ proto None props) =
     (if proto \<noteq> ObjectPrototype \<and> proto \<noteq> NullPrototype then None else plainEntries props)"
| "readPlainRecord _ = None"

datatype plainArray = NotArray | TooLong | Elements "jsval list"

definition elementAt :: "(jskey \<times> jsdesc) list \<Rightarrow> nat \<Rightarrow> jsval option" where
  "elementAt props index =
     (case map_of props (KStr (dec index)) of Some (DataProp v _) \<Rightarrow> Some v | _ \<Rightarrow> None)"

text \<open>\<^verbatim>\<open>/^(0|[1-9][0-9]*)$/\<close> on a key; a symbol key never matches.\<close>

fun isIndexKey :: "jskey \<Rightarrow> bool" where
  "isIndexKey (KStr []) = False"
| "isIndexKey (KStr (c # cs)) =
     ((c = 48 \<and> cs = []) \<or> (49 \<le> c \<and> c \<le> 57 \<and> list_all is_digit cs))"
| "isIndexKey (KSymbol _) = False"

fun readPlainArray :: "jsval \<Rightarrow> nat \<Rightarrow> plainArray" where
  "readPlainArray (Object _ proto (Some len) props) maxLength =
     (if proto \<noteq> ArrayPrototype then NotArray
      else if len > maxLength then TooLong
      else case those (map (elementAt props) [0..<len]) of
        None \<Rightarrow> NotArray
      | Some elements \<Rightarrow>
          if list_ex (\<lambda>(key, _). \<not> isIndexKey key) props then NotArray else Elements elements)"
| "readPlainArray _ maxLength = NotArray"

definition isOneOf :: "jsval \<Rightarrow> jstr list \<Rightarrow> bool" where
  "isOneOf value allowed = (case value of Str s \<Rightarrow> s \<in> set allowed | _ \<Rightarrow> False)"

text \<open>Values as literals of the source build them: ordinary objects and dense arrays.\<close>

definition plainObject :: "nat \<Rightarrow> (jstr \<times> jsval) list \<Rightarrow> jsval" where
  "plainObject oid entries =
     Object oid ObjectPrototype None (map (\<lambda>(k, v). (KStr k, DataProp v True)) entries)"

definition plainArrayOf :: "nat \<Rightarrow> jsval list \<Rightarrow> jsval" where
  "plainArrayOf oid vs =
     Object oid ArrayPrototype (Some (length vs))
       (map (\<lambda>i. (KStr (dec i), DataProp (vs ! i) True)) [0..<length vs])"

subsection \<open>Lemmas\<close>

lemma plainEntries_object [simp]:
  "plainEntries (map (\<lambda>(k, v). (KStr k, DataProp v True)) entries) = Some entries"
  by (induction entries) auto

lemma readPlainRecord_object [simp]: "readPlainRecord (plainObject oid entries) = Some entries"
  by (simp add: plainObject_def)

lemma readPlainRecord_array [simp]: "readPlainRecord (plainArrayOf oid vs) = None"
  by (simp add: plainArrayOf_def)

lemma dec_hd: "0 < n \<Longrightarrow> hd (dec n) \<noteq> 48"
proof (induction n rule: dec.induct)
  case (1 n)
  show ?case
  proof (cases "n < 10")
    case True
    with 1 show ?thesis by (simp add: dec.simps [of n])
  next
    case False
    then have "0 < n div 10" by simp
    with False 1 show ?thesis by (simp add: dec.simps [of n] hd_append)
  qed
qed

lemma isIndexKey_dec [simp]: "isIndexKey (KStr (dec n))"
proof (cases "n = 0")
  case True
  then show ?thesis by (simp add: dec.simps)
next
  case False
  obtain c cs where d: "dec n = c # cs" by (cases "dec n") auto
  then have "c \<noteq> 48" "is_digit c" "list_all is_digit cs"
    using dec_hd [of n] dec_digits [of _ n] False by (auto simp: list_all_iff)
  with d show ?thesis by (simp add: is_digit_def)
qed

lemma map_of_dec:
  "i < n \<Longrightarrow> map_of (map (\<lambda>i. (KStr (dec i), f i)) [0..<n]) (KStr (dec i)) = Some (f i)"
  by (rule map_of_is_SomeI) (auto simp: comp_def distinct_map inj_on_def)

lemma those_map_Some: "those (map (\<lambda>x. Some (f x)) xs) = Some (map f xs)"
  by (induction xs) auto

lemma readPlainArray_dense [simp]:
  "readPlainArray (plainArrayOf oid vs) m = (if length vs > m then TooLong else Elements vs)"
proof -
  let ?p = "map (\<lambda>i. (KStr (dec i), DataProp (vs ! i) True)) [0..<length vs]"
  have "map (elementAt ?p) [0..<length vs] = map (\<lambda>i. Some (vs ! i)) [0..<length vs]"
    by (auto simp: elementAt_def map_of_dec)
  then have "those (map (elementAt ?p) [0..<length vs]) = Some vs"
    by (simp only: those_map_Some map_nth)
  then show ?thesis
    by (auto simp: plainArrayOf_def list_ex_iff)
qed

lemma those_length: "those xs = Some ys \<Longrightarrow> length ys = length xs"
  by (induction xs arbitrary: ys) (auto split: option.splits)

lemma readPlainArray_bound: "readPlainArray v m = Elements es \<Longrightarrow> length es \<le> m"
  by (cases "(v, m)" rule: readPlainArray.cases)
    (auto split: if_splits option.splits dest: those_length)

lemma isOneOf_iff: "isOneOf v allowed \<longleftrightarrow> (\<exists>s. v = Str s \<and> s \<in> set allowed)"
  by (cases v) (auto simp: isOneOf_def)

lemma isOneOf_Str [simp]: "isOneOf (Str s) allowed \<longleftrightarrow> s \<in> set allowed"
  by (simp add: isOneOf_def)

end
