(* ===== verification/NpmAssess.thy ===== *)
theory NpmAssess
  imports NpmEvidence TextPatterns JsValues "HOL-Library.Monad_Syntax"
begin

text \<open>
  The first half of \<^verbatim>\<open>first-ecosystem/assess.ts\<close>: reading an untrusted evaluation request and taking it
  through identity, version, ranges and decision to an evidence record. A read that throws is \<open>None\<close>;
  the exported entry point turns it into a rejection. \<^verbatim>\<open>util.types.isProxy\<close> and the digest are the
  arguments collected in \<open>nodeRuntime\<close>. An accessor property throws when read; one with neither getter
  nor setter would read as \<^verbatim>\<open>undefined\<close>, which every reader here refuses with the same result.
  The \<^verbatim>\<open>try\<close> around the decision guards the comparison's test-only fault hook, which is null, so its
  \<^verbatim>\<open>catch\<close> is not taken.
\<close>

subsection \<open>Reading untrusted values\<close>

record nodeRuntime =
  rt_sha256 :: "jstr \<Rightarrow> jstr"
  rt_isProxy :: "nat \<Rightarrow> bool"

type_synonym ownProps = "(jskey \<times> jsdesc) list"

fun isPlainRecord :: "nodeRuntime \<Rightarrow> jsval \<Rightarrow> bool" where
  "isPlainRecord rt (Object oid proto None props) = (\<not> rt_isProxy rt oid \<and> proto = ObjectPrototype)"
| "isPlainRecord rt _ = False"

fun ownProperties :: "jsval \<Rightarrow> ownProps" where
  "ownProperties (Object _ _ _ props) = props"
| "ownProperties _ = []"

fun ownPropertyNames :: "ownProps \<Rightarrow> jstr list" where
  "ownPropertyNames [] = []"
| "ownPropertyNames ((KStr name, _) # props) = name # ownPropertyNames props"
| "ownPropertyNames ((KSymbol _, _) # props) = ownPropertyNames props"

definition hasSymbols :: "ownProps \<Rightarrow> bool" where
  [eval_defs]: "hasSymbols props \<longleftrightarrow> list_ex (\<lambda>(key, _). case key of KSymbol _ \<Rightarrow> True | KStr _ \<Rightarrow> False) props"

definition readDataProperty :: "ownProps \<Rightarrow> jstr \<Rightarrow> jsval option" where
  [eval_defs]: "readDataProperty props key =
     (case map_of props (KStr key) of Some (DataProp value _) \<Rightarrow> Some value | _ \<Rightarrow> None)"

definition readString :: "ownProps \<Rightarrow> jstr \<Rightarrow> jstr option option" where
  [eval_defs]: "readString props key =
     map_option (\<lambda>value. case value of Str s \<Rightarrow> Some s | _ \<Rightarrow> None) (readDataProperty props key)"

datatype arrayRead = ArrayInvalid | ArrayCapacity | ArrayItems "jsval list"

text \<open>\<^verbatim>\<open>readPlainArray\<close> of \<^verbatim>\<open>assess.ts\<close>; the own names of an array include its \<^verbatim>\<open>length\<close>.\<close>

fun readPlainArray_assess :: "nodeRuntime \<Rightarrow> jsval \<Rightarrow> nat \<Rightarrow> arrayRead option" where
  "readPlainArray_assess rt (Object oid proto (Some len) props) maxLength =
     (if rt_isProxy rt oid \<or> proto \<noteq> ArrayPrototype then Some ArrayInvalid
      else if hasSymbols props then Some ArrayInvalid
      else if len > maxLength then Some ArrayCapacity
      else if length (ownPropertyNames props) + 1 \<noteq> len + 1 then Some ArrayInvalid
      else map_option ArrayItems (those (map (\<lambda>index. readDataProperty props (dec index)) [0..<len])))"
| "readPlainArray_assess rt _ maxLength = Some ArrayInvalid"

datatype 'a parsedList = ListOk "'a list" | ListInvalid | ListCapacity jstr

text \<open>Pushing an accepted item in front of what the rest of the loop yields.\<close>

fun listCons :: "'a \<Rightarrow> 'a parsedList \<Rightarrow> 'a parsedList" where
  "listCons x (ListOk xs) = ListOk (x # xs)"
| "listCons x ListInvalid = ListInvalid"
| "listCons x (ListCapacity token) = ListCapacity token"

fun parseEvents :: "nodeRuntime \<Rightarrow> jsval list \<Rightarrow> rangeEvent parsedList option" where
  "parseEvents rt [] = Some (ListOk [])"
| "parseEvents rt (event # events) =
     (if \<not> isPlainRecord rt event then Some ListInvalid
      else if hasSymbols (ownProperties event) then Some ListInvalid
      else case ownPropertyNames (ownProperties event) of
        [eventKey] \<Rightarrow>
          if exceedsInputBudget eventKey
          then Some (ListCapacity (capacityToken (rt_sha256 rt) (js ''event-name'') eventKey))
          else
            (case readDataProperty (ownProperties event) eventKey of
               None \<Rightarrow> None
             | Some (Str eventValue) \<Rightarrow>
                 if length eventValue > NPM_RAW_VERSION_MAX_UTF8_BYTES
                 then Some (ListCapacity (capacityToken (rt_sha256 rt) (js ''event-value'') eventValue))
                 else map_option (listCons [(eventKey, eventValue)]) (parseEvents rt events)
             | Some _ \<Rightarrow> Some ListInvalid)
      | _ \<Rightarrow> Some ListInvalid)"

fun parseRangeEntries ::
  "nodeRuntime \<Rightarrow> jsval list \<Rightarrow> nat \<Rightarrow> advisoryRange parsedList option" where
  "parseRangeEntries rt [] totalEvents = Some (ListOk [])"
| "parseRangeEntries rt (entry # entries) totalEvents =
     (let keys = ownPropertyNames (ownProperties entry)
      in if \<not> isPlainRecord rt entry then Some ListInvalid
      else if length keys \<noteq> 2 \<or> js ''type'' \<notin> set keys \<or> js ''events'' \<notin> set keys \<or>
              hasSymbols (ownProperties entry) then Some ListInvalid
      else do {
        typeValue \<leftarrow> readDataProperty (ownProperties entry) (js ''type'');
        eventList \<leftarrow> readDataProperty (ownProperties entry) (js ''events'');
        (case typeValue of
           Str type \<Rightarrow>
             if exceedsInputBudget type
             then Some (ListCapacity (capacityToken (rt_sha256 rt) (js ''range-type'') type))
             else do {
               eventsRead \<leftarrow> readPlainArray_assess rt eventList FIRST_ECOSYSTEM_MAX_EVENTS_PER_RANGE;
               (case eventsRead of
                  ArrayInvalid \<Rightarrow> Some ListInvalid
                | ArrayCapacity \<Rightarrow> Some (ListCapacity (js ''events-over-count''))
                | ArrayItems items \<Rightarrow> do {
                    parsed \<leftarrow> parseEvents rt items;
                    (case parsed of
                       ListInvalid \<Rightarrow> Some ListInvalid
                     | ListCapacity token \<Rightarrow> Some (ListCapacity token)
                     | ListOk events \<Rightarrow>
                         let total = totalEvents + length events
                         in if total > FIRST_ECOSYSTEM_MAX_TOTAL_EVENTS
                            then Some (ListCapacity (js ''events-over-total''))
                            else map_option (listCons \<lparr>rangeType = type, rangeEvents = events\<rparr>)
                                   (parseRangeEntries rt entries total))
                  })
             }
         | _ \<Rightarrow> Some ListInvalid)
      })"

definition parseRanges :: "nodeRuntime \<Rightarrow> jsval \<Rightarrow> advisoryRange parsedList option" where
  "parseRanges rt value = do {
     list \<leftarrow> readPlainArray_assess rt value FIRST_ECOSYSTEM_MAX_AFFECTED_RANGES;
     (case list of
        ArrayInvalid \<Rightarrow> Some ListInvalid
      | ArrayCapacity \<Rightarrow> Some (ListCapacity (js ''affected-ranges-over-count''))
      | ArrayItems items \<Rightarrow> parseRangeEntries rt items 0)
   }"

fun parseVersionEntries :: "nodeRuntime \<Rightarrow> jsval list \<Rightarrow> jstr parsedList" where
  "parseVersionEntries rt [] = ListOk []"
| "parseVersionEntries rt (entry # entries) =
     (case entry of
        Str text \<Rightarrow>
          if length text > NPM_RAW_VERSION_MAX_UTF8_BYTES
          then ListCapacity (capacityToken (rt_sha256 rt) (js ''explicit-version'') text)
          else listCons text (parseVersionEntries rt entries)
      | _ \<Rightarrow> ListInvalid)"

definition parseExplicitVersions :: "nodeRuntime \<Rightarrow> jsval \<Rightarrow> jstr parsedList option" where
  "parseExplicitVersions rt value = do {
     list \<leftarrow> readPlainArray_assess rt value FIRST_ECOSYSTEM_MAX_EXPLICIT_VERSIONS;
     (case list of
        ArrayInvalid \<Rightarrow> Some ListInvalid
      | ArrayCapacity \<Rightarrow> Some (ListCapacity (js ''explicit-versions-over-count''))
      | ArrayItems items \<Rightarrow> Some (parseVersionEntries rt items))
   }"

subsection \<open>The request\<close>

definition FIRST_ECOSYSTEM_REQUEST_SCHEMA_VERSION :: jstr where
  [catalog_defs]: "FIRST_ECOSYSTEM_REQUEST_SCHEMA_VERSION =
     js ''osv_first_ecosystem_evaluation_request_v1''"

definition REQUEST_KEYS :: "jstr list" where
  [catalog_defs]: "REQUEST_KEYS =
     [js ''requestSchemaVersion'', js ''evaluatorPolicyId'', js ''evaluatorVersion'', js ''ecosystem'',
      js ''namespace'', js ''name'', js ''observedIdentity'', js ''rawObservedVersion'',
      js ''advisoryIdentity'', js ''advisorySourceClassification'', js ''advisoryEvidenceFingerprint'',
      js ''advisoryEvidenceOrigin'', js ''advisoryRevisionDisposition'', js ''rangeType'',
      js ''affectedRanges'', js ''explicitAffectedVersions'', js ''evaluationCorrelationId'',
      js ''sbomSourceClassification'', js ''componentIdentityProvenance'',
      js ''observedVersionProvenance'', js ''rangeEvidenceProvenance'']"

text \<open>\<^verbatim>\<open>/^[0-9a-f]{8}-[0-9a-f]{4}-4[0-9a-f]{3}-[89ab][0-9a-f]{3}-[0-9a-f]{12}$/\<close>.\<close>

definition UUID_V4 :: "jstr \<Rightarrow> bool" where
  [eval_defs]: "UUID_V4 s \<longleftrightarrow>
     (case js_split 45 s of
        [a, b, c, d, e] \<Rightarrow>
          length a = 8 \<and> list_all lower_hex a \<and>
          length b = 4 \<and> list_all lower_hex b \<and>
          length c = 4 \<and> list_all lower_hex c \<and> hd c = 52 \<and>
          length d = 4 \<and> list_all lower_hex d \<and> hd d \<in> {56, 57, 97, 98} \<and>
          length e = 12 \<and> list_all lower_hex e
      | _ \<Rightarrow> False)"

text \<open>\<^verbatim>\<open>/^[a-f0-9]{64}$/\<close>.\<close>

definition SHA256_HEX :: "jstr \<Rightarrow> bool" where
  [eval_defs]: "SHA256_HEX s \<longleftrightarrow> length s = 64 \<and> list_all lower_hex s"

record evaluationRequest =
  rq_requestSchemaVersion :: jstr
  rq_evaluatorPolicyId :: jstr
  rq_evaluatorVersion :: jstr
  rq_ecosystem :: jstr
  rq_namespace :: "jstr option"
  rq_name :: jstr
  rq_observedIdentity :: jstr
  rq_rawObservedVersion :: jstr
  rq_advisoryIdentity :: jstr
  rq_advisorySourceClassification :: jstr
  rq_advisoryEvidenceFingerprint :: jstr
  rq_advisoryEvidenceOrigin :: jstr
  rq_advisoryRevisionDisposition :: jstr
  rq_rangeType :: jstr
  rq_evaluationCorrelationId :: jstr
  rq_sbomSourceClassification :: jstr
  rq_componentIdentityProvenance :: jstr
  rq_observedVersionProvenance :: jstr
  rq_rangeEvidenceProvenance :: jstr
  rq_ranges :: "advisoryRange parsedList"
  rq_explicit :: "jstr parsedList"

fun isString :: "jsval \<Rightarrow> bool" where
  "isString (Str _) = True"
| "isString _ = False"

text \<open>
  The reads of \<^verbatim>\<open>assessUntrustedEvaluationRequest\<close> in their order and the check after them: \<open>None\<close> when a
  read throws, \<open>Some None\<close> when the check refuses.
\<close>

definition readRequest :: "nodeRuntime \<Rightarrow> ownProps \<Rightarrow> evaluationRequest option option" where
  "readRequest rt input = do {
     requestSchemaVersion \<leftarrow> readString input (js ''requestSchemaVersion'');
     evaluatorPolicyId \<leftarrow> readString input (js ''evaluatorPolicyId'');
     evaluatorVersion \<leftarrow> readString input (js ''evaluatorVersion'');
     ecosystemValue \<leftarrow> readString input (js ''ecosystem'');
     namespaceValue \<leftarrow> readDataProperty input (js ''namespace'');
     name \<leftarrow> readString input (js ''name'');
     observed \<leftarrow> readString input (js ''observedIdentity'');
     rawObservedVersion \<leftarrow> readString input (js ''rawObservedVersion'');
     advisoryIdentity \<leftarrow> readString input (js ''advisoryIdentity'');
     advisorySourceClassification \<leftarrow> readString input (js ''advisorySourceClassification'');
     advisoryEvidenceFingerprint \<leftarrow> readString input (js ''advisoryEvidenceFingerprint'');
     advisoryEvidenceOrigin \<leftarrow> readString input (js ''advisoryEvidenceOrigin'');
     advisoryRevisionDisposition \<leftarrow> readString input (js ''advisoryRevisionDisposition'');
     rangeTypeValue \<leftarrow> readString input (js ''rangeType'');
     evaluationCorrelationId \<leftarrow> readString input (js ''evaluationCorrelationId'');
     sbomSourceClassification \<leftarrow> readString input (js ''sbomSourceClassification'');
     componentIdentityProvenance \<leftarrow> readString input (js ''componentIdentityProvenance'');
     observedVersionProvenance \<leftarrow> readString input (js ''observedVersionProvenance'');
     rangeEvidenceProvenance \<leftarrow> readString input (js ''rangeEvidenceProvenance'');
     affectedRanges \<leftarrow> readDataProperty input (js ''affectedRanges'');
     rangeParse \<leftarrow> parseRanges rt affectedRanges;
     explicitAffectedVersions \<leftarrow> readDataProperty input (js ''explicitAffectedVersions'');
     explicitParse \<leftarrow> parseExplicitVersions rt explicitAffectedVersions;
     Some (if requestSchemaVersion \<noteq> Some FIRST_ECOSYSTEM_REQUEST_SCHEMA_VERSION \<or>
              ecosystemValue = None \<or>
              (namespaceValue \<noteq> Null \<and> \<not> isString namespaceValue) \<or>
              name = None \<or> observed = None \<or> rawObservedVersion = None \<or>
              advisoryIdentity = None \<or> advisorySourceClassification = None \<or>
              advisoryEvidenceFingerprint = None \<or> advisoryEvidenceOrigin = None \<or>
              advisoryRevisionDisposition = None \<or> rangeTypeValue = None \<or>
              evaluationCorrelationId = None \<or> \<not> UUID_V4 (the evaluationCorrelationId) \<or>
              sbomSourceClassification = None \<or> componentIdentityProvenance = None \<or>
              observedVersionProvenance = None \<or> rangeEvidenceProvenance = None \<or>
              rangeParse = ListInvalid \<or> explicitParse = ListInvalid \<or>
              evaluatorPolicyId = None \<or> evaluatorVersion = None
           then None
           else Some
             \<lparr>rq_requestSchemaVersion = the requestSchemaVersion,
              rq_evaluatorPolicyId = the evaluatorPolicyId,
              rq_evaluatorVersion = the evaluatorVersion,
              rq_ecosystem = the ecosystemValue,
              rq_namespace = (case namespaceValue of Str s \<Rightarrow> Some s | _ \<Rightarrow> None),
              rq_name = the name,
              rq_observedIdentity = the observed,
              rq_rawObservedVersion = the rawObservedVersion,
              rq_advisoryIdentity = the advisoryIdentity,
              rq_advisorySourceClassification = the advisorySourceClassification,
              rq_advisoryEvidenceFingerprint = the advisoryEvidenceFingerprint,
              rq_advisoryEvidenceOrigin = the advisoryEvidenceOrigin,
              rq_advisoryRevisionDisposition = the advisoryRevisionDisposition,
              rq_rangeType = the rangeTypeValue,
              rq_evaluationCorrelationId = the evaluationCorrelationId,
              rq_sbomSourceClassification = the sbomSourceClassification,
              rq_componentIdentityProvenance = the componentIdentityProvenance,
              rq_observedVersionProvenance = the observedVersionProvenance,
              rq_rangeEvidenceProvenance = the rangeEvidenceProvenance,
              rq_ranges = rangeParse,
              rq_explicit = explicitParse\<rparr>)
   }"

subsection \<open>The evaluation\<close>

datatype evaluationAssessment = RequestRejected | Evidence matchEvaluationEvidence

definition FIRST_ECOSYSTEM_FINGERPRINT_UTF8_BYTES :: nat where
  [catalog_defs]: "FIRST_ECOSYSTEM_FINGERPRINT_UTF8_BYTES = 64"

definition structuralToken :: "evaluationRequest \<Rightarrow> jstr option" where
  "structuralToken r =
     (case rq_ranges r of
        ListCapacity token \<Rightarrow> Some token
      | _ \<Rightarrow> (case rq_explicit r of ListCapacity token \<Rightarrow> Some token | _ \<Rightarrow> None))"

definition requestRanges :: "evaluationRequest \<Rightarrow> advisoryRange list" where
  "requestRanges r = (case rq_ranges r of ListOk items \<Rightarrow> items | _ \<Rightarrow> [])"

definition requestExplicit :: "evaluationRequest \<Rightarrow> jstr list" where
  "requestExplicit r = (case rq_explicit r of ListOk items \<Rightarrow> items | _ \<Rightarrow> [])"

definition canonicalRanges :: "evaluationRequest \<Rightarrow> jstr" where
  "canonicalRanges r =
     (case structuralToken r of
        Some token \<Rightarrow> token
      | None \<Rightarrow> rangeCanonical (requestRanges r) (requestExplicit r))"

definition namespaceOrEmpty :: "evaluationRequest \<Rightarrow> jstr" where
  "namespaceOrEmpty r = (case rq_namespace r of None \<Rightarrow> [] | Some ns \<Rightarrow> ns)"

definition budgetFields :: "evaluationRequest \<Rightarrow> jstr list" where
  "budgetFields r =
     [rq_requestSchemaVersion r, rq_evaluatorPolicyId r, rq_evaluatorVersion r, rq_ecosystem r,
      namespaceOrEmpty r, rq_name r, rq_observedIdentity r, rq_rawObservedVersion r,
      rq_advisoryIdentity r, rq_advisorySourceClassification r, rq_advisoryEvidenceFingerprint r,
      rq_advisoryEvidenceOrigin r, rq_advisoryRevisionDisposition r, rq_rangeType r,
      rq_evaluationCorrelationId r, rq_sbomSourceClassification r, rq_componentIdentityProvenance r,
      rq_observedVersionProvenance r, rq_rangeEvidenceProvenance r, canonicalRanges r]"

fun charactersOverBudget :: "jstr list \<Rightarrow> nat \<Rightarrow> bool" where
  "charactersOverBudget [] characters = False"
| "charactersOverBudget (text # texts) characters =
     (if exceedsInputBudget text then True
      else if characters + length text > FIRST_ECOSYSTEM_EVALUATION_INPUT_MAX_UTF8_BYTES then True
      else charactersOverBudget texts (characters + length text))"

definition overBudget :: "nodeRuntime \<Rightarrow> evaluationRequest \<Rightarrow> bool" where
  "overBudget rt r \<longleftrightarrow>
     vb_overInput (versionBinding (rt_sha256 rt) (rq_rawObservedVersion r)) \<or>
     ab_overInput (advisoryBinding (rt_sha256 rt) (rq_advisoryIdentity r)) \<or>
     charactersOverBudget (budgetFields r) (length (budgetFields r) - 1) \<or>
     utf8ByteLength (join_with 124 (budgetFields r)) >
       FIRST_ECOSYSTEM_EVALUATION_INPUT_MAX_UTF8_BYTES"

definition syntheticProvenance :: "evaluationRequest \<Rightarrow> bool" where
  "syntheticProvenance r \<longleftrightarrow>
     rq_sbomSourceClassification r = js ''synthetic'' \<and>
     rq_componentIdentityProvenance r = js ''synthetic'' \<and>
     rq_observedVersionProvenance r = js ''synthetic'' \<and>
     rq_rangeEvidenceProvenance r = js ''synthetic''"

definition trustedSynthetic :: "evaluationRequest \<Rightarrow> bool" where
  "trustedSynthetic r \<longleftrightarrow>
     rq_advisoryEvidenceOrigin r = js ''synthetic'' \<and>
     closedAdvisorySource (rq_advisorySourceClassification r) = SyntheticFixture \<and>
     syntheticProvenance r"

definition baseInput :: "nodeRuntime \<Rightarrow> evaluationRequest \<Rightarrow> evidenceInput" where
  "baseInput rt r =
     (let sha256 = rt_sha256 rt;
          version = versionBinding sha256 (rq_rawObservedVersion r);
          advisory = advisoryBinding sha256 (rq_advisoryIdentity r)
      in \<lparr>ei_evaluationId = rq_evaluationCorrelationId r,
          ei_ecosystem = rq_ecosystem r,
          ei_nameFingerprint = digestBounded sha256 (rq_name r),
          ei_namespaceFingerprint = digestBounded sha256 (namespaceOrEmpty r),
          ei_observedIdentityFingerprint = digestBounded sha256 (rq_observedIdentity r),
          ei_sbomProvenanceFingerprint = digestBounded sha256 (rq_sbomSourceClassification r),
          ei_componentProvenanceFingerprint = digestBounded sha256 (rq_componentIdentityProvenance r),
          ei_observedVersionProvenanceFingerprint =
            digestBounded sha256 (rq_observedVersionProvenance r),
          ei_rangeProvenanceFingerprint = digestBounded sha256 (rq_rangeEvidenceProvenance r),
          ei_advisoryOriginFingerprint = digestBounded sha256 (rq_advisoryEvidenceOrigin r),
          ei_packageIdentityKey = None,
          ei_rawObservedVersion = vb_rawObservedVersion version,
          ei_rawObservedVersionSha256 = vb_rawObservedVersionSha256 version,
          ei_retention = vb_retention version,
          ei_versionFingerprint = vb_versionFingerprint version,
          ei_parsedVersionClassification = js ''not_classified'',
          ei_advisoryIdentity = ab_advisoryIdentity advisory,
          ei_advisoryFingerprint = ab_advisoryFingerprint advisory,
          ei_advisorySourceClassification = closedAdvisorySource (rq_advisorySourceClassification r),
          ei_advisoryEvidenceFingerprint =
            (if SHA256_HEX (rq_advisoryEvidenceFingerprint r) then rq_advisoryEvidenceFingerprint r
             else digestBounded sha256 (rq_advisoryEvidenceFingerprint r)),
          ei_advisoryEvidenceOrigin =
            (if trustedSynthetic r then SyntheticOrigin else UntrustedNotRecorded),
          ei_rangeCanonical = canonicalRanges r,
          ei_rangeFingerprintMaterial =
            (if overBudget rt r then js ''sha256:'' @ digestBounded sha256 (canonicalRanges r)
             else canonicalRanges r),
          ei_outcome = None, ei_explanationCodes = [], ei_lifecyclePath = []\<rparr>)"

definition earlyPath :: "jstr list" where
  "earlyPath = [js ''received'', js ''unknown'', js ''evidence_constructed'']"

definition identifiedPath :: "jstr list" where
  "identifiedPath =
     [js ''received'', js ''identity_validated'', js ''unknown'', js ''evidence_constructed'']"

text \<open>The early returns before and after the identity is known.\<close>

definition earlyUnknown ::
  "nodeRuntime \<Rightarrow> evaluationRequest \<Rightarrow> explanationCode \<Rightarrow> evaluationAssessment" where
  "earlyUnknown rt r code =
     Evidence (evidence (rt_sha256 rt)
       ((baseInput rt r)\<lparr>ei_explanationCodes := [code], ei_lifecyclePath := earlyPath\<rparr>))"

definition identifiedUnknown ::
  "nodeRuntime \<Rightarrow> evaluationRequest \<Rightarrow> jstr \<Rightarrow> explanationCode \<Rightarrow> evaluationAssessment" where
  "identifiedUnknown rt r identityKey code =
     Evidence (evidence (rt_sha256 rt)
       ((baseInput rt r)\<lparr>ei_packageIdentityKey := Some identityKey, ei_explanationCodes := [code],
          ei_lifecyclePath := identifiedPath\<rparr>))"

fun versionClassText :: "observedVersion \<Rightarrow> jstr" where
  "versionClassText (ValidStrictSemver _) = js ''valid_strict_semver''"
| "versionClassText (NotStrictSemver Absent _) = js ''absent''"
| "versionClassText (NotStrictSemver Malformed _) = js ''malformed''"
| "versionClassText (NotStrictSemver Unsupported _) = js ''unsupported''"
| "versionClassText (NotStrictSemver CapacityExceeded _) = js ''capacity_exceeded''"

fun versionCodes :: "observedVersion \<Rightarrow> explanationCode list" where
  "versionCodes (ValidStrictSemver _) = []"
| "versionCodes (NotStrictSemver Unsupported _) = [unknown_unsupported_version_syntax]"
| "versionCodes (NotStrictSemver CapacityExceeded _) = [unknown_capacity_exceeded]"
| "versionCodes (NotStrictSemver _ _) = [unknown_invalid_observed_version]"

fun rangeCode :: "rangeStructure \<Rightarrow> explanationCode option" where
  "rangeCode WellFormed = None"
| "rangeCode UnsupportedRangeType = Some unknown_unsupported_range_type"
| "rangeCode UnsupportedEvent = Some unknown_unsupported_event"
| "rangeCode Contradictory = Some unknown_contradictory_events"
| "rangeCode RangeCapacityExceeded = Some unknown_capacity_exceeded"
| "rangeCode EmptyEvidence = Some unknown_incomplete_evidence"
| "rangeCode MalformedRange = Some unknown_invalid_range"

definition isStrict :: "observedVersion \<Rightarrow> bool" where
  [eval_defs]: "isStrict version = (case version of ValidStrictSemver _ \<Rightarrow> True | _ \<Rightarrow> False)"

text \<open>From the version on: classification, range structure, and the decision when both are clean.\<close>

definition assessIdentified ::
  "nodeRuntime \<Rightarrow> evaluationRequest \<Rightarrow> jstr \<Rightarrow> evaluationAssessment" where
  "assessIdentified rt r identityKey =
     (if structuralToken r \<noteq> None then identifiedUnknown rt r identityKey unknown_capacity_exceeded
      else
        (case rememberObservedNpmVersion (rq_rawObservedVersion r) Map.empty of
           (version, cache) \<Rightarrow>
         (case classifyAffectedRangeStructure (rq_rangeType r) (requestRanges r) (requestExplicit r)
                 (Some cache) of
            (rangeClass, cache') \<Rightarrow>
              (let problems = versionCodes version @
                     (case rangeCode rangeClass of None \<Rightarrow> [] | Some code \<Rightarrow> [code]);
                   decision = (if length problems = 0 \<and> isStrict version
                     then fst (decideNpmAffectedness version (requestRanges r) (requestExplicit r)
                                (the cache'))
                     else \<lparr>outcome = UnknownOutcome, codes = []\<rparr>);
                   path = [js ''received'', js ''identity_validated''] @
                     (if isStrict version then
                        [js ''version_validated'', js ''advisory_evidence_validated''] @
                        (if rangeClass = WellFormed then [js ''range_validated'', js ''evaluation_ready'']
                         else [])
                      else [])
               in Evidence (evidence (rt_sha256 rt)
                    ((baseInput rt r)\<lparr>ei_packageIdentityKey := Some identityKey,
                       ei_parsedVersionClassification := versionClassText version,
                       ei_outcome := Some (outcome decision),
                       ei_explanationCodes := problems @ codes decision,
                       ei_lifecyclePath :=
                         path @ [outcomeText (outcome decision), js ''evidence_constructed'']\<rparr>))))))"

definition requestIdentity :: "evaluationRequest \<Rightarrow> npmIdentityClassification \<times> jstr option" where
  "requestIdentity r =
     (if take 4 (rq_observedIdentity r) = js ''pkg:''
      then classifyNpmPackageIdentityFromPurl (rq_observedIdentity r)
      else (classifyNpmPackageIdentityFromParts
              \<lparr>ecosystem = rq_ecosystem r, observedNamespace = rq_namespace r,
               observedName = rq_name r, observedIdentity = rq_observedIdentity r\<rparr>, None))"

definition assessIdentity :: "nodeRuntime \<Rightarrow> evaluationRequest \<Rightarrow> evaluationAssessment" where
  "assessIdentity rt r =
     (case requestIdentity r of
        (ValidIdentity identity, purlVersion) \<Rightarrow>
          if id_namespace identity \<noteq> rq_namespace r \<or> id_name identity \<noteq> rq_name r \<or>
             SELECTED_FIRST_ECOSYSTEM \<noteq> rq_ecosystem r
          then earlyUnknown rt r unknown_invalid_package_identity
          else if purlVersion \<noteq> None \<and> the purlVersion \<noteq> rq_rawObservedVersion r
          then identifiedUnknown rt r (id_identityKey identity) unknown_incomplete_evidence
          else assessIdentified rt r (id_identityKey identity)
      | (NotIdentity IdCapacityExceeded _ _, _) \<Rightarrow> earlyUnknown rt r unknown_capacity_exceeded
      | (NotIdentity _ _ _, _) \<Rightarrow> earlyUnknown rt r unknown_invalid_package_identity)"

text \<open>The guards on budget, provenance, advisory and policy, in the order of the code.\<close>

definition assessRequest :: "nodeRuntime \<Rightarrow> evaluationRequest \<Rightarrow> evaluationAssessment" where
  "assessRequest rt r =
     (let advisorySource = closedAdvisorySource (rq_advisorySourceClassification r)
      in if overBudget rt r then earlyUnknown rt r unknown_capacity_exceeded
      else if \<not> syntheticProvenance r then earlyUnknown rt r unknown_incomplete_evidence
      else if advisorySource = CisaKev then earlyUnknown rt r unknown_kev_not_affectedness_authority
      else if rq_advisoryEvidenceOrigin r \<noteq> js ''synthetic'' \<or> advisorySource \<noteq> SyntheticFixture \<or>
              \<not> SHA256_HEX (rq_advisoryEvidenceFingerprint r) \<or>
              utf8ByteLength (rq_advisoryEvidenceFingerprint r) \<noteq> FIRST_ECOSYSTEM_FINGERPRINT_UTF8_BYTES
        then earlyUnknown rt r unknown_untrusted_advisory_evidence
      else if utf8ByteLength (rq_advisoryIdentity r) > FIRST_ECOSYSTEM_ADVISORY_IDENTITY_MAX_UTF8_BYTES
        then earlyUnknown rt r unknown_capacity_exceeded
      else if rq_advisoryRevisionDisposition r = js ''withdrawn''
        then earlyUnknown rt r unknown_withdrawn_advisory
      else if rq_advisoryRevisionDisposition r \<noteq> js ''active_synthetic'' then RequestRejected
      else if rq_evaluatorPolicyId r \<noteq> FIRST_ECOSYSTEM_MATCHING_POLICY_ID
        then earlyUnknown rt r unknown_policy_mismatch
      else if rq_evaluatorVersion r \<noteq> FIRST_ECOSYSTEM_EVALUATOR_VERSION
        then earlyUnknown rt r unknown_evaluator_unavailable
      else if rq_ecosystem r \<noteq> SELECTED_FIRST_ECOSYSTEM
        then earlyUnknown rt r unknown_unsupported_ecosystem
      else assessIdentity rt r)"

definition assessUntrustedEvaluationRequest ::
  "nodeRuntime \<Rightarrow> jsval \<Rightarrow> evaluationAssessment option" where
  "assessUntrustedEvaluationRequest rt input =
     (if \<not> isPlainRecord rt input then Some RequestRejected
      else let keys = ownPropertyNames (ownProperties input)
        in if length keys \<noteq> length REQUEST_KEYS \<or> list_ex (\<lambda>key. key \<notin> set REQUEST_KEYS) keys \<or>
              hasSymbols (ownProperties input)
        then Some RequestRejected
        else map_option (\<lambda>r. case r of None \<Rightarrow> RequestRejected | Some req \<Rightarrow> assessRequest rt req)
               (readRequest rt (ownProperties input)))"

definition assessFirstEcosystemEvaluation :: "nodeRuntime \<Rightarrow> jsval \<Rightarrow> evaluationAssessment" where
  "assessFirstEcosystemEvaluation rt input =
     (case assessUntrustedEvaluationRequest rt input of
        None \<Rightarrow> RequestRejected
      | Some assessment \<Rightarrow> assessment)"

record publicEvaluation =
  pe_outcome :: affectedOutcome
  pe_explanationCodes :: "explanationCode list"
  pe_replayFingerprint :: jstr

definition publicEvaluationRecord :: "matchEvaluationEvidence \<Rightarrow> publicEvaluation" where
  "publicEvaluationRecord result =
     \<lparr>pe_outcome = me_outcome result, pe_explanationCodes = me_explanationCodes result,
      pe_replayFingerprint = me_replayFingerprint result\<rparr>"

subsection \<open>The version cache is transparent\<close>

text \<open>The structural classification does not depend on the version cache it is given.\<close>

lemma classifyRangeVersion_fst:
  "coherentOpt c \<Longrightarrow> fst (classifyRangeVersion s c) = classifyObservedNpmVersion (Some s)"
  using classifyRangeVersion_coherent(1) [of c s] by (metis prod.collapse)

lemma eventVersionClass_coherent:
  assumes "coherentOpt c" "coherentOpt d"
  shows "fst (eventVersionClass n s c) = fst (eventVersionClass n s d)"
    and "coherentOpt (snd (eventVersionClass n s c))"
  using assms classifyRangeVersion_fst [of c s] classifyRangeVersion_fst [of d s]
    classifyRangeVersion_coherent(2) [of c s]
  by (auto simp: eventVersionClass_def split: prod.splits)

lemma classifyEvents_coherent:
  assumes "coherentOpt c" "coherentOpt d"
  shows "fst (classifyEvents es counts seen c) = fst (classifyEvents es counts seen d) \<and>
    coherentOpt (snd (classifyEvents es counts seen c))"
  using assms
proof (induction es arbitrary: counts seen c d)
  case Nil
  then show ?case by simp
next
  case (Cons e es)
  show ?case
  proof (cases "\<exists>k s. e = [(k, s)]")
    case False
    then show ?thesis
      using Cons.prems by (cases e; cases "tl e") (auto split: prod.splits)
  next
    case True
    then obtain k s where e: "e = [(k, s)]" by blast
    obtain x c' where c': "eventVersionClass k s c = (x, c')" by (cases "eventVersionClass k s c")
    obtain y d' where d': "eventVersionClass k s d = (y, d')" by (cases "eventVersionClass k s d")
    have "y = x" "coherentOpt c'" "coherentOpt d'"
      using eventVersionClass_coherent [OF Cons.prems, of k s] c' d'
        eventVersionClass_coherent [OF Cons.prems(2,1), of k s] by simp_all
    with Cons.prems show ?thesis
      using e c' d' Cons.IH [of c' d'] by (cases x) (simp_all add: Let_def)
  qed
qed

lemma classifyRanges_coherent:
  assumes "coherentOpt c" "coherentOpt d"
  shows "fst (classifyRanges ranges n c) = fst (classifyRanges ranges n d) \<and>
    coherentOpt (snd (classifyRanges ranges n c))"
  using assms
proof (induction ranges arbitrary: n c d)
  case Nil
  then show ?case by simp
next
  case (Cons rng ranges)
  obtain x c' where c': "classifyEvents (rangeEvents rng) zeroCounts [] c = (x, c')"
    by (cases "classifyEvents (rangeEvents rng) zeroCounts [] c")
  obtain y d' where d': "classifyEvents (rangeEvents rng) zeroCounts [] d = (y, d')"
    by (cases "classifyEvents (rangeEvents rng) zeroCounts [] d")
  have "y = x" "coherentOpt c'" "coherentOpt d'"
    using classifyEvents_coherent [OF Cons.prems, of "rangeEvents rng" zeroCounts "[]"] c' d'
      classifyEvents_coherent [OF Cons.prems(2,1), of "rangeEvents rng" zeroCounts "[]"] by simp_all
  with Cons.prems show ?case
    using c' d' Cons.IH [of c' d'] by (cases x) (simp_all add: Let_def)
qed

lemma classifyExplicit_coherent:
  assumes "coherentOpt c" "coherentOpt d"
  shows "fst (classifyExplicitVersions vs seen c) = fst (classifyExplicitVersions vs seen d) \<and>
    coherentOpt (snd (classifyExplicitVersions vs seen c))"
  using assms
proof (induction vs arbitrary: seen c d)
  case Nil
  then show ?case by simp
next
  case (Cons v vs)
  obtain x c' where c': "classifyRangeVersion v c = (x, c')" by (cases "classifyRangeVersion v c")
  obtain y d' where d': "classifyRangeVersion v d = (y, d')" by (cases "classifyRangeVersion v d")
  have "y = x" "coherentOpt c'" "coherentOpt d'"
    using classifyRangeVersion_coherent [OF Cons.prems(1) c']
      classifyRangeVersion_coherent [OF Cons.prems(2) d'] by simp_all
  with Cons.prems show ?case
    using c' d' Cons.IH [of c' d']
    by (auto split: observedVersion.splits versionClass.splits)
qed

lemma classifyStructure_coherent:
  assumes "coherentOpt c" "coherentOpt d"
  shows "fst (classifyAffectedRangeStructure t ranges vs c) =
      fst (classifyAffectedRangeStructure t ranges vs d)"
    and "coherentOpt (snd (classifyAffectedRangeStructure t ranges vs c))"
proof -
  obtain x c' where c': "classifyRanges ranges 0 c = (x, c')" by (cases "classifyRanges ranges 0 c")
  obtain y d' where d': "classifyRanges ranges 0 d = (y, d')" by (cases "classifyRanges ranges 0 d")
  have "y = x" "coherentOpt c'" "coherentOpt d'"
    using classifyRanges_coherent [OF assms, of ranges 0] c' d'
      classifyRanges_coherent [OF assms(2,1), of ranges 0] by simp_all
  with assms c' d' classifyExplicit_coherent [of c' d' vs "[]"]
  show "fst (classifyAffectedRangeStructure t ranges vs c) =
      fst (classifyAffectedRangeStructure t ranges vs d)"
    "coherentOpt (snd (classifyAffectedRangeStructure t ranges vs c))"
    by (cases x; simp add: classifyAffectedRangeStructure_def)+
qed

lemma eventVersionClass_cached: "snd (eventVersionClass n s c) = None \<longleftrightarrow> c = None"
  by (auto simp: eventVersionClass_def classifyRangeVersion_def split: option.splits prod.splits)

lemma classifyEvents_cached: "snd (classifyEvents es counts seen c) = None \<longleftrightarrow> c = None"
proof (induction es counts seen c rule: classifyEvents.induct)
  case (2 e es counts seen c)
  show ?case
  proof (cases "\<exists>k s. e = [(k, s)]")
    case False
    then show ?thesis by (cases e; cases "tl e") (auto split: prod.splits)
  next
    case True
    then obtain k s where e: "e = [(k, s)]" by blast
    obtain x c' where c': "eventVersionClass k s c = (x, c')" by (cases "eventVersionClass k s c")
    then have "c' = None \<longleftrightarrow> c = None" using eventVersionClass_cached [of k s c] by simp
    then show ?thesis using 2 e c' by (cases x) (simp_all add: Let_def)
  qed
qed simp

lemma classifyRanges_cached: "snd (classifyRanges ranges n c) = None \<longleftrightarrow> c = None"
proof (induction ranges arbitrary: n c)
  case (Cons rng ranges)
  obtain x c' where c': "classifyEvents (rangeEvents rng) zeroCounts [] c = (x, c')"
    by (cases "classifyEvents (rangeEvents rng) zeroCounts [] c")
  then have "c' = None \<longleftrightarrow> c = None"
    using classifyEvents_cached [of "rangeEvents rng" zeroCounts "[]" c] by simp
  then show ?case using Cons c' by (cases x) (simp_all add: Let_def)
qed simp

lemma classifyExplicit_cached: "snd (classifyExplicitVersions vs seen c) = None \<longleftrightarrow> c = None"
proof (induction vs arbitrary: seen c)
  case (Cons v vs)
  have "snd (classifyRangeVersion v c) = None \<longleftrightarrow> c = None"
    by (auto simp: classifyRangeVersion_def split: option.splits prod.splits)
  then show ?case
    using Cons by (auto split: prod.splits observedVersion.splits versionClass.splits)
qed simp

lemma classifyStructure_cached:
  "snd (classifyAffectedRangeStructure t ranges vs c) = None \<longleftrightarrow> c = None"
  using classifyRanges_cached [of ranges 0 c] classifyExplicit_cached
  by (auto simp: classifyAffectedRangeStructure_def split: prod.splits option.splits)

subsection \<open>Evidence is consistent\<close>

text \<open>A path of the life-cycle graph from its start to the published outcome.\<close>

fun allowedWalk :: "jstr list \<Rightarrow> bool" where
  "allowedWalk (a # b # rest) \<longleftrightarrow> evaluationTransitionAllowed a b \<and> allowedWalk (b # rest)"
| "allowedWalk _ \<longleftrightarrow> True"

definition lifecycleRun :: "jstr list \<Rightarrow> affectedOutcome \<Rightarrow> bool" where
  "lifecycleRun path out \<longleftrightarrow> allowedWalk path \<and> take 1 path = [js ''received''] \<and>
     drop (length path - 2) path = [outcomeText out, js ''evidence_constructed'']"

lemma lifecycle_runs:
  "lifecycleRun earlyPath UnknownOutcome"
  "lifecycleRun identifiedPath UnknownOutcome"
  "lifecycleRun [js ''received'', js ''identity_validated'', js ''version_validated'',
     js ''advisory_evidence_validated'', js ''unknown'', js ''evidence_constructed''] UnknownOutcome"
  "lifecycleRun [js ''received'', js ''identity_validated'', js ''version_validated'',
     js ''advisory_evidence_validated'', js ''range_validated'', js ''evaluation_ready'',
     outcomeText out, js ''evidence_constructed''] out"
  by (simp_all add: lifecycleRun_def earlyPath_def identifiedPath_def evaluationTransitionAllowed_def
      EDGE_SET_def EVALUATION_LIFECYCLE_EDGES_def js_def) (cases out; simp add: js_def)

lemma unknown_outcomes [simp]:
  "explanationOutcome unknown_unsupported_ecosystem = UnknownOutcome"
  "explanationOutcome unknown_invalid_package_identity = UnknownOutcome"
  "explanationOutcome unknown_invalid_observed_version = UnknownOutcome"
  "explanationOutcome unknown_unsupported_version_syntax = UnknownOutcome"
  "explanationOutcome unknown_invalid_range = UnknownOutcome"
  "explanationOutcome unknown_unsupported_range_type = UnknownOutcome"
  "explanationOutcome unknown_unsupported_event = UnknownOutcome"
  "explanationOutcome unknown_contradictory_events = UnknownOutcome"
  "explanationOutcome unknown_incomplete_evidence = UnknownOutcome"
  "explanationOutcome unknown_untrusted_advisory_evidence = UnknownOutcome"
  "explanationOutcome unknown_kev_not_affectedness_authority = UnknownOutcome"
  "explanationOutcome unknown_capacity_exceeded = UnknownOutcome"
  "explanationOutcome unknown_policy_mismatch = UnknownOutcome"
  "explanationOutcome unknown_evaluator_unavailable = UnknownOutcome"
  "explanationOutcome unknown_withdrawn_advisory = UnknownOutcome"
  by (simp_all add: explanationOutcome_def AFFECTED_EXPLANATIONS_def UNAFFECTED_EXPLANATIONS_def)

lemma problem_outcomes:
  "c \<in> set (versionCodes version) \<Longrightarrow> explanationOutcome c = UnknownOutcome"
  "rangeCode rangeClass = Some c \<Longrightarrow> explanationOutcome c = UnknownOutcome"
  by (cases version rule: versionCodes.cases; simp) (cases rangeClass; auto)

lemma versionCodes_Nil_iff: "versionCodes version = [] \<longleftrightarrow> isStrict version"
  by (cases version rule: versionCodes.cases) (simp_all add: isStrict_def)

lemma rangeCode_None_iff: "rangeCode rangeClass = None \<longleftrightarrow> rangeClass = WellFormed"
  by (cases rangeClass) simp_all

lemma versionCodes_length: "length (versionCodes version) \<le> 1"
  by (cases version rule: versionCodes.cases) simp_all

text \<open>What an assessment publishes, in one predicate with its introduction rule.\<close>

definition consistent :: "evaluationAssessment \<Rightarrow> bool" where
  "consistent a \<longleftrightarrow> (case a of RequestRejected \<Rightarrow> True
     | Evidence e \<Rightarrow> publishedWell (me_outcome e) (me_explanationCodes e) \<and>
                     lifecycleRun (me_lifecyclePath e) (me_outcome e))"

lemma consistentI:
  assumes "ei_outcome input = Some out \<or> (ei_outcome input = None \<and> out = UnknownOutcome)"
    and "codesAgree out (ei_explanationCodes input)"
    and "card (set (ei_explanationCodes input)) \<le> FIRST_ECOSYSTEM_MAX_EXPLANATION_CODES"
    and "lifecycleRun (ei_lifecyclePath input) out"
  shows "consistent (Evidence (evidence sha256 input))"
  using publish_well [of input] publish_supplied [OF assms(1-3)] assms(4)
  by (simp add: consistent_def)

lemma baseInput_outcome [simp]: "ei_outcome (baseInput rt r) = None"
  by (simp add: baseInput_def Let_def)

lemma early_consistent:
  "explanationOutcome code = UnknownOutcome \<Longrightarrow> consistent (earlyUnknown rt r code)"
  "explanationOutcome code = UnknownOutcome \<Longrightarrow> consistent (identifiedUnknown rt r key code)"
  unfolding earlyUnknown_def identifiedUnknown_def
  by (rule consistentI [of _ UnknownOutcome];
      simp add: codesAgree_def catalog_defs lifecycle_runs)+

lemma isStrict_iff: "isStrict x \<longleftrightarrow> (\<exists>v. strictSemverCore x = Some v)"
  by (auto simp: isStrict_def strictSemverCore_def split: observedVersion.splits)

text \<open>
  The two ways past the identity: problems with the version or the ranges, or the decision on a strict
  version and well-formed ranges.
\<close>

lemma assessIdentified_cases:
  assumes "structuralToken r = None"
  obtains (problems) input where
      "assessIdentified rt r key = Evidence (evidence (rt_sha256 rt) input)"
      "ei_packageIdentityKey input = Some key" "ei_outcome input = Some UnknownOutcome"
      "codesAgree UnknownOutcome (ei_explanationCodes input)"
      "card (set (ei_explanationCodes input)) \<le> FIRST_ECOSYSTEM_MAX_EXPLANATION_CODES"
      "lifecycleRun (ei_lifecyclePath input) UnknownOutcome"
      "textCore (rq_rawObservedVersion r) = None \<or>
       fst (classifyAffectedRangeStructure (rq_rangeType r) (requestRanges r) (requestExplicit r) None)
         \<noteq> WellFormed"
  | (decided) input d v cache where
      "assessIdentified rt r key = Evidence (evidence (rt_sha256 rt) input)"
      "ei_packageIdentityKey input = Some key" "ei_outcome input = Some (outcome d)"
      "codesAgree (outcome d) (ei_explanationCodes input)"
      "card (set (ei_explanationCodes input)) \<le> FIRST_ECOSYSTEM_MAX_EXPLANATION_CODES"
      "lifecycleRun (ei_lifecyclePath input) (outcome d)"
      "textCore (rq_rawObservedVersion r) = Some v" "coherent cache"
      "fst (classifyAffectedRangeStructure (rq_rangeType r) (requestRanges r) (requestExplicit r) None)
         = WellFormed"
      "d = fst (decideNpmAffectedness (classifyObservedNpmVersion (Some (rq_rawObservedVersion r)))
             (requestRanges r) (requestExplicit r) cache)"
proof -
  define classify where "classify = classifyAffectedRangeStructure (rq_rangeType r)
    (requestRanges r) (requestExplicit r)"
  obtain version cache where v: "rememberObservedNpmVersion (rq_rawObservedVersion r) Map.empty =
      (version, cache)" by (cases "rememberObservedNpmVersion (rq_rawObservedVersion r) Map.empty")
  note coh = remember_coherent [OF coherent_empty v]
  obtain rangeClass cache' where rc: "classify (Some cache) = (rangeClass, cache')"
    by (cases "classify (Some cache)")
  have cls: "fst (classify None) = rangeClass" and coh': "coherent (the cache')"
    using classifyStructure_coherent [of "Some cache" None "rq_rangeType r" "requestRanges r"
        "requestExplicit r"] classifyStructure_cached [of "rq_rangeType r" "requestRanges r"
        "requestExplicit r" "Some cache"] coh(2) rc
    by (auto simp: classify_def coherentOpt_def)
  have core: "textCore (rq_rawObservedVersion r) = strictSemverCore version"
    by (simp add: textCore_def coh(1))
  let ?d = "fst (decideNpmAffectedness version (requestRanges r) (requestExplicit r) (the cache'))"
  let ?p = "versionCodes version @ (case rangeCode rangeClass of None \<Rightarrow> [] | Some code \<Rightarrow> [code])"
  have clean_iff: "?p = [] \<longleftrightarrow> isStrict version \<and> rangeClass = WellFormed"
    using versionCodes_Nil_iff rangeCode_None_iff [of rangeClass] by (auto split: option.splits)
  let ?input = "\<lambda>out cs path. (baseInput rt r)\<lparr>ei_packageIdentityKey := Some key,
    ei_parsedVersionClassification := versionClassText version, ei_outcome := Some out,
    ei_explanationCodes := cs,
    ei_lifecyclePath := [js ''received'', js ''identity_validated''] @ path @
      [outcomeText out, js ''evidence_constructed'']\<rparr>"
  show thesis
  proof (cases "?p = []")
    case clean: True
    then obtain core' where strict: "strictSemverCore version = Some core'" "isStrict version"
      "rangeClass = WellFormed" using clean_iff isStrict_iff by blast
    let ?path = "[js ''version_validated'', js ''advisory_evidence_validated'',
      js ''range_validated'', js ''evaluation_ready'']"
    have "assessIdentified rt r key =
        Evidence (evidence (rt_sha256 rt) (?input (outcome ?d) (codes ?d) ?path))"
      using assms v rc clean strict by (simp add: assessIdentified_def classify_def Let_def)
    then show thesis
      using decided [of "?input (outcome ?d) (codes ?d) ?path" ?d core' "the cache'"] strict core coh'
        cls decide_codes_agree [of version "requestRanges r" "requestExplicit r" "the cache'"]
        decide_codes_few [of version "requestRanges r" "requestExplicit r" "the cache'"]
      by (simp add: codesAgree_def catalog_defs lifecycle_runs coh(1) classify_def)
  next
    case False
    define ps where "ps = ?p"
    define path where "path = (if isStrict version
      then [js ''version_validated'', js ''advisory_evidence_validated''] else [])"
    have "assessIdentified rt r key =
        Evidence (evidence (rt_sha256 rt) (?input UnknownOutcome ps path))"
      using assms v rc False clean_iff
      by (auto simp: assessIdentified_def classify_def Let_def ps_def path_def)
    moreover have "codesAgree UnknownOutcome ps"
      using False problem_outcomes
      by (auto simp: codesAgree_def list_all_iff ps_def split: option.splits)
    moreover have "card (set ps) \<le> FIRST_ECOSYSTEM_MAX_EXPLANATION_CODES"
      using card_length [of ps] versionCodes_length [of version]
      by (auto simp: catalog_defs ps_def split: option.splits)
    moreover have "lifecycleRun ([js ''received'', js ''identity_validated''] @ path @
        [outcomeText UnknownOutcome, js ''evidence_constructed'']) UnknownOutcome"
      using lifecycle_runs(2,3) by (simp add: identifiedPath_def path_def)
    moreover have "textCore (rq_rawObservedVersion r) = None \<or> fst (classify None) \<noteq> WellFormed"
      using False clean_iff cls core isStrict_iff by (cases "strictSemverCore version") auto
    ultimately show thesis
      by (intro problems [of "?input UnknownOutcome ps path"]) (simp_all add: classify_def)
  qed
qed

lemma assessIdentified_consistent: "consistent (assessIdentified rt r key)"
proof (cases "structuralToken r = None")
  case False
  then show ?thesis by (simp add: assessIdentified_def early_consistent)
next
  case True
  then show ?thesis
  proof (cases rule: assessIdentified_cases [of r rt key])
    case (problems input)
    then show ?thesis using consistentI by simp
  next
    case (decided input d v cache)
    then show ?thesis using consistentI by simp
  qed
qed

lemma assessRequest_consistent: "consistent (assessRequest rt r)"
proof -
  have "consistent (assessIdentity rt r)"
    by (auto simp: assessIdentity_def early_consistent assessIdentified_consistent
        split: prod.splits npmIdentityClassification.splits identityFailure.splits)
  then show ?thesis
    by (simp add: assessRequest_def Let_def early_consistent) (simp add: consistent_def)
qed

text \<open>The request behind an input, when it has one; every other input is rejected.\<close>

definition requestOf :: "nodeRuntime \<Rightarrow> jsval \<Rightarrow> evaluationRequest option" where
  "requestOf rt input =
     (let props = ownProperties input; keys = ownPropertyNames props
      in if isPlainRecord rt input \<and> length keys = length REQUEST_KEYS \<and>
            set keys \<subseteq> set REQUEST_KEYS \<and> \<not> hasSymbols props
         then Option.bind (readRequest rt props) id else None)"

lemma assess_requestOf:
  "assessFirstEcosystemEvaluation rt input =
     (case requestOf rt input of None \<Rightarrow> RequestRejected | Some r \<Rightarrow> assessRequest rt r)"
  by (auto simp: assessFirstEcosystemEvaluation_def assessUntrustedEvaluationRequest_def
      requestOf_def Let_def list_ex_iff subset_iff split: option.splits bind_splits)

text \<open>
  Every evidence record the evaluator returns is consistent: its codes are non-empty, distinct, in
  catalog order, at most eight, and all stand for the published outcome; its path walks the allowed
  edges from \<^verbatim>\<open>received\<close> and ends with that outcome and \<^verbatim>\<open>evidence_constructed\<close>.
\<close>

theorem evidence_consistent:
  assumes "assessFirstEcosystemEvaluation rt input = Evidence e"
  shows "publishedWell (me_outcome e) (me_explanationCodes e) \<and>
    lifecycleRun (me_lifecyclePath e) (me_outcome e)"
proof -
  obtain r where "assessRequest rt r = Evidence e"
    using assms by (auto simp: assess_requestOf split: option.splits)
  with assessRequest_consistent [of rt r] show ?thesis by (simp add: consistent_def)
qed

subsection \<open>The verdict\<close>

text \<open>
  When a verdict is due: the request is in budget, synthetic and trusted, for the active advisory and
  this policy and evaluator; its package identity is valid and agrees with the request; its version is
  strict; its ranges are structurally well formed and none is self-contradictory.
\<close>

definition requestGuards :: "nodeRuntime \<Rightarrow> evaluationRequest \<Rightarrow> bool" where
  "requestGuards rt r \<longleftrightarrow>
     \<not> overBudget rt r \<and> trustedSynthetic r \<and>
     SHA256_HEX (rq_advisoryEvidenceFingerprint r) \<and>
     utf8ByteLength (rq_advisoryIdentity r) \<le> FIRST_ECOSYSTEM_ADVISORY_IDENTITY_MAX_UTF8_BYTES \<and>
     rq_advisoryRevisionDisposition r = js ''active_synthetic'' \<and>
     rq_evaluatorPolicyId r = FIRST_ECOSYSTEM_MATCHING_POLICY_ID \<and>
     rq_evaluatorVersion r = FIRST_ECOSYSTEM_EVALUATOR_VERSION \<and>
     rq_ecosystem r = SELECTED_FIRST_ECOSYSTEM"

definition admitted ::
  "nodeRuntime \<Rightarrow> evaluationRequest \<Rightarrow> npmIdentity \<Rightarrow> strictSemverCore \<Rightarrow> bool" where
  "admitted rt r identity v \<longleftrightarrow>
     requestGuards rt r \<and>
     (\<exists>purlVersion. requestIdentity r = (ValidIdentity identity, purlVersion) \<and>
        (purlVersion = None \<or> purlVersion = Some (rq_rawObservedVersion r))) \<and>
     id_namespace identity = rq_namespace r \<and> id_name identity = rq_name r \<and>
     structuralToken r = None \<and>
     textCore (rq_rawObservedVersion r) = Some v \<and>
     fst (classifyAffectedRangeStructure (rq_rangeType r) (requestRanges r) (requestExplicit r) None) =
       WellFormed \<and>
     (\<forall>rng \<in> set (requestRanges r). rangeAgrees rng)"

lemma SHA256_HEX_bytes: "SHA256_HEX s \<Longrightarrow> utf8ByteLength s = 64"
proof -
  assume s: "SHA256_HEX s"
  then have "list_all (\<lambda>c. c \<le> 127) s"
    by (auto simp: SHA256_HEX_def lower_hex_def is_digit_def list_all_iff)
  with s utf8ByteLength_ascii show ?thesis by (simp add: SHA256_HEX_def)
qed

lemma publish_known:
  assumes "codesAgree out (ei_explanationCodes input)"
    and "card (set (ei_explanationCodes input)) \<le> FIRST_ECOSYSTEM_MAX_EXPLANATION_CODES"
    and "ei_outcome input = Some out \<or> (ei_outcome input = None \<and> out = UnknownOutcome)"
  shows "me_outcome (evidence sha256 input) = out"
  using publish_supplied [OF assms(3,1,2)] by simp

lemma early_outcome:
  assumes "explanationOutcome code = UnknownOutcome"
  shows "earlyUnknown rt r code = Evidence e \<Longrightarrow> me_outcome e = UnknownOutcome"
    and "identifiedUnknown rt r key code = Evidence e \<Longrightarrow> me_outcome e = UnknownOutcome"
  unfolding earlyUnknown_def identifiedUnknown_def using assms
  by (auto intro!: publish_known simp: codesAgree_def catalog_defs)

lemma assessIdentified_verdict:
  assumes "out \<noteq> UnknownOutcome"
  shows "(\<exists>e. assessIdentified rt r key = Evidence e \<and> me_outcome e = out \<and>
        me_packageIdentityKey e = key') \<longleftrightarrow>
    key' = Some key \<and> structuralToken r = None \<and>
    (\<exists>v. textCore (rq_rawObservedVersion r) = Some v \<and>
       fst (classifyAffectedRangeStructure (rq_rangeType r) (requestRanges r) (requestExplicit r) None)
         = WellFormed \<and>
       (\<forall>rng \<in> set (requestRanges r). rangeAgrees rng) \<and>
       specOutcome v (requestRanges r) (requestExplicit r) = out)"
proof (cases "structuralToken r = None")
  case False
  then show ?thesis
    using early_outcome(2) [of unknown_capacity_exceeded rt r key] assms
    by (auto simp: assessIdentified_def)
next
  case token: True
  then show ?thesis
  proof (cases rule: assessIdentified_cases [of r rt key])
    case (problems input)
    then have "me_outcome (evidence (rt_sha256 rt) input) = UnknownOutcome"
      using publish_known by blast
    with problems assms show ?thesis by auto
  next
    case (decided input d v cache)
    then have out: "me_outcome (evidence (rt_sha256 rt) input) = outcome d"
      using publish_known by blast
    have core: "strictSemverCore (classifyObservedNpmVersion (Some (rq_rawObservedVersion r))) = Some v"
      using decided(7) by (simp add: textCore_def)
    have texts: "\<forall>t \<in> set (requestExplicit r). textCore t \<noteq> None"
      using wellFormed_facts(2) [of None] decided(9) by (simp add: coherentOpt_def)
    have spec: "\<forall>rng \<in> set (requestRanges r). rangeAgrees rng \<Longrightarrow>
        outcome d = specOutcome v (requestRanges r) (requestExplicit r)"
      using decide_agreeing [OF core decided(8) _ texts] decided(10) by simp
    have "outcome d = out \<Longrightarrow> \<forall>rng \<in> set (requestRanges r). rangeAgrees rng"
      using decide_known_compiles [OF core decided(8), of "requestRanges r" "requestExplicit r"]
        decided(10) assms by (simp add: compiles_iff_agrees)
    with token decided out spec show ?thesis by auto
  qed
qed

lemma assessIdentity_verdict:
  assumes "out \<noteq> UnknownOutcome" "rq_ecosystem r = SELECTED_FIRST_ECOSYSTEM"
  shows "(\<exists>e. assessIdentity rt r = Evidence e \<and> me_outcome e = out \<and>
        me_packageIdentityKey e = key) \<longleftrightarrow>
    (\<exists>identity purlVersion. requestIdentity r = (ValidIdentity identity, purlVersion) \<and>
       (purlVersion = None \<or> purlVersion = Some (rq_rawObservedVersion r)) \<and>
       id_namespace identity = rq_namespace r \<and> id_name identity = rq_name r \<and>
       (\<exists>e. assessIdentified rt r (id_identityKey identity) = Evidence e \<and> me_outcome e = out \<and>
          me_packageIdentityKey e = key))"
  using assms
  by (auto simp: assessIdentity_def split: prod.splits npmIdentityClassification.splits
      identityFailure.splits if_splits dest: early_outcome(1) [rotated] early_outcome(2) [rotated])
    (metis option.exhaust_sel)

lemma assessRequest_passes: "requestGuards rt r \<Longrightarrow> assessRequest rt r = assessIdentity rt r"
  using SHA256_HEX_bytes
  by (auto simp: requestGuards_def assessRequest_def trustedSynthetic_def catalog_defs Let_def)

lemma assessRequest_blocked:
  "\<not> requestGuards rt r \<Longrightarrow> assessRequest rt r = Evidence e \<Longrightarrow> me_outcome e = UnknownOutcome"
  unfolding requestGuards_def assessRequest_def trustedSynthetic_def Let_def
  by (auto split: if_splits dest: early_outcome(1) [rotated])

text \<open>
  C13. The evaluator's verdict is exact: it reports affected or unaffected for a package key exactly when
  the input is a request that is admitted for that package and the specification of the advisory's
  events and explicit versions (C3) gives that verdict. In every other case the outcome is unknown or the
  request is rejected; in particular KEV membership, withdrawn or untrusted advisories, foreign
  ecosystems and malformed evidence never yield a verdict.
\<close>

theorem assess_verdict_exact:
  assumes "out \<noteq> UnknownOutcome"
  shows "(\<exists>e. assessFirstEcosystemEvaluation rt input = Evidence e \<and> me_outcome e = out \<and>
        me_packageIdentityKey e = key) \<longleftrightarrow>
    (\<exists>r identity v. requestOf rt input = Some r \<and> admitted rt r identity v \<and>
       key = Some (id_identityKey identity) \<and>
       specOutcome v (requestRanges r) (requestExplicit r) = out)"
proof (cases "requestOf rt input")
  case None
  then show ?thesis by (simp add: assess_requestOf)
next
  case (Some r)
  then have "(\<exists>e. assessFirstEcosystemEvaluation rt input = Evidence e \<and> me_outcome e = out \<and>
        me_packageIdentityKey e = key) \<longleftrightarrow> requestGuards rt r \<and>
      (\<exists>e. assessIdentity rt r = Evidence e \<and> me_outcome e = out \<and> me_packageIdentityKey e = key)"
    using assms assessRequest_passes [of rt r] assessRequest_blocked [of rt r]
    by (cases "requestGuards rt r") (auto simp: assess_requestOf)
  then show ?thesis
    using Some assessIdentity_verdict [OF assms, of r rt key]
      assessIdentified_verdict [OF assms, of rt r _ key]
    by (auto simp: requestGuards_def admitted_def)
qed

subsection \<open>What the reader delivers\<close>

definition typedRange :: "advisoryRange \<Rightarrow> bool" where
  "typedRange rng \<longleftrightarrow> singleEvents rng \<and>
     length (rangeType rng) \<le> FIRST_ECOSYSTEM_EVALUATION_INPUT_MAX_UTF8_BYTES \<and>
     length (rangeEvents rng) \<le> FIRST_ECOSYSTEM_MAX_EVENTS_PER_RANGE \<and>
     (\<forall>event \<in> set (rangeEvents rng). \<forall>(_, text) \<in> set event. length text \<le> NPM_RAW_VERSION_MAX_UTF8_BYTES)"

definition typedRanges :: "advisoryRange list \<Rightarrow> bool" where
  "typedRanges ranges \<longleftrightarrow> length ranges \<le> FIRST_ECOSYSTEM_MAX_AFFECTED_RANGES \<and>
     sum_list (map (\<lambda>rng. length (rangeEvents rng)) ranges) \<le> FIRST_ECOSYSTEM_MAX_TOTAL_EVENTS \<and>
     list_all typedRange ranges"

definition typedVersions :: "jstr list \<Rightarrow> bool" where
  "typedVersions versions \<longleftrightarrow> length versions \<le> FIRST_ECOSYSTEM_MAX_EXPLICIT_VERSIONS \<and>
     list_all (\<lambda>text. length text \<le> NPM_RAW_VERSION_MAX_UTF8_BYTES) versions"

lemma listCons_ok [simp]: "listCons x l = ListOk ys \<longleftrightarrow> (\<exists>xs. l = ListOk xs \<and> ys = x # xs)"
  by (cases l) auto

lemma readPlainArray_assess_bound:
  "readPlainArray_assess rt v m = Some (ArrayItems items) \<Longrightarrow> length items \<le> m"
  by (cases "(rt, v, m)" rule: readPlainArray_assess.cases)
    (auto split: if_splits dest: those_length)

lemma parseEvents_typed:
  "parseEvents rt items = Some (ListOk es) \<Longrightarrow> length es = length items \<and>
   list_all (\<lambda>e. \<exists>k v. e = [(k, v)] \<and> length v \<le> NPM_RAW_VERSION_MAX_UTF8_BYTES) es"
proof (induction rt items arbitrary: es rule: parseEvents.induct)
  case (2 rt event events)
  then show ?case
    by (auto split: if_splits list.splits option.splits jsval.splits simp: not_less)
qed simp

lemma parseRangeEntries_typed:
  "parseRangeEntries rt entries n = Some (ListOk rs) \<Longrightarrow> n \<le> FIRST_ECOSYSTEM_MAX_TOTAL_EVENTS \<Longrightarrow>
   length rs = length entries \<and> list_all typedRange rs \<and>
   n + sum_list (map (\<lambda>rng. length (rangeEvents rng)) rs) \<le> FIRST_ECOSYSTEM_MAX_TOTAL_EVENTS"
proof (induction entries arbitrary: rs n)
  case Nil
  then show ?case by simp
next
  case (Cons entry entries)
  from Cons.prems obtain type eventList items events rest where
    type: "length type \<le> FIRST_ECOSYSTEM_EVALUATION_INPUT_MAX_UTF8_BYTES"
    and items: "readPlainArray_assess rt eventList FIRST_ECOSYSTEM_MAX_EVENTS_PER_RANGE =
        Some (ArrayItems items)"
    and events: "parseEvents rt items = Some (ListOk events)"
    and total: "n + length events \<le> FIRST_ECOSYSTEM_MAX_TOTAL_EVENTS"
    and rest: "parseRangeEntries rt entries (n + length events) = Some (ListOk rest)"
    and rs: "rs = \<lparr>rangeType = type, rangeEvents = events\<rparr> # rest"
    by (auto simp: Let_def exceedsInputBudget_def not_less
        split: if_splits bind_splits jsval.splits arrayRead.splits parsedList.splits)
  have "typedRange \<lparr>rangeType = type, rangeEvents = events\<rparr>"
    using type parseEvents_typed [OF events] readPlainArray_assess_bound [OF items]
    by (auto simp: typedRange_def singleEvents_def list_all_iff)
  with Cons.IH [OF rest total] rs show ?case by simp
qed

lemma parseRanges_typed: "parseRanges rt v = Some (ListOk rs) \<Longrightarrow> typedRanges rs"
  using parseRangeEntries_typed [where n = 0] readPlainArray_assess_bound
  by (fastforce simp: parseRanges_def typedRanges_def split: bind_splits arrayRead.splits)

lemma parseVersionEntries_typed:
  "parseVersionEntries rt items = ListOk vs \<Longrightarrow> length vs = length items \<and>
   list_all (\<lambda>text. length text \<le> NPM_RAW_VERSION_MAX_UTF8_BYTES) vs"
  by (induction items arbitrary: vs) (auto split: jsval.splits if_splits simp: not_less)

lemma parseExplicitVersions_typed: "parseExplicitVersions rt v = Some (ListOk vs) \<Longrightarrow> typedVersions vs"
  using parseVersionEntries_typed readPlainArray_assess_bound
  by (fastforce simp: parseExplicitVersions_def typedVersions_def split: bind_splits arrayRead.splits)

lemma readRequest_parses:
  assumes "readRequest rt props = Some (Some r)"
  obtains ranges versions where "parseRanges rt ranges = Some (rq_ranges r)"
    "parseExplicitVersions rt versions = Some (rq_explicit r)"
    "rq_ranges r \<noteq> ListInvalid" "rq_explicit r \<noteq> ListInvalid"
    "rq_requestSchemaVersion r = FIRST_ECOSYSTEM_REQUEST_SCHEMA_VERSION"
    "UUID_V4 (rq_evaluationCorrelationId r)"
  using assms unfolding readRequest_def by (auto split: bind_splits if_splits)

text \<open>
  C38. What the reader takes from an untrusted input is well typed: the schema version and the
  correlation id are as required; a range or version list is either marked over capacity or holds at
  most 32 ranges, 16 events each and 64 in all, 64 explicit versions, every event with exactly one
  property and every version text of at most 256 code units.
\<close>

theorem request_typed:
  assumes "requestOf rt input = Some r"
  shows "rq_requestSchemaVersion r = FIRST_ECOSYSTEM_REQUEST_SCHEMA_VERSION \<and>
    UUID_V4 (rq_evaluationCorrelationId r) \<and>
    (case rq_ranges r of ListOk ranges \<Rightarrow> typedRanges ranges | ListCapacity _ \<Rightarrow> True
       | ListInvalid \<Rightarrow> False) \<and>
    (case rq_explicit r of ListOk versions \<Rightarrow> typedVersions versions | ListCapacity _ \<Rightarrow> True
       | ListInvalid \<Rightarrow> False)"
proof -
  have "readRequest rt (ownProperties input) = Some (Some r)"
    using assms by (auto simp: requestOf_def Let_def split: if_splits bind_splits)
  then show ?thesis
    by (rule readRequest_parses)
      (auto dest: parseRanges_typed parseExplicitVersions_typed split: parsedList.splits)
qed

subsection \<open>Witnesses\<close>

text \<open>A request as a client writes it: 1.10.0-rc.2+b7 against the range from 1.9.0 to that version.\<close>

definition exampleRuntime :: nodeRuntime where
  "exampleRuntime = \<lparr>rt_sha256 = (\<lambda>text. []), rt_isProxy = (\<lambda>oid. False)\<rparr>"

definition exampleEvent :: "jstr \<Rightarrow> jstr \<Rightarrow> jsval" where
  "exampleEvent k v = plainObject 2 [(k, Str v)]"

definition exampleEntries :: "(jstr \<times> jsval) list" where
  "exampleEntries =
     [(js ''requestSchemaVersion'', Str FIRST_ECOSYSTEM_REQUEST_SCHEMA_VERSION),
      (js ''evaluatorPolicyId'', Str FIRST_ECOSYSTEM_MATCHING_POLICY_ID),
      (js ''evaluatorVersion'', Str FIRST_ECOSYSTEM_EVALUATOR_VERSION),
      (js ''ecosystem'', Str (js ''npm'')),
      (js ''namespace'', Null),
      (js ''name'', Str (js ''left-pad'')),
      (js ''observedIdentity'', Str (js ''left-pad'')),
      (js ''rawObservedVersion'', Str (js ''1.9.0'')),
      (js ''advisoryIdentity'', Str (js ''GHSA-1'')),
      (js ''advisorySourceClassification'', Str (js ''synthetic_fixture'')),
      (js ''advisoryEvidenceFingerprint'', Str (js ''aaaaaaaaaaaaaaaaaaaaaaaaaaaaaaaaaaaaaaaaaaaaaaaaaaaaaaaaaaaaaaaa'')),
      (js ''advisoryEvidenceOrigin'', Str (js ''synthetic'')),
      (js ''advisoryRevisionDisposition'', Str (js ''active_synthetic'')),
      (js ''rangeType'', Str (js ''SEMVER'')),
      (js ''affectedRanges'', plainArrayOf 1 [plainObject 3
         [(js ''type'', Str (js ''SEMVER'')),
          (js ''events'', plainArrayOf 4 [exampleEvent (js ''introduced'') (js ''1.9.0''),
             exampleEvent (js ''fixed'') (js ''1.10.0-rc.2+b7'')])]]),
      (js ''explicitAffectedVersions'', plainArrayOf 5 [Str (js ''1.9.0'')]),
      (js ''evaluationCorrelationId'', Str (js ''00000000-0000-4000-8000-000000000000'')),
      (js ''sbomSourceClassification'', Str (js ''synthetic'')),
      (js ''componentIdentityProvenance'', Str (js ''synthetic'')),
      (js ''observedVersionProvenance'', Str (js ''synthetic'')),
      (js ''rangeEvidenceProvenance'', Str (js ''synthetic''))]"

definition exampleRequest :: evaluationRequest where
  "exampleRequest =
     \<lparr>rq_requestSchemaVersion = FIRST_ECOSYSTEM_REQUEST_SCHEMA_VERSION,
      rq_evaluatorPolicyId = FIRST_ECOSYSTEM_MATCHING_POLICY_ID,
      rq_evaluatorVersion = FIRST_ECOSYSTEM_EVALUATOR_VERSION,
      rq_ecosystem = js ''npm'', rq_namespace = None, rq_name = js ''left-pad'',
      rq_observedIdentity = js ''left-pad'', rq_rawObservedVersion = js ''1.9.0'',
      rq_advisoryIdentity = js ''GHSA-1'',
      rq_advisorySourceClassification = js ''synthetic_fixture'',
      rq_advisoryEvidenceFingerprint = js ''aaaaaaaaaaaaaaaaaaaaaaaaaaaaaaaaaaaaaaaaaaaaaaaaaaaaaaaaaaaaaaaa'',
      rq_advisoryEvidenceOrigin = js ''synthetic'',
      rq_advisoryRevisionDisposition = js ''active_synthetic'',
      rq_rangeType = js ''SEMVER'',
      rq_evaluationCorrelationId = js ''00000000-0000-4000-8000-000000000000'',
      rq_sbomSourceClassification = js ''synthetic'',
      rq_componentIdentityProvenance = js ''synthetic'',
      rq_observedVersionProvenance = js ''synthetic'',
      rq_rangeEvidenceProvenance = js ''synthetic'',
      rq_ranges = ListOk [exampleRange], rq_explicit = ListOk [js ''1.9.0'']\<rparr>"

lemma readDataProperty_entries:
  "readDataProperty (map (\<lambda>(k, v). (KStr k, DataProp v True)) entries) key = map_of entries key"
  by (induction entries) (auto simp: readDataProperty_def)

lemma ownPropertyNames_entries:
  "ownPropertyNames (map (\<lambda>(k, v). (KStr k, DataProp v b)) entries) = map fst entries"
  by (induction entries) auto

lemma hasSymbols_entries: "\<not> hasSymbols (map (\<lambda>(k, v). (KStr k, DataProp v b)) entries)"
  by (auto simp: hasSymbols_def list_ex_iff)

lemma plainObject_reads [simp]:
  "isPlainRecord rt (plainObject oid entries) = (\<not> rt_isProxy rt oid)"
  "readDataProperty (ownProperties (plainObject oid entries)) key = map_of entries key"
  "ownPropertyNames (ownProperties (plainObject oid entries)) = map fst entries"
  "\<not> hasSymbols (ownProperties (plainObject oid entries))"
  by (simp_all add: plainObject_def readDataProperty_entries ownPropertyNames_entries
      hasSymbols_entries)

lemma readPlainArray_assess_dense [simp]:
  assumes "\<not> rt_isProxy rt oid" "length vs \<le> m"
  shows "readPlainArray_assess rt (plainArrayOf oid vs) m = Some (ArrayItems vs)"
proof -
  let ?p = "map (\<lambda>i. (KStr (dec i), DataProp (vs ! i) True)) [0..<length vs]"
  have entries: "?p = map (\<lambda>(k, v). (KStr k, DataProp v True)) (map (\<lambda>i. (dec i, vs ! i)) [0..<length vs])"
    by simp
  have "map (\<lambda>i. readDataProperty ?p (dec i)) [0..<length vs] = map (\<lambda>i. Some (vs ! i)) [0..<length vs]"
    by (auto simp: readDataProperty_def map_of_dec)
  then have "those (map (\<lambda>i. readDataProperty ?p (dec i)) [0..<length vs]) = Some vs"
    by (simp only: those_map_Some map_nth)
  moreover have "length (ownPropertyNames ?p) = length vs" "\<not> hasSymbols ?p"
    unfolding entries ownPropertyNames_entries by (simp, rule hasSymbols_entries)
  ultimately show ?thesis using assms by (simp add: plainArrayOf_def)
qed

lemma exampleRequest_read:
  "requestOf exampleRuntime (plainObject 0 exampleEntries) = Some exampleRequest"
  by (simp add: requestOf_def readRequest_def readString_def exampleRuntime_def exampleEntries_def
      exampleRequest_def exampleRange_def introducedFixed_def exampleEvent_def parseRanges_def
      parseExplicitVersions_def catalog_defs UUID_V4_def lower_hex_def is_digit_def
      exceedsInputBudget_def Let_def js_def del: js_eq_iff)

lemma exampleRequest_lists [simp]:
  "requestRanges exampleRequest = [exampleRange]" "requestExplicit exampleRequest = [js ''1.9.0'']"
  "structuralToken exampleRequest = None"
  by (simp_all add: exampleRequest_def requestRanges_def requestExplicit_def structuralToken_def)

lemma exampleRequest_identity:
  "requestIdentity exampleRequest = (ValidIdentity (identityOf None (js ''left-pad'')), None)"
proof -
  have "identityName None (js ''left-pad'')"
    by (simp add: identityName_def catalog_defs eval_defs)
  then have "classifyNpmPackageIdentityFromParts \<lparr>ecosystem = js ''npm'', observedNamespace = None,
      observedName = js ''left-pad'', observedIdentity = js ''left-pad''\<rparr> =
      ValidIdentity (identityOf None (js ''left-pad''))"
    by (simp add: fromParts_valid_iff catalog_defs canonicalName_def)
  then show ?thesis by (simp add: requestIdentity_def exampleRequest_def js_def)
qed

lemma exampleRequest_budget: "\<not> overBudget exampleRuntime exampleRequest"
  by (simp add: overBudget_def budgetFields_def canonicalRanges_def rangeCanonical_def
      oneRangeCanonical_def eventCanonical_def canonicalToken_def exampleRange_def introducedFixed_def
      versionBinding_def advisoryBinding_def namespaceOrEmpty_def exampleRequest_def
      catalog_defs eval_defs Let_def structuralToken_def requestRanges_def requestExplicit_def
      dec.simps is_high_surrogate_def is_low_surrogate_def)

lemma exampleRequest_wellFormed:
  "fst (classifyAffectedRangeStructure (js ''SEMVER'') [exampleRange] [js ''1.9.0''] None) = WellFormed"
  using exampleRange_wellFormed classifyStructure_coherent(1) [of None "Some Map.empty"]
  by (simp add: coherentOpt_def)

lemma exampleRequest_fields:
  "rq_advisoryRevisionDisposition exampleRequest = js ''active_synthetic''"
  "rq_evaluatorPolicyId exampleRequest = FIRST_ECOSYSTEM_MATCHING_POLICY_ID"
  "rq_evaluatorVersion exampleRequest = FIRST_ECOSYSTEM_EVALUATOR_VERSION"
  "rq_ecosystem exampleRequest = js ''npm''" "rq_namespace exampleRequest = None"
  "rq_name exampleRequest = js ''left-pad''" "rq_rawObservedVersion exampleRequest = js ''1.9.0''"
  "rq_rangeType exampleRequest = js ''SEMVER''"
  by (simp_all add: exampleRequest_def)

lemma exampleRequest_guards: "requestGuards exampleRuntime exampleRequest"
  using exampleRequest_budget
  by (simp add: requestGuards_def exampleRequest_fields SELECTED_FIRST_ECOSYSTEM_def)
    (simp add: exampleRequest_def trustedSynthetic_def syntheticProvenance_def
      closedAdvisorySource_def SHA256_HEX_def lower_hex_def is_digit_def catalog_defs js_def)

lemma exampleRequest_admitted:
  "admitted exampleRuntime exampleRequest (identityOf None (js ''left-pad'')) (coreOf example_release)"
  using exampleRequest_guards exampleRequest_wellFormed example_cores(1) exampleRange_compiled
  by (simp add: admitted_def exampleRequest_identity exampleRequest_fields identityOf_def examples_agree)

lemma exampleRequest_verdict:
  "specOutcome (coreOf example_release) [exampleRange] [js ''1.9.0''] = Affected"
  by (simp add: specOutcome_def example_cores examples_agree)

theorem request_typed_witness:
  "typedRanges [exampleRange] \<and> typedVersions [js ''1.9.0'']"
  using request_typed [OF exampleRequest_read] by (simp add: exampleRequest_def)

theorem assess_verdict_exact_witness:
  "\<exists>e. assessFirstEcosystemEvaluation exampleRuntime (plainObject 0 exampleEntries) = Evidence e \<and>
     me_outcome e = Affected \<and>
     me_packageIdentityKey e = Some (js ''npm'' @ [31, 31] @ js ''left-pad'')"
proof (rule iffD2 [OF assess_verdict_exact])
  show "\<exists>r identity v. requestOf exampleRuntime (plainObject 0 exampleEntries) = Some r \<and>
      admitted exampleRuntime r identity v \<and>
      Some (js ''npm'' @ [31, 31] @ js ''left-pad'') = Some (id_identityKey identity) \<and>
      specOutcome v (requestRanges r) (requestExplicit r) = Affected"
    using exampleRequest_read exampleRequest_admitted exampleRequest_verdict
    by (intro exI [of _ exampleRequest] exI [of _ "identityOf None (js ''left-pad'')"]
        exI [of _ "coreOf example_release"])
      (simp add: identityOf_def identityKeyOf_def catalog_defs NPM_IDENTITY_SEPARATOR_def)
qed simp

lemma exampleRequest_evidence:
  "\<exists>e. assessFirstEcosystemEvaluation exampleRuntime (plainObject 0 exampleEntries) = Evidence e"
proof -
  have "assessFirstEcosystemEvaluation exampleRuntime (plainObject 0 exampleEntries) =
      assessIdentified exampleRuntime exampleRequest (id_identityKey (identityOf None (js ''left-pad'')))"
    by (simp add: assess_requestOf exampleRequest_read assessRequest_passes [OF exampleRequest_guards]
        assessIdentity_def exampleRequest_identity exampleRequest_fields SELECTED_FIRST_ECOSYSTEM_def)
      (simp add: identityOf_def)
  then show ?thesis
    by (cases rule: assessIdentified_cases [OF exampleRequest_lists(3), of exampleRuntime
          "id_identityKey (identityOf None (js ''left-pad''))"]) simp_all
qed

theorem evidence_consistent_witness:
  "\<exists>e. assessFirstEcosystemEvaluation exampleRuntime (plainObject 0 exampleEntries) = Evidence e \<and>
     publishedWell (me_outcome e) (me_explanationCodes e) \<and>
     lifecycleRun (me_lifecyclePath e) (me_outcome e)"
  using exampleRequest_evidence evidence_consistent by blast

end
