(* ===== verification/PolicyCatalog.thy ===== *)
theory PolicyCatalog
  imports JsValues
begin

text \<open>
  \<^verbatim>\<open>packages/policy-engine/src/catalog.ts\<close>: the closed catalog of the P1-P4 priority policy. Factor
  identifiers are an enumeration with the source's order; tokens and codes stay strings, as in the
  source. \<^verbatim>\<open>EXPLANATION_TEXT\<close> is static prose and is not modelled.
\<close>

datatype factorId =
    source_severity | kev_listed | environment_sensitivity | internet_exposure
  | business_criticality | asset_data_classification | direct_dependency | fix_available
  | finding_age_days | advisory_withdrawn

definition FACTOR_IDS :: "factorId list" where
  [catalog_defs]: "FACTOR_IDS = [source_severity, kev_listed, environment_sensitivity,
     internet_exposure, business_criticality, asset_data_classification, direct_dependency,
     fix_available, finding_age_days, advisory_withdrawn]"

fun factorName :: "factorId \<Rightarrow> jstr" where
  "factorName source_severity = js ''source_severity''"
| "factorName kev_listed = js ''kev_listed''"
| "factorName environment_sensitivity = js ''environment_sensitivity''"
| "factorName internet_exposure = js ''internet_exposure''"
| "factorName business_criticality = js ''business_criticality''"
| "factorName asset_data_classification = js ''asset_data_classification''"
| "factorName direct_dependency = js ''direct_dependency''"
| "factorName fix_available = js ''fix_available''"
| "factorName finding_age_days = js ''finding_age_days''"
| "factorName advisory_withdrawn = js ''advisory_withdrawn''"

definition FACTOR_NAMES :: "jstr list" where
  [catalog_defs]: "FACTOR_NAMES = map factorName FACTOR_IDS"

definition INFORMATIONAL_FACTOR_ID :: factorId where
  [catalog_defs]: "INFORMATIONAL_FACTOR_ID = advisory_withdrawn"

definition factorOrdinal :: "factorId \<Rightarrow> nat" where
  "factorOrdinal f = (case index_of f FACTOR_IDS of None \<Rightarrow> 0 | Some i \<Rightarrow> i + 1)"

datatype factorInputState = observed | unknown | unavailable

definition FACTOR_INPUT_STATES :: "factorInputState list" where
  [catalog_defs]: "FACTOR_INPUT_STATES = [observed, unknown, unavailable]"

fun inputStateName :: "factorInputState \<Rightarrow> jstr" where
  "inputStateName observed = js ''observed''"
| "inputStateName unknown = js ''unknown''"
| "inputStateName unavailable = js ''unavailable''"

datatype factorStatus = decisive | contributing | non_contributing | informational

datatype priorityBand = P1 | P2 | P3 | P4

definition PRIORITY_BANDS :: "priorityBand list" where
  [catalog_defs]: "PRIORITY_BANDS = [P1, P2, P3, P4]"

fun bandName :: "priorityBand \<Rightarrow> jstr" where
  "bandName P1 = js ''P1''"
| "bandName P2 = js ''P2''"
| "bandName P3 = js ''P3''"
| "bandName P4 = js ''P4''"

definition SEVERITY_RATINGS :: "jstr list" where
  [catalog_defs]: "SEVERITY_RATINGS =
     [js ''critical'', js ''high'', js ''medium'', js ''low'', js ''none'']"

definition SEVERITY_UNKNOWN_TOKENS :: "jstr list" where
  [catalog_defs]: "SEVERITY_UNKNOWN_TOKENS = [js ''unrated'']"

definition SEVERITY_MAX_VALUES :: nat where
  [catalog_defs]: "SEVERITY_MAX_VALUES = 16"

definition KEV_LISTED_TOKENS :: "jstr list" where
  [catalog_defs]: "KEV_LISTED_TOKENS =
     [js ''listed_catalog_current'', js ''listed_catalog_stale'',
      js ''listed_catalog_disabled_with_history'']"

definition KEV_OBSERVED_TOKENS :: "jstr list" where
  [catalog_defs]: "KEV_OBSERVED_TOKENS = KEV_LISTED_TOKENS @ [js ''not_listed_catalog_current'']"

definition KEV_UNKNOWN_TOKENS :: "jstr list" where
  [catalog_defs]: "KEV_UNKNOWN_TOKENS =
     [js ''absent_catalog_stale'', js ''absent_catalog_disabled_with_history'']"

definition KEV_UNAVAILABLE_REASONS :: "jstr list" where
  [catalog_defs]: "KEV_UNAVAILABLE_REASONS = [js ''no_canonical_cve'', js ''no_active_generation'']"

definition ENVIRONMENT_SENSITIVITY_TOKENS :: "jstr list" where
  [catalog_defs]: "ENVIRONMENT_SENSITIVITY_TOKENS = [js ''production'', js ''non_production'']"

definition INTERNET_EXPOSURE_TOKENS :: "jstr list" where
  [catalog_defs]: "INTERNET_EXPOSURE_TOKENS = [js ''internet_facing'', js ''internal'']"

definition INTERNET_EXPOSURE_UNKNOWN_TOKENS :: "jstr list" where
  [catalog_defs]: "INTERNET_EXPOSURE_UNKNOWN_TOKENS = [js ''unknown'']"

definition BUSINESS_CRITICALITY_TOKENS :: "jstr list" where
  [catalog_defs]: "BUSINESS_CRITICALITY_TOKENS =
     [js ''critical'', js ''high'', js ''medium'', js ''low'']"

definition BUSINESS_CRITICALITY_UNKNOWN_TOKENS :: "jstr list" where
  [catalog_defs]: "BUSINESS_CRITICALITY_UNKNOWN_TOKENS = [js ''unspecified'']"

definition ASSET_DATA_CLASSIFICATION_TOKENS :: "jstr list" where
  [catalog_defs]: "ASSET_DATA_CLASSIFICATION_TOKENS =
     [js ''restricted'', js ''confidential'', js ''internal'', js ''public'']"

definition ASSET_DATA_CLASSIFICATION_UNKNOWN_TOKENS :: "jstr list" where
  [catalog_defs]: "ASSET_DATA_CLASSIFICATION_UNKNOWN_TOKENS = [js ''unspecified'']"

definition DIRECT_DEPENDENCY_TOKENS :: "jstr list" where
  [catalog_defs]: "DIRECT_DEPENDENCY_TOKENS = [js ''direct'', js ''transitive'']"

definition FIX_AVAILABLE_TOKENS :: "jstr list" where
  [catalog_defs]: "FIX_AVAILABLE_TOKENS = [js ''available'', js ''not_available'']"

definition FIX_AVAILABLE_UNKNOWN_TOKENS :: "jstr list" where
  [catalog_defs]: "FIX_AVAILABLE_UNKNOWN_TOKENS = [js ''undetermined'']"

definition ADVISORY_WITHDRAWN_TOKENS :: "jstr list" where
  [catalog_defs]: "ADVISORY_WITHDRAWN_TOKENS = [js ''withdrawn'', js ''not_withdrawn'']"

definition FINDING_AGE_DAYS_MAX :: int where
  [catalog_defs]: "FINDING_AGE_DAYS_MAX = 36500"

definition FINDING_AGE_BUCKETS_MAX :: nat where
  [catalog_defs]: "FINDING_AGE_BUCKETS_MAX = 16"

text \<open>\<^verbatim>\<open>NORMALIZED_TOKEN_FACTORS\<close>; the two factors without a token map have no entry.\<close>

fun NORMALIZED_TOKEN_FACTORS :: "factorId \<Rightarrow> jstr list" where
  "NORMALIZED_TOKEN_FACTORS source_severity = SEVERITY_RATINGS"
| "NORMALIZED_TOKEN_FACTORS kev_listed = KEV_OBSERVED_TOKENS"
| "NORMALIZED_TOKEN_FACTORS environment_sensitivity = ENVIRONMENT_SENSITIVITY_TOKENS"
| "NORMALIZED_TOKEN_FACTORS internet_exposure = INTERNET_EXPOSURE_TOKENS"
| "NORMALIZED_TOKEN_FACTORS business_criticality = BUSINESS_CRITICALITY_TOKENS"
| "NORMALIZED_TOKEN_FACTORS asset_data_classification = ASSET_DATA_CLASSIFICATION_TOKENS"
| "NORMALIZED_TOKEN_FACTORS direct_dependency = DIRECT_DEPENDENCY_TOKENS"
| "NORMALIZED_TOKEN_FACTORS fix_available = FIX_AVAILABLE_TOKENS"
| "NORMALIZED_TOKEN_FACTORS _ = []"

definition NORMALIZED_TOKEN_FACTOR_IDS :: "factorId list" where
  [catalog_defs]: "NORMALIZED_TOKEN_FACTOR_IDS = [source_severity, kev_listed,
     environment_sensitivity, internet_exposure, business_criticality, asset_data_classification,
     direct_dependency, fix_available]"

definition NORMALIZATION_KEYS :: "jstr list" where
  [catalog_defs]: "NORMALIZATION_KEYS =
     map factorName NORMALIZED_TOKEN_FACTOR_IDS @ [js ''finding_age_days'']"

definition KEV_ESCALATION_RULE :: jstr where
  [catalog_defs]: "KEV_ESCALATION_RULE = js ''listed_and_production_or_internet_facing''"

datatype ruleId = kev_minimum_band | kev_escalation

datatype escalationReason = kev_production | kev_internet_facing

definition POLICY_ENGINE_VERSION :: jstr where
  [catalog_defs]: "POLICY_ENGINE_VERSION = js ''@patchpilot/policy-engine@1''"

definition PRIORITY_ENGINE_CONTRACT :: jstr where
  [catalog_defs]: "PRIORITY_ENGINE_CONTRACT = js ''patchpilot.priority.p1p4/1''"

definition PRIORITY_POLICY_SCHEMA_VERSION :: int where
  [catalog_defs]: "PRIORITY_POLICY_SCHEMA_VERSION = 2"

definition POLICY_KEY_MAX_LENGTH :: nat where
  [catalog_defs]: "POLICY_KEY_MAX_LENGTH = 128"

definition FACTOR_DESCRIPTION_MAX_LENGTH :: nat where
  [catalog_defs]: "FACTOR_DESCRIPTION_MAX_LENGTH = 256"

definition PRIORITY_MAX :: int where
  [catalog_defs]: "PRIORITY_MAX = 100"

definition WEIGHT_SUM :: int where
  [catalog_defs]: "WEIGHT_SUM = 100"

definition PERCENT_MAX :: int where
  [catalog_defs]: "PERCENT_MAX = 100"

definition DUE_DATE_RECOMMENDATION_DAYS_MIN :: int where
  [catalog_defs]: "DUE_DATE_RECOMMENDATION_DAYS_MIN = 1"

definition DUE_DATE_RECOMMENDATION_DAYS_MAX :: int where
  [catalog_defs]: "DUE_DATE_RECOMMENDATION_DAYS_MAX = 3650"

fun OVERRIDE_WEIGHT_BOUNDS :: "factorId \<Rightarrow> int \<times> int" where
  "OVERRIDE_WEIGHT_BOUNDS source_severity = (30, 50)"
| "OVERRIDE_WEIGHT_BOUNDS kev_listed = (10, 30)"
| "OVERRIDE_WEIGHT_BOUNDS environment_sensitivity = (0, 20)"
| "OVERRIDE_WEIGHT_BOUNDS internet_exposure = (0, 20)"
| "OVERRIDE_WEIGHT_BOUNDS business_criticality = (0, 15)"
| "OVERRIDE_WEIGHT_BOUNDS asset_data_classification = (0, 10)"
| "OVERRIDE_WEIGHT_BOUNDS direct_dependency = (0, 5)"
| "OVERRIDE_WEIGHT_BOUNDS fix_available = (0, 5)"
| "OVERRIDE_WEIGHT_BOUNDS finding_age_days = (0, 5)"
| "OVERRIDE_WEIGHT_BOUNDS advisory_withdrawn = (0, 0)"

definition FACTOR_EXPLANATION_CODES :: "jstr list" where
  [catalog_defs]: "FACTOR_EXPLANATION_CODES = map js
     [''severity_critical'', ''severity_high'', ''severity_medium'', ''severity_low'',
      ''severity_none'', ''severity_unrated'', ''severity_unavailable'',
      ''kev_listed_catalog_current'', ''kev_listed_catalog_stale'',
      ''kev_listed_catalog_disabled_with_history'', ''kev_not_listed_catalog_current'',
      ''kev_absent_catalog_stale'', ''kev_absent_catalog_disabled_with_history'',
      ''kev_unavailable_no_canonical_cve'', ''kev_unavailable_no_active_generation'',
      ''environment_production'', ''environment_non_production'', ''environment_unavailable'',
      ''exposure_internet_facing'', ''exposure_internal'', ''exposure_unknown'',
      ''exposure_unavailable'', ''criticality_critical'', ''criticality_high'',
      ''criticality_medium'', ''criticality_low'', ''criticality_unspecified'',
      ''criticality_unavailable'', ''data_restricted'', ''data_confidential'', ''data_internal'',
      ''data_public'', ''data_unspecified'', ''data_unavailable'', ''dependency_direct'',
      ''dependency_transitive'', ''dependency_unavailable'', ''fix_available'',
      ''fix_not_available'', ''fix_undetermined'', ''fix_unavailable'', ''age_under_30_days'',
      ''age_30_to_89_days'', ''age_90_days_or_more'', ''age_unavailable'',
      ''advisory_withdrawn_review_required'', ''advisory_not_withdrawn'',
      ''advisory_withdrawal_unavailable'']"

definition RULE_EXPLANATION_CODES :: "jstr list" where
  [catalog_defs]: "RULE_EXPLANATION_CODES = map js
     [''kev_minimum_band_raised'', ''kev_minimum_band_already_met'',
      ''kev_minimum_band_not_triggered'', ''kev_escalation_recommended'',
      ''kev_escalation_context_not_observed'', ''kev_escalation_not_triggered'']"

definition isKevListedToken :: "jstr \<Rightarrow> bool" where
  "isKevListedToken value \<longleftrightarrow> value \<in> set KEV_LISTED_TOKENS"

subsection \<open>Lemmas\<close>

lemma set_FACTOR_IDS [simp]: "f \<in> set FACTOR_IDS"
  by (cases f) (simp_all add: FACTOR_IDS_def)

lemma UNIV_factorId: "(UNIV :: factorId set) = set FACTOR_IDS"
  by auto

lemma distinct_FACTOR_IDS [simp]: "distinct FACTOR_IDS"
  by (simp add: FACTOR_IDS_def)

lemma factorName_inject [simp]: "factorName f = factorName g \<longleftrightarrow> f = g"
  by (cases f; cases g; simp)

lemma bandName_inject [simp]: "bandName b = bandName c \<longleftrightarrow> b = c"
  by (cases b; cases c; simp)

lemma inputStateName_inject [simp]: "inputStateName b = inputStateName c \<longleftrightarrow> b = c"
  by (cases b; cases c; simp)

lemma factorOrdinal_simps [simp]:
  "factorOrdinal source_severity = 1" "factorOrdinal kev_listed = 2"
  "factorOrdinal environment_sensitivity = 3" "factorOrdinal internet_exposure = 4"
  "factorOrdinal business_criticality = 5" "factorOrdinal asset_data_classification = 6"
  "factorOrdinal direct_dependency = 7" "factorOrdinal fix_available = 8"
  "factorOrdinal finding_age_days = 9" "factorOrdinal advisory_withdrawn = 10"
  by (simp_all add: factorOrdinal_def FACTOR_IDS_def)

lemma factorOrdinal_inject [simp]: "factorOrdinal f = factorOrdinal g \<longleftrightarrow> f = g"
  by (cases f; cases g; simp)

end
