(* ===== verification/PolicyFacts.thy ===== *)
theory PolicyFacts
  imports PolicyCatalog Comparators "HOL-Library.AList"
begin

text \<open>
  \<^verbatim>\<open>packages/policy-engine/src/facts.ts\<close>: parsing of untrusted facts. A parsed fact keeps its state
  and, when the factor has one in that state, the payload under its key; the facts are listed in
  catalog order, the order in which the parser adds the properties. The \<^verbatim>\<open>WeakSet\<close> brand is part of
  the engine state in \<open>PolicyEvaluate\<close>. \<open>wf_facts\<close> spells out the type \<^verbatim>\<open>PriorityFactInput\<close>.
\<close>

datatype payload = PText jstr | PNum int | PTexts "jstr list"

datatype fact = Fact (factState: factorInputState) (factPayload: "(jstr \<times> payload) option")

type_synonym facts = "(factorId \<times> fact) list"

datatype factorSpec =
    SeveritySpec
  | AgeSpec
  | TokenSpec (specObserved: "jstr list") (specUnknown: "jstr list")
      (specUnavailableReasons: "jstr list")

fun FACTOR_SPECS :: "factorId \<Rightarrow> factorSpec" where
  "FACTOR_SPECS source_severity = SeveritySpec"
| "FACTOR_SPECS kev_listed =
     TokenSpec KEV_OBSERVED_TOKENS KEV_UNKNOWN_TOKENS KEV_UNAVAILABLE_REASONS"
| "FACTOR_SPECS environment_sensitivity = TokenSpec ENVIRONMENT_SENSITIVITY_TOKENS [] []"
| "FACTOR_SPECS internet_exposure =
     TokenSpec INTERNET_EXPOSURE_TOKENS INTERNET_EXPOSURE_UNKNOWN_TOKENS []"
| "FACTOR_SPECS business_criticality =
     TokenSpec BUSINESS_CRITICALITY_TOKENS BUSINESS_CRITICALITY_UNKNOWN_TOKENS []"
| "FACTOR_SPECS asset_data_classification =
     TokenSpec ASSET_DATA_CLASSIFICATION_TOKENS ASSET_DATA_CLASSIFICATION_UNKNOWN_TOKENS []"
| "FACTOR_SPECS direct_dependency = TokenSpec DIRECT_DEPENDENCY_TOKENS [] []"
| "FACTOR_SPECS fix_available = TokenSpec FIX_AVAILABLE_TOKENS FIX_AVAILABLE_UNKNOWN_TOKENS []"
| "FACTOR_SPECS finding_age_days = AgeSpec"
| "FACTOR_SPECS advisory_withdrawn = TokenSpec ADVISORY_WITHDRAWN_TOKENS [] []"

definition FACT_INPUT_ISSUE_CODES :: "jstr list" where
  [catalog_defs]: "FACT_INPUT_ISSUE_CODES = map js
     [''facts_not_plain_object'', ''facts_not_parsed'', ''missing_factor'', ''unknown_factor'',
      ''factor_not_plain_object'', ''missing_state'', ''invalid_state'', ''state_not_accepted'',
      ''unexpected_property'', ''missing_value'', ''invalid_value'', ''value_not_integer'',
      ''value_out_of_range'', ''values_count_out_of_range'', ''missing_reason'',
      ''invalid_reason'']"

fun acceptsUnknown :: "factorSpec \<Rightarrow> bool" where
  "acceptsUnknown SeveritySpec = True"
| "acceptsUnknown AgeSpec = False"
| "acceptsUnknown (TokenSpec _ unk _) = (length unk > 0)"

definition payloadKey :: "factorSpec \<Rightarrow> factorInputState \<Rightarrow> jstr option" where
  "payloadKey spec state =
     (if state = unavailable then
        (case spec of
           TokenSpec _ _ reasons \<Rightarrow> if length reasons > 0 then Some (js ''reason'') else None
         | _ \<Rightarrow> None)
      else if spec = SeveritySpec \<and> state = observed then Some (js ''values'')
      else Some (js ''value''))"

text \<open>The loop of \<^verbatim>\<open>parseSeverityValues\<close> over the elements read.\<close>

fun readRatings :: "jsval list \<Rightarrow> jstr list \<Rightarrow> jstr + payload" where
  "readRatings [] ratings = Inr (PTexts ratings)"
| "readRatings (value # vs) ratings =
     (case value of
        Str s \<Rightarrow> if isOneOf value SEVERITY_RATINGS then readRatings vs (ratings @ [s])
                 else Inl (js ''invalid_value'')
      | _ \<Rightarrow> Inl (js ''invalid_value''))"

definition parseSeverityValues :: "jsval \<Rightarrow> jstr + payload" where
  "parseSeverityValues raw =
     (case readPlainArray raw SEVERITY_MAX_VALUES of
        NotArray \<Rightarrow> Inl (js ''invalid_value'')
      | TooLong \<Rightarrow> Inl (js ''values_count_out_of_range'')
      | Elements vs \<Rightarrow>
          if length vs = 0 then Inl (js ''values_count_out_of_range'') else readRatings vs [])"

fun parseAgeDays :: "jsval \<Rightarrow> jstr + payload" where
  "parseAgeDays (Number (Integral n)) =
     (if n < 0 \<or> n > FINDING_AGE_DAYS_MAX then Inl (js ''value_out_of_range'')
      else Inr (PNum n))"
| "parseAgeDays (Number _) = Inl (js ''value_not_integer'')"
| "parseAgeDays _ = Inl (js ''invalid_value'')"

fun parseToken :: "jsval \<Rightarrow> jstr list \<Rightarrow> jstr \<Rightarrow> jstr + payload" where
  "parseToken (Str s) allowed code = (if isOneOf (Str s) allowed then Inr (PText s) else Inl code)"
| "parseToken _ allowed code = Inl code"

definition parsePayload ::
  "factorSpec \<Rightarrow> factorInputState \<Rightarrow> jstr \<Rightarrow> jsval \<Rightarrow> jstr + payload" where
  "parsePayload spec state key raw =
     (if key = js ''values'' then parseSeverityValues raw
      else case spec of
        AgeSpec \<Rightarrow> parseAgeDays raw
      | SeveritySpec \<Rightarrow> parseToken raw SEVERITY_UNKNOWN_TOKENS (js ''invalid_value'')
      | TokenSpec obs unk reasons \<Rightarrow>
          if key = js ''reason'' then parseToken raw reasons (js ''invalid_reason'')
          else parseToken raw (if state = observed then obs else unk) (js ''invalid_value''))"

definition MISSING_PAYLOAD_CODE :: "jstr \<Rightarrow> jstr" where
  "MISSING_PAYLOAD_CODE key =
     (if key = js ''reason'' then js ''missing_reason'' else js ''missing_value'')"

definition stateOf :: "jsval \<Rightarrow> factorInputState option" where
  "stateOf value = find (\<lambda>st. value = Str (inputStateName st)) FACTOR_INPUT_STATES"

definition parseFactor :: "factorSpec \<Rightarrow> jsval \<Rightarrow> jstr list + fact" where
  "parseFactor spec raw =
     (case readPlainRecord raw of
        None \<Rightarrow> Inl [js ''factor_not_plain_object'']
      | Some record \<Rightarrow>
          (case map_of record (js ''state'') of
             None \<Rightarrow> Inl [js ''missing_state'']
           | Some rawState \<Rightarrow>
               (case stateOf rawState of
                  None \<Rightarrow> Inl [js ''invalid_state'']
                | Some state \<Rightarrow>
                    if state = unknown \<and> \<not> acceptsUnknown spec then Inl [js ''state_not_accepted'']
                    else
                      let key = payloadKey spec state;
                          issues = (if list_ex (\<lambda>(property, _).
                                        property \<noteq> js ''state'' \<and> Some property \<noteq> key) record
                                    then [js ''unexpected_property''] else [])
                      in (case key of
                            None \<Rightarrow> if length issues > 0 then Inl issues else Inr (Fact state None)
                          | Some k \<Rightarrow>
                              (case map_of record k of
                                 None \<Rightarrow> Inl (issues @ [MISSING_PAYLOAD_CODE k])
                               | Some rawPayload \<Rightarrow>
                                   (case parsePayload spec state k rawPayload of
                                      Inl code \<Rightarrow> Inl (issues @ [code])
                                    | Inr payload \<Rightarrow>
                                        if length issues > 0 then Inl issues
                                        else Inr (Fact state (Some (k, payload)))))))))"

subsection \<open>Issues\<close>

type_synonym factInputIssue = "factorId option \<times> jstr"

definition issueOrdinal :: "factorId option \<Rightarrow> int" where
  "issueOrdinal f =
     (case f of None \<Rightarrow> int (length FACTOR_IDS + 1) | Some g \<Rightarrow> int (factorOrdinal g))"

definition compareIssues :: "factInputIssue \<Rightarrow> factInputIssue \<Rightarrow> int" where
  "compareIssues left right =
     (let leftOrdinal = issueOrdinal (fst left); rightOrdinal = issueOrdinal (fst right)
      in if leftOrdinal \<noteq> rightOrdinal then leftOrdinal - rightOrdinal
         else if snd left = snd right then 0
         else if js_less (snd left) (snd right) then - 1 else 1)"

definition issueKey :: "factInputIssue \<Rightarrow> jstr" where
  "issueKey issue =
     (case fst issue of None \<Rightarrow> [] | Some f \<Rightarrow> factorName f) @ js '':'' @ snd issue"

text \<open>A JavaScript \<^verbatim>\<open>Map\<close> keeps the position of the first insertion of a key, as \<open>AList.update\<close> does.\<close>

definition uniqueIssues :: "factInputIssue list \<Rightarrow> factInputIssue list" where
  "uniqueIssues issues = map snd (fold (\<lambda>issue. AList.update (issueKey issue) issue) issues [])"

definition factInputError :: "factInputIssue list \<Rightarrow> factInputIssue list" where
  "factInputError issues = cmp_sort compareIssues (uniqueIssues issues)"

definition factsNotParsedError :: "factInputIssue list" where
  "factsNotParsedError = factInputError [(None, js ''facts_not_parsed'')]"

definition parseFactorStep ::
  "plainRecord \<Rightarrow> factorId \<Rightarrow> factInputIssue list \<times> facts \<Rightarrow> factInputIssue list \<times> facts" where
  "parseFactorStep record factorId acc =
     (case map_of record (factorName factorId) of
        None \<Rightarrow> (fst acc @ [(Some factorId, js ''missing_factor'')], snd acc)
      | Some raw \<Rightarrow>
          (case parseFactor (FACTOR_SPECS factorId) raw of
             Inl codes \<Rightarrow> (fst acc @ map (\<lambda>code. (Some factorId, code)) codes, snd acc)
           | Inr parsed \<Rightarrow> (fst acc, snd acc @ [(factorId, parsed)])))"

definition unknownFactorIssues :: "plainRecord \<Rightarrow> factInputIssue list" where
  "unknownFactorIssues record =
     map (\<lambda>_. (None, js ''unknown_factor''))
       (filter (\<lambda>(key, _). \<not> isOneOf (Str key) FACTOR_NAMES) record)"

definition parseFacts :: "jsval \<Rightarrow> factInputIssue list + facts" where
  "parseFacts input =
     (case readPlainRecord input of
        None \<Rightarrow> Inl (factInputError [(None, js ''facts_not_plain_object'')])
      | Some record \<Rightarrow>
          let (issues, facts) =
                fold (parseFactorStep record) FACTOR_IDS (unknownFactorIssues record, [])
          in if length issues > 0 then Inl (factInputError issues) else Inr facts)"

subsection \<open>The type of parsed facts\<close>

definition wf_payload :: "factorSpec \<Rightarrow> factorInputState \<Rightarrow> payload \<Rightarrow> bool" where
  "wf_payload spec state payload =
     (case spec of
        SeveritySpec \<Rightarrow>
          (case payload of
             PTexts rs \<Rightarrow> state = observed \<and> 0 < length rs \<and> length rs \<le> SEVERITY_MAX_VALUES
                            \<and> set rs \<subseteq> set SEVERITY_RATINGS
           | PText t \<Rightarrow> state = unknown \<and> t \<in> set SEVERITY_UNKNOWN_TOKENS
           | _ \<Rightarrow> False)
      | AgeSpec \<Rightarrow>
          (case payload of
             PNum n \<Rightarrow> state = observed \<and> 0 \<le> n \<and> n \<le> FINDING_AGE_DAYS_MAX
           | _ \<Rightarrow> False)
      | TokenSpec obs unk reasons \<Rightarrow>
          (case payload of
             PText t \<Rightarrow> t \<in> set (case state of observed \<Rightarrow> obs | unknown \<Rightarrow> unk
                                           | unavailable \<Rightarrow> reasons)
           | _ \<Rightarrow> False))"

fun wf_fact :: "factorSpec \<Rightarrow> fact \<Rightarrow> bool" where
  "wf_fact spec (Fact state p) =
     ((state = unknown \<longrightarrow> acceptsUnknown spec) \<and>
      (case p of
         None \<Rightarrow> payloadKey spec state = None
       | Some (k, payload) \<Rightarrow> payloadKey spec state = Some k \<and> wf_payload spec state payload))"

definition wf_facts :: "facts \<Rightarrow> bool" where
  "wf_facts facts \<longleftrightarrow>
     map fst facts = FACTOR_IDS \<and> list_all (\<lambda>(f, x). wf_fact (FACTOR_SPECS f) x) facts"

text \<open>The plain JavaScript object that a well-typed caller passes.\<close>

fun payloadToJs :: "payload \<Rightarrow> jsval" where
  "payloadToJs (PText t) = Str t"
| "payloadToJs (PNum n) = Number (Integral n)"
| "payloadToJs (PTexts ts) = plainArrayOf 0 (map Str ts)"

fun factToJs :: "fact \<Rightarrow> jsval" where
  "factToJs (Fact state p) =
     plainObject 0 ((js ''state'', Str (inputStateName state)) #
       (case p of None \<Rightarrow> [] | Some (k, payload) \<Rightarrow> [(k, payloadToJs payload)]))"

definition factsToJs :: "facts \<Rightarrow> jsval" where
  "factsToJs facts = plainObject 0 (map (\<lambda>(f, x). (factorName f, factToJs x)) facts)"

subsection \<open>Parsing one factor\<close>

lemma stateOf_iff: "stateOf v = Some st \<longleftrightarrow> v = Str (inputStateName st)"
  by (cases st) (auto simp: stateOf_def FACTOR_INPUT_STATES_def)

lemma stateOf_name [simp]: "stateOf (Str (inputStateName st)) = Some st"
  by (simp add: stateOf_iff)

lemma readRatings_Inr:
  "readRatings vs acc = Inr p \<longleftrightarrow>
     (\<exists>ts. vs = map Str ts \<and> set ts \<subseteq> set SEVERITY_RATINGS \<and> p = PTexts (acc @ ts))"
proof (induction vs arbitrary: acc)
  case Nil
  then show ?case by auto
next
  case (Cons v vs)
  show ?case
  proof (cases v)
    case (Str s)
    with Cons show ?thesis
      by (cases "s \<in> set SEVERITY_RATINGS") (force simp: isOneOf_def Cons_eq_map_conv)+
  qed (use Cons_eq_map_conv in auto)
qed

lemma readRatings_Inl: "readRatings vs acc = Inl c \<Longrightarrow> c = js ''invalid_value''"
  by (induction vs acc rule: readRatings.induct) (auto split: jsval.splits if_splits)

lemma parseToken_Inr: "parseToken v allowed c = Inr p \<longleftrightarrow> (\<exists>t \<in> set allowed. v = Str t \<and> p = PText t)"
  by (cases v) (auto simp: isOneOf_def)

lemma parseAgeDays_Inr:
  "parseAgeDays v = Inr p \<longleftrightarrow>
     (\<exists>n. v = Number (Integral n) \<and> 0 \<le> n \<and> n \<le> FINDING_AGE_DAYS_MAX \<and> p = PNum n)"
  by (cases v rule: parseAgeDays.cases) auto

lemma parseSeverityValues_Inr:
  "parseSeverityValues v = Inr p \<Longrightarrow>
     \<exists>ts. p = PTexts ts \<and> 0 < length ts \<and> length ts \<le> SEVERITY_MAX_VALUES
          \<and> set ts \<subseteq> set SEVERITY_RATINGS"
  by (force simp: parseSeverityValues_def readRatings_Inr split: plainArray.splits if_splits
      dest: readPlainArray_bound)

lemma payloadKey_simps [simp]:
  "payloadKey spec unavailable = Some k \<longleftrightarrow>
     k = js ''reason'' \<and> (\<exists>obs unk r rs. spec = TokenSpec obs unk (r # rs))"
  "payloadKey spec observed = Some (if spec = SeveritySpec then js ''values'' else js ''value'')"
  "payloadKey spec unknown = Some (js ''value'')"
  by (auto simp: payloadKey_def neq_Nil_conv split: factorSpec.splits if_splits)

lemma parsePayload_wf:
  assumes "payloadKey spec state = Some k" "state = unknown \<longrightarrow> acceptsUnknown spec"
    and "parsePayload spec state k raw = Inr p"
  shows "wf_payload spec state p"
proof (cases spec)
  case SeveritySpec
  with assms show ?thesis
    by (cases state)
      (auto simp: parsePayload_def wf_payload_def parseToken_Inr dest: parseSeverityValues_Inr)
next
  case AgeSpec
  with assms show ?thesis
    by (cases state) (auto simp: parsePayload_def wf_payload_def parseAgeDays_Inr)
next
  case (TokenSpec obs unk rs)
  with assms show ?thesis
    by (cases state) (auto simp: parsePayload_def wf_payload_def parseToken_Inr)
qed

lemma parseFactor_wf: "parseFactor spec raw = Inr x \<Longrightarrow> wf_fact spec x"
  by (auto simp: parseFactor_def Let_def split: option.splits if_splits sum.splits
      dest: parsePayload_wf)

lemma parseFactor_issues_nonempty: "parseFactor spec raw = Inl cs \<Longrightarrow> cs \<noteq> []"
  by (auto simp: parseFactor_def Let_def split: option.splits if_splits sum.splits)

lemma parsePayload_code:
  "parsePayload spec st k raw = Inl c \<Longrightarrow> c \<in> set FACT_INPUT_ISSUE_CODES"
proof -
  have "parseToken raw al c' = Inl c \<Longrightarrow> c = c'" for al c'
    by (cases raw) (auto split: if_splits)
  moreover have "parseAgeDays raw = Inl c \<Longrightarrow> c \<in> set FACT_INPUT_ISSUE_CODES"
    by (cases raw rule: parseAgeDays.cases) (auto simp: FACT_INPUT_ISSUE_CODES_def split: if_splits)
  moreover have "parseSeverityValues raw = Inl c \<Longrightarrow> c \<in> set FACT_INPUT_ISSUE_CODES"
    by (auto simp: parseSeverityValues_def FACT_INPUT_ISSUE_CODES_def dest: readRatings_Inl
        split: plainArray.splits if_splits)
  ultimately show "parsePayload spec st k raw = Inl c \<Longrightarrow> ?thesis"
    by (auto simp: parsePayload_def FACT_INPUT_ISSUE_CODES_def split: if_splits factorSpec.splits)
qed

lemma parseFactor_codes:
  "parseFactor spec raw = Inl cs \<Longrightarrow> set cs \<subseteq> set FACT_INPUT_ISSUE_CODES"
  by (auto simp: parseFactor_def Let_def FACT_INPUT_ISSUE_CODES_def MISSING_PAYLOAD_CODE_def
      split: option.splits if_splits sum.splits
      dest!: parsePayload_code [unfolded FACT_INPUT_ISSUE_CODES_def])

text \<open>A well-typed fact, written as a plain object, is accepted and read back unchanged.\<close>

lemma parsePayload_complete:
  assumes "payloadKey spec state = Some k" "wf_payload spec state p"
  shows "parsePayload spec state k (payloadToJs p) = Inr p"
proof (cases spec)
  case SeveritySpec
  with assms show ?thesis
    by (cases state; cases p)
      (auto simp: parsePayload_def wf_payload_def parseToken_Inr parseSeverityValues_def
        readRatings_Inr)
next
  case AgeSpec
  with assms show ?thesis
    by (cases state; cases p) (auto simp: parsePayload_def wf_payload_def)
next
  case (TokenSpec obs unk rs)
  with assms show ?thesis
    by (cases state; cases p) (auto simp: parsePayload_def wf_payload_def parseToken_Inr)
qed

lemma payloadKey_not_state: "payloadKey spec st = Some k \<Longrightarrow> k \<noteq> js ''state''"
  by (cases st) (auto split: if_splits)

lemma parseFactor_complete:
  assumes "wf_fact spec x"
  shows "parseFactor spec (factToJs x) = Inr x"
proof (cases x)
  case (Fact st p)
  show ?thesis
  proof (cases p)
    case None
    with Fact assms show ?thesis by (simp add: parseFactor_def)
  next
    case (Some kp)
    then obtain k q where p: "p = Some (k, q)" by (cases kp) auto
    with Fact assms have k: "payloadKey spec st = Some k" "wf_payload spec st q"
      "st = unknown \<longrightarrow> acceptsUnknown spec" by auto
    with Fact p show ?thesis
      using payloadKey_not_state [OF k(1)] parsePayload_complete [OF k(1,2)]
      by (auto simp: parseFactor_def)
  qed
qed

subsection \<open>Issue order\<close>

lemma issueOrdinal_inject [simp]: "issueOrdinal f = issueOrdinal g \<longleftrightarrow> f = g"
proof -
  have "issueOrdinal None \<noteq> issueOrdinal (Some h)" for h
    by (cases h) (simp_all add: issueOrdinal_def FACTOR_IDS_def)
  moreover have "issueOrdinal (Some h) = issueOrdinal (Some k) \<longleftrightarrow> h = k" for h k
    by (simp add: issueOrdinal_def)
  ultimately show ?thesis
    by (cases f; cases g) (simp_all, metis)
qed

lemma compareIssues_le:
  "compareIssues x y \<le> 0 \<longleftrightarrow>
     issueOrdinal (fst x) < issueOrdinal (fst y) \<or>
     fst x = fst y \<and> (snd x = snd y \<or> js_less (snd x) (snd y))"
  using issueOrdinal_inject [of "fst x" "fst y"]
  by (simp add: compareIssues_def Let_def less_le del: issueOrdinal_inject)

interpretation issueOrder: total_cmp compareIssues
proof (unfold_locales, goal_cases)
  case (1 x)
  then show ?case by (simp add: compareIssues_def)
next
  case (2 y x)
  then show ?case
    using js_less_flip [of "snd x" "snd y"] by (auto simp: compareIssues_def Let_def)
next
  case (3 x y z)
  then show ?case
    using js_less_trans [of "snd x" "snd y" "snd z"] by (auto simp: compareIssues_le)
next
  case (4 x y)
  then show ?case
    by (auto simp: compareIssues_def Let_def prod_eq_iff split: if_splits)
qed

lemma colon_not_in_factorName: "58 \<notin> set (factorName f)"
  by (cases f) (simp_all add: js_def)

lemma append_sep_inject:
  "c \<notin> set xs \<Longrightarrow> c \<notin> set ys \<Longrightarrow> xs @ c # us = ys @ c # vs \<longleftrightarrow> xs = ys \<and> us = vs"
proof (induction xs arbitrary: ys)
  case Nil
  then show ?case by (cases ys) auto
next
  case (Cons x xs)
  then show ?case by (cases ys) auto
qed

lemma factorName_not_Nil [simp]: "factorName f \<noteq> []"
  by (cases f) (simp_all add: js_def)

lemma issueKey_inject: "issueKey x = issueKey y \<longleftrightarrow> x = y"
proof -
  have colon: "js '':'' = [58]" by (simp add: js_def)
  show ?thesis
    unfolding issueKey_def colon
    by (simp add: append_sep_inject colon_not_in_factorName prod_eq_iff
        factorName_not_Nil [symmetric] split: option.splits)
qed

lemma unique_fold_inv:
  assumes "list_all (\<lambda>(k, i). k = issueKey i) m" "distinct (map fst m)"
  shows "list_all (\<lambda>(k, i). k = issueKey i) (fold (\<lambda>i. AList.update (issueKey i) i) is m) \<and>
         distinct (map fst (fold (\<lambda>i. AList.update (issueKey i) i) is m)) \<and>
         snd ` set (fold (\<lambda>i. AList.update (issueKey i) i) is m) = snd ` set m \<union> set is"
  using assms
proof (induction "is" arbitrary: m)
  case Nil
  then show ?case by simp
next
  case (Cons i "is")
  let ?m = "AList.update (issueKey i) i m"
  have inv: "list_all (\<lambda>(k, i). k = issueKey i) ?m"
    and sub: "snd ` set ?m = insert i (snd ` set m)"
    using Cons.prems(1) by (induction m) (auto simp: issueKey_inject split: if_splits)
  have "distinct (map fst ?m)" using Cons.prems(2) by (rule distinct_update)
  from Cons.IH [OF inv this] sub show ?case by auto
qed

lemma uniqueIssues_props: "distinct (uniqueIssues is)" "set (uniqueIssues is) = set is"
proof -
  let ?m = "fold (\<lambda>i. AList.update (issueKey i) i) is []"
  have m: "list_all (\<lambda>(k, i). k = issueKey i) ?m" "distinct (map fst ?m)" "snd ` set ?m = set is"
    using unique_fold_inv [of "[]" "is"] by simp_all
  have "map fst ?m = map issueKey (map snd ?m)"
    using m(1) by (simp add: list_all_iff case_prod_beta)
  with m(2) have "distinct (map issueKey (map snd ?m))" by (simp only:)
  then have "distinct (map snd ?m)" by (subst (asm) distinct_map) (rule conjunct1)
  then show "distinct (uniqueIssues is)" by (simp only: uniqueIssues_def)
  show "set (uniqueIssues is) = set is"
    using m(3) by (simp add: uniqueIssues_def)
qed

lemma factInputError_props:
  "sorted_cmp compareIssues (factInputError is)" "distinct (factInputError is)"
  "set (factInputError is) = set is"
  unfolding factInputError_def
  by (simp_all add: issueOrder.sorted_cmp_sort uniqueIssues_props)
    (metis mset_cmp_sort mset_eq_imp_distinct_iff uniqueIssues_props(1))

subsection \<open>Parsing all facts\<close>

definition factorIssues :: "plainRecord \<Rightarrow> factorId \<Rightarrow> factInputIssue list" where
  "factorIssues record f = fst (parseFactorStep record f ([], []))"

definition factorFacts :: "plainRecord \<Rightarrow> factorId \<Rightarrow> facts" where
  "factorFacts record f = snd (parseFactorStep record f ([], []))"

lemma fold_parseFactorStep:
  "fold (parseFactorStep record) ids (is, fs) =
     (is @ concat (map (factorIssues record) ids), fs @ concat (map (factorFacts record) ids))"
proof (induction ids arbitrary: "is" fs)
  case Nil
  then show ?case by simp
next
  case (Cons f ids)
  have "parseFactorStep record f (is, fs) = (is @ factorIssues record f, fs @ factorFacts record f)"
    by (simp add: factorIssues_def factorFacts_def parseFactorStep_def split: option.splits sum.splits)
  with Cons show ?case by simp
qed

lemma factorIssues_Nil_iff:
  "factorIssues record f = [] \<longleftrightarrow>
     (\<exists>raw x. map_of record (factorName f) = Some raw \<and> parseFactor (FACTOR_SPECS f) raw = Inr x)"
  by (auto simp: factorIssues_def parseFactorStep_def split: option.splits sum.splits
      dest: parseFactor_issues_nonempty)

lemma factorFacts_Some:
  "map_of record (factorName f) = Some raw \<Longrightarrow> parseFactor (FACTOR_SPECS f) raw = Inr x \<Longrightarrow>
   factorFacts record f = [(f, x)]"
  by (simp add: factorFacts_def parseFactorStep_def)

definition collectedIssues :: "plainRecord \<Rightarrow> factInputIssue list" where
  "collectedIssues record =
     unknownFactorIssues record @ concat (map (factorIssues record) FACTOR_IDS)"

lemma parseFacts_unfold:
  "parseFacts input =
     (case readPlainRecord input of
        None \<Rightarrow> Inl (factInputError [(None, js ''facts_not_plain_object'')])
      | Some record \<Rightarrow>
          if collectedIssues record \<noteq> [] then Inl (factInputError (collectedIssues record))
          else Inr (concat (map (factorFacts record) FACTOR_IDS)))"
  by (auto simp: parseFacts_def fold_parseFactorStep collectedIssues_def split: option.splits)

lemma unknownFactorIssues_Nil_iff:
  "unknownFactorIssues record = [] \<longleftrightarrow> fst ` set record \<subseteq> set FACTOR_NAMES"
  by (auto simp: unknownFactorIssues_def filter_empty_conv)

lemma collectedIssues_Nil_iff:
  "collectedIssues record = [] \<longleftrightarrow>
     fst ` set record \<subseteq> set FACTOR_NAMES \<and>
     (\<forall>f. \<exists>raw x. map_of record (factorName f) = Some raw \<and>
           parseFactor (FACTOR_SPECS f) raw = Inr x)"
  by (simp add: collectedIssues_def unknownFactorIssues_Nil_iff factorIssues_Nil_iff
      UNIV_factorId [symmetric])

lemma concat_singletons: "(\<And>f. f \<in> set fs \<Longrightarrow> g f = [h f]) \<Longrightarrow> concat (map g fs) = map h fs"
  by (induction fs) auto

lemma wf_facts_iff:
  "wf_facts fs \<longleftrightarrow> (\<exists>h. fs = map (\<lambda>f. (f, h f)) FACTOR_IDS \<and> (\<forall>f. wf_fact (FACTOR_SPECS f) (h f)))"
proof
  assume w: "wf_facts fs"
  then have ids: "map fst fs = FACTOR_IDS" by (simp add: wf_facts_def)
  let ?h = "\<lambda>f. the (map_of fs f)"
  have d: "distinct (map fst fs)" using ids by simp
  have "fs = map (\<lambda>p. (fst p, ?h (fst p))) fs"
    by (rule map_idI [symmetric]) (use d in \<open>auto simp: map_of_is_SomeI\<close>)
  also have "\<dots> = map (\<lambda>f. (f, ?h f)) FACTOR_IDS"
    unfolding ids [symmetric] by simp
  finally have fs: "fs = map (\<lambda>f. (f, ?h f)) FACTOR_IDS" .
  have "wf_fact (FACTOR_SPECS f) (?h f)" for f
  proof -
    have "(f, ?h f) \<in> set (map (\<lambda>f. (f, ?h f)) FACTOR_IDS)" by auto
    then have "(f, ?h f) \<in> set fs" by (simp only: fs [symmetric])
    moreover have "\<forall>p \<in> set fs. wf_fact (FACTOR_SPECS (fst p)) (snd p)"
      using w by (simp add: wf_facts_def list_all_iff case_prod_beta)
    ultimately show ?thesis by (metis fst_conv snd_conv)
  qed
  then show "\<exists>h. fs = map (\<lambda>f. (f, h f)) FACTOR_IDS \<and> (\<forall>f. wf_fact (FACTOR_SPECS f) (h f))"
    by (intro exI [of _ ?h] conjI fs allI)
next
  assume "\<exists>h. fs = map (\<lambda>f. (f, h f)) FACTOR_IDS \<and> (\<forall>f. wf_fact (FACTOR_SPECS f) (h f))"
  then show "wf_facts fs" by (auto simp: wf_facts_def list_all_iff comp_def)
qed

lemma parseFacts_Inr_iff:
  "parseFacts input = Inr fs \<longleftrightarrow>
     (\<exists>record h. readPlainRecord input = Some record \<and> fst ` set record \<subseteq> set FACTOR_NAMES \<and>
        fs = map (\<lambda>f. (f, h f)) FACTOR_IDS \<and>
        (\<forall>f. \<exists>raw. map_of record (factorName f) = Some raw \<and>
              parseFactor (FACTOR_SPECS f) raw = Inr (h f)))"
  (is "_ \<longleftrightarrow> (\<exists>record h. ?P record h)")
proof
  assume "parseFacts input = Inr fs"
  then obtain rc where r: "readPlainRecord input = Some rc" "collectedIssues rc = []"
    and fs: "fs = concat (map (factorFacts rc) FACTOR_IDS)"
    by (auto simp: parseFacts_unfold split: option.splits if_splits)
  from r(2) obtain h where h: "\<forall>f. \<exists>raw. map_of rc (factorName f) = Some raw \<and>
      parseFactor (FACTOR_SPECS f) raw = Inr (h f)"
    unfolding collectedIssues_Nil_iff by metis
  have "fs = map (\<lambda>f. (f, h f)) FACTOR_IDS"
    unfolding fs by (rule concat_singletons) (use h factorFacts_Some in metis)
  with r h show "\<exists>record h. ?P record h" by (auto simp: collectedIssues_Nil_iff)
next
  assume "\<exists>record h. ?P record h"
  then obtain rc h where p: "?P rc h" by blast
  then have "concat (map (factorFacts rc) FACTOR_IDS) = fs"
    using concat_singletons [of FACTOR_IDS "factorFacts rc" "\<lambda>f. (f, h f)"]
      factorFacts_Some by metis
  moreover have "collectedIssues rc = []"
    using p unfolding collectedIssues_Nil_iff by blast
  ultimately show "parseFacts input = Inr fs"
    using p by (simp add: parseFacts_unfold)
qed

lemma parseFacts_wf: "parseFacts input = Inr fs \<Longrightarrow> wf_facts fs"
  unfolding parseFacts_Inr_iff wf_facts_iff using parseFactor_wf by blast

lemma factorName_in_NAMES: "factorName f \<in> set FACTOR_NAMES"
  by (simp add: FACTOR_NAMES_def)

lemma map_of_named:
  "f \<in> set ids \<Longrightarrow> map_of (map (\<lambda>f. (factorName f, g f)) ids) (factorName f) = Some (g f)"
  by (induction ids) auto

lemma parseFacts_factsToJs: "wf_facts fs \<Longrightarrow> parseFacts (factsToJs fs) = Inr fs"
proof -
  assume "wf_facts fs"
  then obtain h where h: "fs = map (\<lambda>f. (f, h f)) FACTOR_IDS" "\<forall>f. wf_fact (FACTOR_SPECS f) (h f)"
    by (auto simp: wf_facts_iff)
  let ?r = "map (\<lambda>f. (factorName f, factToJs (h f))) FACTOR_IDS"
  have "readPlainRecord (factsToJs fs) = Some ?r"
    using h(1) by (simp add: factsToJs_def comp_def)
  moreover have "fst ` set ?r \<subseteq> set FACTOR_NAMES"
    by (auto simp: factorName_in_NAMES)
  moreover have "\<forall>f. \<exists>raw. map_of ?r (factorName f) = Some raw \<and>
      parseFactor (FACTOR_SPECS f) raw = Inr (h f)"
    using h(2) by (simp add: map_of_named parseFactor_complete)
  ultimately show ?thesis
    using h(1) unfolding parseFacts_Inr_iff by blast
qed

subsection \<open>Properties\<close>

text \<open>
  C23. Acceptance: \<^verbatim>\<open>parseFactInput\<close> accepts an input exactly when it is a plain object whose keys are
  the ten catalog factors and nothing else, each of which parses; the result has the type
  \<^verbatim>\<open>PriorityFactInput\<close>, in catalog order.
\<close>

theorem parseFacts_accepts:
  "parseFacts input = Inr fs \<longleftrightarrow>
     wf_facts fs \<and>
     (\<exists>entries. readPlainRecord input = Some entries \<and>
        fst ` set entries \<subseteq> set FACTOR_NAMES \<and>
        (\<forall>(f, x) \<in> set fs. \<exists>raw. map_of entries (factorName f) = Some raw \<and>
            parseFactor (FACTOR_SPECS f) raw = Inr x))"
proof
  assume p: "parseFacts input = Inr fs"
  then obtain rc h where "readPlainRecord input = Some rc" "fst ` set rc \<subseteq> set FACTOR_NAMES"
    "fs = map (\<lambda>f. (f, h f)) FACTOR_IDS"
    "\<forall>f. \<exists>raw. map_of rc (factorName f) = Some raw \<and> parseFactor (FACTOR_SPECS f) raw = Inr (h f)"
    unfolding parseFacts_Inr_iff by blast
  then show "wf_facts fs \<and>
     (\<exists>entries. readPlainRecord input = Some entries \<and>
        fst ` set entries \<subseteq> set FACTOR_NAMES \<and>
        (\<forall>(f, x) \<in> set fs. \<exists>raw. map_of entries (factorName f) = Some raw \<and>
            parseFactor (FACTOR_SPECS f) raw = Inr x))"
    using parseFacts_wf [OF p] by simp
next
  assume a: "wf_facts fs \<and>
     (\<exists>entries. readPlainRecord input = Some entries \<and>
        fst ` set entries \<subseteq> set FACTOR_NAMES \<and>
        (\<forall>(f, x) \<in> set fs. \<exists>raw. map_of entries (factorName f) = Some raw \<and>
            parseFactor (FACTOR_SPECS f) raw = Inr x))"
  then obtain entries where e: "readPlainRecord input = Some entries"
    "fst ` set entries \<subseteq> set FACTOR_NAMES"
    and raws: "\<forall>(f, x) \<in> set fs. \<exists>raw. map_of entries (factorName f) = Some raw \<and>
      parseFactor (FACTOR_SPECS f) raw = Inr x" by blast
  obtain h where h: "fs = map (\<lambda>f. (f, h f)) FACTOR_IDS" using a unfolding wf_facts_iff by blast
  then have "(f, h f) \<in> set fs" for f by simp
  with raws have "\<forall>f. \<exists>raw. map_of entries (factorName f) = Some raw \<and>
      parseFactor (FACTOR_SPECS f) raw = Inr (h f)" by fast
  with e h show "parseFacts input = Inr fs" unfolding parseFacts_Inr_iff by blast
qed

text \<open>Facts in which nothing is known, the least a caller can pass.\<close>

definition noFacts :: facts where
  [eval_defs]: "noFacts = map (\<lambda>f. (f, Fact unavailable
     (if f = kev_listed then Some (js ''reason'', PText (js ''no_canonical_cve'')) else None)))
     FACTOR_IDS"

lemma wf_noFacts: "wf_facts noFacts"
  by (simp add: wf_facts_def noFacts_def FACTOR_IDS_def payloadKey_def wf_payload_def
      KEV_UNAVAILABLE_REASONS_def)

theorem parseFacts_accepts_witness:
  "parseFacts (factsToJs noFacts) = Inr noFacts \<and>
   (\<exists>entries. readPlainRecord (factsToJs noFacts) = Some entries \<and>
      fst ` set entries \<subseteq> set FACTOR_NAMES)"
proof -
  have p: "parseFacts (factsToJs noFacts) = Inr noFacts"
    by (rule parseFacts_factsToJs [OF wf_noFacts])
  from p [unfolded parseFacts_accepts] show ?thesis using p by blast
qed

text \<open>
  Round trip: facts of the declared type, passed as a plain object, are accepted and come back
  unchanged.
\<close>

theorem parseFacts_roundtrip: "wf_facts fs \<Longrightarrow> parseFacts (factsToJs fs) = Inr fs"
  by (rule parseFacts_factsToJs)

theorem parseFacts_roundtrip_witness:
  "wf_facts noFacts \<and> parseFacts (factsToJs noFacts) = Inr noFacts"
  using parseFacts_roundtrip [OF wf_noFacts] wf_noFacts by blast

text \<open>
  Errors: a rejected input reports at least one issue; the issues are closed codes, without
  duplicates, in the order of the catalog ordinal and then of the code, and they are exactly the
  issues found on the way.
\<close>

theorem parseFacts_errors:
  assumes "parseFacts input = Inl issues"
  shows "issues \<noteq> [] \<and> distinct issues \<and> sorted_cmp compareIssues issues \<and>
         snd ` set issues \<subseteq> set FACT_INPUT_ISSUE_CODES \<and>
         set issues = (case readPlainRecord input of
                         None \<Rightarrow> {(None, js ''facts_not_plain_object'')}
                       | Some entries \<Rightarrow> set (collectedIssues entries))"
proof -
  have codes: "snd ` set (factorIssues r f) \<subseteq> set FACT_INPUT_ISSUE_CODES" for r f
    by (force simp: factorIssues_def parseFactorStep_def FACT_INPUT_ISSUE_CODES_def
        dest: parseFactor_codes [unfolded FACT_INPUT_ISSUE_CODES_def]
        split: option.splits sum.splits)
  have unk: "snd ` set (unknownFactorIssues r) \<subseteq> set FACT_INPUT_ISSUE_CODES" for r
    by (auto simp: unknownFactorIssues_def FACT_INPUT_ISSUE_CODES_def)
  have all: "snd ` set (collectedIssues r) \<subseteq> set FACT_INPUT_ISSUE_CODES" for r
    using codes unk by (auto simp: collectedIssues_def image_Un image_UN)
  obtain iss where "issues = factInputError iss" "iss \<noteq> []"
    "set iss = (case readPlainRecord input of
                         None \<Rightarrow> {(None, js ''facts_not_plain_object'')}
                       | Some entries \<Rightarrow> set (collectedIssues entries))"
    "snd ` set iss \<subseteq> set FACT_INPUT_ISSUE_CODES"
    using assms all
    by (auto simp: parseFacts_unfold FACT_INPUT_ISSUE_CODES_def split: option.splits if_splits)
  then show ?thesis
    using factInputError_props [of iss] by (metis set_empty)
qed

theorem parseFacts_errors_witness:
  "parseFacts Null = Inl [(None, js ''facts_not_plain_object'')] \<and>
   snd ` set [(None :: factorId option, js ''facts_not_plain_object'')]
     \<subseteq> set FACT_INPUT_ISSUE_CODES"
proof -
  have p: "parseFacts Null = Inl [(None, js ''facts_not_plain_object'')]"
    by (simp add: parseFacts_def factInputError_def uniqueIssues_def)
  show ?thesis using parseFacts_errors [OF p] p by blast
qed

end
