(* ===== verification/PolicyDefinition.thy ===== *)
theory PolicyDefinition
  imports PolicyFacts
begin

text \<open>
  \<^verbatim>\<open>packages/policy-engine/src/definition.ts\<close> and \<^verbatim>\<open>builtin-definition.ts\<close>: validation of policy
  definitions and of organization overrides. The issue collector is threaded through the validators;
  a \<^verbatim>\<open>null\<close> result is \<open>None\<close>. Objects with fixed keys are association lists in the order in which the
  validator adds the keys, so equality of two sections is equality of their \<^verbatim>\<open>JSON.stringify\<close> texts.
  \<open>wf_definition\<close> states what a validated definition promises; the locale \<open>validator\<close> is the contract
  that the section validators share.
\<close>

record ageBucket =
  minDays :: int
  percent :: int

record policyBand =
  band :: priorityBand
  minPriority :: int
  dueDateRecommendationDays :: int

record policyNormalization =
  tokenPercents :: "(factorId \<times> (jstr \<times> int) list) list"
  ageBuckets :: "ageBucket list"

record policyRules =
  kevMinimumBand :: priorityBand
  kevEscalation :: jstr

record policyDefinition =
  schemaVersion :: int
  policyKey :: jstr
  engineContract :: jstr
  factorCatalog :: "(factorId \<times> jstr) list"
  weights :: "(factorId \<times> int) list"
  normalization :: policyNormalization
  bands :: "policyBand list"
  rules :: policyRules

type_synonym policyIssue = "jstr \<times> jstr"
type_synonym issueList = "policyIssue list"

definition POLICY_DEFINITION_ISSUE_CODES :: "jstr list" where
  [catalog_defs]: "POLICY_DEFINITION_ISSUE_CODES = map js
     [''not_plain_object'', ''definition_not_validated'', ''missing_key'', ''unexpected_key'',
      ''invalid_type'', ''unsupported_schema_version'', ''engine_contract_mismatch'',
      ''invalid_policy_key'', ''invalid_description'', ''unknown_factor'', ''missing_factor'',
      ''duplicate_factor'', ''catalog_order_mismatch'', ''count_out_of_range'',
      ''non_finite_number'', ''not_integer'', ''out_of_range'', ''weight_sum_not_100'',
      ''withdrawn_weight_not_zero'', ''unknown_token'', ''missing_token'',
      ''percent_order_violation'', ''favorable_extreme_not_zero'', ''age_bucket_start_not_zero'',
      ''age_bucket_order_violation'', ''band_order_mismatch'',
      ''band_threshold_order_violation'', ''lowest_band_minimum_not_zero'',
      ''due_days_order_violation'', ''invalid_rule'']"

definition ROOT :: jstr where
  "ROOT = js ''$''"

definition TOP_LEVEL_KEYS :: "jstr list" where
  [catalog_defs]: "TOP_LEVEL_KEYS = map js [''schemaVersion'', ''policyKey'', ''engineContract'',
     ''factorCatalog'', ''weights'', ''normalization'', ''bands'', ''rules'']"

definition CATALOG_ENTRY_KEYS :: "jstr list" where
  [catalog_defs]: "CATALOG_ENTRY_KEYS = [js ''factorId'', js ''description'']"

definition AGE_BUCKET_KEYS :: "jstr list" where
  [catalog_defs]: "AGE_BUCKET_KEYS = [js ''minDays'', js ''percent'']"

definition BAND_KEYS :: "jstr list" where
  [catalog_defs]: "BAND_KEYS = [js ''band'', js ''minPriority'', js ''dueDateRecommendationDays'']"

definition RULE_KEYS :: "jstr list" where
  [catalog_defs]: "RULE_KEYS = [js ''kevMinimumBand'', js ''kevEscalation'']"

definition CATALOG_SCAN_MAX :: nat where
  "CATALOG_SCAN_MAX = length FACTOR_IDS * 4"

text \<open>\<^verbatim>\<open>/^[a-z0-9]+(?:[._-][a-z0-9]+)*$/\<close>; the flag says whether the last unit was a letter or digit.\<close>

definition isKeyUnit :: "nat \<Rightarrow> bool" where
  "isKeyUnit c \<longleftrightarrow> is_lower c \<or> is_digit c"

fun keyPatternFrom :: "bool \<Rightarrow> jstr \<Rightarrow> bool" where
  "keyPatternFrom afterUnit [] = afterUnit"
| "keyPatternFrom afterUnit (c # cs) =
     (if isKeyUnit c then keyPatternFrom True cs
      else afterUnit \<and> (c = 46 \<or> c = 95 \<or> c = 45) \<and> keyPatternFrom False cs)"

definition POLICY_KEY_PATTERN :: "jstr \<Rightarrow> bool" where
  "POLICY_KEY_PATTERN s = keyPatternFrom False s"

text \<open>A code point at or below \<^verbatim>\<open>0x9f\<close> is one code unit, and no surrogate is in the ranges.\<close>

definition hasControlCharacter :: "jstr \<Rightarrow> bool" where
  "hasControlCharacter value = list_ex (\<lambda>c. c \<le> 31 \<or> (127 \<le> c \<and> c \<le> 159)) value"

text \<open>
  \<^verbatim>\<open>IssueCollector.add\<close>. The private set \<^verbatim>\<open>#seen\<close> holds the keys of \<^verbatim>\<open>#issues\<close> at every moment and is
  read off the list.
\<close>

definition collectorKey :: "policyIssue \<Rightarrow> jstr" where
  "collectorKey issue = fst issue @ js '':'' @ snd issue"

definition addIssue :: "jstr \<Rightarrow> jstr \<Rightarrow> issueList \<Rightarrow> issueList" where
  "addIssue path code issues =
     (if collectorKey (path, code) \<in> set (map collectorKey issues) then issues
      else issues @ [(path, code)])"

definition readRecordWithKeys ::
  "jsval \<Rightarrow> jstr list \<Rightarrow> jstr \<Rightarrow> jstr \<Rightarrow> issueList \<Rightarrow> plainRecord option \<times> issueList" where
  "readRecordWithKeys value keys path unexpectedCode issues =
     (case readPlainRecord value of
        None \<Rightarrow> (None, addIssue path (js ''not_plain_object'') issues)
      | Some entries \<Rightarrow>
          let issues1 = fold (\<lambda>(key, _) acc.
                if key \<notin> set keys then addIssue path unexpectedCode acc else acc) entries issues;
              (complete, issues2) = fold (\<lambda>key (complete, acc).
                if map_of entries key = None
                then (False, addIssue (path @ js ''.'' @ key) (js ''missing_key'') acc)
                else (complete, acc)) keys (True, issues1)
          in (if complete then Some entries else None, issues2))"

text \<open>\<^verbatim>\<open>record.get\<close> after the presence checks; an absent key reads as \<^verbatim>\<open>undefined\<close>.\<close>

definition getKey :: "plainRecord \<Rightarrow> jstr \<Rightarrow> jsval" where
  "getKey entries key = (case map_of entries key of None \<Rightarrow> Undefined | Some v \<Rightarrow> v)"

definition readInteger ::
  "jsval \<Rightarrow> int \<Rightarrow> int \<Rightarrow> jstr \<Rightarrow> issueList \<Rightarrow> int option \<times> issueList" where
  "readInteger value lo hi path issues =
     (case value of
        Number n \<Rightarrow>
          (case n of
             Integral i \<Rightarrow>
               if i < lo \<or> i > hi then (None, addIssue path (js ''out_of_range'') issues)
               else (Some i, issues)
           | Fractional _ _ \<Rightarrow> (None, addIssue path (js ''not_integer'') issues)
           | _ \<Rightarrow> (None, addIssue path (js ''non_finite_number'') issues))
      | _ \<Rightarrow> (None, addIssue path (js ''invalid_type'') issues))"

definition isNonIncreasing :: "int list \<Rightarrow> bool" where
  "isNonIncreasing vs = list_all (\<lambda>i. i = 0 \<or> vs ! i \<le> vs ! (i - 1)) [0..<length vs]"

definition isNonDecreasing :: "int list \<Rightarrow> bool" where
  "isNonDecreasing vs = list_all (\<lambda>i. i = 0 \<or> vs ! i \<ge> vs ! (i - 1)) [0..<length vs]"

definition isStrictlyIncreasing :: "int list \<Rightarrow> bool" where
  "isStrictlyIncreasing vs = list_all (\<lambda>i. i = 0 \<or> vs ! i > vs ! (i - 1)) [0..<length vs]"

definition isStrictlyDecreasing :: "int list \<Rightarrow> bool" where
  "isStrictlyDecreasing vs = list_all (\<lambda>i. i = 0 \<or> vs ! i < vs ! (i - 1)) [0..<length vs]"

definition validatePolicyKey :: "jsval \<Rightarrow> issueList \<Rightarrow> jstr option \<times> issueList" where
  "validatePolicyKey value issues =
     (case value of
        Str s \<Rightarrow>
          if length s > POLICY_KEY_MAX_LENGTH \<or> \<not> POLICY_KEY_PATTERN s
          then (None, addIssue (js ''policyKey'') (js ''invalid_policy_key'') issues)
          else (Some s, issues)
      | _ \<Rightarrow> (None, addIssue (js ''policyKey'') (js ''invalid_policy_key'') issues))"

definition validateDescription :: "jsval \<Rightarrow> jstr \<Rightarrow> issueList \<Rightarrow> jstr option \<times> issueList" where
  "validateDescription value path issues =
     (case value of
        Str s \<Rightarrow>
          if length (js_trim s) = 0 \<or> length s > FACTOR_DESCRIPTION_MAX_LENGTH
             \<or> hasControlCharacter s
          then (None, addIssue path (js ''invalid_description'') issues)
          else (Some s, issues)
      | _ \<Rightarrow> (None, addIssue path (js ''invalid_description'') issues))"

definition factorOf :: "jsval \<Rightarrow> factorId option" where
  "factorOf value = find (\<lambda>f. value = Str (factorName f)) FACTOR_IDS"

definition bandOf :: "jsval \<Rightarrow> priorityBand option" where
  "bandOf value = find (\<lambda>b. value = Str (bandName b)) PRIORITY_BANDS"

definition indexedPath :: "jstr \<Rightarrow> nat \<Rightarrow> jstr" where
  "indexedPath path index = path @ js ''['' @ dec index @ js '']''"

text \<open>The body of the \<^verbatim>\<open>forEach\<close> of \<^verbatim>\<open>validateFactorCatalog\<close>.\<close>

definition catalogEntryStep ::
  "nat \<times> jsval \<Rightarrow> (factorId \<times> jstr) list \<times> factorId list \<times> issueList
   \<Rightarrow> (factorId \<times> jstr) list \<times> factorId list \<times> issueList" where
  "catalogEntryStep indexed acc =
     (let (index, entry) = indexed; (catalog, seen, issues) = acc;
          path = indexedPath (js ''factorCatalog'') index;
          (rec, issues1) = readRecordWithKeys entry CATALOG_ENTRY_KEYS path
                             (js ''unexpected_key'') issues
      in case rec of
           None \<Rightarrow> (catalog, seen, issues1)
         | Some entries \<Rightarrow>
             let (description, issues2) = validateDescription (getKey entries (js ''description''))
                   (path @ js ''.description'') issues1
             in (case factorOf (getKey entries (js ''factorId'')) of
                   None \<Rightarrow> (catalog, seen,
                     addIssue (js ''factorCatalog'') (js ''unknown_factor'') issues2)
                 | Some factorId \<Rightarrow>
                     if factorId \<in> set seen
                     then (catalog, seen,
                       addIssue (js ''factorCatalog'') (js ''duplicate_factor'') issues2)
                     else (case description of
                             None \<Rightarrow> (catalog, seen @ [factorId], issues2)
                           | Some d \<Rightarrow> (catalog @ [(factorId, d)], seen @ [factorId], issues2))))"

definition validateFactorCatalog ::
  "jsval \<Rightarrow> issueList \<Rightarrow> (factorId \<times> jstr) list option \<times> issueList" where
  "validateFactorCatalog value issues =
     (case readPlainArray value CATALOG_SCAN_MAX of
        NotArray \<Rightarrow> (None, addIssue (js ''factorCatalog'') (js ''invalid_type'') issues)
      | TooLong \<Rightarrow> (None, addIssue (js ''factorCatalog'') (js ''count_out_of_range'') issues)
      | Elements entries \<Rightarrow>
          let (catalog, seen, issues1) =
                fold catalogEntryStep (enumerate 0 entries) ([], [], issues);
              issues2 = fold (\<lambda>f acc. if f \<notin> set seen
                  then addIssue (js ''factorCatalog.'' @ factorName f) (js ''missing_factor'') acc
                  else acc) FACTOR_IDS issues1
          in if length issues2 > length issues then (None, issues2)
             else if list_ex (\<lambda>(index, f, _). \<not> (index < length FACTOR_IDS \<and> f = FACTOR_IDS ! index))
                       (enumerate 0 catalog)
             then (None, addIssue (js ''factorCatalog'') (js ''catalog_order_mismatch'') issues2)
             else (Some catalog, issues2))"

definition weightStep ::
  "plainRecord \<Rightarrow> factorId \<Rightarrow> (factorId \<times> int) list \<times> issueList
   \<Rightarrow> (factorId \<times> int) list \<times> issueList" where
  "weightStep entries f acc =
     (let (weight, issues) = readInteger (getKey entries (factorName f)) 0 WEIGHT_SUM
            (js ''weights.'' @ factorName f) (snd acc)
      in (case weight of None \<Rightarrow> (fst acc, issues) | Some w \<Rightarrow> (fst acc @ [(f, w)], issues)))"

text \<open>\<^verbatim>\<open>FACTOR_IDS.reduce\<close> over the weights; a missing weight makes the sum \<^verbatim>\<open>NaN\<close>, here \<open>None\<close>.\<close>

definition sumWeights :: "(factorId \<times> int) list \<Rightarrow> int option" where
  "sumWeights ws = fold (\<lambda>f total. case (total, map_of ws f) of
       (Some t, Some w) \<Rightarrow> Some (t + w) | _ \<Rightarrow> None) FACTOR_IDS (Some 0)"

definition validateWeights ::
  "jsval \<Rightarrow> issueList \<Rightarrow> (factorId \<times> int) list option \<times> issueList" where
  "validateWeights value issues =
     (let (rec, issues0) = readRecordWithKeys value FACTOR_NAMES (js ''weights'')
            (js ''unknown_factor'') issues
      in case rec of
           None \<Rightarrow> (None, issues0)
         | Some entries \<Rightarrow>
             let (ws, issues1) = fold (weightStep entries) FACTOR_IDS ([], issues0)
             in if length issues1 > length issues0 then (None, issues1)
                else
                  let issues2 = (if map_of ws INFORMATIONAL_FACTOR_ID \<noteq> Some 0
                        then addIssue (js ''weights.'' @ factorName INFORMATIONAL_FACTOR_ID)
                               (js ''withdrawn_weight_not_zero'') issues1 else issues1);
                      issues3 = (if sumWeights ws \<noteq> Some WEIGHT_SUM
                        then addIssue (js ''weights'') (js ''weight_sum_not_100'') issues2
                        else issues2)
                  in (if length issues3 > length issues0 then None else Some ws, issues3))"

definition tokenStep ::
  "jstr \<Rightarrow> plainRecord \<Rightarrow> jstr \<Rightarrow> (jstr \<times> int) list \<times> issueList
   \<Rightarrow> (jstr \<times> int) list \<times> issueList" where
  "tokenStep path entries token acc =
     (case map_of entries token of
        None \<Rightarrow> (fst acc, addIssue (path @ js ''.'' @ token) (js ''missing_token'') (snd acc))
      | Some raw \<Rightarrow>
          let (p, issues) = readInteger raw 0 PERCENT_MAX (path @ js ''.'' @ token) (snd acc)
          in (case p of None \<Rightarrow> (fst acc, issues) | Some n \<Rightarrow> (fst acc @ [(token, n)], issues)))"

definition validateTokenPercents ::
  "factorId \<Rightarrow> jsval \<Rightarrow> issueList \<Rightarrow> (jstr \<times> int) list option \<times> issueList" where
  "validateTokenPercents f value issues =
     (let path = js ''normalization.'' @ factorName f; tokens = NORMALIZED_TOKEN_FACTORS f
      in case readPlainRecord value of
           None \<Rightarrow> (None, addIssue path (js ''not_plain_object'') issues)
         | Some entries \<Rightarrow>
             let issues1 = fold (\<lambda>(key, _) acc.
                   if key \<notin> set tokens then addIssue path (js ''unknown_token'') acc else acc)
                   entries issues;
                 (percents, issues2) = fold (tokenStep path entries) tokens ([], issues1);
                 ordered = map snd percents
             in if length issues2 > length issues then (None, issues2)
                else
                  let issues3 = (if \<not> isNonIncreasing ordered
                        then addIssue path (js ''percent_order_violation'') issues2 else issues2);
                      issues4 = (if ordered = [] \<or> last ordered \<noteq> 0
                        then addIssue path (js ''favorable_extreme_not_zero'') issues3 else issues3)
                  in (if length issues4 > length issues then None else Some percents, issues4))"

definition AGE_PATH :: jstr where
  "AGE_PATH = js ''normalization.finding_age_days''"

definition ageBucketStep ::
  "nat \<times> jsval \<Rightarrow> ageBucket list \<times> issueList \<Rightarrow> ageBucket list \<times> issueList" where
  "ageBucketStep indexed acc =
     (let (index, entry) = indexed; path = indexedPath AGE_PATH index;
          (rec, issues1) = readRecordWithKeys entry AGE_BUCKET_KEYS path
                             (js ''unexpected_key'') (snd acc)
      in case rec of
           None \<Rightarrow> (fst acc, issues1)
         | Some entries \<Rightarrow>
             let (days, issues2) = readInteger (getKey entries (js ''minDays'')) 0
                   FINDING_AGE_DAYS_MAX (path @ js ''.minDays'') issues1;
                 (pct, issues3) = readInteger (getKey entries (js ''percent'')) 0
                   PERCENT_MAX (path @ js ''.percent'') issues2
             in (case (days, pct) of
                   (Some d, Some p) \<Rightarrow> (fst acc @ [\<lparr>minDays = d, percent = p\<rparr>], issues3)
                 | _ \<Rightarrow> (fst acc, issues3)))"

definition validateAgeBuckets :: "jsval \<Rightarrow> issueList \<Rightarrow> ageBucket list option \<times> issueList" where
  "validateAgeBuckets value issues =
     (case readPlainArray value FINDING_AGE_BUCKETS_MAX of
        NotArray \<Rightarrow> (None, addIssue AGE_PATH (js ''invalid_type'') issues)
      | TooLong \<Rightarrow> (None, addIssue AGE_PATH (js ''count_out_of_range'') issues)
      | Elements entries \<Rightarrow>
          if length entries = 0 then (None, addIssue AGE_PATH (js ''count_out_of_range'') issues)
          else
            let (buckets, issues1) = fold ageBucketStep (enumerate 0 entries) ([], issues)
            in if length issues1 > length issues then (None, issues1)
               else
                 let issues2 = (if buckets = [] \<or> minDays (hd buckets) \<noteq> 0
                       then addIssue AGE_PATH (js ''age_bucket_start_not_zero'') issues1
                       else issues1);
                     issues3 = (if buckets = [] \<or> percent (hd buckets) \<noteq> 0
                       then addIssue AGE_PATH (js ''favorable_extreme_not_zero'') issues2
                       else issues2);
                     issues4 = (if \<not> isStrictlyIncreasing (map minDays buckets)
                       then addIssue AGE_PATH (js ''age_bucket_order_violation'') issues3
                       else issues3);
                     issues5 = (if \<not> isNonDecreasing (map percent buckets)
                       then addIssue AGE_PATH (js ''percent_order_violation'') issues4
                       else issues4)
                 in (if length issues5 > length issues then None else Some buckets, issues5))"

text \<open>
  The loop over the token factors stores what \<^verbatim>\<open>validateTokenPercents\<close> returns. A \<^verbatim>\<open>null\<close> always
  comes with an issue, so after the count check every stored section is present.
\<close>

definition percentsStep ::
  "plainRecord \<Rightarrow> factorId \<Rightarrow> (factorId \<times> (jstr \<times> int) list option) list \<times> issueList
   \<Rightarrow> (factorId \<times> (jstr \<times> int) list option) list \<times> issueList" where
  "percentsStep entries f acc =
     (let (ps, issues) = validateTokenPercents f (getKey entries (factorName f)) (snd acc)
      in (fst acc @ [(f, ps)], issues))"

fun presentSections :: "(factorId \<times> 'a option) list \<Rightarrow> (factorId \<times> 'a) list option" where
  "presentSections [] = Some []"
| "presentSections ((f, section) # rest) =
     (case (section, presentSections rest) of
        (Some s, Some ss) \<Rightarrow> Some ((f, s) # ss) | _ \<Rightarrow> None)"

definition validateNormalization ::
  "jsval \<Rightarrow> issueList \<Rightarrow> policyNormalization option \<times> issueList" where
  "validateNormalization value issues =
     (let (rec, issues0) = readRecordWithKeys value NORMALIZATION_KEYS (js ''normalization'')
            (js ''unexpected_key'') issues
      in case rec of
           None \<Rightarrow> (None, issues0)
         | Some entries \<Rightarrow>
             let (sections, issues1) =
                   fold (percentsStep entries) NORMALIZED_TOKEN_FACTOR_IDS ([], issues0);
                 (buckets, issues2) =
                   validateAgeBuckets (getKey entries (js ''finding_age_days'')) issues1
             in (if length issues2 > length issues0 then None
                 else (case (presentSections sections, buckets) of
                         (Some ss, Some bs) \<Rightarrow> Some \<lparr>tokenPercents = ss, ageBuckets = bs\<rparr>
                       | _ \<Rightarrow> None), issues2))"

definition bandStep ::
  "nat \<times> jsval \<Rightarrow> policyBand list \<times> issueList \<Rightarrow> policyBand list \<times> issueList" where
  "bandStep indexed acc =
     (let (index, entry) = indexed; path = indexedPath (js ''bands'') index;
          (rec, issues1) = readRecordWithKeys entry BAND_KEYS path (js ''unexpected_key'') (snd acc)
      in case rec of
           None \<Rightarrow> (fst acc, issues1)
         | Some entries \<Rightarrow>
             let rawBand = getKey entries (js ''band'');
                 issues2 = (if rawBand \<noteq> Str (bandName (PRIORITY_BANDS ! index))
                   then addIssue (path @ js ''.band'') (js ''band_order_mismatch'') issues1
                   else issues1);
                 (low, issues3) = readInteger (getKey entries (js ''minPriority'')) 0
                   PRIORITY_MAX (path @ js ''.minPriority'') issues2;
                 (days, issues4) = readInteger (getKey entries (js ''dueDateRecommendationDays''))
                   DUE_DATE_RECOMMENDATION_DAYS_MIN DUE_DATE_RECOMMENDATION_DAYS_MAX
                   (path @ js ''.dueDateRecommendationDays'') issues3
             in (case (bandOf rawBand, low, days) of
                   (Some b, Some m, Some d) \<Rightarrow>
                     (fst acc @ [\<lparr>band = b, minPriority = m, dueDateRecommendationDays = d\<rparr>],
                      issues4)
                 | _ \<Rightarrow> (fst acc, issues4)))"

definition validateBands :: "jsval \<Rightarrow> issueList \<Rightarrow> policyBand list option \<times> issueList" where
  "validateBands value issues =
     (case readPlainArray value (length PRIORITY_BANDS) of
        NotArray \<Rightarrow> (None, addIssue (js ''bands'') (js ''invalid_type'') issues)
      | TooLong \<Rightarrow> (None, addIssue (js ''bands'') (js ''count_out_of_range'') issues)
      | Elements entries \<Rightarrow>
          if length entries \<noteq> length PRIORITY_BANDS
          then (None, addIssue (js ''bands'') (js ''count_out_of_range'') issues)
          else
            let (bs, issues1) = fold bandStep (enumerate 0 entries) ([], issues)
            in if length issues1 > length issues then (None, issues1)
               else
                 let issues2 = (if \<not> isStrictlyDecreasing (map minPriority bs)
                       then addIssue (js ''bands'') (js ''band_threshold_order_violation'') issues1
                       else issues1);
                     issues3 = (if bs = [] \<or> minPriority (last bs) \<noteq> 0
                       then addIssue (js ''bands'') (js ''lowest_band_minimum_not_zero'') issues2
                       else issues2);
                     issues4 = (if \<not> isNonDecreasing (map dueDateRecommendationDays bs)
                       then addIssue (js ''bands'') (js ''due_days_order_violation'') issues3
                       else issues3)
                 in (if length issues4 > length issues then None else Some bs, issues4))"

definition validateRules :: "jsval \<Rightarrow> issueList \<Rightarrow> policyRules option \<times> issueList" where
  "validateRules value issues =
     (let (rec, issues0) = readRecordWithKeys value RULE_KEYS (js ''rules'')
            (js ''unexpected_key'') issues
      in case rec of
           None \<Rightarrow> (None, issues0)
         | Some entries \<Rightarrow>
             let minimumBand = bandOf (getKey entries (js ''kevMinimumBand''));
                 escalation = getKey entries (js ''kevEscalation'');
                 issues1 = (if minimumBand = None
                   then addIssue (js ''rules.kevMinimumBand'') (js ''invalid_rule'') issues0
                   else issues0);
                 issues2 = (if escalation \<noteq> Str KEV_ESCALATION_RULE
                   then addIssue (js ''rules.kevEscalation'') (js ''invalid_rule'') issues1
                   else issues1);
                 valid = (minimumBand \<noteq> None \<and> escalation = Str KEV_ESCALATION_RULE)
             in (case minimumBand of
                   Some b \<Rightarrow>
                     (if valid then Some \<lparr>kevMinimumBand = b, kevEscalation = KEV_ESCALATION_RULE\<rparr>
                      else None, issues2)
                 | None \<Rightarrow> (None, issues2)))"

text \<open>\<^verbatim>\<open>record.has(key) ? validate(record.get(key), issues) : null\<close>\<close>

definition whenPresent ::
  "plainRecord \<Rightarrow> jstr \<Rightarrow> (jsval \<Rightarrow> issueList \<Rightarrow> 'a option \<times> issueList) \<Rightarrow> issueList
   \<Rightarrow> 'a option \<times> issueList" where
  "whenPresent entries key validate issues =
     (case map_of entries key of None \<Rightarrow> (None, issues) | Some v \<Rightarrow> validate v issues)"

definition validateDefinition :: "jsval \<Rightarrow> issueList + policyDefinition" where
  "validateDefinition input =
     (case readPlainRecord input of
        None \<Rightarrow> Inl (addIssue ROOT (js ''not_plain_object'') [])
      | Some entries \<Rightarrow>
          if getKey entries (js ''schemaVersion'') \<noteq> Number (Integral PRIORITY_POLICY_SCHEMA_VERSION)
          then Inl (addIssue (js ''schemaVersion'') (js ''unsupported_schema_version'') [])
          else
            let issues1 = fold (\<lambda>(key, _) acc. if \<not> isOneOf (Str key) TOP_LEVEL_KEYS
                  then addIssue ROOT (js ''unexpected_key'') acc else acc) entries [];
                issues2 = fold (\<lambda>key acc. if map_of entries key = None
                  then addIssue key (js ''missing_key'') acc else acc) TOP_LEVEL_KEYS issues1;
                issues3 = (if map_of entries (js ''engineContract'') \<noteq> None \<and>
                       getKey entries (js ''engineContract'') \<noteq> Str PRIORITY_ENGINE_CONTRACT
                  then addIssue (js ''engineContract'') (js ''engine_contract_mismatch'') issues2
                  else issues2);
                (key, issues4) = whenPresent entries (js ''policyKey'') validatePolicyKey issues3;
                (catalog, issues5) =
                  whenPresent entries (js ''factorCatalog'') validateFactorCatalog issues4;
                (ws, issues6) = whenPresent entries (js ''weights'') validateWeights issues5;
                (norm, issues7) =
                  whenPresent entries (js ''normalization'') validateNormalization issues6;
                (bs, issues8) = whenPresent entries (js ''bands'') validateBands issues7;
                (rs, issues9) = whenPresent entries (js ''rules'') validateRules issues8
            in if length issues9 > 0 then Inl issues9
               else (case (key, catalog, ws, norm, bs, rs) of
                       (Some k, Some c, Some w, Some n, Some b, Some r) \<Rightarrow>
                         Inr \<lparr>schemaVersion = PRIORITY_POLICY_SCHEMA_VERSION, policyKey = k,
                              engineContract = PRIORITY_ENGINE_CONTRACT, factorCatalog = c,
                              weights = w, normalization = n, bands = b, rules = r\<rparr>
                     | _ \<Rightarrow> Inl issues9))"

definition definitionNotValidatedError :: issueList where
  "definitionNotValidatedError = [(ROOT, js ''definition_not_validated'')]"

subsection \<open>Overrides\<close>

text \<open>
  The checks of \<^verbatim>\<open>validatePolicyOverride\<close> after the candidate has been validated. Sections are compared
  by their canonical text; they are built by the same validator in the same key order, so the texts
  are equal when the sections are.
\<close>

definition sectionIssues :: "policyDefinition \<Rightarrow> policyDefinition \<Rightarrow> issueList" where
  "sectionIssues parent override =
     (let differs = (\<lambda>path same. if same then [] else [(js path, js ''differs_from_parent'')])
      in differs ''policyKey'' (policyKey override = policyKey parent) @
         differs ''factorCatalog'' (factorCatalog override = factorCatalog parent) @
         differs ''normalization'' (normalization override = normalization parent) @
         differs ''bands'' (bands override = bands parent) @
         differs ''rules'' (rules override = rules parent))"

definition weightBoundIssues :: "policyDefinition \<Rightarrow> issueList" where
  "weightBoundIssues override =
     concat (map (\<lambda>f. case map_of (weights override) f of
         None \<Rightarrow> []
       | Some w \<Rightarrow>
           if w < fst (OVERRIDE_WEIGHT_BOUNDS f) \<or> w > snd (OVERRIDE_WEIGHT_BOUNDS f)
           then [(js ''weights.'' @ factorName f, js ''weight_outside_override_bounds'')] else [])
       FACTOR_IDS)"

definition overrideIssues :: "policyDefinition \<Rightarrow> policyDefinition \<Rightarrow> issueList" where
  "overrideIssues parent override = sectionIssues parent override @ weightBoundIssues override"

subsection \<open>The built-in policy\<close>

definition intObject :: "(string \<times> int) list \<Rightarrow> jsval" where
  "intObject ps = plainObject 0 (map (\<lambda>(k, n). (js k, Number (Integral n))) ps)"

definition catalogEntryObject :: "string \<Rightarrow> string \<Rightarrow> jsval" where
  "catalogEntryObject f d =
     plainObject 0 [(js ''factorId'', Str (js f)), (js ''description'', Str (js d))]"

definition bandObject :: "string \<Rightarrow> int \<Rightarrow> int \<Rightarrow> jsval" where
  "bandObject b m d =
     plainObject 0 [(js ''band'', Str (js b)), (js ''minPriority'', Number (Integral m)),
       (js ''dueDateRecommendationDays'', Number (Integral d))]"

definition builtinInput :: jsval where
  "builtinInput = plainObject 0
     [(js ''schemaVersion'', Number (Integral PRIORITY_POLICY_SCHEMA_VERSION)),
      (js ''policyKey'', Str (js ''patchpilot.builtin.v0'')),
      (js ''engineContract'', Str PRIORITY_ENGINE_CONTRACT),
      (js ''factorCatalog'', plainArrayOf 0
        [catalogEntryObject ''source_severity'' ''Highest source severity rating'',
         catalogEntryObject ''kev_listed'' ''CISA KEV catalog membership'',
         catalogEntryObject ''environment_sensitivity'' ''Environment sensitivity class'',
         catalogEntryObject ''internet_exposure'' ''Asset internet exposure'',
         catalogEntryObject ''business_criticality'' ''Asset business criticality'',
         catalogEntryObject ''asset_data_classification'' ''Asset data classification'',
         catalogEntryObject ''direct_dependency'' ''Direct or transitive dependency'',
         catalogEntryObject ''fix_available'' ''Fixed version availability'',
         catalogEntryObject ''finding_age_days'' ''Days since first observation'',
         catalogEntryObject ''advisory_withdrawn'' ''Advisory withdrawal flag'']),
      (js ''weights'', intObject
        [(''source_severity'', 40), (''kev_listed'', 20), (''environment_sensitivity'', 10),
         (''internet_exposure'', 10), (''business_criticality'', 8),
         (''asset_data_classification'', 5), (''direct_dependency'', 3), (''fix_available'', 2),
         (''finding_age_days'', 2), (''advisory_withdrawn'', 0)]),
      (js ''normalization'', plainObject 0
        [(js ''source_severity'', intObject
            [(''critical'', 100), (''high'', 75), (''medium'', 50), (''low'', 25), (''none'', 0)]),
         (js ''kev_listed'', intObject
            [(''listed_catalog_current'', 100), (''listed_catalog_stale'', 100),
             (''listed_catalog_disabled_with_history'', 100), (''not_listed_catalog_current'', 0)]),
         (js ''environment_sensitivity'', intObject [(''production'', 100), (''non_production'', 0)]),
         (js ''internet_exposure'', intObject [(''internet_facing'', 100), (''internal'', 0)]),
         (js ''business_criticality'', intObject
            [(''critical'', 100), (''high'', 50), (''medium'', 25), (''low'', 0)]),
         (js ''asset_data_classification'', intObject
            [(''restricted'', 100), (''confidential'', 60), (''internal'', 20), (''public'', 0)]),
         (js ''direct_dependency'', intObject [(''direct'', 100), (''transitive'', 0)]),
         (js ''fix_available'', intObject [(''available'', 100), (''not_available'', 0)]),
         (js ''finding_age_days'', plainArrayOf 0
            [intObject [(''minDays'', 0), (''percent'', 0)],
             intObject [(''minDays'', 30), (''percent'', 50)],
             intObject [(''minDays'', 90), (''percent'', 100)]])]),
      (js ''bands'', plainArrayOf 0
        [bandObject ''P1'' 80 7, bandObject ''P2'' 60 30, bandObject ''P3'' 40 90,
         bandObject ''P4'' 0 180]),
      (js ''rules'', plainObject 0
        [(js ''kevMinimumBand'', Str (js ''P2'')),
         (js ''kevEscalation'', Str (js ''listed_and_production_or_internet_facing''))])]"

text \<open>\<^verbatim>\<open>loadBuiltinPriorityPolicyDefinition\<close>: \<open>None\<close> is the exception at load.\<close>

definition loadBuiltinPriorityPolicyDefinition :: "policyDefinition option" where
  "loadBuiltinPriorityPolicyDefinition =
     (case validateDefinition builtinInput of Inl _ \<Rightarrow> None | Inr d \<Rightarrow> Some d)"

subsection \<open>What a validated definition promises\<close>

definition in_range :: "int \<Rightarrow> int \<Rightarrow> int \<Rightarrow> bool" where
  "in_range lo hi n \<longleftrightarrow> lo \<le> n \<and> n \<le> hi"

definition good_policyKey :: "jstr \<Rightarrow> bool" where
  "good_policyKey s \<longleftrightarrow> length s \<le> POLICY_KEY_MAX_LENGTH \<and> POLICY_KEY_PATTERN s"

definition good_description :: "jstr \<Rightarrow> bool" where
  "good_description s \<longleftrightarrow>
     js_trim s \<noteq> [] \<and> length s \<le> FACTOR_DESCRIPTION_MAX_LENGTH \<and> \<not> hasControlCharacter s"

definition good_catalog :: "(factorId \<times> jstr) list \<Rightarrow> bool" where
  "good_catalog cs \<longleftrightarrow> map fst cs = FACTOR_IDS \<and> list_all (\<lambda>(_, d). good_description d) cs"

definition good_weights :: "(factorId \<times> int) list \<Rightarrow> bool" where
  "good_weights ws \<longleftrightarrow>
     map fst ws = FACTOR_IDS \<and> list_all (\<lambda>(_, w). in_range 0 WEIGHT_SUM w) ws \<and>
     map_of ws advisory_withdrawn = Some 0 \<and> sum_list (map snd ws) = WEIGHT_SUM"

definition good_percents :: "factorId \<Rightarrow> (jstr \<times> int) list \<Rightarrow> bool" where
  "good_percents f ps \<longleftrightarrow>
     map fst ps = NORMALIZED_TOKEN_FACTORS f \<and> list_all (\<lambda>(_, p). in_range 0 PERCENT_MAX p) ps \<and>
     sorted_wrt (\<ge>) (map snd ps) \<and> ps \<noteq> [] \<and> last (map snd ps) = 0"

definition good_buckets :: "ageBucket list \<Rightarrow> bool" where
  "good_buckets bs \<longleftrightarrow>
     bs \<noteq> [] \<and> length bs \<le> FINDING_AGE_BUCKETS_MAX \<and>
     list_all (\<lambda>b. in_range 0 FINDING_AGE_DAYS_MAX (minDays b) \<and> in_range 0 PERCENT_MAX (percent b)) bs \<and>
     minDays (hd bs) = 0 \<and> percent (hd bs) = 0 \<and>
     sorted_wrt (<) (map minDays bs) \<and> sorted (map percent bs)"

definition good_normalization :: "policyNormalization \<Rightarrow> bool" where
  "good_normalization n \<longleftrightarrow>
     map fst (tokenPercents n) = NORMALIZED_TOKEN_FACTOR_IDS \<and>
     list_all (\<lambda>(f, ps). good_percents f ps) (tokenPercents n) \<and> good_buckets (ageBuckets n)"

definition good_bands :: "policyBand list \<Rightarrow> bool" where
  "good_bands bs \<longleftrightarrow>
     map band bs = PRIORITY_BANDS \<and>
     list_all (\<lambda>b. in_range 0 PRIORITY_MAX (minPriority b) \<and>
        in_range DUE_DATE_RECOMMENDATION_DAYS_MIN DUE_DATE_RECOMMENDATION_DAYS_MAX
          (dueDateRecommendationDays b)) bs \<and>
     sorted_wrt (>) (map minPriority bs) \<and> minPriority (last bs) = 0 \<and>
     sorted (map dueDateRecommendationDays bs)"

definition good_rules :: "policyRules \<Rightarrow> bool" where
  "good_rules r \<longleftrightarrow> kevEscalation r = KEV_ESCALATION_RULE"

definition wf_definition :: "policyDefinition \<Rightarrow> bool" where
  "wf_definition d \<longleftrightarrow>
     schemaVersion d = PRIORITY_POLICY_SCHEMA_VERSION \<and> engineContract d = PRIORITY_ENGINE_CONTRACT \<and>
     good_policyKey (policyKey d) \<and> good_catalog (factorCatalog d) \<and> good_weights (weights d) \<and>
     good_normalization (normalization d) \<and> good_bands (bands d) \<and> good_rules (rules d)"

end
