(* ===== verification/PolicyValidation.thy ===== *)
theory PolicyValidation
  imports PolicyDefinition
begin

text \<open>
  Correctness of the policy validators of \<open>PolicyDefinition\<close>: when a validator leaves the issue
  collector empty it has read a section that keeps the section's promise, and every section that
  keeps it is accepted. The two loop shapes and the section contract are locales
  (\<open>collecting_step\<close>, \<open>validator\<close>), interpreted on each loop and each section validator.
\<close>

subsection \<open>Clean runs\<close>

text \<open>
  A run is clean when it leaves the collector empty. Nothing removes an issue, so a clean run starts
  from an empty collector; the lemmas say exactly when the pieces run clean.
\<close>

lemma addIssue_not_Nil [simp]: "addIssue p c issues \<noteq> []"
  by (auto simp: addIssue_def)

lemma addIssue_not_Nil' [simp]: "[] \<noteq> addIssue p c issues"
  using addIssue_not_Nil by metis

lemma fold_addIssue_Nil:
  "fold (\<lambda>x acc. if P x then addIssue (a x) (b x) acc else acc) xs issues = [] \<longleftrightarrow>
     issues = [] \<and> (\<forall>x \<in> set xs. \<not> P x)"
  by (induction xs arbitrary: issues) auto

lemma fold_unexpected_Nil:
  "fold (\<lambda>(key, _) acc. if P key then addIssue a b acc else acc) entries issues = [] \<longleftrightarrow>
     issues = [] \<and> (\<forall>key \<in> fst ` set entries. \<not> P key)"
  by (induction entries arbitrary: issues) (auto split: if_splits)

lemma fold_flagged_clean:
  "fold (\<lambda>x (ok, acc). if P x then (False, addIssue (a x) (b x) acc) else (ok, acc)) xs (ok0, issues)
     = (ok, []) \<longleftrightarrow> issues = [] \<and> ok = ok0 \<and> (\<forall>x \<in> set xs. \<not> P x)"
  by (induction xs arbitrary: issues ok0) auto

definition has_keys :: "jsval \<Rightarrow> jstr list \<Rightarrow> plainRecord \<Rightarrow> bool" where
  "has_keys v ks e \<longleftrightarrow>
     readPlainRecord v = Some e \<and> fst ` set e \<subseteq> set ks \<and> (\<forall>k \<in> set ks. map_of e k \<noteq> None)"

lemma readRecordWithKeys_clean:
  "readRecordWithKeys v ks p c issues = (r, []) \<longleftrightarrow>
     issues = [] \<and> (\<exists>e. r = Some e \<and> has_keys v ks e)"
proof (cases "readPlainRecord v")
  case None
  then show ?thesis by (simp add: readRecordWithKeys_def has_keys_def)
next
  case (Some e)
  let ?is1 = "fold (\<lambda>(key, _) acc. if key \<notin> set ks then addIssue p c acc else acc) e issues"
  have one: "?is1 = [] \<longleftrightarrow> issues = [] \<and> fst ` set e \<subseteq> set ks"
    by (auto simp: fold_unexpected_Nil)
  obtain ok is2 where f: "fold (\<lambda>key (complete, acc). if map_of e key = None
      then (False, addIssue (p @ js ''.'' @ key) (js ''missing_key'') acc)
      else (complete, acc)) ks (True, ?is1) = (ok, is2)" by fastforce
  then have two: "is2 = [] \<longleftrightarrow> ?is1 = [] \<and> (\<forall>k \<in> set ks. map_of e k \<noteq> None)"
    and ok: "is2 = [] \<longrightarrow> ok"
    using fold_flagged_clean [of "\<lambda>k. map_of e k = None" "\<lambda>k. p @ js ''.'' @ k"
        "\<lambda>_. js ''missing_key''" ks True ?is1] by auto
  have "readRecordWithKeys v ks p c issues = (if ok then Some e else None, is2)"
    using Some f by (simp add: readRecordWithKeys_def)
  with one two ok Some show ?thesis by (auto simp: has_keys_def)
qed

lemma readInteger_clean:
  "readInteger v lo hi p issues = (r, []) \<longleftrightarrow>
     issues = [] \<and> (\<exists>i. v = Number (Integral i) \<and> in_range lo hi i \<and> r = Some i)"
  by (auto simp: readInteger_def in_range_def split: jsval.splits jsnum.splits)

lemma readInteger_cases:
  obtains (Read) i where "v = Number (Integral i)" "in_range lo hi i"
      "readInteger v lo hi p = Pair (Some i)"
    | (Bad) code where "\<And>i. v = Number (Integral i) \<Longrightarrow> \<not> in_range lo hi i"
      "\<And>issues. readInteger v lo hi p issues = (None, addIssue p code issues)"
proof (cases "\<exists>i. v = Number (Integral i) \<and> in_range lo hi i")
  case True
  then show ?thesis
    by (auto simp: readInteger_def in_range_def fun_eq_iff intro!: that(1))
next
  case False
  have "\<exists>code. \<forall>issues. readInteger v lo hi p issues = (None, addIssue p code issues)"
  proof (cases v)
    case (Number n)
    with False show ?thesis by (cases n) (auto simp: readInteger_def in_range_def)
  qed (auto simp: readInteger_def)
  with False show ?thesis using that(2) by blast
qed

lemma validatePolicyKey_clean:
  "validatePolicyKey v issues = (r, []) \<longleftrightarrow>
     issues = [] \<and> (\<exists>s. r = Some s \<and> v = Str s \<and> good_policyKey s)"
  by (auto simp: validatePolicyKey_def good_policyKey_def split: jsval.splits)

lemma validateDescription_clean:
  "validateDescription v p issues = (r, []) \<longleftrightarrow>
     issues = [] \<and> (\<exists>s. r = Some s \<and> v = Str s \<and> good_description s)"
  by (auto simp: validateDescription_def good_description_def split: jsval.splits)

lemma factorOf_iff: "factorOf v = Some f \<longleftrightarrow> v = Str (factorName f)"
  by (cases f) (auto simp: factorOf_def FACTOR_IDS_def)

lemma bandOf_iff: "bandOf v = Some b \<longleftrightarrow> v = Str (bandName b)"
  by (cases b) (auto simp: bandOf_def PRIORITY_BANDS_def)

lemma factorOf_name [simp]: "factorOf (Str (factorName f)) = Some f"
  by (simp add: factorOf_iff)

lemma bandOf_name [simp]: "bandOf (Str (bandName b)) = Some b"
  by (simp add: bandOf_iff)

lemma adjacent_iff:
  assumes "transp R"
  shows "list_all (\<lambda>i. i = 0 \<or> R (vs ! (i - 1)) (vs ! i)) [0..<length vs] \<longleftrightarrow> sorted_wrt R vs"
proof -
  have "(\<forall>i < length vs. i = 0 \<or> R (vs ! (i - 1)) (vs ! i)) \<longleftrightarrow>
      (\<forall>i. Suc i < length vs \<longrightarrow> R (vs ! i) (vs ! Suc i))"
    by (metis Suc_pred diff_Suc_1 neq0_conv nat.distinct(1))
  then show ?thesis
    using sorted_wrt_iff_nth_Suc_transp [OF assms, of vs] by (auto simp: list_all_iff)
qed

lemma order_checks [simp]:
  "isNonIncreasing vs \<longleftrightarrow> sorted_wrt (\<ge>) vs"
  "isNonDecreasing vs \<longleftrightarrow> sorted vs"
  "isStrictlyIncreasing vs \<longleftrightarrow> sorted_wrt (<) vs"
  "isStrictlyDecreasing vs \<longleftrightarrow> sorted_wrt (>) vs"
  using adjacent_iff [of "(\<ge>)" vs] adjacent_iff [of "(\<le>)" vs] adjacent_iff [of "(<)" vs]
    adjacent_iff [of "(>)" vs]
  by (simp_all add: isNonIncreasing_def isNonDecreasing_def isStrictlyIncreasing_def
      isStrictlyDecreasing_def)

text \<open>
  A loop that reads one element at a time into an accumulator: when each step runs clean exactly on
  the elements it can read, the whole loop runs clean exactly when it reads all of them in order.
\<close>

locale collecting_step =
  fixes step :: "'x \<Rightarrow> 'y list \<times> issueList \<Rightarrow> 'y list \<times> issueList"
    and reads :: "'x \<Rightarrow> 'y \<Rightarrow> bool"
  assumes step_clean:
    "step x (acc, issues) = (acc', []) \<longleftrightarrow> issues = [] \<and> (\<exists>y. acc' = acc @ [y] \<and> reads x y)"
begin

lemma loop_clean:
  "fold step xs (acc, issues) = (acc', []) \<longleftrightarrow>
     issues = [] \<and> (\<exists>ys. acc' = acc @ ys \<and> list_all2 reads xs ys)"
proof (induction xs arbitrary: acc issues)
  case Nil
  then show ?case by auto
next
  case (Cons x xs)
  obtain acc1 is1 where s: "step x (acc, issues) = (acc1, is1)" by fastforce
  have "fold step (x # xs) (acc, issues) = (acc', []) \<longleftrightarrow>
      is1 = [] \<and> (\<exists>ys. acc' = acc1 @ ys \<and> list_all2 reads xs ys)"
    using Cons s by simp
  also have "\<dots> \<longleftrightarrow> issues = [] \<and> (\<exists>ys. acc' = acc @ ys \<and> list_all2 reads (x # xs) ys)"
  proof (cases "is1 = []")
    case True
    with s step_clean [of x acc issues acc1]
    obtain y where y: "issues = []" "acc1 = acc @ [y]" "reads x y" by auto
    have e: "step x (acc, []) = (acc @ [z], []) \<longleftrightarrow> reads x z" for z
      using step_clean [of x acc "[]" "acc @ [z]"] by simp
    have "step x (acc, []) = (acc @ [y], [])" using s True y by simp
    then have "reads x z \<longleftrightarrow> z = y" for z using e [of z] by auto
    with True y show ?thesis by (auto simp: list_all2_Cons1)
  next
    case False
    have "\<not> (issues = [] \<and> reads x y)" for y
      using False s step_clean [of x acc issues "acc @ [y]"] by auto
    with False show ?thesis by (auto simp: list_all2_Cons1)
  qed
  finally show ?case .
qed

end

text \<open>
  The contract of the section validators: the relation \<open>reads\<close> says which section a JavaScript value
  denotes, \<open>good\<close> what a validated section promises, \<open>toJs\<close> writes a section as a plain value.
\<close>

locale validator =
  fixes run :: "jsval \<Rightarrow> issueList \<Rightarrow> 'a option \<times> issueList"
    and reads :: "jsval \<Rightarrow> 'a \<Rightarrow> bool"
    and good :: "'a \<Rightarrow> bool"
    and toJs :: "'a \<Rightarrow> jsval"
  assumes run_clean: "run v issues = (r, []) \<longleftrightarrow> issues = [] \<and> (\<exists>x. r = Some x \<and> reads v x)"
    and reads_good: "reads v x \<Longrightarrow> good x"
    and reads_toJs: "good x \<Longrightarrow> reads (toJs x) x"
begin

lemma run_toJs: "good x \<Longrightarrow> run (toJs x) [] = (Some x, [])"
  by (simp add: run_clean reads_toJs)

lemma run_grows: "issues \<noteq> [] \<Longrightarrow> snd (run v issues) \<noteq> []"
  using run_clean [of v issues] by (cases "run v issues") auto

lemma run_null: "run v issues = (None, is') \<Longrightarrow> is' \<noteq> []"
  using run_clean [of v issues None] by auto

lemma whenPresent_clean:
  "map_of e k = Some v \<Longrightarrow>
   whenPresent e k run issues = (r, []) \<longleftrightarrow> issues = [] \<and> (\<exists>x. r = Some x \<and> reads v x)"
  by (simp add: whenPresent_def run_clean)

lemma whenPresent_cleanD:
  "whenPresent e k run issues = (r, []) \<Longrightarrow>
   issues = [] \<and> (map_of e k \<noteq> None \<longrightarrow> (\<exists>x. r = Some x \<and> reads (getKey e k) x))"
  by (auto simp: whenPresent_def run_clean getKey_def split: option.splits)

end

interpretation policyKeys: validator validatePolicyKey "\<lambda>v s. v = Str s \<and> good_policyKey s"
  good_policyKey Str
  by unfold_locales (auto simp: validatePolicyKey_clean)

subsubsection \<open>Weights\<close>

definition denotes_int :: "plainRecord \<Rightarrow> jstr \<Rightarrow> int \<Rightarrow> bool" where
  "denotes_int e k n \<longleftrightarrow> getKey e k = Number (Integral n)"

interpretation weightLoop: collecting_step "weightStep e"
  "\<lambda>f p. fst p = f \<and> denotes_int e (factorName f) (snd p) \<and> in_range 0 WEIGHT_SUM (snd p)" for e
proof (unfold_locales, goal_cases)
  case (1 f acc issues acc')
  show ?case
    by (cases rule: readInteger_cases [of "getKey e (factorName f)" 0 WEIGHT_SUM
          "js ''weights.'' @ factorName f"])
      (auto simp: weightStep_def denotes_int_def)
qed

lemma has_keys_get: "has_keys v ks e \<Longrightarrow> k \<in> set ks \<Longrightarrow> map_of e k = Some (getKey e k)"
  by (auto simp: has_keys_def getKey_def)

lemma list_all2_keyed:
  "list_all2 (\<lambda>f p. fst p = f \<and> P f (snd p)) fs ps \<longleftrightarrow> map fst ps = fs \<and> (\<forall>(f, x) \<in> set ps. P f x)"
proof (induction fs arbitrary: ps)
  case Nil
  then show ?case by auto
next
  case (Cons f fs)
  then show ?case by (cases ps) (auto simp: case_prod_beta)
qed

lemma sumWeights_eq:
  assumes "map fst ws = FACTOR_IDS"
  shows "sumWeights ws = Some (sum_list (map snd ws))"
proof -
  have gen: "fold (\<lambda>f total. case (total, map_of ws f) of
       (Some t, Some w) \<Rightarrow> Some (t + w) | _ \<Rightarrow> None) (map fst us) (Some a) = Some (a + sum_list (map snd us))"
    if "set us \<subseteq> set ws" for us a
    using that
  proof (induction us arbitrary: a)
    case Nil
    then show ?case by simp
  next
    case (Cons u us)
    have "map_of ws (fst u) = Some (snd u)"
      by (rule map_of_is_SomeI) (use assms Cons.prems in auto)
    with Cons show ?case by (simp add: add.assoc)
  qed
  show ?thesis
    using gen [of ws 0] assms by (simp add: sumWeights_def)
qed

definition reads_weights :: "jsval \<Rightarrow> (factorId \<times> int) list \<Rightarrow> bool" where
  "reads_weights v ws \<longleftrightarrow>
     good_weights ws \<and>
     (\<exists>e. has_keys v FACTOR_NAMES e \<and> (\<forall>(f, w) \<in> set ws. denotes_int e (factorName f) w))"

definition namedInts :: "nat \<Rightarrow> (jstr \<times> int) list \<Rightarrow> jsval" where
  "namedInts oid ps = plainObject oid (map (\<lambda>(k, n). (k, Number (Integral n))) ps)"

definition weightsToJs :: "(factorId \<times> int) list \<Rightarrow> jsval" where
  "weightsToJs ws = namedInts 0 (map (\<lambda>(f, w). (factorName f, w)) ws)"

lemma readRecordWithKeys_has: "has_keys v ks e \<Longrightarrow> readRecordWithKeys v ks p c [] = (Some e, [])"
  by (simp add: readRecordWithKeys_clean)

lemma weightLoop_clean:
  "fold (weightStep e) FACTOR_IDS ([], issues) = (ws, []) \<longleftrightarrow>
     issues = [] \<and> map fst ws = FACTOR_IDS \<and>
     (\<forall>(f, w) \<in> set ws. denotes_int e (factorName f) w \<and> in_range 0 WEIGHT_SUM w)"
  using list_all2_keyed [of "\<lambda>f w. denotes_int e (factorName f) w \<and> in_range 0 WEIGHT_SUM w"
      FACTOR_IDS ws]
  by (simp add: weightLoop.loop_clean)

lemma validateWeights_clean:
  "validateWeights v issues = (r, []) \<longleftrightarrow> issues = [] \<and> (\<exists>ws. r = Some ws \<and> reads_weights v ws)"
proof
  assume run: "validateWeights v issues = (r, [])"
  obtain rec is0 where r: "readRecordWithKeys v FACTOR_NAMES (js ''weights'')
      (js ''unknown_factor'') issues = (rec, is0)" by fastforce
  show "issues = [] \<and> (\<exists>ws. r = Some ws \<and> reads_weights v ws)"
  proof (cases rec)
    case None
    with run r show ?thesis by (simp add: validateWeights_def readRecordWithKeys_clean)
  next
    case (Some e)
    obtain ws is1 where l: "fold (weightStep e) FACTOR_IDS ([], is0) = (ws, is1)" by fastforce
    from run r Some l have "is1 = []"
      by (auto simp: validateWeights_def Let_def split: if_splits)
    with l have w: "is0 = []" "map fst ws = FACTOR_IDS"
      "\<forall>(f, w) \<in> set ws. denotes_int e (factorName f) w \<and> in_range 0 WEIGHT_SUM w"
      by (auto simp: weightLoop_clean)
    with r Some have h: "issues = []" "has_keys v FACTOR_NAMES e"
      by (auto simp: readRecordWithKeys_clean)
    from run r Some l w \<open>is1 = []\<close> have "r = Some ws" "map_of ws advisory_withdrawn = Some 0"
      "sum_list (map snd ws) = WEIGHT_SUM"
      by (auto simp: validateWeights_def Let_def sumWeights_eq INFORMATIONAL_FACTOR_ID_def
          split: if_splits)
    with w h show ?thesis
      by (auto simp: reads_weights_def good_weights_def list_all_iff intro!: exI [of _ e])
  qed
next
  assume "issues = [] \<and> (\<exists>ws. r = Some ws \<and> reads_weights v ws)"
  then obtain ws e where w: "issues = []" "r = Some ws" "good_weights ws" "has_keys v FACTOR_NAMES e"
    "\<forall>(f, w) \<in> set ws. denotes_int e (factorName f) w"
    by (auto simp: reads_weights_def)
  then have "fold (weightStep e) FACTOR_IDS ([], []) = (ws, [])"
    by (auto simp: weightLoop_clean good_weights_def list_all_iff)
  with w show "validateWeights v issues = (r, [])"
    by (simp add: validateWeights_def readRecordWithKeys_has good_weights_def sumWeights_eq
        INFORMATIONAL_FACTOR_ID_def)
qed

lemma getKey_namedInts:
  "k \<in> fst ` set ps \<Longrightarrow> distinct (map fst ps) \<Longrightarrow> (k, n) \<in> set ps \<Longrightarrow>
   getKey (map (\<lambda>(k, n). (k, Number (Integral n))) ps) k = Number (Integral n)"
  by (induction ps) (auto simp: getKey_def image_iff split: if_splits)

lemma has_keys_namedInts:
  "map fst ps = ks \<Longrightarrow> has_keys (namedInts oid ps) ks (map (\<lambda>(k, n). (k, Number (Integral n))) ps)"
  by (force simp: has_keys_def namedInts_def map_of_eq_None_iff)

lemma map_fst_named: "map fst (map (\<lambda>(f, x). (factorName f, x)) ps) = map factorName (map fst ps)"
  by (induction ps) auto

interpretation weightSection: validator validateWeights reads_weights good_weights weightsToJs
proof (unfold_locales, goal_cases)
  case (1 v issues r)
  then show ?case by (rule validateWeights_clean)
next
  case (2 v x)
  then show ?case by (simp add: reads_weights_def)
next
  case (3 ws)
  let ?ps = "map (\<lambda>(f, w). (factorName f, w)) ws"
  have k: "map fst ?ps = FACTOR_NAMES"
    using 3 map_fst_named [of ws] by (simp only: good_weights_def FACTOR_NAMES_def)
  moreover have "distinct FACTOR_NAMES" by (simp add: FACTOR_NAMES_def distinct_map inj_on_def)
  ultimately have "denotes_int (map (\<lambda>(k, n). (k, Number (Integral n))) ?ps) (factorName f) w"
    if "(f, w) \<in> set ws" for f w
    unfolding denotes_int_def by (intro getKey_namedInts) (use that in \<open>force+\<close>)
  with 3 has_keys_namedInts [OF k] show ?case
    unfolding reads_weights_def weightsToJs_def by blast
qed

subsubsection \<open>Normalization\<close>

lemma denotes_int_iff: "denotes_int e k n \<longleftrightarrow> map_of e k = Some (Number (Integral n))"
  by (auto simp: denotes_int_def getKey_def split: option.splits)

interpretation tokenLoop: collecting_step "tokenStep path e"
  "\<lambda>t p. fst p = t \<and> denotes_int e t (snd p) \<and> in_range 0 PERCENT_MAX (snd p)" for path e
proof (unfold_locales, goal_cases)
  case (1 t acc issues acc')
  show ?case
  proof (cases "map_of e t")
    case None
    then show ?thesis by (auto simp: tokenStep_def denotes_int_iff)
  next
    case (Some raw)
    then show ?thesis
      by (cases rule: readInteger_cases [of raw 0 PERCENT_MAX "path @ js ''.'' @ t"])
        (auto simp: tokenStep_def denotes_int_iff)
  qed
qed

lemma tokenLoop_clean:
  "fold (tokenStep path e) ts ([], issues) = (ps, []) \<longleftrightarrow>
     issues = [] \<and> map fst ps = ts \<and>
     (\<forall>(t, p) \<in> set ps. denotes_int e t p \<and> in_range 0 PERCENT_MAX p)"
  using list_all2_keyed [of "\<lambda>t p. denotes_int e t p \<and> in_range 0 PERCENT_MAX p" ts ps]
  by (simp add: tokenLoop.loop_clean)

definition reads_percents :: "factorId \<Rightarrow> jsval \<Rightarrow> (jstr \<times> int) list \<Rightarrow> bool" where
  "reads_percents f v ps \<longleftrightarrow>
     good_percents f ps \<and>
     (\<exists>e. has_keys v (NORMALIZED_TOKEN_FACTORS f) e \<and> (\<forall>(t, p) \<in> set ps. denotes_int e t p))"

lemma validateTokenPercents_clean:
  "validateTokenPercents f v issues = (r, []) \<longleftrightarrow>
     issues = [] \<and> (\<exists>ps. r = Some ps \<and> reads_percents f v ps)"
proof (cases "readPlainRecord v")
  case None
  then show ?thesis
    by (simp add: validateTokenPercents_def reads_percents_def has_keys_def Let_def)
next
  case (Some e)
  let ?path = "js ''normalization.'' @ factorName f"
  let ?is1 = "fold (\<lambda>(key, _) acc. if key \<notin> set (NORMALIZED_TOKEN_FACTORS f)
      then addIssue ?path (js ''unknown_token'') acc else acc) e issues"
  obtain ps is2 where l: "fold (tokenStep ?path e) (NORMALIZED_TOKEN_FACTORS f) ([], ?is1) = (ps, is2)"
    by fastforce
  have clean: "is2 = [] \<longleftrightarrow> issues = [] \<and> fst ` set e \<subseteq> set (NORMALIZED_TOKEN_FACTORS f) \<and>
      map fst ps = NORMALIZED_TOKEN_FACTORS f \<and>
      (\<forall>(t, p) \<in> set ps. denotes_int e t p \<and> in_range 0 PERCENT_MAX p)"
    using l tokenLoop_clean [of ?path e "NORMALIZED_TOKEN_FACTORS f" ?is1 ps]
    by (auto simp: fold_unexpected_Nil subset_iff)
  have run: "validateTokenPercents f v issues = (r, []) \<longleftrightarrow>
      is2 = [] \<and> issues = [] \<and> r = Some ps \<and> sorted_wrt (\<ge>) (map snd ps) \<and> ps \<noteq> [] \<and>
      last (map snd ps) = 0"
    using Some l clean by (auto simp: validateTokenPercents_def Let_def)
  have keys: "has_keys v (NORMALIZED_TOKEN_FACTORS f) e' \<longleftrightarrow>
      e' = e \<and> fst ` set e \<subseteq> set (NORMALIZED_TOKEN_FACTORS f) \<and>
      (\<forall>k \<in> set (NORMALIZED_TOKEN_FACTORS f). map_of e k \<noteq> None)" for e'
    using Some by (auto simp: has_keys_def)
  show ?thesis
  proof
    assume "validateTokenPercents f v issues = (r, [])"
    with run clean have c: "issues = []" "r = Some ps" "good_percents f ps"
      "fst ` set e \<subseteq> set (NORMALIZED_TOKEN_FACTORS f)" "\<forall>(t, p) \<in> set ps. denotes_int e t p"
      by (auto simp: good_percents_def list_all_iff)
    moreover have "map_of e k \<noteq> None" if "k \<in> set (NORMALIZED_TOKEN_FACTORS f)" for k
    proof -
      from that c(3) have "k \<in> fst ` set ps" by (metis good_percents_def list.set_map)
      with c(5) show ?thesis by (auto simp: denotes_int_iff)
    qed
    ultimately show "issues = [] \<and> (\<exists>ps. r = Some ps \<and> reads_percents f v ps)"
      by (auto simp: reads_percents_def keys)
  next
    assume "issues = [] \<and> (\<exists>ps. r = Some ps \<and> reads_percents f v ps)"
    then obtain qs where q: "issues = []" "r = Some qs" "good_percents f qs"
      "fst ` set e \<subseteq> set (NORMALIZED_TOKEN_FACTORS f)" "\<forall>(t, p) \<in> set qs. denotes_int e t p"
      by (auto simp: reads_percents_def keys)
    then have "?is1 = []" by (auto simp: fold_unexpected_Nil)
    then have "fold (tokenStep ?path e) (NORMALIZED_TOKEN_FACTORS f) ([], ?is1) = (qs, [])"
      using q by (auto simp: tokenLoop_clean good_percents_def list_all_iff)
    with l q run show "validateTokenPercents f v issues = (r, [])"
      by (auto simp: good_percents_def)
  qed
qed

lemma distinct_tokens [simp]: "distinct (NORMALIZED_TOKEN_FACTORS f)"
  by (cases f) (simp_all add: catalog_defs)

lemma denotes_namedInts:
  assumes "distinct (map fst ps)" "(k, n) \<in> set ps"
  shows "denotes_int (map (\<lambda>(k, n). (k, Number (Integral n))) ps) k n"
  unfolding denotes_int_def by (rule getKey_namedInts) (use assms in \<open>force+\<close>)

interpretation percentSection: validator "validateTokenPercents f" "reads_percents f"
  "good_percents f" "namedInts 0" for f
proof (unfold_locales, goal_cases)
  case (1 v issues r)
  then show ?case by (rule validateTokenPercents_clean)
next
  case (2 v x)
  then show ?case by (simp add: reads_percents_def)
next
  case (3 ps)
  then have k: "map fst ps = NORMALIZED_TOKEN_FACTORS f" by (simp add: good_percents_def)
  with denotes_namedInts [of ps] have
    "\<forall>(t, p) \<in> set ps. denotes_int (map (\<lambda>(k, n). (k, Number (Integral n))) ps) t p" by auto
  with 3 has_keys_namedInts [OF k] show ?case unfolding reads_percents_def by blast
qed

definition reads_bucket :: "nat \<times> jsval \<Rightarrow> ageBucket \<Rightarrow> bool" where
  "reads_bucket iv b \<longleftrightarrow>
     in_range 0 FINDING_AGE_DAYS_MAX (minDays b) \<and> in_range 0 PERCENT_MAX (percent b) \<and>
     (\<exists>e. has_keys (snd iv) AGE_BUCKET_KEYS e \<and> denotes_int e (js ''minDays'') (minDays b) \<and>
          denotes_int e (js ''percent'') (percent b))"

lemma readInteger_grows: "issues \<noteq> [] \<Longrightarrow> snd (readInteger v lo hi p issues) \<noteq> []"
  by (cases rule: readInteger_cases [of v lo hi p]) simp_all

lemma ageBucketStep_eq:
  assumes "readRecordWithKeys v AGE_BUCKET_KEYS (indexedPath AGE_PATH i) (js ''unexpected_key'')
      issues = (Some e, is1)"
    and "readInteger (getKey e (js ''minDays'')) 0 FINDING_AGE_DAYS_MAX
      (indexedPath AGE_PATH i @ js ''.minDays'') is1 = (d, is2)"
    and "readInteger (getKey e (js ''percent'')) 0 PERCENT_MAX
      (indexedPath AGE_PATH i @ js ''.percent'') is2 = (p, is3)"
  shows "ageBucketStep (i, v) (acc, issues) =
    (case (d, p) of
       (Some d, Some p) \<Rightarrow> (acc @ [\<lparr>minDays = d, percent = p\<rparr>], is3) | _ \<Rightarrow> (acc, is3))"
  using assms by (simp add: ageBucketStep_def split: option.split)

interpretation ageLoop: collecting_step ageBucketStep reads_bucket
proof (unfold_locales, goal_cases)
  case (1 iv acc issues acc')
  obtain i v where iv: "iv = (i, v)" by (cases iv)
  obtain rec is1 where r: "readRecordWithKeys v AGE_BUCKET_KEYS (indexedPath AGE_PATH i)
      (js ''unexpected_key'') issues = (rec, is1)" by fastforce
  show ?case
  proof (cases rec)
    case None
    with iv r show ?thesis
      by (auto simp: ageBucketStep_def reads_bucket_def readRecordWithKeys_clean
          readRecordWithKeys_has)
  next
    case (Some e)
    obtain d is2 p is3 where
      d: "readInteger (getKey e (js ''minDays'')) 0 FINDING_AGE_DAYS_MAX
        (indexedPath AGE_PATH i @ js ''.minDays'') is1 = (d, is2)" and
      p: "readInteger (getKey e (js ''percent'')) 0 PERCENT_MAX
        (indexedPath AGE_PATH i @ js ''.percent'') is2 = (p, is3)" by fastforce
    note step = ageBucketStep_eq [OF r [unfolded Some] d p, of acc]
    show ?thesis
    proof
      assume "ageBucketStep iv (acc, issues) = (acc', [])"
      with step iv have "is3 = []" by (auto split: option.splits)
      with p obtain n where n: "is2 = []" "p = Some n" "in_range 0 PERCENT_MAX n"
        "denotes_int e (js ''percent'') n"
        by (auto simp: readInteger_clean denotes_int_def)
      with d obtain m where m: "is1 = []" "d = Some m" "in_range 0 FINDING_AGE_DAYS_MAX m"
        "denotes_int e (js ''minDays'') m"
        by (auto simp: readInteger_clean denotes_int_def)
      with r Some have "issues = []" "has_keys v AGE_BUCKET_KEYS e"
        by (auto simp: readRecordWithKeys_clean)
      with n m have "reads_bucket iv \<lparr>minDays = m, percent = n\<rparr>"
        using iv by (auto simp: reads_bucket_def)
      with \<open>ageBucketStep iv (acc, issues) = (acc', [])\<close> step iv n m \<open>issues = []\<close>
      show "issues = [] \<and> (\<exists>y. acc' = acc @ [y] \<and> reads_bucket iv y)" by auto
    next
      assume "issues = [] \<and> (\<exists>y. acc' = acc @ [y] \<and> reads_bucket iv y)"
      then obtain b e' where b: "issues = []" "acc' = acc @ [b]"
        "in_range 0 FINDING_AGE_DAYS_MAX (minDays b)" "in_range 0 PERCENT_MAX (percent b)"
        "has_keys v AGE_BUCKET_KEYS e'" "denotes_int e' (js ''minDays'') (minDays b)"
        "denotes_int e' (js ''percent'') (percent b)"
        using iv by (auto simp: reads_bucket_def)
      then have "is1 = []" "e' = e"
        using r Some readRecordWithKeys_has [OF b(5)] by auto
      then have "is2 = []" "d = Some (minDays b)"
        using b d readInteger_clean [of "getKey e (js ''minDays'')" 0 FINDING_AGE_DAYS_MAX
            "indexedPath AGE_PATH i @ js ''.minDays''" "[]" "Some (minDays b)"]
        by (auto simp: denotes_int_def)
      then have "is3 = []" "p = Some (percent b)"
        using b p \<open>e' = e\<close> readInteger_clean [of "getKey e (js ''percent'')" 0 PERCENT_MAX
            "indexedPath AGE_PATH i @ js ''.percent''" "[]" "Some (percent b)"]
        by (auto simp: denotes_int_def)
      with step iv b \<open>d = Some (minDays b)\<close> show "ageBucketStep iv (acc, issues) = (acc', [])"
        by simp
    qed
  qed
qed

definition reads_buckets :: "jsval \<Rightarrow> ageBucket list \<Rightarrow> bool" where
  "reads_buckets v bs \<longleftrightarrow>
     good_buckets bs \<and>
     (\<exists>vs. readPlainArray v FINDING_AGE_BUCKETS_MAX = Elements vs \<and>
           list_all2 reads_bucket (enumerate 0 vs) bs)"

lemma list_all2_enumerate_length: "list_all2 R (enumerate n vs) bs \<Longrightarrow> length bs = length vs"
  by (drule list_all2_lengthD) simp

lemma reads_bucket_range:
  "list_all2 reads_bucket xs bs \<Longrightarrow>
   list_all (\<lambda>b. in_range 0 FINDING_AGE_DAYS_MAX (minDays b) \<and> in_range 0 PERCENT_MAX (percent b)) bs"
  by (induction rule: list_all2_induct) (auto simp: reads_bucket_def)

lemma validateAgeBuckets_clean:
  "validateAgeBuckets v issues = (r, []) \<longleftrightarrow> issues = [] \<and> (\<exists>bs. r = Some bs \<and> reads_buckets v bs)"
proof (cases "readPlainArray v FINDING_AGE_BUCKETS_MAX")
  case (Elements vs)
  show ?thesis
  proof (cases "vs = []")
    case True
    with Elements show ?thesis
      by (auto simp: validateAgeBuckets_def reads_buckets_def good_buckets_def)
  next
    case False
    obtain bs is1 where l: "fold ageBucketStep (enumerate 0 vs) ([], issues) = (bs, is1)" by fastforce
    have "validateAgeBuckets v issues = (r, []) \<longleftrightarrow>
        is1 = [] \<and> issues = [] \<and> r = Some bs \<and> bs \<noteq> [] \<and> minDays (hd bs) = 0 \<and>
        percent (hd bs) = 0 \<and> sorted_wrt (<) (map minDays bs) \<and> sorted (map percent bs)"
      using False Elements l ageLoop.loop_clean [of "enumerate 0 vs" "[]" issues bs]
      by (auto simp: validateAgeBuckets_def Let_def)
    moreover have "is1 = [] \<longleftrightarrow> issues = [] \<and> list_all2 reads_bucket (enumerate 0 vs) bs"
      using l ageLoop.loop_clean [of "enumerate 0 vs" "[]" issues bs] by auto
    moreover have "list_all2 reads_bucket (enumerate 0 vs) cs \<Longrightarrow> issues = [] \<Longrightarrow> cs = bs \<and> is1 = []" for cs
      using l ageLoop.loop_clean [of "enumerate 0 vs" "[]" "[]" cs] by auto
    moreover have "list_all2 reads_bucket (enumerate 0 vs) cs \<Longrightarrow> length cs \<le> FINDING_AGE_BUCKETS_MAX" for cs
      using readPlainArray_bound [OF Elements] list_all2_enumerate_length by metis
    ultimately show ?thesis
      using Elements reads_bucket_range [of "enumerate 0 vs"]
      by (auto simp: reads_buckets_def good_buckets_def)
  qed
qed (simp_all add: validateAgeBuckets_def reads_buckets_def)

definition bucketToJs :: "ageBucket \<Rightarrow> jsval" where
  "bucketToJs b = namedInts 0 [(js ''minDays'', minDays b), (js ''percent'', percent b)]"

definition bucketsToJs :: "ageBucket list \<Rightarrow> jsval" where
  "bucketsToJs bs = plainArrayOf 0 (map bucketToJs bs)"

lemma reads_bucketToJs:
  assumes "in_range 0 FINDING_AGE_DAYS_MAX (minDays b)" "in_range 0 PERCENT_MAX (percent b)"
  shows "reads_bucket (i, bucketToJs b) b"
  using assms has_keys_namedInts [of "[(js ''minDays'', minDays b), (js ''percent'', percent b)]"
      AGE_BUCKET_KEYS 0]
  by (auto simp: reads_bucket_def bucketToJs_def AGE_BUCKET_KEYS_def denotes_int_iff)

lemma list_all2_enumerate_map:
  "(\<And>i x. x \<in> set xs \<Longrightarrow> n \<le> i \<Longrightarrow> i < n + length xs \<Longrightarrow> xs ! (i - n) = x \<Longrightarrow> R (i, g x) x) \<Longrightarrow>
   list_all2 R (enumerate n (map g xs)) xs"
  by (auto simp: list_all2_conv_all_nth nth_enumerate_eq)

interpretation bucketSection: validator validateAgeBuckets reads_buckets good_buckets bucketsToJs
proof (unfold_locales, goal_cases)
  case (1 v issues r)
  then show ?case by (rule validateAgeBuckets_clean)
next
  case (2 v x)
  then show ?case by (simp add: reads_buckets_def)
next
  case (3 bs)
  have "list_all2 reads_bucket (enumerate 0 (map bucketToJs bs)) bs"
    by (rule list_all2_enumerate_map)
      (use 3 in \<open>auto simp: good_buckets_def list_all_iff intro: reads_bucketToJs\<close>)
  with 3 show ?case by (auto simp: reads_buckets_def bucketsToJs_def good_buckets_def)
qed

interpretation sectionLoop: collecting_step "percentsStep e"
  "\<lambda>f p. fst p = f \<and> (\<exists>ps. snd p = Some ps \<and> reads_percents f (getKey e (factorName f)) ps)" for e
proof (unfold_locales, goal_cases)
  case (1 f acc issues acc')
  obtain r is1 where r: "validateTokenPercents f (getKey e (factorName f)) issues = (r, is1)"
    by fastforce
  then have st: "percentsStep e f (acc, issues) = (acc @ [(f, r)], is1)"
    by (simp add: percentsStep_def)
  show ?case
  proof
    assume "percentsStep e f (acc, issues) = (acc', [])"
    with st have "is1 = []" "acc' = acc @ [(f, r)]" by auto
    with r percentSection.run_clean [of f "getKey e (factorName f)" issues r]
    show "issues = [] \<and> (\<exists>y. acc' = acc @ [y] \<and> fst y = f \<and>
        (\<exists>ps. snd y = Some ps \<and> reads_percents f (getKey e (factorName f)) ps))" by auto
  next
    assume "issues = [] \<and> (\<exists>y. acc' = acc @ [y] \<and> fst y = f \<and>
        (\<exists>ps. snd y = Some ps \<and> reads_percents f (getKey e (factorName f)) ps))"
    then obtain ps where ps: "issues = []" "acc' = acc @ [(f, Some ps)]"
      "reads_percents f (getKey e (factorName f)) ps" by (auto simp: prod_eq_iff)
    with percentSection.run_clean [of f "getKey e (factorName f)" issues "Some ps"] r
    have "r = Some ps" "is1 = []" by auto
    with st ps show "percentsStep e f (acc, issues) = (acc', [])" by simp
  qed
qed

lemma presentSections_Some [simp]: "presentSections (map (\<lambda>(f, s). (f, Some s)) ys) = Some ys"
  by (induction ys) auto

lemma sectionLoop_clean:
  "fold (percentsStep e) fs ([], issues) = (xs, []) \<longleftrightarrow>
     issues = [] \<and> (\<exists>ys. xs = map (\<lambda>(f, s). (f, Some s)) ys \<and> map fst ys = fs \<and>
       (\<forall>(f, ps) \<in> set ys. reads_percents f (getKey e (factorName f)) ps))"
  (is "_ \<longleftrightarrow> issues = [] \<and> (\<exists>ys. ?Q ys)")
proof -
  let ?R = "\<lambda>f s. \<exists>ps. s = Some ps \<and> reads_percents f (getKey e (factorName f)) ps"
  have "list_all2 (\<lambda>f p. fst p = f \<and> ?R f (snd p)) fs xs \<longleftrightarrow> (\<exists>ys. ?Q ys)"
  proof
    assume a: "list_all2 (\<lambda>f p. fst p = f \<and> ?R f (snd p)) fs xs"
    then have "\<forall>p \<in> set xs. \<exists>ps. p = (fst p, Some ps)"
      unfolding list_all2_keyed [of ?R] by fastforce
    then have x: "xs = map (\<lambda>(f, s). (f, Some s)) (map (\<lambda>p. (fst p, the (snd p))) xs)"
      by (induction xs) auto
    show "\<exists>ys. ?Q ys"
      by (rule exI [of _ "map (\<lambda>p. (fst p, the (snd p))) xs"])
        (use a x in \<open>force simp: list_all2_keyed [of ?R] comp_def\<close>)
  next
    assume "\<exists>ys. ?Q ys"
    then show "list_all2 (\<lambda>f p. fst p = f \<and> ?R f (snd p)) fs xs"
      unfolding list_all2_keyed [of ?R] by (fastforce simp: comp_def case_prod_beta)
  qed
  then show ?thesis by (simp add: sectionLoop.loop_clean)
qed

definition reads_normalization :: "jsval \<Rightarrow> policyNormalization \<Rightarrow> bool" where
  "reads_normalization v n \<longleftrightarrow>
     map fst (tokenPercents n) = NORMALIZED_TOKEN_FACTOR_IDS \<and>
     (\<exists>e. has_keys v NORMALIZATION_KEYS e \<and>
        (\<forall>(f, ps) \<in> set (tokenPercents n). reads_percents f (getKey e (factorName f)) ps) \<and>
        reads_buckets (getKey e (js ''finding_age_days'')) (ageBuckets n))"

lemma validateNormalization_clean:
  "validateNormalization v issues = (r, []) \<longleftrightarrow>
     issues = [] \<and> (\<exists>n. r = Some n \<and> reads_normalization v n)"
proof
  assume run: "validateNormalization v issues = (r, [])"
  obtain rec is0 where r: "readRecordWithKeys v NORMALIZATION_KEYS (js ''normalization'')
      (js ''unexpected_key'') issues = (rec, is0)" by fastforce
  show "issues = [] \<and> (\<exists>n. r = Some n \<and> reads_normalization v n)"
  proof (cases rec)
    case None
    with run r show ?thesis by (simp add: validateNormalization_def readRecordWithKeys_clean)
  next
    case (Some e)
    obtain xs is1 where x: "fold (percentsStep e) NORMALIZED_TOKEN_FACTOR_IDS ([], is0) = (xs, is1)"
      by fastforce
    obtain b is2 where b: "validateAgeBuckets (getKey e (js ''finding_age_days'')) is1 = (b, is2)"
      by fastforce
    from run r Some x b have z: "is2 = []" by (simp add: validateNormalization_def)
    with b obtain bs where bs: "is1 = []" "b = Some bs"
      "reads_buckets (getKey e (js ''finding_age_days'')) bs"
      by (auto simp: bucketSection.run_clean)
    with x obtain ys where ys: "is0 = []" "xs = map (\<lambda>(f, s). (f, Some s)) ys"
      "map fst ys = NORMALIZED_TOKEN_FACTOR_IDS"
      "\<forall>(f, ps) \<in> set ys. reads_percents f (getKey e (factorName f)) ps"
      unfolding bs(1) sectionLoop_clean by blast
    from r Some ys(1) have "issues = []" "has_keys v NORMALIZATION_KEYS e"
      by (auto simp: readRecordWithKeys_clean)
    moreover have "r = Some \<lparr>tokenPercents = ys, ageBuckets = bs\<rparr>"
      using run r Some x b z bs(1,2) ys(1,2) by (simp add: validateNormalization_def)
    ultimately show ?thesis using ys bs by (auto simp: reads_normalization_def)
  qed
next
  assume "issues = [] \<and> (\<exists>n. r = Some n \<and> reads_normalization v n)"
  then obtain n e where n: "issues = []" "r = Some n" "has_keys v NORMALIZATION_KEYS e"
    "map fst (tokenPercents n) = NORMALIZED_TOKEN_FACTOR_IDS"
    "\<forall>(f, ps) \<in> set (tokenPercents n). reads_percents f (getKey e (factorName f)) ps"
    "reads_buckets (getKey e (js ''finding_age_days'')) (ageBuckets n)"
    by (auto simp: reads_normalization_def)
  have "fold (percentsStep e) NORMALIZED_TOKEN_FACTOR_IDS ([], []) =
      (map (\<lambda>(f, s). (f, Some s)) (tokenPercents n), [])"
    unfolding sectionLoop_clean using n by blast
  moreover have "validateAgeBuckets (getKey e (js ''finding_age_days'')) [] = (Some (ageBuckets n), [])"
    using n by (simp add: bucketSection.run_clean)
  ultimately show "validateNormalization v issues = (r, [])"
    using n by (simp add: validateNormalization_def readRecordWithKeys_has)
qed

definition normalizationToJs :: "policyNormalization \<Rightarrow> jsval" where
  "normalizationToJs n = plainObject 0
     (map (\<lambda>(f, ps). (factorName f, namedInts 0 ps)) (tokenPercents n) @
      [(js ''finding_age_days'', bucketsToJs (ageBuckets n))])"

lemma map_of_factorName:
  "distinct (map fst xs) \<Longrightarrow> (f, x) \<in> set xs \<Longrightarrow>
   map_of (map (\<lambda>(f, x). (factorName f, g x)) xs @ ys) (factorName f) = Some (g x)"
  by (induction xs) (auto simp: image_iff)

lemma map_fst_named': "map fst (map (\<lambda>(f, x). (factorName f, g x)) ps) = map factorName (map fst ps)"
  by (induction ps) auto

lemma has_keys_plainObject: "map fst es = ks \<Longrightarrow> has_keys (plainObject oid es) ks es"
  by (force simp: has_keys_def map_of_eq_None_iff)

lemma normalization_factors:
  "f \<in> set NORMALIZED_TOKEN_FACTOR_IDS \<Longrightarrow> factorName f \<noteq> js ''finding_age_days''"
  "distinct NORMALIZED_TOKEN_FACTOR_IDS"
  by (auto simp: NORMALIZED_TOKEN_FACTOR_IDS_def)

lemma reads_normalizationToJs:
  assumes "good_normalization n"
  shows "reads_normalization (normalizationToJs n) n"
proof -
  let ?e = "map (\<lambda>(f, ps). (factorName f, namedInts 0 ps)) (tokenPercents n) @
      [(js ''finding_age_days'', bucketsToJs (ageBuckets n))]"
  have ids: "map fst (tokenPercents n) = NORMALIZED_TOKEN_FACTOR_IDS"
    using assms by (simp add: good_normalization_def)
  have d: "distinct (map fst (tokenPercents n))"
    using ids by (simp add: NORMALIZED_TOKEN_FACTOR_IDS_def)
  have "map fst ?e = NORMALIZATION_KEYS"
    using map_fst_named' [of "namedInts 0" "tokenPercents n"] ids
    by (simp only: map_append NORMALIZATION_KEYS_def) simp
  then have k: "has_keys (normalizationToJs n) NORMALIZATION_KEYS ?e"
    unfolding normalizationToJs_def by (rule has_keys_plainObject)
  have p: "reads_percents f (getKey ?e (factorName f)) ps" if "(f, ps) \<in> set (tokenPercents n)" for f ps
  proof -
    have "getKey ?e (factorName f) = namedInts 0 ps"
      unfolding getKey_def by (simp only: map_of_factorName [OF d that] option.case)
    moreover have "good_percents f ps" using assms that by (auto simp: good_normalization_def list_all_iff)
    ultimately show ?thesis by (simp only: percentSection.reads_toJs)
  qed
  have "js ''finding_age_days'' \<notin> fst ` set (map (\<lambda>(f, ps). (factorName f, namedInts 0 ps)) (tokenPercents n))"
  proof
    assume "js ''finding_age_days'' \<in> fst ` set (map (\<lambda>(f, ps). (factorName f, namedInts 0 ps)) (tokenPercents n))"
    then obtain f where "f \<in> fst ` set (tokenPercents n)" "factorName f = js ''finding_age_days''"
      by force
    with ids normalization_factors(1) [of f] show False by (metis list.set_map)
  qed
  then have "getKey ?e (js ''finding_age_days'') = bucketsToJs (ageBuckets n)"
    by (simp add: getKey_def map_add_def map_of_eq_None_iff [THEN iffD2])
  then have "reads_buckets (getKey ?e (js ''finding_age_days'')) (ageBuckets n)"
    using assms by (simp only: bucketSection.reads_toJs good_normalization_def)
  with k p ids show ?thesis unfolding reads_normalization_def by blast
qed

interpretation normalizationSection: validator validateNormalization reads_normalization
  good_normalization normalizationToJs
proof (unfold_locales, goal_cases)
  case (1 v issues r)
  then show ?case by (rule validateNormalization_clean)
next
  case (2 v n)
  then show ?case
    by (auto simp: reads_normalization_def good_normalization_def list_all_iff
        dest: percentSection.reads_good bucketSection.reads_good)
next
  case (3 n)
  then show ?case by (rule reads_normalizationToJs)
qed

end
