(* ===== verification/PolicyAcceptance.thy ===== *)
theory PolicyAcceptance
  imports PolicyValidation
begin

text \<open>
  The remaining section validators (bands, rules, factor catalog), the whole definition, the built-in
  policy and overrides: \<open>validateDefinition\<close> accepts exactly the values that denote a definition
  keeping \<open>wf_definition\<close>.
\<close>

subsection \<open>Bands\<close>

definition reads_band :: "nat \<times> jsval \<Rightarrow> policyBand \<Rightarrow> bool" where
  "reads_band iv b \<longleftrightarrow>
     band b = PRIORITY_BANDS ! fst iv \<and> in_range 0 PRIORITY_MAX (minPriority b) \<and>
     in_range DUE_DATE_RECOMMENDATION_DAYS_MIN DUE_DATE_RECOMMENDATION_DAYS_MAX
       (dueDateRecommendationDays b) \<and>
     (\<exists>e. has_keys (snd iv) BAND_KEYS e \<and> getKey e (js ''band'') = Str (bandName (band b)) \<and>
          denotes_int e (js ''minPriority'') (minPriority b) \<and>
          denotes_int e (js ''dueDateRecommendationDays'') (dueDateRecommendationDays b))"

lemma bandStep_eq:
  assumes "readRecordWithKeys v BAND_KEYS (indexedPath (js ''bands'') i) (js ''unexpected_key'')
      issues = (Some e, is1)"
    and "is2 = (if getKey e (js ''band'') \<noteq> Str (bandName (PRIORITY_BANDS ! i))
      then addIssue (indexedPath (js ''bands'') i @ js ''.band'') (js ''band_order_mismatch'') is1
      else is1)"
    and "readInteger (getKey e (js ''minPriority'')) 0 PRIORITY_MAX
      (indexedPath (js ''bands'') i @ js ''.minPriority'') is2 = (m, is3)"
    and "readInteger (getKey e (js ''dueDateRecommendationDays''))
      DUE_DATE_RECOMMENDATION_DAYS_MIN DUE_DATE_RECOMMENDATION_DAYS_MAX
      (indexedPath (js ''bands'') i @ js ''.dueDateRecommendationDays'') is3 = (d, is4)"
  shows "bandStep (i, v) (acc, issues) =
    (case (bandOf (getKey e (js ''band'')), m, d) of
       (Some b, Some m, Some d) \<Rightarrow>
         (acc @ [\<lparr>band = b, minPriority = m, dueDateRecommendationDays = d\<rparr>], is4)
     | _ \<Rightarrow> (acc, is4))"
  using assms by (cases "bandOf (getKey e (js ''band''))"; cases m; cases d) (simp_all add: bandStep_def)

lemma readInteger_denotes:
  "denotes_int e k n \<Longrightarrow> in_range lo hi n \<Longrightarrow> readInteger (getKey e k) lo hi p issues = (Some n, issues)"
  by (simp add: denotes_int_def in_range_def readInteger_def)

lemma readInteger_cleanD:
  "readInteger (getKey e k) lo hi p issues = (r, []) \<Longrightarrow>
     issues = [] \<and> (\<exists>n. r = Some n \<and> in_range lo hi n \<and> denotes_int e k n)"
  by (auto simp: readInteger_clean denotes_int_def)

interpretation bandLoop: collecting_step bandStep reads_band
proof (unfold_locales, goal_cases)
  case (1 iv acc issues acc')
  obtain i v where iv: "iv = (i, v)" by (cases iv)
  let ?path = "indexedPath (js ''bands'') i"
  obtain rec is1 where r: "readRecordWithKeys v BAND_KEYS ?path (js ''unexpected_key'') issues
      = (rec, is1)" by fastforce
  show ?case
  proof (cases rec)
    case None
    with iv r show ?thesis
      by (auto simp: bandStep_def reads_band_def readRecordWithKeys_clean readRecordWithKeys_has)
  next
    case (Some e)
    define is2 where is2: "is2 = (if getKey e (js ''band'') \<noteq> Str (bandName (PRIORITY_BANDS ! i))
      then addIssue (?path @ js ''.band'') (js ''band_order_mismatch'') is1 else is1)"
    obtain m is3 where m: "readInteger (getKey e (js ''minPriority'')) 0 PRIORITY_MAX
        (?path @ js ''.minPriority'') is2 = (m, is3)" by fastforce
    obtain d is4 where d: "readInteger (getKey e (js ''dueDateRecommendationDays''))
        DUE_DATE_RECOMMENDATION_DAYS_MIN DUE_DATE_RECOMMENDATION_DAYS_MAX
        (?path @ js ''.dueDateRecommendationDays'') is3 = (d, is4)" by fastforce
    note step = bandStep_eq [OF r [unfolded Some] is2 m d, of acc]
    show ?thesis
    proof
      assume run: "bandStep iv (acc, issues) = (acc', [])"
      with step iv have "is4 = []" by (auto split: option.splits)
      with d obtain nd where nd: "is3 = []" "d = Some nd"
        "in_range DUE_DATE_RECOMMENDATION_DAYS_MIN DUE_DATE_RECOMMENDATION_DAYS_MAX nd"
        "denotes_int e (js ''dueDateRecommendationDays'') nd" by (auto dest: readInteger_cleanD)
      with m obtain nm where nm: "is2 = []" "m = Some nm" "in_range 0 PRIORITY_MAX nm"
        "denotes_int e (js ''minPriority'') nm" by (auto dest: readInteger_cleanD)
      then have b: "is1 = []" "getKey e (js ''band'') = Str (bandName (PRIORITY_BANDS ! i))"
        using is2 by (auto split: if_splits)
      with r Some have h: "issues = []" "has_keys v BAND_KEYS e"
        by (auto simp: readRecordWithKeys_clean)
      from b(2) have "bandOf (getKey e (js ''band'')) = Some (PRIORITY_BANDS ! i)" by simp
      with run step iv nd nm have "acc' = acc @ [\<lparr>band = PRIORITY_BANDS ! i, minPriority = nm,
          dueDateRecommendationDays = nd\<rparr>]" by simp
      moreover have "reads_band iv \<lparr>band = PRIORITY_BANDS ! i, minPriority = nm,
          dueDateRecommendationDays = nd\<rparr>"
        using h nd nm b(2) iv by (auto simp: reads_band_def)
      ultimately show "issues = [] \<and> (\<exists>y. acc' = acc @ [y] \<and> reads_band iv y)"
        using h(1) by blast
    next
      assume "issues = [] \<and> (\<exists>y. acc' = acc @ [y] \<and> reads_band iv y)"
      then obtain b e' where b: "issues = []" "acc' = acc @ [b]" "band b = PRIORITY_BANDS ! i"
        "in_range 0 PRIORITY_MAX (minPriority b)"
        "in_range DUE_DATE_RECOMMENDATION_DAYS_MIN DUE_DATE_RECOMMENDATION_DAYS_MAX
           (dueDateRecommendationDays b)"
        and e': "has_keys v BAND_KEYS e'" "getKey e' (js ''band'') = Str (bandName (band b))"
        "denotes_int e' (js ''minPriority'') (minPriority b)"
        "denotes_int e' (js ''dueDateRecommendationDays'') (dueDateRecommendationDays b)"
        using iv by (auto simp: reads_band_def)
      then have "is1 = []" "e' = e" using r Some readRecordWithKeys_has [OF e'(1)] by auto
      then have "is2 = []" using is2 e' b by simp
      then have "m = Some (minPriority b)" "is3 = []"
        using m readInteger_denotes e'(3) b(4) \<open>e' = e\<close> by auto
      moreover have "d = Some (dueDateRecommendationDays b)" "is4 = []"
        using d \<open>is3 = []\<close> readInteger_denotes e'(4) b(5) \<open>e' = e\<close> by auto
      moreover have "bandOf (getKey e (js ''band'')) = Some (band b)"
        using e'(2) \<open>e' = e\<close> by simp
      ultimately show "bandStep iv (acc, issues) = (acc', [])"
        using step iv b(2) by simp
    qed
  qed
qed

definition reads_bands :: "jsval \<Rightarrow> policyBand list \<Rightarrow> bool" where
  "reads_bands v bs \<longleftrightarrow>
     good_bands bs \<and>
     (\<exists>vs. readPlainArray v (length PRIORITY_BANDS) = Elements vs \<and>
           list_all2 reads_band (enumerate 0 vs) bs)"

lemma reads_band_facts:
  assumes "list_all2 reads_band (enumerate 0 vs) bs" "length vs = length PRIORITY_BANDS"
  shows "map band bs = PRIORITY_BANDS"
    "list_all (\<lambda>b. in_range 0 PRIORITY_MAX (minPriority b) \<and>
        in_range DUE_DATE_RECOMMENDATION_DAYS_MIN DUE_DATE_RECOMMENDATION_DAYS_MAX
          (dueDateRecommendationDays b)) bs"
proof -
  have l: "length bs = length PRIORITY_BANDS" using assms list_all2_enumerate_length by metis
  have n: "reads_band (i, vs ! i) (bs ! i)" if "i < length bs" for i
    using assms(1) that l assms(2) by (auto simp: list_all2_conv_all_nth nth_enumerate_eq)
  show "map band bs = PRIORITY_BANDS"
    by (rule nth_equalityI) (use l n in \<open>auto simp: reads_band_def\<close>)
  show "list_all (\<lambda>b. in_range 0 PRIORITY_MAX (minPriority b) \<and>
        in_range DUE_DATE_RECOMMENDATION_DAYS_MIN DUE_DATE_RECOMMENDATION_DAYS_MAX
          (dueDateRecommendationDays b)) bs"
    using n by (auto simp: list_all_length reads_band_def)
qed

lemma validateBands_clean:
  "validateBands v issues = (r, []) \<longleftrightarrow> issues = [] \<and> (\<exists>bs. r = Some bs \<and> reads_bands v bs)"
proof (cases "readPlainArray v (length PRIORITY_BANDS)")
  case (Elements vs)
  show ?thesis
  proof (cases "length vs = length PRIORITY_BANDS")
    case False
    have "\<not> reads_bands v bs" for bs
    proof
      assume "reads_bands v bs"
      then have "map band bs = PRIORITY_BANDS" "length bs = length vs"
        using Elements list_all2_enumerate_length by (auto simp: reads_bands_def good_bands_def)
      with False show False by (metis length_map)
    qed
    with False Elements show ?thesis by (simp add: validateBands_def)
  next
    case True
    obtain bs is1 where l: "fold bandStep (enumerate 0 vs) ([], issues) = (bs, is1)" by fastforce
    have ne: "list_all2 reads_band (enumerate 0 vs) cs \<Longrightarrow> cs \<noteq> []" for cs
      using list_all2_enumerate_length [of reads_band 0 vs cs] True by (auto simp: PRIORITY_BANDS_def)
    let ?G = "\<lambda>bs. sorted_wrt (>) (map minPriority bs) \<and> minPriority (last bs) = 0 \<and>
        sorted (map dueDateRecommendationDays bs)"
    have rb: "reads_bands v cs \<longleftrightarrow> list_all2 reads_band (enumerate 0 vs) cs \<and> ?G cs" for cs
      using reads_band_facts [OF _ True, of cs] Elements
      by (simp add: reads_bands_def good_bands_def) blast
    have z: "is1 = [] \<longleftrightarrow> issues = [] \<and> list_all2 reads_band (enumerate 0 vs) bs"
      using l bandLoop.loop_clean [of "enumerate 0 vs" "[]" issues bs] by auto
    have run: "validateBands v issues = (r, []) \<longleftrightarrow> is1 = [] \<and> issues = [] \<and> r = Some bs \<and> ?G bs"
      using True Elements l z ne [of bs] by (auto simp: validateBands_def Let_def)
    have u: "list_all2 reads_band (enumerate 0 vs) cs \<Longrightarrow> issues = [] \<Longrightarrow> cs = bs" for cs
      using l bandLoop.loop_clean [of "enumerate 0 vs" "[]" "[]" cs] by auto
    show ?thesis unfolding run rb z using u by blast
  qed
qed (simp_all add: validateBands_def reads_bands_def)

definition bandToJs :: "policyBand \<Rightarrow> jsval" where
  "bandToJs b = plainObject 0 [(js ''band'', Str (bandName (band b))),
     (js ''minPriority'', Number (Integral (minPriority b))),
     (js ''dueDateRecommendationDays'', Number (Integral (dueDateRecommendationDays b)))]"

definition bandsToJs :: "policyBand list \<Rightarrow> jsval" where
  "bandsToJs bs = plainArrayOf 0 (map bandToJs bs)"

interpretation bandSection: validator validateBands reads_bands good_bands bandsToJs
proof (unfold_locales, goal_cases)
  case (1 v issues r)
  then show ?case by (rule validateBands_clean)
next
  case (2 v x)
  then show ?case by (simp add: reads_bands_def)
next
  case (3 bs)
  then have m: "map band bs = PRIORITY_BANDS" by (simp add: good_bands_def)
  then have l: "length bs = length PRIORITY_BANDS" by (metis length_map)
  have keys: "has_keys (bandToJs b) BAND_KEYS
      [(js ''band'', Str (bandName (band b))),
       (js ''minPriority'', Number (Integral (minPriority b))),
       (js ''dueDateRecommendationDays'', Number (Integral (dueDateRecommendationDays b)))]" for b
    unfolding bandToJs_def by (rule has_keys_plainObject) (simp add: BAND_KEYS_def)
  have "list_all2 reads_band (enumerate 0 (map bandToJs bs)) bs"
  proof (rule list_all2_enumerate_map)
    fix i x assume x: "x \<in> set bs" "0 \<le> i" "i < 0 + length bs" "bs ! (i - 0) = x"
    then have "band x = PRIORITY_BANDS ! i" using m by (metis add_0 diff_zero nth_map)
    with x 3 keys [of x] show "reads_band (i, bandToJs x) x"
      by (auto simp: reads_band_def good_bands_def list_all_iff getKey_def denotes_int_iff)
  qed
  with 3 l show ?case by (auto simp: reads_bands_def bandsToJs_def)
qed

subsection \<open>Rules\<close>

definition reads_rules :: "jsval \<Rightarrow> policyRules \<Rightarrow> bool" where
  "reads_rules v r \<longleftrightarrow>
     good_rules r \<and>
     (\<exists>e. has_keys v RULE_KEYS e \<and>
          getKey e (js ''kevMinimumBand'') = Str (bandName (kevMinimumBand r)) \<and>
          getKey e (js ''kevEscalation'') = Str KEV_ESCALATION_RULE)"

definition rulesToJs :: "policyRules \<Rightarrow> jsval" where
  "rulesToJs r = plainObject 0 [(js ''kevMinimumBand'', Str (bandName (kevMinimumBand r))),
     (js ''kevEscalation'', Str (kevEscalation r))]"

lemma validateRules_clean:
  "validateRules v issues = (r, []) \<longleftrightarrow> issues = [] \<and> (\<exists>x. r = Some x \<and> reads_rules v x)"
proof
  assume run: "validateRules v issues = (r, [])"
  obtain rec is0 where r: "readRecordWithKeys v RULE_KEYS (js ''rules'') (js ''unexpected_key'') issues
      = (rec, is0)" by fastforce
  show "issues = [] \<and> (\<exists>x. r = Some x \<and> reads_rules v x)"
  proof (cases rec)
    case None
    with run r show ?thesis by (simp add: validateRules_def readRecordWithKeys_clean)
  next
    case (Some e)
    obtain b where b: "is0 = []" "bandOf (getKey e (js ''kevMinimumBand'')) = Some b"
      "getKey e (js ''kevEscalation'') = Str KEV_ESCALATION_RULE"
      "r = Some \<lparr>kevMinimumBand = b, kevEscalation = KEV_ESCALATION_RULE\<rparr>"
      using run r Some
      by (cases "bandOf (getKey e (js ''kevMinimumBand''))")
        (auto simp: validateRules_def Let_def split: if_splits)
    with r Some have "issues = []" "has_keys v RULE_KEYS e" by (auto simp: readRecordWithKeys_clean)
    with b show ?thesis by (auto simp: reads_rules_def good_rules_def bandOf_iff)
  qed
next
  assume "issues = [] \<and> (\<exists>x. r = Some x \<and> reads_rules v x)"
  then show "validateRules v issues = (r, [])"
    by (auto simp: reads_rules_def good_rules_def validateRules_def readRecordWithKeys_has)
qed

interpretation ruleSection: validator validateRules reads_rules good_rules rulesToJs
proof (unfold_locales, goal_cases)
  case (1 v issues r)
  then show ?case by (rule validateRules_clean)
next
  case (2 v x)
  then show ?case by (simp add: reads_rules_def)
next
  case (3 r)
  have "has_keys (rulesToJs r) RULE_KEYS [(js ''kevMinimumBand'', Str (bandName (kevMinimumBand r))),
     (js ''kevEscalation'', Str (kevEscalation r))]"
    unfolding rulesToJs_def by (rule has_keys_plainObject) (simp add: RULE_KEYS_def)
  with 3 show ?case by (auto simp: reads_rules_def good_rules_def getKey_def)
qed

subsection \<open>Factor catalog\<close>

definition reads_entry :: "nat \<times> jsval \<Rightarrow> factorId \<times> jstr \<Rightarrow> bool" where
  "reads_entry iv fd \<longleftrightarrow>
     good_description (snd fd) \<and>
     (\<exists>e. has_keys (snd iv) CATALOG_ENTRY_KEYS e \<and>
          getKey e (js ''factorId'') = Str (factorName (fst fd)) \<and>
          getKey e (js ''description'') = Str (snd fd))"

lemma catalogEntryStep_clean:
  "catalogEntryStep iv (cat, seen, issues) = (cat', seen', []) \<longleftrightarrow>
     issues = [] \<and> (\<exists>y. reads_entry iv y \<and> fst y \<notin> set seen \<and>
       cat' = cat @ [y] \<and> seen' = seen @ [fst y])"
proof -
  obtain i v where iv: "iv = (i, v)" by (cases iv)
  let ?path = "indexedPath (js ''factorCatalog'') i"
  obtain rec is1 where r: "readRecordWithKeys v CATALOG_ENTRY_KEYS ?path (js ''unexpected_key'') issues
      = (rec, is1)" by fastforce
  show ?thesis
  proof (cases rec)
    case None
    with iv r show ?thesis
      by (auto simp: catalogEntryStep_def reads_entry_def readRecordWithKeys_clean
          readRecordWithKeys_has)
  next
    case (Some e)
    obtain d is2 where d: "validateDescription (getKey e (js ''description''))
        (?path @ js ''.description'') is1 = (d, is2)" by fastforce
    have step: "catalogEntryStep iv (cat, seen, issues) =
        (case factorOf (getKey e (js ''factorId'')) of
           None \<Rightarrow> (cat, seen, addIssue (js ''factorCatalog'') (js ''unknown_factor'') is2)
         | Some f \<Rightarrow>
             if f \<in> set seen
             then (cat, seen, addIssue (js ''factorCatalog'') (js ''duplicate_factor'') is2)
             else (case d of None \<Rightarrow> (cat, seen @ [f], is2)
                   | Some d \<Rightarrow> (cat @ [(f, d)], seen @ [f], is2)))"
      using iv r Some d by (simp add: catalogEntryStep_def)
    show ?thesis
    proof
      assume run: "catalogEntryStep iv (cat, seen, issues) = (cat', seen', [])"
      with step have "is2 = []" by (auto split: option.splits if_splits)
      with d obtain s where s: "is1 = []" "d = Some s" "getKey e (js ''description'') = Str s"
        "good_description s" by (auto simp: validateDescription_clean)
      with run step obtain f where f: "factorOf (getKey e (js ''factorId'')) = Some f"
        "f \<notin> set seen" "cat' = cat @ [(f, s)]" "seen' = seen @ [f]"
        by (auto split: option.splits if_splits)
      from r Some s(1) have "issues = []" "has_keys v CATALOG_ENTRY_KEYS e"
        by (auto simp: readRecordWithKeys_clean)
      with s f iv show "issues = [] \<and> (\<exists>y. reads_entry iv y \<and> fst y \<notin> set seen \<and>
          cat' = cat @ [y] \<and> seen' = seen @ [fst y])"
        by (auto simp: reads_entry_def factorOf_iff)
    next
      assume "issues = [] \<and> (\<exists>y. reads_entry iv y \<and> fst y \<notin> set seen \<and>
          cat' = cat @ [y] \<and> seen' = seen @ [fst y])"
      then obtain f s e' where f: "issues = []" "f \<notin> set seen" "cat' = cat @ [(f, s)]"
        "seen' = seen @ [f]" "good_description s"
        and e': "has_keys v CATALOG_ENTRY_KEYS e'" "getKey e' (js ''factorId'') = Str (factorName f)"
        "getKey e' (js ''description'') = Str s"
        using iv by (auto simp: reads_entry_def)
      then have e: "is1 = []" "e' = e" using r Some readRecordWithKeys_has [OF e'(1)] by auto
      with d e' f(5) validateDescription_clean [of "Str s" "?path @ js ''.description''" "[]" "Some s"]
      have "d = Some s" "is2 = []" by auto
      with step f e' e show "catalogEntryStep iv (cat, seen, issues) = (cat', seen', [])" by simp
    qed
  qed
qed

lemma catalogLoop_clean:
  "fold catalogEntryStep xs (cat, seen, issues) = (cat', seen', []) \<longleftrightarrow>
     issues = [] \<and> (\<exists>ys. list_all2 reads_entry xs ys \<and> cat' = cat @ ys \<and>
       seen' = seen @ map fst ys \<and> distinct (map fst ys) \<and> set seen \<inter> fst ` set ys = {})"
proof (induction xs arbitrary: cat seen issues)
  case Nil
  then show ?case by auto
next
  case (Cons x xs)
  obtain c1 s1 i1 where st: "catalogEntryStep x (cat, seen, issues) = (c1, s1, i1)"
    by (metis prod_cases3)
  have "fold catalogEntryStep (x # xs) (cat, seen, issues) = (cat', seen', []) \<longleftrightarrow>
      i1 = [] \<and> (\<exists>ys. list_all2 reads_entry xs ys \<and> cat' = c1 @ ys \<and>
        seen' = s1 @ map fst ys \<and> distinct (map fst ys) \<and> set s1 \<inter> fst ` set ys = {})"
    using Cons st by simp
  also have "\<dots> \<longleftrightarrow> issues = [] \<and> (\<exists>ys. list_all2 reads_entry (x # xs) ys \<and> cat' = cat @ ys \<and>
       seen' = seen @ map fst ys \<and> distinct (map fst ys) \<and> set seen \<inter> fst ` set ys = {})"
    (is "?L \<longleftrightarrow> ?R")
  proof
    assume ?L
    then obtain ys where ys: "i1 = []" "list_all2 reads_entry xs ys" "cat' = c1 @ ys"
      "seen' = s1 @ map fst ys" "distinct (map fst ys)" "set s1 \<inter> fst ` set ys = {}" by blast
    from st ys(1) catalogEntryStep_clean [of x cat seen issues c1 s1]
    obtain y where "issues = []" "reads_entry x y" "fst y \<notin> set seen" "c1 = cat @ [y]"
      "s1 = seen @ [fst y]" by auto
    with ys show ?R by (intro conjI exI [of _ "y # ys"]) auto
  next
    assume ?R
    then obtain y ys where y: "issues = []" "reads_entry x y" "list_all2 reads_entry xs ys"
      "cat' = cat @ y # ys" "seen' = seen @ fst y # map fst ys" "distinct (fst y # map fst ys)"
      "fst y \<notin> set seen" "set seen \<inter> fst ` set ys = {}"
      by (auto simp: list_all2_Cons1)
    then have "catalogEntryStep x (cat, seen, issues) = (cat @ [y], seen @ [fst y], [])"
      unfolding catalogEntryStep_clean by blast
    with st have "c1 = cat @ [y]" "s1 = seen @ [fst y]" "i1 = []" by auto
    with y show ?L by auto
  qed
  finally show ?case .
qed

definition reads_catalog :: "jsval \<Rightarrow> (factorId \<times> jstr) list \<Rightarrow> bool" where
  "reads_catalog v cs \<longleftrightarrow>
     good_catalog cs \<and>
     (\<exists>vs. readPlainArray v CATALOG_SCAN_MAX = Elements vs \<and>
           list_all2 reads_entry (enumerate 0 vs) cs)"

lemma in_catalog_order:
  assumes "distinct (map fst cs)" "set FACTOR_IDS \<subseteq> fst ` set cs"
  shows "(\<not> list_ex (\<lambda>(i, f, _). \<not> (i < length FACTOR_IDS \<and> f = FACTOR_IDS ! i)) (enumerate 0 cs))
    \<longleftrightarrow> map fst cs = FACTOR_IDS"
proof -
  have "set (map fst cs) = set FACTOR_IDS" using assms(2) by (auto simp flip: UNIV_factorId)
  then have l: "length cs = length FACTOR_IDS"
    using assms(1) distinct_card [of "map fst cs"] distinct_card [OF distinct_FACTOR_IDS] by simp
  have "(\<not> list_ex (\<lambda>(i, f, _). \<not> (i < length FACTOR_IDS \<and> f = FACTOR_IDS ! i)) (enumerate 0 cs))
    \<longleftrightarrow> (\<forall>i < length cs. fst (cs ! i) = FACTOR_IDS ! i)"
    using l by (auto simp: list_ex_length nth_enumerate_eq case_prod_beta)
  with l show ?thesis by (auto simp: list_eq_iff_nth_eq)
qed

lemma validateFactorCatalog_clean:
  "validateFactorCatalog v issues = (r, []) \<longleftrightarrow>
     issues = [] \<and> (\<exists>cs. r = Some cs \<and> reads_catalog v cs)"
proof (cases "readPlainArray v CATALOG_SCAN_MAX")
  case (Elements vs)
  obtain cs seen is1 where l: "fold catalogEntryStep (enumerate 0 vs) ([], [], issues) = (cs, seen, is1)"
    by (metis prod_cases3)
  let ?is2 = "fold (\<lambda>f acc. if f \<notin> set seen
      then addIssue (js ''factorCatalog.'' @ factorName f) (js ''missing_factor'') acc
      else acc) FACTOR_IDS is1"
  have is2: "?is2 = [] \<longleftrightarrow> is1 = [] \<and> set FACTOR_IDS \<subseteq> set seen"
    by (auto simp: fold_addIssue_Nil)
  have z: "is1 = [] \<longleftrightarrow> issues = [] \<and> list_all2 reads_entry (enumerate 0 vs) cs \<and>
      seen = map fst cs \<and> distinct (map fst cs)"
    using l catalogLoop_clean [of "enumerate 0 vs" "[]" "[]" issues cs seen] by auto
  have u: "cs' = cs \<and> seen = map fst cs" if "list_all2 reads_entry (enumerate 0 vs) cs'" "distinct (map fst cs')"
    "issues = []" for cs'
  proof -
    have "fold catalogEntryStep (enumerate 0 vs) ([], [], []) = (cs', map fst cs', [])"
      unfolding catalogLoop_clean using that by simp
    with l that(3) show ?thesis by auto
  qed
  have run: "validateFactorCatalog v issues = (r, []) \<longleftrightarrow>
      ?is2 = [] \<and> issues = [] \<and> r = Some cs \<and> map fst cs = FACTOR_IDS"
  proof (cases "?is2 = []")
    case True
    then have c: "issues = []" "seen = map fst cs" "distinct (map fst cs)"
      "set FACTOR_IDS \<subseteq> fst ` set cs" using is2 z by auto
    show ?thesis
      using Elements l True in_catalog_order [OF c(3,4)] c(1)
      by (auto simp: validateFactorCatalog_def)
  next
    case False
    then show ?thesis using Elements l by (auto simp: validateFactorCatalog_def Let_def)
  qed
  have desc: "list_all (\<lambda>(_, d). good_description d) cs'"
    if "list_all2 reads_entry (enumerate 0 vs) cs'" for cs'
    using that by (induction rule: list_all2_induct) (auto simp: reads_entry_def)
  have rc: "reads_catalog v cs' \<longleftrightarrow>
      list_all2 reads_entry (enumerate 0 vs) cs' \<and> map fst cs' = FACTOR_IDS" for cs'
    using Elements desc [of cs'] by (simp add: reads_catalog_def good_catalog_def) blast
  show ?thesis
  proof
    assume "validateFactorCatalog v issues = (r, [])"
    then show "issues = [] \<and> (\<exists>cs. r = Some cs \<and> reads_catalog v cs)"
      unfolding run is2 z rc by blast
  next
    assume "issues = [] \<and> (\<exists>cs. r = Some cs \<and> reads_catalog v cs)"
    then obtain cs' where c: "issues = []" "r = Some cs'"
      "list_all2 reads_entry (enumerate 0 vs) cs'" "map fst cs' = FACTOR_IDS"
      unfolding rc by blast
    then have "distinct (map fst cs')" by simp
    with u [of cs'] c have e: "cs' = cs" "seen = map fst cs" by auto
    with c have "set FACTOR_IDS \<subseteq> set seen" "distinct (map fst cs)" by simp_all
    with c e show "validateFactorCatalog v issues = (r, [])"
      unfolding run is2 z by blast
  qed
qed (simp_all add: validateFactorCatalog_def reads_catalog_def)

definition entryToJs :: "factorId \<times> jstr \<Rightarrow> jsval" where
  "entryToJs fd = plainObject 0 [(js ''factorId'', Str (factorName (fst fd))),
     (js ''description'', Str (snd fd))]"

definition catalogToJs :: "(factorId \<times> jstr) list \<Rightarrow> jsval" where
  "catalogToJs cs = plainArrayOf 0 (map entryToJs cs)"

interpretation catalogSection: validator validateFactorCatalog reads_catalog good_catalog catalogToJs
proof (unfold_locales, goal_cases)
  case (1 v issues r)
  then show ?case by (rule validateFactorCatalog_clean)
next
  case (2 v x)
  then show ?case by (simp add: reads_catalog_def)
next
  case (3 cs)
  have keys: "has_keys (entryToJs fd) CATALOG_ENTRY_KEYS
      [(js ''factorId'', Str (factorName (fst fd))), (js ''description'', Str (snd fd))]" for fd
    unfolding entryToJs_def by (rule has_keys_plainObject) (simp add: CATALOG_ENTRY_KEYS_def)
  have "list_all2 reads_entry (enumerate 0 (map entryToJs cs)) cs"
  proof (rule list_all2_enumerate_map)
    fix i x assume "x \<in> set cs"
    with 3 keys [of x] show "reads_entry (i, entryToJs x) x"
      by (auto simp: reads_entry_def good_catalog_def list_all_iff getKey_def)
  qed
  moreover have "length cs \<le> CATALOG_SCAN_MAX"
    using 3 by (metis CATALOG_SCAN_MAX_def good_catalog_def le_add1 length_map mult.commute
        mult_Suc numeral_eq_Suc)
  ultimately show ?case using 3 by (auto simp: reads_catalog_def catalogToJs_def)
qed

subsection \<open>The whole definition\<close>

definition reads_definition :: "jsval \<Rightarrow> policyDefinition \<Rightarrow> bool" where
  "reads_definition v d \<longleftrightarrow>
     (\<exists>e. has_keys v TOP_LEVEL_KEYS e \<and>
        getKey e (js ''schemaVersion'') = Number (Integral (schemaVersion d)) \<and>
        schemaVersion d = PRIORITY_POLICY_SCHEMA_VERSION \<and>
        getKey e (js ''engineContract'') = Str (engineContract d) \<and>
        engineContract d = PRIORITY_ENGINE_CONTRACT \<and>
        getKey e (js ''policyKey'') = Str (policyKey d) \<and> good_policyKey (policyKey d) \<and>
        reads_catalog (getKey e (js ''factorCatalog'')) (factorCatalog d) \<and>
        reads_weights (getKey e (js ''weights'')) (weights d) \<and>
        reads_normalization (getKey e (js ''normalization'')) (normalization d) \<and>
        reads_bands (getKey e (js ''bands'')) (bands d) \<and>
        reads_rules (getKey e (js ''rules'')) (rules d))"

definition definitionToJs :: "policyDefinition \<Rightarrow> jsval" where
  "definitionToJs d = plainObject 0
     [(js ''schemaVersion'', Number (Integral (schemaVersion d))),
      (js ''policyKey'', Str (policyKey d)), (js ''engineContract'', Str (engineContract d)),
      (js ''factorCatalog'', catalogToJs (factorCatalog d)),
      (js ''weights'', weightsToJs (weights d)),
      (js ''normalization'', normalizationToJs (normalization d)),
      (js ''bands'', bandsToJs (bands d)), (js ''rules'', rulesToJs (rules d))]"

lemma reads_definition_wf: "reads_definition v d \<Longrightarrow> wf_definition d"
  by (auto simp: reads_definition_def wf_definition_def dest: catalogSection.reads_good
      weightSection.reads_good normalizationSection.reads_good bandSection.reads_good
      ruleSection.reads_good)

lemma reads_definitionToJs: "wf_definition d \<Longrightarrow> reads_definition (definitionToJs d) d"
proof -
  assume w: "wf_definition d"
  let ?e = "[(js ''schemaVersion'', Number (Integral (schemaVersion d))),
      (js ''policyKey'', Str (policyKey d)), (js ''engineContract'', Str (engineContract d)),
      (js ''factorCatalog'', catalogToJs (factorCatalog d)),
      (js ''weights'', weightsToJs (weights d)),
      (js ''normalization'', normalizationToJs (normalization d)),
      (js ''bands'', bandsToJs (bands d)), (js ''rules'', rulesToJs (rules d))]"
  have "has_keys (definitionToJs d) TOP_LEVEL_KEYS ?e"
    unfolding definitionToJs_def by (rule has_keys_plainObject) (simp add: TOP_LEVEL_KEYS_def)
  with w show ?thesis
    unfolding reads_definition_def wf_definition_def
    by (intro exI [of _ ?e]) (simp add: getKey_def catalogSection.reads_toJs weightSection.reads_toJs
        normalizationSection.reads_toJs bandSection.reads_toJs ruleSection.reads_toJs)
qed

lemma top_keys:
  "js ''schemaVersion'' \<in> set TOP_LEVEL_KEYS" "js ''policyKey'' \<in> set TOP_LEVEL_KEYS"
  "js ''engineContract'' \<in> set TOP_LEVEL_KEYS" "js ''factorCatalog'' \<in> set TOP_LEVEL_KEYS"
  "js ''weights'' \<in> set TOP_LEVEL_KEYS" "js ''normalization'' \<in> set TOP_LEVEL_KEYS"
  "js ''bands'' \<in> set TOP_LEVEL_KEYS" "js ''rules'' \<in> set TOP_LEVEL_KEYS"
  by (simp_all add: TOP_LEVEL_KEYS_def)

lemma validateDefinition_rejects_or_reads:
  assumes e: "readPlainRecord v = Some e"
    and sv: "getKey e (js ''schemaVersion'') = Number (Integral PRIORITY_POLICY_SCHEMA_VERSION)"
  shows "(\<exists>issues. validateDefinition v = Inl issues \<and> issues \<noteq> []) \<or>
         (\<exists>d. validateDefinition v = Inr d \<and> reads_definition v d)"
proof -
  define is3 where "is3 = (let
      is1 = fold (\<lambda>(key, _) acc. if \<not> isOneOf (Str key) TOP_LEVEL_KEYS
        then addIssue ROOT (js ''unexpected_key'') acc else acc) e [];
      is2 = fold (\<lambda>key acc. if map_of e key = None
        then addIssue key (js ''missing_key'') acc else acc) TOP_LEVEL_KEYS is1
      in if map_of e (js ''engineContract'') \<noteq> None \<and>
            getKey e (js ''engineContract'') \<noteq> Str PRIORITY_ENGINE_CONTRACT
         then addIssue (js ''engineContract'') (js ''engine_contract_mismatch'') is2 else is2)"
  obtain k is4 where k: "whenPresent e (js ''policyKey'') validatePolicyKey is3 = (k, is4)" by fastforce
  obtain c is5 where c: "whenPresent e (js ''factorCatalog'') validateFactorCatalog is4 = (c, is5)"
    by fastforce
  obtain w is6 where w: "whenPresent e (js ''weights'') validateWeights is5 = (w, is6)" by fastforce
  obtain n is7 where n: "whenPresent e (js ''normalization'') validateNormalization is6 = (n, is7)"
    by fastforce
  obtain b is8 where b: "whenPresent e (js ''bands'') validateBands is7 = (b, is8)" by fastforce
  obtain r is9 where r: "whenPresent e (js ''rules'') validateRules is8 = (r, is9)" by fastforce
  have run: "validateDefinition v = (if length is9 > 0 then Inl is9
      else (case (k, c, w, n, b, r) of
        (Some k, Some c, Some w, Some n, Some b, Some r) \<Rightarrow>
          Inr \<lparr>schemaVersion = PRIORITY_POLICY_SCHEMA_VERSION, policyKey = k,
            engineContract = PRIORITY_ENGINE_CONTRACT, factorCatalog = c,
            weights = w, normalization = n, bands = b, rules = r\<rparr>
      | _ \<Rightarrow> Inl is9))"
    using e sv k c w n b r unfolding is3_def validateDefinition_def by (simp add: Let_def)
  show ?thesis
  proof (cases "is9 = []")
    case False
    with run show ?thesis by simp
  next
    case True
    note r = ruleSection.whenPresent_cleanD [OF r [unfolded True]]
    note b = bandSection.whenPresent_cleanD [OF b [unfolded r [THEN conjunct1]]]
    note n = normalizationSection.whenPresent_cleanD [OF n [unfolded b [THEN conjunct1]]]
    note w = weightSection.whenPresent_cleanD [OF w [unfolded n [THEN conjunct1]]]
    note c = catalogSection.whenPresent_cleanD [OF c [unfolded w [THEN conjunct1]]]
    note k = policyKeys.whenPresent_cleanD [OF k [unfolded c [THEN conjunct1]]]
    have keys: "fst ` set e \<subseteq> set TOP_LEVEL_KEYS" "\<forall>k \<in> set TOP_LEVEL_KEYS. map_of e k \<noteq> None"
      and ec: "getKey e (js ''engineContract'') = Str PRIORITY_ENGINE_CONTRACT"
      using k [THEN conjunct1] top_keys(3) unfolding is3_def Let_def
      by (auto simp: fold_addIssue_Nil fold_unexpected_Nil split: if_splits)
    have h: "has_keys v TOP_LEVEL_KEYS e" using e keys by (simp add: has_keys_def)
    obtain k' c' w' n' b' r' where
      "k = Some k'" "getKey e (js ''policyKey'') = Str k'" "good_policyKey k'"
      "c = Some c'" "reads_catalog (getKey e (js ''factorCatalog'')) c'"
      "w = Some w'" "reads_weights (getKey e (js ''weights'')) w'"
      "n = Some n'" "reads_normalization (getKey e (js ''normalization'')) n'"
      "b = Some b'" "reads_bands (getKey e (js ''bands'')) b'"
      "r = Some r'" "reads_rules (getKey e (js ''rules'')) r'"
      using k c w n b r keys(2) top_keys by blast
    then show ?thesis
      using run True h sv ec unfolding reads_definition_def by auto
  qed
qed

lemma validateDefinition_cases:
  "(\<exists>issues. validateDefinition v = Inl issues \<and> issues \<noteq> []) \<or>
   (\<exists>d. validateDefinition v = Inr d \<and> reads_definition v d)"
proof (cases "readPlainRecord v")
  case None
  then show ?thesis by (simp add: validateDefinition_def)
next
  case (Some e)
  show ?thesis
  proof (cases "getKey e (js ''schemaVersion'') = Number (Integral PRIORITY_POLICY_SCHEMA_VERSION)")
    case True
    with Some show ?thesis by (rule validateDefinition_rejects_or_reads)
  next
    case False
    with Some show ?thesis by (simp add: validateDefinition_def)
  qed
qed

lemma validateDefinition_sound: "validateDefinition v = Inr d \<Longrightarrow> reads_definition v d"
  using validateDefinition_cases [of v] by auto

lemma validateDefinition_complete:
  assumes "reads_definition v d"
  shows "validateDefinition v = Inr d"
proof -
  from assms obtain e where h: "has_keys v TOP_LEVEL_KEYS e"
    and sv: "getKey e (js ''schemaVersion'') = Number (Integral PRIORITY_POLICY_SCHEMA_VERSION)"
      "schemaVersion d = PRIORITY_POLICY_SCHEMA_VERSION"
    and ec: "getKey e (js ''engineContract'') = Str PRIORITY_ENGINE_CONTRACT"
      "engineContract d = PRIORITY_ENGINE_CONTRACT"
    and parts: "getKey e (js ''policyKey'') = Str (policyKey d)" "good_policyKey (policyKey d)"
      "reads_catalog (getKey e (js ''factorCatalog'')) (factorCatalog d)"
      "reads_weights (getKey e (js ''weights'')) (weights d)"
      "reads_normalization (getKey e (js ''normalization'')) (normalization d)"
      "reads_bands (getKey e (js ''bands'')) (bands d)"
      "reads_rules (getKey e (js ''rules'')) (rules d)"
    by (auto simp: reads_definition_def)
  note present = has_keys_get [OF h]
  have e: "readPlainRecord v = Some e" using h by (simp add: has_keys_def)
  have "fold (\<lambda>(key, _) acc. if \<not> isOneOf (Str key) TOP_LEVEL_KEYS
      then addIssue ROOT (js ''unexpected_key'') acc else acc) e [] = []"
    using h by (auto simp: fold_unexpected_Nil has_keys_def)
  moreover have "fold (\<lambda>key acc. if map_of e key = None
      then addIssue key (js ''missing_key'') acc else acc) TOP_LEVEL_KEYS [] = []"
    using h by (auto simp: fold_addIssue_Nil has_keys_def)
  moreover have "whenPresent e (js ''policyKey'') validatePolicyKey [] = (Some (policyKey d), [])"
    using parts by (simp add: policyKeys.whenPresent_clean [OF present [OF top_keys(2)]])
  moreover have "whenPresent e (js ''factorCatalog'') validateFactorCatalog [] = (Some (factorCatalog d), [])"
    using parts by (simp add: catalogSection.whenPresent_clean [OF present [OF top_keys(4)]])
  moreover have "whenPresent e (js ''weights'') validateWeights [] = (Some (weights d), [])"
    using parts by (simp add: weightSection.whenPresent_clean [OF present [OF top_keys(5)]])
  moreover have "whenPresent e (js ''normalization'') validateNormalization [] = (Some (normalization d), [])"
    using parts by (simp add: normalizationSection.whenPresent_clean [OF present [OF top_keys(6)]])
  moreover have "whenPresent e (js ''bands'') validateBands [] = (Some (bands d), [])"
    using parts by (simp add: bandSection.whenPresent_clean [OF present [OF top_keys(7)]])
  moreover have "whenPresent e (js ''rules'') validateRules [] = (Some (rules d), [])"
    using parts by (simp add: ruleSection.whenPresent_clean [OF present [OF top_keys(8)]])
  ultimately show ?thesis
    using e sv ec by (simp add: validateDefinition_def Let_def)
qed

subsection \<open>The built-in policy\<close>

definition builtinDefinition :: policyDefinition where
  "builtinDefinition =
     \<lparr>schemaVersion = PRIORITY_POLICY_SCHEMA_VERSION, policyKey = js ''patchpilot.builtin.v0'',
      engineContract = PRIORITY_ENGINE_CONTRACT,
      factorCatalog =
        [(source_severity, js ''Highest source severity rating''),
         (kev_listed, js ''CISA KEV catalog membership''),
         (environment_sensitivity, js ''Environment sensitivity class''),
         (internet_exposure, js ''Asset internet exposure''),
         (business_criticality, js ''Asset business criticality''),
         (asset_data_classification, js ''Asset data classification''),
         (direct_dependency, js ''Direct or transitive dependency''),
         (fix_available, js ''Fixed version availability''),
         (finding_age_days, js ''Days since first observation''),
         (advisory_withdrawn, js ''Advisory withdrawal flag'')],
      weights =
        [(source_severity, 40), (kev_listed, 20), (environment_sensitivity, 10),
         (internet_exposure, 10), (business_criticality, 8), (asset_data_classification, 5),
         (direct_dependency, 3), (fix_available, 2), (finding_age_days, 2), (advisory_withdrawn, 0)],
      normalization =
        \<lparr>tokenPercents =
           [(source_severity, [(js ''critical'', 100), (js ''high'', 75), (js ''medium'', 50),
               (js ''low'', 25), (js ''none'', 0)]),
            (kev_listed, [(js ''listed_catalog_current'', 100), (js ''listed_catalog_stale'', 100),
               (js ''listed_catalog_disabled_with_history'', 100),
               (js ''not_listed_catalog_current'', 0)]),
            (environment_sensitivity, [(js ''production'', 100), (js ''non_production'', 0)]),
            (internet_exposure, [(js ''internet_facing'', 100), (js ''internal'', 0)]),
            (business_criticality, [(js ''critical'', 100), (js ''high'', 50), (js ''medium'', 25),
               (js ''low'', 0)]),
            (asset_data_classification, [(js ''restricted'', 100), (js ''confidential'', 60),
               (js ''internal'', 20), (js ''public'', 0)]),
            (direct_dependency, [(js ''direct'', 100), (js ''transitive'', 0)]),
            (fix_available, [(js ''available'', 100), (js ''not_available'', 0)])],
         ageBuckets = [\<lparr>minDays = 0, percent = 0\<rparr>, \<lparr>minDays = 30, percent = 50\<rparr>,
           \<lparr>minDays = 90, percent = 100\<rparr>]\<rparr>,
      bands = [\<lparr>band = P1, minPriority = 80, dueDateRecommendationDays = 7\<rparr>,
         \<lparr>band = P2, minPriority = 60, dueDateRecommendationDays = 30\<rparr>,
         \<lparr>band = P3, minPriority = 40, dueDateRecommendationDays = 90\<rparr>,
         \<lparr>band = P4, minPriority = 0, dueDateRecommendationDays = 180\<rparr>],
      rules = \<lparr>kevMinimumBand = P2, kevEscalation = KEV_ESCALATION_RULE\<rparr>\<rparr>"

lemma builtin_input: "builtinInput = definitionToJs builtinDefinition"
  by (simp add: builtinInput_def builtinDefinition_def definitionToJs_def catalogToJs_def
      entryToJs_def catalogEntryObject_def weightsToJs_def namedInts_def intObject_def
      normalizationToJs_def bucketsToJs_def bucketToJs_def bandsToJs_def bandToJs_def
      bandObject_def rulesToJs_def KEV_ESCALATION_RULE_def)

lemma good_descriptionI:
  assumes "s \<noteq> []" "\<not> js_space (hd s)" "length s \<le> 256" "list_all (\<lambda>c. 31 < c \<and> c < 127) s"
  shows "good_description s"
proof -
  obtain c u where s: "s = c # u" using assms(1) by (cases s) auto
  then have "dropWhile js_space s = s" using assms(2) by simp
  then have "js_trim s \<noteq> []" unfolding js_trim_def using assms(2) s by (simp add: dropWhile_eq_Nil_conv)
  moreover have "\<not> hasControlCharacter s"
    using assms(4) by (induction s) (auto simp: hasControlCharacter_def)
  ultimately show ?thesis
    using assms(3) by (simp add: good_description_def FACTOR_DESCRIPTION_MAX_LENGTH_def)
qed

lemma builtin_catalog: "good_catalog (factorCatalog builtinDefinition)"
  unfolding good_catalog_def builtinDefinition_def FACTOR_IDS_def
  by (simp; intro conjI; rule good_descriptionI; simp add: js_def js_space_def)

lemma builtin_weights: "good_weights (weights builtinDefinition)"
  by (simp add: good_weights_def builtinDefinition_def FACTOR_IDS_def in_range_def WEIGHT_SUM_def)

lemma builtin_normalization: "good_normalization (normalization builtinDefinition)"
  by (simp add: good_normalization_def builtinDefinition_def good_percents_def good_buckets_def
      in_range_def catalog_defs)

lemma builtin_bands: "good_bands (bands builtinDefinition)"
  by (simp add: good_bands_def builtinDefinition_def in_range_def catalog_defs)

lemma builtin_key: "good_policyKey (policyKey builtinDefinition)"
  by (simp add: good_policyKey_def builtinDefinition_def POLICY_KEY_PATTERN_def js_def isKeyUnit_def
      is_lower_def is_digit_def POLICY_KEY_MAX_LENGTH_def)

lemma builtin_wf: "wf_definition builtinDefinition"
  unfolding wf_definition_def
  using builtin_catalog builtin_weights builtin_normalization builtin_bands builtin_key
  by (simp add: builtinDefinition_def good_rules_def)

subsection \<open>Properties\<close>

text \<open>
  C11. Safety of validation: whatever untrusted value is passed, an accepted definition keeps every
  promise the evaluation relies on. In particular the ten weights lie in 0..100 and sum to 100, the
  advisory-withdrawn weight is 0, percents are in 0..100, non-increasing towards a zero favourable
  extreme, age buckets start at day 0 and increase, and the four bands are in order with strictly
  falling thresholds down to 0. A rejection always reports an issue.
\<close>

theorem validateDefinition_safe:
  "case validateDefinition input of
     Inl issues \<Rightarrow> issues \<noteq> []
   | Inr d \<Rightarrow> wf_definition d \<and> reads_definition input d"
  using validateDefinition_cases [of input] reads_definition_wf by auto

text \<open>
  Completeness of validation: a definition that keeps the promises, written as a plain object,
  is accepted and comes back unchanged.
\<close>

theorem validateDefinition_roundtrip:
  "wf_definition d \<Longrightarrow> validateDefinition (definitionToJs d) = Inr d"
  by (rule validateDefinition_complete) (rule reads_definitionToJs)

theorem validateDefinition_roundtrip_witness:
  "wf_definition builtinDefinition \<and>
   validateDefinition (definitionToJs builtinDefinition) = Inr builtinDefinition"
  using validateDefinition_roundtrip [OF builtin_wf] builtin_wf by blast

text \<open>
  The built-in policy loads: the literal of \<^verbatim>\<open>builtin-definition.ts\<close> passes validation, so the
  module does not throw, and the loaded definition is the one the literal spells out.
\<close>

theorem builtin_loads:
  "loadBuiltinPriorityPolicyDefinition = Some builtinDefinition \<and> wf_definition builtinDefinition"
proof -
  have "validateDefinition builtinInput = Inr builtinDefinition"
    unfolding builtin_input
    by (rule validateDefinition_complete) (rule reads_definitionToJs [OF builtin_wf])
  then show ?thesis
    by (simp add: loadBuiltinPriorityPolicyDefinition_def builtin_wf)
qed

end
