(* ===== verification/PolicyEvaluate.thy ===== *)
theory PolicyEvaluate
  imports PolicyAcceptance
begin

text \<open>
  \<^verbatim>\<open>packages/policy-engine/src/evaluate.ts\<close>: evaluation of one finding's facts under a policy. A number
  that the source could leave \<^verbatim>\<open>undefined\<close> or \<^verbatim>\<open>NaN\<close> (a weight or percent that is not in the definition,
  and what is computed from it) is an \<open>int option\<close>, so that \<^verbatim>\<open>checkPriorityInvariants\<close> has something to
  reject. The quotient under \<^verbatim>\<open>Math.floor\<close> is by 100 and its operand a small integer, so floating-point
  division followed by floor is integer division.
\<close>

record factorReading =
  inputState :: factorInputState
  observedValue :: "payload option"
  normalizedPercent :: "int option"
  explanationCode :: jstr

record weightedReading = factorReading +
  rFactorId :: factorId
  rWeight :: "int option"
  contributionCenti :: "int option"

record outcome =
  readings :: "weightedReading list"
  contributions :: "int option list"
  weightedScoreCenti :: "int option"
  upliftCenti :: "int option"
  priority :: "int option"
  outBand :: "policyBand option"
  kevListed :: bool
  reasons :: "escalationReason list"

record priorityFactorRow =
  fFactorId :: factorId
  fOrdinal :: nat
  fInputState :: factorInputState
  fObservedValue :: "payload option"
  fNormalizedPercent :: int
  fWeight :: int
  fContributionCenti :: int
  fStatus :: factorStatus
  fExplanationCode :: jstr

record priorityRuleRow =
  rRuleId :: ruleId
  rTriggered :: bool
  rUpliftCenti :: int
  rExplanationCode :: jstr

record priorityEvaluation =
  eEngineVersion :: jstr
  ePolicyKey :: jstr
  eWeightedScoreCenti :: int
  eUpliftCenti :: int
  ePriority :: int
  ePriorityBand :: priorityBand
  eDueDateRecommendationDays :: int
  eRecommended :: bool
  eReasons :: "escalationReason list"
  eFactors :: "priorityFactorRow list"
  eRules :: "priorityRuleRow list"
  eEvidence :: "nat \<times> nat \<times> nat"

datatype engineInvariantCode =
    contribution_out_of_range | weighted_score_out_of_range | uplift_out_of_range
  | priority_out_of_range | band_unresolved

subsection \<open>Reading the factors\<close>

text \<open>
  Property access on a facts object. All ten factors are present in parsed facts, and a token or a
  list of ratings is present in every observed fact of the factors that have one.
\<close>

definition factOf :: "facts \<Rightarrow> factorId \<Rightarrow> fact" where
  "factOf facts f = (case map_of facts f of Some x \<Rightarrow> x | None \<Rightarrow> Fact unavailable None)"

fun factText :: "fact \<Rightarrow> jstr" where
  "factText (Fact _ (Some (_, PText t))) = t"
| "factText _ = []"

fun factTexts :: "fact \<Rightarrow> jstr list" where
  "factTexts (Fact _ (Some (_, PTexts ts))) = ts"
| "factTexts _ = []"

fun factNumber :: "fact \<Rightarrow> int" where
  "factNumber (Fact _ (Some (_, PNum n))) = n"
| "factNumber _ = 0"

definition UNAVAILABLE_FACTS :: "factorId \<Rightarrow> fact" where
  "UNAVAILABLE_FACTS f =
     Fact unavailable (if f = kev_listed then Some (js ''reason'', PText (js ''no_active_generation''))
                       else None)"

definition observedReading :: "payload \<Rightarrow> int option \<Rightarrow> jstr \<Rightarrow> factorReading" where
  "observedReading v pct code =
     \<lparr>inputState = observed, observedValue = Some v, normalizedPercent = pct, explanationCode = code\<rparr>"

definition notObserved :: "factorInputState \<Rightarrow> jstr \<Rightarrow> factorReading" where
  "notObserved state code =
     \<lparr>inputState = state, observedValue = None, normalizedPercent = Some 0, explanationCode = code\<rparr>"

definition indexOfRating :: "jstr \<Rightarrow> int" where
  "indexOfRating v = (case index_of v SEVERITY_RATINGS of None \<Rightarrow> - 1 | Some i \<Rightarrow> int i)"

definition highestSeverity :: "jstr list \<Rightarrow> jstr" where
  "highestSeverity vs =
     (let highest = fold (\<lambda>v h. min h (indexOfRating v)) vs (int (length SEVERITY_RATINGS) - 1)
      in if 0 \<le> highest \<and> highest < int (length SEVERITY_RATINGS) then SEVERITY_RATINGS ! nat highest
         else js ''none'')"

definition agePercent :: "ageBucket list \<Rightarrow> int \<Rightarrow> int" where
  "agePercent buckets days =
     fold (\<lambda>bucket pct. if days \<ge> minDays bucket then percent bucket else pct) buckets 0"

definition ageCode :: "int \<Rightarrow> jstr" where
  "ageCode days =
     (if days < 30 then js ''age_under_30_days''
      else if days < 90 then js ''age_30_to_89_days'' else js ''age_90_days_or_more'')"

definition tokenPercent :: "policyDefinition \<Rightarrow> factorId \<Rightarrow> jstr \<Rightarrow> int option" where
  "tokenPercent d f t =
     (case map_of (tokenPercents (normalization d)) f of None \<Rightarrow> None | Some ps \<Rightarrow> map_of ps t)"

definition observedToken :: "policyDefinition \<Rightarrow> factorId \<Rightarrow> fact \<Rightarrow> string \<Rightarrow> factorReading" where
  "observedToken d f x prefix =
     observedReading (PText (factText x)) (tokenPercent d f (factText x)) (js prefix @ factText x)"

fun readFactor :: "policyDefinition \<Rightarrow> facts \<Rightarrow> factorId \<Rightarrow> factorReading" where
  "readFactor d facts source_severity =
     (let fact = factOf facts source_severity in
      case factState fact of
        observed \<Rightarrow>
          let rating = highestSeverity (factTexts fact)
          in observedReading (PText rating) (tokenPercent d source_severity rating)
               (js ''severity_'' @ rating)
      | unknown \<Rightarrow> notObserved unknown (js ''severity_unrated'')
      | unavailable \<Rightarrow> notObserved unavailable (js ''severity_unavailable''))"
| "readFactor d facts kev_listed =
     (let fact = factOf facts kev_listed in
      case factState fact of
        observed \<Rightarrow> observedToken d kev_listed fact ''kev_''
      | unknown \<Rightarrow> notObserved unknown (js ''kev_'' @ factText fact)
      | unavailable \<Rightarrow> notObserved unavailable (js ''kev_unavailable_'' @ factText fact))"
| "readFactor d facts environment_sensitivity =
     (let fact = factOf facts environment_sensitivity in
      if factState fact = observed then observedToken d environment_sensitivity fact ''environment_''
      else notObserved unavailable (js ''environment_unavailable''))"
| "readFactor d facts internet_exposure =
     (let fact = factOf facts internet_exposure in
      case factState fact of
        observed \<Rightarrow> observedToken d internet_exposure fact ''exposure_''
      | unknown \<Rightarrow> notObserved unknown (js ''exposure_unknown'')
      | unavailable \<Rightarrow> notObserved unavailable (js ''exposure_unavailable''))"
| "readFactor d facts business_criticality =
     (let fact = factOf facts business_criticality in
      case factState fact of
        observed \<Rightarrow> observedToken d business_criticality fact ''criticality_''
      | unknown \<Rightarrow> notObserved unknown (js ''criticality_unspecified'')
      | unavailable \<Rightarrow> notObserved unavailable (js ''criticality_unavailable''))"
| "readFactor d facts asset_data_classification =
     (let fact = factOf facts asset_data_classification in
      case factState fact of
        observed \<Rightarrow> observedToken d asset_data_classification fact ''data_''
      | unknown \<Rightarrow> notObserved unknown (js ''data_unspecified'')
      | unavailable \<Rightarrow> notObserved unavailable (js ''data_unavailable''))"
| "readFactor d facts direct_dependency =
     (let fact = factOf facts direct_dependency in
      if factState fact = observed then observedToken d direct_dependency fact ''dependency_''
      else notObserved unavailable (js ''dependency_unavailable''))"
| "readFactor d facts fix_available =
     (let fact = factOf facts fix_available in
      case factState fact of
        observed \<Rightarrow> observedToken d fix_available fact ''fix_''
      | unknown \<Rightarrow> notObserved unknown (js ''fix_undetermined'')
      | unavailable \<Rightarrow> notObserved unavailable (js ''fix_unavailable''))"
| "readFactor d facts finding_age_days =
     (let fact = factOf facts finding_age_days in
      if factState fact = observed
      then observedReading (PNum (factNumber fact))
             (Some (agePercent (ageBuckets (normalization d)) (factNumber fact)))
             (ageCode (factNumber fact))
      else notObserved unavailable (js ''age_unavailable''))"
| "readFactor d facts advisory_withdrawn =
     (let fact = factOf facts advisory_withdrawn in
      if factState fact = unavailable
      then notObserved unavailable (js ''advisory_withdrawal_unavailable'')
      else observedReading (PText (factText fact)) (Some 0)
             (if factText fact = js ''withdrawn'' then js ''advisory_withdrawn_review_required''
              else js ''advisory_not_withdrawn''))"

subsection \<open>The outcome\<close>

definition numAdd :: "int option \<Rightarrow> int option \<Rightarrow> int option" where
  "numAdd a b = (case (a, b) of (Some x, Some y) \<Rightarrow> Some (x + y) | _ \<Rightarrow> None)"

definition numMul :: "int option \<Rightarrow> int option \<Rightarrow> int option" where
  "numMul a b = (case (a, b) of (Some x, Some y) \<Rightarrow> Some (x * y) | _ \<Rightarrow> None)"

definition weightedReadingOf :: "policyDefinition \<Rightarrow> facts \<Rightarrow> factorId \<Rightarrow> weightedReading" where
  "weightedReadingOf d facts f =
     (let reading = readFactor d facts f; weight = map_of (weights d) f
      in \<lparr>inputState = inputState reading, observedValue = observedValue reading,
          normalizedPercent = normalizedPercent reading,
          explanationCode = explanationCode reading, rFactorId = f, rWeight = weight,
          contributionCenti = numMul weight (normalizedPercent reading)\<rparr>)"

definition computeOutcome :: "policyDefinition \<Rightarrow> facts \<Rightarrow> outcome" where
  "computeOutcome d facts =
     (let rs = map (weightedReadingOf d facts) FACTOR_IDS;
          cs = map contributionCenti rs;
          score = foldl numAdd (Some 0) cs;
          kev = factOf facts kev_listed;
          listed = (factState kev = observed \<and> isKevListedToken (factText kev));
          floorBand = find (\<lambda>b. band b = kevMinimumBand (rules d)) (bands d);
          floorCenti = (case floorBand of None \<Rightarrow> 0 | Some b \<Rightarrow> minPriority b) * 100;
          uplift = (if listed then map_option (\<lambda>s. max 0 (floorCenti - s)) score else Some 0);
          prio = map_option (\<lambda>s. (s + 50) div 100) (numAdd score uplift);
          found = (case prio of None \<Rightarrow> None
                   | Some p \<Rightarrow> find (\<lambda>b. p \<ge> minPriority b) (bands d));
          environment = factOf facts environment_sensitivity;
          exposure = factOf facts internet_exposure;
          rsn = (if listed then
                   (if factState environment = observed \<and> factText environment = js ''production''
                    then [kev_production] else []) @
                   (if factState exposure = observed \<and> factText exposure = js ''internet_facing''
                    then [kev_internet_facing] else [])
                 else [])
      in \<lparr>readings = rs, contributions = cs, weightedScoreCenti = score, upliftCenti = uplift,
          priority = prio, outBand = found, kevListed = listed, reasons = rsn\<rparr>)"

definition inRange :: "int option \<Rightarrow> int \<Rightarrow> bool" where
  "inRange v m = (case v of None \<Rightarrow> False | Some n \<Rightarrow> \<bar>n\<bar> \<le> 2 ^ 53 - 1 \<and> n \<ge> 0 \<and> n \<le> m)"

definition checkPriorityInvariants :: "outcome \<Rightarrow> engineInvariantCode option" where
  "checkPriorityInvariants out =
     (let maxCenti = WEIGHT_SUM * PERCENT_MAX in
      if \<not> list_all (\<lambda>v. inRange v maxCenti) (contributions out) then Some contribution_out_of_range
      else case weightedScoreCenti out of
        None \<Rightarrow> Some weighted_score_out_of_range
      | Some score \<Rightarrow>
          if \<not> inRange (Some score) maxCenti then Some weighted_score_out_of_range
          else if \<not> inRange (upliftCenti out) (maxCenti - score) then Some uplift_out_of_range
          else if \<not> inRange (priority out) PRIORITY_MAX then Some priority_out_of_range
          else if outBand out = None then Some band_unresolved else None)"

definition withFactorUnavailable :: "facts \<Rightarrow> factorId \<Rightarrow> facts" where
  "withFactorUnavailable facts f = AList.update f (UNAVAILABLE_FACTS f) facts"

definition factorStatusOf ::
  "policyDefinition \<Rightarrow> facts \<Rightarrow> outcome \<Rightarrow> weightedReading \<Rightarrow> factorStatus" where
  "factorStatusOf d facts out reading =
     (let counterfactual = computeOutcome d (withFactorUnavailable facts (rFactorId reading));
          bandChanged = (map_option band (outBand counterfactual) \<noteq> map_option band (outBand out));
          escalationChanged = ((length (reasons counterfactual) > 0) \<noteq> (length (reasons out) > 0))
      in if inputState reading \<noteq> unavailable \<and> (bandChanged \<or> escalationChanged) then decisive
         else if rWeight reading = Some 0 then informational
         else if (case contributionCenti reading of Some c \<Rightarrow> c > 0 | None \<Rightarrow> False)
         then contributing else non_contributing)"

definition minimumBandRule :: "bool \<Rightarrow> int \<Rightarrow> priorityRuleRow" where
  "minimumBandRule listed uplift =
     (if \<not> listed then
        \<lparr>rRuleId = kev_minimum_band, rTriggered = False, rUpliftCenti = 0,
         rExplanationCode = js ''kev_minimum_band_not_triggered''\<rparr>
      else
        \<lparr>rRuleId = kev_minimum_band, rTriggered = True, rUpliftCenti = uplift,
         rExplanationCode = (if uplift > 0 then js ''kev_minimum_band_raised''
                             else js ''kev_minimum_band_already_met'')\<rparr>)"

definition escalationRule :: "outcome \<Rightarrow> priorityRuleRow" where
  "escalationRule out =
     (let recommended = length (reasons out) > 0
      in \<lparr>rRuleId = kev_escalation, rTriggered = recommended, rUpliftCenti = 0,
          rExplanationCode =
            (if kevListed out then
               (if recommended then js ''kev_escalation_recommended''
                else js ''kev_escalation_context_not_observed'')
             else js ''kev_escalation_not_triggered'')\<rparr>)"

text \<open>The row of a reading; after the range check its numbers are present.\<close>

definition factorRowOf ::
  "policyDefinition \<Rightarrow> facts \<Rightarrow> outcome \<Rightarrow> weightedReading \<Rightarrow> priorityFactorRow" where
  "factorRowOf d facts out reading =
     \<lparr>fFactorId = rFactorId reading, fOrdinal = factorOrdinal (rFactorId reading),
      fInputState = inputState reading, fObservedValue = observedValue reading,
      fNormalizedPercent = (case normalizedPercent reading of Some p \<Rightarrow> p | None \<Rightarrow> 0),
      fWeight = (case rWeight reading of Some w \<Rightarrow> w | None \<Rightarrow> 0),
      fContributionCenti = (case contributionCenti reading of Some c \<Rightarrow> c | None \<Rightarrow> 0),
      fStatus = factorStatusOf d facts out reading, fExplanationCode = explanationCode reading\<rparr>"

definition countState :: "priorityFactorRow list \<Rightarrow> factorInputState \<Rightarrow> nat" where
  "countState rows state = length (filter (\<lambda>row. fInputState row = state) rows)"

text \<open>\<^verbatim>\<open>evaluatePriority\<close> after its two brand checks.\<close>

definition evaluateFacts :: "policyDefinition \<Rightarrow> facts \<Rightarrow> engineInvariantCode + priorityEvaluation" where
  "evaluateFacts d facts =
     (let out = computeOutcome d facts in
      case (checkPriorityInvariants out, outBand out, weightedScoreCenti out, upliftCenti out,
            priority out) of
        (None, Some b, Some score, Some uplift, Some prio) \<Rightarrow>
          let rows = map (factorRowOf d facts out) (readings out)
          in Inr \<lparr>eEngineVersion = POLICY_ENGINE_VERSION, ePolicyKey = policyKey d,
                  eWeightedScoreCenti = score, eUpliftCenti = uplift, ePriority = prio,
                  ePriorityBand = band b, eDueDateRecommendationDays = dueDateRecommendationDays b,
                  eRecommended = (length (reasons out) > 0), eReasons = reasons out,
                  eFactors = rows,
                  eRules = [minimumBandRule (kevListed out) uplift, escalationRule out],
                  eEvidence = (countState rows observed, countState rows unknown,
                    countState rows unavailable)\<rparr>
      | (Some code, _) \<Rightarrow> Inl code
      | _ \<Rightarrow> Inl band_unresolved)"

end
