(* ===== verification/PolicyScoring.thy ===== *)
theory PolicyScoring
  imports PolicyEvaluate
begin

text \<open>
  Correctness of the evaluation of \<open>PolicyEvaluate\<close> on validated definitions and parsed facts: the
  range assertions never fire, the priority is the rounded weighted score lifted to the KEV floor,
  the band is the one the thresholds give, and missing evidence never raises a priority.
\<close>

subsection \<open>Readings\<close>

lemma factOf_wf:
  assumes "wf_facts fs"
  shows "wf_fact (FACTOR_SPECS f) (factOf fs f)"
proof -
  obtain h where h: "fs = map (\<lambda>f. (f, h f)) FACTOR_IDS" "\<forall>f. wf_fact (FACTOR_SPECS f) (h f)"
    using assms unfolding wf_facts_iff by blast
  have "map_of fs f = Some (h f)" unfolding h(1) by (simp add: map_of_map_restrict restrict_map_def)
  with h(2) show ?thesis by (simp add: factOf_def)
qed

lemma js_append [simp]: "js s @ js t = js (s @ t)"
  by (simp add: js_def)

lemma token_fact:
  assumes "wf_fact (TokenSpec obs unk rs) x"
  shows "factState x = observed \<Longrightarrow> factText x \<in> set obs"
    and "factState x = unknown \<Longrightarrow> factText x \<in> set unk"
    and "factState x = unavailable \<Longrightarrow> rs \<noteq> [] \<Longrightarrow> factText x \<in> set rs"
  using assms
  by (cases x rule: factText.cases;
      auto simp: wf_payload_def payloadKey_def split: option.splits payload.splits if_splits)+

lemma severity_fact:
  assumes "wf_fact SeveritySpec x" "factState x = observed"
  shows "factTexts x \<noteq> []" "set (factTexts x) \<subseteq> set SEVERITY_RATINGS"
  using assms by (cases x; auto simp: wf_payload_def split: option.splits payload.splits)+

lemma age_fact:
  assumes "wf_fact AgeSpec x" "factState x = observed"
  shows "0 \<le> factNumber x" "factNumber x \<le> FINDING_AGE_DAYS_MAX"
  using assms by (cases x; auto simp: wf_payload_def split: option.splits payload.splits)+

lemma tokenPercent_range:
  assumes "wf_definition d" "f \<in> set NORMALIZED_TOKEN_FACTOR_IDS" "t \<in> set (NORMALIZED_TOKEN_FACTORS f)"
  shows "\<exists>p. tokenPercent d f t = Some p \<and> 0 \<le> p \<and> p \<le> 100"
proof -
  let ?tp = "tokenPercents (normalization d)"
  have n: "map fst ?tp = NORMALIZED_TOKEN_FACTOR_IDS" "list_all (\<lambda>(f, ps). good_percents f ps) ?tp"
    using assms(1) by (auto simp: wf_definition_def good_normalization_def)
  then obtain ps where ps: "map_of ?tp f = Some ps"
    using assms(2) by (metis list.set_map map_of_eq_None_iff option.exhaust)
  then have "good_percents f ps" using n(2) by (auto simp: list_all_iff dest: map_of_SomeD)
  then have g: "map fst ps = NORMALIZED_TOKEN_FACTORS f"
    "list_all (\<lambda>(_, p). in_range 0 PERCENT_MAX p) ps" by (auto simp: good_percents_def)
  then obtain p where p: "map_of ps t = Some p"
    using assms(3) by (metis list.set_map map_of_eq_None_iff option.exhaust)
  then have "in_range 0 PERCENT_MAX p" using g(2) by (auto simp: list_all_iff dest: map_of_SomeD)
  with ps p show ?thesis by (simp add: tokenPercent_def in_range_def PERCENT_MAX_def)
qed

lemma indexOfRating_member: "v \<in> set SEVERITY_RATINGS \<Longrightarrow> 0 \<le> indexOfRating v \<and> indexOfRating v \<le> 4"
  by (auto simp: indexOfRating_def SEVERITY_RATINGS_def)

lemma fold_min_bounds:
  fixes h :: int
  assumes "\<forall>v \<in> set vs. 0 \<le> g v" "0 \<le> h"
  shows "0 \<le> fold (\<lambda>v h. min h (g v)) vs h \<and> fold (\<lambda>v h. min h (g v)) vs h \<le> h"
  using assms
proof (induction vs arbitrary: h)
  case Nil
  then show ?case by simp
next
  case (Cons v vs)
  from Cons.IH [of "min h (g v)"] Cons.prems show ?case by auto
qed

lemma highestSeverity_member: "highestSeverity vs \<in> set SEVERITY_RATINGS"
proof -
  have "js ''none'' \<in> set SEVERITY_RATINGS" by (simp add: SEVERITY_RATINGS_def)
  then show ?thesis by (auto simp: highestSeverity_def Let_def)
qed

lemma agePercent_range:
  assumes "good_buckets bs"
  shows "0 \<le> agePercent bs n \<and> agePercent bs n \<le> 100"
proof -
  have "\<forall>b \<in> set bs. 0 \<le> percent b \<and> percent b \<le> 100"
    using assms by (auto simp: good_buckets_def list_all_iff in_range_def PERCENT_MAX_def)
  then have "0 \<le> a \<and> a \<le> 100 \<Longrightarrow>
      0 \<le> fold (\<lambda>b p. if n \<ge> minDays b then percent b else p) bs a \<and>
      fold (\<lambda>b p. if n \<ge> minDays b then percent b else p) bs a \<le> 100" for a
    by (induction bs arbitrary: a) auto
  from this [of 0] show ?thesis by (simp add: agePercent_def)
qed

text \<open>A reading of well-formed facts: a percent in range, zero unless observed, a catalog code.\<close>

definition good_reading :: "fact \<Rightarrow> factorReading \<Rightarrow> bool" where
  "good_reading x r \<longleftrightarrow>
     inputState r = factState x \<and> explanationCode r \<in> set FACTOR_EXPLANATION_CODES \<and>
     (\<exists>p. normalizedPercent r = Some p \<and> 0 \<le> p \<and> p \<le> 100 \<and> (factState x \<noteq> observed \<longrightarrow> p = 0)) \<and>
     (observedValue r = None \<longleftrightarrow> factState x \<noteq> observed)"

lemma good_notObserved:
  "factState x = st \<Longrightarrow> st \<noteq> observed \<Longrightarrow> c \<in> set FACTOR_EXPLANATION_CODES \<Longrightarrow>
   good_reading x (notObserved st c)"
  by (simp add: good_reading_def notObserved_def)

lemma good_observedToken:
  assumes "wf_definition d" "f \<in> set NORMALIZED_TOKEN_FACTOR_IDS" "factState x = observed"
    "factText x \<in> set (NORMALIZED_TOKEN_FACTORS f)"
    "js prefix @ factText x \<in> set FACTOR_EXPLANATION_CODES"
  shows "good_reading x (observedToken d f x prefix)"
  using tokenPercent_range [OF assms(1,2,4)] assms(3,5)
  by (auto simp: good_reading_def observedToken_def observedReading_def)

lemma codes_of_tokens:
  "t \<in> set SEVERITY_RATINGS \<Longrightarrow> js ''severity_'' @ t \<in> set FACTOR_EXPLANATION_CODES"
  "t \<in> set KEV_OBSERVED_TOKENS \<Longrightarrow> js ''kev_'' @ t \<in> set FACTOR_EXPLANATION_CODES"
  "t \<in> set KEV_UNKNOWN_TOKENS \<Longrightarrow> js ''kev_'' @ t \<in> set FACTOR_EXPLANATION_CODES"
  "t \<in> set KEV_UNAVAILABLE_REASONS \<Longrightarrow> js ''kev_unavailable_'' @ t \<in> set FACTOR_EXPLANATION_CODES"
  "t \<in> set ENVIRONMENT_SENSITIVITY_TOKENS \<Longrightarrow> js ''environment_'' @ t \<in> set FACTOR_EXPLANATION_CODES"
  "t \<in> set INTERNET_EXPOSURE_TOKENS \<Longrightarrow> js ''exposure_'' @ t \<in> set FACTOR_EXPLANATION_CODES"
  "t \<in> set BUSINESS_CRITICALITY_TOKENS \<Longrightarrow> js ''criticality_'' @ t \<in> set FACTOR_EXPLANATION_CODES"
  "t \<in> set ASSET_DATA_CLASSIFICATION_TOKENS \<Longrightarrow> js ''data_'' @ t \<in> set FACTOR_EXPLANATION_CODES"
  "t \<in> set DIRECT_DEPENDENCY_TOKENS \<Longrightarrow> js ''dependency_'' @ t \<in> set FACTOR_EXPLANATION_CODES"
  "t \<in> set FIX_AVAILABLE_TOKENS \<Longrightarrow> js ''fix_'' @ t \<in> set FACTOR_EXPLANATION_CODES"
  by (auto simp: FACTOR_EXPLANATION_CODES_def SEVERITY_RATINGS_def KEV_OBSERVED_TOKENS_def
      KEV_LISTED_TOKENS_def KEV_UNKNOWN_TOKENS_def KEV_UNAVAILABLE_REASONS_def
      ENVIRONMENT_SENSITIVITY_TOKENS_def INTERNET_EXPOSURE_TOKENS_def BUSINESS_CRITICALITY_TOKENS_def
      ASSET_DATA_CLASSIFICATION_TOKENS_def DIRECT_DEPENDENCY_TOKENS_def FIX_AVAILABLE_TOKENS_def)

lemma fixed_codes:
  "js ''severity_unrated'' \<in> set FACTOR_EXPLANATION_CODES"
  "js ''severity_unavailable'' \<in> set FACTOR_EXPLANATION_CODES"
  "js ''environment_unavailable'' \<in> set FACTOR_EXPLANATION_CODES"
  "js ''exposure_unknown'' \<in> set FACTOR_EXPLANATION_CODES"
  "js ''exposure_unavailable'' \<in> set FACTOR_EXPLANATION_CODES"
  "js ''criticality_unspecified'' \<in> set FACTOR_EXPLANATION_CODES"
  "js ''criticality_unavailable'' \<in> set FACTOR_EXPLANATION_CODES"
  "js ''data_unspecified'' \<in> set FACTOR_EXPLANATION_CODES"
  "js ''data_unavailable'' \<in> set FACTOR_EXPLANATION_CODES"
  "js ''dependency_unavailable'' \<in> set FACTOR_EXPLANATION_CODES"
  "js ''fix_undetermined'' \<in> set FACTOR_EXPLANATION_CODES"
  "js ''fix_unavailable'' \<in> set FACTOR_EXPLANATION_CODES"
  "js ''age_unavailable'' \<in> set FACTOR_EXPLANATION_CODES"
  "ageCode n \<in> set FACTOR_EXPLANATION_CODES"
  "js ''advisory_withdrawal_unavailable'' \<in> set FACTOR_EXPLANATION_CODES"
  "js ''advisory_withdrawn_review_required'' \<in> set FACTOR_EXPLANATION_CODES"
  "js ''advisory_not_withdrawn'' \<in> set FACTOR_EXPLANATION_CODES"
  by (simp_all add: FACTOR_EXPLANATION_CODES_def ageCode_def)

lemma no_unknown:
  "wf_fact (TokenSpec obs [] rs) x \<Longrightarrow> factState x \<noteq> unknown"
  "wf_fact AgeSpec x \<Longrightarrow> factState x \<noteq> unknown"
  by (cases x; auto)+

lemma good_severity:
  assumes "wf_definition d" "wf_fact SeveritySpec (factOf fs source_severity)"
  shows "good_reading (factOf fs source_severity) (readFactor d fs source_severity)"
  using tokenPercent_range [OF assms(1), of source_severity "highestSeverity (factTexts (factOf fs source_severity))"]
    highestSeverity_member codes_of_tokens(1) [OF highestSeverity_member]
  by (cases "factState (factOf fs source_severity)")
    (auto simp: Let_def NORMALIZED_TOKEN_FACTOR_IDS_def good_reading_def observedReading_def
      notObserved_def fixed_codes)

lemma good_age:
  assumes "wf_definition d" "wf_fact AgeSpec (factOf fs finding_age_days)"
  shows "good_reading (factOf fs finding_age_days) (readFactor d fs finding_age_days)"
  using agePercent_range [of "ageBuckets (normalization d)" "factNumber (factOf fs finding_age_days)"]
    assms(1) no_unknown(2) [OF assms(2)]
  by (cases "factState (factOf fs finding_age_days)")
    (auto simp: Let_def wf_definition_def good_normalization_def good_reading_def
      observedReading_def notObserved_def fixed_codes)

lemma good_withdrawn:
  assumes "wf_fact (TokenSpec obs [] rs) (factOf fs advisory_withdrawn)"
  shows "good_reading (factOf fs advisory_withdrawn) (readFactor d fs advisory_withdrawn)"
  using no_unknown(1) [OF assms]
  by (cases "factState (factOf fs advisory_withdrawn)")
    (auto simp: Let_def good_reading_def observedReading_def notObserved_def fixed_codes)

lemma readFactor_good:
  assumes d: "wf_definition d" and fs: "wf_facts fs"
  shows "good_reading (factOf fs f) (readFactor d fs f)"
proof -
  note w = factOf_wf [OF fs, of f]
  have m: "f \<in> set NORMALIZED_TOKEN_FACTOR_IDS" if "f \<noteq> finding_age_days" "f \<noteq> advisory_withdrawn"
    using that by (cases f) (simp_all add: NORMALIZED_TOKEN_FACTOR_IDS_def)
  have kev: "KEV_UNAVAILABLE_REASONS \<noteq> []" by (simp add: KEV_UNAVAILABLE_REASONS_def)
  show ?thesis
  proof (cases "f \<in> {source_severity, finding_age_days, advisory_withdrawn}")
    case True
    with w d show ?thesis using good_severity good_age good_withdrawn by auto
  next
    case False
    then show ?thesis
      using w d m
      by (cases f; cases "factState (factOf fs f)")
        (auto simp: Let_def dest: no_unknown intro!: good_observedToken good_notObserved
          intro: token_fact(1,2) token_fact(3) [OF _ _ kev] codes_of_tokens fixed_codes)
  qed
qed

subsection \<open>The score\<close>

text \<open>The reference quantities: plain integers, without the \<^verbatim>\<open>NaN\<close> bookkeeping of the engine.\<close>

definition weightOf :: "policyDefinition \<Rightarrow> factorId \<Rightarrow> int" where
  "weightOf d f = (case map_of (weights d) f of Some w \<Rightarrow> w | None \<Rightarrow> 0)"

definition percentOf :: "policyDefinition \<Rightarrow> facts \<Rightarrow> factorId \<Rightarrow> int" where
  "percentOf d fs f = (case normalizedPercent (readFactor d fs f) of Some p \<Rightarrow> p | None \<Rightarrow> 0)"

definition scoreOf :: "policyDefinition \<Rightarrow> facts \<Rightarrow> int" where
  "scoreOf d fs = (\<Sum>f\<leftarrow>FACTOR_IDS. weightOf d f * percentOf d fs f)"

definition floorOf :: "policyDefinition \<Rightarrow> int" where
  "floorOf d = (case find (\<lambda>b. band b = kevMinimumBand (rules d)) (bands d) of
      None \<Rightarrow> 0 | Some b \<Rightarrow> minPriority b)"

definition isListed :: "facts \<Rightarrow> bool" where
  "isListed fs \<longleftrightarrow> factState (factOf fs kev_listed) = observed \<and>
     isKevListedToken (factText (factOf fs kev_listed))"

definition finalScore :: "policyDefinition \<Rightarrow> facts \<Rightarrow> int" where
  "finalScore d fs = (if isListed fs then max (scoreOf d fs) (100 * floorOf d) else scoreOf d fs)"

definition priorityOf :: "policyDefinition \<Rightarrow> facts \<Rightarrow> int" where
  "priorityOf d fs = (finalScore d fs + 50) div 100"

lemma weights_facts:
  assumes "wf_definition d"
  shows "map_of (weights d) f = Some (weightOf d f)" "0 \<le> weightOf d f" "weightOf d f \<le> 100"
    "(\<Sum>f\<leftarrow>FACTOR_IDS. weightOf d f) = 100"
proof -
  have g: "map fst (weights d) = FACTOR_IDS" "list_all (\<lambda>(_, w). in_range 0 WEIGHT_SUM w) (weights d)"
    "sum_list (map snd (weights d)) = WEIGHT_SUM"
    using assms by (auto simp: wf_definition_def good_weights_def)
  have "f \<in> fst ` set (weights d)" using g(1) by (metis list.set_map set_FACTOR_IDS)
  then obtain w where w: "map_of (weights d) f = Some w" by (metis map_of_eq_None_iff option.exhaust)
  then show "map_of (weights d) f = Some (weightOf d f)" by (simp add: weightOf_def)
  have "in_range 0 WEIGHT_SUM w" using g(2) w by (auto simp: list_all_iff dest: map_of_SomeD)
  with w show "0 \<le> weightOf d f" "weightOf d f \<le> 100"
    by (simp_all add: weightOf_def in_range_def WEIGHT_SUM_def)
  have d: "distinct (map fst (weights d))" using g(1) by simp
  have "map (weightOf d) FACTOR_IDS = map (weightOf d \<circ> fst) (weights d)"
    by (simp add: g(1) [symmetric])
  also have "\<dots> = map snd (weights d)"
    using d by (auto simp: weightOf_def map_of_is_SomeI)
  finally show "(\<Sum>f\<leftarrow>FACTOR_IDS. weightOf d f) = 100"
    using g(3) by (simp add: WEIGHT_SUM_def)
qed

lemma percent_facts:
  assumes "wf_definition d" "wf_facts fs"
  shows "normalizedPercent (readFactor d fs f) = Some (percentOf d fs f)"
    "0 \<le> percentOf d fs f" "percentOf d fs f \<le> 100"
    "factState (factOf fs f) \<noteq> observed \<Longrightarrow> percentOf d fs f = 0"
  using readFactor_good [OF assms, of f] by (auto simp: good_reading_def percentOf_def)

lemma sum_list_between:
  fixes g h :: "'a \<Rightarrow> int"
  assumes "\<And>x. x \<in> set xs \<Longrightarrow> 0 \<le> g x \<and> g x \<le> h x"
  shows "0 \<le> sum_list (map g xs) \<and> sum_list (map g xs) \<le> sum_list (map h xs)"
  using assms by (induction xs) force+

lemma contribution_range:
  assumes "wf_definition d" "wf_facts fs"
  shows "0 \<le> weightOf d f * percentOf d fs f"
    "weightOf d f * percentOf d fs f \<le> 100 * weightOf d f"
  using weights_facts(2,3) [OF assms(1), of f] percent_facts(2,3) [OF assms, of f]
    mult_left_mono [of "percentOf d fs f" 100 "weightOf d f"]
  by (auto simp: mult.commute)

lemma score_range:
  assumes "wf_definition d" "wf_facts fs"
  shows "0 \<le> scoreOf d fs" "scoreOf d fs \<le> 10000"
proof -
  have "(\<Sum>f\<leftarrow>FACTOR_IDS. 100 * weightOf d f) = 10000"
    using weights_facts(4) [OF assms(1)] by (simp add: sum_list_const_mult)
  with sum_list_between [of FACTOR_IDS "\<lambda>f. weightOf d f * percentOf d fs f" "\<lambda>f. 100 * weightOf d f"]
    contribution_range [OF assms]
  show "0 \<le> scoreOf d fs" "scoreOf d fs \<le> 10000" by (auto simp: scoreOf_def)
qed

lemma bands_facts:
  assumes "good_bands bs"
  shows "\<exists>b. find (\<lambda>b. band b = x) bs = Some b \<and> b \<in> set bs \<and> band b = x \<and>
      0 \<le> minPriority b \<and> minPriority b \<le> 100"
    and "0 \<le> p \<Longrightarrow> \<exists>b. find (\<lambda>b. p \<ge> minPriority b) bs = Some b"
proof -
  have r: "0 \<le> minPriority b \<and> minPriority b \<le> 100" if "b \<in> set bs" for b
    using assms that by (auto simp: good_bands_def list_all_iff in_range_def PRIORITY_MAX_def)
  have "x \<in> set PRIORITY_BANDS" by (cases x) (simp_all add: PRIORITY_BANDS_def)
  then have "\<exists>b \<in> set bs. band b = x"
    using assms by (metis (no_types, lifting) good_bands_def image_iff list.set_map)
  then have "find (\<lambda>b. band b = x) bs \<noteq> None" by (auto simp: find_None_iff)
  then show "\<exists>b. find (\<lambda>b. band b = x) bs = Some b \<and> b \<in> set bs \<and> band b = x \<and>
      0 \<le> minPriority b \<and> minPriority b \<le> 100"
    using r by (auto simp: find_Some_iff)
  have "bs \<noteq> []" using assms by (auto simp: good_bands_def PRIORITY_BANDS_def)
  then have "last bs \<in> set bs" "minPriority (last bs) = 0" using assms by (auto simp: good_bands_def)
  then show "0 \<le> p \<Longrightarrow> \<exists>b. find (\<lambda>b. p \<ge> minPriority b) bs = Some b"
    by (metis find_None_iff not_None_eq)
qed

lemma floor_range: "wf_definition d \<Longrightarrow> 0 \<le> floorOf d \<and> floorOf d \<le> 100"
  using bands_facts(1) [of "bands d" "kevMinimumBand (rules d)"]
  by (auto simp: floorOf_def wf_definition_def)

lemma final_range:
  "wf_definition d \<Longrightarrow> wf_facts fs \<Longrightarrow> 0 \<le> finalScore d fs \<and> finalScore d fs \<le> 10000"
  using score_range [of d fs] floor_range [of d] by (auto simp: finalScore_def)

lemma priority_range:
  "wf_definition d \<Longrightarrow> wf_facts fs \<Longrightarrow> 0 \<le> priorityOf d fs \<and> priorityOf d fs \<le> 100"
  using final_range [of d fs] by (auto simp: priorityOf_def)

lemma foldl_numAdd: "foldl numAdd (Some a) (map (\<lambda>x. Some (g x)) xs) = Some (a + sum_list (map g xs))"
  by (induction xs arbitrary: a) (simp_all add: numAdd_def)

lemma outBand_eq:
  "outBand (computeOutcome d fs) =
     (case priority (computeOutcome d fs) of None \<Rightarrow> None
      | Some p \<Rightarrow> find (\<lambda>b. p \<ge> minPriority b) (bands d))"
  unfolding computeOutcome_def Let_def by (simp only: outcome.select_convs)

lemma outcome_facts:
  assumes d: "wf_definition d" and fs: "wf_facts fs"
  defines "out \<equiv> computeOutcome d fs"
  shows "contributions out = map (\<lambda>f. Some (weightOf d f * percentOf d fs f)) FACTOR_IDS"
    "weightedScoreCenti out = Some (scoreOf d fs)"
    "upliftCenti out = Some (finalScore d fs - scoreOf d fs)"
    "priority out = Some (priorityOf d fs)"
    "outBand out = find (\<lambda>b. priorityOf d fs \<ge> minPriority b) (bands d)"
    "kevListed out = isListed fs"
    "readings out = map (weightedReadingOf d fs) FACTOR_IDS"
proof -
  have c: "contributionCenti (weightedReadingOf d fs f) = Some (weightOf d f * percentOf d fs f)" for f
    by (simp add: weightedReadingOf_def Let_def numMul_def weights_facts(1) [OF d]
        percent_facts(1) [OF d fs])
  then have cs: "map contributionCenti (map (weightedReadingOf d fs) FACTOR_IDS) =
      map (\<lambda>f. Some (weightOf d f * percentOf d fs f)) FACTOR_IDS" by simp
  have sc: "foldl numAdd (Some 0) (map (\<lambda>f. Some (weightOf d f * percentOf d fs f)) FACTOR_IDS) =
      Some (scoreOf d fs)" unfolding foldl_numAdd scoreOf_def by simp
  show "contributions out = map (\<lambda>f. Some (weightOf d f * percentOf d fs f)) FACTOR_IDS"
    "weightedScoreCenti out = Some (scoreOf d fs)"
    "kevListed out = isListed fs" "readings out = map (weightedReadingOf d fs) FACTOR_IDS"
    unfolding out_def computeOutcome_def Let_def by (simp_all add: cs sc isListed_def del: map_map)
  show u: "upliftCenti out = Some (finalScore d fs - scoreOf d fs)"
    unfolding out_def computeOutcome_def Let_def cs sc
    by (auto simp: finalScore_def isListed_def floorOf_def max_def mult.commute)
  show "priority out = Some (priorityOf d fs)"
    using u unfolding out_def computeOutcome_def Let_def cs sc
    by (simp add: numAdd_def priorityOf_def)
  then show "outBand out = find (\<lambda>b. priorityOf d fs \<ge> minPriority b) (bands d)"
    by (simp add: out_def outBand_eq)
qed

subsection \<open>The evaluation succeeds\<close>

definition bandFor :: "policyDefinition \<Rightarrow> int \<Rightarrow> policyBand option" where
  "bandFor d p = find (\<lambda>b. p \<ge> minPriority b) (bands d)"

lemma bandFor_Some: "wf_definition d \<Longrightarrow> 0 \<le> p \<Longrightarrow> \<exists>b. bandFor d p = Some b"
  unfolding bandFor_def wf_definition_def by (blast intro: bands_facts(2))

lemma invariants_hold:
  assumes d: "wf_definition d" and fs: "wf_facts fs"
  shows "checkPriorityInvariants (computeOutcome d fs) = None"
proof -
  note o = outcome_facts [OF d fs]
  have le: "weightOf d f * percentOf d fs f \<le> 10000" for f
    using contribution_range(2) [OF d fs, of f] weights_facts(3) [OF d, of f] by linarith
  have c: "list_all (\<lambda>v. inRange v 10000) (contributions (computeOutcome d fs))"
    unfolding o(1) list_all_iff using contribution_range(1) [OF d fs] le
    by (auto simp: inRange_def intro: order_trans [OF le])
  have "inRange (Some (scoreOf d fs)) 10000" using score_range [OF d fs] by (simp add: inRange_def)
  moreover have "inRange (Some (finalScore d fs - scoreOf d fs)) (10000 - scoreOf d fs)"
    using final_range [OF d fs] score_range [OF d fs]
    by (auto simp: inRange_def finalScore_def)
  moreover have "inRange (Some (priorityOf d fs)) 100"
    using priority_range [OF d fs] by (simp add: inRange_def)
  moreover obtain b where "outBand (computeOutcome d fs) = Some b"
    using bandFor_Some [OF d] priority_range [OF d fs] o(5) by (auto simp: bandFor_def)
  ultimately show ?thesis
    using c o(2,3,4) by (simp add: checkPriorityInvariants_def WEIGHT_SUM_def PERCENT_MAX_def
        PRIORITY_MAX_def)
qed

lemma evaluateFacts_eq:
  assumes d: "wf_definition d" and fs: "wf_facts fs"
  obtains b where "bandFor d (priorityOf d fs) = Some b"
    "evaluateFacts d fs = Inr
       \<lparr>eEngineVersion = POLICY_ENGINE_VERSION, ePolicyKey = policyKey d,
        eWeightedScoreCenti = scoreOf d fs, eUpliftCenti = finalScore d fs - scoreOf d fs,
        ePriority = priorityOf d fs, ePriorityBand = band b,
        eDueDateRecommendationDays = dueDateRecommendationDays b,
        eRecommended = (reasons (computeOutcome d fs) \<noteq> []),
        eReasons = reasons (computeOutcome d fs),
        eFactors = map (factorRowOf d fs (computeOutcome d fs) \<circ> weightedReadingOf d fs) FACTOR_IDS,
        eRules = [minimumBandRule (isListed fs) (finalScore d fs - scoreOf d fs),
          escalationRule (computeOutcome d fs)],
        eEvidence = (let rows = map (factorRowOf d fs (computeOutcome d fs) \<circ> weightedReadingOf d fs) FACTOR_IDS
          in (countState rows observed, countState rows unknown, countState rows unavailable))\<rparr>"
proof -
  obtain b where b: "bandFor d (priorityOf d fs) = Some b"
    using bandFor_Some [OF d] priority_range [OF d fs] by blast
  note o = outcome_facts [OF d fs]
  have "outBand (computeOutcome d fs) = Some b" using b o(5) by (simp add: bandFor_def)
  then show ?thesis
    using that [OF b] b o invariants_hold [OF d fs] by (simp add: evaluateFacts_def Let_def)
qed

subsection \<open>Missing evidence\<close>

lemma wf_UNAVAILABLE: "wf_fact (FACTOR_SPECS f) (UNAVAILABLE_FACTS f)"
  by (cases f) (simp_all add: UNAVAILABLE_FACTS_def payloadKey_def wf_payload_def
      KEV_UNAVAILABLE_REASONS_def)

lemma update_catalog:
  "f \<in> set ids \<Longrightarrow> AList.update f x (map (\<lambda>g. (g, h g)) ids) =
     map (\<lambda>g. (g, if g = f then x else h g)) ids" if "distinct ids" for ids
  using that by (induction ids) (auto intro: map_cong)

lemma withFactorUnavailable_wf:
  assumes "wf_facts fs"
  shows "wf_facts (withFactorUnavailable fs f)"
    "factOf (withFactorUnavailable fs f) g = (if g = f then UNAVAILABLE_FACTS f else factOf fs g)"
proof -
  obtain h where h: "fs = map (\<lambda>f. (f, h f)) FACTOR_IDS" "\<forall>f. wf_fact (FACTOR_SPECS f) (h f)"
    using assms unfolding wf_facts_iff by blast
  have u: "withFactorUnavailable fs f =
      map (\<lambda>g. (g, if g = f then UNAVAILABLE_FACTS f else h g)) FACTOR_IDS"
    unfolding withFactorUnavailable_def h(1) by (rule update_catalog) simp_all
  have "\<forall>g. wf_fact (FACTOR_SPECS g) (if g = f then UNAVAILABLE_FACTS f else h g)"
    using h(2) wf_UNAVAILABLE by simp
  then show "wf_facts (withFactorUnavailable fs f)"
    unfolding wf_facts_iff by (intro exI [of _ "\<lambda>g. if g = f then UNAVAILABLE_FACTS f else h g"] conjI u)
  have "factOf (map (\<lambda>g. (g, k g)) FACTOR_IDS) g = k g" for k
    by (simp add: factOf_def map_of_map_restrict restrict_map_def)
  then show "factOf (withFactorUnavailable fs f) g =
      (if g = f then UNAVAILABLE_FACTS f else factOf fs g)"
    unfolding u by (simp add: h(1))
qed

lemma readFactor_cong: "factOf fs f = factOf gs f \<Longrightarrow> readFactor d fs f = readFactor d gs f"
  by (cases f) simp_all

lemma unavailable_percent:
  assumes "wf_definition d" "wf_facts fs"
  shows "percentOf d (withFactorUnavailable fs f) g = (if g = f then 0 else percentOf d fs g)"
proof (cases "g = f")
  case True
  with percent_facts(4) [OF assms(1) withFactorUnavailable_wf(1) [OF assms(2)], of f f]
  show ?thesis by (simp add: withFactorUnavailable_wf(2) [OF assms(2)] UNAVAILABLE_FACTS_def)
next
  case False
  then show ?thesis
    using readFactor_cong [of "withFactorUnavailable fs f" g fs d]
    by (simp add: percentOf_def withFactorUnavailable_wf(2) [OF assms(2)])
qed

lemma unavailable_lowers:
  assumes d: "wf_definition d" and fs: "wf_facts fs"
  shows "scoreOf d (withFactorUnavailable fs f) \<le> scoreOf d fs"
    "finalScore d (withFactorUnavailable fs f) \<le> finalScore d fs"
    "priorityOf d (withFactorUnavailable fs f) \<le> priorityOf d fs"
proof -
  have "0 \<le> weightOf d g * percentOf d (withFactorUnavailable fs f) g \<and>
      weightOf d g * percentOf d (withFactorUnavailable fs f) g \<le> weightOf d g * percentOf d fs g" for g
    using contribution_range(1) [OF d fs, of g] by (auto simp: unavailable_percent [OF d fs])
  then show s: "scoreOf d (withFactorUnavailable fs f) \<le> scoreOf d fs"
    unfolding scoreOf_def by (intro sum_list_between [THEN conjunct2]) auto
  have "isListed (withFactorUnavailable fs f) \<Longrightarrow> isListed fs"
    by (auto simp: isListed_def withFactorUnavailable_wf(2) [OF fs] UNAVAILABLE_FACTS_def
        split: if_splits)
  with s show "finalScore d (withFactorUnavailable fs f) \<le> finalScore d fs"
    by (auto simp: finalScore_def)
  then show "priorityOf d (withFactorUnavailable fs f) \<le> priorityOf d fs"
    by (simp add: priorityOf_def zdiv_mono1)
qed

subsection \<open>Bands\<close>

definition bandOrdinal :: "priorityBand \<Rightarrow> nat" where
  "bandOrdinal b = (case b of P1 \<Rightarrow> 0 | P2 \<Rightarrow> 1 | P3 \<Rightarrow> 2 | P4 \<Rightarrow> 3)"

lemma bandOrdinal_nth: "i < length PRIORITY_BANDS \<Longrightarrow> bandOrdinal (PRIORITY_BANDS ! i) = i"
  by (auto simp: PRIORITY_BANDS_def bandOrdinal_def less_Suc_eq numeral_eq_Suc)

lemma bandFor_most_urgent:
  assumes "wf_definition d" "bandFor d p = Some b" "x \<in> set (bands d)" "minPriority x \<le> p"
  shows "b \<in> set (bands d)" "minPriority b \<le> p" "minPriority x \<le> minPriority b"
    "bandOrdinal (band b) \<le> bandOrdinal (band x)"
    "dueDateRecommendationDays b \<le> dueDateRecommendationDays x"
proof -
  let ?bs = "bands d"
  have g: "map band ?bs = PRIORITY_BANDS" "sorted_wrt (>) (map minPriority ?bs)"
    "sorted (map dueDateRecommendationDays ?bs)"
    using assms(1) by (auto simp: wf_definition_def good_bands_def)
  obtain i where i: "i < length ?bs" "minPriority (?bs ! i) \<le> p" "b = ?bs ! i"
    "\<forall>j < i. \<not> minPriority (?bs ! j) \<le> p"
    using assms(2) by (auto simp: bandFor_def find_Some_iff)
  obtain j where j: "j < length ?bs" "x = ?bs ! j" using assms(3) by (auto simp: in_set_conv_nth)
  have ij: "i \<le> j" using i(4) j assms(4) by (meson not_less)
  show "b \<in> set ?bs" "minPriority b \<le> p" using i by auto
  show "minPriority x \<le> minPriority b"
    using g(2) ij i j by (cases "i = j") (auto simp: sorted_wrt_iff_nth_less less_le)
  show "dueDateRecommendationDays b \<le> dueDateRecommendationDays x"
    using g(3) ij i j by (auto simp: sorted_iff_nth_mono)
  have "bandOrdinal (band (?bs ! k)) = k" if "k < length ?bs" for k
    using that g(1) bandOrdinal_nth [of k] by (metis length_map nth_map)
  with i j ij show "bandOrdinal (band b) \<le> bandOrdinal (band x)" by simp
qed

lemma floor_band:
  assumes "wf_definition d"
  obtains x where "x \<in> set (bands d)" "band x = kevMinimumBand (rules d)" "minPriority x = floorOf d"
  using bands_facts(1) [of "bands d" "kevMinimumBand (rules d)"] assms
  by (auto simp: floorOf_def wf_definition_def)

lemma listed_reaches_floor: "isListed fs \<Longrightarrow> floorOf d \<le> priorityOf d fs"
  by (auto simp: priorityOf_def finalScore_def)

lemma reasons_eq:
  "reasons (computeOutcome d fs) =
     (if isListed fs then
        (if factState (factOf fs environment_sensitivity) = observed \<and>
            factText (factOf fs environment_sensitivity) = js ''production'' then [kev_production] else []) @
        (if factState (factOf fs internet_exposure) = observed \<and>
            factText (factOf fs internet_exposure) = js ''internet_facing'' then [kev_internet_facing] else [])
      else [])"
  by (simp add: computeOutcome_def Let_def isListed_def)

subsection \<open>An example\<close>

definition exampleFacts :: facts where
  "exampleFacts =
     [(source_severity, Fact observed (Some (js ''values'', PTexts [js ''medium'', js ''high'']))),
      (kev_listed, Fact observed (Some (js ''value'', PText (js ''listed_catalog_stale'')))),
      (environment_sensitivity, Fact observed (Some (js ''value'', PText (js ''production'')))),
      (internet_exposure, Fact unavailable None),
      (business_criticality, Fact unknown (Some (js ''value'', PText (js ''unspecified'')))),
      (asset_data_classification, Fact unavailable None),
      (direct_dependency, Fact observed (Some (js ''value'', PText (js ''direct'')))),
      (fix_available, Fact observed (Some (js ''value'', PText (js ''available'')))),
      (finding_age_days, Fact observed (Some (js ''value'', PNum 45))),
      (advisory_withdrawn, Fact observed (Some (js ''value'', PText (js ''not_withdrawn''))))]"

lemma wf_exampleFacts: "wf_facts exampleFacts"
  by (simp add: wf_facts_def exampleFacts_def wf_payload_def payloadKey_def catalog_defs)

lemma example_listed: "isListed exampleFacts"
  by (simp add: isListed_def factOf_def exampleFacts_def isKevListedToken_def KEV_LISTED_TOKENS_def)

lemma example_score: "scoreOf builtinDefinition exampleFacts = 6600"
  by (simp add: scoreOf_def FACTOR_IDS_def weightOf_def percentOf_def builtinDefinition_def
      exampleFacts_def factOf_def Let_def observedReading_def notObserved_def observedToken_def
      tokenPercent_def agePercent_def highestSeverity_def indexOfRating_def SEVERITY_RATINGS_def)

lemma builtin_floor: "floorOf builtinDefinition = 60"
  by (simp add: floorOf_def builtinDefinition_def)

lemma example_evaluates: "\<exists>e. evaluateFacts builtinDefinition exampleFacts = Inr e"
  by (rule evaluateFacts_eq [OF builtin_wf wf_exampleFacts]) blast

subsection \<open>Properties\<close>

text \<open>
  C25. The engine never fails on validated input: for a validated definition and parsed facts the
  evaluation returns a result, no invariant violation is reported, and the weighted score, the uplift
  and the priority are in range.
\<close>

theorem evaluate_total:
  assumes "wf_definition d" "wf_facts fs"
  shows "\<exists>e. evaluateFacts d fs = Inr e \<and> 0 \<le> ePriority e \<and> ePriority e \<le> PRIORITY_MAX \<and>
           0 \<le> eWeightedScoreCenti e \<and> 0 \<le> eUpliftCenti e \<and>
           eWeightedScoreCenti e + eUpliftCenti e \<le> WEIGHT_SUM * PERCENT_MAX"
proof -
  obtain b where "bandFor d (priorityOf d fs) = Some b" and e: "\<exists>e. evaluateFacts d fs = Inr e \<and>
      ePriority e = priorityOf d fs \<and> eWeightedScoreCenti e = scoreOf d fs \<and>
      eUpliftCenti e = finalScore d fs - scoreOf d fs"
    by (rule evaluateFacts_eq [OF assms]) simp
  have "0 \<le> finalScore d fs - scoreOf d fs" by (simp add: finalScore_def)
  with e priority_range [OF assms] score_range [OF assms] final_range [OF assms] show ?thesis
    by (auto simp: PRIORITY_MAX_def WEIGHT_SUM_def PERCENT_MAX_def)
qed

theorem evaluate_total_witness:
  "wf_definition builtinDefinition \<and> wf_facts exampleFacts \<and>
   (\<exists>e. evaluateFacts builtinDefinition exampleFacts = Inr e \<and> 0 \<le> ePriority e \<and>
        ePriority e \<le> PRIORITY_MAX)"
  using evaluate_total [OF builtin_wf wf_exampleFacts] builtin_wf wf_exampleFacts by blast

text \<open>
  C7. The priority is the documented formula: the weighted score is the sum over the catalog of
  weight times percent, a listed KEV lifts it to the floor of the policy's minimum band and nothing
  else does, and the priority is the sum rounded half up to whole points.
\<close>

theorem evaluate_formula:
  assumes "wf_definition d" "wf_facts fs" "evaluateFacts d fs = Inr e"
  shows "eWeightedScoreCenti e = (\<Sum>row\<leftarrow>eFactors e. fWeight row * fNormalizedPercent row) \<and>
         eWeightedScoreCenti e + eUpliftCenti e =
           (if isListed fs then max (eWeightedScoreCenti e) (100 * floorOf d)
            else eWeightedScoreCenti e) \<and>
         100 * ePriority e - 50 \<le> eWeightedScoreCenti e + eUpliftCenti e \<and>
         eWeightedScoreCenti e + eUpliftCenti e < 100 * ePriority e + 50"
proof -
  note d = assms(1) and fs = assms(2)
  have e: "ePriority e = priorityOf d fs" "eWeightedScoreCenti e = scoreOf d fs"
    "eUpliftCenti e = finalScore d fs - scoreOf d fs"
    "eFactors e = map (factorRowOf d fs (computeOutcome d fs) \<circ> weightedReadingOf d fs) FACTOR_IDS"
    by (rule evaluateFacts_eq [OF d fs]; use assms(3) in simp)+
  have "fWeight (factorRowOf d fs out (weightedReadingOf d fs f)) = weightOf d f"
    "fNormalizedPercent (factorRowOf d fs out (weightedReadingOf d fs f)) = percentOf d fs f" for f out
    using weights_facts(1) [OF d, of f] percent_facts(1) [OF d fs, of f]
    by (simp_all add: factorRowOf_def weightedReadingOf_def Let_def)
  then have "(\<Sum>row\<leftarrow>eFactors e. fWeight row * fNormalizedPercent row) = scoreOf d fs"
    by (simp add: e(4) scoreOf_def comp_def)
  moreover have "100 * priorityOf d fs - 50 \<le> finalScore d fs" "finalScore d fs < 100 * priorityOf d fs + 50"
    by (simp_all add: priorityOf_def)
  ultimately show ?thesis by (auto simp: e finalScore_def)
qed

theorem evaluate_formula_witness:
  "\<exists>e. evaluateFacts builtinDefinition exampleFacts = Inr e \<and> eWeightedScoreCenti e = 6600 \<and>
     ePriority e = 66 \<and> 100 * ePriority e - 50 \<le> eWeightedScoreCenti e + eUpliftCenti e"
proof -
  have "\<exists>e. evaluateFacts builtinDefinition exampleFacts = Inr e \<and>
      ePriority e = priorityOf builtinDefinition exampleFacts \<and>
      eWeightedScoreCenti e = scoreOf builtinDefinition exampleFacts"
    by (rule evaluateFacts_eq [OF builtin_wf wf_exampleFacts]) simp
  moreover have "priorityOf builtinDefinition exampleFacts = 66"
    using example_listed
    by (simp add: priorityOf_def finalScore_def example_score builtin_floor)
  ultimately show ?thesis
    using evaluate_formula [OF builtin_wf wf_exampleFacts] example_score by metis
qed

text \<open>
  C18. The KEV floor: a finding listed in the KEV catalog is never placed in a less urgent band than
  the policy's minimum band, and its priority reaches that band's threshold.
\<close>

theorem kev_floor:
  assumes "wf_definition d" "wf_facts fs" "isListed fs" "evaluateFacts d fs = Inr e"
  shows "floorOf d \<le> ePriority e \<and>
         bandOrdinal (ePriorityBand e) \<le> bandOrdinal (kevMinimumBand (rules d))"
proof -
  obtain b where b: "bandFor d (priorityOf d fs) = Some b"
    "ePriority e = priorityOf d fs" "ePriorityBand e = band b"
    by (rule evaluateFacts_eq [OF assms(1,2)]) (use assms(4) in simp)
  obtain x where x: "x \<in> set (bands d)" "band x = kevMinimumBand (rules d)" "minPriority x = floorOf d"
    by (rule floor_band [OF assms(1)])
  have "floorOf d \<le> priorityOf d fs" by (rule listed_reaches_floor [OF assms(3)])
  with b x bandFor_most_urgent(4) [OF assms(1) b(1) x(1)] show ?thesis by auto
qed

theorem kev_floor_witness:
  "isListed exampleFacts \<and>
   (\<exists>e. evaluateFacts builtinDefinition exampleFacts = Inr e \<and> 60 \<le> ePriority e \<and>
        bandOrdinal (ePriorityBand e) \<le> bandOrdinal P2)"
proof -
  obtain e where e: "evaluateFacts builtinDefinition exampleFacts = Inr e"
    using example_evaluates by blast
  have "floorOf builtinDefinition = 60" "kevMinimumBand (rules builtinDefinition) = P2"
    by (simp_all add: builtin_floor) (simp add: builtinDefinition_def)
  with kev_floor [OF builtin_wf wf_exampleFacts example_listed e] e example_listed show ?thesis by auto
qed

text \<open>
  The band is the right one: it is a band of the policy whose threshold the priority reaches, no
  more urgent band has a threshold the priority reaches, and the due date recommendation is its own
  and the tightest among the bands that are reached.
\<close>

theorem band_correct:
  assumes "wf_definition d" "wf_facts fs" "evaluateFacts d fs = Inr e"
  shows "\<exists>b \<in> set (bands d). band b = ePriorityBand e \<and>
           dueDateRecommendationDays b = eDueDateRecommendationDays e \<and> minPriority b \<le> ePriority e \<and>
           (\<forall>x \<in> set (bands d). minPriority x \<le> ePriority e \<longrightarrow>
              bandOrdinal (ePriorityBand e) \<le> bandOrdinal (band x) \<and>
              eDueDateRecommendationDays e \<le> dueDateRecommendationDays x)"
proof -
  obtain b where b: "bandFor d (priorityOf d fs) = Some b" "ePriority e = priorityOf d fs"
    "ePriorityBand e = band b" "eDueDateRecommendationDays e = dueDateRecommendationDays b"
    by (rule evaluateFacts_eq [OF assms(1,2)]) (use assms(3) in simp)
  have "b \<in> set (bands d)" "minPriority b \<le> priorityOf d fs"
    using b(1) by (auto simp: bandFor_def find_Some_iff)
  with b bandFor_most_urgent(4,5) [OF assms(1) b(1)] show ?thesis by (intro bexI [of _ b]) auto
qed

theorem band_correct_witness:
  "\<exists>e. evaluateFacts builtinDefinition exampleFacts = Inr e \<and>
     (\<exists>b \<in> set (bands builtinDefinition). band b = ePriorityBand e \<and> minPriority b \<le> ePriority e)"
proof -
  obtain e where e: "evaluateFacts builtinDefinition exampleFacts = Inr e"
    using example_evaluates by blast
  with band_correct [OF builtin_wf wf_exampleFacts e] show ?thesis by blast
qed

text \<open>
  C27. Missing evidence never raises urgency: replacing any factor's fact by an unavailable one keeps
  or lowers the weighted score and the priority, and keeps or relaxes the band.
\<close>

theorem missing_evidence_never_raises:
  assumes "wf_definition d" "wf_facts fs" "evaluateFacts d fs = Inr e"
    and "evaluateFacts d (withFactorUnavailable fs f) = Inr e'"
  shows "eWeightedScoreCenti e' \<le> eWeightedScoreCenti e \<and> ePriority e' \<le> ePriority e \<and>
         bandOrdinal (ePriorityBand e) \<le> bandOrdinal (ePriorityBand e')"
proof -
  note fs' = withFactorUnavailable_wf(1) [OF assms(2), of f]
  obtain b where b: "bandFor d (priorityOf d fs) = Some b" "ePriority e = priorityOf d fs"
    "eWeightedScoreCenti e = scoreOf d fs" "ePriorityBand e = band b"
    by (rule evaluateFacts_eq [OF assms(1,2)]) (use assms(3) in simp)
  obtain b' where b': "bandFor d (priorityOf d (withFactorUnavailable fs f)) = Some b'"
    "ePriority e' = priorityOf d (withFactorUnavailable fs f)"
    "eWeightedScoreCenti e' = scoreOf d (withFactorUnavailable fs f)" "ePriorityBand e' = band b'"
    by (rule evaluateFacts_eq [OF assms(1) fs']) (use assms(4) in simp)
  note le = unavailable_lowers [OF assms(1,2), of f]
  have "b' \<in> set (bands d)" "minPriority b' \<le> priorityOf d (withFactorUnavailable fs f)"
    using b'(1) by (auto simp: bandFor_def find_Some_iff)
  with bandFor_most_urgent(4) [OF assms(1) b(1), of b'] b b' le show ?thesis by simp
qed

theorem missing_evidence_never_raises_witness:
  "\<exists>e e'. evaluateFacts builtinDefinition exampleFacts = Inr e \<and>
     evaluateFacts builtinDefinition (withFactorUnavailable exampleFacts kev_listed) = Inr e' \<and>
     ePriority e' \<le> ePriority e"
proof -
  obtain e where e: "evaluateFacts builtinDefinition exampleFacts = Inr e"
    using example_evaluates by blast
  obtain e' where e': "evaluateFacts builtinDefinition (withFactorUnavailable exampleFacts kev_listed) = Inr e'"
    by (rule evaluateFacts_eq [OF builtin_wf withFactorUnavailable_wf(1) [OF wf_exampleFacts]]) blast
  from missing_evidence_never_raises [OF builtin_wf wf_exampleFacts e e'] e e' show ?thesis by blast
qed

text \<open>
  The explanation is complete: one row per catalog factor, in catalog order with ordinals 1 to
  10; each row's contribution is its weight times its percent; a factor that was not observed has no
  value and contributes nothing; every code is in the catalog; the evidence summary counts all ten.
\<close>

theorem explanation_complete:
  assumes "wf_definition d" "wf_facts fs" "evaluateFacts d fs = Inr e"
  shows "map fFactorId (eFactors e) = FACTOR_IDS \<and> map fOrdinal (eFactors e) = [1..<11] \<and>
         (\<forall>row \<in> set (eFactors e).
            fContributionCenti row = fWeight row * fNormalizedPercent row \<and>
            fExplanationCode row \<in> set FACTOR_EXPLANATION_CODES \<and>
            fInputState row = factState (factOf fs (fFactorId row)) \<and>
            (fInputState row \<noteq> observed \<longrightarrow> fObservedValue row = None \<and> fContributionCenti row = 0)) \<and>
         (case eEvidence e of (o', unk, una) \<Rightarrow> o' + unk + una = 10)"
proof -
  note d = assms(1) and fs = assms(2)
  let ?row = "factorRowOf d fs (computeOutcome d fs) \<circ> weightedReadingOf d fs"
  have e: "eFactors e = map ?row FACTOR_IDS"
    "eEvidence e = (let rows = map ?row FACTOR_IDS
       in (countState rows observed, countState rows unknown, countState rows unavailable))"
    by (rule evaluateFacts_eq [OF d fs]; use assms(3) in simp)+
  have ids: "fFactorId (?row f) = f" "fOrdinal (?row f) = factorOrdinal f" for f
    by (simp_all add: factorRowOf_def weightedReadingOf_def Let_def)
  have count: "countState rows observed + countState rows unknown + countState rows unavailable
      = length rows" for rows
  proof (induction rows)
    case (Cons r rows)
    then show ?case by (cases "fInputState r") (auto simp: countState_def)
  qed (simp add: countState_def)
  have row: "fContributionCenti (?row f) = fWeight (?row f) * fNormalizedPercent (?row f) \<and>
      fExplanationCode (?row f) \<in> set FACTOR_EXPLANATION_CODES \<and>
      fInputState (?row f) = factState (factOf fs f) \<and>
      (fInputState (?row f) \<noteq> observed \<longrightarrow> fObservedValue (?row f) = None \<and> fContributionCenti (?row f) = 0)"
    for f
    using readFactor_good [OF d fs, of f] weights_facts(1) [OF d, of f]
    by (auto simp: good_reading_def factorRowOf_def weightedReadingOf_def Let_def numMul_def)
  have "map fOrdinal (eFactors e) = [1..<11]"
    unfolding e(1) by (simp add: ids FACTOR_IDS_def upt_rec numeral_eq_Suc del: comp_apply)
  moreover have "map fFactorId (eFactors e) = FACTOR_IDS"
    unfolding e(1) by (simp add: FACTOR_IDS_def ids del: comp_apply)
  moreover have "case eEvidence e of (o', unk, una) \<Rightarrow> o' + unk + una = 10"
    using count [of "map ?row FACTOR_IDS"] by (simp add: e(2) Let_def FACTOR_IDS_def)
  moreover have "\<forall>r \<in> set (eFactors e). \<exists>f. r = ?row f \<and> fFactorId r = f"
    unfolding e(1) using ids(1) by auto
  ultimately show ?thesis using row by metis
qed

theorem explanation_complete_witness:
  "\<exists>e. evaluateFacts builtinDefinition exampleFacts = Inr e \<and>
     map fFactorId (eFactors e) = FACTOR_IDS \<and> map fOrdinal (eFactors e) = [1..<11]"
proof -
  obtain e where e: "evaluateFacts builtinDefinition exampleFacts = Inr e"
    using example_evaluates by blast
  from explanation_complete [OF builtin_wf wf_exampleFacts e] e show ?thesis by blast
qed

text \<open>
  C29. A decisive factor is exactly one whose removal matters: a row is marked decisive when its
  factor has evidence and evaluating the same facts with that factor unavailable gives another band
  or another escalation recommendation. An unavailable factor is never decisive.
\<close>

theorem decisive_iff_removal_matters:
  assumes "wf_definition d" "wf_facts fs" "evaluateFacts d fs = Inr e" "row \<in> set (eFactors e)"
    and "evaluateFacts d (withFactorUnavailable fs (fFactorId row)) = Inr e'"
  shows "fStatus row = decisive \<longleftrightarrow>
     fInputState row \<noteq> unavailable \<and>
     (ePriorityBand e' \<noteq> ePriorityBand e \<or> eRecommended e' \<noteq> eRecommended e)"
proof -
  let ?out = "computeOutcome d fs"
  obtain b where b: "bandFor d (priorityOf d fs) = Some b" "ePriorityBand e = band b"
    "eRecommended e = (reasons ?out \<noteq> [])"
    "eFactors e = map (factorRowOf d fs ?out \<circ> weightedReadingOf d fs) FACTOR_IDS"
    by (rule evaluateFacts_eq [OF assms(1,2)]) (use assms(3) in simp)
  then obtain f where row: "row = factorRowOf d fs ?out (weightedReadingOf d fs f)"
    using assms(4) by auto
  then have f: "fFactorId row = f" by (simp add: factorRowOf_def weightedReadingOf_def Let_def)
  let ?gs = "withFactorUnavailable fs f"
  have gs: "wf_facts ?gs" by (rule withFactorUnavailable_wf(1) [OF assms(2)])
  obtain b' where b': "bandFor d (priorityOf d ?gs) = Some b'" "ePriorityBand e' = band b'"
    "eRecommended e' = (reasons (computeOutcome d ?gs) \<noteq> [])"
    by (rule evaluateFacts_eq [OF assms(1) gs]) (use assms(5) f in auto)
  have "outBand ?out = Some b" "outBand (computeOutcome d ?gs) = Some b'"
    using b(1) b'(1) outcome_facts(5) [OF assms(1,2)] outcome_facts(5) [OF assms(1) gs]
    by (simp_all add: bandFor_def)
  then have "fStatus row = decisive \<longleftrightarrow> inputState (weightedReadingOf d fs f) \<noteq> unavailable \<and>
      (band b' \<noteq> band b \<or> (reasons (computeOutcome d ?gs) \<noteq> []) \<noteq> (reasons ?out \<noteq> []))"
    using f by (auto simp: row factorRowOf_def factorStatusOf_def Let_def weightedReadingOf_def)
  moreover have "fInputState row = inputState (weightedReadingOf d fs f)"
    by (simp add: row factorRowOf_def)
  ultimately show ?thesis using b b' by simp
qed

theorem decisive_iff_removal_matters_witness:
  "\<exists>e e' row. evaluateFacts builtinDefinition exampleFacts = Inr e \<and> row \<in> set (eFactors e) \<and>
     evaluateFacts builtinDefinition (withFactorUnavailable exampleFacts (fFactorId row)) = Inr e' \<and>
     (fStatus row = decisive \<longleftrightarrow> fInputState row \<noteq> unavailable \<and>
       (ePriorityBand e' \<noteq> ePriorityBand e \<or> eRecommended e' \<noteq> eRecommended e))"
proof -
  obtain e where e: "evaluateFacts builtinDefinition exampleFacts = Inr e" "eFactors e \<noteq> []"
    by (rule evaluateFacts_eq [OF builtin_wf wf_exampleFacts]) (simp add: FACTOR_IDS_def)
  then have row: "hd (eFactors e) \<in> set (eFactors e)" by simp
  let ?f = "fFactorId (hd (eFactors e))"
  obtain e' where e': "evaluateFacts builtinDefinition (withFactorUnavailable exampleFacts ?f) = Inr e'"
    by (rule evaluateFacts_eq [OF builtin_wf withFactorUnavailable_wf(1) [OF wf_exampleFacts]]) blast
  from decisive_iff_removal_matters [OF builtin_wf wf_exampleFacts e(1) row e'] e row e'
  show ?thesis by blast
qed

text \<open>
  Escalation: it is recommended exactly when the KEV listing is observed together with an
  observed production environment or an observed internet-facing exposure, for the reasons listed in
  that order; it adds nothing to the score, which depends on the factor percents and the KEV listing
  alone.
\<close>

theorem escalation_exact:
  assumes "wf_definition d" "wf_facts fs" "evaluateFacts d fs = Inr e"
  shows "(eRecommended e \<longleftrightarrow> eReasons e \<noteq> []) \<and>
     (kev_production \<in> set (eReasons e) \<longleftrightarrow> isListed fs \<and>
        factOf fs environment_sensitivity = Fact observed (Some (js ''value'', PText (js ''production'')))) \<and>
     (kev_internet_facing \<in> set (eReasons e) \<longleftrightarrow> isListed fs \<and>
        factOf fs internet_exposure = Fact observed (Some (js ''value'', PText (js ''internet_facing'')))) \<and>
     (\<exists>row. eRules e = [minimumBandRule (isListed fs) (eUpliftCenti e), row] \<and>
        rTriggered row = eRecommended e \<and> rUpliftCenti row = 0)"
proof -
  have shape: "factState x = observed \<and> factText x = t \<longleftrightarrow> x = Fact observed (Some (js ''value'', PText t))"
    if "wf_fact (TokenSpec obs unk rs) x" for obs unk rs x t
    using that by (cases x rule: factText.cases) (auto simp: wf_payload_def split: option.splits payload.splits)
  have e: "eReasons e = reasons (computeOutcome d fs)" "eRecommended e = (reasons (computeOutcome d fs) \<noteq> [])"
    "eUpliftCenti e = finalScore d fs - scoreOf d fs"
    "eRules e = [minimumBandRule (isListed fs) (finalScore d fs - scoreOf d fs),
       escalationRule (computeOutcome d fs)]"
    by (rule evaluateFacts_eq [OF assms(1,2)]; use assms(3) in simp)+
  have "factState (factOf fs environment_sensitivity) = observed \<and>
      factText (factOf fs environment_sensitivity) = js ''production'' \<longleftrightarrow>
      factOf fs environment_sensitivity = Fact observed (Some (js ''value'', PText (js ''production'')))"
    using factOf_wf [OF assms(2), of environment_sensitivity] by (intro shape) simp
  moreover have "factState (factOf fs internet_exposure) = observed \<and>
      factText (factOf fs internet_exposure) = js ''internet_facing'' \<longleftrightarrow>
      factOf fs internet_exposure = Fact observed (Some (js ''value'', PText (js ''internet_facing'')))"
    using factOf_wf [OF assms(2), of internet_exposure] by (intro shape) simp
  moreover have "rTriggered (escalationRule out) = (reasons out \<noteq> [])" "rUpliftCenti (escalationRule out) = 0"
    for out by (simp_all add: escalationRule_def Let_def)
  ultimately show ?thesis by (simp add: e reasons_eq)
qed

theorem escalation_exact_witness:
  "\<exists>e. evaluateFacts builtinDefinition exampleFacts = Inr e \<and> eRecommended e \<and>
     kev_production \<in> set (eReasons e)"
proof -
  obtain e where e: "evaluateFacts builtinDefinition exampleFacts = Inr e"
    using example_evaluates by blast
  have "factOf exampleFacts environment_sensitivity =
      Fact observed (Some (js ''value'', PText (js ''production'')))"
    by (simp add: factOf_def exampleFacts_def)
  with escalation_exact [OF builtin_wf wf_exampleFacts e] e example_listed show ?thesis
    by (auto intro!: exI [of _ e])
qed

end
