(* ===== verification/PolicyEngine.thy ===== *)
theory PolicyEngine
  imports PolicyScoring
begin

text \<open>
  The engine as its clients see it: the exported operations of \<^verbatim>\<open>facts.ts\<close>, \<^verbatim>\<open>definition.ts\<close> and
  \<^verbatim>\<open>evaluate.ts\<close> with the two module-level \<^verbatim>\<open>WeakSet\<close>s that brand parsed facts and validated
  definitions. A branded object is an object identity with its deep-frozen content; a client may pass
  any object reference, so the arguments of \<open>evaluatePriority\<close> are identities, branded or not. The
  reachable states are those a program can produce by calling the operations in any order.
\<close>

record engine =
  nextObject :: nat
  parsedFactInputs :: "(nat \<times> facts) list"
  validatedDefinitions :: "(nat \<times> policyDefinition) list"

definition isParsedPriorityFactInput :: "engine \<Rightarrow> nat \<Rightarrow> bool" where
  "isParsedPriorityFactInput g ref \<longleftrightarrow> map_of (parsedFactInputs g) ref \<noteq> None"

definition isValidatedPriorityPolicyDefinition :: "engine \<Rightarrow> nat \<Rightarrow> bool" where
  "isValidatedPriorityPolicyDefinition g ref \<longleftrightarrow> map_of (validatedDefinitions g) ref \<noteq> None"

definition parseFactInput :: "engine \<Rightarrow> jsval \<Rightarrow> engine \<times> (factInputIssue list + nat)" where
  "parseFactInput g input =
     (case parseFacts input of
        Inl issues \<Rightarrow> (g, Inl issues)
      | Inr facts \<Rightarrow>
          let ref = nextObject g
          in (g\<lparr>nextObject := ref + 1, parsedFactInputs := (ref, facts) # parsedFactInputs g\<rparr>,
              Inr ref))"

definition validatePolicyDefinition :: "engine \<Rightarrow> jsval \<Rightarrow> engine \<times> (issueList + nat)" where
  "validatePolicyDefinition g input =
     (case validateDefinition input of
        Inl issues \<Rightarrow> (g, Inl issues)
      | Inr d \<Rightarrow>
          let ref = nextObject g
          in (g\<lparr>nextObject := ref + 1, validatedDefinitions := (ref, d) # validatedDefinitions g\<rparr>,
              Inr ref))"

datatype policyError = InvalidDefinition issueList | InvalidOverride issueList

definition validatePolicyOverride ::
  "engine \<Rightarrow> nat \<Rightarrow> jsval \<Rightarrow> engine \<times> (policyError + nat)" where
  "validatePolicyOverride g parent candidate =
     (case map_of (validatedDefinitions g) parent of
        None \<Rightarrow> (g, Inl (InvalidOverride [(ROOT, js ''parent_not_validated'')]))
      | Some p \<Rightarrow>
          (case validatePolicyDefinition g candidate of
             (g', Inl issues) \<Rightarrow> (g', Inl (InvalidDefinition issues))
           | (g', Inr ref) \<Rightarrow>
               (case map_of (validatedDefinitions g') ref of
                  None \<Rightarrow> (g', Inl (InvalidOverride []))
                | Some override \<Rightarrow>
                    let issues = overrideIssues p override
                    in if length issues > 0 then (g', Inl (InvalidOverride issues))
                       else (g', Inr ref))))"

datatype evaluationError =
    DefinitionNotValidated issueList
  | FactsNotParsed "factInputIssue list"
  | EngineInvariantViolation engineInvariantCode

definition evaluatePriority :: "engine \<Rightarrow> nat \<Rightarrow> nat \<Rightarrow> evaluationError + priorityEvaluation" where
  "evaluatePriority g definition facts =
     (case map_of (validatedDefinitions g) definition of
        None \<Rightarrow> Inl (DefinitionNotValidated definitionNotValidatedError)
      | Some d \<Rightarrow>
          (case map_of (parsedFactInputs g) facts of
             None \<Rightarrow> Inl (FactsNotParsed factsNotParsedError)
           | Some fs \<Rightarrow>
               (case evaluateFacts d fs of
                  Inl code \<Rightarrow> Inl (EngineInvariantViolation code)
                | Inr e \<Rightarrow> Inr e)))"

text \<open>The state after the modules have loaded: the built-in policy has been validated.\<close>

definition initialEngine :: engine where
  "initialEngine =
     fst (validatePolicyDefinition
       \<lparr>nextObject = 0, parsedFactInputs = [], validatedDefinitions = []\<rparr> builtinInput)"

inductive engine_step :: "engine \<Rightarrow> engine \<Rightarrow> bool" where
  parse: "engine_step g (fst (parseFactInput g input))"
| validate: "engine_step g (fst (validatePolicyDefinition g input))"
| override: "engine_step g (fst (validatePolicyOverride g parent candidate))"

inductive reachable :: "engine \<Rightarrow> bool" where
  init: "reachable initialEngine"
| step: "reachable g \<Longrightarrow> engine_step g g' \<Longrightarrow> reachable g'"

inductive_cases engine_stepE: "engine_step g g'"

subsection \<open>The brand invariant\<close>

definition engine_inv :: "engine \<Rightarrow> bool" where
  "engine_inv g \<longleftrightarrow>
     (\<forall>(ref, fs) \<in> set (parsedFactInputs g). ref < nextObject g \<and> wf_facts fs) \<and>
     (\<forall>(ref, d) \<in> set (validatedDefinitions g). ref < nextObject g \<and> wf_definition d)"

lemma parseFactInput_inv: "engine_inv g \<Longrightarrow> engine_inv (fst (parseFactInput g input))"
  by (auto simp: parseFactInput_def engine_inv_def Let_def parseFacts_wf less_Suc_eq
      split: sum.splits)

lemma validatePolicyDefinition_inv: "engine_inv g \<Longrightarrow> engine_inv (fst (validatePolicyDefinition g input))"
  using validateDefinition_sound reads_definition_wf
  by (fastforce simp: validatePolicyDefinition_def engine_inv_def Let_def less_Suc_eq
      split: sum.splits)

lemma validatePolicyOverride_state:
  "fst (validatePolicyOverride g parent candidate) \<in> {g, fst (validatePolicyDefinition g candidate)}"
  by (auto simp: validatePolicyOverride_def Let_def split: option.splits prod.splits sum.splits)

lemma validatePolicyOverride_inv:
  "engine_inv g \<Longrightarrow> engine_inv (fst (validatePolicyOverride g parent candidate))"
  using validatePolicyOverride_state [of g parent candidate] validatePolicyDefinition_inv [of g candidate]
  by auto

lemma engine_step_inv: "engine_step g g' \<Longrightarrow> engine_inv g \<Longrightarrow> engine_inv g'"
  by (erule engine_stepE)
    (simp_all add: parseFactInput_inv validatePolicyDefinition_inv validatePolicyOverride_inv)

lemma reachable_inv: "reachable g \<Longrightarrow> engine_inv g"
proof (induction rule: reachable.induct)
  case init
  then show ?case unfolding initialEngine_def
    by (rule validatePolicyDefinition_inv) (simp add: engine_inv_def)
next
  case (step g g')
  then show ?case by (blast intro: engine_step_inv)
qed

text \<open>Branded objects are frozen: later calls neither remove nor change them.\<close>

lemma branded:
  assumes "engine_inv g"
  shows "map_of (validatedDefinitions g) r = Some d \<Longrightarrow> r < nextObject g \<and> wf_definition d"
    "map_of (parsedFactInputs g) r = Some fs \<Longrightarrow> r < nextObject g \<and> wf_facts fs"
  using assms by (auto simp: engine_inv_def dest!: map_of_SomeD)

lemma validate_frozen:
  assumes "engine_inv g"
  shows "map_of (validatedDefinitions g) r = Some d \<Longrightarrow>
      map_of (validatedDefinitions (fst (validatePolicyDefinition g v))) r = Some d"
    "map_of (parsedFactInputs (fst (validatePolicyDefinition g v))) r = map_of (parsedFactInputs g) r"
  using branded(1) [OF assms, of r d]
  by (auto simp: validatePolicyDefinition_def Let_def split: sum.splits)

lemma parse_frozen:
  assumes "engine_inv g"
  shows "map_of (parsedFactInputs g) r = Some fs \<Longrightarrow>
      map_of (parsedFactInputs (fst (parseFactInput g v))) r = Some fs"
    "map_of (validatedDefinitions (fst (parseFactInput g v))) r = map_of (validatedDefinitions g) r"
  using branded(2) [OF assms, of r fs]
  by (auto simp: parseFactInput_def Let_def split: sum.splits)

lemma override_frozen:
  assumes "engine_inv g"
  shows "map_of (validatedDefinitions g) r = Some d \<Longrightarrow>
      map_of (validatedDefinitions (fst (validatePolicyOverride g parent c))) r = Some d"
    "map_of (parsedFactInputs (fst (validatePolicyOverride g parent c))) r = map_of (parsedFactInputs g) r"
  using validatePolicyOverride_state [of g parent c] validate_frozen [OF assms] by auto

lemma step_frozen:
  assumes "engine_step g g'" "engine_inv g"
  shows "map_of (validatedDefinitions g) r = Some d \<Longrightarrow> map_of (validatedDefinitions g') r = Some d"
    "map_of (parsedFactInputs g) r = Some fs \<Longrightarrow> map_of (parsedFactInputs g') r = Some fs"
  using assms
  by (auto elim!: engine_stepE simp: validate_frozen parse_frozen override_frozen)

subsection \<open>Overrides\<close>

lemma sectionIssues_Nil_iff:
  "sectionIssues p d = [] \<longleftrightarrow>
     policyKey d = policyKey p \<and> factorCatalog d = factorCatalog p \<and>
     normalization d = normalization p \<and> bands d = bands p \<and> rules d = rules p"
  by (simp add: sectionIssues_def Let_def)

lemma concat_map_Nil: "concat (map h xs) = [] \<longleftrightarrow> (\<forall>x \<in> set xs. h x = [])"
  by (induction xs) auto

lemma weightBoundIssues_Nil_iff:
  assumes "wf_definition d"
  shows "weightBoundIssues d = [] \<longleftrightarrow>
     (\<forall>f. fst (OVERRIDE_WEIGHT_BOUNDS f) \<le> weightOf d f \<and> weightOf d f \<le> snd (OVERRIDE_WEIGHT_BOUNDS f))"
  by (simp only: weightBoundIssues_def concat_map_Nil weights_facts(1) [OF assms] option.case
      UNIV_factorId [symmetric]) (auto simp: not_less)

lemma validatePolicyDefinition_ref:
  assumes "validatePolicyDefinition g v = (g', Inr r)"
  shows "\<exists>d. map_of (validatedDefinitions g') r = Some d \<and> validateDefinition v = Inr d"
  using assms by (auto simp: validatePolicyDefinition_def Let_def split: sum.splits)

subsection \<open>Properties\<close>

text \<open>
  C1. In every state that calls of the engine can reach, an evaluation fails for one reason only: an
  argument that the engine has not branded. A validated definition and parsed facts are always
  evaluated; the engine invariant violation is unreachable.
\<close>

theorem engine_never_violates:
  assumes "reachable g"
  shows "evaluatePriority g d fs \<noteq> Inl (EngineInvariantViolation code) \<and>
         (is_ok (evaluatePriority g d fs) \<longleftrightarrow>
            isValidatedPriorityPolicyDefinition g d \<and> isParsedPriorityFactInput g fs)"
proof -
  note inv = reachable_inv [OF assms]
  have "\<exists>e. evaluateFacts x y = Inr e"
    if "map_of (validatedDefinitions g) d = Some x" "map_of (parsedFactInputs g) fs = Some y" for x y
    by (rule evaluateFacts_eq [of x y]) (use branded [OF inv] that in blast)+
  then show ?thesis
    by (fastforce simp: evaluatePriority_def isValidatedPriorityPolicyDefinition_def
        isParsedPriorityFactInput_def split: option.splits sum.splits)
qed

theorem engine_never_violates_witness:
  "reachable initialEngine \<and>
   evaluatePriority initialEngine 0 0 \<noteq> Inl (EngineInvariantViolation band_unresolved)"
  using engine_never_violates [OF reachable.init] reachable.init by blast

text \<open>
  Branded objects are immutable: whatever is called next, a definition or facts object that the
  engine has accepted keeps its content, so a later evaluation of the same arguments returns the
  same result.
\<close>

theorem evaluation_stable:
  assumes "reachable g" "engine_step g g'" "evaluatePriority g d fs = Inr e"
  shows "evaluatePriority g' d fs = Inr e"
proof -
  note inv = reachable_inv [OF assms(1)]
  from assms(3) obtain x y where "map_of (validatedDefinitions g) d = Some x"
    "map_of (parsedFactInputs g) fs = Some y" "evaluateFacts x y = Inr e"
    by (auto simp: evaluatePriority_def split: option.splits sum.splits)
  with step_frozen [OF assms(2) inv] show ?thesis by (simp add: evaluatePriority_def)
qed

text \<open>An engine in which the built-in policy and the example facts are branded.\<close>

definition exampleEngine :: engine where
  "exampleEngine = fst (parseFactInput initialEngine (factsToJs exampleFacts))"

lemma example_engine:
  "reachable exampleEngine"
  "map_of (validatedDefinitions exampleEngine) 0 = Some builtinDefinition"
  "map_of (parsedFactInputs exampleEngine) 1 = Some exampleFacts"
proof -
  show "reachable exampleEngine"
    unfolding exampleEngine_def by (blast intro: reachable.intros engine_step.intros)
  have "validateDefinition builtinInput = Inr builtinDefinition"
    unfolding builtin_input by (rule validateDefinition_complete) (rule reads_definitionToJs [OF builtin_wf])
  then show "map_of (validatedDefinitions exampleEngine) 0 = Some builtinDefinition"
    "map_of (parsedFactInputs exampleEngine) 1 = Some exampleFacts"
    by (simp_all add: exampleEngine_def initialEngine_def parseFactInput_def validatePolicyDefinition_def
        Let_def parseFacts_factsToJs [OF wf_exampleFacts])
qed

theorem evaluation_stable_witness:
  "\<exists>e. evaluatePriority exampleEngine 0 1 = Inr e \<and>
     evaluatePriority (fst (parseFactInput exampleEngine Null)) 0 1 = Inr e"
proof -
  obtain e where "evaluateFacts builtinDefinition exampleFacts = Inr e" using example_evaluates by blast
  then have e: "evaluatePriority exampleEngine 0 1 = Inr e"
    by (simp add: evaluatePriority_def example_engine del: One_nat_def)
  from evaluation_stable [OF example_engine(1) engine_step.parse e] e show ?thesis by blast
qed

text \<open>
  C31. Overrides: an accepted organization override is a validated definition that differs from its
  parent in the weights only, and each weight stays inside the bounds of the catalog. (In particular
  the KEV and severity weights cannot be switched off.)
\<close>

theorem override_bounded:
  assumes "reachable g" "validatePolicyOverride g parent candidate = (g', Inr ref)"
  shows "\<exists>p d. map_of (validatedDefinitions g) parent = Some p \<and>
     map_of (validatedDefinitions g') ref = Some d \<and> wf_definition d \<and>
     d = p\<lparr>weights := weights d\<rparr> \<and>
     (\<forall>f. fst (OVERRIDE_WEIGHT_BOUNDS f) \<le> weightOf d f \<and> weightOf d f \<le> snd (OVERRIDE_WEIGHT_BOUNDS f))"
proof -
  from assms(2) obtain p where p: "map_of (validatedDefinitions g) parent = Some p"
    by (auto simp: validatePolicyOverride_def split: option.splits)
  obtain g1 r1 where v: "validatePolicyDefinition g candidate = (g1, r1)" by fastforce
  with assms(2) p obtain r where "r1 = Inr r"
    by (auto simp: validatePolicyOverride_def split: sum.splits)
  from validatePolicyDefinition_ref [OF v [unfolded this]] obtain d where
    d: "map_of (validatedDefinitions g1) r = Some d" "validateDefinition candidate = Inr d" by blast
  with assms(2) p v \<open>r1 = Inr r\<close> have e: "g' = g1" "ref = r" "overrideIssues p d = []"
    by (auto simp: validatePolicyOverride_def Let_def split: if_splits)
  have w: "wf_definition d" "wf_definition p"
    using d(2) validateDefinition_sound reads_definition_wf branded(1) [OF reachable_inv [OF assms(1)] p]
    by blast+
  from e(3) have "sectionIssues p d = []" "weightBoundIssues d = []" by (simp_all add: overrideIssues_def)
  with w p d e show ?thesis
    by (auto simp: sectionIssues_Nil_iff weightBoundIssues_Nil_iff wf_definition_def intro!: exI)
qed

lemma builtin_validates: "validateDefinition builtinInput = Inr builtinDefinition"
  unfolding builtin_input by (rule validateDefinition_complete) (rule reads_definitionToJs [OF builtin_wf])

lemma builtin_within_bounds: "overrideIssues builtinDefinition builtinDefinition = []"
  by (simp add: overrideIssues_def sectionIssues_Nil_iff weightBoundIssues_def FACTOR_IDS_def
      builtinDefinition_def)

theorem override_bounded_witness:
  "\<exists>g' ref d. validatePolicyOverride exampleEngine 0 builtinInput = (g', Inr ref) \<and>
     map_of (validatedDefinitions g') ref = Some d \<and> 30 \<le> weightOf d source_severity \<and>
     10 \<le> weightOf d kev_listed"
proof -
  obtain g' ref where r: "validatePolicyOverride exampleEngine 0 builtinInput = (g', Inr ref)"
    by (simp add: validatePolicyOverride_def example_engine validatePolicyDefinition_def
        builtin_validates Let_def builtin_within_bounds)
  from override_bounded [OF example_engine(1) r] obtain d where
    d: "map_of (validatedDefinitions g') ref = Some d"
    "\<forall>f. fst (OVERRIDE_WEIGHT_BOUNDS f) \<le> weightOf d f" by blast
  from d(2) [rule_format, of source_severity] d(2) [rule_format, of kev_listed] d(1) r show ?thesis
    by auto
qed

end
