(* ===== verification/RemediationOrder.thy ===== *)
theory RemediationOrder
  imports PolicyEngine
begin

text \<open>
  The remediation queue order, in its two implementations: \<^verbatim>\<open>packages/policy-engine/src/ordering.ts\<close>
  on evaluations and \<^verbatim>\<open>packages/domain/src/risk/remediation-queue-order.ts\<close> on stored keys, with the
  presentation order of factor rows. \<^verbatim>\<open>'incomparable'\<close> is \<open>None\<close>.
\<close>

subsection \<open>Keys\<close>

definition descending :: "int \<Rightarrow> int \<Rightarrow> int" where
  "descending left right = (if left = right then 0 else if left > right then - 1 else 1)"

definition trueFirst :: "bool \<Rightarrow> bool \<Rightarrow> int" where
  "trueFirst left right = (if left = right then 0 else if left then - 1 else 1)"

definition ascending :: "jstr \<Rightarrow> jstr \<Rightarrow> int" where
  "ascending left right = (if left = right then 0 else if js_less left right then - 1 else 1)"

subsection \<open>Engine order\<close>

definition factorRow :: "priorityEvaluation \<Rightarrow> factorId \<Rightarrow> priorityFactorRow option" where
  "factorRow e f = find (\<lambda>row. fFactorId row = f) (eFactors e)"

definition isKevListed :: "priorityEvaluation \<Rightarrow> bool" where
  "isKevListed e =
     (case factorRow e kev_listed of
        None \<Rightarrow> False
      | Some row \<Rightarrow> fInputState row = observed \<and>
          (case fObservedValue row of Some (PText t) \<Rightarrow> t \<in> set KEV_LISTED_TOKENS | _ \<Rightarrow> False))"

definition severityPercent :: "priorityEvaluation \<Rightarrow> int" where
  "severityPercent e = (case factorRow e source_severity of None \<Rightarrow> 0 | Some row \<Rightarrow> fNormalizedPercent row)"

definition compareForRemediationQueue :: "priorityEvaluation \<Rightarrow> priorityEvaluation \<Rightarrow> int option" where
  "compareForRemediationQueue a b =
     (if ePolicyKey a \<noteq> ePolicyKey b then None
      else Some (first_nonzero
        [descending (ePriority a) (ePriority b),
         trueFirst (eRecommended a) (eRecommended b),
         trueFirst (isKevListed a) (isKevListed b),
         descending (severityPercent a) (severityPercent b)]))"

definition compareContribution :: "priorityFactorRow \<Rightarrow> priorityFactorRow \<Rightarrow> int" where
  "compareContribution left right =
     (let byContribution = fContributionCenti right - fContributionCenti left
      in if byContribution \<noteq> 0 then byContribution
         else int (fOrdinal left) - int (fOrdinal right))"

definition rankFactorsByContribution :: "priorityFactorRow list \<Rightarrow> priorityFactorRow list" where
  "rankFactorsByContribution factors = cmp_sort compareContribution factors"

subsection \<open>Stored order\<close>

record storedRemediationRankKey =
  sPolicyKey :: jstr
  sPriority :: int
  sEscalationRecommended :: bool
  sKevListed :: bool
  sSeverityPercent :: int
  sFirstObservedAt :: jstr
  sFindingId :: jstr

definition compareStoredRemediationRank ::
  "storedRemediationRankKey \<Rightarrow> storedRemediationRankKey \<Rightarrow> int option" where
  "compareStoredRemediationRank left right =
     (if sPolicyKey left \<noteq> sPolicyKey right then None
      else Some (first_nonzero
        [descending (sPriority left) (sPriority right),
         trueFirst (sEscalationRecommended left) (sEscalationRecommended right),
         trueFirst (sKevListed left) (sKevListed right),
         descending (sSeverityPercent left) (sSeverityPercent right),
         ascending (sFirstObservedAt left) (sFirstObservedAt right),
         ascending (sFindingId left) (sFindingId right)]))"

definition PRIORITY_KEV_LISTED_TOKENS :: "jstr list" where
  [catalog_defs]: "PRIORITY_KEV_LISTED_TOKENS =
     [js ''listed_catalog_current'', js ''listed_catalog_stale'',
      js ''listed_catalog_disabled_with_history'']"

definition storedKevListed :: "jstr \<Rightarrow> payload option \<Rightarrow> bool" where
  "storedKevListed state value =
     (state = js ''observed'' \<and>
      (case value of Some (PText t) \<Rightarrow> t \<in> set PRIORITY_KEV_LISTED_TOKENS | _ \<Rightarrow> False))"

text \<open>The key a stored calculation has: the evaluation's own fields and the two caller keys.\<close>

definition storedKey :: "priorityEvaluation \<Rightarrow> jstr \<Rightarrow> jstr \<Rightarrow> storedRemediationRankKey" where
  "storedKey e firstObservedAt findingId =
     \<lparr>sPolicyKey = ePolicyKey e, sPriority = ePriority e, sEscalationRecommended = eRecommended e,
      sKevListed = (case factorRow e kev_listed of None \<Rightarrow> False
        | Some row \<Rightarrow> storedKevListed (inputStateName (fInputState row)) (fObservedValue row)),
      sSeverityPercent = severityPercent e,
      sFirstObservedAt = firstObservedAt, sFindingId = findingId\<rparr>"

subsection \<open>Comparator laws\<close>

interpretation descendingOrder: total_cmp descending
  by unfold_locales (auto simp: descending_def split: if_splits)

interpretation trueFirstOrder: total_cmp trueFirst
  by unfold_locales (auto simp: trueFirst_def split: if_splits)

lemma ascending_eq: "ascending = (\<lambda>x y. if lex_cmp linord_cmp x y = 0 then 0
    else if lex_cmp linord_cmp x y < 0 then - 1 else 1)"
  by (intro ext) (simp add: ascending_def js_less_def jstr_order.cmp_zero_iff)

lemma ascending_le: "ascending x y \<le> 0 \<longleftrightarrow> lex_cmp linord_cmp x y \<le> 0"
  by (auto simp: ascending_eq)

interpretation ascendingOrder: total_cmp ascending
proof (unfold_locales, goal_cases)
  case (1 x)
  then show ?case by (simp add: ascending_def)
next
  case (2 y x)
  then show ?case using js_less_flip [of x y] by (auto simp: ascending_def)
next
  case (3 x y z)
  then show ?case using jstr_order.cmp_trans [of x y z] by (simp add: ascending_le)
next
  case (4 x y)
  then show ?case by (auto simp: ascending_def split: if_splits)
qed

definition rankChain :: "storedRemediationRankKey \<Rightarrow> storedRemediationRankKey \<Rightarrow> int" where
  "rankChain = chain_cmp
     [\<lambda>x y. descending (sPriority x) (sPriority y),
      \<lambda>x y. trueFirst (sEscalationRecommended x) (sEscalationRecommended y),
      \<lambda>x y. trueFirst (sKevListed x) (sKevListed y),
      \<lambda>x y. descending (sSeverityPercent x) (sSeverityPercent y),
      \<lambda>x y. ascending (sFirstObservedAt x) (sFirstObservedAt y),
      \<lambda>x y. ascending (sFindingId x) (sFindingId y)]"

lemma compareStored_eq:
  "compareStoredRemediationRank x y = (if sPolicyKey x = sPolicyKey y then Some (rankChain x y) else None)"
  by (simp add: compareStoredRemediationRank_def rankChain_def chain_cmp_def)

interpretation rankOrder: preorder_cmp rankChain
  unfolding rankChain_def
  by (rule preorder_chain)
    (simp add: preorder_by_key descendingOrder.preorder_cmp_axioms
      trueFirstOrder.preorder_cmp_axioms ascendingOrder.preorder_cmp_axioms)

interpretation contributionOrder: preorder_cmp compareContribution
proof (unfold_locales, goal_cases)
  case (1 x)
  then show ?case by (simp add: compareContribution_def)
next
  case (2 y x)
  then show ?case by (simp add: compareContribution_def Let_def)
next
  case (3 x y z)
  then show ?case by (auto simp: compareContribution_def Let_def split: if_splits)
qed

subsection \<open>Properties\<close>

text \<open>
  The stored rank is a total order inside one policy: keys are incomparable exactly when their
  policy keys differ; otherwise the comparison is zero on equal keys only, changes sign when the
  arguments are swapped, and is transitive. Paging by this key is therefore well defined.
\<close>

theorem stored_rank_total_order:
  "(compareStoredRemediationRank x y = None \<longleftrightarrow> sPolicyKey x \<noteq> sPolicyKey y) \<and>
   (compareStoredRemediationRank x y = Some 0 \<longleftrightarrow> x = y) \<and>
   compareStoredRemediationRank y x = map_option uminus (compareStoredRemediationRank x y) \<and>
   (\<forall>c c'. compareStoredRemediationRank x y = Some c \<and> compareStoredRemediationRank y z = Some c' \<and>
      c \<le> 0 \<and> c' \<le> 0 \<longrightarrow> (\<exists>c''. compareStoredRemediationRank x z = Some c'' \<and> c'' \<le> 0))"
proof -
  have "rankChain x y = 0 \<and> sPolicyKey x = sPolicyKey y \<longleftrightarrow> x = y"
  proof
    assume a: "rankChain x y = 0 \<and> sPolicyKey x = sPolicyKey y"
    note z = chain_cmp_zero [OF a [THEN conjunct1, unfolded rankChain_def]]
    from a show "x = y"
      using z [of "\<lambda>x y. descending (sPriority x) (sPriority y)"]
        z [of "\<lambda>x y. trueFirst (sEscalationRecommended x) (sEscalationRecommended y)"]
        z [of "\<lambda>x y. trueFirst (sKevListed x) (sKevListed y)"]
        z [of "\<lambda>x y. descending (sSeverityPercent x) (sSeverityPercent y)"]
        z [of "\<lambda>x y. ascending (sFirstObservedAt x) (sFirstObservedAt y)"]
        z [of "\<lambda>x y. ascending (sFindingId x) (sFindingId y)"]
      by (intro storedRemediationRankKey.equality)
        (simp_all add: descendingOrder.cmp_zero_iff trueFirstOrder.cmp_zero_iff
          ascendingOrder.cmp_zero_iff)
  next
    assume "x = y"
    then show "rankChain x y = 0 \<and> sPolicyKey x = sPolicyKey y" by (simp add: rankOrder.cmp_refl)
  qed
  moreover have "rankChain y x = - rankChain x y" by (rule rankOrder.cmp_flip)
  moreover have "rankChain x y \<le> 0 \<Longrightarrow> rankChain y z \<le> 0 \<Longrightarrow> rankChain x z \<le> 0"
    by (rule rankOrder.cmp_trans)
  ultimately show ?thesis by (auto simp: compareStored_eq)
qed

definition exampleKey :: "int \<Rightarrow> string \<Rightarrow> storedRemediationRankKey" where
  "exampleKey p i =
     \<lparr>sPolicyKey = js ''patchpilot.builtin.v0'', sPriority = p, sEscalationRecommended = False,
      sKevListed = False, sSeverityPercent = 75, sFirstObservedAt = js ''2025-01-01T00:00:00.000Z'',
      sFindingId = js i\<rparr>"

theorem stored_rank_total_order_witness:
  "compareStoredRemediationRank (exampleKey 70 ''b'') (exampleKey 60 ''a'') = Some (- 1) \<and>
   compareStoredRemediationRank (exampleKey 60 ''a'') (exampleKey 60 ''b'') = Some (- 1) \<and>
   (\<exists>c. compareStoredRemediationRank (exampleKey 70 ''b'') (exampleKey 60 ''b'') = Some c \<and> c \<le> 0)"
proof -
  have c: "compareStoredRemediationRank (exampleKey 70 ''b'') (exampleKey 60 ''a'') = Some (- 1)"
    "compareStoredRemediationRank (exampleKey 60 ''a'') (exampleKey 60 ''b'') = Some (- 1)"
    by (simp_all add: compareStoredRemediationRank_def exampleKey_def descending_def trueFirst_def
        ascending_def js_less_def js_def linord_cmp_def)
  from stored_rank_total_order [of "exampleKey 70 ''b''" "exampleKey 60 ''a''" "exampleKey 60 ''b''"] c
  show ?thesis by auto
qed

text \<open>
  C33. The two implementations agree: on keys stored from evaluations, the stored comparison is the
  engine comparison, refined by first observation and finding id where the engine has a tie; both are
  incomparable in the same cases.
\<close>

theorem stored_rank_refines_engine:
  "compareStoredRemediationRank (storedKey a ta ia) (storedKey b tb ib) =
     map_option (\<lambda>c. if c \<noteq> 0 then c else if ascending ta tb \<noteq> 0 then ascending ta tb else ascending ia ib)
       (compareForRemediationQueue a b)"
proof -
  have state: "inputStateName s = js ''observed'' \<longleftrightarrow> s = observed" for s by (cases s) simp_all
  have k: "sKevListed (storedKey e t i) = isKevListed e" for e t i
    by (simp add: storedKey_def isKevListed_def storedKevListed_def state PRIORITY_KEV_LISTED_TOKENS_def
        KEV_LISTED_TOKENS_def split: option.splits payload.splits)
  show ?thesis
    by (simp add: compareStoredRemediationRank_def compareForRemediationQueue_def k)
      (simp add: storedKey_def)
qed

text \<open>
  Presentation order: ranking the factor rows permutes them into the order of contribution
  descending, then ordinal ascending; rows with distinct ordinals, as every evaluation has, are
  ranked the same way whatever order they arrive in.
\<close>

theorem rank_factors_correct:
  assumes "distinct (map fOrdinal factors)" "mset rows = mset factors"
  shows "mset (rankFactorsByContribution rows) = mset factors \<and>
         sorted_cmp compareContribution (rankFactorsByContribution rows) \<and>
         rankFactorsByContribution rows = rankFactorsByContribution factors"
proof -
  have inj: "x = y" if "x \<in> set factors" "y \<in> set factors" "compareContribution x y = 0" for x y
    using that assms(1) by (auto simp: compareContribution_def Let_def distinct_map inj_on_def split: if_splits)
  have "rankFactorsByContribution rows = rankFactorsByContribution factors"
    unfolding rankFactorsByContribution_def
  proof (rule contributionOrder.sorted_unique_on)
    show "x = y" if "x \<in> set (cmp_sort compareContribution rows)"
      "y \<in> set (cmp_sort compareContribution rows)" "compareContribution x y = 0" for x y
      using that inj assms(2) by (metis mset_eq_setD set_cmp_sort)
  qed (simp_all add: contributionOrder.sorted_cmp_sort assms(2))
  then show ?thesis
    by (simp add: rankFactorsByContribution_def contributionOrder.sorted_cmp_sort)
qed

definition exampleRow :: "nat \<Rightarrow> int \<Rightarrow> priorityFactorRow" where
  "exampleRow n c =
     \<lparr>fFactorId = source_severity, fOrdinal = n, fInputState = observed, fObservedValue = None,
      fNormalizedPercent = 0, fWeight = 0, fContributionCenti = c, fStatus = contributing,
      fExplanationCode = []\<rparr>"

theorem rank_factors_correct_witness:
  "rankFactorsByContribution [exampleRow 1 10, exampleRow 2 30, exampleRow 3 10] =
     [exampleRow 2 30, exampleRow 1 10, exampleRow 3 10] \<and>
   sorted_cmp compareContribution
     (rankFactorsByContribution [exampleRow 1 10, exampleRow 2 30, exampleRow 3 10])"
proof -
  have "distinct (map fOrdinal [exampleRow 1 10, exampleRow 2 30, exampleRow 3 10])"
    by (simp add: exampleRow_def)
  from rank_factors_correct [OF this refl]
  have "sorted_cmp compareContribution
     (rankFactorsByContribution [exampleRow 1 10, exampleRow 2 30, exampleRow 3 10])" by blast
  moreover have "rankFactorsByContribution [exampleRow 1 10, exampleRow 2 30, exampleRow 3 10] =
     [exampleRow 2 30, exampleRow 1 10, exampleRow 3 10]"
    by (simp add: rankFactorsByContribution_def compareContribution_def exampleRow_def)
  ultimately show ?thesis by blast
qed

end
