(* ===== verification/DomainResult.thy ===== *)
theory DomainResult
  imports JsValues
begin

text \<open>
  The application errors of \<^verbatim>\<open>packages/domain/src/result.ts\<close>, the SBOM errors of
  \<^verbatim>\<open>packages/domain/src/sbom/errors.ts\<close>, and the number tests the SBOM modules share. An
  \<^verbatim>\<open>AppError\<close> keeps its code and its message, so two errors with different messages stay different.
\<close>

datatype errorCode =
    err_validation
  | err_unauthorized
  | err_forbidden
  | err_not_found
  | err_conflict
  | err_rate_limited
  | err_unprocessable_evidence
  | err_internal

record appError =
  errCode :: errorCode
  errMessage :: jstr

definition SBOM_INVALID_TRANSITION :: appError where
  "SBOM_INVALID_TRANSITION =
     \<lparr>errCode = err_conflict, errMessage = js ''SBOM ingestion transition is not allowed.''\<rparr>"

definition SBOM_TERMINAL_STATE :: appError where
  "SBOM_TERMINAL_STATE =
     \<lparr>errCode = err_conflict, errMessage = js ''SBOM ingestion is already terminal.''\<rparr>"

definition SBOM_DUPLICATE_STATE_FORBIDDEN :: appError where
  "SBOM_DUPLICATE_STATE_FORBIDDEN =
     \<lparr>errCode = err_conflict,
      errMessage = js ''Duplicate-state ingestion rows are not used for evidence deduplication.''\<rparr>"

definition SBOM_PROCESSING_REQUIRES_STARTED_AT :: appError where
  "SBOM_PROCESSING_REQUIRES_STARTED_AT =
     \<lparr>errCode = err_validation,
      errMessage = js ''Processing requires startedAt. Lease timestamps are not the processor lock.''\<rparr>"

definition SBOM_COMPLETED_REQUIREMENTS :: appError where
  "SBOM_COMPLETED_REQUIREMENTS =
     \<lparr>errCode = err_validation,
      errMessage = js ''Completed ingestions require graph completeness and graph counts.''\<rparr>"

definition SBOM_UNSUPPORTED_STAGE :: appError where
  "SBOM_UNSUPPORTED_STAGE =
     \<lparr>errCode = err_validation,
      errMessage = js ''Session 8 does not run correlate, enrich, or score stages.''\<rparr>"

definition SBOM_INVALID_GRAPH :: appError where
  "SBOM_INVALID_GRAPH =
     \<lparr>errCode = err_validation, errMessage = js ''Normalized graph is not valid.''\<rparr>"

definition SBOM_INVALID_IDENTITY :: appError where
  "SBOM_INVALID_IDENTITY =
     \<lparr>errCode = err_validation, errMessage = js ''Component identity is not valid.''\<rparr>"

definition sbomValidationError :: "jstr \<Rightarrow> appError" where
  "sbomValidationError message = \<lparr>errCode = err_validation, errMessage = message\<rparr>"

subsection \<open>Number tests\<close>

text \<open>
  \<^verbatim>\<open>Number.isInteger\<close> and the comparisons with zero. A fractional number is \<open>m * 2 ^ e\<close>, so its sign is
  the sign of \<open>m\<close>; every comparison with NaN is false.
\<close>

fun num_is_integer :: "jsnum \<Rightarrow> bool" where
  "num_is_integer (Integral _) = True"
| "num_is_integer _ = False"

fun num_is_zero :: "jsnum \<Rightarrow> bool" where
  "num_is_zero (Integral i) = (i = 0)"
| "num_is_zero (Fractional m _) = (m = 0)"
| "num_is_zero _ = False"

fun num_positive :: "jsnum \<Rightarrow> bool" where
  "num_positive (Integral i) = (i > 0)"
| "num_positive (Fractional m _) = (m > 0)"
| "num_positive PosInfinity = True"
| "num_positive _ = False"

definition num_nonneg :: "jsnum \<Rightarrow> bool" where
  "num_nonneg x \<longleftrightarrow> num_is_zero x \<or> num_positive x"

definition isNonNegativeInt :: "jsnum \<Rightarrow> bool" where
  "isNonNegativeInt value \<longleftrightarrow> num_is_integer value \<and> num_nonneg value"

lemma isNonNegativeInt_iff: "isNonNegativeInt x \<longleftrightarrow> (\<exists>n. x = Integral (int n))"
proof (cases x)
  case (Integral i)
  then show ?thesis
    using zero_le_imp_eq_int [of i] by (auto simp: isNonNegativeInt_def num_nonneg_def)
qed (auto simp: isNonNegativeInt_def)

lemma isNonNegativeInt_Integral [simp]: "isNonNegativeInt (Integral i) \<longleftrightarrow> 0 \<le> i"
  by (auto simp: isNonNegativeInt_def num_nonneg_def)

end
