(* ===== verification/CommandMachine.thy ===== *)
theory CommandMachine
  imports Prelude
begin

text \<open>
  State machines driven by commands, the shape of both life cycles of the domain: a transition function
  takes the current snapshot, if there is one, and a command, and returns an error or the next
  snapshot. A history is the list of commands a snapshot has taken, each one allowed by a guard that
  stands for what the caller sends. The locales state what a transition function promises, and give
  invariants and bounds of histories once.
\<close>

inductive guarded_history ::
  "('s \<Rightarrow> 'c \<Rightarrow> bool) \<Rightarrow> ('s option \<Rightarrow> 'c \<Rightarrow> 'e + 's) \<Rightarrow> 'c list \<Rightarrow> 's \<Rightarrow> bool"
  for may_send and transition where
  created: "transition None c = Inr s \<Longrightarrow> guarded_history may_send transition [c] s"
| stepped: "guarded_history may_send transition cs s \<Longrightarrow> may_send s c \<Longrightarrow>
    transition (Some s) c = Inr s' \<Longrightarrow> guarded_history may_send transition (cs @ [c]) s'"

inductive_cases guarded_history_snocE: "guarded_history may_send transition (cs @ [c]) s"

lemma guarded_history_mono:
  assumes "guarded_history may_send transition cs s" "\<And>s c. may_send s c \<Longrightarrow> may_send' s c"
  shows "guarded_history may_send' transition cs s"
  using assms by (induction rule: guarded_history.induct) (auto intro: guarded_history.intros)

definition command_history :: "('s option \<Rightarrow> 'c \<Rightarrow> 'e + 's) \<Rightarrow> 'c list \<Rightarrow> 's \<Rightarrow> bool" where
  "command_history = guarded_history (\<lambda>_ _. True)"

lemma command_history_created: "transition None c = Inr s \<Longrightarrow> command_history transition [c] s"
  by (simp add: command_history_def guarded_history.created)

lemma command_history_stepped:
  "command_history transition cs s \<Longrightarrow> transition (Some s) c = Inr s' \<Longrightarrow>
   command_history transition (cs @ [c]) s'"
  by (simp add: command_history_def guarded_history.stepped)

lemma guarded_is_command_history:
  "guarded_history may_send transition cs s \<Longrightarrow> command_history transition cs s"
  unfolding command_history_def by (erule guarded_history_mono) simp

text \<open>Executing commands from a snapshot.\<close>

fun run_commands :: "('s option \<Rightarrow> 'c \<Rightarrow> 'e + 's) \<Rightarrow> 's \<Rightarrow> 'c list \<Rightarrow> 'e + 's" where
  "run_commands transition s [] = Inr s"
| "run_commands transition s (c # cs) =
     (case transition (Some s) c of Inl e \<Rightarrow> Inl e | Inr s' \<Rightarrow> run_commands transition s' cs)"

lemma run_commands_history:
  "command_history transition before s \<Longrightarrow> run_commands transition s cs = Inr s' \<Longrightarrow>
   command_history transition (before @ cs) s'"
proof (induction cs arbitrary: before s)
  case (Cons c cs)
  then obtain s1 where "transition (Some s) c = Inr s1" "run_commands transition s1 cs = Inr s'"
    by (auto split: sum.splits)
  with Cons.IH [of "before @ [c]" s1] Cons.prems(1) show ?case by (simp add: command_history_stepped)
qed simp

subsection \<open>What a transition function promises\<close>

locale command_machine =
  fixes transition :: "'s option \<Rightarrow> 'c \<Rightarrow> 'e + 's"
    and invar :: "'s \<Rightarrow> bool"
  assumes create_invar: "transition None c = Inr s \<Longrightarrow> invar s"
    and step_invar: "invar s \<Longrightarrow> transition (Some s) c = Inr s' \<Longrightarrow> invar s'"
begin

lemma history_invar: "command_history transition cs s \<Longrightarrow> invar s"
  unfolding command_history_def
  by (induction rule: guarded_history.induct) (blast intro: create_invar step_invar)+

lemma guarded_history_invar: "guarded_history may_send transition cs s \<Longrightarrow> invar s"
  by (rule history_invar [OF guarded_is_command_history])

text \<open>A stronger property of the snapshots that a guard's commands reach.\<close>

lemma guarded_history_induct:
  assumes "guarded_history may_send transition cs s"
    and "\<And>c s. transition None c = Inr s \<Longrightarrow> P s"
    and "\<And>s c s'. invar s \<Longrightarrow> P s \<Longrightarrow> may_send s c \<Longrightarrow> transition (Some s) c = Inr s' \<Longrightarrow> P s'"
  shows "P s"
  using assms(1)
proof (induction rule: guarded_history.induct)
  case (stepped cs s c s')
  from assms(3) [OF guarded_history_invar [OF stepped.hyps(1)] stepped.IH stepped.hyps(2,3)]
  show ?case .
qed (rule assms(2))

end

text \<open>A rank that every accepted command raises bounds the length of a history.\<close>

locale ranked_machine = command_machine +
  fixes rank :: "'s \<Rightarrow> nat"
  assumes create_rank: "transition None c = Inr s \<Longrightarrow> 0 < rank s"
    and step_rank: "invar s \<Longrightarrow> transition (Some s) c = Inr s' \<Longrightarrow> rank s < rank s'"
begin

lemma history_length: "command_history transition cs s \<Longrightarrow> length cs \<le> rank s"
  unfolding command_history_def
proof (induction rule: guarded_history.induct)
  case (created c s)
  then show ?case using create_rank [of c s] by simp
next
  case (stepped cs s c s')
  then show ?case using step_rank [OF guarded_history_invar [OF stepped.hyps(1)] stepped.hyps(3)] by simp
qed

end

end
