(* ===== verification/SbomIngestion.thy ===== *)
theory SbomIngestion
  imports DomainResult CommandMachine
begin

text \<open>
  The SBOM ingestion life cycle: the failure catalog of \<^verbatim>\<open>packages/domain/src/sbom/failures.ts\<close>, graph
  completeness of \<^verbatim>\<open>graph-completeness.ts\<close> and the transition function of \<^verbatim>\<open>transitions.ts\<close>, over the
  states and stages of \<^verbatim>\<open>lifecycle.ts\<close>. A \<^verbatim>\<open>Date\<close> is its time value in milliseconds. The operands of
  \<^verbatim>\<open>complete\<close> that the code tests against \<^verbatim>\<open>undefined\<close> are options.
\<close>

subsection \<open>States, stages and failures\<close>

datatype sbomIngestionState =
    accepted | queued | processing | completed | rejected | quarantined | failed | duplicate

datatype sbomIngestionStage =
    stage_validate | stage_parse | persist_graph | correlate | enrich | stage_score

datatype graphCompleteness = graph_empty | no_dependencies | graph_partial | graph_complete

definition session8IngestionStages :: "sbomIngestionStage list" where
  [catalog_defs]: "session8IngestionStages = [stage_validate, stage_parse, persist_graph]"

definition session8UnusedIngestionStages :: "sbomIngestionStage list" where
  [catalog_defs]: "session8UnusedIngestionStages = [correlate, enrich, stage_score]"

definition session8IngestionTerminalStates :: "sbomIngestionState list" where
  [catalog_defs]: "session8IngestionTerminalStates = [completed, rejected, quarantined, failed]"

datatype safeFailureCategory =
    cat_validation | cat_limit | cat_storage | cat_timeout | cat_poison | cat_internal

datatype safeFailureOutcome =
    outcome_rejected | outcome_quarantined | retryable_infrastructure | terminal_internal

datatype safeFailureCode =
    payload_too_large | content_type | utf8 | json_syntax | json_depth | json_nodes
  | json_string_length | not_cyclonedx | unsupported_spec_version | schema_invalid
  | component_limit | edge_limit | identifier_length | tool_limit | reference_limit
  | property_limit | duplicate_bom_ref | unresolved_dependency_ref | invalid_purl
  | component_version_conflict | component_hash_conflict | unsupported_normalization_version
  | prototype_pollution | hash_mismatch | object_missing | storage_timeout | parser_timeout
  | parser_crash | normalized_output_too_large | processing_failed | queue_unavailable

record safeFailureClassification =
  scCategory :: safeFailureCategory
  scOutcome :: safeFailureOutcome

fun safeFailureCatalog :: "safeFailureCode \<Rightarrow> safeFailureClassification" where
  "safeFailureCatalog payload_too_large = \<lparr>scCategory = cat_limit, scOutcome = outcome_rejected\<rparr>"
| "safeFailureCatalog content_type = \<lparr>scCategory = cat_validation, scOutcome = outcome_rejected\<rparr>"
| "safeFailureCatalog utf8 = \<lparr>scCategory = cat_validation, scOutcome = outcome_rejected\<rparr>"
| "safeFailureCatalog json_syntax = \<lparr>scCategory = cat_validation, scOutcome = outcome_rejected\<rparr>"
| "safeFailureCatalog json_depth = \<lparr>scCategory = cat_limit, scOutcome = outcome_rejected\<rparr>"
| "safeFailureCatalog json_nodes = \<lparr>scCategory = cat_limit, scOutcome = outcome_rejected\<rparr>"
| "safeFailureCatalog json_string_length = \<lparr>scCategory = cat_limit, scOutcome = outcome_rejected\<rparr>"
| "safeFailureCatalog not_cyclonedx = \<lparr>scCategory = cat_validation, scOutcome = outcome_rejected\<rparr>"
| "safeFailureCatalog unsupported_spec_version =
     \<lparr>scCategory = cat_validation, scOutcome = outcome_rejected\<rparr>"
| "safeFailureCatalog schema_invalid = \<lparr>scCategory = cat_validation, scOutcome = outcome_rejected\<rparr>"
| "safeFailureCatalog component_limit = \<lparr>scCategory = cat_limit, scOutcome = outcome_rejected\<rparr>"
| "safeFailureCatalog edge_limit = \<lparr>scCategory = cat_limit, scOutcome = outcome_rejected\<rparr>"
| "safeFailureCatalog identifier_length = \<lparr>scCategory = cat_limit, scOutcome = outcome_rejected\<rparr>"
| "safeFailureCatalog tool_limit = \<lparr>scCategory = cat_limit, scOutcome = outcome_rejected\<rparr>"
| "safeFailureCatalog reference_limit = \<lparr>scCategory = cat_limit, scOutcome = outcome_rejected\<rparr>"
| "safeFailureCatalog property_limit = \<lparr>scCategory = cat_limit, scOutcome = outcome_rejected\<rparr>"
| "safeFailureCatalog duplicate_bom_ref =
     \<lparr>scCategory = cat_validation, scOutcome = outcome_rejected\<rparr>"
| "safeFailureCatalog unresolved_dependency_ref =
     \<lparr>scCategory = cat_validation, scOutcome = outcome_rejected\<rparr>"
| "safeFailureCatalog invalid_purl = \<lparr>scCategory = cat_validation, scOutcome = outcome_rejected\<rparr>"
| "safeFailureCatalog component_version_conflict =
     \<lparr>scCategory = cat_validation, scOutcome = outcome_rejected\<rparr>"
| "safeFailureCatalog component_hash_conflict =
     \<lparr>scCategory = cat_validation, scOutcome = outcome_rejected\<rparr>"
| "safeFailureCatalog unsupported_normalization_version =
     \<lparr>scCategory = cat_validation, scOutcome = outcome_rejected\<rparr>"
| "safeFailureCatalog prototype_pollution =
     \<lparr>scCategory = cat_poison, scOutcome = outcome_quarantined\<rparr>"
| "safeFailureCatalog hash_mismatch = \<lparr>scCategory = cat_storage, scOutcome = outcome_quarantined\<rparr>"
| "safeFailureCatalog object_missing =
     \<lparr>scCategory = cat_storage, scOutcome = retryable_infrastructure\<rparr>"
| "safeFailureCatalog storage_timeout =
     \<lparr>scCategory = cat_storage, scOutcome = retryable_infrastructure\<rparr>"
| "safeFailureCatalog parser_timeout = \<lparr>scCategory = cat_timeout, scOutcome = outcome_quarantined\<rparr>"
| "safeFailureCatalog parser_crash = \<lparr>scCategory = cat_poison, scOutcome = outcome_quarantined\<rparr>"
| "safeFailureCatalog normalized_output_too_large =
     \<lparr>scCategory = cat_limit, scOutcome = outcome_rejected\<rparr>"
| "safeFailureCatalog processing_failed =
     \<lparr>scCategory = cat_internal, scOutcome = terminal_internal\<rparr>"
| "safeFailureCatalog queue_unavailable =
     \<lparr>scCategory = cat_timeout, scOutcome = retryable_infrastructure\<rparr>"

definition classifySafeFailure :: "safeFailureCode \<Rightarrow> safeFailureClassification" where
  "classifySafeFailure code = safeFailureCatalog code"

definition isParserThreadFailureCode :: "safeFailureCode \<Rightarrow> bool" where
  "isParserThreadFailureCode code =
     (let result = scOutcome (safeFailureCatalog code)
      in result = outcome_rejected \<or> result = outcome_quarantined)"

definition parserThreadDisposition :: "safeFailureCode \<Rightarrow> safeFailureOutcome option" where
  "parserThreadDisposition code =
     (let result = scOutcome (safeFailureCatalog code)
      in if result = outcome_rejected \<or> result = outcome_quarantined then Some result else None)"

subsection \<open>Graph completeness\<close>

record graphCompletenessInputs =
  gcComponentCount :: jsnum
  gcDependencyEdgeCount :: jsnum
  gcSkippedListedEdgeCount :: jsnum

definition deriveGraphCompleteness :: "graphCompletenessInputs \<Rightarrow> appError + graphCompleteness" where
  "deriveGraphCompleteness input =
     (if \<not> isNonNegativeInt (gcComponentCount input)
       \<or> \<not> isNonNegativeInt (gcDependencyEdgeCount input)
       \<or> \<not> isNonNegativeInt (gcSkippedListedEdgeCount input)
      then Inl (sbomValidationError (js ''Graph completeness counts must be non-negative integers.''))
      else if num_is_zero (gcComponentCount input) then
        (if \<not> num_is_zero (gcDependencyEdgeCount input)
          \<or> \<not> num_is_zero (gcSkippedListedEdgeCount input)
         then Inl (sbomValidationError (js ''An empty graph cannot include dependency edges.''))
         else Inr graph_empty)
      else if num_is_zero (gcDependencyEdgeCount input) then Inr no_dependencies
      else if num_positive (gcSkippedListedEdgeCount input) then Inr graph_partial
      else Inr graph_complete)"

fun graphCompletenessMatchesCounts :: "graphCompleteness \<Rightarrow> jsnum \<Rightarrow> jsnum \<Rightarrow> bool" where
  "graphCompletenessMatchesCounts graph_empty componentCount dependencyEdgeCount =
     (num_is_zero componentCount \<and> num_is_zero dependencyEdgeCount)"
| "graphCompletenessMatchesCounts no_dependencies componentCount dependencyEdgeCount =
     (num_positive componentCount \<and> num_is_zero dependencyEdgeCount)"
| "graphCompletenessMatchesCounts graph_partial componentCount dependencyEdgeCount =
     (num_positive componentCount \<and> num_positive dependencyEdgeCount)"
| "graphCompletenessMatchesCounts graph_complete componentCount dependencyEdgeCount =
     (num_positive componentCount \<and> num_positive dependencyEdgeCount)"

subsection \<open>Snapshots, commands and the transition function\<close>

record session8IngestionSnapshot =
  iState :: sbomIngestionState
  iStage :: "sbomIngestionStage option"
  iStartedAt :: "int option"
  iCompletedAt :: "int option"
  iGraphCompleteness :: "graphCompleteness option"
  iComponentCount :: "jsnum option"
  iDependencyEdgeCount :: "jsnum option"
  iWarningCount :: "jsnum option"
  iFailureCategory :: "safeFailureCategory option"
  iFailureCode :: "safeFailureCode option"

datatype session8IngestionCommand =
    CreateAccepted
  | Queue
  | StartProcessing int sbomIngestionStage
  | ReleaseForRetry safeFailureCode
  | Complete int "graphCompleteness option" "jsnum option" "jsnum option" "jsnum option"
  | Reject int safeFailureCode
  | Quarantine int safeFailureCode
  | Fail int safeFailureCode

definition isSession8IngestionStage :: "sbomIngestionStage \<Rightarrow> bool" where
  "isSession8IngestionStage stage \<longleftrightarrow> stage \<in> set session8IngestionStages"

definition isSession8UnusedIngestionStage :: "sbomIngestionStage \<Rightarrow> bool" where
  "isSession8UnusedIngestionStage stage \<longleftrightarrow> stage \<in> set session8UnusedIngestionStages"

definition isSession8TerminalState :: "sbomIngestionState \<Rightarrow> bool" where
  "isSession8TerminalState state \<longleftrightarrow> state \<in> set session8IngestionTerminalStates"

definition rejectUnsupportedStage :: "sbomIngestionStage option \<Rightarrow> appError + unit" where
  "rejectUnsupportedStage stage =
     (case stage of
        Some s \<Rightarrow> if isSession8UnusedIngestionStage s then Inl SBOM_UNSUPPORTED_STAGE else Inr ()
      | None \<Rightarrow> Inr ())"

fun requireCurrent :: "session8IngestionSnapshot option \<Rightarrow> appError + session8IngestionSnapshot" where
  "requireCurrent None = Inl SBOM_INVALID_TRANSITION"
| "requireCurrent (Some current) =
     (if iState current = duplicate then Inl SBOM_DUPLICATE_STATE_FORBIDDEN
      else if isSession8TerminalState (iState current) then Inl SBOM_TERMINAL_STATE
      else case rejectUnsupportedStage (iStage current) of
        Inl e \<Rightarrow> Inl e
      | Inr _ \<Rightarrow> Inr current)"

definition requireProcessing ::
  "session8IngestionSnapshot \<Rightarrow> appError + session8IngestionSnapshot" where
  "requireProcessing current =
     (if iState current \<noteq> processing then Inl SBOM_INVALID_TRANSITION
      else if iStartedAt current = None then Inl SBOM_PROCESSING_REQUIRES_STARTED_AT
      else Inr current)"

definition countsAreValid :: "graphCompleteness \<Rightarrow> jsnum \<Rightarrow> jsnum \<Rightarrow> jsnum \<Rightarrow> bool" where
  "countsAreValid completeness componentCount dependencyEdgeCount warningCount \<longleftrightarrow>
     num_is_integer componentCount \<and> num_nonneg componentCount \<and>
     num_is_integer dependencyEdgeCount \<and> num_nonneg dependencyEdgeCount \<and>
     num_is_integer warningCount \<and> num_nonneg warningCount \<and>
     graphCompletenessMatchesCounts completeness componentCount dependencyEdgeCount"

definition acceptedSnapshot :: session8IngestionSnapshot where
  "acceptedSnapshot =
     \<lparr>iState = accepted, iStage = None, iStartedAt = None, iCompletedAt = None,
      iGraphCompleteness = None, iComponentCount = None, iDependencyEdgeCount = None,
      iWarningCount = None, iFailureCategory = None, iFailureCode = None\<rparr>"

definition processingSnapshot ::
  "session8IngestionSnapshot option \<Rightarrow> appError + session8IngestionSnapshot" where
  "processingSnapshot current =
     (case requireCurrent current of
        Inl e \<Rightarrow> Inl e
      | Inr existing \<Rightarrow> requireProcessing existing)"

text \<open>The shared branch of \<^verbatim>\<open>reject\<close>, \<^verbatim>\<open>quarantine\<close> and \<^verbatim>\<open>fail\<close>.\<close>

definition finishWithFailure ::
  "session8IngestionSnapshot option \<Rightarrow> int \<Rightarrow> safeFailureCode \<Rightarrow> safeFailureOutcome \<Rightarrow>
   sbomIngestionState \<Rightarrow> appError + session8IngestionSnapshot" where
  "finishWithFailure current completedAt failureCode expectedOutcome state =
     (case processingSnapshot current of
        Inl e \<Rightarrow> Inl e
      | Inr snapshot \<Rightarrow>
          (let classification = classifySafeFailure failureCode
           in if scOutcome classification \<noteq> expectedOutcome
              then Inl (sbomValidationError
                (js ''Failure code does not match the requested terminal outcome.''))
              else Inr (snapshot\<lparr>iState := state, iCompletedAt := Some completedAt,
                iFailureCategory := Some (scCategory classification),
                iFailureCode := Some failureCode\<rparr>)))"

fun applySession8IngestionTransition ::
  "session8IngestionSnapshot option \<Rightarrow> session8IngestionCommand \<Rightarrow>
   appError + session8IngestionSnapshot" where
  "applySession8IngestionTransition current CreateAccepted =
     (if current \<noteq> None then Inl SBOM_INVALID_TRANSITION else Inr acceptedSnapshot)"
| "applySession8IngestionTransition current Queue =
     (case requireCurrent current of
        Inl e \<Rightarrow> Inl e
      | Inr existing \<Rightarrow>
          if iState existing \<noteq> accepted then Inl SBOM_INVALID_TRANSITION
          else Inr (existing\<lparr>iState := queued\<rparr>))"
| "applySession8IngestionTransition current (StartProcessing startedAt stage) =
     (case requireCurrent current of
        Inl e \<Rightarrow> Inl e
      | Inr existing \<Rightarrow>
          if iState existing \<noteq> accepted \<and> iState existing \<noteq> queued
          then Inl SBOM_INVALID_TRANSITION
          else if \<not> isSession8IngestionStage stage then Inl SBOM_UNSUPPORTED_STAGE
          else Inr (existing\<lparr>iState := processing, iStage := Some stage,
            iStartedAt := Some startedAt, iCompletedAt := None\<rparr>))"
| "applySession8IngestionTransition current (ReleaseForRetry failureCode) =
     (case processingSnapshot current of
        Inl e \<Rightarrow> Inl e
      | Inr snapshot \<Rightarrow>
          if scOutcome (classifySafeFailure failureCode) \<noteq> retryable_infrastructure
          then Inl (sbomValidationError
            (js ''Retryable release requires a retryable infrastructure failure code.''))
          else Inr (snapshot\<lparr>iState := queued, iStartedAt := None,
            iFailureCategory := None, iFailureCode := None\<rparr>))"
| "applySession8IngestionTransition current (Complete completedAt completeness comps edges warns) =
     (case processingSnapshot current of
        Inl e \<Rightarrow> Inl e
      | Inr snapshot \<Rightarrow>
          (case (completeness, comps, edges, warns) of
             (Some g, Some c, Some d, Some w) \<Rightarrow>
               if \<not> countsAreValid g c d w then Inl SBOM_COMPLETED_REQUIREMENTS
               else Inr (snapshot\<lparr>iState := completed, iStage := Some persist_graph,
                 iCompletedAt := Some completedAt, iGraphCompleteness := Some g,
                 iComponentCount := Some c, iDependencyEdgeCount := Some d,
                 iWarningCount := Some w, iFailureCategory := None, iFailureCode := None\<rparr>)
           | _ \<Rightarrow> Inl SBOM_COMPLETED_REQUIREMENTS))"
| "applySession8IngestionTransition current (Reject completedAt failureCode) =
     finishWithFailure current completedAt failureCode outcome_rejected rejected"
| "applySession8IngestionTransition current (Quarantine completedAt failureCode) =
     finishWithFailure current completedAt failureCode outcome_quarantined quarantined"
| "applySession8IngestionTransition current (Fail completedAt failureCode) =
     finishWithFailure current completedAt failureCode terminal_internal failed"

subsection \<open>Reachable snapshots and their invariant\<close>

definition ingestion_reachable :: "session8IngestionSnapshot \<Rightarrow> bool" where
  "ingestion_reachable s \<longleftrightarrow> (\<exists>cmds. command_history applySession8IngestionTransition cmds s)"

definition no_result :: "session8IngestionSnapshot \<Rightarrow> bool" where
  "no_result s \<longleftrightarrow> iCompletedAt s = None \<and> iGraphCompleteness s = None \<and> iComponentCount s = None \<and>
     iDependencyEdgeCount s = None \<and> iWarningCount s = None \<and> iFailureCategory s = None \<and>
     iFailureCode s = None"

definition failure_of :: "safeFailureOutcome \<Rightarrow> session8IngestionSnapshot \<Rightarrow> bool" where
  "failure_of result s \<longleftrightarrow> iStartedAt s \<noteq> None \<and> iCompletedAt s \<noteq> None \<and> iGraphCompleteness s = None \<and>
     (case iFailureCode s of
        None \<Rightarrow> False
      | Some code \<Rightarrow> scOutcome (safeFailureCatalog code) = result \<and>
          iFailureCategory s = Some (scCategory (safeFailureCatalog code)))"

definition success_result :: "session8IngestionSnapshot \<Rightarrow> bool" where
  "success_result s \<longleftrightarrow> iStage s = Some persist_graph \<and> iStartedAt s \<noteq> None \<and> iCompletedAt s \<noteq> None \<and>
     iFailureCode s = None \<and> iFailureCategory s = None \<and>
     (\<exists>g c d w. iGraphCompleteness s = Some g \<and> iComponentCount s = Some (Integral (int c)) \<and>
        iDependencyEdgeCount s = Some (Integral (int d)) \<and>
        iWarningCount s = Some (Integral (int w)) \<and>
        graphCompletenessMatchesCounts g (Integral (int c)) (Integral (int d)))"

definition ingestion_inv :: "session8IngestionSnapshot \<Rightarrow> bool" where
  "ingestion_inv s \<longleftrightarrow>
     (case iStage s of None \<Rightarrow> True | Some stage \<Rightarrow> isSession8IngestionStage stage) \<and>
     (case iState s of
        accepted \<Rightarrow> s = acceptedSnapshot
      | queued \<Rightarrow> iStartedAt s = None \<and> no_result s
      | processing \<Rightarrow> iStartedAt s \<noteq> None \<and> iStage s \<noteq> None \<and> no_result s
      | completed \<Rightarrow> success_result s
      | rejected \<Rightarrow> failure_of outcome_rejected s
      | quarantined \<Rightarrow> failure_of outcome_quarantined s
      | failed \<Rightarrow> failure_of terminal_internal s
      | duplicate \<Rightarrow> False)"

declare requireCurrent.simps(2) [simp del]

lemmas transition_defs = requireCurrent.simps requireProcessing_def processingSnapshot_def finishWithFailure_def
  rejectUnsupportedStage_def isSession8UnusedIngestionStage_def isSession8IngestionStage_def
  isSession8TerminalState_def classifySafeFailure_def session8UnusedIngestionStages_def
  session8IngestionStages_def session8IngestionTerminalStates_def Let_def

lemmas invariant_defs = ingestion_inv_def no_result_def failure_of_def success_result_def
  acceptedSnapshot_def

text \<open>What the two guards let through on a snapshot that keeps the invariant.\<close>

lemma requireCurrent_inv:
  assumes "ingestion_inv s"
  shows "requireCurrent (Some s) =
    (if isSession8TerminalState (iState s) then Inl SBOM_TERMINAL_STATE else Inr s)"
  using assms by (cases "iState s") (auto simp: ingestion_inv_def transition_defs split: option.splits)

lemma processingSnapshot_inv:
  assumes "ingestion_inv s"
  shows "processingSnapshot (Some s) =
    (if isSession8TerminalState (iState s) then Inl SBOM_TERMINAL_STATE
     else if iState s = processing then Inr s else Inl SBOM_INVALID_TRANSITION)"
  using assms
  by (auto simp: processingSnapshot_def requireCurrent_inv requireProcessing_def ingestion_inv_def)

lemma countsAreValid_iff:
  "countsAreValid g c d w \<longleftrightarrow>
     isNonNegativeInt c \<and> isNonNegativeInt d \<and> isNonNegativeInt w \<and> graphCompletenessMatchesCounts g c d"
  by (auto simp: countsAreValid_def isNonNegativeInt_def)

lemma finishWithFailure_inv:
  assumes "ingestion_inv s" "finishWithFailure (Some s) t code result st = Inr s'"
  shows "failure_of result s' \<and> iState s' = st \<and> iStage s' = iStage s \<and>
    (\<exists>stage. iStage s = Some stage \<and> isSession8IngestionStage stage)"
  using assms
  by (auto simp: finishWithFailure_def processingSnapshot_inv Let_def classifySafeFailure_def
      ingestion_inv_def failure_of_def no_result_def split: if_splits option.splits)

lemma finish_keeps_inv:
  assumes "ingestion_inv s" "finishWithFailure (Some s) t code result st = Inr s'"
    and "(result, st) \<in> {(outcome_rejected, rejected), (outcome_quarantined, quarantined),
      (terminal_internal, failed)}"
  shows "ingestion_inv s'"
proof -
  obtain stage where "iStage s' = Some stage" "isSession8IngestionStage stage" "failure_of result s'"
    "iState s' = st"
    using finishWithFailure_inv [OF assms(1,2)] by auto
  with assms(3) show ?thesis unfolding ingestion_inv_def by auto
qed

lemma completion_inv:
  assumes "ingestion_inv s" "iState s = processing" "countsAreValid g c d w"
  shows "ingestion_inv (s\<lparr>iState := completed, iStage := Some persist_graph,
    iCompletedAt := Some t, iGraphCompleteness := Some g, iComponentCount := Some c,
    iDependencyEdgeCount := Some d, iWarningCount := Some w, iFailureCategory := None,
    iFailureCode := None\<rparr>)"
proof -
  obtain c' d' w' where "c = Integral (int c')" "d = Integral (int d')" "w = Integral (int w')"
    and "graphCompletenessMatchesCounts g c d"
    using assms(3) by (auto simp: countsAreValid_iff isNonNegativeInt_iff)
  with assms(1,2) show ?thesis
    by (simp add: ingestion_inv_def success_result_def isSession8IngestionStage_def
        session8IngestionStages_def)
qed

lemma transition_keeps_inv:
  assumes "ingestion_inv s" "applySession8IngestionTransition (Some s) cmd = Inr s'"
  shows "ingestion_inv s'"
proof (cases cmd)
  case CreateAccepted
  with assms show ?thesis by simp
next
  case Queue
  with assms show ?thesis
    by (auto simp: requireCurrent_inv invariant_defs split: if_splits)
next
  case (StartProcessing t stage)
  with assms show ?thesis
    by (auto simp: requireCurrent_inv invariant_defs split: if_splits)
next
  case (ReleaseForRetry code)
  with assms show ?thesis
    by (auto simp: processingSnapshot_inv ingestion_inv_def no_result_def split: if_splits)
next
  case (Complete t g c d w)
  with assms show ?thesis
    by (auto simp: processingSnapshot_inv intro: completion_inv split: if_splits option.splits)
next
  case (Reject t code)
  with assms(2) show ?thesis
    using finish_keeps_inv [OF assms(1), of t code outcome_rejected rejected s'] by simp
next
  case (Quarantine t code)
  with assms(2) show ?thesis
    using finish_keeps_inv [OF assms(1), of t code outcome_quarantined quarantined s'] by simp
next
  case (Fail t code)
  with assms(2) show ?thesis
    using finish_keeps_inv [OF assms(1), of t code terminal_internal failed s'] by simp
qed

lemma creation_only:
  "applySession8IngestionTransition None cmd = Inr s \<longleftrightarrow> cmd = CreateAccepted \<and> s = acceptedSnapshot"
  by (cases cmd) (auto simp: processingSnapshot_def finishWithFailure_def)

lemma ingestion_inv_accepted: "ingestion_inv acceptedSnapshot"
  by (simp add: ingestion_inv_def acceptedSnapshot_def)

text \<open>The transition function as a command machine.\<close>

interpretation ingestion: command_machine applySession8IngestionTransition ingestion_inv
  by unfold_locales (auto simp: creation_only ingestion_inv_accepted intro: transition_keeps_inv)

lemma ingestion_keeps_inv: "ingestion_reachable s \<Longrightarrow> ingestion_inv s"
  by (auto simp: ingestion_reachable_def intro: ingestion.history_invar)

lemma reachable_accepted: "ingestion_reachable acceptedSnapshot"
  unfolding ingestion_reachable_def
  by (rule exI, rule command_history_created [of _ CreateAccepted]) simp

lemma run_commands_reachable:
  "ingestion_reachable s \<Longrightarrow> run_commands applySession8IngestionTransition s cmds = Inr s' \<Longrightarrow>
   ingestion_reachable s'"
  by (auto simp: ingestion_reachable_def intro: run_commands_history)

lemma derive_matches:
  assumes "deriveGraphCompleteness i = Inr g"
  shows "isNonNegativeInt (gcComponentCount i) \<and> isNonNegativeInt (gcDependencyEdgeCount i) \<and>
    graphCompletenessMatchesCounts g (gcComponentCount i) (gcDependencyEdgeCount i)"
  using assms
  by (auto simp: deriveGraphCompleteness_def isNonNegativeInt_def num_nonneg_def split: if_splits)

subsection \<open>Correctness of the life cycle\<close>

text \<open>
  C20. Every ingestion snapshot that the transition function can produce keeps the life-cycle invariant:
  only session-8 stages occur and the duplicate state never does; an accepted row carries nothing yet; a
  queued row has no start time and no result; a processing row has a start time, a stage and no result; a
  completed row stands at the last stage with integer counts that agree with its graph completeness and
  no failure; a rejected, quarantined or failed row carries a failure code whose catalog outcome is
  exactly that state, with the catalog's category.
\<close>

theorem ingestion_invariant:
  assumes "ingestion_reachable s"
  shows "ingestion_inv s"
  using assms by (rule ingestion_keeps_inv)

definition exampleRun :: "session8IngestionCommand list" where
  "exampleRun = [Queue, StartProcessing 100 stage_validate, ReleaseForRetry storage_timeout,
     StartProcessing 200 stage_parse,
     Complete 300 (Some no_dependencies) (Some (Integral 2)) (Some (Integral 0)) (Some (Integral 0))]"

definition exampleCompleted :: session8IngestionSnapshot where
  "exampleCompleted =
     \<lparr>iState = completed, iStage = Some persist_graph, iStartedAt = Some 200, iCompletedAt = Some 300,
      iGraphCompleteness = Some no_dependencies, iComponentCount = Some (Integral 2),
      iDependencyEdgeCount = Some (Integral 0), iWarningCount = Some (Integral 0),
      iFailureCategory = None, iFailureCode = None\<rparr>"

lemma exampleRun_completes: "run_commands applySession8IngestionTransition acceptedSnapshot exampleRun = Inr exampleCompleted"
  by (simp add: exampleRun_def exampleCompleted_def acceptedSnapshot_def transition_defs
      countsAreValid_def num_nonneg_def)

lemma exampleCompleted_reachable: "ingestion_reachable exampleCompleted"
  using run_commands_reachable [OF reachable_accepted exampleRun_completes] .

theorem ingestion_invariant_witness:
  "ingestion_reachable exampleCompleted \<and> ingestion_inv exampleCompleted"
  using ingestion_invariant [OF exampleCompleted_reachable] exampleCompleted_reachable by simp

text \<open>
  The life cycle on states alone, and what a command must carry on its own account.
\<close>

fun lifecycle_target :: "sbomIngestionState option \<Rightarrow> session8IngestionCommand \<Rightarrow> sbomIngestionState option" where
  "lifecycle_target None CreateAccepted = Some accepted"
| "lifecycle_target (Some accepted) Queue = Some queued"
| "lifecycle_target (Some accepted) (StartProcessing _ _) = Some processing"
| "lifecycle_target (Some queued) (StartProcessing _ _) = Some processing"
| "lifecycle_target (Some processing) (ReleaseForRetry _) = Some queued"
| "lifecycle_target (Some processing) (Complete _ _ _ _ _) = Some completed"
| "lifecycle_target (Some processing) (Reject _ _) = Some rejected"
| "lifecycle_target (Some processing) (Quarantine _ _) = Some quarantined"
| "lifecycle_target (Some processing) (Fail _ _) = Some failed"
| "lifecycle_target _ _ = None"

fun command_ok :: "session8IngestionCommand \<Rightarrow> bool" where
  "command_ok (StartProcessing _ stage) = isSession8IngestionStage stage"
| "command_ok (ReleaseForRetry code) =
     (scOutcome (safeFailureCatalog code) = retryable_infrastructure)"
| "command_ok (Complete _ (Some g) (Some c) (Some d) (Some w)) = countsAreValid g c d w"
| "command_ok (Complete _ _ _ _ _) = False"
| "command_ok (Reject _ code) = (scOutcome (safeFailureCatalog code) = outcome_rejected)"
| "command_ok (Quarantine _ code) = (scOutcome (safeFailureCatalog code) = outcome_quarantined)"
| "command_ok (Fail _ code) = (scOutcome (safeFailureCatalog code) = terminal_internal)"
| "command_ok _ = True"

definition current_ok :: "session8IngestionSnapshot option \<Rightarrow> bool" where
  "current_ok current = (case current of None \<Rightarrow> True | Some s \<Rightarrow> ingestion_inv s)"

definition result_state :: "appError + session8IngestionSnapshot \<Rightarrow> sbomIngestionState option" where
  "result_state r = (case r of Inl _ \<Rightarrow> None | Inr s \<Rightarrow> Some (iState s))"

lemma result_state_simps [simp]:
  "result_state (Inl e) = None" "result_state (Inr s) = Some (iState s)"
  by (simp_all add: result_state_def)

lemma transition_spec_step:
  assumes "ingestion_inv s"
  shows "result_state (applySession8IngestionTransition (Some s) cmd) =
    (if command_ok cmd then lifecycle_target (Some (iState s)) cmd else None)"
proof -
  have "iState s \<noteq> duplicate" using assms by (auto simp: ingestion_inv_def)
  with assms show ?thesis
    by (cases cmd; cases "iState s")
      (auto simp: requireCurrent_inv processingSnapshot_inv finishWithFailure_def Let_def
        classifySafeFailure_def isSession8TerminalState_def session8IngestionTerminalStates_def
        split: option.splits)
qed

text \<open>
  C26. The transition function implements the life cycle on states: on no row, or on any row that keeps
  the invariant, a command succeeds exactly when the command's own data is right and the life cycle has
  that arrow, and the row then stands in the arrow's target. In particular the four terminal states have
  no way out, and the four terminal commands start from processing only.
\<close>

theorem transition_refines_lifecycle:
  assumes "current_ok current"
  shows "result_state (applySession8IngestionTransition current cmd) =
    (if command_ok cmd then lifecycle_target (map_option iState current) cmd else None)"
proof (cases current)
  case None
  then show ?thesis
    by (cases cmd) (auto simp: processingSnapshot_def finishWithFailure_def acceptedSnapshot_def)
next
  case (Some s)
  with assms show ?thesis by (simp add: current_ok_def transition_spec_step)
qed

theorem transition_refines_lifecycle_witness:
  "current_ok (Some exampleCompleted) \<and>
   result_state (applySession8IngestionTransition (Some exampleCompleted) (Fail 7 processing_failed)) = None \<and>
   result_state (applySession8IngestionTransition None CreateAccepted) = Some accepted"
  using transition_refines_lifecycle [of "Some exampleCompleted" "Fail 7 processing_failed"]
    transition_refines_lifecycle [of None CreateAccepted] ingestion_keeps_inv [OF exampleCompleted_reachable]
  by (simp add: current_ok_def exampleCompleted_def)

lemma completion_from_processing:
  assumes "ingestion_inv s" "iState s = processing" "countsAreValid g c d w"
  shows "\<exists>s'. applySession8IngestionTransition (Some s) (Complete t (Some g) (Some c) (Some d) (Some w)) =
    Inr s' \<and> iState s' = completed \<and> iGraphCompleteness s' = Some g"
  using assms
  by (simp add: processingSnapshot_inv isSession8TerminalState_def session8IngestionTerminalStates_def)

lemma start_from_waiting:
  assumes "ingestion_inv s" "iState s = accepted \<or> iState s = queued"
  shows "\<exists>s'. applySession8IngestionTransition (Some s) (StartProcessing t stage_validate) = Inr s' \<and>
    iState s' = processing"
  using assms
  by (auto simp: requireCurrent_inv isSession8TerminalState_def session8IngestionTerminalStates_def
      isSession8IngestionStage_def session8IngestionStages_def)

text \<open>
  C28. No ingestion is ever stuck: from every reachable row that is not terminal, whatever graph the
  parser delivered, at most two further commands complete the ingestion with the completeness derived
  from that graph's counts. Retries keep this true, because a released row is reachable again.
\<close>

theorem ingestion_can_complete:
  assumes "ingestion_reachable s" "\<not> isSession8TerminalState (iState s)"
    and "deriveGraphCompleteness counts = Inr g" "isNonNegativeInt warnings"
  shows "\<exists>cmds s'. length cmds \<le> 2 \<and> run_commands applySession8IngestionTransition s cmds = Inr s' \<and> iState s' = completed \<and>
    iGraphCompleteness s' = Some g"
proof -
  let ?done = "Complete 0 (Some g) (Some (gcComponentCount counts))
    (Some (gcDependencyEdgeCount counts)) (Some warnings)"
  have inv: "ingestion_inv s" using assms(1) by (rule ingestion_keeps_inv)
  have valid: "countsAreValid g (gcComponentCount counts) (gcDependencyEdgeCount counts) warnings"
    using derive_matches [OF assms(3)] assms(4) by (simp add: countsAreValid_iff)
  show ?thesis
  proof (cases "iState s = processing")
    case True
    from completion_from_processing [OF inv this valid, of 0] obtain s' where
      "applySession8IngestionTransition (Some s) ?done = Inr s'" "iState s' = completed"
      "iGraphCompleteness s' = Some g" by blast
    then show ?thesis by (intro exI [of _ "[?done]"] exI [of _ s']) simp
  next
    case False
    then have "iState s = accepted \<or> iState s = queued"
      using assms(2) inv by (cases "iState s")
        (auto simp: isSession8TerminalState_def session8IngestionTerminalStates_def ingestion_inv_def)
    from start_from_waiting [OF inv this, of 0] obtain s1 where
      s1: "applySession8IngestionTransition (Some s) (StartProcessing 0 stage_validate) = Inr s1"
      "iState s1 = processing" by blast
    have "ingestion_inv s1" using transition_keeps_inv [OF inv s1(1)] .
    from completion_from_processing [OF this s1(2) valid, of 0] obtain s' where
      "applySession8IngestionTransition (Some s1) ?done = Inr s'" "iState s' = completed"
      "iGraphCompleteness s' = Some g" by blast
    with s1 show ?thesis
      by (intro exI [of _ "[StartProcessing 0 stage_validate, ?done]"] exI [of _ s']) simp
  qed
qed

theorem ingestion_can_complete_witness:
  "ingestion_reachable acceptedSnapshot \<and>
   (\<exists>cmds s'. length cmds \<le> 2 \<and> run_commands applySession8IngestionTransition acceptedSnapshot cmds = Inr s' \<and> iState s' = completed \<and>
     iGraphCompleteness s' = Some graph_partial)"
  using ingestion_can_complete [of acceptedSnapshot
      "\<lparr>gcComponentCount = Integral 3, gcDependencyEdgeCount = Integral 2,
        gcSkippedListedEdgeCount = Integral 1\<rparr>" graph_partial "Integral 1"] reachable_accepted
  by (simp add: deriveGraphCompleteness_def acceptedSnapshot_def isSession8TerminalState_def
      session8IngestionTerminalStates_def)

lemma transition_error_kinds:
  assumes "ingestion_inv s" "applySession8IngestionTransition (Some s) cmd = Inl e"
    and "\<not> isSession8TerminalState (iState s)"
  shows "(if lifecycle_target (Some (iState s)) cmd = None then e = SBOM_INVALID_TRANSITION
     else \<not> command_ok cmd \<and> errCode e = err_validation \<and> e \<noteq> SBOM_PROCESSING_REQUIRES_STARTED_AT)"
proof -
  have "iState s \<in> {accepted, queued, processing}"
    using assms by (cases "iState s")
      (auto simp: isSession8TerminalState_def session8IngestionTerminalStates_def ingestion_inv_def)
  with assms show ?thesis
    by (cases cmd)
      (auto simp: requireCurrent_inv processingSnapshot_inv finishWithFailure_def Let_def
        classifySafeFailure_def sbomValidationError_def SBOM_COMPLETED_REQUIREMENTS_def
        SBOM_UNSUPPORTED_STAGE_def SBOM_PROCESSING_REQUIRES_STARTED_AT_def
        split: option.splits if_splits)
qed

lemma transition_terminal_error:
  assumes "ingestion_inv s" "isSession8TerminalState (iState s)"
  shows "applySession8IngestionTransition (Some s) cmd =
    Inl (if cmd = CreateAccepted then SBOM_INVALID_TRANSITION else SBOM_TERMINAL_STATE)"
  using assms by (cases cmd) (auto simp: requireCurrent_inv processingSnapshot_inv finishWithFailure_def)

text \<open>
  The errors of a transition on a reachable row say why it was refused: on a terminal row every
  command but creation gets the terminal-state conflict; on any other row a command the life cycle has no
  arrow for gets the invalid-transition conflict, and a command whose own data is wrong gets a validation
  error. The error for a processing row without a start time never occurs.
\<close>

theorem transition_errors:
  assumes "ingestion_reachable s" "applySession8IngestionTransition (Some s) cmd = Inl e"
  shows "if isSession8TerminalState (iState s)
    then e = (if cmd = CreateAccepted then SBOM_INVALID_TRANSITION else SBOM_TERMINAL_STATE)
    else if lifecycle_target (Some (iState s)) cmd = None then e = SBOM_INVALID_TRANSITION
    else \<not> command_ok cmd \<and> errCode e = err_validation \<and> e \<noteq> SBOM_PROCESSING_REQUIRES_STARTED_AT"
proof -
  have inv: "ingestion_inv s" using assms(1) by (rule ingestion_keeps_inv)
  show ?thesis
    using transition_terminal_error [OF inv, of cmd] transition_error_kinds [OF inv assms(2)] assms(2)
    by auto
qed

theorem transition_errors_witness:
  "applySession8IngestionTransition (Some exampleCompleted) Queue = Inl SBOM_TERMINAL_STATE \<and>
   ingestion_reachable exampleCompleted"
proof -
  obtain e where e: "applySession8IngestionTransition (Some exampleCompleted) Queue = Inl e"
    using transition_terminal_error [OF ingestion_keeps_inv [OF exampleCompleted_reachable], of Queue]
    by (simp add: exampleCompleted_def isSession8TerminalState_def session8IngestionTerminalStates_def)
  with transition_errors [OF exampleCompleted_reachable e] exampleCompleted_reachable show ?thesis
    by (simp add: exampleCompleted_def isSession8TerminalState_def session8IngestionTerminalStates_def)
qed

end
