(* ===== verification/SbomGraph.thy ===== *)
theory SbomGraph
  imports SbomIngestion
begin

text \<open>
  Normalized SBOM graphs, from \<^verbatim>\<open>packages/domain/src/sbom\<close>: component versions (\<^verbatim>\<open>version.ts\<close>),
  component identity (\<^verbatim>\<open>component.ts\<close>) and the validation of a whole graph (\<^verbatim>\<open>graph.ts\<close>).

  An unknown version may carry a stray value at run time, which the parser rejects; the option on
  \<open>UnknownVersion\<close> is that value. A \<^verbatim>\<open>Set\<close> of digests is the list of its distinct members. The counts
  of a graph are lengths and sums of lengths in every caller, so they are integers here.
\<close>

subsection \<open>Versions\<close>

definition FORBIDDEN_KNOWN_VERSION_STRINGS :: "jstr list" where
  [catalog_defs]: "FORBIDDEN_KNOWN_VERSION_STRINGS = [js ''*'', js ''latest'', js ''unknown'']"

datatype componentVersion = KnownVersion jstr | UnknownVersion "jstr option"

record occurrenceVersionColumns =
  ovVersionKnown :: bool
  ovVersion :: jstr

text \<open>
  \<^verbatim>\<open>toLowerCase\<close> as far as membership in an ASCII list can tell: of the code units outside ASCII only the
  Kelvin sign U+212A has an ASCII lower case (U+0130 gives two units, the second not ASCII), and every
  other one maps to units outside ASCII.
\<close>

definition lower_unit :: "nat \<Rightarrow> nat" where
  "lower_unit c = (if is_upper c then c + 32 else if c = 8490 then 107 else c)"

definition isForbiddenKnownVersion :: "jstr \<Rightarrow> bool" where
  "isForbiddenKnownVersion value =
     (let normalized = map lower_unit (js_trim value)
      in normalized \<in> set FORBIDDEN_KNOWN_VERSION_STRINGS)"

definition knownComponentVersion :: "jstr \<Rightarrow> appError + componentVersion" where
  "knownComponentVersion value =
     (if length value = 0
      then Inl (sbomValidationError (js ''Known component versions must be non-empty.''))
      else if js_trim value \<noteq> value
      then Inl (sbomValidationError
        (js ''Known component versions must not include surrounding whitespace.''))
      else if isForbiddenKnownVersion value
      then Inl (sbomValidationError
        (js ''Known component versions must not use *, latest, unknown, or guessed placeholders.''))
      else Inr (KnownVersion value))"

definition unknownComponentVersion :: componentVersion where
  "unknownComponentVersion = UnknownVersion None"

fun parseComponentVersion :: "componentVersion \<Rightarrow> appError + componentVersion" where
  "parseComponentVersion (UnknownVersion (Some _)) =
     Inl (sbomValidationError (js ''Unknown component versions must not carry an observed value.''))"
| "parseComponentVersion (UnknownVersion None) = Inr (UnknownVersion None)"
| "parseComponentVersion (KnownVersion value) = knownComponentVersion value"

definition toOccurrenceVersionColumns ::
  "componentVersion \<Rightarrow> appError + occurrenceVersionColumns" where
  "toOccurrenceVersionColumns version =
     (case parseComponentVersion version of
        Inl e \<Rightarrow> Inl e
      | Inr (UnknownVersion _) \<Rightarrow> Inr \<lparr>ovVersionKnown = False, ovVersion = []\<rparr>
      | Inr (KnownVersion value) \<Rightarrow> Inr \<lparr>ovVersionKnown = True, ovVersion = value\<rparr>)"

definition fromOccurrenceVersionColumns ::
  "occurrenceVersionColumns \<Rightarrow> appError + componentVersion" where
  "fromOccurrenceVersionColumns columns =
     (if ovVersionKnown columns then knownComponentVersion (ovVersion columns)
      else if length (ovVersion columns) \<noteq> 0
      then Inl (sbomValidationError
        (js ''Unknown versions must persist an empty placeholder, not an observed value.''))
      else Inr unknownComponentVersion)"

fun isResolvedMatchingVersion :: "componentVersion \<Rightarrow> bool" where
  "isResolvedMatchingVersion (KnownVersion _) = True"
| "isResolvedMatchingVersion (UnknownVersion _) = False"

subsection \<open>Component identity\<close>

datatype componentIdentityState = resolved | ambiguous | unsupported

definition SBOM_IDENTITY_KEY_MAX_LENGTH :: nat where
  [catalog_defs]: "SBOM_IDENTITY_KEY_MAX_LENGTH = 2048"

definition IDENTITY_SEPARATOR :: nat where
  [catalog_defs]: "IDENTITY_SEPARATOR = 31"

record componentIdentityInput =
  ciIdentityState :: componentIdentityState
  ciVersionlessPurl :: "jstr option"
  ciEcosystem :: "jstr option"
  ciNamespace :: "jstr option"
  ciName :: jstr
  ciBomRef :: "jstr option"

record normalizedComponent =
  ncBomRef :: "jstr option"
  ncName :: jstr
  ncNamespace :: "jstr option"
  ncEcosystem :: "jstr option"
  ncIdentityState :: componentIdentityState
  ncVersionlessPurl :: "jstr option"
  ncVersionedPurl :: "jstr option"
  ncVersion :: componentVersion
  ncIsDirect :: "bool option"
  ncIdentityKey :: jstr

fun identityStateText :: "componentIdentityState \<Rightarrow> jstr" where
  "identityStateText resolved = js ''resolved''"
| "identityStateText ambiguous = js ''ambiguous''"
| "identityStateText unsupported = js ''unsupported''"

definition orEmpty :: "jstr option \<Rightarrow> jstr" where
  "orEmpty value = (case value of None \<Rightarrow> [] | Some s \<Rightarrow> s)"

definition presentText :: "jstr option \<Rightarrow> jstr option" where
  "presentText value = (case value of None \<Rightarrow> None | Some s \<Rightarrow> if length s > 0 then Some s else None)"

definition identityKeyText :: "componentIdentityInput \<Rightarrow> jstr" where
  "identityKeyText input =
     (case (presentText (ciVersionlessPurl input), presentText (ciEcosystem input)) of
        (Some purl, _) \<Rightarrow> js ''purl:'' @ purl
      | (None, Some ecosystem) \<Rightarrow>
          if ciIdentityState input = resolved
          then js ''eco:'' @ ecosystem @ IDENTITY_SEPARATOR # orEmpty (ciNamespace input) @
            IDENTITY_SEPARATOR # ciName input
          else js ''unresolved:'' @ identityStateText (ciIdentityState input) @ IDENTITY_SEPARATOR #
            orEmpty (ciBomRef input) @ IDENTITY_SEPARATOR # ciName input
      | (None, None) \<Rightarrow>
          js ''unresolved:'' @ identityStateText (ciIdentityState input) @ IDENTITY_SEPARATOR #
            orEmpty (ciBomRef input) @ IDENTITY_SEPARATOR # ciName input)"

definition buildComponentIdentityKey :: "componentIdentityInput \<Rightarrow> appError + jstr" where
  "buildComponentIdentityKey input =
     (if length (ciName input) = 0
      then Inl (sbomValidationError (js ''Component name is required.''))
      else (let key = identityKeyText input
        in if length key > SBOM_IDENTITY_KEY_MAX_LENGTH
           then Inl (sbomValidationError (js ''Component identity key exceeds the persistence bound.''))
           else Inr key))"

definition isMatchableComponentIdentity :: "normalizedComponent \<Rightarrow> bool" where
  "isMatchableComponentIdentity component = (ncIdentityState component = resolved)"

definition componentOccurrenceNormalizationKey :: "normalizedComponent \<Rightarrow> jstr" where
  "componentOccurrenceNormalizationKey component =
     (case ncVersion component of
        UnknownVersion _ \<Rightarrow> ncIdentityKey component @ 31 # js ''unknown''
      | KnownVersion value \<Rightarrow> ncIdentityKey component @ 31 # js ''known'' @ 31 # value)"

record occurrenceAliasFacts =
  oaVersion :: componentVersion
  oaVersionedPurl :: "jstr option"
  oaSha256Hex :: "jstr list option"

datatype aliasConflict = conflict_version | conflict_versioned_purl | conflict_sha256

definition sameDigestSet :: "jstr list \<Rightarrow> jstr list \<Rightarrow> bool" where
  "sameDigestSet left right =
     (if length left \<noteq> length right then False else list_all (\<lambda>digest. digest \<in> set right) left)"

definition sameVersionKind :: "componentVersion \<Rightarrow> componentVersion \<Rightarrow> bool" where
  "sameVersionKind a b = (isResolvedMatchingVersion a = isResolvedMatchingVersion b)"

definition occurrenceAliasConflict ::
  "occurrenceAliasFacts \<Rightarrow> occurrenceAliasFacts \<Rightarrow> aliasConflict option" where
  "occurrenceAliasConflict kept candidate =
     (if \<not> sameVersionKind (oaVersion kept) (oaVersion candidate) then Some conflict_version
      else if (case (oaVersion kept, oaVersion candidate) of
                 (KnownVersion a, KnownVersion b) \<Rightarrow> a \<noteq> b | _ \<Rightarrow> False) then Some conflict_version
      else if (case (oaVersionedPurl kept, oaVersionedPurl candidate) of
                 (Some a, Some b) \<Rightarrow> a \<noteq> b | _ \<Rightarrow> False) then Some conflict_versioned_purl
      else if (case (oaSha256Hex kept, oaSha256Hex candidate) of
                 (Some a, Some b) \<Rightarrow> \<not> sameDigestSet a b | _ \<Rightarrow> False) then Some conflict_sha256
      else None)"

definition identityInputOf :: "normalizedComponent \<Rightarrow> componentIdentityInput" where
  "identityInputOf component =
     \<lparr>ciIdentityState = ncIdentityState component, ciVersionlessPurl = ncVersionlessPurl component,
      ciEcosystem = ncEcosystem component, ciNamespace = ncNamespace component,
      ciName = ncName component, ciBomRef = ncBomRef component\<rparr>"

definition validateNormalizedComponent :: "normalizedComponent \<Rightarrow> appError + normalizedComponent" where
  "validateNormalizedComponent component =
     (if length (ncName component) = 0 then Inl SBOM_INVALID_IDENTITY
      else case parseComponentVersion (ncVersion component) of
        Inl e \<Rightarrow> Inl e
      | Inr version \<Rightarrow>
          (case buildComponentIdentityKey (identityInputOf component) of
             Inl e \<Rightarrow> Inl e
           | Inr identityKey \<Rightarrow>
               if identityKey \<noteq> ncIdentityKey component
               then Inl (sbomValidationError
                 (js ''Component identityKey must match the deterministic identity.''))
               else Inr (component\<lparr>ncVersion := version, ncIdentityKey := identityKey\<rparr>)))"

subsection \<open>Graphs\<close>

datatype parseWarningCode = self_dependency_skipped | duplicate_identity_collapsed

record countOnlyWarningSummary =
  wCode :: parseWarningCode
  wCount :: int

record normalizedDependencyEdge =
  edFromBomRef :: jstr
  edToBomRef :: jstr
  edRelationshipType :: jstr

record normalizedComponentGraph =
  ngSpecificationVersion :: jstr
  ngGraphCompleteness :: graphCompleteness
  ngComponents :: "normalizedComponent list"
  ngEdges :: "normalizedDependencyEdge list"
  ngWarnings :: "countOnlyWarningSummary list"
  ngComponentCount :: int
  ngDependencyEdgeCount :: int
  ngWarningCount :: int
  ngCapturedAt :: "int option"
  ngParserVersion :: jstr
  ngNormalizationVersion :: jstr

text \<open>The loop over the components, with the sets of bom-refs and occurrence keys seen so far.\<close>

fun validateGraphComponents ::
  "normalizedComponent list \<Rightarrow> jstr list \<Rightarrow> jstr list \<Rightarrow>
   appError + (normalizedComponent list \<times> jstr list)" where
  "validateGraphComponents [] bomRefs occurrenceKeys = Inr ([], bomRefs)"
| "validateGraphComponents (component # components) bomRefs occurrenceKeys =
     (case validateNormalizedComponent component of
        Inl e \<Rightarrow> Inl e
      | Inr validated \<Rightarrow>
          (let occurrenceKey = componentOccurrenceNormalizationKey validated
           in if occurrenceKey \<in> set occurrenceKeys
              then Inl (sbomValidationError
                (js ''Normalized components must not repeat one component and observed version.''))
              else case ncBomRef validated of
                None \<Rightarrow>
                  map_sum id (apfst ((#) validated))
                    (validateGraphComponents components bomRefs (occurrenceKey # occurrenceKeys))
              | Some bomRef \<Rightarrow>
                  if length bomRef = 0
                  then Inl (sbomValidationError (js ''bomRef must be null or non-empty.''))
                  else if bomRef \<in> set bomRefs
                  then Inl (sbomValidationError
                    (js ''Normalized components must not repeat bomRef values.''))
                  else map_sum id (apfst ((#) validated))
                    (validateGraphComponents components (bomRef # bomRefs)
                      (occurrenceKey # occurrenceKeys))))"

fun validateGraphEdges :: "jstr list \<Rightarrow> normalizedDependencyEdge list \<Rightarrow> appError + unit" where
  "validateGraphEdges bomRefs [] = Inr ()"
| "validateGraphEdges bomRefs (edge # edges) =
     (if edRelationshipType edge \<noteq> js ''depends_on''
      then Inl (sbomValidationError (js ''Session 8 stores depends_on edges only.''))
      else if length (edFromBomRef edge) = 0 \<or> length (edToBomRef edge) = 0
      then Inl (sbomValidationError (js ''Dependency edges require non-empty bom-ref endpoints.''))
      else if edFromBomRef edge = edToBomRef edge
      then Inl (sbomValidationError
        (js ''Self-dependency edges must be skipped as warnings, not stored.''))
      else if edFromBomRef edge \<notin> set bomRefs \<or> edToBomRef edge \<notin> set bomRefs
      then Inl (sbomValidationError
        (js ''Dependency edges must resolve to normalized component bom-refs.''))
      else validateGraphEdges bomRefs edges)"

fun validateGraphWarnings :: "countOnlyWarningSummary list \<Rightarrow> appError + unit" where
  "validateGraphWarnings [] = Inr ()"
| "validateGraphWarnings (warning # warnings) =
     (if \<not> isNonNegativeInt (Integral (wCount warning)) \<or> wCount warning = 0
      then Inl (sbomValidationError (js ''Warning summaries must use a positive count.''))
      else validateGraphWarnings warnings)"

definition validateNormalizedComponentGraph ::
  "normalizedComponentGraph \<Rightarrow> appError + normalizedComponentGraph" where
  "validateNormalizedComponentGraph graph =
     (if ngComponentCount graph \<noteq> int (length (ngComponents graph))
       \<or> ngDependencyEdgeCount graph \<noteq> int (length (ngEdges graph))
      then Inl (sbomValidationError
        (js ''Graph counts must match component and edge array lengths.''))
      else if ngWarningCount graph \<noteq> foldl (\<lambda>total warning. total + wCount warning) 0 (ngWarnings graph)
      then Inl (sbomValidationError
        (js ''Warning count must equal the sum of count-only warning summaries.''))
      else if \<not> isNonNegativeInt (Integral (ngComponentCount graph))
       \<or> \<not> isNonNegativeInt (Integral (ngDependencyEdgeCount graph))
       \<or> \<not> isNonNegativeInt (Integral (ngWarningCount graph))
      then Inl SBOM_INVALID_GRAPH
      else if \<not> graphCompletenessMatchesCounts (ngGraphCompleteness graph)
        (Integral (ngComponentCount graph)) (Integral (ngDependencyEdgeCount graph))
      then Inl (sbomValidationError
        (js ''graphCompleteness does not match stored component and edge counts.''))
      else case validateGraphComponents (ngComponents graph) [] [] of
        Inl e \<Rightarrow> Inl e
      | Inr (components, bomRefs) \<Rightarrow>
          (case validateGraphEdges bomRefs (ngEdges graph) of
             Inl e \<Rightarrow> Inl e
           | Inr _ \<Rightarrow>
               (case validateGraphWarnings (ngWarnings graph) of
                  Inl e \<Rightarrow> Inl e
                | Inr _ \<Rightarrow> Inr (graph\<lparr>ngComponents := components\<rparr>))))"

subsection \<open>What validated components and graphs satisfy\<close>

definition known_version_ok :: "jstr \<Rightarrow> bool" where
  "known_version_ok v \<longleftrightarrow> v \<noteq> [] \<and> js_trim v = v \<and>
     map lower_unit v \<notin> set FORBIDDEN_KNOWN_VERSION_STRINGS"

fun version_ok :: "componentVersion \<Rightarrow> bool" where
  "version_ok (KnownVersion v) = known_version_ok v"
| "version_ok (UnknownVersion stray) = (stray = None)"

lemma knownComponentVersion_iff:
  "knownComponentVersion v = Inr w \<longleftrightarrow> known_version_ok v \<and> w = KnownVersion v"
  by (auto simp: knownComponentVersion_def known_version_ok_def isForbiddenKnownVersion_def Let_def)

lemma parseComponentVersion_iff: "parseComponentVersion v = Inr w \<longleftrightarrow> version_ok v \<and> w = v"
  by (induction v rule: parseComponentVersion.induct) (auto simp: knownComponentVersion_iff)

definition component_ok :: "normalizedComponent \<Rightarrow> bool" where
  "component_ok c \<longleftrightarrow> ncName c \<noteq> [] \<and> version_ok (ncVersion c) \<and>
     ncIdentityKey c = identityKeyText (identityInputOf c) \<and>
     length (ncIdentityKey c) \<le> SBOM_IDENTITY_KEY_MAX_LENGTH"

lemma buildComponentIdentityKey_iff:
  "buildComponentIdentityKey i = Inr key \<longleftrightarrow>
     ciName i \<noteq> [] \<and> key = identityKeyText i \<and> length key \<le> SBOM_IDENTITY_KEY_MAX_LENGTH"
  by (auto simp: buildComponentIdentityKey_def Let_def)

lemma ciName_identityInputOf [simp]: "ciName (identityInputOf c) = ncName c"
  by (simp add: identityInputOf_def)

lemma validateNormalizedComponent_iff:
  "validateNormalizedComponent c = Inr c' \<longleftrightarrow> component_ok c \<and> c' = c"
proof (cases "parseComponentVersion (ncVersion c)")
  case (Inl e)
  then have "\<not> version_ok (ncVersion c)"
    using parseComponentVersion_iff [of "ncVersion c" "ncVersion c"] by auto
  with Inl show ?thesis by (auto simp: validateNormalizedComponent_def component_ok_def)
next
  case (Inr v)
  then have v: "v = ncVersion c" "version_ok (ncVersion c)" by (auto simp: parseComponentVersion_iff)
  show ?thesis
  proof (cases "buildComponentIdentityKey (identityInputOf c)")
    case (Inl e)
    then have "\<not> (ncName c \<noteq> [] \<and>
        length (identityKeyText (identityInputOf c)) \<le> SBOM_IDENTITY_KEY_MAX_LENGTH)"
      using buildComponentIdentityKey_iff [of "identityInputOf c" "identityKeyText (identityInputOf c)"]
      by auto
    with Inl \<open>parseComponentVersion (ncVersion c) = Inr v\<close> show ?thesis
      by (auto simp: validateNormalizedComponent_def component_ok_def)
  next
    case k: (Inr key)
    then have "key = identityKeyText (identityInputOf c)" "ncName c \<noteq> []"
      "length key \<le> SBOM_IDENTITY_KEY_MAX_LENGTH"
      by (auto simp: buildComponentIdentityKey_iff)
    with k v \<open>parseComponentVersion (ncVersion c) = Inr v\<close> show ?thesis
      by (auto simp: validateNormalizedComponent_def component_ok_def)
  qed
qed

definition bomRefsOf :: "normalizedComponent list \<Rightarrow> jstr list" where
  "bomRefsOf cs = List.map_filter ncBomRef cs"

lemma bomRefsOf_simps [simp]:
  "bomRefsOf [] = []"
  "bomRefsOf (c # cs) = (case ncBomRef c of None \<Rightarrow> bomRefsOf cs | Some r \<Rightarrow> r # bomRefsOf cs)"
  by (simp_all add: bomRefsOf_def map_filter_simps split: option.splits)

definition components_ok :: "normalizedComponent list \<Rightarrow> bool" where
  "components_ok cs \<longleftrightarrow> list_all component_ok cs \<and>
     distinct (map componentOccurrenceNormalizationKey cs) \<and> distinct (bomRefsOf cs) \<and>
     [] \<notin> set (bomRefsOf cs)"

lemma validateGraphComponents_iff:
  "validateGraphComponents cs refs keys = Inr (cs', refs') \<longleftrightarrow>
     cs' = cs \<and> refs' = rev (bomRefsOf cs) @ refs \<and> components_ok cs \<and>
     set (map componentOccurrenceNormalizationKey cs) \<inter> set keys = {} \<and>
     set (bomRefsOf cs) \<inter> set refs = {}"
proof (induction cs arbitrary: refs keys cs' refs')
  case Nil
  then show ?case by (auto simp: components_ok_def)
next
  case (Cons c cs)
  show ?case
  proof (cases "validateNormalizedComponent c")
    case (Inl e)
    then have "\<not> component_ok c" using validateNormalizedComponent_iff [of c c] by auto
    with Inl show ?thesis by (auto simp: components_ok_def)
  next
    case (Inr v)
    then have v: "v = c" "component_ok c" by (simp_all add: validateNormalizedComponent_iff)
    have shift: "map_sum id (apfst ((#) c)) r = Inr (cs', refs') \<longleftrightarrow>
        (\<exists>ds. cs' = c # ds \<and> r = Inr (ds, refs'))" for r :: "appError + (normalizedComponent list \<times> jstr list)"
      by (cases r) auto
    show ?thesis
      using Inr v(2) unfolding v(1)
      by (auto simp: shift Cons.IH components_ok_def Let_def split: option.splits)
  qed
qed

definition edge_ok :: "jstr set \<Rightarrow> normalizedDependencyEdge \<Rightarrow> bool" where
  "edge_ok refs e \<longleftrightarrow> edRelationshipType e = js ''depends_on'' \<and> edFromBomRef e \<noteq> [] \<and>
     edToBomRef e \<noteq> [] \<and> edFromBomRef e \<noteq> edToBomRef e \<and> edFromBomRef e \<in> refs \<and> edToBomRef e \<in> refs"

lemma validateGraphEdges_iff:
  "validateGraphEdges refs es = Inr u \<longleftrightarrow> list_all (edge_ok (set refs)) es"
  by (induction es) (auto simp: edge_ok_def)

lemma validateGraphWarnings_iff:
  "validateGraphWarnings ws = Inr u \<longleftrightarrow> list_all (\<lambda>w. 0 < wCount w) ws"
  by (induction ws) auto

text \<open>
  What a stored graph promises: the counts are the lengths and agree with the stated completeness, the
  warning count is the sum of positive summaries, every component is valid, no component version and no
  bom-ref occurs twice, and every edge joins two different components of the graph.
\<close>

definition graph_ok :: "normalizedComponentGraph \<Rightarrow> bool" where
  "graph_ok g \<longleftrightarrow>
     ngComponentCount g = int (length (ngComponents g)) \<and>
     ngDependencyEdgeCount g = int (length (ngEdges g)) \<and>
     ngWarningCount g = sum_list (map wCount (ngWarnings g)) \<and>
     list_all (\<lambda>w. 0 < wCount w) (ngWarnings g) \<and>
     graphCompletenessMatchesCounts (ngGraphCompleteness g)
       (Integral (ngComponentCount g)) (Integral (ngDependencyEdgeCount g)) \<and>
     components_ok (ngComponents g) \<and>
     list_all (edge_ok (set (bomRefsOf (ngComponents g)))) (ngEdges g)"

lemma foldl_wCount: "foldl (\<lambda>total w. total + wCount w) a ws = a + sum_list (map wCount ws)"
  by (induction ws arbitrary: a) auto

lemma sum_positive: "list_all (\<lambda>w. 0 < wCount w) ws \<Longrightarrow> 0 \<le> sum_list (map wCount ws)"
  by (induction ws) auto

lemma validateGraphComponents_top:
  "validateGraphComponents cs [] [] = Inr (cs', refs) \<longleftrightarrow>
     cs' = cs \<and> refs = rev (bomRefsOf cs) \<and> components_ok cs"
  by (auto simp: validateGraphComponents_iff)

lemma validateGraph_iff:
  "validateNormalizedComponentGraph g = Inr g' \<longleftrightarrow> graph_ok g \<and> g' = g"
proof (cases "validateGraphComponents (ngComponents g) [] []")
  case (Inl e)
  then have "\<not> components_ok (ngComponents g)"
    using validateGraphComponents_top [of "ngComponents g"] by auto
  with Inl show ?thesis by (auto simp: validateNormalizedComponentGraph_def graph_ok_def)
next
  case (Inr p)
  obtain cs refs where p: "p = (cs, refs)" by (cases p)
  with Inr have cs: "cs = ngComponents g" "set refs = set (bomRefsOf (ngComponents g))"
    "components_ok (ngComponents g)"
    by (auto simp: validateGraphComponents_top)
  show ?thesis
    using cs sum_positive [of "ngWarnings g"] validateGraphEdges_iff [of refs "ngEdges g"]
      validateGraphWarnings_iff [of "ngWarnings g"]
    by (auto simp: validateNormalizedComponentGraph_def graph_ok_def Inr p foldl_wCount
        split: sum.splits)
qed

text \<open>
  C30. Graph validation accepts a normalized graph exactly when it keeps the promises of a stored graph,
  and then returns it unchanged: whatever is stored has consistent counts and completeness, valid
  components without repeated component versions or bom-refs, and edges that resolve to two different
  components.
\<close>

theorem graph_validation_exact:
  "validateNormalizedComponentGraph g = Inr g' \<longleftrightarrow> graph_ok g \<and> g' = g"
  by (rule validateGraph_iff)

text \<open>
  The two version columns and the component version are in one-to-one correspondence on valid data:
  writing a version and reading the columns gives the version back, and reading columns and writing the
  version gives the columns back. No observed version is stored as the unknown placeholder or vice versa.
\<close>

theorem version_columns_roundtrip:
  "toOccurrenceVersionColumns v = Inr cols \<longleftrightarrow> fromOccurrenceVersionColumns cols = Inr v"
  by (cases v)
    (auto simp: toOccurrenceVersionColumns_def fromOccurrenceVersionColumns_def
      unknownComponentVersion_def knownComponentVersion_def split: sum.splits option.splits
      componentVersion.splits elim: parseComponentVersion.elims)

subsection \<open>Identity keys\<close>

text \<open>The identity a key stands for: a package URL, an ecosystem coordinate, or the component itself.\<close>

datatype componentIdentity =
    ByPurl jstr
  | ByEcosystem jstr jstr jstr
  | ByDocument componentIdentityState jstr jstr

definition identity_of :: "componentIdentityInput \<Rightarrow> componentIdentity" where
  "identity_of i =
     (case presentText (ciVersionlessPurl i) of
        Some purl \<Rightarrow> ByPurl purl
      | None \<Rightarrow>
          (case presentText (ciEcosystem i) of
             Some eco \<Rightarrow> if ciIdentityState i = resolved
               then ByEcosystem eco (orEmpty (ciNamespace i)) (ciName i)
               else ByDocument (ciIdentityState i) (orEmpty (ciBomRef i)) (ciName i)
           | None \<Rightarrow> ByDocument (ciIdentityState i) (orEmpty (ciBomRef i)) (ciName i)))"

fun identityText :: "componentIdentity \<Rightarrow> jstr" where
  "identityText (ByPurl purl) = js ''purl:'' @ purl"
| "identityText (ByEcosystem eco ns name) = js ''eco:'' @ eco @ 31 # ns @ 31 # name"
| "identityText (ByDocument state ref name) =
     js ''unresolved:'' @ identityStateText state @ 31 # ref @ 31 # name"

lemma identityKeyText_eq: "identityKeyText i = identityText (identity_of i)"
  by (auto simp: identityKeyText_def identity_of_def IDENTITY_SEPARATOR_def split: option.splits)

fun separator_free :: "componentIdentity \<Rightarrow> bool" where
  "separator_free (ByPurl _) = True"
| "separator_free (ByEcosystem eco ns _) = (31 \<notin> set eco \<and> 31 \<notin> set ns)"
| "separator_free (ByDocument _ ref _) = (31 \<notin> set ref)"

lemma split_at_separator:
  assumes "(c::nat) \<notin> set xs" "c \<notin> set ys"
  shows "xs @ c # us = ys @ c # vs \<longleftrightarrow> xs = ys \<and> us = vs"
  using assms
proof (induction xs arbitrary: ys)
  case Nil
  then show ?case by (cases ys) auto
next
  case (Cons x xs)
  then show ?case by (cases ys) auto
qed

lemma identityStateText_props:
  "31 \<notin> set (identityStateText s)" "identityStateText s = identityStateText s' \<longleftrightarrow> s = s'"
  by (cases s; cases s'; simp add: js_def)+

lemma identityText_inject:
  assumes "separator_free a" "separator_free b"
  shows "identityText a = identityText b \<longleftrightarrow> a = b"
proof -
  have heads: "hd (identityText a) = (case a of ByPurl _ \<Rightarrow> 112 | ByEcosystem _ _ _ \<Rightarrow> 101 | ByDocument _ _ _ \<Rightarrow> 117)" for a
    by (cases a) (simp_all add: js_def)
  show ?thesis
    using assms heads [of a] heads [of b]
    by (cases a; cases b) (auto simp: split_at_separator identityStateText_props)
qed

text \<open>
  Identity keys are faithful: the key of a component stays within the persistence bound, and two
  components whose ecosystem, namespace and bom-ref are free of the separator U+001F get the same key
  exactly when they have the same identity, that is the same package URL, or the same ecosystem
  coordinate, or the same state, bom-ref and name.
\<close>

theorem identity_key_faithful:
  assumes "buildComponentIdentityKey i = Inr key" "buildComponentIdentityKey j = Inr key'"
    and "separator_free (identity_of i)" "separator_free (identity_of j)"
  shows "(key = key' \<longleftrightarrow> identity_of i = identity_of j) \<and> length key \<le> 2048"
  using assms identityText_inject [OF assms(3,4)]
  by (auto simp: buildComponentIdentityKey_iff identityKeyText_eq SBOM_IDENTITY_KEY_MAX_LENGTH_def)

definition exampleIdentity :: "string \<Rightarrow> string \<Rightarrow> componentIdentityInput" where
  "exampleIdentity ref name =
     \<lparr>ciIdentityState = unsupported, ciVersionlessPurl = None, ciEcosystem = None,
      ciNamespace = None, ciName = js name, ciBomRef = Some (js ref)\<rparr>"

theorem identity_key_faithful_witness:
  "buildComponentIdentityKey (exampleIdentity ''a'' ''lib'') \<noteq>
   buildComponentIdentityKey (exampleIdentity ''b'' ''lib'')"
proof -
  define i where "i = exampleIdentity ''a'' ''lib''"
  define j where "j = exampleIdentity ''b'' ''lib''"
  have builds: "buildComponentIdentityKey i = Inr (identityText (identity_of i))"
    "buildComponentIdentityKey j = Inr (identityText (identity_of j))"
    by (simp_all add: buildComponentIdentityKey_iff identityKeyText_eq i_def j_def exampleIdentity_def
        identity_of_def presentText_def orEmpty_def SBOM_IDENTITY_KEY_MAX_LENGTH_def)
      (simp_all add: js_def)
  have free: "separator_free (identity_of i)" "separator_free (identity_of j)" "identity_of i \<noteq> identity_of j"
    by (simp_all add: i_def j_def exampleIdentity_def identity_of_def presentText_def orEmpty_def)
      (simp_all add: js_def)
  from identity_key_faithful [OF builds free(1,2)] builds free(3) show ?thesis
    by (simp add: i_def j_def)
qed

text \<open>Without the separator condition two different components can share a key.\<close>

lemma identity_key_collision:
  "\<exists>i j key. buildComponentIdentityKey i = Inr key \<and> buildComponentIdentityKey j = Inr key \<and>
     ciBomRef i \<noteq> ciBomRef j \<and> ciName i \<noteq> ciName j"
proof -
  define i where "i = (exampleIdentity ''a'' ''b'')\<lparr>ciName := js ''b'' @ 31 # js ''c''\<rparr>"
  define j where "j = (exampleIdentity ''a'' ''c'')\<lparr>ciBomRef := Some (js ''a'' @ 31 # js ''b'')\<rparr>"
  have "identityText (identity_of i) = identityText (identity_of j)"
    by (simp add: i_def j_def exampleIdentity_def identity_of_def presentText_def orEmpty_def)
  moreover have "buildComponentIdentityKey i = Inr (identityText (identity_of i))"
    by (simp add: buildComponentIdentityKey_iff identityKeyText_eq i_def exampleIdentity_def
        identity_of_def presentText_def orEmpty_def SBOM_IDENTITY_KEY_MAX_LENGTH_def)
  moreover have "buildComponentIdentityKey j = Inr (identityText (identity_of j))"
    by (simp add: buildComponentIdentityKey_iff identityKeyText_eq j_def exampleIdentity_def
        identity_of_def presentText_def orEmpty_def SBOM_IDENTITY_KEY_MAX_LENGTH_def)
      (simp add: js_def)
  moreover have "ciBomRef i \<noteq> ciBomRef j" "ciName i \<noteq> ciName j"
    by (simp_all add: i_def j_def exampleIdentity_def js_def)
  ultimately show ?thesis by metis
qed

subsection \<open>Alias conflicts\<close>

text \<open>A missing fact agrees with every fact; two present facts agree when they are equal.\<close>

definition agree :: "('a \<Rightarrow> 'a \<Rightarrow> bool) \<Rightarrow> 'a option \<Rightarrow> 'a option \<Rightarrow> bool" where
  "agree eq a b = (case (a, b) of (Some x, Some y) \<Rightarrow> eq x y | _ \<Rightarrow> True)"

definition same_version :: "componentVersion \<Rightarrow> componentVersion \<Rightarrow> bool" where
  "same_version a b = (case (a, b) of
     (KnownVersion x, KnownVersion y) \<Rightarrow> x = y
   | (UnknownVersion _, UnknownVersion _) \<Rightarrow> True
   | _ \<Rightarrow> False)"

lemma occurrenceAliasConflict_None_iff:
  "occurrenceAliasConflict a b = None \<longleftrightarrow>
     same_version (oaVersion a) (oaVersion b) \<and> agree (=) (oaVersionedPurl a) (oaVersionedPurl b) \<and>
     agree sameDigestSet (oaSha256Hex a) (oaSha256Hex b)"
  by (auto simp: occurrenceAliasConflict_def sameVersionKind_def same_version_def agree_def
      split: componentVersion.splits option.splits)

lemma sameDigestSet_iff:
  assumes "distinct a" "distinct b"
  shows "sameDigestSet a b \<longleftrightarrow> set a = set b"
proof -
  have "length a = length b \<Longrightarrow> set a \<subseteq> set b \<Longrightarrow> set a = set b"
    using assms by (intro card_seteq) (simp_all add: distinct_card)
  moreover have "set a = set b \<Longrightarrow> length a = length b"
    using assms by (metis distinct_card)
  ultimately show ?thesis by (auto simp: sameDigestSet_def list_all_iff)
qed

end
