(* ===== verification/JsonDocuments.thy ===== *)
theory JsonDocuments
  imports JsValues
begin

text \<open>
  Documents as \<^verbatim>\<open>JSON.parse\<close> returns them, shared by the two document parsers: an object has
  distinct own keys, and reading an absent key gives \<open>None\<close> (\<^verbatim>\<open>undefined\<close>). The height counts the root
  as 1 and the nodes count every value, not the keys.
\<close>

datatype json =
    JNull
  | JBool bool
  | JNumber jsnum
  | JString jstr
  | JArray "json list"
  | JObject "(jstr \<times> json) list"

type_synonym jsonRecord = "(jstr \<times> json) list"

definition getProp :: "jsonRecord \<Rightarrow> string \<Rightarrow> json option" where
  "getProp rec key = map_of rec (js key)"

text \<open>The keys both structure inspections refuse, \<^verbatim>\<open>FORBIDDEN_OBJECT_KEYS\<close> of each \<^verbatim>\<open>json-structure.ts\<close>.\<close>

definition FORBIDDEN_OBJECT_KEYS :: "jstr list" where
  [catalog_defs]: "FORBIDDEN_OBJECT_KEYS = [js ''__proto__'', js ''constructor'', js ''prototype'']"

fun heightOf :: "json \<Rightarrow> nat" and heightItems :: "json list \<Rightarrow> nat"
  and heightEntries :: "(jstr \<times> json) list \<Rightarrow> nat"
where
  "heightOf (JArray items) = Suc (heightItems items)"
| "heightOf (JObject entries) = Suc (heightEntries entries)"
| "heightOf _ = 1"
| "heightItems [] = 0"
| "heightItems (x # xs) = max (heightOf x) (heightItems xs)"
| "heightEntries [] = 0"
| "heightEntries ((k, v) # es) = max (heightOf v) (heightEntries es)"

fun nodesOf :: "json \<Rightarrow> nat" and nodesItems :: "json list \<Rightarrow> nat"
  and nodesEntries :: "(jstr \<times> json) list \<Rightarrow> nat"
where
  "nodesOf (JArray items) = Suc (nodesItems items)"
| "nodesOf (JObject entries) = Suc (nodesEntries entries)"
| "nodesOf _ = 1"
| "nodesItems [] = 0"
| "nodesItems (x # xs) = nodesOf x + nodesItems xs"
| "nodesEntries [] = 0"
| "nodesEntries ((k, v) # es) = nodesOf v + nodesEntries es"

lemma heightOf_pos: "1 \<le> heightOf v"
  by (cases v) simp_all

lemma nodesOf_pos: "1 \<le> nodesOf v"
  by (cases v) simp_all

lemma add_max_le: "d + max a b \<le> c \<longleftrightarrow> d + a \<le> c \<and> d + b \<le> (c::nat)"
  by (auto simp: max_def)

end
