(* ===== verification/SbomNormalize.thy ===== *)
theory SbomNormalize
  imports SbomGraph NpmVersion JsonDocuments
begin

text \<open>
  The CycloneDX normalizer of \<^verbatim>\<open>packages/sbom/src/normalize-cyclonedx.ts\<close> with the package URL adapter of
  \<^verbatim>\<open>purl.ts\<close>. The document is a value \<^verbatim>\<open>JSON.parse\<close> returned, so an object has distinct own keys and
  reading an absent key gives \<open>None\<close> (\<^verbatim>\<open>undefined\<close>).

  The package \<^verbatim>\<open>packageurl-js\<close> and the \<^verbatim>\<open>Date\<close> constructor are the fields of a \<open>documentLibrary\<close>:
  \<open>purlFromString\<close> is \<^verbatim>\<open>PackageURL.fromString\<close> and \<open>purlToString\<close> the constructor followed by
  \<^verbatim>\<open>toString\<close>, both \<open>None\<close> where they throw. A \<^verbatim>\<open>Map\<close> is the list of its entries in insertion order
  or a partial function; a \<^verbatim>\<open>Set\<close> of strings is a list.
\<close>

subsection \<open>Reading fields\<close>

definition asString :: "json option \<Rightarrow> jstr option" where
  "asString value = (case value of Some (JString s) \<Rightarrow> Some s | _ \<Rightarrow> None)"

definition arrayLength :: "json option \<Rightarrow> nat" where
  "arrayLength value = (case value of Some (JArray xs) \<Rightarrow> length xs | _ \<Rightarrow> 0)"

subsection \<open>Failures\<close>

record parserWorkerFailure =
  pfDisposition :: safeFailureOutcome
  pfCode :: safeFailureCode

definition parserFailure :: "safeFailureCode \<Rightarrow> parserWorkerFailure" where
  "parserFailure code =
     (case parserThreadDisposition code of
        None \<Rightarrow> \<lparr>pfDisposition = outcome_quarantined, pfCode = parser_crash\<rparr>
      | Some disposition \<Rightarrow> \<lparr>pfDisposition = disposition, pfCode = code\<rparr>)"

subsection \<open>Package URLs\<close>

record packageUrl =
  puType :: jstr
  puNamespace :: "jstr option"
  puName :: jstr
  puVersion :: "jstr option"

record documentLibrary =
  purlFromString :: "jstr \<Rightarrow> packageUrl option"
  purlToString :: "packageUrl \<Rightarrow> jstr option"
  dateOf :: "jstr \<Rightarrow> int"

record normalizedPackageUrl =
  npType :: jstr
  npNamespace :: "jstr option"
  npName :: jstr
  npVersion :: "jstr option"
  npVersionless :: jstr
  npVersioned :: "jstr option"

definition optionalPurlPart :: "jstr option \<Rightarrow> jstr option" where
  "optionalPurlPart value =
     (case value of None \<Rightarrow> None | Some s \<Rightarrow> if length s = 0 then None else Some s)"

definition purlError :: appError where
  "purlError = \<lparr>errCode = err_validation, errMessage = js ''Package URL is not valid.''\<rparr>"

definition normalizePackageUrl :: "documentLibrary \<Rightarrow> jstr \<Rightarrow> appError + normalizedPackageUrl" where
  "normalizePackageUrl lib value =
     (case purlFromString lib value of
        None \<Rightarrow> Inl purlError
      | Some parsed \<Rightarrow>
          (let namespace = optionalPurlPart (puNamespace parsed);
               listedVersion = optionalPurlPart (puVersion parsed);
               base = \<lparr>puType = puType parsed, puNamespace = namespace, puName = puName parsed,
                 puVersion = None\<rparr>
           in case purlToString lib base of
                None \<Rightarrow> Inl purlError
              | Some versionless \<Rightarrow>
                  (case listedVersion of
                     None \<Rightarrow> Inr \<lparr>npType = puType parsed, npNamespace = namespace,
                       npName = puName parsed, npVersion = None, npVersionless = versionless,
                       npVersioned = None\<rparr>
                   | Some version \<Rightarrow>
                       (case purlToString lib (base\<lparr>puVersion := Some version\<rparr>) of
                          None \<Rightarrow> Inl purlError
                        | Some versioned \<Rightarrow> Inr \<lparr>npType = puType parsed, npNamespace = namespace,
                            npName = puName parsed, npVersion = Some version,
                            npVersionless = versionless, npVersioned = Some versioned\<rparr>))))"

definition versionedPackageUrl ::
  "documentLibrary \<Rightarrow> normalizedPackageUrl \<Rightarrow> jstr \<Rightarrow> appError + jstr" where
  "versionedPackageUrl lib identity version =
     (case purlToString lib \<lparr>puType = npType identity, puNamespace = npNamespace identity,
             puName = npName identity, puVersion = Some version\<rparr> of
        None \<Rightarrow> Inl purlError
      | Some text \<Rightarrow> Inr text)"

subsection \<open>Observed versions and digests\<close>

definition observedVersionOf :: "jstr option \<Rightarrow> componentVersion" where
  "observedVersionOf raw =
     (case raw of
        None \<Rightarrow> unknownComponentVersion
      | Some value \<Rightarrow>
          (case knownComponentVersion value of
             Inr known \<Rightarrow> known
           | Inl _ \<Rightarrow> unknownComponentVersion))"

definition presentVersion :: "jstr option \<Rightarrow> jstr option" where
  "presentVersion value =
     (case value of None \<Rightarrow> None | Some s \<Rightarrow> if length s = 0 then None else Some s)"

definition resolveObservedVersion ::
  "jstr option \<Rightarrow> jstr option \<Rightarrow> parserWorkerFailure + componentVersion" where
  "resolveObservedVersion listedRaw purlVersion =
     (let listed = presentVersion listedRaw; purl = presentVersion purlVersion
      in if (case (listed, purl) of (Some a, Some b) \<Rightarrow> a \<noteq> b | _ \<Rightarrow> False)
         then Inl (parserFailure component_version_conflict)
         else Inr (observedVersionOf (case listed of None \<Rightarrow> purl | Some v \<Rightarrow> Some v)))"

text \<open>\<^verbatim>\<open>/^[a-fA-F0-9]{64}$/\<close>\<close>

definition sha256Content :: "jstr \<Rightarrow> bool" where
  "sha256Content s \<longleftrightarrow> length s = 64 \<and> list_all is_hex s"

fun collectDigests :: "json list \<Rightarrow> jstr list \<Rightarrow> parserWorkerFailure + jstr list" where
  "collectDigests [] digests = Inr digests"
| "collectDigests (hash # hashes) digests =
     (case hash of
        JObject rec \<Rightarrow>
          if asString (getProp rec ''alg'') \<noteq> Some (js ''SHA-256'') then collectDigests hashes digests
          else (case asString (getProp rec ''content'') of
             None \<Rightarrow> Inl (parserFailure component_hash_conflict)
           | Some content \<Rightarrow>
               if \<not> sha256Content content then Inl (parserFailure component_hash_conflict)
               else collectDigests hashes (List.insert (map lower_unit content) digests))
      | _ \<Rightarrow> Inl (parserFailure schema_invalid))"

definition collectSha256 :: "jsonRecord \<Rightarrow> parserWorkerFailure + jstr list option" where
  "collectSha256 raw =
     (case getProp raw ''hashes'' of
        None \<Rightarrow> Inr None
      | Some (JArray hashes) \<Rightarrow>
          (case collectDigests hashes [] of
             Inl failure \<Rightarrow> Inl failure
           | Inr digests \<Rightarrow>
               if length digests = 0 then Inr None
               else if length digests > 1 then Inl (parserFailure component_hash_conflict)
               else Inr (Some digests))
      | Some _ \<Rightarrow> Inl (parserFailure schema_invalid))"

subsection \<open>Reading the document\<close>

lemma size_json_prop:
  "map_of rec key = Some (JArray xs) \<Longrightarrow> x \<in> set xs \<Longrightarrow> size x < size_list (size_prod (\<lambda>_. 0) size) rec"
proof (induction rec)
  case Nil
  then show ?case by simp
next
  case (Cons entry rec)
  have "size x \<le> size_list size xs" using Cons.prems(2) by (rule size_list_estimation') simp
  with Cons show ?case by (cases entry) (auto split: if_splits)
qed

function (sequential) visit :: "json \<Rightarrow> jsonRecord list" where
  "visit (JObject value) =
     value # (case map_of value (js ''components'') of
       Some (JArray nested) \<Rightarrow> concat (map visit nested)
     | _ \<Rightarrow> [])"
| "visit _ = []"
  by pat_completeness auto
termination
  by (relation "measure size") (auto dest: size_json_prop)

definition collectComponents :: "jsonRecord \<Rightarrow> jsonRecord list" where
  "collectComponents document =
     (case getProp document ''metadata'' of
        Some (JObject metadata) \<Rightarrow>
          (case getProp metadata ''component'' of Some value \<Rightarrow> visit value | None \<Rightarrow> [])
      | _ \<Rightarrow> []) @
     (case getProp document ''components'' of
        Some (JArray components) \<Rightarrow> concat (map visit components)
      | _ \<Rightarrow> [])"

definition countMetadataTools :: "jsonRecord \<Rightarrow> nat" where
  "countMetadataTools document =
     (case getProp document ''metadata'' of
        Some (JObject metadata) \<Rightarrow>
          (case getProp metadata ''tools'' of
             Some (JArray tools) \<Rightarrow> length tools
           | Some (JObject tools) \<Rightarrow>
               arrayLength (getProp tools ''components'') + arrayLength (getProp tools ''services'')
           | _ \<Rightarrow> 0)
      | _ \<Rightarrow> 0)"

text \<open>\<^verbatim>\<open>/^\d{4}-\d{2}-\d{2}T\d{2}:\d{2}:\d{2}(?:\.\d+)?Z$/\<close>, the fixed part as a template with 0 for a digit.\<close>

definition utcTimestamp :: "jstr \<Rightarrow> bool" where
  "utcTimestamp s \<longleftrightarrow>
     list_all2 (\<lambda>t c. if t = 48 then is_digit c else t = c) (js ''0000-00-00T00:00:00'') (take 19 s) \<and>
     (drop 19 s = js ''Z'' \<or>
      (length s > 21 \<and> s ! 19 = 46 \<and> last s = 90 \<and> list_all is_digit (butlast (drop 20 s))))"

definition capturedAtFromMetadata :: "jsonRecord \<Rightarrow> jstr option" where
  "capturedAtFromMetadata document =
     (case getProp document ''metadata'' of
        Some (JObject metadata) \<Rightarrow>
          (case asString (getProp metadata ''timestamp'') of
             Some timestamp \<Rightarrow> if utcTimestamp timestamp then Some timestamp else None
           | None \<Rightarrow> None)
      | _ \<Rightarrow> None)"

definition metadataComponentBomRef :: "jsonRecord \<Rightarrow> jstr option" where
  "metadataComponentBomRef document =
     (case getProp document ''metadata'' of
        Some (JObject metadata) \<Rightarrow>
          (case getProp metadata ''component'' of
             Some (JObject component) \<Rightarrow> asString (getProp component ''bom-ref'')
           | _ \<Rightarrow> None)
      | _ \<Rightarrow> None)"

subsection \<open>One component\<close>

record sbomParserLimits =
  maxBytes :: nat
  jsonMaxDepth :: nat
  jsonMaxNodes :: nat
  jsonMaxStringBytes :: nat
  maxComponents :: nat
  maxDependencyEdges :: nat
  maxBomRefBytes :: nat
  maxPurlBytes :: nat
  maxComponentNameChars :: nat
  maxVersionChars :: nat
  maxMetadataTools :: nat
  maxExternalRefsPerComponent :: nat
  maxPropertiesPerComponent :: nat

record preparedComponent =
  pcComponent :: normalizedComponent
  pcSha256Hex :: "jstr list option"

definition nonEmptyText :: "jstr option \<Rightarrow> jstr option" where
  "nonEmptyText value =
     (case value of None \<Rightarrow> None | Some s \<Rightarrow> if length s = 0 then None else Some s)"

fun versionTooLong :: "sbomParserLimits \<Rightarrow> componentVersion \<Rightarrow> bool" where
  "versionTooLong limits (KnownVersion value) = (length value > maxVersionChars limits)"
| "versionTooLong limits (UnknownVersion _) = False"

text \<open>The versioned package URL of a component: the listed one, or the versionless one with the version.\<close>

definition versionedPurlOf ::
  "documentLibrary \<Rightarrow> normalizedPackageUrl \<Rightarrow> componentVersion \<Rightarrow> parserWorkerFailure + jstr option" where
  "versionedPurlOf lib normalized version =
     (case version of
        UnknownVersion _ \<Rightarrow> Inr None
      | KnownVersion value \<Rightarrow>
          (case npVersioned normalized of
             Some text \<Rightarrow> Inr (Some text)
           | None \<Rightarrow>
               (case versionedPackageUrl lib normalized value of
                  Inl _ \<Rightarrow> Inl (parserFailure invalid_purl)
                | Inr text \<Rightarrow> Inr (Some text))))"

definition finishPrepared :: "normalizedComponent \<Rightarrow> jstr list option \<Rightarrow> preparedComponent" where
  "finishPrepared component sha256Hex = \<lparr>pcComponent = component, pcSha256Hex = sha256Hex\<rparr>"

definition purlComponent ::
  "documentLibrary \<Rightarrow> sbomParserLimits \<Rightarrow> jstr \<Rightarrow> jstr option \<Rightarrow> jstr option \<Rightarrow> jstr list option \<Rightarrow> jstr \<Rightarrow>
   parserWorkerFailure + preparedComponent" where
  "purlComponent lib limits name bomRef listedVersion sha256Hex purlRaw =
     (if utf8ByteLength purlRaw > maxPurlBytes limits then Inl (parserFailure identifier_length)
      else (case normalizePackageUrl lib purlRaw of
        Inl _ \<Rightarrow> Inl (parserFailure invalid_purl)
      | Inr normalized \<Rightarrow>
          if utf8ByteLength (npVersionless normalized) > maxPurlBytes limits
          then Inl (parserFailure identifier_length)
          else (case resolveObservedVersion listedVersion (npVersion normalized) of
            Inl failure \<Rightarrow> Inl failure
          | Inr version \<Rightarrow>
              if versionTooLong limits version then Inl (parserFailure identifier_length)
              else (case versionedPurlOf lib normalized version of
                Inl failure \<Rightarrow> Inl failure
              | Inr versionedPurl \<Rightarrow>
                  if (case versionedPurl of None \<Rightarrow> False
                      | Some text \<Rightarrow> utf8ByteLength text > maxPurlBytes limits)
                  then Inl (parserFailure identifier_length)
                  else (case buildComponentIdentityKey
                      \<lparr>ciIdentityState = resolved, ciVersionlessPurl = Some (npVersionless normalized),
                       ciEcosystem = Some (npType normalized), ciNamespace = npNamespace normalized,
                       ciName = name, ciBomRef = bomRef\<rparr> of
                    Inl _ \<Rightarrow> Inl (parserFailure identifier_length)
                  | Inr identityKey \<Rightarrow>
                      Inr (finishPrepared
                        \<lparr>ncBomRef = bomRef, ncName = name, ncNamespace = npNamespace normalized,
                         ncEcosystem = Some (npType normalized), ncIdentityState = resolved,
                         ncVersionlessPurl = Some (npVersionless normalized),
                         ncVersionedPurl = versionedPurl, ncVersion = version, ncIsDirect = None,
                         ncIdentityKey = identityKey\<rparr> sha256Hex))))))"

definition plainComponent ::
  "sbomParserLimits \<Rightarrow> jstr \<Rightarrow> jstr option \<Rightarrow> jstr option \<Rightarrow> jstr option \<Rightarrow> jstr list option \<Rightarrow>
   parserWorkerFailure + preparedComponent" where
  "plainComponent limits name bomRef listedVersion groupText sha256Hex =
     (case resolveObservedVersion listedVersion None of
        Inl failure \<Rightarrow> Inl failure
      | Inr version \<Rightarrow>
          if versionTooLong limits version then Inl (parserFailure identifier_length)
          else (case buildComponentIdentityKey
              \<lparr>ciIdentityState = unsupported, ciVersionlessPurl = None, ciEcosystem = None,
               ciNamespace = nonEmptyText groupText, ciName = name, ciBomRef = bomRef\<rparr> of
            Inl _ \<Rightarrow> Inl (parserFailure identifier_length)
          | Inr identityKey \<Rightarrow>
              Inr (finishPrepared
                \<lparr>ncBomRef = bomRef, ncName = name, ncNamespace = nonEmptyText groupText,
                 ncEcosystem = None, ncIdentityState = unsupported, ncVersionlessPurl = None,
                 ncVersionedPurl = None, ncVersion = version, ncIsDirect = None,
                 ncIdentityKey = identityKey\<rparr> sha256Hex)))"

definition normalizeOneComponent ::
  "documentLibrary \<Rightarrow> sbomParserLimits \<Rightarrow> jsonRecord \<Rightarrow> parserWorkerFailure + preparedComponent" where
  "normalizeOneComponent lib limits raw =
     (case nonEmptyText (asString (getProp raw ''name'')) of
        None \<Rightarrow> Inl (parserFailure schema_invalid)
      | Some name \<Rightarrow>
          if length name > maxComponentNameChars limits then Inl (parserFailure identifier_length)
          else if arrayLength (getProp raw ''externalReferences'') > maxExternalRefsPerComponent limits
          then Inl (parserFailure reference_limit)
          else if arrayLength (getProp raw ''properties'') > maxPropertiesPerComponent limits
          then Inl (parserFailure property_limit)
          else
            (let bomRef = nonEmptyText (asString (getProp raw ''bom-ref''))
             in if (case bomRef of None \<Rightarrow> False
                    | Some text \<Rightarrow> utf8ByteLength text > maxBomRefBytes limits)
                then Inl (parserFailure identifier_length)
                else case collectSha256 raw of
                  Inl failure \<Rightarrow> Inl failure
                | Inr sha256Hex \<Rightarrow>
                    (let listedVersion = asString (getProp raw ''version'');
                         groupText = asString (getProp raw ''group'')
                     in case nonEmptyText (asString (getProp raw ''purl'')) of
                          Some purlRaw \<Rightarrow>
                            purlComponent lib limits name bomRef listedVersion sha256Hex purlRaw
                        | None \<Rightarrow> plainComponent limits name bomRef listedVersion groupText sha256Hex)))"

fun prepareComponents ::
  "documentLibrary \<Rightarrow> sbomParserLimits \<Rightarrow> jsonRecord list \<Rightarrow> jstr list \<Rightarrow>
   parserWorkerFailure + preparedComponent list" where
  "prepareComponents lib limits [] seenBomRefs = Inr []"
| "prepareComponents lib limits (raw # raws) seenBomRefs =
     (case normalizeOneComponent lib limits raw of
        Inl failure \<Rightarrow> Inl failure
      | Inr prepared \<Rightarrow>
          (case ncBomRef (pcComponent prepared) of
             None \<Rightarrow> map_sum id ((#) prepared) (prepareComponents lib limits raws seenBomRefs)
           | Some bomRef \<Rightarrow>
               if bomRef \<in> set seenBomRefs then Inl (parserFailure duplicate_bom_ref)
               else map_sum id ((#) prepared)
                 (prepareComponents lib limits raws (bomRef # seenBomRefs))))"

subsection \<open>Collapsing repeated occurrences\<close>

record collapsedOccurrence =
  coComponent :: normalizedComponent
  coSha256Hex :: "jstr list option"
  coNames :: "jstr list"
  coBomRefs :: "jstr list"

text \<open>UTF-16 code-unit order.\<close>

fun earliestFrom :: "jstr option \<Rightarrow> jstr list \<Rightarrow> jstr option" where
  "earliestFrom selected [] = selected"
| "earliestFrom selected (value # values) =
     earliestFrom (case selected of
       None \<Rightarrow> Some value
     | Some s \<Rightarrow> if js_less value s then Some value else Some s) values"

definition earliestText :: "jstr list \<Rightarrow> jstr option" where
  "earliestText values = earliestFrom None values"

definition bomRefList :: "normalizedComponent \<Rightarrow> jstr list" where
  "bomRefList component = (case ncBomRef component of None \<Rightarrow> [] | Some bomRef \<Rightarrow> [bomRef])"

definition newOccurrence :: "preparedComponent \<Rightarrow> collapsedOccurrence" where
  "newOccurrence candidate =
     \<lparr>coComponent = pcComponent candidate, coSha256Hex = pcSha256Hex candidate,
      coNames = [ncName (pcComponent candidate)], coBomRefs = bomRefList (pcComponent candidate)\<rparr>"

definition aliasFacts :: "normalizedComponent \<Rightarrow> jstr list option \<Rightarrow> occurrenceAliasFacts" where
  "aliasFacts component sha256Hex =
     \<lparr>oaVersion = ncVersion component, oaVersionedPurl = ncVersionedPurl component,
      oaSha256Hex = sha256Hex\<rparr>"

definition absorb :: "collapsedOccurrence \<Rightarrow> preparedComponent \<Rightarrow> collapsedOccurrence" where
  "absorb existing candidate =
     existing\<lparr>coSha256Hex := (case coSha256Hex existing of
         None \<Rightarrow> pcSha256Hex candidate | Some digests \<Rightarrow> Some digests),
       coComponent := (coComponent existing)\<lparr>ncVersionedPurl :=
         (case ncVersionedPurl (coComponent existing) of
            None \<Rightarrow> ncVersionedPurl (pcComponent candidate) | Some text \<Rightarrow> Some text)\<rparr>,
       coNames := coNames existing @ [ncName (pcComponent candidate)],
       coBomRefs := coBomRefs existing @ bomRefList (pcComponent candidate)\<rparr>"

text \<open>
  The map \<^verbatim>\<open>byOccurrence\<close> and the list \<^verbatim>\<open>kept\<close> hold the same objects in the same order, so one list of
  entries stands for both.
\<close>

fun updateEntry :: "jstr \<Rightarrow> 'a \<Rightarrow> (jstr \<times> 'a) list \<Rightarrow> (jstr \<times> 'a) list" where
  "updateEntry key value [] = []"
| "updateEntry key value ((k, v) # entries) =
     (if k = key then (k, value) # entries else (k, v) # updateEntry key value entries)"

fun collapseEntries ::
  "preparedComponent list \<Rightarrow> (jstr \<times> collapsedOccurrence) list \<Rightarrow> nat \<Rightarrow>
   parserWorkerFailure + ((jstr \<times> collapsedOccurrence) list \<times> nat)" where
  "collapseEntries [] kept duplicateCount = Inr (kept, duplicateCount)"
| "collapseEntries (candidate # prepared) kept duplicateCount =
     (let key = componentOccurrenceNormalizationKey (pcComponent candidate)
      in case map_of kept key of
           None \<Rightarrow> collapseEntries prepared (kept @ [(key, newOccurrence candidate)]) duplicateCount
         | Some existing \<Rightarrow>
             (case occurrenceAliasConflict
                 (aliasFacts (coComponent existing) (coSha256Hex existing))
                 (aliasFacts (pcComponent candidate) (pcSha256Hex candidate)) of
                Some conflict_sha256 \<Rightarrow> Inl (parserFailure component_hash_conflict)
              | Some _ \<Rightarrow> Inl (parserFailure component_version_conflict)
              | None \<Rightarrow>
                  collapseEntries prepared (updateEntry key (absorb existing candidate) kept)
                    (duplicateCount + 1)))"

definition finishOccurrence :: "collapsedOccurrence \<Rightarrow> normalizedComponent" where
  "finishOccurrence entry =
     (coComponent entry)\<lparr>ncName := (case earliestText (coNames entry) of
         None \<Rightarrow> ncName (coComponent entry) | Some name \<Rightarrow> name),
       ncBomRef := earliestText (coBomRefs entry)\<rparr>"

definition occurrenceAliases :: "collapsedOccurrence \<Rightarrow> (jstr \<times> jstr) list" where
  "occurrenceAliases entry =
     (case earliestText (coBomRefs entry) of
        None \<Rightarrow> []
      | Some canonical \<Rightarrow> map (\<lambda>bomRef. (bomRef, canonical)) (coBomRefs entry))"

record collapsedDocument =
  cdComponents :: "normalizedComponent list"
  cdBomRefAlias :: "(jstr \<times> jstr) list"
  cdDuplicateCount :: nat

definition collapseOccurrences :: "preparedComponent list \<Rightarrow> parserWorkerFailure + collapsedDocument" where
  "collapseOccurrences prepared =
     (case collapseEntries prepared [] 0 of
        Inl failure \<Rightarrow> Inl failure
      | Inr (kept, duplicateCount) \<Rightarrow>
          Inr \<lparr>cdComponents = map (finishOccurrence \<circ> snd) kept,
               cdBomRefAlias = concat (map (occurrenceAliases \<circ> snd) kept),
               cdDuplicateCount = duplicateCount\<rparr>)"

text \<open>The last entry set for a key wins.\<close>

definition resolveAlias :: "(jstr \<times> jstr) list \<Rightarrow> jstr \<Rightarrow> jstr" where
  "resolveAlias alias bomRef =
     (case map_of (rev alias) bomRef of None \<Rightarrow> bomRef | Some canonical \<Rightarrow> canonical)"

subsection \<open>Dependencies, directness and the result\<close>

fun collectTargets :: "jstr \<Rightarrow> json list \<Rightarrow> parserWorkerFailure + (jstr \<times> jstr) list" where
  "collectTargets source [] = Inr []"
| "collectTargets source (target # targets) =
     (case nonEmptyText (asString (Some target)) of
        None \<Rightarrow> Inl (parserFailure unresolved_dependency_ref)
      | Some to \<Rightarrow> map_sum id ((#) (source, to)) (collectTargets source targets))"

fun collectListedEdges ::
  "(jstr \<Rightarrow> bool) \<Rightarrow> json list \<Rightarrow> parserWorkerFailure + (jstr \<times> jstr) list" where
  "collectListedEdges resolves [] = Inr []"
| "collectListedEdges resolves (entry # entries) =
     (case entry of
        JObject rec \<Rightarrow>
          (case nonEmptyText (asString (getProp rec ''ref'')) of
             None \<Rightarrow> Inl (parserFailure unresolved_dependency_ref)
           | Some source \<Rightarrow>
               if \<not> resolves source then Inl (parserFailure unresolved_dependency_ref)
               else (case getProp rec ''dependsOn'' of
                 None \<Rightarrow> collectListedEdges resolves entries
               | Some (JArray targets) \<Rightarrow>
                   (case collectTargets source targets of
                      Inl failure \<Rightarrow> Inl failure
                    | Inr listed \<Rightarrow>
                        map_sum id ((@) listed) (collectListedEdges resolves entries))
               | Some _ \<Rightarrow> Inl (parserFailure schema_invalid)))
      | _ \<Rightarrow> Inl (parserFailure schema_invalid))"

definition listedEdgesOf ::
  "jsonRecord \<Rightarrow> (jstr \<Rightarrow> bool) \<Rightarrow> parserWorkerFailure + (jstr \<times> jstr) list" where
  "listedEdgesOf document resolves =
     (case getProp document ''dependencies'' of
        None \<Rightarrow> Inr []
      | Some (JArray entries) \<Rightarrow> collectListedEdges resolves entries
      | Some _ \<Rightarrow> Inl (parserFailure schema_invalid))"

type_synonym warningMap = "parseWarningCode \<rightharpoonup> nat"

definition incrementWarning :: "warningMap \<Rightarrow> parseWarningCode \<Rightarrow> nat \<Rightarrow> warningMap" where
  "incrementWarning warnings code amount =
     warnings(code \<mapsto> (case warnings code of None \<Rightarrow> 0 | Some n \<Rightarrow> n) + amount)"

definition warningSummary :: "warningMap \<Rightarrow> parseWarningCode \<Rightarrow> countOnlyWarningSummary list" where
  "warningSummary warnings code =
     (case warnings code of
        None \<Rightarrow> []
      | Some n \<Rightarrow> if n > 0 then [\<lparr>wCode = code, wCount = int n\<rparr>] else [])"

definition warningSummaries :: "warningMap \<Rightarrow> countOnlyWarningSummary list" where
  "warningSummaries warnings =
     warningSummary warnings self_dependency_skipped @
     warningSummary warnings duplicate_identity_collapsed"

record edgeState =
  esEdges :: "normalizedDependencyEdge list"
  esSeenEdges :: "jstr list"
  esSkipped :: nat
  esWarnings :: warningMap

definition edgeKey :: "jstr \<Rightarrow> jstr \<Rightarrow> jstr" where
  "edgeKey fromBomRef toBomRef = fromBomRef @ 0 # toBomRef"

definition resolveEdge ::
  "(jstr \<times> jstr) list \<Rightarrow> jstr list \<Rightarrow> jstr \<times> jstr \<Rightarrow> edgeState \<Rightarrow> parserWorkerFailure + edgeState" where
  "resolveEdge alias knownBomRefs listed state =
     (let fromBomRef = resolveAlias alias (fst listed); toBomRef = resolveAlias alias (snd listed)
      in if fromBomRef \<notin> set knownBomRefs \<or> toBomRef \<notin> set knownBomRefs
         then Inl (parserFailure unresolved_dependency_ref)
         else if fromBomRef = toBomRef
         then Inr (state\<lparr>esSkipped := esSkipped state + 1,
           esWarnings := incrementWarning (esWarnings state) self_dependency_skipped 1\<rparr>)
         else if edgeKey fromBomRef toBomRef \<in> set (esSeenEdges state) then Inr state
         else Inr (state\<lparr>esSeenEdges := edgeKey fromBomRef toBomRef # esSeenEdges state,
           esEdges := esEdges state @
             [\<lparr>edFromBomRef = fromBomRef, edToBomRef = toBomRef,
               edRelationshipType = js ''depends_on''\<rparr>]\<rparr>))"

fun resolveEdges ::
  "(jstr \<times> jstr) list \<Rightarrow> jstr list \<Rightarrow> (jstr \<times> jstr) list \<Rightarrow> edgeState \<Rightarrow>
   parserWorkerFailure + edgeState" where
  "resolveEdges alias knownBomRefs [] state = Inr state"
| "resolveEdges alias knownBomRefs (listed # rest) state =
     (case resolveEdge alias knownBomRefs listed state of
        Inl failure \<Rightarrow> Inl failure
      | Inr state' \<Rightarrow> resolveEdges alias knownBomRefs rest state')"

definition directBomRefsOf :: "jstr option \<Rightarrow> normalizedDependencyEdge list \<Rightarrow> jstr list" where
  "directBomRefsOf aliasedRoot edges =
     (case aliasedRoot of
        None \<Rightarrow> []
      | Some root \<Rightarrow> root # map edToBomRef (filter (\<lambda>edge. edFromBomRef edge = root) edges))"

definition applyDirectness ::
  "jstr list \<Rightarrow> bool \<Rightarrow> normalizedComponent list \<Rightarrow> normalizedComponent list" where
  "applyDirectness directBomRefs hasDependencyGraph components =
     (if \<not> hasDependencyGraph then components
      else map (\<lambda>component.
        case ncBomRef component of
          None \<Rightarrow> component
        | Some bomRef \<Rightarrow> component\<lparr>ncIsDirect := Some (bomRef \<in> set directBomRefs)\<rparr>) components)"

definition CURRENT_SBOM_NORMALIZATION_VERSION :: jstr where
  [catalog_defs]: "CURRENT_SBOM_NORMALIZATION_VERSION = js ''2''"

record parserWorkerSuccess =
  psSpecificationVersion :: jstr
  psGraphCompleteness :: graphCompleteness
  psComponents :: "normalizedComponent list"
  psEdges :: "normalizedDependencyEdge list"
  psWarnings :: "countOnlyWarningSummary list"
  psComponentCount :: nat
  psDependencyEdgeCount :: nat
  psWarningCount :: int
  psCapturedAt :: "jstr option"
  psParserVersion :: jstr
  psNormalizationVersion :: jstr

definition graphOfSuccess :: "documentLibrary \<Rightarrow> parserWorkerSuccess \<Rightarrow> normalizedComponentGraph" where
  "graphOfSuccess lib success =
     \<lparr>ngSpecificationVersion = psSpecificationVersion success,
      ngGraphCompleteness = psGraphCompleteness success, ngComponents = psComponents success,
      ngEdges = psEdges success, ngWarnings = psWarnings success,
      ngComponentCount = int (psComponentCount success),
      ngDependencyEdgeCount = int (psDependencyEdgeCount success),
      ngWarningCount = psWarningCount success,
      ngCapturedAt = map_option (dateOf lib) (psCapturedAt success),
      ngParserVersion = psParserVersion success,
      ngNormalizationVersion = psNormalizationVersion success\<rparr>"

text \<open>The last part of the normalizer: directness, completeness, the result and its validation.\<close>

definition finishDocument ::
  "documentLibrary \<Rightarrow> jsonRecord \<Rightarrow> collapsedDocument \<Rightarrow> bool \<Rightarrow> edgeState \<Rightarrow> jstr \<Rightarrow> jstr \<Rightarrow> jstr \<Rightarrow>
   parserWorkerFailure + parserWorkerSuccess" where
  "finishDocument lib document collapsed hasDependencyGraph state parserVersion normalizationVersion
     specificationVersion =
     (let aliasedRoot = map_option (resolveAlias (cdBomRefAlias collapsed)) (metadataComponentBomRef document);
          components = applyDirectness (directBomRefsOf aliasedRoot (esEdges state)) hasDependencyGraph
            (cdComponents collapsed)
      in case deriveGraphCompleteness
             \<lparr>gcComponentCount = Integral (int (length components)),
              gcDependencyEdgeCount = Integral (int (length (esEdges state))),
              gcSkippedListedEdgeCount = Integral (int (esSkipped state))\<rparr> of
           Inl _ \<Rightarrow> Inl (parserFailure schema_invalid)
         | Inr completeness \<Rightarrow>
             (let summaries = warningSummaries (esWarnings state);
                  success = \<lparr>psSpecificationVersion = specificationVersion,
                    psGraphCompleteness = completeness, psComponents = components,
                    psEdges = esEdges state, psWarnings = summaries,
                    psComponentCount = length components,
                    psDependencyEdgeCount = length (esEdges state),
                    psWarningCount = foldl (\<lambda>total warning. total + wCount warning) 0 summaries,
                    psCapturedAt = capturedAtFromMetadata document, psParserVersion = parserVersion,
                    psNormalizationVersion = normalizationVersion\<rparr>
              in case validateNormalizedComponentGraph (graphOfSuccess lib success) of
                   Inl _ \<Rightarrow> Inl (parserFailure schema_invalid)
                 | Inr _ \<Rightarrow> Inr success))"

definition knownBomRefsOf :: "collapsedDocument \<Rightarrow> jstr list" where
  "knownBomRefsOf collapsed = bomRefsOf (cdComponents collapsed)"

definition initialEdgeState :: "collapsedDocument \<Rightarrow> edgeState" where
  "initialEdgeState collapsed =
     \<lparr>esEdges = [], esSeenEdges = [], esSkipped = 0,
      esWarnings = (if cdDuplicateCount collapsed > 0
        then incrementWarning (\<lambda>_. None) duplicate_identity_collapsed (cdDuplicateCount collapsed)
        else (\<lambda>_. None))\<rparr>"

definition normalizeCycloneDxDocument ::
  "documentLibrary \<Rightarrow> json \<Rightarrow> sbomParserLimits \<Rightarrow> jstr \<Rightarrow> jstr \<Rightarrow> jstr \<Rightarrow>
   parserWorkerFailure + parserWorkerSuccess" where
  "normalizeCycloneDxDocument lib value limits parserVersion normalizationVersion specificationVersion =
     (if normalizationVersion \<noteq> CURRENT_SBOM_NORMALIZATION_VERSION
      then Inl (parserFailure unsupported_normalization_version)
      else (case value of
        JObject document \<Rightarrow>
          if countMetadataTools document > maxMetadataTools limits then Inl (parserFailure tool_limit)
          else
            (let rawComponents = collectComponents document
             in if length rawComponents > maxComponents limits
                then Inl (parserFailure component_limit)
                else (case prepareComponents lib limits rawComponents [] of
                  Inl failure \<Rightarrow> Inl failure
                | Inr prepared \<Rightarrow>
                    (case collapseOccurrences prepared of
                       Inl failure \<Rightarrow> Inl failure
                     | Inr collapsed \<Rightarrow>
                         (let alias = cdBomRefAlias collapsed; knownBomRefs = knownBomRefsOf collapsed
                          in case listedEdgesOf document
                                 (\<lambda>source. resolveAlias alias source \<in> set knownBomRefs) of
                               Inl failure \<Rightarrow> Inl failure
                             | Inr listedEdges \<Rightarrow>
                                 if length listedEdges > maxDependencyEdges limits
                                 then Inl (parserFailure edge_limit)
                                 else (case resolveEdges alias knownBomRefs listedEdges
                                     (initialEdgeState collapsed) of
                                   Inl failure \<Rightarrow> Inl failure
                                 | Inr state \<Rightarrow>
                                     if length (esEdges state) > maxDependencyEdges limits
                                     then Inl (parserFailure edge_limit)
                                     else finishDocument lib document collapsed
                                       (length listedEdges > 0) state parserVersion
                                       normalizationVersion specificationVersion)))))
      | _ \<Rightarrow> Inl (parserFailure not_cyclonedx)))"

end
