(* ===== verification/SbomCollapse.thy ===== *)
theory SbomCollapse
  imports SbomNormalize
begin

text \<open>
  What the first half of the CycloneDX normalizer guarantees: every prepared component is valid, and
  collapsing groups the prepared components by component and observed version without losing or
  inventing one.
\<close>

subsection \<open>Earliest text\<close>

lemma earliestFrom_Some:
  "\<exists>m. earliestFrom (Some s) xs = Some m \<and> m \<in> insert s (set xs) \<and>
     (\<forall>x \<in> insert s (set xs). \<not> js_less x m)"
proof (induction xs arbitrary: s)
  case Nil
  have "\<not> js_less s s" by (simp add: js_less_def jstr_order.cmp_refl)
  then show ?case by simp
next
  case (Cons x xs)
  define t where "t = (if js_less x s then x else s)"
  from Cons [of t] obtain m where m: "earliestFrom (Some t) xs = Some m" "m \<in> insert t (set xs)"
    "\<forall>y \<in> insert t (set xs). \<not> js_less y m" by blast
  have "\<not> js_less x m \<and> \<not> js_less s m"
  proof (cases "js_less x s")
    case True
    then have "\<not> js_less x m" using m(3) by (simp add: t_def)
    moreover have "\<not> js_less s m" using js_less_trans [OF True] calculation by blast
    ultimately show ?thesis by simp
  next
    case False
    then have s: "\<not> js_less s m" using m(3) by (simp add: t_def)
    have "\<not> js_less x m"
    proof
      assume "js_less x m"
      then have "js_less s m"
        using False s js_less_flip [of s x] js_less_trans [of s x m] by (cases "x = s") auto
      with s show False by simp
    qed
    with s show ?thesis by simp
  qed
  with m show ?case
    by (intro exI [of _ m]) (auto simp: t_def split: if_splits)
qed

lemma earliestText_Nil [simp]: "earliestText [] = None"
  by (simp add: earliestText_def)

lemma earliestText_spec:
  assumes "xs \<noteq> []"
  shows "\<exists>m. earliestText xs = Some m \<and> m \<in> set xs \<and> (\<forall>x \<in> set xs. \<not> js_less x m)"
  using assms earliestFrom_Some by (cases xs) (simp_all add: earliestText_def)

lemma earliestText_None_iff: "earliestText xs = None \<longleftrightarrow> xs = []"
  using earliestText_spec [of xs] by (cases xs) auto

lemma earliestText_in: "earliestText xs = Some m \<Longrightarrow> m \<in> set xs"
  using earliestText_spec [of xs] by (cases xs) auto

lemma earliestText_constant: "xs \<noteq> [] \<Longrightarrow> (\<forall>x \<in> set xs. x = a) \<Longrightarrow> earliestText xs = Some a"
  using earliestText_spec [of xs] by auto

lemma earliestText_set:
  assumes "set xs = set ys"
  shows "earliestText xs = earliestText ys"
proof (cases "xs = []")
  case True
  with assms show ?thesis by simp
next
  case False
  then have "ys \<noteq> []" using assms by auto
  with False obtain m n where m: "earliestText xs = Some m" "m \<in> set xs" "\<forall>x \<in> set xs. \<not> js_less x m"
    and n: "earliestText ys = Some n" "n \<in> set ys" "\<forall>y \<in> set ys. \<not> js_less y n"
    using earliestText_spec [of xs] earliestText_spec [of ys] by blast
  with assms have "\<not> js_less m n" "\<not> js_less n m" by auto
  then have "m = n" using js_less_flip [of m n] by blast
  with m n show ?thesis by simp
qed

subsection \<open>Prepared components\<close>

text \<open>What the normalizer relies on in the package URL library: a printed package URL is not empty.\<close>

definition library_ok :: "documentLibrary \<Rightarrow> bool" where
  "library_ok lib \<longleftrightarrow> (\<forall>p text. purlToString lib p = Some text \<longrightarrow> text \<noteq> [])"

definition identified :: "normalizedComponent \<Rightarrow> bool" where
  "identified c \<longleftrightarrow>
     presentText (ncVersionlessPurl c) \<noteq> None \<or> (ncVersionlessPurl c = None \<and> ncEcosystem c = None)"

definition prepared_ok :: "preparedComponent \<Rightarrow> bool" where
  "prepared_ok p \<longleftrightarrow> component_ok (pcComponent p) \<and> ncBomRef (pcComponent p) \<noteq> Some [] \<and>
     identified (pcComponent p)"

lemma observedVersionOf_ok: "version_ok (observedVersionOf v)"
  by (auto simp: observedVersionOf_def unknownComponentVersion_def knownComponentVersion_iff
      split: option.splits sum.splits)

lemma resolveObservedVersion_ok: "resolveObservedVersion a b = Inr v \<Longrightarrow> version_ok v"
  by (auto simp: resolveObservedVersion_def Let_def observedVersionOf_ok split: if_splits)

lemma nonEmptyText_iff: "nonEmptyText v = Some s \<longleftrightarrow> v = Some s \<and> s \<noteq> []"
  by (auto simp: nonEmptyText_def split: option.splits)

lemma normalizePackageUrl_nonempty:
  "library_ok lib \<Longrightarrow> normalizePackageUrl lib text = Inr n \<Longrightarrow> npVersionless n \<noteq> []"
  by (auto simp: normalizePackageUrl_def Let_def library_ok_def split: option.splits)

lemma purlComponent_ok:
  assumes "purlComponent lib limits name ref listed sha purl = Inr p" "library_ok lib" "ref \<noteq> Some []"
  shows "prepared_ok p \<and> ncBomRef (pcComponent p) = ref"
proof -
  from assms(1) obtain n v vp key where n: "normalizePackageUrl lib purl = Inr n"
    and v: "resolveObservedVersion listed (npVersion n) = Inr v"
    and key: "buildComponentIdentityKey
      \<lparr>ciIdentityState = resolved, ciVersionlessPurl = Some (npVersionless n),
       ciEcosystem = Some (npType n), ciNamespace = npNamespace n, ciName = name, ciBomRef = ref\<rparr> = Inr key"
    and p: "p = finishPrepared \<lparr>ncBomRef = ref, ncName = name, ncNamespace = npNamespace n,
       ncEcosystem = Some (npType n), ncIdentityState = resolved,
       ncVersionlessPurl = Some (npVersionless n), ncVersionedPurl = vp, ncVersion = v,
       ncIsDirect = None, ncIdentityKey = key\<rparr> sha"
    by (auto simp: purlComponent_def split: if_splits sum.splits)
  have "npVersionless n \<noteq> []" using normalizePackageUrl_nonempty [OF assms(2) n] .
  with v key assms(3) show ?thesis
    by (auto simp: p finishPrepared_def prepared_ok_def identified_def component_ok_def
        presentText_def identityInputOf_def buildComponentIdentityKey_iff
        dest: resolveObservedVersion_ok)
qed

lemma plainComponent_ok:
  assumes "plainComponent limits name ref listed ns sha = Inr p" "ref \<noteq> Some []"
  shows "prepared_ok p \<and> ncBomRef (pcComponent p) = ref"
proof -
  from assms(1) obtain v key where v: "resolveObservedVersion listed None = Inr v"
    and key: "buildComponentIdentityKey
      \<lparr>ciIdentityState = unsupported, ciVersionlessPurl = None, ciEcosystem = None,
       ciNamespace = nonEmptyText ns, ciName = name, ciBomRef = ref\<rparr> = Inr key"
    and p: "p = finishPrepared \<lparr>ncBomRef = ref, ncName = name, ncNamespace = nonEmptyText ns,
       ncEcosystem = None, ncIdentityState = unsupported, ncVersionlessPurl = None,
       ncVersionedPurl = None, ncVersion = v, ncIsDirect = None, ncIdentityKey = key\<rparr> sha"
    by (auto simp: plainComponent_def split: if_splits sum.splits)
  with assms(2) show ?thesis
    by (auto simp: p finishPrepared_def prepared_ok_def identified_def component_ok_def
        identityInputOf_def buildComponentIdentityKey_iff dest: resolveObservedVersion_ok)
qed

lemma normalizeOneComponent_ok:
  assumes "normalizeOneComponent lib limits raw = Inr p" "library_ok lib"
  shows "prepared_ok p \<and> ncBomRef (pcComponent p) = nonEmptyText (asString (getProp raw ''bom-ref''))"
proof -
  let ?ref = "nonEmptyText (asString (getProp raw ''bom-ref''))"
  have "(\<exists>name listed sha purl. purlComponent lib limits name ?ref listed sha purl = Inr p) \<or>
    (\<exists>name listed ns sha. plainComponent limits name ?ref listed ns sha = Inr p)"
    using assms(1)
    by (auto simp: normalizeOneComponent_def Let_def split: if_splits sum.splits option.splits)
  moreover have "?ref \<noteq> Some []" by (simp add: nonEmptyText_iff)
  ultimately show ?thesis using purlComponent_ok [OF _ assms(2)] plainComponent_ok by blast
qed

definition preparedBomRefs :: "preparedComponent list \<Rightarrow> jstr list" where
  "preparedBomRefs ps = concat (map (bomRefList \<circ> pcComponent) ps)"

lemma preparedBomRefs_simps [simp]:
  "preparedBomRefs [] = []"
  "preparedBomRefs (p # ps) = bomRefList (pcComponent p) @ preparedBomRefs ps"
  by (simp_all add: preparedBomRefs_def)

lemma prepareComponents_ok:
  assumes "prepareComponents lib limits raws seen = Inr ps" "library_ok lib"
  shows "length ps = length raws \<and> list_all prepared_ok ps \<and> distinct (preparedBomRefs ps) \<and>
    set (preparedBomRefs ps) \<inter> set seen = {} \<and>
    list_all2 (\<lambda>raw p. ncBomRef (pcComponent p) = nonEmptyText (asString (getProp raw ''bom-ref''))) raws ps"
  using assms(1)
proof (induction raws arbitrary: ps seen)
  case Nil
  then show ?case by simp
next
  case (Cons raw raws)
  then obtain p where p: "normalizeOneComponent lib limits raw = Inr p" by (auto split: sum.splits)
  have shift: "map_sum id ((#) p) r = Inr ps \<longleftrightarrow> (\<exists>qs. ps = p # qs \<and> r = Inr qs)"
    for r :: "parserWorkerFailure + preparedComponent list" by (cases r) auto
  from normalizeOneComponent_ok [OF p assms(2)] Cons.prems show ?case
    by (auto simp: p shift bomRefList_def split: option.splits if_splits
        dest!: Cons.IH)
qed

subsection \<open>Collapsing groups the prepared components\<close>

abbreviation pkey :: "preparedComponent \<Rightarrow> jstr" where
  "pkey p \<equiv> componentOccurrenceNormalizationKey (pcComponent p)"

definition group_of :: "jstr \<Rightarrow> preparedComponent list \<Rightarrow> preparedComponent list" where
  "group_of k ps = filter (\<lambda>p. pkey p = k) ps"

lemma group_of_append [simp]:
  "group_of k (ps @ [c]) = group_of k ps @ (if pkey c = k then [c] else [])"
  by (simp add: group_of_def)

definition leader :: "jstr \<Rightarrow> preparedComponent list \<Rightarrow> normalizedComponent" where
  "leader k ps = pcComponent (hd (group_of k ps))"

definition entry_matches :: "preparedComponent list \<Rightarrow> jstr \<times> collapsedOccurrence \<Rightarrow> bool" where
  "entry_matches ps entry \<longleftrightarrow>
     (let k = fst entry; e = snd entry; members = group_of k ps
      in members \<noteq> [] \<and> coNames e = map (ncName \<circ> pcComponent) members \<and>
         coBomRefs e = preparedBomRefs members \<and>
         (\<exists>vp. coComponent e = (leader k ps)\<lparr>ncVersionedPurl := vp\<rparr>) \<and>
         (\<forall>p \<in> set members. ncIdentityKey (pcComponent p) = ncIdentityKey (leader k ps) \<and>
            same_version (ncVersion (leader k ps)) (ncVersion (pcComponent p))))"

definition collapse_inv ::
  "preparedComponent list \<Rightarrow> (jstr \<times> collapsedOccurrence) list \<Rightarrow> nat \<Rightarrow> bool" where
  "collapse_inv ps kept n \<longleftrightarrow> distinct (map fst kept) \<and> set (map fst kept) = pkey ` set ps \<and>
     list_all (entry_matches ps) kept \<and> length kept + n = length ps"

lemma updateEntry_keys [simp]: "map fst (updateEntry k v es) = map fst es"
  by (induction k v es rule: updateEntry.induct) auto

lemma updateEntry_length [simp]: "length (updateEntry k v es) = length es"
  by (induction k v es rule: updateEntry.induct) auto

lemma updateEntry_all:
  "distinct (map fst es) \<Longrightarrow> P (k, v) \<Longrightarrow> (\<And>k' e. (k', e) \<in> set es \<Longrightarrow> k' \<noteq> k \<Longrightarrow> P (k', e)) \<Longrightarrow>
   list_all P (updateEntry k v es)"
  by (induction k v es rule: updateEntry.induct) (auto simp: list_all_iff, force+)

lemma entry_matches_other:
  "pkey c \<noteq> k \<Longrightarrow> entry_matches (ps @ [c]) (k, e) \<longleftrightarrow> entry_matches ps (k, e)"
  by (simp add: entry_matches_def leader_def)

lemma same_version_refl [simp]: "same_version v v"
  by (cases v) (simp_all add: same_version_def)

lemma occurrence_key_identity:
  assumes "componentOccurrenceNormalizationKey c = componentOccurrenceNormalizationKey d"
    and "same_version (ncVersion c) (ncVersion d)"
  shows "ncIdentityKey c = ncIdentityKey d"
  using assms
  by (auto simp: componentOccurrenceNormalizationKey_def same_version_def
      split: componentVersion.splits)

lemma leader_append:
  "group_of k ps \<noteq> [] \<Longrightarrow> leader k (ps @ [c]) = leader k ps"
  by (simp add: leader_def)

lemma leader_key: "group_of k ps \<noteq> [] \<Longrightarrow> componentOccurrenceNormalizationKey (leader k ps) = k"
proof -
  assume "group_of k ps \<noteq> []"
  then have "hd (group_of k ps) \<in> set (group_of k ps)" by simp
  then show ?thesis by (simp add: leader_def group_of_def)
qed

lemma preparedBomRefs_append [simp]:
  "preparedBomRefs (ps @ qs) = preparedBomRefs ps @ preparedBomRefs qs"
  by (simp add: preparedBomRefs_def)

lemma collapse_new:
  assumes "collapse_inv ps kept n" "pkey c \<notin> fst ` set kept"
  shows "collapse_inv (ps @ [c]) (kept @ [(pkey c, newOccurrence c)]) n"
proof -
  have none: "group_of (pkey c) ps = []"
    using assms by (auto simp: collapse_inv_def group_of_def filter_empty_conv) (metis imageI)
  have "entry_matches (ps @ [c]) (pkey c, newOccurrence c)"
    by (auto simp: entry_matches_def Let_def none newOccurrence_def leader_def
        intro: exI [of _ "ncVersionedPurl (pcComponent c)"])
  moreover have "entry_matches (ps @ [c]) (k, e)" if "(k, e) \<in> set kept" for k e
  proof -
    have "k \<noteq> pkey c" using that assms(2) by force
    with that assms(1) show ?thesis by (auto simp: collapse_inv_def list_all_iff entry_matches_other)
  qed
  ultimately show ?thesis using assms by (auto simp: collapse_inv_def list_all_iff)
qed

lemma absorb_matches:
  assumes "entry_matches ps (pkey c, e)"
    and "occurrenceAliasConflict (aliasFacts (coComponent e) (coSha256Hex e))
      (aliasFacts (pcComponent c) (pcSha256Hex c)) = None"
  shows "entry_matches (ps @ [c]) (pkey c, absorb e c)"
proof -
  let ?k = "pkey c"
  have ne: "group_of ?k ps \<noteq> []" using assms(1) by (simp add: entry_matches_def Let_def)
  have sv: "same_version (ncVersion (leader ?k ps)) (ncVersion (pcComponent c))"
    using assms by (auto simp: occurrenceAliasConflict_None_iff aliasFacts_def entry_matches_def Let_def)
  then have "ncIdentityKey (leader ?k ps) = ncIdentityKey (pcComponent c)"
    using leader_key [OF ne] by (intro occurrence_key_identity) simp_all
  with assms(1) sv show ?thesis
    by (auto simp: entry_matches_def Let_def leader_append [OF ne] absorb_def)
qed

lemma collapse_existing:
  assumes "collapse_inv ps kept n" "map_of kept (pkey c) = Some e"
    and "occurrenceAliasConflict (aliasFacts (coComponent e) (coSha256Hex e))
      (aliasFacts (pcComponent c) (pcSha256Hex c)) = None"
  shows "collapse_inv (ps @ [c]) (updateEntry (pkey c) (absorb e c) kept) (n + 1)"
proof -
  have mem: "(pkey c, e) \<in> set kept" using assms(2) by (rule map_of_SomeD)
  have "list_all (entry_matches (ps @ [c])) (updateEntry (pkey c) (absorb e c) kept)"
  proof (rule updateEntry_all)
    show "distinct (map fst kept)" using assms(1) by (simp add: collapse_inv_def)
    have "entry_matches ps (pkey c, e)" using assms(1) mem by (auto simp: collapse_inv_def list_all_iff)
    then show "entry_matches (ps @ [c]) (pkey c, absorb e c)" using assms(3) by (rule absorb_matches)
    fix k e' assume "(k, e') \<in> set kept" "k \<noteq> pkey c"
    with assms(1) show "entry_matches (ps @ [c]) (k, e')"
      by (auto simp: collapse_inv_def list_all_iff entry_matches_other)
  qed
  moreover have "pkey c \<in> fst ` set kept" using mem by force
  ultimately show ?thesis using assms(1) by (auto simp: collapse_inv_def)
qed

lemma collapseEntries_inv:
  assumes "collapseEntries qs kept n = Inr (kept', n')" "collapse_inv ps kept n"
  shows "collapse_inv (ps @ qs) kept' n'"
  using assms
proof (induction qs arbitrary: ps kept n)
  case Nil
  then show ?case by simp
next
  case (Cons c qs)
  show ?case
  proof (cases "map_of kept (pkey c)")
    case None
    then have "pkey c \<notin> fst ` set kept" by (simp add: map_of_eq_None_iff)
    from collapse_new [OF Cons.prems(2) this] Cons.prems(1) None
    show ?thesis by (auto dest: Cons.IH)
  next
    case (Some e)
    with Cons.prems(1) have ok: "occurrenceAliasConflict (aliasFacts (coComponent e) (coSha256Hex e))
        (aliasFacts (pcComponent c) (pcSha256Hex c)) = None"
      by (auto simp: Let_def split: option.splits aliasConflict.splits)
    from collapse_existing [OF Cons.prems(2) Some ok] Cons.prems(1) Some ok
    show ?thesis by (auto dest: Cons.IH)
  qed
qed

lemma collapseEntries_top:
  "collapseEntries qs [] 0 = Inr (kept, n) \<Longrightarrow> collapse_inv qs kept n"
  using collapseEntries_inv [of qs "[]" 0 kept n "[]"] by (simp add: collapse_inv_def)

subsection \<open>The collapsed components are a valid set of components\<close>

definition bomref_free :: "preparedComponent \<Rightarrow> bool" where
  "bomref_free p \<longleftrightarrow> (case ncBomRef (pcComponent p) of None \<Rightarrow> True | Some r \<Rightarrow> 31 \<notin> set r)"

lemma presentText_None [simp]: "presentText None = None"
  by (simp add: presentText_def)

lemma identity_of_identified:
  assumes "identified c"
  shows "identity_of (identityInputOf c) =
    (case presentText (ncVersionlessPurl c) of
       Some s \<Rightarrow> ByPurl s
     | None \<Rightarrow> ByDocument (ncIdentityState c) (orEmpty (ncBomRef c)) (ncName c))"
  using assms by (auto simp: identity_of_def identityInputOf_def identified_def split: option.splits)

lemma prepared_separator_free:
  assumes "prepared_ok p" "bomref_free p"
  shows "separator_free (identity_of (identityInputOf (pcComponent p)))"
proof -
  have "identified (pcComponent p)" using assms(1) by (simp add: prepared_ok_def)
  from identity_of_identified [OF this] assms(2) show ?thesis
    by (auto simp: bomref_free_def orEmpty_def split: option.splits)
qed

lemma member_identity:
  assumes "entry_matches ps (k, e)" "list_all prepared_ok ps" "list_all bomref_free ps"
    and "p \<in> set (group_of k ps)"
  shows "identity_of (identityInputOf (pcComponent p)) = identity_of (identityInputOf (leader k ps))"
proof -
  let ?h = "hd (group_of k ps)"
  have "?h \<in> set (group_of k ps)" using assms(4) by (cases "group_of k ps") auto
  then have h: "?h \<in> set ps" and p: "p \<in> set ps" using assms(4) by (auto simp: group_of_def)
  have key: "identityText (identity_of (identityInputOf (pcComponent q))) = ncIdentityKey (pcComponent q)"
    if "q \<in> set ps" for q
    using that assms(2) by (auto simp: list_all_iff prepared_ok_def component_ok_def identityKeyText_eq)
  have "ncIdentityKey (pcComponent p) = ncIdentityKey (pcComponent ?h)"
    using assms(1,4) unfolding entry_matches_def Let_def fst_conv snd_conv leader_def by blast
  with key [OF h] key [OF p] have "identityText (identity_of (identityInputOf (pcComponent p))) =
      identityText (identity_of (identityInputOf (pcComponent ?h)))" by simp
  moreover have "separator_free (identity_of (identityInputOf (pcComponent q)))" if "q \<in> set ps" for q
    using that assms(2,3) by (auto simp: list_all_iff intro: prepared_separator_free)
  ultimately show ?thesis using identityText_inject h p by (metis leader_def)
qed

lemma preparedBomRefs_same:
  "\<forall>p \<in> set ps. ncBomRef (pcComponent p) = Some r \<Longrightarrow>
   (\<forall>x \<in> set (preparedBomRefs ps). x = r) \<and> (preparedBomRefs ps = [] \<longleftrightarrow> ps = [])"
  by (induction ps) (auto simp: bomRefList_def)

lemma finish_identity:
  assumes "entry_matches ps (k, e)" "list_all prepared_ok ps" "list_all bomref_free ps"
  shows "identityKeyText (identityInputOf (finishOccurrence e)) = ncIdentityKey (leader k ps)"
proof -
  let ?L = "leader k ps"
  have members: "group_of k ps \<noteq> []" and names: "coNames e = map (ncName \<circ> pcComponent) (group_of k ps)"
    and refs: "coBomRefs e = preparedBomRefs (group_of k ps)"
    and comp: "\<exists>vp. coComponent e = ?L\<lparr>ncVersionedPurl := vp\<rparr>"
    using assms(1) by (simp_all add: entry_matches_def Let_def)
  have ok: "prepared_ok p" if "p \<in> set (group_of k ps)" for p
    using that assms(2) by (auto simp: group_of_def list_all_iff)
  have idL: "identified ?L" "component_ok ?L" "ncBomRef ?L \<noteq> Some []"
    using ok [of "hd (group_of k ps)"] members by (simp_all add: prepared_ok_def leader_def)
  show ?thesis
  proof (cases "presentText (ncVersionlessPurl ?L)")
    case (Some s)
    then have "identityKeyText (identityInputOf ?L) = js ''purl:'' @ s"
      by (simp add: identityKeyText_eq identity_of_identified [OF idL(1)])
    moreover have "ncVersionlessPurl (finishOccurrence e) = ncVersionlessPurl ?L"
      using comp by (auto simp: finishOccurrence_def)
    ultimately show ?thesis
      using Some idL(2) by (simp add: identityKeyText_def identityInputOf_def component_ok_def)
  next
    case None
    have same: "ncName (pcComponent p) = ncName ?L \<and> ncBomRef (pcComponent p) = ncBomRef ?L"
      if "p \<in> set (group_of k ps)" for p
    proof -
      have "identified (pcComponent p)" "ncBomRef (pcComponent p) \<noteq> Some []"
        using ok [OF that] by (simp_all add: prepared_ok_def)
      with member_identity [OF assms that] None idL(1,3) show ?thesis
        by (auto simp: identity_of_identified orEmpty_def split: option.splits)
    qed
    have "earliestText (coNames e) = Some (ncName ?L)"
      using same members names by (intro earliestText_constant) auto
    moreover have "earliestText (coBomRefs e) = ncBomRef ?L"
    proof (cases "ncBomRef ?L")
      case None
      with same have "preparedBomRefs (group_of k ps) = []"
        by (auto simp: preparedBomRefs_def bomRefList_def)
      with None refs show ?thesis by simp
    next
      case (Some r)
      with same have "\<forall>p \<in> set (group_of k ps). ncBomRef (pcComponent p) = Some r" by simp
      from preparedBomRefs_same [OF this] members
      have "earliestText (preparedBomRefs (group_of k ps)) = Some r"
        by (intro earliestText_constant) auto
      with Some refs show ?thesis by simp
    qed
    ultimately have "identityInputOf (finishOccurrence e) = identityInputOf ?L"
      using comp by (auto simp: identityInputOf_def finishOccurrence_def)
    with idL(2) show ?thesis by (simp add: component_ok_def)
  qed
qed

lemma finish_component:
  assumes "entry_matches ps (k, e)" "list_all prepared_ok ps" "list_all bomref_free ps"
  shows "component_ok (finishOccurrence e) \<and> componentOccurrenceNormalizationKey (finishOccurrence e) = k"
proof -
  let ?L = "leader k ps"
  have members: "group_of k ps \<noteq> []" and names: "coNames e = map (ncName \<circ> pcComponent) (group_of k ps)"
    and comp: "\<exists>vp. coComponent e = ?L\<lparr>ncVersionedPurl := vp\<rparr>"
    using assms(1) by (simp_all add: entry_matches_def Let_def)
  have "hd (group_of k ps) \<in> set ps" using members by (metis filter_is_subset group_of_def hd_in_set subsetD)
  then have L: "component_ok ?L" using assms(2) by (auto simp: list_all_iff prepared_ok_def leader_def)
  obtain m where m: "earliestText (coNames e) = Some m" "m \<in> set (coNames e)"
    using earliestText_spec [of "coNames e"] members names by auto
  have "m \<noteq> []"
    using m(2) assms(2) names by (auto simp: group_of_def list_all_iff prepared_ok_def component_ok_def)
  moreover have fields: "ncIdentityKey (finishOccurrence e) = ncIdentityKey ?L"
    "ncVersion (finishOccurrence e) = ncVersion ?L" "ncName (finishOccurrence e) = m"
    using comp m by (auto simp: finishOccurrence_def)
  ultimately have "component_ok (finishOccurrence e)"
    using L finish_identity [OF assms] by (auto simp: component_ok_def)
  moreover have "componentOccurrenceNormalizationKey (finishOccurrence e) = k"
    using leader_key [OF members] unfolding componentOccurrenceNormalizationKey_def fields .
  ultimately show ?thesis by simp
qed

lemma distinct_concat_shared:
  assumes "distinct (concat (map f xs))" "x \<in> set xs" "y \<in> set xs" "r \<in> set (f x)" "r \<in> set (f y)"
  shows "x = y"
  using assms by (induction xs) auto

lemma bomRefsOf_mem: "r \<in> set (bomRefsOf cs) \<longleftrightarrow> (\<exists>c \<in> set cs. ncBomRef c = Some r)"
  by (induction cs) (auto split: option.splits)

lemma distinct_bomRefsOf:
  assumes "distinct (map f cs)"
    and "\<And>c d r. c \<in> set cs \<Longrightarrow> d \<in> set cs \<Longrightarrow> ncBomRef c = Some r \<Longrightarrow> ncBomRef d = Some r \<Longrightarrow> f c = f d"
  shows "distinct (bomRefsOf cs)"
  using assms
proof (induction cs)
  case Nil
  then show ?case by simp
next
  case (Cons c cs)
  have "distinct (bomRefsOf cs)" using Cons by force
  moreover have "r \<notin> set (bomRefsOf cs)" if "ncBomRef c = Some r" for r
  proof
    assume "r \<in> set (bomRefsOf cs)"
    then obtain d where "d \<in> set cs" "ncBomRef d = Some r" by (auto simp: bomRefsOf_mem)
    with that Cons.prems(2) [of c d r] have "f c = f d" by simp
    with \<open>d \<in> set cs\<close> Cons.prems(1) show False by force
  qed
  ultimately show ?case by (auto split: option.splits)
qed

lemma preparedBomRefs_mem:
  "r \<in> set (preparedBomRefs ps) \<longleftrightarrow> (\<exists>p \<in> set ps. ncBomRef (pcComponent p) = Some r)"
  by (induction ps) (auto simp: bomRefList_def split: option.splits)

lemma finish_bomRef:
  assumes "entry_matches ps (k, e)" "ncBomRef (finishOccurrence e) = Some r"
  shows "\<exists>p \<in> set ps. pkey p = k \<and> ncBomRef (pcComponent p) = Some r"
proof -
  have "earliestText (coBomRefs e) = Some r" using assms(2) by (simp add: finishOccurrence_def)
  then have "r \<in> set (preparedBomRefs (group_of k ps))"
    using assms(1) by (auto simp: entry_matches_def Let_def dest: earliestText_in)
  then show ?thesis by (auto simp: preparedBomRefs_mem group_of_def)
qed

lemma prepared_same_ref:
  assumes "distinct (preparedBomRefs ps)" "p \<in> set ps" "q \<in> set ps"
    and "ncBomRef (pcComponent p) = Some r" "ncBomRef (pcComponent q) = Some r"
  shows "p = q"
  using assms distinct_concat_shared [of "bomRefList \<circ> pcComponent" ps p q r]
  by (simp add: preparedBomRefs_def bomRefList_def)

text \<open>
  Collapsing succeeds only with a valid set of components: no version of a component and no bom-ref is
  repeated, and every prepared component is either kept or counted as a duplicate.
\<close>

lemma collapse_components_ok:
  assumes "collapseOccurrences ps = Inr cd"
    and "list_all prepared_ok ps" "list_all bomref_free ps" "distinct (preparedBomRefs ps)"
  shows "components_ok (cdComponents cd)"
proof -
  from assms(1) obtain kept n where run: "collapseEntries ps [] 0 = Inr (kept, n)"
    and cd: "cdComponents cd = map (finishOccurrence \<circ> snd) kept"
    by (auto simp: collapseOccurrences_def split: sum.splits)
  have inv: "collapse_inv ps kept n" using collapseEntries_top [OF run] .
  have each: "component_ok (finishOccurrence e) \<and> componentOccurrenceNormalizationKey (finishOccurrence e) = k"
    if "(k, e) \<in> set kept" for k e
    using that inv finish_component [OF _ assms(2,3)] by (auto simp: collapse_inv_def list_all_iff)
  then have "map componentOccurrenceNormalizationKey (cdComponents cd) = map fst kept"
    by (auto simp: cd)
  with inv have keys: "distinct (map componentOccurrenceNormalizationKey (cdComponents cd))"
    by (simp add: collapse_inv_def)
  have source: "\<exists>p \<in> set ps. pkey p = componentOccurrenceNormalizationKey c \<and> ncBomRef (pcComponent p) = Some r"
    if "c \<in> set (cdComponents cd)" "ncBomRef c = Some r" for c r
  proof -
    from that(1) obtain k e where ke: "(k, e) \<in> set kept" "c = finishOccurrence e" by (auto simp: cd)
    with inv have "entry_matches ps (k, e)" by (auto simp: collapse_inv_def list_all_iff)
    from finish_bomRef [OF this] that(2) ke each [OF ke(1)] show ?thesis by auto
  qed
  have "distinct (bomRefsOf (cdComponents cd))"
    using keys
  proof (rule distinct_bomRefsOf)
    fix c d r assume "c \<in> set (cdComponents cd)" "d \<in> set (cdComponents cd)"
      "ncBomRef c = Some r" "ncBomRef d = Some r"
    from source [OF this(1,3)] source [OF this(2,4)] prepared_same_ref [OF assms(4)]
    show "componentOccurrenceNormalizationKey c = componentOccurrenceNormalizationKey d" by metis
  qed
  moreover have "[] \<notin> set (bomRefsOf (cdComponents cd))"
    using source assms(2) by (fastforce simp: bomRefsOf_mem list_all_iff prepared_ok_def)
  moreover have "list_all component_ok (cdComponents cd)" using each by (auto simp: cd list_all_iff)
  ultimately show ?thesis using keys by (simp add: components_ok_def)
qed

lemma collapse_counts:
  "collapseOccurrences ps = Inr cd \<Longrightarrow> length (cdComponents cd) + cdDuplicateCount cd = length ps"
  using collapseEntries_top
  by (fastforce simp: collapseOccurrences_def collapse_inv_def split: sum.splits)

end
