(* ===== verification/SbomDocuments.thy ===== *)
theory SbomDocuments
  imports SbomCollapse
begin

text \<open>
  The second half of the CycloneDX normalizer and its correctness: resolution of the dependency edges,
  the final graph, and the properties of \<^verbatim>\<open>normalizeCycloneDxDocument\<close> as a whole.
\<close>

subsection \<open>Dependency edges\<close>

definition edge_pair :: "normalizedDependencyEdge \<Rightarrow> jstr \<times> jstr" where
  "edge_pair e = (edFromBomRef e, edToBomRef e)"

definition resolved_pair :: "(jstr \<times> jstr) list \<Rightarrow> jstr \<times> jstr \<Rightarrow> jstr \<times> jstr" where
  "resolved_pair aliases listed = (resolveAlias aliases (fst listed), resolveAlias aliases (snd listed))"

definition self_pair :: "jstr \<times> jstr \<Rightarrow> bool" where
  "self_pair p \<longleftrightarrow> fst p = snd p"

definition resolvable :: "(jstr \<times> jstr) list \<Rightarrow> jstr list \<Rightarrow> jstr \<times> jstr \<Rightarrow> bool" where
  "resolvable aliases known listed \<longleftrightarrow> resolveAlias aliases (fst listed) \<in> set known \<and>
     resolveAlias aliases (snd listed) \<in> set known"

text \<open>What holds of the edge state after any listed edges, with the bom-refs not empty.\<close>

definition edges_inv :: "jstr list \<Rightarrow> nat \<Rightarrow> edgeState \<Rightarrow> bool" where
  "edges_inv known n st \<longleftrightarrow> list_all (edge_ok (set known)) (esEdges st) \<and> length (esEdges st) \<le> n \<and>
     (known = [] \<longrightarrow> esEdges st = [] \<and> esSkipped st = 0)"

lemma resolveEdge_Inr_iff:
  "(\<exists>st'. resolveEdge aliases known listed st = Inr st') \<longleftrightarrow> resolvable aliases known listed"
  by (auto simp: resolveEdge_def resolvable_def Let_def)

lemma resolveEdge_inv:
  assumes "resolveEdge aliases known listed st = Inr st'" "edges_inv known n st" "[] \<notin> set known"
  shows "edges_inv known (Suc n) st'"
  using assms
  by (auto simp: resolveEdge_def Let_def edges_inv_def edge_ok_def split: if_splits)

lemma resolveEdges_inv:
  assumes "resolveEdges aliases known listed st = Inr st'" "edges_inv known n st" "[] \<notin> set known"
  shows "edges_inv known (n + length listed) st'"
  using assms(1,2)
proof (induction listed arbitrary: st n)
  case Nil
  then show ?case by simp
next
  case (Cons l listed)
  then obtain st1 where "resolveEdge aliases known l st = Inr st1"
    "resolveEdges aliases known listed st1 = Inr st'"
    by (auto split: sum.splits)
  with Cons.IH [of st1 "Suc n"] resolveEdge_inv [OF _ Cons.prems(2) assms(3)] show ?case by simp
qed

lemma resolveEdges_succeeds:
  "(\<exists>st'. resolveEdges aliases known listed st = Inr st') \<longleftrightarrow> list_all (resolvable aliases known) listed"
proof (induction listed arbitrary: st)
  case Nil
  then show ?case by simp
next
  case (Cons l listed)
  show ?case
  proof (cases "resolveEdge aliases known l st")
    case (Inl f)
    then have "\<not> resolvable aliases known l" using resolveEdge_Inr_iff [of aliases known l st] by auto
    with Inl show ?thesis by simp
  next
    case (Inr st1)
    then have "resolvable aliases known l" using resolveEdge_Inr_iff [of aliases known l st] by auto
    with Inr Cons [of st1] show ?thesis by simp
  qed
qed

text \<open>Which edges are stored, when no bom-ref contains the key separator.\<close>

definition wanted :: "(jstr \<times> jstr) list \<Rightarrow> (jstr \<times> jstr) list \<Rightarrow> (jstr \<times> jstr) set" where
  "wanted aliases listed = {p. p \<in> resolved_pair aliases ` set listed \<and> \<not> self_pair p}"

lemma wanted_snoc:
  "wanted aliases (past @ [l]) =
     (if self_pair (resolved_pair aliases l) then wanted aliases past
      else insert (resolved_pair aliases l) (wanted aliases past))"
  by (auto simp: wanted_def)

definition pairs_inv :: "(jstr \<times> jstr) list \<Rightarrow> (jstr \<times> jstr) list \<Rightarrow> edgeState \<Rightarrow> bool" where
  "pairs_inv aliases past st \<longleftrightarrow>
     set (map edge_pair (esEdges st)) = wanted aliases past \<and>
     distinct (map edge_pair (esEdges st)) \<and>
     set (esSeenEdges st) = (\<lambda>p. edgeKey (fst p) (snd p)) ` set (map edge_pair (esEdges st)) \<and>
     esSkipped st = length (filter (self_pair \<circ> resolved_pair aliases) past)"

lemma edgeKey_inject:
  "0 \<notin> set a \<Longrightarrow> 0 \<notin> set c \<Longrightarrow> edgeKey a b = edgeKey c d \<longleftrightarrow> a = c \<and> b = d"
  by (simp add: edgeKey_def split_at_separator)

lemma seen_iff:
  assumes "pairs_inv aliases past st" "list_all (edge_ok (set known)) (esEdges st)"
    and "\<forall>r \<in> set known. 0 \<notin> set r" "a \<in> set known"
  shows "edgeKey a b \<in> set (esSeenEdges st) \<longleftrightarrow> (a, b) \<in> set (map edge_pair (esEdges st))"
proof -
  have "edFromBomRef e \<in> set known" if "e \<in> set (esEdges st)" for e
    using that assms(2) by (auto simp: list_all_iff edge_ok_def)
  moreover have "set (esSeenEdges st) = (\<lambda>p. edgeKey (fst p) (snd p)) ` set (map edge_pair (esEdges st))"
    using assms(1) unfolding pairs_inv_def by blast
  ultimately show ?thesis using assms(3,4) by (auto simp: edge_pair_def edgeKey_inject image_iff)
qed

lemma resolveEdge_pairs:
  assumes "resolveEdge aliases known l st = Inr st'" "pairs_inv aliases past st"
    and "list_all (edge_ok (set known)) (esEdges st)" "\<forall>r \<in> set known. 0 \<notin> set r"
  shows "pairs_inv aliases (past @ [l]) st'"
proof -
  let ?f = "resolveAlias aliases (fst l)" and ?t = "resolveAlias aliases (snd l)"
  have known: "?f \<in> set known" using assms(1) by (auto simp: resolveEdge_def Let_def split: if_splits)
  have pair: "resolved_pair aliases l = (?f, ?t)" by (simp add: resolved_pair_def)
  note seen = seen_iff [OF assms(2,3,4) known, of ?t]
  consider (self) "?f = ?t" | (old) "?f \<noteq> ?t" "edgeKey ?f ?t \<in> set (esSeenEdges st)"
    | (new) "?f \<noteq> ?t" "edgeKey ?f ?t \<notin> set (esSeenEdges st)" by blast
  then show ?thesis
  proof cases
    case self
    then have "st' = st\<lparr>esSkipped := esSkipped st + 1,
        esWarnings := incrementWarning (esWarnings st) self_dependency_skipped 1\<rparr>"
      using assms(1) by (auto simp: resolveEdge_def Let_def split: if_splits)
    with self assms(2) show ?thesis by (simp add: pairs_inv_def wanted_snoc pair self_pair_def)
  next
    case old
    then have "st' = st" using assms(1) by (auto simp: resolveEdge_def Let_def split: if_splits)
    with old seen assms(2) show ?thesis by (simp add: pairs_inv_def wanted_snoc pair self_pair_def insert_absorb)
  next
    case new
    then have "st' = st\<lparr>esSeenEdges := edgeKey ?f ?t # esSeenEdges st,
        esEdges := esEdges st @ [\<lparr>edFromBomRef = ?f, edToBomRef = ?t,
          edRelationshipType = js ''depends_on''\<rparr>]\<rparr>"
      using assms(1) by (auto simp: resolveEdge_def Let_def split: if_splits)
    moreover have "edge_pair \<lparr>edFromBomRef = ?f, edToBomRef = ?t, edRelationshipType = x\<rparr> = (?f, ?t)" for x
      by (simp add: edge_pair_def)
    ultimately show ?thesis
      using new seen assms(2) by (simp add: pairs_inv_def wanted_snoc pair self_pair_def)
  qed
qed

lemma resolveEdges_pairs:
  assumes "resolveEdges aliases known listed st = Inr st'" "pairs_inv aliases past st"
    and "edges_inv known n st" "\<forall>r \<in> set known. 0 \<notin> set r" "[] \<notin> set known"
  shows "pairs_inv aliases (past @ listed) st'"
  using assms(1,2,3)
proof (induction listed arbitrary: st past n)
  case Nil
  then show ?case by simp
next
  case (Cons l listed)
  then obtain st1 where st1: "resolveEdge aliases known l st = Inr st1"
    "resolveEdges aliases known listed st1 = Inr st'"
    by (auto split: sum.splits)
  have "pairs_inv aliases (past @ [l]) st1"
    using resolveEdge_pairs [OF st1(1) Cons.prems(2) _ assms(4)] Cons.prems(3)
    by (simp add: edges_inv_def)
  from Cons.IH [OF st1(2) this resolveEdge_inv [OF st1(1) Cons.prems(3) assms(5)]] show ?case by simp
qed

subsection \<open>The final graph\<close>

lemma applyDirectness_fields [simp]:
  "map componentOccurrenceNormalizationKey (applyDirectness d h cs) = map componentOccurrenceNormalizationKey cs"
  "bomRefsOf (applyDirectness d h cs) = bomRefsOf cs"
  "list_all component_ok (applyDirectness d h cs) = list_all component_ok cs"
  "length (applyDirectness d h cs) = length cs"
proof -
  show "map componentOccurrenceNormalizationKey (applyDirectness d h cs) = map componentOccurrenceNormalizationKey cs"
    by (simp add: applyDirectness_def componentOccurrenceNormalizationKey_def
        split: option.split componentVersion.split)
  show "bomRefsOf (applyDirectness d h cs) = bomRefsOf cs"
    by (cases h; induction cs) (simp_all add: applyDirectness_def split: option.splits)
  show "list_all component_ok (applyDirectness d h cs) = list_all component_ok cs"
    by (cases h; induction cs)
      (simp_all add: applyDirectness_def component_ok_def identityInputOf_def split: option.splits)
  show "length (applyDirectness d h cs) = length cs"
    by (simp add: applyDirectness_def)
qed

lemma applyDirectness_ok [simp]: "components_ok (applyDirectness d h cs) = components_ok cs"
  by (simp add: components_ok_def)

lemma warningSummaries_positive: "list_all (\<lambda>w. 0 < wCount w) (warningSummaries ws)"
  by (auto simp: warningSummaries_def warningSummary_def split: option.splits)

lemma derive_total:
  assumes "cs = 0 \<longrightarrow> es = 0 \<and> sk = 0"
  shows "\<exists>g. deriveGraphCompleteness \<lparr>gcComponentCount = Integral (int cs),
      gcDependencyEdgeCount = Integral (int es), gcSkippedListedEdgeCount = Integral (int sk)\<rparr> = Inr g"
  using assms by (auto simp: deriveGraphCompleteness_def)

lemma finishDocument_succeeds:
  assumes "components_ok (cdComponents cd)" "edges_inv (knownBomRefsOf cd) n st"
  shows "\<exists>s. finishDocument lib doc cd h st pv nv sv = Inr s \<and> psEdges s = esEdges st \<and>
    psComponentCount s = length (cdComponents cd)"
proof -
  define d where "d = directBomRefsOf
    (map_option (resolveAlias (cdBomRefAlias cd)) (metadataComponentBomRef doc)) (esEdges st)"
  define cs where "cs = applyDirectness d h (cdComponents cd)"
  have refs: "bomRefsOf cs = knownBomRefsOf cd" and len: "length cs = length (cdComponents cd)"
    by (simp_all add: cs_def knownBomRefsOf_def)
  have "length cs = 0 \<longrightarrow> length (esEdges st) = 0 \<and> esSkipped st = 0"
    using assms(2) refs by (auto simp: edges_inv_def)
  from derive_total [OF this] obtain g where g: "deriveGraphCompleteness
      \<lparr>gcComponentCount = Integral (int (length cs)),
       gcDependencyEdgeCount = Integral (int (length (esEdges st))),
       gcSkippedListedEdgeCount = Integral (int (esSkipped st))\<rparr> = Inr g" by blast
  define s where "s = \<lparr>psSpecificationVersion = sv, psGraphCompleteness = g, psComponents = cs,
    psEdges = esEdges st, psWarnings = warningSummaries (esWarnings st), psComponentCount = length cs,
    psDependencyEdgeCount = length (esEdges st),
    psWarningCount = foldl (\<lambda>total warning. total + wCount warning) 0 (warningSummaries (esWarnings st)),
    psCapturedAt = capturedAtFromMetadata doc, psParserVersion = pv, psNormalizationVersion = nv\<rparr>"
  have "graph_ok (graphOfSuccess lib s)"
    using derive_matches [OF g] assms refs
    by (simp add: graph_ok_def graphOfSuccess_def s_def foldl_wCount warningSummaries_positive cs_def
        edges_inv_def)
  then have "validateNormalizedComponentGraph (graphOfSuccess lib s) = Inr (graphOfSuccess lib s)"
    by (simp add: validateGraph_iff)
  then have "finishDocument lib doc cd h st pv nv sv = Inr s"
    using g unfolding s_def cs_def d_def by (simp add: finishDocument_def Let_def)
  then show ?thesis by (simp add: s_def len)
qed

lemma finishDocument_valid:
  assumes "finishDocument lib doc cd h st pv nv sv = Inr s"
  shows "graph_ok (graphOfSuccess lib s) \<and> psEdges s = esEdges st \<and>
    psComponentCount s = length (cdComponents cd) \<and> psNormalizationVersion s = nv"
  using assms
  by (auto simp: finishDocument_def Let_def validateGraph_iff split: sum.splits)

lemma initial_edges_inv: "edges_inv known 0 (initialEdgeState cd)"
  by (simp add: edges_inv_def initialEdgeState_def)

lemma initial_pairs_inv: "pairs_inv aliases [] (initialEdgeState cd)"
  by (simp add: pairs_inv_def initialEdgeState_def wanted_def)

subsection \<open>The normalizer as a whole\<close>

text \<open>The intermediate results of a run on a document: prepared and collapsed components, listed edges.\<close>

definition document_stages ::
  "documentLibrary \<Rightarrow> sbomParserLimits \<Rightarrow> jsonRecord \<Rightarrow> preparedComponent list \<Rightarrow> collapsedDocument \<Rightarrow>
   (jstr \<times> jstr) list \<Rightarrow> bool" where
  "document_stages lib limits doc ps cd listed \<longleftrightarrow>
     prepareComponents lib limits (collectComponents doc) [] = Inr ps \<and>
     collapseOccurrences ps = Inr cd \<and>
     listedEdgesOf doc (\<lambda>source. resolveAlias (cdBomRefAlias cd) source \<in> set (knownBomRefsOf cd)) = Inr listed"

definition within_limits :: "sbomParserLimits \<Rightarrow> jsonRecord \<Rightarrow> (jstr \<times> jstr) list \<Rightarrow> bool" where
  "within_limits limits doc listed \<longleftrightarrow> countMetadataTools doc \<le> maxMetadataTools limits \<and>
     length (collectComponents doc) \<le> maxComponents limits \<and> length listed \<le> maxDependencyEdges limits"

lemma normalize_run:
  assumes "normalizeCycloneDxDocument lib value limits pv nv sv = Inr s"
  obtains doc ps cd listed st where "value = JObject doc" "nv = CURRENT_SBOM_NORMALIZATION_VERSION"
    "within_limits limits doc listed" "document_stages lib limits doc ps cd listed"
    "resolveEdges (cdBomRefAlias cd) (knownBomRefsOf cd) listed (initialEdgeState cd) = Inr st"
    "length (esEdges st) \<le> maxDependencyEdges limits"
    "finishDocument lib doc cd (listed \<noteq> []) st pv nv sv = Inr s"
  using assms
  by (auto simp: normalizeCycloneDxDocument_def Let_def within_limits_def document_stages_def not_less
      split: if_splits json.splits sum.splits)

lemma normalize_eq:
  assumes "document_stages lib limits doc ps cd listed" "within_limits limits doc listed"
    and "resolveEdges (cdBomRefAlias cd) (knownBomRefsOf cd) listed (initialEdgeState cd) = Inr st"
    and "length (esEdges st) \<le> maxDependencyEdges limits"
  shows "normalizeCycloneDxDocument lib (JObject doc) limits pv CURRENT_SBOM_NORMALIZATION_VERSION sv =
    finishDocument lib doc cd (listed \<noteq> []) st pv CURRENT_SBOM_NORMALIZATION_VERSION sv"
  using assms
  by (auto simp: normalizeCycloneDxDocument_def Let_def within_limits_def document_stages_def)

lemma prepareComponents_length:
  "prepareComponents lib limits raws seen = Inr ps \<Longrightarrow> length ps = length raws"
proof (induction raws arbitrary: seen ps)
  case Nil
  then show ?case by simp
next
  case (Cons raw raws)
  have shift: "map_sum id ((#) p) r = Inr ps \<longleftrightarrow> (\<exists>qs. ps = p # qs \<and> r = Inr qs)"
    for p and r :: "parserWorkerFailure + preparedComponent list" by (cases r) auto
  from Cons show ?case by (auto simp: shift split: sum.splits option.splits if_splits)
qed

lemma stages_unique:
  assumes "document_stages lib limits doc ps cd listed" "document_stages lib limits doc ps' cd' listed'"
  shows "ps = ps' \<and> cd = cd' \<and> listed = listed'"
proof -
  have "ps = ps'" using assms by (simp add: document_stages_def)
  moreover from this have "cd = cd'" using assms by (simp add: document_stages_def)
  ultimately show ?thesis using assms by (simp add: document_stages_def)
qed

lemma stages_account:
  assumes "document_stages lib limits doc ps cd listed"
  shows "length (cdComponents cd) + cdDuplicateCount cd = length (collectComponents doc)"
proof -
  have "prepareComponents lib limits (collectComponents doc) [] = Inr ps" "collapseOccurrences ps = Inr cd"
    using assms by (simp_all add: document_stages_def)
  from prepareComponents_length [OF this(1)] collapse_counts [OF this(2)] show ?thesis by simp
qed

definition bomrefs_free :: "nat \<Rightarrow> jsonRecord \<Rightarrow> bool" where
  "bomrefs_free c doc \<longleftrightarrow> list_all (\<lambda>raw. case asString (getProp raw ''bom-ref'') of
     None \<Rightarrow> True | Some r \<Rightarrow> c \<notin> set r) (collectComponents doc)"

lemma stages_components_ok:
  assumes "document_stages lib limits doc ps cd listed" "library_ok lib" "bomrefs_free 31 doc"
  shows "components_ok (cdComponents cd)"
proof -
  have run: "prepareComponents lib limits (collectComponents doc) [] = Inr ps"
    "collapseOccurrences ps = Inr cd"
    using assms(1) by (simp_all add: document_stages_def)
  note prepared = prepareComponents_ok [OF run(1) assms(2)]
  have "list_all bomref_free ps"
  proof (unfold list_all_length, intro allI impI)
    fix i assume i: "i < length ps"
    then have "ncBomRef (pcComponent (ps ! i)) =
        nonEmptyText (asString (getProp (collectComponents doc ! i) ''bom-ref''))"
      using list_all2_nthD2 prepared by blast
    moreover have "i < length (collectComponents doc)" using i prepared by simp
    then have "case asString (getProp (collectComponents doc ! i) ''bom-ref'') of
        None \<Rightarrow> True | Some r \<Rightarrow> 31 \<notin> set r"
      using assms(3) unfolding bomrefs_free_def list_all_length by blast
    ultimately show "bomref_free (ps ! i)"
      by (simp add: bomref_free_def nonEmptyText_def split: option.splits)
  qed
  with collapse_components_ok [OF run(2)] prepared show ?thesis by blast
qed

lemma known_nonempty:
  assumes "components_ok (cdComponents cd)"
  shows "[] \<notin> set (knownBomRefsOf cd)"
  using assms by (simp add: components_ok_def knownBomRefsOf_def)

lemma normalize_succeeds:
  assumes "library_ok lib" "document_stages lib limits doc ps cd listed"
    and "within_limits limits doc listed" "bomrefs_free 31 doc"
    and "list_all (resolvable (cdBomRefAlias cd) (knownBomRefsOf cd)) listed"
  shows "\<exists>s. normalizeCycloneDxDocument lib (JObject doc) limits pv CURRENT_SBOM_NORMALIZATION_VERSION sv = Inr s \<and>
    psComponentCount s + cdDuplicateCount cd = length (collectComponents doc)"
proof -
  have ok: "components_ok (cdComponents cd)" using stages_components_ok [OF assms(2,1,4)] .
  obtain st where st: "resolveEdges (cdBomRefAlias cd) (knownBomRefsOf cd) listed (initialEdgeState cd) = Inr st"
    using assms(5) resolveEdges_succeeds by blast
  have inv: "edges_inv (knownBomRefsOf cd) (length listed) st"
    using resolveEdges_inv [OF st initial_edges_inv known_nonempty [OF ok]] by simp
  then have "length (esEdges st) \<le> maxDependencyEdges limits"
    using assms(3) by (simp add: edges_inv_def within_limits_def)
  note eq = normalize_eq [OF assms(2,3) st this, of pv sv]
  from finishDocument_succeeds [OF ok inv] obtain s where
    "finishDocument lib doc cd (listed \<noteq> []) st pv CURRENT_SBOM_NORMALIZATION_VERSION sv = Inr s"
    "psComponentCount s = length (cdComponents cd)" by blast
  with eq stages_account [OF assms(2)] show ?thesis by auto
qed

subsection \<open>A concrete document\<close>

text \<open>
  An application with two entries for the same version of one package, and a package URL library that
  prints \<^verbatim>\<open>pkg:type/name@version\<close>.
\<close>

definition exampleLibrary :: documentLibrary where
  "exampleLibrary =
     \<lparr>purlFromString = (\<lambda>text. Some \<lparr>puType = js ''npm'', puNamespace = None, puName = text, puVersion = None\<rparr>),
      purlToString = (\<lambda>p. Some (js ''pkg:'' @ puType p @ 47 # puName p @
        (case puVersion p of None \<Rightarrow> [] | Some v \<Rightarrow> 64 # v))),
      dateOf = (\<lambda>_. 0)\<rparr>"

definition exampleLimits :: sbomParserLimits where
  "exampleLimits =
     \<lparr>maxBytes = 900, jsonMaxDepth = 9, jsonMaxNodes = 90, jsonMaxStringBytes = 90, maxComponents = 5,
      maxDependencyEdges = 5, maxBomRefBytes = 20, maxPurlBytes = 30, maxComponentNameChars = 20,
      maxVersionChars = 20, maxMetadataTools = 1, maxExternalRefsPerComponent = 0,
      maxPropertiesPerComponent = 0\<rparr>"

definition exampleRawApp :: jsonRecord where
  "exampleRawApp = [(js ''bom-ref'', JString (js ''app'')), (js ''name'', JString (js ''app''))]"

definition exampleRawLib :: "string \<Rightarrow> string \<Rightarrow> jsonRecord" where
  "exampleRawLib ref name = [(js ''bom-ref'', JString (js ref)), (js ''name'', JString (js name)),
     (js ''purl'', JString (js ''lib'')), (js ''version'', JString (js ''1.0''))]"

definition exampleDocument :: jsonRecord where
  "exampleDocument =
     [(js ''metadata'', JObject [(js ''component'', JObject exampleRawApp)]),
      (js ''components'',
        JArray [JObject (exampleRawLib ''l1'' ''lib''), JObject (exampleRawLib ''l0'' ''Lib'')]),
      (js ''dependencies'', JArray [JObject [(js ''ref'', JString (js ''app'')),
        (js ''dependsOn'', JArray [JString (js ''l1''), JString (js ''l0'')])]])]"

definition exampleApp :: preparedComponent where
  "exampleApp = finishPrepared
     \<lparr>ncBomRef = Some (js ''app''), ncName = js ''app'', ncNamespace = None, ncEcosystem = None,
      ncIdentityState = unsupported, ncVersionlessPurl = None, ncVersionedPurl = None,
      ncVersion = UnknownVersion None, ncIsDirect = None,
      ncIdentityKey = js ''unresolved:unsupported'' @ 31 # js ''app'' @ 31 # js ''app''\<rparr> None"

definition exampleLib :: "string \<Rightarrow> string \<Rightarrow> preparedComponent" where
  "exampleLib ref name = finishPrepared
     \<lparr>ncBomRef = Some (js ref), ncName = js name, ncNamespace = None, ncEcosystem = Some (js ''npm''),
      ncIdentityState = resolved, ncVersionlessPurl = Some (js ''pkg:npm/lib''),
      ncVersionedPurl = Some (js ''pkg:npm/lib@1.0''), ncVersion = KnownVersion (js ''1.0''),
      ncIsDirect = None, ncIdentityKey = js ''purl:pkg:npm/lib''\<rparr> None"

lemma exampleRaw:
  "collectComponents exampleDocument = [exampleRawApp, exampleRawLib ''l1'' ''lib'', exampleRawLib ''l0'' ''Lib'']"
  by (simp add: collectComponents_def exampleDocument_def getProp_def exampleRawApp_def exampleRawLib_def)

lemmas component_eval = normalizeOneComponent_def nonEmptyText_def asString_def getProp_def
  arrayLength_def exampleLimits_def exampleLibrary_def collectSha256_def plainComponent_def
  purlComponent_def resolveObservedVersion_def presentVersion_def observedVersionOf_def
  unknownComponentVersion_def normalizePackageUrl_def optionalPurlPart_def versionedPurlOf_def
  versionedPackageUrl_def buildComponentIdentityKey_def identityKeyText_def presentText_def orEmpty_def
  catalog_defs finishPrepared_def knownComponentVersion_def isForbiddenKnownVersion_def Let_def
  js_trim_def js_space_def lower_unit_def is_upper_def js_def

lemma examplePrepared:
  "prepareComponents exampleLibrary exampleLimits (collectComponents exampleDocument) [] =
     Inr [exampleApp, exampleLib ''l1'' ''lib'', exampleLib ''l0'' ''Lib'']"
  unfolding exampleRaw exampleRawApp_def exampleRawLib_def exampleApp_def exampleLib_def
  by (simp add: component_eval)

definition exampleCollapsed :: collapsedDocument where
  "exampleCollapsed =
     \<lparr>cdComponents = [pcComponent exampleApp, pcComponent (exampleLib ''l0'' ''Lib'')],
      cdBomRefAlias = [(js ''app'', js ''app''), (js ''l1'', js ''l0''), (js ''l0'', js ''l0'')],
      cdDuplicateCount = 1\<rparr>"

lemma exampleCollapse:
  "collapseOccurrences [exampleApp, exampleLib ''l1'' ''lib'', exampleLib ''l0'' ''Lib''] = Inr exampleCollapsed"
  unfolding exampleApp_def exampleLib_def exampleCollapsed_def
  by (simp add: collapseOccurrences_def componentOccurrenceNormalizationKey_def newOccurrence_def
      finishPrepared_def Let_def occurrenceAliasConflict_def aliasFacts_def sameVersionKind_def
      absorb_def bomRefList_def finishOccurrence_def occurrenceAliases_def earliestText_def
      js_less_def js_def)

definition exampleListed :: "(jstr \<times> jstr) list" where
  "exampleListed = [(js ''app'', js ''l1''), (js ''app'', js ''l0'')]"

lemma exampleKnown: "knownBomRefsOf exampleCollapsed = [js ''app'', js ''l0'']"
  by (simp add: knownBomRefsOf_def exampleCollapsed_def exampleApp_def exampleLib_def finishPrepared_def)

lemma exampleAliases:
  "cdBomRefAlias exampleCollapsed = [(js ''app'', js ''app''), (js ''l1'', js ''l0''), (js ''l0'', js ''l0'')]"
  by (simp add: exampleCollapsed_def)

lemma exampleListedEdges:
  "resolves (js ''app'') \<Longrightarrow> listedEdgesOf exampleDocument resolves = Inr exampleListed"
  by (simp add: listedEdgesOf_def exampleDocument_def getProp_def nonEmptyText_def asString_def
      exampleListed_def)

lemma exampleStages:
  "document_stages exampleLibrary exampleLimits exampleDocument
     [exampleApp, exampleLib ''l1'' ''lib'', exampleLib ''l0'' ''Lib''] exampleCollapsed exampleListed"
  by (simp add: document_stages_def examplePrepared exampleCollapse exampleKnown exampleAliases
      exampleListedEdges resolveAlias_def)

lemma exampleConditions:
  "library_ok exampleLibrary" "within_limits exampleLimits exampleDocument exampleListed"
  "bomrefs_free 31 exampleDocument"
  "list_all (resolvable (cdBomRefAlias exampleCollapsed) (knownBomRefsOf exampleCollapsed)) exampleListed"
proof -
  show "library_ok exampleLibrary" by (auto simp: library_ok_def exampleLibrary_def js_def)
  show "within_limits exampleLimits exampleDocument exampleListed"
    unfolding within_limits_def exampleRaw
    by (simp add: exampleLimits_def exampleListed_def countMetadataTools_def exampleDocument_def getProp_def)
  show "bomrefs_free 31 exampleDocument"
    by (simp add: bomrefs_free_def exampleRaw exampleRawApp_def exampleRawLib_def asString_def
        getProp_def js_def)
  show "list_all (resolvable (cdBomRefAlias exampleCollapsed) (knownBomRefsOf exampleCollapsed)) exampleListed"
    by (simp add: exampleKnown exampleAliases exampleListed_def resolvable_def resolveAlias_def)
qed

lemma exampleSuccess:
  "\<exists>s. normalizeCycloneDxDocument exampleLibrary (JObject exampleDocument) exampleLimits pv
      CURRENT_SBOM_NORMALIZATION_VERSION sv = Inr s"
  using normalize_succeeds [OF exampleConditions(1) exampleStages exampleConditions(2-4)] by blast

subsection \<open>Correctness of the normalizer\<close>

text \<open>
  C16. What the normalizer delivers is a valid graph within the limits: the delivered graph keeps every
  promise of a stored graph (consistent counts and completeness, valid and distinct components, edges
  between two different components of the graph), it has at most the allowed number of components and
  edges, and it is labelled with the current normalization version.
\<close>

theorem normalize_delivers_valid_graph:
  assumes "normalizeCycloneDxDocument lib value limits pv nv sv = Inr s"
  shows "graph_ok (graphOfSuccess lib s) \<and> length (psComponents s) \<le> maxComponents limits \<and>
    length (psEdges s) \<le> maxDependencyEdges limits \<and>
    psNormalizationVersion s = CURRENT_SBOM_NORMALIZATION_VERSION"
proof -
  obtain doc ps cd listed st where "value = JObject doc" and nv: "nv = CURRENT_SBOM_NORMALIZATION_VERSION"
    and lim: "within_limits limits doc listed" and stages: "document_stages lib limits doc ps cd listed"
    and "resolveEdges (cdBomRefAlias cd) (knownBomRefsOf cd) listed (initialEdgeState cd) = Inr st"
    and edges: "length (esEdges st) \<le> maxDependencyEdges limits"
    and fin: "finishDocument lib doc cd (listed \<noteq> []) st pv nv sv = Inr s"
    using assms by (rule normalize_run)
  have "length (cdComponents cd) \<le> length (collectComponents doc)"
    using stages_account [OF stages] by simp
  moreover have "psComponentCount s = length (psComponents s)"
    using finishDocument_valid [OF fin] by (simp add: graph_ok_def graphOfSuccess_def)
  ultimately show ?thesis
    using finishDocument_valid [OF fin] lim edges nv by (simp add: within_limits_def)
qed

theorem normalize_delivers_valid_graph_witness:
  "\<exists>s. normalizeCycloneDxDocument exampleLibrary (JObject exampleDocument) exampleLimits (js ''1'')
      CURRENT_SBOM_NORMALIZATION_VERSION (js ''1.5'') = Inr s \<and>
    graph_ok (graphOfSuccess exampleLibrary s) \<and> length (psComponents s) \<le> maxComponents exampleLimits"
  using exampleSuccess [of "js ''1''" "js ''1.5''"] normalize_delivers_valid_graph by blast

text \<open>
  C24. The normalizer accepts every document it should: when the components are individually acceptable
  and agree where they repeat, the limits are kept, every listed dependency resolves, and no bom-ref
  contains the separator U+001F, then the run succeeds. The checks at the end of the normalizer
  (completeness, validation of the graph, the second edge limit) never reject such a document, and every
  component of the document is either in the graph or counted as a collapsed duplicate.
\<close>

theorem normalize_accepts:
  assumes "library_ok lib" "document_stages lib limits doc ps cd listed"
    and "within_limits limits doc listed" "bomrefs_free 31 doc"
    and "list_all (resolvable (cdBomRefAlias cd) (knownBomRefsOf cd)) listed"
  shows "\<exists>s. normalizeCycloneDxDocument lib (JObject doc) limits pv CURRENT_SBOM_NORMALIZATION_VERSION sv = Inr s \<and>
    psComponentCount s + cdDuplicateCount cd = length (collectComponents doc)"
  using assms by (rule normalize_succeeds)

theorem normalize_accepts_witness:
  "\<exists>s. normalizeCycloneDxDocument exampleLibrary (JObject exampleDocument) exampleLimits (js ''1'')
      CURRENT_SBOM_NORMALIZATION_VERSION (js ''1.5'') = Inr s \<and> psComponentCount s + 1 = 3"
  using normalize_accepts [OF exampleConditions(1) exampleStages exampleConditions(2-4),
      of "js ''1''" "js ''1.5''"]
  by (simp add: exampleCollapsed_def exampleRaw numeral_2_eq_2)

text \<open>
  C32. The stored dependency edges are exactly the listed ones: after resolving aliases to the kept
  bom-refs and dropping self-dependencies, each listed dependency is stored once and nothing else is,
  provided no kept bom-ref contains the character U+0000 the edge key is built with.
\<close>

theorem normalize_edges_exact:
  assumes "normalizeCycloneDxDocument lib (JObject doc) limits pv nv sv = Inr s"
    and "document_stages lib limits doc ps cd listed" "\<forall>r \<in> set (knownBomRefsOf cd). 0 \<notin> set r"
  shows "set (map edge_pair (psEdges s)) = wanted (cdBomRefAlias cd) listed \<and>
    distinct (map edge_pair (psEdges s))"
proof -
  obtain doc' ps' cd' listed' st where
    run: "JObject doc = JObject doc'" "nv = CURRENT_SBOM_NORMALIZATION_VERSION"
      "within_limits limits doc' listed'" "document_stages lib limits doc' ps' cd' listed'"
      "resolveEdges (cdBomRefAlias cd') (knownBomRefsOf cd') listed' (initialEdgeState cd') = Inr st"
      "length (esEdges st) \<le> maxDependencyEdges limits"
      "finishDocument lib doc' cd' (listed' \<noteq> []) st pv nv sv = Inr s"
    using assms(1) by (rule normalize_run)
  have same: "doc' = doc" "ps' = ps" "cd' = cd" "listed' = listed"
    using stages_unique [of lib limits doc' ps' cd' listed' ps cd listed] run(1,4) assms(2) by simp_all
  note st = run(5) [unfolded same] and fin = run(7) [unfolded same]
  have "bomRefsOf (psComponents s) = knownBomRefsOf cd"
    using fin by (auto simp: finishDocument_def Let_def knownBomRefsOf_def split: sum.splits)
  then have "[] \<notin> set (knownBomRefsOf cd)"
    using finishDocument_valid [OF fin]
    by (auto simp: graph_ok_def graphOfSuccess_def components_ok_def)
  from resolveEdges_pairs [OF st initial_pairs_inv initial_edges_inv assms(3) this]
  show ?thesis using finishDocument_valid [OF fin] by (simp add: pairs_inv_def)
qed

theorem normalize_edges_exact_witness:
  "\<exists>s. normalizeCycloneDxDocument exampleLibrary (JObject exampleDocument) exampleLimits (js ''1'')
      CURRENT_SBOM_NORMALIZATION_VERSION (js ''1.5'') = Inr s \<and>
    set (map edge_pair (psEdges s)) = {(js ''app'', js ''l0'')}"
proof -
  obtain s where s: "normalizeCycloneDxDocument exampleLibrary (JObject exampleDocument) exampleLimits
      (js ''1'') CURRENT_SBOM_NORMALIZATION_VERSION (js ''1.5'') = Inr s"
    using exampleSuccess by blast
  have "\<forall>r \<in> set (knownBomRefsOf exampleCollapsed). 0 \<notin> set r" by (simp add: exampleKnown js_def)
  from normalize_edges_exact [OF s exampleStages this]
  have "set (map edge_pair (psEdges s)) = wanted (cdBomRefAlias exampleCollapsed) exampleListed" ..
  also have "\<dots> = {(js ''app'', js ''l0'')}"
    by (auto simp: wanted_def exampleListed_def resolved_pair_def self_pair_def resolveAlias_def
        exampleCollapsed_def)
  finally show ?thesis using s by blast
qed

subsection \<open>Failures\<close>

definition closed_failure :: "parserWorkerFailure \<Rightarrow> bool" where
  "closed_failure f \<longleftrightarrow> parserThreadDisposition (pfCode f) = Some (pfDisposition f)"

lemma parserFailure_closed [simp]: "closed_failure (parserFailure code)"
  by (cases code) (simp_all add: closed_failure_def parserFailure_def parserThreadDisposition_def)

lemma map_sum_Inl: "map_sum id g r = Inl f \<longleftrightarrow> r = Inl f"
  by (cases r) simp_all

lemma collectDigests_closed: "collectDigests hs ds = Inl f \<Longrightarrow> closed_failure f"
  by (induction hs ds rule: collectDigests.induct) (auto split: json.splits option.splits if_splits)

lemma resolveObservedVersion_closed: "resolveObservedVersion a b = Inl f \<Longrightarrow> closed_failure f"
  by (auto simp: resolveObservedVersion_def Let_def split: if_splits)

lemma versionedPurlOf_closed: "versionedPurlOf lib n v = Inl f \<Longrightarrow> closed_failure f"
  by (auto simp: versionedPurlOf_def split: componentVersion.splits option.splits sum.splits)

lemma purlComponent_closed:
  "purlComponent lib limits name ref listed sha purl = Inl f \<Longrightarrow> closed_failure f"
  by (auto simp: purlComponent_def split: if_splits sum.splits
      dest: resolveObservedVersion_closed versionedPurlOf_closed)

lemma plainComponent_closed: "plainComponent limits name ref listed ns sha = Inl f \<Longrightarrow> closed_failure f"
  by (auto simp: plainComponent_def split: if_splits sum.splits dest: resolveObservedVersion_closed)

lemma collectSha256_closed: "collectSha256 raw = Inl f \<Longrightarrow> closed_failure f"
  by (auto simp: collectSha256_def split: option.splits json.splits sum.splits if_splits
      dest: collectDigests_closed)

lemma normalizeOneComponent_closed: "normalizeOneComponent lib limits raw = Inl f \<Longrightarrow> closed_failure f"
  by (auto simp: normalizeOneComponent_def Let_def split: option.splits if_splits sum.splits
      dest: collectSha256_closed purlComponent_closed plainComponent_closed)

lemma prepareComponents_closed: "prepareComponents lib limits raws seen = Inl f \<Longrightarrow> closed_failure f"
  by (induction raws arbitrary: seen)
    (auto simp: map_sum_Inl split: option.splits if_splits sum.splits dest: normalizeOneComponent_closed)

lemma collapseEntries_closed: "collapseEntries ps kept n = Inl f \<Longrightarrow> closed_failure f"
  by (induction ps arbitrary: kept n) (auto simp: Let_def split: option.splits aliasConflict.splits)

lemma collectTargets_closed: "collectTargets source ts = Inl f \<Longrightarrow> closed_failure f"
  by (induction ts) (auto simp: map_sum_Inl split: option.splits)

lemma collectListedEdges_closed: "collectListedEdges resolves es = Inl f \<Longrightarrow> closed_failure f"
  by (induction es)
    (auto simp: map_sum_Inl split: json.splits option.splits if_splits sum.splits
      dest: collectTargets_closed)

lemma resolveEdges_closed: "resolveEdges aliases known listed st = Inl f \<Longrightarrow> closed_failure f"
  by (induction listed arbitrary: st)
    (auto simp: resolveEdge_def Let_def split: if_splits sum.splits)

lemma finishDocument_closed: "finishDocument lib doc cd h st pv nv sv = Inl f \<Longrightarrow> closed_failure f"
  by (auto simp: finishDocument_def Let_def split: sum.splits)

lemmas stage_failures = prepareComponents_closed collapseEntries_closed collectListedEdges_closed
  resolveEdges_closed finishDocument_closed

text \<open>
  Every failure of the normalizer is a rejected or quarantined one, and its disposition is the one
  the failure catalog gives its code: no retryable or internal failure leaves the parser thread.
\<close>

theorem normalize_failures_closed:
  assumes "normalizeCycloneDxDocument lib value limits pv nv sv = Inl f"
  shows "parserThreadDisposition (pfCode f) = Some (pfDisposition f)"
proof -
  have "closed_failure f"
    using assms
    by (auto simp: normalizeCycloneDxDocument_def Let_def collapseOccurrences_def listedEdgesOf_def
        split: if_splits json.splits sum.splits option.splits dest: stage_failures)
  then show ?thesis by (simp add: closed_failure_def)
qed

theorem normalize_failures_closed_witness:
  "normalizeCycloneDxDocument exampleLibrary JNull exampleLimits (js ''1'')
      CURRENT_SBOM_NORMALIZATION_VERSION (js ''1.5'') = Inl (parserFailure not_cyclonedx) \<and>
   parserThreadDisposition (pfCode (parserFailure not_cyclonedx)) =
     Some (pfDisposition (parserFailure not_cyclonedx))"
proof -
  have f: "normalizeCycloneDxDocument exampleLibrary JNull exampleLimits (js ''1'')
      CURRENT_SBOM_NORMALIZATION_VERSION (js ''1.5'') = Inl (parserFailure not_cyclonedx)"
    by (simp add: normalizeCycloneDxDocument_def)
  from normalize_failures_closed [OF f] f show ?thesis by simp
qed

subsection \<open>What the separators cost\<close>

text \<open>
  The edge key joins two bom-refs with U+0000, which a JSON string may contain: two different listed
  dependencies between known components then share a key, and the second is dropped without a warning.
\<close>

lemma edge_key_drops_dependency:
  "\<exists>known listed st. list_all (resolvable [] known) listed \<and> distinct listed \<and> length listed = 2 \<and>
     list_all (\<lambda>p. \<not> self_pair (resolved_pair [] p)) listed \<and>
     resolveEdges [] known listed \<lparr>esEdges = [], esSeenEdges = [], esSkipped = 0, esWarnings = Map.empty\<rparr> = Inr st \<and>
     length (esEdges st) = 1 \<and> esSkipped st = 0 \<and> warningSummaries (esWarnings st) = []"
proof -
  define known :: "jstr list" where "known = [[97], [97, 0, 98], [98, 0, 99], [99]]"
  define listed :: "(jstr \<times> jstr) list" where "listed = [([97, 0, 98], [99]), ([97], [98, 0, 99])]"
  have "list_all (resolvable [] known) listed" "distinct listed" "length listed = 2"
    "list_all (\<lambda>p. \<not> self_pair (resolved_pair [] p)) listed"
    by (simp_all add: known_def listed_def resolvable_def resolveAlias_def self_pair_def resolved_pair_def)
  moreover have "\<exists>st. resolveEdges [] known listed
      \<lparr>esEdges = [], esSeenEdges = [], esSkipped = 0, esWarnings = Map.empty\<rparr> = Inr st \<and>
      length (esEdges st) = 1 \<and> esSkipped st = 0 \<and> warningSummaries (esWarnings st) = []"
    by (simp add: known_def listed_def resolveEdge_def Let_def resolveAlias_def edgeKey_def
        warningSummaries_def warningSummary_def)
  ultimately show ?thesis by blast
qed

text \<open>
  The identity key joins bom-ref and name with U+001F: two different components without a package URL can
  share it, and collapsing then keeps only one of them.
\<close>

definition documentComponent :: "jstr \<Rightarrow> jstr \<Rightarrow> preparedComponent" where
  "documentComponent ref name = finishPrepared
     \<lparr>ncBomRef = Some ref, ncName = name, ncNamespace = None, ncEcosystem = None,
      ncIdentityState = unsupported, ncVersionlessPurl = None, ncVersionedPurl = None,
      ncVersion = UnknownVersion None, ncIsDirect = None,
      ncIdentityKey = js ''unresolved:unsupported'' @ 31 # ref @ 31 # name\<rparr> None"

lemma collapse_loses_component:
  "\<exists>p q cd. prepared_ok p \<and> prepared_ok q \<and> ncBomRef (pcComponent p) \<noteq> ncBomRef (pcComponent q) \<and>
     ncName (pcComponent p) \<noteq> ncName (pcComponent q) \<and>
     collapseOccurrences [p, q] = Inr cd \<and> cdComponents cd = [pcComponent p] \<and>
     components_ok (cdComponents cd)"
proof -
  define p where "p = documentComponent [97] [98, 31, 99]"
  define q where "q = documentComponent [97, 31, 98] [99]"
  have p: "prepared_ok p" and q: "prepared_ok q"
    by (simp_all add: p_def q_def documentComponent_def finishPrepared_def prepared_ok_def identified_def
        component_ok_def identityInputOf_def identityKeyText_def orEmpty_def catalog_defs js_def)
  moreover have "\<exists>cd. collapseOccurrences [p, q] = Inr cd \<and> cdComponents cd = [pcComponent p]"
    by (simp add: p_def q_def documentComponent_def finishPrepared_def collapseOccurrences_def
        componentOccurrenceNormalizationKey_def newOccurrence_def Let_def occurrenceAliasConflict_def
        aliasFacts_def sameVersionKind_def absorb_def bomRefList_def finishOccurrence_def
        earliestText_def js_less_def js_def)
  moreover have "components_ok [pcComponent p]"
    using p by (auto simp: components_ok_def prepared_ok_def split: option.splits)
  ultimately show ?thesis
    by (intro exI [of _ p] exI [of _ q])
      (auto simp: p_def q_def documentComponent_def finishPrepared_def)
qed

end
