(* ===== verification/SbomStructure.thy ===== *)
theory SbomStructure
  imports SbomDocuments
begin

text \<open>
  The structural inspection of untrusted JSON (\<^verbatim>\<open>packages/sbom/src/json-structure.ts\<close>), which runs before the
  schema validation and the normalizer.
  The mutable node counter is passed along; the inspection of an object stops at its first failing key.
\<close>

subsection \<open>Inspection\<close>

fun inspectNode :: "sbomParserLimits \<Rightarrow> json \<Rightarrow> nat \<Rightarrow> nat \<Rightarrow> safeFailureCode + nat"
  and inspectItems :: "sbomParserLimits \<Rightarrow> json list \<Rightarrow> nat \<Rightarrow> nat \<Rightarrow> safeFailureCode + nat"
  and inspectEntries :: "sbomParserLimits \<Rightarrow> (jstr \<times> json) list \<Rightarrow> nat \<Rightarrow> nat \<Rightarrow> safeFailureCode + nat"
where
  "inspectNode limits value depth nodes =
     (if depth > jsonMaxDepth limits then Inl json_depth
      else if nodes + 1 > jsonMaxNodes limits then Inl json_nodes
      else case value of
        JString s \<Rightarrow>
          if utf8ByteLength s > jsonMaxStringBytes limits then Inl json_string_length
          else Inr (nodes + 1)
      | JNull \<Rightarrow> Inr (nodes + 1)
      | JNumber _ \<Rightarrow> Inr (nodes + 1)
      | JBool _ \<Rightarrow> Inr (nodes + 1)
      | JArray items \<Rightarrow> inspectItems limits items (depth + 1) (nodes + 1)
      | JObject entries \<Rightarrow> inspectEntries limits entries (depth + 1) (nodes + 1))"
| "inspectItems limits [] depth nodes = Inr nodes"
| "inspectItems limits (item # items) depth nodes =
     (case inspectNode limits item depth nodes of
        Inl code \<Rightarrow> Inl code
      | Inr nodes' \<Rightarrow> inspectItems limits items depth nodes')"
| "inspectEntries limits [] depth nodes = Inr nodes"
| "inspectEntries limits ((key, value) # entries) depth nodes =
     (if key \<in> set FORBIDDEN_OBJECT_KEYS then Inl prototype_pollution
      else case inspectNode limits value depth nodes of
        Inl code \<Rightarrow> Inl code
      | Inr nodes' \<Rightarrow> inspectEntries limits entries depth nodes')"

declare inspectNode.simps [simp del]

definition inspectJsonStructure :: "json \<Rightarrow> sbomParserLimits \<Rightarrow> safeFailureCode + unit" where
  "inspectJsonStructure value limits = map_sum id (\<lambda>_. ()) (inspectNode limits value 1 0)"

text \<open>
  What the inspection is meant to bound: the nesting depth with the root at depth 1, the number of values,
  the UTF-8 length of every string value, and the keys of every object at any depth.
\<close>

fun tameOf :: "nat \<Rightarrow> json \<Rightarrow> bool" and tameItems :: "nat \<Rightarrow> json list \<Rightarrow> bool"
  and tameEntries :: "nat \<Rightarrow> (jstr \<times> json) list \<Rightarrow> bool"
where
  "tameOf m (JString s) = (utf8ByteLength s \<le> m)"
| "tameOf m (JArray items) = tameItems m items"
| "tameOf m (JObject entries) = tameEntries m entries"
| "tameOf m _ = True"
| "tameItems m [] = True"
| "tameItems m (x # xs) = (tameOf m x \<and> tameItems m xs)"
| "tameEntries m [] = True"
| "tameEntries m ((k, v) # es) = (k \<notin> set FORBIDDEN_OBJECT_KEYS \<and> tameOf m v \<and> tameEntries m es)"

lemma inspect_iff:
  "inspectNode limits v d n = Inr m \<longleftrightarrow> d + heightOf v \<le> Suc (jsonMaxDepth limits) \<and>
     n + nodesOf v \<le> jsonMaxNodes limits \<and> tameOf (jsonMaxStringBytes limits) v \<and> m = n + nodesOf v"
  "d \<le> Suc (jsonMaxDepth limits) \<Longrightarrow> n \<le> jsonMaxNodes limits \<Longrightarrow>
   inspectItems limits xs d n = Inr m \<longleftrightarrow> d + heightItems xs \<le> Suc (jsonMaxDepth limits) \<and>
     n + nodesItems xs \<le> jsonMaxNodes limits \<and> tameItems (jsonMaxStringBytes limits) xs \<and> m = n + nodesItems xs"
  "d \<le> Suc (jsonMaxDepth limits) \<Longrightarrow> n \<le> jsonMaxNodes limits \<Longrightarrow>
   inspectEntries limits es d n = Inr m \<longleftrightarrow> d + heightEntries es \<le> Suc (jsonMaxDepth limits) \<and>
     n + nodesEntries es \<le> jsonMaxNodes limits \<and> tameEntries (jsonMaxStringBytes limits) es \<and>
     m = n + nodesEntries es"
proof (induction limits v d n and limits xs d n and limits es d n
    arbitrary: m and m and m rule: inspectNode_inspectItems_inspectEntries.induct)
  case (1 limits v depth nodes)
  show ?case
  proof (cases v)
    case (JArray xs)
    then show ?thesis
      using 1(1) [OF _ _ JArray, of m] by (auto simp: inspectNode.simps not_less)
  next
    case (JObject es)
    then show ?thesis
      using 1(2) [OF _ _ JObject, of m] by (auto simp: inspectNode.simps not_less)
  qed (auto simp: inspectNode.simps not_less)
next
  case (2 limits depth nodes)
  then show ?case by auto
next
  case (3 limits item items depth nodes)
  show ?case
  proof (cases "inspectNode limits item depth nodes")
    case (Inl code)
    with 3(1) [of "nodes + nodesOf item"] show ?thesis by (auto simp: add_max_le)
  next
    case (Inr nodes')
    with 3(1) [of nodes'] 3(2) [OF Inr, of m] 3(3) show ?thesis by (auto simp: add_max_le)
  qed
next
  case (4 limits depth nodes)
  then show ?case by auto
next
  case (5 limits key v entries depth nodes)
  show ?case
  proof (cases "key \<in> set FORBIDDEN_OBJECT_KEYS")
    case True
    then show ?thesis by simp
  next
    case False
    show ?thesis
    proof (cases "inspectNode limits v depth nodes")
      case (Inl code)
      with False 5(1) [OF False, of "nodes + nodesOf v"] show ?thesis by (auto simp: add_max_le)
    next
      case (Inr nodes')
      with False 5(1) [OF False, of nodes'] 5(2) [OF False Inr, of m] 5(3) show ?thesis
        by (auto simp: add_max_le)
    qed
  qed
qed

text \<open>
  C34. The structural inspection accepts a parsed document exactly when it stays inside the limits: the
  nesting depth (root at depth 1) and the number of values are bounded, every string value is short
  enough, and no object at any depth has a key that reaches the prototype.
\<close>

theorem inspection_exact:
  "inspectJsonStructure v limits = Inr u \<longleftrightarrow> heightOf v \<le> jsonMaxDepth limits \<and>
     nodesOf v \<le> jsonMaxNodes limits \<and> tameOf (jsonMaxStringBytes limits) v"
proof -
  have "inspectJsonStructure v limits = Inr u \<longleftrightarrow> (\<exists>m. inspectNode limits v 1 0 = Inr m)"
    by (cases "inspectNode limits v 1 0") (simp_all add: inspectJsonStructure_def)
  then show ?thesis by (simp add: inspect_iff)
qed

end
