(* ===== verification/FactAssembly.thy ===== *)
theory FactAssembly
  imports PolicyEngine
begin

text \<open>
  Fact assembly for one finding, \<^verbatim>\<open>packages/domain/src/risk/fact-assembly.ts\<close>: eligibility, the canonical
  CVEs, the KEV fact, the ten priority facts and the source ids of a calculation.

  The facts are values of the same type the policy engine parses, so the two packages meet here. A
  \<^verbatim>\<open>Date\<close> is its time value, \<open>None\<close> when it is invalid or not a \<^verbatim>\<open>Date\<close> (both take the same branch).
  The age is an exact integer division: the code divides doubles, but a quotient of at most 36501 differs
  from the next integer by at least 1/86400000, far more than the rounding error, so the floor is exact
  wherever it is not rejected anyway.
\<close>

subsection \<open>Source rows\<close>

datatype findingState =
    finding_open | finding_verification_pending | finding_risk_accepted | finding_mitigated
  | finding_false_positive | finding_resolved | finding_inconclusive

datatype environmentSensitivityClass = env_production | env_non_production

datatype internetExposure = exposure_internet_facing | exposure_internal | exposure_unknown

datatype businessCriticality =
    criticality_critical | criticality_high | criticality_medium | criticality_low
  | criticality_unspecified

datatype assetDataClassification =
    data_restricted | data_confidential | data_internal | data_public | data_unspecified

datatype advisoryWithdrawnToken = withdrawn | not_withdrawn

datatype activeKevCatalogFreshness = fresh_current | fresh_stale | fresh_disabled_with_history

record kevEntry =
  kvCve :: jstr
  kvCatalogVersion :: jstr
  kvCatalogReleasedAt :: int
  kvFreshness :: activeKevCatalogFreshness

datatype activeKevMembership =
    KevUnavailable
  | KevAbsent kevEntry
  | KevListed kevEntry jstr jstr jstr

datatype findingRiskBindingClassification = one_cve_alias_evidence | provider_native_without_cve

record findingRiskSourceFinding =
  sfId :: jstr
  sfOrganizationId :: jstr
  sfState :: findingState
  sfVersion :: int
  sfFirstObservedAt :: "int option"
  sfCurrentRiskCalculationId :: "jstr option"
  sfDueAt :: "int option"
  sfAssetId :: jstr

record findingRiskSourceAsset =
  saSensitivityClass :: "environmentSensitivityClass option"
  saInternetExposure :: internetExposure
  saBusinessCriticality :: businessCriticality
  saDataClassification :: assetDataClassification

record findingRiskCreationEvidence =
  ceEvidenceId :: jstr
  ceAdvisoryRevisionId :: jstr
  ceComponentOccurrenceId :: jstr
  ceVulnerabilityId :: jstr
  ceSbomIngestionId :: jstr
  ceIsDirect :: "bool option"
  ceWithdrawalClassification :: advisoryWithdrawnToken
  ceBindingClassification :: findingRiskBindingClassification
  ceCanonicalCves :: "jstr list"

record findingRiskSourceSnapshot =
  ssFinding :: findingRiskSourceFinding
  ssAsset :: "findingRiskSourceAsset option"
  ssCreationEvidence :: "findingRiskCreationEvidence list"
  ssHasControlledCreationObservation :: bool

subsection \<open>Eligibility and canonical CVEs\<close>

datatype findingRiskIneligibleReason =
    state_not_open | version_not_one | current_risk_calculation_present | due_at_present
  | controlled_creation_observation_absent | creation_evidence_absent

text \<open>\<open>None\<close> is the eligible outcome.\<close>

definition assessFindingRiskEligibility ::
  "findingRiskSourceSnapshot \<Rightarrow> findingRiskIneligibleReason option" where
  "assessFindingRiskEligibility snapshot =
     (if sfState (ssFinding snapshot) \<noteq> finding_open then Some state_not_open
      else if sfVersion (ssFinding snapshot) \<noteq> 1 then Some version_not_one
      else if sfCurrentRiskCalculationId (ssFinding snapshot) \<noteq> None
      then Some current_risk_calculation_present
      else if sfDueAt (ssFinding snapshot) \<noteq> None then Some due_at_present
      else if \<not> ssHasControlledCreationObservation snapshot
      then Some controlled_creation_observation_absent
      else if length (ssCreationEvidence snapshot) = 0 then Some creation_evidence_absent
      else None)"

definition oneCanonicalCve :: "jstr list \<Rightarrow> jstr option" where
  "oneCanonicalCve canonicalCves = (case canonicalCves of [cve] \<Rightarrow> Some cve | _ \<Rightarrow> None)"

text \<open>\<open>None\<close> is the failure \<^verbatim>\<open>canonical_cve_cardinality\<close>; \<open>seen\<close> holds the strings pushed so far.\<close>

fun selectCves :: "findingRiskCreationEvidence list \<Rightarrow> jstr list \<Rightarrow> jstr list option" where
  "selectCves [] seen = Some []"
| "selectCves (row # rows) seen =
     (case ceBindingClassification row of
        provider_native_without_cve \<Rightarrow> selectCves rows seen
      | one_cve_alias_evidence \<Rightarrow>
          (case oneCanonicalCve (ceCanonicalCves row) of
             None \<Rightarrow> None
           | Some cve \<Rightarrow>
               if cve \<in> set seen then selectCves rows seen
               else map_option ((#) cve) (selectCves rows (cve # seen))))"

definition selectFindingRiskCanonicalCves :: "findingRiskSourceSnapshot \<Rightarrow> jstr list option" where
  "selectFindingRiskCanonicalCves snapshot = selectCves (ssCreationEvidence snapshot) []"

subsection \<open>The KEV fact\<close>

datatype findingRiskKevMappingFailureCode =
    membership_count_mismatch | listed_freshness_disagreement | unknown_token_disagreement
  | membership_status_disagreement

definition observedFact :: "jstr \<Rightarrow> fact" where
  "observedFact token = Fact observed (Some (js ''value'', PText token))"

definition unknownFact :: "jstr \<Rightarrow> fact" where
  "unknownFact token = Fact unknown (Some (js ''value'', PText token))"

definition unavailableBecause :: "jstr \<Rightarrow> fact" where
  "unavailableBecause reason = Fact unavailable (Some (js ''reason'', PText reason))"

definition UNAVAILABLE_FACT :: fact where
  "UNAVAILABLE_FACT = Fact unavailable None"

fun listedCatalogToken :: "activeKevCatalogFreshness \<Rightarrow> jstr" where
  "listedCatalogToken fresh_current = js ''listed_catalog_current''"
| "listedCatalogToken fresh_stale = js ''listed_catalog_stale''"
| "listedCatalogToken fresh_disabled_with_history = js ''listed_catalog_disabled_with_history''"

definition listedFact ::
  "activeKevCatalogFreshness list \<Rightarrow> findingRiskKevMappingFailureCode + fact" where
  "listedFact listed =
     (case listed of
        [] \<Rightarrow> Inl membership_status_disagreement
      | first # _ \<Rightarrow>
          if list_ex (\<lambda>freshness. freshness \<noteq> first) listed then Inl listed_freshness_disagreement
          else Inr (observedFact (listedCatalogToken first)))"

text \<open>The switch of \<^verbatim>\<open>unknownAbsenceToken\<close> has no case for a current catalog, which its type excludes.\<close>

fun unknownAbsenceToken :: "activeKevCatalogFreshness \<Rightarrow> jstr option" where
  "unknownAbsenceToken fresh_stale = Some (js ''absent_catalog_stale'')"
| "unknownAbsenceToken fresh_disabled_with_history = Some (js ''absent_catalog_disabled_with_history'')"
| "unknownAbsenceToken fresh_current = None"

fun unknownFreshnessOf ::
  "activeKevCatalogFreshness list \<Rightarrow> activeKevCatalogFreshness option \<Rightarrow>
   findingRiskKevMappingFailureCode + activeKevCatalogFreshness option" where
  "unknownFreshnessOf [] unknownFreshness = Inr unknownFreshness"
| "unknownFreshnessOf (freshness # absent) unknownFreshness =
     (if freshness = fresh_current then unknownFreshnessOf absent unknownFreshness
      else case unknownFreshness of
        None \<Rightarrow> unknownFreshnessOf absent (Some freshness)
      | Some found \<Rightarrow>
          if found \<noteq> freshness then Inl unknown_token_disagreement
          else unknownFreshnessOf absent unknownFreshness)"

definition absentFact ::
  "activeKevCatalogFreshness list \<Rightarrow> findingRiskKevMappingFailureCode + fact" where
  "absentFact absent =
     (case unknownFreshnessOf absent None of
        Inl code \<Rightarrow> Inl code
      | Inr None \<Rightarrow> Inr (observedFact (js ''not_listed_catalog_current''))
      | Inr (Some freshness) \<Rightarrow>
          (case unknownAbsenceToken freshness of
             Some token \<Rightarrow> Inr (unknownFact token)
           | None \<Rightarrow> Inl membership_status_disagreement))"

fun listedFreshness :: "activeKevMembership \<Rightarrow> activeKevCatalogFreshness option" where
  "listedFreshness (KevListed kev _ _ _) = Some (kvFreshness kev)"
| "listedFreshness _ = None"

fun absentFreshness :: "activeKevMembership \<Rightarrow> activeKevCatalogFreshness option" where
  "absentFreshness (KevAbsent kev) = Some (kvFreshness kev)"
| "absentFreshness _ = None"

definition MAX_SAFE_INTEGER :: int where
  "MAX_SAFE_INTEGER = 9007199254740991"

fun isSafeInteger :: "jsnum \<Rightarrow> bool" where
  "isSafeInteger (Integral i) = (\<bar>i\<bar> \<le> MAX_SAFE_INTEGER)"
| "isSafeInteger _ = False"

definition mapActiveKevToListedFact ::
  "jsnum \<Rightarrow> activeKevMembership list \<Rightarrow> findingRiskKevMappingFailureCode + fact" where
  "mapActiveKevToListedFact canonicalCveCount memberships =
     (case canonicalCveCount of
        Integral i \<Rightarrow>
          if \<not> isSafeInteger canonicalCveCount \<or> i < 0 then Inl membership_count_mismatch
          else if int (length memberships) \<noteq> i then Inl membership_count_mismatch
          else if i = 0 then Inr (unavailableBecause (js ''no_canonical_cve''))
          else
            (let listed = List.map_filter listedFreshness memberships;
                 absent = List.map_filter absentFreshness memberships;
                 unavailableCount = length (filter (\<lambda>m. m = KevUnavailable) memberships)
             in if unavailableCount = length memberships
                then Inr (unavailableBecause (js ''no_active_generation''))
                else if unavailableCount > 0 then Inl membership_status_disagreement
                else if length listed > 0 then listedFact listed
                else if length absent \<noteq> length memberships then Inl membership_status_disagreement
                else absentFact absent)
      | _ \<Rightarrow> Inl membership_count_mismatch)"

subsection \<open>The ten facts\<close>

datatype findingRiskFactAssemblyFailureCode =
    finding_age_out_of_range | advisory_withdrawal_disagreement

definition MILLISECONDS_PER_DAY :: int where
  "MILLISECONDS_PER_DAY = 86400000"

definition PRIORITY_FINDING_AGE_DAYS_MAX :: int where
  [catalog_defs]: "PRIORITY_FINDING_AGE_DAYS_MAX = 36500"

definition findingAgeDays ::
  "int option \<Rightarrow> int option \<Rightarrow> findingRiskFactAssemblyFailureCode + int" where
  "findingAgeDays firstObservedAt asOf =
     (case (firstObservedAt, asOf) of
        (Some origin, Some clock) \<Rightarrow>
          (let ageDays = (clock - origin) div MILLISECONDS_PER_DAY
           in if ageDays < 0 \<or> ageDays > PRIORITY_FINDING_AGE_DAYS_MAX
              then Inl finding_age_out_of_range else Inr ageDays)
      | _ \<Rightarrow> Inl finding_age_out_of_range)"

fun withdrawnToken :: "advisoryWithdrawnToken \<Rightarrow> jstr" where
  "withdrawnToken withdrawn = js ''withdrawn''"
| "withdrawnToken not_withdrawn = js ''not_withdrawn''"

definition advisoryWithdrawnFact ::
  "findingRiskCreationEvidence list \<Rightarrow> findingRiskFactAssemblyFailureCode + fact" where
  "advisoryWithdrawnFact evidence =
     (case evidence of
        [] \<Rightarrow> Inr UNAVAILABLE_FACT
      | first # _ \<Rightarrow>
          (let classification = ceWithdrawalClassification first
           in if list_ex (\<lambda>row. ceWithdrawalClassification row \<noteq> classification) evidence
              then Inl advisory_withdrawal_disagreement
              else Inr (observedFact (withdrawnToken classification))))"

definition environmentFact :: "findingRiskSourceAsset option \<Rightarrow> fact" where
  "environmentFact asset =
     (case asset of
        None \<Rightarrow> UNAVAILABLE_FACT
      | Some a \<Rightarrow>
          (case saSensitivityClass a of
             None \<Rightarrow> UNAVAILABLE_FACT
           | Some env_production \<Rightarrow> observedFact (js ''production'')
           | Some env_non_production \<Rightarrow> observedFact (js ''non_production'')))"

definition internetExposureFact :: "findingRiskSourceAsset option \<Rightarrow> fact" where
  "internetExposureFact asset =
     (case asset of
        None \<Rightarrow> UNAVAILABLE_FACT
      | Some a \<Rightarrow>
          (case saInternetExposure a of
             exposure_unknown \<Rightarrow> unknownFact (js ''unknown'')
           | exposure_internet_facing \<Rightarrow> observedFact (js ''internet_facing'')
           | exposure_internal \<Rightarrow> observedFact (js ''internal'')))"

definition businessCriticalityFact :: "findingRiskSourceAsset option \<Rightarrow> fact" where
  "businessCriticalityFact asset =
     (case asset of
        None \<Rightarrow> UNAVAILABLE_FACT
      | Some a \<Rightarrow>
          (case saBusinessCriticality a of
             criticality_unspecified \<Rightarrow> unknownFact (js ''unspecified'')
           | criticality_critical \<Rightarrow> observedFact (js ''critical'')
           | criticality_high \<Rightarrow> observedFact (js ''high'')
           | criticality_medium \<Rightarrow> observedFact (js ''medium'')
           | criticality_low \<Rightarrow> observedFact (js ''low'')))"

definition dataClassificationFact :: "findingRiskSourceAsset option \<Rightarrow> fact" where
  "dataClassificationFact asset =
     (case asset of
        None \<Rightarrow> UNAVAILABLE_FACT
      | Some a \<Rightarrow>
          (case saDataClassification a of
             data_unspecified \<Rightarrow> unknownFact (js ''unspecified'')
           | data_restricted \<Rightarrow> observedFact (js ''restricted'')
           | data_confidential \<Rightarrow> observedFact (js ''confidential'')
           | data_internal \<Rightarrow> observedFact (js ''internal'')
           | data_public \<Rightarrow> observedFact (js ''public'')))"

definition directDependencyFact :: "findingRiskCreationEvidence list \<Rightarrow> fact" where
  "directDependencyFact evidence =
     (case evidence of
        [] \<Rightarrow> UNAVAILABLE_FACT
      | first # _ \<Rightarrow>
          (case ceIsDirect first of
             None \<Rightarrow> UNAVAILABLE_FACT
           | Some isDirect \<Rightarrow>
               if list_ex (\<lambda>row. ceIsDirect row \<noteq> Some isDirect) evidence then UNAVAILABLE_FACT
               else observedFact (if isDirect then js ''direct'' else js ''transitive'')))"

definition copyKevFact :: "fact \<Rightarrow> fact" where
  "copyKevFact kev = Fact (factState kev) (factPayload kev)"

definition assemblePriorityFacts ::
  "findingRiskSourceSnapshot \<Rightarrow> fact \<Rightarrow> int option \<Rightarrow> findingRiskFactAssemblyFailureCode + facts" where
  "assemblePriorityFacts snapshot kevFact asOf =
     (case findingAgeDays (sfFirstObservedAt (ssFinding snapshot)) asOf of
        Inl failure \<Rightarrow> Inl failure
      | Inr ageDays \<Rightarrow>
          (case advisoryWithdrawnFact (ssCreationEvidence snapshot) of
             Inl failure \<Rightarrow> Inl failure
           | Inr withdrawnFact \<Rightarrow>
               Inr [(source_severity, UNAVAILABLE_FACT),
                 (kev_listed, copyKevFact kevFact),
                 (environment_sensitivity, environmentFact (ssAsset snapshot)),
                 (internet_exposure, internetExposureFact (ssAsset snapshot)),
                 (business_criticality, businessCriticalityFact (ssAsset snapshot)),
                 (asset_data_classification, dataClassificationFact (ssAsset snapshot)),
                 (direct_dependency, directDependencyFact (ssCreationEvidence snapshot)),
                 (fix_available, UNAVAILABLE_FACT),
                 (finding_age_days, Fact observed (Some (js ''value'', PNum ageDays))),
                 (advisory_withdrawn, withdrawnFact)]))"

subsection \<open>Source ids\<close>

fun uniqueFrom :: "jstr list \<Rightarrow> jstr list \<Rightarrow> jstr list" where
  "uniqueFrom seen [] = []"
| "uniqueFrom seen (v # vs) =
     (if v \<in> set seen then uniqueFrom seen vs else v # uniqueFrom (v # seen) vs)"

definition uniqueIds :: "jstr list \<Rightarrow> jstr list" where
  "uniqueIds values = uniqueFrom [] values"

datatype riskCalculationKevSourceV2 =
    KevSourceUnavailable jstr
  | KevSourceCatalog jstr jstr jstr "jstr option" "jstr option"

record riskCalculationFactorSourcesV2 =
  rsEvidenceIds :: "jstr list"
  rsAdvisoryRevisionIds :: "jstr list"
  rsComponentOccurrenceIds :: "jstr list"
  rsIntelligenceSourceRecordIds :: "jstr list"
  rsKev :: riskCalculationKevSourceV2

definition assembleRiskCalculationFactorSources ::
  "findingRiskSourceSnapshot \<Rightarrow> riskCalculationKevSourceV2 \<Rightarrow> riskCalculationFactorSourcesV2" where
  "assembleRiskCalculationFactorSources snapshot kev =
     \<lparr>rsEvidenceIds = uniqueIds (map ceEvidenceId (ssCreationEvidence snapshot)),
      rsAdvisoryRevisionIds = uniqueIds (map ceAdvisoryRevisionId (ssCreationEvidence snapshot)),
      rsComponentOccurrenceIds = uniqueIds (map ceComponentOccurrenceId (ssCreationEvidence snapshot)),
      rsIntelligenceSourceRecordIds = [], rsKev = kev\<rparr>"

subsection \<open>Assembled facts are facts the engine accepts\<close>

lemma token_fact_wf:
  "wf_fact (TokenSpec obs unk why) (observedFact t) \<longleftrightarrow> t \<in> set obs"
  "wf_fact (TokenSpec obs unk why) (unknownFact t) \<longleftrightarrow> t \<in> set unk"
  "wf_fact (TokenSpec obs unk why) (unavailableBecause t) \<longleftrightarrow> t \<in> set why"
  "wf_fact (TokenSpec obs unk []) UNAVAILABLE_FACT"
  "wf_fact SeveritySpec UNAVAILABLE_FACT"
  by (auto simp: observedFact_def unknownFact_def unavailableBecause_def UNAVAILABLE_FACT_def
      payloadKey_def wf_payload_def)

lemma age_fact_wf:
  "wf_fact AgeSpec (Fact observed (Some (js ''value'', PNum n))) \<longleftrightarrow> 0 \<le> n \<and> n \<le> FINDING_AGE_DAYS_MAX"
  by (simp add: payloadKey_def wf_payload_def)

lemmas token_catalogs = KEV_OBSERVED_TOKENS_def KEV_LISTED_TOKENS_def KEV_UNKNOWN_TOKENS_def
  KEV_UNAVAILABLE_REASONS_def ENVIRONMENT_SENSITIVITY_TOKENS_def INTERNET_EXPOSURE_TOKENS_def
  INTERNET_EXPOSURE_UNKNOWN_TOKENS_def BUSINESS_CRITICALITY_TOKENS_def
  BUSINESS_CRITICALITY_UNKNOWN_TOKENS_def ASSET_DATA_CLASSIFICATION_TOKENS_def
  ASSET_DATA_CLASSIFICATION_UNKNOWN_TOKENS_def DIRECT_DEPENDENCY_TOKENS_def
  ADVISORY_WITHDRAWN_TOKENS_def

abbreviation kevSpec :: factorSpec where
  "kevSpec \<equiv> FACTOR_SPECS kev_listed"

lemma listedFact_wf: "listedFact fs = Inr x \<Longrightarrow> wf_fact kevSpec x"
proof -
  have "listedCatalogToken f \<in> set KEV_OBSERVED_TOKENS" for f
    by (cases f) (simp_all add: token_catalogs)
  then show "listedFact fs = Inr x \<Longrightarrow> wf_fact kevSpec x"
    by (auto simp: listedFact_def token_fact_wf split: list.splits if_splits)
qed

lemma absentFact_wf: "absentFact fs = Inr x \<Longrightarrow> wf_fact kevSpec x"
proof -
  have "unknownAbsenceToken f = Some t \<Longrightarrow> t \<in> set KEV_UNKNOWN_TOKENS" for f t
    by (cases f) (simp_all add: token_catalogs)
  then show "absentFact fs = Inr x \<Longrightarrow> wf_fact kevSpec x"
    by (auto simp: absentFact_def token_fact_wf token_catalogs split: sum.splits option.splits)
qed

lemma kev_unavailable_wf:
  "wf_fact kevSpec (unavailableBecause (js ''no_canonical_cve''))"
  "wf_fact kevSpec (unavailableBecause (js ''no_active_generation''))"
  by (simp_all add: token_fact_wf token_catalogs)

lemma kevFact_wf: "mapActiveKevToListedFact n ms = Inr x \<Longrightarrow> wf_fact kevSpec x"
  by (auto simp: mapActiveKevToListedFact_def Let_def kev_unavailable_wf simp del: FACTOR_SPECS.simps
      intro: listedFact_wf absentFact_wf split: jsnum.splits if_splits)

lemma copyKevFact_id [simp]: "copyKevFact x = x"
  by (simp add: copyKevFact_def)

lemma asset_facts_wf:
  "wf_fact (FACTOR_SPECS environment_sensitivity) (environmentFact a)"
  "wf_fact (FACTOR_SPECS internet_exposure) (internetExposureFact a)"
  "wf_fact (FACTOR_SPECS business_criticality) (businessCriticalityFact a)"
  "wf_fact (FACTOR_SPECS asset_data_classification) (dataClassificationFact a)"
  by (auto simp: environmentFact_def internetExposureFact_def businessCriticalityFact_def
      dataClassificationFact_def token_fact_wf token_catalogs split: option.splits
      environmentSensitivityClass.splits internetExposure.splits businessCriticality.splits
      assetDataClassification.splits)

lemma evidence_facts_wf:
  "wf_fact (FACTOR_SPECS direct_dependency) (directDependencyFact es)"
  "advisoryWithdrawnFact es = Inr x \<Longrightarrow> wf_fact (FACTOR_SPECS advisory_withdrawn) x"
proof -
  show "wf_fact (FACTOR_SPECS direct_dependency) (directDependencyFact es)"
    by (auto simp: directDependencyFact_def token_fact_wf token_catalogs split: list.splits option.splits)
  have "withdrawnToken w \<in> set ADVISORY_WITHDRAWN_TOKENS" for w
    by (cases w) (simp_all add: token_catalogs)
  then show "advisoryWithdrawnFact es = Inr x \<Longrightarrow> wf_fact (FACTOR_SPECS advisory_withdrawn) x"
    by (auto simp: advisoryWithdrawnFact_def Let_def token_fact_wf split: list.splits if_splits)
qed

lemma findingAgeDays_range:
  "findingAgeDays a b = Inr n \<Longrightarrow> 0 \<le> n \<and> n \<le> FINDING_AGE_DAYS_MAX"
  by (auto simp: findingAgeDays_def Let_def PRIORITY_FINDING_AGE_DAYS_MAX_def FINDING_AGE_DAYS_MAX_def
      split: option.splits if_splits)

lemma assembled_wf:
  assumes "assemblePriorityFacts s kev asOf = Inr fs" "wf_fact kevSpec kev"
  shows "wf_facts fs"
proof -
  from assms(1) obtain n w where n: "findingAgeDays (sfFirstObservedAt (ssFinding s)) asOf = Inr n"
    and w: "advisoryWithdrawnFact (ssCreationEvidence s) = Inr w"
    by (auto simp: assemblePriorityFacts_def split: sum.splits)
  have spec: "wf_fact (FACTOR_SPECS source_severity) UNAVAILABLE_FACT"
    "wf_fact (FACTOR_SPECS fix_available) UNAVAILABLE_FACT"
    "wf_fact (FACTOR_SPECS finding_age_days) (Fact observed (Some (js ''value'', PNum n)))"
    using findingAgeDays_range [OF n] by (simp_all only: FACTOR_SPECS.simps token_fact_wf age_fact_wf)
  from assms(1) n w show ?thesis
    using spec asset_facts_wf evidence_facts_wf(1) evidence_facts_wf(2) [OF w] assms(2)
    by (auto simp: assemblePriorityFacts_def wf_facts_def FACTOR_IDS_def simp del: FACTOR_SPECS.simps)
qed

lemma validated_after_parse:
  "validatedDefinitions (fst (parseFactInput g input)) = validatedDefinitions g"
  by (simp add: parseFactInput_def Let_def split: sum.splits)

lemma engine_evaluates:
  assumes "reachable g" "wf_facts fs" "isValidatedPriorityPolicyDefinition g d"
  shows "\<exists>g' ref e. parseFactInput g (factsToJs fs) = (g', Inr ref) \<and> evaluatePriority g' d ref = Inr e"
proof -
  define g' where "g' = fst (parseFactInput g (factsToJs fs))"
  have p: "parseFactInput g (factsToJs fs) = (g', Inr (nextObject g))"
    "map_of (parsedFactInputs g') (nextObject g) = Some fs"
    by (simp_all add: g'_def parseFactInput_def Let_def parseFacts_factsToJs [OF assms(2)])
  obtain x where x: "map_of (validatedDefinitions g) d = Some x"
    using assms(3) by (auto simp: isValidatedPriorityPolicyDefinition_def)
  then have "wf_definition x" using branded(1) [OF reachable_inv [OF assms(1)]] by blast
  then obtain e where "evaluateFacts x fs = Inr e" using evaluateFacts_eq [of x fs] assms(2) by blast
  moreover have "map_of (validatedDefinitions g') d = Some x"
    using x by (simp add: g'_def validated_after_parse)
  ultimately have "evaluatePriority g' d (nextObject g) = Inr e"
    by (simp add: evaluatePriority_def p(2))
  with p(1) show ?thesis by blast
qed

text \<open>
  C22. Domain and engine agree on the facts: whatever finding, asset, evidence and KEV memberships the
  assembly accepts, the policy engine parses the assembled facts without an issue and evaluates them
  under every policy it has validated. No assembled calculation fails in the engine.
\<close>

theorem assembled_facts_evaluate:
  assumes "mapActiveKevToListedFact n memberships = Inr kev"
    and "assemblePriorityFacts snapshot kev asOf = Inr fs"
    and "reachable g" "isValidatedPriorityPolicyDefinition g d"
  shows "\<exists>g' ref e. parseFactInput g (factsToJs fs) = (g', Inr ref) \<and> evaluatePriority g' d ref = Inr e"
  using engine_evaluates [OF assms(3) assembled_wf [OF assms(2) kevFact_wf [OF assms(1)]] assms(4)] .

definition exampleEvidence :: findingRiskCreationEvidence where
  "exampleEvidence =
     \<lparr>ceEvidenceId = js ''e1'', ceAdvisoryRevisionId = js ''r1'', ceComponentOccurrenceId = js ''c1'',
      ceVulnerabilityId = js ''v1'', ceSbomIngestionId = js ''i1'', ceIsDirect = Some True,
      ceWithdrawalClassification = not_withdrawn, ceBindingClassification = one_cve_alias_evidence,
      ceCanonicalCves = [js ''CVE-2024-0001'']\<rparr>"

definition exampleSnapshot :: findingRiskSourceSnapshot where
  "exampleSnapshot =
     \<lparr>ssFinding = \<lparr>sfId = js ''f1'', sfOrganizationId = js ''o1'', sfState = finding_open, sfVersion = 1,
        sfFirstObservedAt = Some 0, sfCurrentRiskCalculationId = None, sfDueAt = None,
        sfAssetId = js ''a1''\<rparr>,
      ssAsset = Some \<lparr>saSensitivityClass = Some env_production,
        saInternetExposure = exposure_internet_facing, saBusinessCriticality = criticality_high,
        saDataClassification = data_unspecified\<rparr>,
      ssCreationEvidence = [exampleEvidence], ssHasControlledCreationObservation = True\<rparr>"

definition exampleMemberships :: "activeKevMembership list" where
  "exampleMemberships =
     [KevListed \<lparr>kvCve = js ''CVE-2024-0001'', kvCatalogVersion = js ''2024.01.01'', kvCatalogReleasedAt = 0,
        kvFreshness = fresh_current\<rparr> (js ''2024-01-01'') (js ''2024-02-01'') (js ''Unknown'')]"

lemma exampleKev:
  "mapActiveKevToListedFact (Integral 1) exampleMemberships = Inr (observedFact (js ''listed_catalog_current''))"
  by (simp add: mapActiveKevToListedFact_def exampleMemberships_def MAX_SAFE_INTEGER_def Let_def
      map_filter_simps listedFact_def)

lemma exampleAssembly:
  "\<exists>fs. assemblePriorityFacts exampleSnapshot kev (Some 864000000) = Inr fs"
  by (simp add: assemblePriorityFacts_def exampleSnapshot_def exampleEvidence_def findingAgeDays_def
      MILLISECONDS_PER_DAY_def PRIORITY_FINDING_AGE_DAYS_MAX_def Let_def advisoryWithdrawnFact_def)

lemma initial_validated: "isValidatedPriorityPolicyDefinition initialEngine 0"
  by (simp add: isValidatedPriorityPolicyDefinition_def initialEngine_def validatePolicyDefinition_def
      builtin_validates Let_def)

theorem assembled_facts_evaluate_witness:
  "\<exists>fs g' ref e. assemblePriorityFacts exampleSnapshot (observedFact (js ''listed_catalog_current''))
       (Some 864000000) = Inr fs \<and>
     parseFactInput initialEngine (factsToJs fs) = (g', Inr ref) \<and> evaluatePriority g' 0 ref = Inr e"
proof -
  obtain fs where fs: "assemblePriorityFacts exampleSnapshot
      (observedFact (js ''listed_catalog_current'')) (Some 864000000) = Inr fs"
    using exampleAssembly by blast
  from assembled_facts_evaluate [OF exampleKev fs reachable.init initial_validated] fs
  show ?thesis by blast
qed

subsection \<open>The KEV fact depends on the set of memberships only\<close>

lemma unknownFreshnessOf_Some:
  "f \<noteq> fresh_current \<Longrightarrow>
   unknownFreshnessOf fs (Some f) = Inr r \<longleftrightarrow> r = Some f \<and> set fs - {fresh_current} \<subseteq> {f}"
  by (induction fs) auto

lemma unknownFreshnessOf_iff:
  "unknownFreshnessOf fs None = Inr r \<longleftrightarrow>
     (case r of None \<Rightarrow> set fs \<subseteq> {fresh_current} | Some f \<Rightarrow> set fs - {fresh_current} = {f})"
proof (induction fs)
  case Nil
  then show ?case by (auto split: option.splits)
next
  case (Cons f fs)
  show ?case
  proof (cases "f = fresh_current")
    case True
    with Cons show ?thesis by (cases r) simp_all
  next
    case False
    then have "set (f # fs) - {fresh_current} = insert f (set fs - {fresh_current})" by auto
    moreover have "insert f A = {g} \<longleftrightarrow> g = f \<and> A \<subseteq> {f}" for A g by blast
    ultimately show ?thesis using False by (cases r) (auto simp: unknownFreshnessOf_Some)
  qed
qed

lemma unknownFreshnessOf_not_current: "unknownFreshnessOf fs None = Inr (Some f) \<Longrightarrow> f \<noteq> fresh_current"
  by (auto simp: unknownFreshnessOf_iff)

lemma unknownAbsenceToken_total: "f \<noteq> fresh_current \<Longrightarrow> \<exists>t. unknownAbsenceToken f = Some t"
  by (cases f) simp_all

definition listed_freshness :: "activeKevMembership set \<Rightarrow> activeKevCatalogFreshness set" where
  "listed_freshness M = {f. \<exists>m \<in> M. listedFreshness m = Some f}"

definition absent_freshness :: "activeKevMembership set \<Rightarrow> activeKevCatalogFreshness set" where
  "absent_freshness M = {f. \<exists>m \<in> M. absentFreshness m = Some f}"

text \<open>
  What the memberships of the canonical CVEs say together: nothing when there is no active catalog;
  listed when some CVE is listed and the listings agree on the catalog's freshness; not listed when every
  CVE is absent from a current catalog; unknown when every CVE is absent and some catalog is not current,
  provided those agree on how it is not current.
\<close>

definition kev_verdict :: "activeKevMembership set \<Rightarrow> fact \<Rightarrow> bool" where
  "kev_verdict M x \<longleftrightarrow>
     (if M = {KevUnavailable} then x = unavailableBecause (js ''no_active_generation'')
      else KevUnavailable \<notin> M \<and>
        (if listed_freshness M \<noteq> {}
         then \<exists>f. listed_freshness M = {f} \<and> x = observedFact (listedCatalogToken f)
         else if absent_freshness M \<subseteq> {fresh_current}
         then x = observedFact (js ''not_listed_catalog_current'')
         else \<exists>f t. absent_freshness M - {fresh_current} = {f} \<and> unknownAbsenceToken f = Some t \<and>
           x = unknownFact t))"

lemma set_map_filter_freshness:
  "set (List.map_filter listedFreshness ms) = listed_freshness (set ms)"
  "set (List.map_filter absentFreshness ms) = absent_freshness (set ms)"
  by (induction ms; auto simp: map_filter_simps listed_freshness_def absent_freshness_def
      split: option.splits)+

lemma listedFact_iff:
  "fs \<noteq> [] \<Longrightarrow> listedFact fs = Inr x \<longleftrightarrow> (\<exists>f. set fs = {f} \<and> x = observedFact (listedCatalogToken f))"
  by (cases fs) (auto simp: listedFact_def list_ex_iff)

lemma absentFact_iff:
  "absentFact fs = Inr x \<longleftrightarrow>
     (if set fs \<subseteq> {fresh_current} then x = observedFact (js ''not_listed_catalog_current'')
      else \<exists>f t. set fs - {fresh_current} = {f} \<and> unknownAbsenceToken f = Some t \<and> x = unknownFact t)"
proof (cases "unknownFreshnessOf fs None")
  case (Inl code)
  then have "\<not> set fs \<subseteq> {fresh_current}" "\<nexists>f. set fs - {fresh_current} = {f}"
    using unknownFreshnessOf_iff [of fs None] unknownFreshnessOf_iff [of fs "Some f" for f] by auto
  with Inl show ?thesis by (auto simp: absentFact_def)
next
  case (Inr r)
  show ?thesis
  proof (cases r)
    case None
    with Inr have "set fs \<subseteq> {fresh_current}" by (simp add: unknownFreshnessOf_iff)
    with Inr None show ?thesis by (auto simp: absentFact_def)
  next
    case (Some f)
    with Inr have f: "set fs - {fresh_current} = {f}" "f \<noteq> fresh_current"
      using unknownFreshnessOf_iff [of fs r] by auto
    then obtain t where "unknownAbsenceToken f = Some t" using unknownAbsenceToken_total by blast
    with Inr Some f show ?thesis by (auto simp: absentFact_def)
  qed
qed

lemma length_filter_all: "length (filter P xs) = length xs \<longleftrightarrow> (\<forall>x \<in> set xs. P x)"
proof (induction xs)
  case Nil
  then show ?case by simp
next
  case (Cons x xs)
  have "length (filter P xs) \<noteq> Suc (length xs)" by (metis Suc_n_not_le_n length_filter_le)
  with Cons show ?case by auto
qed

lemma unavailable_all:
  assumes "ms \<noteq> []"
  shows "length (filter (\<lambda>m. m = KevUnavailable) ms) = length ms \<longleftrightarrow> set ms = {KevUnavailable}"
  unfolding length_filter_all using assms by (cases ms) auto

lemma all_absent:
  assumes "KevUnavailable \<notin> set ms" "List.map_filter listedFreshness ms = []"
  shows "length (List.map_filter absentFreshness ms) = length ms"
  using assms
proof (induction ms)
  case Nil
  then show ?case by (simp add: map_filter_simps)
next
  case (Cons m ms)
  then show ?case by (cases m) (auto simp: map_filter_simps)
qed

lemma kev_mapping_iff:
  assumes "ms \<noteq> []" "int (length ms) \<le> MAX_SAFE_INTEGER"
  shows "mapActiveKevToListedFact (Integral (int (length ms))) ms = Inr x \<longleftrightarrow> kev_verdict (set ms) x"
proof (cases "KevUnavailable \<in> set ms")
  case True
  then have "filter (\<lambda>m. m = KevUnavailable) ms \<noteq> []" by (auto simp: filter_empty_conv)
  with True assms unavailable_all [of ms] show ?thesis
    by (auto simp: mapActiveKevToListedFact_def kev_verdict_def Let_def)
next
  case False
  then have none: "filter (\<lambda>m. m = KevUnavailable) ms = []" by (auto simp: filter_empty_conv)
  have not_all: "set ms \<noteq> {KevUnavailable}" using False by auto
  show ?thesis
  proof (cases "List.map_filter listedFreshness ms = []")
    case True
    then have "listed_freshness (set ms) = {}" using set_map_filter_freshness(1) [of ms] by simp
    with True False none not_all assms all_absent [OF False True] show ?thesis
      by (simp add: mapActiveKevToListedFact_def kev_verdict_def Let_def absentFact_iff
          set_map_filter_freshness)
  next
    case listed: False
    then have "listed_freshness (set ms) \<noteq> {}" using set_map_filter_freshness(1) [of ms] by auto
    with listed False none not_all assms show ?thesis
      by (simp add: mapActiveKevToListedFact_def kev_verdict_def Let_def listedFact_iff
          set_map_filter_freshness)
  qed
qed

text \<open>
  The KEV fact of a finding is exactly the joint verdict of its CVEs' memberships, whatever their
  order and however often one repeats: a listing anywhere makes the finding listed, absence counts as
  not listed only against a current catalog, and disagreeing evidence gives no fact at all.
\<close>

theorem kev_mapping_exact:
  assumes "ms \<noteq> []" "int (length ms) \<le> MAX_SAFE_INTEGER"
  shows "mapActiveKevToListedFact (Integral (int (length ms))) ms = Inr x \<longleftrightarrow> kev_verdict (set ms) x"
  using assms by (rule kev_mapping_iff)

theorem kev_mapping_exact_witness:
  "mapActiveKevToListedFact (Integral (int (length exampleMemberships))) exampleMemberships =
     Inr (observedFact (js ''listed_catalog_current'')) \<and>
   kev_verdict (set exampleMemberships) (observedFact (js ''listed_catalog_current''))"
  using kev_mapping_exact [of exampleMemberships "observedFact (js ''listed_catalog_current'')"] exampleKev
  by (simp add: exampleMemberships_def MAX_SAFE_INTEGER_def)

subsection \<open>Eligibility, canonical CVEs and source ids\<close>

definition cves_of :: "findingRiskCreationEvidence list \<Rightarrow> jstr set" where
  "cves_of rows = {c. \<exists>row \<in> set rows. ceBindingClassification row = one_cve_alias_evidence \<and>
     ceCanonicalCves row = [c]}"

lemma cves_of_Cons:
  "cves_of (row # rows) =
     (case (ceBindingClassification row, ceCanonicalCves row) of
        (one_cve_alias_evidence, [c]) \<Rightarrow> insert c (cves_of rows)
      | _ \<Rightarrow> cves_of rows)"
  by (auto simp: cves_of_def split: findingRiskBindingClassification.splits list.splits)

lemma selectCves_spec:
  "selectCves rows seen = Some cves \<Longrightarrow> distinct cves \<and> set cves = cves_of rows - set seen"
proof (induction rows arbitrary: cves seen)
  case Nil
  then show ?case by (simp add: cves_of_def)
next
  case (Cons row rows)
  show ?case
  proof (cases "ceBindingClassification row")
    case provider_native_without_cve
    with Cons show ?thesis by (simp add: cves_of_Cons)
  next
    case one_cve_alias_evidence
    with Cons.prems obtain c where c: "ceCanonicalCves row = [c]"
      by (auto simp: oneCanonicalCve_def split: list.splits)
    note row = one_cve_alias_evidence c oneCanonicalCve_def cves_of_Cons
    show ?thesis
    proof (cases "c \<in> set seen")
      case True
      with Cons.prems Cons.IH [of seen cves] row show ?thesis by auto
    next
      case False
      with Cons.prems row obtain ds where ds: "selectCves rows (c # seen) = Some ds" "cves = c # ds"
        by auto
      with Cons.IH [OF ds(1)] False row show ?thesis by auto
    qed
  qed
qed

lemma uniqueFrom_spec:
  "distinct (uniqueFrom seen vs) \<and> set (uniqueFrom seen vs) = set vs - set seen"
  by (induction seen vs rule: uniqueFrom.induct) auto

lemma uniqueIds_spec: "distinct (uniqueIds vs) \<and> set (uniqueIds vs) = set vs"
  using uniqueFrom_spec [of "[]" vs] by (simp add: uniqueIds_def)

end
