(* ===== verification/SyncFailures.thy ===== *)
theory SyncFailures
  imports DomainResult
begin

text \<open>
  \<^verbatim>\<open>packages/domain/src/intelligence/failures.ts\<close>: the closed catalog of safe failures of an
  intelligence synchronization, with the two number tests of \<^verbatim>\<open>normalize.ts\<close> and the errors of
  \<^verbatim>\<open>errors.ts\<close> the transitions use. The literal field \<^verbatim>\<open>freshnessMayAdvance: false\<close> is not carried.
\<close>

datatype intelligenceSafeFailureCategory =
    cat_configuration | cat_network | cat_timeout | cat_rate_limit | cat_provider | cat_content
   | cat_integrity | cat_schema | cat_structural_limit | cat_storage | cat_database | cat_parser
   | cat_catalog_regression | cat_internal

datatype intelligenceSafeFailureCode =
    provider_disabled | invalid_provider_source | dns_rejected | redirect_rejected
   | connection_timeout | response_timeout | request_cancelled | rate_limited
   | provider_client_error | provider_server_error | content_type_invalid | response_too_large
   | response_empty | utf8_invalid | hash_mismatch | snapshot_missing | snapshot_storage_failed
   | json_syntax | prototype_pollution | json_depth | json_nodes | json_string_length
   | normalized_output_too_large | schema_invalid | count_mismatch | duplicate_cve
   | malformed_cve | vulnerability_count_limit | text_field_limit | cwe_count_limit
   | catalog_version_missing | catalog_release_date_invalid | catalog_regression
   | parser_timeout | parser_crash | generation_incomplete | activation_conflict
   | persistence_failed | processing_failed

datatype intelligenceFailureDisposition = disp_failed | disp_quarantined

record intelligenceSafeFailureClassification =
  fcCategory :: intelligenceSafeFailureCategory
  fcRetryable :: bool
  fcDisposition :: intelligenceFailureDisposition
  fcSnapshotMayExist :: bool

fun intelligenceSafeFailureCatalog ::
  "intelligenceSafeFailureCode \<Rightarrow> intelligenceSafeFailureClassification" where
  "intelligenceSafeFailureCatalog provider_disabled =
     \<lparr>fcCategory = cat_configuration, fcRetryable = False, fcDisposition = disp_failed, fcSnapshotMayExist = False\<rparr>"
| "intelligenceSafeFailureCatalog invalid_provider_source =
     \<lparr>fcCategory = cat_configuration, fcRetryable = False, fcDisposition = disp_failed, fcSnapshotMayExist = False\<rparr>"
| "intelligenceSafeFailureCatalog dns_rejected =
     \<lparr>fcCategory = cat_network, fcRetryable = False, fcDisposition = disp_failed, fcSnapshotMayExist = False\<rparr>"
| "intelligenceSafeFailureCatalog redirect_rejected =
     \<lparr>fcCategory = cat_network, fcRetryable = False, fcDisposition = disp_failed, fcSnapshotMayExist = False\<rparr>"
| "intelligenceSafeFailureCatalog connection_timeout =
     \<lparr>fcCategory = cat_timeout, fcRetryable = True, fcDisposition = disp_failed, fcSnapshotMayExist = False\<rparr>"
| "intelligenceSafeFailureCatalog response_timeout =
     \<lparr>fcCategory = cat_timeout, fcRetryable = True, fcDisposition = disp_failed, fcSnapshotMayExist = True\<rparr>"
| "intelligenceSafeFailureCatalog request_cancelled =
     \<lparr>fcCategory = cat_timeout, fcRetryable = True, fcDisposition = disp_failed, fcSnapshotMayExist = True\<rparr>"
| "intelligenceSafeFailureCatalog rate_limited =
     \<lparr>fcCategory = cat_rate_limit, fcRetryable = True, fcDisposition = disp_failed, fcSnapshotMayExist = False\<rparr>"
| "intelligenceSafeFailureCatalog provider_client_error =
     \<lparr>fcCategory = cat_provider, fcRetryable = False, fcDisposition = disp_failed, fcSnapshotMayExist = False\<rparr>"
| "intelligenceSafeFailureCatalog provider_server_error =
     \<lparr>fcCategory = cat_provider, fcRetryable = True, fcDisposition = disp_failed, fcSnapshotMayExist = False\<rparr>"
| "intelligenceSafeFailureCatalog content_type_invalid =
     \<lparr>fcCategory = cat_content, fcRetryable = False, fcDisposition = disp_quarantined, fcSnapshotMayExist = True\<rparr>"
| "intelligenceSafeFailureCatalog response_too_large =
     \<lparr>fcCategory = cat_content, fcRetryable = False, fcDisposition = disp_quarantined, fcSnapshotMayExist = True\<rparr>"
| "intelligenceSafeFailureCatalog response_empty =
     \<lparr>fcCategory = cat_content, fcRetryable = False, fcDisposition = disp_quarantined, fcSnapshotMayExist = False\<rparr>"
| "intelligenceSafeFailureCatalog utf8_invalid =
     \<lparr>fcCategory = cat_content, fcRetryable = False, fcDisposition = disp_quarantined, fcSnapshotMayExist = True\<rparr>"
| "intelligenceSafeFailureCatalog hash_mismatch =
     \<lparr>fcCategory = cat_integrity, fcRetryable = False, fcDisposition = disp_quarantined, fcSnapshotMayExist = True\<rparr>"
| "intelligenceSafeFailureCatalog snapshot_missing =
     \<lparr>fcCategory = cat_storage, fcRetryable = True, fcDisposition = disp_failed, fcSnapshotMayExist = False\<rparr>"
| "intelligenceSafeFailureCatalog snapshot_storage_failed =
     \<lparr>fcCategory = cat_storage, fcRetryable = True, fcDisposition = disp_failed, fcSnapshotMayExist = True\<rparr>"
| "intelligenceSafeFailureCatalog json_syntax =
     \<lparr>fcCategory = cat_schema, fcRetryable = False, fcDisposition = disp_quarantined, fcSnapshotMayExist = True\<rparr>"
| "intelligenceSafeFailureCatalog prototype_pollution =
     \<lparr>fcCategory = cat_parser, fcRetryable = False, fcDisposition = disp_quarantined, fcSnapshotMayExist = True\<rparr>"
| "intelligenceSafeFailureCatalog json_depth =
     \<lparr>fcCategory = cat_structural_limit, fcRetryable = False, fcDisposition = disp_quarantined, fcSnapshotMayExist = True\<rparr>"
| "intelligenceSafeFailureCatalog json_nodes =
     \<lparr>fcCategory = cat_structural_limit, fcRetryable = False, fcDisposition = disp_quarantined, fcSnapshotMayExist = True\<rparr>"
| "intelligenceSafeFailureCatalog json_string_length =
     \<lparr>fcCategory = cat_structural_limit, fcRetryable = False, fcDisposition = disp_quarantined, fcSnapshotMayExist = True\<rparr>"
| "intelligenceSafeFailureCatalog normalized_output_too_large =
     \<lparr>fcCategory = cat_structural_limit, fcRetryable = False, fcDisposition = disp_quarantined, fcSnapshotMayExist = True\<rparr>"
| "intelligenceSafeFailureCatalog schema_invalid =
     \<lparr>fcCategory = cat_schema, fcRetryable = False, fcDisposition = disp_quarantined, fcSnapshotMayExist = True\<rparr>"
| "intelligenceSafeFailureCatalog count_mismatch =
     \<lparr>fcCategory = cat_schema, fcRetryable = False, fcDisposition = disp_quarantined, fcSnapshotMayExist = True\<rparr>"
| "intelligenceSafeFailureCatalog duplicate_cve =
     \<lparr>fcCategory = cat_schema, fcRetryable = False, fcDisposition = disp_quarantined, fcSnapshotMayExist = True\<rparr>"
| "intelligenceSafeFailureCatalog malformed_cve =
     \<lparr>fcCategory = cat_schema, fcRetryable = False, fcDisposition = disp_quarantined, fcSnapshotMayExist = True\<rparr>"
| "intelligenceSafeFailureCatalog vulnerability_count_limit =
     \<lparr>fcCategory = cat_structural_limit, fcRetryable = False, fcDisposition = disp_quarantined, fcSnapshotMayExist = True\<rparr>"
| "intelligenceSafeFailureCatalog text_field_limit =
     \<lparr>fcCategory = cat_structural_limit, fcRetryable = False, fcDisposition = disp_quarantined, fcSnapshotMayExist = True\<rparr>"
| "intelligenceSafeFailureCatalog cwe_count_limit =
     \<lparr>fcCategory = cat_structural_limit, fcRetryable = False, fcDisposition = disp_quarantined, fcSnapshotMayExist = True\<rparr>"
| "intelligenceSafeFailureCatalog catalog_version_missing =
     \<lparr>fcCategory = cat_schema, fcRetryable = False, fcDisposition = disp_quarantined, fcSnapshotMayExist = True\<rparr>"
| "intelligenceSafeFailureCatalog catalog_release_date_invalid =
     \<lparr>fcCategory = cat_schema, fcRetryable = False, fcDisposition = disp_quarantined, fcSnapshotMayExist = True\<rparr>"
| "intelligenceSafeFailureCatalog catalog_regression =
     \<lparr>fcCategory = cat_catalog_regression, fcRetryable = False, fcDisposition = disp_quarantined, fcSnapshotMayExist = True\<rparr>"
| "intelligenceSafeFailureCatalog parser_timeout =
     \<lparr>fcCategory = cat_parser, fcRetryable = True, fcDisposition = disp_failed, fcSnapshotMayExist = True\<rparr>"
| "intelligenceSafeFailureCatalog parser_crash =
     \<lparr>fcCategory = cat_parser, fcRetryable = True, fcDisposition = disp_failed, fcSnapshotMayExist = True\<rparr>"
| "intelligenceSafeFailureCatalog generation_incomplete =
     \<lparr>fcCategory = cat_internal, fcRetryable = False, fcDisposition = disp_failed, fcSnapshotMayExist = True\<rparr>"
| "intelligenceSafeFailureCatalog activation_conflict =
     \<lparr>fcCategory = cat_database, fcRetryable = True, fcDisposition = disp_failed, fcSnapshotMayExist = True\<rparr>"
| "intelligenceSafeFailureCatalog persistence_failed =
     \<lparr>fcCategory = cat_database, fcRetryable = True, fcDisposition = disp_failed, fcSnapshotMayExist = True\<rparr>"
| "intelligenceSafeFailureCatalog processing_failed =
     \<lparr>fcCategory = cat_internal, fcRetryable = False, fcDisposition = disp_failed, fcSnapshotMayExist = True\<rparr>"

definition quarantineCategories :: "intelligenceSafeFailureCategory list" where
  [catalog_defs]: "quarantineCategories =
     [cat_content, cat_integrity, cat_schema, cat_structural_limit, cat_parser, cat_catalog_regression]"

definition classifyIntelligenceSafeFailure ::
  "intelligenceSafeFailureCode \<Rightarrow> intelligenceSafeFailureClassification" where
  [simp]: "classifyIntelligenceSafeFailure code = intelligenceSafeFailureCatalog code"

definition isIntelligenceQuarantineCategory :: "intelligenceSafeFailureCategory \<Rightarrow> bool" where
  "isIntelligenceQuarantineCategory category \<longleftrightarrow> category \<in> set quarantineCategories"

definition intelligenceParserThreadDisposition ::
  "intelligenceSafeFailureCode \<Rightarrow> intelligenceFailureDisposition" where
  "intelligenceParserThreadDisposition code = fcDisposition (intelligenceSafeFailureCatalog code)"

text \<open>The catalog keeps the rule the transitions rely on.\<close>

lemma quarantined_codes:
  "fcDisposition (intelligenceSafeFailureCatalog code) = disp_quarantined \<Longrightarrow>
   isIntelligenceQuarantineCategory (fcCategory (intelligenceSafeFailureCatalog code)) \<and>
   \<not> fcRetryable (intelligenceSafeFailureCatalog code)"
  by (cases code) (simp_all add: isIntelligenceQuarantineCategory_def quarantineCategories_def)

subsection \<open>Safe integers\<close>

definition MAX_SAFE_INTEGER :: int where
  [catalog_defs]: "MAX_SAFE_INTEGER = 9007199254740991"

fun num_is_safe_integer :: "jsnum \<Rightarrow> bool" where
  "num_is_safe_integer (Integral n) \<longleftrightarrow> \<bar>n\<bar> \<le> MAX_SAFE_INTEGER"
| "num_is_safe_integer _ \<longleftrightarrow> False"

definition isNonNegativeSafeInteger :: "jsnum \<Rightarrow> bool" where
  "isNonNegativeSafeInteger value \<longleftrightarrow> num_is_safe_integer value \<and> num_nonneg value"

definition isPositiveSafeInteger :: "jsnum \<Rightarrow> bool" where
  "isPositiveSafeInteger value \<longleftrightarrow> num_is_safe_integer value \<and> num_positive value"

fun num_int :: "jsnum \<Rightarrow> int" where
  "num_int (Integral n) = n"
| "num_int _ = 0"

lemma isNonNegativeSafeInteger_iff:
  "isNonNegativeSafeInteger x \<longleftrightarrow> x = Integral (num_int x) \<and> 0 \<le> num_int x \<and> num_int x \<le> MAX_SAFE_INTEGER"
  by (cases x) (auto simp: isNonNegativeSafeInteger_def num_nonneg_def)

lemma isPositiveSafeInteger_iff:
  "isPositiveSafeInteger x \<longleftrightarrow> x = Integral (num_int x) \<and> 0 < num_int x \<and> num_int x \<le> MAX_SAFE_INTEGER"
  by (cases x) (auto simp: isPositiveSafeInteger_def)

subsection \<open>Errors\<close>

definition INTELLIGENCE_INVALID_TRANSITION :: appError where
  "INTELLIGENCE_INVALID_TRANSITION =
     \<lparr>errCode = err_conflict, errMessage = js ''Intelligence sync-run transition is not allowed.''\<rparr>"

definition INTELLIGENCE_TERMINAL_STATE :: appError where
  "INTELLIGENCE_TERMINAL_STATE =
     \<lparr>errCode = err_conflict,
      errMessage = js ''Intelligence sync-run is already terminal. Operator replay must create a new run.''\<rparr>"

definition intelligenceValidationError :: "jstr \<Rightarrow> appError" where
  "intelligenceValidationError message = \<lparr>errCode = err_validation, errMessage = message\<rparr>"

lemma intelligence_errors_distinct [simp]:
  "INTELLIGENCE_INVALID_TRANSITION \<noteq> INTELLIGENCE_TERMINAL_STATE"
  "INTELLIGENCE_TERMINAL_STATE \<noteq> INTELLIGENCE_INVALID_TRANSITION"
  "intelligenceValidationError m \<noteq> INTELLIGENCE_TERMINAL_STATE"
  "INTELLIGENCE_TERMINAL_STATE \<noteq> intelligenceValidationError m"
  "intelligenceValidationError m \<noteq> INTELLIGENCE_INVALID_TRANSITION"
  "INTELLIGENCE_INVALID_TRANSITION \<noteq> intelligenceValidationError m"
  by (simp_all add: INTELLIGENCE_INVALID_TRANSITION_def INTELLIGENCE_TERMINAL_STATE_def
      intelligenceValidationError_def)

end
