(* ===== verification/SyncRun.thy ===== *)
theory SyncRun
  imports SyncFailures CommandMachine
begin

text \<open>
  The life cycle of one intelligence synchronization run:
  \<^verbatim>\<open>packages/domain/src/intelligence/transitions.ts\<close> over the states and stages of \<^verbatim>\<open>constants.ts\<close>,
  with the freshness rules of \<^verbatim>\<open>freshness.ts\<close>. A \<^verbatim>\<open>Date\<close> is its time value in milliseconds. The numbers
  a command brings are JavaScript numbers, since the code tests them; the numbers a snapshot holds
  are integers, because every writer tests them with \<^verbatim>\<open>Number.isSafeInteger\<close> first.
\<close>

subsection \<open>States, stages and snapshots\<close>

datatype intelligenceSyncRunState =
    run_requested | run_fetching | run_retry_wait | run_stored | run_parsing | run_staging
  | run_activating | run_completed | run_not_modified | run_failed | run_quarantined

datatype intelligenceSyncRunStage =
    stage_fetch | store_snapshot | stage_run_validate | stage_run_parse | stage_generation
  | activate_generation | stage_finalize

datatype intelligenceNotModifiedReason = content_sha256_unchanged | http_not_modified

definition intelligenceSyncRunTerminalStates :: "intelligenceSyncRunState list" where
  [catalog_defs]: "intelligenceSyncRunTerminalStates =
     [run_completed, run_not_modified, run_failed, run_quarantined]"

fun syncRunStageText :: "intelligenceSyncRunStage \<Rightarrow> jstr" where
  "syncRunStageText stage_fetch = js ''fetch''"
| "syncRunStageText store_snapshot = js ''store_snapshot''"
| "syncRunStageText stage_run_validate = js ''validate''"
| "syncRunStageText stage_run_parse = js ''parse''"
| "syncRunStageText stage_generation = js ''stage_generation''"
| "syncRunStageText activate_generation = js ''activate_generation''"
| "syncRunStageText stage_finalize = js ''finalize''"

definition intelligenceSyncRunStages :: "intelligenceSyncRunStage list" where
  "intelligenceSyncRunStages =
     [stage_fetch, store_snapshot, stage_run_validate, stage_run_parse, stage_generation,
      activate_generation, stage_finalize]"

definition intelligenceForbiddenSyncStages :: "jstr list" where
  "intelligenceForbiddenSyncStages =
     [js ''match'', js ''correlate'', js ''enrich_findings'', js ''score'', js ''remediate'']"

record intelligenceSyncRunSnapshot =
  runState :: intelligenceSyncRunState
  runStage :: "intelligenceSyncRunStage option"
  requestedAt :: int
  startedAt :: "int option"
  completedAt :: "int option"
  nextAttemptAt :: "int option"
  executionAttempt :: int
  snapshotId :: "jstr option"
  generationId :: "jstr option"
  runFailureCategory :: "intelligenceSafeFailureCategory option"
  runFailureCode :: "intelligenceSafeFailureCode option"
  acceptedEntryCount :: "int option"
  runWarningCount :: "int option"
  priorAcceptedGenerationId :: "jstr option"
  notModifiedReason :: "intelligenceNotModifiedReason option"

datatype intelligenceSyncRunCommand =
    CreateRequested int
  | StartFetching int jsnum
  | RecordRetryWait int intelligenceSafeFailureCode
  | RecordStored jstr
  | StartParsing
  | StartStaging jstr
  | StartActivating bool jsnum
  | CompleteSyncRun int jsnum jsnum
  | CompleteNotModified int jstr intelligenceNotModifiedReason
  | FailSyncRun int intelligenceSafeFailureCode
  | QuarantineSyncRun int intelligenceSafeFailureCode

definition failableStates :: "intelligenceSyncRunState list" where
  [catalog_defs]: "failableStates =
     [run_requested, run_fetching, run_retry_wait, run_stored, run_parsing, run_staging,
      run_activating]"

definition quarantinableStates :: "intelligenceSyncRunState list" where
  [catalog_defs]: "quarantinableStates =
     [run_fetching, run_stored, run_parsing, run_staging, run_activating]"

definition isIntelligenceSyncRunStage :: "jstr \<Rightarrow> bool" where
  "isIntelligenceSyncRunStage stage \<longleftrightarrow> stage \<in> set (map syncRunStageText intelligenceSyncRunStages)"

definition isIntelligenceForbiddenSyncStage :: "jstr \<Rightarrow> bool" where
  "isIntelligenceForbiddenSyncStage stage \<longleftrightarrow> stage \<in> set intelligenceForbiddenSyncStages"

definition isIntelligenceTerminalSyncRunState :: "intelligenceSyncRunState \<Rightarrow> bool" where
  "isIntelligenceTerminalSyncRunState state \<longleftrightarrow> state \<in> set intelligenceSyncRunTerminalStates"

text \<open>The two states the caller passes on; the other arguments of the source's union are not run states.\<close>

definition intelligenceFreshnessMayAdvanceForState :: "intelligenceSyncRunState \<Rightarrow> bool" where
  "intelligenceFreshnessMayAdvanceForState state \<longleftrightarrow> state = run_completed \<or> state = run_not_modified"

definition syncRunFreshnessMayAdvance :: "intelligenceSyncRunSnapshot \<Rightarrow> bool" where
  "syncRunFreshnessMayAdvance snapshot =
     (if runState snapshot = run_completed \<or> runState snapshot = run_not_modified
      then intelligenceFreshnessMayAdvanceForState (runState snapshot)
      else False)"

fun requireCurrentRun ::
  "intelligenceSyncRunSnapshot option \<Rightarrow> appError + intelligenceSyncRunSnapshot" where
  "requireCurrentRun None = Inl INTELLIGENCE_INVALID_TRANSITION"
| "requireCurrentRun (Some current) =
     (if isIntelligenceTerminalSyncRunState (runState current) then Inl INTELLIGENCE_TERMINAL_STATE
      else if (case runStage current of
          Some stage \<Rightarrow> isIntelligenceForbiddenSyncStage (syncRunStageText stage)
        | None \<Rightarrow> False)
      then Inl (intelligenceValidationError
        (js ''Finding-related stages are not part of Session 9.''))
      else Inr current)"

definition requestedSnapshot :: "int \<Rightarrow> intelligenceSyncRunSnapshot" where
  "requestedSnapshot t =
     \<lparr>runState = run_requested, runStage = None, requestedAt = t, startedAt = None,
      completedAt = None, nextAttemptAt = None, executionAttempt = 0, snapshotId = None,
      generationId = None, runFailureCategory = None, runFailureCode = None,
      acceptedEntryCount = None, runWarningCount = None, priorAcceptedGenerationId = None,
      notModifiedReason = None\<rparr>"

subsection \<open>The checks of a committed snapshot\<close>

definition assertRequestedInvariants :: "intelligenceSyncRunSnapshot \<Rightarrow> appError + unit" where
  "assertRequestedInvariants s =
     (if runStage s \<noteq> None \<or> startedAt s \<noteq> None \<or> completedAt s \<noteq> None \<or> nextAttemptAt s \<noteq> None \<or>
         executionAttempt s \<noteq> 0 \<or> snapshotId s \<noteq> None \<or> generationId s \<noteq> None \<or>
         priorAcceptedGenerationId s \<noteq> None \<or> runFailureCategory s \<noteq> None \<or>
         runFailureCode s \<noteq> None \<or> acceptedEntryCount s \<noteq> None \<or> runWarningCount s \<noteq> None \<or>
         notModifiedReason s \<noteq> None
      then Inl (intelligenceValidationError (js ''requested runs cannot carry start, completion, snapshot, generation, or failure metadata.''))
      else Inr ())"

definition completedBeforeStarted :: "intelligenceSyncRunSnapshot \<Rightarrow> bool" where
  "completedBeforeStarted s =
     (case (completedAt s, startedAt s) of
        (Some c, Some b) \<Rightarrow> c < b
      | _ \<Rightarrow> False)"

definition assertRetryWaitInvariants :: "intelligenceSyncRunSnapshot \<Rightarrow> appError + unit" where
  "assertRetryWaitInvariants s =
     (if nextAttemptAt s = None \<or> completedAt s \<noteq> None \<or> startedAt s = None \<or>
         runFailureCategory s = None \<or> \<not> isPositiveSafeInteger (Integral (executionAttempt s))
      then Inl (intelligenceValidationError (js ''retry_wait requires nextAttemptAt, a positive attempt, and a retryable safe failure.''))
      else case runFailureCode s of
        None \<Rightarrow> Inl (intelligenceValidationError (js ''retry_wait requires nextAttemptAt, a positive attempt, and a retryable safe failure.''))
      | Some code \<Rightarrow>
          (let classification = classifyIntelligenceSafeFailure code
           in if \<not> fcRetryable classification \<or> fcDisposition classification \<noteq> disp_failed \<or>
                 Some (fcCategory classification) \<noteq> runFailureCategory s
              then Inl (intelligenceValidationError
                (js ''retry_wait requires a retryable failed-disposition safe code.''))
              else Inr ()))"

fun safe_count :: "int option \<Rightarrow> bool" where
  "safe_count None = False"
| "safe_count (Some n) = isNonNegativeSafeInteger (Integral n)"

definition assertSyncRunStateInvariants :: "intelligenceSyncRunSnapshot \<Rightarrow> appError + unit" where
  "assertSyncRunStateInvariants s =
     (if \<not> isNonNegativeSafeInteger (Integral (executionAttempt s))
      then Inl (intelligenceValidationError (js ''executionAttempt must be non-negative.''))
      else if completedBeforeStarted s
      then Inl (intelligenceValidationError (js ''completedAt cannot precede startedAt.''))
      else case runState s of
        run_requested \<Rightarrow> assertRequestedInvariants s
      | run_fetching \<Rightarrow>
          if startedAt s = None \<or> runStage s \<noteq> Some stage_fetch \<or>
             \<not> isPositiveSafeInteger (Integral (executionAttempt s)) \<or> completedAt s \<noteq> None \<or>
             nextAttemptAt s \<noteq> None \<or> runFailureCategory s \<noteq> None \<or> runFailureCode s \<noteq> None
          then Inl (intelligenceValidationError (js ''fetching requires startedAt, stage fetch, a positive attempt, and no completion or failure metadata.''))
          else Inr ()
      | run_retry_wait \<Rightarrow> assertRetryWaitInvariants s
      | run_stored \<Rightarrow>
          if startedAt s = None \<or> snapshotId s = None \<or> generationId s \<noteq> None \<or> completedAt s \<noteq> None
          then Inl (intelligenceValidationError (js ''stored requires startedAt, snapshotId, a null generationId, and a null completedAt.''))
          else Inr ()
      | run_parsing \<Rightarrow>
          if startedAt s = None \<or> snapshotId s = None \<or> completedAt s \<noteq> None
          then Inl (intelligenceValidationError (js ''parsing requires startedAt, snapshotId, and a null completedAt.''))
          else Inr ()
      | run_staging \<Rightarrow>
          if startedAt s = None \<or> snapshotId s = None \<or> generationId s = None \<or> completedAt s \<noteq> None
          then Inl (intelligenceValidationError (js ''staging requires startedAt, snapshotId, generationId, and a null completedAt.''))
          else Inr ()
      | run_activating \<Rightarrow>
          if startedAt s = None \<or> snapshotId s = None \<or> generationId s = None \<or> completedAt s \<noteq> None
          then Inl (intelligenceValidationError (js ''activating requires startedAt, snapshotId, generationId, and a null completedAt.''))
          else Inr ()
      | run_completed \<Rightarrow>
          if snapshotId s = None \<or> generationId s = None \<or> startedAt s = None \<or> completedAt s = None \<or>
             \<not> safe_count (acceptedEntryCount s) \<or> \<not> safe_count (runWarningCount s) \<or>
             runFailureCategory s \<noteq> None \<or> runFailureCode s \<noteq> None \<or> notModifiedReason s \<noteq> None
          then Inl (intelligenceValidationError (js ''completed requires snapshot, generation, counts, and timestamps.''))
          else Inr ()
      | run_not_modified \<Rightarrow>
          if startedAt s = None \<or> completedAt s = None \<or> priorAcceptedGenerationId s = None \<or>
             snapshotId s \<noteq> None \<or> generationId s \<noteq> None \<or> notModifiedReason s = None \<or>
             runFailureCategory s \<noteq> None \<or> runFailureCode s \<noteq> None
          then Inl (intelligenceValidationError (js ''not_modified requires a prior generation, timestamps, and no new snapshot or generation.''))
          else Inr ()
      | run_failed \<Rightarrow>
          if completedAt s = None \<or> runFailureCategory s = None \<or> runFailureCode s = None
          then Inl (intelligenceValidationError (js ''failed requires completedAt and a safe failure code.''))
          else Inr ()
      | run_quarantined \<Rightarrow>
          if completedAt s = None \<or> runFailureCategory s = None \<or> runFailureCode s = None
          then Inl (intelligenceValidationError (js ''quarantined requires completedAt and a safe quarantine code.''))
          else Inr ())"

definition commit_run :: "intelligenceSyncRunSnapshot \<Rightarrow> appError + intelligenceSyncRunSnapshot" where
  "commit_run s =
     (case assertSyncRunStateInvariants s of
        Inl e \<Rightarrow> Inl e
      | Inr _ \<Rightarrow> Inr s)"

subsection \<open>The transition function\<close>

fun applyIntelligenceSyncRunTransition ::
  "intelligenceSyncRunSnapshot option \<Rightarrow> intelligenceSyncRunCommand \<Rightarrow>
   appError + intelligenceSyncRunSnapshot" where
  "applyIntelligenceSyncRunTransition current (CreateRequested t) =
     (if current \<noteq> None then Inl INTELLIGENCE_INVALID_TRANSITION
      else commit_run (requestedSnapshot t))"
| "applyIntelligenceSyncRunTransition current (StartFetching t attempt) =
     (case requireCurrentRun current of
        Inl e \<Rightarrow> Inl e
      | Inr existing \<Rightarrow>
          if runState existing \<noteq> run_requested \<and> runState existing \<noteq> run_retry_wait
          then Inl INTELLIGENCE_INVALID_TRANSITION
          else if \<not> isPositiveSafeInteger attempt
          then Inl (intelligenceValidationError
            (js ''Execution attempt must be a positive safe integer.''))
          else if runState existing = run_requested \<and> attempt \<noteq> Integral 1
          then Inl (intelligenceValidationError (js ''First fetch attempt must be 1.''))
          else if runState existing = run_retry_wait \<and>
            attempt \<noteq> Integral (executionAttempt existing + 1)
          then Inl (intelligenceValidationError
            (js ''Retry fetch attempt must increment the previous attempt.''))
          else commit_run (existing\<lparr>runState := run_fetching, runStage := Some stage_fetch,
            startedAt := Some t, completedAt := None, nextAttemptAt := None,
            executionAttempt := num_int attempt, runFailureCategory := None,
            runFailureCode := None\<rparr>))"
| "applyIntelligenceSyncRunTransition current (RecordRetryWait t failureCode) =
     (case requireCurrentRun current of
        Inl e \<Rightarrow> Inl e
      | Inr existing \<Rightarrow>
          if runState existing \<noteq> run_fetching then Inl INTELLIGENCE_INVALID_TRANSITION
          else
            (let classification = classifyIntelligenceSafeFailure failureCode
             in if \<not> fcRetryable classification \<or> fcDisposition classification \<noteq> disp_failed
                then Inl (intelligenceValidationError
                  (js ''retry_wait requires a retryable failed-disposition safe code.''))
                else commit_run (existing\<lparr>runState := run_retry_wait,
                  runStage := Some stage_fetch, nextAttemptAt := Some t, completedAt := None,
                  runFailureCategory := Some (fcCategory classification),
                  runFailureCode := Some failureCode\<rparr>)))"
| "applyIntelligenceSyncRunTransition current (RecordStored snapshot) =
     (case requireCurrentRun current of
        Inl e \<Rightarrow> Inl e
      | Inr existing \<Rightarrow>
          if runState existing \<noteq> run_fetching then Inl INTELLIGENCE_INVALID_TRANSITION
          else if snapshot = [] then
            Inl (intelligenceValidationError (js ''stored runs require a snapshotId.''))
          else commit_run (existing\<lparr>runState := run_stored, runStage := Some store_snapshot,
            snapshotId := Some snapshot, completedAt := None, nextAttemptAt := None,
            runFailureCategory := None, runFailureCode := None\<rparr>))"
| "applyIntelligenceSyncRunTransition current StartParsing =
     (case requireCurrentRun current of
        Inl e \<Rightarrow> Inl e
      | Inr existing \<Rightarrow>
          if runState existing \<noteq> run_stored \<or> snapshotId existing = None
          then Inl (intelligenceValidationError (js ''parsing requires a stored snapshotId.''))
          else commit_run (existing\<lparr>runState := run_parsing, runStage := Some stage_run_parse,
            completedAt := None\<rparr>))"
| "applyIntelligenceSyncRunTransition current (StartStaging generation) =
     (case requireCurrentRun current of
        Inl e \<Rightarrow> Inl e
      | Inr existing \<Rightarrow>
          if runState existing \<noteq> run_parsing \<or> snapshotId existing = None
          then Inl (intelligenceValidationError
            (js ''staging requires parsing with a snapshotId.''))
          else if generation = [] then
            Inl (intelligenceValidationError (js ''staging requires a generationId.''))
          else commit_run (existing\<lparr>runState := run_staging, runStage := Some stage_generation,
            generationId := Some generation, completedAt := None\<rparr>))"
| "applyIntelligenceSyncRunTransition current (StartActivating generationComplete warnings) =
     (case requireCurrentRun current of
        Inl e \<Rightarrow> Inl e
      | Inr existing \<Rightarrow>
          if runState existing \<noteq> run_staging \<or> snapshotId existing = None \<or>
            generationId existing = None
          then Inl (intelligenceValidationError
            (js ''activating requires snapshotId and generationId.''))
          else if \<not> generationComplete then
            Inl (intelligenceValidationError (js ''activating requires a complete generation.''))
          else if \<not> isNonNegativeSafeInteger warnings then
            Inl (intelligenceValidationError
              (js ''activating requires a non-negative safe warning count.''))
          else commit_run (existing\<lparr>runState := run_activating,
            runStage := Some activate_generation, completedAt := None,
            runWarningCount := Some (num_int warnings)\<rparr>))"
| "applyIntelligenceSyncRunTransition current (CompleteSyncRun t entries warnings) =
     (case requireCurrentRun current of
        Inl e \<Rightarrow> Inl e
      | Inr existing \<Rightarrow>
          if runState existing \<noteq> run_activating then Inl INTELLIGENCE_INVALID_TRANSITION
          else if snapshotId existing = None \<or> generationId existing = None
          then Inl (intelligenceValidationError
            (js ''completed runs require snapshotId and generationId.''))
          else if \<not> isNonNegativeSafeInteger entries \<or> \<not> isNonNegativeSafeInteger warnings
          then Inl (intelligenceValidationError
            (js ''completed runs require non-negative safe final counts.''))
          else commit_run (existing\<lparr>runState := run_completed, runStage := Some stage_finalize,
            completedAt := Some t, acceptedEntryCount := Some (num_int entries),
            runWarningCount := Some (num_int warnings), runFailureCategory := None,
            runFailureCode := None, nextAttemptAt := None, notModifiedReason := None\<rparr>))"
| "applyIntelligenceSyncRunTransition current (CompleteNotModified t prior reason) =
     (case requireCurrentRun current of
        Inl e \<Rightarrow> Inl e
      | Inr existing \<Rightarrow>
          if runState existing \<noteq> run_fetching then Inl INTELLIGENCE_INVALID_TRANSITION
          else if snapshotId existing \<noteq> None \<or> generationId existing \<noteq> None
          then Inl (intelligenceValidationError
            (js ''not_modified runs must not create a new snapshot or generation.''))
          else if prior = [] then
            Inl (intelligenceValidationError
              (js ''not_modified requires a prior accepted generation.''))
          else commit_run (existing\<lparr>runState := run_not_modified,
            runStage := Some stage_finalize, completedAt := Some t,
            priorAcceptedGenerationId := Some prior, notModifiedReason := Some reason,
            snapshotId := None, generationId := None, runFailureCategory := None,
            runFailureCode := None, nextAttemptAt := None\<rparr>))"
| "applyIntelligenceSyncRunTransition current (FailSyncRun t failureCode) =
     (case requireCurrentRun current of
        Inl e \<Rightarrow> Inl e
      | Inr existing \<Rightarrow>
          if runState existing \<notin> set failableStates then Inl INTELLIGENCE_INVALID_TRANSITION
          else
            (let classification = classifyIntelligenceSafeFailure failureCode
             in if fcDisposition classification \<noteq> disp_failed
                then Inl (intelligenceValidationError
                  (js ''failed terminal state requires a failed-disposition code.''))
                else commit_run (existing\<lparr>runState := run_failed, completedAt := Some t,
                  runFailureCategory := Some (fcCategory classification),
                  runFailureCode := Some failureCode, nextAttemptAt := None\<rparr>)))"
| "applyIntelligenceSyncRunTransition current (QuarantineSyncRun t failureCode) =
     (case requireCurrentRun current of
        Inl e \<Rightarrow> Inl e
      | Inr existing \<Rightarrow>
          if runState existing \<notin> set quarantinableStates
          then Inl INTELLIGENCE_INVALID_TRANSITION
          else
            (let classification = classifyIntelligenceSafeFailure failureCode
             in if fcDisposition classification \<noteq> disp_quarantined
                then Inl (intelligenceValidationError
                  (js ''quarantined terminal state requires a quarantine-disposition code.''))
                else if \<not> isIntelligenceQuarantineCategory (fcCategory classification)
                then Inl (intelligenceValidationError (js ''quarantined runs require a content, integrity, schema, structural, parser, or catalog-regression category.''))
                else if runState existing = run_fetching \<and> snapshotId existing \<noteq> None
                then Inl (intelligenceValidationError (js ''fetching to quarantined is truthful only when no snapshotId has been assigned.''))
                else commit_run (existing\<lparr>runState := run_quarantined, completedAt := Some t,
                  runFailureCategory := Some (fcCategory classification),
                  runFailureCode := Some failureCode, nextAttemptAt := None\<rparr>)))"

subsection \<open>The invariant of a run\<close>

text \<open>
  The evidence a run holds is told by its stage: nothing before the first fetch, a start while
  fetching, a snapshot once one is stored, a generation once staging has begun, a warning count once
  the generation is being activated. The stage survives a failure, so the rule covers failed and
  quarantined runs too.
\<close>

fun nonempty_id :: "jstr option \<Rightarrow> bool" where
  "nonempty_id None = False"
| "nonempty_id (Some t) = (t \<noteq> [])"

definition has_snapshot :: "intelligenceSyncRunSnapshot \<Rightarrow> bool" where
  "has_snapshot s \<longleftrightarrow>
     runStage s \<in> {Some store_snapshot, Some stage_run_parse, Some stage_generation,
       Some activate_generation} \<or> runState s = run_completed"

definition has_generation :: "intelligenceSyncRunSnapshot \<Rightarrow> bool" where
  "has_generation s \<longleftrightarrow>
     runStage s \<in> {Some stage_generation, Some activate_generation} \<or> runState s = run_completed"

definition has_warnings :: "intelligenceSyncRunSnapshot \<Rightarrow> bool" where
  "has_warnings s \<longleftrightarrow> runStage s = Some activate_generation \<or> runState s = run_completed"

definition run_evidence :: "intelligenceSyncRunSnapshot \<Rightarrow> bool" where
  "run_evidence s \<longleftrightarrow>
     (if has_snapshot s then nonempty_id (snapshotId s) else snapshotId s = None) \<and>
     (if has_generation s then nonempty_id (generationId s) else generationId s = None) \<and>
     (if has_warnings s then safe_count (runWarningCount s) else runWarningCount s = None) \<and>
     (if runState s = run_completed then safe_count (acceptedEntryCount s)
      else acceptedEntryCount s = None) \<and>
     (if runState s = run_not_modified
      then nonempty_id (priorAcceptedGenerationId s) \<and> notModifiedReason s \<noteq> None
      else priorAcceptedGenerationId s = None \<and> notModifiedReason s = None)"

definition run_clock :: "intelligenceSyncRunSnapshot \<Rightarrow> bool" where
  "run_clock s \<longleftrightarrow>
     (startedAt s = None \<longleftrightarrow> runStage s = None) \<and>
     (if runStage s = None then executionAttempt s = 0
      else 0 < executionAttempt s \<and> executionAttempt s \<le> MAX_SAFE_INTEGER) \<and>
     (completedAt s \<noteq> None \<longleftrightarrow> isIntelligenceTerminalSyncRunState (runState s)) \<and>
     (nextAttemptAt s \<noteq> None \<longleftrightarrow> runState s = run_retry_wait) \<and>
     \<not> completedBeforeStarted s"

fun failure_fits ::
  "intelligenceSyncRunState \<Rightarrow> intelligenceSafeFailureClassification option \<Rightarrow> bool" where
  "failure_fits run_retry_wait (Some c) = (fcRetryable c \<and> fcDisposition c = disp_failed)"
| "failure_fits run_failed (Some c) = (fcDisposition c = disp_failed)"
| "failure_fits run_quarantined (Some c) = (fcDisposition c = disp_quarantined)"
| "failure_fits state c = (c = None \<and> state \<notin> {run_retry_wait, run_failed, run_quarantined})"

definition run_failure :: "intelligenceSyncRunSnapshot \<Rightarrow> bool" where
  "run_failure s \<longleftrightarrow>
     failure_fits (runState s) (map_option intelligenceSafeFailureCatalog (runFailureCode s)) \<and>
     runFailureCategory s =
       map_option fcCategory (map_option intelligenceSafeFailureCatalog (runFailureCode s))"

lemma failure_fits_None [simp]:
  "failure_fits state None \<longleftrightarrow> state \<notin> {run_retry_wait, run_failed, run_quarantined}"
  by (cases state) simp_all

text \<open>The stages a state may show.\<close>

fun state_stages :: "intelligenceSyncRunState \<Rightarrow> intelligenceSyncRunStage option set" where
  "state_stages run_requested = {None}"
| "state_stages run_fetching = {Some stage_fetch}"
| "state_stages run_retry_wait = {Some stage_fetch}"
| "state_stages run_stored = {Some store_snapshot}"
| "state_stages run_parsing = {Some stage_run_parse}"
| "state_stages run_staging = {Some stage_generation}"
| "state_stages run_activating = {Some activate_generation}"
| "state_stages run_completed = {Some stage_finalize}"
| "state_stages run_not_modified = {Some stage_finalize}"
| "state_stages run_failed = {None, Some stage_fetch, Some store_snapshot, Some stage_run_parse,
     Some stage_generation, Some activate_generation}"
| "state_stages run_quarantined = {Some stage_fetch, Some store_snapshot, Some stage_run_parse,
     Some stage_generation, Some activate_generation}"

definition sync_run_inv :: "intelligenceSyncRunSnapshot \<Rightarrow> bool" where
  "sync_run_inv s \<longleftrightarrow>
     runStage s \<in> state_stages (runState s) \<and> run_evidence s \<and> run_clock s \<and> run_failure s"

lemmas run_inv_defs = sync_run_inv_def run_evidence_def run_clock_def run_failure_def
  has_snapshot_def has_generation_def has_warnings_def

lemmas run_guard_defs = isIntelligenceTerminalSyncRunState_def intelligenceSyncRunTerminalStates_def
  failableStates_def quarantinableStates_def

subsection \<open>What a run accepts\<close>

definition not_before_start :: "intelligenceSyncRunSnapshot \<Rightarrow> int \<Rightarrow> bool" where
  "not_before_start s t = (case startedAt s of None \<Rightarrow> True | Some b \<Rightarrow> b \<le> t)"

fun run_accepts :: "intelligenceSyncRunSnapshot \<Rightarrow> intelligenceSyncRunCommand \<Rightarrow> bool" where
  "run_accepts s (CreateRequested t) = False"
| "run_accepts s (StartFetching t attempt) =
     (runState s \<in> {run_requested, run_retry_wait} \<and> executionAttempt s < MAX_SAFE_INTEGER \<and>
      attempt = Integral (executionAttempt s + 1))"
| "run_accepts s (RecordRetryWait t code) =
     (runState s = run_fetching \<and> fcRetryable (intelligenceSafeFailureCatalog code) \<and>
      fcDisposition (intelligenceSafeFailureCatalog code) = disp_failed)"
| "run_accepts s (RecordStored snapshot) = (runState s = run_fetching \<and> snapshot \<noteq> [])"
| "run_accepts s StartParsing = (runState s = run_stored)"
| "run_accepts s (StartStaging generation) = (runState s = run_parsing \<and> generation \<noteq> [])"
| "run_accepts s (StartActivating generationComplete warnings) =
     (runState s = run_staging \<and> generationComplete \<and> isNonNegativeSafeInteger warnings)"
| "run_accepts s (CompleteSyncRun t entries warnings) =
     (runState s = run_activating \<and> isNonNegativeSafeInteger entries \<and>
      isNonNegativeSafeInteger warnings \<and> not_before_start s t)"
| "run_accepts s (CompleteNotModified t prior reason) =
     (runState s = run_fetching \<and> prior \<noteq> [] \<and> not_before_start s t)"
| "run_accepts s (FailSyncRun t code) =
     (\<not> isIntelligenceTerminalSyncRunState (runState s) \<and>
      fcDisposition (intelligenceSafeFailureCatalog code) = disp_failed \<and> not_before_start s t)"
| "run_accepts s (QuarantineSyncRun t code) =
     (runState s \<in> {run_fetching, run_stored, run_parsing, run_staging, run_activating} \<and>
      fcDisposition (intelligenceSafeFailureCatalog code) = disp_quarantined \<and>
      not_before_start s t)"

fun run_next :: "intelligenceSyncRunSnapshot \<Rightarrow> intelligenceSyncRunCommand \<Rightarrow>
  intelligenceSyncRunSnapshot" where
  "run_next s (CreateRequested t) = s"
| "run_next s (StartFetching t attempt) =
     s\<lparr>runState := run_fetching, runStage := Some stage_fetch, startedAt := Some t,
       nextAttemptAt := None, executionAttempt := executionAttempt s + 1,
       runFailureCategory := None, runFailureCode := None\<rparr>"
| "run_next s (RecordRetryWait t code) =
     s\<lparr>runState := run_retry_wait, nextAttemptAt := Some t,
       runFailureCategory := Some (fcCategory (intelligenceSafeFailureCatalog code)),
       runFailureCode := Some code\<rparr>"
| "run_next s (RecordStored snapshot) =
     s\<lparr>runState := run_stored, runStage := Some store_snapshot, snapshotId := Some snapshot\<rparr>"
| "run_next s StartParsing = s\<lparr>runState := run_parsing, runStage := Some stage_run_parse\<rparr>"
| "run_next s (StartStaging generation) =
     s\<lparr>runState := run_staging, runStage := Some stage_generation,
       generationId := Some generation\<rparr>"
| "run_next s (StartActivating generationComplete warnings) =
     s\<lparr>runState := run_activating, runStage := Some activate_generation,
       runWarningCount := Some (num_int warnings)\<rparr>"
| "run_next s (CompleteSyncRun t entries warnings) =
     s\<lparr>runState := run_completed, runStage := Some stage_finalize, completedAt := Some t,
       acceptedEntryCount := Some (num_int entries), runWarningCount := Some (num_int warnings)\<rparr>"
| "run_next s (CompleteNotModified t prior reason) =
     s\<lparr>runState := run_not_modified, runStage := Some stage_finalize, completedAt := Some t,
       priorAcceptedGenerationId := Some prior, notModifiedReason := Some reason\<rparr>"
| "run_next s (FailSyncRun t code) =
     s\<lparr>runState := run_failed, completedAt := Some t, nextAttemptAt := None,
       runFailureCategory := Some (fcCategory (intelligenceSafeFailureCatalog code)),
       runFailureCode := Some code\<rparr>"
| "run_next s (QuarantineSyncRun t code) =
     s\<lparr>runState := run_quarantined, completedAt := Some t,
       runFailureCategory := Some (fcCategory (intelligenceSafeFailureCatalog code)),
       runFailureCode := Some code\<rparr>"

lemma no_forbidden_stage [simp]: "\<not> isIntelligenceForbiddenSyncStage (syncRunStageText stage)"
  by (cases stage) (simp_all add: isIntelligenceForbiddenSyncStage_def
      intelligenceForbiddenSyncStages_def js_def)

lemma requireCurrentRun_Some [simp]:
  "requireCurrentRun (Some s) =
     (if isIntelligenceTerminalSyncRunState (runState s) then Inl INTELLIGENCE_TERMINAL_STATE
      else Inr s)"
  by (auto split: option.splits)

declare requireCurrentRun.simps(2) [simp del]

lemma inv_attempt_safe:
  "sync_run_inv s \<Longrightarrow> isNonNegativeSafeInteger (Integral (executionAttempt s))"
  by (auto simp: run_inv_defs isNonNegativeSafeInteger_iff MAX_SAFE_INTEGER_def split: if_splits)

lemma inv_stage: "sync_run_inv s \<Longrightarrow> runStage s \<in> state_stages (runState s)"
  by (simp add: sync_run_inv_def)

lemma inv_parts: "sync_run_inv s \<Longrightarrow> run_evidence s \<and> run_clock s \<and> run_failure s"
  by (simp add: sync_run_inv_def)

lemma nonempty_id_Some: "nonempty_id x \<Longrightarrow> x \<noteq> None"
  by (cases x) simp_all

lemma inv_not_late: "sync_run_inv s \<Longrightarrow> \<not> completedBeforeStarted s"
  by (simp add: sync_run_inv_def run_clock_def)

lemma assert_by_state:
  assumes "sync_run_inv s"
  shows "runState s = run_requested \<Longrightarrow> assertRequestedInvariants s = Inr ()"
    and "runState s = run_retry_wait \<Longrightarrow> assertRetryWaitInvariants s = Inr ()"
  using assms inv_stage [OF assms] inv_parts [OF assms]
  by (cases "runFailureCode s"; auto simp: assertRequestedInvariants_def
      assertRetryWaitInvariants_def run_evidence_def run_clock_def run_failure_def has_snapshot_def
      has_generation_def has_warnings_def run_guard_defs isPositiveSafeInteger_iff)+

lemma inv_asserts:
  assumes "sync_run_inv s"
  shows "assertSyncRunStateInvariants s = Inr ()"
proof -
  note parts = inv_parts [OF assms]
  note start = inv_stage [OF assms] inv_attempt_safe [OF assms] inv_not_late [OF assms]
    assert_by_state [OF assms]
  have shown: "isIntelligenceTerminalSyncRunState (runState s) \<Longrightarrow> completedAt s \<noteq> None"
    "\<not> isIntelligenceTerminalSyncRunState (runState s) \<Longrightarrow> completedAt s = None"
    using parts by (simp_all add: run_clock_def)
  have failure: "runState s \<in> {run_failed, run_quarantined} \<Longrightarrow>
      runFailureCode s \<noteq> None \<and> runFailureCategory s \<noteq> None"
    "runState s \<notin> {run_retry_wait, run_failed, run_quarantined} \<Longrightarrow>
      runFailureCode s = None \<and> runFailureCategory s = None"
    using parts by (cases "runFailureCode s"; cases "runState s"; simp add: run_failure_def)+
  show ?thesis
    by (cases "runState s"; use start shown failure parts in \<open>simp add:
        assertSyncRunStateInvariants_def run_clock_def run_evidence_def has_snapshot_def
        has_generation_def has_warnings_def run_guard_defs nonempty_id_Some
        isPositiveSafeInteger_iff\<close>)
qed

lemma commit_inv: "sync_run_inv s \<Longrightarrow> commit_run s = Inr s"
  by (simp add: commit_run_def inv_asserts)

lemma commit_late: "completedBeforeStarted s \<Longrightarrow> \<exists>e. commit_run s = Inl e"
  by (simp add: commit_run_def assertSyncRunStateInvariants_def)

subsection \<open>Transitions of a run that keeps the invariant\<close>

lemma run_next_inv:
  assumes inv: "sync_run_inv s" and acc: "run_accepts s cmd"
  shows "sync_run_inv (run_next s cmd)"
proof -
  note parts = inv_stage [OF inv] inv_parts [OF inv]
  show ?thesis
  proof (cases cmd)
    case (FailSyncRun t code)
    with acc parts show ?thesis
      by (cases "runState s"; simp add: run_inv_defs run_guard_defs completedBeforeStarted_def
          not_before_start_def split: option.splits) 
  next
    case (QuarantineSyncRun t code)
    with acc parts show ?thesis
      by (cases "runState s"; simp add: run_inv_defs run_guard_defs completedBeforeStarted_def
          not_before_start_def split: option.splits)
  next
    case (StartFetching t attempt)
    with acc parts show ?thesis
      by (auto simp: run_inv_defs run_guard_defs completedBeforeStarted_def)
  next
    case (StartActivating g w)
    with acc parts show ?thesis
      by (simp add: run_inv_defs run_guard_defs completedBeforeStarted_def isNonNegativeSafeInteger_iff)
  next
    case (CompleteSyncRun t e w)
    with acc parts show ?thesis
      by (auto simp: run_inv_defs run_guard_defs completedBeforeStarted_def not_before_start_def 
          isNonNegativeSafeInteger_iff)
  next
    case (CompleteNotModified t p r)
    with acc parts show ?thesis
      by (auto simp: run_inv_defs run_guard_defs completedBeforeStarted_def not_before_start_def)
  qed (use acc parts in \<open>simp add: run_inv_defs run_guard_defs completedBeforeStarted_def\<close>)+
qed

text \<open>The fields a nonterminal run leaves empty, so that resetting them changes nothing.\<close>

lemma inv_open_fields:
  assumes "sync_run_inv s" "\<not> isIntelligenceTerminalSyncRunState (runState s)"
  shows "completedAt s = None" "notModifiedReason s = None"
    "runState s \<noteq> run_retry_wait \<Longrightarrow> nextAttemptAt s = None"
    "runState s \<noteq> run_retry_wait \<Longrightarrow> runFailureCode s = None"
    "runState s \<noteq> run_retry_wait \<Longrightarrow> runFailureCategory s = None"
    "runState s = run_fetching \<Longrightarrow> runStage s = Some stage_fetch"
    "runState s = run_fetching \<Longrightarrow> snapshotId s = None"
    "runState s = run_fetching \<Longrightarrow> generationId s = None"
    "runState s = run_requested \<Longrightarrow> executionAttempt s = 0"
    "runState s = run_stored \<Longrightarrow> snapshotId s \<noteq> None"
    "runState s = run_parsing \<Longrightarrow> snapshotId s \<noteq> None"
    "runState s = run_staging \<Longrightarrow> snapshotId s \<noteq> None \<and> generationId s \<noteq> None"
    "runState s = run_activating \<Longrightarrow> snapshotId s \<noteq> None \<and> generationId s \<noteq> None"
  using assms(2) inv_stage [OF assms(1)] inv_parts [OF assms(1)]
  by (cases "runFailureCode s"; cases "runState s"; simp add: run_inv_defs run_guard_defs nonempty_id_Some)+

lemma commit_run_next:
  assumes "sync_run_inv s" "run_accepts s cmd"
  shows "commit_run (run_next s cmd) = Inr (run_next s cmd)"
  by (rule commit_inv [OF run_next_inv [OF assms]])

lemmas commit_cong = arg_cong [where f = commit_run] intelligenceSyncRunSnapshot.equality

lemma transition_accepts:
  assumes inv: "sync_run_inv s" and acc: "run_accepts s cmd"
  shows "applyIntelligenceSyncRunTransition (Some s) cmd = Inr (run_next s cmd)"
proof -
  have live: "\<not> isIntelligenceTerminalSyncRunState (runState s)"
    using acc by (cases cmd) (auto simp: run_guard_defs)
  note fields = inv_open_fields [OF inv live]
  have "applyIntelligenceSyncRunTransition (Some s) cmd = commit_run (run_next s cmd)"
  proof (cases cmd)
    case (StartFetching t attempt)
    then show ?thesis
      using acc live fields inv_attempt_safe [OF inv]
      by (auto simp: isPositiveSafeInteger_iff isNonNegativeSafeInteger_iff intro!: commit_cong)
  next
    case (FailSyncRun t code)
    then show ?thesis
      using acc live
      by (cases "runState s"; auto simp: run_guard_defs intro!: commit_cong)
  next
    case (QuarantineSyncRun t code)
    then show ?thesis
      using acc live fields quarantined_codes [of code]
      by (auto simp: run_guard_defs intro!: commit_cong)
  qed (use acc live fields in \<open>auto simp: Let_def intro!: commit_cong\<close>)
  then show ?thesis by (simp add: commit_run_next [OF inv acc])
qed

text \<open>
  Conversely a command is refused unless the run accepts it: by a guard of its branch or, when only
  the clock is wrong, by the recheck in \<^verbatim>\<open>commit\<close>.
\<close>

lemma commit_completed_early:
  "\<not> not_before_start s t \<Longrightarrow> startedAt s' = startedAt s \<Longrightarrow> completedAt s' = Some t \<Longrightarrow>
   \<exists>e. commit_run s' = Inl e"
  by (rule commit_late) (simp add: completedBeforeStarted_def not_before_start_def split: option.splits)

lemma attempt_follows:
  assumes "sync_run_inv s" "isPositiveSafeInteger (Integral n)" "n = executionAttempt s + 1"
  shows "executionAttempt s < MAX_SAFE_INTEGER"
  using assms by (simp add: isPositiveSafeInteger_iff)

lemma transition_refuses:
  assumes inv: "sync_run_inv s" and acc: "\<not> run_accepts s cmd"
  shows "\<exists>e. applyIntelligenceSyncRunTransition (Some s) cmd = Inl e"
proof (cases "isIntelligenceTerminalSyncRunState (runState s)")
  case True
  then show ?thesis by (cases cmd) simp_all
next
  case live: False
  note fields = inv_open_fields [OF inv live]
  show ?thesis
  proof (cases cmd)
    case (StartFetching t attempt)
    then show ?thesis
      using acc live fields by (auto simp: isPositiveSafeInteger_iff)
  next
    case (CompleteSyncRun t e w)
    then show ?thesis
      using acc live fields by (auto intro: commit_completed_early)
  next
    case (CompleteNotModified t prior reason)
    then show ?thesis
      using acc live fields by (auto intro: commit_completed_early)
  next
    case (FailSyncRun t code)
    then show ?thesis
      using acc live by (auto simp: Let_def intro: commit_completed_early)
  next
    case (QuarantineSyncRun t code)
    then show ?thesis
      using acc live by (auto simp: Let_def quarantinableStates_def intro: commit_completed_early)
  qed (use acc live fields in \<open>auto simp: Let_def\<close>)
qed

lemma transition_iff:
  assumes "sync_run_inv s"
  shows "applyIntelligenceSyncRunTransition (Some s) cmd = Inr s' \<longleftrightarrow>
    run_accepts s cmd \<and> s' = run_next s cmd"
  using transition_accepts [OF assms, of cmd] transition_refuses [OF assms, of cmd]
  by (cases "run_accepts s cmd") auto

lemma transition_None:
  "applyIntelligenceSyncRunTransition None cmd = Inr s \<longleftrightarrow>
     (\<exists>t. cmd = CreateRequested t \<and> s = requestedSnapshot t)"
proof -
  have "sync_run_inv (requestedSnapshot t)" for t
    by (simp add: run_inv_defs run_guard_defs requestedSnapshot_def completedBeforeStarted_def)
  then show ?thesis by (cases cmd) (auto simp: commit_inv)
qed

subsection \<open>Histories\<close>

text \<open>The commands a run has taken, oldest first, and the snapshot they lead to.\<close>

definition sync_run_history :: "intelligenceSyncRunCommand list \<Rightarrow> intelligenceSyncRunSnapshot \<Rightarrow> bool"
  where
  "sync_run_history = command_history applyIntelligenceSyncRunTransition"

lemma requested_inv: "sync_run_inv (requestedSnapshot t)"
  by (simp add: run_inv_defs run_guard_defs requestedSnapshot_def completedBeforeStarted_def)

text \<open>How many commands lie behind a run, past two for each attempt.\<close>

fun state_rank :: "intelligenceSyncRunState \<Rightarrow> nat" where
  "state_rank run_requested = 1"
| "state_rank run_fetching = 0"
| "state_rank run_retry_wait = 1"
| "state_rank run_stored = 1"
| "state_rank run_parsing = 2"
| "state_rank run_staging = 3"
| "state_rank run_activating = 4"
| "state_rank run_not_modified = 1"
| "state_rank _ = 5"

definition run_progress :: "intelligenceSyncRunSnapshot \<Rightarrow> nat" where
  "run_progress s = 2 * nat (executionAttempt s) + state_rank (runState s)"

lemma run_progress_next:
  assumes "sync_run_inv s" "run_accepts s cmd"
  shows "run_progress s < run_progress (run_next s cmd)"
proof -
  have "0 \<le> executionAttempt s"
    using inv_attempt_safe [OF assms(1)] by (simp add: isNonNegativeSafeInteger_iff)
  then have "nat (executionAttempt s + 1) = Suc (nat (executionAttempt s))" by simp
  with assms(2) show ?thesis
    by (cases cmd; cases "runState s"; simp add: run_progress_def run_guard_defs)
qed

text \<open>The transition function as a command machine whose rank every command raises.\<close>

interpretation sync_run: ranked_machine applyIntelligenceSyncRunTransition sync_run_inv run_progress
proof
  show "sync_run_inv s" if "applyIntelligenceSyncRunTransition None c = Inr s" for c s
    using that by (auto simp: transition_None requested_inv)
  show "sync_run_inv s'" if "sync_run_inv s" "applyIntelligenceSyncRunTransition (Some s) c = Inr s'"
    for s c s'
    using that by (auto simp: transition_iff run_next_inv)
  show "0 < run_progress s" if "applyIntelligenceSyncRunTransition None c = Inr s" for c s
    using that by (auto simp: transition_None run_progress_def requestedSnapshot_def)
  show "run_progress s < run_progress s'"
    if "sync_run_inv s" "applyIntelligenceSyncRunTransition (Some s) c = Inr s'" for s c s'
    using that by (auto simp: transition_iff run_progress_next)
qed

lemma history_inv: "sync_run_history cmds s \<Longrightarrow> sync_run_inv s"
  by (simp add: sync_run_history_def sync_run.history_invar)

lemma run_history_length: "sync_run_history cmds s \<Longrightarrow> length cmds \<le> run_progress s"
  by (simp add: sync_run_history_def sync_run.history_length)

lemma run_progress_bound: "run_progress s \<le> 2 * nat (executionAttempt s) + 5"
  by (cases "runState s") (simp_all add: run_progress_def)

text \<open>
  C2. Every run that the transition function can produce keeps the full invariant: its stage tells
  exactly which evidence it holds (snapshot, generation, warning count, accepted count, prior
  generation), terminal runs and only they are completed, never before they started, a next attempt
  is set exactly in \<^verbatim>\<open>retry_wait\<close>, and the failure code fits the state it is recorded in.
\<close>
theorem sync_run_invariant: "sync_run_history cmds s \<Longrightarrow> sync_run_inv s"
  by (rule history_inv)

definition example_run :: "intelligenceSyncRunCommand list" where
  "example_run =
     [CreateRequested 10, StartFetching 20 (Integral 1), RecordRetryWait 90 response_timeout,
      StartFetching 95 (Integral 2), RecordStored (js ''snap''), StartParsing,
      StartStaging (js ''gen''), StartActivating True (Integral 3),
      CompleteSyncRun 120 (Integral 7) (Integral 3)]"

definition example_final :: intelligenceSyncRunSnapshot where
  "example_final =
     \<lparr>runState = run_completed, runStage = Some stage_finalize, requestedAt = 10,
      startedAt = Some 95, completedAt = Some 120, nextAttemptAt = None, executionAttempt = 2,
      snapshotId = Some (js ''snap''), generationId = Some (js ''gen''), runFailureCategory = None,
      runFailureCode = None, acceptedEntryCount = Some 7, runWarningCount = Some 3,
      priorAcceptedGenerationId = None, notModifiedReason = None\<rparr>"

lemma example_history: "sync_run_history example_run example_final"
proof -
  have "command_history applyIntelligenceSyncRunTransition [CreateRequested 10] (requestedSnapshot 10)"
    by (rule command_history_created) (simp only: transition_None, blast)
  moreover have "run_commands applyIntelligenceSyncRunTransition (requestedSnapshot 10) (tl example_run) =
      Inr example_final"
    by (simp add: example_run_def example_final_def requestedSnapshot_def commit_run_def js_def
        assertSyncRunStateInvariants_def assertRetryWaitInvariants_def completedBeforeStarted_def
        run_guard_defs isPositiveSafeInteger_iff isNonNegativeSafeInteger_iff MAX_SAFE_INTEGER_def)
  ultimately have "command_history applyIntelligenceSyncRunTransition
      ([CreateRequested 10] @ tl example_run) example_final"
    by (rule run_commands_history)
  then show ?thesis by (simp add: sync_run_history_def example_run_def)
qed

lemma sync_run_invariant_witness: "sync_run_inv example_final \<and> runState example_final = run_completed"
  using sync_run_invariant [OF example_history] by (simp add: example_final_def)

text \<open>
  C35. On a run produced by the transition function a command succeeds exactly when the abstract
  life cycle \<^term>\<open>run_accepts\<close> allows it, and then changes exactly what \<^term>\<open>run_next\<close> says: the
  repeated checks of \<^verbatim>\<open>commit\<close> refuse nothing but a completion before the start, and the forbidden
  stages never occur. A terminal run refuses every command, with the terminal error.
\<close>
theorem sync_run_transition_exact:
  assumes "sync_run_history cmds s"
  shows "(applyIntelligenceSyncRunTransition (Some s) cmd = Inr s' \<longleftrightarrow>
      run_accepts s cmd \<and> s' = run_next s cmd) \<and>
    (isIntelligenceTerminalSyncRunState (runState s) \<and> (\<nexists>t. cmd = CreateRequested t) \<longrightarrow>
      applyIntelligenceSyncRunTransition (Some s) cmd = Inl INTELLIGENCE_TERMINAL_STATE)"
proof -
  have "applyIntelligenceSyncRunTransition (Some s) cmd = Inl INTELLIGENCE_TERMINAL_STATE"
    if "isIntelligenceTerminalSyncRunState (runState s)" "\<nexists>t. cmd = CreateRequested t"
    using that by (cases cmd) simp_all
  with transition_iff [OF history_inv [OF assms]] show ?thesis by blast
qed

lemma sync_run_transition_exact_witness:
  "applyIntelligenceSyncRunTransition (Some example_final) StartParsing =
     Inl INTELLIGENCE_TERMINAL_STATE"
  using sync_run_transition_exact [OF example_history, of StartParsing]
  by (simp add: example_final_def run_guard_defs)

end
