(* ===== verification/ObjectKeys.thy ===== *)
theory ObjectKeys
  imports TextPatterns SyncFailures
begin

text \<open>
  Object keys of the evidence store: the tenant-scoped SBOM keys of
  \<^verbatim>\<open>packages/domain/src/sbom/object-keys.ts\<close> and the instance-owned snapshot keys of
  \<^verbatim>\<open>packages/domain/src/intelligence/object-keys.ts\<close>. A key pattern is a test on the segments between
  slashes, since no class of the patterns contains a slash.
\<close>

subsection \<open>SBOM keys\<close>

definition SBOM_TEMPORARY_OBJECT_KEY_PATTERN :: "jstr \<Rightarrow> bool" where
  "SBOM_TEMPORARY_OBJECT_KEY_PATTERN key \<longleftrightarrow>
     (case js_split 47 key of
        [org, organization, assets, asset, sboms, kind, upload] \<Rightarrow>
          org = js ''org'' \<and> LOWER_UUID organization \<and> assets = js ''assets'' \<and> LOWER_UUID asset \<and>
          sboms = js ''sboms'' \<and> kind = js ''tmp'' \<and> LOWER_UUID upload
      | _ \<Rightarrow> False)"

definition SBOM_FINAL_OBJECT_KEY_PATTERN :: "jstr \<Rightarrow> bool" where
  "SBOM_FINAL_OBJECT_KEY_PATTERN key \<longleftrightarrow>
     (case js_split 47 key of
        [org, organization, assets, asset, sboms, kind, digest] \<Rightarrow>
          org = js ''org'' \<and> LOWER_UUID organization \<and> assets = js ''assets'' \<and> LOWER_UUID asset \<and>
          sboms = js ''sboms'' \<and> kind = js ''sha256'' \<and> SHA256_HEX_PATTERN digest
      | _ \<Rightarrow> False)"

text \<open>\<^verbatim>\<open>s.slice(-n)\<close>.\<close>

definition slice_last :: "nat \<Rightarrow> 'a list \<Rightarrow> 'a list" where
  "slice_last n s = drop (length s - n) s"

definition isTemporarySbomObjectKey :: "jstr \<Rightarrow> bool" where
  "isTemporarySbomObjectKey key \<longleftrightarrow> SBOM_TEMPORARY_OBJECT_KEY_PATTERN key"

definition isFinalSbomObjectKey :: "jstr \<Rightarrow> bool" where
  "isFinalSbomObjectKey key \<longleftrightarrow>
     SBOM_FINAL_OBJECT_KEY_PATTERN key \<and> SHA256_HEX_PATTERN (slice_last 64 key)"

definition buildTemporarySbomObjectKey :: "jstr \<Rightarrow> jstr \<Rightarrow> jstr \<Rightarrow> jstr" where
  "buildTemporarySbomObjectKey organizationId assetId uploadId =
     js ''org/'' @ organizationId @ js ''/assets/'' @ assetId @ js ''/sboms/tmp/'' @ uploadId"

definition buildFinalSbomObjectKey :: "jstr \<Rightarrow> jstr \<Rightarrow> jstr \<Rightarrow> jstr" where
  "buildFinalSbomObjectKey organizationId assetId sha256 =
     js ''org/'' @ organizationId @ js ''/assets/'' @ assetId @ js ''/sboms/sha256/'' @ sha256"

definition sha256FromFinalSbomObjectKey :: "jstr \<Rightarrow> jstr option" where
  "sha256FromFinalSbomObjectKey key =
     (if \<not> isFinalSbomObjectKey key then None else Some (slice_last 64 key))"

definition sbomObjectKeyScope :: "jstr \<Rightarrow> (jstr \<times> jstr) option" where
  "sbomObjectKeyScope key =
     (if \<not> isTemporarySbomObjectKey key \<and> \<not> isFinalSbomObjectKey key then None
      else let segments = js_split 47 key
           in if length segments \<le> 1 \<or> length segments \<le> 3 then None
              else Some (segments ! 1, segments ! 3))"

definition sbomObjectKeysShareScope :: "jstr \<Rightarrow> jstr \<Rightarrow> bool" where
  "sbomObjectKeysShareScope left right =
     (case (sbomObjectKeyScope left, sbomObjectKeyScope right) of
        (Some (o1, a1), Some (o2, a2)) \<Rightarrow> o1 = o2 \<and> a1 = a2
      | _ \<Rightarrow> False)"

subsection \<open>Snapshot keys\<close>

definition INTELLIGENCE_SNAPSHOT_OBJECT_KEY_MAX_LENGTH :: nat where
  [catalog_defs]: "INTELLIGENCE_SNAPSHOT_OBJECT_KEY_MAX_LENGTH = 512"

definition INTELLIGENCE_SNAPSHOT_KEY_PREFIX :: jstr where
  "INTELLIGENCE_SNAPSHOT_KEY_PREFIX = js ''intelligence/cisa_kev/cisa_kev_json_catalog''"

definition TEMPORARY_PREFIX :: jstr where
  "TEMPORARY_PREFIX = INTELLIGENCE_SNAPSHOT_KEY_PREFIX @ js ''/tmp/''"

definition FINAL_PREFIX :: jstr where
  "FINAL_PREFIX = INTELLIGENCE_SNAPSHOT_KEY_PREFIX @ js ''/sha256/''"

definition INTELLIGENCE_TEMPORARY_SNAPSHOT_OBJECT_KEY_PATTERN :: "jstr \<Rightarrow> bool" where
  "INTELLIGENCE_TEMPORARY_SNAPSHOT_OBJECT_KEY_PATTERN key \<longleftrightarrow>
     (case js_split 47 key of
        [root, provider, source, kind, upload] \<Rightarrow>
          root = js ''intelligence'' \<and> provider = js ''cisa_kev'' \<and>
          source = js ''cisa_kev_json_catalog'' \<and> kind = js ''tmp'' \<and> LOWER_UUID upload
      | _ \<Rightarrow> False)"

definition INTELLIGENCE_FINAL_SNAPSHOT_OBJECT_KEY_PATTERN :: "jstr \<Rightarrow> bool" where
  "INTELLIGENCE_FINAL_SNAPSHOT_OBJECT_KEY_PATTERN key \<longleftrightarrow>
     (case js_split 47 key of
        [root, provider, source, kind, digest] \<Rightarrow>
          root = js ''intelligence'' \<and> provider = js ''cisa_kev'' \<and>
          source = js ''cisa_kev_json_catalog'' \<and> kind = js ''sha256'' \<and> SHA256_HEX_PATTERN digest
      | _ \<Rightarrow> False)"

definition INTELLIGENCE_INVALID_OBJECT_KEY :: appError where
  "INTELLIGENCE_INVALID_OBJECT_KEY =
     \<lparr>errCode = err_validation,
      errMessage = js ''Intelligence snapshot object key is not a valid instance-owned snapshot key.''\<rparr>"

definition looksLikeUrl :: "jstr \<Rightarrow> bool" where
  "looksLikeUrl value \<longleftrightarrow>
     includes_text value (js ''://'') \<or> starts_with value (js ''http:'') \<or>
     starts_with value (js ''https:'') \<or> starts_with value (js ''//'')"

definition hasUnsafeKeyShape :: "jstr \<Rightarrow> bool" where
  "hasUnsafeKeyShape value \<longleftrightarrow>
     length value = 0 \<or> length value > INTELLIGENCE_SNAPSHOT_OBJECT_KEY_MAX_LENGTH \<or>
     includes_text value (js ''.'') \<or> includes_text value [92] \<or> includes_text value (js ''//'') \<or>
     looksLikeUrl value \<or> includes_text value (js ''sboms/'') \<or> isFinalSbomObjectKey value \<or>
     isTemporarySbomObjectKey value"

definition parseTemporaryIntelligenceSnapshotObjectKey :: "jstr \<Rightarrow> appError + jstr" where
  "parseTemporaryIntelligenceSnapshotObjectKey value =
     (if hasUnsafeKeyShape value \<or> \<not> INTELLIGENCE_TEMPORARY_SNAPSHOT_OBJECT_KEY_PATTERN value
      then Inl INTELLIGENCE_INVALID_OBJECT_KEY else Inr value)"

definition parseFinalIntelligenceSnapshotObjectKey :: "jstr \<Rightarrow> appError + jstr" where
  "parseFinalIntelligenceSnapshotObjectKey value =
     (if hasUnsafeKeyShape value \<or> \<not> INTELLIGENCE_FINAL_SNAPSHOT_OBJECT_KEY_PATTERN value
      then Inl INTELLIGENCE_INVALID_OBJECT_KEY else Inr value)"

definition buildTemporaryIntelligenceSnapshotObjectKey :: "jstr \<Rightarrow> appError + jstr" where
  "buildTemporaryIntelligenceSnapshotObjectKey uploadId =
     (if \<not> LOWER_UUID uploadId then Inl INTELLIGENCE_INVALID_OBJECT_KEY
      else parseTemporaryIntelligenceSnapshotObjectKey (TEMPORARY_PREFIX @ uploadId))"

definition buildFinalIntelligenceSnapshotObjectKey :: "jstr \<Rightarrow> appError + jstr" where
  "buildFinalIntelligenceSnapshotObjectKey responseSha256 =
     (if \<not> SHA256_HEX_PATTERN responseSha256 then Inl INTELLIGENCE_INVALID_OBJECT_KEY
      else parseFinalIntelligenceSnapshotObjectKey (FINAL_PREFIX @ responseSha256))"

definition parseIntelligenceSnapshotObjectKey :: "jstr \<Rightarrow> appError + jstr" where
  "parseIntelligenceSnapshotObjectKey value =
     (case parseTemporaryIntelligenceSnapshotObjectKey value of
        Inr key \<Rightarrow> Inr key
      | Inl _ \<Rightarrow> parseFinalIntelligenceSnapshotObjectKey value)"

definition isTemporaryIntelligenceSnapshotObjectKey :: "jstr \<Rightarrow> bool" where
  "isTemporaryIntelligenceSnapshotObjectKey value \<longleftrightarrow>
     is_ok (parseTemporaryIntelligenceSnapshotObjectKey value)"

definition isFinalIntelligenceSnapshotObjectKey :: "jstr \<Rightarrow> bool" where
  "isFinalIntelligenceSnapshotObjectKey value \<longleftrightarrow>
     is_ok (parseFinalIntelligenceSnapshotObjectKey value)"

definition uploadIdFromTemporaryIntelligenceSnapshotObjectKey :: "jstr \<Rightarrow> jstr" where
  "uploadIdFromTemporaryIntelligenceSnapshotObjectKey key = drop (length TEMPORARY_PREFIX) key"

definition sha256FromFinalIntelligenceSnapshotObjectKey :: "jstr \<Rightarrow> jstr" where
  "sha256FromFinalIntelligenceSnapshotObjectKey key = drop (length FINAL_PREFIX) key"

subsection \<open>Keys and their segments\<close>

lemma js_split_iff:
  "js_split c s = parts \<longleftrightarrow> parts \<noteq> [] \<and> s = join_with c parts \<and> (\<forall>p \<in> set parts. c \<notin> set p)"
proof
  assume "js_split c s = parts"
  then show "parts \<noteq> [] \<and> s = join_with c parts \<and> (\<forall>p \<in> set parts. c \<notin> set p)"
    using join_js_split [of c s] js_split_parts_avoid [of _ c s] by auto
next
  assume "parts \<noteq> [] \<and> s = join_with c parts \<and> (\<forall>p \<in> set parts. c \<notin> set p)"
  then show "js_split c s = parts" using js_split_join [of parts c] by (simp add: list_all_iff)
qed

text \<open>A pattern of fixed and tested segments, read as the texts that join them.\<close>

lemma split_case_iff:
  assumes "\<And>p. p \<in> set parts \<Longrightarrow> c \<notin> set p" "parts \<noteq> []"
  shows "js_split c s = parts \<longleftrightarrow> s = join_with c parts"
  using assms by (auto simp: js_split_iff)

lemma one_hole_segments:
  assumes fixed: "c \<notin> set k1" "c \<notin> set k2" "c \<notin> set k3" "c \<notin> set k4" and hole: "\<And>z. P z \<Longrightarrow> c \<notin> set z"
  shows "(case js_split c s of
       [a1, a2, a3, a4, z] \<Rightarrow> a1 = k1 \<and> a2 = k2 \<and> a3 = k3 \<and> a4 = k4 \<and> P z
     | _ \<Rightarrow> False) \<longleftrightarrow> (\<exists>z. P z \<and> s = join_with c [k1, k2, k3, k4, z])"
    (is "?lhs \<longleftrightarrow> _")
proof -
  have "(\<exists>z. P z \<and> js_split c s = [k1, k2, k3, k4, z]) \<longleftrightarrow>
      (\<exists>z. P z \<and> s = join_with c [k1, k2, k3, k4, z])"
    using fixed hole split_case_iff [of "[k1, k2, k3, k4, _]" c s] by fastforce
  moreover have "?lhs \<longleftrightarrow> (\<exists>z. P z \<and> js_split c s = [k1, k2, k3, k4, z])"
    by (auto split: list.split)
  ultimately show ?thesis by (rule trans [rotated])
qed

lemma three_hole_segments:
  assumes fixed: "c \<notin> set k1" "c \<notin> set k2" "c \<notin> set k3" "c \<notin> set k4"
    and hole: "\<And>z. P z \<Longrightarrow> c \<notin> set z" "\<And>z. Q z \<Longrightarrow> c \<notin> set z"
  shows "(case js_split c s of
       [a1, x, a2, y, a3, a4, z] \<Rightarrow>
         a1 = k1 \<and> P x \<and> a2 = k2 \<and> P y \<and> a3 = k3 \<and> a4 = k4 \<and> Q z
     | _ \<Rightarrow> False) \<longleftrightarrow>
     (\<exists>x y z. P x \<and> P y \<and> Q z \<and> s = join_with c [k1, x, k2, y, k3, k4, z])"
    (is "?lhs \<longleftrightarrow> _")
proof -
  have "P x \<and> P y \<and> Q z \<and> js_split c s = [k1, x, k2, y, k3, k4, z] \<longleftrightarrow>
      P x \<and> P y \<and> Q z \<and> s = join_with c [k1, x, k2, y, k3, k4, z]" for x y z
    using fixed hole split_case_iff [of "[k1, x, k2, y, k3, k4, z]" c s] by fastforce
  then have "(\<exists>x y z. P x \<and> P y \<and> Q z \<and> js_split c s = [k1, x, k2, y, k3, k4, z]) \<longleftrightarrow>
      (\<exists>x y z. P x \<and> P y \<and> Q z \<and> s = join_with c [k1, x, k2, y, k3, k4, z])"
    by presburger
  moreover have "?lhs \<longleftrightarrow> (\<exists>x y z. P x \<and> P y \<and> Q z \<and> js_split c s = [k1, x, k2, y, k3, k4, z])"
    by (auto split: list.split)
  ultimately show ?thesis by (rule trans [rotated])
qed

lemma js_no_slash:
  "47 \<notin> set (js ''org'')" "47 \<notin> set (js ''assets'')" "47 \<notin> set (js ''sboms'')" "47 \<notin> set (js ''tmp'')"
  "47 \<notin> set (js ''sha256'')" "47 \<notin> set (js ''intelligence'')" "47 \<notin> set (js ''cisa_kev'')"
  "47 \<notin> set (js ''cisa_kev_json_catalog'')"
  by (simp_all add: js_def)

lemmas segment_simps = js_no_slash LOWER_UUID_no_slash SHA256_no_slash

lemma temporary_key_segments:
  "buildTemporarySbomObjectKey x y z =
     join_with 47 [js ''org'', x, js ''assets'', y, js ''sboms'', js ''tmp'', z]"
  by (simp add: buildTemporarySbomObjectKey_def js_def)

lemma final_key_segments:
  "buildFinalSbomObjectKey x y z =
     join_with 47 [js ''org'', x, js ''assets'', y, js ''sboms'', js ''sha256'', z]"
  by (simp add: buildFinalSbomObjectKey_def js_def)

lemma sbom_temporary_iff:
  "isTemporarySbomObjectKey key \<longleftrightarrow>
     (\<exists>x y z. LOWER_UUID x \<and> LOWER_UUID y \<and> LOWER_UUID z \<and> key = buildTemporarySbomObjectKey x y z)"
  unfolding isTemporarySbomObjectKey_def SBOM_TEMPORARY_OBJECT_KEY_PATTERN_def temporary_key_segments
  by (rule three_hole_segments) (simp_all add: segment_simps)

lemma sbom_final_pattern_iff:
  "SBOM_FINAL_OBJECT_KEY_PATTERN key \<longleftrightarrow>
     (\<exists>x y z. LOWER_UUID x \<and> LOWER_UUID y \<and> SHA256_HEX_PATTERN z \<and> key = buildFinalSbomObjectKey x y z)"
  unfolding SBOM_FINAL_OBJECT_KEY_PATTERN_def final_key_segments
  by (rule three_hole_segments) (simp_all add: segment_simps)

lemma slice_last_append: "length t = n \<Longrightarrow> slice_last n (s @ t) = t"
  by (simp add: slice_last_def)

lemma slice_final_key:
  assumes "SHA256_HEX_PATTERN z"
  shows "slice_last 64 (buildFinalSbomObjectKey x y z) = z"
proof -
  have "length z = 64" using assms by (simp add: SHA256_HEX_PATTERN_def)
  from slice_last_append [OF this, of "js ''org/'' @ x @ js ''/assets/'' @ y @ js ''/sboms/sha256/''"]
  show ?thesis by (simp add: buildFinalSbomObjectKey_def)
qed

lemma sbom_final_iff:
  "isFinalSbomObjectKey key \<longleftrightarrow>
     (\<exists>x y z. LOWER_UUID x \<and> LOWER_UUID y \<and> SHA256_HEX_PATTERN z \<and> key = buildFinalSbomObjectKey x y z)"
  by (auto simp: isFinalSbomObjectKey_def sbom_final_pattern_iff slice_final_key)

lemma temporary_key_split:
  "LOWER_UUID x \<Longrightarrow> LOWER_UUID y \<Longrightarrow> LOWER_UUID z \<Longrightarrow>
   js_split 47 (buildTemporarySbomObjectKey x y z) =
     [js ''org'', x, js ''assets'', y, js ''sboms'', js ''tmp'', z]"
  unfolding js_split_iff temporary_key_segments by (simp add: segment_simps)

lemma final_key_split:
  "LOWER_UUID x \<Longrightarrow> LOWER_UUID y \<Longrightarrow> SHA256_HEX_PATTERN z \<Longrightarrow>
   js_split 47 (buildFinalSbomObjectKey x y z) =
     [js ''org'', x, js ''assets'', y, js ''sboms'', js ''sha256'', z]"
  unfolding js_split_iff final_key_segments by (simp add: segment_simps)

text \<open>
  C37. The tenant scope read from an SBOM object key is exactly the one the key was built for: a key
  yields the scope \<open>(organization, asset)\<close> when, and only when, it is the temporary key of some upload
  or the final key of some digest of that organization and asset.
\<close>
theorem sbom_scope_exact:
  "sbomObjectKeyScope key = Some (organization, asset) \<longleftrightarrow>
     LOWER_UUID organization \<and> LOWER_UUID asset \<and>
     ((\<exists>upload. LOWER_UUID upload \<and> key = buildTemporarySbomObjectKey organization asset upload) \<or>
      (\<exists>digest. SHA256_HEX_PATTERN digest \<and> key = buildFinalSbomObjectKey organization asset digest))"
proof -
  have temporary: "sbomObjectKeyScope (buildTemporarySbomObjectKey x y z) = Some (x, y)"
    if "LOWER_UUID x" "LOWER_UUID y" "LOWER_UUID z" for x y z
    using that sbom_temporary_iff
    by (auto simp: sbomObjectKeyScope_def temporary_key_split)
  moreover have final: "sbomObjectKeyScope (buildFinalSbomObjectKey x y z) = Some (x, y)"
    if "LOWER_UUID x" "LOWER_UUID y" "SHA256_HEX_PATTERN z" for x y z
    using that sbom_final_iff by (auto simp: sbomObjectKeyScope_def final_key_split)
  moreover have "isTemporarySbomObjectKey key \<or> isFinalSbomObjectKey key"
    if "sbomObjectKeyScope key = Some s" for s
    using that by (auto simp: sbomObjectKeyScope_def split: if_splits)
  ultimately show ?thesis
    unfolding sbom_temporary_iff sbom_final_iff by (metis option.inject prod.inject)
qed

subsection \<open>Snapshot keys are safe as built\<close>

lemma temporary_snapshot_segments:
  "TEMPORARY_PREFIX @ u = join_with 47
     [js ''intelligence'', js ''cisa_kev'', js ''cisa_kev_json_catalog'', js ''tmp'', u]"
  by (simp add: TEMPORARY_PREFIX_def INTELLIGENCE_SNAPSHOT_KEY_PREFIX_def js_def)

lemma final_snapshot_segments:
  "FINAL_PREFIX @ d = join_with 47
     [js ''intelligence'', js ''cisa_kev'', js ''cisa_kev_json_catalog'', js ''sha256'', d]"
  by (simp add: FINAL_PREFIX_def INTELLIGENCE_SNAPSHOT_KEY_PREFIX_def js_def)

lemma temporary_snapshot_pattern_iff:
  "INTELLIGENCE_TEMPORARY_SNAPSHOT_OBJECT_KEY_PATTERN key \<longleftrightarrow>
     (\<exists>u. LOWER_UUID u \<and> key = TEMPORARY_PREFIX @ u)"
  unfolding INTELLIGENCE_TEMPORARY_SNAPSHOT_OBJECT_KEY_PATTERN_def temporary_snapshot_segments
  by (rule one_hole_segments) (simp_all add: segment_simps)

lemma final_snapshot_pattern_iff:
  "INTELLIGENCE_FINAL_SNAPSHOT_OBJECT_KEY_PATTERN key \<longleftrightarrow>
     (\<exists>d. SHA256_HEX_PATTERN d \<and> key = FINAL_PREFIX @ d)"
  unfolding INTELLIGENCE_FINAL_SNAPSHOT_OBJECT_KEY_PATTERN_def final_snapshot_segments
  by (rule one_hole_segments) (simp_all add: segment_simps)

lemma uuid_length: "uuid_groups hex s \<Longrightarrow> length s = 36"
proof -
  assume "uuid_groups hex s"
  then obtain a b c d e where "js_split 45 s = [a, b, c, d, e]" and
    "length a = 8" "length b = 4" "length c = 4" "length d = 4" "length e = 12"
    by (auto simp: uuid_groups_def split: list.splits)
  then show ?thesis using join_js_split [of 45 s] by auto
qed

text \<open>The tail of a snapshot key: short, not empty, of hexadecimal digits and hyphens.\<close>

definition key_tail :: "jstr \<Rightarrow> bool" where
  "key_tail t \<longleftrightarrow> t \<noteq> [] \<and> length t \<le> 64 \<and> (\<forall>c \<in> set t. lower_hex c \<or> c = 45)"

lemma uuid_tail: "LOWER_UUID u \<Longrightarrow> key_tail u"
  using uuid_length [of lower_hex u] uuid_groups_chars [of lower_hex u]
  by (auto simp: LOWER_UUID_def key_tail_def)

lemma digest_tail: "SHA256_HEX_PATTERN d \<Longrightarrow> key_tail d"
  by (auto simp: SHA256_HEX_PATTERN_def key_tail_def list_all_iff)

lemma tail_without:
  "key_tail t \<Longrightarrow> \<not> lower_hex c \<Longrightarrow> c \<noteq> 45 \<Longrightarrow> c \<in> set p \<Longrightarrow> \<not> includes_text t p"
  using includes_chars [of t p] by (auto simp: key_tail_def)

lemma safe_snapshot_key:
  assumes tail: "key_tail t" and prefix: "p = TEMPORARY_PREFIX \<or> p = FINAL_PREFIX"
  shows "\<not> hasUnsafeKeyShape (p @ t)"
proof -
  obtain c t' where t: "t = c # t'" and c: "c \<noteq> 47"
    using tail by (cases t) (auto simp: key_tail_def lower_hex_def is_digit_def)
  have no: "\<not> includes_text t [46]" "\<not> includes_text t [92]" "\<not> includes_text t [47, 47]"
    "\<not> includes_text t [58, 47, 47]" "\<not> includes_text t [115, 98, 111, 109, 115, 47]"
    by (rule tail_without [OF tail, where c = 46] tail_without [OF tail, where c = 92]
        tail_without [OF tail, where c = 47]; simp add: lower_hex_def is_digit_def)+
  have sbom: "\<not> isFinalSbomObjectKey (p @ t)" "\<not> isTemporarySbomObjectKey (p @ t)"
    unfolding sbom_final_iff sbom_temporary_iff using prefix
    by (auto simp: buildFinalSbomObjectKey_def buildTemporarySbomObjectKey_def TEMPORARY_PREFIX_def
        FINAL_PREFIX_def INTELLIGENCE_SNAPSHOT_KEY_PREFIX_def js_def)
  have "length t \<le> 64" using tail by (simp add: key_tail_def)
  with no c sbom prefix show ?thesis
    by (auto simp: hasUnsafeKeyShape_def looksLikeUrl_def TEMPORARY_PREFIX_def FINAL_PREFIX_def
        INTELLIGENCE_SNAPSHOT_KEY_PREFIX_def INTELLIGENCE_SNAPSHOT_OBJECT_KEY_MAX_LENGTH_def js_def t)
qed

text \<open>
  The keys the snapshot store accepts are exactly those its builders make: a temporary key of an
  upload id or a final key of a digest, from which that id or digest is read back. The screen for
  unsafe shapes refuses none of them, and no such key is an SBOM key of any tenant.
\<close>
theorem snapshot_key_exact:
  "(parseIntelligenceSnapshotObjectKey text = Inr key \<longleftrightarrow>
      (\<exists>u. buildTemporaryIntelligenceSnapshotObjectKey u = Inr key \<and> key = text \<and>
         uploadIdFromTemporaryIntelligenceSnapshotObjectKey key = u) \<or>
      (\<exists>d. buildFinalIntelligenceSnapshotObjectKey d = Inr key \<and> key = text \<and>
         sha256FromFinalIntelligenceSnapshotObjectKey key = d)) \<and>
   (is_ok (buildTemporaryIntelligenceSnapshotObjectKey u) \<longleftrightarrow> LOWER_UUID u) \<and>
   (is_ok (buildFinalIntelligenceSnapshotObjectKey d) \<longleftrightarrow> SHA256_HEX_PATTERN d) \<and>
   \<not> (is_ok (parseIntelligenceSnapshotObjectKey text) \<and> sbomObjectKeyScope text \<noteq> None)"
proof -
  have temporary: "parseTemporaryIntelligenceSnapshotObjectKey k =
      (if \<exists>u. LOWER_UUID u \<and> k = TEMPORARY_PREFIX @ u then Inr k
       else Inl INTELLIGENCE_INVALID_OBJECT_KEY)" for k
    using safe_snapshot_key uuid_tail
    by (auto simp: parseTemporaryIntelligenceSnapshotObjectKey_def temporary_snapshot_pattern_iff)
  have final: "parseFinalIntelligenceSnapshotObjectKey k =
      (if \<exists>d. SHA256_HEX_PATTERN d \<and> k = FINAL_PREFIX @ d then Inr k
       else Inl INTELLIGENCE_INVALID_OBJECT_KEY)" for k
    using safe_snapshot_key digest_tail
    by (auto simp: parseFinalIntelligenceSnapshotObjectKey_def final_snapshot_pattern_iff)
  have builds: "buildTemporaryIntelligenceSnapshotObjectKey u =
      (if LOWER_UUID u then Inr (TEMPORARY_PREFIX @ u) else Inl INTELLIGENCE_INVALID_OBJECT_KEY)"
    "buildFinalIntelligenceSnapshotObjectKey d =
      (if SHA256_HEX_PATTERN d then Inr (FINAL_PREFIX @ d) else Inl INTELLIGENCE_INVALID_OBJECT_KEY)"
    for u d
    by (auto simp: buildTemporaryIntelligenceSnapshotObjectKey_def
        buildFinalIntelligenceSnapshotObjectKey_def temporary final)
  have parse: "parseIntelligenceSnapshotObjectKey text =
      (if (\<exists>u. LOWER_UUID u \<and> text = TEMPORARY_PREFIX @ u) \<or>
          (\<exists>d. SHA256_HEX_PATTERN d \<and> text = FINAL_PREFIX @ d) then Inr text
       else Inl INTELLIGENCE_INVALID_OBJECT_KEY)"
    by (simp add: parseIntelligenceSnapshotObjectKey_def temporary final)
  have "sbomObjectKeyScope text = None" if "is_ok (parseIntelligenceSnapshotObjectKey text)"
  proof -
    have "\<not> hasUnsafeKeyShape text"
      using that safe_snapshot_key uuid_tail digest_tail unfolding parse by (auto split: if_splits)
    then show ?thesis by (simp add: hasUnsafeKeyShape_def sbomObjectKeyScope_def)
  qed
  then show ?thesis
    unfolding parse builds uploadIdFromTemporaryIntelligenceSnapshotObjectKey_def
      sha256FromFinalIntelligenceSnapshotObjectKey_def
    by (auto split: if_splits)
qed

end
