(* ===== verification/KevRecords.thy ===== *)
theory KevRecords
  imports ObjectKeys
begin

text \<open>
  The values of the KEV catalog: the text normalizers of
  \<^verbatim>\<open>packages/domain/src/intelligence/normalize.ts\<close> and the record checks of \<^verbatim>\<open>records.ts\<close>. A
  \<^verbatim>\<open>Date\<close> is its time value; the release time of a catalog keeps its JavaScript number, since a later
  decision tests it. Providers and source identifiers are texts, since the code tests them.
\<close>

subsection \<open>Text normalizers\<close>

definition JSON_STRING_WHITESPACE :: "nat list" where
  [eval_defs]: "JSON_STRING_WHITESPACE = [32, 9, 10, 13]"

definition trimJsonStringWhitespace :: "jstr \<Rightarrow> jstr" where
  [eval_defs]: "trimJsonStringWhitespace value =
     rev (dropWhile (\<lambda>c. c \<in> set JSON_STRING_WHITESPACE)
       (rev (dropWhile (\<lambda>c. c \<in> set JSON_STRING_WHITESPACE) value)))"

definition asciiUppercase :: "jstr \<Rightarrow> jstr" where
  [eval_defs]: "asciiUppercase value = map (\<lambda>c. if 97 \<le> c \<and> c \<le> 122 then c - 32 else c) value"

text \<open>\<^verbatim>\<open>/^CVE-[0-9]{4}-[0-9]{4,19}$/\<close>.\<close>

definition CANONICAL_CVE_PATTERN :: "jstr \<Rightarrow> bool" where
  [eval_defs]: "CANONICAL_CVE_PATTERN s \<longleftrightarrow>
     (case js_split 45 s of
        [p, y, n] \<Rightarrow> p = js ''CVE'' \<and> length y = 4 \<and> list_all is_digit y \<and>
          4 \<le> length n \<and> length n \<le> 19 \<and> list_all is_digit n
      | _ \<Rightarrow> False)"

definition normalizeKevCve :: "jstr \<Rightarrow> appError + jstr" where
  "normalizeKevCve value =
     (if \<not> isAscii value then Inl (intelligenceValidationError (js ''malformed_cve''))
      else let trimmed = trimJsonStringWhitespace value
      in if length trimmed = 0 \<or> trimmed \<noteq> js_trim trimmed
         then Inl (intelligenceValidationError (js ''malformed_cve''))
         else if \<exists>code \<in> set trimmed. code < 32 \<or> code = 127
         then Inl (intelligenceValidationError (js ''malformed_cve''))
         else let canonical = asciiUppercase trimmed
           in if \<not> CANONICAL_CVE_PATTERN canonical
              then Inl (intelligenceValidationError (js ''malformed_cve''))
              else Inr canonical)"

definition isCanonicalCve :: "jstr \<Rightarrow> bool" where
  "isCanonicalCve value \<longleftrightarrow> CANONICAL_CVE_PATTERN value"

definition daysInMonth :: "nat \<Rightarrow> nat \<Rightarrow> nat" where
  [eval_defs]: "daysInMonth year month =
     (if month = 2 then
        (if (year mod 4 = 0 \<and> year mod 100 \<noteq> 0) \<or> year mod 400 = 0 then 29 else 28)
      else if month \<in> {4, 6, 9, 11} then 30 else 31)"

text \<open>\<^verbatim>\<open>/^[0-9]{4}-[0-9]{2}-[0-9]{2}$/\<close>.\<close>

definition CALENDAR_DATE_PATTERN :: "jstr \<Rightarrow> bool" where
  [eval_defs]: "CALENDAR_DATE_PATTERN s \<longleftrightarrow>
     (case js_split 45 s of
        [y, m, d] \<Rightarrow> length y = 4 \<and> list_all is_digit y \<and> length m = 2 \<and> list_all is_digit m \<and>
          length d = 2 \<and> list_all is_digit d
      | _ \<Rightarrow> False)"

text \<open>\<^verbatim>\<open>value.slice(from, to)\<close> for \<open>from \<le> to\<close>, and \<^verbatim>\<open>Number\<close> of a digit string.\<close>

definition slice :: "nat \<Rightarrow> nat \<Rightarrow> 'a list \<Rightarrow> 'a list" where
  [eval_defs]: "slice start stop s = take (stop - start) (drop start s)"

definition parseCalendarDate :: "jstr \<Rightarrow> appError + jstr" where
  "parseCalendarDate value =
     (if \<not> CALENDAR_DATE_PATTERN value
      then Inl (intelligenceValidationError (js ''Calendar date must be canonical YYYY-MM-DD.''))
      else let year = decval (slice 0 4 value);
               month = decval (slice 5 7 value);
               day = decval (slice 8 10 value)
        in if month < 1 \<or> month > 12 \<or> day < 1 \<or> day > daysInMonth year month
           then Inl (intelligenceValidationError (js ''Calendar date is not a valid Gregorian date.''))
           else Inr value)"

datatype knownRansomwareCampaignUse = ransomware_known | ransomware_unknown | ransomware_other

definition INTELLIGENCE_RAW_RANSOMWARE_MAX_LENGTH :: nat where
  [catalog_defs]: "INTELLIGENCE_RAW_RANSOMWARE_MAX_LENGTH = 64"

definition retainAsOther :: "jstr \<Rightarrow> appError + knownRansomwareCampaignUse \<times> jstr option" where
  "retainAsOther raw =
     (if length raw = 0 \<or> utf8ByteLength raw > INTELLIGENCE_RAW_RANSOMWARE_MAX_LENGTH
      then Inl (intelligenceValidationError (js ''text_field_limit''))
      else Inr (ransomware_other, Some raw))"

definition normalizeKnownRansomwareCampaignUse ::
  "jstr \<Rightarrow> appError + knownRansomwareCampaignUse \<times> jstr option" where
  "normalizeKnownRansomwareCampaignUse raw =
     (if \<not> isAscii raw then retainAsOther raw
      else let trimmed = trimJsonStringWhitespace raw;
               canonical = asciiUppercase trimmed
        in if canonical = js ''KNOWN'' then Inr (ransomware_known, None)
           else if canonical = js ''UNKNOWN'' then Inr (ransomware_unknown, None)
           else retainAsOther (if length trimmed = 0 then raw else trimmed))"

text \<open>\<^verbatim>\<open>/^CWE-[0-9]{1,8}$/\<close>.\<close>

definition CANONICAL_CWE_PATTERN :: "jstr \<Rightarrow> bool" where
  [eval_defs]: "CANONICAL_CWE_PATTERN s \<longleftrightarrow>
     (case js_split 45 s of
        [p, n] \<Rightarrow> p = js ''CWE'' \<and> 1 \<le> length n \<and> length n \<le> 8 \<and> list_all is_digit n
      | _ \<Rightarrow> False)"

definition INTELLIGENCE_CWE_MAX_LENGTH :: nat where
  [catalog_defs]: "INTELLIGENCE_CWE_MAX_LENGTH = 32"

definition INTELLIGENCE_CWE_MAX_COUNT :: nat where
  [catalog_defs]: "INTELLIGENCE_CWE_MAX_COUNT = 16"

definition parseCweIdentifier :: "jstr \<Rightarrow> appError + jstr" where
  "parseCweIdentifier value =
     (if \<not> isAscii value \<or> \<not> CANONICAL_CWE_PATTERN value
      then Inl (intelligenceValidationError (js ''CWE identifier is not canonical.''))
      else if length value > INTELLIGENCE_CWE_MAX_LENGTH
      then Inl (intelligenceValidationError (js ''text_field_limit''))
      else Inr value)"

text \<open>The loop keeps the set \<^verbatim>\<open>seen\<close> and the list \<^verbatim>\<open>parsed\<close>; they have the same elements.\<close>

fun parseCweLoop :: "jstr list \<Rightarrow> jstr list \<Rightarrow> appError + jstr list" where
  "parseCweLoop parsed [] = Inr parsed"
| "parseCweLoop parsed (value # rest) =
     (case parseCweIdentifier value of
        Inl e \<Rightarrow> Inl e
      | Inr cwe \<Rightarrow> if cwe \<in> set parsed then parseCweLoop parsed rest
                   else parseCweLoop (parsed @ [cwe]) rest)"

definition parseCweList :: "jstr list \<Rightarrow> appError + jstr list" where
  "parseCweList values =
     (if length values > INTELLIGENCE_CWE_MAX_COUNT
      then Inl (intelligenceValidationError (js ''cwe_count_limit''))
      else parseCweLoop [] values)"

definition INTELLIGENCE_TEXT_FIELD_MAX_BYTES :: nat where
  [catalog_defs]: "INTELLIGENCE_TEXT_FIELD_MAX_BYTES = 16384"

definition parseUntrustedPlainText :: "jstr \<Rightarrow> nat \<Rightarrow> appError + jstr" where
  "parseUntrustedPlainText value maxBytes =
     (if utf8ByteLength value > maxBytes
      then Inl (intelligenceValidationError (js ''text_field_limit''))
      else Inr value)"

text \<open>The two sets of the source are insertion ordered; the result lists \<^verbatim>\<open>duplicates\<close>.\<close>

fun duplicateLoop :: "jstr list \<Rightarrow> jstr list \<Rightarrow> jstr list \<Rightarrow> jstr list" where
  "duplicateLoop seen duplicates [] = duplicates"
| "duplicateLoop seen duplicates (cve # rest) =
     duplicateLoop (if cve \<in> set seen then seen else seen @ [cve])
       (if cve \<in> set seen \<and> cve \<notin> set duplicates then duplicates @ [cve] else duplicates) rest"

definition findDuplicateNormalizedCves :: "jstr list \<Rightarrow> jstr list" where
  "findDuplicateNormalizedCves cves = duplicateLoop [] [] cves"

definition assertNoDuplicateNormalizedCves :: "jstr list \<Rightarrow> appError + unit" where
  "assertNoDuplicateNormalizedCves cves =
     (if length (findDuplicateNormalizedCves cves) > 0
      then Inl (intelligenceValidationError (js ''duplicate_cve'')) else Inr ())"

subsection \<open>Records\<close>

datatype kevGenerationState =
    gen_staging | gen_complete | gen_active | gen_superseded | gen_abandoned

definition kevGenerationStates :: "kevGenerationState list" where
  [catalog_defs]: "kevGenerationStates =
     [gen_staging, gen_complete, gen_active, gen_superseded, gen_abandoned]"

definition intelligenceProviders :: "jstr list" where
  [catalog_defs]: "intelligenceProviders = [js ''cisa_kev'', js ''osv'']"

definition CISA_KEV_SOURCE_IDENTIFIER :: jstr where
  [catalog_defs]: "CISA_KEV_SOURCE_IDENTIFIER = js ''cisa_kev_json_catalog''"

definition intelligenceSourceIdentifiers :: "jstr list" where
  [catalog_defs]: "intelligenceSourceIdentifiers = [CISA_KEV_SOURCE_IDENTIFIER]"

definition INTELLIGENCE_SAFE_CONTENT_TYPE_LABELS :: "jstr list" where
  [catalog_defs]: "INTELLIGENCE_SAFE_CONTENT_TYPE_LABELS =
     [js ''application/json'', js ''application/json; charset=utf-8'']"

record intelligenceSnapshotRecord =
  snapId :: jstr
  snapProvider :: jstr
  snapSourceIdentifier :: jstr
  snapResponseSha256 :: jstr
  snapByteLength :: jsnum
  snapDeclaredContentType :: "jstr option"
  snapDetectedContentType :: "jstr option"
  snapObjectKey :: jstr
  snapRetrievedAt :: int
  snapStoredAt :: int
  snapEtagHash :: "jstr option"
  snapLastModified :: "int option"
  snapCreatingSyncRunId :: jstr
  snapCreatedAt :: int

record kevGenerationRecord =
  genId :: jstr
  genProvider :: jstr
  genSourceIdentifier :: jstr
  genSyncRunId :: jstr
  genSnapshotId :: jstr
  genState :: kevGenerationState
  genStagedEntryCount :: jsnum
  genExpectedEntryCount :: jsnum
  genParserVersion :: jstr
  genNormalizationVersion :: jstr
  genCatalogVersion :: "jstr option"
  genCatalogReleasedAt :: "jsnum option"
  genCreatedAt :: int
  genCompletedAt :: "int option"
  genActivatedAt :: "int option"
  genSupersededAt :: "int option"
  genAbandonedAt :: "int option"
  genVersion :: jsnum
  genUpdatedAt :: int

record kevNormalizedEntryRecord =
  entId :: jstr
  entGenerationId :: jstr
  entSnapshotId :: jstr
  entOrdinal :: jsnum
  entNormalizedCve :: jstr
  entVendorProject :: jstr
  entProduct :: jstr
  entVulnerabilityName :: jstr
  entDateAdded :: jstr
  entShortDescription :: jstr
  entRequiredAction :: jstr
  entDueDate :: jstr
  entKnownRansomwareCampaignUse :: knownRansomwareCampaignUse
  entRawKnownRansomwareCampaignUse :: "jstr option"
  entNotes :: "jstr option"
  entCwes :: "jstr list"
  entCreatedAt :: int

record kevCurrentMembership =
  memGenerationId :: jstr
  memSnapshotId :: jstr
  memNormalizedCve :: jstr
  memOrdinal :: jsnum

definition INTELLIGENCE_GENERATION_INCOMPLETE :: appError where
  "INTELLIGENCE_GENERATION_INCOMPLETE =
     \<lparr>errCode = err_conflict, errMessage = js ''Incomplete KEV generations cannot activate.''\<rparr>"

definition INTELLIGENCE_GENERATION_COUNT_MISMATCH :: appError where
  "INTELLIGENCE_GENERATION_COUNT_MISMATCH =
     \<lparr>errCode = err_conflict,
      errMessage = js ''KEV generation staged entry count must match the expected count before activation.''\<rparr>"

definition INTELLIGENCE_ABANDONED_GENERATION :: appError where
  "INTELLIGENCE_ABANDONED_GENERATION =
     \<lparr>errCode = err_conflict, errMessage = js ''Abandoned KEV generations cannot activate.''\<rparr>"

definition INTELLIGENCE_VERSION_LABEL_MAX_LENGTH :: nat where
  [catalog_defs]: "INTELLIGENCE_VERSION_LABEL_MAX_LENGTH = 64"

definition INTELLIGENCE_CATALOG_VERSION_MAX_LENGTH :: nat where
  [catalog_defs]: "INTELLIGENCE_CATALOG_VERSION_MAX_LENGTH = 128"

text \<open>\<^verbatim>\<open>/^[a-zA-Z0-9][a-zA-Z0-9._+-]{0,63}$/\<close>.\<close>

definition INTELLIGENCE_VERSION_LABEL_PATTERN :: "jstr \<Rightarrow> bool" where
  [eval_defs]: "INTELLIGENCE_VERSION_LABEL_PATTERN s \<longleftrightarrow>
     (case s of
        [] \<Rightarrow> False
      | c # cs \<Rightarrow> (is_lower c \<or> is_upper c \<or> is_digit c) \<and> length cs \<le> 63 \<and>
          list_all (\<lambda>d. is_lower d \<or> is_upper d \<or> is_digit d \<or> d \<in> {46, 95, 43, 45}) cs)"

definition isVersionLabel :: "jstr \<Rightarrow> bool" where
  [eval_defs]: "isVersionLabel value \<longleftrightarrow>
     length value > 0 \<and> length value \<le> INTELLIGENCE_VERSION_LABEL_MAX_LENGTH \<and>
     INTELLIGENCE_VERSION_LABEL_PATTERN value"

definition isSafeContentType :: "jstr option \<Rightarrow> bool" where
  "isSafeContentType value =
     (case value of
        None \<Rightarrow> True
      | Some label \<Rightarrow> label \<in> set INTELLIGENCE_SAFE_CONTENT_TYPE_LABELS)"

definition validateIntelligenceSnapshotRecord ::
  "intelligenceSnapshotRecord \<Rightarrow> appError + intelligenceSnapshotRecord" where
  "validateIntelligenceSnapshotRecord r =
     (if \<not> UUID_PATTERN (snapId r) \<or> \<not> UUID_PATTERN (snapCreatingSyncRunId r)
      then Inl (intelligenceValidationError (js ''Snapshot identifiers must be UUIDs.''))
      else if snapProvider r \<notin> set intelligenceProviders
      then Inl (intelligenceValidationError (js ''Snapshot provider is not approved.''))
      else if snapSourceIdentifier r \<notin> set intelligenceSourceIdentifiers
      then Inl (intelligenceValidationError (js ''Snapshot source identifier is not approved.''))
      else if snapProvider r = js ''osv''
      then Inl (intelligenceValidationError (js ''OSV snapshots are not a Session 9 runtime path.''))
      else if \<not> SHA256_HEX_PATTERN (snapResponseSha256 r)
      then Inl (intelligenceValidationError (js ''Snapshot SHA-256 must be 64 lowercase hex characters.''))
      else if (case snapEtagHash r of None \<Rightarrow> False | Some etag \<Rightarrow> \<not> SHA256_HEX_PATTERN etag)
      then Inl (intelligenceValidationError (js ''ETag hash must be 64 lowercase hex characters.''))
      else if \<not> isPositiveSafeInteger (snapByteLength r)
      then Inl (intelligenceValidationError (js ''Snapshot byte length must be a positive safe integer.''))
      else if \<not> isSafeContentType (snapDeclaredContentType r) \<or>
        \<not> isSafeContentType (snapDetectedContentType r)
      then Inl (intelligenceValidationError (js ''Snapshot content-type labels must be safe.''))
      else case parseFinalIntelligenceSnapshotObjectKey (snapObjectKey r) of
        Inl e \<Rightarrow> Inl e
      | Inr _ \<Rightarrow> Inr r)"

subsection \<open>Generations\<close>

definition generationIsVisibleToReaders :: "kevGenerationState \<Rightarrow> bool" where
  "generationIsVisibleToReaders state \<longleftrightarrow> state = gen_active \<or> state = gen_superseded"

definition generationIsStagingInvisible :: "kevGenerationState \<Rightarrow> bool" where
  "generationIsStagingInvisible state \<longleftrightarrow> state = gen_staging"

text \<open>
  The counts are compared with \<^verbatim>\<open>!==\<close>, under which \<^verbatim>\<open>NaN\<close> differs from itself.
\<close>

definition num_same :: "jsnum \<Rightarrow> jsnum \<Rightarrow> bool" where
  "num_same x y \<longleftrightarrow> x = y \<and> x \<noteq> NaN"

definition canActivateKevGeneration :: "kevGenerationRecord \<Rightarrow> appError + unit" where
  "canActivateKevGeneration g =
     (if genState g = gen_abandoned then Inl INTELLIGENCE_ABANDONED_GENERATION
      else if genState g \<noteq> gen_complete then Inl INTELLIGENCE_GENERATION_INCOMPLETE
      else if genCompletedAt g = None \<or>
        \<not> num_same (genStagedEntryCount g) (genExpectedEntryCount g) \<or>
        \<not> isNonNegativeSafeInteger (genStagedEntryCount g) \<or>
        \<not> isNonNegativeSafeInteger (genExpectedEntryCount g) \<or>
        genCatalogVersion g = None \<or> genCatalogReleasedAt g = None
      then Inl INTELLIGENCE_GENERATION_COUNT_MISMATCH
      else if genProvider g \<noteq> js ''cisa_kev'' \<or> genSourceIdentifier g \<noteq> CISA_KEV_SOURCE_IDENTIFIER
      then Inl (intelligenceValidationError (js ''Only the official KEV JSON catalog may activate.''))
      else Inr ())"

definition canSupersedeActiveKevGeneration ::
  "kevGenerationRecord \<Rightarrow> kevGenerationRecord \<Rightarrow> appError + unit" where
  "canSupersedeActiveKevGeneration currentActive replacement =
     (if genState currentActive \<noteq> gen_active
      then Inl (intelligenceValidationError (js ''Only an active KEV generation can be superseded.''))
      else case canActivateKevGeneration replacement of
        Inl e \<Rightarrow> Inl e
      | Inr _ \<Rightarrow>
          if genProvider currentActive \<noteq> genProvider replacement \<or>
            genSourceIdentifier currentActive \<noteq> genSourceIdentifier replacement
          then Inl (intelligenceValidationError
            (js ''Superseding generations must share provider and source.''))
          else Inr ())"

text \<open>A time that must not precede another one, which must be set.\<close>

definition precedes :: "int option \<Rightarrow> int option \<Rightarrow> bool" where
  "precedes later earlier =
     (case later of
        None \<Rightarrow> False
      | Some l \<Rightarrow> (case earlier of None \<Rightarrow> True | Some e \<Rightarrow> l < e))"

definition assertGenerationState :: "kevGenerationRecord \<Rightarrow> appError + unit" where
  "assertGenerationState g =
     (case genState g of
        gen_staging \<Rightarrow>
          if genCompletedAt g \<noteq> None \<or> genActivatedAt g \<noteq> None \<or> genSupersededAt g \<noteq> None \<or>
            genAbandonedAt g \<noteq> None
          then Inl (intelligenceValidationError (js ''Staging generations cannot expose completion or activation.''))
          else Inr ()
      | gen_complete \<Rightarrow>
          if genCompletedAt g = None \<or> genActivatedAt g \<noteq> None \<or> genSupersededAt g \<noteq> None \<or>
            genAbandonedAt g \<noteq> None \<or>
            \<not> num_same (genStagedEntryCount g) (genExpectedEntryCount g) \<or>
            genCatalogVersion g = None \<or> genCatalogReleasedAt g = None
          then Inl (intelligenceValidationError (js ''Complete generations must be finished and not yet current.''))
          else Inr ()
      | gen_active \<Rightarrow>
          if genActivatedAt g = None \<or> genCompletedAt g = None \<or> genSupersededAt g \<noteq> None \<or>
            genAbandonedAt g \<noteq> None
          then Inl (intelligenceValidationError (js ''Active generations must be complete.''))
          else canActivateKevGeneration (g\<lparr>genState := gen_complete\<rparr>)
      | gen_superseded \<Rightarrow>
          if genActivatedAt g = None \<or> genCompletedAt g = None \<or> genSupersededAt g = None \<or>
            genAbandonedAt g \<noteq> None \<or>
            \<not> num_same (genStagedEntryCount g) (genExpectedEntryCount g) \<or>
            genCatalogVersion g = None \<or> genCatalogReleasedAt g = None
          then Inl (intelligenceValidationError (js ''Superseded generations must have been previously current.''))
          else Inr ()
      | gen_abandoned \<Rightarrow>
          if genAbandonedAt g = None \<or> genActivatedAt g \<noteq> None \<or> genSupersededAt g \<noteq> None
          then Inl INTELLIGENCE_ABANDONED_GENERATION else Inr ())"

text \<open>\<^verbatim>\<open>version < 1 || !Number.isInteger(version)\<close>.\<close>

fun generationVersionInvalid :: "jsnum \<Rightarrow> bool" where
  "generationVersionInvalid (Integral n) = (n < 1)"
| "generationVersionInvalid _ = True"

definition validateKevGenerationRecord ::
  "kevGenerationRecord \<Rightarrow> appError + kevGenerationRecord" where
  "validateKevGenerationRecord g =
     (if \<not> UUID_PATTERN (genId g) \<or> \<not> UUID_PATTERN (genSyncRunId g) \<or> \<not> UUID_PATTERN (genSnapshotId g)
      then Inl (intelligenceValidationError (js ''Generation identifiers must be UUIDs.''))
      else if genState g \<notin> set kevGenerationStates
      then Inl (intelligenceValidationError (js ''Generation state is not in the closed set.''))
      else if \<not> isNonNegativeSafeInteger (genStagedEntryCount g) \<or>
        \<not> isNonNegativeSafeInteger (genExpectedEntryCount g)
      then Inl (intelligenceValidationError (js ''Generation counts must be non-negative safe integers.''))
      else if \<not> isVersionLabel (genParserVersion g) \<or> \<not> isVersionLabel (genNormalizationVersion g)
      then Inl (intelligenceValidationError (js ''Parser and normalization labels must be safe.''))
      else if generationVersionInvalid (genVersion g)
      then Inl (intelligenceValidationError (js ''Generation version must be an integer >= 1.''))
      else if (case genCatalogVersion g of
          None \<Rightarrow> False
        | Some v \<Rightarrow> length v = 0 \<or> length v > INTELLIGENCE_CATALOG_VERSION_MAX_LENGTH)
      then Inl (intelligenceValidationError (js ''Catalog version exceeds the bounded label length.''))
      else if precedes (genCompletedAt g) (Some (genCreatedAt g))
      then Inl (intelligenceValidationError (js ''completedAt cannot precede createdAt.''))
      else if precedes (genActivatedAt g) (genCompletedAt g)
      then Inl (intelligenceValidationError (js ''activatedAt cannot precede completedAt.''))
      else if precedes (genSupersededAt g) (genActivatedAt g)
      then Inl (intelligenceValidationError (js ''supersededAt cannot precede activatedAt.''))
      else case assertGenerationState g of
        Inl e \<Rightarrow> Inl e
      | Inr _ \<Rightarrow> Inr g)"

subsection \<open>Entries\<close>

definition validateKevNormalizedEntryRecord ::
  "kevNormalizedEntryRecord \<Rightarrow> appError + kevNormalizedEntryRecord" where
  "validateKevNormalizedEntryRecord r =
     (if \<not> UUID_PATTERN (entId r) \<or> \<not> UUID_PATTERN (entGenerationId r) \<or> \<not> UUID_PATTERN (entSnapshotId r)
      then Inl (intelligenceValidationError (js ''Entry identifiers must be UUIDs.''))
      else if \<not> isNonNegativeSafeInteger (entOrdinal r)
      then Inl (intelligenceValidationError (js ''Entry ordinals must be non-negative safe integers.''))
      else case parseCalendarDate (entDateAdded r) of Inl e \<Rightarrow> Inl e | Inr _ \<Rightarrow>
       (case parseCalendarDate (entDueDate r) of Inl e \<Rightarrow> Inl e | Inr _ \<Rightarrow>
       (case parseUntrustedPlainText (entVendorProject r) INTELLIGENCE_TEXT_FIELD_MAX_BYTES of
          Inl e \<Rightarrow> Inl e | Inr _ \<Rightarrow>
       (case parseUntrustedPlainText (entProduct r) INTELLIGENCE_TEXT_FIELD_MAX_BYTES of
          Inl e \<Rightarrow> Inl e | Inr _ \<Rightarrow>
       (case parseUntrustedPlainText (entVulnerabilityName r) INTELLIGENCE_TEXT_FIELD_MAX_BYTES of
          Inl e \<Rightarrow> Inl e | Inr _ \<Rightarrow>
       (case parseUntrustedPlainText (entShortDescription r) INTELLIGENCE_TEXT_FIELD_MAX_BYTES of
          Inl e \<Rightarrow> Inl e | Inr _ \<Rightarrow>
       (case parseUntrustedPlainText (entRequiredAction r) INTELLIGENCE_TEXT_FIELD_MAX_BYTES of
          Inl e \<Rightarrow> Inl e | Inr _ \<Rightarrow>
       (case (case entNotes r of
            None \<Rightarrow> Inr []
          | Some notes \<Rightarrow> parseUntrustedPlainText notes INTELLIGENCE_TEXT_FIELD_MAX_BYTES) of
          Inl e \<Rightarrow> Inl e | Inr _ \<Rightarrow>
       (case parseCweList (entCwes r) of Inl e \<Rightarrow> Inl e | Inr _ \<Rightarrow>
          if entKnownRansomwareCampaignUse r = ransomware_other \<and>
            entRawKnownRansomwareCampaignUse r = None
          then Inl (intelligenceValidationError (js ''other ransomware use must retain the raw provider value.''))
          else if entKnownRansomwareCampaignUse r \<noteq> ransomware_other \<and>
            entRawKnownRansomwareCampaignUse r \<noteq> None
          then Inl (intelligenceValidationError (js ''raw ransomware value is retained only when normalized value is other.''))
          else Inr r)))))))))"

definition toKevCurrentMembership ::
  "kevGenerationRecord \<Rightarrow> kevNormalizedEntryRecord \<Rightarrow> appError + kevCurrentMembership" where
  "toKevCurrentMembership g r =
     (if genState g \<noteq> gen_active
      then Inl \<lparr>errCode = err_conflict, errMessage = js ''Staging KEV generations are invisible to catalog readers.''\<rparr>
      else if genId g \<noteq> entGenerationId r \<or> genSnapshotId g \<noteq> entSnapshotId r
      then Inl (intelligenceValidationError (js ''Membership requires generation and snapshot agreement.''))
      else Inr \<lparr>memGenerationId = genId g, memSnapshotId = genSnapshotId g,
        memNormalizedCve = entNormalizedCve r, memOrdinal = entOrdinal r\<rparr>)"

subsection \<open>Canonical identifiers\<close>

lemma canonical_cve_chars:
  assumes "CANONICAL_CVE_PATTERN s"
  shows "\<forall>c \<in> set s. c \<in> {67, 86, 69, 45} \<or> is_digit c" "s \<noteq> []"
proof -
  obtain y n where "js_split 45 s = [js ''CVE'', y, n]" "list_all is_digit y" "list_all is_digit n"
    using assms by (auto simp: CANONICAL_CVE_PATTERN_def split: list.splits)
  then show "\<forall>c \<in> set s. c \<in> {67, 86, 69, 45} \<or> is_digit c" "s \<noteq> []"
    using join_js_split [of 45 s] by (auto simp: list_all_iff js_def)
qed

lemma uppercase_canonical_chars:
  assumes "CANONICAL_CVE_PATTERN (asciiUppercase t)" "c \<in> set t"
  shows "45 \<le> c \<and> c \<le> 118 \<and> c \<noteq> 127"
proof -
  have "(if 97 \<le> c \<and> c \<le> 122 then c - 32 else c) \<in> set (asciiUppercase t)"
    using assms(2) by (auto simp: asciiUppercase_def)
  with canonical_cve_chars(1) [OF assms(1)] show ?thesis
    by (fastforce simp: is_digit_def split: if_splits)
qed

lemma canonical_uppercase:
  assumes "CANONICAL_CVE_PATTERN c"
  shows "asciiUppercase c = c"
  using canonical_cve_chars(1) [OF assms]
  by (auto simp: asciiUppercase_def is_digit_def intro!: map_idI)

lemma dropWhile_both_id:
  assumes "\<forall>c \<in> set s. \<not> P c"
  shows "rev (dropWhile P (rev (dropWhile P s))) = s"
proof -
  have "dropWhile P s = s" "dropWhile P (rev s) = rev s"
    using assms last_in_set [of s] by (auto simp: dropWhile_eq_self_iff hd_rev)
  then show ?thesis by simp
qed

text \<open>
  The KEV identifier normalizer accepts a text exactly when it is ASCII and, once the JSON white
  space around it is dropped and its letters are raised, it is a canonical CVE identifier, which is
  then the result: the screens for other white space and for control characters refuse nothing more.
  The canonical identifiers are exactly its fixed points.
\<close>
theorem normalizeKevCve_exact:
  "(normalizeKevCve t = Inr c \<longleftrightarrow>
      isAscii t \<and> c = asciiUppercase (trimJsonStringWhitespace t) \<and> isCanonicalCve c) \<and>
   (normalizeKevCve c = Inr c \<longleftrightarrow> isCanonicalCve c)"
proof -
  have exact: "normalizeKevCve v = Inr c \<longleftrightarrow>
      isAscii v \<and> c = asciiUppercase (trimJsonStringWhitespace v) \<and> isCanonicalCve c" for v c
  proof -
    let ?t = "trimJsonStringWhitespace v"
    have "?t \<noteq> [] \<and> js_trim ?t = ?t \<and> (\<forall>code \<in> set ?t. \<not> (code < 32 \<or> code = 127))"
      if can: "CANONICAL_CVE_PATTERN (asciiUppercase ?t)"
    proof -
      have chars: "\<forall>d \<in> set ?t. 45 \<le> d \<and> d \<le> 118 \<and> d \<noteq> 127"
        using uppercase_canonical_chars [OF can] by blast
      then have "\<forall>d \<in> set ?t. \<not> js_space d" by (fastforce simp: js_space_def)
      then have "js_trim ?t = ?t" unfolding js_trim_def by (rule dropWhile_both_id)
      moreover have "?t \<noteq> []" using canonical_cve_chars(2) [OF can] by (auto simp: asciiUppercase_def)
      ultimately show ?thesis using chars by fastforce
    qed
    then show ?thesis
      by (auto simp: normalizeKevCve_def isCanonicalCve_def Let_def)
  qed
  moreover have "isAscii c \<and> c = asciiUppercase (trimJsonStringWhitespace c)" if can: "isCanonicalCve c"
  proof -
    have pattern: "CANONICAL_CVE_PATTERN c" using can by (simp add: isCanonicalCve_def)
    have chars: "\<forall>d \<in> set c. d \<in> {67, 86, 69, 45} \<or> is_digit d"
      by (rule canonical_cve_chars(1) [OF pattern])
    then have "trimJsonStringWhitespace c = c"
      unfolding trimJsonStringWhitespace_def
      by (intro dropWhile_both_id) (auto simp: JSON_STRING_WHITESPACE_def is_digit_def)
    with chars canonical_uppercase [OF pattern] show ?thesis
      by (auto simp: isAscii_def list_all_iff is_digit_def)
  qed
  ultimately show ?thesis by blast
qed

lemma parseCweIdentifier_id: "parseCweIdentifier v = Inr c \<Longrightarrow> c = v"
  by (auto simp: parseCweIdentifier_def split: if_splits)

lemma parseCweLoop_distinct:
  "parseCweLoop parsed values = Inr cwes \<Longrightarrow> distinct parsed \<Longrightarrow>
   distinct cwes \<and> set cwes = set parsed \<union> set values"
proof (induction parsed "values" rule: parseCweLoop.induct)
  case (2 parsed v rest)
  from "2.prems" obtain c where c: "parseCweIdentifier v = Inr c" by (auto split: sum.splits)
  with "2.IH" [OF c] "2.prems" parseCweIdentifier_id [OF c] show ?case
    by (cases "v \<in> set parsed") auto
qed simp

lemma duplicateLoop_set:
  "set (duplicateLoop seen duplicates cves) =
     set duplicates \<union> {c \<in> set cves. c \<in> set seen \<or> 1 < count_list cves c}"
proof (induction seen duplicates cves rule: duplicateLoop.induct)
  case (2 seen duplicates cve rest)
  have "0 < count_list rest c \<longleftrightarrow> c \<in> set rest" for c by (simp add: count_list_0_iff zero_less_iff_neq_zero)
  with 2 show ?case by auto
qed simp

lemma assertNoDuplicateNormalizedCves_iff:
  "assertNoDuplicateNormalizedCves cves = Inr () \<longleftrightarrow> distinct cves"
proof -
  have "findDuplicateNormalizedCves cves = [] \<longleftrightarrow> (\<forall>c \<in> set cves. \<not> 1 < count_list cves c)"
    using duplicateLoop_set [of "[]" "[]" cves]
    by (auto simp: findDuplicateNormalizedCves_def simp flip: set_empty)
  also have "\<dots> \<longleftrightarrow> distinct cves"
    by (induction cves) (auto simp: count_list_0_iff zero_less_iff_neq_zero)
  finally show ?thesis by (simp add: assertNoDuplicateNormalizedCves_def)
qed

subsection \<open>Generations\<close>

lemma validate_generation_id: "validateKevGenerationRecord g = Inr g' \<Longrightarrow> g' = g"
  by (auto simp: validateKevGenerationRecord_def split: if_splits sum.splits)

lemma canActivate_iff:
  "canActivateKevGeneration g = Inr () \<longleftrightarrow>
     genState g = gen_complete \<and> genCompletedAt g \<noteq> None \<and>
     num_same (genStagedEntryCount g) (genExpectedEntryCount g) \<and>
     isNonNegativeSafeInteger (genExpectedEntryCount g) \<and> genCatalogVersion g \<noteq> None \<and>
     genCatalogReleasedAt g \<noteq> None \<and> genProvider g = js ''cisa_kev'' \<and>
     genSourceIdentifier g = CISA_KEV_SOURCE_IDENTIFIER"
  by (auto simp: canActivateKevGeneration_def num_same_def)

definition generation_labels :: "kevGenerationRecord \<Rightarrow> bool" where
  "generation_labels g \<longleftrightarrow>
     UUID_PATTERN (genId g) \<and> UUID_PATTERN (genSyncRunId g) \<and> UUID_PATTERN (genSnapshotId g) \<and>
     isNonNegativeSafeInteger (genStagedEntryCount g) \<and>
     isNonNegativeSafeInteger (genExpectedEntryCount g) \<and>
     isVersionLabel (genParserVersion g) \<and> isVersionLabel (genNormalizationVersion g) \<and>
     \<not> generationVersionInvalid (genVersion g) \<and>
     (case genCatalogVersion g of
        None \<Rightarrow> True
      | Some v \<Rightarrow> v \<noteq> [] \<and> length v \<le> INTELLIGENCE_CATALOG_VERSION_MAX_LENGTH)"

definition generation_times :: "kevGenerationRecord \<Rightarrow> bool" where
  "generation_times g \<longleftrightarrow>
     \<not> precedes (genCompletedAt g) (Some (genCreatedAt g)) \<and>
     \<not> precedes (genActivatedAt g) (genCompletedAt g) \<and>
     \<not> precedes (genSupersededAt g) (genActivatedAt g)"

lemma validate_generation_iff:
  "validateKevGenerationRecord g = Inr g \<longleftrightarrow>
     generation_labels g \<and> generation_times g \<and> assertGenerationState g = Inr ()"
  by (cases "genState g"; auto simp: validateKevGenerationRecord_def generation_labels_def generation_times_def
      kevGenerationStates_def split: option.splits sum.splits)

lemma validated_counts:
  "validateKevGenerationRecord g = Inr g \<Longrightarrow>
     isNonNegativeSafeInteger (genStagedEntryCount g) \<and>
     isNonNegativeSafeInteger (genExpectedEntryCount g)"
  by (simp add: validate_generation_iff generation_labels_def)

text \<open>
  A validated generation that catalog readers can see is whole: as many entries were staged as
  the catalog announced, its catalog version and release time are known, it was not abandoned, and it
  was created, completed, activated and perhaps superseded in this order.
\<close>
theorem visible_generation_whole:
  assumes "validateKevGenerationRecord g = Inr g'" "generationIsVisibleToReaders (genState g')"
  shows "\<exists>n version released completed activated.
    0 \<le> n \<and> n \<le> MAX_SAFE_INTEGER \<and>
    genStagedEntryCount g' = Integral n \<and> genExpectedEntryCount g' = Integral n \<and>
    genCatalogVersion g' = Some version \<and> version \<noteq> [] \<and> genCatalogReleasedAt g' = Some released \<and>
    genAbandonedAt g' = None \<and>
    genCompletedAt g' = Some completed \<and> genActivatedAt g' = Some activated \<and>
    genCreatedAt g' \<le> completed \<and> completed \<le> activated \<and>
    (case genSupersededAt g' of
       None \<Rightarrow> genState g' = gen_active
     | Some superseded \<Rightarrow> genState g' = gen_superseded \<and> activated \<le> superseded)"
proof -
  have g: "g' = g" by (rule validate_generation_id [OF assms(1)])
  have valid: "generation_labels g" "generation_times g" "assertGenerationState g = Inr ()"
    using assms(1) g by (simp_all add: validate_generation_iff)
  have visible: "genState g = gen_active \<or> genState g = gen_superseded"
    using assms(2) g by (auto simp: generationIsVisibleToReaders_def)
  have parts: "num_same (genStagedEntryCount g) (genExpectedEntryCount g)"
    "genCatalogVersion g \<noteq> None" "genCatalogReleasedAt g \<noteq> None" "genAbandonedAt g = None"
    "genCompletedAt g \<noteq> None" "genActivatedAt g \<noteq> None"
    "genSupersededAt g \<noteq> None \<longleftrightarrow> genState g = gen_superseded"
    using visible valid(3)
    by (elim disjE; simp add: assertGenerationState_def canActivate_iff split: if_splits)+
  then obtain version released completed activated where known:
    "genCatalogVersion g = Some version" "genCatalogReleasedAt g = Some released"
    "genCompletedAt g = Some completed" "genActivatedAt g = Some activated"
    by blast
  obtain n where n: "genExpectedEntryCount g = Integral n" "0 \<le> n" "n \<le> MAX_SAFE_INTEGER"
    using valid(1) by (auto simp: generation_labels_def isNonNegativeSafeInteger_iff)
  have order: "genCreatedAt g \<le> completed" "completed \<le> activated"
    "\<And>u. genSupersededAt g = Some u \<Longrightarrow> activated \<le> u"
    using valid(2) known by (simp_all add: generation_times_def precedes_def)
  have "version \<noteq> []" using valid(1) known by (simp add: generation_labels_def)
  moreover have "genStagedEntryCount g = Integral n" using parts(1) n(1) by (simp add: num_same_def)
  moreover have "case genSupersededAt g of None \<Rightarrow> genState g = gen_active
      | Some u \<Rightarrow> genState g = gen_superseded \<and> activated \<le> u"
    using parts(7) visible order(3) by (cases "genSupersededAt g") auto
  ultimately show ?thesis unfolding g using known n order(1,2) parts(4) by simp
qed

definition example_generation :: kevGenerationRecord where
  "example_generation =
     \<lparr>genId = js ''0b3e1c4a-8f21-4d5e-9a67-1f2e3d4c5b6a'', genProvider = js ''cisa_kev'',
      genSourceIdentifier = js ''cisa_kev_json_catalog'',
      genSyncRunId = js ''1b3e1c4a-8f21-4d5e-9a67-1f2e3d4c5b6a'',
      genSnapshotId = js ''2b3e1c4a-8f21-4d5e-9a67-1f2e3d4c5b6a'', genState = gen_complete,
      genStagedEntryCount = Integral 3, genExpectedEntryCount = Integral 3,
      genParserVersion = js ''kev-1'', genNormalizationVersion = js ''kev-1'',
      genCatalogVersion = Some (js ''2026.07.01''), genCatalogReleasedAt = Some (Integral 5),
      genCreatedAt = 10, genCompletedAt = Some 20, genActivatedAt = None, genSupersededAt = None,
      genAbandonedAt = None, genVersion = Integral 1, genUpdatedAt = 20\<rparr>"

lemma example_generation_labels: "generation_labels example_generation"
  by (simp add: generation_labels_def example_generation_def eval_defs catalog_defs
      isNonNegativeSafeInteger_iff)

lemma validated_activates_iff:
  assumes "validateKevGenerationRecord g = Inr g"
  shows "canActivateKevGeneration g = Inr () \<longleftrightarrow> genState g = gen_complete \<and>
    genProvider g = js ''cisa_kev'' \<and> genSourceIdentifier g = CISA_KEV_SOURCE_IDENTIFIER"
  using assms unfolding validate_generation_iff
  by (cases "genState g") (auto simp: canActivate_iff assertGenerationState_def generation_labels_def
      split: if_splits)

lemma activated_valid:
  assumes valid: "validateKevGenerationRecord g = Inr g" and act: "canActivateKevGeneration g = Inr ()"
    and late: "\<forall>c. genCompletedAt g = Some c \<longrightarrow> c \<le> t"
  shows "validateKevGenerationRecord (g\<lparr>genState := gen_active, genActivatedAt := Some t\<rparr>) =
    Inr (g\<lparr>genState := gen_active, genActivatedAt := Some t\<rparr>)"
proof -
  obtain c where c: "genCompletedAt g = Some c" using act by (auto simp: canActivate_iff)
  have "genState g = gen_complete" using act by (simp add: canActivate_iff)
  then have "genSupersededAt g = None" "genAbandonedAt g = None"
    using valid by (auto simp: validate_generation_iff assertGenerationState_def split: if_splits)
  with valid act late c show ?thesis
    by (simp add: validate_generation_iff generation_labels_def generation_times_def precedes_def
        assertGenerationState_def canActivate_iff)
qed

lemma superseded_valid:
  assumes valid: "validateKevGenerationRecord g = Inr g" and active: "genState g = gen_active"
    and late: "\<forall>t. genActivatedAt g = Some t \<longrightarrow> t \<le> u"
  shows "validateKevGenerationRecord (g\<lparr>genState := gen_superseded, genSupersededAt := Some u\<rparr>) =
    Inr (g\<lparr>genState := gen_superseded, genSupersededAt := Some u\<rparr>)"
proof -
  have "assertGenerationState g = Inr ()" using valid by (simp add: validate_generation_iff)
  then obtain t where "genActivatedAt g = Some t" "genCompletedAt g \<noteq> None" "genAbandonedAt g = None"
    "num_same (genStagedEntryCount g) (genExpectedEntryCount g)"
    "genCatalogVersion g \<noteq> None" "genCatalogReleasedAt g \<noteq> None"
    using active by (auto simp: assertGenerationState_def canActivate_iff split: if_splits)
  with valid late show ?thesis
    by (simp add: validate_generation_iff generation_labels_def generation_times_def precedes_def
        assertGenerationState_def)
qed

text \<open>
  Activation keeps generations valid: a validated generation can be activated exactly when it is
  a complete generation of the KEV catalog; switching it to active no earlier than its completion
  gives a validated generation, and superseding that one no earlier than its activation gives a
  validated generation again.
\<close>
theorem generation_activation_valid:
  assumes valid: "validateKevGenerationRecord g = Inr g"
  shows "(canActivateKevGeneration g = Inr () \<longleftrightarrow> genState g = gen_complete \<and>
      genProvider g = js ''cisa_kev'' \<and> genSourceIdentifier g = CISA_KEV_SOURCE_IDENTIFIER) \<and>
    (canActivateKevGeneration g = Inr () \<and> (\<forall>c. genCompletedAt g = Some c \<longrightarrow> c \<le> t) \<longrightarrow>
      (let active = g\<lparr>genState := gen_active, genActivatedAt := Some t\<rparr>
       in validateKevGenerationRecord active = Inr active \<and>
          (t \<le> u \<longrightarrow>
             (let old = active\<lparr>genState := gen_superseded, genSupersededAt := Some u\<rparr>
              in validateKevGenerationRecord old = Inr old))))"
proof -
  let ?active = "g\<lparr>genState := gen_active, genActivatedAt := Some t\<rparr>"
  have "validateKevGenerationRecord ?active = Inr ?active \<and> (t \<le> u \<longrightarrow>
      validateKevGenerationRecord (?active\<lparr>genState := gen_superseded, genSupersededAt := Some u\<rparr>) =
      Inr (?active\<lparr>genState := gen_superseded, genSupersededAt := Some u\<rparr>))"
    if "canActivateKevGeneration g = Inr () \<and> (\<forall>c. genCompletedAt g = Some c \<longrightarrow> c \<le> t)"
    using activated_valid [OF valid] superseded_valid [of ?active u] that by simp
  with validated_activates_iff [OF valid] show ?thesis unfolding Let_def by blast
qed

lemma generation_activation_valid_witness:
  "validateKevGenerationRecord (example_generation\<lparr>genState := gen_active, genActivatedAt := Some 25\<rparr>) =
     Inr (example_generation\<lparr>genState := gen_active, genActivatedAt := Some 25\<rparr>)"
proof -
  have "validateKevGenerationRecord example_generation = Inr example_generation"
    unfolding validate_generation_iff using example_generation_labels
    by (simp add: generation_times_def assertGenerationState_def example_generation_def
        precedes_def num_same_def)
  from generation_activation_valid [OF this, of 25 30] show ?thesis
    by (simp add: example_generation_def CISA_KEV_SOURCE_IDENTIFIER_def Let_def)
qed

lemma visible_generation_whole_witness:
  "genCatalogVersion (example_generation\<lparr>genState := gen_active, genActivatedAt := Some 25\<rparr>) \<noteq> None"
proof -
  let ?g = "example_generation\<lparr>genState := gen_active, genActivatedAt := Some 25\<rparr>"
  have "generation_labels ?g" using example_generation_labels by (simp add: generation_labels_def)
  then have valid: "validateKevGenerationRecord ?g = Inr ?g"
    unfolding validate_generation_iff
    by (simp add: generation_times_def assertGenerationState_def example_generation_def
        precedes_def num_same_def canActivate_iff CISA_KEV_SOURCE_IDENTIFIER_def
        isNonNegativeSafeInteger_iff MAX_SAFE_INTEGER_def)
  show ?thesis
    using visible_generation_whole [OF valid]
    by (auto simp: generationIsVisibleToReaders_def)
qed

end
