(* ===== verification/SyncDecisions.thy ===== *)
theory SyncDecisions
  imports SyncRun KevRecords
begin

text \<open>
  The decisions the KEV synchronization worker takes between transitions:
  \<^verbatim>\<open>packages/domain/src/intelligence/sync-failures.ts\<close>, \<^verbatim>\<open>sync-decisions.ts\<close> and
  \<^verbatim>\<open>verifyParserSuccess\<close> of \<^verbatim>\<open>synchronize.ts\<close>, and what they say about a run together with
  its transitions: how often it retries, how long it waits, which catalog it stages.
\<close>

subsection \<open>Failure actions\<close>

datatype intelligenceSyncFailureLayer = pre_snapshot | post_snapshot

datatype intelligenceSyncFailureAction =
    act_retry_wait intelligenceSafeFailureCode
  | act_job_retry intelligenceSafeFailureCode
  | act_failed intelligenceSafeFailureCode
  | act_quarantined intelligenceSafeFailureCode
  | act_rejected intelligenceSafeFailureCode

definition mapIntelligenceSyncFailure ::
  "intelligenceSafeFailureCode \<Rightarrow> intelligenceSyncFailureLayer \<Rightarrow> bool \<Rightarrow> intelligenceSyncFailureAction"
  where
  "mapIntelligenceSyncFailure code layer attemptsRemaining =
     (let classification = classifyIntelligenceSafeFailure code
      in if fcDisposition classification = disp_quarantined then act_quarantined code
         else if \<not> fcRetryable classification then act_failed code
         else if \<not> attemptsRemaining then act_failed code
         else if layer = pre_snapshot then act_retry_wait code
         else act_job_retry code)"

fun attemptsRemain :: "jsnum \<Rightarrow> jsnum \<Rightarrow> bool" where
  "attemptsRemain (Integral attempt) (Integral maxAttempts) \<longleftrightarrow>
     num_is_safe_integer (Integral attempt) \<and> num_is_safe_integer (Integral maxAttempts) \<and>
     attempt < maxAttempts"
| "attemptsRemain _ _ \<longleftrightarrow> False"

subsection \<open>Catalog decisions\<close>

datatype contentHashDecision = hash_not_modified intelligenceNotModifiedReason jstr | hash_reprocess

datatype catalogRegressionDecision =
    regression_stage
  | regression_not_modified intelligenceNotModifiedReason
  | regression_quarantine intelligenceSafeFailureCode

definition decideContentHashNotModified ::
  "kevGenerationRecord option \<Rightarrow> intelligenceSnapshotRecord option \<Rightarrow> jstr \<Rightarrow> jstr \<Rightarrow> jstr \<Rightarrow>
   contentHashDecision" where
  "decideContentHashNotModified activeGeneration activeSnapshot fetchedSha256 runParserVersion
       runNormalizationVersion =
     (case (activeGeneration, activeSnapshot) of
        (Some active, Some snapshot) \<Rightarrow>
          if snapResponseSha256 snapshot \<noteq> fetchedSha256 then hash_reprocess
          else if genParserVersion active \<noteq> runParserVersion \<or>
            genNormalizationVersion active \<noteq> runNormalizationVersion then hash_reprocess
          else hash_not_modified content_sha256_unchanged (genId active)
      | _ \<Rightarrow> hash_reprocess)"

definition decideCatalogRegression ::
  "kevGenerationRecord option \<Rightarrow> jsnum \<Rightarrow> jstr \<Rightarrow> jstr option \<Rightarrow> jstr \<Rightarrow> jstr \<Rightarrow>
   catalogRegressionDecision" where
  "decideCatalogRegression activeGeneration released snapshotSha256 activeSnapshotSha256
       runParserVersion runNormalizationVersion =
     (case activeGeneration of
        None \<Rightarrow> regression_stage
      | Some active \<Rightarrow>
          (case genCatalogReleasedAt active of
             None \<Rightarrow> regression_stage
           | Some current \<Rightarrow>
               if \<not> num_is_safe_integer released \<or> \<not> num_is_safe_integer current
               then regression_quarantine catalog_regression
               else if num_int released > num_int current then regression_stage
               else if num_int released < num_int current
               then regression_quarantine catalog_regression
               else if activeSnapshotSha256 = Some snapshotSha256 \<and>
                 genParserVersion active = runParserVersion \<and>
                 genNormalizationVersion active = runNormalizationVersion
               then regression_not_modified content_sha256_unchanged
               else regression_stage))"

subsection \<open>Retry delay\<close>

text \<open>
  The bounds are safe integers of the configuration, so doubling one of them is exact in double
  precision. \<open>None\<close> is the early return inside the loop.
\<close>

fun retryDelayLoop :: "nat \<Rightarrow> int \<Rightarrow> int \<Rightarrow> int option" where
  "retryDelayLoop 0 ceilingMs delay = Some delay"
| "retryDelayLoop (Suc n) ceilingMs delay =
     (let doubled = delay * 2;
          delay' = (if doubled > ceilingMs then ceilingMs else doubled)
      in if \<not> num_is_safe_integer (Integral delay') then None
         else retryDelayLoop n ceilingMs delay')"

definition intelligenceRetryWaitDelayMs :: "int \<Rightarrow> int \<Rightarrow> int \<Rightarrow> int" where
  "intelligenceRetryWaitDelayMs attempt floorMs ceilingMs =
     (let exponent = max 0 (attempt - 1)
      in case retryDelayLoop (nat exponent) ceilingMs floorMs of
           None \<Rightarrow> ceilingMs
         | Some delay \<Rightarrow>
             if delay < floorMs then floorMs
             else if delay > ceilingMs then ceilingMs
             else delay)"

lemma retryDelayLoop_closed:
  assumes "0 < delay" "delay \<le> ceilingMs" "ceilingMs \<le> MAX_SAFE_INTEGER"
  shows "retryDelayLoop n ceilingMs delay = Some (min ceilingMs (delay * 2 ^ n))"
  using assms
proof (induction n arbitrary: delay)
  case (Suc n)
  let ?next = "if delay * 2 > ceilingMs then ceilingMs else delay * 2"
  have step: "0 < ?next" "?next \<le> ceilingMs" using Suc.prems by auto
  have "retryDelayLoop (Suc n) ceilingMs delay = retryDelayLoop n ceilingMs ?next"
    using step Suc.prems(3) by (simp add: Let_def)
  also have "\<dots> = Some (min ceilingMs (?next * 2 ^ n))"
    by (rule Suc.IH [OF step Suc.prems(3)])
  also have "min ceilingMs (?next * 2 ^ n) = min ceilingMs (delay * 2 ^ Suc n)"
  proof (cases "delay * 2 > ceilingMs")
    case True
    have "ceilingMs * 1 \<le> ceilingMs * 2 ^ n" "delay * 2 * 1 \<le> delay * 2 * 2 ^ n"
      using Suc.prems by (intro mult_left_mono; simp)+
    with True show ?thesis by (simp add: min_def mult_ac)
  qed (simp add: mult_ac)
  finally show ?case .
qed (simp add: min_def)

lemma retry_delay_bounds:
  assumes "0 < floorMs" "floorMs \<le> ceilingMs" "ceilingMs \<le> MAX_SAFE_INTEGER" "1 \<le> attempt"
  shows "intelligenceRetryWaitDelayMs attempt floorMs ceilingMs =
      min ceilingMs (floorMs * 2 ^ nat (attempt - 1)) \<and>
    floorMs \<le> intelligenceRetryWaitDelayMs attempt floorMs ceilingMs \<and>
    intelligenceRetryWaitDelayMs attempt floorMs ceilingMs \<le> ceilingMs \<and>
    intelligenceRetryWaitDelayMs attempt floorMs ceilingMs \<le>
      intelligenceRetryWaitDelayMs (attempt + 1) floorMs ceilingMs"
proof -
  have closed: "intelligenceRetryWaitDelayMs k floorMs ceilingMs =
      min ceilingMs (floorMs * 2 ^ nat (k - 1))"
    "floorMs \<le> min ceilingMs (floorMs * 2 ^ nat (k - 1))" if "1 \<le> k" for k
  proof -
    have "floorMs * 1 \<le> floorMs * 2 ^ nat (k - 1)"
      using assms(1) by (intro mult_left_mono) simp_all
    with assms(2) show bound: "floorMs \<le> min ceilingMs (floorMs * 2 ^ nat (k - 1))" by simp
    have "max 0 (k - 1) = k - 1" using that by simp
    with bound show "intelligenceRetryWaitDelayMs k floorMs ceilingMs =
        min ceilingMs (floorMs * 2 ^ nat (k - 1))"
      by (simp add: intelligenceRetryWaitDelayMs_def retryDelayLoop_closed [OF assms(1-3)] Let_def
          not_less)
  qed
  have "nat (attempt + 1 - 1) = Suc (nat (attempt - 1))" using assms(4) by simp
  then have "floorMs * 2 ^ nat (attempt - 1) \<le> floorMs * 2 ^ nat (attempt + 1 - 1)"
    using assms(1) by simp
  with closed [of attempt] closed [of "attempt + 1"] assms(4) show ?thesis by auto
qed

text \<open>
  The wait before a retry is the floor doubled once for every attempt after the first, cut at
  the ceiling; so it lies between the two bounds, and later attempts never wait less.
\<close>
theorem retry_delay_closed:
  assumes "0 < floorMs" "floorMs \<le> ceilingMs" "ceilingMs \<le> MAX_SAFE_INTEGER" "1 \<le> attempt"
  shows "intelligenceRetryWaitDelayMs attempt floorMs ceilingMs =
      min ceilingMs (floorMs * 2 ^ nat (attempt - 1)) \<and>
    floorMs \<le> intelligenceRetryWaitDelayMs attempt floorMs ceilingMs \<and>
    intelligenceRetryWaitDelayMs attempt floorMs ceilingMs \<le> ceilingMs \<and>
    intelligenceRetryWaitDelayMs attempt floorMs ceilingMs \<le>
      intelligenceRetryWaitDelayMs (attempt + 1) floorMs ceilingMs"
  using assms by (rule retry_delay_bounds)

lemma retry_delay_closed_witness: "intelligenceRetryWaitDelayMs 4 1000 60000 = 8000"
  using retry_delay_closed [of 1000 60000 4] by (simp add: MAX_SAFE_INTEGER_def)

text \<open>
  A synchronization never replaces the active catalog by an older one: a fetched catalog is
  staged over an active generation with a release time only when both times are safe integers and
  the fetched one is not older, and at the same release time only when the bytes, the parser or the
  normalization differ. An older or unreadable release time is always quarantined.
\<close>
theorem catalog_never_regresses:
  assumes "genCatalogReleasedAt active = Some current"
  shows "(decideCatalogRegression (Some active) released sha activeSha parserV normV = regression_stage \<longleftrightarrow>
      num_is_safe_integer released \<and> num_is_safe_integer current \<and>
      num_int current \<le> num_int released \<and>
      \<not> (num_int current = num_int released \<and> activeSha = Some sha \<and>
        genParserVersion active = parserV \<and> genNormalizationVersion active = normV)) \<and>
    (decideCatalogRegression (Some active) released sha activeSha parserV normV =
       regression_quarantine catalog_regression \<longleftrightarrow>
      \<not> num_is_safe_integer released \<or> \<not> num_is_safe_integer current \<or>
      num_int released < num_int current)"
  using assms by (auto simp: decideCatalogRegression_def)

lemma catalog_never_regresses_witness:
  "decideCatalogRegression (Some example_generation) (Integral 4) [] None [] [] =
     regression_quarantine catalog_regression"
  using catalog_never_regresses [of example_generation "Integral 5" "Integral 4" "[]" None "[]" "[]"]
  by (simp add: example_generation_def)

subsection \<open>Parser results\<close>

record kevParsedEntry =
  pOrdinal :: jsnum
  pNormalizedCve :: jstr
  pVendorProject :: jstr
  pProduct :: jstr
  pVulnerabilityName :: jstr
  pDateAdded :: jstr
  pShortDescription :: jstr
  pRequiredAction :: jstr
  pDueDate :: jstr
  pKnownRansomwareCampaignUse :: knownRansomwareCampaignUse
  pRawKnownRansomwareCampaignUse :: "jstr option"
  pNotes :: "jstr option"
  pCwes :: "jstr list"

record kevParserWarningSummary =
  pwCode :: jstr
  pwCount :: jsnum

text \<open>The counts of a parser success are lengths the parser measured, hence integers.\<close>

record kevParserSuccess =
  psCatalogVersion :: jstr
  psCatalogReleasedAt :: jstr
  psExpectedEntryCount :: int
  psEntries :: "kevParsedEntry list"
  psEntryCount :: int
  psWarnings :: "kevParserWarningSummary list"
  psParserVersion :: jstr
  psNormalizationVersion :: jstr
  psSerializedResultBytes :: int

text \<open>The sum of two safe integers is rounded only above the safe range, where the test fails anyway.\<close>

fun sumWarningLoop ::
  "int \<Rightarrow> jstr list \<Rightarrow> kevParserWarningSummary list \<Rightarrow> intelligenceSafeFailureCode + int" where
  "sumWarningLoop subtotal seen [] = Inr subtotal"
| "sumWarningLoop subtotal seen (w # ws) =
     (if length (pwCode w) = 0 then Inl processing_failed
      else if pwCode w \<in> set seen then Inl processing_failed
      else if \<not> num_is_safe_integer (pwCount w) \<or> num_int (pwCount w) < 1 then Inl processing_failed
      else let next_total = subtotal + num_int (pwCount w)
        in if \<not> num_is_safe_integer (Integral next_total) then Inl processing_failed
           else sumWarningLoop next_total (pwCode w # seen) ws)"

definition sumParserWarningCounts ::
  "kevParserWarningSummary list \<Rightarrow> intelligenceSafeFailureCode + int" where
  "sumParserWarningCounts warnings = sumWarningLoop 0 [] warnings"

definition INTELLIGENCE_PARSER_RESULT_MAX_SERIALIZED_BYTES :: int where
  [catalog_defs]: "INTELLIGENCE_PARSER_RESULT_MAX_SERIALIZED_BYTES = 16777216"

definition verifyParserSuccess ::
  "kevParserSuccess \<Rightarrow> jstr \<Rightarrow> jstr \<Rightarrow> int \<Rightarrow> intelligenceSafeFailureCode + int" where
  "verifyParserSuccess parsed runParserVersion runNormalizationVersion kevMaxVulnerabilityCount =
     (if psParserVersion parsed \<noteq> runParserVersion \<or>
        psNormalizationVersion parsed \<noteq> runNormalizationVersion then Inl processing_failed
      else if psExpectedEntryCount parsed \<noteq> psEntryCount parsed then Inl count_mismatch
      else if psSerializedResultBytes parsed > INTELLIGENCE_PARSER_RESULT_MAX_SERIALIZED_BYTES
      then Inl normalized_output_too_large
      else case sumParserWarningCounts (psWarnings parsed) of
        Inl code \<Rightarrow> Inl code
      | Inr warningCount \<Rightarrow>
          if warningCount > psEntryCount parsed then Inl processing_failed
          else if psEntryCount parsed > kevMaxVulnerabilityCount then Inl vulnerability_count_limit
          else Inr warningCount)"

lemma sumWarningLoop_iff:
  assumes "0 \<le> subtotal" "subtotal \<le> MAX_SAFE_INTEGER"
  shows "sumWarningLoop subtotal seen ws = Inr n \<longleftrightarrow>
    [] \<notin> set (map pwCode ws) \<and> distinct (map pwCode ws) \<and> set (map pwCode ws) \<inter> set seen = {} \<and>
    (\<forall>w \<in> set ws. isPositiveSafeInteger (pwCount w)) \<and>
    n = subtotal + (\<Sum>w\<leftarrow>ws. num_int (pwCount w)) \<and> n \<le> MAX_SAFE_INTEGER"
  using assms
proof (induction ws arbitrary: subtotal seen)
  case (Cons w ws)
  have pos: "0 \<le> (\<Sum>v\<leftarrow>ws. num_int (pwCount v))" if "\<forall>v \<in> set ws. isPositiveSafeInteger (pwCount v)"
    using that by (intro sum_list_nonneg) (auto simp: isPositiveSafeInteger_iff)
  show ?case
  proof (cases "isPositiveSafeInteger (pwCount w) \<and> subtotal + num_int (pwCount w) \<le> MAX_SAFE_INTEGER")
    case True
    then obtain k where k: "pwCount w = Integral k" "0 < k" "k \<le> MAX_SAFE_INTEGER"
      "subtotal + k \<le> MAX_SAFE_INTEGER" by (auto simp: isPositiveSafeInteger_iff)
    with Cons.prems Cons.IH [of "subtotal + k" "pwCode w # seen"] show ?thesis
      by (auto simp: isPositiveSafeInteger_iff)
  next
    case False
    then have "\<not> isPositiveSafeInteger (pwCount w) \<or>
        pwCount w = Integral (num_int (pwCount w)) \<and> 0 < num_int (pwCount w) \<and>
        MAX_SAFE_INTEGER < subtotal + num_int (pwCount w)"
      by (auto simp: isPositiveSafeInteger_iff)
    then show ?thesis
    proof
      assume "\<not> isPositiveSafeInteger (pwCount w)"
      then show ?thesis by (cases "pwCount w") (auto simp: isPositiveSafeInteger_iff)
    next
      assume big: "pwCount w = Integral (num_int (pwCount w)) \<and> 0 < num_int (pwCount w) \<and>
        MAX_SAFE_INTEGER < subtotal + num_int (pwCount w)"
      then have "\<not> num_is_safe_integer (Integral (subtotal + num_int (pwCount w)))"
        using Cons.prems by simp
      with big pos show ?thesis by (auto simp: Let_def)
    qed
  qed
qed auto

text \<open>
  The warning total of a parser result is accepted exactly when the warning codes are distinct
  and not empty, every count is a positive safe integer and the whole sum is still a safe integer;
  it then is that sum, with no rounding. An accepted parser result has the versions of its run, as
  many entries as announced, no more than the configured limit and at least as many as warnings.
\<close>
theorem parser_result_exact:
  "(sumParserWarningCounts ws = Inr n \<longleftrightarrow>
      [] \<notin> set (map pwCode ws) \<and> distinct (map pwCode ws) \<and>
      (list_all (\<lambda>w. isPositiveSafeInteger (pwCount w)) ws) \<and>
      n = (\<Sum>w\<leftarrow>ws. num_int (pwCount w)) \<and> n \<le> MAX_SAFE_INTEGER) \<and>
   (verifyParserSuccess parsed parserV normV limit = Inr n \<longleftrightarrow>
      psParserVersion parsed = parserV \<and> psNormalizationVersion parsed = normV \<and>
      psExpectedEntryCount parsed = psEntryCount parsed \<and>
      psSerializedResultBytes parsed \<le> 16777216 \<and>
      sumParserWarningCounts (psWarnings parsed) = Inr n \<and>
      n \<le> psEntryCount parsed \<and> psEntryCount parsed \<le> limit)"
proof
  show "sumParserWarningCounts ws = Inr n \<longleftrightarrow>
      [] \<notin> set (map pwCode ws) \<and> distinct (map pwCode ws) \<and>
      (list_all (\<lambda>w. isPositiveSafeInteger (pwCount w)) ws) \<and>
      n = (\<Sum>w\<leftarrow>ws. num_int (pwCount w)) \<and> n \<le> MAX_SAFE_INTEGER"
    using sumWarningLoop_iff [of 0 "[]" ws n]
    by (auto simp: sumParserWarningCounts_def list_all_iff MAX_SAFE_INTEGER_def)
qed (auto simp: verifyParserSuccess_def INTELLIGENCE_PARSER_RESULT_MAX_SERIALIZED_BYTES_def
    split: sum.splits)

subsection \<open>Applying a failure\<close>

text \<open>
  \<^verbatim>\<open>reconcileTerminal\<close> and \<^verbatim>\<open>applyFailure\<close> of \<^verbatim>\<open>synchronize.ts\<close>. What they ask of the unit of work, the job
  queue and the freshness port is the list of effects they return, in order; the answers of those
  ports and the clock are parameters. The unit of work applies the transition function to the
  command it is given.
\<close>

datatype kevSynchronizationOutcome =
    out_completed int int
  | out_not_modified intelligenceNotModifiedReason
  | out_already_complete
  | out_retry_wait intelligenceSafeFailureCode int
  | out_job_retry intelligenceSafeFailureCode
  | out_failed intelligenceSafeFailureCode
  | out_quarantined intelligenceSafeFailureCode
  | out_rejected intelligenceSafeFailureCode
  | out_inconsistent

datatype workerEffect =
    TransitionRun intelligenceSyncRunCommand
  | MarkSucceeded int
  | MarkTerminalFailure intelligenceSafeFailureCategory intelligenceSafeFailureCode int
  | MarkDegradedFailure intelligenceSafeFailureCode int
  | MarkRetry intelligenceSafeFailureCategory intelligenceSafeFailureCode int

record failurePorts =
  transitionOk :: bool
  reloadedSyncRun :: "intelligenceSyncRunSnapshot option"
  markRetryOk :: bool
  ownsRunningJob :: bool
  reconcileClock :: int

record retryConfig =
  syncMaxAttempts :: jsnum
  syncRetryWaitFloorMs :: int
  syncRetryWaitCeilingMs :: int

definition reconcileTerminal ::
  "bool \<Rightarrow> int \<Rightarrow> intelligenceSyncRunSnapshot \<Rightarrow> kevSynchronizationOutcome \<times> workerEffect list" where
  "reconcileTerminal owned now run =
     (if runState run = run_completed \<or> runState run = run_not_modified
      then (out_already_complete, if owned then [MarkSucceeded now] else [])
      else
        (let code = (case runFailureCode run of None \<Rightarrow> processing_failed | Some c \<Rightarrow> c);
             classification = classifyIntelligenceSafeFailure code;
             effects = (if owned then [MarkTerminalFailure (fcCategory classification) code now] else [])
         in if runState run = run_quarantined then (out_quarantined code, effects)
            else (out_failed code, effects)))"

text \<open>After a refused transition: reconcile with a terminal run, or leave the job to a retry.\<close>

definition refusedTransition ::
  "failurePorts \<Rightarrow> kevSynchronizationOutcome \<times> workerEffect list" where
  "refusedTransition ports =
     (case reloadedSyncRun ports of
        Some run \<Rightarrow>
          if isIntelligenceTerminalSyncRunState (runState run)
          then reconcileTerminal (ownsRunningJob ports) (reconcileClock ports) run
          else (out_job_retry persistence_failed, [])
      | None \<Rightarrow> (out_job_retry persistence_failed, []))"

definition requestTransition ::
  "failurePorts \<Rightarrow> intelligenceSyncRunCommand \<Rightarrow> kevSynchronizationOutcome \<Rightarrow>
   kevSynchronizationOutcome \<times> workerEffect list" where
  "requestTransition ports cmd success =
     (if transitionOk ports then (success, [TransitionRun cmd])
      else case refusedTransition ports of
        (outcome', effects) \<Rightarrow> (outcome', TransitionRun cmd # effects))"

definition applyFailure ::
  "failurePorts \<Rightarrow> retryConfig \<Rightarrow> int \<Rightarrow> intelligenceSafeFailureCode \<Rightarrow> intelligenceSyncFailureLayer \<Rightarrow>
   int \<Rightarrow> kevSynchronizationOutcome \<times> workerEffect list" where
  "applyFailure ports config jobAttempt code layer now =
     (let remaining = attemptsRemain (Integral jobAttempt) (syncMaxAttempts config);
          mapped = mapIntelligenceSyncFailure code layer remaining;
          classification = classifyIntelligenceSafeFailure code
      in case mapped of
           act_retry_wait _ \<Rightarrow>
             (let delay = intelligenceRetryWaitDelayMs jobAttempt (syncRetryWaitFloorMs config)
                    (syncRetryWaitCeilingMs config);
                  nextAttempt = now + delay
              in requestTransition ports (RecordRetryWait nextAttempt code)
                   (out_retry_wait code nextAttempt))
         | act_job_retry _ \<Rightarrow>
             (if \<not> markRetryOk ports then out_rejected request_cancelled else out_job_retry code,
              [MarkDegradedFailure code now, MarkRetry (fcCategory classification) code now])
         | act_quarantined _ \<Rightarrow>
             requestTransition ports (QuarantineSyncRun now code) (out_quarantined code)
         | _ \<Rightarrow> requestTransition ports (FailSyncRun now code) (out_failed code))"

lemma requestTransition_commands:
  "TransitionRun c \<in> set (snd (requestTransition ports cmd success)) \<longleftrightarrow> c = cmd"
  by (auto simp: requestTransition_def refusedTransition_def reconcileTerminal_def Let_def
      split: option.splits)

lemma applyFailure_command:
  "TransitionRun cmd \<in> set (snd (applyFailure ports config k code layer now)) \<longleftrightarrow>
     (case mapIntelligenceSyncFailure code layer (attemptsRemain (Integral k) (syncMaxAttempts config)) of
        act_retry_wait _ \<Rightarrow> cmd = RecordRetryWait (now +
          intelligenceRetryWaitDelayMs k (syncRetryWaitFloorMs config) (syncRetryWaitCeilingMs config)) code
      | act_job_retry _ \<Rightarrow> False
      | act_quarantined _ \<Rightarrow> cmd = QuarantineSyncRun now code
      | _ \<Rightarrow> cmd = FailSyncRun now code)"
  by (auto simp: applyFailure_def Let_def requestTransition_commands
      split: intelligenceSyncFailureAction.splits)

lemma map_action:
  "mapIntelligenceSyncFailure code layer remain =
     (if fcDisposition (intelligenceSafeFailureCatalog code) = disp_quarantined then act_quarantined code
      else if fcRetryable (intelligenceSafeFailureCatalog code) \<and> remain
      then (if layer = pre_snapshot then act_retry_wait code else act_job_retry code)
      else act_failed code)"
  by (simp add: mapIntelligenceSyncFailure_def Let_def)

text \<open>
  \<^verbatim>\<open>dispatch\<close> of \<^verbatim>\<open>synchronize.ts\<close>: the handler it calls for a run. With KEV switched off it fails a run
  that holds no snapshot yet, also one that never started or waits for its retry.
\<close>

definition isPreSnapshotWithoutTrustedSnapshot :: "intelligenceSyncRunSnapshot \<Rightarrow> bool" where
  "isPreSnapshotWithoutTrustedSnapshot run =
     (if runState run = run_requested \<or> runState run = run_retry_wait then True
      else runState run = run_fetching \<and> snapshotId run = None)"

datatype dispatchTarget =
    call_applyFailure intelligenceSafeFailureCode intelligenceSyncFailureLayer
  | call_fetchFromClaim
  | call_fetchCatalog
  | call_parseAndStage
  | call_activate
  | call_rejected intelligenceSafeFailureCode

definition dispatch :: "bool \<Rightarrow> intelligenceSyncRunSnapshot \<Rightarrow> dispatchTarget" where
  "dispatch kevEnabled run =
     (if \<not> kevEnabled \<and> isPreSnapshotWithoutTrustedSnapshot run
      then call_applyFailure provider_disabled pre_snapshot
      else case runState run of
        run_requested \<Rightarrow> call_fetchFromClaim
      | run_retry_wait \<Rightarrow> call_fetchFromClaim
      | run_fetching \<Rightarrow> call_fetchCatalog
      | run_stored \<Rightarrow> call_parseAndStage
      | run_parsing \<Rightarrow> call_parseAndStage
      | run_staging \<Rightarrow> call_parseAndStage
      | run_activating \<Rightarrow> call_activate
      | _ \<Rightarrow> call_rejected processing_failed)"

text \<open>
  The failures the worker applies to a run that is not terminal. \<^verbatim>\<open>dispatch\<close> applies its own, in
  \<open>requested\<close>, \<open>retry_wait\<close> and \<open>fetching\<close>. \<^verbatim>\<open>fetchCatalog\<close> applies any code before the snapshot, to
  a fetching run: the one dispatched or the one \<^verbatim>\<open>fetchFromClaim\<close> has claimed, which applies none itself.
  \<^verbatim>\<open>parseAndStage\<close>, \<^verbatim>\<open>stageGeneration\<close> and \<^verbatim>\<open>activate\<close> apply any code after the snapshot, to a run that
  has one: the one dispatched, or what they have recorded or reloaded of it, \<open>stored\<close> to \<open>activating\<close>.
\<close>

definition meetsFailure ::
  "bool \<Rightarrow> intelligenceSyncRunSnapshot \<Rightarrow> intelligenceSafeFailureCode \<Rightarrow> intelligenceSyncFailureLayer \<Rightarrow>
   bool" where
  "meetsFailure kevEnabled run code layer =
     (case dispatch kevEnabled run of
        call_applyFailure code' layer' \<Rightarrow> code = code' \<and> layer = layer'
      | call_fetchCatalog \<Rightarrow> layer = pre_snapshot
      | call_parseAndStage \<Rightarrow> layer = post_snapshot
      | call_activate \<Rightarrow> layer = post_snapshot
      | _ \<Rightarrow> False)"

lemma meetsFailure_cases:
  assumes "meetsFailure kevEnabled s code layer"
  obtains (disabled) "\<not> kevEnabled" "code = provider_disabled" "layer = pre_snapshot"
      "runState s \<in> {run_requested, run_retry_wait, run_fetching}"
  | (before) "layer = pre_snapshot" "runState s = run_fetching"
  | (after) "layer = post_snapshot"
      "runState s \<in> {run_stored, run_parsing, run_staging, run_activating}"
  using assms
  by (cases "runState s"; cases "kevEnabled";
      auto simp: meetsFailure_def dispatch_def isPreSnapshotWithoutTrustedSnapshot_def split: if_splits)

lemma meetsFailure_before:
  assumes "meetsFailure kevEnabled s code layer"
    and "fcRetryable (intelligenceSafeFailureCatalog code)" "layer = pre_snapshot"
  shows "runState s = run_fetching"
  using assms(1) by (cases rule: meetsFailure_cases) (use assms(2,3) in auto)

lemma meetsFailure_open:
  assumes "meetsFailure kevEnabled s code layer"
  shows "\<not> isIntelligenceTerminalSyncRunState (runState s)"
    and "fcDisposition (intelligenceSafeFailureCatalog code) = disp_quarantined \<Longrightarrow>
      runState s \<in> {run_fetching, run_stored, run_parsing, run_staging, run_activating}"
  using assms by (cases rule: meetsFailure_cases; auto simp: run_guard_defs)+

text \<open>
  C36. A failure never asks for a transition the run refuses: on every run that is not terminal, for every
  failure the handlers apply to it (also \<open>provider_disabled\<close> on a run that is requested or waits for a
  retry), at a time not before its start, every command \<^verbatim>\<open>applyFailure\<close> sends is accepted by
  the transition function and leaves the run waiting for a retry within the configured bounds, failed
  or quarantined as the catalog says; only a retryable failure after the snapshot, with attempts
  left, sends none and retries the job instead.
\<close>
theorem failure_applies:
  assumes hist: "sync_run_history cmds s" and met: "meetsFailure kevEnabled s code layer"
    and time: "not_before_start s now"
    and bounds: "0 < syncRetryWaitFloorMs config" "syncRetryWaitFloorMs config \<le> syncRetryWaitCeilingMs config"
      "syncRetryWaitCeilingMs config \<le> MAX_SAFE_INTEGER" and job: "1 \<le> jobAttempt"
  shows "(\<forall>cmd. TransitionRun cmd \<in> set (snd (applyFailure ports config jobAttempt code layer now)) \<longrightarrow>
      (\<exists>s'. applyIntelligenceSyncRunTransition (Some s) cmd = Inr s' \<and>
         runFailureCode s' = Some code \<and>
         (case runState s' of
            run_retry_wait \<Rightarrow> (\<exists>t. nextAttemptAt s' = Some t \<and> now + syncRetryWaitFloorMs config \<le> t \<and>
              t \<le> now + syncRetryWaitCeilingMs config)
          | run_failed \<Rightarrow> fcDisposition (intelligenceSafeFailureCatalog code) = disp_failed
          | run_quarantined \<Rightarrow> fcDisposition (intelligenceSafeFailureCatalog code) = disp_quarantined
          | _ \<Rightarrow> False))) \<and>
    ((\<exists>cmd. TransitionRun cmd \<in> set (snd (applyFailure ports config jobAttempt code layer now))) \<longleftrightarrow>
      \<not> (layer = post_snapshot \<and> fcRetryable (intelligenceSafeFailureCatalog code) \<and>
         fcDisposition (intelligenceSafeFailureCatalog code) = disp_failed \<and>
         attemptsRemain (Integral jobAttempt) (syncMaxAttempts config)))"
proof -
  note inv = history_inv [OF hist]
  note live = meetsFailure_open(1) [OF met] and open_states = meetsFailure_open(2) [OF met]
  have disp: "fcDisposition (intelligenceSafeFailureCatalog code) = disp_failed \<or>
      fcDisposition (intelligenceSafeFailureCatalog code) = disp_quarantined"
    by (cases "fcDisposition (intelligenceSafeFailureCatalog code)") auto
  have delay: "syncRetryWaitFloorMs config \<le> intelligenceRetryWaitDelayMs jobAttempt
        (syncRetryWaitFloorMs config) (syncRetryWaitCeilingMs config)"
    "intelligenceRetryWaitDelayMs jobAttempt (syncRetryWaitFloorMs config)
        (syncRetryWaitCeilingMs config) \<le> syncRetryWaitCeilingMs config"
    using retry_delay_bounds [OF bounds job] by auto
  let ?c = "intelligenceSafeFailureCatalog code"
  let ?remain = "attemptsRemain (Integral jobAttempt) (syncMaxAttempts config)"
  note sent = applyFailure_command [of _ ports config jobAttempt code layer now, unfolded map_action]
  note accepted = transition_accepts [OF inv]
  consider (quarantined) "fcDisposition ?c = disp_quarantined"
    | (failed) "fcDisposition ?c = disp_failed" "\<not> (fcRetryable ?c \<and> ?remain)"
    | (retry) "fcDisposition ?c = disp_failed" "fcRetryable ?c" ?remain "layer = pre_snapshot"
    | (job) "fcDisposition ?c = disp_failed" "fcRetryable ?c" ?remain "layer = post_snapshot"
    using disp by (cases layer) auto
  then show ?thesis
  proof cases
    case quarantined
    with accepted [of "QuarantineSyncRun now code"] open_states time sent show ?thesis by simp
  next
    case failed
    with accepted [of "FailSyncRun now code"] live time sent show ?thesis by auto
  next
    case retry
    let ?delay = "intelligenceRetryWaitDelayMs jobAttempt (syncRetryWaitFloorMs config)
      (syncRetryWaitCeilingMs config)"
    have "runState s = run_fetching" using meetsFailure_before [OF met retry(2,4)] .
    with retry accepted [of "RecordRetryWait (now + ?delay) code"] delay sent show ?thesis by simp
  next
    case job
    with sent show ?thesis by simp
  qed
qed

definition example_config :: retryConfig where
  "example_config =
     \<lparr>syncMaxAttempts = Integral 3, syncRetryWaitFloorMs = 1000, syncRetryWaitCeilingMs = 60000\<rparr>"

definition example_fetching :: intelligenceSyncRunSnapshot where
  "example_fetching = run_next (requestedSnapshot 10) (StartFetching 20 (Integral 1))"

lemma example_fetch_step:
  "applyIntelligenceSyncRunTransition (Some (requestedSnapshot 10)) (StartFetching 20 (Integral 1)) =
     Inr example_fetching"
  unfolding example_fetching_def
  by (rule transition_accepts [OF requested_inv]) (simp add: requestedSnapshot_def MAX_SAFE_INTEGER_def)

lemma example_requested_history: "sync_run_history [CreateRequested 10] (requestedSnapshot 10)"
  unfolding sync_run_history_def
  by (rule command_history_created) (simp only: transition_None, blast)

lemma example_fetching_history:
  "sync_run_history [CreateRequested 10, StartFetching 20 (Integral 1)] example_fetching"
  using command_history_stepped [OF example_requested_history [unfolded sync_run_history_def]
      example_fetch_step]
  by (simp add: sync_run_history_def)

text \<open>A timeout while fetching, and KEV switched off before a requested run starts.\<close>

lemma failure_applies_witness:
  "(\<exists>s'. applyIntelligenceSyncRunTransition (Some example_fetching)
      (RecordRetryWait 1030 response_timeout) = Inr s' \<and> runFailureCode s' = Some response_timeout) \<and>
   (\<exists>s'. applyIntelligenceSyncRunTransition (Some (requestedSnapshot 10))
      (FailSyncRun 30 provider_disabled) = Inr s' \<and> runFailureCode s' = Some provider_disabled)"
proof -
  have met: "meetsFailure True example_fetching response_timeout pre_snapshot"
    "meetsFailure False (requestedSnapshot 10) provider_disabled pre_snapshot"
    and time: "not_before_start example_fetching 30" "not_before_start (requestedSnapshot 10) 30"
    by (simp_all add: meetsFailure_def dispatch_def isPreSnapshotWithoutTrustedSnapshot_def
        example_fetching_def requestedSnapshot_def not_before_start_def)
  have config: "0 < syncRetryWaitFloorMs example_config"
    "syncRetryWaitFloorMs example_config \<le> syncRetryWaitCeilingMs example_config"
    "syncRetryWaitCeilingMs example_config \<le> MAX_SAFE_INTEGER"
    by (simp_all add: example_config_def MAX_SAFE_INTEGER_def)
  have sent: "TransitionRun (RecordRetryWait 1030 response_timeout) \<in>
      set (snd (applyFailure ports example_config 1 response_timeout pre_snapshot 30))"
    "TransitionRun (FailSyncRun 30 provider_disabled) \<in>
      set (snd (applyFailure ports example_config 1 provider_disabled pre_snapshot 30))" for ports
    unfolding applyFailure_command map_action
    by (simp_all add: example_config_def MAX_SAFE_INTEGER_def intelligenceRetryWaitDelayMs_def)
  from failure_applies [OF example_fetching_history met(1) time(1) config, of 1, THEN conjunct1,
      THEN spec, THEN mp, OF _ sent(1)]
    failure_applies [OF example_requested_history met(2) time(2) config, of 1, THEN conjunct1,
      THEN spec, THEN mp, OF _ sent(2)]
  show ?thesis by blast
qed

subsection \<open>Runs driven by the worker\<close>

text \<open>
  What the worker adds to the transition function: it records a retry wait only through
  \<^verbatim>\<open>applyFailure\<close>, for a background job whose attempt the precheck and the claim keep at or above the
  attempt of the run.
\<close>

definition worker_may_issue ::
  "retryConfig \<Rightarrow> intelligenceSyncRunSnapshot \<Rightarrow> intelligenceSyncRunCommand \<Rightarrow> bool" where
  "worker_may_issue config s cmd =
     (case cmd of
        RecordRetryWait t code \<Rightarrow>
          \<exists>ports jobAttempt layer now. executionAttempt s \<le> jobAttempt \<and>
            TransitionRun cmd \<in> set (snd (applyFailure ports config jobAttempt code layer now))
      | _ \<Rightarrow> True)"

definition worker_history ::
  "retryConfig \<Rightarrow> intelligenceSyncRunCommand list \<Rightarrow> intelligenceSyncRunSnapshot \<Rightarrow> bool" where
  "worker_history config =
     guarded_history (worker_may_issue config) applyIntelligenceSyncRunTransition"

lemma worker_is_history: "worker_history config cmds s \<Longrightarrow> sync_run_history cmds s"
  by (simp add: worker_history_def sync_run_history_def guarded_is_command_history)

lemma retry_command_bound:
  assumes "TransitionRun (RecordRetryWait t c) \<in> set (snd (applyFailure ports config k code layer now))"
    and "syncMaxAttempts config = Integral maxAttempts"
  shows "k < maxAttempts"
  using assms unfolding applyFailure_command
  by (auto simp: mapIntelligenceSyncFailure_def Let_def split: if_splits)

lemma worker_attempts:
  assumes "worker_history config cmds s" and max: "syncMaxAttempts config = Integral maxAttempts"
  shows "executionAttempt s \<le> max 1 maxAttempts \<and>
    (runState s = run_retry_wait \<longrightarrow> executionAttempt s < maxAttempts) \<and>
    (runState s = run_requested \<longrightarrow> executionAttempt s = 0)"
  using assms(1) unfolding worker_history_def
proof (rule sync_run.guarded_history_induct)
  fix s c s'
  assume inv: "sync_run_inv s" and may: "worker_may_issue config s c"
    and IH: "executionAttempt s \<le> max 1 maxAttempts \<and>
      (runState s = run_retry_wait \<longrightarrow> executionAttempt s < maxAttempts) \<and>
      (runState s = run_requested \<longrightarrow> executionAttempt s = 0)"
    and step: "applyIntelligenceSyncRunTransition (Some s) c = Inr s'"
  from inv step have acc: "run_accepts s c" "s' = run_next s c" by (simp_all add: transition_iff)
  show "executionAttempt s' \<le> max 1 maxAttempts \<and>
      (runState s' = run_retry_wait \<longrightarrow> executionAttempt s' < maxAttempts) \<and>
      (runState s' = run_requested \<longrightarrow> executionAttempt s' = 0)"
  proof (cases c)
    case (RecordRetryWait t code)
    with may have "executionAttempt s < maxAttempts"
      using retry_command_bound [OF _ max] by (fastforce simp: worker_may_issue_def)
    with RecordRetryWait acc IH show ?thesis by auto
  qed (use acc IH in auto)
qed (auto simp: transition_None requestedSnapshot_def)

text \<open>
  C5. A run ends: whatever the worker does, a run takes at most five commands beyond two for every
  attempt the configuration allows, and until it is terminal it can always be failed, at any time not
  before its start.
\<close>
theorem sync_run_terminates:
  assumes "worker_history config cmds s" "syncMaxAttempts config = Integral maxAttempts" "1 \<le> maxAttempts"
  shows "length cmds \<le> 2 * nat maxAttempts + 5 \<and>
    (isIntelligenceTerminalSyncRunState (runState s) \<or>
     (\<forall>t. not_before_start s t \<longrightarrow>
        (\<exists>s'. applyIntelligenceSyncRunTransition (Some s) (FailSyncRun t processing_failed) = Inr s' \<and>
           isIntelligenceTerminalSyncRunState (runState s'))))"
proof -
  have hist: "sync_run_history cmds s" by (rule worker_is_history [OF assms(1)])
  have "executionAttempt s \<le> maxAttempts" using worker_attempts [OF assms(1,2)] assms(3) by simp
  then have "length cmds \<le> 2 * nat maxAttempts + 5"
    using run_history_length [OF hist] run_progress_bound [of s] by linarith
  moreover have "\<exists>s'. applyIntelligenceSyncRunTransition (Some s) (FailSyncRun t processing_failed) = Inr s' \<and>
      isIntelligenceTerminalSyncRunState (runState s')"
    if "\<not> isIntelligenceTerminalSyncRunState (runState s)" "not_before_start s t" for t
    using transition_accepts [OF history_inv [OF hist], of "FailSyncRun t processing_failed"] that
    by (simp add: run_guard_defs)
  ultimately show ?thesis by blast
qed

lemma sync_run_terminates_witness:
  "\<exists>s. worker_history example_config [CreateRequested 10, StartFetching 20 (Integral 1)] s \<and>
     (\<exists>s'. applyIntelligenceSyncRunTransition (Some s) (FailSyncRun 30 processing_failed) = Inr s')"
proof -
  have created: "worker_history example_config [CreateRequested 10] (requestedSnapshot 10)"
    unfolding worker_history_def
    by (rule guarded_history.created) (simp only: transition_None, blast)
  from guarded_history.stepped [OF created [unfolded worker_history_def] _ example_fetch_step]
  have run: "worker_history example_config [CreateRequested 10, StartFetching 20 (Integral 1)] example_fetching"
    by (simp add: worker_may_issue_def worker_history_def)
  have "\<not> isIntelligenceTerminalSyncRunState (runState example_fetching)"
    "not_before_start example_fetching 30"
    by (simp_all add: example_fetching_def run_guard_defs not_before_start_def)
  with sync_run_terminates [OF run, of 3] run show ?thesis by (fastforce simp: example_config_def)
qed

end
