(* ===== verification/SyncStaging.thy ===== *)
theory SyncStaging
  imports SyncDecisions
begin

text \<open>
  Staging a parsed catalog in bounded batches and resuming it:
  \<^verbatim>\<open>packages/domain/src/intelligence/staging-resume.ts\<close>, and \<^verbatim>\<open>mapEntries\<close> and the batch loop of
  \<^verbatim>\<open>stageGeneration\<close> in \<^verbatim>\<open>synchronize.ts\<close>. The answers of the lease heartbeat, the run reload, the
  persistence port, the clock and the id source are parameters, functions of the number of the call.
\<close>

subsection \<open>Comparing staged rows with parsed entries\<close>

fun cwesEqualFrom :: "jstr list \<Rightarrow> jstr list \<Rightarrow> bool" where
  "cwesEqualFrom (l # left) (r # right) = (if l \<noteq> r then False else cwesEqualFrom left right)"
| "cwesEqualFrom _ _ = True"

definition cwesEqual :: "jstr list \<Rightarrow> jstr list \<Rightarrow> bool" where
  "cwesEqual left right = (if length left \<noteq> length right then False else cwesEqualFrom left right)"

definition parsedEntryMatchesStaged :: "kevParsedEntry \<Rightarrow> kevNormalizedEntryRecord \<Rightarrow> bool" where
  "parsedEntryMatchesStaged parsed staged =
     (if \<not> num_same (pOrdinal parsed) (entOrdinal staged) then False
      else if pNormalizedCve parsed \<noteq> entNormalizedCve staged then False
      else if pVendorProject parsed \<noteq> entVendorProject staged then False
      else if pProduct parsed \<noteq> entProduct staged then False
      else if pVulnerabilityName parsed \<noteq> entVulnerabilityName staged then False
      else if pDateAdded parsed \<noteq> entDateAdded staged then False
      else if pShortDescription parsed \<noteq> entShortDescription staged then False
      else if pRequiredAction parsed \<noteq> entRequiredAction staged then False
      else if pDueDate parsed \<noteq> entDueDate staged then False
      else if pKnownRansomwareCampaignUse parsed \<noteq> entKnownRansomwareCampaignUse staged then False
      else if pRawKnownRansomwareCampaignUse parsed \<noteq> entRawKnownRansomwareCampaignUse staged
      then False
      else if pNotes parsed \<noteq> entNotes staged then False
      else cwesEqual (pCwes parsed) (entCwes staged))"

fun densePrefixLoop ::
  "nat \<Rightarrow> kevNormalizedEntryRecord list \<Rightarrow> kevParsedEntry list \<Rightarrow>
   intelligenceSafeFailureCode + nat" where
  "densePrefixLoop index [] parsed = Inr index"
| "densePrefixLoop index (s # staged) [] = Inl generation_incomplete"
| "densePrefixLoop index (s # staged) (p # parsed) =
     (if entOrdinal s \<noteq> Integral (int index) then Inl generation_incomplete
      else if \<not> parsedEntryMatchesStaged p s then Inl generation_incomplete
      else densePrefixLoop (Suc index) staged parsed)"

definition verifyDenseStagedPrefix ::
  "kevNormalizedEntryRecord list \<Rightarrow> kevParsedEntry list \<Rightarrow> nat \<Rightarrow>
   intelligenceSafeFailureCode + nat" where
  "verifyDenseStagedPrefix staged parsed authoritativeCount =
     (if length staged \<noteq> authoritativeCount then Inl generation_incomplete
      else densePrefixLoop 0 staged parsed)"

subsection \<open>Mapping entries to rows\<close>

definition mapEntry :: "jstr \<Rightarrow> jstr \<Rightarrow> jstr \<Rightarrow> int \<Rightarrow> kevParsedEntry \<Rightarrow> kevNormalizedEntryRecord" where
  "mapEntry rowId generation snapshot createdAt e =
     \<lparr>entId = rowId, entGenerationId = generation, entSnapshotId = snapshot,
      entOrdinal = pOrdinal e, entNormalizedCve = pNormalizedCve e,
      entVendorProject = pVendorProject e, entProduct = pProduct e,
      entVulnerabilityName = pVulnerabilityName e, entDateAdded = pDateAdded e,
      entShortDescription = pShortDescription e, entRequiredAction = pRequiredAction e,
      entDueDate = pDueDate e, entKnownRansomwareCampaignUse = pKnownRansomwareCampaignUse e,
      entRawKnownRansomwareCampaignUse = pRawKnownRansomwareCampaignUse e, entNotes = pNotes e,
      entCwes = pCwes e, entCreatedAt = createdAt\<rparr>"

text \<open>\<open>newId k\<close> is the id the \<open>k\<close>-th call of \<^verbatim>\<open>createId\<close> returns; the mapping starts with call \<open>k\<close>.\<close>

fun mapEntries ::
  "(nat \<Rightarrow> jstr) \<Rightarrow> nat \<Rightarrow> jstr \<Rightarrow> jstr \<Rightarrow> int \<Rightarrow> kevParsedEntry list \<Rightarrow>
   intelligenceSafeFailureCode + kevNormalizedEntryRecord list" where
  "mapEntries newId k generation snapshot createdAt [] = Inr []"
| "mapEntries newId k generation snapshot createdAt (e # es) =
     (case validateKevNormalizedEntryRecord (mapEntry (newId k) generation snapshot createdAt e) of
        Inl _ \<Rightarrow> Inl generation_incomplete
      | Inr row \<Rightarrow>
          (case mapEntries newId (Suc k) generation snapshot createdAt es of
             Inl code \<Rightarrow> Inl code
           | Inr rows \<Rightarrow> Inr (row # rows)))"

subsection \<open>The batch loop\<close>

record stagingPorts =
  leaseBefore :: "nat \<Rightarrow> bool"
  reloadedRun :: "nat \<Rightarrow> (intelligenceSyncRunState \<times> jstr option) option"
  stageBatch :: "nat \<Rightarrow> kevNormalizedEntryRecord list \<Rightarrow> kevNormalizedEntryRecord list \<Rightarrow>
    kevNormalizedEntryRecord list option"
  leaseAfter :: "nat \<Rightarrow> bool"
  createId :: "nat \<Rightarrow> jstr"
  clockNow :: "nat \<Rightarrow> int"

text \<open>
  One pass of the \<^verbatim>\<open>while\<close> body from a cursor, with the rows the generation holds: the code of the
  failure applied, or the advance of the cursor, and the rows held afterwards. The number of the pass
  is \<open>k\<close> and \<open>ids\<close> counts the ids drawn so far.
\<close>

definition stageBatchPass ::
  "stagingPorts \<Rightarrow> nat \<Rightarrow> jstr \<Rightarrow> jstr \<Rightarrow> kevParsedEntry list \<Rightarrow> nat \<Rightarrow> nat \<Rightarrow> nat \<Rightarrow>
   kevNormalizedEntryRecord list \<Rightarrow>
   (intelligenceSafeFailureCode + nat) \<times> kevNormalizedEntryRecord list" where
  "stageBatchPass ports maxRows generation snapshot entries k ids cursor rows =
     (if \<not> leaseBefore ports k then (Inl request_cancelled, rows)
      else case reloadedRun ports k of
        None \<Rightarrow> (Inl generation_incomplete, rows)
      | Some (state, runGeneration) \<Rightarrow>
          if state \<noteq> run_staging \<or> runGeneration \<noteq> Some generation
          then (Inl generation_incomplete, rows)
          else
            (let batch = slice cursor (cursor + maxRows) entries
             in case mapEntries (createId ports) ids generation snapshot (clockNow ports k) batch of
               Inl _ \<Rightarrow> (Inl generation_incomplete, rows)
             | Inr mapped \<Rightarrow>
                 (case stageBatch ports k rows mapped of
                    None \<Rightarrow> (Inl persistence_failed, rows)
                  | Some rows' \<Rightarrow>
                      if \<not> leaseAfter ports k then (Inl request_cancelled, rows')
                      else (Inr (length batch), rows'))))"

partial_function (option) stageLoop ::
  "stagingPorts \<Rightarrow> nat \<Rightarrow> jstr \<Rightarrow> jstr \<Rightarrow> kevParsedEntry list \<Rightarrow> nat \<Rightarrow> nat \<Rightarrow> nat \<Rightarrow>
   kevNormalizedEntryRecord list \<Rightarrow>
   ((intelligenceSafeFailureCode + unit) \<times> kevNormalizedEntryRecord list) option" where
  "stageLoop ports maxRows generation snapshot entries k ids cursor rows =
     (if cursor < length entries then
        (case stageBatchPass ports maxRows generation snapshot entries k ids cursor rows of
           (Inl code, rows') \<Rightarrow> Some (Inl code, rows')
         | (Inr n, rows') \<Rightarrow>
             stageLoop ports maxRows generation snapshot entries (Suc k) (ids + n) (cursor + n) rows')
      else Some (Inr (), rows))"

subsection \<open>Rows that match a prefix of the entries\<close>

lemma cwesEqual_iff: "cwesEqual left right \<longleftrightarrow> left = right"
proof -
  have "length left = length right \<Longrightarrow> cwesEqualFrom left right \<longleftrightarrow> left = right"
    by (induction left right rule: cwesEqualFrom.induct) auto
  then show ?thesis by (auto simp: cwesEqual_def)
qed

lemma mapEntry_matches:
  "num_same (pOrdinal e) (pOrdinal e) \<Longrightarrow> parsedEntryMatchesStaged e (mapEntry i g s t e)"
  by (simp add: parsedEntryMatchesStaged_def mapEntry_def cwesEqual_iff)

lemma validate_entry_id: "validateKevNormalizedEntryRecord r = Inr r' \<Longrightarrow> r' = r"
  by (auto simp: validateKevNormalizedEntryRecord_def split: if_splits sum.splits option.splits)

text \<open>The rows are the images of the first entries, row \<open>i\<close> carrying ordinal \<open>i\<close>.\<close>

definition dense_rows :: "nat \<Rightarrow> kevNormalizedEntryRecord list \<Rightarrow> kevParsedEntry list \<Rightarrow> bool" where
  "dense_rows start rows entries \<longleftrightarrow>
     length rows \<le> length entries \<and>
     (\<forall>i < length rows. entOrdinal (rows ! i) = Integral (int (start + i)) \<and>
        parsedEntryMatchesStaged (entries ! i) (rows ! i))"

lemma densePrefixLoop_iff:
  "densePrefixLoop index rows entries = Inr n \<longleftrightarrow>
     n = index + length rows \<and> dense_rows index rows entries"
proof (induction index rows entries rule: densePrefixLoop.induct)
  case (3 index s staged p parsed)
  have "dense_rows index (s # staged) (p # parsed) \<longleftrightarrow>
      entOrdinal s = Integral (int index) \<and> parsedEntryMatchesStaged p s \<and>
      dense_rows (Suc index) staged parsed"
    unfolding dense_rows_def All_less_Suc2 length_Cons by auto
  with 3 show ?case by auto
qed (auto simp: dense_rows_def)

lemma verifyDense_iff:
  "verifyDenseStagedPrefix rows entries counted = Inr n \<longleftrightarrow>
     counted = length rows \<and> n = length rows \<and> dense_rows 0 rows entries"
  by (auto simp: verifyDenseStagedPrefix_def densePrefixLoop_iff)

lemma mapEntries_rows:
  "mapEntries newId k g s t es = Inr rows \<Longrightarrow>
   list_all2 (\<lambda>e r. \<exists>i. r = mapEntry i g s t e) es rows"
proof (induction es arbitrary: k rows)
  case (Cons e es)
  then show ?case by (fastforce split: sum.splits dest: validate_entry_id)
qed simp

definition dense_ordinals :: "kevParsedEntry list \<Rightarrow> bool" where
  "dense_ordinals entries \<longleftrightarrow> map pOrdinal entries = map (\<lambda>i. Integral (int i)) [0..<length entries]"

lemma dense_ordinals_nth:
  "dense_ordinals entries \<Longrightarrow> i < length entries \<Longrightarrow> pOrdinal (entries ! i) = Integral (int i)"
  unfolding dense_ordinals_def by (drule arg_cong [where f = "\<lambda>l. l ! i"]) simp

text \<open>Appending the images of the next slice keeps the rows dense.\<close>

lemma dense_append:
  assumes dense: "dense_rows 0 rows entries" and ordinals: "dense_ordinals entries"
    and images: "list_all2 (\<lambda>e r. \<exists>i. r = mapEntry i g s t e)
      (slice (length rows) (length rows + m) entries) new"
  shows "dense_rows 0 (rows @ new) entries"
    and "length (rows @ new) = length rows + length (slice (length rows) (length rows + m) entries)"
proof -
  let ?slice = "slice (length rows) (length rows + m) entries"
  have len: "length new = length ?slice" using images by (simp add: list_all2_lengthD)
  then show "length (rows @ new) = length rows + length ?slice" by simp
  have le: "length rows + length ?slice \<le> length entries"
    using dense by (auto simp: dense_rows_def slice_def)
  have "entOrdinal ((rows @ new) ! i) = Integral (int i) \<and>
      parsedEntryMatchesStaged (entries ! i) ((rows @ new) ! i)" if i: "i < length (rows @ new)" for i
  proof (cases "i < length rows")
    case True
    with dense show ?thesis by (simp add: dense_rows_def nth_append)
  next
    case False
    define j where "j = i - length rows"
    have j: "j < length ?slice" "i = length rows + j" using False i len by (auto simp: j_def)
    have entry: "?slice ! j = entries ! i" "i < length entries"
      using j le by (auto simp: slice_def)
    obtain rid where "new ! j = mapEntry rid g s t (entries ! i)"
      using list_all2_nthD [OF images j(1)] entry by auto
    moreover have "pOrdinal (entries ! i) = Integral (int i)"
      by (rule dense_ordinals_nth [OF ordinals entry(2)])
    ultimately show ?thesis
      using mapEntry_matches [of "entries ! i"] False
      by (simp add: nth_append j_def num_same_def mapEntry_def)
  qed
  with le len show "dense_rows 0 (rows @ new) entries" by (simp add: dense_rows_def)
qed

text \<open>What the persistence port promises: a staged batch is appended, and nothing else changes.\<close>

definition appends_batches :: "stagingPorts \<Rightarrow> bool" where
  "appends_batches ports \<longleftrightarrow>
     (\<forall>k rows batch rows'. stageBatch ports k rows batch = Some rows' \<longrightarrow> rows' = rows @ batch)"

lemma stageBatchPass_dense:
  assumes pass: "stageBatchPass ports m g s entries k ids (length rows) rows = (res, rows')"
    and port: "appends_batches ports" and dense: "dense_rows 0 rows entries"
    and ordinals: "dense_ordinals entries"
  shows "dense_rows 0 rows' entries \<and> (\<exists>new. rows' = rows @ new) \<and>
    (\<forall>n. res = Inr n \<longrightarrow> n = length (slice (length rows) (length rows + m) entries) \<and>
       length rows' = length rows + n)"
proof -
  let ?slice = "slice (length rows) (length rows + m) entries"
  have cases: "(rows' = rows \<and> (\<exists>code. res = Inl code)) \<or>
      (\<exists>mapped. mapEntries (createId ports) ids g s (clockNow ports k) ?slice = Inr mapped \<and>
        stageBatch ports k rows mapped = Some rows' \<and> (\<forall>n. res = Inr n \<longrightarrow> n = length ?slice))"
    using pass unfolding stageBatchPass_def Let_def
    by (auto split: if_splits option.splits sum.splits prod.splits)
  then show ?thesis
  proof
    assume "rows' = rows \<and> (\<exists>code. res = Inl code)"
    with dense show ?thesis by auto
  next
    assume "\<exists>mapped. mapEntries (createId ports) ids g s (clockNow ports k) ?slice = Inr mapped \<and>
        stageBatch ports k rows mapped = Some rows' \<and> (\<forall>n. res = Inr n \<longrightarrow> n = length ?slice)"
    then obtain mapped where mapped:
      "mapEntries (createId ports) ids g s (clockNow ports k) ?slice = Inr mapped"
      and staged: "stageBatch ports k rows mapped = Some rows'"
      and n: "\<forall>n. res = Inr n \<longrightarrow> n = length ?slice" by blast
    have "rows' = rows @ mapped" using port staged by (auto simp: appends_batches_def)
    with dense_append [OF dense ordinals mapEntries_rows [OF mapped]] n show ?thesis by auto
  qed
qed

lemma stageLoop_dense:
  assumes "appends_batches ports" "dense_ordinals entries" "0 < m" "dense_rows 0 rows entries"
  shows "\<exists>res rows'. stageLoop ports m g s entries k ids (length rows) rows = Some (res, rows') \<and>
    dense_rows 0 rows' entries \<and> (\<exists>new. rows' = rows @ new) \<and>
    (res = Inr () \<longrightarrow> length rows' = length entries)"
  using assms(4)
proof (induction "length entries - length rows" arbitrary: k ids rows rule: less_induct)
  case less
  show ?case
  proof (cases "length rows < length entries")
    case False
    with less.prems show ?thesis
      by (subst stageLoop.simps) (auto simp: dense_rows_def)
  next
    case True
    obtain res rows1 where pass:
      "stageBatchPass ports m g s entries k ids (length rows) rows = (res, rows1)" by fastforce
    note step = stageBatchPass_dense [OF pass assms(1) less.prems assms(2)]
    show ?thesis
    proof (cases res)
      case (Inl code)
      with True pass step show ?thesis by (subst stageLoop.simps) auto
    next
      case (Inr n)
      then have n: "n = length (slice (length rows) (length rows + m) entries)"
        "length rows1 = length rows + n" and dense: "dense_rows 0 rows1 entries"
        using step by auto
      have "0 < n" using n(1) True assms(3) by (simp add: slice_def)
      then have "length entries - length rows1 < length entries - length rows"
        using n(2) True by simp
      from less.hyps [OF this dense, of "Suc k" "ids + n"] obtain res' rows' where rest:
        "stageLoop ports m g s entries (Suc k) (ids + n) (length rows1) rows1 = Some (res', rows')"
        "dense_rows 0 rows' entries" "\<exists>new. rows' = rows1 @ new"
        "res' = Inr () \<longrightarrow> length rows' = length entries" by blast
      have "stageLoop ports m g s entries k ids (length rows) rows = Some (res', rows')"
        using True pass Inr rest(1) n(2) by (subst stageLoop.simps) simp
      moreover have "\<exists>new. rows' = rows @ new" using rest(3) step by auto
      ultimately show ?thesis using rest(2,4) by blast
    qed
  qed
qed

text \<open>
  C9. Staging always ends and can always be resumed: from a verified prefix of rows and with a
  positive batch size, whatever the lease, the run reload and the persistence port answer, the batch
  loop returns, the rows it leaves extend the rows it found and again verify as a dense prefix of the
  parsed catalog, and when it returns without a failure every entry has its row. The port is only
  assumed to append the batches it accepts.
\<close>
theorem staging_resumes:
  assumes port: "appends_batches ports" and ordinals: "dense_ordinals entries" and size: "0 < maxRows"
    and found: "verifyDenseStagedPrefix rows entries stagedCount = Inr cursor"
  shows "\<exists>res rows'. stageLoop ports maxRows g s entries k ids cursor rows = Some (res, rows') \<and>
    verifyDenseStagedPrefix rows' entries (length rows') = Inr (length rows') \<and>
    (\<exists>new. rows' = rows @ new) \<and> (res = Inr () \<longrightarrow> length rows' = length entries)"
proof -
  have "cursor = length rows" "dense_rows 0 rows entries" using found by (simp_all add: verifyDense_iff)
  with stageLoop_dense [OF port ordinals size] show ?thesis by (simp add: verifyDense_iff)
qed

definition example_entry :: kevParsedEntry where
  "example_entry =
     \<lparr>pOrdinal = Integral 0, pNormalizedCve = js ''CVE-2024-0001'', pVendorProject = js ''v'',
      pProduct = js ''p'', pVulnerabilityName = js ''n'', pDateAdded = js ''2024-01-02'',
      pShortDescription = js ''d'', pRequiredAction = js ''a'', pDueDate = js ''2024-02-29'',
      pKnownRansomwareCampaignUse = ransomware_unknown, pRawKnownRansomwareCampaignUse = None,
      pNotes = None, pCwes = [js ''CWE-79'']\<rparr>"

definition example_id :: jstr where
  "example_id = js ''0b3e1c4a-8f21-4d5e-9a67-1f2e3d4c5b6a''"

definition example_ports :: stagingPorts where
  "example_ports =
     \<lparr>leaseBefore = (\<lambda>_. True), reloadedRun = (\<lambda>_. Some (run_staging, Some example_id)),
      stageBatch = (\<lambda>_ rows batch. Some (rows @ batch)), leaseAfter = (\<lambda>_. True),
      createId = (\<lambda>_. example_id), clockNow = int\<rparr>"

lemma example_maps:
  assumes "0 \<le> n" "n \<le> 1"
  shows "mapEntries (createId example_ports) k example_id example_id t
    [example_entry\<lparr>pOrdinal := Integral n\<rparr>] =
    Inr [mapEntry example_id example_id example_id t (example_entry\<lparr>pOrdinal := Integral n\<rparr>)]"
proof -
  have "UUID_PATTERN example_id" by (simp add: example_id_def eval_defs)
  moreover have "parseCalendarDate (js ''2024-01-02'') = Inr (js ''2024-01-02'')"
    "parseCalendarDate (js ''2024-02-29'') = Inr (js ''2024-02-29'')"
    by (simp_all add: parseCalendarDate_def eval_defs decval_def)
  moreover have "parseCweList [js ''CWE-79''] = Inr [js ''CWE-79'']"
    by (simp add: parseCweList_def parseCweIdentifier_def eval_defs catalog_defs)
  ultimately show ?thesis
    using assms
    by (simp add: example_ports_def example_entry_def mapEntry_def validateKevNormalizedEntryRecord_def
        isNonNegativeSafeInteger_iff MAX_SAFE_INTEGER_def parseUntrustedPlainText_def
        INTELLIGENCE_TEXT_FIELD_MAX_BYTES_def js_def)
qed

lemma example_pass:
  assumes "(n = 0 \<and> cursor = 0) \<or> (n = 1 \<and> cursor = 1)"
  shows "\<exists>rows'. stageBatchPass example_ports 1 example_id example_id
    [example_entry\<lparr>pOrdinal := Integral 0\<rparr>, example_entry\<lparr>pOrdinal := Integral 1\<rparr>] k ids cursor rows =
    (Inr 1, rows')"
  using assms example_maps [of 0 ids "int k"] example_maps [of 1 ids "int k"]
  by (auto simp: stageBatchPass_def slice_def example_ports_def)

lemma staging_resumes_witness:
  "\<exists>rows. stageLoop example_ports 1 example_id example_id
      [example_entry\<lparr>pOrdinal := Integral 0\<rparr>, example_entry\<lparr>pOrdinal := Integral 1\<rparr>] 0 0 0 [] =
      Some (Inr (), rows) \<and> length rows = 2"
proof -
  let ?entries = "[example_entry\<lparr>pOrdinal := Integral 0\<rparr>, example_entry\<lparr>pOrdinal := Integral 1\<rparr>]"
  have "appends_batches example_ports" by (simp add: appends_batches_def example_ports_def)
  moreover have "dense_ordinals ?entries" by (simp add: dense_ordinals_def)
  moreover have "verifyDenseStagedPrefix [] ?entries 0 = Inr 0" by (simp add: verifyDenseStagedPrefix_def)
  ultimately obtain res rows where loop:
    "stageLoop example_ports 1 example_id example_id ?entries 0 0 0 [] = Some (res, rows)"
    "res = Inr () \<longrightarrow> length rows = 2"
    using staging_resumes [of example_ports ?entries 1 "[]" 0 0 example_id example_id 0 0]
    by fastforce
  obtain r1 where r1: "stageBatchPass example_ports 1 example_id example_id ?entries 0 0 0 [] = (Inr 1, r1)"
    using example_pass [of 0 0 0 0 "[]"] by auto
  obtain r2 where r2: "stageBatchPass example_ports 1 example_id example_id ?entries 1 1 1 r1 = (Inr 1, r2)"
    using example_pass [of 1 1 1 1 r1] by auto
  have "stageLoop example_ports 1 example_id example_id ?entries 0 0 0 [] = Some (Inr (), r2)"
    using r1 r2
    by (simp add: stageLoop.simps [of _ _ _ _ _ 0] stageLoop.simps [of _ _ _ _ _ "Suc 0"]
        stageLoop.simps [of _ _ _ _ _ "Suc (Suc 0)"])
  with loop show ?thesis by auto
qed

end
