(* ===== verification/KevNormalize.thy ===== *)
theory KevNormalize
  imports SyncStaging JsonDocuments
begin

text \<open>
  The KEV catalog normalizer, \<^verbatim>\<open>packages/vulnerability-intelligence/src/normalize-kev.ts\<close>: from a parsed
  document to the entries the synchronization stages. The document is a value \<^verbatim>\<open>JSON.parse\<close> returned, and
  a missing field is \<open>None\<close> (\<^verbatim>\<open>undefined\<close>). \<open>isoOfInstant\<close> is \<^verbatim>\<open>new Date(text).toISOString()\<close> on a text of the
  pattern, \<open>None\<close> where the date is invalid: how a day past the end of its month is read is left to
  the engine.
\<close>

subsection \<open>Results and limits\<close>

record kevParserThreadFailure =
  kfDisposition :: intelligenceFailureDisposition
  kfCategory :: intelligenceSafeFailureCategory
  kfCode :: intelligenceSafeFailureCode

definition kevParserFailure :: "intelligenceSafeFailureCode \<Rightarrow> kevParserThreadFailure" where
  "kevParserFailure code =
     (let classification = classifyIntelligenceSafeFailure code
      in \<lparr>kfDisposition = fcDisposition classification, kfCategory = fcCategory classification,
          kfCode = code\<rparr>)"

record kevParserLimits =
  klMaxBytes :: nat
  klJsonMaxDepth :: nat
  klJsonMaxNodes :: nat
  klJsonMaxStringBytes :: nat
  klMaxVulnerabilityCount :: nat
  klMaxTextFieldBytes :: nat
  klMaxCweCount :: nat
  klMaxSerializedResultBytes :: int

text \<open>A result that is a failure is returned at once, otherwise its value goes on.\<close>

definition and_then :: "'e + 'a \<Rightarrow> ('a \<Rightarrow> 'e + 'b) \<Rightarrow> 'e + 'b" where
  "and_then r f = (case r of Inl e \<Rightarrow> Inl e | Inr x \<Rightarrow> f x)"

lemma and_then_simps [simp]: "and_then (Inl e) f = Inl e" "and_then (Inr x) f = f x"
  by (simp_all add: and_then_def)

lemma and_then_Inr_iff: "and_then r f = Inr y \<longleftrightarrow> (\<exists>x. r = Inr x \<and> f x = Inr y)"
  by (cases r) simp_all

lemma and_then_Inl_iff:
  "and_then r f = Inl e \<longleftrightarrow> r = Inl e \<or> (\<exists>x. r = Inr x \<and> f x = Inl e)"
  by (cases r) simp_all

subsection \<open>Fields\<close>

definition hasAsciiC0OrDel :: "jstr \<Rightarrow> bool" where
  "hasAsciiC0OrDel text \<longleftrightarrow> list_ex (\<lambda>code. code < 32 \<or> code = 127) text"

definition compareNormalizedCve :: "jstr \<Rightarrow> jstr \<Rightarrow> int" where
  "compareNormalizedCve left right =
     (if js_less left right then -1 else if js_less right left then 1 else 0)"

definition asRecord :: "json option \<Rightarrow> jsonRecord option" where
  "asRecord data = (case data of Some (JObject entries) \<Rightarrow> Some entries | _ \<Rightarrow> None)"

record ransomwareMapping =
  rmUse :: knownRansomwareCampaignUse
  rmRaw :: "jstr option"
  rmUnrecognized :: bool

definition mapRansomware :: "json option \<Rightarrow> kevParserThreadFailure + ransomwareMapping" where
  "mapRansomware raw =
     (case raw of
        Some (JString s) \<Rightarrow>
          if s = js ''Known'' then Inr \<lparr>rmUse = ransomware_known, rmRaw = None, rmUnrecognized = False\<rparr>
          else if s = js ''Unknown''
          then Inr \<lparr>rmUse = ransomware_unknown, rmRaw = None, rmUnrecognized = False\<rparr>
          else if length s = 0 then Inl (kevParserFailure schema_invalid)
          else if utf8ByteLength s > INTELLIGENCE_RAW_RANSOMWARE_MAX_LENGTH
          then Inl (kevParserFailure text_field_limit)
          else Inr \<lparr>rmUse = ransomware_other, rmRaw = Some s, rmUnrecognized = True\<rparr>
      | _ \<Rightarrow> Inl (kevParserFailure schema_invalid))"

text \<open>The set \<^verbatim>\<open>seen\<close> and the list \<^verbatim>\<open>cwes\<close> of the source have the same elements.\<close>

fun parseExactCweLoop :: "jstr list \<Rightarrow> json list \<Rightarrow> kevParserThreadFailure + jstr list" where
  "parseExactCweLoop cwes [] = Inr cwes"
| "parseExactCweLoop cwes (JString item # items) =
     (if \<not> CANONICAL_CWE_PATTERN item then Inl (kevParserFailure schema_invalid)
      else if item \<in> set cwes then Inl (kevParserFailure schema_invalid)
      else parseExactCweLoop (cwes @ [item]) items)"
| "parseExactCweLoop cwes (_ # items) = Inl (kevParserFailure schema_invalid)"

definition parseExactCwes ::
  "json option \<Rightarrow> kevParserLimits \<Rightarrow> kevParserThreadFailure + jstr list" where
  "parseExactCwes raw limits =
     (case raw of
        None \<Rightarrow> Inr []
      | Some (JArray items) \<Rightarrow>
          if length items > klMaxCweCount limits then Inl (kevParserFailure cwe_count_limit)
          else parseExactCweLoop [] items
      | Some _ \<Rightarrow> Inl (kevParserFailure schema_invalid))"

definition parseRequiredText ::
  "json option \<Rightarrow> kevParserLimits \<Rightarrow> kevParserThreadFailure + jstr" where
  "parseRequiredText data limits =
     (case data of
        Some (JString s) \<Rightarrow>
          (case parseUntrustedPlainText s (klMaxTextFieldBytes limits) of
             Inl _ \<Rightarrow> Inl (kevParserFailure text_field_limit)
           | Inr text \<Rightarrow> Inr text)
      | _ \<Rightarrow> Inl (kevParserFailure schema_invalid))"

definition parseOptionalNotes ::
  "json option \<Rightarrow> kevParserLimits \<Rightarrow> kevParserThreadFailure + jstr option" where
  "parseOptionalNotes data limits =
     (case data of
        None \<Rightarrow> Inr None
      | Some (JString s) \<Rightarrow>
          (case parseUntrustedPlainText s (klMaxTextFieldBytes limits) of
             Inl _ \<Rightarrow> Inl (kevParserFailure text_field_limit)
           | Inr text \<Rightarrow> Inr (Some text))
      | Some _ \<Rightarrow> Inl (kevParserFailure schema_invalid))"

definition parseExactCve :: "json option \<Rightarrow> kevParserThreadFailure + jstr" where
  "parseExactCve data =
     (case data of
        Some (JString s) \<Rightarrow>
          if \<not> CANONICAL_CVE_PATTERN s then Inl (kevParserFailure malformed_cve) else Inr s
      | _ \<Rightarrow> Inl (kevParserFailure schema_invalid))"

definition parseEntryCalendarDate :: "json option \<Rightarrow> kevParserThreadFailure + jstr" where
  "parseEntryCalendarDate data =
     (case data of
        Some (JString s) \<Rightarrow>
          if \<not> CALENDAR_DATE_PATTERN s then Inl (kevParserFailure schema_invalid)
          else (case parseCalendarDate s of
              Inl _ \<Rightarrow> Inl (kevParserFailure schema_invalid)
            | Inr date \<Rightarrow> Inr date)
      | _ \<Rightarrow> Inl (kevParserFailure schema_invalid))"

subsection \<open>Entries\<close>

text \<open>\<^verbatim>\<open>EntryDraft\<close> is an entry without its ordinal; here it is an entry whose ordinal is still 0.\<close>

definition normalizeEntry ::
  "json \<Rightarrow> kevParserLimits \<Rightarrow> kevParserThreadFailure + kevParsedEntry \<times> bool" where
  "normalizeEntry data limits =
     (case asRecord (Some data) of
        None \<Rightarrow> Inl (kevParserFailure schema_invalid)
      | Some entry \<Rightarrow>
          and_then (parseExactCve (getProp entry ''cveID'')) (\<lambda>normalizedCve.
          and_then (parseRequiredText (getProp entry ''vendorProject'') limits) (\<lambda>vendorProject.
          and_then (parseRequiredText (getProp entry ''product'') limits) (\<lambda>product.
          and_then (parseRequiredText (getProp entry ''vulnerabilityName'') limits) (\<lambda>vulnerabilityName.
          and_then (parseEntryCalendarDate (getProp entry ''dateAdded'')) (\<lambda>dateAdded.
          and_then (parseRequiredText (getProp entry ''shortDescription'') limits) (\<lambda>shortDescription.
          and_then (parseRequiredText (getProp entry ''requiredAction'') limits) (\<lambda>requiredAction.
          and_then (parseEntryCalendarDate (getProp entry ''dueDate'')) (\<lambda>dueDate.
          and_then (mapRansomware (getProp entry ''knownRansomwareCampaignUse'')) (\<lambda>ransomware.
          and_then (parseOptionalNotes (getProp entry ''notes'') limits) (\<lambda>notes.
          and_then (parseExactCwes (getProp entry ''cwes'') limits) (\<lambda>cwes.
            Inr (\<lparr>pOrdinal = Integral 0, pNormalizedCve = normalizedCve, pVendorProject = vendorProject,
                  pProduct = product, pVulnerabilityName = vulnerabilityName, pDateAdded = dateAdded,
                  pShortDescription = shortDescription, pRequiredAction = requiredAction,
                  pDueDate = dueDate, pKnownRansomwareCampaignUse = rmUse ransomware,
                  pRawKnownRansomwareCampaignUse = rmRaw ransomware, pNotes = notes, pCwes = cwes\<rparr>,
                 rmUnrecognized ransomware)))))))))))))"

text \<open>The set \<^verbatim>\<open>seenCves\<close> holds the CVEs of \<^verbatim>\<open>drafts\<close>; \<open>n\<close> is \<^verbatim>\<open>unrecognizedRansomwareCount\<close>.\<close>

fun normalizeEntryLoop ::
  "kevParserLimits \<Rightarrow> kevParsedEntry list \<Rightarrow> nat \<Rightarrow> json list \<Rightarrow>
   kevParserThreadFailure + kevParsedEntry list \<times> nat" where
  "normalizeEntryLoop limits drafts n [] = Inr (drafts, n)"
| "normalizeEntryLoop limits drafts n (item # items) =
     (case normalizeEntry item limits of
        Inl failure \<Rightarrow> Inl failure
      | Inr (entry, unrecognized) \<Rightarrow>
          if pNormalizedCve entry \<in> set (map pNormalizedCve drafts)
          then Inl (kevParserFailure duplicate_cve)
          else normalizeEntryLoop limits (drafts @ [entry]) (if unrecognized then n + 1 else n) items)"

subsection \<open>The catalog\<close>

definition parseCatalogVersion :: "json option \<Rightarrow> kevParserThreadFailure + jstr" where
  "parseCatalogVersion data =
     (case data of
        Some (JString s) \<Rightarrow>
          if length s = 0 then Inl (kevParserFailure catalog_version_missing)
          else if hasAsciiC0OrDel s then Inl (kevParserFailure schema_invalid)
          else if length s > INTELLIGENCE_CATALOG_VERSION_MAX_LENGTH
          then Inl (kevParserFailure schema_invalid)
          else Inr s
      | _ \<Rightarrow> Inl (kevParserFailure schema_invalid))"

text \<open>
  \<^verbatim>\<open>/^\d{4}-\d{2}-\d{2}T\d{2}:\d{2}:\d{2}(?:\.\d{1,9})?Z$/\<close>, the fixed part as a template with 0 for a
  digit.
\<close>

definition UTC_INSTANT_PATTERN :: "jstr \<Rightarrow> bool" where
  [eval_defs]: "UTC_INSTANT_PATTERN s \<longleftrightarrow>
     list_all2 (\<lambda>t c. if t = 48 then is_digit c else t = c) (js ''0000-00-00T00:00:00'') (take 19 s) \<and>
     (drop 19 s = js ''Z'' \<or>
      (21 < length s \<and> length s \<le> 30 \<and> s ! 19 = 46 \<and> last s = 90 \<and>
       list_all is_digit (butlast (drop 20 s))))"

definition parseCatalogReleasedAt ::
  "(jstr \<Rightarrow> jstr option) \<Rightarrow> json option \<Rightarrow> kevParserThreadFailure + jstr" where
  "parseCatalogReleasedAt isoOfInstant data =
     (case data of
        Some (JString s) \<Rightarrow>
          if \<not> UTC_INSTANT_PATTERN s then Inl (kevParserFailure catalog_release_date_invalid)
          else (case isoOfInstant s of
              None \<Rightarrow> Inl (kevParserFailure catalog_release_date_invalid)
            | Some instant \<Rightarrow> Inr instant)
      | _ \<Rightarrow> Inl (kevParserFailure catalog_release_date_invalid))"

record normalizedCatalogDraft =
  ncCatalogVersion :: jstr
  ncCatalogReleasedAt :: jstr
  ncEntries :: "kevParsedEntry list"
  ncWarnings :: "kevParserWarningSummary list"

text \<open>\<^verbatim>\<open>drafts.map((entry, ordinal) => ...)\<close>.\<close>

definition withOrdinals :: "kevParsedEntry list \<Rightarrow> kevParsedEntry list" where
  "withOrdinals drafts =
     map (\<lambda>(ordinal, entry). entry\<lparr>pOrdinal := Integral (int ordinal)\<rparr>) (List.enumerate 0 drafts)"

definition ransomwareWarnings :: "nat \<Rightarrow> kevParserWarningSummary list" where
  "ransomwareWarnings n =
     (if n > 0 then [\<lparr>pwCode = js ''unrecognized_ransomware_value'', pwCount = Integral (int n)\<rparr>] else [])"

definition normalizeVulnerabilities ::
  "kevParserLimits \<Rightarrow> json list \<Rightarrow>
   kevParserThreadFailure + kevParsedEntry list \<times> kevParserWarningSummary list" where
  "normalizeVulnerabilities limits vulnerabilities =
     (case normalizeEntryLoop limits [] 0 vulnerabilities of
        Inl failure \<Rightarrow> Inl failure
      | Inr (drafts, n) \<Rightarrow>
          Inr (withOrdinals (cmp_sort (\<lambda>l r. compareNormalizedCve (pNormalizedCve l) (pNormalizedCve r)) drafts),
               ransomwareWarnings n))"

definition checkCatalogCount ::
  "kevParserLimits \<Rightarrow> json option \<Rightarrow> nat \<Rightarrow> kevParserThreadFailure + unit" where
  "checkCatalogCount limits announced found =
     (if found > klMaxVulnerabilityCount limits then Inl (kevParserFailure vulnerability_count_limit)
      else case announced of
        Some (JNumber n) \<Rightarrow>
          if \<not> num_is_safe_integer n \<or> num_int n < 0 then Inl (kevParserFailure schema_invalid)
          else if num_int n > int (klMaxVulnerabilityCount limits)
          then Inl (kevParserFailure vulnerability_count_limit)
          else if num_int n \<noteq> int found then Inl (kevParserFailure count_mismatch)
          else Inr ()
      | _ \<Rightarrow> Inl (kevParserFailure schema_invalid))"

definition normalizeKevCatalogDocument ::
  "(jstr \<Rightarrow> jstr option) \<Rightarrow> json \<Rightarrow> kevParserLimits \<Rightarrow>
   kevParserThreadFailure + normalizedCatalogDraft" where
  "normalizeKevCatalogDocument isoOfInstant document limits =
     (case asRecord (Some document) of
        None \<Rightarrow> Inl (kevParserFailure schema_invalid)
      | Some members \<Rightarrow>
          and_then (parseCatalogVersion (getProp members ''catalogVersion'')) (\<lambda>catalogVersion.
          and_then (parseCatalogReleasedAt isoOfInstant (getProp members ''dateReleased'')) (\<lambda>catalogReleasedAt.
          (case getProp members ''vulnerabilities'' of
             Some (JArray vulnerabilities) \<Rightarrow>
               and_then (checkCatalogCount limits (getProp members ''count'') (length vulnerabilities)) (\<lambda>_.
               and_then (normalizeVulnerabilities limits vulnerabilities) (\<lambda>(entries, warnings).
                 Inr \<lparr>ncCatalogVersion = catalogVersion, ncCatalogReleasedAt = catalogReleasedAt,
                      ncEntries = entries, ncWarnings = warnings\<rparr>))
           | _ \<Rightarrow> Inl (kevParserFailure schema_invalid)))))"

subsection \<open>The order of the entries\<close>

lemma compareNormalizedCve_lex: "compareNormalizedCve = lex_cmp linord_cmp"
proof (intro ext)
  fix l r :: jstr
  have "lex_cmp linord_cmp l r \<in> {-1, 0, 1}" by (rule lex_signs) (simp add: linord_cmp_def)
  then show "compareNormalizedCve l r = lex_cmp linord_cmp l r"
    using jstr_order.cmp_flip [of l r] by (auto simp: compareNormalizedCve_def js_less_def)
qed

interpretation cve_order: preorder_cmp
  "\<lambda>l r. compareNormalizedCve (pNormalizedCve l) (pNormalizedCve r)"
  unfolding compareNormalizedCve_lex
  by (rule preorder_by_key) (rule jstr_order.preorder_cmp_axioms)

abbreviation cve_sort :: "kevParsedEntry list \<Rightarrow> kevParsedEntry list" where
  "cve_sort \<equiv> cmp_sort (\<lambda>l r. compareNormalizedCve (pNormalizedCve l) (pNormalizedCve r))"

lemma compare_zero_iff: "compareNormalizedCve l r = 0 \<longleftrightarrow> l = r"
  by (simp add: compareNormalizedCve_lex jstr_order.cmp_zero_iff)

lemma compare_le_iff: "compareNormalizedCve l r \<le> 0 \<longleftrightarrow> l = r \<or> js_less l r"
  using compare_zero_iff [of l r]
  by (auto simp: compareNormalizedCve_lex js_less_def)

text \<open>Entries with distinct CVEs sort into one strictly increasing list, whatever order they arrive in.\<close>

lemma sorted_wrt_distinct:
  "sorted_wrt P xs \<Longrightarrow> distinct xs \<Longrightarrow> sorted_wrt (\<lambda>x y. P x y \<and> x \<noteq> y) xs"
  by (induction xs) auto

lemma cve_sort_strict:
  assumes "distinct (map pNormalizedCve drafts)"
  shows "sorted_wrt js_less (map pNormalizedCve (cve_sort drafts))"
proof -
  have "distinct (map pNormalizedCve (cve_sort drafts))"
    using assms by (metis mset_cmp_sort mset_eq_imp_distinct_iff mset_map)
  moreover have "sorted_wrt (\<lambda>l r. compareNormalizedCve l r \<le> 0) (map pNormalizedCve (cve_sort drafts))"
    using cve_order.sorted_cmp_sort [of drafts] by (simp add: sorted_cmp_def sorted_wrt_map)
  ultimately show ?thesis
    using sorted_wrt_distinct [of "\<lambda>l r. compareNormalizedCve l r \<le> 0"]
    by (intro sorted_wrt_mono_rel [of _ "\<lambda>l r. compareNormalizedCve l r \<le> 0 \<and> l \<noteq> r" js_less])
      (auto simp: compare_le_iff)
qed

lemma cve_sort_perm:
  assumes "distinct (map pNormalizedCve xs)" "mset xs = mset ys"
  shows "cve_sort xs = cve_sort ys"
proof (rule cve_order.sorted_unique_on)
  show "x = y" if "x \<in> set (cve_sort xs)" "y \<in> set (cve_sort xs)"
    "compareNormalizedCve (pNormalizedCve x) (pNormalizedCve y) = 0" for x y
    using that assms(1) by (auto simp: compare_zero_iff distinct_map dest: inj_onD)
qed (use assms in \<open>simp_all add: cve_order.sorted_cmp_sort\<close>)

lemma withOrdinals_nth:
  "i < length drafts \<Longrightarrow> withOrdinals drafts ! i = (drafts ! i)\<lparr>pOrdinal := Integral (int i)\<rparr>"
  by (simp add: withOrdinals_def nth_enumerate_eq)

lemma length_withOrdinals [simp]: "length (withOrdinals drafts) = length drafts"
  by (simp add: withOrdinals_def)

lemma withOrdinals_dense: "dense_ordinals (withOrdinals drafts)"
  unfolding dense_ordinals_def by (rule nth_equalityI) (simp_all add: withOrdinals_nth)

lemma withOrdinals_map:
  "(\<And>e n. g (e\<lparr>pOrdinal := n\<rparr>) = g e) \<Longrightarrow> map g (withOrdinals drafts) = map g drafts"
  by (rule nth_equalityI) (simp_all add: withOrdinals_nth)

lemma withOrdinals_in_set:
  "e \<in> set (withOrdinals drafts) \<Longrightarrow> \<exists>d i. d \<in> set drafts \<and> e = d\<lparr>pOrdinal := Integral (int i)\<rparr>"
  by (metis in_set_conv_nth length_withOrdinals withOrdinals_nth)

lemma filter_key_perm:
  assumes "mset (map g xs) = mset (map g ys)"
  shows "length (filter (\<lambda>x. P (g x)) xs) = length (filter (\<lambda>x. P (g x)) ys)"
proof -
  have "length (filter (\<lambda>x. P (g x)) zs) = size (filter_mset P (mset (map g zs)))" for zs
    by (induction zs) auto
  with assms show ?thesis by metis
qed

subsection \<open>The loop over the vulnerabilities\<close>

text \<open>What one item contributes when the loop accepts it.\<close>

definition entryOf :: "kevParserLimits \<Rightarrow> json \<Rightarrow> kevParsedEntry \<times> bool" where
  "entryOf limits item = projr (normalizeEntry item limits)"

definition all_normalize :: "kevParserLimits \<Rightarrow> json list \<Rightarrow> bool" where
  "all_normalize limits items \<longleftrightarrow> list_all (\<lambda>item. is_ok (normalizeEntry item limits)) items"

lemma normalizeEntryLoop_iff:
  assumes "distinct (map pNormalizedCve drafts)"
  shows "normalizeEntryLoop limits drafts n items = Inr (out, m) \<longleftrightarrow>
    all_normalize limits items \<and> out = drafts @ map (fst \<circ> entryOf limits) items \<and>
    m = n + length (filter (snd \<circ> entryOf limits) items) \<and> distinct (map pNormalizedCve out)"
  using assms
proof (induction items arbitrary: drafts n)
  case (Cons item items)
  show ?case
  proof (cases "normalizeEntry item limits")
    case (Inl f)
    then show ?thesis by (simp add: all_normalize_def)
  next
    case (Inr r)
    obtain entry u where r: "r = (entry, u)" by (cases r)
    show ?thesis
    proof (cases "pNormalizedCve entry \<in> set (map pNormalizedCve drafts)")
      case True
      then show ?thesis using Inr r by (auto simp: entryOf_def)
    next
      case False
      with Cons.prems have "distinct (map pNormalizedCve (drafts @ [entry]))" by auto
      from Cons.IH [OF this, of "if u then n + 1 else n"] show ?thesis
        using False Inr r by (auto simp: entryOf_def all_normalize_def)
    qed
  qed
qed (auto simp: all_normalize_def)

lemma normalizeVulnerabilities_iff:
  "normalizeVulnerabilities limits items = Inr (entries, warnings) \<longleftrightarrow>
     all_normalize limits items \<and> distinct (map (pNormalizedCve \<circ> fst \<circ> entryOf limits) items) \<and>
     entries = withOrdinals (cve_sort (map (fst \<circ> entryOf limits) items)) \<and>
     warnings = ransomwareWarnings (length (filter (snd \<circ> entryOf limits) items))"
proof -
  have "normalizeVulnerabilities limits items = Inr (entries, warnings) \<longleftrightarrow>
      (\<exists>drafts n. normalizeEntryLoop limits [] 0 items = Inr (drafts, n) \<and>
        entries = withOrdinals (cve_sort drafts) \<and> warnings = ransomwareWarnings n)"
    by (auto simp: normalizeVulnerabilities_def split: sum.splits)
  then show ?thesis by (auto simp: normalizeEntryLoop_iff comp_assoc)
qed

subsection \<open>What an accepted entry satisfies\<close>

definition entry_within :: "kevParserLimits \<Rightarrow> kevParsedEntry \<Rightarrow> bool" where
  "entry_within limits e \<longleftrightarrow>
     CANONICAL_CVE_PATTERN (pNormalizedCve e) \<and>
     list_all (\<lambda>t. utf8ByteLength t \<le> klMaxTextFieldBytes limits)
       ([pVendorProject e, pProduct e, pVulnerabilityName e, pShortDescription e, pRequiredAction e] @
        (case pNotes e of None \<Rightarrow> [] | Some n \<Rightarrow> [n])) \<and>
     parseCalendarDate (pDateAdded e) = Inr (pDateAdded e) \<and>
     parseCalendarDate (pDueDate e) = Inr (pDueDate e) \<and>
     length (pCwes e) \<le> klMaxCweCount limits \<and> distinct (pCwes e) \<and>
     list_all CANONICAL_CWE_PATTERN (pCwes e) \<and>
     (pKnownRansomwareCampaignUse e = ransomware_other \<longleftrightarrow> pRawKnownRansomwareCampaignUse e \<noteq> None)"

lemma parseExactCweLoop_ok:
  "parseExactCweLoop cwes items = Inr out \<Longrightarrow> distinct cwes \<Longrightarrow> list_all CANONICAL_CWE_PATTERN cwes \<Longrightarrow>
   distinct out \<and> list_all CANONICAL_CWE_PATTERN out \<and> length out = length cwes + length items"
  by (induction cwes items rule: parseExactCweLoop.induct) (auto split: if_splits)

lemma parseExactCwes_ok:
  "parseExactCwes raw limits = Inr out \<Longrightarrow>
   distinct out \<and> list_all CANONICAL_CWE_PATTERN out \<and> length out \<le> klMaxCweCount limits"
  using parseExactCweLoop_ok [of "[]" _ out]
  by (auto simp: parseExactCwes_def split: option.splits json.splits if_splits)

lemma parseRequiredText_iff:
  "parseRequiredText data limits = Inr t \<longleftrightarrow>
     data = Some (JString t) \<and> utf8ByteLength t \<le> klMaxTextFieldBytes limits"
  by (auto simp: parseRequiredText_def parseUntrustedPlainText_def
      split: option.splits json.splits if_splits sum.splits)

lemma parseOptionalNotes_ok:
  "parseOptionalNotes data limits = Inr (Some t) \<Longrightarrow> utf8ByteLength t \<le> klMaxTextFieldBytes limits"
  by (auto simp: parseOptionalNotes_def parseUntrustedPlainText_def
      split: option.splits json.splits if_splits sum.splits)

lemma parseExactCve_iff:
  "parseExactCve data = Inr c \<longleftrightarrow> data = Some (JString c) \<and> CANONICAL_CVE_PATTERN c"
  by (auto simp: parseExactCve_def split: option.splits json.splits)

lemma parseEntryCalendarDate_ok: "parseEntryCalendarDate data = Inr d \<Longrightarrow> parseCalendarDate d = Inr d"
  by (auto simp: parseEntryCalendarDate_def parseCalendarDate_def Let_def
      split: option.splits json.splits sum.splits if_splits)

lemma mapRansomware_ok:
  "mapRansomware raw = Inr m \<Longrightarrow>
     (rmUse m = ransomware_other \<longleftrightarrow> rmRaw m \<noteq> None) \<and> (rmUnrecognized m \<longleftrightarrow> rmUse m = ransomware_other)"
  by (auto simp: mapRansomware_def split: option.splits json.splits if_splits)

lemmas field_results = parseExactCve_iff parseRequiredText_iff

lemma normalizeEntry_ok:
  assumes "normalizeEntry item limits = Inr (e, u)"
  shows "entry_within limits e" "u \<longleftrightarrow> pKnownRansomwareCampaignUse e = ransomware_other"
    "\<exists>members. item = JObject members \<and> getProp members ''cveID'' = Some (JString (pNormalizedCve e))"
proof -
  obtain members m where item: "item = JObject members"
    and cve: "getProp members ''cveID'' = Some (JString (pNormalizedCve e))"
      "CANONICAL_CVE_PATTERN (pNormalizedCve e)"
    and texts: "utf8ByteLength (pVendorProject e) \<le> klMaxTextFieldBytes limits"
      "utf8ByteLength (pProduct e) \<le> klMaxTextFieldBytes limits"
      "utf8ByteLength (pVulnerabilityName e) \<le> klMaxTextFieldBytes limits"
      "utf8ByteLength (pShortDescription e) \<le> klMaxTextFieldBytes limits"
      "utf8ByteLength (pRequiredAction e) \<le> klMaxTextFieldBytes limits"
    and dates: "parseEntryCalendarDate (getProp members ''dateAdded'') = Inr (pDateAdded e)"
      "parseEntryCalendarDate (getProp members ''dueDate'') = Inr (pDueDate e)"
    and ransom: "mapRansomware (getProp members ''knownRansomwareCampaignUse'') = Inr m"
      "pKnownRansomwareCampaignUse e = rmUse m" "pRawKnownRansomwareCampaignUse e = rmRaw m"
      "u = rmUnrecognized m"
    and optional: "parseOptionalNotes (getProp members ''notes'') limits = Inr (pNotes e)"
    and cwes: "parseExactCwes (getProp members ''cwes'') limits = Inr (pCwes e)"
    using assms
    by (auto simp: normalizeEntry_def asRecord_def and_then_Inr_iff field_results
        split: option.splits json.splits)
  show "entry_within limits e"
    using cve texts parseEntryCalendarDate_ok [OF dates(1)] parseEntryCalendarDate_ok [OF dates(2)]
      mapRansomware_ok [OF ransom(1)] ransom(2,3) parseExactCwes_ok [OF cwes] optional
      parseOptionalNotes_ok
    by (auto simp: entry_within_def split: option.splits)
  show "u \<longleftrightarrow> pKnownRansomwareCampaignUse e = ransomware_other"
    using mapRansomware_ok [OF ransom(1)] ransom by simp
  show "\<exists>members. item = JObject members \<and> getProp members ''cveID'' = Some (JString (pNormalizedCve e))"
    using item cve(1) by simp
qed

lemma all_normalize_entryOf:
  "all_normalize limits items \<Longrightarrow> item \<in> set items \<Longrightarrow> normalizeEntry item limits = Inr (entryOf limits item)"
  by (auto simp: all_normalize_def list_all_iff is_ok_iff entryOf_def)

lemma entry_within_ordinal [simp]: "entry_within limits (e\<lparr>pOrdinal := n\<rparr>) \<longleftrightarrow> entry_within limits e"
  by (simp add: entry_within_def)

lemma sorted_entries_within:
  assumes "all_normalize limits items"
  shows "list_all (entry_within limits) (withOrdinals (cve_sort (map (fst \<circ> entryOf limits) items)))"
proof -
  have "entry_within limits (fst (entryOf limits item))" if "item \<in> set items" for item
    using normalizeEntry_ok(1) [of item limits] all_normalize_entryOf [OF assms that]
    by (metis prod.collapse)
  then show ?thesis by (fastforce simp: list_all_iff dest: withOrdinals_in_set)
qed

lemma checkCatalogCount_iff:
  "checkCatalogCount limits announced found = Inr u \<longleftrightarrow>
     found \<le> klMaxVulnerabilityCount limits \<and> int found \<le> MAX_SAFE_INTEGER \<and>
     announced = Some (JNumber (Integral (int found)))"
proof -
  have "num_is_safe_integer n \<and> num_int n = int found \<longleftrightarrow>
      n = Integral (int found) \<and> int found \<le> MAX_SAFE_INTEGER" for n
    by (cases n) auto
  then show ?thesis
    by (auto simp: checkCatalogCount_def split: option.splits json.splits)
qed

lemma document_normalized:
  assumes "normalizeKevCatalogDocument isoOf (JObject members) limits = Inr draft"
  obtains items where "getProp members ''vulnerabilities'' = Some (JArray items)"
    "getProp members ''count'' = Some (JNumber (Integral (int (length items))))"
    "length items \<le> klMaxVulnerabilityCount limits" "int (length items) \<le> MAX_SAFE_INTEGER"
    "normalizeVulnerabilities limits items = Inr (ncEntries draft, ncWarnings draft)"
proof (cases "getProp members ''vulnerabilities''")
  case None
  with assms show ?thesis
    by (simp add: normalizeKevCatalogDocument_def asRecord_def and_then_Inr_iff)
next
  case (Some vulns)
  show ?thesis
  proof (cases vulns)
    case (JArray items)
    with assms Some that [of items] show ?thesis
      by (auto simp: normalizeKevCatalogDocument_def asRecord_def and_then_Inr_iff checkCatalogCount_iff)
  qed (use assms Some in \<open>simp_all add: normalizeKevCatalogDocument_def asRecord_def and_then_Inr_iff\<close>)
qed

lemma kev_catalog_facts:
  assumes "normalizeKevCatalogDocument isoOf (JObject members) limits = Inr draft"
    and "getProp members ''vulnerabilities'' = Some (JArray items)"
  shows "dense_ordinals (ncEntries draft) \<and>
    sorted_wrt js_less (map pNormalizedCve (ncEntries draft)) \<and>
    mset (map (Some \<circ> JString \<circ> pNormalizedCve) (ncEntries draft)) =
      mset (map (\<lambda>item. case item of JObject ms \<Rightarrow> getProp ms ''cveID'' | _ \<Rightarrow> None) items) \<and>
    getProp members ''count'' = Some (JNumber (Integral (int (length (ncEntries draft))))) \<and>
    length (ncEntries draft) \<le> klMaxVulnerabilityCount limits \<and>
    list_all (entry_within limits) (ncEntries draft) \<and>
    ncWarnings draft = ransomwareWarnings
      (length (filter (\<lambda>e. pKnownRansomwareCampaignUse e = ransomware_other) (ncEntries draft)))"
proof -
  have ok: "normalizeVulnerabilities limits items = Inr (ncEntries draft, ncWarnings draft)"
    and count: "getProp members ''count'' = Some (JNumber (Integral (int (length items))))"
      "length items \<le> klMaxVulnerabilityCount limits"
    using document_normalized [OF assms(1)] assms(2) by auto
  let ?drafts = "map (fst \<circ> entryOf limits) items"
  have all: "all_normalize limits items" and dist: "distinct (map pNormalizedCve ?drafts)"
    and entries: "ncEntries draft = withOrdinals (cve_sort ?drafts)"
    and warnings: "ncWarnings draft = ransomwareWarnings (length (filter (snd \<circ> entryOf limits) items))"
    using ok by (auto simp: normalizeVulnerabilities_iff comp_assoc)
  have item: "\<exists>ms. item = JObject ms \<and>
      getProp ms ''cveID'' = Some (JString (pNormalizedCve (fst (entryOf limits item))))"
    "snd (entryOf limits item) \<longleftrightarrow> pKnownRansomwareCampaignUse (fst (entryOf limits item)) = ransomware_other"
    if "item \<in> set items" for item
  proof -
    have "normalizeEntry item limits = Inr (fst (entryOf limits item), snd (entryOf limits item))"
      using all_normalize_entryOf [OF all that] by simp
    from normalizeEntry_ok(2,3) [OF this] show "\<exists>ms. item = JObject ms \<and>
        getProp ms ''cveID'' = Some (JString (pNormalizedCve (fst (entryOf limits item))))"
      "snd (entryOf limits item) \<longleftrightarrow> pKnownRansomwareCampaignUse (fst (entryOf limits item)) = ransomware_other"
      by blast+
  qed
  have cves: "map (Some \<circ> JString \<circ> pNormalizedCve) ?drafts =
      map (\<lambda>item. case item of JObject ms \<Rightarrow> getProp ms ''cveID'' | _ \<Rightarrow> None) items"
    using item(1) by fastforce
  have perm: "mset (map g (ncEntries draft)) = mset (map g ?drafts)"
    if "\<And>e n. g (e\<lparr>pOrdinal := n\<rparr>) = g e" for g :: "kevParsedEntry \<Rightarrow> 'c"
    unfolding entries using withOrdinals_map [of g, OF that] by (metis mset_cmp_sort mset_map)
  have "length (filter (\<lambda>e. pKnownRansomwareCampaignUse e = ransomware_other) (ncEntries draft)) =
      length (filter (\<lambda>e. pKnownRansomwareCampaignUse e = ransomware_other) ?drafts)"
    by (rule filter_key_perm [OF perm]) simp
  also have "\<dots> = length (filter (snd \<circ> entryOf limits) items)"
    using item(2) by (auto simp: filter_map comp_def intro!: arg_cong [where f = length] filter_cong)
  finally have "ncWarnings draft = ransomwareWarnings
      (length (filter (\<lambda>e. pKnownRansomwareCampaignUse e = ransomware_other) (ncEntries draft)))"
    by (simp add: warnings)
  moreover have "mset (map (Some \<circ> JString \<circ> pNormalizedCve) (ncEntries draft)) =
      mset (map (\<lambda>item. case item of JObject ms \<Rightarrow> getProp ms ''cveID'' | _ \<Rightarrow> None) items)"
    unfolding cves [symmetric] by (rule perm) simp
  moreover have "sorted_wrt js_less (map pNormalizedCve (ncEntries draft))"
    using cve_sort_strict [OF dist] withOrdinals_map [of pNormalizedCve] by (simp add: entries)
  ultimately show ?thesis
    using withOrdinals_dense sorted_entries_within [OF all] count by (simp add: entries)
qed

text \<open>
  C39. A normalized catalog is what the synchronization stages: one entry for every item of the
  document and no other, in strictly increasing order of CVE with the ordinals 0, 1, 2 and so on, as many as
  the document announces and no more than the limit, each with a canonical CVE, real calendar dates,
  texts and distinct canonical CWEs within the limits, and the raw ransomware text kept exactly when it
  was not recognized; the single warning counts those entries.
\<close>
theorem kev_catalog_normalized:
  assumes "normalizeKevCatalogDocument isoOf (JObject members) limits = Inr draft"
    and "getProp members ''vulnerabilities'' = Some (JArray items)"
  shows "dense_ordinals (ncEntries draft) \<and>
    sorted_wrt js_less (map pNormalizedCve (ncEntries draft)) \<and>
    mset (map (Some \<circ> JString \<circ> pNormalizedCve) (ncEntries draft)) =
      mset (map (\<lambda>item. case item of JObject ms \<Rightarrow> getProp ms ''cveID'' | _ \<Rightarrow> None) items) \<and>
    getProp members ''count'' = Some (JNumber (Integral (int (length (ncEntries draft))))) \<and>
    length (ncEntries draft) \<le> klMaxVulnerabilityCount limits \<and>
    list_all (entry_within limits) (ncEntries draft) \<and>
    ncWarnings draft = ransomwareWarnings
      (length (filter (\<lambda>e. pKnownRansomwareCampaignUse e = ransomware_other) (ncEntries draft)))"
  using assms by (rule kev_catalog_facts)

text \<open>
  The order in which the provider lists the vulnerabilities does not matter: two catalogs with
  the same items normalize alike, to the same entries with the same ordinals and the same warnings, or
  both fail.
\<close>
theorem kev_catalog_order_irrelevant:
  assumes "mset items = mset items'"
  shows "normalizeVulnerabilities limits items = Inr r \<longleftrightarrow> normalizeVulnerabilities limits items' = Inr r"
proof -
  have half: "normalizeVulnerabilities limits ys = Inr (entries, warnings)"
    if perm: "mset xs = mset ys" and ok: "normalizeVulnerabilities limits xs = Inr (entries, warnings)"
    for xs ys entries warnings
  proof -
    let ?e = "fst \<circ> entryOf limits" and ?w = "snd \<circ> entryOf limits"
    have dist: "distinct (map pNormalizedCve (map ?e xs))"
      using ok by (simp add: normalizeVulnerabilities_iff comp_assoc)
    have "mset (map ?e xs) = mset (map ?e ys)" using perm by simp
    then have "cve_sort (map ?e xs) = cve_sort (map ?e ys)" by (rule cve_sort_perm [OF dist])
    moreover have "length (filter ?w xs) = length (filter ?w ys)"
      using filter_key_perm [of "entryOf limits" xs ys snd] perm by (simp add: comp_def)
    moreover have "distinct (map pNormalizedCve (map ?e ys))"
      using dist perm by (metis mset_eq_imp_distinct_iff mset_map)
    moreover have "all_normalize limits xs \<longleftrightarrow> all_normalize limits ys"
      using perm by (auto simp: all_normalize_def list_all_iff dest: mset_eq_setD)
    ultimately show ?thesis using ok by (simp add: normalizeVulnerabilities_iff comp_assoc)
  qed
  obtain entries warnings where "r = (entries, warnings)" by (cases r)
  with half [of items items'] half [of items' items] assms show ?thesis by metis
qed

subsection \<open>From the parser to the staged rows\<close>

lemma canonical_cwe_ascii:
  assumes "CANONICAL_CWE_PATTERN s"
  shows "isAscii s" "length s \<le> 12"
proof -
  obtain n where n: "js_split 45 s = [js ''CWE'', n]" "length n \<le> 8" "list_all is_digit n"
    using assms by (auto simp: CANONICAL_CWE_PATTERN_def split: list.splits)
  then have "s = js ''CWE'' @ 45 # n" using join_js_split [of 45 s] by simp
  with n show "isAscii s" "length s \<le> 12"
    by (auto simp: isAscii_def list_all_iff is_digit_def js_def)
qed

lemma parseCweLoop_total:
  "list_all CANONICAL_CWE_PATTERN cwes \<Longrightarrow> \<exists>out. parseCweLoop parsed cwes = Inr out"
proof (induction parsed cwes rule: parseCweLoop.induct)
  case (2 parsed v rest)
  then have "parseCweIdentifier v = Inr v"
    using canonical_cwe_ascii [of v] by (simp add: parseCweIdentifier_def INTELLIGENCE_CWE_MAX_LENGTH_def)
  with 2 show ?case by simp
qed simp

text \<open>The limits a parser request may carry are inside the ones the row validator applies.\<close>

definition limits_accepted :: "kevParserLimits \<Rightarrow> bool" where
  "limits_accepted limits \<longleftrightarrow> klMaxTextFieldBytes limits \<le> INTELLIGENCE_TEXT_FIELD_MAX_BYTES \<and>
     klMaxCweCount limits \<le> INTELLIGENCE_CWE_MAX_COUNT"

lemma within_validates:
  assumes "entry_within limits e" "limits_accepted limits" "isNonNegativeSafeInteger (pOrdinal e)"
    and "UUID_PATTERN i" "UUID_PATTERN g" "UUID_PATTERN s"
  shows "validateKevNormalizedEntryRecord (mapEntry i g s t e) = Inr (mapEntry i g s t e)"
proof -
  have plain: "parseUntrustedPlainText x INTELLIGENCE_TEXT_FIELD_MAX_BYTES = Inr x"
    if "utf8ByteLength x \<le> klMaxTextFieldBytes limits" for x
    using that assms(2) by (simp add: parseUntrustedPlainText_def limits_accepted_def)
  obtain out where "parseCweList (pCwes e) = Inr out"
    using assms(1,2) parseCweLoop_total [of "pCwes e" "[]"]
    by (auto simp: parseCweList_def entry_within_def limits_accepted_def)
  with assms plain show ?thesis
    by (auto simp: validateKevNormalizedEntryRecord_def mapEntry_def entry_within_def
        split: option.splits)
qed

lemma mapEntries_total:
  assumes "\<forall>e \<in> set es. entry_within limits e \<and> isNonNegativeSafeInteger (pOrdinal e)"
    and "limits_accepted limits" "\<forall>k. UUID_PATTERN (newId k)" "UUID_PATTERN g" "UUID_PATTERN s"
  shows "\<exists>rows. mapEntries newId k g s t es = Inr rows"
  using assms(1)
proof (induction es arbitrary: k)
  case (Cons e es)
  then obtain rows where "mapEntries newId (Suc k) g s t es = Inr rows" by fastforce
  moreover have "validateKevNormalizedEntryRecord (mapEntry (newId k) g s t e) =
      Inr (mapEntry (newId k) g s t e)"
    using Cons.prems assms by (intro within_validates) auto
  ultimately show ?case by simp
qed simp

lemma matches_cve: "parsedEntryMatchesStaged e r \<Longrightarrow> entNormalizedCve r = pNormalizedCve e"
  unfolding parsedEntryMatchesStaged_def by (simp split: if_splits)

text \<open>Ports that keep the lease, find the run staging this generation and store every batch.\<close>

definition cooperative :: "stagingPorts \<Rightarrow> jstr \<Rightarrow> bool" where
  "cooperative ports g \<longleftrightarrow>
     (\<forall>k. leaseBefore ports k \<and> leaseAfter ports k \<and> UUID_PATTERN (createId ports k) \<and>
        reloadedRun ports k = Some (run_staging, Some g)) \<and>
     (\<forall>k rows batch. stageBatch ports k rows batch = Some (rows @ batch))"

lemma stageLoop_failed_pass:
  assumes "stageLoop ports m g s entries k ids cursor rows = Some (Inl code, rows')"
  shows "\<exists>k ids cursor rows. stageBatchPass ports m g s entries k ids cursor rows = (Inl code, rows')"
proof -
  have "fst res = Inl code \<longrightarrow>
      (\<exists>k ids cursor rows. stageBatchPass ports m g s entries k ids cursor rows = (Inl code, snd res))"
    if "stageLoop ports m g s entries k ids cursor rows = Some res" for res
    using that
    by (rule stageLoop.raw_induct [where P = "\<lambda>ports m g s entries k ids cursor rows res.
          fst res = Inl code \<longrightarrow> (\<exists>k ids cursor rows.
            stageBatchPass ports m g s entries k ids cursor rows = (Inl code, snd res))", rotated])
      (auto split: if_splits prod.splits sum.splits, blast)
  from this [OF assms] show ?thesis by simp
qed

lemma cooperative_pass:
  assumes "cooperative ports g" "limits_accepted limits" "UUID_PATTERN g" "UUID_PATTERN s"
    and "\<forall>e \<in> set entries. entry_within limits e \<and> isNonNegativeSafeInteger (pOrdinal e)"
  shows "stageBatchPass ports m g s entries k ids cursor rows \<noteq> (Inl code, rows')"
proof -
  have "set (slice cursor (cursor + m) entries) \<subseteq> set entries"
    unfolding slice_def by (meson set_drop_subset set_take_subset subset_trans)
  then obtain mapped where
    "mapEntries (createId ports) ids g s (clockNow ports k) (slice cursor (cursor + m) entries) = Inr mapped"
    using assms mapEntries_total [of "slice cursor (cursor + m) entries" limits "createId ports" g s]
    unfolding cooperative_def by blast
  then show ?thesis using assms(1) by (simp add: stageBatchPass_def cooperative_def)
qed

text \<open>
  C19. From the document to the stored rows: whatever catalog the parser accepts under limits a
  request may carry, staging its entries into an empty generation stores every one of them when the
  lease holds and the store takes the batches, in any batch size. No accepted entry is ever refused by the row
  validator, and the rows are the catalog in order: row \<open>i\<close> has ordinal \<open>i\<close> and the CVEs increase
  strictly.
\<close>
theorem parsed_catalog_stages:
  assumes parsed: "normalizeKevCatalogDocument isoOf document limits = Inr draft"
    and limits: "limits_accepted limits" and ports: "cooperative ports g" and size: "0 < maxRows"
    and ids: "UUID_PATTERN g" "UUID_PATTERN s"
  shows "\<exists>rows. stageLoop ports maxRows g s (ncEntries draft) k n 0 [] = Some (Inr (), rows) \<and>
    map entNormalizedCve rows = map pNormalizedCve (ncEntries draft) \<and>
    map entOrdinal rows = map (\<lambda>i. Integral (int i)) [0..<length (ncEntries draft)] \<and>
    sorted_wrt js_less (map entNormalizedCve rows)"
proof -
  let ?es = "ncEntries draft"
  obtain members where doc: "document = JObject members"
    using parsed by (cases document) (auto simp: normalizeKevCatalogDocument_def asRecord_def)
  obtain items where items: "getProp members ''vulnerabilities'' = Some (JArray items)"
    "getProp members ''count'' = Some (JNumber (Integral (int (length items))))"
    "int (length items) \<le> MAX_SAFE_INTEGER"
    using document_normalized [OF parsed [unfolded doc]] by metis
  have dense: "dense_ordinals ?es" and sorted: "sorted_wrt js_less (map pNormalizedCve ?es)"
    and within: "list_all (entry_within limits) ?es" and len: "length ?es = length items"
    using kev_catalog_facts [OF parsed [unfolded doc] items(1)] items(2) by auto
  have "\<forall>e \<in> set ?es. entry_within limits e \<and> isNonNegativeSafeInteger (pOrdinal e)"
    using within dense_ordinals_nth [OF dense] items(3) len
    by (auto simp: list_all_iff in_set_conv_nth isNonNegativeSafeInteger_iff)
  note never = cooperative_pass [OF ports limits ids this]
  have "appends_batches ports" using ports by (auto simp: appends_batches_def cooperative_def)
  then obtain res rows where loop: "stageLoop ports maxRows g s ?es k n 0 [] = Some (res, rows)"
    and rows: "dense_rows 0 rows ?es" "res = Inr () \<longrightarrow> length rows = length ?es"
    using stageLoop_dense [OF _ dense size, of ports "[]" g s k n] by (auto simp: dense_rows_def)
  have res: "res = Inr ()"
    using loop stageLoop_failed_pass [of ports maxRows g s ?es k n 0 "[]" _ rows] never
    by (cases res) auto
  have "map entNormalizedCve rows = map pNormalizedCve ?es"
    by (rule nth_equalityI) (use rows res in \<open>auto simp: dense_rows_def dest: matches_cve\<close>)
  moreover have "map entOrdinal rows = map (\<lambda>i. Integral (int i)) [0..<length ?es]"
    by (rule nth_equalityI) (use rows res in \<open>auto simp: dense_rows_def\<close>)
  ultimately show ?thesis using loop res sorted by auto
qed

subsection \<open>Witnesses\<close>

definition example_limits :: kevParserLimits where
  "example_limits =
     \<lparr>klMaxBytes = 9000, klJsonMaxDepth = 9, klJsonMaxNodes = 900, klJsonMaxStringBytes = 900,
      klMaxVulnerabilityCount = 10, klMaxTextFieldBytes = 100, klMaxCweCount = 4,
      klMaxSerializedResultBytes = 9000\<rparr>"

definition example_item :: "string \<Rightarrow> string \<Rightarrow> json" where
  "example_item cve use =
     JObject [(js ''cveID'', JString (js cve)), (js ''vendorProject'', JString (js ''v'')),
       (js ''product'', JString (js ''p'')), (js ''vulnerabilityName'', JString (js ''n'')),
       (js ''dateAdded'', JString (js ''2024-01-02'')), (js ''shortDescription'', JString (js ''d'')),
       (js ''requiredAction'', JString (js ''a'')), (js ''dueDate'', JString (js ''2024-02-29'')),
       (js ''knownRansomwareCampaignUse'', JString (js use))]"

definition example_items :: "json list" where
  "example_items = [example_item ''CVE-2024-0002'' ''Maybe'', example_item ''CVE-2024-0001'' ''Known'']"

definition example_catalog :: jsonRecord where
  "example_catalog =
     [(js ''catalogVersion'', JString (js ''2024.01.02'')),
      (js ''dateReleased'', JString (js ''2024-01-02T03:04:05Z'')),
      (js ''count'', JNumber (Integral 2)), (js ''vulnerabilities'', JArray example_items)]"

definition example_draft_entry :: "string \<Rightarrow> knownRansomwareCampaignUse \<Rightarrow> jstr option \<Rightarrow> int \<Rightarrow> kevParsedEntry" where
  "example_draft_entry cve use raw n =
     \<lparr>pOrdinal = Integral n, pNormalizedCve = js cve, pVendorProject = js ''v'', pProduct = js ''p'',
      pVulnerabilityName = js ''n'', pDateAdded = js ''2024-01-02'', pShortDescription = js ''d'',
      pRequiredAction = js ''a'', pDueDate = js ''2024-02-29'', pKnownRansomwareCampaignUse = use,
      pRawKnownRansomwareCampaignUse = raw, pNotes = None, pCwes = []\<rparr>"

lemma example_item_normalizes:
  "normalizeEntry (example_item ''CVE-2024-0002'' ''Maybe'') example_limits =
     Inr (example_draft_entry ''CVE-2024-0002'' ransomware_other (Some (js ''Maybe'')) 0, True)"
  "normalizeEntry (example_item ''CVE-2024-0001'' ''Known'') example_limits =
     Inr (example_draft_entry ''CVE-2024-0001'' ransomware_known None 0, False)"
proof -
  have dates: "parseEntryCalendarDate (Some (JString (js ''2024-01-02''))) = Inr (js ''2024-01-02'')"
    "parseEntryCalendarDate (Some (JString (js ''2024-02-29''))) = Inr (js ''2024-02-29'')"
    by (simp_all add: parseEntryCalendarDate_def parseCalendarDate_def eval_defs decval_def)
  have cves: "CANONICAL_CVE_PATTERN (js ''CVE-2024-0001'')" "CANONICAL_CVE_PATTERN (js ''CVE-2024-0002'')"
    by (simp_all add: eval_defs)
  have len: "utf8ByteLength (js [c]) \<le> 100" for c by (simp add: js_def)
  have maybe: "utf8ByteLength (js ''Maybe'') \<le> 64" by (simp add: js_def)
  show "normalizeEntry (example_item ''CVE-2024-0002'' ''Maybe'') example_limits =
     Inr (example_draft_entry ''CVE-2024-0002'' ransomware_other (Some (js ''Maybe'')) 0, True)"
    "normalizeEntry (example_item ''CVE-2024-0001'' ''Known'') example_limits =
     Inr (example_draft_entry ''CVE-2024-0001'' ransomware_known None 0, False)"
    using dates cves len maybe
    by (simp_all add: normalizeEntry_def example_item_def asRecord_def getProp_def parseExactCve_def
        parseRequiredText_def parseUntrustedPlainText_def parseOptionalNotes_def parseExactCwes_def
        mapRansomware_def example_limits_def example_draft_entry_def
        INTELLIGENCE_RAW_RANSOMWARE_MAX_LENGTH_def not_less)
qed

lemma example_items_normalize:
  "normalizeVulnerabilities example_limits example_items =
     Inr ([example_draft_entry ''CVE-2024-0001'' ransomware_known None 0,
           example_draft_entry ''CVE-2024-0002'' ransomware_other (Some (js ''Maybe'')) 1],
          ransomwareWarnings 1)"
  by (simp add: normalizeVulnerabilities_def example_items_def example_item_normalizes withOrdinals_def
      example_draft_entry_def compareNormalizedCve_def js_less_def js_def)

lemma kev_catalog_order_irrelevant_witness:
  "normalizeVulnerabilities example_limits (rev example_items) =
     Inr ([example_draft_entry ''CVE-2024-0001'' ransomware_known None 0,
           example_draft_entry ''CVE-2024-0002'' ransomware_other (Some (js ''Maybe'')) 1],
          ransomwareWarnings 1)"
  using kev_catalog_order_irrelevant [of "rev example_items" example_items example_limits]
    example_items_normalize by simp

lemma example_catalog_normalizes:
  "\<exists>draft. normalizeKevCatalogDocument Some (JObject example_catalog) example_limits = Inr draft \<and>
     length (ncEntries draft) = 2"
proof -
  have "parseCatalogVersion (Some (JString (js ''2024.01.02''))) = Inr (js ''2024.01.02'')"
    by (simp add: parseCatalogVersion_def hasAsciiC0OrDel_def catalog_defs js_def)
  moreover have "parseCatalogReleasedAt Some (Some (JString (js ''2024-01-02T03:04:05Z''))) =
      Inr (js ''2024-01-02T03:04:05Z'')"
    by (simp add: parseCatalogReleasedAt_def eval_defs)
  ultimately show ?thesis
    using example_items_normalize
    by (simp add: normalizeKevCatalogDocument_def asRecord_def example_catalog_def getProp_def
        checkCatalogCount_def example_limits_def example_items_def MAX_SAFE_INTEGER_def)
qed

lemma kev_catalog_normalized_witness:
  "\<exists>draft. normalizeKevCatalogDocument Some (JObject example_catalog) example_limits = Inr draft \<and>
     dense_ordinals (ncEntries draft) \<and> sorted_wrt js_less (map pNormalizedCve (ncEntries draft))"
proof -
  have "getProp example_catalog ''vulnerabilities'' = Some (JArray example_items)"
    by (simp add: example_catalog_def getProp_def)
  with example_catalog_normalizes kev_catalog_normalized show ?thesis by blast
qed

lemma parsed_catalog_stages_witness:
  "\<exists>draft rows. normalizeKevCatalogDocument Some (JObject example_catalog) example_limits = Inr draft \<and>
     stageLoop example_ports 1 example_id example_id (ncEntries draft) 0 0 0 [] = Some (Inr (), rows) \<and>
     map entOrdinal rows = [Integral 0, Integral 1]"
proof -
  obtain draft where draft: "normalizeKevCatalogDocument Some (JObject example_catalog) example_limits = Inr draft"
    "length (ncEntries draft) = 2" using example_catalog_normalizes by blast
  have "UUID_PATTERN example_id" by (simp add: example_id_def eval_defs)
  moreover have "limits_accepted example_limits"
    by (simp add: limits_accepted_def example_limits_def catalog_defs)
  ultimately show ?thesis
    using parsed_catalog_stages [OF draft(1), of example_ports example_id 1 example_id 0 0] draft
    by (auto simp: cooperative_def example_ports_def numeral_2_eq_2)
qed

end
