(* ===== verification/SqlTables.thy ===== *)
theory SqlTables
  imports DomainResult
begin

text \<open>
  The statements the persistence adapters of \<^verbatim>\<open>packages/database/src\<close> send, on a table that is the list of its
  rows. \<open>updateMany\<close> is the client call of this name or an \<^verbatim>\<open>UPDATE ... WHERE\<close>, with the number of rows it
  changed; \<open>findFirst\<close> returns the first row a condition selects. The locale \<open>keyed_table\<close> states what a
  table with a primary key promises and proves what every adapter relies on; each adapter
  interprets it on its own row type.
\<close>

definition updateMany :: "('r \<Rightarrow> bool) \<Rightarrow> ('r \<Rightarrow> 'r) \<Rightarrow> 'r list \<Rightarrow> 'r list \<times> nat" where
  "updateMany whr change rows =
     (map (\<lambda>r. if whr r then change r else r) rows, length (filter whr rows))"

definition findFirst :: "('r \<Rightarrow> bool) \<Rightarrow> 'r list \<Rightarrow> 'r option" where
  "findFirst whr rows = find whr rows"

lemma updateMany_rows [simp]:
  "fst (updateMany whr change rows) = map (\<lambda>r. if whr r then change r else r) rows"
  by (simp add: updateMany_def)

lemma updateMany_none: "snd (updateMany whr change rows) = 0 \<longleftrightarrow> (\<forall>r \<in> set rows. \<not> whr r)"
  by (simp add: updateMany_def filter_empty_conv)

lemma updateMany_unchanged: "\<forall>r \<in> set rows. \<not> whr r \<Longrightarrow> fst (updateMany whr change rows) = rows"
  by (simp add: map_idI)

lemma findFirst_SomeD: "findFirst whr rows = Some r \<Longrightarrow> r \<in> set rows \<and> whr r"
  by (auto simp: findFirst_def find_Some_iff)

lemma findFirst_None_iff: "findFirst whr rows = None \<longleftrightarrow> (\<forall>r \<in> set rows. \<not> whr r)"
  by (auto simp: findFirst_def find_None_iff)

text \<open>Tables whose rows differ in a key that the changes considered do not touch.\<close>

locale keyed_table =
  fixes key :: "'r \<Rightarrow> 'k" and keeps :: "('r \<Rightarrow> 'r) \<Rightarrow> bool"
  assumes keeps_key: "keeps change \<Longrightarrow> key (change r) = key r"
begin

definition keyed :: "'r list \<Rightarrow> bool" where
  "keyed rows \<longleftrightarrow> distinct (map key rows)"

lemma update_keys: "keeps change \<Longrightarrow> map key (fst (updateMany whr change rows)) = map key rows"
  by (simp add: keeps_key)

lemma keyed_update: "keeps change \<Longrightarrow> keyed rows \<Longrightarrow> keyed (fst (updateMany whr change rows))"
  unfolding keyed_def by (simp only: update_keys)

lemma keyed_same: "keyed rows \<Longrightarrow> r \<in> set rows \<Longrightarrow> r' \<in> set rows \<Longrightarrow> key r = key r' \<Longrightarrow> r = r'"
  by (auto simp: keyed_def distinct_map dest: inj_onD)

lemma keyed_find:
  assumes "keyed rows" "r \<in> set rows" "whr r" "\<And>r'. whr r' \<Longrightarrow> key r' = key r"
  shows "findFirst whr rows = Some r"
proof (cases "findFirst whr rows")
  case None
  with assms show ?thesis by (auto simp: findFirst_None_iff)
next
  case (Some r')
  then have "r' \<in> set rows" "whr r'" by (simp_all add: findFirst_SomeD)
  with assms keyed_same [of rows r' r] Some show ?thesis by blast
qed

text \<open>A statement that selects by key leaves the row as it was or changes just that row.\<close>

lemma update_row:
  assumes "r \<in> set rows" "keeps change"
  shows "(if whr r then change r else r) \<in> set (fst (updateMany whr change rows))"
  using assms by auto

lemma updated_row_source:
  assumes "r' \<in> set (fst (updateMany whr change rows))"
  obtains r where "r \<in> set rows" "r' = (if whr r then change r else r)"
  using assms by auto

end

end
