(* ===== verification/JobStore.thy ===== *)
theory JobStore
  imports SqlTables TextPatterns
begin

text \<open>
  The background job table: \<^verbatim>\<open>packages/database/src/background-job-execution.ts\<close>. Every method is the
  statement it sends on the list of rows, and the answer it returns. Identifiers the database
  generates and its clock are arguments. A lease is held by the worker identifier in the row until its
  expiry time.
\<close>

subsection \<open>Rows and answers\<close>

datatype backgroundJobStatus =
    job_pending | job_queued | job_running | job_succeeded | job_failed | job_dead_lettered
  | job_cancelled

definition TERMINAL_JOB_STATUSES :: "backgroundJobStatus list" where
  [catalog_defs]: "TERMINAL_JOB_STATUSES = [job_succeeded, job_failed, job_dead_lettered, job_cancelled]"

record backgroundJobRecord =
  bjId :: jstr
  bjOrganizationId :: "jstr option"
  bjOutboxEventId :: "jstr option"
  bjJobType :: jstr
  bjStatus :: backgroundJobStatus
  bjAttempt :: int
  bjStartedAt :: "int option"
  bjLeaseExpiresAt :: "int option"
  bjCompletedAt :: "int option"
  bjFailureCategory :: "jstr option"
  bjFailureCode :: "jstr option"
  bjWorkerIdentifier :: "jstr option"
  bjCreatedAt :: int

record queuedBackgroundJob =
  qjId :: jstr
  qjOrganizationId :: "jstr option"
  qjJobType :: jstr
  qjAttempt :: int

definition toQueued :: "backgroundJobRecord \<Rightarrow> queuedBackgroundJob" where
  "toQueued row =
     \<lparr>qjId = bjId row, qjOrganizationId = bjOrganizationId row, qjJobType = bjJobType row,
      qjAttempt = bjAttempt row\<rparr>"

record backgroundJobExecutionClaim =
  bcJobId :: jstr
  bcWorkerIdentifier :: jstr
  bcLeaseExpiresAt :: int
  bcAttempt :: int

definition jobConflict :: "string \<Rightarrow> appError" where
  "jobConflict text = \<lparr>errCode = err_conflict, errMessage = js text\<rparr>"

definition JOB_NOT_FOUND :: appError where
  "JOB_NOT_FOUND = \<lparr>errCode = err_not_found, errMessage = js ''Background job was not found.''\<rparr>"

subsection \<open>The statements\<close>

text \<open>
  \<^verbatim>\<open>enqueueQueued\<close>: the unique index on \<^verbatim>\<open>outbox_event_id\<close> refuses a second job for an event, and the existing
  row is returned instead.
\<close>

definition enqueueQueued ::
  "jstr \<Rightarrow> int \<Rightarrow> jstr option \<Rightarrow> jstr \<Rightarrow> jstr \<Rightarrow> backgroundJobRecord list \<Rightarrow>
   queuedBackgroundJob \<times> backgroundJobRecord list" where
  "enqueueQueued newId createdAt organizationId outboxEventId jobType rows =
     (case findFirst (\<lambda>r. bjOutboxEventId r = Some outboxEventId) rows of
        None \<Rightarrow>
          (let row = \<lparr>bjId = newId, bjOrganizationId = organizationId,
                 bjOutboxEventId = Some outboxEventId, bjJobType = jobType, bjStatus = job_queued,
                 bjAttempt = 0, bjStartedAt = None, bjLeaseExpiresAt = None, bjCompletedAt = None,
                 bjFailureCategory = None, bjFailureCode = None, bjWorkerIdentifier = None,
                 bjCreatedAt = createdAt\<rparr>
           in (toQueued row, rows @ [row]))
      | Some existing \<Rightarrow> (toQueued existing, rows))"

definition findByOutboxEventId ::
  "jstr option \<Rightarrow> jstr \<Rightarrow> backgroundJobRecord list \<Rightarrow> backgroundJobRecord option" where
  "findByOutboxEventId organizationId outboxEventId rows =
     findFirst (\<lambda>r. bjOutboxEventId r = Some outboxEventId \<and> bjOrganizationId r = organizationId) rows"

definition findJobById ::
  "jstr option \<Rightarrow> jstr \<Rightarrow> backgroundJobRecord list \<Rightarrow> backgroundJobRecord option" where
  "findJobById organizationId jobId rows =
     findFirst (\<lambda>r. bjId r = jobId \<and> bjOrganizationId r = organizationId) rows"

text \<open>\<^verbatim>\<open>"lease_expires_at" < now\<close> is not true of \<^verbatim>\<open>NULL\<close>.\<close>

definition leaseExpired :: "int \<Rightarrow> int option \<Rightarrow> bool" where
  "leaseExpired now lease \<longleftrightarrow> (case lease of None \<Rightarrow> False | Some t \<Rightarrow> t < now)"

definition claimableJob :: "jstr option \<Rightarrow> jstr \<Rightarrow> int \<Rightarrow> backgroundJobRecord \<Rightarrow> bool" where
  "claimableJob organizationId jobId now r \<longleftrightarrow>
     bjId r = jobId \<and> bjOrganizationId r = organizationId \<and>
     (bjStatus r = job_queued \<or> bjStatus r = job_running \<and> leaseExpired now (bjLeaseExpiresAt r))"

definition claimJobRow :: "jstr \<Rightarrow> int \<Rightarrow> int \<Rightarrow> backgroundJobRecord \<Rightarrow> backgroundJobRecord" where
  "claimJobRow worker now lease r =
     r\<lparr>bjStatus := job_running, bjWorkerIdentifier := Some worker, bjLeaseExpiresAt := Some lease,
       bjStartedAt := (case bjStartedAt r of None \<Rightarrow> Some now | Some t \<Rightarrow> Some t),
       bjAttempt := bjAttempt r + 1\<rparr>"

definition claimExecution ::
  "jstr option \<Rightarrow> jstr \<Rightarrow> jstr \<Rightarrow> int \<Rightarrow> int \<Rightarrow> backgroundJobRecord list \<Rightarrow>
   (appError + backgroundJobExecutionClaim) \<times> backgroundJobRecord list" where
  "claimExecution organizationId jobId worker now lease rows =
     (case filter (claimableJob organizationId jobId now) rows of
        [] \<Rightarrow> (Inl (jobConflict ''Background job was not claimed.''), rows)
      | row # _ \<Rightarrow>
          (let claimed = claimJobRow worker now lease row
           in (Inr \<lparr>bcJobId = bjId claimed, bcWorkerIdentifier = worker, bcLeaseExpiresAt = lease,
                    bcAttempt = bjAttempt claimed\<rparr>,
               fst (updateMany (claimableJob organizationId jobId now) (claimJobRow worker now lease) rows))))"

text \<open>The condition of every statement of the lease holder.\<close>

definition heldJob :: "jstr option \<Rightarrow> jstr \<Rightarrow> jstr \<Rightarrow> backgroundJobRecord \<Rightarrow> bool" where
  "heldJob organizationId jobId worker r \<longleftrightarrow>
     bjId r = jobId \<and> bjOrganizationId r = organizationId \<and> bjWorkerIdentifier r = Some worker \<and>
     bjStatus r = job_running"

definition renewLease ::
  "jstr option \<Rightarrow> jstr \<Rightarrow> jstr \<Rightarrow> int \<Rightarrow> backgroundJobRecord list \<Rightarrow>
   (appError + unit) \<times> backgroundJobRecord list" where
  "renewLease organizationId jobId worker lease rows =
     (let (rows', n) = updateMany (heldJob organizationId jobId worker)
            (\<lambda>r. r\<lparr>bjLeaseExpiresAt := Some lease\<rparr>) rows
      in if n = 0 then (Inl (jobConflict ''Background job lease was not renewed.''), rows')
         else (Inr (), rows'))"

definition retryJobRow :: "jstr \<Rightarrow> jstr \<Rightarrow> backgroundJobRecord \<Rightarrow> backgroundJobRecord" where
  "retryJobRow category code r =
     r\<lparr>bjStatus := job_queued, bjWorkerIdentifier := None, bjLeaseExpiresAt := None,
       bjFailureCategory := Some category, bjFailureCode := Some code\<rparr>"

definition markRetry ::
  "jstr option \<Rightarrow> jstr \<Rightarrow> jstr \<Rightarrow> jstr \<Rightarrow> jstr \<Rightarrow> backgroundJobRecord list \<Rightarrow>
   (appError + queuedBackgroundJob) \<times> backgroundJobRecord list" where
  "markRetry organizationId jobId worker category code rows =
     (let (rows', n) = updateMany (heldJob organizationId jobId worker) (retryJobRow category code) rows
      in if n = 0 then (Inl (jobConflict ''Background job was not marked for retry.''), rows')
         else case findJobById organizationId jobId rows' of
             None \<Rightarrow> (Inl JOB_NOT_FOUND, rows')
           | Some row \<Rightarrow> (Inr (toQueued row), rows'))"

definition succeedJobRow :: "int \<Rightarrow> backgroundJobRecord \<Rightarrow> backgroundJobRecord" where
  "succeedJobRow completedAt r =
     r\<lparr>bjStatus := job_succeeded, bjCompletedAt := Some completedAt, bjLeaseExpiresAt := None,
       bjFailureCategory := None, bjFailureCode := None\<rparr>"

definition failJobRow :: "jstr \<Rightarrow> jstr \<Rightarrow> int \<Rightarrow> backgroundJobRecord \<Rightarrow> backgroundJobRecord" where
  "failJobRow category code completedAt r =
     r\<lparr>bjStatus := job_failed, bjCompletedAt := Some completedAt, bjLeaseExpiresAt := None,
       bjFailureCategory := Some category, bjFailureCode := Some code\<rparr>"

text \<open>
  \<^verbatim>\<open>markSucceeded\<close> and \<^verbatim>\<open>markTerminalFailure\<close> share their shape: a statement that changes no row is still
  answered well when the job already has the status asked for.
\<close>

definition finishJob ::
  "backgroundJobStatus \<Rightarrow> (backgroundJobRecord \<Rightarrow> backgroundJobRecord) \<Rightarrow> string \<Rightarrow> jstr option \<Rightarrow>
   jstr \<Rightarrow> jstr \<Rightarrow> backgroundJobRecord list \<Rightarrow>
   (appError + backgroundJobRecord) \<times> backgroundJobRecord list" where
  "finishJob status change refusal organizationId jobId worker rows =
     (let (rows', n) = updateMany (heldJob organizationId jobId worker) change rows
      in if n = 0 then
           (case findJobById organizationId jobId rows' of
              Some terminal \<Rightarrow>
                if bjStatus terminal = status then (Inr terminal, rows')
                else (Inl (jobConflict refusal), rows')
            | None \<Rightarrow> (Inl (jobConflict refusal), rows'))
         else
           (case findJobById organizationId jobId rows' of
              None \<Rightarrow> (Inl JOB_NOT_FOUND, rows')
            | Some row \<Rightarrow> (Inr row, rows')))"

definition markSucceeded ::
  "jstr option \<Rightarrow> jstr \<Rightarrow> jstr \<Rightarrow> int \<Rightarrow> backgroundJobRecord list \<Rightarrow>
   (appError + backgroundJobRecord) \<times> backgroundJobRecord list" where
  "markSucceeded organizationId jobId worker completedAt rows =
     finishJob job_succeeded (succeedJobRow completedAt) ''Background job was not marked succeeded.''
       organizationId jobId worker rows"

definition markTerminalFailure ::
  "jstr option \<Rightarrow> jstr \<Rightarrow> jstr \<Rightarrow> jstr \<Rightarrow> jstr \<Rightarrow> int \<Rightarrow> backgroundJobRecord list \<Rightarrow>
   (appError + backgroundJobRecord) \<times> backgroundJobRecord list" where
  "markTerminalFailure organizationId jobId worker category code completedAt rows =
     finishJob job_failed (failJobRow category code completedAt) ''Background job was not marked failed.''
       organizationId jobId worker rows"

text \<open>\<open>dedupeOf\<close> joins the outbox table: the dedupe key of an event, if the event exists.\<close>

definition findIdempotentTerminal ::
  "(jstr \<Rightarrow> jstr option) \<Rightarrow> jstr option \<Rightarrow> jstr \<Rightarrow> jstr \<Rightarrow> backgroundJobRecord list \<Rightarrow>
   backgroundJobRecord option" where
  "findIdempotentTerminal dedupeOf organizationId jobType dedupeKey rows =
     findFirst (\<lambda>r. bjOrganizationId r = organizationId \<and> bjJobType r = jobType \<and>
       bjStatus r \<in> set TERMINAL_JOB_STATUSES \<and>
       (case bjOutboxEventId r of None \<Rightarrow> False | Some e \<Rightarrow> dedupeOf e = Some dedupeKey)) rows"

subsection \<open>Sequences of statements\<close>

text \<open>
  Any number of relays and workers act on the table. A trace is the list of the statements in the
  order the database runs them; each is atomic. The identifier an insertion draws is new.
\<close>

datatype jobOp =
    OpEnqueue jstr int "jstr option" jstr jstr
  | OpClaim "jstr option" jstr jstr int int
  | OpRenew "jstr option" jstr jstr int
  | OpRetry "jstr option" jstr jstr jstr jstr
  | OpSucceed "jstr option" jstr jstr int
  | OpFail "jstr option" jstr jstr jstr jstr int

fun execJobOp :: "jobOp \<Rightarrow> backgroundJobRecord list \<Rightarrow> backgroundJobRecord list" where
  "execJobOp (OpEnqueue i t org event type) rows = snd (enqueueQueued i t org event type rows)"
| "execJobOp (OpClaim org job worker now lease) rows = snd (claimExecution org job worker now lease rows)"
| "execJobOp (OpRenew org job worker lease) rows = snd (renewLease org job worker lease rows)"
| "execJobOp (OpRetry org job worker category code) rows = snd (markRetry org job worker category code rows)"
| "execJobOp (OpSucceed org job worker t) rows = snd (markSucceeded org job worker t rows)"
| "execJobOp (OpFail org job worker category code t) rows =
     snd (markTerminalFailure org job worker category code t rows)"

definition freshOp :: "jobOp \<Rightarrow> backgroundJobRecord list \<Rightarrow> bool" where
  "freshOp job rows \<longleftrightarrow> (case job of OpEnqueue i _ _ _ _ \<Rightarrow> i \<notin> set (map bjId rows) | _ \<Rightarrow> True)"

inductive jobs_run :: "backgroundJobRecord list \<Rightarrow> jobOp list \<Rightarrow> backgroundJobRecord list \<Rightarrow> bool" where
  idle: "jobs_run rows [] rows"
| act: "freshOp stmt rows \<Longrightarrow> jobs_run (execJobOp stmt rows) ops rows' \<Longrightarrow>
    jobs_run rows (stmt # ops) rows'"

text \<open>The rows after a statement: the selected rows changed, and perhaps a new row at the end.\<close>

fun opWhere :: "jobOp \<Rightarrow> backgroundJobRecord \<Rightarrow> bool" where
  "opWhere (OpEnqueue i t org event type) r \<longleftrightarrow> False"
| "opWhere (OpClaim org job worker now lease) r \<longleftrightarrow> claimableJob org job now r"
| "opWhere (OpRenew org job worker lease) r \<longleftrightarrow> heldJob org job worker r"
| "opWhere (OpRetry org job worker category code) r \<longleftrightarrow> heldJob org job worker r"
| "opWhere (OpSucceed org job worker t) r \<longleftrightarrow> heldJob org job worker r"
| "opWhere (OpFail org job worker category code t) r \<longleftrightarrow> heldJob org job worker r"

fun opChange :: "jobOp \<Rightarrow> backgroundJobRecord \<Rightarrow> backgroundJobRecord" where
  "opChange (OpEnqueue i t org event type) r = r"
| "opChange (OpClaim org job worker now lease) r = claimJobRow worker now lease r"
| "opChange (OpRenew org job worker lease) r = r\<lparr>bjLeaseExpiresAt := Some lease\<rparr>"
| "opChange (OpRetry org job worker category code) r = retryJobRow category code r"
| "opChange (OpSucceed org job worker t) r = succeedJobRow t r"
| "opChange (OpFail org job worker category code t) r = failJobRow category code t r"

fun opInserts :: "jobOp \<Rightarrow> backgroundJobRecord list \<Rightarrow> backgroundJobRecord list" where
  "opInserts (OpEnqueue i t org event type) rows =
     (if \<exists>r \<in> set rows. bjOutboxEventId r = Some event then []
      else drop (length rows) (snd (enqueueQueued i t org event type rows)))"
| "opInserts _ rows = []"

lemma finishJob_rows:
  "snd (finishJob status change refusal org job worker rows) =
     fst (updateMany (heldJob org job worker) change rows)"
  by (simp add: finishJob_def Let_def updateMany_def split: option.splits)

lemma claimExecution_rows:
  "snd (claimExecution org job worker now lease rows) =
     fst (updateMany (claimableJob org job now) (claimJobRow worker now lease) rows)"
  by (auto simp: claimExecution_def filter_empty_conv Let_def intro!: map_idI [symmetric] split: list.splits)

lemma markRetry_rows:
  "snd (markRetry org job worker category code rows) =
     fst (updateMany (heldJob org job worker) (retryJobRow category code) rows)"
  by (simp add: markRetry_def Let_def updateMany_def split: option.splits)

lemma renewLease_rows:
  "snd (renewLease org job worker lease rows) =
     fst (updateMany (heldJob org job worker) (\<lambda>r. r\<lparr>bjLeaseExpiresAt := Some lease\<rparr>) rows)"
  by (simp add: renewLease_def Let_def updateMany_def)

lemma enqueueQueued_rows:
  "snd (enqueueQueued i t org event type rows) =
     (if \<exists>r \<in> set rows. bjOutboxEventId r = Some event then rows
      else rows @ [\<lparr>bjId = i, bjOrganizationId = org, bjOutboxEventId = Some event, bjJobType = type,
        bjStatus = job_queued, bjAttempt = 0, bjStartedAt = None, bjLeaseExpiresAt = None,
        bjCompletedAt = None, bjFailureCategory = None, bjFailureCode = None, bjWorkerIdentifier = None,
        bjCreatedAt = t\<rparr>])"
proof (cases "findFirst (\<lambda>r. bjOutboxEventId r = Some event) rows")
  case None
  then show ?thesis by (simp add: enqueueQueued_def Let_def) (simp add: findFirst_None_iff)
next
  case (Some r)
  then show ?thesis by (auto simp: enqueueQueued_def dest: findFirst_SomeD)
qed

lemmas job_statement_rows = finishJob_rows claimExecution_rows markRetry_rows renewLease_rows
  markSucceeded_def markTerminalFailure_def

lemma execJobOp_rows:
  "execJobOp stmt rows =
     map (\<lambda>r. if opWhere stmt r then opChange stmt r else r) rows @ opInserts stmt rows"
  by (cases stmt) (simp_all add: job_statement_rows enqueueQueued_rows)

lemma inserted_row:
  "r \<in> set (opInserts stmt rows) \<Longrightarrow> \<exists>i t org event type. stmt = OpEnqueue i t org event type \<and>
     bjId r = i \<and> bjOutboxEventId r = Some event \<and> bjJobType r = type \<and> bjOrganizationId r = org \<and>
     (\<forall>r' \<in> set rows. bjOutboxEventId r' \<noteq> Some event)"
  by (cases stmt) (auto simp: enqueueQueued_rows split: if_splits)

lemma opChange_keeps [simp]:
  "bjId (opChange stmt r) = bjId r" "bjOutboxEventId (opChange stmt r) = bjOutboxEventId r"
  "bjJobType (opChange stmt r) = bjJobType r"
  "bjOrganizationId (opChange stmt r) = bjOrganizationId r"
  by (cases stmt; simp add: claimJobRow_def retryJobRow_def succeedJobRow_def failJobRow_def)+

interpretation jobs: keyed_table bjId "\<lambda>change. \<forall>r. bjId (change r) = bjId r"
  by unfold_locales simp

text \<open>A row no statement of a run selects is there afterwards, as it was.\<close>

lemma unselected_row_stays:
  assumes "jobs_run rows ops rows'" "r \<in> set rows" "\<forall>stmt \<in> set ops. \<not> opWhere stmt r"
  shows "r \<in> set rows'"
  using assms
proof (induction rule: jobs_run.induct)
  case (act stmt rows ops rows')
  then have "r \<in> set (execJobOp stmt rows)" by (force simp: execJobOp_rows)
  with act show ?case by simp
qed

lemma terminal_not_selected:
  "bjStatus r \<in> set TERMINAL_JOB_STATUSES \<Longrightarrow> \<not> opWhere stmt r"
  by (cases stmt) (auto simp: TERMINAL_JOB_STATUSES_def claimableJob_def heldJob_def)

text \<open>The worker a statement acts for, and the job it names.\<close>

fun opHolder :: "jobOp \<Rightarrow> (jstr \<times> jstr) option" where
  "opHolder (OpRenew org job worker lease) = Some (job, worker)"
| "opHolder (OpRetry org job worker category code) = Some (job, worker)"
| "opHolder (OpSucceed org job worker t) = Some (job, worker)"
| "opHolder (OpFail org job worker category code t) = Some (job, worker)"
| "opHolder _ = None"

fun claimsBefore :: "int \<Rightarrow> jobOp \<Rightarrow> bool" where
  "claimsBefore lease (OpClaim org job worker now lease') \<longleftrightarrow> now \<le> lease"
| "claimsBefore lease _ \<longleftrightarrow> True"

text \<open>
  C15. A lease excludes every other worker: as long as the database clock of the claims has not passed
  the expiry of a running job, no sequence of statements, by any number of relays and workers, changes
  the row unless the holder itself renews, retries or finishes it. A job that succeeded, failed, was
  dead-lettered or cancelled is never changed again, by anyone.
\<close>
theorem job_lease_exclusive:
  assumes "jobs_run rows ops rows'" "r \<in> set rows"
    and "bjStatus r \<in> set TERMINAL_JOB_STATUSES \<or>
      bjStatus r = job_running \<and> bjWorkerIdentifier r = Some worker \<and> bjLeaseExpiresAt r = Some lease \<and>
      (\<forall>stmt \<in> set ops. opHolder stmt \<noteq> Some (bjId r, worker) \<and> claimsBefore lease stmt)"
  shows "r \<in> set rows'"
proof (rule unselected_row_stays [OF assms(1,2)], rule ballI)
  fix stmt
  assume "stmt \<in> set ops"
  with assms(3) show "\<not> opWhere stmt r"
    by (cases stmt) (auto simp: TERMINAL_JOB_STATUSES_def claimableJob_def heldJob_def leaseExpired_def)
qed

text \<open>Claiming: who gets the job, and what the row says afterwards.\<close>

lemma claim_succeeds_iff:
  assumes "jobs.keyed rows"
  shows "is_ok (fst (claimExecution org job worker now lease rows)) \<longleftrightarrow>
    (\<exists>r \<in> set rows. claimableJob org job now r)"
  by (auto simp: claimExecution_def filter_empty_conv Let_def split: list.splits)
    (metis filter_empty_conv list.distinct(1))

text \<open>The events that have a job, one occurrence for each job.\<close>

definition jobEvents :: "backgroundJobRecord list \<Rightarrow> jstr list" where
  "jobEvents rows = map the (filter (\<lambda>e. e \<noteq> None) (map bjOutboxEventId rows))"

lemma jobEvents_append [simp]: "jobEvents (rows @ rows') = jobEvents rows @ jobEvents rows'"
  by (simp add: jobEvents_def)

lemma set_jobEvents: "e \<in> set (jobEvents rows) \<longleftrightarrow> (\<exists>r \<in> set rows. bjOutboxEventId r = Some e)"
  by (force simp: jobEvents_def)

lemma exec_keyed:
  assumes "jobs.keyed rows" "freshOp stmt rows"
  shows "jobs.keyed (execJobOp stmt rows)"
proof -
  have "map bjId (execJobOp stmt rows) = map bjId rows @ map bjId (opInserts stmt rows)"
    by (simp add: execJobOp_rows)
  moreover have "distinct (map bjId (opInserts stmt rows))"
    by (cases stmt) (simp_all add: enqueueQueued_rows)
  moreover have "set (map bjId rows) \<inter> set (map bjId (opInserts stmt rows)) = {}"
    using assms(2) by (auto simp: freshOp_def image_iff dest!: inserted_row) metis
  ultimately show ?thesis using assms(1) by (simp add: jobs.keyed_def)
qed

lemma exec_jobEvents:
  "jobEvents (execJobOp stmt rows) = jobEvents rows @ jobEvents (opInserts stmt rows)"
proof -
  have "map bjOutboxEventId (map (\<lambda>r. if opWhere stmt r then opChange stmt r else r) rows) =
      map bjOutboxEventId rows" by simp
  then have "jobEvents (map (\<lambda>r. if opWhere stmt r then opChange stmt r else r) rows) = jobEvents rows"
    by (simp only: jobEvents_def)
  then show ?thesis by (simp add: execJobOp_rows)
qed

lemma inserted_events:
  "distinct (jobEvents (opInserts stmt rows)) \<and> set (jobEvents rows) \<inter> set (jobEvents (opInserts stmt rows)) = {}"
proof
  show "distinct (jobEvents (opInserts stmt rows))"
    by (cases stmt) (simp_all add: enqueueQueued_rows jobEvents_def)
  show "set (jobEvents rows) \<inter> set (jobEvents (opInserts stmt rows)) = {}"
    by (auto simp: set_jobEvents dest!: inserted_row)
qed

lemma exec_one_job: "distinct (jobEvents rows) \<Longrightarrow> distinct (jobEvents (execJobOp stmt rows))"
  using inserted_events [of stmt rows] by (simp add: exec_jobEvents)

lemma exec_kept_row:
  assumes "r' \<in> set (execJobOp stmt rows)"
  shows "r' \<in> set (opInserts stmt rows) \<or>
    (\<exists>r \<in> set rows. bjId r' = bjId r \<and> bjOutboxEventId r' = bjOutboxEventId r \<and>
       bjJobType r' = bjJobType r \<and> bjOrganizationId r' = bjOrganizationId r)"
  using assms by (force simp: execJobOp_rows)

subsection \<open>Witnesses\<close>

definition example_job :: backgroundJobRecord where
  "example_job =
     \<lparr>bjId = js ''j1'', bjOrganizationId = None, bjOutboxEventId = Some (js ''e1''),
      bjJobType = js ''sbom.ingest'', bjStatus = job_running, bjAttempt = 1, bjStartedAt = Some 10,
      bjLeaseExpiresAt = Some 70, bjCompletedAt = None, bjFailureCategory = None, bjFailureCode = None,
      bjWorkerIdentifier = Some (js ''w1''), bjCreatedAt = 5\<rparr>"

lemma job_lease_exclusive_witness:
  "example_job \<in> set (execJobOp (OpClaim None (js ''j1'') (js ''w2'') 60 120)
     (execJobOp (OpSucceed None (js ''j1'') (js ''w2'') 50) [example_job]))"
proof (rule job_lease_exclusive [where worker = "js ''w1''" and lease = 70])
  show "jobs_run [example_job]
      [OpSucceed None (js ''j1'') (js ''w2'') 50, OpClaim None (js ''j1'') (js ''w2'') 60 120]
      (execJobOp (OpClaim None (js ''j1'') (js ''w2'') 60 120)
        (execJobOp (OpSucceed None (js ''j1'') (js ''w2'') 50) [example_job]))"
    by (intro jobs_run.intros) (simp_all add: freshOp_def)
qed (simp_all add: example_job_def)

end
