(* ===== verification/OutboxStore.thy ===== *)
theory OutboxStore
  imports JobStore
begin

text \<open>
  The outbox table: \<^verbatim>\<open>packages/database/src/outbox-relay-persistence.ts\<close>. Of a row the model keeps the columns
  the relay reads or a statement writes; the payload, its schema version and the two creation times
  are never touched here. Rows that another transaction has locked are skipped by a claim (\<^verbatim>\<open>FOR UPDATE SKIP
  LOCKED\<close>): \<open>locked\<close> says which.
\<close>

subsection \<open>Rows\<close>

datatype outboxEventStatus =
    oe_pending | oe_claimed | oe_processed | oe_failed | oe_dead_lettered

record outboxEventRecord =
  oeId :: jstr
  oeOrganizationId :: "jstr option"
  oeAggregateType :: jstr
  oeAggregateId :: jstr
  oeEventType :: jstr
  oeDedupeKey :: jstr
  oeAvailableAt :: int
  oeClaimedAt :: "int option"
  oeLeaseExpiresAt :: "int option"
  oeProcessedAt :: "int option"
  oeAttemptCount :: int
  oeLastFailureCategory :: "jstr option"
  oeLastFailureCode :: "jstr option"
  oeStatus :: outboxEventStatus

definition OUTBOX_NOT_FOUND :: appError where
  "OUTBOX_NOT_FOUND = \<lparr>errCode = err_not_found, errMessage = js ''Outbox event was not found.''\<rparr>"

subsection \<open>Claiming a batch\<close>

fun boundClaimLimit :: "jsnum \<Rightarrow> nat" where
  "boundClaimLimit (Integral n) = (if n < 1 then 0 else if n > 100 then 100 else nat n)"
| "boundClaimLimit _ = 0"

text \<open>\<^verbatim>\<open>ORDER BY "available_at" ASC, "id" ASC\<close>; a UUID compares as its canonical text does.\<close>

definition availableOrder :: "outboxEventRecord \<Rightarrow> outboxEventRecord \<Rightarrow> int" where
  "availableOrder = then_cmp (\<lambda>l r. linord_cmp (oeAvailableAt l) (oeAvailableAt r))
     (\<lambda>l r. lex_cmp linord_cmp (oeId l) (oeId r))"

definition duePending :: "(jstr \<Rightarrow> bool) \<Rightarrow> int \<Rightarrow> outboxEventRecord \<Rightarrow> bool" where
  "duePending locked now r \<longleftrightarrow> oeStatus r = oe_pending \<and> oeAvailableAt r \<le> now \<and> \<not> locked (oeId r)"

definition expiredClaim :: "(jstr \<Rightarrow> bool) \<Rightarrow> int \<Rightarrow> outboxEventRecord \<Rightarrow> bool" where
  "expiredClaim locked now r \<longleftrightarrow>
     oeStatus r = oe_claimed \<and> leaseExpired now (oeLeaseExpiresAt r) \<and> \<not> locked (oeId r)"

definition selectDue :: "(jstr \<Rightarrow> bool) \<Rightarrow> nat \<Rightarrow> int \<Rightarrow> outboxEventRecord list \<Rightarrow> jstr list" where
  "selectDue locked limit now rows =
     (let pending = take limit (cmp_sort availableOrder (filter (duePending locked now) rows));
          remaining = limit - length pending;
          expired = (if remaining > 0
            then take remaining (cmp_sort availableOrder (filter (expiredClaim locked now) rows)) else [])
      in map oeId (pending @ expired))"

definition claimEventRow :: "int \<Rightarrow> int \<Rightarrow> outboxEventRecord \<Rightarrow> outboxEventRecord" where
  "claimEventRow now lease r =
     r\<lparr>oeStatus := oe_claimed, oeClaimedAt := Some now, oeLeaseExpiresAt := Some lease,
       oeAttemptCount := oeAttemptCount r + 1\<rparr>"

text \<open>
  \<^verbatim>\<open>claimDueBatch\<close>: the claimed rows in the order they were selected. A claimed event is its row; \<^verbatim>\<open>byId\<close> is the
  search by identifier in the rows the update returned.
\<close>

definition claimDueBatch ::
  "(jstr \<Rightarrow> bool) \<Rightarrow> jsnum \<Rightarrow> int \<Rightarrow> int \<Rightarrow> outboxEventRecord list \<Rightarrow>
   outboxEventRecord list \<times> outboxEventRecord list" where
  "claimDueBatch locked limitInput now lease rows =
     (let limit = boundClaimLimit limitInput
      in if limit < 1 then ([], rows)
         else
           (let ids = selectDue locked limit now rows
            in if ids = [] then ([], rows)
               else
                 (let rows' = fst (updateMany (\<lambda>r. oeId r \<in> set ids) (claimEventRow now lease) rows)
                  in (List.map_filter (\<lambda>i. findFirst (\<lambda>r. oeId r = i \<and> oeClaimedAt r \<noteq> None \<and>
                        oeLeaseExpiresAt r \<noteq> None) rows') ids, rows'))))"

subsection \<open>The other statements\<close>

definition outboxConflict :: "string \<Rightarrow> appError" where
  "outboxConflict text = \<lparr>errCode = err_conflict, errMessage = js text\<rparr>"

definition namedEvent :: "jstr option \<Rightarrow> jstr \<Rightarrow> outboxEventRecord \<Rightarrow> bool" where
  "namedEvent organizationId eventId r \<longleftrightarrow> oeId r = eventId \<and> oeOrganizationId r = organizationId"

definition loadEvent ::
  "jstr option \<Rightarrow> jstr \<Rightarrow> outboxEventRecord list \<Rightarrow> appError + outboxEventRecord" where
  "loadEvent organizationId eventId rows =
     (case findFirst (namedEvent organizationId eventId) rows of
        None \<Rightarrow> Inl OUTBOX_NOT_FOUND
      | Some row \<Rightarrow> Inr row)"

definition expireLease ::
  "jstr option \<Rightarrow> jstr \<Rightarrow> int \<Rightarrow> outboxEventRecord list \<Rightarrow> (appError + unit) \<times> outboxEventRecord list" where
  "expireLease organizationId eventId now rows =
     (let (rows', n) = updateMany (\<lambda>r. namedEvent organizationId eventId r \<and> oeStatus r = oe_claimed \<and>
            leaseExpired now (oeLeaseExpiresAt r))
            (\<lambda>r. r\<lparr>oeStatus := oe_pending, oeClaimedAt := None, oeLeaseExpiresAt := None\<rparr>) rows
      in if n = 0 then (Inl (outboxConflict ''Outbox lease was not expired.''), rows')
         else (Inr (), rows'))"

definition processEventRow :: "int \<Rightarrow> outboxEventRecord \<Rightarrow> outboxEventRecord" where
  "processEventRow acceptedAt r = r\<lparr>oeStatus := oe_processed, oeProcessedAt := Some acceptedAt\<rparr>"

definition markProcessedAfterQueueAcceptance ::
  "jstr option \<Rightarrow> jstr \<Rightarrow> int \<Rightarrow> outboxEventRecord list \<Rightarrow>
   (appError + outboxEventRecord) \<times> outboxEventRecord list" where
  "markProcessedAfterQueueAcceptance organizationId eventId acceptedAt rows =
     (let (rows', n) = updateMany (\<lambda>r. namedEvent organizationId eventId r \<and> oeStatus r = oe_claimed)
            (processEventRow acceptedAt) rows
      in if n = 0 then (Inl (outboxConflict ''Outbox event was not marked processed.''), rows')
         else (loadEvent organizationId eventId rows', rows'))"

definition retryEventRow :: "jstr \<Rightarrow> jstr \<Rightarrow> int \<Rightarrow> outboxEventRecord \<Rightarrow> outboxEventRecord" where
  "retryEventRow category code availableAt r =
     r\<lparr>oeStatus := oe_pending, oeClaimedAt := None, oeLeaseExpiresAt := None,
       oeAvailableAt := availableAt, oeLastFailureCategory := Some category,
       oeLastFailureCode := Some code\<rparr>"

definition markRetryableDeliveryFailure ::
  "jstr option \<Rightarrow> jstr \<Rightarrow> jstr \<Rightarrow> jstr \<Rightarrow> int \<Rightarrow> outboxEventRecord list \<Rightarrow>
   (appError + outboxEventRecord) \<times> outboxEventRecord list" where
  "markRetryableDeliveryFailure organizationId eventId category code availableAt rows =
     (let (rows', n) = updateMany (\<lambda>r. namedEvent organizationId eventId r \<and> oeStatus r = oe_claimed)
            (retryEventRow category code availableAt) rows
      in if n = 0 then (Inl (outboxConflict ''Outbox event was not marked for retry.''), rows')
         else (loadEvent organizationId eventId rows', rows'))"

definition deadLetterRow :: "jstr \<Rightarrow> jstr \<Rightarrow> outboxEventRecord \<Rightarrow> outboxEventRecord" where
  "deadLetterRow category code r =
     r\<lparr>oeStatus := oe_dead_lettered, oeClaimedAt := None, oeLeaseExpiresAt := None,
       oeLastFailureCategory := Some category, oeLastFailureCode := Some code\<rparr>"

definition markDeadLetter ::
  "jstr option \<Rightarrow> jstr \<Rightarrow> jstr \<Rightarrow> jstr \<Rightarrow> outboxEventRecord list \<Rightarrow>
   (appError + outboxEventRecord) \<times> outboxEventRecord list" where
  "markDeadLetter organizationId eventId category code rows =
     (let (rows', n) = updateMany (\<lambda>r. namedEvent organizationId eventId r \<and>
            oeStatus r \<in> {oe_claimed, oe_pending, oe_failed}) (deadLetterRow category code) rows
      in if n = 0 then (Inl (outboxConflict ''Outbox event was not dead-lettered.''), rows')
         else (loadEvent organizationId eventId rows', rows'))"

text \<open>
  \<^verbatim>\<open>listProcessedAwaitingBackgroundJob\<close>: processed events no job row refers to, oldest first. A processed row
  has its time (\<^verbatim>\<open>outbox_event_processed_ts_chk\<close>); the order puts a missing one last, as the database does.
\<close>

definition processedOrder :: "outboxEventRecord \<Rightarrow> outboxEventRecord \<Rightarrow> int" where
  "processedOrder = then_cmp
     (\<lambda>l r. case (oeProcessedAt l, oeProcessedAt r) of
        (Some s, Some t) \<Rightarrow> linord_cmp s t
      | (Some s, None) \<Rightarrow> -1
      | (None, Some t) \<Rightarrow> 1
      | (None, None) \<Rightarrow> 0)
     (\<lambda>l r. lex_cmp linord_cmp (oeId l) (oeId r))"

definition awaitingJob :: "backgroundJobRecord list \<Rightarrow> outboxEventRecord \<Rightarrow> bool" where
  "awaitingJob jobRows r \<longleftrightarrow>
     oeStatus r = oe_processed \<and> \<not> list_ex (\<lambda>b. bjOutboxEventId b = Some (oeId r)) jobRows"

definition listProcessedAwaitingBackgroundJob ::
  "jsnum \<Rightarrow> backgroundJobRecord list \<Rightarrow> outboxEventRecord list \<Rightarrow> outboxEventRecord list" where
  "listProcessedAwaitingBackgroundJob limitInput jobRows rows =
     (let limit = boundClaimLimit limitInput
      in if limit < 1 then []
         else take limit (cmp_sort processedOrder (filter (awaitingJob jobRows) rows)))"

end
