(* ===== verification/SyncSchedule.thy ===== *)
theory SyncSchedule
  imports SyncRun KevRecords
begin

text \<open>
  When the next KEV synchronization is requested: \<^verbatim>\<open>packages/domain/src/intelligence/due-decision.ts\<close>,
  \<^verbatim>\<open>schedule-window.ts\<close>, the dedupe key of \<^verbatim>\<open>outbox.ts\<close> and the tick of \<^verbatim>\<open>scheduler.ts\<close>. A clock
  reading is a time value in milliseconds; the persistence port of the scheduler is a parameter of the
  tick. \<^verbatim>\<open>Math.floor(now / interval)\<close> is integer division: for safe integers the rounding of the
  quotient never reaches the next integer.
\<close>

subsection \<open>Due decision\<close>

datatype kevSyncDueDecision =
    due_disabled | due_shutdown | due_initial | due_periodic | not_due | inflight
  | retry_wait_inflight

definition isNonterminal :: "intelligenceSyncRunState \<Rightarrow> bool" where
  "isNonterminal state \<longleftrightarrow> \<not> isIntelligenceTerminalSyncRunState state"

definition decideKevSyncDue ::
  "bool \<Rightarrow> bool \<Rightarrow> int \<Rightarrow> jsnum \<Rightarrow> intelligenceSyncRunState option \<Rightarrow> int option \<Rightarrow> kevSyncDueDecision"
  where
  "decideKevSyncDue kevEnabled shutdown now syncIntervalSeconds latest lastSuccessfulSyncAt =
     (if shutdown then due_shutdown
      else if \<not> kevEnabled then due_disabled
      else if \<not> isPositiveSafeInteger syncIntervalSeconds then not_due
      else if (case latest of None \<Rightarrow> False | Some state \<Rightarrow> isNonterminal state)
      then (if latest = Some run_retry_wait then retry_wait_inflight else inflight)
      else case lastSuccessfulSyncAt of
        None \<Rightarrow> due_initial
      | Some t \<Rightarrow>
          (let elapsedMs = now - t
           in if \<not> num_is_safe_integer (Integral elapsedMs) \<or> elapsedMs < 0 then not_due
              else let intervalMs = num_int syncIntervalSeconds * 1000
                in if \<not> num_is_safe_integer (Integral intervalMs) then not_due
                   else if elapsedMs < intervalMs then not_due
                   else due_periodic))"

subsection \<open>UTC fields of a time value\<close>

text \<open>
  The proleptic Gregorian calendar of \<^verbatim>\<open>Date\<close> from 1970 on: the year and the day in it, then the month
  and the day in it, counted from zero.
\<close>

definition daysInYear :: "nat \<Rightarrow> nat" where
  "daysInYear year = (if daysInMonth year 2 = 29 then 366 else 365)"

function year_from_days :: "nat \<Rightarrow> nat \<Rightarrow> nat \<times> nat" where
  "year_from_days year days =
     (if days < daysInYear year then (year, days)
      else year_from_days (Suc year) (days - daysInYear year))"
  by pat_completeness auto
termination
  by (relation "measure snd") (auto simp: daysInYear_def)

function month_from_days :: "nat \<Rightarrow> nat \<Rightarrow> nat \<Rightarrow> nat \<times> nat" where
  "month_from_days year month days =
     (if 12 \<le> month \<or> days < daysInMonth year month then (month, days)
      else month_from_days year (Suc month) (days - daysInMonth year month))"
  by pat_completeness auto
termination
  by (relation "measure (\<lambda>(_, month, _). 12 - month)") auto

declare year_from_days.simps [simp del] month_from_days.simps [simp del]

definition MAX_TIME_VALUE :: int where
  [catalog_defs]: "MAX_TIME_VALUE = 8640000000000000"

definition pad2 :: "nat \<Rightarrow> jstr" where
  "pad2 n = (if n < 10 then 48 # dec n else dec n)"

text \<open>The template digits are written \<^verbatim>\<open>d\<close>: \<^verbatim>\<open>/^\d{4}-\d{2}-\d{2}T\d{2}:\d{2}:\d{2}Z$/\<close>.\<close>

definition INTELLIGENCE_SCHEDULE_WINDOW_UTC_PATTERN :: "jstr \<Rightarrow> bool" where
  "INTELLIGENCE_SCHEDULE_WINDOW_UTC_PATTERN s \<longleftrightarrow>
     list_all2 (\<lambda>t c. if t = 100 then is_digit c else c = t) (js ''dddd-dd-ddTdd:dd:ddZ'') s"

definition format_utc :: "nat \<Rightarrow> jstr" where
  "format_utc ms =
     (let days = ms div 86400000; seconds = ms mod 86400000 div 1000;
          (year, yday) = year_from_days 1970 days;
          (month, mday) = month_from_days year 1 yday
      in dec year @ 45 # pad2 month @ 45 # pad2 (mday + 1) @ 84 # pad2 (seconds div 3600) @ 58 #
         pad2 (seconds mod 3600 div 60) @ 58 # pad2 (seconds mod 60) @ [90])"

definition formatUtcWindowStart :: "int \<Rightarrow> appError + jstr" where
  "formatUtcWindowStart windowStartMs =
     (if \<not> num_is_safe_integer (Integral windowStartMs) \<or> windowStartMs < 0
      then Inl (intelligenceValidationError (js ''Schedule window start is not a safe epoch millisecond.''))
      else if windowStartMs > MAX_TIME_VALUE
      then Inl (intelligenceValidationError (js ''Schedule window start is not a UTC instant.''))
      else let formatted = format_utc (nat windowStartMs)
        in if \<not> INTELLIGENCE_SCHEDULE_WINDOW_UTC_PATTERN formatted
           then Inl (intelligenceValidationError (js ''Schedule window timestamp is not canonical UTC seconds.''))
           else Inr formatted)"

record kevScheduleWindow =
  windowStartMs :: int
  windowStartUtc :: jstr

definition calculateKevScheduleWindow :: "int \<Rightarrow> jsnum \<Rightarrow> appError + kevScheduleWindow" where
  "calculateKevScheduleWindow nowEpochMs syncIntervalSeconds =
     (if \<not> num_is_safe_integer (Integral nowEpochMs) \<or> nowEpochMs < 0
      then Inl (intelligenceValidationError (js ''Schedule clock is not a safe epoch millisecond.''))
      else if \<not> isPositiveSafeInteger syncIntervalSeconds
      then Inl (intelligenceValidationError (js ''Synchronization interval must be a positive safe integer.''))
      else let intervalMs = num_int syncIntervalSeconds * 1000
        in if \<not> num_is_safe_integer (Integral intervalMs) \<or> intervalMs \<le> 0
           then Inl (intelligenceValidationError (js ''Synchronization interval overflowed safe integer milliseconds.''))
           else let start = nowEpochMs div intervalMs * intervalMs
             in if \<not> num_is_safe_integer (Integral start) \<or> start < 0
                then Inl (intelligenceValidationError (js ''Schedule window start overflowed safe integer milliseconds.''))
                else case formatUtcWindowStart start of
                  Inl e \<Rightarrow> Inl e
                | Inr utc \<Rightarrow> Inr \<lparr>windowStartMs = start, windowStartUtc = utc\<rparr>)"

subsection \<open>Dedupe keys\<close>

definition INTELLIGENCE_SYNC_REQUESTED_EVENT_TYPE :: jstr where
  "INTELLIGENCE_SYNC_REQUESTED_EVENT_TYPE = js ''intelligence.sync.requested.v1''"

definition INTELLIGENCE_SCHEDULE_WINDOW_MAX_LENGTH :: nat where
  [catalog_defs]: "INTELLIGENCE_SCHEDULE_WINDOW_MAX_LENGTH = 64"

definition INTELLIGENCE_REQUEST_TOKEN_MAX_LENGTH :: nat where
  [catalog_defs]: "INTELLIGENCE_REQUEST_TOKEN_MAX_LENGTH = 128"

definition INTELLIGENCE_DEDUPE_KEY_MAX_LENGTH :: nat where
  [catalog_defs]: "INTELLIGENCE_DEDUPE_KEY_MAX_LENGTH = 256"

text \<open>\<^verbatim>\<open>/^[A-Za-z0-9._:|-]+$/\<close>.\<close>

definition INTELLIGENCE_DEDUPE_KEY_PATTERN :: "jstr \<Rightarrow> bool" where
  [eval_defs]: "INTELLIGENCE_DEDUPE_KEY_PATTERN s \<longleftrightarrow>
     s \<noteq> [] \<and> list_all (\<lambda>c. is_upper c \<or> is_lower c \<or> is_digit c \<or> c \<in> {46, 95, 58, 124, 45}) s"

definition buildIntelligenceSyncDedupeKey ::
  "jstr \<Rightarrow> jstr \<Rightarrow> jstr option \<Rightarrow> jstr option \<Rightarrow> appError + jstr" where
  "buildIntelligenceSyncDedupeKey provider source scheduleWindow requestToken =
     (if provider \<notin> set intelligenceProviders \<or> source \<notin> set intelligenceSourceIdentifiers
      then Inl (intelligenceValidationError (js ''Dedupe key requires a closed provider and source.''))
      else if provider = js ''osv'' \<or> source \<noteq> CISA_KEV_SOURCE_IDENTIFIER
      then Inl (intelligenceValidationError (js ''Session 9 dedupe keys are KEV-only.''))
      else if scheduleWindow = None \<and> requestToken = None
      then Inl (intelligenceValidationError (js ''Dedupe key requires a schedule window or an explicit request token.''))
      else if (case scheduleWindow of
          None \<Rightarrow> False
        | Some w \<Rightarrow> length w = 0 \<or> length w > INTELLIGENCE_SCHEDULE_WINDOW_MAX_LENGTH)
      then Inl (intelligenceValidationError (js ''Schedule window exceeds the bounded length.''))
      else if (case requestToken of
          None \<Rightarrow> False
        | Some t \<Rightarrow> length t = 0 \<or> length t > INTELLIGENCE_REQUEST_TOKEN_MAX_LENGTH)
      then Inl (intelligenceValidationError (js ''Request token exceeds the bounded length.''))
      else
        (let parts =
          [INTELLIGENCE_SYNC_REQUESTED_EVENT_TYPE, provider, source,
           (case scheduleWindow of None \<Rightarrow> [] | Some w \<Rightarrow> js ''window:'' @ w),
           (case requestToken of None \<Rightarrow> [] | Some t \<Rightarrow> js ''token:'' @ t)];
           key = join_with 124 (filter (\<lambda>part. length part > 0) parts)
         in if length key > INTELLIGENCE_DEDUPE_KEY_MAX_LENGTH
            then Inl (intelligenceValidationError (js ''Dedupe key exceeds the bounded length.''))
            else Inr key))"

definition buildKevScheduleWindowDedupeKey :: "jstr \<Rightarrow> appError + jstr" where
  "buildKevScheduleWindowDedupeKey utc =
     (if \<not> INTELLIGENCE_SCHEDULE_WINDOW_UTC_PATTERN utc
      then Inl (intelligenceValidationError (js ''Schedule window is not canonical UTC seconds.''))
      else case buildIntelligenceSyncDedupeKey (js ''cisa_kev'') CISA_KEV_SOURCE_IDENTIFIER (Some utc) None of
        Inl e \<Rightarrow> Inl e
      | Inr key \<Rightarrow>
          if length key > INTELLIGENCE_DEDUPE_KEY_MAX_LENGTH
          then Inl (intelligenceValidationError (js ''Dedupe key exceeds the bounded length.''))
          else if \<not> INTELLIGENCE_DEDUPE_KEY_PATTERN key
          then Inl (intelligenceValidationError (js ''Dedupe key uses disallowed characters.''))
          else Inr key)"

subsection \<open>The scheduler tick\<close>

datatype requestSyncOutcome =
    requested_run jstr | duplicate_request | inflight_request jstr

datatype kevSchedulerTickOutcome =
    tick_disabled | tick_shutdown | tick_not_due | tick_inflight | tick_retry_wait_inflight
  | tick_due_initial jstr | tick_due_periodic jstr | tick_duplicate_window
  | tick_existing_inflight jstr | tick_persistence_failure

text \<open>
  The outcome of a tick and the dedupe keys it asked the persistence port to request, at most one. The
  port answers a request with its outcome, or \<open>None\<close> when it fails.
\<close>

definition evaluateKevSyncSchedule ::
  "(jstr \<Rightarrow> requestSyncOutcome option) \<Rightarrow> bool \<Rightarrow> jsnum \<Rightarrow> bool \<Rightarrow> int \<Rightarrow>
   intelligenceSyncRunState option \<Rightarrow> int option \<Rightarrow> kevSchedulerTickOutcome \<times> jstr list" where
  "evaluateKevSyncSchedule requestSync kevEnabled syncIntervalSeconds shutdown now latest lastSuccess =
     (let decision = decideKevSyncDue kevEnabled shutdown now syncIntervalSeconds latest lastSuccess;
          request = (\<lambda>due.
            case calculateKevScheduleWindow now syncIntervalSeconds of
              Inl _ \<Rightarrow> (tick_persistence_failure, [])
            | Inr window \<Rightarrow>
                (case buildKevScheduleWindowDedupeKey (windowStartUtc window) of
                   Inl _ \<Rightarrow> (tick_persistence_failure, [])
                 | Inr key \<Rightarrow>
                     (case requestSync key of
                        None \<Rightarrow> (tick_persistence_failure, [key])
                      | Some duplicate_request \<Rightarrow> (tick_duplicate_window, [key])
                      | Some (inflight_request run) \<Rightarrow> (tick_existing_inflight run, [key])
                      | Some (requested_run run) \<Rightarrow> (due run, [key]))))
      in case decision of
           due_disabled \<Rightarrow> (tick_disabled, [])
         | due_shutdown \<Rightarrow> (tick_shutdown, [])
         | not_due \<Rightarrow> (tick_not_due, [])
         | inflight \<Rightarrow> (tick_inflight, [])
         | retry_wait_inflight \<Rightarrow> (tick_retry_wait_inflight, [])
         | due_initial \<Rightarrow> request tick_due_initial
         | due_periodic \<Rightarrow> request tick_due_periodic)"

subsection \<open>A printed second determines the second\<close>

lemma year_from_days_sum:
  "year_from_days y d = (y', r) \<Longrightarrow> y \<le> y' \<and> d = sum daysInYear {y..<y'} + r"
proof (induction y d rule: year_from_days.induct)
  case (1 y d)
  show ?case
  proof (cases "d < daysInYear y")
    case True
    with "1.prems" show ?thesis by (simp add: year_from_days.simps [of y d])
  next
    case False
    with "1.prems" have "year_from_days (Suc y) (d - daysInYear y) = (y', r)"
      by (simp add: year_from_days.simps [of y d])
    from "1.IH" [OF False this] False show ?thesis
      by (auto simp: sum.atLeast_Suc_lessThan [of y y'])
  qed
qed

lemma month_from_days_sum:
  "month_from_days y m d = (m', r) \<Longrightarrow> m \<le> m' \<and> d = sum (daysInMonth y) {m..<m'} + r"
proof (induction y m d rule: month_from_days.induct)
  case (1 y m d)
  show ?case
  proof (cases "12 \<le> m \<or> d < daysInMonth y m")
    case True
    with "1.prems" show ?thesis by (auto simp: month_from_days.simps [of y m d])
  next
    case False
    with "1.prems" have "month_from_days y (Suc m) (d - daysInMonth y m) = (m', r)"
      by (auto simp: month_from_days.simps [of y m d])
    from "1.IH" [OF False this] False show ?thesis
      by (auto simp: sum.atLeast_Suc_lessThan [of m m'])
  qed
qed

lemma decval_pad2 [simp]: "decval (pad2 n) = n"
proof -
  have "decval (48 # s) = decval s" for s by (simp add: decval_def)
  then show ?thesis by (simp add: pad2_def)
qed

lemma pad2_inject [simp]: "pad2 m = pad2 n \<longleftrightarrow> m = n"
  by (metis decval_pad2)

lemma pad2_digits: "c \<in> set (pad2 n) \<Longrightarrow> is_digit c"
  using dec_digits by (auto simp: pad2_def is_digit_def split: if_splits)

lemma pad2_separator_inject:
  assumes "pad2 m @ c # us = pad2 n @ c # vs" "\<not> is_digit c"
  shows "m = n \<and> us = vs"
proof -
  have "pad2 m = pad2 n \<and> us = vs"
    using separator_inject [OF assms(1)] pad2_digits assms(2) by blast
  then show ?thesis by simp
qed

lemma format_utc_inject:
  assumes "format_utc a = format_utc b"
  shows "a div 1000 = b div 1000"
proof -
  obtain ya da ma ra yb db mb rb where
    a: "year_from_days 1970 (a div 86400000) = (ya, da)" "month_from_days ya 1 da = (ma, ra)" and
    b: "year_from_days 1970 (b div 86400000) = (yb, db)" "month_from_days yb 1 db = (mb, rb)"
    by (meson surj_pair)
  let ?s = "a mod 86400000 div 1000" and ?t = "b mod 86400000 div 1000"
  have seps: "\<not> is_digit 45" "\<not> is_digit 84" "\<not> is_digit 58" "\<not> is_digit 90"
    by (simp_all add: is_digit_def)
  have "dec ya @ 45 # pad2 ma @ 45 # pad2 (ra + 1) @ 84 # pad2 (?s div 3600) @ 58 #
      pad2 (?s mod 3600 div 60) @ 58 # pad2 (?s mod 60) @ 90 # [] =
    dec yb @ 45 # pad2 mb @ 45 # pad2 (rb + 1) @ 84 # pad2 (?t div 3600) @ 58 #
      pad2 (?t mod 3600 div 60) @ 58 # pad2 (?t mod 60) @ 90 # []"
    using assms a b by (simp add: format_utc_def Let_def)
  then have fields: "ya = yb" "ma = mb" "ra = rb" "?s div 3600 = ?t div 3600"
    "?s mod 3600 div 60 = ?t mod 3600 div 60" "?s mod 60 = ?t mod 60"
    by (auto dest!: dec_separator_inject [OF _ seps(1)] pad2_separator_inject [OF _ seps(1)]
        pad2_separator_inject [OF _ seps(2)] pad2_separator_inject [OF _ seps(3)]
        pad2_separator_inject [OF _ seps(4)])
  have "da = db" using month_from_days_sum [OF a(2)] month_from_days_sum [OF b(2)] fields by simp
  then have days: "a div 86400000 = b div 86400000"
    using year_from_days_sum [OF a(1)] year_from_days_sum [OF b(1)] fields by simp
  have "?s = ?t"
  proof -
    have split: "x = x div 3600 * 3600 + x mod 3600 div 60 * 60 + x mod 60" for x :: nat
    proof -
      have "x = x div 3600 * 3600 + (x mod 3600 div 60 * 60 + x mod 3600 mod 60)"
        by (simp only: div_mult_mod_eq)
      moreover have "x mod 3600 mod 60 = x mod 60" by (rule mod_mod_cancel) simp
      ultimately show ?thesis by (simp only: add.assoc)
    qed
    show ?thesis by (subst split [of ?s], subst split [of ?t]) (simp only: fields)
  qed
  moreover have "x div 1000 = x div 86400000 * 86400 + x mod 86400000 div 1000" for x :: nat
  proof -
    have "x div 86400000 * 86400 * 1000 = x div 86400000 * 86400000" by simp
    then have "x = x mod 86400000 + x div 86400000 * 86400 * 1000"
      using mod_div_mult_eq [of x 86400000] by (simp only:)
    then have "x div 1000 = (x mod 86400000 + x div 86400000 * 86400 * 1000) div 1000" by (rule arg_cong)
    also have "\<dots> = x div 86400000 * 86400 + x mod 86400000 div 1000" by (rule div_mult_self1) simp
    finally show ?thesis .
  qed
  ultimately show ?thesis using days by (metis (no_types))
qed

subsection \<open>Windows and keys\<close>

lemma window_accepted:
  assumes "calculateKevScheduleWindow now interval = Inr w"
  shows "windowStartMs w = now div (num_int interval * 1000) * (num_int interval * 1000)"
    "formatUtcWindowStart (windowStartMs w) = Inr (windowStartUtc w)"
    "0 \<le> windowStartMs w" "0 < num_int interval * 1000" "0 \<le> now"
  using assms
  by (auto simp: calculateKevScheduleWindow_def Let_def split: if_splits sum.splits)

lemma formatted_start:
  "formatUtcWindowStart start = Inr utc \<Longrightarrow> utc = format_utc (nat start) \<and> 0 \<le> start"
  by (auto simp: formatUtcWindowStart_def Let_def split: if_splits)

lemma window_utc_determines_start:
  assumes w1: "calculateKevScheduleWindow now1 interval1 = Inr w1"
    and w2: "calculateKevScheduleWindow now2 interval2 = Inr w2"
    and same: "windowStartUtc w1 = windowStartUtc w2"
  shows "windowStartMs w1 = windowStartMs w2"
proof -
  have thousand: "(1000::int) dvd windowStartMs w1" "(1000::int) dvd windowStartMs w2"
    using window_accepted(1) [OF w1] window_accepted(1) [OF w2] by simp_all
  have "format_utc (nat (windowStartMs w1)) = format_utc (nat (windowStartMs w2))"
    using formatted_start [OF window_accepted(2) [OF w1]] formatted_start [OF window_accepted(2) [OF w2]]
      same by simp
  from format_utc_inject [OF this]
  have "windowStartMs w1 div 1000 = windowStartMs w2 div 1000"
    using window_accepted(3) [OF w1] window_accepted(3) [OF w2]
    by (metis int_nat_eq of_nat_numeral zdiv_int)
  with thousand show ?thesis by (metis dvd_div_mult_self)
qed

lemma window_key:
  "buildKevScheduleWindowDedupeKey utc = Inr key \<Longrightarrow>
   key = js ''intelligence.sync.requested.v1|cisa_kev|cisa_kev_json_catalog|window:'' @ utc"
  by (auto simp: buildKevScheduleWindowDedupeKey_def buildIntelligenceSyncDedupeKey_def Let_def
      INTELLIGENCE_SYNC_REQUESTED_EVENT_TYPE_def CISA_KEV_SOURCE_IDENTIFIER_def js_def
      split: if_splits)

lemma tick_request:
  assumes "snd (evaluateKevSyncSchedule requestSync kevEnabled interval shutdown now latest lastSuccess) = keys"
    and "keys \<noteq> []"
  shows "\<exists>window key. keys = [key] \<and> calculateKevScheduleWindow now interval = Inr window \<and>
    buildKevScheduleWindowDedupeKey (windowStartUtc window) = Inr key \<and>
    decideKevSyncDue kevEnabled shutdown now interval latest lastSuccess \<in> {due_initial, due_periodic}"
  using assms unfolding evaluateKevSyncSchedule_def Let_def
  by (auto split: kevSyncDueDecision.splits sum.splits option.splits requestSyncOutcome.splits)

text \<open>
  The scheduler asks for a synchronization only when KEV is enabled and not shutting down, no
  run is in flight, and either none has ever succeeded or a whole interval has passed since the last
  success; and it asks once.
\<close>
theorem tick_requests_only_when_due:
  assumes "snd (evaluateKevSyncSchedule requestSync kevEnabled interval shutdown now latest lastSuccess) = keys"
    and "keys \<noteq> []"
  shows "length keys = 1 \<and> kevEnabled \<and> \<not> shutdown \<and>
    (case latest of None \<Rightarrow> True | Some state \<Rightarrow> isIntelligenceTerminalSyncRunState state) \<and>
    (case lastSuccess of None \<Rightarrow> True | Some t \<Rightarrow> num_int interval * 1000 \<le> now - t)"
proof -
  obtain key where "keys = [key]"
    "decideKevSyncDue kevEnabled shutdown now interval latest lastSuccess \<in> {due_initial, due_periodic}"
    using tick_request [OF assms] by blast
  then show ?thesis
    by (auto simp: decideKevSyncDue_def Let_def isNonterminal_def split: if_splits option.splits)
qed

text \<open>
  One key per schedule window: the window a tick computes contains the clock reading, and two
  ticks with the same interval ask for the same dedupe key exactly when their clock readings lie in
  the same window, so that the unique key lets one request per window through.
\<close>
theorem schedule_key_per_window:
  assumes "snd (evaluateKevSyncSchedule req1 on1 interval stop1 now1 latest1 last1) = [key1]"
    and "snd (evaluateKevSyncSchedule req2 on2 interval stop2 now2 latest2 last2) = [key2]"
  shows "(key1 = key2 \<longleftrightarrow> now1 div (num_int interval * 1000) = now2 div (num_int interval * 1000)) \<and>
    (\<exists>w. calculateKevScheduleWindow now1 interval = Inr w \<and> windowStartMs w \<le> now1 \<and>
       now1 < windowStartMs w + num_int interval * 1000)"
proof -
  let ?i = "num_int interval * 1000"
  obtain w1 where w1: "calculateKevScheduleWindow now1 interval = Inr w1"
    "buildKevScheduleWindowDedupeKey (windowStartUtc w1) = Inr key1"
    using tick_request [OF assms(1)] by auto
  obtain w2 where w2: "calculateKevScheduleWindow now2 interval = Inr w2"
    "buildKevScheduleWindowDedupeKey (windowStartUtc w2) = Inr key2"
    using tick_request [OF assms(2)] by auto
  note start1 = window_accepted [OF w1(1)] and start2 = window_accepted [OF w2(1)]
  have "key1 = key2 \<longleftrightarrow> windowStartUtc w1 = windowStartUtc w2"
    using window_key [OF w1(2)] window_key [OF w2(2)] by auto
  also have "\<dots> \<longleftrightarrow> windowStartMs w1 = windowStartMs w2"
    using window_utc_determines_start [OF w1(1) w2(1)] start1(2) start2(2) by auto
  also have "\<dots> \<longleftrightarrow> now1 div ?i = now2 div ?i" using start1(1,4) start2(1) by simp
  finally have keys: "key1 = key2 \<longleftrightarrow> now1 div ?i = now2 div ?i" .
  have "now1 div ?i * ?i \<le> now1" "now1 < now1 div ?i * ?i + ?i"
    using div_mult_mod_eq [of now1 ?i] pos_mod_sign [OF start1(4), of now1]
      pos_mod_bound [OF start1(4), of now1] by linarith+
  with keys w1(1) start1(1) show ?thesis by auto
qed

lemma tick_at_epoch:
  assumes "0 \<le> now" "now < 3600000"
  shows "evaluateKevSyncSchedule (\<lambda>_. Some (requested_run [])) True (Integral 3600) False now None None =
    (tick_due_initial [],
     [js ''intelligence.sync.requested.v1|cisa_kev|cisa_kev_json_catalog|window:1970-01-01T00:00:00Z''])"
proof -
  have "format_utc 0 = js ''1970-01-01T00:00:00Z''"
    by (simp add: format_utc_def year_from_days.simps [of 1970] daysInYear_def daysInMonth_def
        month_from_days.simps [of 1970] pad2_def dec.simps js_def Let_def)
  moreover have "now div 3600000 = 0" using assms by simp
  moreover have "INTELLIGENCE_SCHEDULE_WINDOW_UTC_PATTERN (js ''1970-01-01T00:00:00Z'')"
    by (simp add: INTELLIGENCE_SCHEDULE_WINDOW_UTC_PATTERN_def js_def is_digit_def)
  ultimately have "calculateKevScheduleWindow now (Integral 3600) =
      Inr \<lparr>windowStartMs = 0, windowStartUtc = js ''1970-01-01T00:00:00Z''\<rparr>"
    using assms by (simp add: calculateKevScheduleWindow_def isPositiveSafeInteger_iff
        MAX_SAFE_INTEGER_def formatUtcWindowStart_def MAX_TIME_VALUE_def)
  moreover have "buildKevScheduleWindowDedupeKey (js ''1970-01-01T00:00:00Z'') =
      Inr (js ''intelligence.sync.requested.v1|cisa_kev|cisa_kev_json_catalog|window:1970-01-01T00:00:00Z'')"
    by (simp add: buildKevScheduleWindowDedupeKey_def buildIntelligenceSyncDedupeKey_def
        INTELLIGENCE_SCHEDULE_WINDOW_UTC_PATTERN_def INTELLIGENCE_SYNC_REQUESTED_EVENT_TYPE_def
        catalog_defs eval_defs)
  ultimately show ?thesis
    by (simp add: evaluateKevSyncSchedule_def decideKevSyncDue_def isPositiveSafeInteger_iff
        MAX_SAFE_INTEGER_def)
qed

lemma tick_requests_only_when_due_witness:
  "length (snd (evaluateKevSyncSchedule (\<lambda>_. Some (requested_run [])) True (Integral 3600) False
     5000 None None)) = 1"
  using tick_requests_only_when_due [of "\<lambda>_. Some (requested_run [])" True "Integral 3600" False 5000 None None]
    tick_at_epoch [of 5000] by simp

lemma schedule_key_per_window_witness:
  "\<exists>w. calculateKevScheduleWindow 5000 (Integral 3600) = Inr w \<and> windowStartMs w \<le> 5000 \<and>
     5000 < windowStartMs w + 3600000"
  using schedule_key_per_window [of "\<lambda>_. Some (requested_run [])" True "Integral 3600" False 5000 None None
      "js ''intelligence.sync.requested.v1|cisa_kev|cisa_kev_json_catalog|window:1970-01-01T00:00:00Z''"
      "\<lambda>_. Some (requested_run [])" True False 6000 None None
      "js ''intelligence.sync.requested.v1|cisa_kev|cisa_kev_json_catalog|window:1970-01-01T00:00:00Z''"]
    tick_at_epoch [of 5000] tick_at_epoch [of 6000] by simp

end
