(* ===== verification/OutboxRelay.thy ===== *)
theory OutboxRelay
  imports OutboxStore SyncSchedule Complex_Main
begin

text \<open>
  The outbox relay, \<^verbatim>\<open>packages/domain/src/sbom/relay.ts\<close>, over the two tables and the queue publisher of
  \<^verbatim>\<open>apps/worker/src/bullmq-outbox-publisher.ts\<close>. The queue itself (BullMQ) is a parameter: \<open>bqReady\<close>, \<open>bqGetJob\<close>
  and \<open>bqAdd\<close> are its three calls on a queue state, an exception being a \<open>bullError\<close>. What the relay relies on
  is \<open>queue_keeps\<close>. The identifiers the database draws, the locked rows and the random numbers are
  parameters too. Logging is not modelled.
\<close>

subsection \<open>Publishing\<close>

definition SBOM_INGEST_JOB_TYPE :: jstr where
  [catalog_defs]: "SBOM_INGEST_JOB_TYPE = js ''sbom.ingest''"

definition SBOM_INGESTION_REQUESTED_EVENT_TYPE :: jstr where
  [catalog_defs]: "SBOM_INGESTION_REQUESTED_EVENT_TYPE = js ''sbom.ingestion.requested.v1''"

definition INTELLIGENCE_SYNC_JOB_TYPE :: jstr where
  [catalog_defs]: "INTELLIGENCE_SYNC_JOB_TYPE = js ''intelligence.sync''"

record outboxQueueJob =
  ojJobId :: jstr
  ojJobType :: jstr
  ojOrganizationId :: "jstr option"
  ojOutboxEventId :: jstr
  ojAggregateType :: jstr
  ojAggregateId :: jstr
  ojEventType :: jstr
  ojDedupeKey :: jstr

text \<open>An exception: whether it is an object, the text of its \<^verbatim>\<open>code\<close> (empty without one) and its message.\<close>

record bullError =
  beObject :: bool
  beCode :: jstr
  beMessage :: jstr

record 'q bullQueue =
  bqReady :: "'q \<Rightarrow> bullError option"
  bqGetJob :: "'q \<Rightarrow> jstr \<Rightarrow> bullError + bool"
  bqAdd :: "'q \<Rightarrow> outboxQueueJob \<Rightarrow> bullError option \<times> 'q"

text \<open>The pattern \<^verbatim>\<open>/already exists/i\<close> is searched in the message with its ASCII letters lowered.\<close>

definition asciiLower :: "jstr \<Rightarrow> jstr" where
  "asciiLower text = map (\<lambda>c. if 65 \<le> c \<and> c \<le> 90 then c + 32 else c) text"

definition isDuplicateJobError :: "bullError \<Rightarrow> bool" where
  "isDuplicateJobError failure \<longleftrightarrow>
     beObject failure \<and> (beCode failure = js ''JOB_ALREADY_EXISTS'' \<or>
       includes_text (asciiLower (beMessage failure)) (js ''already exists''))"

datatype publishResult = Published bool | PublishFailed

definition caughtPublish :: "bullError \<Rightarrow> publishResult" where
  "caughtPublish failure = (if isDuplicateJobError failure then Published True else PublishFailed)"

definition publishToQueue :: "'q bullQueue \<Rightarrow> outboxQueueJob \<Rightarrow> 'q \<Rightarrow> publishResult \<times> 'q" where
  "publishToQueue bull job queue =
     (case bqReady bull queue of
        Some failure \<Rightarrow> (caughtPublish failure, queue)
      | None \<Rightarrow>
          (case bqGetJob bull queue (ojJobId job) of
             Inl failure \<Rightarrow> (caughtPublish failure, queue)
           | Inr True \<Rightarrow> (Published True, queue)
           | Inr False \<Rightarrow>
               (case bqAdd bull queue job of
                  (None, queue') \<Rightarrow> (Published False, queue')
                | (Some failure, queue') \<Rightarrow> (caughtPublish failure, queue'))))"

text \<open>
  What the queue promises: a job it finds or has added under an identifier is held under it, an
  exception names an existing job only for a job that is held, and a held job stays.
\<close>

definition queue_keeps :: "'q bullQueue \<Rightarrow> ('q \<Rightarrow> jstr \<Rightarrow> bool) \<Rightarrow> bool" where
  "queue_keeps bull holds \<longleftrightarrow>
     (\<forall>q e. bqReady bull q = Some e \<longrightarrow> \<not> isDuplicateJobError e) \<and>
     (\<forall>q i e. bqGetJob bull q i = Inl e \<longrightarrow> \<not> isDuplicateJobError e) \<and>
     (\<forall>q i. bqGetJob bull q i = Inr True \<longrightarrow> holds q i) \<and>
     (\<forall>q job e q'. bqAdd bull q job = (e, q') \<longrightarrow>
        (\<forall>i. holds q i \<longrightarrow> holds q' i) \<and>
        (case e of None \<Rightarrow> holds q' (ojJobId job)
         | Some failure \<Rightarrow> isDuplicateJobError failure \<longrightarrow> holds q' (ojJobId job)))"

lemma publish_holds:
  assumes "queue_keeps bull holds" "publishToQueue bull job q = (answer, q')"
  shows "holds q i \<Longrightarrow> holds q' i" "answer = Published dup \<Longrightarrow> holds q' (ojJobId job)"
  using assms
  by (auto simp: publishToQueue_def queue_keeps_def caughtPublish_def split: option.splits sum.splits bool.splits
      prod.splits if_splits) fastforce+

subsection \<open>Relaying one event\<close>

definition jobTypeForOutboxEvent :: "jstr \<Rightarrow> jstr option" where
  "jobTypeForOutboxEvent eventType =
     (if eventType = SBOM_INGESTION_REQUESTED_EVENT_TYPE then Some SBOM_INGEST_JOB_TYPE
      else if eventType = INTELLIGENCE_SYNC_REQUESTED_EVENT_TYPE then Some INTELLIGENCE_SYNC_JOB_TYPE
      else None)"

definition deterministicOutboxQueueJobId :: "outboxEventRecord \<Rightarrow> jstr" where
  "deterministicOutboxQueueJobId event = oeEventType event @ js ''__'' @ oeId event"

definition toQueueJob :: "outboxEventRecord \<Rightarrow> jstr \<Rightarrow> outboxQueueJob" where
  "toQueueJob event jobType =
     \<lparr>ojJobId = deterministicOutboxQueueJobId event, ojJobType = jobType,
      ojOrganizationId = oeOrganizationId event, ojOutboxEventId = oeId event,
      ojAggregateType = oeAggregateType event, ojAggregateId = oeAggregateId event,
      ojEventType = oeEventType event, ojDedupeKey = oeDedupeKey event\<rparr>"

record outboxRelayOptions =
  roBatchLimit :: jsnum
  roLeaseMs :: int
  roMaxAttempts :: int
  roRetryBaseMs :: int
  roRetryCapMs :: int

definition OUTBOX_RELAY_DEFAULTS :: outboxRelayOptions where
  "OUTBOX_RELAY_DEFAULTS =
     \<lparr>roBatchLimit = Integral 50, roLeaseMs = 30000, roMaxAttempts = 5, roRetryBaseMs = 5000,
      roRetryCapMs = 900000\<rparr>"

record outboxRelayOverrides =
  ovBatchLimit :: "jsnum option"
  ovLeaseMs :: "int option"
  ovMaxAttempts :: "int option"
  ovRetryBaseMs :: "int option"
  ovRetryCapMs :: "int option"

definition orDefault :: "'a option \<Rightarrow> 'a \<Rightarrow> 'a" where
  "orDefault given fallback = (case given of None \<Rightarrow> fallback | Some x \<Rightarrow> x)"

definition resolveOptions :: "outboxRelayOverrides option \<Rightarrow> outboxRelayOptions" where
  "resolveOptions overrides =
     (case overrides of
        None \<Rightarrow> OUTBOX_RELAY_DEFAULTS
      | Some ov \<Rightarrow>
          \<lparr>roBatchLimit = orDefault (ovBatchLimit ov) (roBatchLimit OUTBOX_RELAY_DEFAULTS),
           roLeaseMs = orDefault (ovLeaseMs ov) (roLeaseMs OUTBOX_RELAY_DEFAULTS),
           roMaxAttempts = orDefault (ovMaxAttempts ov) (roMaxAttempts OUTBOX_RELAY_DEFAULTS),
           roRetryBaseMs = orDefault (ovRetryBaseMs ov) (roRetryBaseMs OUTBOX_RELAY_DEFAULTS),
           roRetryCapMs = orDefault (ovRetryCapMs ov) (roRetryCapMs OUTBOX_RELAY_DEFAULTS)\<rparr>)"

text \<open>
  The retry delay. \<open>round_double\<close> rounds a real number to a double; the doubling of an integer and the halving
  of the random number are exact, and a doubling past the double range is cut at the cap as infinity is.
\<close>

definition outboxRetryDelayMs ::
  "(real \<Rightarrow> real) \<Rightarrow> int \<Rightarrow> outboxRelayOptions \<Rightarrow> real \<Rightarrow> int" where
  "outboxRetryDelayMs round_double attemptCount options random =
     (let exponent = nat (max 0 (attemptCount - 1));
          exponential = min (roRetryCapMs options) (roRetryBaseMs options * 2 ^ exponent);
          jitter = round_double (1 / 2 + random * (1 / 2))
      in min (roRetryCapMs options) (max 1 \<lfloor>round_double (of_int exponential * jitter)\<rfloor>))"

record 'q relayWorld =
  rwOutbox :: "outboxEventRecord list"
  rwJobs :: "backgroundJobRecord list"
  rwQueue :: 'q

record 'q relayPorts =
  rpBull :: "'q bullQueue"
  rpNewJobId :: "backgroundJobRecord list \<Rightarrow> jstr"
  rpRound :: "real \<Rightarrow> real"
  rpRandom :: "outboxEventRecord \<Rightarrow> real"

datatype relayOutcome = relay_published | relay_duplicated | relay_retried | relay_deadLettered

definition acceptedOutcome :: "bool \<Rightarrow> relayOutcome" where
  "acceptedOutcome duplicate = (if duplicate then relay_duplicated else relay_published)"

definition enqueueFor ::
  "'q relayPorts \<Rightarrow> int \<Rightarrow> outboxEventRecord \<Rightarrow> jstr \<Rightarrow> 'q relayWorld \<Rightarrow> 'q relayWorld" where
  "enqueueFor ports now event jobType w =
     w\<lparr>rwJobs := snd (enqueueQueued (rpNewJobId ports (rwJobs w)) now (oeOrganizationId event) (oeId event)
         jobType (rwJobs w))\<rparr>"

definition relayClaimedEvent ::
  "'q relayPorts \<Rightarrow> outboxRelayOptions \<Rightarrow> outboxEventRecord \<Rightarrow> int \<Rightarrow> 'q relayWorld \<Rightarrow>
   relayOutcome \<times> 'q relayWorld" where
  "relayClaimedEvent ports options event now w =
     (case (if oeAttemptCount event > roMaxAttempts options then None
            else jobTypeForOutboxEvent (oeEventType event)) of
        None \<Rightarrow>
          (relay_deadLettered, w\<lparr>rwOutbox := snd (markDeadLetter (oeOrganizationId event) (oeId event)
             (js ''internal'') (js ''processing_failed'') (rwOutbox w))\<rparr>)
      | Some jobType \<Rightarrow>
          (case publishToQueue (rpBull ports) (toQueueJob event jobType) (rwQueue w) of
             (PublishFailed, queue') \<Rightarrow>
               (relay_retried, w\<lparr>rwQueue := queue', rwOutbox := snd (markRetryableDeliveryFailure
                  (oeOrganizationId event) (oeId event) (js ''timeout'') (js ''queue_unavailable'')
                  (now + outboxRetryDelayMs (rpRound ports) (oeAttemptCount event) options
                     (rpRandom ports event)) (rwOutbox w))\<rparr>)
           | (Published duplicate, queue') \<Rightarrow>
               (case markProcessedAfterQueueAcceptance (oeOrganizationId event) (oeId event) now (rwOutbox w) of
                  (Inl _, outbox') \<Rightarrow>
                    (acceptedOutcome duplicate, w\<lparr>rwQueue := queue', rwOutbox := outbox'\<rparr>)
                | (Inr _, outbox') \<Rightarrow>
                    (acceptedOutcome duplicate,
                     enqueueFor ports now event jobType (w\<lparr>rwQueue := queue', rwOutbox := outbox'\<rparr>)))))"

subsection \<open>A batch\<close>

record outboxRelayBatchResult =
  rbClaimed :: nat
  rbPublished :: nat
  rbDuplicated :: nat
  rbRetried :: nat
  rbDeadLettered :: nat
  rbReconciledJobs :: nat

definition countOutcome :: "relayOutcome \<Rightarrow> outboxRelayBatchResult \<Rightarrow> outboxRelayBatchResult" where
  "countOutcome outcome result =
     (case outcome of
        relay_published \<Rightarrow> result\<lparr>rbPublished := rbPublished result + 1\<rparr>
      | relay_duplicated \<Rightarrow> result\<lparr>rbDuplicated := rbDuplicated result + 1\<rparr>
      | relay_retried \<Rightarrow> result\<lparr>rbRetried := rbRetried result + 1\<rparr>
      | relay_deadLettered \<Rightarrow> result\<lparr>rbDeadLettered := rbDeadLettered result + 1\<rparr>)"

fun relayLoop ::
  "'q relayPorts \<Rightarrow> outboxRelayOptions \<Rightarrow> int \<Rightarrow> outboxEventRecord list \<Rightarrow> outboxRelayBatchResult \<Rightarrow>
   'q relayWorld \<Rightarrow> outboxRelayBatchResult \<times> 'q relayWorld" where
  "relayLoop ports options now [] result w = (result, w)"
| "relayLoop ports options now (event # events) result w =
     (let (outcome, w') = relayClaimedEvent ports options event now w
      in relayLoop ports options now events (countOutcome outcome result) w')"

fun reconcileLoop ::
  "'q relayPorts \<Rightarrow> int \<Rightarrow> outboxEventRecord list \<Rightarrow> outboxRelayBatchResult \<Rightarrow> 'q relayWorld \<Rightarrow>
   outboxRelayBatchResult \<times> 'q relayWorld" where
  "reconcileLoop ports now [] result w = (result, w)"
| "reconcileLoop ports now (event # events) result w =
     (case jobTypeForOutboxEvent (oeEventType event) of
        None \<Rightarrow> reconcileLoop ports now events result w
      | Some jobType \<Rightarrow>
          reconcileLoop ports now events (result\<lparr>rbReconciledJobs := rbReconciledJobs result + 1\<rparr>)
            (enqueueFor ports now event jobType w))"

definition executeRelayBatch ::
  "'q relayPorts \<Rightarrow> outboxRelayOptions \<Rightarrow> (jstr \<Rightarrow> bool) \<Rightarrow> int \<Rightarrow> 'q relayWorld \<Rightarrow>
   outboxRelayBatchResult \<times> 'q relayWorld" where
  "executeRelayBatch ports options locked now w =
     (let (claimed, outbox') = claimDueBatch locked (roBatchLimit options) now
            (now + roLeaseMs options) (rwOutbox w);
          (result, w') = relayLoop ports options now claimed
            \<lparr>rbClaimed = length claimed, rbPublished = 0, rbDuplicated = 0, rbRetried = 0,
             rbDeadLettered = 0, rbReconciledJobs = 0\<rparr> (w\<lparr>rwOutbox := outbox'\<rparr>);
          awaiting = listProcessedAwaitingBackgroundJob (roBatchLimit options) (rwJobs w') (rwOutbox w')
      in reconcileLoop ports now awaiting result w')"

subsection \<open>Any number of relays, in any order, with crashes\<close>

text \<open>
  Relays run concurrently and may stop anywhere. The state holds the tables, the queue and the tasks
  in flight, each at the point of \<^verbatim>\<open>relayClaimedEvent\<close> it has reached: an event that was claimed, one the
  queue refused, one the queue took, and one whose row was marked processed or was found without a job.
  A step is one call of a port. Meanwhile events are created, leases expire and workers act on the jobs;
  a task may vanish with its relay at any time.
\<close>

datatype relayTask =
    Claimed outboxEventRecord int
  | Refused outboxEventRecord
  | Taken outboxEventRecord int
  | Jobless outboxEventRecord

fun taskEvent :: "relayTask \<Rightarrow> outboxEventRecord" where
  "taskEvent (Claimed e now) = e"
| "taskEvent (Refused e) = e"
| "taskEvent (Taken e now) = e"
| "taskEvent (Jobless e) = e"

record 'q relayState = "'q relayWorld" +
  rsTasks :: "relayTask list"

definition same_event :: "outboxEventRecord \<Rightarrow> outboxEventRecord \<Rightarrow> bool" where
  "same_event e r \<longleftrightarrow> oeId e = oeId r \<and> oeOrganizationId e = oeOrganizationId r \<and>
     oeEventType e = oeEventType r \<and> oeAggregateType e = oeAggregateType r \<and>
     oeAggregateId e = oeAggregateId r \<and> oeDedupeKey e = oeDedupeKey r"

inductive relay_step ::
  "'q relayPorts \<Rightarrow> outboxRelayOptions \<Rightarrow> 'q relayState \<Rightarrow> 'q relayState \<Rightarrow> bool"
  for ports options where
  claim: "claimDueBatch locked limit now lease (rwOutbox s) = (claimed, outbox') \<Longrightarrow>
    relay_step ports options s
      (s\<lparr>rwOutbox := outbox', rsTasks := rsTasks s @ map (\<lambda>e. Claimed e now) claimed\<rparr>)"
| dead_letter: "rsTasks s = xs @ Claimed e now # ys \<Longrightarrow>
    oeAttemptCount e > roMaxAttempts options \<or> jobTypeForOutboxEvent (oeEventType e) = None \<Longrightarrow>
    relay_step ports options s
      (s\<lparr>rwOutbox := snd (markDeadLetter (oeOrganizationId e) (oeId e) (js ''internal'')
         (js ''processing_failed'') (rwOutbox s)), rsTasks := xs @ ys\<rparr>)"
| refuse: "rsTasks s = xs @ Claimed e now # ys \<Longrightarrow> jobTypeForOutboxEvent (oeEventType e) = Some jobType \<Longrightarrow>
    publishToQueue (rpBull ports) (toQueueJob e jobType) (rwQueue s) = (PublishFailed, queue') \<Longrightarrow>
    relay_step ports options s (s\<lparr>rwQueue := queue', rsTasks := xs @ Refused e # ys\<rparr>)"
| take: "rsTasks s = xs @ Claimed e now # ys \<Longrightarrow> jobTypeForOutboxEvent (oeEventType e) = Some jobType \<Longrightarrow>
    publishToQueue (rpBull ports) (toQueueJob e jobType) (rwQueue s) = (Published duplicate, queue') \<Longrightarrow>
    relay_step ports options s (s\<lparr>rwQueue := queue', rsTasks := xs @ Taken e now # ys\<rparr>)"
| retry: "rsTasks s = xs @ Refused e # ys \<Longrightarrow>
    relay_step ports options s
      (s\<lparr>rwOutbox := snd (markRetryableDeliveryFailure (oeOrganizationId e) (oeId e) (js ''timeout'')
         (js ''queue_unavailable'') availableAt (rwOutbox s)), rsTasks := xs @ ys\<rparr>)"
| process: "rsTasks s = xs @ Taken e now # ys \<Longrightarrow>
    markProcessedAfterQueueAcceptance (oeOrganizationId e) (oeId e) now (rwOutbox s) = (answer, outbox') \<Longrightarrow>
    relay_step ports options s
      (s\<lparr>rwOutbox := outbox', rsTasks := xs @ (if is_ok answer then [Jobless e] else []) @ ys\<rparr>)"
| enqueue: "rsTasks s = xs @ Jobless e # ys \<Longrightarrow> jobTypeForOutboxEvent (oeEventType e) = Some jobType \<Longrightarrow>
    relay_step ports options s
      (s\<lparr>rwJobs := snd (enqueueQueued (rpNewJobId ports (rwJobs s)) now (oeOrganizationId e) (oeId e)
         jobType (rwJobs s)), rsTasks := xs @ ys\<rparr>)"
| reconcile: "relay_step ports options s
    (s\<lparr>rsTasks := rsTasks s @ map Jobless
       (filter (\<lambda>e. jobTypeForOutboxEvent (oeEventType e) \<noteq> None)
          (listProcessedAwaitingBackgroundJob limit (rwJobs s) (rwOutbox s)))\<rparr>)"
| crash: "rsTasks s = xs @ t # ys \<Longrightarrow> relay_step ports options s (s\<lparr>rsTasks := xs @ ys\<rparr>)"
| create: "oeId e \<notin> set (map oeId (rwOutbox s)) \<Longrightarrow> oeStatus e = oe_pending \<Longrightarrow>
    relay_step ports options s (s\<lparr>rwOutbox := rwOutbox s @ [e]\<rparr>)"
| expire: "relay_step ports options s
    (s\<lparr>rwOutbox := snd (expireLease organizationId eventId now (rwOutbox s))\<rparr>)"
| worker: "(\<forall>i t org event type. stmt \<noteq> OpEnqueue i t org event type) \<Longrightarrow>
    relay_step ports options s (s\<lparr>rwJobs := execJobOp stmt (rwJobs s)\<rparr>)"

end
