(* ===== verification/RelayRuns.thy ===== *)
theory RelayRuns
  imports OutboxRelay
begin

text \<open>
  What concurrent relays keep true: the invariant of the tables, the queue and the tasks in flight, and
  what one batch achieves. Every statement on the outbox changes rows in place, keeps the columns that
  identify the event and never touches a processed row.
\<close>

subsection \<open>Statements on the outbox\<close>

interpretation outbox: keyed_table oeId "\<lambda>change. \<forall>r. oeId (change r) = oeId r"
  by unfold_locales simp

lemma same_event_refl [simp]: "same_event e e"
  by (simp add: same_event_def)

lemma same_event_sym: "same_event e r \<Longrightarrow> same_event r e"
  by (simp add: same_event_def)

lemma same_event_trans: "same_event e r \<Longrightarrow> same_event r r' \<Longrightarrow> same_event e r'"
  by (simp add: same_event_def)

lemma same_event_ids:
  "same_event e r \<Longrightarrow> oeId e = oeId r"
  "same_event e r \<Longrightarrow> oeOrganizationId e = oeOrganizationId r"
  "same_event e r \<Longrightarrow> jobTypeForOutboxEvent (oeEventType e) = jobTypeForOutboxEvent (oeEventType r)"
  "same_event e r \<Longrightarrow> deterministicOutboxQueueJobId e = deterministicOutboxQueueJobId r"
  by (simp_all add: same_event_def deterministicOutboxQueueJobId_def)

text \<open>Rows that evolve: same events, processed rows untouched.\<close>

definition evolves :: "outboxEventRecord \<Rightarrow> outboxEventRecord \<Rightarrow> bool" where
  "evolves r r' \<longleftrightarrow> same_event r r' \<and> (oeStatus r = oe_processed \<longrightarrow> r' = r)"

definition outbox_evolves :: "outboxEventRecord list \<Rightarrow> outboxEventRecord list \<Rightarrow> bool" where
  "outbox_evolves rows rows' \<longleftrightarrow> list_all2 evolves rows rows'"

lemma evolves_refl [simp]: "outbox_evolves rows rows"
  by (simp add: outbox_evolves_def evolves_def list_all2_refl)

lemma updateMany_evolves:
  assumes "\<And>r. r \<in> set rows \<Longrightarrow> whr r \<Longrightarrow> oeStatus r \<noteq> oe_processed" "\<And>r. same_event r (change r)"
  shows "outbox_evolves rows (fst (updateMany whr change rows))"
  using assms by (auto simp: outbox_evolves_def list_all2_map2 list_all2_same evolves_def)

lemma evolves_keyed: "outbox_evolves rows rows' \<Longrightarrow> outbox.keyed rows \<Longrightarrow> outbox.keyed rows'"
proof -
  assume "outbox_evolves rows rows'"
  then have "map oeId rows' = map oeId rows"
    by (auto simp: outbox_evolves_def list_all2_conv_all_nth evolves_def same_event_def intro: nth_equalityI)
  then show "outbox.keyed rows \<Longrightarrow> outbox.keyed rows'" by (simp add: outbox.keyed_def)
qed

lemma evolves_forward:
  assumes "outbox_evolves rows rows'" "r \<in> set rows"
  obtains r' where "r' \<in> set rows'" "evolves r r'"
  using assms by (force simp: outbox_evolves_def list_all2_conv_all_nth in_set_conv_nth)

lemma evolves_backward:
  assumes "outbox_evolves rows rows'" "r' \<in> set rows'"
  obtains r where "r \<in> set rows" "evolves r r'"
  using assms by (force simp: outbox_evolves_def list_all2_conv_all_nth in_set_conv_nth)

lemma outbox_statement_rows:
  "snd (markDeadLetter org event category code rows) = fst (updateMany (\<lambda>r. namedEvent org event r \<and>
     oeStatus r \<in> {oe_claimed, oe_pending, oe_failed}) (deadLetterRow category code) rows)"
  "snd (markRetryableDeliveryFailure org event category code availableAt rows) =
     fst (updateMany (\<lambda>r. namedEvent org event r \<and> oeStatus r = oe_claimed)
       (retryEventRow category code availableAt) rows)"
  "snd (markProcessedAfterQueueAcceptance org event acceptedAt rows) =
     fst (updateMany (\<lambda>r. namedEvent org event r \<and> oeStatus r = oe_claimed) (processEventRow acceptedAt) rows)"
  "snd (expireLease org event now rows) =
     fst (updateMany (\<lambda>r. namedEvent org event r \<and> oeStatus r = oe_claimed \<and>
       leaseExpired now (oeLeaseExpiresAt r))
       (\<lambda>r. r\<lparr>oeStatus := oe_pending, oeClaimedAt := None, oeLeaseExpiresAt := None\<rparr>) rows)"
  by (simp_all add: markDeadLetter_def markRetryableDeliveryFailure_def expireLease_def
      markProcessedAfterQueueAcceptance_def Let_def updateMany_def)

lemmas event_row_defs = deadLetterRow_def retryEventRow_def processEventRow_def claimEventRow_def

lemma outbox_statements_evolve:
  "outbox_evolves rows (snd (markDeadLetter org event category code rows))"
  "outbox_evolves rows (snd (markRetryableDeliveryFailure org event category code availableAt rows))"
  "outbox_evolves rows (snd (markProcessedAfterQueueAcceptance org event acceptedAt rows))"
  "outbox_evolves rows (snd (expireLease org event now rows))"
  unfolding outbox_statement_rows
  by (rule updateMany_evolves; auto simp: same_event_def event_row_defs)+

text \<open>Only the acceptance statement makes a row processed, and only the row it names.\<close>

lemma newly_processed:
  assumes "r' \<in> set (snd (markProcessedAfterQueueAcceptance org event acceptedAt rows))"
    "oeStatus r' = oe_processed"
  shows "r' \<in> set rows \<or> oeId r' = event"
  using assms unfolding outbox_statement_rows
  by (auto simp: namedEvent_def processEventRow_def split: if_splits)

lemma still_processed:
  "r' \<in> set (snd (markDeadLetter org event category code rows)) \<Longrightarrow> oeStatus r' = oe_processed \<Longrightarrow> r' \<in> set rows"
  "r' \<in> set (snd (markRetryableDeliveryFailure org event category code availableAt rows)) \<Longrightarrow>
     oeStatus r' = oe_processed \<Longrightarrow> r' \<in> set rows"
  "r' \<in> set (snd (expireLease org event now rows)) \<Longrightarrow> oeStatus r' = oe_processed \<Longrightarrow> r' \<in> set rows"
  unfolding outbox_statement_rows
  by (auto simp: event_row_defs split: if_splits)

subsection \<open>Claims\<close>

interpretation available_order: preorder_cmp availableOrder
  unfolding availableOrder_def
  by (rule preorder_then [OF preorder_by_key [OF linord.preorder_cmp_axioms]
        preorder_by_key [OF jstr_order.preorder_cmp_axioms]])

lemma selectDue_selects:
  "i \<in> set (selectDue locked limit now rows) \<Longrightarrow>
   \<exists>r \<in> set rows. oeId r = i \<and> (duePending locked now r \<or> expiredClaim locked now r)"
  by (auto simp: selectDue_def Let_def split: if_splits dest!: in_set_takeD)

lemma claimDueBatch_cases:
  assumes "claimDueBatch locked limit now lease rows = (claimed, rows')"
  obtains (none) "claimed = []" "rows' = rows"
  | (some) ids where "set ids = set (selectDue locked (boundClaimLimit limit) now rows)"
      "ids = selectDue locked (boundClaimLimit limit) now rows"
      "rows' = fst (updateMany (\<lambda>r. oeId r \<in> set ids) (claimEventRow now lease) rows)"
      "claimed = List.map_filter (\<lambda>i. findFirst (\<lambda>r. oeId r = i \<and> oeClaimedAt r \<noteq> None \<and>
         oeLeaseExpiresAt r \<noteq> None) rows') ids"
  using assms by (auto simp: claimDueBatch_def Let_def split: if_splits)

lemma claim_evolves:
  assumes "claimDueBatch locked limit now lease rows = (claimed, rows')" "outbox.keyed rows"
  shows "outbox_evolves rows rows' \<and> set claimed \<subseteq> set rows' \<and>
    (\<forall>r' \<in> set rows'. oeStatus r' = oe_processed \<longrightarrow> r' \<in> set rows)"
  using assms(1)
proof (cases rule: claimDueBatch_cases)
  case none
  then show ?thesis by simp
next
  case (some ids)
  have "oeStatus r \<noteq> oe_processed" if sel: "r \<in> set rows" "oeId r \<in> set ids" for r
  proof -
    obtain r' where "r' \<in> set rows" "oeId r' = oeId r" "duePending locked now r' \<or> expiredClaim locked now r'"
      using selectDue_selects [of "oeId r" locked] sel(2) some(1) by metis
    with outbox.keyed_same [OF assms(2), of r' r] sel(1) show ?thesis
      by (auto simp: duePending_def expiredClaim_def)
  qed
  then have "outbox_evolves rows rows'"
    unfolding some(3) by (intro updateMany_evolves) (auto simp: same_event_def claimEventRow_def)
  moreover have "set claimed \<subseteq> set rows'"
    unfolding some(4) by (auto simp: List.map_filter_def dest: findFirst_SomeD)
  moreover have "\<forall>r' \<in> set rows'. oeStatus r' = oe_processed \<longrightarrow> r' \<in> set rows"
    unfolding some(3) by (auto simp: claimEventRow_def split: if_splits)
  ultimately show ?thesis by blast
qed

subsection \<open>The invariant\<close>

fun task_ok ::
  "('q \<Rightarrow> jstr \<Rightarrow> bool) \<Rightarrow> outboxEventRecord list \<Rightarrow> 'q \<Rightarrow> relayTask \<Rightarrow> bool" where
  "task_ok holds rows q (Claimed e now) \<longleftrightarrow> (\<exists>r \<in> set rows. same_event e r)"
| "task_ok holds rows q (Refused e) \<longleftrightarrow> (\<exists>r \<in> set rows. same_event e r)"
| "task_ok holds rows q (Taken e now) \<longleftrightarrow> (\<exists>r \<in> set rows. same_event e r) \<and>
     jobTypeForOutboxEvent (oeEventType e) \<noteq> None \<and> holds q (deterministicOutboxQueueJobId e)"
| "task_ok holds rows q (Jobless e) \<longleftrightarrow> (\<exists>r \<in> set rows. same_event e r \<and> oeStatus r = oe_processed)"

definition job_ok :: "outboxEventRecord list \<Rightarrow> backgroundJobRecord \<Rightarrow> bool" where
  "job_ok rows b \<longleftrightarrow> (\<exists>r \<in> set rows. oeStatus r = oe_processed \<and> bjOutboxEventId b = Some (oeId r) \<and>
     jobTypeForOutboxEvent (oeEventType r) = Some (bjJobType b) \<and> bjOrganizationId b = oeOrganizationId r)"

definition event_ok :: "('q \<Rightarrow> jstr \<Rightarrow> bool) \<Rightarrow> 'q \<Rightarrow> outboxEventRecord \<Rightarrow> bool" where
  "event_ok holds q r \<longleftrightarrow> (oeStatus r = oe_processed \<longrightarrow>
     jobTypeForOutboxEvent (oeEventType r) \<noteq> None \<and> holds q (deterministicOutboxQueueJobId r))"

definition relay_inv :: "('q \<Rightarrow> jstr \<Rightarrow> bool) \<Rightarrow> 'q relayState \<Rightarrow> bool" where
  "relay_inv holds s \<longleftrightarrow>
     outbox.keyed (rwOutbox s) \<and> list_all (event_ok holds (rwQueue s)) (rwOutbox s) \<and>
     list_all (task_ok holds (rwOutbox s) (rwQueue s)) (rsTasks s) \<and>
     list_all (job_ok (rwOutbox s)) (rwJobs s) \<and> distinct (jobEvents (rwJobs s)) \<and> jobs.keyed (rwJobs s)"

lemma task_ok_evolves:
  assumes "task_ok holds rows q t" "outbox_evolves rows rows'" "\<And>i. holds q i \<Longrightarrow> holds q' i"
  shows "task_ok holds rows' q' t"
proof -
  have "\<exists>r' \<in> set rows'. same_event e r' \<and> (oeStatus r = oe_processed \<longrightarrow> oeStatus r' = oe_processed)"
    if "r \<in> set rows" "same_event e r" for e r
    using evolves_forward [OF assms(2) that(1)] that(2) same_event_trans by (metis evolves_def)
  with assms(1,3) show ?thesis by (cases t) (auto, blast+)
qed

lemma job_ok_evolves: "job_ok rows b \<Longrightarrow> outbox_evolves rows rows' \<Longrightarrow> job_ok rows' b"
  unfolding job_ok_def by (metis evolves_def evolves_forward)

text \<open>A step on the outbox, the queue and the tasks keeps the invariant when what is new is justified.\<close>

lemma inv_change:
  assumes inv: "relay_inv holds s" and ev: "outbox_evolves (rwOutbox s) rows'"
    and q: "\<And>i. holds (rwQueue s) i \<Longrightarrow> holds q' i"
    and new: "\<And>r. r \<in> set rows' \<Longrightarrow> r \<notin> set (rwOutbox s) \<Longrightarrow> event_ok holds q' r"
    and tasks: "\<And>t. t \<in> set ts \<Longrightarrow> t \<in> set (rsTasks s) \<or> task_ok holds rows' q' t"
  shows "relay_inv holds (s\<lparr>rwOutbox := rows', rwQueue := q', rsTasks := ts\<rparr>)"
  using inv new q evolves_keyed [OF ev] task_ok_evolves [OF _ ev, of holds "rwQueue s" _ q']
    job_ok_evolves [OF _ ev] tasks
  by (auto simp: relay_inv_def list_all_iff event_ok_def, blast)

lemma inv_jobs:
  assumes "relay_inv holds s" "list_all (job_ok (rwOutbox s)) rows'" "distinct (jobEvents rows')"
    "jobs.keyed rows'" "set ts \<subseteq> set (rsTasks s)"
  shows "relay_inv holds (s\<lparr>rwJobs := rows', rsTasks := ts\<rparr>)"
  using assms by (auto simp: relay_inv_def list_all_iff)

text \<open>A statement on the jobs keeps every job tied to its event, if what it inserts is.\<close>

lemma exec_job_ok:
  assumes "list_all (job_ok rows) jobRows" "\<And>b. b \<in> set (opInserts stmt jobRows) \<Longrightarrow> job_ok rows b"
  shows "list_all (job_ok rows) (execJobOp stmt jobRows)"
proof -
  have "job_ok rows b'" if "b' \<in> set (execJobOp stmt jobRows)" for b'
    using exec_kept_row [OF that] assms by (auto simp: job_ok_def list_all_iff)
  then show ?thesis by (simp add: list_all_iff)
qed

lemma enqueue_inserts_ok:
  assumes "\<exists>r \<in> set rows. same_event e r \<and> oeStatus r = oe_processed"
    "jobTypeForOutboxEvent (oeEventType e) = Some type"
    "b \<in> set (opInserts (OpEnqueue i t (oeOrganizationId e) (oeId e) type) jobRows)"
  shows "job_ok rows b"
  using assms inserted_row [OF assms(3)] by (auto simp: job_ok_def same_event_def)

lemma enqueue_inv:
  assumes inv: "relay_inv holds s" and e: "task_ok holds (rwOutbox s) (rwQueue s) (Jobless e)"
    "jobTypeForOutboxEvent (oeEventType e) = Some type" and i: "i \<notin> set (map bjId (rwJobs s))"
    and ts: "set ts \<subseteq> set (rsTasks s)"
  shows "relay_inv holds (s\<lparr>rwJobs := snd (enqueueQueued i t (oeOrganizationId e) (oeId e) type (rwJobs s)),
    rsTasks := ts\<rparr>)"
proof -
  let ?stmt = "OpEnqueue i t (oeOrganizationId e) (oeId e) type"
  have "list_all (job_ok (rwOutbox s)) (execJobOp ?stmt (rwJobs s))"
    using inv e by (intro exec_job_ok enqueue_inserts_ok [of "rwOutbox s" e type]) (auto simp: relay_inv_def)
  moreover have "distinct (jobEvents (execJobOp ?stmt (rwJobs s)))" "jobs.keyed (execJobOp ?stmt (rwJobs s))"
    using inv i exec_one_job [of "rwJobs s" ?stmt] exec_keyed [of "rwJobs s" ?stmt]
    by (simp_all add: relay_inv_def freshOp_def)
  ultimately show ?thesis using inv_jobs [OF inv, of "execJobOp ?stmt (rwJobs s)" ts] ts by simp
qed

text \<open>What the ports promise: a queue that keeps its jobs and new identifiers that are new.\<close>

definition honest_ports :: "'q relayPorts \<Rightarrow> ('q \<Rightarrow> jstr \<Rightarrow> bool) \<Rightarrow> bool" where
  "honest_ports ports holds \<longleftrightarrow>
     queue_keeps (rpBull ports) holds \<and> (\<forall>rows. rpNewJobId ports rows \<notin> set (map bjId rows))"

lemma jobId_toQueueJob [simp]: "ojJobId (toQueueJob e type) = deterministicOutboxQueueJobId e"
  by (simp add: toQueueJob_def)

lemma awaiting_rows:
  "r \<in> set (listProcessedAwaitingBackgroundJob limit jobRows rows) \<Longrightarrow>
   r \<in> set rows \<and> awaitingJob jobRows r \<and> oeStatus r = oe_processed"
  by (auto simp: listProcessedAwaitingBackgroundJob_def awaitingJob_def Let_def split: if_splits
      dest!: in_set_takeD)

text \<open>The acceptance statement for an event the queue took: the row it makes processed is that event's.\<close>

lemma acceptance_ok:
  assumes mark: "markProcessedAfterQueueAcceptance (oeOrganizationId e) (oeId e) now rows = (answer, rows')"
    and keyed: "outbox.keyed rows" and e: "task_ok holds rows q (Taken e now')"
  shows "r \<in> set rows' \<Longrightarrow> r \<notin> set rows \<Longrightarrow> event_ok holds q r"
    and "is_ok answer \<Longrightarrow> task_ok holds rows' q (Jobless e)"
proof -
  have rows': "rows' = snd (markProcessedAfterQueueAcceptance (oeOrganizationId e) (oeId e) now rows)"
    using mark by simp
  obtain r0 where r0: "r0 \<in> set rows" "same_event e r0" using e by auto
  show "event_ok holds q r" if new: "r \<in> set rows'" "r \<notin> set rows"
  proof (cases "oeStatus r = oe_processed")
    case True
    obtain r1 where r1: "r1 \<in> set rows" "evolves r1 r"
      using evolves_backward [OF outbox_statements_evolve(3)] new(1) rows' by metis
    have "oeId r = oeId e" using newly_processed new True rows' by blast
    with r0 r1 have "r1 = r0"
      by (intro outbox.keyed_same [OF keyed]) (auto simp: evolves_def same_event_def)
    with r0 r1 have "same_event e r" using same_event_trans by (auto simp: evolves_def)
    with e show ?thesis using same_event_ids by (auto simp: event_ok_def)
  qed (simp add: event_ok_def)
  assume "is_ok answer"
  then obtain r where r: "r \<in> set rows" "namedEvent (oeOrganizationId e) (oeId e) r" "oeStatus r = oe_claimed"
    using mark by (auto simp: markProcessedAfterQueueAcceptance_def Let_def updateMany_def
        filter_empty_conv split: if_splits)
  have "r = r0" using r r0 by (intro outbox.keyed_same [OF keyed]) (auto simp: namedEvent_def same_event_def)
  moreover have "processEventRow now r \<in> set rows'"
    using r unfolding rows' outbox_statement_rows by force
  moreover have "same_event e (processEventRow now r0)" "oeStatus (processEventRow now r0) = oe_processed"
    using r0 by (auto simp: processEventRow_def same_event_def)
  ultimately show "task_ok holds rows' q (Jobless e)" by auto
qed

lemma step_inv:
  assumes "relay_step ports options s s'" "relay_inv holds s" "honest_ports ports holds"
  shows "relay_inv holds s'"
  using assms(1)
proof (cases rule: relay_step.cases)
  case (claim locked limit now lease claimed outbox')
  have keyed: "outbox.keyed (rwOutbox s)" using assms(2) by (simp add: relay_inv_def)
  note c = claim_evolves [OF claim(2) keyed]
  have "relay_inv holds (s\<lparr>rwOutbox := outbox', rwQueue := rwQueue s,
      rsTasks := rsTasks s @ map (\<lambda>e. Claimed e now) claimed\<rparr>)"
    using c assms(2) by (intro inv_change) (auto simp: event_ok_def, metis same_event_refl subsetD)
  then show ?thesis using claim(1) by simp
next
  case (dead_letter xs e now ys)
  have "relay_inv holds (s\<lparr>rwOutbox := snd (markDeadLetter (oeOrganizationId e) (oeId e) (js ''internal'')
         (js ''processing_failed'') (rwOutbox s)), rwQueue := rwQueue s, rsTasks := xs @ ys\<rparr>)"
    using assms(2) dead_letter(2) still_processed(1)
    by (intro inv_change outbox_statements_evolve) (auto simp: event_ok_def)
  then show ?thesis using dead_letter(1) by simp
next
  case (refuse xs e now ys jobType queue')
  have q: "\<And>i. holds (rwQueue s) i \<Longrightarrow> holds queue' i"
    using publish_holds(1) [OF _ refuse(4)] assms(3) by (auto simp: honest_ports_def)
  have "task_ok holds (rwOutbox s) (rwQueue s) (Claimed e now)"
    using assms(2) refuse(2) by (simp add: relay_inv_def)
  then have "relay_inv holds (s\<lparr>rwOutbox := rwOutbox s, rwQueue := queue', rsTasks := xs @ Refused e # ys\<rparr>)"
    using assms(2) refuse(2) q by (intro inv_change) auto
  then show ?thesis using refuse(1) by simp
next
  case (take xs e now ys jobType duplicate queue')
  have q: "\<And>i. holds (rwQueue s) i \<Longrightarrow> holds queue' i" "holds queue' (deterministicOutboxQueueJobId e)"
    using publish_holds [OF _ take(4)] assms(3) by (auto simp: honest_ports_def)
  have "task_ok holds (rwOutbox s) (rwQueue s) (Claimed e now)"
    using assms(2) take(2) by (simp add: relay_inv_def)
  then have "relay_inv holds (s\<lparr>rwOutbox := rwOutbox s, rwQueue := queue', rsTasks := xs @ Taken e now # ys\<rparr>)"
    using assms(2) take(2,3) q by (intro inv_change) auto
  then show ?thesis using take(1) by simp
next
  case (retry xs e ys availableAt)
  have "relay_inv holds (s\<lparr>rwOutbox := snd (markRetryableDeliveryFailure (oeOrganizationId e) (oeId e)
      (js ''timeout'') (js ''queue_unavailable'') availableAt (rwOutbox s)), rwQueue := rwQueue s,
      rsTasks := xs @ ys\<rparr>)"
    using assms(2) retry(2) still_processed(2)
    by (intro inv_change outbox_statements_evolve) (auto simp: event_ok_def)
  then show ?thesis using retry(1) by simp
next
  case (process xs e now ys answer outbox')
  have e: "task_ok holds (rwOutbox s) (rwQueue s) (Taken e now)" and keyed: "outbox.keyed (rwOutbox s)"
    using assms(2) process(2) by (simp_all add: relay_inv_def)
  note accepted = acceptance_ok [OF process(3) keyed e]
  have "outbox_evolves (rwOutbox s) outbox'"
    using outbox_statements_evolve(3) [of "rwOutbox s"] process(3) by (metis snd_conv)
  then have "relay_inv holds (s\<lparr>rwOutbox := outbox', rwQueue := rwQueue s,
      rsTasks := xs @ (if is_ok answer then [Jobless e] else []) @ ys\<rparr>)"
    using assms(2) process(2) accepted by (intro inv_change) (auto split: if_splits)
  then show ?thesis using process(1) by simp
next
  case (enqueue xs e ys jobType now)
  have "task_ok holds (rwOutbox s) (rwQueue s) (Jobless e)"
    using assms(2) enqueue(2) by (simp add: relay_inv_def)
  with enqueue_inv [OF assms(2) _ enqueue(3), of "rpNewJobId ports (rwJobs s)" "xs @ ys" now]
  show ?thesis using enqueue(1,2) assms(3) by (auto simp: honest_ports_def)
next
  case (reconcile limit)
  have "relay_inv holds (s\<lparr>rwOutbox := rwOutbox s, rwQueue := rwQueue s, rsTasks := rsTasks s @ map Jobless
       (filter (\<lambda>e. jobTypeForOutboxEvent (oeEventType e) \<noteq> None)
          (listProcessedAwaitingBackgroundJob limit (rwJobs s) (rwOutbox s)))\<rparr>)"
    using assms(2) by (intro inv_change) (auto dest!: awaiting_rows intro: same_event_refl)
  then show ?thesis using reconcile by simp
next
  case (crash xs t ys)
  have "relay_inv holds (s\<lparr>rwOutbox := rwOutbox s, rwQueue := rwQueue s, rsTasks := xs @ ys\<rparr>)"
    using assms(2) crash(2) by (intro inv_change) auto
  then show ?thesis using crash(1) by simp
next
  case (create e)
  have "task_ok holds (rwOutbox s @ [e]) q t" if "task_ok holds (rwOutbox s) q t" for q t
    using that by (cases t) auto
  moreover have "job_ok (rwOutbox s @ [e]) b" if "job_ok (rwOutbox s) b" for b
    using that by (auto simp: job_ok_def)
  ultimately show ?thesis
    using create assms(2) by (auto simp: relay_inv_def list_all_iff event_ok_def outbox.keyed_def)
next
  case (expire organizationId eventId now)
  have "relay_inv holds (s\<lparr>rwOutbox := snd (expireLease organizationId eventId now (rwOutbox s)),
      rwQueue := rwQueue s, rsTasks := rsTasks s\<rparr>)"
    using assms(2) still_processed(3)
    by (intro inv_change outbox_statements_evolve) (auto simp: event_ok_def)
  then show ?thesis using expire(1) by simp
next
  case (worker stmt)
  then have none: "opInserts stmt rows = []" "freshOp stmt rows" for rows
    by (cases stmt; simp add: freshOp_def)+
  have "relay_inv holds (s\<lparr>rwJobs := execJobOp stmt (rwJobs s), rsTasks := rsTasks s\<rparr>)"
    using assms(2) none exec_job_ok [of "rwOutbox s" "rwJobs s" stmt] exec_keyed exec_one_job
    by (intro inv_jobs) (auto simp: relay_inv_def)
  then show ?thesis using worker(1) by simp
qed

definition relay_start :: "'q \<Rightarrow> 'q relayState" where
  "relay_start q = \<lparr>rwOutbox = [], rwJobs = [], rwQueue = q, rsTasks = []\<rparr>"

lemma relay_reachable_inv:
  assumes "(relay_step ports options)\<^sup>*\<^sup>* s s'" "relay_inv holds s" "honest_ports ports holds"
  shows "relay_inv holds s'"
  using assms by (induction rule: rtranclp_induct) (auto intro: step_inv)

lemma start_inv: "relay_inv holds (relay_start q)"
  by (simp add: relay_inv_def relay_start_def outbox.keyed_def jobs.keyed_def jobEvents_def)

text \<open>
  C6. Whatever relays, workers and crashes do in whatever order, an event is delivered once: in every
  reachable state an event is marked processed only when the queue holds its job, no event has two
  background jobs, and every background job belongs to a processed event of its tenant and has the type of that
  event. The queue is only assumed to keep the jobs it took and the database to draw new identifiers.
\<close>
theorem outbox_delivers_once:
  assumes "honest_ports ports holds" "(relay_step ports options)\<^sup>*\<^sup>* (relay_start q) s"
  shows "(\<forall>r \<in> set (rwOutbox s). oeStatus r = oe_processed \<longrightarrow>
      holds (rwQueue s) (deterministicOutboxQueueJobId r)) \<and>
    distinct (jobEvents (rwJobs s)) \<and>
    (\<forall>b \<in> set (rwJobs s). \<exists>r \<in> set (rwOutbox s). bjOutboxEventId b = Some (oeId r) \<and>
      oeStatus r = oe_processed \<and> holds (rwQueue s) (deterministicOutboxQueueJobId r) \<and>
      jobTypeForOutboxEvent (oeEventType r) = Some (bjJobType b) \<and> bjOrganizationId b = oeOrganizationId r)"
proof -
  have inv: "relay_inv holds s" using relay_reachable_inv [OF assms(2) start_inv assms(1)] .
  then have "\<forall>r \<in> set (rwOutbox s). oeStatus r = oe_processed \<longrightarrow>
      holds (rwQueue s) (deterministicOutboxQueueJobId r)"
    by (auto simp: relay_inv_def list_all_iff event_ok_def)
  with inv show ?thesis by (fastforce simp: relay_inv_def list_all_iff job_ok_def)
qed

subsection \<open>The batch is a run\<close>

definition running :: "'q relayWorld \<Rightarrow> relayTask list \<Rightarrow> 'q relayState" where
  "running w ts = \<lparr>rwOutbox = rwOutbox w, rwJobs = rwJobs w, rwQueue = rwQueue w, rsTasks = ts\<rparr>"

lemma running_simps [simp]:
  "rwOutbox (running w ts) = rwOutbox w" "rwJobs (running w ts) = rwJobs w"
  "rwQueue (running w ts) = rwQueue w" "rsTasks (running w ts) = ts"
  by (simp_all add: running_def)

lemma relayClaimedEvent_run:
  assumes "relayClaimedEvent ports options e now w = (outcome, w')"
  shows "(relay_step ports options)\<^sup>*\<^sup>* (running w (Claimed e now # ts)) (running w' ts)"
proof (cases "if oeAttemptCount e > roMaxAttempts options then None
    else jobTypeForOutboxEvent (oeEventType e)")
  case None
  then have "relay_step ports options (running w (Claimed e now # ts)) (running w' ts)"
    using relay_step.dead_letter [of "running w (Claimed e now # ts)" "[]" e now ts options ports] assms
    by (auto simp: relayClaimedEvent_def running_def split: if_splits)
  then show ?thesis by blast
next
  case (Some jobType)
  then have type: "jobTypeForOutboxEvent (oeEventType e) = Some jobType" by (simp split: if_splits)
  obtain answer queue' where pub:
    "publishToQueue (rpBull ports) (toQueueJob e jobType) (rwQueue w) = (answer, queue')" by fastforce
  show ?thesis
  proof (cases answer)
    case PublishFailed
    let ?mid = "running (w\<lparr>rwQueue := queue'\<rparr>) (Refused e # ts)"
    have "relay_step ports options (running w (Claimed e now # ts)) ?mid"
      using relay_step.refuse [of "running w (Claimed e now # ts)" "[]" e now ts jobType ports queue' options]
        type pub PublishFailed by (simp add: running_def)
    moreover have "relay_step ports options ?mid (running w' ts)"
      using relay_step.retry [of ?mid "[]" e ts ports options] assms Some pub PublishFailed
      by (auto simp: relayClaimedEvent_def running_def)
    ultimately show ?thesis by (metis (no_types, lifting) converse_rtranclp_into_rtranclp r_into_rtranclp)
  next
    case (Published duplicate)
    obtain stored outbox' where mark:
      "markProcessedAfterQueueAcceptance (oeOrganizationId e) (oeId e) now (rwOutbox w) = (stored, outbox')"
      by fastforce
    let ?w1 = "w\<lparr>rwQueue := queue'\<rparr>" and ?w2 = "w\<lparr>rwQueue := queue', rwOutbox := outbox'\<rparr>"
    have 1: "relay_step ports options (running w (Claimed e now # ts)) (running ?w1 (Taken e now # ts))"
      using relay_step.take [of "running w (Claimed e now # ts)" "[]" e now ts jobType ports duplicate queue' options]
        type pub Published by (simp add: running_def)
    have 2: "relay_step ports options (running ?w1 (Taken e now # ts))
        (running ?w2 ((if is_ok stored then [Jobless e] else []) @ ts))"
      using relay_step.process [of "running ?w1 (Taken e now # ts)" "[]" e now ts stored outbox' ports options]
        mark by (simp add: running_def)
    have 3: "(relay_step ports options)\<^sup>*\<^sup>* (running ?w2 ((if is_ok stored then [Jobless e] else []) @ ts))
        (running w' ts)"
    proof (cases stored)
      case (Inl err)
      then show ?thesis using assms Some pub Published mark
        by (auto simp: relayClaimedEvent_def)
    next
      case (Inr row)
      then have "w' = enqueueFor ports now e jobType ?w2"
        using assms Some pub Published mark by (auto simp: relayClaimedEvent_def)
      then have "relay_step ports options (running ?w2 (Jobless e # ts)) (running w' ts)"
        using relay_step.enqueue [of "running ?w2 (Jobless e # ts)" "[]" e ts jobType ports options now] type
        by (simp add: running_def enqueueFor_def)
      with Inr show ?thesis by auto
    qed
    show ?thesis using 1 2 3 by (meson converse_rtranclp_into_rtranclp)
  qed
qed

lemma relayLoop_run:
  "relayLoop ports options now events result w = (result', w') \<Longrightarrow>
   (relay_step ports options)\<^sup>*\<^sup>* (running w (map (\<lambda>e. Claimed e now) events @ ts)) (running w' ts)"
proof (induction events arbitrary: result w)
  case (Cons e events)
  obtain outcome w1 where w1: "relayClaimedEvent ports options e now w = (outcome, w1)" by fastforce
  with Cons show ?case
    using relayClaimedEvent_run [OF w1, of "map (\<lambda>e. Claimed e now) events @ ts"]
    by (auto intro: rtranclp_trans)
qed simp

lemma reconcileLoop_run:
  "reconcileLoop ports now events result w = (result', w') \<Longrightarrow>
   (relay_step ports options)\<^sup>*\<^sup>*
     (running w (map Jobless (filter (\<lambda>e. jobTypeForOutboxEvent (oeEventType e) \<noteq> None) events) @ ts))
     (running w' ts)"
proof (induction events arbitrary: result w)
  case (Cons e events)
  show ?case
  proof (cases "jobTypeForOutboxEvent (oeEventType e)")
    case (Some jobType)
    let ?rest = "map Jobless (filter (\<lambda>e. jobTypeForOutboxEvent (oeEventType e) \<noteq> None) events) @ ts"
    have "relay_step ports options (running w (Jobless e # ?rest)) (running (enqueueFor ports now e jobType w) ?rest)"
      using relay_step.enqueue [of "running w (Jobless e # ?rest)" "[]" e ?rest jobType ports options now] Some
      by (simp add: running_def enqueueFor_def)
    with Cons Some show ?thesis by (auto intro: converse_rtranclp_into_rtranclp)
  qed (use Cons in auto)
qed simp

lemma executeRelayBatch_parts:
  assumes "executeRelayBatch ports options locked now w = (result, w')"
  obtains claimed outbox' result1 w2 where
    "claimDueBatch locked (roBatchLimit options) now (now + roLeaseMs options) (rwOutbox w) = (claimed, outbox')"
    "relayLoop ports options now claimed
      \<lparr>rbClaimed = length claimed, rbPublished = 0, rbDuplicated = 0, rbRetried = 0, rbDeadLettered = 0,
       rbReconciledJobs = 0\<rparr> (w\<lparr>rwOutbox := outbox'\<rparr>) = (result1, w2)"
    "reconcileLoop ports now (listProcessedAwaitingBackgroundJob (roBatchLimit options) (rwJobs w2) (rwOutbox w2))
      result1 w2 = (result, w')"
  using assms by (auto simp: executeRelayBatch_def split: prod.splits)

lemma claim_run:
  assumes "claimDueBatch locked limit now lease (rwOutbox w) = (claimed, outbox')"
  shows "relay_step ports options (running w [])
    (running (w\<lparr>rwOutbox := outbox'\<rparr>) (map (\<lambda>e. Claimed e now) claimed))"
  using relay_step.claim [of locked limit now lease "running w []"] assms by (simp add: running_def)

lemma reconcile_run:
  assumes "reconcileLoop ports now (listProcessedAwaitingBackgroundJob limit (rwJobs w) (rwOutbox w)) result w =
    (result', w')"
  shows "(relay_step ports options)\<^sup>*\<^sup>* (running w []) (running w' [])"
proof -
  have "relay_step ports options (running w []) (running w (map Jobless
      (filter (\<lambda>e. jobTypeForOutboxEvent (oeEventType e) \<noteq> None)
        (listProcessedAwaitingBackgroundJob limit (rwJobs w) (rwOutbox w)))))"
    using relay_step.reconcile [of ports options "running w []" limit] by (simp add: running_def)
  with reconcileLoop_run [OF assms, of options "[]"] show ?thesis
    by (auto intro: converse_rtranclp_into_rtranclp)
qed

lemma executeRelayBatch_run:
  assumes "executeRelayBatch ports options locked now w = (result, w')"
  shows "(relay_step ports options)\<^sup>*\<^sup>* (running w []) (running w' [])"
proof -
  obtain claimed outbox' result1 w2 where claim:
    "claimDueBatch locked (roBatchLimit options) now (now + roLeaseMs options) (rwOutbox w) = (claimed, outbox')"
    and loop: "relayLoop ports options now claimed
      \<lparr>rbClaimed = length claimed, rbPublished = 0, rbDuplicated = 0, rbRetried = 0, rbDeadLettered = 0,
       rbReconciledJobs = 0\<rparr> (w\<lparr>rwOutbox := outbox'\<rparr>) = (result1, w2)"
    and rest: "reconcileLoop ports now
      (listProcessedAwaitingBackgroundJob (roBatchLimit options) (rwJobs w2) (rwOutbox w2)) result1 w2 = (result, w')"
    using executeRelayBatch_parts [OF assms] .
  show ?thesis
    using claim_run [OF claim, of ports options] relayLoop_run [OF loop, of "[]"]
      reconcile_run [OF rest, of options]
    by simp
qed

subsection \<open>What a batch achieves\<close>

text \<open>Processed rows and jobs are never lost on a run.\<close>

lemma step_monotone:
  assumes "relay_step ports options s s'" "relay_inv holds s"
  shows "(r \<in> set (rwOutbox s) \<and> oeStatus r = oe_processed \<longrightarrow> r \<in> set (rwOutbox s')) \<and>
    set (jobEvents (rwJobs s)) \<subseteq> set (jobEvents (rwJobs s'))"
proof -
  have stays: "r \<in> set rows'" if "outbox_evolves (rwOutbox s) rows'" "r \<in> set (rwOutbox s)"
    "oeStatus r = oe_processed" for rows'
    using evolves_forward [OF that(1,2)] that(3) by (metis evolves_def)
  note ev = outbox_statements_evolve [of "rwOutbox s"]
  from assms(1) show ?thesis
  proof (cases rule: relay_step.cases)
    case (claim locked limit now lease claimed outbox')
    have "outbox_evolves (rwOutbox s) outbox'"
      using claim_evolves [OF claim(2)] assms(2) by (simp add: relay_inv_def)
    then show ?thesis using claim stays by auto
  next
    case (process xs e now ys answer outbox')
    then have "outbox_evolves (rwOutbox s) outbox'" using ev(3) by (metis snd_conv)
    then show ?thesis using process stays by auto
  next
    case (enqueue xs e ys jobType now)
    then show ?thesis
      using exec_jobEvents [of "OpEnqueue (rpNewJobId ports (rwJobs s)) now (oeOrganizationId e) (oeId e) jobType"]
      by auto
  qed (use stays ev exec_jobEvents in auto)
qed

lemma run_monotone:
  assumes "(relay_step ports options)\<^sup>*\<^sup>* s s'" "relay_inv holds s" "honest_ports ports holds"
    "r \<in> set (rwOutbox s)" "oeStatus r = oe_processed"
  shows "r \<in> set (rwOutbox s')" "set (jobEvents (rwJobs s)) \<subseteq> set (jobEvents (rwJobs s'))"
proof -
  have "relay_inv holds s' \<and> r \<in> set (rwOutbox s') \<and> set (jobEvents (rwJobs s)) \<subseteq> set (jobEvents (rwJobs s'))"
    using assms(1)
  proof (induction rule: rtranclp_induct)
    case (step y z)
    then show ?case using step_inv [OF step(2)] step_monotone [OF step(2)] assms(3,5) by blast
  qed (use assms in auto)
  then show "r \<in> set (rwOutbox s')" "set (jobEvents (rwJobs s)) \<subseteq> set (jobEvents (rwJobs s'))" by auto
qed

lemma relayClaimedEvent_outbox:
  assumes "relayClaimedEvent ports options e now w = (outcome, w')"
  shows "rwOutbox w' = snd (markDeadLetter (oeOrganizationId e) (oeId e) (js ''internal'')
      (js ''processing_failed'') (rwOutbox w)) \<or>
    (\<exists>t. rwOutbox w' = snd (markRetryableDeliveryFailure (oeOrganizationId e) (oeId e) (js ''timeout'')
      (js ''queue_unavailable'') t (rwOutbox w))) \<or>
    rwOutbox w' = snd (markProcessedAfterQueueAcceptance (oeOrganizationId e) (oeId e) now (rwOutbox w)) \<and>
      (is_ok (fst (markProcessedAfterQueueAcceptance (oeOrganizationId e) (oeId e) now (rwOutbox w))) \<longrightarrow>
       oeId e \<in> set (jobEvents (rwJobs w')))"
  using assms
  by (auto simp: relayClaimedEvent_def enqueueFor_def set_jobEvents enqueueQueued_rows split: option.splits publishResult.splits prod.splits
      sum.splits if_splits)

lemma relayClaimedEvent_other:
  assumes "relayClaimedEvent ports options e now w = (outcome, w')" "r \<in> set (rwOutbox w)" "oeId r \<noteq> oeId e"
  shows "r \<in> set (rwOutbox w')"
proof -
  have keep: "r \<in> set (fst (updateMany (\<lambda>r. namedEvent org (oeId e) r \<and> P r) change (rwOutbox w)))"
    for org P change
    using assms(2,3) by (force simp: namedEvent_def)
  show ?thesis
    using relayClaimedEvent_outbox [OF assms(1)]
  proof (elim disjE exE conjE)
  qed (simp_all only: outbox_statement_rows keep)
qed

lemma relayLoop_other:
  "relayLoop ports options now events result w = (result', w') \<Longrightarrow> r \<in> set (rwOutbox w) \<Longrightarrow>
   oeId r \<notin> oeId ` set events \<Longrightarrow> r \<in> set (rwOutbox w')"
proof (induction events arbitrary: result w)
  case (Cons e events)
  obtain outcome w1 where w1: "relayClaimedEvent ports options e now w = (outcome, w1)" by fastforce
  have "r \<in> set (rwOutbox w1)" using relayClaimedEvent_other [OF w1] Cons.prems by auto
  with Cons w1 show ?case by auto
qed simp

lemma relayLoop_append:
  "relayLoop ports options now (events @ events') result w =
     (let (result', w') = relayLoop ports options now events result w
      in relayLoop ports options now events' result' w')"
  by (induction events arbitrary: result w) (auto split: prod.splits)

text \<open>An event whose row is still claimed is processed and has its job when the queue takes it.\<close>

lemma relayClaimedEvent_delivers:
  assumes "e \<in> set (rwOutbox w)" "oeStatus e = oe_claimed"
    and "oeAttemptCount e \<le> roMaxAttempts options" "jobTypeForOutboxEvent (oeEventType e) = Some jobType"
    and "publishToQueue (rpBull ports) (toQueueJob e jobType) (rwQueue w) = (Published duplicate, queue')"
    and "relayClaimedEvent ports options e now w = (outcome, w')"
  shows "processEventRow now e \<in> set (rwOutbox w')" "oeId e \<in> set (jobEvents (rwJobs w'))"
proof -
  let ?rows = "fst (updateMany (\<lambda>r. namedEvent (oeOrganizationId e) (oeId e) r \<and> oeStatus r = oe_claimed)
    (processEventRow now) (rwOutbox w))"
  have row: "processEventRow now e \<in> set ?rows" using assms(1,2) by (force simp: namedEvent_def)
  then obtain r where "findFirst (namedEvent (oeOrganizationId e) (oeId e)) ?rows = Some r"
    using findFirst_None_iff [of "namedEvent (oeOrganizationId e) (oeId e)" ?rows]
    by (fastforce simp: namedEvent_def processEventRow_def)
  then have load: "loadEvent (oeOrganizationId e) (oeId e) ?rows = Inr r" by (simp add: loadEvent_def)
  have "snd (updateMany (\<lambda>r. namedEvent (oeOrganizationId e) (oeId e) r \<and> oeStatus r = oe_claimed)
      (processEventRow now) (rwOutbox w)) \<noteq> 0"
    using assms(1,2) by (auto simp: updateMany_none namedEvent_def)
  with load have "markProcessedAfterQueueAcceptance (oeOrganizationId e) (oeId e) now (rwOutbox w) = (Inr r, ?rows)"
    by (simp add: markProcessedAfterQueueAcceptance_def Let_def updateMany_def)
  with assms(3-6) have w': "w' = enqueueFor ports now e jobType (w\<lparr>rwQueue := queue', rwOutbox := ?rows\<rparr>)"
    by (simp add: relayClaimedEvent_def)
  show "processEventRow now e \<in> set (rwOutbox w')" using row by (simp add: w' enqueueFor_def)
  show "oeId e \<in> set (jobEvents (rwJobs w'))"
    by (auto simp: w' enqueueFor_def set_jobEvents enqueueQueued_rows)
qed

lemma claimEventRow_columns [simp]:
  "oeId (claimEventRow now lease r) = oeId r" "oeClaimedAt (claimEventRow now lease r) = Some now"
  "oeLeaseExpiresAt (claimEventRow now lease r) = Some lease"
  "oeStatus (claimEventRow now lease r) = oe_claimed" "oeEventType (claimEventRow now lease r) = oeEventType r"
  "oeAttemptCount (claimEventRow now lease r) = oeAttemptCount r + 1"
  by (simp_all add: claimEventRow_def)

lemma claim_takes_due:
  assumes "claimDueBatch locked limit now lease rows = (claimed, rows')" "outbox.keyed rows"
    and "r \<in> set rows" "duePending locked now r"
    and "length (filter (duePending locked now) rows) \<le> boundClaimLimit limit"
  shows "claimEventRow now lease r \<in> set rows'" "oeId r \<in> oeId ` set claimed"
proof -
  have pos: "0 < boundClaimLimit limit"
    using assms(3-5) by (metis filter_empty_conv gr0I le_zero_eq length_0_conv)
  have sel: "oeId r \<in> set (selectDue locked (boundClaimLimit limit) now rows)"
    using assms(3-5) by (auto simp: selectDue_def Let_def)
  then have rows': "rows' = fst (updateMany (\<lambda>r. oeId r \<in> set (selectDue locked (boundClaimLimit limit) now rows))
      (claimEventRow now lease) rows)"
    and claimed: "claimed = List.map_filter (\<lambda>i. findFirst (\<lambda>r. oeId r = i \<and> oeClaimedAt r \<noteq> None \<and>
         oeLeaseExpiresAt r \<noteq> None) rows') (selectDue locked (boundClaimLimit limit) now rows)"
    using assms(1) pos by (auto simp: claimDueBatch_def Let_def split: if_splits)
  show row: "claimEventRow now lease r \<in> set rows'" using sel assms(3) unfolding rows' by force
  have "findFirst (\<lambda>r'. oeId r' = oeId r \<and> oeClaimedAt r' \<noteq> None \<and> oeLeaseExpiresAt r' \<noteq> None) rows' \<noteq> None"
    using row unfolding findFirst_None_iff by (metis claimEventRow_columns option.distinct(1))
  then obtain e where e: "findFirst (\<lambda>r'. oeId r' = oeId r \<and> oeClaimedAt r' \<noteq> None \<and>
      oeLeaseExpiresAt r' \<noteq> None) rows' = Some e" by blast
  then have "e \<in> set claimed"
    unfolding claimed List.map_filter_def using sel by (auto intro!: image_eqI [of _ _ "oeId r"])
  moreover have "oeId e = oeId r" using findFirst_SomeD [OF e] by simp
  ultimately show "oeId r \<in> oeId ` set claimed" by (metis imageI)
qed

lemma batch_delivers:
  assumes ports: "honest_ports ports holds"
    and reach: "(relay_step ports options)\<^sup>*\<^sup>* (relay_start q) (running w [])"
    and due: "r \<in> set (rwOutbox w)" "duePending locked now r"
    and room: "length (filter (duePending locked now) (rwOutbox w)) \<le> boundClaimLimit (roBatchLimit options)"
    and known: "jobTypeForOutboxEvent (oeEventType r) \<noteq> None" "oeAttemptCount r < roMaxAttempts options"
    and working: "\<forall>job q. \<exists>duplicate q'. publishToQueue (rpBull ports) job q = (Published duplicate, q')"
    and batch: "executeRelayBatch ports options locked now w = (result, w')"
  shows "\<exists>r' \<in> set (rwOutbox w'). oeId r' = oeId r \<and> oeStatus r' = oe_processed \<and>
    oeId r \<in> set (jobEvents (rwJobs w'))"
proof -
  have inv: "relay_inv holds (running w [])" using relay_reachable_inv [OF reach start_inv ports] .
  obtain claimed outbox' result1 w2 where claim:
    "claimDueBatch locked (roBatchLimit options) now (now + roLeaseMs options) (rwOutbox w) = (claimed, outbox')"
    and loop: "relayLoop ports options now claimed
      \<lparr>rbClaimed = length claimed, rbPublished = 0, rbDuplicated = 0, rbRetried = 0, rbDeadLettered = 0,
       rbReconciledJobs = 0\<rparr> (w\<lparr>rwOutbox := outbox'\<rparr>) = (result1, w2)"
    and rest: "reconcileLoop ports now
      (listProcessedAwaitingBackgroundJob (roBatchLimit options) (rwJobs w2) (rwOutbox w2)) result1 w2 = (result, w')"
    using executeRelayBatch_parts [OF batch] .
  have keyed: "outbox.keyed (rwOutbox w)" using inv by (simp add: relay_inv_def)
  let ?e = "claimEventRow now (now + roLeaseMs options) r" and ?w1 = "w\<lparr>rwOutbox := outbox'\<rparr>"
  note took = claim_takes_due [OF claim keyed due room]
  have keyed': "outbox.keyed outbox'" and sub: "set claimed \<subseteq> set outbox'"
    using claim_evolves [OF claim keyed] evolves_keyed keyed by auto
  obtain pre e post where split: "claimed = pre @ e # post" "oeId e = oeId r" "\<forall>x \<in> set pre. oeId x \<noteq> oeId r"
    using took(2) split_list_first_prop [of claimed "\<lambda>x. oeId x = oeId r"]
    by (metis (no_types, lifting) imageE)
  have e: "e = ?e" using outbox.keyed_same [OF keyed', of e ?e] took(1) sub split by auto
  obtain res_a wa where pre: "relayLoop ports options now pre
      \<lparr>rbClaimed = length claimed, rbPublished = 0, rbDuplicated = 0, rbRetried = 0, rbDeadLettered = 0,
       rbReconciledJobs = 0\<rparr> ?w1 = (res_a, wa)" by fastforce
  obtain outcome wb where here: "relayClaimedEvent ports options e now wa = (outcome, wb)" by fastforce
  have post: "relayLoop ports options now post (countOutcome outcome res_a) wb = (result1, w2)"
    using loop split(1) pre here by (simp add: relayLoop_append)
  have "oeId e \<notin> oeId ` set pre" using split(2,3) by force
  with relayLoop_other [OF pre, of e] took(1) e have "e \<in> set (rwOutbox wa)" by simp
  moreover obtain jobType where "jobTypeForOutboxEvent (oeEventType e) = Some jobType" using known(1) e by auto
  moreover obtain duplicate q' where
    "publishToQueue (rpBull ports) (toQueueJob e jobType) (rwQueue wa) = (Published duplicate, q')"
    using working by blast
  ultimately have delivered: "processEventRow now e \<in> set (rwOutbox wb)" "oeId e \<in> set (jobEvents (rwJobs wb))"
    using relayClaimedEvent_delivers [OF _ _ _ _ _ here, of jobType duplicate q'] known(2) e by auto
  let ?tasks = "\<lambda>es. map (\<lambda>e. Claimed e now) es"
  have "(relay_step ports options)\<^sup>*\<^sup>* (running w []) (running wb (?tasks post))"
    using claim_run [OF claim, of ports options] relayLoop_run [OF pre, of "?tasks (e # post)"]
      relayClaimedEvent_run [OF here, of "?tasks post"] split(1)
    by (simp del: append_Cons)
  then have inv_b: "relay_inv holds (running wb (?tasks post))" by (rule relay_reachable_inv [OF _ inv ports])
  have "(relay_step ports options)\<^sup>*\<^sup>* (running wb (?tasks post)) (running w' [])"
    using relayLoop_run [OF post, of "[]"] reconcile_run [OF rest, of options] by simp
  note kept = run_monotone [OF this inv_b ports, of "processEventRow now e"]
  have "oeStatus (processEventRow now e) = oe_processed" "oeId (processEventRow now e) = oeId r"
    using e by (simp_all add: processEventRow_def)
  with kept delivered e show ?thesis by auto
qed

text \<open>
  C17. A due event is delivered: from any state the relays can reach, one batch over a queue that takes jobs
  leaves every event that was pending, due, of a known type and below the attempt limit processed and with
  its background job, as long as the batch limit has room for the due events.
\<close>
theorem relay_delivers_due:
  assumes ports: "honest_ports ports holds"
    and reach: "(relay_step ports options)\<^sup>*\<^sup>* (relay_start q) (running w [])"
    and due: "r \<in> set (rwOutbox w)" "duePending locked now r"
    and room: "length (filter (duePending locked now) (rwOutbox w)) \<le> boundClaimLimit (roBatchLimit options)"
    and known: "jobTypeForOutboxEvent (oeEventType r) \<noteq> None" "oeAttemptCount r < roMaxAttempts options"
    and working: "\<forall>job q. \<exists>duplicate q'. publishToQueue (rpBull ports) job q = (Published duplicate, q')"
    and batch: "executeRelayBatch ports options locked now w = (result, w')"
  shows "\<exists>r' \<in> set (rwOutbox w'). oeId r' = oeId r \<and> oeStatus r' = oe_processed \<and>
    oeId r \<in> set (jobEvents (rwJobs w'))"
  using assms by (rule batch_delivers)

text \<open>An event that has no job stays without one only if nobody relays it.\<close>

definition awaiting :: "'q relayWorld \<Rightarrow> outboxEventRecord list" where
  "awaiting w = filter (awaitingJob (rwJobs w)) (rwOutbox w)"

lemma set_awaiting:
  "r \<in> set (awaiting w) \<longleftrightarrow>
     r \<in> set (rwOutbox w) \<and> oeStatus r = oe_processed \<and> oeId r \<notin> set (jobEvents (rwJobs w))"
  by (auto simp: awaiting_def awaitingJob_def list_ex_iff set_jobEvents)

lemma acceptance_answer:
  assumes "r \<in> set (snd (markProcessedAfterQueueAcceptance org event now rows))" "r \<notin> set rows"
  shows "is_ok (fst (markProcessedAfterQueueAcceptance org event now rows))"
proof -
  let ?hit = "\<lambda>r. namedEvent org event r \<and> oeStatus r = oe_claimed"
  have "r \<in> set (fst (updateMany ?hit (processEventRow now) rows))"
    using assms(1) unfolding outbox_statement_rows .
  then obtain x where x: "x \<in> set rows" "?hit x" "r = processEventRow now x"
    using assms(2) by (auto split: if_splits)
  have "namedEvent org event r" using x by (simp add: namedEvent_def processEventRow_def)
  with assms(1) have "findFirst (namedEvent org event)
      (snd (markProcessedAfterQueueAcceptance org event now rows)) \<noteq> None"
    by (auto simp: findFirst_None_iff)
  moreover have "snd (updateMany ?hit (processEventRow now) rows) \<noteq> 0"
    using x by (auto simp: updateMany_none)
  ultimately show ?thesis
    by (auto simp: markProcessedAfterQueueAcceptance_def Let_def updateMany_def loadEvent_def split: option.splits)
qed

lemma relayClaimedEvent_jobs:
  assumes "relayClaimedEvent ports options e now w = (outcome, w')"
  shows "set (jobEvents (rwJobs w)) \<subseteq> set (jobEvents (rwJobs w'))"
  using assms
  by (auto simp: relayClaimedEvent_def enqueueFor_def enqueueQueued_rows split: option.splits publishResult.splits
      prod.splits sum.splits if_splits)

lemma relayClaimedEvent_awaiting:
  assumes "relayClaimedEvent ports options e now w = (outcome, w')"
  shows "set (awaiting w') \<subseteq> set (awaiting w)"
proof
  fix r
  assume r: "r \<in> set (awaiting w')"
  then have in': "r \<in> set (rwOutbox w')" "oeStatus r = oe_processed" "oeId r \<notin> set (jobEvents (rwJobs w'))"
    by (simp_all add: set_awaiting)
  have "r \<in> set (rwOutbox w)"
    using relayClaimedEvent_outbox [OF assms]
  proof (elim disjE exE conjE)
    assume mark: "rwOutbox w' = snd (markProcessedAfterQueueAcceptance (oeOrganizationId e) (oeId e) now (rwOutbox w))"
      and job: "is_ok (fst (markProcessedAfterQueueAcceptance (oeOrganizationId e) (oeId e) now (rwOutbox w))) \<longrightarrow>
        oeId e \<in> set (jobEvents (rwJobs w'))"
    show ?thesis
    proof (rule ccontr)
      assume new: "r \<notin> set (rwOutbox w)"
      then have "oeId r = oeId e" using newly_processed in' mark by metis
      moreover have "is_ok (fst (markProcessedAfterQueueAcceptance (oeOrganizationId e) (oeId e) now (rwOutbox w)))"
        using acceptance_answer in' mark new by metis
      ultimately show False using job in'(3) by simp
    qed
  qed (use in' still_processed in metis)+
  with in' relayClaimedEvent_jobs [OF assms] show "r \<in> set (awaiting w)" by (auto simp: set_awaiting)
qed

lemma relayLoop_awaiting:
  "relayLoop ports options now events result w = (result', w') \<Longrightarrow> set (awaiting w') \<subseteq> set (awaiting w)"
proof (induction events arbitrary: result w)
  case (Cons e events)
  obtain outcome w1 where w1: "relayClaimedEvent ports options e now w = (outcome, w1)" by fastforce
  with Cons relayClaimedEvent_awaiting [OF w1] show ?case by fastforce
qed simp

lemma reconcileLoop_jobs:
  "reconcileLoop ports now events result w = (result', w') \<Longrightarrow>
   rwOutbox w' = rwOutbox w \<and> set (jobEvents (rwJobs w)) \<subseteq> set (jobEvents (rwJobs w')) \<and>
   (\<forall>e \<in> set events. jobTypeForOutboxEvent (oeEventType e) \<noteq> None \<longrightarrow> oeId e \<in> set (jobEvents (rwJobs w')))"
proof (induction events arbitrary: result w)
  case (Cons e events)
  show ?case
  proof (cases "jobTypeForOutboxEvent (oeEventType e)")
    case (Some jobType)
    have "oeId e \<in> set (jobEvents (rwJobs (enqueueFor ports now e jobType w))) \<and>
        set (jobEvents (rwJobs w)) \<subseteq> set (jobEvents (rwJobs (enqueueFor ports now e jobType w)))"
      by (auto simp: enqueueFor_def set_jobEvents enqueueQueued_rows)
    with Cons Some show ?thesis by (fastforce simp: enqueueFor_def)
  qed (use Cons in auto)
qed simp

lemma distinct_length_subset: "distinct xs \<Longrightarrow> set xs \<subseteq> set ys \<Longrightarrow> length xs \<le> length ys"
  by (metis List.finite_set card_length card_mono distinct_card le_trans)

text \<open>
  C40. Crashes are repaired: whatever state relays that stopped midway have left, one batch leaves no
  processed event without its background job, as long as no more than the batch limit were without one.
\<close>
theorem relay_repairs_crashes:
  assumes ports: "honest_ports ports holds"
    and reach: "(relay_step ports options)\<^sup>*\<^sup>* (relay_start q) (running w [])"
    and room: "length (awaiting w) \<le> boundClaimLimit (roBatchLimit options)"
    and batch: "executeRelayBatch ports options locked now w = (result, w')"
  shows "awaiting w' = []"
proof -
  have inv: "relay_inv holds (running w [])" using relay_reachable_inv [OF reach start_inv ports] .
  obtain claimed outbox' result1 w2 where claim:
    "claimDueBatch locked (roBatchLimit options) now (now + roLeaseMs options) (rwOutbox w) = (claimed, outbox')"
    and loop: "relayLoop ports options now claimed
      \<lparr>rbClaimed = length claimed, rbPublished = 0, rbDuplicated = 0, rbRetried = 0, rbDeadLettered = 0,
       rbReconciledJobs = 0\<rparr> (w\<lparr>rwOutbox := outbox'\<rparr>) = (result1, w2)"
    and rest: "reconcileLoop ports now
      (listProcessedAwaitingBackgroundJob (roBatchLimit options) (rwJobs w2) (rwOutbox w2)) result1 w2 = (result, w')"
    using executeRelayBatch_parts [OF batch] .
  have keyed: "outbox.keyed (rwOutbox w)" using inv by (simp add: relay_inv_def)
  have "set (awaiting (w\<lparr>rwOutbox := outbox'\<rparr>)) \<subseteq> set (awaiting w)"
    using claim_evolves [OF claim keyed] by (auto simp: set_awaiting)
  with relayLoop_awaiting [OF loop] have sub: "set (awaiting w2) \<subseteq> set (awaiting w)" by blast
  have "(relay_step ports options)\<^sup>*\<^sup>* (running w []) (running w2 [])"
    using claim_run [OF claim, of ports options] relayLoop_run [OF loop, of "[]"]
    by (simp add: converse_rtranclp_into_rtranclp)
  then have inv2: "relay_inv holds (running w2 [])" by (rule relay_reachable_inv [OF _ inv ports])
  then have "distinct (awaiting w2)"
    by (auto simp: relay_inv_def outbox.keyed_def awaiting_def distinct_map)
  then have "length (awaiting w2) \<le> boundClaimLimit (roBatchLimit options)"
    using distinct_length_subset [OF _ sub] room by simp
  then have listed: "set (awaiting w2) \<subseteq>
      set (listProcessedAwaitingBackgroundJob (roBatchLimit options) (rwJobs w2) (rwOutbox w2))"
    by (auto simp: listProcessedAwaitingBackgroundJob_def awaiting_def Let_def filter_empty_conv)
  have "jobTypeForOutboxEvent (oeEventType r) \<noteq> None" if "r \<in> set (awaiting w2)" for r
    using inv2 that by (auto simp: relay_inv_def list_all_iff event_ok_def set_awaiting)
  with listed reconcileLoop_jobs [OF rest] have "r \<notin> set (awaiting w')" for r
    unfolding set_awaiting by (metis set_awaiting subsetD)
  then show ?thesis using last_in_set by blast
qed

subsection \<open>Witnesses\<close>

text \<open>A queue that remembers the identifiers it took.\<close>

definition example_bull :: "jstr list bullQueue" where
  "example_bull =
     \<lparr>bqReady = (\<lambda>_. None), bqGetJob = (\<lambda>q i. Inr (i \<in> set q)), bqAdd = (\<lambda>q job. (None, ojJobId job # q))\<rparr>"

definition example_relay_ports :: "jstr list relayPorts" where
  "example_relay_ports =
     \<lparr>rpBull = example_bull, rpNewJobId = (\<lambda>rows. replicate (Suc (sum_list (map (length \<circ> bjId) rows))) 97),
      rpRound = (\<lambda>x. x), rpRandom = (\<lambda>_. 0)\<rparr>"

lemma example_relay_honest: "honest_ports example_relay_ports (\<lambda>q i. i \<in> set q)"
proof -
  have "length (bjId b) \<le> sum_list (map (length \<circ> bjId) rows)" if "b \<in> set rows" for b rows
    using that member_le_sum_list [of "length (bjId b)" "map (length \<circ> bjId) rows"] by force
  then have le: "length i \<le> sum_list (map (length \<circ> bjId) rows)" if "i \<in> set (map bjId rows)" for i rows
    using that by auto
  have "replicate (Suc (sum_list (map (length \<circ> bjId) rows))) 97 \<notin> set (map bjId rows)" for rows
    using le [of "replicate (Suc (sum_list (map (length \<circ> bjId) rows))) 97" rows] by (auto simp del: set_map)
  then show ?thesis
    by (auto simp: honest_ports_def queue_keeps_def example_relay_ports_def example_bull_def)
qed

definition example_event :: outboxEventRecord where
  "example_event =
     \<lparr>oeId = js ''e1'', oeOrganizationId = Some (js ''o1''), oeAggregateType = js ''sbom_ingestion'',
      oeAggregateId = js ''i1'', oeEventType = SBOM_INGESTION_REQUESTED_EVENT_TYPE, oeDedupeKey = js ''k'',
      oeAvailableAt = 10, oeClaimedAt = None, oeLeaseExpiresAt = None, oeProcessedAt = None,
      oeAttemptCount = 0, oeLastFailureCategory = None, oeLastFailureCode = None, oeStatus = oe_pending\<rparr>"

definition example_world :: "jstr list relayWorld" where
  "example_world = \<lparr>rwOutbox = [example_event], rwJobs = [], rwQueue = []\<rparr>"

lemma example_world_reached:
  "(relay_step example_relay_ports OUTBOX_RELAY_DEFAULTS)\<^sup>*\<^sup>* (relay_start []) (running example_world [])"
  using relay_step.create [of example_event "relay_start []" example_relay_ports OUTBOX_RELAY_DEFAULTS]
  by (auto simp: relay_start_def running_def example_world_def example_event_def)

lemma example_working:
  "\<forall>job q. \<exists>duplicate q'. publishToQueue (rpBull example_relay_ports) job q = (Published duplicate, q')"
  by (auto simp: publishToQueue_def example_relay_ports_def example_bull_def split: bool.split)

lemmas example_batch_setup = example_world_def example_event_def duePending_def OUTBOX_RELAY_DEFAULTS_def
  jobTypeForOutboxEvent_def

lemma example_room:
  "example_event \<in> set (rwOutbox example_world)" "duePending (\<lambda>_. False) 20 example_event"
  "length (filter (duePending (\<lambda>_. False) 20) (rwOutbox example_world)) \<le>
     boundClaimLimit (roBatchLimit OUTBOX_RELAY_DEFAULTS)"
  "jobTypeForOutboxEvent (oeEventType example_event) \<noteq> None"
  "oeAttemptCount example_event < roMaxAttempts OUTBOX_RELAY_DEFAULTS"
  by (simp_all add: example_batch_setup)

lemma relay_delivers_due_witness:
  "\<exists>result w'. executeRelayBatch example_relay_ports OUTBOX_RELAY_DEFAULTS (\<lambda>_. False) 20 example_world =
       (result, w') \<and>
     (\<exists>r' \<in> set (rwOutbox w'). oeId r' = js ''e1'' \<and> oeStatus r' = oe_processed) \<and>
     js ''e1'' \<in> set (jobEvents (rwJobs w'))"
proof -
  obtain result w' where batch: "executeRelayBatch example_relay_ports OUTBOX_RELAY_DEFAULTS (\<lambda>_. False) 20
      example_world = (result, w')" by fastforce
  have "oeId example_event = js ''e1''" by (simp add: example_event_def)
  with relay_delivers_due [OF example_relay_honest example_world_reached example_room example_working batch] batch
  show ?thesis by auto
qed

lemma outbox_delivers_once_witness:
  "\<exists>s. (relay_step example_relay_ports OUTBOX_RELAY_DEFAULTS)\<^sup>*\<^sup>* (relay_start []) s \<and>
     (\<exists>r \<in> set (rwOutbox s). oeStatus r = oe_processed \<and> deterministicOutboxQueueJobId r \<in> set (rwQueue s)) \<and>
     distinct (jobEvents (rwJobs s))"
proof -
  obtain result w' where batch: "executeRelayBatch example_relay_ports OUTBOX_RELAY_DEFAULTS (\<lambda>_. False) 20
      example_world = (result, w')" by fastforce
  have run: "(relay_step example_relay_ports OUTBOX_RELAY_DEFAULTS)\<^sup>*\<^sup>* (relay_start []) (running w' [])"
    using example_world_reached executeRelayBatch_run [OF batch] by (rule rtranclp_trans)
  show ?thesis
    using outbox_delivers_once [OF example_relay_honest run] run
      batch_delivers [OF example_relay_honest example_world_reached example_room example_working batch]
    by fastforce
qed

lemma relay_repairs_crashes_witness:
  "awaiting (snd (executeRelayBatch example_relay_ports OUTBOX_RELAY_DEFAULTS (\<lambda>_. False) 20 example_world)) = []"
proof -
  obtain result w' where batch: "executeRelayBatch example_relay_ports OUTBOX_RELAY_DEFAULTS (\<lambda>_. False) 20
      example_world = (result, w')" by fastforce
  have "length (awaiting example_world) \<le> boundClaimLimit (roBatchLimit OUTBOX_RELAY_DEFAULTS)"
    by (simp add: awaiting_def awaitingJob_def example_batch_setup)
  from relay_repairs_crashes [OF example_relay_honest example_world_reached this batch] batch
  show ?thesis by simp
qed

subsection \<open>The retry delay\<close>

text \<open>What rounding to a double promises: it is monotone and exact on the two bounds.\<close>

lemma outboxRetryDelayMs_bounds:
  assumes "mono round_double" "round_double (1 / 2) = 1 / 2" "round_double 1 = 1"
    and "\<And>n. \<bar>n\<bar> \<le> MAX_SAFE_INTEGER \<Longrightarrow> round_double (of_int n) = of_int n"
    and "1 \<le> roRetryBaseMs options" "1 \<le> roRetryCapMs options" "roRetryCapMs options \<le> MAX_SAFE_INTEGER"
    and "0 \<le> random" "random \<le> 1"
  shows "1 \<le> outboxRetryDelayMs round_double attempt options random"
    "outboxRetryDelayMs round_double attempt options random \<le>
       min (roRetryCapMs options) (roRetryBaseMs options * 2 ^ nat (max 0 (attempt - 1)))"
    "min (roRetryCapMs options) (roRetryBaseMs options * 2 ^ nat (max 0 (attempt - 1))) div 2 \<le>
       outboxRetryDelayMs round_double attempt options random"
proof -
  define x where "x = min (roRetryCapMs options) (roRetryBaseMs options * 2 ^ nat (max 0 (attempt - 1)))"
  define jitter where "jitter = round_double (1 / 2 + random * (1 / 2))"
  have "(1::int) * 1 \<le> roRetryBaseMs options * 2 ^ nat (max 0 (attempt - 1))"
    using assms(5) by (intro mult_mono) auto
  then have x: "1 \<le> x" "x \<le> roRetryCapMs options" using assms(6) by (auto simp: x_def)
  have "round_double (1 / 2) \<le> jitter" "jitter \<le> round_double 1"
    unfolding jitter_def using assms(8,9) by (auto intro!: monoD [OF assms(1)])
  then have j: "1 / 2 \<le> jitter" "jitter \<le> 1" using assms(2,3) by auto
  have "of_int (x div 2) \<le> of_int x * jitter"
  proof -
    have "of_int (x div 2) \<le> (of_int x * (1 / 2) :: real)" by (simp add: floor_divide_lower)
    also have "\<dots> \<le> of_int x * jitter" using x j by (intro mult_left_mono) auto
    finally show ?thesis .
  qed
  moreover have "of_int x * jitter \<le> of_int x" using x j mult_left_mono [of jitter 1 "of_int x"] by auto
  moreover have "round_double (of_int (x div 2)) = of_int (x div 2)" "round_double (of_int x) = of_int x"
    using x assms(7) by (auto intro!: assms(4))
  ultimately have "of_int (x div 2) \<le> round_double (of_int x * jitter)" "round_double (of_int x * jitter) \<le> of_int x"
    using monoD [OF assms(1), of "of_int (x div 2)" "of_int x * jitter"]
      monoD [OF assms(1), of "of_int x * jitter" "of_int x"] by auto
  then have "x div 2 \<le> \<lfloor>round_double (of_int x * jitter)\<rfloor>" "\<lfloor>round_double (of_int x * jitter)\<rfloor> \<le> x"
    by linarith+
  then show "1 \<le> outboxRetryDelayMs round_double attempt options random"
    "outboxRetryDelayMs round_double attempt options random \<le>
       min (roRetryCapMs options) (roRetryBaseMs options * 2 ^ nat (max 0 (attempt - 1)))"
    "min (roRetryCapMs options) (roRetryBaseMs options * 2 ^ nat (max 0 (attempt - 1))) div 2 \<le>
       outboxRetryDelayMs round_double attempt options random"
    using x assms(6) unfolding outboxRetryDelayMs_def Let_def x_def [symmetric] jitter_def [symmetric]
    by linarith+
qed

end
