(* ===== verification/IngestionStore.thy ===== *)
theory IngestionStore
  imports JobStore SbomGraph
begin

text \<open>
  The ingestion table: \<^verbatim>\<open>packages/database/src/sbom-ingestion-persistence.ts\<close> with its row mapper
  (\<^verbatim>\<open>sbom-mappers.ts\<close>) and the label guard of \<^verbatim>\<open>guards.ts\<close>. A row extends the life-cycle snapshot by its
  identity, the parser labels, the version counter and the time of creation; columns these operations
  neither read nor write (attempt number, idempotency key, quarantine reason, lease, time of update) are
  left out. The enum types and checks of the table admit the closed vocabularies only, so mapping a row
  to a record is the identity. Identifiers are in the form the database prints. \<^verbatim>\<open>applyTransition\<close> is one
  step: its update names the version that was read, and versions only grow, so a concurrent change
  between the read and the update makes the update select nothing.
\<close>

subsection \<open>Rows\<close>

text \<open>\<^verbatim>\<open>/^[a-zA-Z0-9][a-zA-Z0-9._+-]{0,63}$/\<close>.\<close>

definition VERSION_LABEL :: "jstr \<Rightarrow> bool" where
  [eval_defs]: "VERSION_LABEL s \<longleftrightarrow>
     (case s of
        [] \<Rightarrow> False
      | c # cs \<Rightarrow> (is_lower c \<or> is_upper c \<or> is_digit c) \<and> length cs \<le> 63 \<and>
          list_all (\<lambda>d. is_lower d \<or> is_upper d \<or> is_digit d \<or> d \<in> {46, 95, 43, 45}) cs)"

text \<open>An operation of the database layer can return an error or throw.\<close>

datatype dbFailure = Threw | Refused appError

definition requireVersionLabel :: "jstr \<Rightarrow> dbFailure + jstr" where
  "requireVersionLabel value =
     (if \<not> VERSION_LABEL value \<or> length value > 64 then Inl Threw else Inr value)"

record sbomIngestionRecord = session8IngestionSnapshot +
  siId :: jstr
  siOrganizationId :: jstr
  siSbomId :: jstr
  siAssetId :: jstr
  siParserVersion :: jstr
  siNormalizationVersion :: jstr
  siVersion :: int
  siCreatedAt :: int

definition toIngestionSnapshot :: "sbomIngestionRecord \<Rightarrow> session8IngestionSnapshot" where
  "toIngestionSnapshot r =
     \<lparr>iState = iState r, iStage = iStage r, iStartedAt = iStartedAt r, iCompletedAt = iCompletedAt r,
      iGraphCompleteness = iGraphCompleteness r, iComponentCount = iComponentCount r,
      iDependencyEdgeCount = iDependencyEdgeCount r, iWarningCount = iWarningCount r,
      iFailureCategory = iFailureCategory r, iFailureCode = iFailureCode r\<rparr>"

subsection \<open>Statements\<close>

definition createAccepted ::
  "jstr \<Rightarrow> int \<Rightarrow> jstr \<Rightarrow> jstr \<Rightarrow> jstr \<Rightarrow> jstr \<Rightarrow> jstr \<Rightarrow> sbomIngestionRecord list \<Rightarrow>
   (dbFailure + sbomIngestionRecord) \<times> sbomIngestionRecord list" where
  "createAccepted newId createdAt organizationId sbomId assetId parserVersion normalizationVersion rows =
     (case applySession8IngestionTransition None CreateAccepted of
        Inl e \<Rightarrow> (Inl (Refused e), rows)
      | Inr created \<Rightarrow>
          (case (requireVersionLabel parserVersion, requireVersionLabel normalizationVersion) of
             (Inr parserLabel, Inr normalizationLabel) \<Rightarrow>
               (let row = session8IngestionSnapshot.extend
                      (acceptedSnapshot\<lparr>iState := iState created, iStage := iStage created\<rparr>)
                      (sbomIngestionRecord.fields newId organizationId sbomId assetId parserLabel
                         normalizationLabel 1 createdAt)
                in (Inr row, rows @ [row]))
           | _ \<Rightarrow> (Inl Threw, rows)))"

definition findIngestionById :: "jstr \<Rightarrow> jstr \<Rightarrow> sbomIngestionRecord list \<Rightarrow> sbomIngestionRecord option" where
  "findIngestionById organizationId ingestionId rows =
     (if \<not> UUID_PATTERN organizationId \<or> \<not> UUID_PATTERN ingestionId then None
      else findFirst (\<lambda>r. siOrganizationId r = organizationId \<and> siId r = ingestionId) rows)"

definition findIngestionByAssetAndId ::
  "jstr \<Rightarrow> jstr \<Rightarrow> jstr \<Rightarrow> sbomIngestionRecord list \<Rightarrow> sbomIngestionRecord option" where
  "findIngestionByAssetAndId organizationId assetId ingestionId rows =
     (if \<not> UUID_PATTERN organizationId \<or> \<not> UUID_PATTERN assetId \<or> \<not> UUID_PATTERN ingestionId then None
      else findFirst (\<lambda>r. siOrganizationId r = organizationId \<and> siAssetId r = assetId \<and>
        siId r = ingestionId) rows)"

text \<open>\<^verbatim>\<open>orderBy: [{ createdAt: 'desc' }, { id: 'desc' }]\<close>.\<close>

definition newestOrder :: "sbomIngestionRecord \<Rightarrow> sbomIngestionRecord \<Rightarrow> int" where
  "newestOrder = then_cmp (\<lambda>l r. linord_cmp (siCreatedAt r) (siCreatedAt l))
     (\<lambda>l r. lex_cmp linord_cmp (siId r) (siId l))"

definition findCurrentForSbom :: "jstr \<Rightarrow> jstr \<Rightarrow> sbomIngestionRecord list \<Rightarrow> sbomIngestionRecord option" where
  "findCurrentForSbom organizationId sbomId rows =
     (if \<not> UUID_PATTERN organizationId \<or> \<not> UUID_PATTERN sbomId then None
      else findFirst (\<lambda>_. True) (cmp_sort newestOrder
        (filter (\<lambda>r. siOrganizationId r = organizationId \<and> siSbomId r = sbomId) rows)))"

fun isCompleteCommand :: "session8IngestionCommand \<Rightarrow> bool" where
  "isCompleteCommand (Complete _ _ _ _ _) = True"
| "isCompleteCommand _ = False"

text \<open>The \<^verbatim>\<open>data\<close> of the update.\<close>

definition writeTransition :: "session8IngestionSnapshot \<Rightarrow> sbomIngestionRecord \<Rightarrow> sbomIngestionRecord" where
  "writeTransition next r =
     r\<lparr>iState := iState next, iStage := iStage next, iStartedAt := iStartedAt next,
       iCompletedAt := iCompletedAt next, iGraphCompleteness := iGraphCompleteness next,
       iComponentCount := iComponentCount next, iDependencyEdgeCount := iDependencyEdgeCount next,
       iWarningCount := iWarningCount next, iFailureCategory := iFailureCategory next,
       iFailureCode := iFailureCode next, siVersion := siVersion r + 1\<rparr>"

definition atVersion :: "jstr \<Rightarrow> jstr \<Rightarrow> int \<Rightarrow> sbomIngestionRecord \<Rightarrow> bool" where
  "atVersion organizationId ingestionId version r \<longleftrightarrow>
     siOrganizationId r = organizationId \<and> siId r = ingestionId \<and> siVersion r = version"

definition applyTransition ::
  "jstr \<Rightarrow> jstr \<Rightarrow> int \<Rightarrow> session8IngestionCommand \<Rightarrow> sbomIngestionRecord list \<Rightarrow>
   (appError + sbomIngestionRecord \<times> session8IngestionSnapshot) \<times> sbomIngestionRecord list" where
  "applyTransition organizationId ingestionId expectedVersion cmd rows =
     (if \<not> UUID_PATTERN organizationId \<or> \<not> UUID_PATTERN ingestionId
      then (Inl SBOM_INVALID_TRANSITION, rows)
      else case findIngestionById organizationId ingestionId rows of
        None \<Rightarrow> (Inl SBOM_INVALID_TRANSITION, rows)
      | Some current \<Rightarrow>
          if isSession8TerminalState (iState current)
          then (if iState current = completed \<and> isCompleteCommand cmd
                then (Inr (current, toIngestionSnapshot current), rows)
                else (Inl SBOM_TERMINAL_STATE, rows))
          else (case applySession8IngestionTransition (Some (toIngestionSnapshot current)) cmd of
                  Inl e \<Rightarrow> (Inl e, rows)
                | Inr nextState \<Rightarrow>
                    (let (rows', n) = updateMany (atVersion organizationId ingestionId expectedVersion)
                           (writeTransition nextState) rows
                     in if n = 0 then (Inl SBOM_INVALID_TRANSITION, rows')
                        else case findIngestionById organizationId ingestionId rows' of
                            None \<Rightarrow> (Inl SBOM_INVALID_TRANSITION, rows')
                          | Some row \<Rightarrow> (Inr (row, toIngestionSnapshot row), rows'))))"

subsection \<open>What the statements keep\<close>

text \<open>The identity of a row, which no statement changes.\<close>

definition ingestionKey :: "sbomIngestionRecord \<Rightarrow> jstr \<times> jstr \<times> jstr \<times> jstr \<times> int" where
  "ingestionKey r = (siId r, siOrganizationId r, siSbomId r, siAssetId r, siCreatedAt r)"

interpretation ingestions: keyed_table siId "\<lambda>change. \<forall>r. siId (change r) = siId r"
  by unfold_locales simp

lemma toIngestionSnapshot_write [simp]: "toIngestionSnapshot (writeTransition s r) = s"
  by (simp add: toIngestionSnapshot_def writeTransition_def)

lemma writeTransition_keeps [simp]:
  "siId (writeTransition s r) = siId r" "siOrganizationId (writeTransition s r) = siOrganizationId r"
  "siSbomId (writeTransition s r) = siSbomId r" "siAssetId (writeTransition s r) = siAssetId r"
  "siCreatedAt (writeTransition s r) = siCreatedAt r" "siVersion (writeTransition s r) = siVersion r + 1"
  "ingestionKey (writeTransition s r) = ingestionKey r"
  "siParserVersion (writeTransition s r) = siParserVersion r"
  "siNormalizationVersion (writeTransition s r) = siNormalizationVersion r"
  "iState (writeTransition s r) = iState s"
  by (simp_all add: writeTransition_def ingestionKey_def)

lemma snapshot_state [simp]: "iState (toIngestionSnapshot r) = iState r"
  "iStartedAt (toIngestionSnapshot r) = iStartedAt r"
  by (simp_all add: toIngestionSnapshot_def)

lemma findIngestionById_Some:
  "findIngestionById org i rows = Some r \<Longrightarrow> r \<in> set rows \<and> siOrganizationId r = org \<and> siId r = i"
  by (auto simp: findIngestionById_def dest: findFirst_SomeD split: if_splits)

lemma findIngestionById_row:
  assumes "ingestions.keyed rows" "r \<in> set rows" "UUID_PATTERN (siOrganizationId r)" "UUID_PATTERN (siId r)"
  shows "findIngestionById (siOrganizationId r) (siId r) rows = Some r"
  using assms ingestions.keyed_find [of rows r "\<lambda>r'. siOrganizationId r' = siOrganizationId r \<and> siId r' = siId r"]
  by (simp add: findIngestionById_def)

text \<open>
  A transition either changes nothing, or it takes the one row it names, at the version it names, along
  an arrow of the life cycle.
\<close>

lemma applyTransition_cases:
  assumes keyed: "ingestions.keyed rows" and run: "applyTransition org i version cmd rows = (answer, rows')"
  obtains (refused) e where "answer = Inl e" "rows' = rows"
  | (completed_again) r where "answer = Inr (r, toIngestionSnapshot r)" "rows' = rows" "r \<in> set rows"
      "iState r = completed" "isCompleteCommand cmd"
  | (taken) r s where "r \<in> set rows" "siOrganizationId r = org" "siId r = i" "siVersion r = version"
      "applySession8IngestionTransition (Some (toIngestionSnapshot r)) cmd = Inr s"
      "answer = Inr (writeTransition s r, s)"
      "rows' = map (\<lambda>r'. if r' = r then writeTransition s r else r') rows"
proof -
  let ?upd = "\<lambda>s. let (rows', n) = updateMany (atVersion org i version) (writeTransition s) rows
     in if n = 0 then (Inl SBOM_INVALID_TRANSITION, rows')
        else case findIngestionById org i rows' of
            None \<Rightarrow> (Inl SBOM_INVALID_TRANSITION, rows')
          | Some row \<Rightarrow> (Inr (row, toIngestionSnapshot row), rows')"
  consider "\<exists>e. answer = Inl e \<and> rows' = rows"
    | r where "findIngestionById org i rows = Some r" "iState r = completed" "isCompleteCommand cmd"
        "answer = Inr (r, toIngestionSnapshot r)" "rows' = rows"
    | r s where "UUID_PATTERN org" "UUID_PATTERN i" "findIngestionById org i rows = Some r"
        "applySession8IngestionTransition (Some (toIngestionSnapshot r)) cmd = Inr s"
        "(answer, rows') = ?upd s"
  proof (cases "UUID_PATTERN org \<and> UUID_PATTERN i")
    case False
    with run that(1) show ?thesis by (auto simp: applyTransition_def)
  next
    case uuids: True
    show ?thesis
    proof (cases "findIngestionById org i rows")
      case None
      with uuids run that(1) show ?thesis by (auto simp: applyTransition_def)
    next
      case (Some r)
      show ?thesis
      proof (cases "isSession8TerminalState (iState r)")
        case True
        with uuids Some run that(1,2) show ?thesis by (auto simp: applyTransition_def split: if_splits)
      next
        case False
        show ?thesis
        proof (cases "applySession8IngestionTransition (Some (toIngestionSnapshot r)) cmd")
          case (Inl e)
          with uuids Some False run that(1) show ?thesis by (auto simp: applyTransition_def)
        next
          case (Inr s)
          have "applyTransition org i version cmd rows = ?upd s"
            unfolding applyTransition_def using uuids Some False Inr
            by (simp del: applySession8IngestionTransition.simps)
          with that(3) [OF _ _ Some Inr] uuids run show ?thesis by simp
        qed
      qed
    qed
  qed
  then show thesis
  proof cases
    case 1
    with refused show thesis by blast
  next
    case 2
    with completed_again findIngestionById_Some show thesis by metis
  next
    case (3 r s)
    let ?upd = "map (\<lambda>r. if atVersion org i version r then writeTransition s r else r) rows"
    from 3 have r: "r \<in> set rows" "siOrganizationId r = org" "siId r = i"
      by (auto dest: findIngestionById_Some)
    have same: "atVersion org i version r' \<longleftrightarrow> r' = r \<and> siVersion r = version" if "r' \<in> set rows" for r'
      using ingestions.keyed_same [OF keyed that r(1)] r by (auto simp: atVersion_def)
    show thesis
    proof (cases "siVersion r = version")
      case True
      have rows: "?upd = map (\<lambda>r'. if r' = r then writeTransition s r else r') rows"
        using same True by (intro map_cong) auto
      have "ingestions.keyed ?upd"
        using keyed ingestions.keyed_update [of "writeTransition s" rows "atVersion org i version"] by simp
      moreover have "writeTransition s r \<in> set ?upd" unfolding rows using r by force
      ultimately have "findIngestionById org i ?upd = Some (writeTransition s r)"
        using findIngestionById_row [of ?upd "writeTransition s r"] r 3(1,2) by simp
      moreover have "filter (atVersion org i version) rows \<noteq> []"
        using same r True by (auto simp: filter_empty_conv)
      ultimately have "answer = Inr (writeTransition s r, s)" "rows' = ?upd"
        using 3(5) by (simp_all add: updateMany_def)
      with rows show thesis by (intro taken [OF r True 3(4)]) simp_all
    next
      case False
      then have "\<forall>r' \<in> set rows. \<not> atVersion org i version r'" using same by blast
      then have "?upd = rows" "filter (atVersion org i version) rows = []"
        by (auto intro: map_idI simp: filter_empty_conv)
      with 3(5) refused show thesis by (simp add: updateMany_def)
    qed
  qed
qed

end
