(* ===== verification/GraphStore.thy ===== *)
theory GraphStore
  imports IngestionStore JsonDocuments Comparators
begin

text \<open>
  The component graph tables: \<^verbatim>\<open>packages/database/src/component-graph-persistence.ts\<close>. One transaction
  stores the graph of an ingestion, completes its row, moves the asset's pointer to its newest
  ingestion, writes the audit event and finishes the job. Inside \<^verbatim>\<open>$transaction\<close> a returned error commits
  what was written before it and only an exception rolls back, so the model keeps the tables a
  refusal leaves. The transaction locks its ingestion row and its asset, and the race of two
  insertions of one component is not modelled. \<open>dbUuid\<close> is the database's supply of identifiers and
  \<open>dbAccepts\<close> tells whether the column types admit the texts of a component; an insertion they refuse
  throws.
\<close>

subsection \<open>Tables\<close>

record sbomRecord =
  sbId :: jstr
  sbOrganizationId :: jstr
  sbAssetId :: jstr
  sbObjectKey :: jstr
  sbSha256 :: jstr
  sbByteLength :: int
  sbReceivedAt :: int
  sbSpecificationVersion :: "jstr option"
  sbParserVersionLastSucceeded :: "jstr option"

record componentRecord =
  cpId :: jstr
  cpOrganizationId :: jstr
  cpIdentityKey :: jstr
  cpPurl :: "jstr option"
  cpEcosystem :: "jstr option"
  cpNamespace :: "jstr option"
  cpName :: jstr
  cpIdentityState :: componentIdentityState

record componentOccurrenceRow =
  coId :: jstr
  coOrganizationId :: jstr
  coAssetId :: jstr
  coSbomId :: jstr
  coSbomIngestionId :: jstr
  coComponentId :: jstr
  coBomRef :: "jstr option"
  coVersion :: jstr
  coVersionKnown :: bool
  coVersionedPurl :: "jstr option"
  coIsDirect :: "bool option"

record dependencyRelationshipRecord =
  drId :: jstr
  drOrganizationId :: jstr
  drSbomId :: jstr
  drSbomIngestionId :: jstr
  drFromOccurrenceId :: jstr
  drToOccurrenceId :: jstr
  drRelationshipType :: jstr

record assetPointer =
  apId :: jstr
  apOrganizationId :: jstr
  apLastSuccessfulSbomIngestionId :: "jstr option"
  apLastSuccessfulSbomIngestionAt :: "int option"

record auditEventRow =
  auActorType :: jstr
  auOrganizationId :: jstr
  auAction :: jstr
  auSubjectType :: jstr
  auSubjectId :: jstr
  auOccurredAt :: "int option"
  auCorrelationId :: jstr
  auPayload :: json

text \<open>The tables, and how many identifiers the database has generated.\<close>

record sbomTables =
  tbIngestions :: "sbomIngestionRecord list"
  tbJobs :: "backgroundJobRecord list"
  tbSboms :: "sbomRecord list"
  tbComponents :: "componentRecord list"
  tbOccurrences :: "componentOccurrenceRow list"
  tbEdges :: "dependencyRelationshipRecord list"
  tbAssets :: "assetPointer list"
  tbAudits :: "auditEventRow list"
  tbDrawn :: nat

record databaseEnv =
  dbUuid :: "nat \<Rightarrow> jstr"
  dbAccepts :: "normalizedComponent \<Rightarrow> bool"

definition drawId :: "databaseEnv \<Rightarrow> sbomTables \<Rightarrow> jstr \<times> sbomTables" where
  "drawId db t = (dbUuid db (tbDrawn t), t\<lparr>tbDrawn := Suc (tbDrawn t)\<rparr>)"

record persistOwnedBackgroundJob =
  ojobId :: jstr
  ojobWorkerIdentifier :: jstr
  ojobCompletedAt :: int

record persistComponentGraphInput =
  pgOrganizationId :: jstr
  pgAssetId :: jstr
  pgSbomId :: jstr
  pgSbomIngestionId :: jstr
  pgGraph :: normalizedComponentGraph
  pgCorrelationId :: jstr
  pgOwnedJob :: "persistOwnedBackgroundJob option"

subsection \<open>Components, occurrences and edges\<close>

definition upsertComponent :: "databaseEnv \<Rightarrow> jstr \<Rightarrow> normalizedComponent \<Rightarrow> sbomTables \<Rightarrow> jstr \<times> sbomTables" where
  "upsertComponent db organizationId component t =
     (case findFirst (\<lambda>r. cpOrganizationId r = organizationId \<and>
              cpIdentityKey r = ncIdentityKey component) (tbComponents t) of
        Some existing \<Rightarrow> (cpId existing, t)
      | None \<Rightarrow>
          (let (newId, t') = drawId db t;
               row = \<lparr>cpId = newId, cpOrganizationId = organizationId,
                 cpIdentityKey = ncIdentityKey component, cpPurl = ncVersionlessPurl component,
                 cpEcosystem = ncEcosystem component, cpNamespace = ncNamespace component,
                 cpName = ncName component, cpIdentityState = ncIdentityState component\<rparr>
           in (newId, t'\<lparr>tbComponents := tbComponents t' @ [row]\<rparr>)))"

text \<open>
  The unique indexes of the occurrences: one row for a component and version of an ingestion, and one
  for a bom-ref of an ingestion.
\<close>

definition sameOccurrence :: "componentOccurrenceRow \<Rightarrow> componentOccurrenceRow \<Rightarrow> bool" where
  "sameOccurrence r r' \<longleftrightarrow>
     coOrganizationId r = coOrganizationId r' \<and> coSbomIngestionId r = coSbomIngestionId r' \<and>
     (coComponentId r = coComponentId r' \<and> coVersion r = coVersion r' \<or>
      coBomRef r \<noteq> None \<and> coBomRef r = coBomRef r')"

definition createOccurrence ::
  "componentOccurrenceRow \<Rightarrow> sbomTables \<Rightarrow> (dbFailure + jstr) \<times> sbomTables" where
  "createOccurrence row t =
     (if list_ex (sameOccurrence row) (tbOccurrences t) then (Inl Threw, t)
      else (Inr (coId row), t\<lparr>tbOccurrences := tbOccurrences t @ [row]\<rparr>))"

definition occurrenceRow ::
  "persistComponentGraphInput \<Rightarrow> normalizedComponent \<Rightarrow> occurrenceVersionColumns \<Rightarrow> jstr \<Rightarrow> jstr \<Rightarrow>
   componentOccurrenceRow" where
  "occurrenceRow input component versionColumns componentId newId =
     \<lparr>coId = newId, coOrganizationId = pgOrganizationId input, coAssetId = pgAssetId input,
      coSbomId = pgSbomId input, coSbomIngestionId = pgSbomIngestionId input,
      coComponentId = componentId, coBomRef = ncBomRef component, coVersion = ovVersion versionColumns,
      coVersionKnown = ovVersionKnown versionColumns, coVersionedPurl = ncVersionedPurl component,
      coIsDirect = ncIsDirect component\<rparr>"

text \<open>The loop over the components; the map from bom-refs to occurrences grows at the front.\<close>

fun storeOccurrences ::
  "databaseEnv \<Rightarrow> persistComponentGraphInput \<Rightarrow> normalizedComponent list \<Rightarrow> (jstr \<times> jstr) list \<Rightarrow>
   sbomTables \<Rightarrow> (dbFailure + (jstr \<times> jstr) list) \<times> sbomTables" where
  "storeOccurrences db input [] occurrenceByBomRef t = (Inr occurrenceByBomRef, t)"
| "storeOccurrences db input (component # components) occurrenceByBomRef t =
     (case toOccurrenceVersionColumns (ncVersion component) of
        Inl e \<Rightarrow> (Inl (Refused e), t)
      | Inr versionColumns \<Rightarrow>
          if \<not> dbAccepts db component then (Inl Threw, t)
          else (let (componentId, t1) = upsertComponent db (pgOrganizationId input) component t;
                    (newId, t2) = drawId db t1
                in case createOccurrence (occurrenceRow input component versionColumns componentId newId) t2 of
                     (Inl failure, t3) \<Rightarrow> (Inl failure, t3)
                   | (Inr occurrenceId, t3) \<Rightarrow>
                       storeOccurrences db input components
                         (case ncBomRef component of None \<Rightarrow> occurrenceByBomRef
                          | Some bomRef \<Rightarrow> (bomRef, occurrenceId) # occurrenceByBomRef) t3))"

fun collectEdgeData ::
  "(jstr \<times> jstr) list \<Rightarrow> normalizedDependencyEdge list \<Rightarrow> (jstr \<times> jstr) list \<Rightarrow>
   appError + (jstr \<times> jstr) list" where
  "collectEdgeData occurrenceByBomRef [] edgeData = Inr edgeData"
| "collectEdgeData occurrenceByBomRef (edge # edges) edgeData =
     (if edFromBomRef edge = edToBomRef edge then collectEdgeData occurrenceByBomRef edges edgeData
      else case (map_of occurrenceByBomRef (edFromBomRef edge), map_of occurrenceByBomRef (edToBomRef edge)) of
        (Some fromOccurrenceId, Some toOccurrenceId) \<Rightarrow>
          collectEdgeData occurrenceByBomRef edges (edgeData @ [(fromOccurrenceId, toOccurrenceId)])
      | _ \<Rightarrow> Inl SBOM_INVALID_GRAPH)"

text \<open>\<^verbatim>\<open>createMany\<close> with the unique index on the edges of an ingestion.\<close>

definition edgeRow ::
  "databaseEnv \<Rightarrow> persistComponentGraphInput \<Rightarrow> nat \<Rightarrow> jstr \<times> jstr \<Rightarrow> dependencyRelationshipRecord" where
  "edgeRow db input k ends =
     \<lparr>drId = dbUuid db k, drOrganizationId = pgOrganizationId input, drSbomId = pgSbomId input,
      drSbomIngestionId = pgSbomIngestionId input, drFromOccurrenceId = fst ends,
      drToOccurrenceId = snd ends, drRelationshipType = js ''depends_on''\<rparr>"

definition edgeIndexKey ::
  "dependencyRelationshipRecord \<Rightarrow> jstr \<times> jstr \<times> jstr \<times> jstr \<times> jstr" where
  "edgeIndexKey r = (drOrganizationId r, drSbomIngestionId r, drFromOccurrenceId r, drToOccurrenceId r,
     drRelationshipType r)"

definition createEdges ::
  "databaseEnv \<Rightarrow> persistComponentGraphInput \<Rightarrow> (jstr \<times> jstr) list \<Rightarrow> sbomTables \<Rightarrow>
   (dbFailure + unit) \<times> sbomTables" where
  "createEdges db input edgeData t =
     (let rows = map2 (edgeRow db input) [tbDrawn t ..< tbDrawn t + length edgeData] edgeData
      in if \<not> distinct (map edgeIndexKey (tbEdges t @ rows)) then (Inl Threw, t)
         else (Inr (), t\<lparr>tbEdges := tbEdges t @ rows, tbDrawn := tbDrawn t + length edgeData\<rparr>))"

subsection \<open>The asset's newest ingestion\<close>

record ingestionRank =
  rkReceivedAt :: int
  rkCreatedAt :: int
  rkId :: jstr

definition rankOrder :: "ingestionRank \<Rightarrow> ingestionRank \<Rightarrow> int" where
  "rankOrder = then_cmp (\<lambda>l r. linord_cmp (rkReceivedAt l) (rkReceivedAt r))
     (then_cmp (\<lambda>l r. linord_cmp (rkCreatedAt l) (rkCreatedAt r))
       (\<lambda>l r. lex_cmp linord_cmp (rkId l) (rkId r)))"

text \<open>A completed ingestion the condition selects, joined with its SBOM.\<close>

definition rankWhere ::
  "sbomTables \<Rightarrow> jstr \<Rightarrow> (sbomIngestionRecord \<Rightarrow> bool) \<Rightarrow> ingestionRank option" where
  "rankWhere t organizationId whr =
     (case findFirst (\<lambda>r. siOrganizationId r = organizationId \<and> iState r = completed \<and> whr r) (tbIngestions t) of
        None \<Rightarrow> None
      | Some ingestion \<Rightarrow>
          (case findFirst (\<lambda>s. sbOrganizationId s = organizationId \<and> sbId s = siSbomId ingestion) (tbSboms t) of
             None \<Rightarrow> None
           | Some sbom \<Rightarrow>
               Some \<lparr>rkReceivedAt = sbReceivedAt sbom, rkCreatedAt = siCreatedAt ingestion,
                 rkId = siId ingestion\<rparr>))"

definition currentWins :: "sbomTables \<Rightarrow> jstr \<Rightarrow> jstr \<Rightarrow> jstr \<Rightarrow> jstr \<Rightarrow> bool" where
  "currentWins t organizationId assetId currentId candidateId \<longleftrightarrow>
     (case (rankWhere t organizationId (\<lambda>r. siId r = currentId),
            rankWhere t organizationId (\<lambda>r. siId r = candidateId \<and> siAssetId r = assetId)) of
        (Some cur, Some cand) \<Rightarrow> rankOrder cur cand \<ge> 0
      | _ \<Rightarrow> False)"

definition lockAssetForPointerUpdate :: "sbomTables \<Rightarrow> jstr \<Rightarrow> jstr \<Rightarrow> jstr option" where
  "lockAssetForPointerUpdate t organizationId assetId =
     (case findFirst (\<lambda>a. apOrganizationId a = organizationId \<and> apId a = assetId) (tbAssets t) of
        None \<Rightarrow> None
      | Some a \<Rightarrow> apLastSuccessfulSbomIngestionId a)"

definition replaceAssetPointerIfCandidateIsCurrent ::
  "jstr \<Rightarrow> jstr \<Rightarrow> jstr \<Rightarrow> int \<Rightarrow> sbomTables \<Rightarrow> sbomTables" where
  "replaceAssetPointerIfCandidateIsCurrent organizationId assetId candidateIngestionId completedAt t =
     (if (case lockAssetForPointerUpdate t organizationId assetId of
            None \<Rightarrow> False
          | Some currentIngestionId \<Rightarrow>
              currentWins t organizationId assetId currentIngestionId candidateIngestionId)
      then t
      else t\<lparr>tbAssets := fst (updateMany (\<lambda>a. apOrganizationId a = organizationId \<and> apId a = assetId)
             (\<lambda>a. a\<lparr>apLastSuccessfulSbomIngestionId := Some candidateIngestionId,
                apLastSuccessfulSbomIngestionAt := Some completedAt\<rparr>) (tbAssets t))\<rparr>)"

subsection \<open>Storing a graph once\<close>

fun completenessText :: "graphCompleteness \<Rightarrow> jstr" where
  "completenessText graph_complete = js ''complete''"
| "completenessText graph_partial = js ''partial''"
| "completenessText graph_empty = js ''empty''"
| "completenessText no_dependencies = js ''no_dependencies''"

definition completedAudit :: "persistComponentGraphInput \<Rightarrow> normalizedComponentGraph \<Rightarrow> auditEventRow" where
  "completedAudit input graph =
     \<lparr>auActorType = js ''system'', auOrganizationId = pgOrganizationId input,
      auAction = js ''sbom.ingestion.completed'', auSubjectType = js ''sbom_ingestion'',
      auSubjectId = pgSbomIngestionId input, auOccurredAt = None, auCorrelationId = pgCorrelationId input,
      auPayload = JObject
        [(js ''schemaVersion'', JNumber (Integral 1)),
         (js ''metadata'', JObject
           [(js ''sbomId'', JString (pgSbomId input)),
            (js ''ingestionId'', JString (pgSbomIngestionId input)),
            (js ''graphCompleteness'', JString (completenessText (ngGraphCompleteness graph))),
            (js ''componentCount'', JNumber (Integral (ngComponentCount graph))),
            (js ''dependencyEdgeCount'', JNumber (Integral (ngDependencyEdgeCount graph))),
            (js ''warningCount'', JNumber (Integral (ngWarningCount graph))),
            (js ''parserVersion'', JString (ngParserVersion graph)),
            (js ''normalizationVersion'', JString (ngNormalizationVersion graph))])]\<rparr>"

definition completeCommand :: "int \<Rightarrow> normalizedComponentGraph \<Rightarrow> session8IngestionCommand" where
  "completeCommand completedAt graph =
     Complete completedAt (Some (ngGraphCompleteness graph)) (Some (Integral (ngComponentCount graph)))
       (Some (Integral (ngDependencyEdgeCount graph))) (Some (Integral (ngWarningCount graph)))"

text \<open>The \<^verbatim>\<open>data\<close> of the completing update: the start time stays, the failure columns are cleared.\<close>

definition writeCompletion :: "session8IngestionSnapshot \<Rightarrow> sbomIngestionRecord \<Rightarrow> sbomIngestionRecord" where
  "writeCompletion complete r =
     r\<lparr>iState := iState complete, iStage := iStage complete, iCompletedAt := iCompletedAt complete,
       iGraphCompleteness := iGraphCompleteness complete, iComponentCount := iComponentCount complete,
       iDependencyEdgeCount := iDependencyEdgeCount complete, iWarningCount := iWarningCount complete,
       iFailureCategory := None, iFailureCode := None, siVersion := siVersion r + 1\<rparr>"

definition ownedJobRow ::
  "jstr \<Rightarrow> persistOwnedBackgroundJob \<Rightarrow> int \<Rightarrow> backgroundJobRecord \<Rightarrow> bool" where
  "ownedJobRow organizationId ownedJob completedAt r \<longleftrightarrow>
     heldJob (Some organizationId) (ojobId ownedJob) (ojobWorkerIdentifier ownedJob) r \<and>
     (case bjLeaseExpiresAt r of None \<Rightarrow> False | Some lease \<Rightarrow> lease > completedAt)"

definition finishOwnedJob ::
  "persistComponentGraphInput \<Rightarrow> int \<Rightarrow> sbomTables \<Rightarrow> sbomTables" where
  "finishOwnedJob input completedAt t =
     (case pgOwnedJob input of
        None \<Rightarrow> t
      | Some ownedJob \<Rightarrow>
          t\<lparr>tbJobs := fst (updateMany (ownedJobRow (pgOrganizationId input) ownedJob completedAt)
              (succeedJobRow (ojobCompletedAt ownedJob)) (tbJobs t))\<rparr>)"

definition recordParser :: "persistComponentGraphInput \<Rightarrow> normalizedComponentGraph \<Rightarrow> jstr \<Rightarrow> sbomTables \<Rightarrow> sbomTables" where
  "recordParser input graph label t =
     t\<lparr>tbSboms := fst (updateMany
         (\<lambda>s. sbOrganizationId s = pgOrganizationId input \<and> sbId s = pgSbomId input)
         (\<lambda>s. s\<lparr>sbParserVersionLastSucceeded := Some label,
            sbSpecificationVersion := Some (ngSpecificationVersion graph)\<rparr>) (tbSboms t))\<rparr>"

text \<open>What follows the insertions: the completing update and everything after it.\<close>

definition completeIngestion ::
  "persistComponentGraphInput \<Rightarrow> normalizedComponentGraph \<Rightarrow> sbomIngestionRecord \<Rightarrow> int \<Rightarrow> sbomTables \<Rightarrow>
   (dbFailure + unit) \<times> sbomTables" where
  "completeIngestion input graph ingestion completedAt t =
     (case applySession8IngestionTransition (Some (toIngestionSnapshot ingestion))
             (completeCommand completedAt graph) of
        Inl e \<Rightarrow> (Inl (Refused e), t)
      | Inr complete \<Rightarrow>
          (let (rows, n) = updateMany
                 (\<lambda>r. atVersion (pgOrganizationId input) (pgSbomIngestionId input) (siVersion ingestion) r \<and>
                    iState r = processing) (writeCompletion complete) (tbIngestions t);
               t1 = t\<lparr>tbIngestions := rows\<rparr>
           in if n = 0 then (Inl (Refused SBOM_INVALID_TRANSITION), t1)
              else case requireVersionLabel (ngParserVersion graph) of
                  Inl failure \<Rightarrow> (Inl failure, t1)
                | Inr label \<Rightarrow>
                    (let t2 = replaceAssetPointerIfCandidateIsCurrent (pgOrganizationId input)
                           (pgAssetId input) (pgSbomIngestionId input) completedAt
                           (recordParser input graph label t1);
                         t3 = t2\<lparr>tbAudits := tbAudits t2 @ [completedAudit input graph]\<rparr>
                     in (Inr (), finishOwnedJob input completedAt t3))))"

definition storeGraph ::
  "databaseEnv \<Rightarrow> persistComponentGraphInput \<Rightarrow> normalizedComponentGraph \<Rightarrow> sbomIngestionRecord \<Rightarrow> int \<Rightarrow>
   sbomTables \<Rightarrow> (dbFailure + unit) \<times> sbomTables" where
  "storeGraph db input graph ingestion completedAt t =
     (case storeOccurrences db input (ngComponents graph) [] t of
        (Inl failure, t1) \<Rightarrow> (Inl failure, t1)
      | (Inr occurrenceByBomRef, t1) \<Rightarrow>
          (case collectEdgeData occurrenceByBomRef (ngEdges graph) [] of
             Inl e \<Rightarrow> (Inl (Refused e), t1)
           | Inr edgeData \<Rightarrow>
               (case (if length edgeData > 0 then createEdges db input edgeData t1 else (Inr (), t1)) of
                  (Inl failure, t2) \<Rightarrow> (Inl failure, t2)
                | (Inr _, t2) \<Rightarrow> completeIngestion input graph ingestion completedAt t2)))"

definition persistBody ::
  "databaseEnv \<Rightarrow> persistComponentGraphInput \<Rightarrow> normalizedComponentGraph \<Rightarrow> int \<Rightarrow> sbomTables \<Rightarrow>
   (dbFailure + unit) \<times> sbomTables" where
  "persistBody db input graph completedAt t =
     (case findFirst (\<lambda>r. siOrganizationId r = pgOrganizationId input \<and> siId r = pgSbomIngestionId input)
             (tbIngestions t) of
        None \<Rightarrow> (Inl (Refused SBOM_INVALID_TRANSITION), t)
      | Some ingestion \<Rightarrow>
          if siAssetId ingestion \<noteq> pgAssetId input \<or> siSbomId ingestion \<noteq> pgSbomId input \<or>
             siOrganizationId ingestion \<noteq> pgOrganizationId input
          then (Inl (Refused SBOM_INVALID_TRANSITION), t)
          else if iState ingestion = completed then (Inr (), t)
          else if isSession8TerminalState (iState ingestion) then (Inl (Refused SBOM_TERMINAL_STATE), t)
          else if iState ingestion \<noteq> processing then (Inl (Refused SBOM_INVALID_TRANSITION), t)
          else if iStartedAt ingestion = None then (Inl (Refused SBOM_PROCESSING_REQUIRES_STARTED_AT), t)
          else case findFirst (\<lambda>s. sbOrganizationId s = pgOrganizationId input \<and> sbId s = pgSbomId input \<and>
                   sbAssetId s = pgAssetId input) (tbSboms t) of
              None \<Rightarrow> (Inl (Refused SBOM_INVALID_TRANSITION), t)
            | Some sbom \<Rightarrow> storeGraph db input graph ingestion completedAt t)"

text \<open>\<^verbatim>\<open>$transaction\<close>: an exception rolls back, a returned error does not.\<close>

definition inTransaction ::
  "(sbomTables \<Rightarrow> (dbFailure + 'a) \<times> sbomTables) \<Rightarrow> sbomTables \<Rightarrow> (dbFailure + 'a) \<times> sbomTables" where
  "inTransaction work t =
     (case work t of
        (Inl Threw, _) \<Rightarrow> (Inl Threw, t)
      | (answer, t') \<Rightarrow> (answer, t'))"

definition persistOnceForIngestion ::
  "databaseEnv \<Rightarrow> persistComponentGraphInput \<Rightarrow> int \<Rightarrow> sbomTables \<Rightarrow> (dbFailure + unit) \<times> sbomTables" where
  "persistOnceForIngestion db input completedAt t =
     (case validateNormalizedComponentGraph (pgGraph input) of
        Inl e \<Rightarrow> (Inl (Refused e), t)
      | Inr graph \<Rightarrow>
          if \<not> UUID_PATTERN (pgOrganizationId input) \<or> \<not> UUID_PATTERN (pgSbomIngestionId input)
          then (Inl (Refused SBOM_INVALID_TRANSITION), t)
          else inTransaction (persistBody db input graph completedAt) t)"

subsection \<open>Reading a stored graph\<close>

definition DEFAULT_PAGE_SIZE :: nat where
  [catalog_defs]: "DEFAULT_PAGE_SIZE = 20"

definition MAX_PAGE_SIZE :: nat where
  [catalog_defs]: "MAX_PAGE_SIZE = 100"

definition MIN_PAGE_SIZE :: nat where
  [catalog_defs]: "MIN_PAGE_SIZE = 1"

definition boundPageSize :: "jsnum option \<Rightarrow> nat" where
  "boundPageSize limit =
     (case limit of
        None \<Rightarrow> DEFAULT_PAGE_SIZE
      | Some (Integral n) \<Rightarrow>
          if n < int MIN_PAGE_SIZE then MIN_PAGE_SIZE
          else if n > int MAX_PAGE_SIZE then MAX_PAGE_SIZE else nat n
      | Some _ \<Rightarrow> MIN_PAGE_SIZE)"

record pageRequest =
  prLimit :: "jsnum option"
  prAfterId :: "jstr option"

text \<open>
  \<^verbatim>\<open>paginateById\<close>: the query answers with at most \<open>take\<close> rows after the cursor, and a row too many tells that
  there is another page.
\<close>

definition paginateById ::
  "('r \<Rightarrow> jstr) \<Rightarrow> (nat \<Rightarrow> jstr option \<Rightarrow> 'r list) \<Rightarrow> pageRequest option \<Rightarrow> 'r list \<times> jstr option" where
  "paginateById idOf query page =
     (let limit = boundPageSize (case page of None \<Rightarrow> None | Some p \<Rightarrow> prLimit p);
          items = query (limit + 1) (case page of None \<Rightarrow> None | Some p \<Rightarrow> prAfterId p)
      in if length items > limit
         then (let pageItems = take limit items
               in (pageItems, if pageItems = [] then None else Some (idOf (last pageItems))))
         else (items, None))"

definition afterIdWhere :: "jstr option \<Rightarrow> jstr \<Rightarrow> bool" where
  "afterIdWhere cursorId i \<longleftrightarrow> (case cursorId of None \<Rightarrow> True | Some c \<Rightarrow> lex_cmp linord_cmp c i < 0)"

definition pageRows ::
  "('r \<Rightarrow> jstr) \<Rightarrow> ('r \<Rightarrow> bool) \<Rightarrow> 'r list \<Rightarrow> nat \<Rightarrow> jstr option \<Rightarrow> 'r list" where
  "pageRows idOf whr rows n cursorId =
     take n (cmp_sort (\<lambda>l r. lex_cmp linord_cmp (idOf l) (idOf r))
       (filter (\<lambda>r. whr r \<and> afterIdWhere cursorId (idOf r)) rows))"

definition listOccurrencesForIngestion ::
  "jstr \<Rightarrow> jstr \<Rightarrow> pageRequest option \<Rightarrow> sbomTables \<Rightarrow> componentOccurrenceRow list \<times> jstr option" where
  "listOccurrencesForIngestion organizationId sbomIngestionId page t =
     (if \<not> UUID_PATTERN organizationId \<or> \<not> UUID_PATTERN sbomIngestionId then ([], None)
      else paginateById coId (pageRows coId (\<lambda>r. coOrganizationId r = organizationId \<and>
        coSbomIngestionId r = sbomIngestionId) (tbOccurrences t)) page)"

definition listEdgesForIngestion ::
  "jstr \<Rightarrow> jstr \<Rightarrow> pageRequest option \<Rightarrow> sbomTables \<Rightarrow> dependencyRelationshipRecord list \<times> jstr option" where
  "listEdgesForIngestion organizationId sbomIngestionId page t =
     (if \<not> UUID_PATTERN organizationId \<or> \<not> UUID_PATTERN sbomIngestionId then ([], None)
      else paginateById drId (pageRows drId (\<lambda>r. drOrganizationId r = organizationId \<and>
        drSbomIngestionId r = sbomIngestionId) (tbEdges t)) page)"

end
