(* ===== verification/GraphRuns.thy ===== *)
theory GraphRuns
  imports GraphStore
begin

text \<open>
  What storing a graph does (\<^verbatim>\<open>GraphStore\<close>): the insertions stop by an exception or store every component
  and every edge, a validated graph never makes the transaction return an error after its first write,
  the stored rows read back as the graph, and the asset points to its newest completed ingestion.
\<close>

subsection \<open>Insertions\<close>

definition componentKey :: "componentRecord \<Rightarrow> jstr \<times> jstr" where
  "componentKey p = (cpOrganizationId p, cpIdentityKey p)"

definition names_component :: "componentRecord list \<Rightarrow> jstr \<Rightarrow> jstr \<Rightarrow> jstr \<Rightarrow> bool" where
  "names_component comps org key i \<longleftrightarrow> (\<exists>p \<in> set comps. cpId p = i \<and> componentKey p = (org, key))"

lemma names_component_append: "names_component comps org key i \<Longrightarrow> names_component (comps @ extra) org key i"
  by (auto simp: names_component_def)

lemma upsertComponent_run:
  assumes "upsertComponent db org c t = (i, t')"
  obtains comps where "t' = t\<lparr>tbComponents := tbComponents t @ comps, tbDrawn := tbDrawn t + length comps\<rparr>"
    "names_component (tbComponents t @ comps) org (ncIdentityKey c) i"
    "map cpId comps = map (dbUuid db) [tbDrawn t ..< tbDrawn t + length comps]"
    "\<forall>p \<in> set comps. componentKey p = (org, ncIdentityKey c) \<and>
       componentKey p \<notin> componentKey ` set (tbComponents t)" "length comps \<le> 1"
proof (cases "findFirst (\<lambda>r. cpOrganizationId r = org \<and> cpIdentityKey r = ncIdentityKey c) (tbComponents t)")
  case None
  then have "\<forall>r \<in> set (tbComponents t). componentKey r \<noteq> (org, ncIdentityKey c)"
    by (auto simp: findFirst_None_iff componentKey_def)
  then have new: "(org, ncIdentityKey c) \<notin> componentKey ` set (tbComponents t)" by force
  let ?row = "\<lparr>cpId = i, cpOrganizationId = org, cpIdentityKey = ncIdentityKey c,
      cpPurl = ncVersionlessPurl c, cpEcosystem = ncEcosystem c, cpNamespace = ncNamespace c,
      cpName = ncName c, cpIdentityState = ncIdentityState c\<rparr>"
  from None assms have "i = dbUuid db (tbDrawn t)"
    "t' = t\<lparr>tbComponents := tbComponents t @ [?row], tbDrawn := Suc (tbDrawn t)\<rparr>"
    by (auto simp: upsertComponent_def drawId_def Let_def)
  with new show thesis
    by (intro that [of "[?row]"]) (simp_all add: names_component_def, simp_all add: componentKey_def)
next
  case (Some r)
  with assms have "i = cpId r" "t' = t" by (simp_all add: upsertComponent_def)
  with that [of "[]"] findFirst_SomeD [OF Some] show thesis
    by (auto simp: names_component_def componentKey_def)
qed

text \<open>The row an occurrence of a component becomes.\<close>

definition stores_component ::
  "persistComponentGraphInput \<Rightarrow> componentRecord list \<Rightarrow> componentOccurrenceRow \<Rightarrow> normalizedComponent \<Rightarrow> bool" where
  "stores_component input comps occ c \<longleftrightarrow>
     coOrganizationId occ = pgOrganizationId input \<and> coAssetId occ = pgAssetId input \<and>
     coSbomId occ = pgSbomId input \<and> coSbomIngestionId occ = pgSbomIngestionId input \<and>
     coBomRef occ = ncBomRef c \<and>
     toOccurrenceVersionColumns (ncVersion c) =
       Inr \<lparr>ovVersionKnown = coVersionKnown occ, ovVersion = coVersion occ\<rparr> \<and>
     coVersionedPurl occ = ncVersionedPurl c \<and> coIsDirect occ = ncIsDirect c \<and>
     names_component comps (pgOrganizationId input) (ncIdentityKey c) (coComponentId occ)"

lemma stores_component_append:
  "stores_component input comps occ c \<Longrightarrow> stores_component input (comps @ extra) occ c"
  by (simp add: stores_component_def names_component_append)

definition storedRefs :: "componentOccurrenceRow list \<Rightarrow> (jstr \<times> jstr) list" where
  "storedRefs rows = List.map_filter (\<lambda>occ. map_option (\<lambda>r. (r, coId occ)) (coBomRef occ)) rows"

lemma storedRefs_Cons [simp]:
  "storedRefs [] = []"
  "storedRefs (occ # rows) = (case coBomRef occ of None \<Rightarrow> [] | Some r \<Rightarrow> [(r, coId occ)]) @ storedRefs rows"
  by (simp_all add: storedRefs_def map_filter_simps split: option.splits)

text \<open>Identifiers drawn one after the other.\<close>

definition drawn_ids :: "databaseEnv \<Rightarrow> nat \<Rightarrow> nat \<Rightarrow> jstr list \<Rightarrow> bool" where
  "drawn_ids db a b xs \<longleftrightarrow> (\<exists>ks. xs = map (dbUuid db) ks \<and> sorted_wrt (<) ks \<and> set ks \<subseteq> {a ..< b})"

lemma drawn_ids_distinct: "inj (dbUuid db) \<Longrightarrow> drawn_ids db a b xs \<Longrightarrow> distinct xs"
  by (auto simp: drawn_ids_def distinct_map strict_sorted_iff intro: inj_on_subset [OF _ subset_UNIV])

lemma drawn_ids_Cons:
  "drawn_ids db (Suc k) b xs \<Longrightarrow> a \<le> k \<Longrightarrow> k < b \<Longrightarrow> drawn_ids db a b (dbUuid db k # xs)"
  unfolding drawn_ids_def
  by (elim exE conjE, rename_tac ks, rule_tac x = "k # ks" in exI) fastforce

lemma drawn_ids_append:
  "drawn_ids db a b xs \<Longrightarrow> drawn_ids db b c ys \<Longrightarrow> a \<le> b \<Longrightarrow> b \<le> c \<Longrightarrow> drawn_ids db a c (xs @ ys)"
  unfolding drawn_ids_def
  by (elim exE conjE, rename_tac ks ls, rule_tac x = "ks @ ls" in exI)
    (fastforce simp: sorted_wrt_append)

lemma drawn_ids_upt: "drawn_ids db a b (map (dbUuid db) [a ..< b])"
  unfolding drawn_ids_def by (rule exI [of _ "[a ..< b]"]) simp

lemma drawn_ids_mono: "drawn_ids db a b xs \<Longrightarrow> a' \<le> a \<Longrightarrow> b \<le> b' \<Longrightarrow> drawn_ids db a' b' xs"
  unfolding drawn_ids_def by fastforce

text \<open>
  The loop over components with good versions stops by an exception or stores each of them: in order,
  with its bom-ref, version and component, under an identifier of its own.
\<close>

lemma columns_total: "version_ok v \<Longrightarrow> \<exists>cols. toOccurrenceVersionColumns v = Inr cols"
  using parseComponentVersion_iff [of v v]
  by (auto simp: toOccurrenceVersionColumns_def split: componentVersion.splits)

lemma storeOccurrences_run:
  assumes "list_all (\<lambda>c. version_ok (ncVersion c)) cs" "storeOccurrences db input cs refs t = (answer, t')"
  shows "answer = Inl Threw \<or> (\<exists>comps rows n.
    answer = Inr (rev (storedRefs rows) @ refs) \<and>
    t' = t\<lparr>tbComponents := tbComponents t @ comps, tbOccurrences := tbOccurrences t @ rows,
           tbDrawn := tbDrawn t + n\<rparr> \<and>
    list_all2 (stores_component input (tbComponents t @ comps)) rows cs \<and>
    drawn_ids db (tbDrawn t) (tbDrawn t + n) (map coId rows) \<and>
    drawn_ids db (tbDrawn t) (tbDrawn t + n) (map cpId comps))"
  using assms
proof (induction cs arbitrary: refs t)
  case Nil
  then have "answer = Inr refs" "t' = t" by simp_all
  then show ?case
    by (intro disjI2 exI [of _ "[]"] exI [of _ 0]) (simp add: drawn_ids_def)
next
  case (Cons c cs)
  obtain cols where cols: "toOccurrenceVersionColumns (ncVersion c) = Inr cols"
    using Cons.prems(1) columns_total by auto
  obtain i t1 where ups: "upsertComponent db (pgOrganizationId input) c t = (i, t1)" by fastforce
  then obtain comps where t1: "t1 = t\<lparr>tbComponents := tbComponents t @ comps, tbDrawn := tbDrawn t + length comps\<rparr>"
    and named: "names_component (tbComponents t @ comps) (pgOrganizationId input) (ncIdentityKey c) i"
    and fresh: "map cpId comps = map (dbUuid db) [tbDrawn t ..< tbDrawn t + length comps]"
    by (rule upsertComponent_run)
  let ?k = "tbDrawn t + length comps"
  let ?row = "occurrenceRow input c cols i (dbUuid db ?k)"
  let ?t3 = "t1\<lparr>tbDrawn := Suc ?k, tbOccurrences := tbOccurrences t @ [?row]\<rparr>"
  let ?refs = "case ncBomRef c of None \<Rightarrow> refs | Some r \<Rightarrow> (r, dbUuid db ?k) # refs"
  note run = Cons.prems(2) [unfolded storeOccurrences.simps cols sum.case ups prod.case Let_def]
  show ?case
  proof (cases "\<not> dbAccepts db c \<or> list_ex (sameOccurrence ?row) (tbOccurrences t)")
    case True
    with run have "answer = Inl Threw" by (auto simp: drawId_def createOccurrence_def t1 split: if_splits)
    then show ?thesis by simp
  next
    case False
    with run have rest: "storeOccurrences db input cs ?refs ?t3 = (answer, t')"
      by (simp add: drawId_def createOccurrence_def t1 occurrenceRow_def cong: option.case_cong)
    have tail: "list_all (\<lambda>c. version_ok (ncVersion c)) cs" using Cons.prems(1) by simp
    have "answer = Inl Threw \<or> (\<exists>comps' rows n.
        answer = Inr (rev (storedRefs rows) @ ?refs) \<and>
        t' = ?t3\<lparr>tbComponents := tbComponents ?t3 @ comps', tbOccurrences := tbOccurrences ?t3 @ rows,
               tbDrawn := tbDrawn ?t3 + n\<rparr> \<and>
        list_all2 (stores_component input (tbComponents ?t3 @ comps')) rows cs \<and>
        drawn_ids db (tbDrawn ?t3) (tbDrawn ?t3 + n) (map coId rows) \<and>
        drawn_ids db (tbDrawn ?t3) (tbDrawn ?t3 + n) (map cpId comps'))"
      by (rule Cons.IH [OF tail rest])
    then show ?thesis
    proof (elim disjE exE conjE, goal_cases)
      case (2 comps' rows n)
      have "stores_component input (tbComponents t @ comps @ comps') ?row c"
        using named names_component_append [of "tbComponents t @ comps"] cols
        by (auto simp: stores_component_def occurrenceRow_def)
      moreover have "drawn_ids db (tbDrawn t) (Suc ?k + n) (map coId (?row # rows))"
        using 2 drawn_ids_Cons [of db ?k "Suc ?k + n" "map coId rows" "tbDrawn t"]
        by (simp add: occurrenceRow_def t1)
      moreover have "drawn_ids db (tbDrawn t) ?k (map cpId comps)" by (simp add: fresh drawn_ids_upt)
      then have "drawn_ids db (tbDrawn t) (Suc ?k + n) (map cpId comps @ map cpId comps')"
        using 2 drawn_ids_mono [of db "Suc ?k" "Suc ?k + n" "map cpId comps'" ?k "Suc ?k + n"]
        by (intro drawn_ids_append [of db _ ?k]) (simp_all add: t1)
      ultimately show ?case
        using 2 by (intro disjI2 exI [of _ "comps @ comps'"] exI [of _ "?row # rows"]
            exI [of _ "Suc (length comps + n)"])
          (auto simp: t1 occurrenceRow_def add.assoc split: option.splits)
    qed simp
  qed
qed

text \<open>The bom-refs of the stored rows resolve to their identifiers.\<close>

lemma storedRefs_fst:
  "list_all2 (stores_component input comps) rows cs \<Longrightarrow> map fst (storedRefs rows) = bomRefsOf cs"
  by (induction rule: list_all2_induct) (auto simp: stores_component_def split: option.splits)

lemma storedRefs_mem:
  "(r, i) \<in> set (storedRefs rows) \<longleftrightarrow> (\<exists>occ \<in> set rows. coBomRef occ = Some r \<and> coId occ = i)"
  by (induction rows) (auto split: option.splits)

lemma storedRefs_lookup:
  assumes "list_all2 (stores_component input comps) rows cs" "distinct (bomRefsOf cs)"
  shows "map_of (rev (storedRefs rows)) r = Some i \<longleftrightarrow>
    (\<exists>occ \<in> set rows. coBomRef occ = Some r \<and> coId occ = i)"
proof -
  have "distinct (map fst (rev (storedRefs rows)))"
    using storedRefs_fst [OF assms(1)] assms(2) by (simp add: rev_map [symmetric])
  from map_of_eq_Some_iff [OF this] show ?thesis by (simp add: storedRefs_mem)
qed

definition joins :: "componentOccurrenceRow list \<Rightarrow> jstr \<times> jstr \<Rightarrow> normalizedDependencyEdge \<Rightarrow> bool" where
  "joins rows ends edge \<longleftrightarrow>
     (\<exists>a \<in> set rows. coId a = fst ends \<and> coBomRef a = Some (edFromBomRef edge)) \<and>
     (\<exists>b \<in> set rows. coId b = snd ends \<and> coBomRef b = Some (edToBomRef edge))"

lemma collectEdgeData_run:
  assumes stored: "list_all2 (stores_component input comps) rows cs" "distinct (bomRefsOf cs)"
    and "list_all (edge_ok (set (bomRefsOf cs))) edges"
  shows "\<exists>ends. collectEdgeData (rev (storedRefs rows)) edges acc = Inr (acc @ ends) \<and>
    list_all2 (joins rows) ends edges"
  using assms(3)
proof (induction edges arbitrary: acc)
  case (Cons edge edges)
  have known: "\<exists>i. map_of (rev (storedRefs rows)) r = Some i" if "r \<in> set (bomRefsOf cs)" for r
  proof -
    from that have "r \<in> set (map fst (storedRefs rows))" by (simp only: storedRefs_fst [OF stored(1)])
    then obtain i where "(r, i) \<in> set (storedRefs rows)" by auto
    then show ?thesis using storedRefs_lookup [OF stored, of r i] by (auto simp: storedRefs_mem)
  qed
  from Cons.prems have "edFromBomRef edge \<in> set (bomRefsOf cs)" "edToBomRef edge \<in> set (bomRefsOf cs)"
    by (simp_all add: edge_ok_def)
  from this [THEN known] obtain a b where
    a: "map_of (rev (storedRefs rows)) (edFromBomRef edge) = Some a" and
    b: "map_of (rev (storedRefs rows)) (edToBomRef edge) = Some b" by blast
  then have "joins rows (a, b) edge" by (auto simp: joins_def storedRefs_lookup [OF stored])
  moreover obtain ends where "collectEdgeData (rev (storedRefs rows)) edges (acc @ [(a, b)]) = Inr ((acc @ [(a, b)]) @ ends)"
    "list_all2 (joins rows) ends edges"
    using Cons.IH [of "acc @ [(a, b)]"] Cons.prems by auto
  ultimately show ?case
    using a b Cons.prems by (intro exI [of _ "(a, b) # ends"]) (auto simp: edge_ok_def)
qed simp

definition stores_edge ::
  "persistComponentGraphInput \<Rightarrow> componentOccurrenceRow list \<Rightarrow> dependencyRelationshipRecord \<Rightarrow>
   normalizedDependencyEdge \<Rightarrow> bool" where
  "stores_edge input rows r edge \<longleftrightarrow>
     drOrganizationId r = pgOrganizationId input \<and> drSbomId r = pgSbomId input \<and>
     drSbomIngestionId r = pgSbomIngestionId input \<and> drRelationshipType r = edRelationshipType edge \<and>
     joins rows (drFromOccurrenceId r, drToOccurrenceId r) edge"

lemma map2_edgeRow:
  "list_all2 (joins rows) ends edges \<Longrightarrow> list_all (edge_ok refs) edges \<Longrightarrow> length ks = length ends \<Longrightarrow>
   list_all2 (stores_edge input rows) (map2 (edgeRow db input) ks ends) edges"
proof (induction ends edges arbitrary: ks rule: list_all2_induct)
  case (Cons x xs y ys)
  then obtain k ks' where "ks = k # ks'" by (cases ks) auto
  with Cons show ?case by (simp add: stores_edge_def edgeRow_def edge_ok_def)
qed simp

text \<open>Storing the edges of a good graph: an exception, or every edge as a row between the right occurrences.\<close>

lemma storeEdges_run:
  assumes "list_all2 (joins rows) ends edges" "list_all (edge_ok refs) edges"
    and "(if length ends > 0 then createEdges db input ends t else (Inr (), t)) = (answer, t')"
  shows "answer = Inl Threw \<or> (\<exists>new. answer = Inr () \<and>
    t' = t\<lparr>tbEdges := tbEdges t @ new, tbDrawn := tbDrawn t + length new\<rparr> \<and>
    list_all2 (stores_edge input rows) new edges \<and>
    (distinct (map edgeIndexKey (tbEdges t)) \<longrightarrow> distinct (map edgeIndexKey (tbEdges t @ new))))"
proof (cases "ends = []")
  case True
  with assms show ?thesis by (intro disjI2 exI [of _ "[]"]) auto
next
  case False
  let ?new = "map2 (edgeRow db input) [tbDrawn t ..< tbDrawn t + length ends] ends"
  have "list_all2 (stores_edge input rows) ?new edges"
    by (rule map2_edgeRow [OF assms(1,2)]) simp
  show ?thesis
  proof (cases "distinct (map edgeIndexKey (tbEdges t @ ?new))")
    case distinct: True
    with False assms(3) have "answer = Inr ()"
      "t' = t\<lparr>tbEdges := tbEdges t @ ?new, tbDrawn := tbDrawn t + length ?new\<rparr>"
      by (auto simp: createEdges_def Let_def simp del: map_append distinct_append)
    with distinct \<open>list_all2 (stores_edge input rows) ?new edges\<close> show ?thesis
      by (intro disjI2 exI [of _ ?new]) simp
  next
    case not_distinct: False
    with False assms(3) show ?thesis
      by (simp add: createEdges_def Let_def del: map_append distinct_append)
  qed
qed

subsection \<open>Completing the ingestion\<close>

definition completion_of :: "int \<Rightarrow> normalizedComponentGraph \<Rightarrow> session8IngestionSnapshot \<Rightarrow> session8IngestionSnapshot" where
  "completion_of completedAt g s =
     s\<lparr>iState := completed, iStage := Some persist_graph, iCompletedAt := Some completedAt,
       iGraphCompleteness := Some (ngGraphCompleteness g),
       iComponentCount := Some (Integral (ngComponentCount g)),
       iDependencyEdgeCount := Some (Integral (ngDependencyEdgeCount g)),
       iWarningCount := Some (Integral (ngWarningCount g)), iFailureCategory := None, iFailureCode := None\<rparr>"

definition completedRow :: "int \<Rightarrow> normalizedComponentGraph \<Rightarrow> sbomIngestionRecord \<Rightarrow> sbomIngestionRecord" where
  "completedRow completedAt g r = writeCompletion (completion_of completedAt g (toIngestionSnapshot r)) r"

lemma completedRow_keeps [simp]:
  "siId (completedRow n g r) = siId r" "siOrganizationId (completedRow n g r) = siOrganizationId r"
  "siSbomId (completedRow n g r) = siSbomId r" "siAssetId (completedRow n g r) = siAssetId r"
  "siCreatedAt (completedRow n g r) = siCreatedAt r" "iState (completedRow n g r) = completed"
  "iComponentCount (completedRow n g r) = Some (Integral (ngComponentCount g))"
  "iDependencyEdgeCount (completedRow n g r) = Some (Integral (ngDependencyEdgeCount g))"
  "siVersion (completedRow n g r) = siVersion r + 1"
  by (simp_all add: completedRow_def writeCompletion_def completion_of_def)

lemma completedRow_snapshot:
  "toIngestionSnapshot (completedRow n g r) = completion_of n g (toIngestionSnapshot r)"
  by (simp add: completedRow_def writeCompletion_def completion_of_def toIngestionSnapshot_def)

lemma graph_counts_valid:
  "graph_ok g \<Longrightarrow> countsAreValid (ngGraphCompleteness g) (Integral (ngComponentCount g))
     (Integral (ngDependencyEdgeCount g)) (Integral (ngWarningCount g))"
  using sum_positive [of "ngWarnings g"] by (auto simp: graph_ok_def countsAreValid_iff)

lemma completes:
  assumes "ingestion_inv s" "iState s = processing" "graph_ok g"
  shows "applySession8IngestionTransition (Some s) (completeCommand n g) = Inr (completion_of n g s)"
    "ingestion_inv (completion_of n g s)"
proof -
  show "applySession8IngestionTransition (Some s) (completeCommand n g) = Inr (completion_of n g s)"
    using assms graph_counts_valid [OF assms(3)]
    by (simp add: completeCommand_def processingSnapshot_inv completion_of_def isSession8TerminalState_def
        session8IngestionTerminalStates_def)
  show "ingestion_inv (completion_of n g s)"
    using completion_inv [OF assms(1,2) graph_counts_valid [OF assms(3)]]
    by (simp add: completion_of_def)
qed

definition completedTables ::
  "persistComponentGraphInput \<Rightarrow> normalizedComponentGraph \<Rightarrow> sbomIngestionRecord \<Rightarrow> int \<Rightarrow> sbomTables \<Rightarrow> sbomTables" where
  "completedTables input g ing n t =
     (let t1 = recordParser input g (ngParserVersion g)
            (t\<lparr>tbIngestions := map (\<lambda>r. if r = ing then completedRow n g r else r) (tbIngestions t)\<rparr>);
          t2 = replaceAssetPointerIfCandidateIsCurrent (pgOrganizationId input) (pgAssetId input)
            (pgSbomIngestionId input) n t1
      in finishOwnedJob input n (t2\<lparr>tbAudits := tbAudits t2 @ [completedAudit input g]\<rparr>))"

lemma completeIngestion_run:
  assumes keyed: "ingestions.keyed (tbIngestions t)" and ing: "ing \<in> set (tbIngestions t)"
    "siOrganizationId ing = pgOrganizationId input" "siId ing = pgSbomIngestionId input"
    "iState ing = processing" "ingestion_inv (toIngestionSnapshot ing)"
    and g: "graph_ok g"
  shows "completeIngestion input g ing n t =
    (if VERSION_LABEL (ngParserVersion g) \<and> length (ngParserVersion g) \<le> 64
     then (Inr (), completedTables input g ing n t)
     else (Inl Threw, t\<lparr>tbIngestions := map (\<lambda>r. if r = ing then completedRow n g r else r) (tbIngestions t)\<rparr>))"
proof -
  let ?sel = "\<lambda>r. atVersion (pgOrganizationId input) (pgSbomIngestionId input) (siVersion ing) r \<and> iState r = processing"
  let ?c = "completion_of n g (toIngestionSnapshot ing)"
  have sel: "?sel r \<longleftrightarrow> r = ing" if "r \<in> set (tbIngestions t)" for r
    using ingestions.keyed_same [OF keyed that ing(1)] ing by (auto simp: atVersion_def)
  have "map (\<lambda>r. if ?sel r then writeCompletion ?c r else r) (tbIngestions t) =
      map (\<lambda>r. if r = ing then completedRow n g r else r) (tbIngestions t)"
    by (rule map_cong) (auto simp: sel completedRow_def)
  moreover have "filter ?sel (tbIngestions t) \<noteq> []"
    using ing(1) sel [OF ing(1)] unfolding filter_empty_conv by blast
  ultimately have "updateMany ?sel (writeCompletion ?c) (tbIngestions t) =
      (map (\<lambda>r. if r = ing then completedRow n g r else r) (tbIngestions t),
       length (filter ?sel (tbIngestions t)))" "length (filter ?sel (tbIngestions t)) \<noteq> 0"
    unfolding updateMany_def by simp_all
  moreover have "applySession8IngestionTransition (Some (toIngestionSnapshot ing)) (completeCommand n g) = Inr ?c"
    by (rule completes [OF ing(5) _ g]) (simp add: ing)
  ultimately show ?thesis
    unfolding completeIngestion_def completedTables_def
    by (simp add: requireVersionLabel_def Let_def del: updateMany_rows)
qed

lemma completedTables_fields [simp]:
  "tbIngestions (completedTables input g ing n t) =
     map (\<lambda>r. if r = ing then completedRow n g r else r) (tbIngestions t)"
  "tbOccurrences (completedTables input g ing n t) = tbOccurrences t"
  "tbComponents (completedTables input g ing n t) = tbComponents t"
  "tbEdges (completedTables input g ing n t) = tbEdges t"
  "tbDrawn (completedTables input g ing n t) = tbDrawn t"
  "tbAudits (completedTables input g ing n t) = tbAudits t @ [completedAudit input g]"
  by (simp_all add: completedTables_def Let_def finishOwnedJob_def recordParser_def
      replaceAssetPointerIfCandidateIsCurrent_def split: option.splits)

subsection \<open>The whole transaction\<close>

definition rows_ok :: "sbomTables \<Rightarrow> bool" where
  "rows_ok t \<longleftrightarrow> ingestions.keyed (tbIngestions t) \<and>
     (\<forall>r \<in> set (tbIngestions t). ingestion_inv (toIngestionSnapshot r))"

definition graph_stored ::
  "databaseEnv \<Rightarrow> persistComponentGraphInput \<Rightarrow> sbomIngestionRecord \<Rightarrow> int \<Rightarrow> sbomTables \<Rightarrow> sbomTables \<Rightarrow> bool" where
  "graph_stored db input ing n t t' \<longleftrightarrow>
     (\<exists>comps rows edges k.
        list_all2 (stores_component input (tbComponents t @ comps)) rows (ngComponents (pgGraph input)) \<and>
        list_all2 (stores_edge input rows) edges (ngEdges (pgGraph input)) \<and>
        drawn_ids db (tbDrawn t) k (map coId rows) \<and> drawn_ids db (tbDrawn t) k (map cpId comps) \<and>
        tbDrawn t \<le> k \<and>
        (distinct (map edgeIndexKey (tbEdges t)) \<longrightarrow> distinct (map edgeIndexKey (tbEdges t @ edges))) \<and>
        t' = completedTables input (pgGraph input) ing n
          (t\<lparr>tbComponents := tbComponents t @ comps, tbOccurrences := tbOccurrences t @ rows,
             tbEdges := tbEdges t @ edges, tbDrawn := k\<rparr>))"

lemma storeGraph_run:
  assumes t: "rows_ok t" and ing: "ing \<in> set (tbIngestions t)" "siOrganizationId ing = pgOrganizationId input"
    "siId ing = pgSbomIngestionId input" "iState ing = processing"
    and g: "graph_ok (pgGraph input)"
    and run: "storeGraph db input (pgGraph input) ing n t = (answer, t')"
  shows "answer = Inl Threw \<or> answer = Inr () \<and> graph_stored db input ing n t t'"
proof -
  let ?g = "pgGraph input"
  have versions: "list_all (\<lambda>c. version_ok (ncVersion c)) (ngComponents ?g)"
    and refs: "distinct (bomRefsOf (ngComponents ?g))"
    and edges: "list_all (edge_ok (set (bomRefsOf (ngComponents ?g)))) (ngEdges ?g)"
    using g by (auto simp: graph_ok_def components_ok_def component_ok_def list_all_iff)
  obtain a1 t1 where one: "storeOccurrences db input (ngComponents ?g) [] t = (a1, t1)" by fastforce
  show ?thesis
  proof (cases "a1 = Inl Threw")
    case True
    with run one show ?thesis by (simp add: storeGraph_def)
  next
    case False
    with storeOccurrences_run [OF versions one] obtain comps rows m where
      a1: "a1 = Inr (rev (storedRefs rows))" and
      t1: "t1 = t\<lparr>tbComponents := tbComponents t @ comps, tbOccurrences := tbOccurrences t @ rows,
             tbDrawn := tbDrawn t + m\<rparr>" and
      rows: "list_all2 (stores_component input (tbComponents t @ comps)) rows (ngComponents ?g)" and
      ids: "drawn_ids db (tbDrawn t) (tbDrawn t + m) (map coId rows)"
        "drawn_ids db (tbDrawn t) (tbDrawn t + m) (map cpId comps)" by auto
    obtain ends where ends: "collectEdgeData (rev (storedRefs rows)) (ngEdges ?g) [] = Inr ends"
      "list_all2 (joins rows) ends (ngEdges ?g)"
      using collectEdgeData_run [OF rows refs edges, of "[]"] by auto
    obtain a2 t2 where two: "(if length ends > 0 then createEdges db input ends t1 else (Inr (), t1)) = (a2, t2)"
      by fastforce
    show ?thesis
    proof (cases "a2 = Inl Threw")
      case True
      with run one two ends a1 show ?thesis by (simp add: storeGraph_def)
    next
      case False
      with storeEdges_run [OF ends(2) edges two] obtain new where
        new: "a2 = Inr ()" "t2 = t1\<lparr>tbEdges := tbEdges t1 @ new, tbDrawn := tbDrawn t1 + length new\<rparr>"
        "list_all2 (stores_edge input rows) new (ngEdges ?g)"
        "distinct (map edgeIndexKey (tbEdges t1)) \<longrightarrow> distinct (map edgeIndexKey (tbEdges t1 @ new))" by auto
      have t2: "t2 = t\<lparr>tbComponents := tbComponents t @ comps, tbOccurrences := tbOccurrences t @ rows,
          tbEdges := tbEdges t @ new, tbDrawn := tbDrawn t + m + length new\<rparr>"
        by (simp add: new t1)
      have "(answer, t') = completeIngestion input ?g ing n t2"
        using run one two ends a1 new(1) by (simp add: storeGraph_def)
      then have "answer = Inl Threw \<or> answer = Inr () \<and> t' = completedTables input ?g ing n t2"
        using completeIngestion_run [of t2 ing input ?g n] t ing g by (auto simp: t2 rows_ok_def split: if_splits)
      moreover have "drawn_ids db (tbDrawn t) (tbDrawn t + m + length new) (map coId rows)"
        "drawn_ids db (tbDrawn t) (tbDrawn t + m + length new) (map cpId comps)"
        using ids [THEN drawn_ids_mono] by simp_all
      ultimately show ?thesis using rows new(3,4) unfolding graph_stored_def t2 t1
        by (fastforce simp del: distinct_append map_append)
    qed
  qed
qed

lemma persistBody_cases:
  assumes run: "persistBody db input g n t = (answer, t')"
  obtains (early) "t' = t" "answer = Inr () \<longrightarrow> (\<exists>r \<in> set (tbIngestions t).
      siOrganizationId r = pgOrganizationId input \<and> siId r = pgSbomIngestionId input \<and> iState r = completed)"
  | (store) ing s where "ing \<in> set (tbIngestions t)" "siOrganizationId ing = pgOrganizationId input"
      "siId ing = pgSbomIngestionId input" "siAssetId ing = pgAssetId input" "siSbomId ing = pgSbomId input"
      "iState ing = processing" "s \<in> set (tbSboms t)" "sbOrganizationId s = pgOrganizationId input"
      "sbId s = pgSbomId input" "storeGraph db input g ing n t = (answer, t')"
proof (cases "findFirst (\<lambda>r. siOrganizationId r = pgOrganizationId input \<and> siId r = pgSbomIngestionId input)
    (tbIngestions t)")
  case None
  with run show thesis by (intro early) (auto simp: persistBody_def)
next
  case (Some ing)
  have row: "ing \<in> set (tbIngestions t)" "siOrganizationId ing = pgOrganizationId input"
    "siId ing = pgSbomIngestionId input"
    using findFirst_SomeD [OF Some] by simp_all
  let ?sbom = "findFirst (\<lambda>s. sbOrganizationId s = pgOrganizationId input \<and> sbId s = pgSbomId input \<and>
    sbAssetId s = pgAssetId input) (tbSboms t)"
  let ?fits = "siAssetId ing = pgAssetId input \<and> siSbomId ing = pgSbomId input \<and> iState ing = processing"
  show thesis
  proof (cases "?fits \<and> iStartedAt ing \<noteq> None \<and> ?sbom \<noteq> None")
    case True
    then obtain s where s: "?sbom = Some s" by auto
    have "storeGraph db input g ing n t = (answer, t')"
      using run Some True s row(2)
      by (simp add: persistBody_def isSession8TerminalState_def session8IngestionTerminalStates_def)
    with True findFirst_SomeD [OF s] show thesis by (intro store [OF row]) auto
  next
    case False
    with run Some row show thesis
      by (intro early) (auto simp: persistBody_def split: if_splits option.splits)
  qed
qed

lemma persistOnce_cases:
  assumes t: "rows_ok t" and run: "persistOnceForIngestion db input n t = (answer, t')"
  obtains (kept) "t' = t" "answer = Inr () \<longrightarrow> (\<exists>r \<in> set (tbIngestions t).
      siOrganizationId r = pgOrganizationId input \<and> siId r = pgSbomIngestionId input \<and> iState r = completed)"
  | (stored) ing s where "answer = Inr ()" "graph_ok (pgGraph input)" "ing \<in> set (tbIngestions t)"
      "siOrganizationId ing = pgOrganizationId input" "siId ing = pgSbomIngestionId input"
      "siAssetId ing = pgAssetId input" "siSbomId ing = pgSbomId input" "iState ing = processing"
      "s \<in> set (tbSboms t)" "sbOrganizationId s = pgOrganizationId input" "sbId s = pgSbomId input"
      "graph_stored db input ing n t t'"
proof (cases "validateNormalizedComponentGraph (pgGraph input)")
  case (Inl e)
  with run show thesis by (intro kept) (auto simp: persistOnceForIngestion_def)
next
  case (Inr g)
  then have g: "g = pgGraph input" "graph_ok (pgGraph input)" by (auto simp: validateGraph_iff)
  obtain a1 t1 where body: "persistBody db input (pgGraph input) n t = (a1, t1)" by fastforce
  have outer: "answer \<noteq> Inr () \<and> t' = t \<or> a1 \<noteq> Inl Threw \<and> answer = a1 \<and> t' = t1"
    using run Inr g(1) body by (auto simp: persistOnceForIngestion_def inTransaction_def
      split: if_splits sum.splits dbFailure.splits)
  from body show thesis
  proof (cases rule: persistBody_cases)
    case early
    with outer show thesis by (intro kept) auto
  next
    case (store ing s)
    have "a1 = Inl Threw \<or> a1 = Inr () \<and> graph_stored db input ing n t t1"
      by (rule storeGraph_run [OF t store(1,2,3,6) g(2) store(10)])
    with outer show thesis
      using kept stored [OF _ g(2) store(1-9)] by auto
  qed
qed

subsection \<open>What the tables promise\<close>

definition occurrencesOf :: "sbomIngestionRecord \<Rightarrow> sbomTables \<Rightarrow> componentOccurrenceRow list" where
  "occurrencesOf r t =
     filter (\<lambda>occ. coOrganizationId occ = siOrganizationId r \<and> coSbomIngestionId occ = siId r) (tbOccurrences t)"

definition edgesOf :: "sbomIngestionRecord \<Rightarrow> sbomTables \<Rightarrow> dependencyRelationshipRecord list" where
  "edgesOf r t =
     filter (\<lambda>e. drOrganizationId e = siOrganizationId r \<and> drSbomIngestionId e = siId r) (tbEdges t)"

text \<open>
  Every occurrence and every edge belongs to an ingestion. A completed one has as many as it counts, any
  other has none.
\<close>

definition graphs_ok :: "sbomTables \<Rightarrow> bool" where
  "graphs_ok t \<longleftrightarrow>
     coSbomIngestionId ` set (tbOccurrences t) \<subseteq> siId ` set (tbIngestions t) \<and>
     drSbomIngestionId ` set (tbEdges t) \<subseteq> siId ` set (tbIngestions t) \<and>
     (\<forall>r \<in> set (tbIngestions t).
       if iState r = completed
       then iComponentCount r = Some (Integral (int (length (occurrencesOf r t)))) \<and>
            iDependencyEdgeCount r = Some (Integral (int (length (edgesOf r t))))
       else occurrencesOf r t = [] \<and> edgesOf r t = [])"

definition supply_ok :: "databaseEnv \<Rightarrow> sbomTables \<Rightarrow> bool" where
  "supply_ok db t \<longleftrightarrow> distinct (map cpId (tbComponents t)) \<and>
     cpId ` set (tbComponents t) \<subseteq> dbUuid db ` {..< tbDrawn t} \<and>
     distinct (map edgeIndexKey (tbEdges t))"

definition rankOf :: "sbomTables \<Rightarrow> sbomIngestionRecord \<Rightarrow> ingestionRank option" where
  "rankOf t r =
     (case findFirst (\<lambda>s. sbOrganizationId s = siOrganizationId r \<and> sbId s = siSbomId r) (tbSboms t) of
        None \<Rightarrow> None
      | Some s \<Rightarrow> Some \<lparr>rkReceivedAt = sbReceivedAt s, rkCreatedAt = siCreatedAt r, rkId = siId r\<rparr>)"

text \<open>\<open>r\<close> is the newest completed ingestion of its asset.\<close>

definition completed_for :: "sbomTables \<Rightarrow> assetPointer \<Rightarrow> sbomIngestionRecord set" where
  "completed_for t a = {r \<in> set (tbIngestions t). iState r = completed \<and>
     siOrganizationId r = apOrganizationId a \<and> siAssetId r = apId a}"

definition newest :: "sbomTables \<Rightarrow> sbomIngestionRecord set \<Rightarrow> sbomIngestionRecord \<Rightarrow> bool" where
  "newest t R r \<longleftrightarrow> r \<in> R \<and> (\<forall>r' \<in> R. rankOrder (the (rankOf t r')) (the (rankOf t r)) \<le> 0)"

definition pointer_ok :: "sbomTables \<Rightarrow> assetPointer \<Rightarrow> bool" where
  "pointer_ok t a \<longleftrightarrow>
     (case apLastSuccessfulSbomIngestionId a of
        None \<Rightarrow> completed_for t a = {}
      | Some i \<Rightarrow> (\<exists>r. siId r = i \<and> newest t (completed_for t a) r))"

definition pointers_ok :: "sbomTables \<Rightarrow> bool" where
  "pointers_ok t \<longleftrightarrow> distinct (map apId (tbAssets t)) \<and>
     (\<forall>r \<in> set (tbIngestions t). rankOf t r \<noteq> None) \<and> (\<forall>a \<in> set (tbAssets t). pointer_ok t a)"

definition tables_ok :: "databaseEnv \<Rightarrow> sbomTables \<Rightarrow> bool" where
  "tables_ok db t \<longleftrightarrow> rows_ok t \<and> graphs_ok t \<and> supply_ok db t \<and> pointers_ok t"

text \<open>The stored rows read back.\<close>

definition readOccurrence :: "sbomTables \<Rightarrow> componentOccurrenceRow \<Rightarrow>
   jstr option \<times> jstr option \<times> (appError + componentVersion) \<times> jstr option \<times> bool option" where
  "readOccurrence t occ =
     (coBomRef occ, map_option cpIdentityKey (findFirst (\<lambda>p. cpId p = coComponentId occ) (tbComponents t)),
      fromOccurrenceVersionColumns \<lparr>ovVersionKnown = coVersionKnown occ, ovVersion = coVersion occ\<rparr>,
      coVersionedPurl occ, coIsDirect occ)"

definition writtenComponent :: "normalizedComponent \<Rightarrow>
   jstr option \<times> jstr option \<times> (appError + componentVersion) \<times> jstr option \<times> bool option" where
  "writtenComponent c =
     (ncBomRef c, Some (ncIdentityKey c), Inr (ncVersion c), ncVersionedPurl c, ncIsDirect c)"

definition bomRefAt :: "componentOccurrenceRow list \<Rightarrow> jstr \<Rightarrow> jstr option" where
  "bomRefAt rows i = (case findFirst (\<lambda>occ. coId occ = i) rows of None \<Rightarrow> None | Some occ \<Rightarrow> coBomRef occ)"

definition readEdge :: "componentOccurrenceRow list \<Rightarrow> dependencyRelationshipRecord \<Rightarrow>
   jstr option \<times> jstr option \<times> jstr" where
  "readEdge rows e = (bomRefAt rows (drFromOccurrenceId e), bomRefAt rows (drToOccurrenceId e), drRelationshipType e)"

definition writtenEdge :: "normalizedDependencyEdge \<Rightarrow> jstr option \<times> jstr option \<times> jstr" where
  "writtenEdge e = (Some (edFromBomRef e), Some (edToBomRef e), edRelationshipType e)"

definition reads_as :: "sbomTables \<Rightarrow> sbomIngestionRecord \<Rightarrow> normalizedComponentGraph \<Rightarrow> bool" where
  "reads_as t r g \<longleftrightarrow>
     map (readOccurrence t) (occurrencesOf r t) = map writtenComponent (ngComponents g) \<and>
     map (readEdge (occurrencesOf r t)) (edgesOf r t) = map writtenEdge (ngEdges g)"

interpretation component_table: keyed_table cpId "\<lambda>change. \<forall>r. cpId (change r) = cpId r"
  by unfold_locales simp

interpretation occurrence_table: keyed_table coId "\<lambda>change. \<forall>r. coId (change r) = coId r"
  by unfold_locales simp

lemma supply_append:
  assumes "supply_ok db t" "inj (dbUuid db)" "drawn_ids db (tbDrawn t) k (map cpId comps)" "tbDrawn t \<le> k"
  shows "distinct (map cpId (tbComponents t @ comps))"
    "cpId ` set (tbComponents t @ comps) \<subseteq> dbUuid db ` {..< k}"
proof -
  obtain ks where ks: "map cpId comps = map (dbUuid db) ks" "set ks \<subseteq> {tbDrawn t ..< k}"
    using assms(3) by (auto simp: drawn_ids_def)
  have new: "cpId ` set comps = dbUuid db ` set ks" using ks(1) by (metis list.set_map)
  have "dbUuid db ` {..< tbDrawn t} \<inter> dbUuid db ` set ks = {}"
    using ks(2) assms(2) by (auto simp: inj_eq)
  then have "cpId ` set (tbComponents t) \<inter> cpId ` set comps = {}"
    using assms(1) unfolding supply_ok_def new by blast
  then show "distinct (map cpId (tbComponents t @ comps))"
    using assms(1) drawn_ids_distinct [OF assms(2,3)] by (simp add: supply_ok_def)
  show "cpId ` set (tbComponents t @ comps) \<subseteq> dbUuid db ` {..< k}"
  proof -
    have "dbUuid db ` set ks \<subseteq> dbUuid db ` {..< k}" "dbUuid db ` {..< tbDrawn t} \<subseteq> dbUuid db ` {..< k}"
      using ks(2) assms(4) by (auto intro!: imageI)
    then show ?thesis using assms(1) unfolding supply_ok_def set_append image_Un new by blast
  qed
qed

lemma read_stored_component:
  assumes "stores_component input comps occ c" "distinct (map cpId comps)" "tbComponents t = comps"
  shows "readOccurrence t occ = writtenComponent c"
proof -
  obtain p where p: "p \<in> set comps" "cpId p = coComponentId occ" "cpIdentityKey p = ncIdentityKey c"
    using assms(1) by (auto simp: stores_component_def names_component_def componentKey_def)
  have "findFirst (\<lambda>p. cpId p = coComponentId occ) comps = Some p"
    using component_table.keyed_find [of comps p "\<lambda>p. cpId p = coComponentId occ"] p assms(2)
    by (simp add: component_table.keyed_def)
  with assms(1,3) p show ?thesis
    by (auto simp: readOccurrence_def writtenComponent_def stores_component_def version_columns_roundtrip)
qed

lemma read_stored_edge:
  assumes "stores_edge input rows e edge" "distinct (map coId rows)"
  shows "readEdge rows e = writtenEdge edge"
proof -
  have at: "bomRefAt rows i = coBomRef occ" if "occ \<in> set rows" "coId occ = i" for occ i
    using occurrence_table.keyed_find [of rows occ "\<lambda>o'. coId o' = i"] that assms(2)
    by (simp add: bomRefAt_def occurrence_table.keyed_def)
  from assms(1) show ?thesis by (auto simp: stores_edge_def joins_def readEdge_def writtenEdge_def dest!: at)
qed

lemma list_all2_map_eq: "list_all2 P xs ys \<Longrightarrow> (\<And>x y. P x y \<Longrightarrow> f x = g y) \<Longrightarrow> map f xs = map g ys"
  by (induction rule: list_all2_induct) auto

text \<open>The rows of the other ingestions are untouched, the rows of this one are the graph's.\<close>

lemma occurrencesOf_append:
  assumes "list_all2 (stores_component input comps) rows cs" "tbOccurrences t' = tbOccurrences t @ rows"
  shows "occurrencesOf r t' = occurrencesOf r t @
    (if siOrganizationId r = pgOrganizationId input \<and> siId r = pgSbomIngestionId input then rows else [])"
proof -
  have "\<forall>occ \<in> set rows. coOrganizationId occ = pgOrganizationId input \<and> coSbomIngestionId occ = pgSbomIngestionId input"
    using assms(1) by (induction rule: list_all2_induct) (auto simp: stores_component_def)
  then show ?thesis using assms(2) by (auto simp: occurrencesOf_def intro: filter_True filter_False)
qed

lemma edgesOf_append:
  assumes "list_all2 (stores_edge input rows) new edges" "tbEdges t' = tbEdges t @ new"
  shows "edgesOf r t' = edgesOf r t @
    (if siOrganizationId r = pgOrganizationId input \<and> siId r = pgSbomIngestionId input then new else [])"
proof -
  have "\<forall>e \<in> set new. drOrganizationId e = pgOrganizationId input \<and> drSbomIngestionId e = pgSbomIngestionId input"
    using assms(1) by (induction rule: list_all2_induct) (auto simp: stores_edge_def)
  then show ?thesis using assms(2) by (auto simp: edgesOf_def intro: filter_True filter_False)
qed

lemma of_completedRow [simp]:
  "occurrencesOf (completedRow n g r) t = occurrencesOf r t" "edgesOf (completedRow n g r) t = edgesOf r t"
  by (simp_all add: occurrencesOf_def edgesOf_def)

lemma stored_graphs:
  assumes t: "rows_ok t" "graphs_ok t" and ing: "ing \<in> set (tbIngestions t)"
    "siOrganizationId ing = pgOrganizationId input" "siId ing = pgSbomIngestionId input" "iState ing = processing"
    and g: "graph_ok (pgGraph input)" and stored: "graph_stored db input ing n t t'"
  shows "rows_ok t'" "graphs_ok t'"
proof -
  obtain comps rows edges k where
    rows: "list_all2 (stores_component input (tbComponents t @ comps)) rows (ngComponents (pgGraph input))" and
    edges: "list_all2 (stores_edge input rows) edges (ngEdges (pgGraph input))" and
    t': "tbIngestions t' = map (\<lambda>r. if r = ing then completedRow n (pgGraph input) r else r) (tbIngestions t)"
      "tbOccurrences t' = tbOccurrences t @ rows" "tbEdges t' = tbEdges t @ edges"
    using stored by (auto simp: graph_stored_def)
  have keys: "map siId (tbIngestions t') = map siId (tbIngestions t)" unfolding t' by simp
  show "rows_ok t'"
    using t(1) ing completes(2) [OF _ _ g] unfolding rows_ok_def ingestions.keyed_def keys
    by (auto simp: t' completedRow_snapshot split: if_splits)
  have ids: "siId ` set (tbIngestions t') = siId ` set (tbIngestions t)"
    using arg_cong [OF keys, of set] by simp
  have "\<forall>occ \<in> set rows. coSbomIngestionId occ = siId ing" "\<forall>e \<in> set edges. drSbomIngestionId e = siId ing"
    using rows edges ing(3) by (auto simp: list_all2_conv_all_nth in_set_conv_nth stores_component_def stores_edge_def)
  then have owned: "coSbomIngestionId ` set (tbOccurrences t') \<subseteq> siId ` set (tbIngestions t')"
    "drSbomIngestionId ` set (tbEdges t') \<subseteq> siId ` set (tbIngestions t')"
    using t(2) ing(1) unfolding ids t' by (auto simp: graphs_ok_def)
  show "graphs_ok t'"
    unfolding graphs_ok_def
  proof (intro conjI owned ballI)
    fix r'
    assume "r' \<in> set (tbIngestions t')"
    then obtain r where r: "r \<in> set (tbIngestions t)" "r' = (if r = ing then completedRow n (pgGraph input) r else r)"
      by (auto simp: t')
    have other: "r \<noteq> ing \<Longrightarrow> siId r \<noteq> pgSbomIngestionId input"
      using ingestions.keyed_same [of "tbIngestions t" r ing] t(1) r(1) ing by (auto simp: rows_ok_def)
    show "if iState r' = completed
      then iComponentCount r' = Some (Integral (int (length (occurrencesOf r' t')))) \<and>
           iDependencyEdgeCount r' = Some (Integral (int (length (edgesOf r' t'))))
      else occurrencesOf r' t' = [] \<and> edgesOf r' t' = []"
    proof (cases "r = ing")
      case True
      have "occurrencesOf ing t = []" "edgesOf ing t = []" using t(2) ing by (auto simp: graphs_ok_def)
      with True r(2) g ing rows edges show ?thesis
        by (auto simp: occurrencesOf_append [OF rows t'(2)] edgesOf_append [OF edges t'(3)] graph_ok_def
            dest!: list_all2_lengthD)
    next
      case False
      with t(2) r other show ?thesis
        by (simp add: occurrencesOf_append [OF rows t'(2)] edgesOf_append [OF edges t'(3)] graphs_ok_def)
    qed
  qed
qed

lemma stored_supply:
  assumes "supply_ok db t" "inj (dbUuid db)" "graph_stored db input ing n t t'"
  shows "supply_ok db t'"
proof -
  obtain comps rows edges k where
    ids: "drawn_ids db (tbDrawn t) k (map cpId comps)" "tbDrawn t \<le> k" and
    edges: "distinct (map edgeIndexKey (tbEdges t)) \<longrightarrow> distinct (map edgeIndexKey (tbEdges t @ edges))" and
    eq: "t' = completedTables input (pgGraph input) ing n
      (t\<lparr>tbComponents := tbComponents t @ comps, tbOccurrences := tbOccurrences t @ rows,
         tbEdges := tbEdges t @ edges, tbDrawn := k\<rparr>)"
    using assms(3) unfolding graph_stored_def by blast
  have t': "tbComponents t' = tbComponents t @ comps" "tbEdges t' = tbEdges t @ edges" "tbDrawn t' = k"
    by (simp_all add: eq)
  show ?thesis
    using supply_append [OF assms(1,2) ids] edges assms(1) unfolding supply_ok_def t' by blast
qed

lemma stored_reads:
  assumes t: "rows_ok t" "graphs_ok t" "supply_ok db t" "inj (dbUuid db)" and ing: "ing \<in> set (tbIngestions t)"
    "siOrganizationId ing = pgOrganizationId input" "siId ing = pgSbomIngestionId input" "iState ing = processing"
    and stored: "graph_stored db input ing n t t'"
  shows "reads_as t' ing (pgGraph input)"
proof -
  obtain comps rows edges k where
    rows: "list_all2 (stores_component input (tbComponents t @ comps)) rows (ngComponents (pgGraph input))" and
    edges: "list_all2 (stores_edge input rows) edges (ngEdges (pgGraph input))" and
    ids: "drawn_ids db (tbDrawn t) k (map coId rows)" "drawn_ids db (tbDrawn t) k (map cpId comps)" "tbDrawn t \<le> k" and
    t': "tbComponents t' = tbComponents t @ comps" "tbOccurrences t' = tbOccurrences t @ rows"
      "tbEdges t' = tbEdges t @ edges"
    using stored by (auto simp: graph_stored_def)
  have "occurrencesOf ing t = []" "edgesOf ing t = []" using t(2) ing by (auto simp: graphs_ok_def)
  then have own: "occurrencesOf ing t' = rows" "edgesOf ing t' = edges"
    by (simp_all add: occurrencesOf_append [OF rows t'(2)] edgesOf_append [OF edges t'(3)] ing)
  show ?thesis
    unfolding reads_as_def own
  proof
    show "map (readOccurrence t') rows = map writtenComponent (ngComponents (pgGraph input))"
      using supply_append(1) [OF t(3,4) ids(2,3)]
      by (intro list_all2_map_eq [OF rows] read_stored_component [OF _ _ t'(1)])
    show "map (readEdge rows) edges = map writtenEdge (ngEdges (pgGraph input))"
      using drawn_ids_distinct [OF t(4) ids(1)] by (intro list_all2_map_eq [OF edges] read_stored_edge)
  qed
qed

subsection \<open>The asset's pointer\<close>

interpretation rank_order: preorder_cmp rankOrder
  unfolding rankOrder_def
  by (rule preorder_then [OF preorder_by_key [OF linord.preorder_cmp_axioms] preorder_then
        [OF preorder_by_key [OF linord.preorder_cmp_axioms] preorder_by_key [OF jstr_order.preorder_cmp_axioms]]])

interpretation sbom_table: keyed_table sbId "\<lambda>change. \<forall>s. sbId (change s) = sbId s"
  by unfold_locales simp

interpretation asset_table: keyed_table apId "\<lambda>change. \<forall>a. apId (change a) = apId a"
  by unfold_locales simp

lemma findFirst_map: "findFirst P (map f xs) = map_option f (findFirst (\<lambda>x. P (f x)) xs)"
  unfolding findFirst_def by (induction xs) auto

lemma rankOf_sboms:
  assumes "tbSboms t' = map f (tbSboms t)" "siOrganizationId r' = siOrganizationId r" "siSbomId r' = siSbomId r"
    "siCreatedAt r' = siCreatedAt r" "siId r' = siId r"
    "\<And>s. sbId (f s) = sbId s \<and> sbOrganizationId (f s) = sbOrganizationId s \<and> sbReceivedAt (f s) = sbReceivedAt s"
  shows "rankOf t' r' = rankOf t r"
  using assms by (auto simp: rankOf_def findFirst_map split: option.splits)

lemma rankWhere_row:
  assumes "ingestions.keyed (tbIngestions t)" "r \<in> set (tbIngestions t)" "siOrganizationId r = org"
    "iState r = completed" "siId r = i" "whr r"
  shows "rankWhere t org (\<lambda>r. siId r = i \<and> whr r) = rankOf t r"
proof -
  have "findFirst (\<lambda>r. siOrganizationId r = org \<and> iState r = completed \<and> siId r = i \<and> whr r) (tbIngestions t) = Some r"
    using assms by (intro ingestions.keyed_find) auto
  with assms(3) show ?thesis by (simp add: rankWhere_def rankOf_def)
qed

lemma currentWins_rows:
  assumes "ingestions.keyed (tbIngestions t)" "cur \<in> set (tbIngestions t)" "cand \<in> set (tbIngestions t)"
    "siOrganizationId cur = org" "siOrganizationId cand = org" "siAssetId cand = asset"
    "iState cur = completed" "iState cand = completed" "rankOf t cur \<noteq> None" "rankOf t cand \<noteq> None"
  shows "currentWins t org asset (siId cur) (siId cand) \<longleftrightarrow>
    rankOrder (the (rankOf t cur)) (the (rankOf t cand)) \<ge> 0"
proof -
  have "rankWhere t org (\<lambda>r. siId r = siId cur) = rankOf t cur"
    using rankWhere_row [of t cur org "siId cur" "\<lambda>_. True"] assms by simp
  moreover have "rankWhere t org (\<lambda>r. siId r = siId cand \<and> siAssetId r = asset) = rankOf t cand"
    using rankWhere_row [of t cand org "siId cand" "\<lambda>r. siAssetId r = asset"] assms by simp
  ultimately show ?thesis using assms(9,10) by (auto simp: currentWins_def)
qed

text \<open>Adding one completed ingestion keeps the pointer newest.\<close>

definition movedPointer :: "sbomTables \<Rightarrow> sbomIngestionRecord \<Rightarrow> int \<Rightarrow> assetPointer \<Rightarrow> assetPointer" where
  "movedPointer t cand n a =
     (if apOrganizationId a = siOrganizationId cand \<and> apId a = siAssetId cand \<and>
         \<not> (case apLastSuccessfulSbomIngestionId a of None \<Rightarrow> False
            | Some i \<Rightarrow> currentWins t (siOrganizationId cand) (siAssetId cand) i (siId cand))
      then a\<lparr>apLastSuccessfulSbomIngestionId := Some (siId cand), apLastSuccessfulSbomIngestionAt := Some n\<rparr>
      else a)"

lemma replace_moves:
  assumes "asset_table.keyed (tbAssets t)"
  shows "tbAssets (replaceAssetPointerIfCandidateIsCurrent (siOrganizationId cand) (siAssetId cand) (siId cand) n t) =
    map (movedPointer t cand n) (tbAssets t)"
proof -
  let ?m = "\<lambda>a. apOrganizationId a = siOrganizationId cand \<and> apId a = siAssetId cand"
  have "lockAssetForPointerUpdate t (siOrganizationId cand) (siAssetId cand) = apLastSuccessfulSbomIngestionId a"
    if "a \<in> set (tbAssets t)" "?m a" for a
    using asset_table.keyed_find [OF assms that(1), of ?m] that(2) by (simp add: lockAssetForPointerUpdate_def)
  then show ?thesis
    by (auto simp: replaceAssetPointerIfCandidateIsCurrent_def movedPointer_def intro!: map_cong map_idI [symmetric])
qed

lemma newest_insert:
  assumes "newest t R r"
  shows "rankOrder (the (rankOf t r)) (the (rankOf t cand)) \<ge> 0 \<Longrightarrow> newest t (insert cand R) r"
    "rankOrder (the (rankOf t r)) (the (rankOf t cand)) < 0 \<Longrightarrow> newest t (insert cand R) cand"
proof -
  assume "rankOrder (the (rankOf t r)) (the (rankOf t cand)) \<ge> 0"
  with assms rank_order.cmp_flip [of "the (rankOf t cand)" "the (rankOf t r)"]
  show "newest t (insert cand R) r" by (simp add: newest_def)
next
  assume "rankOrder (the (rankOf t r)) (the (rankOf t cand)) < 0"
  with assms show "newest t (insert cand R) cand"
    using rank_order.le_less_trans [of _ "the (rankOf t r)" "the (rankOf t cand)"]
    by (force simp: newest_def rank_order.cmp_refl)
qed

lemma completed_for_step:
  assumes keyed: "ingestions.keyed (tbIngestions t)" and ing: "ing \<in> set (tbIngestions t)" "iState ing = processing"
    and t': "tbIngestions t' = map (\<lambda>r. if r = ing then completedRow n g r else r) (tbIngestions t)"
  shows "completed_for t' a = (if apOrganizationId a = siOrganizationId ing \<and> apId a = siAssetId ing
    then insert (completedRow n g ing) (completed_for t a) else completed_for t a)"
  using ing by (auto simp: completed_for_def t')

lemma completed_pointer:
  assumes rows: "rows_ok t" "rows_ok t1" and ing: "ing \<in> set (tbIngestions t)" "iState ing = processing"
    and t1: "tbIngestions t1 = map (\<lambda>r. if r = ing then completedRow n g r else r) (tbIngestions t)"
    and ranks: "\<forall>r \<in> set (tbIngestions t). rankOf t r \<noteq> None" "\<And>r. rankOf t1 r = rankOf t r"
    and a: "pointer_ok t a"
  shows "pointer_ok t1 (movedPointer t1 (completedRow n g ing) n a)"
proof -
  let ?c = "completedRow n g ing"
  have c: "?c \<in> set (tbIngestions t1)" using ing(1) by (force simp: t1)
  have crank: "rankOf t1 ?c \<noteq> None" using ranks ing(1) by (simp add: ranks(2)) (simp add: rankOf_def split: option.splits)
  have news: "newest t1 R r \<longleftrightarrow> newest t R r" for R r by (simp add: newest_def ranks(2))
  note compl = completed_for_step [OF _ ing t1]
  have keyed: "ingestions.keyed (tbIngestions t)" "ingestions.keyed (tbIngestions t1)"
    using rows by (simp_all add: rows_ok_def)
  show ?thesis
  proof (cases "apOrganizationId a = siOrganizationId ing \<and> apId a = siAssetId ing")
    case False
    then have "movedPointer t1 ?c n a = a" "completed_for t1 a = completed_for t a"
      using compl [OF keyed(1), of a] by (auto simp: movedPointer_def)
    with a show ?thesis by (simp add: pointer_ok_def news split: option.splits)
  next
    case True
    have moved: "completed_for u (a\<lparr>apLastSuccessfulSbomIngestionId := p, apLastSuccessfulSbomIngestionAt := q\<rparr>) =
        completed_for u a" for u p q by (simp add: completed_for_def)
    have R: "completed_for t1 a = insert ?c (completed_for t a)" using compl [OF keyed(1), of a] True by simp
    show ?thesis
    proof (cases "apLastSuccessfulSbomIngestionId a")
      case None
      with a have "completed_for t a = {}" by (simp add: pointer_ok_def)
      with None True R show ?thesis
        by (auto simp: movedPointer_def pointer_ok_def newest_def rank_order.cmp_refl moved)
    next
      case (Some i)
      then obtain r where r: "siId r = i" "newest t1 (completed_for t a) r"
        using a by (auto simp: pointer_ok_def news)
      then have cur: "r \<in> set (tbIngestions t)" "iState r = completed" "siOrganizationId r = siOrganizationId ing"
        "siAssetId r = siAssetId ing" using True by (auto simp: newest_def completed_for_def)
      moreover have "r \<in> set (tbIngestions t1)" using cur ing by (force simp: t1)
      ultimately have wins: "currentWins t1 (siOrganizationId ing) (siAssetId ing) i (siId ing) \<longleftrightarrow>
          rankOrder (the (rankOf t1 r)) (the (rankOf t1 ?c)) \<ge> 0"
        using currentWins_rows [OF keyed(2) _ c, of r] ranks crank r(1) by simp
      show ?thesis
      proof (cases "rankOrder (the (rankOf t1 r)) (the (rankOf t1 ?c)) \<ge> 0")
        case yes: True
        with wins Some True have "movedPointer t1 ?c n a = a" by (simp add: movedPointer_def)
        with Some R r(1) newest_insert(1) [OF r(2) yes] show ?thesis by (auto simp: pointer_ok_def)
      next
        case no: False
        with wins Some True have "movedPointer t1 ?c n a =
            a\<lparr>apLastSuccessfulSbomIngestionId := Some (siId ing), apLastSuccessfulSbomIngestionAt := Some n\<rparr>"
          by (simp add: movedPointer_def)
        moreover have "newest t1 (insert ?c (completed_for t a)) ?c"
          using newest_insert(2) [OF r(2)] no by simp
        ultimately show ?thesis using R by (auto simp: pointer_ok_def moved intro!: exI [of _ ?c])
      qed
    qed
  qed
qed

lemma pointer_ok_cong:
  assumes "tbIngestions t' = tbIngestions t" "\<And>r. rankOf t' r = rankOf t r"
  shows "pointer_ok t' a \<longleftrightarrow> pointer_ok t a"
proof -
  have "completed_for t' a = completed_for t a" "newest t' R r \<longleftrightarrow> newest t R r" for R r
    using assms by (simp_all add: completed_for_def newest_def)
  then show ?thesis by (simp add: pointer_ok_def split: option.splits)
qed

lemma stored_pointers:
  assumes t: "rows_ok t" "graphs_ok t" "pointers_ok t" and ing: "ing \<in> set (tbIngestions t)"
    "siOrganizationId ing = pgOrganizationId input" "siId ing = pgSbomIngestionId input" "iState ing = processing"
    "siAssetId ing = pgAssetId input" and g: "graph_ok (pgGraph input)" and stored: "graph_stored db input ing n t t'"
  shows "pointers_ok t'"
proof -
  let ?g = "pgGraph input"
  obtain t0 where t0: "t' = completedTables input ?g ing n t0" "tbIngestions t0 = tbIngestions t"
    "tbSboms t0 = tbSboms t" "tbAssets t0 = tbAssets t" using stored by (auto simp: graph_stored_def)
  let ?t1 = "recordParser input ?g (ngParserVersion ?g)
    (t0\<lparr>tbIngestions := map (\<lambda>r. if r = ing then completedRow n ?g r else r) (tbIngestions t)\<rparr>)"
  have t1: "tbIngestions ?t1 = map (\<lambda>r. if r = ing then completedRow n ?g r else r) (tbIngestions t)"
    "tbAssets ?t1 = tbAssets t" by (simp_all add: recordParser_def t0)
  have rank: "rankOf ?t1 r = rankOf t r" for r
    by (rule rankOf_sboms [where f = "\<lambda>s. if sbOrganizationId s = pgOrganizationId input \<and> sbId s = pgSbomId input
        then s\<lparr>sbParserVersionLastSucceeded := Some (ngParserVersion ?g),
          sbSpecificationVersion := Some (ngSpecificationVersion ?g)\<rparr> else s"])
      (simp_all add: recordParser_def t0)
  have "tbAssets t' = tbAssets (replaceAssetPointerIfCandidateIsCurrent (siOrganizationId (completedRow n ?g ing))
      (siAssetId (completedRow n ?g ing)) (siId (completedRow n ?g ing)) n ?t1)"
    by (simp add: t0(1) completedTables_def Let_def finishOwnedJob_def t0(2) ing split: option.splits)
  then have assets: "tbAssets t' = map (movedPointer ?t1 (completedRow n ?g ing) n) (tbAssets t)"
    using t(3) by (subst (asm) replace_moves) (simp_all add: t1 asset_table.keyed_def pointers_ok_def)
  have same: "tbIngestions t' = tbIngestions ?t1" "rankOf t' r = rankOf ?t1 r" for r
    by (simp_all add: t0(1) t1 t0(2)) (simp add: t0(1) rankOf_def completedTables_def Let_def finishOwnedJob_def
        replaceAssetPointerIfCandidateIsCurrent_def t0(2) split: option.splits)
  have rows1: "rows_ok ?t1"
    using stored_graphs(1) [OF t(1,2) ing(1-4) g stored] by (simp add: rows_ok_def same)
  have ranked: "\<forall>r \<in> set (tbIngestions t). rankOf t r \<noteq> None" using t(3) by (simp add: pointers_ok_def)
  have key: "apId (movedPointer ?t1 (completedRow n ?g ing) n a) = apId a" for a by (simp add: movedPointer_def)
  have pointers: "pointer_ok t' (movedPointer ?t1 (completedRow n ?g ing) n a)" if "a \<in> set (tbAssets t)" for a
  proof -
    have "pointer_ok ?t1 (movedPointer ?t1 (completedRow n ?g ing) n a)"
      using that t(3) by (intro completed_pointer [OF t(1) rows1 ing(1,4) t1(1) ranked rank])
        (simp add: pointers_ok_def)
    then show ?thesis by (simp only: pointer_ok_cong [of t' ?t1] same)
  qed
  have "rankOf t' r' \<noteq> None" if "r' \<in> set (tbIngestions t')" for r'
  proof -
    from that obtain r where r: "r \<in> set (tbIngestions t)" "r' = (if r = ing then completedRow n ?g r else r)"
      by (auto simp: same t1)
    then have "rankOf t r' = None \<longleftrightarrow> rankOf t r = None" by (auto simp: rankOf_def split: option.splits)
    with r ranked show ?thesis by (simp add: same rank)
  qed
  with pointers t(3) show ?thesis
    by (auto simp: pointers_ok_def assets key comp_def)
qed

text \<open>Storing a graph keeps what the tables promise.\<close>

lemma persist_keeps:
  assumes "tables_ok db t" "inj (dbUuid db)" "persistOnceForIngestion db input n t = (answer, t')"
  shows "tables_ok db t'"
proof -
  have t: "rows_ok t" "graphs_ok t" "supply_ok db t" "pointers_ok t" using assms(1) by (simp_all add: tables_ok_def)
  from t(1) assms(3) show ?thesis
  proof (cases rule: persistOnce_cases)
    case kept
    with assms(1) show ?thesis by simp
  next
    case (stored ing s)
    with stored_graphs [OF t(1,2) stored(3,4,5,8,2,12)] stored_supply [OF t(3) assms(2) stored(12)]
      stored_pointers [OF t(1,2,4) stored(3,4,5,8,6,2,12)]
    show ?thesis by (simp add: tables_ok_def)
  qed
qed

text \<open>
  C8. Storing a graph is all or nothing, although an error returned inside the transaction would commit
  what was written before it: whatever graph, ingestion and tables it is asked for, either the tables are
  as before, or the answer is good, the ingestion is completed and its rows read back as the graph:
  every component with its bom-ref, identity, version, package URL and directness, and every edge between
  the right bom-refs, in order. It answers well without a change only for an ingestion that was
  completed before.
\<close>
theorem graph_stored_whole:
  assumes "tables_ok db t" "inj (dbUuid db)" "persistOnceForIngestion db input n t = (answer, t')"
  shows "t' = t \<and> (answer = Inr () \<longrightarrow> (\<exists>r \<in> set (tbIngestions t). siOrganizationId r = pgOrganizationId input \<and>
      siId r = pgSbomIngestionId input \<and> iState r = completed)) \<or>
    answer = Inr () \<and> (\<exists>r \<in> set (tbIngestions t'). siOrganizationId r = pgOrganizationId input \<and>
      siId r = pgSbomIngestionId input \<and> iState r = completed \<and> reads_as t' r (pgGraph input))"
proof -
  have t: "rows_ok t" "graphs_ok t" "supply_ok db t" using assms(1) by (simp_all add: tables_ok_def)
  from t(1) assms(3) show ?thesis
  proof (cases rule: persistOnce_cases)
    case kept
    then show ?thesis by blast
  next
    case (stored ing s)
    have "completedRow n (pgGraph input) ing \<in> set (tbIngestions t')"
      using stored(3,12) by (force simp: graph_stored_def)
    moreover have "reads_as t' (completedRow n (pgGraph input) ing) (pgGraph input)"
      using stored_reads [OF t assms(2) stored(3,4,5,8,12)] by (simp add: reads_as_def)
    ultimately show ?thesis
      using stored(1,4,5) by (intro disjI2 conjI bexI [of _ "completedRow n (pgGraph input) ing"]) simp_all
  qed
qed

end
