(* ===== verification/GraphSuccess.thy ===== *)
theory GraphSuccess
  imports GraphRuns
begin

text \<open>
  A graph that is valid, lists no dependency twice and fits the columns is always stored: none of the
  unique indexes can refuse its rows, and neither the edges nor the completion can be refused.
\<close>

lemma same_columns:
  "toOccurrenceVersionColumns v = Inr \<lparr>ovVersionKnown = a, ovVersion = x\<rparr> \<Longrightarrow>
   toOccurrenceVersionColumns w = Inr \<lparr>ovVersionKnown = b, ovVersion = x\<rparr> \<Longrightarrow> v = w"
  unfolding version_columns_roundtrip
  by (auto simp: fromOccurrenceVersionColumns_def knownComponentVersion_def split: if_splits)

lemma columns_eta: "cols = \<lparr>ovVersionKnown = ovVersionKnown cols, ovVersion = ovVersion (cols :: occurrenceVersionColumns)\<rparr>"
  by simp

lemma names_component_unique:
  assumes "distinct (map cpId comps)" "names_component comps org key i" "names_component comps org' key' i"
  shows "key = key'"
  using assms component_table.keyed_same [of comps]
  by (auto simp: names_component_def component_table.keyed_def componentKey_def)

definition fresh_component :: "normalizedComponent list \<Rightarrow> normalizedComponent \<Rightarrow> bool" where
  "fresh_component ds c \<longleftrightarrow> (\<forall>d \<in> set ds.
     componentOccurrenceNormalizationKey d \<noteq> componentOccurrenceNormalizationKey c \<and>
     (ncBomRef c \<noteq> None \<longrightarrow> ncBomRef d \<noteq> ncBomRef c))"

text \<open>No index refuses the row of a component that repeats no component version and no bom-ref.\<close>

lemma no_same_occurrence:
  assumes rows: "list_all2 (stores_component input comps) rows ds" "distinct (map cpId comps)"
    and row: "stores_component input comps occ c" "fresh_component ds c" and old: "occ' \<in> set rows"
  shows "\<not> sameOccurrence occ occ'"
proof -
  obtain d where d: "d \<in> set ds" "stores_component input comps occ' d"
    using rows(1) old by (metis in_set_conv_nth list_all2_conv_all_nth)
  have "componentOccurrenceNormalizationKey d = componentOccurrenceNormalizationKey c"
    if "coComponentId occ = coComponentId occ'" "coVersion occ = coVersion occ'"
  proof -
    have "ncIdentityKey d = ncIdentityKey c"
      using names_component_unique [OF rows(2)] d(2) row(1) that(1) by (auto simp: stores_component_def)
    moreover have "ncVersion d = ncVersion c"
      using same_columns d(2) row(1) that(2) by (auto simp: stores_component_def)
    ultimately show ?thesis by (simp add: componentOccurrenceNormalizationKey_def split: componentVersion.splits)
  qed
  moreover have "ncBomRef d = ncBomRef c" if "coBomRef occ = coBomRef occ'"
    using d(2) row(1) that by (simp add: stores_component_def)
  moreover have "ncBomRef c = coBomRef occ" using row(1) by (simp add: stores_component_def)
  ultimately show ?thesis
    using row(2) d(1) by (auto simp: fresh_component_def sameOccurrence_def)
qed

fun all_fresh :: "normalizedComponent list \<Rightarrow> normalizedComponent list \<Rightarrow> bool" where
  "all_fresh ds [] \<longleftrightarrow> True"
| "all_fresh ds (c # cs) \<longleftrightarrow> fresh_component ds c \<and> all_fresh (ds @ [c]) cs"

lemma all_fresh_components:
  "distinct (map componentOccurrenceNormalizationKey (ds @ cs)) \<Longrightarrow> distinct (bomRefsOf (ds @ cs)) \<Longrightarrow> all_fresh ds cs"
proof (induction cs arbitrary: ds)
  case (Cons c cs)
  have listed: "r \<in> set (bomRefsOf xs)" if "d \<in> set xs" "ncBomRef d = Some r" for d r xs
    using that by (induction xs) (auto split: option.splits)
  have "bomRefsOf (ds @ c # cs) = bomRefsOf ds @ bomRefsOf (c # cs)"
    by (induction ds) (simp_all split: option.splits)
  then have "r \<notin> set (bomRefsOf ds)" if "ncBomRef c = Some r" for r
    using Cons.prems(2) that by simp
  then have "ncBomRef d \<noteq> ncBomRef c" if "d \<in> set ds" "ncBomRef c \<noteq> None" for d
    using that listed [of d ds] by auto
  moreover have "componentOccurrenceNormalizationKey d \<noteq> componentOccurrenceNormalizationKey c" if "d \<in> set ds" for d
    using Cons.prems(1) imageI [OF that, of componentOccurrenceNormalizationKey] by auto
  ultimately have "fresh_component ds c" by (simp add: fresh_component_def)
  with Cons show ?case by simp
qed simp

lemma storeOccurrences_total:
  assumes "list_all (\<lambda>c. version_ok (ncVersion c) \<and> dbAccepts db c) cs" "all_fresh ds cs"
    and "supply_ok db t" "inj (dbUuid db)"
    and "filter (\<lambda>occ. coOrganizationId occ = pgOrganizationId input \<and> coSbomIngestionId occ = pgSbomIngestionId input)
      (tbOccurrences t) = rows"
    and "list_all2 (stores_component input (tbComponents t)) rows ds"
  shows "fst (storeOccurrences db input cs refs t) \<noteq> Inl Threw"
  using assms
proof (induction cs arbitrary: ds rows refs t)
  case (Cons c cs)
  obtain cols where cols: "toOccurrenceVersionColumns (ncVersion c) = Inr cols"
    using Cons.prems(1) columns_total by auto
  obtain i t1 where ups: "upsertComponent db (pgOrganizationId input) c t = (i, t1)" by fastforce
  then obtain comps where t1: "t1 = t\<lparr>tbComponents := tbComponents t @ comps, tbDrawn := tbDrawn t + length comps\<rparr>"
    and named: "names_component (tbComponents t @ comps) (pgOrganizationId input) (ncIdentityKey c) i"
    and ids: "map cpId comps = map (dbUuid db) [tbDrawn t ..< tbDrawn t + length comps]"
    by (rule upsertComponent_run)
  let ?k = "tbDrawn t + length comps"
  let ?row = "occurrenceRow input c cols i (dbUuid db ?k)"
  let ?t3 = "t1\<lparr>tbDrawn := Suc ?k, tbOccurrences := tbOccurrences t @ [?row]\<rparr>"
  have drawn: "drawn_ids db (tbDrawn t) ?k (map cpId comps)" by (simp add: ids drawn_ids_upt)
  note ids_ok = supply_append [OF Cons.prems(3,4) drawn le_add1]
  have row: "stores_component input (tbComponents t @ comps) ?row c"
    using named cols by (simp add: stores_component_def occurrenceRow_def)
  have rows: "list_all2 (stores_component input (tbComponents t @ comps)) rows ds"
    using Cons.prems(6) by (rule list_all2_mono) (rule stores_component_append)
  have "\<not> sameOccurrence ?row occ" if "occ \<in> set (tbOccurrences t)" for occ
  proof (cases "occ \<in> set rows")
    case True
    then show ?thesis using no_same_occurrence [OF rows ids_ok(1) row] Cons.prems(2) by simp
  next
    case False
    with that Cons.prems(5) show ?thesis by (auto simp: sameOccurrence_def occurrenceRow_def)
  qed
  then have "\<not> list_ex (sameOccurrence ?row) (tbOccurrences t)" by (simp add: list_ex_iff)
  then have run: "storeOccurrences db input (c # cs) refs t =
      storeOccurrences db input cs (case ncBomRef c of None \<Rightarrow> refs | Some r \<Rightarrow> (r, dbUuid db ?k) # refs) ?t3"
    using Cons.prems(1) cols ups
    by (simp add: drawId_def createOccurrence_def t1 occurrenceRow_def cong: option.case_cong)
  have "supply_ok db ?t3"
    using ids_ok Cons.prems(3) by (auto simp: supply_ok_def t1)
  then show ?case
    unfolding run using Cons.prems rows row
    by (intro Cons.IH [where ds = "ds @ [c]" and rows = "rows @ [?row]"])
      (auto simp: t1 occurrenceRow_def intro: list_all2_appendI)
qed simp

definition edgeEnds :: "normalizedDependencyEdge \<Rightarrow> jstr \<times> jstr" where
  "edgeEnds e = (edFromBomRef e, edToBomRef e)"

lemma joins_determine:
  assumes "joins rows ends e" "joins rows ends e'" "distinct (map coId rows)"
  shows "edgeEnds e = edgeEnds e'"
proof -
  have same: "coBomRef a = coBomRef b" if "a \<in> set rows" "b \<in> set rows" "coId a = coId b" for a b
    using occurrence_table.keyed_same [of rows a b] that assms(3) by (simp add: occurrence_table.keyed_def)
  obtain a b a' b' where "a \<in> set rows" "b \<in> set rows" "a' \<in> set rows" "b' \<in> set rows"
    "coId a = fst ends" "coId b = snd ends" "coId a' = fst ends" "coId b' = snd ends"
    "coBomRef a = Some (edFromBomRef e)" "coBomRef b = Some (edToBomRef e)"
    "coBomRef a' = Some (edFromBomRef e')" "coBomRef b' = Some (edToBomRef e')"
    using assms(1,2) unfolding joins_def by blast
  with same [of a a'] same [of b b'] show ?thesis by (simp add: edgeEnds_def)
qed

lemma distinct_ends:
  assumes "list_all2 (joins rows) ends edges" "distinct (map edgeEnds edges)" "distinct (map coId rows)"
  shows "distinct ends"
  using assms(1,2)
proof (induction rule: list_all2_induct)
  case (Cons x xs e es)
  have "x \<notin> set xs"
  proof
    assume "x \<in> set xs"
    with Cons(2) obtain e' where "e' \<in> set es" "joins rows x e'"
      by (metis in_set_conv_nth list_all2_conv_all_nth)
    with joins_determine [OF Cons(1) _ assms(3)] have "edgeEnds e \<in> edgeEnds ` set es" by (metis imageI)
    with Cons.prems show False by simp
  qed
  with Cons show ?case by simp
qed simp

lemma createEdges_total:
  assumes "distinct ends" "supply_ok db t"
    and "filter (\<lambda>e. drOrganizationId e = pgOrganizationId input \<and> drSbomIngestionId e = pgSbomIngestionId input) (tbEdges t) = []"
  shows "fst (createEdges db input ends t) = Inr ()"
proof -
  have index: "map edgeIndexKey (map2 (edgeRow db input) ks ends) =
      map (\<lambda>p. (pgOrganizationId input, pgSbomIngestionId input, fst p, snd p, js ''depends_on'')) ends"
    if "length ks = length ends" for ks
    using that by (induction ks ends rule: list_induct2) (simp_all add: edgeRow_def edgeIndexKey_def)
  have "distinct (map (\<lambda>p. (pgOrganizationId input, pgSbomIngestionId input, fst p, snd p, js ''depends_on'')) ends)"
    using assms(1) by (auto simp: distinct_map inj_on_def)
  moreover have "(pgOrganizationId input, pgSbomIngestionId input, p) \<noteq> edgeIndexKey e"
    if "e \<in> set (tbEdges t)" for e p
    using assms(3) that by (auto simp: edgeIndexKey_def filter_empty_conv)
  moreover have "map edgeIndexKey (map2 (edgeRow db input) [tbDrawn t ..< tbDrawn t + length ends] ends) =
      map (\<lambda>p. (pgOrganizationId input, pgSbomIngestionId input, fst p, snd p, js ''depends_on'')) ends"
    by (rule index) simp
  ultimately have "distinct (map edgeIndexKey (tbEdges t) @
      map edgeIndexKey (map2 (edgeRow db input) [tbDrawn t ..< tbDrawn t + length ends] ends))"
    using assms(2) by (auto simp: supply_ok_def simp del: map_map)
  then have "distinct (map edgeIndexKey (tbEdges t @
      map2 (edgeRow db input) [tbDrawn t ..< tbDrawn t + length ends] ends))" by (simp only: map_append)
  then show ?thesis by (simp add: createEdges_def Let_def del: map_append distinct_append)
qed

text \<open>The graphs the database takes.\<close>

definition storable :: "databaseEnv \<Rightarrow> normalizedComponentGraph \<Rightarrow> bool" where
  "storable db g \<longleftrightarrow> graph_ok g \<and> distinct (map edgeEnds (ngEdges g)) \<and> list_all (dbAccepts db) (ngComponents g) \<and>
     VERSION_LABEL (ngParserVersion g) \<and> length (ngParserVersion g) \<le> 64"

lemma storeGraph_total:
  assumes t: "rows_ok t" "graphs_ok t" "supply_ok db t" "inj (dbUuid db)"
    and ing: "ing \<in> set (tbIngestions t)" "siOrganizationId ing = pgOrganizationId input"
      "siId ing = pgSbomIngestionId input" "iState ing = processing"
    and g: "storable db (pgGraph input)"
  shows "fst (storeGraph db input (pgGraph input) ing n t) = Inr ()"
proof -
  let ?g = "pgGraph input"
  have gok: "graph_ok ?g" and fits: "list_all (\<lambda>c. version_ok (ncVersion c) \<and> dbAccepts db c) (ngComponents ?g)"
    and edges: "list_all (edge_ok (set (bomRefsOf (ngComponents ?g)))) (ngEdges ?g)"
    and refs: "distinct (bomRefsOf (ngComponents ?g))"
    and fresh: "all_fresh [] (ngComponents ?g)"
    using g all_fresh_components [of "[]" "ngComponents ?g"]
    by (auto simp: storable_def graph_ok_def components_ok_def component_ok_def list_all_iff)
  have empty: "occurrencesOf ing t = []" "edgesOf ing t = []" using t(2) ing by (auto simp: graphs_ok_def)
  obtain a1 t1 where one: "storeOccurrences db input (ngComponents ?g) [] t = (a1, t1)" by fastforce
  have "a1 \<noteq> Inl Threw"
    using storeOccurrences_total [OF fits fresh t(3,4), of input "[]" "[]"] empty(1) ing one
    by (simp add: occurrencesOf_def)
  moreover have versions: "list_all (\<lambda>c. version_ok (ncVersion c)) (ngComponents ?g)"
    using fits by (simp add: list_all_iff)
  ultimately obtain comps rows m where
    a1: "a1 = Inr (rev (storedRefs rows))" and
    t1: "t1 = t\<lparr>tbComponents := tbComponents t @ comps, tbOccurrences := tbOccurrences t @ rows,
           tbDrawn := tbDrawn t + m\<rparr>" and
    rows: "list_all2 (stores_component input (tbComponents t @ comps)) rows (ngComponents ?g)" and
    ids: "drawn_ids db (tbDrawn t) (tbDrawn t + m) (map coId rows)" "drawn_ids db (tbDrawn t) (tbDrawn t + m) (map cpId comps)"
    using storeOccurrences_run [OF versions one] by auto
  obtain ends where ends: "collectEdgeData (rev (storedRefs rows)) (ngEdges ?g) [] = Inr ends"
    "list_all2 (joins rows) ends (ngEdges ?g)"
    using collectEdgeData_run [OF rows refs edges, of "[]"] by auto
  have "supply_ok db t1"
    using supply_append [OF t(3,4) ids(2)] t(3) by (auto simp: supply_ok_def t1)
  moreover have "distinct ends"
    using distinct_ends [OF ends(2) _ drawn_ids_distinct [OF t(4) ids(1)]] g by (simp add: storable_def)
  ultimately have "fst (createEdges db input ends t1) = Inr ()"
    using empty(2) ing by (intro createEdges_total) (auto simp: edgesOf_def t1)
  then obtain t2 where two: "(if length ends > 0 then createEdges db input ends t1 else (Inr (), t1)) = (Inr (), t2)"
    by (metis prod.collapse)
  from storeEdges_run [OF ends(2) edges two] have "tbIngestions t2 = tbIngestions t" by (auto simp: t1)
  then have "completeIngestion input ?g ing n t2 = (Inr (), completedTables input ?g ing n t2)"
    using completeIngestion_run [of t2 ing input ?g n] t(1) ing gok g by (simp add: rows_ok_def storable_def)
  with one two ends a1 show ?thesis by (simp add: storeGraph_def)
qed

lemma persist_succeeds:
  assumes t: "tables_ok db t" "inj (dbUuid db)"
    and ing: "ing \<in> set (tbIngestions t)" "siOrganizationId ing = pgOrganizationId input"
      "siId ing = pgSbomIngestionId input" "siAssetId ing = pgAssetId input" "siSbomId ing = pgSbomId input"
      "iState ing = processing"
    and sbom: "s \<in> set (tbSboms t)" "sbOrganizationId s = pgOrganizationId input" "sbId s = pgSbomId input"
      "sbAssetId s = pgAssetId input"
    and g: "storable db (pgGraph input)" and uuids: "UUID_PATTERN (pgOrganizationId input)" "UUID_PATTERN (pgSbomIngestionId input)"
  obtains t' where "persistOnceForIngestion db input n t = (Inr (), t')" "graph_stored db input ing n t t'"
proof -
  have parts: "rows_ok t" "graphs_ok t" "supply_ok db t" using t by (simp_all add: tables_ok_def)
  have gok: "graph_ok (pgGraph input)" using g by (simp add: storable_def)
  obtain t' where store: "storeGraph db input (pgGraph input) ing n t = (Inr (), t')"
    using storeGraph_total [OF parts t(2) ing(1-3,6) g, of n] by (metis prod.collapse)
  have "findFirst (\<lambda>r. siOrganizationId r = pgOrganizationId input \<and> siId r = pgSbomIngestionId input) (tbIngestions t) = Some ing"
    using parts(1) ing by (intro ingestions.keyed_find) (auto simp: rows_ok_def)
  moreover have "iStartedAt ing \<noteq> None"
    using parts(1) ing by (auto simp: rows_ok_def ingestion_inv_def dest!: bspec)
  moreover have "findFirst (\<lambda>s. sbOrganizationId s = pgOrganizationId input \<and> sbId s = pgSbomId input \<and>
      sbAssetId s = pgAssetId input) (tbSboms t) \<noteq> None"
    using sbom by (auto simp: findFirst_None_iff)
  ultimately have "persistBody db input (pgGraph input) n t = (Inr (), t')"
    using ing store by (auto simp: persistBody_def isSession8TerminalState_def session8IngestionTerminalStates_def)
  moreover have "validateNormalizedComponentGraph (pgGraph input) = Inr (pgGraph input)"
    using gok by (simp add: validateGraph_iff)
  ultimately have "persistOnceForIngestion db input n t = (Inr (), t')"
    using uuids by (simp add: persistOnceForIngestion_def inTransaction_def)
  with that storeGraph_run [OF parts(1) ing(1-3,6) gok store] show thesis by simp
qed

end
