(* ===== verification/IngestProcess.thy ===== *)
theory IngestProcess
  imports "HOL-Library.State_Monad" OutboxRelay ObjectKeys SbomNormalize GraphSuccess
begin

text \<open>
  Processing one ingestion job, from \<^verbatim>\<open>packages/domain/src/sbom\<close>: the job payload (\<^verbatim>\<open>ingest-job.ts\<close>), the
  verified download (\<^verbatim>\<open>object-bytes.ts\<close>), the audit events of the processor (\<^verbatim>\<open>audit.ts\<close>) and the use case
  (\<^verbatim>\<open>ingest.ts\<close>) with its unit of work (\<^verbatim>\<open>packages/database/src/sbom-ingestion-processor-unit-of-work.ts\<close>). The
  use case is a state monad over the tables. Other processes run between its accesses to the database:
  \<open>peOthers k\<close> is what they do to the tables before the access number \<open>k\<close>, and \<open>peClock k\<close> is the clock then,
  \<open>peSystemClock k\<close> the \<^verbatim>\<open>new Date()\<close> of the adapter. The object storage and the parser are ports.
\<close>

subsection \<open>The payload of a job\<close>

record sbomIngestJobPayload =
  pjOrganizationId :: jstr
  pjOutboxEventId :: jstr
  pjAggregateType :: jstr
  pjAggregateId :: jstr
  pjEventType :: jstr
  pjDedupeKey :: jstr

definition PAYLOAD_KEYS :: "jstr list" where
  [catalog_defs]: "PAYLOAD_KEYS = [js ''organizationId'', js ''outboxEventId'', js ''aggregateType'',
     js ''aggregateId'', js ''eventType'', js ''dedupeKey'']"

fun asUuid :: "json option \<Rightarrow> jstr option" where
  "asUuid (Some (JString s)) = (if UUID_PATTERN s then Some s else None)"
| "asUuid _ = None"

definition payloadError :: "string \<Rightarrow> appError" where
  "payloadError message = \<lparr>errCode = err_validation, errMessage = js message\<rparr>"

fun parseSbomIngestJobPayload :: "json \<Rightarrow> appError + sbomIngestJobPayload" where
  "parseSbomIngestJobPayload (JObject value) =
     (let keys = map fst value
      in if length keys \<noteq> length PAYLOAD_KEYS \<or> list_ex (\<lambda>key. key \<notin> set keys) PAYLOAD_KEYS
         then Inl (payloadError ''SBOM ingest job payload must contain only ids and job identity fields.'')
         else case (asUuid (getProp value ''organizationId''), asUuid (getProp value ''outboxEventId''),
                    asUuid (getProp value ''aggregateId'')) of
             (Some organizationId, Some outboxEventId, Some aggregateId) \<Rightarrow>
               if getProp value ''aggregateType'' \<noteq> Some (JString (js ''sbom_ingestion''))
               then Inl (payloadError ''SBOM ingest job aggregate type is not valid.'')
               else if getProp value ''eventType'' \<noteq> Some (JString SBOM_INGESTION_REQUESTED_EVENT_TYPE)
               then Inl (payloadError ''SBOM ingest job event type is not valid.'')
               else (case getProp value ''dedupeKey'' of
                       Some (JString dedupeKey) \<Rightarrow>
                         if length dedupeKey = 0
                         then Inl (payloadError ''SBOM ingest job dedupe key is required.'')
                         else Inr \<lparr>pjOrganizationId = organizationId, pjOutboxEventId = outboxEventId,
                           pjAggregateType = js ''sbom_ingestion'', pjAggregateId = aggregateId,
                           pjEventType = SBOM_INGESTION_REQUESTED_EVENT_TYPE, pjDedupeKey = dedupeKey\<rparr>
                     | _ \<Rightarrow> Inl (payloadError ''SBOM ingest job dedupe key is required.''))
           | _ \<Rightarrow> Inl (payloadError ''SBOM ingest job payload ids must be UUIDs.''))"
| "parseSbomIngestJobPayload _ = Inl (payloadError ''SBOM ingest job payload must be an object.'')"

text \<open>The data the publisher hands to the queue, \<^verbatim>\<open>bullmq-outbox-publisher.ts\<close>.\<close>

definition queueJobData :: "outboxQueueJob \<Rightarrow> json" where
  "queueJobData job = JObject
     [(js ''organizationId'', case ojOrganizationId job of None \<Rightarrow> JNull | Some i \<Rightarrow> JString i),
      (js ''outboxEventId'', JString (ojOutboxEventId job)),
      (js ''aggregateType'', JString (ojAggregateType job)),
      (js ''aggregateId'', JString (ojAggregateId job)),
      (js ''eventType'', JString (ojEventType job)),
      (js ''dedupeKey'', JString (ojDedupeKey job))]"

subsection \<open>The verified download\<close>

text \<open>
  A handle: the chunks the body yields, whether it then throws, and the completion, \<open>None\<close> when it rejects.
\<close>

record getObjectResult =
  goChunks :: "nat list list"
  goThrows :: bool
  goCompletion :: "(int \<times> jstr option) option"

fun readChunks :: "int \<Rightarrow> nat list list \<Rightarrow> int \<Rightarrow> nat list list \<Rightarrow> safeFailureCode + int \<times> nat list list" where
  "readChunks limit [] observed chunks = Inr (observed, chunks)"
| "readChunks limit (chunk # body) observed chunks =
     (let observed' = observed + int (length chunk)
      in if observed' > limit then Inl payload_too_large
         else readChunks limit body observed' (chunks @ [chunk]))"

definition readVerifiedObjectBuffer ::
  "(nat list \<Rightarrow> jstr) \<Rightarrow> getObjectResult \<Rightarrow> jstr \<Rightarrow> int \<Rightarrow> int \<Rightarrow> safeFailureCode + nat list" where
  "readVerifiedObjectBuffer sha256 result expectedSha256 expectedLength limit =
     (case readChunks limit (goChunks result) 0 [] of
        Inl code \<Rightarrow> Inl code
      | Inr (observed, chunks) \<Rightarrow>
          if goThrows result then Inl hash_mismatch
          else case goCompletion result of
              None \<Rightarrow> Inl hash_mismatch
            | Some (observedByteLength, digest) \<Rightarrow>
                if observedByteLength \<noteq> expectedLength \<or> observed \<noteq> expectedLength then Inl hash_mismatch
                else if sha256 (concat chunks) \<noteq> expectedSha256 then Inl hash_mismatch
                else if digest \<noteq> None \<and> digest \<noteq> Some expectedSha256 then Inl hash_mismatch
                else Inr (concat chunks))"

subsection \<open>Failure codes and audit events\<close>

fun safeFailureCodeText :: "safeFailureCode \<Rightarrow> jstr" where
  "safeFailureCodeText payload_too_large = js ''payload_too_large''"
| "safeFailureCodeText content_type = js ''content_type''"
| "safeFailureCodeText utf8 = js ''utf8''"
| "safeFailureCodeText json_syntax = js ''json_syntax''"
| "safeFailureCodeText json_depth = js ''json_depth''"
| "safeFailureCodeText json_nodes = js ''json_nodes''"
| "safeFailureCodeText json_string_length = js ''json_string_length''"
| "safeFailureCodeText not_cyclonedx = js ''not_cyclonedx''"
| "safeFailureCodeText unsupported_spec_version = js ''unsupported_spec_version''"
| "safeFailureCodeText schema_invalid = js ''schema_invalid''"
| "safeFailureCodeText component_limit = js ''component_limit''"
| "safeFailureCodeText edge_limit = js ''edge_limit''"
| "safeFailureCodeText identifier_length = js ''identifier_length''"
| "safeFailureCodeText tool_limit = js ''tool_limit''"
| "safeFailureCodeText reference_limit = js ''reference_limit''"
| "safeFailureCodeText property_limit = js ''property_limit''"
| "safeFailureCodeText duplicate_bom_ref = js ''duplicate_bom_ref''"
| "safeFailureCodeText unresolved_dependency_ref = js ''unresolved_dependency_ref''"
| "safeFailureCodeText invalid_purl = js ''invalid_purl''"
| "safeFailureCodeText component_version_conflict = js ''component_version_conflict''"
| "safeFailureCodeText component_hash_conflict = js ''component_hash_conflict''"
| "safeFailureCodeText unsupported_normalization_version = js ''unsupported_normalization_version''"
| "safeFailureCodeText prototype_pollution = js ''prototype_pollution''"
| "safeFailureCodeText hash_mismatch = js ''hash_mismatch''"
| "safeFailureCodeText object_missing = js ''object_missing''"
| "safeFailureCodeText storage_timeout = js ''storage_timeout''"
| "safeFailureCodeText parser_timeout = js ''parser_timeout''"
| "safeFailureCodeText parser_crash = js ''parser_crash''"
| "safeFailureCodeText normalized_output_too_large = js ''normalized_output_too_large''"
| "safeFailureCodeText processing_failed = js ''processing_failed''"
| "safeFailureCodeText queue_unavailable = js ''queue_unavailable''"

definition safeFailureCodes :: "safeFailureCode list" where
  [catalog_defs]: "safeFailureCodes =
     [payload_too_large, content_type, utf8, json_syntax, json_depth, json_nodes, json_string_length,
      not_cyclonedx, unsupported_spec_version, schema_invalid, component_limit, edge_limit,
      identifier_length, tool_limit, reference_limit, property_limit, duplicate_bom_ref,
      unresolved_dependency_ref, invalid_purl, component_version_conflict, component_hash_conflict,
      unsupported_normalization_version, prototype_pollution, hash_mismatch, object_missing,
      storage_timeout, parser_timeout, parser_crash, normalized_output_too_large, processing_failed,
      queue_unavailable]"

fun safeFailureCategoryText :: "safeFailureCategory \<Rightarrow> jstr" where
  "safeFailureCategoryText cat_validation = js ''validation''"
| "safeFailureCategoryText cat_limit = js ''limit''"
| "safeFailureCategoryText cat_storage = js ''storage''"
| "safeFailureCategoryText cat_timeout = js ''timeout''"
| "safeFailureCategoryText cat_poison = js ''poison''"
| "safeFailureCategoryText cat_internal = js ''internal''"

text \<open>A text that is a failure code is narrowed to it, any other gives the internal code.\<close>

definition asSafeCode :: "jstr option \<Rightarrow> safeFailureCode" where
  "asSafeCode value =
     (case value of
        None \<Rightarrow> processing_failed
      | Some text \<Rightarrow>
          (case find (\<lambda>code. safeFailureCodeText code = text) safeFailureCodes of
             None \<Rightarrow> processing_failed
           | Some code \<Rightarrow> code))"

definition categoryText :: "safeFailureCode \<Rightarrow> jstr" where
  "categoryText code = safeFailureCategoryText (scCategory (classifySafeFailure code))"

record sbomIngestionProcessorAuditInput =
  aiOrganizationId :: jstr
  aiSbomId :: jstr
  aiIngestionId :: jstr
  aiCorrelationId :: jstr
  aiParserVersion :: jstr
  aiOccurredAt :: int
  aiFailureCode :: "jstr option"

definition systemIngestionAudit :: "string \<Rightarrow> sbomIngestionProcessorAuditInput \<Rightarrow> auditEventRow" where
  "systemIngestionAudit action input =
     \<lparr>auActorType = js ''system'', auOrganizationId = aiOrganizationId input, auAction = js action,
      auSubjectType = js ''sbom_ingestion'', auSubjectId = aiIngestionId input,
      auOccurredAt = Some (aiOccurredAt input), auCorrelationId = aiCorrelationId input,
      auPayload = JObject
        [(js ''schemaVersion'', JNumber (Integral 1)),
         (js ''metadata'', JObject
           ([(js ''sbomId'', JString (aiSbomId input)), (js ''ingestionId'', JString (aiIngestionId input)),
             (js ''parserVersion'', JString (aiParserVersion input))] @
            (case aiFailureCode input of None \<Rightarrow> [] | Some code \<Rightarrow> [(js ''failureCode'', JString code)])))]\<rparr>"

definition sbomIngestionRejectedAudit :: "sbomIngestionProcessorAuditInput \<Rightarrow> auditEventRow" where
  "sbomIngestionRejectedAudit = systemIngestionAudit ''sbom.ingestion.rejected''"

definition sbomIngestionQuarantinedAudit :: "sbomIngestionProcessorAuditInput \<Rightarrow> auditEventRow" where
  "sbomIngestionQuarantinedAudit = systemIngestionAudit ''sbom.ingestion.quarantined''"

definition sbomIngestionFailedAudit :: "sbomIngestionProcessorAuditInput \<Rightarrow> auditEventRow" where
  "sbomIngestionFailedAudit = systemIngestionAudit ''sbom.ingestion.failed''"

subsection \<open>Ports and accesses\<close>

datatype storageFailureCategory =
    bucket_missing | storage_object_missing | access_denied | storage_failure_timeout | storage_aborted
  | size_limit | invalid_content | copy_failed | storage_unavailable | storage_internal

fun mapStorageFailureToSafeCode :: "storageFailureCategory \<Rightarrow> safeFailureCode" where
  "mapStorageFailureToSafeCode storage_object_missing = object_missing"
| "mapStorageFailureToSafeCode storage_failure_timeout = storage_timeout"
| "mapStorageFailureToSafeCode storage_aborted = storage_timeout"
| "mapStorageFailureToSafeCode storage_unavailable = storage_timeout"
| "mapStorageFailureToSafeCode invalid_content = hash_mismatch"
| "mapStorageFailureToSafeCode size_limit = payload_too_large"
| "mapStorageFailureToSafeCode bucket_missing = processing_failed"
| "mapStorageFailureToSafeCode access_denied = processing_failed"
| "mapStorageFailureToSafeCode copy_failed = processing_failed"
| "mapStorageFailureToSafeCode storage_internal = processing_failed"

record getObjectInput =
  giFinalObjectKey :: jstr
  giMaxBytes :: int
  giExpectedByteLength :: int
  giExpectedSha256 :: jstr

record sbomDocumentParseInput =
  diBytes :: "nat list"
  diExpectedSha256 :: jstr
  diByteLength :: int
  diLimits :: sbomParserLimits
  diParserVersion :: jstr
  diNormalizationVersion :: jstr

datatype processSbomIngestionOutcome =
    OutCompleted
  | OutAlreadyComplete
  | OutRejected safeFailureCode
  | OutQuarantined safeFailureCode
  | OutFailed safeFailureCode
  | OutRetry safeFailureCode
  | OutSkipped
  | OutThrew

text \<open>\<open>OutThrew\<close> is an exception that leaves the use case.\<close>

record processorEnv =
  peDb :: databaseEnv
  peSha256 :: "nat list \<Rightarrow> jstr"
  peGetObject :: "getObjectInput \<Rightarrow> storageFailureCategory + getObjectResult"
  peParse :: "sbomDocumentParseInput \<Rightarrow> safeFailureCode + normalizedComponentGraph"
  peWorkerIdentifier :: jstr
  peProcessingLeaseMs :: int
  peParserLimits :: sbomParserLimits
  peClock :: "nat \<Rightarrow> int"
  peSystemClock :: "nat \<Rightarrow> int"
  peOthers :: "nat \<Rightarrow> sbomTables \<Rightarrow> sbomTables"

record processorWorld =
  pwTables :: sbomTables
  pwAccesses :: nat

type_synonym 'a proc = "(processorWorld, 'a) state"

definition access :: "processorEnv \<Rightarrow> (sbomTables \<Rightarrow> 'a \<times> sbomTables) \<Rightarrow> 'a proc" where
  "access env work = State (\<lambda>w.
     let (answer, tables) = work (peOthers env (pwAccesses w) (pwTables w))
     in (answer, \<lparr>pwTables = tables, pwAccesses = Suc (pwAccesses w)\<rparr>))"

definition readClock :: "processorEnv \<Rightarrow> int proc" where
  "readClock env = State (\<lambda>w. (peClock env (pwAccesses w), w))"

definition readSystemClock :: "processorEnv \<Rightarrow> int proc" where
  "readSystemClock env = State (\<lambda>w. (peSystemClock env (pwAccesses w), w))"

definition onJobs ::
  "(backgroundJobRecord list \<Rightarrow> 'a \<times> backgroundJobRecord list) \<Rightarrow> sbomTables \<Rightarrow> 'a \<times> sbomTables" where
  "onJobs work t = (let (answer, rows) = work (tbJobs t) in (answer, t\<lparr>tbJobs := rows\<rparr>))"

definition onIngestions ::
  "(sbomIngestionRecord list \<Rightarrow> 'a \<times> sbomIngestionRecord list) \<Rightarrow> sbomTables \<Rightarrow> 'a \<times> sbomTables" where
  "onIngestions work t = (let (answer, rows) = work (tbIngestions t) in (answer, t\<lparr>tbIngestions := rows\<rparr>))"

definition findSbomByAssetAndId :: "jstr \<Rightarrow> jstr \<Rightarrow> jstr \<Rightarrow> sbomRecord list \<Rightarrow> sbomRecord option" where
  "findSbomByAssetAndId organizationId assetId sbomId rows =
     (if \<not> UUID_PATTERN organizationId \<or> \<not> UUID_PATTERN assetId \<or> \<not> UUID_PATTERN sbomId then None
      else findFirst (\<lambda>s. sbOrganizationId s = organizationId \<and> sbAssetId s = assetId \<and> sbId s = sbomId) rows)"

subsection \<open>Outcomes\<close>

record processorFailureInput =
  pfPayload :: sbomIngestJobPayload
  pfJobId :: jstr
  pfSbomId :: jstr
  pfIngestionVersion :: int
  pfParserVersion :: jstr
  pfCode :: safeFailureCode

text \<open>The transaction of a retry: the answers of both statements are ignored.\<close>

definition retryTransaction :: "processorEnv \<Rightarrow> processorFailureInput \<Rightarrow> sbomTables \<Rightarrow> unit \<times> sbomTables" where
  "retryTransaction env input t =
     (let organizationId = pjOrganizationId (pfPayload input);
          t1 = snd (onIngestions (applyTransition organizationId (pjAggregateId (pfPayload input))
                 (pfIngestionVersion input) (ReleaseForRetry (pfCode input))) t);
          t2 = snd (onJobs (markRetry (Some organizationId) (pfJobId input) (peWorkerIdentifier env)
                 (categoryText (pfCode input)) (safeFailureCodeText (pfCode input))) t1)
      in ((), t2))"

definition releaseForRetry :: "processorEnv \<Rightarrow> processorFailureInput \<Rightarrow> processSbomIngestionOutcome proc" where
  "releaseForRetry env input = do {
     now \<leftarrow> readClock env;
     access env (retryTransaction env input);
     State_Monad.return (OutRetry (pfCode input))
   }"

definition terminalCommand :: "safeFailureCode \<Rightarrow> int \<Rightarrow> session8IngestionCommand" where
  "terminalCommand code now =
     (case scOutcome (classifySafeFailure code) of
        outcome_rejected \<Rightarrow> Reject now code
      | outcome_quarantined \<Rightarrow> Quarantine now code
      | _ \<Rightarrow> Fail now code)"

definition terminalOutcome :: "safeFailureCode \<Rightarrow> processSbomIngestionOutcome" where
  "terminalOutcome code =
     (case scOutcome (classifySafeFailure code) of
        outcome_rejected \<Rightarrow> OutRejected code
      | outcome_quarantined \<Rightarrow> OutQuarantined code
      | _ \<Rightarrow> OutFailed code)"

definition terminalAudit :: "processorFailureInput \<Rightarrow> int \<Rightarrow> auditEventRow" where
  "terminalAudit input now =
     (let auditInput = \<lparr>aiOrganizationId = pjOrganizationId (pfPayload input), aiSbomId = pfSbomId input,
            aiIngestionId = pjAggregateId (pfPayload input),
            aiCorrelationId = pjOutboxEventId (pfPayload input), aiParserVersion = pfParserVersion input,
            aiOccurredAt = now, aiFailureCode = Some (safeFailureCodeText (pfCode input))\<rparr>
      in case scOutcome (classifySafeFailure (pfCode input)) of
           outcome_rejected \<Rightarrow> sbomIngestionRejectedAudit auditInput
         | outcome_quarantined \<Rightarrow> sbomIngestionQuarantinedAudit auditInput
         | _ \<Rightarrow> sbomIngestionFailedAudit auditInput)"

text \<open>The transaction of a terminal failure; again no answer is read.\<close>

definition terminalTransaction ::
  "processorEnv \<Rightarrow> processorFailureInput \<Rightarrow> int \<Rightarrow> sbomTables \<Rightarrow> unit \<times> sbomTables" where
  "terminalTransaction env input now t =
     (let organizationId = pjOrganizationId (pfPayload input);
          t1 = snd (onIngestions (applyTransition organizationId (pjAggregateId (pfPayload input))
                 (pfIngestionVersion input) (terminalCommand (pfCode input) now)) t);
          t2 = t1\<lparr>tbAudits := tbAudits t1 @ [terminalAudit input now]\<rparr>;
          t3 = snd (onJobs (markTerminalFailure (Some organizationId) (pfJobId input) (peWorkerIdentifier env)
                 (categoryText (pfCode input)) (safeFailureCodeText (pfCode input)) now) t2)
      in ((), t3))"

definition finalizeTerminal :: "processorEnv \<Rightarrow> processorFailureInput \<Rightarrow> processSbomIngestionOutcome proc" where
  "finalizeTerminal env input = do {
     now \<leftarrow> readClock env;
     access env (terminalTransaction env input now);
     State_Monad.return (terminalOutcome (pfCode input))
   }"

definition finalizeByCode :: "processorEnv \<Rightarrow> processorFailureInput \<Rightarrow> processSbomIngestionOutcome proc" where
  "finalizeByCode env input =
     (if scOutcome (classifySafeFailure (pfCode input)) = retryable_infrastructure
      then releaseForRetry env input else finalizeTerminal env input)"

definition handleStorageFailure ::
  "processorEnv \<Rightarrow> processorFailureInput \<Rightarrow> storageFailureCategory \<Rightarrow> processSbomIngestionOutcome proc" where
  "handleStorageFailure env input failure =
     finalizeByCode env (input\<lparr>pfCode := mapStorageFailureToSafeCode failure\<rparr>)"

definition alignTerminalJob ::
  "processorEnv \<Rightarrow> jstr \<Rightarrow> jstr \<Rightarrow> jstr \<Rightarrow> safeFailureCode \<Rightarrow> processSbomIngestionOutcome proc" where
  "alignTerminalJob env organizationId jobId worker code = do {
     now \<leftarrow> readClock env;
     access env (onJobs (markTerminalFailure (Some organizationId) jobId worker (categoryText code)
       (safeFailureCodeText code) now));
     State_Monad.return (terminalOutcome code)
   }"

definition alreadyComplete ::
  "processorEnv \<Rightarrow> jstr \<Rightarrow> jstr \<Rightarrow> jstr \<Rightarrow> int \<Rightarrow> processSbomIngestionOutcome proc" where
  "alreadyComplete env organizationId jobId worker endedAt = do {
     access env (onJobs (markSucceeded (Some organizationId) jobId worker endedAt));
     State_Monad.return OutAlreadyComplete
   }"

definition recordedCode :: "sbomIngestionRecord \<Rightarrow> safeFailureCode" where
  "recordedCode r = asSafeCode (map_option safeFailureCodeText (iFailureCode r))"

definition readIngestion :: "processorEnv \<Rightarrow> jstr \<Rightarrow> jstr \<Rightarrow> sbomIngestionRecord option proc" where
  "readIngestion env organizationId ingestionId =
     access env (\<lambda>t. (findIngestionById organizationId ingestionId (tbIngestions t), t))"

subsection \<open>The use case\<close>

definition loadProcessingIngestion ::
  "processorEnv \<Rightarrow> sbomIngestJobPayload \<Rightarrow> jstr \<Rightarrow> jstr \<Rightarrow> sbomIngestionRecord \<Rightarrow> int \<Rightarrow>
   (processSbomIngestionOutcome + sbomIngestionRecord) proc" where
  "loadProcessingIngestion env payload jobId worker ingestion now =
     (if iState ingestion = processing then State_Monad.return (Inr ingestion)
      else if iState ingestion \<noteq> accepted \<and> iState ingestion \<noteq> queued then State_Monad.return (Inr ingestion)
      else do {
        started \<leftarrow> access env (onIngestions (applyTransition (siOrganizationId ingestion) (siId ingestion)
          (siVersion ingestion) (StartProcessing now stage_validate)));
        case started of
          Inr (row, snapshot) \<Rightarrow> State_Monad.return (Inr row)
        | Inl e \<Rightarrow> do {
            reloaded \<leftarrow> readIngestion env (siOrganizationId ingestion) (siId ingestion);
            case reloaded of
              Some r \<Rightarrow>
                if iState r = processing then State_Monad.return (Inr r)
                else if iState r = completed then do {
                  result \<leftarrow> alreadyComplete env (siOrganizationId ingestion) jobId worker now;
                  State_Monad.return (Inl result)
                }
                else if isSession8TerminalState (iState r) then do {
                  result \<leftarrow> alignTerminalJob env (siOrganizationId ingestion) jobId worker (recordedCode r);
                  State_Monad.return (Inl result)
                }
                else do {
                  access env (onJobs (markRetry (Some (pjOrganizationId payload)) jobId worker
                    (categoryText queue_unavailable) (safeFailureCodeText queue_unavailable)));
                  State_Monad.return (Inl (OutRetry queue_unavailable))
                }
            | None \<Rightarrow> do {
                access env (onJobs (markRetry (Some (pjOrganizationId payload)) jobId worker
                  (categoryText queue_unavailable) (safeFailureCodeText queue_unavailable)));
                State_Monad.return (Inl (OutRetry queue_unavailable))
              }
          }
      })"

definition handlePersistFailure ::
  "processorEnv \<Rightarrow> sbomIngestJobPayload \<Rightarrow> jstr \<Rightarrow> jstr \<Rightarrow> jstr \<Rightarrow> sbomIngestionRecord \<Rightarrow> errorCode \<Rightarrow>
   processSbomIngestionOutcome proc" where
  "handlePersistFailure env payload jobId worker sbomId ingestion persistCode =
     (let input = \<lparr>pfPayload = payload, pfJobId = jobId, pfSbomId = sbomId,
            pfIngestionVersion = siVersion ingestion, pfParserVersion = siParserVersion ingestion,
            pfCode = processing_failed\<rparr>
      in if persistCode = err_validation then finalizeByCode env input
         else do {
           latest \<leftarrow> readIngestion env (siOrganizationId ingestion) (siId ingestion);
           case latest of
             Some r \<Rightarrow>
               if iState r = completed then do {
                 now \<leftarrow> readClock env;
                 alreadyComplete env (siOrganizationId ingestion) jobId worker now
               }
               else if isSession8TerminalState (iState r)
               then alignTerminalJob env (siOrganizationId ingestion) jobId worker (recordedCode r)
               else releaseForRetry env (input\<lparr>pfCode := storage_timeout\<rparr>)
           | None \<Rightarrow> releaseForRetry env (input\<lparr>pfCode := storage_timeout\<rparr>)
         })"

text \<open>From the loaded ingestion on: the metadata, the object, the parser, the graph.\<close>

definition keyInScope :: "sbomIngestionRecord \<Rightarrow> jstr \<Rightarrow> bool" where
  "keyInScope current key \<longleftrightarrow>
     sbomObjectKeyScope key = Some (siOrganizationId current, siAssetId current)"

definition storeParsedGraph ::
  "processorEnv \<Rightarrow> sbomIngestJobPayload \<Rightarrow> jstr \<Rightarrow> jstr \<Rightarrow> sbomIngestionRecord \<Rightarrow> sbomRecord \<Rightarrow>
   normalizedComponentGraph \<Rightarrow> processSbomIngestionOutcome proc" where
  "storeParsedGraph env payload jobId worker current sbom graph = do {
     endedAt \<leftarrow> readClock env;
     systemTime \<leftarrow> readSystemClock env;
     persisted \<leftarrow> access env (persistOnceForIngestion (peDb env)
       \<lparr>pgOrganizationId = siOrganizationId current, pgAssetId = siAssetId current, pgSbomId = sbId sbom,
        pgSbomIngestionId = siId current, pgGraph = graph, pgCorrelationId = pjOutboxEventId payload,
        pgOwnedJob = Some \<lparr>ojobId = jobId, ojobWorkerIdentifier = worker, ojobCompletedAt = endedAt\<rparr>\<rparr>
       systemTime);
     case persisted of
       Inr _ \<Rightarrow> State_Monad.return OutCompleted
     | Inl Threw \<Rightarrow> State_Monad.return OutThrew
     | Inl (Refused e) \<Rightarrow>
         handlePersistFailure env payload jobId worker (sbId sbom) current (errCode e)
   }"

definition processObject ::
  "processorEnv \<Rightarrow> sbomIngestJobPayload \<Rightarrow> jstr \<Rightarrow> jstr \<Rightarrow> sbomIngestionRecord \<Rightarrow> sbomRecord \<Rightarrow>
   processSbomIngestionOutcome proc" where
  "processObject env payload jobId worker current sbom =
     (let failure = (\<lambda>code. \<lparr>pfPayload = payload, pfJobId = jobId, pfSbomId = sbId sbom,
            pfIngestionVersion = siVersion current, pfParserVersion = siParserVersion current,
            pfCode = code\<rparr>);
          limit = int (maxBytes (peParserLimits env))
      in case peGetObject env \<lparr>giFinalObjectKey = sbObjectKey sbom, giMaxBytes = limit,
                giExpectedByteLength = sbByteLength sbom, giExpectedSha256 = sbSha256 sbom\<rparr> of
           Inl category \<Rightarrow> handleStorageFailure env (failure processing_failed) category
         | Inr downloaded \<Rightarrow>
             (case readVerifiedObjectBuffer (peSha256 env) downloaded (sbSha256 sbom) (sbByteLength sbom) limit of
                Inl code \<Rightarrow> finalizeByCode env (failure code)
              | Inr bytes \<Rightarrow>
                  (case peParse env \<lparr>diBytes = bytes, diExpectedSha256 = sbSha256 sbom,
                          diByteLength = sbByteLength sbom, diLimits = peParserLimits env,
                          diParserVersion = siParserVersion current,
                          diNormalizationVersion = siNormalizationVersion current\<rparr> of
                     Inl code \<Rightarrow> finalizeByCode env (failure code)
                   | Inr graph \<Rightarrow> storeParsedGraph env payload jobId worker current sbom graph)))"

definition processLoaded ::
  "processorEnv \<Rightarrow> sbomIngestJobPayload \<Rightarrow> jstr \<Rightarrow> jstr \<Rightarrow> sbomIngestionRecord \<Rightarrow>
   processSbomIngestionOutcome proc" where
  "processLoaded env payload jobId worker current = do {
     sbom \<leftarrow> access env (\<lambda>t. (findSbomByAssetAndId (siOrganizationId current) (siAssetId current)
       (siSbomId current) (tbSboms t), t));
     let failure = (\<lambda>sbomId code. \<lparr>pfPayload = payload, pfJobId = jobId, pfSbomId = sbomId,
           pfIngestionVersion = siVersion current, pfParserVersion = siParserVersion current,
           pfCode = code\<rparr>) in
     case sbom of
       None \<Rightarrow> finalizeByCode env (failure (siSbomId current) object_missing)
     | Some s \<Rightarrow>
         if sbOrganizationId s \<noteq> siOrganizationId current
         then finalizeByCode env (failure (siSbomId current) object_missing)
         else if \<not> isFinalSbomObjectKey (sbObjectKey s) \<or> \<not> keyInScope current (sbObjectKey s)
         then finalizeByCode env (failure (sbId s) processing_failed)
         else processObject env payload jobId worker current s
   }"

definition processClaimed ::
  "processorEnv \<Rightarrow> sbomIngestJobPayload \<Rightarrow> backgroundJobRecord \<Rightarrow> jstr \<Rightarrow> int \<Rightarrow>
   processSbomIngestionOutcome proc" where
  "processClaimed env payload job worker now = do {
     ingestion \<leftarrow> readIngestion env (pjOrganizationId payload) (pjAggregateId payload);
     let unknown = finalizeByCode env \<lparr>pfPayload = payload, pfJobId = bjId job,
           pfSbomId = pjAggregateId payload, pfIngestionVersion = 0, pfParserVersion = js ''0'',
           pfCode = processing_failed\<rparr> in
     case ingestion of
       None \<Rightarrow> unknown
     | Some r \<Rightarrow>
         if siOrganizationId r \<noteq> pjOrganizationId payload then unknown
         else if iState r = completed then alreadyComplete env (siOrganizationId r) (bjId job) worker now
         else if isSession8TerminalState (iState r)
         then alignTerminalJob env (siOrganizationId r) (bjId job) worker (recordedCode r)
         else do {
           current \<leftarrow> loadProcessingIngestion env payload (bjId job) worker r now;
           case current of
             Inl result \<Rightarrow> State_Monad.return result
           | Inr row \<Rightarrow> processLoaded env payload (bjId job) worker row
         }
   }"

definition processJob ::
  "processorEnv \<Rightarrow> sbomIngestJobPayload \<Rightarrow> backgroundJobRecord \<Rightarrow> processSbomIngestionOutcome proc" where
  "processJob env payload job = do {
     now \<leftarrow> readClock env;
     claim \<leftarrow> access env (onJobs (claimExecution (bjOrganizationId job) (bjId job) (peWorkerIdentifier env)
       now (now + peProcessingLeaseMs env)));
     case claim of
       Inl e \<Rightarrow> State_Monad.return (OutRetry queue_unavailable)
     | Inr claimed \<Rightarrow> processClaimed env payload job (bcWorkerIdentifier claimed) now
   }"

definition processSbomIngestion :: "processorEnv \<Rightarrow> json \<Rightarrow> processSbomIngestionOutcome proc" where
  "processSbomIngestion env rawPayload =
     (case parseSbomIngestJobPayload rawPayload of
        Inl e \<Rightarrow> State_Monad.return OutSkipped
      | Inr payload \<Rightarrow> do {
          found \<leftarrow> access env (\<lambda>t. (findByOutboxEventId (Some (pjOrganizationId payload))
            (pjOutboxEventId payload) (tbJobs t), t));
          case found of
            None \<Rightarrow> State_Monad.return (OutRetry queue_unavailable)
          | Some job \<Rightarrow>
              if bjOrganizationId job \<noteq> Some (pjOrganizationId payload)
              then State_Monad.return (OutRetry queue_unavailable)
              else if bjJobType job \<noteq> SBOM_INGEST_JOB_TYPE then State_Monad.return OutSkipped
              else if bjStatus job = job_succeeded then State_Monad.return OutAlreadyComplete
              else if bjStatus job = job_failed \<or> bjStatus job = job_dead_lettered \<or> bjStatus job = job_cancelled
              then State_Monad.return (OutFailed (asSafeCode (bjFailureCode job)))
              else processJob env payload job
        })"

end
