(* ===== verification/IngestSteps.thy ===== *)
theory IngestSteps
  imports IngestProcess
begin

text \<open>
  Any number of uploads, relays and processors act on the tables. \<open>sbom_step\<close> is one statement or
  transaction of one of them; every run of the processor is a sequence of such steps whatever the other
  processes do between its accesses, and every step keeps what the tables promise.
\<close>

subsection \<open>Steps\<close>

inductive sbom_step :: "databaseEnv \<Rightarrow> sbomTables \<Rightarrow> sbomTables \<Rightarrow> bool" for db where
  register: "apId a \<notin> apId ` set (tbAssets t) \<Longrightarrow> apLastSuccessfulSbomIngestionId a = None \<Longrightarrow>
    \<forall>r \<in> set (tbIngestions t). siAssetId r \<noteq> apId a \<Longrightarrow>
    sbom_step db t (t\<lparr>tbAssets := tbAssets t @ [a]\<rparr>)"
| receive: "sbId s \<notin> sbId ` set (tbSboms t) \<Longrightarrow> sbom_step db t (t\<lparr>tbSboms := tbSboms t @ [s]\<rparr>)"
| accept: "i \<notin> siId ` set (tbIngestions t) \<Longrightarrow> s \<in> set (tbSboms t) \<Longrightarrow>
    createAccepted i createdAt (sbOrganizationId s) (sbId s) (sbAssetId s) parserVersion normalizationVersion
      (tbIngestions t) = (answer, rows) \<Longrightarrow>
    sbom_step db t (t\<lparr>tbIngestions := rows\<rparr>)"
| transition: "\<not> isCompleteCommand cmd \<Longrightarrow>
    applyTransition org i version cmd (tbIngestions t) = (answer', rows) \<Longrightarrow>
    sbom_step db t (t\<lparr>tbIngestions := rows\<rparr>)"
| persist: "persistOnceForIngestion db input n t = (answer'', t') \<Longrightarrow> sbom_step db t t'"
| job: "freshOp stmt (tbJobs t) \<Longrightarrow> sbom_step db t (t\<lparr>tbJobs := execJobOp stmt (tbJobs t)\<rparr>)"
| audit: "sbom_step db t (t\<lparr>tbAudits := tbAudits t @ [event]\<rparr>)"

abbreviation sbom_steps :: "databaseEnv \<Rightarrow> sbomTables \<Rightarrow> sbomTables \<Rightarrow> bool" where
  "sbom_steps db \<equiv> (sbom_step db)\<^sup>*\<^sup>*"

subsection \<open>Every run is a sequence of steps\<close>

definition by_steps :: "processorEnv \<Rightarrow> 'a proc \<Rightarrow> bool" where
  "by_steps env m \<longleftrightarrow> (\<forall>w. sbom_steps (peDb env) (pwTables w) (pwTables (snd (run_state m w))))"

definition others_step :: "processorEnv \<Rightarrow> bool" where
  "others_step env \<longleftrightarrow> (\<forall>k t. sbom_steps (peDb env) t (peOthers env k t))"

named_theorems runs_by_steps

lemma by_steps_return [runs_by_steps]: "by_steps env (State_Monad.return x)"
  by (simp add: by_steps_def)

lemma by_steps_bind [runs_by_steps]:
  assumes "by_steps env m" "\<And>x. by_steps env (f x)"
  shows "by_steps env (State_Monad.bind m f)"
  unfolding by_steps_def
proof
  fix w
  obtain x w' where run: "run_state m w = (x, w')" by fastforce
  have "sbom_steps (peDb env) (pwTables w) (pwTables w')" using assms(1) run by (auto simp: by_steps_def dest: spec [of _ w])
  moreover have "sbom_steps (peDb env) (pwTables w') (pwTables (snd (run_state (f x) w')))"
    using assms(2) [of x] by (simp add: by_steps_def)
  ultimately show "sbom_steps (peDb env) (pwTables w) (pwTables (snd (run_state (State_Monad.bind m f) w)))"
    using run by simp
qed

lemma by_steps_clock [runs_by_steps]: "by_steps env (readClock env)" "by_steps env (readSystemClock env)"
  by (simp_all add: by_steps_def readClock_def readSystemClock_def)

lemma by_steps_access:
  assumes "others_step env" "\<And>t. sbom_steps (peDb env) t (snd (work t))"
  shows "by_steps env (access env work)"
  unfolding by_steps_def
proof
  fix w :: processorWorld
  let ?t = "peOthers env (pwAccesses w) (pwTables w)"
  have "pwTables (snd (run_state (access env work) w)) = snd (work ?t)"
    by (simp add: access_def Let_def split: prod.splits)
  moreover have "sbom_steps (peDb env) (pwTables w) ?t" using assms(1) by (simp add: others_step_def)
  ultimately show "sbom_steps (peDb env) (pwTables w) (pwTables (snd (run_state (access env work) w)))"
    using assms(2) [of ?t] by (metis rtranclp_trans)
qed

lemma steps_onJobs:
  assumes "\<And>rows. \<exists>stmt. freshOp stmt rows \<and> snd (work rows) = execJobOp stmt rows"
  shows "sbom_steps db t (snd (onJobs work t))"
proof -
  obtain stmt where "freshOp stmt (tbJobs t)" "snd (work (tbJobs t)) = execJobOp stmt (tbJobs t)"
    using assms by blast
  then show ?thesis using sbom_step.job [of stmt t db] by (auto simp: onJobs_def Let_def split: prod.splits)
qed

lemma steps_job_statements:
  "sbom_steps db t (snd (onJobs (claimExecution org job worker now lease) t))"
  "sbom_steps db t (snd (onJobs (markRetry org job worker category code) t))"
  "sbom_steps db t (snd (onJobs (markSucceeded org job worker n) t))"
  "sbom_steps db t (snd (onJobs (markTerminalFailure org job worker category code n) t))"
proof -
  show "sbom_steps db t (snd (onJobs (claimExecution org job worker now lease) t))"
    by (rule steps_onJobs, rule exI [of _ "OpClaim org job worker now lease"]) (simp add: freshOp_def)
  show "sbom_steps db t (snd (onJobs (markRetry org job worker category code) t))"
    by (rule steps_onJobs, rule exI [of _ "OpRetry org job worker category code"]) (simp add: freshOp_def)
  show "sbom_steps db t (snd (onJobs (markSucceeded org job worker n) t))"
    by (rule steps_onJobs, rule exI [of _ "OpSucceed org job worker n"]) (simp add: freshOp_def)
  show "sbom_steps db t (snd (onJobs (markTerminalFailure org job worker category code n) t))"
    by (rule steps_onJobs, rule exI [of _ "OpFail org job worker category code n"]) (simp add: freshOp_def)
qed

lemma steps_transition:
  "\<not> isCompleteCommand cmd \<Longrightarrow> sbom_steps db t (snd (onIngestions (applyTransition org i version cmd) t))"
  by (cases "applyTransition org i version cmd (tbIngestions t)")
    (auto simp: onIngestions_def intro!: r_into_rtranclp sbom_step.transition)

lemma steps_persist: "sbom_steps db t (snd (persistOnceForIngestion db input n t))"
  by (cases "persistOnceForIngestion db input n t") (auto intro!: r_into_rtranclp sbom_step.persist)

lemma steps_retry: "sbom_steps db t (snd (retryTransaction env input t))"
  unfolding retryTransaction_def Let_def snd_conv
  by (rule rtranclp_trans [OF steps_transition steps_job_statements(2)]) simp

lemma terminalCommand_not_complete: "\<not> isCompleteCommand (terminalCommand code n)"
  by (simp add: terminalCommand_def split: safeFailureOutcome.splits)

lemma steps_audit: "sbom_steps db t (t\<lparr>tbAudits := tbAudits t @ [event]\<rparr>)"
  by (rule r_into_rtranclp) (rule sbom_step.audit)

lemma steps_terminal: "sbom_steps db t (snd (terminalTransaction env input n t))"
  unfolding terminalTransaction_def Let_def snd_conv
  by (rule rtranclp_trans [OF rtranclp_trans [OF steps_transition [OF terminalCommand_not_complete] steps_audit]
        steps_job_statements(4)])

lemmas outcome_defs = releaseForRetry_def finalizeTerminal_def finalizeByCode_def handleStorageFailure_def
  alignTerminalJob_def alreadyComplete_def readIngestion_def

text \<open>Whatever the other processes do, as long as it is steps, the processor takes steps.\<close>

lemma outcomes_by_steps:
  assumes "others_step env"
  shows "by_steps env (releaseForRetry env input)" "by_steps env (finalizeByCode env input)"
    "by_steps env (handleStorageFailure env input failure)" "by_steps env (alignTerminalJob env org job worker code)"
    "by_steps env (alreadyComplete env org job worker n)" "by_steps env (readIngestion env org i)"
  unfolding outcome_defs
  by (auto intro!: runs_by_steps by_steps_access [OF assms] steps_retry steps_terminal steps_job_statements)

lemma processing_by_steps:
  assumes others: "others_step env"
  shows "by_steps env (processSbomIngestion env raw)"
proof -
  note rules = runs_by_steps by_steps_access [OF others] outcomes_by_steps [OF others] steps_job_statements
    steps_transition steps_persist
  have load: "by_steps env (loadProcessingIngestion env payload job worker r n)" for payload job worker r n
    unfolding loadProcessingIngestion_def
    by (auto intro!: rules split: sum.splits option.splits)
  have persistFailure: "by_steps env (handlePersistFailure env payload job worker sbom r code)"
    for payload job worker sbom r code
    unfolding handlePersistFailure_def Let_def by (auto intro!: rules split: option.splits)
  have store: "by_steps env (storeParsedGraph env payload job worker r sbom g)" for payload job worker r sbom g
    unfolding storeParsedGraph_def
    by (auto intro!: rules persistFailure split: sum.splits dbFailure.splits)
  have object: "by_steps env (processObject env payload job worker r sbom)" for payload job worker r sbom
    unfolding processObject_def Let_def by (auto intro!: rules store split: sum.splits)
  have loaded: "by_steps env (processLoaded env payload job worker r)" for payload job worker r
    unfolding processLoaded_def Let_def by (auto intro!: rules object split: option.splits)
  have claimed: "by_steps env (processClaimed env payload job worker n)" for payload job worker n
    unfolding processClaimed_def Let_def by (auto intro!: rules load loaded split: option.splits sum.splits)
  have job: "by_steps env (processJob env payload job)" for payload job
    unfolding processJob_def by (auto intro!: rules claimed split: sum.splits)
  show ?thesis
    unfolding processSbomIngestion_def by (auto intro!: rules job split: sum.splits option.splits)
qed

subsection \<open>Steps keep what the tables promise\<close>

lemma tables_ok_cong:
  assumes "tables_ok db t" "tbIngestions t' = tbIngestions t" "tbSboms t' = tbSboms t"
    "tbComponents t' = tbComponents t" "tbOccurrences t' = tbOccurrences t" "tbEdges t' = tbEdges t"
    "tbAssets t' = tbAssets t" "tbDrawn t' = tbDrawn t"
  shows "tables_ok db t'"
proof -
  have "rankOf t' = rankOf t" using assms(3) by (simp add: rankOf_def fun_eq_iff)
  moreover from this have "pointer_ok t' a \<longleftrightarrow> pointer_ok t a" for a
    using pointer_ok_cong [of t' t a] assms(2) by simp
  moreover have "occurrencesOf r t' = occurrencesOf r t" "edgesOf r t' = edgesOf r t" for r
    using assms(5,6) by (simp_all add: occurrencesOf_def edgesOf_def)
  ultimately show ?thesis
    using assms by (simp add: tables_ok_def rows_ok_def graphs_ok_def supply_ok_def pointers_ok_def)
qed

lemma findFirst_append:
  "findFirst P (xs @ ys) = (case findFirst P xs of None \<Rightarrow> findFirst P ys | Some x \<Rightarrow> Some x)"
  unfolding findFirst_def by (induction xs) auto

text \<open>A row that stays short of completion and keeps its identity changes no promise.\<close>

lemma ingestion_change_ok:
  assumes t: "tables_ok db t" and r: "r \<in> set (tbIngestions t)" "iState r \<noteq> completed"
    and f: "iState r' \<noteq> completed" "ingestionKey r' = ingestionKey r" "ingestion_inv (toIngestionSnapshot r')"
  shows "tables_ok db (t\<lparr>tbIngestions := map (\<lambda>x. if x = r then r' else x) (tbIngestions t)\<rparr>)" (is "tables_ok db ?t")
proof -
  have key: "siId r' = siId r" "siOrganizationId r' = siOrganizationId r" "siSbomId r' = siSbomId r"
    "siAssetId r' = siAssetId r" "siCreatedAt r' = siCreatedAt r"
    using f(2) by (simp_all add: ingestionKey_def)
  have parts: "rows_ok t" "graphs_ok t" "supply_ok db t" "pointers_ok t" using t by (simp_all add: tables_ok_def)
  have ids: "map siId (tbIngestions ?t) = map siId (tbIngestions t)" using key(1) by (auto simp: comp_def)
  have "rows_ok ?t"
    using parts(1) f(3) unfolding rows_ok_def ingestions.keyed_def ids by auto
  moreover have "graphs_ok ?t"
  proof -
    have own: "occurrencesOf x ?t = occurrencesOf x t" "edgesOf x ?t = edgesOf x t" for x
      by (simp_all add: occurrencesOf_def edgesOf_def)
    have "occurrencesOf r' t = occurrencesOf r t" "edgesOf r' t = edgesOf r t"
      using key by (simp_all add: occurrencesOf_def edgesOf_def)
    moreover have "occurrencesOf r t = []" "edgesOf r t = []" using parts(2) r by (auto simp: graphs_ok_def)
    moreover have "siId ` set (tbIngestions ?t) = siId ` set (tbIngestions t)"
      using arg_cong [OF ids, of set] by (simp only: list.set_map)
    ultimately show ?thesis using parts(2) f(1) unfolding graphs_ok_def own by auto
  qed
  moreover have "pointers_ok ?t"
  proof -
    have rank: "rankOf ?t x = rankOf t x" for x by (simp add: rankOf_def)
    have new: "rankOf t r' = rankOf t r" using key by (simp add: rankOf_def split: option.splits)
    have "completed_for ?t a = completed_for t a" for a
      using r f(1) by (auto simp: completed_for_def)
    then have "pointer_ok ?t a \<longleftrightarrow> pointer_ok t a" for a
      by (simp add: pointer_ok_def newest_def rank split: option.splits)
    with parts(4) r new show ?thesis by (auto simp: pointers_ok_def rank)
  qed
  moreover have "supply_ok db ?t" using parts(3) by (simp add: supply_ok_def)
  ultimately show ?thesis by (simp add: tables_ok_def)
qed

lemma not_completed_by:
  assumes "applySession8IngestionTransition (Some s) cmd = Inr s'" "\<not> isCompleteCommand cmd"
  shows "iState s' \<noteq> completed"
  using assms by (cases cmd) (auto simp: finishWithFailure_def Let_def split: sum.splits if_splits)

lemma transition_ok:
  assumes t: "tables_ok db t" and run: "applyTransition org i version cmd (tbIngestions t) = (answer, rows)"
    and cmd: "\<not> isCompleteCommand cmd"
  shows "tables_ok db (t\<lparr>tbIngestions := rows\<rparr>)"
proof -
  have rows_ok: "ingestions.keyed (tbIngestions t)" "\<forall>r \<in> set (tbIngestions t). ingestion_inv (toIngestionSnapshot r)"
    using t by (simp_all add: tables_ok_def rows_ok_def)
  from rows_ok(1) run show ?thesis
  proof (cases rule: applyTransition_cases)
    case (taken r s)
    have inv: "ingestion_inv (toIngestionSnapshot r)" using rows_ok(2) taken(1) by blast
    have "iState r \<noteq> completed"
      using transition_terminal_error [OF inv, of cmd] taken(5)
      by (auto simp: isSession8TerminalState_def session8IngestionTerminalStates_def)
    with taken inv not_completed_by [OF taken(5) cmd] transition_keeps_inv [OF inv taken(5)] show ?thesis
      using ingestion_change_ok [OF t taken(1), of "writeTransition s r"] by simp
  qed (use t in simp_all)
qed

lemma accept_ok:
  assumes t: "tables_ok db t" and fresh: "i \<notin> siId ` set (tbIngestions t)" "s \<in> set (tbSboms t)"
    and run: "createAccepted i at' (sbOrganizationId s) (sbId s) (sbAssetId s) pv nv (tbIngestions t) = (answer, rows)"
  shows "tables_ok db (t\<lparr>tbIngestions := rows\<rparr>)"
proof -
  have parts: "rows_ok t" "graphs_ok t" "supply_ok db t" "pointers_ok t" using t by (simp_all add: tables_ok_def)
  let ?row = "session8IngestionSnapshot.extend acceptedSnapshot
    (sbomIngestionRecord.fields i (sbOrganizationId s) (sbId s) (sbAssetId s) pv nv 1 at')"
  have fields: "siId ?row = i" "siOrganizationId ?row = sbOrganizationId s" "siSbomId ?row = sbId s"
    "iState ?row = accepted" "toIngestionSnapshot ?row = acceptedSnapshot"
    by (simp_all add: session8IngestionSnapshot.extend_def sbomIngestionRecord.fields_def acceptedSnapshot_def
        toIngestionSnapshot_def)
  consider "rows = tbIngestions t" | "rows = tbIngestions t @ [?row]"
    using run by (auto simp: createAccepted_def requireVersionLabel_def acceptedSnapshot_def Let_def split: if_splits)
  then show ?thesis
  proof cases
    case 1
    with t show ?thesis by simp
  next
    case 2
    with fields obtain row where row: "siId row = i" "siOrganizationId row = sbOrganizationId s" "siSbomId row = sbId s"
      "iState row = accepted" "toIngestionSnapshot row = acceptedSnapshot" and rows: "rows = tbIngestions t @ [row]"
      by blast
    let ?t = "t\<lparr>tbIngestions := rows\<rparr>"
    have "ingestion_inv acceptedSnapshot" by (simp add: ingestion_inv_def acceptedSnapshot_def)
    then have "rows_ok ?t"
      using parts(1) fresh(1) row rows by (auto simp: rows_ok_def ingestions.keyed_def)
    moreover have "graphs_ok ?t"
    proof -
      have "\<forall>occ \<in> set (tbOccurrences t). coSbomIngestionId occ \<noteq> i" "\<forall>e \<in> set (tbEdges t). drSbomIngestionId e \<noteq> i"
        using parts(2) fresh(1) unfolding graphs_ok_def by blast+
      then have "occurrencesOf row t = []" "edgesOf row t = []"
        by (simp_all add: occurrencesOf_def edgesOf_def filter_empty_conv row(1))
      moreover have "occurrencesOf x ?t = occurrencesOf x t" "edgesOf x ?t = edgesOf x t" for x
        by (simp_all add: occurrencesOf_def edgesOf_def)
      ultimately show ?thesis using parts(2) row by (auto simp: graphs_ok_def rows)
    qed
    moreover have "pointers_ok ?t"
    proof -
      have rank: "rankOf ?t x = rankOf t x" for x by (simp add: rankOf_def)
      have "rankOf t row \<noteq> None"
        using fresh(2) row by (auto simp: rankOf_def findFirst_None_iff split: option.splits)
      moreover have "completed_for ?t a = completed_for t a" for a using row rows by (auto simp: completed_for_def)
      then have "pointer_ok ?t a \<longleftrightarrow> pointer_ok t a" for a
        by (simp add: pointer_ok_def newest_def rank split: option.splits)
      ultimately show ?thesis using parts(4) by (auto simp: pointers_ok_def rows rank [unfolded rows])
    qed
    moreover have "supply_ok db ?t" using parts(3) by (simp add: supply_ok_def)
    ultimately show ?thesis by (simp add: tables_ok_def)
  qed
qed

lemma receive_ok:
  assumes "tables_ok db t"
  shows "tables_ok db (t\<lparr>tbSboms := tbSboms t @ [s]\<rparr>)" (is "tables_ok db ?t")
proof -
  have ranked: "\<forall>r \<in> set (tbIngestions t). rankOf t r \<noteq> None" using assms by (simp add: tables_ok_def pointers_ok_def)
  have rank: "rankOf ?t r = rankOf t r" if "r \<in> set (tbIngestions t)" for r
    using ranked [rule_format, OF that]
    by (auto simp: rankOf_def findFirst_append split: option.splits)
  have "newest ?t (completed_for ?t a) r \<longleftrightarrow> newest t (completed_for t a) r" for a r
    by (auto simp: newest_def completed_for_def rank)
  moreover have "completed_for ?t a = completed_for t a" for a by (simp add: completed_for_def)
  ultimately have "pointer_ok ?t a \<longleftrightarrow> pointer_ok t a" for a by (simp add: pointer_ok_def split: option.splits)
  then show ?thesis
    using assms rank by (auto simp: tables_ok_def rows_ok_def graphs_ok_def supply_ok_def pointers_ok_def
        occurrencesOf_def edgesOf_def)
qed

lemma register_ok:
  assumes "tables_ok db t" "apId a \<notin> apId ` set (tbAssets t)" "apLastSuccessfulSbomIngestionId a = None"
    "\<forall>r \<in> set (tbIngestions t). siAssetId r \<noteq> apId a"
  shows "tables_ok db (t\<lparr>tbAssets := tbAssets t @ [a]\<rparr>)" (is "tables_ok db ?t")
proof -
  have "pointer_ok ?t b \<longleftrightarrow> pointer_ok t b" for b
    by (rule pointer_ok_cong) (simp_all add: rankOf_def)
  moreover have "pointer_ok t a" using assms(3,4) by (auto simp: pointer_ok_def completed_for_def)
  moreover have "rankOf ?t r = rankOf t r" for r by (simp add: rankOf_def)
  ultimately show ?thesis
    using assms(1,2) by (auto simp: tables_ok_def rows_ok_def graphs_ok_def supply_ok_def pointers_ok_def
        occurrencesOf_def edgesOf_def)
qed

lemma step_ok:
  assumes "sbom_step db t t'" "inj (dbUuid db)" "tables_ok db t"
  shows "tables_ok db t'"
  using assms(1,3)
proof cases
  case (persist input n answer)
  then show ?thesis using persist_keeps [OF assms(3,2)] by blast
qed (use assms(3) in \<open>auto intro: register_ok receive_ok accept_ok transition_ok tables_ok_cong\<close>)

lemma steps_ok:
  assumes "sbom_steps db t t'" "inj (dbUuid db)" "tables_ok db t"
  shows "tables_ok db t'"
  using assms by (induction rule: rtranclp_induct) (auto intro: step_ok)

end
