(* ===== verification/IngestRuns.thy ===== *)
theory IngestRuns
  imports IngestSteps
begin

text \<open>
  What one run of the processor achieves. Whatever the other processes do, the tables keep their
  promises. Undisturbed, the run leaves the ingestion row and the job in agreement with the outcome it
  returns, and it completes whenever the object verifies, the parser delivers and the database takes the
  graph.
\<close>

subsection \<open>One claimed job\<close>

definition undisturbed :: "processorEnv \<Rightarrow> bool" where
  "undisturbed env \<longleftrightarrow> (\<forall>k t. peOthers env k t = t)"

lemma access_run:
  "undisturbed env \<Longrightarrow> run_state (access env work) w =
     (fst (work (pwTables w)), \<lparr>pwTables = snd (work (pwTables w)), pwAccesses = Suc (pwAccesses w)\<rparr>)"
  by (simp add: access_def undisturbed_def Let_def split: prod.splits)

lemma clock_run:
  "run_state (readClock env) w = (peClock env (pwAccesses w), w)"
  "run_state (readSystemClock env) w = (peSystemClock env (pwAccesses w), w)"
  by (simp_all add: readClock_def readSystemClock_def)

lemma undisturbed_others: "undisturbed env \<Longrightarrow> others_step env"
  by (simp add: undisturbed_def others_step_def)

text \<open>The row and the job agree with an outcome.\<close>

fun agrees :: "processSbomIngestionOutcome \<Rightarrow> sbomIngestionRecord \<Rightarrow> backgroundJobRecord \<Rightarrow> bool" where
  "agrees OutCompleted r j \<longleftrightarrow> iState r = completed \<and> bjStatus j = job_succeeded"
| "agrees (OutRejected code) r j \<longleftrightarrow> iState r = rejected \<and> iFailureCode r = Some code \<and>
     bjStatus j = job_failed \<and> bjFailureCode j = Some (safeFailureCodeText code)"
| "agrees (OutQuarantined code) r j \<longleftrightarrow> iState r = quarantined \<and> iFailureCode r = Some code \<and>
     bjStatus j = job_failed \<and> bjFailureCode j = Some (safeFailureCodeText code)"
| "agrees (OutFailed code) r j \<longleftrightarrow> iState r = failed \<and> iFailureCode r = Some code \<and>
     bjStatus j = job_failed \<and> bjFailureCode j = Some (safeFailureCodeText code)"
| "agrees (OutRetry code) r j \<longleftrightarrow> iState r = queued \<and> bjStatus j = job_queued \<and>
     bjFailureCode j = Some (safeFailureCodeText code)"
| "agrees OutThrew r j \<longleftrightarrow> iState r = processing \<and> bjStatus j = job_running"
| "agrees _ r j \<longleftrightarrow> False"

definition settled :: "jstr \<Rightarrow> jstr \<Rightarrow> jstr \<Rightarrow> processSbomIngestionOutcome \<Rightarrow> sbomTables \<Rightarrow> bool" where
  "settled org i jobId out t \<longleftrightarrow>
     (\<exists>r \<in> set (tbIngestions t). \<exists>j \<in> set (tbJobs t). siOrganizationId r = org \<and> siId r = i \<and>
        bjId j = jobId \<and> agrees out r j)"

text \<open>The worker holds the job and the row is being processed.\<close>

definition working :: "processorEnv \<Rightarrow> sbomIngestJobPayload \<Rightarrow> jstr \<Rightarrow> sbomIngestionRecord \<Rightarrow> int \<Rightarrow> sbomTables \<Rightarrow> bool" where
  "working env payload jobId r lease t \<longleftrightarrow> tables_ok (peDb env) t \<and> r \<in> set (tbIngestions t) \<and>
     siOrganizationId r = pjOrganizationId payload \<and> siId r = pjAggregateId payload \<and> iState r = processing \<and>
     UUID_PATTERN (pjOrganizationId payload) \<and> UUID_PATTERN (pjAggregateId payload) \<and>
     (\<exists>j \<in> set (tbJobs t). heldJob (Some (pjOrganizationId payload)) jobId (peWorkerIdentifier env) j \<and>
        bjLeaseExpiresAt j = Some lease)"

lemma job_update:
  "j \<in> set rows \<Longrightarrow> whr j \<Longrightarrow> change j \<in> set (fst (updateMany whr change rows))"
  by auto

lemma transition_takes:
  assumes "ingestions.keyed rows" "r \<in> set rows" "UUID_PATTERN (siOrganizationId r)" "UUID_PATTERN (siId r)"
    and "\<not> isSession8TerminalState (iState r)"
    and "applySession8IngestionTransition (Some (toIngestionSnapshot r)) cmd = Inr s"
  shows "fst (applyTransition (siOrganizationId r) (siId r) (siVersion r) cmd rows) = Inr (writeTransition s r, s)"
    "writeTransition s r \<in> set (snd (applyTransition (siOrganizationId r) (siId r) (siVersion r) cmd rows))"
proof -
  let ?at = "atVersion (siOrganizationId r) (siId r) (siVersion r)"
  let ?upd = "map (\<lambda>x. if ?at x then writeTransition s x else x) rows"
  have "ingestions.keyed ?upd"
    using assms(1) ingestions.keyed_update [of "writeTransition s" rows ?at] by simp
  moreover have new: "writeTransition s r \<in> set ?upd" using assms(2) by (force simp: atVersion_def)
  ultimately have "findIngestionById (siOrganizationId r) (siId r) ?upd = Some (writeTransition s r)"
    using findIngestionById_row [of ?upd "writeTransition s r"] assms(3,4) by simp
  moreover have "filter ?at rows \<noteq> []" using assms(2) by (auto simp: filter_empty_conv atVersion_def)
  ultimately have "applyTransition (siOrganizationId r) (siId r) (siVersion r) cmd rows =
      (Inr (writeTransition s r, s), ?upd)"
    using findIngestionById_row [OF assms(1-4)] assms(3-6)
    by (simp add: applyTransition_def updateMany_def del: applySession8IngestionTransition.simps)
  with new show "fst (applyTransition (siOrganizationId r) (siId r) (siVersion r) cmd rows) = Inr (writeTransition s r, s)"
    "writeTransition s r \<in> set (snd (applyTransition (siOrganizationId r) (siId r) (siVersion r) cmd rows))" by simp_all
qed

lemma onIngestions_jobs [simp]: "tbJobs (snd (onIngestions work t)) = tbJobs t"
  "tbAudits (snd (onIngestions work t)) = tbAudits t"
  "tbIngestions (snd (onIngestions work t)) = snd (work (tbIngestions t))"
  "fst (onIngestions work t) = fst (work (tbIngestions t))"
  by (simp_all add: onIngestions_def Let_def split: prod.splits)

lemma onJobs_tables [simp]: "tbIngestions (snd (onJobs work t)) = tbIngestions t"
  "tbJobs (snd (onJobs work t)) = snd (work (tbJobs t))" "tbSboms (snd (onJobs work t)) = tbSboms t"
  "fst (onJobs work t) = fst (work (tbJobs t))"
  by (simp_all add: onJobs_def Let_def split: prod.splits)

text \<open>The processing row can be released and failed.\<close>

lemma working_transition:
  assumes "working env payload jobId r lease t"
    and "applySession8IngestionTransition (Some (toIngestionSnapshot r)) cmd = Inr s"
  shows "writeTransition s r \<in> set (tbIngestions (snd (onIngestions
    (applyTransition (pjOrganizationId payload) (pjAggregateId payload) (siVersion r) cmd) t)))"
proof -
  have "ingestions.keyed (tbIngestions t)" "r \<in> set (tbIngestions t)" "\<not> isSession8TerminalState (iState r)"
    "siOrganizationId r = pjOrganizationId payload" "siId r = pjAggregateId payload"
    using assms(1) by (auto simp: working_def tables_ok_def rows_ok_def isSession8TerminalState_def
        session8IngestionTerminalStates_def)
  with transition_takes(2) [of "tbIngestions t" r cmd s] assms show ?thesis
    by (simp add: working_def)
qed

lemma working_snapshot:
  assumes "working env payload jobId r lease t"
  shows "processingSnapshot (Some (toIngestionSnapshot r)) = Inr (toIngestionSnapshot r)"
proof -
  have "ingestion_inv (toIngestionSnapshot r)" "iState r = processing"
    using assms by (auto simp: working_def tables_ok_def rows_ok_def)
  then show ?thesis
    by (simp add: processingSnapshot_inv isSession8TerminalState_def session8IngestionTerminalStates_def)
qed

lemma retry_settles:
  assumes w: "working env payload jobId r lease t" and input: "pfPayload input = payload" "pfJobId input = jobId"
    "pfIngestionVersion input = siVersion r" "scOutcome (classifySafeFailure (pfCode input)) = retryable_infrastructure"
  shows "settled (pjOrganizationId payload) (pjAggregateId payload) jobId (OutRetry (pfCode input))
    (snd (retryTransaction env input t))"
proof -
  let ?s = "(toIngestionSnapshot r)\<lparr>iState := queued, iStartedAt := None, iFailureCategory := None, iFailureCode := None\<rparr>"
  let ?t' = "snd (retryTransaction env input t)"
  have "writeTransition ?s r \<in> set (tbIngestions ?t')"
    using working_transition [OF w, of "ReleaseForRetry (pfCode input)" ?s] working_snapshot [OF w] input
    by (simp add: retryTransaction_def Let_def)
  moreover obtain j where j: "j \<in> set (tbJobs t)"
    "heldJob (Some (pjOrganizationId payload)) jobId (peWorkerIdentifier env) j" using w by (auto simp: working_def)
  then have "retryJobRow (categoryText (pfCode input)) (safeFailureCodeText (pfCode input)) j \<in> set (tbJobs ?t')"
    using input by (auto simp: retryTransaction_def Let_def markRetry_rows)
  ultimately show ?thesis
    using w j unfolding settled_def
    by (intro bexI [of _ "writeTransition ?s r"] bexI [of _ "retryJobRow (categoryText (pfCode input)) (safeFailureCodeText (pfCode input)) j"])
      (auto simp: working_def retryJobRow_def heldJob_def)
qed

lemma terminal_settles:
  assumes w: "working env payload jobId r lease t" and input: "pfPayload input = payload" "pfJobId input = jobId"
    "pfIngestionVersion input = siVersion r" "scOutcome (classifySafeFailure (pfCode input)) \<noteq> retryable_infrastructure"
  shows "settled (pjOrganizationId payload) (pjAggregateId payload) jobId (terminalOutcome (pfCode input))
    (snd (terminalTransaction env input n t))"
proof -
  let ?code = "pfCode input"
  obtain st where st: "applySession8IngestionTransition (Some (toIngestionSnapshot r)) (terminalCommand ?code n) =
      Inr ((toIngestionSnapshot r)\<lparr>iState := st, iCompletedAt := Some n,
        iFailureCategory := Some (scCategory (classifySafeFailure ?code)), iFailureCode := Some ?code\<rparr>)"
    "\<And>j. bjStatus j = job_failed \<Longrightarrow> bjFailureCode j = Some (safeFailureCodeText ?code) \<Longrightarrow> iState r' = st \<Longrightarrow>
      iFailureCode r' = Some ?code \<Longrightarrow> agrees (terminalOutcome ?code) r' j" for r'
    using working_snapshot [OF w] input(4)
    by (cases "scOutcome (classifySafeFailure ?code)")
      (auto simp: terminalCommand_def terminalOutcome_def finishWithFailure_def Let_def)
  let ?s = "(toIngestionSnapshot r)\<lparr>iState := st, iCompletedAt := Some n,
        iFailureCategory := Some (scCategory (classifySafeFailure ?code)), iFailureCode := Some ?code\<rparr>"
  let ?t' = "snd (terminalTransaction env input n t)"
  have "writeTransition ?s r \<in> set (tbIngestions ?t')"
    using working_transition [OF w st(1)] input by (simp add: terminalTransaction_def Let_def)
  moreover obtain j where j: "j \<in> set (tbJobs t)"
    "heldJob (Some (pjOrganizationId payload)) jobId (peWorkerIdentifier env) j" using w by (auto simp: working_def)
  then have "failJobRow (categoryText ?code) (safeFailureCodeText ?code) n j \<in> set (tbJobs ?t')"
    using input by (auto simp: terminalTransaction_def Let_def job_statement_rows)
  moreover have "agrees (terminalOutcome ?code) (writeTransition ?s r) (failJobRow (categoryText ?code) (safeFailureCodeText ?code) n j)"
    by (rule st(2)) (simp_all add: failJobRow_def writeTransition_def)
  ultimately show ?thesis
    using w j unfolding settled_def
    by (intro bexI [of _ "writeTransition ?s r"] bexI [of _ "failJobRow (categoryText ?code) (safeFailureCodeText ?code) n j"])
      (auto simp: working_def failJobRow_def heldJob_def)
qed

lemma finalize_settles:
  assumes "working env payload jobId r lease (pwTables w)" "undisturbed env" "pfPayload input = payload" "pfJobId input = jobId"
    "pfIngestionVersion input = siVersion r" "run_state (finalizeByCode env input) w = (out, w')"
  shows "settled (pjOrganizationId payload) (pjAggregateId payload) jobId out (pwTables w')"
  using assms retry_settles [OF assms(1,3-5)] terminal_settles [OF assms(1,3-5)]
  by (auto simp: finalizeByCode_def releaseForRetry_def finalizeTerminal_def clock_run access_run split: if_splits)

lemma working_find:
  assumes "working env payload jobId r lease t"
  shows "findIngestionById (pjOrganizationId payload) (pjAggregateId payload) (tbIngestions t) = Some r"
  using assms findIngestionById_row [of "tbIngestions t" r] by (simp add: working_def tables_ok_def rows_ok_def)

lemma persistFailure_settles:
  assumes w: "working env payload jobId r lease (pwTables w)" "undisturbed env"
    and run: "run_state (handlePersistFailure env payload jobId worker sbomId r code) w = (out, w')"
  shows "settled (pjOrganizationId payload) (pjAggregateId payload) jobId out (pwTables w')"
proof -
  let ?input = "\<lambda>c. \<lparr>pfPayload = payload, pfJobId = jobId, pfSbomId = sbomId, pfIngestionVersion = siVersion r,
    pfParserVersion = siParserVersion r, pfCode = c\<rparr>"
  have ids: "siOrganizationId r = pjOrganizationId payload" "siId r = pjAggregateId payload" "iState r = processing"
    using w(1) by (simp_all add: working_def)
  show ?thesis
  proof (cases "code = err_validation")
    case True
    with run finalize_settles [OF w, of "?input processing_failed"] show ?thesis
      by (simp add: handlePersistFailure_def)
  next
    case False
    with run have "out = OutRetry storage_timeout"
      "pwTables w' = snd (retryTransaction env (?input storage_timeout) (pwTables w))"
      by (auto simp: handlePersistFailure_def readIngestion_def access_run [OF w(2)] ids working_find [OF w(1)]
          isSession8TerminalState_def session8IngestionTerminalStates_def releaseForRetry_def clock_run)
    with retry_settles [OF w(1), of "?input storage_timeout"] show ?thesis
      by (simp add: classifySafeFailure_def)
  qed
qed

lemma completed_jobs:
  "pgOwnedJob input = Some owned \<Longrightarrow> tbJobs (completedTables input g ing n t) =
     fst (updateMany (ownedJobRow (pgOrganizationId input) owned n) (succeedJobRow (ojobCompletedAt owned)) (tbJobs t))"
  by (simp add: completedTables_def Let_def finishOwnedJob_def recordParser_def
      replaceAssetPointerIfCandidateIsCurrent_def split: option.splits)

lemma store_settles:
  assumes w: "working env payload jobId r lease (pwTables w)" "undisturbed env"
    and lease: "peSystemClock env (pwAccesses w) < lease"
    and run: "run_state (storeParsedGraph env payload jobId (peWorkerIdentifier env) r sbom g) w = (out, w')"
  shows "settled (pjOrganizationId payload) (pjAggregateId payload) jobId out (pwTables w')"
proof -
  let ?n = "peSystemClock env (pwAccesses w)"
  let ?owned = "\<lparr>ojobId = jobId, ojobWorkerIdentifier = peWorkerIdentifier env, ojobCompletedAt = peClock env (pwAccesses w)\<rparr>"
  let ?input = "\<lparr>pgOrganizationId = siOrganizationId r, pgAssetId = siAssetId r, pgSbomId = sbId sbom,
    pgSbomIngestionId = siId r, pgGraph = g, pgCorrelationId = pjOutboxEventId payload, pgOwnedJob = Some ?owned\<rparr>"
  have r: "r \<in> set (tbIngestions (pwTables w))" "siOrganizationId r = pjOrganizationId payload"
    "siId r = pjAggregateId payload" "iState r = processing"
    and ok: "rows_ok (pwTables w)" using w(1) by (simp_all add: working_def tables_ok_def)
  have same: "r' = r" if "r' \<in> set (tbIngestions (pwTables w))" "siId r' = siId r" for r'
    using ingestions.keyed_same that r(1) ok by (auto simp: rows_ok_def)
  obtain j where j: "j \<in> set (tbJobs (pwTables w))" "bjLeaseExpiresAt j = Some lease"
    "heldJob (Some (pjOrganizationId payload)) jobId (peWorkerIdentifier env) j" using w(1) by (auto simp: working_def)
  obtain answer t' where persist: "persistOnceForIngestion (peDb env) ?input ?n (pwTables w) = (answer, t')" by fastforce
  have out: "(out, w') = run_state (case answer of Inr _ \<Rightarrow> State_Monad.return OutCompleted
      | Inl Threw \<Rightarrow> State_Monad.return OutThrew
      | Inl (Refused e) \<Rightarrow> handlePersistFailure env payload jobId (peWorkerIdentifier env) (sbId sbom) r (errCode e))
      \<lparr>pwTables = t', pwAccesses = Suc (pwAccesses w)\<rparr>"
    using run persist by (simp add: storeParsedGraph_def clock_run access_run [OF w(2)])
  from ok persist show ?thesis
  proof (cases rule: persistOnce_cases)
    case kept
    then have "answer \<noteq> Inr ()" using r(4) by (auto dest: same)
    then consider "answer = Inl Threw" | e where "answer = Inl (Refused e)"
      by (metis dbFailure.exhaust old.unit.exhaust sum.exhaust)
    then show ?thesis
    proof cases
      case 1
      with out kept j r show ?thesis by (auto simp: settled_def heldJob_def)
    next
      case (2 e)
      with out kept w(1) show ?thesis
        by (intro persistFailure_settles [OF _ w(2), where w = "\<lparr>pwTables = t', pwAccesses = Suc (pwAccesses w)\<rparr>"])
          simp_all
    qed
  next
    case (stored ing s)
    have ing: "ing = r" using same stored(3,5) by simp
    then obtain t0 where t0: "t' = completedTables ?input g r ?n t0" "tbIngestions t0 = tbIngestions (pwTables w)"
      "tbJobs t0 = tbJobs (pwTables w)" using stored(12) by (auto simp: graph_stored_def)
    have "completedRow ?n g r \<in> set (tbIngestions t')" using r(1) t0 by force
    moreover have "ownedJobRow (siOrganizationId r) ?owned ?n j"
      using j lease r(2) by (simp add: ownedJobRow_def)
    then have "succeedJobRow (peClock env (pwAccesses w)) j \<in> set (tbJobs t')"
      using j(1) t0 job_update [of j "tbJobs t0" "ownedJobRow (siOrganizationId r) ?owned ?n"]
      by (simp add: completed_jobs [of ?input ?owned])
    moreover have "out = OutCompleted" "pwTables w' = t'" using out stored(1) by simp_all
    ultimately show ?thesis
      using r j unfolding settled_def
      by (intro bexI [of _ "completedRow ?n g r"] bexI [of _ "succeedJobRow (peClock env (pwAccesses w)) j"])
        (auto simp: succeedJobRow_def heldJob_def)
  qed
qed

lemma loaded_settles:
  assumes w: "working env payload jobId r lease (pwTables w)" "undisturbed env"
    and lease: "\<forall>k. peSystemClock env k < lease"
    and run: "run_state (processLoaded env payload jobId (peWorkerIdentifier env) r) w = (out, w')"
  shows "settled (pjOrganizationId payload) (pjAggregateId payload) jobId out (pwTables w')"
proof -
  let ?w1 = "\<lparr>pwTables = pwTables w, pwAccesses = Suc (pwAccesses w)\<rparr>"
  let ?input = "\<lambda>sbomId code. \<lparr>pfPayload = payload, pfJobId = jobId, pfSbomId = sbomId,
    pfIngestionVersion = siVersion r, pfParserVersion = siParserVersion r, pfCode = code\<rparr>"
  have final: "settled (pjOrganizationId payload) (pjAggregateId payload) jobId o' (pwTables w'')"
    if "run_state (finalizeByCode env (?input sbomId code)) ?w1 = (o', w'')" for sbomId code o' w''
    using finalize_settles [of env payload jobId r lease ?w1 "?input sbomId code" o' w''] w that by simp
  have store: "settled (pjOrganizationId payload) (pjAggregateId payload) jobId o' (pwTables w'')"
    if "run_state (storeParsedGraph env payload jobId (peWorkerIdentifier env) r s g) ?w1 = (o', w'')" for s g o' w''
    using store_settles [of env payload jobId r lease ?w1 s g o' w''] w lease that by simp
  have object: "settled (pjOrganizationId payload) (pjAggregateId payload) jobId o' (pwTables w'')"
    if "run_state (processObject env payload jobId (peWorkerIdentifier env) r s) ?w1 = (o', w'')" for s o' w''
    using that by (auto simp: processObject_def Let_def handleStorageFailure_def intro: final store split: sum.splits)
  show ?thesis
    using run by (auto simp: processLoaded_def Let_def access_run [OF w(2)] intro: final object split: option.splits if_splits)
qed

subsection \<open>The whole run\<close>

text \<open>A job of the queue and its ingestion, ready to be processed.\<close>

definition ready :: "processorEnv \<Rightarrow> sbomIngestJobPayload \<Rightarrow> backgroundJobRecord \<Rightarrow> sbomIngestionRecord \<Rightarrow> sbomTables \<Rightarrow> bool" where
  "ready env payload j r t \<longleftrightarrow> tables_ok (peDb env) t \<and> jobs.keyed (tbJobs t) \<and> distinct (jobEvents (tbJobs t)) \<and>
     j \<in> set (tbJobs t) \<and> bjOrganizationId j = Some (pjOrganizationId payload) \<and>
     bjOutboxEventId j = Some (pjOutboxEventId payload) \<and> bjJobType j = SBOM_INGEST_JOB_TYPE \<and>
     r \<in> set (tbIngestions t) \<and> siOrganizationId r = pjOrganizationId payload \<and> siId r = pjAggregateId payload \<and>
     \<not> isSession8TerminalState (iState r)"

lemma event_job_unique:
  assumes "distinct (jobEvents rows)" "j \<in> set rows" "j' \<in> set rows" "bjOutboxEventId j = Some e" "bjOutboxEventId j' = Some e"
  shows "j = j'"
  using assms
proof (induction rows)
  case (Cons x rows)
  then show ?case
    by (cases "bjOutboxEventId x") (auto simp: jobEvents_def image_iff)
qed simp

lemma payload_uuids:
  "parseSbomIngestJobPayload raw = Inr payload \<Longrightarrow>
   UUID_PATTERN (pjOrganizationId payload) \<and> UUID_PATTERN (pjAggregateId payload)"
proof (cases raw)
  case (JObject entries)
  assume "parseSbomIngestJobPayload raw = Inr payload"
  moreover have "asUuid x = Some i \<Longrightarrow> UUID_PATTERN i" for x i
    by (cases x rule: asUuid.cases) (auto split: if_splits)
  ultimately show ?thesis
    using JObject by (auto simp: Let_def split: if_splits option.splits json.splits)
qed simp_all

text \<open>Starting the ingestion: the row the processor goes on with is being processed.\<close>

lemma start_run:
  assumes "tables_ok db t" "r \<in> set (tbIngestions t)" "\<not> isSession8TerminalState (iState r)" "iState r \<noteq> processing"
  shows "iState r = accepted \<or> iState r = queued"
    "\<exists>s. applySession8IngestionTransition (Some (toIngestionSnapshot r)) (StartProcessing n stage_validate) = Inr s \<and>
       iState s = processing"
proof -
  have inv: "ingestion_inv (toIngestionSnapshot r)" using assms(1,2) by (auto simp: tables_ok_def rows_ok_def)
  then show st: "iState r = accepted \<or> iState r = queued"
    using assms(3,4) by (cases "iState r") (auto simp: ingestion_inv_def isSession8TerminalState_def session8IngestionTerminalStates_def)
  show "\<exists>s. applySession8IngestionTransition (Some (toIngestionSnapshot r)) (StartProcessing n stage_validate) = Inr s \<and>
       iState s = processing"
    using inv st assms(3) by (auto simp: requireCurrent_inv isSession8IngestionStage_def session8IngestionStages_def)
qed

lemma load_run:
  assumes t: "tables_ok (peDb env) (pwTables w)" and r: "r \<in> set (tbIngestions (pwTables w))"
    "siOrganizationId r = pjOrganizationId payload" "siId r = pjAggregateId payload" "\<not> isSession8TerminalState (iState r)"
    and uuids: "UUID_PATTERN (pjOrganizationId payload)" "UUID_PATTERN (pjAggregateId payload)" and env: "undisturbed env"
    and j: "j \<in> set (tbJobs (pwTables w))" "heldJob (Some (pjOrganizationId payload)) jobId (peWorkerIdentifier env) j"
      "bjLeaseExpiresAt j = Some lease"
  obtains cur w' where "run_state (loadProcessingIngestion env payload jobId worker r n) w = (Inr cur, w')"
    "working env payload jobId cur lease (pwTables w')" "ingestionKey cur = ingestionKey r"
    "siParserVersion cur = siParserVersion r" "siNormalizationVersion cur = siNormalizationVersion r"
    "tbSboms (pwTables w') = tbSboms (pwTables w)"
proof (cases "iState r = processing")
  case True
  with that [of r w] assms show thesis by (auto simp: loadProcessingIngestion_def working_def)
next
  case False
  from start_run [OF t r(1,4) False] obtain s where
    s: "applySession8IngestionTransition (Some (toIngestionSnapshot r)) (StartProcessing n stage_validate) = Inr s"
      "iState s = processing" and st: "iState r = accepted \<or> iState r = queued" by blast
  have keyed: "ingestions.keyed (tbIngestions (pwTables w))" using t by (simp add: tables_ok_def rows_ok_def)
  note takes = transition_takes [OF keyed r(1) _ _ r(4) s(1)]
  let ?work = "onIngestions (applyTransition (siOrganizationId r) (siId r) (siVersion r) (StartProcessing n stage_validate))"
  let ?w' = "\<lparr>pwTables = snd (?work (pwTables w)), pwAccesses = Suc (pwAccesses w)\<rparr>"
  have "fst (?work (pwTables w)) = Inr (writeTransition s r, s)"
    using takes(1) uuids r by simp
  then have run: "run_state (loadProcessingIngestion env payload jobId worker r n) w = (Inr (writeTransition s r), ?w')"
    using st by (auto simp: loadProcessingIngestion_def access_run [OF env])
  obtain answer rows where ap: "applyTransition (siOrganizationId r) (siId r) (siVersion r) (StartProcessing n stage_validate)
      (tbIngestions (pwTables w)) = (answer, rows)" by fastforce
  have "tables_ok (peDb env) (snd (?work (pwTables w)))"
    using transition_ok [OF t ap] by (simp add: onIngestions_def ap)
  moreover have "writeTransition s r \<in> set (tbIngestions (snd (?work (pwTables w))))"
    using takes(2) uuids r by simp
  ultimately have "working env payload jobId (writeTransition s r) lease (pwTables ?w')"
    using r uuids j s(2) by (auto simp: working_def)
  with that [OF run] show thesis by (simp add: onIngestions_def ap)
qed

lemma job_claim_run:
  assumes "ready env payload j r t" "claimableJob (bjOrganizationId j) (bjId j) now j"
  obtains rows where "claimExecution (bjOrganizationId j) (bjId j) worker now lease (tbJobs t) =
      (Inr \<lparr>bcJobId = bjId j, bcWorkerIdentifier = worker, bcLeaseExpiresAt = lease, bcAttempt = bjAttempt j + 1\<rparr>, rows)"
    "claimJobRow worker now lease j \<in> set rows"
    "heldJob (Some (pjOrganizationId payload)) (bjId j) worker (claimJobRow worker now lease j)"
    "bjLeaseExpiresAt (claimJobRow worker now lease j) = Some lease"
proof -
  let ?p = "claimableJob (bjOrganizationId j) (bjId j) now"
  have "filter ?p (tbJobs t) \<noteq> []" using assms by (auto simp: ready_def filter_empty_conv)
  then obtain x xs where x: "filter ?p (tbJobs t) = x # xs" by (cases "filter ?p (tbJobs t)") auto
  then have "x \<in> set (filter ?p (tbJobs t))" by simp
  then have "x = j" using assms(1) jobs.keyed_same [of "tbJobs t" x j] by (auto simp: ready_def claimableJob_def)
  moreover have "claimJobRow worker now lease j \<in> set (fst (updateMany ?p (claimJobRow worker now lease) (tbJobs t)))"
    using assms by (intro job_update) (auto simp: ready_def)
  ultimately show thesis
    using x assms(1) by (intro that) (auto simp: claimExecution_def Let_def claimJobRow_def heldJob_def ready_def)
qed

lemma processing_run:
  assumes env: "undisturbed env" and payload: "parseSbomIngestJobPayload raw = Inr payload"
    and ready: "ready env payload j r t" and claim: "claimableJob (bjOrganizationId j) (bjId j) (peClock env 1) j"
  obtains cur w1 where "run_state (processSbomIngestion env raw) \<lparr>pwTables = t, pwAccesses = 0\<rparr> =
      run_state (processLoaded env payload (bjId j) (peWorkerIdentifier env) cur) w1"
    "working env payload (bjId j) cur (peClock env 1 + peProcessingLeaseMs env) (pwTables w1)"
    "ingestionKey cur = ingestionKey r" "siParserVersion cur = siParserVersion r"
    "siNormalizationVersion cur = siNormalizationVersion r" "tbSboms (pwTables w1) = tbSboms t"
proof -
  have j: "j \<in> set (tbJobs t)" "bjOrganizationId j = Some (pjOrganizationId payload)"
    "bjOutboxEventId j = Some (pjOutboxEventId payload)" "bjJobType j = SBOM_INGEST_JOB_TYPE"
    and r: "r \<in> set (tbIngestions t)" "siOrganizationId r = pjOrganizationId payload" "siId r = pjAggregateId payload"
      "\<not> isSession8TerminalState (iState r)"
    and t: "tables_ok (peDb env) t" using ready by (simp_all add: ready_def)
  have uuids: "UUID_PATTERN (pjOrganizationId payload)" "UUID_PATTERN (pjAggregateId payload)"
    using payload_uuids [OF payload] by simp_all
  obtain x where x: "findByOutboxEventId (Some (pjOrganizationId payload)) (pjOutboxEventId payload) (tbJobs t) = Some x"
    using j by (cases "findByOutboxEventId (Some (pjOrganizationId payload)) (pjOutboxEventId payload) (tbJobs t)")
      (auto simp: findByOutboxEventId_def findFirst_None_iff)
  then have "x \<in> set (tbJobs t)" "bjOutboxEventId x = Some (pjOutboxEventId payload)"
    by (auto simp: findByOutboxEventId_def dest: findFirst_SomeD)
  then have found: "findByOutboxEventId (Some (pjOrganizationId payload)) (pjOutboxEventId payload) (tbJobs t) = Some j"
    using event_job_unique [of "tbJobs t" x j] j ready x by (simp add: ready_def)
  let ?now = "peClock env 1" and ?wk = "peWorkerIdentifier env"
  let ?lease = "?now + peProcessingLeaseMs env"
  obtain rows where rows: "claimExecution (bjOrganizationId j) (bjId j) ?wk ?now ?lease (tbJobs t) =
      (Inr \<lparr>bcJobId = bjId j, bcWorkerIdentifier = ?wk, bcLeaseExpiresAt = ?lease, bcAttempt = bjAttempt j + 1\<rparr>, rows)"
    and held: "claimJobRow ?wk ?now ?lease j \<in> set rows"
      "heldJob (Some (pjOrganizationId payload)) (bjId j) ?wk (claimJobRow ?wk ?now ?lease j)"
      "bjLeaseExpiresAt (claimJobRow ?wk ?now ?lease j) = Some ?lease"
    by (rule job_claim_run [OF ready claim, of ?wk ?lease])
  let ?t2 = "t\<lparr>tbJobs := rows\<rparr>"
  let ?w3 = "\<lparr>pwTables = ?t2, pwAccesses = 3\<rparr>"
  have t2: "tables_ok (peDb env) ?t2" using t by (rule tables_ok_cong) simp_all
  have find: "findIngestionById (pjOrganizationId payload) (pjAggregateId payload) (tbIngestions t) = Some r"
    using findIngestionById_row [of "tbIngestions t" r] t r uuids by (simp add: tables_ok_def rows_ok_def)
  obtain cur w1 where load: "run_state (loadProcessingIngestion env payload (bjId j) ?wk r ?now) ?w3 = (Inr cur, w1)"
    and cur: "working env payload (bjId j) cur ?lease (pwTables w1)" "ingestionKey cur = ingestionKey r"
      "siParserVersion cur = siParserVersion r" "siNormalizationVersion cur = siNormalizationVersion r"
      "tbSboms (pwTables w1) = tbSboms (pwTables ?w3)"
  proof (rule load_run [of env ?w3 r payload "claimJobRow ?wk ?now ?lease j" "bjId j" ?lease ?wk ?now], goal_cases)
    case (12 cur w')
    then show ?case using that by blast
  qed (use t2 r uuids env held in simp_all)
  have status: "bjStatus j = job_queued \<or> bjStatus j = job_running" using claim by (auto simp: claimableJob_def)
  have "iState r \<noteq> completed"
    using r(4) by (auto simp: isSession8TerminalState_def session8IngestionTerminalStates_def)
  then have "run_state (processSbomIngestion env raw) \<lparr>pwTables = t, pwAccesses = 0\<rparr> =
      run_state (processLoaded env payload (bjId j) ?wk cur) w1"
    using payload found j status rows find r load
    by (auto simp: processSbomIngestion_def access_run [OF env] processJob_def clock_run onJobs_def
        processClaimed_def readIngestion_def numeral_3_eq_3)
  with that cur show thesis by simp
qed

text \<open>
  C10. Whatever the processor runs into and whatever the other processes do between its accesses, the
  tables keep their promises: every ingestion row keeps the invariant of the life cycle, an ingestion has
  exactly the components and edges it counts when it is completed and none before, no two edges of an
  ingestion are the same, and every asset points to its newest completed ingestion.
\<close>
theorem processing_keeps_tables:
  assumes "tables_ok (peDb env) (pwTables w)" "inj (dbUuid (peDb env))" "others_step env"
    and "run_state (processSbomIngestion env raw) w = (out, w')"
  shows "tables_ok (peDb env) (pwTables w')"
proof -
  have "sbom_steps (peDb env) (pwTables w) (pwTables w')"
    using processing_by_steps [OF assms(3), of raw] assms(4) by (auto simp: by_steps_def dest: spec [of _ w])
  then show ?thesis using assms(2,1) by (rule steps_ok)
qed

text \<open>
  C4. An undisturbed run settles what it was asked for: whatever the storage, the parser and the
  database answer, as long as the lease outlasts the run, the outcome it returns is what the rows say
  afterwards. Completed: the row is completed and the job succeeded. Rejected, quarantined or failed: the
  row is in that state with the code of the outcome and the job failed with it. Retry: the row is queued
  again and so is the job. When an exception leaves the run, the row is still being processed and the job
  still running, to be claimed again after its lease.
\<close>
theorem processing_settles:
  assumes "undisturbed env" "parseSbomIngestJobPayload raw = Inr payload" "ready env payload j r t"
    and "claimableJob (bjOrganizationId j) (bjId j) (peClock env 1) j"
    and "\<forall>k. peSystemClock env k < peClock env 1 + peProcessingLeaseMs env"
    and "run_state (processSbomIngestion env raw) \<lparr>pwTables = t, pwAccesses = 0\<rparr> = (out, w')"
  shows "settled (pjOrganizationId payload) (pjAggregateId payload) (bjId j) out (pwTables w')"
proof -
  obtain cur w1 where "run_state (processLoaded env payload (bjId j) (peWorkerIdentifier env) cur) w1 = (out, w')"
    "working env payload (bjId j) cur (peClock env 1 + peProcessingLeaseMs env) (pwTables w1)"
    using processing_run [OF assms(1-4)] assms(6) by metis
  then show ?thesis by (intro loaded_settles [OF _ assms(1,5)])
qed

subsection \<open>Completion\<close>

lemma readChunks_run:
  "readChunks limit body observed chunks =
     (if body = [] \<or> observed + int (length (concat body)) \<le> limit
      then Inr (observed + int (length (concat body)), chunks @ body) else Inl payload_too_large)"
  by (induction body arbitrary: observed chunks) (auto simp: Let_def)

text \<open>The verified read returns the bytes exactly when length, completion and digest agree with the record.\<close>

lemma verified_read:
  "readVerifiedObjectBuffer sha256 object expectedSha256 expectedLength limit = Inr bytes \<longleftrightarrow>
     bytes = concat (goChunks object) \<and> \<not> goThrows object \<and> (goChunks object = [] \<or> int (length bytes) \<le> limit) \<and>
     int (length bytes) = expectedLength \<and> sha256 bytes = expectedSha256 \<and>
     (\<exists>digest. goCompletion object = Some (expectedLength, digest) \<and> digest \<in> {None, Some expectedSha256})"
proof (cases "goChunks object = [] \<or> int (length (concat (goChunks object))) \<le> limit")
  case fits: True
  show ?thesis
  proof (cases "goCompletion object")
    case None
    with fits show ?thesis by (auto simp: readVerifiedObjectBuffer_def readChunks_run)
  next
    case (Some c)
    obtain observed digest where c: "c = (observed, digest)" by fastforce
    have "readVerifiedObjectBuffer sha256 object expectedSha256 expectedLength limit =
        (if goThrows object \<or> observed \<noteq> expectedLength \<or> int (length (concat (goChunks object))) \<noteq> expectedLength \<or>
            sha256 (concat (goChunks object)) \<noteq> expectedSha256 \<or> digest \<notin> {None, Some expectedSha256}
         then Inl hash_mismatch else Inr (concat (goChunks object)))"
      using fits Some c by (simp add: readVerifiedObjectBuffer_def readChunks_run)
    then show ?thesis using fits Some c by auto
  qed
next
  case False
  then show ?thesis by (auto simp: readVerifiedObjectBuffer_def readChunks_run)
qed

lemma final_key_in_scope:
  assumes "LOWER_UUID x" "LOWER_UUID y" "SHA256_HEX_PATTERN z"
  shows "isFinalSbomObjectKey (buildFinalSbomObjectKey x y z)"
    "sbomObjectKeyScope (buildFinalSbomObjectKey x y z) = Some (x, y)"
proof -
  show final: "isFinalSbomObjectKey (buildFinalSbomObjectKey x y z)" using assms sbom_final_iff by blast
  then show "sbomObjectKeyScope (buildFinalSbomObjectKey x y z) = Some (x, y)"
    by (simp add: sbomObjectKeyScope_def final_key_split [OF assms])
qed

lemma lower_uuid: "LOWER_UUID s \<Longrightarrow> UUID_PATTERN s"
  by (auto simp: LOWER_UUID_def UUID_PATTERN_def uuid_groups_def lower_hex_def is_hex_def list_all_iff split: list.splits)

text \<open>The storage hands out the recorded bytes, and the parser turns them into a graph.\<close>

definition delivers :: "processorEnv \<Rightarrow> sbomRecord \<Rightarrow> nat list \<Rightarrow> bool" where
  "delivers env s bytes \<longleftrightarrow>
     (\<exists>object. peGetObject env \<lparr>giFinalObjectKey = sbObjectKey s, giMaxBytes = int (maxBytes (peParserLimits env)),
          giExpectedByteLength = sbByteLength s, giExpectedSha256 = sbSha256 s\<rparr> = Inr object \<and>
        concat (goChunks object) = bytes \<and> \<not> goThrows object \<and>
        goCompletion object = Some (int (length bytes), Some (sbSha256 s))) \<and>
     peSha256 env bytes = sbSha256 s \<and> int (length bytes) = sbByteLength s \<and>
     length bytes \<le> maxBytes (peParserLimits env)"

definition parses_to :: "processorEnv \<Rightarrow> sbomIngestionRecord \<Rightarrow> sbomRecord \<Rightarrow> nat list \<Rightarrow> normalizedComponentGraph \<Rightarrow> bool" where
  "parses_to env r s bytes g \<longleftrightarrow>
     peParse env \<lparr>diBytes = bytes, diExpectedSha256 = sbSha256 s, diByteLength = sbByteLength s,
       diLimits = peParserLimits env, diParserVersion = siParserVersion r,
       diNormalizationVersion = siNormalizationVersion r\<rparr> = Inr g"

text \<open>The SBOM an upload recorded for the ingestion, stored under its final key.\<close>

definition uploaded :: "sbomRecord \<Rightarrow> sbomIngestionRecord \<Rightarrow> sbomTables \<Rightarrow> bool" where
  "uploaded s r t \<longleftrightarrow> s \<in> set (tbSboms t) \<and> distinct (map sbId (tbSboms t)) \<and> sbId s = siSbomId r \<and>
     sbOrganizationId s = siOrganizationId r \<and> sbAssetId s = siAssetId r \<and>
     LOWER_UUID (siOrganizationId r) \<and> LOWER_UUID (siAssetId r) \<and> UUID_PATTERN (siSbomId r) \<and>
     SHA256_HEX_PATTERN (sbSha256 s) \<and>
     sbObjectKey s = buildFinalSbomObjectKey (siOrganizationId r) (siAssetId r) (sbSha256 s)"

lemma loaded_completes:
  assumes w: "working env payload jobId r lease (pwTables w)" "undisturbed env" "inj (dbUuid (peDb env))"
    and s: "uploaded s r (pwTables w)" "delivers env s bytes" "parses_to env r s bytes g" and g: "storable (peDb env) g"
  obtains w' r' where "run_state (processLoaded env payload jobId (peWorkerIdentifier env) r) w = (OutCompleted, w')"
    "r' \<in> set (tbIngestions (pwTables w'))" "siId r' = siId r" "iState r' = completed" "reads_as (pwTables w') r' g"
proof -
  let ?t = "pwTables w"
  have r: "r \<in> set (tbIngestions ?t)" "iState r = processing" and t: "tables_ok (peDb env) ?t"
    and uuids: "UUID_PATTERN (siOrganizationId r)" "UUID_PATTERN (siId r)"
    using w(1) by (auto simp: working_def)
  have row: "s \<in> set (tbSboms ?t)" "sbOrganizationId s = siOrganizationId r" "sbAssetId s = siAssetId r" "sbId s = siSbomId r"
    and lower: "LOWER_UUID (siOrganizationId r)" "LOWER_UUID (siAssetId r)" "SHA256_HEX_PATTERN (sbSha256 s)"
    and key: "sbObjectKey s = buildFinalSbomObjectKey (siOrganizationId r) (siAssetId r) (sbSha256 s)"
    and sid: "UUID_PATTERN (siSbomId r)" "distinct (map sbId (tbSboms ?t))" using s(1) by (simp_all add: uploaded_def)
  have "findFirst (\<lambda>x. sbOrganizationId x = siOrganizationId r \<and> sbAssetId x = siAssetId r \<and> sbId x = siSbomId r) (tbSboms ?t) = Some s"
    using row sid(2) by (intro sbom_table.keyed_find) (auto simp: sbom_table.keyed_def)
  then have find: "findSbomByAssetAndId (siOrganizationId r) (siAssetId r) (siSbomId r) (tbSboms ?t) = Some s"
    using uuids sid lower_uuid [OF lower(2)] by (simp add: findSbomByAssetAndId_def)
  have scope: "isFinalSbomObjectKey (sbObjectKey s)" "keyInScope r (sbObjectKey s)"
    using final_key_in_scope [OF lower] by (simp_all add: key keyInScope_def)
  obtain object where object: "peGetObject env \<lparr>giFinalObjectKey = sbObjectKey s, giMaxBytes = int (maxBytes (peParserLimits env)),
      giExpectedByteLength = sbByteLength s, giExpectedSha256 = sbSha256 s\<rparr> = Inr object"
    and read: "readVerifiedObjectBuffer (peSha256 env) object (sbSha256 s) (sbByteLength s) (int (maxBytes (peParserLimits env))) = Inr bytes"
    using s(2) by (auto simp: delivers_def verified_read)
  let ?w1 = "\<lparr>pwTables = ?t, pwAccesses = Suc (pwAccesses w)\<rparr>"
  let ?n = "peSystemClock env (Suc (pwAccesses w))"
  let ?input = "\<lparr>pgOrganizationId = siOrganizationId r, pgAssetId = siAssetId r, pgSbomId = sbId s,
    pgSbomIngestionId = siId r, pgGraph = g, pgCorrelationId = pjOutboxEventId payload,
    pgOwnedJob = Some \<lparr>ojobId = jobId, ojobWorkerIdentifier = peWorkerIdentifier env,
      ojobCompletedAt = peClock env (Suc (pwAccesses w))\<rparr>\<rparr>"
  obtain t' where persist: "persistOnceForIngestion (peDb env) ?input ?n ?t = (Inr (), t')"
    and stored: "graph_stored (peDb env) ?input r ?n ?t t'"
    by (rule persist_succeeds [OF t w(3), of r ?input s ?n]) (use r row uuids g in simp_all)
  let ?w' = "\<lparr>pwTables = t', pwAccesses = Suc (Suc (pwAccesses w))\<rparr>"
  have "run_state (processLoaded env payload jobId (peWorkerIdentifier env) r) w = (OutCompleted, ?w')"
    using find scope object read s(3) persist row(2)
    by (simp add: processLoaded_def processObject_def storeParsedGraph_def Let_def access_run [OF w(2)] clock_run parses_to_def)
  moreover have "completedRow ?n g r \<in> set (tbIngestions t')" using r(1) stored by (force simp: graph_stored_def)
  moreover have "reads_as t' (completedRow ?n g r) g"
  proof -
    have "reads_as t' r (pgGraph ?input)"
      by (rule stored_reads [OF _ _ _ w(3) r(1) _ _ r(2) stored]) (use t in \<open>simp_all add: tables_ok_def\<close>)
    then show ?thesis by (simp add: reads_as_def)
  qed
  ultimately show thesis by (intro that [of ?w' "completedRow ?n g r"]) simp_all
qed

text \<open>
  C12. A run that meets no obstacle completes: when the SBOM is stored under its final key in the scope
  of the asset, the storage delivers the recorded bytes, the parser delivers a valid graph without
  repeated dependencies that fits the columns, and the lease outlasts the run, then an undisturbed run
  returns completed, the job succeeded, and the stored rows of the completed ingestion read back as the
  graph.
\<close>
theorem processing_completes:
  assumes "undisturbed env" "parseSbomIngestJobPayload raw = Inr payload" "ready env payload j r t"
    and "claimableJob (bjOrganizationId j) (bjId j) (peClock env 1) j"
    and "\<forall>k. peSystemClock env k < peClock env 1 + peProcessingLeaseMs env" "inj (dbUuid (peDb env))"
    and "uploaded s r t" "delivers env s bytes" "parses_to env r s bytes g" "storable (peDb env) g"
  shows "\<exists>w' r'. run_state (processSbomIngestion env raw) \<lparr>pwTables = t, pwAccesses = 0\<rparr> = (OutCompleted, w') \<and>
    r' \<in> set (tbIngestions (pwTables w')) \<and> siId r' = siId r \<and> iState r' = completed \<and> reads_as (pwTables w') r' g \<and>
    (\<exists>j' \<in> set (tbJobs (pwTables w')). bjId j' = bjId j \<and> bjStatus j' = job_succeeded)"
proof -
  obtain cur w1 where run: "run_state (processSbomIngestion env raw) \<lparr>pwTables = t, pwAccesses = 0\<rparr> =
      run_state (processLoaded env payload (bjId j) (peWorkerIdentifier env) cur) w1"
    and cur: "working env payload (bjId j) cur (peClock env 1 + peProcessingLeaseMs env) (pwTables w1)"
      "ingestionKey cur = ingestionKey r" "siParserVersion cur = siParserVersion r"
      "siNormalizationVersion cur = siNormalizationVersion r" "tbSboms (pwTables w1) = tbSboms t"
    by (rule processing_run [OF assms(1-4)])
  have "uploaded s cur (pwTables w1)" "parses_to env cur s bytes g"
    using assms(7,9) cur(2-5) by (simp_all add: uploaded_def parses_to_def ingestionKey_def)
  then obtain w' r' where done': "run_state (processLoaded env payload (bjId j) (peWorkerIdentifier env) cur) w1 = (OutCompleted, w')"
    "r' \<in> set (tbIngestions (pwTables w'))" "siId r' = siId cur" "iState r' = completed" "reads_as (pwTables w') r' g"
    using loaded_completes [OF cur(1) assms(1,6) _ assms(8) _ assms(10)] by metis
  moreover have "settled (pjOrganizationId payload) (pjAggregateId payload) (bjId j) OutCompleted (pwTables w')"
    by (rule loaded_settles [OF cur(1) assms(1,5) done'(1)])
  moreover have "siId cur = siId r" using cur(2) by (simp add: ingestionKey_def)
  ultimately show ?thesis using run by (auto simp: settled_def)
qed

end
