(* ===== verification/IngestExamples.thy ===== *)
theory IngestExamples
  imports IngestRuns
begin

text \<open>
  A small installation: one asset, one uploaded document with two components and a dependency between
  them, its ingestion and the job the relay created for it. The theorems about storing and processing a
  graph are applied to it. A last lemma shows what a worker does that fails after it lost its lease.
\<close>

subsection \<open>The installation\<close>

definition exUuid :: "nat \<Rightarrow> jstr" where
  "exUuid c = js ''00000000-0000-4000-8000-00000000000'' @ [c]"

definition exDigest :: jstr where
  "exDigest = replicate 64 97"

definition exComponent :: "string \<Rightarrow> componentVersion \<Rightarrow> normalizedComponent" where
  "exComponent name v =
     \<lparr>ncBomRef = Some (js name), ncName = js name, ncNamespace = None, ncEcosystem = None,
      ncIdentityState = resolved, ncVersionlessPurl = Some (js ''pkg:npm/'' @ js name), ncVersionedPurl = None,
      ncVersion = v, ncIsDirect = Some True, ncIdentityKey = js ''purl:pkg:npm/'' @ js name\<rparr>"

definition exGraph :: normalizedComponentGraph where
  "exGraph =
     \<lparr>ngSpecificationVersion = js ''1.5'', ngGraphCompleteness = graph_complete,
      ngComponents = [exComponent ''a'' (KnownVersion (js ''1.0.0'')), exComponent ''b'' (UnknownVersion None)],
      ngEdges = [\<lparr>edFromBomRef = js ''a'', edToBomRef = js ''b'', edRelationshipType = js ''depends_on''\<rparr>],
      ngWarnings = [], ngComponentCount = 2, ngDependencyEdgeCount = 1, ngWarningCount = 0,
      ngCapturedAt = None, ngParserVersion = js ''1'', ngNormalizationVersion = js ''1''\<rparr>"

definition exIngestion :: sbomIngestionRecord where
  "exIngestion = session8IngestionSnapshot.extend acceptedSnapshot
     (sbomIngestionRecord.fields (exUuid 52) (exUuid 49) (exUuid 51) (exUuid 50) (js ''1'') (js ''1'') 1 1000)"

definition exStarted :: sbomIngestionRecord where
  "exStarted = exIngestion\<lparr>iState := processing, iStage := Some stage_validate, iStartedAt := Some 4000\<rparr>"

definition exSbom :: sbomRecord where
  "exSbom =
     \<lparr>sbId = exUuid 51, sbOrganizationId = exUuid 49, sbAssetId = exUuid 50,
      sbObjectKey = buildFinalSbomObjectKey (exUuid 49) (exUuid 50) exDigest, sbSha256 = exDigest,
      sbByteLength = 3, sbReceivedAt = 900, sbSpecificationVersion = None,
      sbParserVersionLastSucceeded = None\<rparr>"

definition exJob :: backgroundJobRecord where
  "exJob =
     \<lparr>bjId = exUuid 53, bjOrganizationId = Some (exUuid 49), bjOutboxEventId = Some (exUuid 54),
      bjJobType = SBOM_INGEST_JOB_TYPE, bjStatus = job_queued, bjAttempt = 0, bjStartedAt = None,
      bjLeaseExpiresAt = None, bjCompletedAt = None, bjFailureCategory = None, bjFailureCode = None,
      bjWorkerIdentifier = None, bjCreatedAt = 1000\<rparr>"

definition exTables :: "sbomIngestionRecord \<Rightarrow> sbomTables" where
  "exTables r =
     \<lparr>tbIngestions = [r], tbJobs = [exJob], tbSboms = [exSbom], tbComponents = [], tbOccurrences = [],
      tbEdges = [], tbAssets = [\<lparr>apId = exUuid 50, apOrganizationId = exUuid 49,
        apLastSuccessfulSbomIngestionId = None, apLastSuccessfulSbomIngestionAt = None\<rparr>],
      tbAudits = [], tbDrawn = 0\<rparr>"

definition exDb :: databaseEnv where
  "exDb = \<lparr>dbUuid = (\<lambda>k. [k]), dbAccepts = (\<lambda>c. length (ncName c) \<le> 512)\<rparr>"

definition exLimits :: sbomParserLimits where
  "exLimits =
     \<lparr>maxBytes = 1000, jsonMaxDepth = 64, jsonMaxNodes = 1000, jsonMaxStringBytes = 1000,
      maxComponents = 100, maxDependencyEdges = 100, maxBomRefBytes = 512, maxPurlBytes = 512,
      maxComponentNameChars = 512, maxVersionChars = 128, maxMetadataTools = 8,
      maxExternalRefsPerComponent = 8, maxPropertiesPerComponent = 8\<rparr>"

definition exEnv :: processorEnv where
  "exEnv =
     \<lparr>peDb = exDb, peSha256 = (\<lambda>_. exDigest),
      peGetObject = (\<lambda>_. Inr \<lparr>goChunks = [[123], [32, 125]], goThrows = False,
        goCompletion = Some (3, Some exDigest)\<rparr>),
      peParse = (\<lambda>_. Inr exGraph), peWorkerIdentifier = js ''worker'', peProcessingLeaseMs = 30000,
      peParserLimits = exLimits, peClock = (\<lambda>k. 5000 + int k), peSystemClock = (\<lambda>_. 6000),
      peOthers = (\<lambda>_ t. t)\<rparr>"

definition exInput :: persistComponentGraphInput where
  "exInput =
     \<lparr>pgOrganizationId = exUuid 49, pgAssetId = exUuid 50, pgSbomId = exUuid 51,
      pgSbomIngestionId = exUuid 52, pgGraph = exGraph, pgCorrelationId = exUuid 54, pgOwnedJob = None\<rparr>"

text \<open>The event the upload wrote, and the data the publisher put on the queue for it.\<close>

definition exEvent :: outboxEventRecord where
  "exEvent =
     \<lparr>oeId = exUuid 54, oeOrganizationId = Some (exUuid 49), oeAggregateType = js ''sbom_ingestion'',
      oeAggregateId = exUuid 52, oeEventType = SBOM_INGESTION_REQUESTED_EVENT_TYPE,
      oeDedupeKey = js ''dedupe'', oeAvailableAt = 0, oeClaimedAt = None, oeLeaseExpiresAt = None,
      oeProcessedAt = None, oeAttemptCount = 0, oeLastFailureCategory = None, oeLastFailureCode = None,
      oeStatus = oe_pending\<rparr>"

definition exData :: json where
  "exData = queueJobData (toQueueJob exEvent SBOM_INGEST_JOB_TYPE)"

definition exPayload :: sbomIngestJobPayload where
  "exPayload =
     \<lparr>pjOrganizationId = exUuid 49, pjOutboxEventId = exUuid 54, pjAggregateType = js ''sbom_ingestion'',
      pjAggregateId = exUuid 52, pjEventType = SBOM_INGESTION_REQUESTED_EVENT_TYPE,
      pjDedupeKey = js ''dedupe''\<rparr>"

subsection \<open>What the published data parses to\<close>

text \<open>The processor understands what the relay publishes for an event of an ingestion.\<close>

lemma published_payload_parses:
  assumes "oeOrganizationId e = Some org" "UUID_PATTERN org" "UUID_PATTERN (oeId e)" "UUID_PATTERN (oeAggregateId e)"
    and "oeAggregateType e = js ''sbom_ingestion''" "oeEventType e = SBOM_INGESTION_REQUESTED_EVENT_TYPE"
    and "oeDedupeKey e \<noteq> []"
  shows "parseSbomIngestJobPayload (queueJobData (toQueueJob e jobType)) =
    Inr \<lparr>pjOrganizationId = org, pjOutboxEventId = oeId e, pjAggregateType = js ''sbom_ingestion'',
      pjAggregateId = oeAggregateId e, pjEventType = SBOM_INGESTION_REQUESTED_EVENT_TYPE,
      pjDedupeKey = oeDedupeKey e\<rparr>"
  using assms by (simp add: queueJobData_def toQueueJob_def getProp_def PAYLOAD_KEYS_def)

lemma exUuid_lower [simp]: "48 \<le> c \<Longrightarrow> c \<le> 57 \<Longrightarrow> LOWER_UUID (exUuid c)"
  by (simp add: exUuid_def LOWER_UUID_def uuid_groups_def lower_hex_def is_digit_def js_def)

lemma exUuid_uuid [simp]: "48 \<le> c \<Longrightarrow> c \<le> 57 \<Longrightarrow> UUID_PATTERN (exUuid c)"
  by (simp add: lower_uuid)

lemma exUuid_inject [simp]: "exUuid c = exUuid d \<longleftrightarrow> c = d"
  by (simp add: exUuid_def)

lemma exData_parses: "parseSbomIngestJobPayload exData = Inr exPayload"
  unfolding exData_def by (subst published_payload_parses) (simp_all add: exEvent_def exPayload_def js_def)

subsection \<open>The promises hold\<close>

lemmas ex_rows = exIngestion_def exStarted_def acceptedSnapshot_def session8IngestionSnapshot.defs sbomIngestionRecord.defs

lemma exIngestion_fields [simp]:
  "siId exIngestion = exUuid 52" "siOrganizationId exIngestion = exUuid 49" "siAssetId exIngestion = exUuid 50"
  "siSbomId exIngestion = exUuid 51" "iState exIngestion = accepted" "siCreatedAt exIngestion = 1000"
  by (simp_all add: ex_rows)

lemma exStarted_fields [simp]:
  "siId exStarted = exUuid 52" "siOrganizationId exStarted = exUuid 49" "siAssetId exStarted = exUuid 50"
  "siSbomId exStarted = exUuid 51" "iState exStarted = processing"
  by (simp_all add: ex_rows)

lemma ex_inv: "ingestion_inv (toIngestionSnapshot exIngestion)" "ingestion_inv (toIngestionSnapshot exStarted)"
  by (simp_all add: ex_rows toIngestionSnapshot_def invariant_defs isSession8IngestionStage_def session8IngestionStages_def)

lemma exTables_ok:
  assumes "ingestion_inv (toIngestionSnapshot r)" "iState r \<noteq> completed" "siOrganizationId r = exUuid 49" "siSbomId r = exUuid 51"
  shows "tables_ok exDb (exTables r)"
  using assms
  by (simp add: tables_ok_def rows_ok_def ingestions.keyed_def graphs_ok_def supply_ok_def pointers_ok_def pointer_ok_def
      completed_for_def rankOf_def occurrencesOf_def edgesOf_def exTables_def exSbom_def findFirst_def)

lemma exDb_inj: "inj (dbUuid exDb)"
  by (simp add: exDb_def inj_def)

lemma exVersion_ok: "known_version_ok [49, 46, 48, 46, 48]"
  by (simp add: known_version_ok_def js_trim_id_iff js_space_def lower_unit_def is_upper_def
      FORBIDDEN_KNOWN_VERSION_STRINGS_def js_def)

lemma exGraph_storable: "storable exDb exGraph"
  by (simp add: storable_def graph_ok_def components_ok_def component_ok_def exGraph_def exComponent_def exDb_def
      edge_ok_def edgeEnds_def VERSION_LABEL_def js_def is_digit_def exVersion_ok identityKeyText_def
      identityInputOf_def presentText_def SBOM_IDENTITY_KEY_MAX_LENGTH_def componentOccurrenceNormalizationKey_def)

lemmas ex_env = exEnv_def exTables_def exPayload_def exJob_def

lemma ex_undisturbed: "undisturbed exEnv"
  by (simp add: undisturbed_def exEnv_def)

lemma ex_ready: "ready exEnv exPayload exJob exIngestion (exTables exIngestion)"
  using exTables_ok [OF ex_inv(1)]
  by (simp add: ready_def ex_env jobs.keyed_def jobEvents_def isSession8TerminalState_def session8IngestionTerminalStates_def)

lemma ex_claimable: "claimableJob (bjOrganizationId exJob) (bjId exJob) (peClock exEnv 1) exJob"
  by (simp add: claimableJob_def exJob_def)

lemma ex_lease: "\<forall>k. peSystemClock exEnv k < peClock exEnv 1 + peProcessingLeaseMs exEnv"
  by (simp add: exEnv_def)

lemma ex_uploaded: "uploaded exSbom exIngestion (exTables exIngestion)"
  by (simp add: uploaded_def exTables_def exSbom_def SHA256_HEX_PATTERN_def exDigest_def lower_hex_def list_all_iff)

lemma ex_delivers: "delivers exEnv exSbom [123, 32, 125]"
  by (simp add: delivers_def exEnv_def exSbom_def exLimits_def)

lemma ex_parses: "parses_to exEnv exIngestion exSbom [123, 32, 125] exGraph"
  by (simp add: parses_to_def exEnv_def)

subsection \<open>A failure that comes too late\<close>

text \<open>
  The answer of the transition is not read: a worker that lost its lease and fails after another worker
  has completed the ingestion still appends the audit event of a terminal failure and returns it, while
  the row stays completed.
\<close>

lemma late_failure_audited:
  assumes "undisturbed env" "ingestions.keyed (tbIngestions (pwTables w))" "r \<in> set (tbIngestions (pwTables w))"
    and "siOrganizationId r = pjOrganizationId (pfPayload input)" "siId r = pjAggregateId (pfPayload input)"
    and "UUID_PATTERN (siOrganizationId r)" "UUID_PATTERN (siId r)" "iState r = completed"
    and "scOutcome (classifySafeFailure (pfCode input)) \<noteq> retryable_infrastructure"
    and "run_state (finalizeByCode env input) w = (out, w')"
  shows "out = terminalOutcome (pfCode input)" "tbIngestions (pwTables w') = tbIngestions (pwTables w)"
    "tbAudits (pwTables w') = tbAudits (pwTables w) @ [terminalAudit input (peClock env (pwAccesses w))]"
proof -
  let ?now = "peClock env (pwAccesses w)"
  have "findIngestionById (siOrganizationId r) (siId r) (tbIngestions (pwTables w)) = Some r"
    using assms by (intro findIngestionById_row)
  moreover have "\<not> isCompleteCommand (terminalCommand (pfCode input) ?now)"
    by (simp add: terminalCommand_def split: safeFailureOutcome.splits)
  ultimately have "applyTransition (siOrganizationId r) (siId r) (pfIngestionVersion input)
      (terminalCommand (pfCode input) ?now) (tbIngestions (pwTables w)) = (Inl SBOM_TERMINAL_STATE, tbIngestions (pwTables w))"
    using assms by (simp add: applyTransition_def isSession8TerminalState_def session8IngestionTerminalStates_def)
  with assms show "out = terminalOutcome (pfCode input)" "tbIngestions (pwTables w') = tbIngestions (pwTables w)"
    "tbAudits (pwTables w') = tbAudits (pwTables w) @ [terminalAudit input ?now]"
    by (auto simp: finalizeByCode_def finalizeTerminal_def access_run clock_run terminalTransaction_def onIngestions_def
        onJobs_def Let_def split: prod.splits)
qed

subsection \<open>The theorems applied\<close>

lemma graph_stored_whole_witness:
  "\<exists>t'. persistOnceForIngestion exDb exInput 6000 (exTables exStarted) = (Inr (), t') \<and>
     (\<exists>r \<in> set (tbIngestions t'). siId r = exUuid 52 \<and> iState r = completed \<and> reads_as t' r exGraph)"
proof -
  have t: "tables_ok exDb (exTables exStarted)" using exTables_ok [OF ex_inv(2)] by simp
  obtain t' where run: "persistOnceForIngestion exDb exInput 6000 (exTables exStarted) = (Inr (), t')"
    by (rule persist_succeeds [OF t exDb_inj, of exStarted exInput exSbom 6000])
      (simp_all add: exTables_def exInput_def exSbom_def exGraph_storable)
  with graph_stored_whole [OF t exDb_inj run] show ?thesis by (auto simp: exTables_def exInput_def)
qed

lemma processing_keeps_tables_witness:
  "\<exists>out w'. run_state (processSbomIngestion exEnv exData) \<lparr>pwTables = exTables exIngestion, pwAccesses = 0\<rparr> = (out, w') \<and>
     tables_ok exDb (pwTables w')"
proof -
  let ?w = "\<lparr>pwTables = exTables exIngestion, pwAccesses = 0\<rparr>"
  obtain out w' where run: "run_state (processSbomIngestion exEnv exData) ?w = (out, w')" by fastforce
  have "peDb exEnv = exDb" by (simp add: exEnv_def)
  with processing_keeps_tables [OF _ _ undisturbed_others [OF ex_undisturbed] run] exTables_ok [OF ex_inv(1)] exDb_inj run
  show ?thesis by simp
qed

lemma processing_settles_witness:
  "\<exists>out w'. run_state (processSbomIngestion exEnv exData) \<lparr>pwTables = exTables exIngestion, pwAccesses = 0\<rparr> = (out, w') \<and>
     settled (exUuid 49) (exUuid 52) (exUuid 53) out (pwTables w')"
proof -
  let ?w = "\<lparr>pwTables = exTables exIngestion, pwAccesses = 0\<rparr>"
  obtain out w' where run: "run_state (processSbomIngestion exEnv exData) ?w = (out, w')" by fastforce
  with processing_settles [OF ex_undisturbed exData_parses ex_ready ex_claimable ex_lease run]
  show ?thesis by (simp add: exPayload_def exJob_def)
qed

lemma processing_completes_witness:
  "\<exists>w' r'. run_state (processSbomIngestion exEnv exData) \<lparr>pwTables = exTables exIngestion, pwAccesses = 0\<rparr> = (OutCompleted, w') \<and>
     r' \<in> set (tbIngestions (pwTables w')) \<and> siId r' = exUuid 52 \<and> iState r' = completed \<and> reads_as (pwTables w') r' exGraph"
proof -
  have "peDb exEnv = exDb" by (simp add: exEnv_def)
  with processing_completes [OF ex_undisturbed exData_parses ex_ready ex_claimable ex_lease _ ex_uploaded ex_delivers ex_parses]
    exDb_inj exGraph_storable
  show ?thesis by auto
qed

end
