(* ===== verification/Spec2Isabelle.thy ===== *)
theory Spec2Isabelle
  imports NpmAssess RemediationOrder SbomStructure FactAssembly KevNormalize RelayRuns IngestExamples
begin

text \<open>
  A verification development of PatchPilot, a TypeScript monorepo that ingests software bills of
  materials, matches their components against vulnerability advisories, and ranks the findings of an
  organization for remediation. The development models the program's core, from the pure decisions to the
  statements its workers send to the database, and proves it correct.

  \<^bold>\<open>The program's parts and how they meet.\<close> An uploaded CycloneDX document becomes an ingestion row
  whose life cycle is a state machine (\<^verbatim>\<open>packages/domain/src/sbom\<close>). A parser inspects the JSON, checks
  its schema and normalizes it to a component graph (\<^verbatim>\<open>packages/sbom/src\<close>), which is stored with the row.
  The upload only writes an event to an outbox table; a relay publishes it to a queue and creates a
  background job, and a worker claims the job under a lease, downloads the document, has it parsed and
  stores the graph in one transaction (\<^verbatim>\<open>relay.ts\<close> and \<^verbatim>\<open>ingest.ts\<close> of \<^verbatim>\<open>packages/domain/src/sbom\<close>, the
  adapters of \<^verbatim>\<open>packages/database/src\<close>).
  For an npm component the matcher decides whether an advisory's version ranges affect it
  (\<^verbatim>\<open>packages/vulnerability-intelligence/src/matching/first-ecosystem\<close>). A finding's facts are assembled
  from the asset, the evidence and the KEV catalog (\<^verbatim>\<open>packages/domain/src/risk\<close>) and handed to the policy
  engine (\<^verbatim>\<open>packages/policy-engine/src\<close>), which parses the facts, validates policies and computes a
  priority with its explanation; the remediation queue orders the results. The KEV catalog itself is
  kept current by synchronization runs (\<^verbatim>\<open>packages/domain/src/intelligence\<close>): a scheduler requests a run,
  a worker fetches a snapshot, parses it, stages its entries as a generation and activates it, and every
  step is a transition of the run.

  \<^bold>\<open>Theories.\<close>
  \<^item> \<open>Prelude\<close>: JavaScript strings as lists of UTF-16 code units, results as sums, the string
    primitives the sources use, the collections \<open>catalog_defs\<close> and \<open>eval_defs\<close>.
  \<^item> \<open>Comparators\<close>: the contract of three-way comparators as the locales \<open>preorder_cmp\<close> and
    \<open>total_cmp\<close>, with stable sorting and chained keys proved once; interpreted by the version
    comparison, the issue order, the string order and the remediation order.
  \<^item> \<open>CommandMachine\<close>: snapshots driven by commands, the shape of both life cycles, as the locales
    \<open>command_machine\<close> and \<open>ranked_machine\<close>; invariants and length bounds of histories, proved once and
    interpreted by the ingestion and the synchronization transitions.
  \<^item> \<open>TextPatterns\<close>, \<open>ObjectKeys\<close>: identifier patterns and the keys of the evidence store
    (\<^verbatim>\<open>sbom/object-keys.ts\<close>, \<^verbatim>\<open>intelligence/object-keys.ts\<close>); a key's tenant scope is the one it was built
    for, and tenant keys and catalog keys never meet.
  \<^item> \<open>NpmVersion\<close>, \<open>NpmCompare\<close>, \<open>NpmRanges\<close>, \<open>NpmBoundaries\<close>: \<^verbatim>\<open>version.ts\<close>, \<^verbatim>\<open>compare.ts\<close>,
    \<^verbatim>\<open>ranges.ts\<close>, \<^verbatim>\<open>boundaries.ts\<close> and \<^verbatim>\<open>outcomes.ts\<close> of the npm matcher. Classification round-trips with
    rendering, and comparison refines semantic-versioning precedence.
  \<^item> \<open>NpmTimeline\<close>, \<open>NpmIntervals\<close>, \<open>NpmDecision\<close>: what the events of an advisory range state, as a
    specification on the events and on precedence alone; the intervals the code compiles are the parts the
    events open and close, and a range compiles exactly when its events agree; the decision is the verdict
    of the events and the explicit versions.
  \<^item> \<open>NpmIdentity\<close>, \<open>NpmEvidence\<close>, \<open>NpmAssess\<close>: \<^verbatim>\<open>identity.ts\<close>, \<^verbatim>\<open>graphs.ts\<close> and \<^verbatim>\<open>assess.ts\<close>, from the
    untrusted request to the published evidence. Package identities and package URLs, the canonical texts
    behind the fingerprints (the locale \<open>prefix_code\<close> states what makes a concatenation of encoded parts
    readable), and the verdict of the whole pipeline.
  \<^item> \<open>JsValues\<close>, \<open>PolicyCatalog\<close>, \<open>PolicyFacts\<close>: untrusted JavaScript values (\<^verbatim>\<open>plain-data.ts\<close>), the
    closed vocabularies (\<^verbatim>\<open>catalog.ts\<close>) and the facts parser (\<^verbatim>\<open>facts.ts\<close>): what it accepts, which
    errors it reports, round trip.
  \<^item> \<open>PolicyDefinition\<close>, \<open>PolicyValidation\<close>, \<open>PolicyAcceptance\<close>: \<^verbatim>\<open>definition.ts\<close> and
    \<^verbatim>\<open>builtin-definition.ts\<close>. The locales \<open>collecting_step\<close> and \<open>validator\<close> state how a validator
    collects issues and are interpreted on each section of the validation; soundness, completeness and
    the built-in policy follow.
  \<^item> \<open>PolicyEvaluate\<close>, \<open>PolicyScoring\<close>, \<open>PolicyEngine\<close>: \<^verbatim>\<open>evaluate.ts\<close>. The evaluation formula, its
    bounds, bands, explanations and monotonicity; the engine as a state machine over its branded objects.
  \<^item> \<open>RemediationOrder\<close>: \<^verbatim>\<open>ordering.ts\<close> and \<^verbatim>\<open>remediation-queue-order.ts\<close>, the stored order as a
    refinement of the engine's.
  \<^item> \<open>DomainResult\<close>, \<open>SbomIngestion\<close>: application errors, the failure catalog, graph completeness and
    the ingestion transitions (\<^verbatim>\<open>failures.ts\<close>, \<^verbatim>\<open>graph-completeness.ts\<close>, \<^verbatim>\<open>transitions.ts\<close>). Reachable
    rows keep an invariant, the transitions refine the life cycle on states, no row gets stuck.
  \<^item> \<open>SbomGraph\<close>: component versions, identity keys and graph validation (\<^verbatim>\<open>version.ts\<close>,
    \<^verbatim>\<open>component.ts\<close>, \<^verbatim>\<open>graph.ts\<close>).
  \<^item> \<open>SbomNormalize\<close>, \<open>SbomCollapse\<close>, \<open>SbomDocuments\<close>: the normalizer (\<^verbatim>\<open>normalize-cyclonedx.ts\<close>,
    \<^verbatim>\<open>purl.ts\<close>); it delivers valid graphs only, accepts every document it should, stores exactly the
    listed dependencies and fails in closed ways.
  \<^item> \<open>SbomStructure\<close>: the limits on untrusted JSON (\<^verbatim>\<open>json-structure.ts\<close>).
  \<^item> \<open>FactAssembly\<close>: \<^verbatim>\<open>fact-assembly.ts\<close>, and the composition with the engine: assembled facts always
    parse and evaluate.
  \<^item> \<open>SyncFailures\<close>, \<open>SyncRun\<close>: the failure catalog and the transitions of a synchronization run
    (\<^verbatim>\<open>failures.ts\<close>, \<^verbatim>\<open>transitions.ts\<close>); produced runs keep a strong invariant, from which the code's
    own rechecks follow, and the transition function is exactly an abstract life cycle.
  \<^item> \<open>KevRecords\<close>: the normalizers and record checks of the KEV catalog (\<^verbatim>\<open>normalize.ts\<close>,
    \<^verbatim>\<open>records.ts\<close>).
  \<^item> \<open>SyncDecisions\<close>, \<open>SyncStaging\<close>, \<open>SyncSchedule\<close>: the worker's decisions and failure handling
    (\<^verbatim>\<open>sync-decisions.ts\<close>, \<^verbatim>\<open>sync-failures.ts\<close>, part of \<^verbatim>\<open>synchronize.ts\<close>), the resumable batch loop
    (\<^verbatim>\<open>staging-resume.ts\<close>, \<^verbatim>\<open>synchronize.ts\<close>) and the scheduler (\<^verbatim>\<open>due-decision.ts\<close>,
    \<^verbatim>\<open>schedule-window.ts\<close>, \<^verbatim>\<open>outbox.ts\<close>, \<^verbatim>\<open>scheduler.ts\<close>): failures land where the run accepts them,
    whichever handler a run is dispatched to; runs end, staging can always be resumed, one dedupe key per
    schedule window.
  \<^item> \<open>JsonDocuments\<close>, \<open>KevNormalize\<close>: parsed JSON documents, and the normalizer of the KEV catalog
    (\<^verbatim>\<open>normalize-kev.ts\<close>): a normalized catalog has one valid entry per item, strictly ordered and densely
    numbered whatever the order of the provider, and the staging loop stages it whole.
  \<^item> \<open>SqlTables\<close>: the statements of the adapters on tables as lists of rows, and the locale
    \<open>keyed_table\<close> for what a primary key gives; interpreted by every table below.
  \<^item> \<open>JobStore\<close>, \<open>OutboxStore\<close>, \<open>OutboxRelay\<close>, \<open>RelayRuns\<close>: \<^verbatim>\<open>background-job-execution.ts\<close>,
    \<^verbatim>\<open>outbox-relay-persistence.ts\<close>, \<^verbatim>\<open>relay.ts\<close> and \<^verbatim>\<open>bullmq-outbox-publisher.ts\<close>. Concurrent relays, workers and
    crashes are the step relation \<open>relay_step\<close>; an event is processed only when the queue holds its job,
    every job belongs to one processed event, a batch delivers what is due and repairs what crashed
    relays left, and a lease excludes other workers.
  \<^item> \<open>IngestionStore\<close>, \<open>GraphStore\<close>, \<open>GraphRuns\<close>, \<open>GraphSuccess\<close>: \<^verbatim>\<open>sbom-ingestion-persistence.ts\<close>,
    \<^verbatim>\<open>component-graph-persistence.ts\<close>, \<^verbatim>\<open>paging.ts\<close>. The transaction that stores a graph is all or nothing,
    the rows read back as the graph, and it succeeds for every graph that fits the columns.
  \<^item> \<open>IngestProcess\<close>, \<open>IngestSteps\<close>, \<open>IngestRuns\<close>, \<open>IngestExamples\<close>: \<^verbatim>\<open>ingest.ts\<close>, \<^verbatim>\<open>ingest-job.ts\<close>,
    \<^verbatim>\<open>object-bytes.ts\<close>, \<^verbatim>\<open>audit.ts\<close>, the processor as a state monad over the tables with other processes
    between its accesses. Every run is a sequence of \<open>sbom_step\<close>s and keeps what the tables promise; an
    undisturbed run settles its ingestion and its job the same way, and completes when nothing fails.

  \<^bold>\<open>Conventions.\<close> A \<^verbatim>\<open>Result\<close> is a sum with \<open>Inl\<close> for the error. Numbers that untrusted data can
  carry are \<open>jsnum\<close> (NaN, infinities, integers, fractions); counts and scores the code computes from
  lengths or checked integers are \<open>int\<close> or \<open>nat\<close>, far below 2^53. \<^verbatim>\<open>Object.freeze\<close> is the identity.
  There is no fuel: every recursive definition terminates, nested JSON recursion by the size of the
  document; only the staging loop, which would not end for an empty batch size, is a partial function,
  and it is proved to return for every positive one. A table is the list of its rows and a statement is
  atomic; a transaction that throws leaves the tables as they were, one that returns an error does not.

  \<^bold>\<open>Parameters.\<close> Code outside the repository is an argument: \<^verbatim>\<open>packageurl-js\<close> and the \<^verbatim>\<open>Date\<close> constructor
  are the fields of \<open>documentLibrary\<close>, and the only law assumed is \<open>library_ok\<close>, that a printed package
  URL is not empty. The npm evaluator takes the SHA-256 digest and the proxy test of the Node runtime
  (\<open>nodeRuntime\<close>). The synchronization worker and the scheduler take the answers of their ports
  (\<open>failurePorts\<close>, \<open>stagingPorts\<close>, the request port of the tick); the only law assumed is
  \<open>appends_batches\<close>, that an accepted batch is appended to the staged rows, next to
  \<open>dense_ordinals\<close>, that the parser numbers its entries from zero. The KEV normalizer takes the \<^verbatim>\<open>Date\<close>
  reading of an instant. The relay takes the queue, with the law \<open>queue_keeps\<close> that a job it accepted stays,
  the rows locked by others and the random numbers. The graph store takes the identifiers the database
  draws, assumed to be different, and which texts fit the columns (\<open>databaseEnv\<close>). The processor takes the
  object storage, the document parser, the digest, the clocks and what the other processes do between
  its accesses (\<open>processorEnv\<close>): any sequence of steps for the invariant, nothing for the theorems about one run.

  \<^bold>\<open>Findings.\<close> \<open>edge_key_drops_dependency\<close> and \<open>collapse_loses_component\<close> show two inputs where keys
  joined by an unescaped separator character merge different dependencies or components; the positive
  theorems state the separator condition. \<open>late_failure_audited\<close> shows that a worker which fails after another
  one has completed the ingestion still writes the audit event of a failure.

  \<^bold>\<open>Not modelled.\<close> HTTP routes, the web application, worker loops, authentication and configuration are
  effects or glue over third-party code. The JSON schema validation (ajv) and the parser thread protocol
  (zod, worker threads) are library calls. Of the synchronization worker, the HTTP fetch, the object
  storage and the parser thread are ports. Of the persistence adapters the outbox, the jobs, the ingestions
  and the component graph are modelled; of the insertion of a component the branch that loses a race is
  not. The OSV parsers, the outbox payloads, the provider status projections, the upload use case and the
  other adapters are left for extension.
\<close>

end
